(* ===== verification/Prelude.thy ===== *)
theory Prelude
  imports Main "HOL-Library.Multiset" "HOL-Library.Sublist" "HOL-Library.Word"
    "HOL-Library.List_Lexorder" "HOL-Library.Char_ord"
begin

text \<open>
  Shared vocabulary of the development: machine integers, byte strings, results, and the list
  lemmas that several components use.

  Conventions. A Rust \<open>u32\<close>, \<open>u64\<close> or \<open>usize\<close> is a natural number; the operations that can leave
  the range are written with their wrap-around (the release profile of the workspace does not
  enable overflow checks), the saturating ones with their bounds. Truncating subtraction on
  natural numbers is \<open>saturating_sub\<close>. A Rust \<open>String\<close> or \<open>&str\<close> is the list of its UTF-8 bytes
  (\<open>char\<close> is a byte), so \<open>length\<close> is \<open>str::len\<close>. An \<open>f32\<close> is its bit pattern.
  A \<open>Result<T, E>\<close> is a value of \<open>'e + 't\<close>.
\<close>

section \<open>Machine integers\<close>

type_synonym u32 = nat
type_synonym u64 = nat
type_synonym usize = nat

definition u64_max :: u64 where
  "u64_max = 2 ^ 64 - 1"

definition u32_max :: u32 where
  "u32_max = 2 ^ 32 - 1"

definition u64_add :: "u64 \<Rightarrow> u64 \<Rightarrow> u64" where
  "u64_add a b = (a + b) mod 2 ^ 64"

definition u64_sub :: "u64 \<Rightarrow> u64 \<Rightarrow> u64" where
  "u64_sub a b = (a + (2 ^ 64 - b mod 2 ^ 64)) mod 2 ^ 64"

definition u64_saturating_mul :: "u64 \<Rightarrow> u64 \<Rightarrow> u64" where
  "u64_saturating_mul a b = min (a * b) u64_max"

definition u32_checked_add :: "u32 \<Rightarrow> u32 \<Rightarrow> u32 option" where
  "u32_checked_add a b = (if a + b \<le> u32_max then Some (a + b) else None)"

definition u32_saturating_add :: "u32 \<Rightarrow> u32 \<Rightarrow> u32" where
  "u32_saturating_add a b = min (a + b) u32_max"

definition abs_diff :: "u64 \<Rightarrow> u64 \<Rightarrow> u64" where
  "abs_diff a b = (if a < b then b - a else a - b)"

lemma u64_add_exact [simp]: "a + b < 2 ^ 64 \<Longrightarrow> u64_add a b = a + b"
  by (simp add: u64_add_def)

lemma u64_sub_exact [simp]:
  assumes "b \<le> a" "a < 2 ^ 64"
  shows "u64_sub a b = a - b"
proof -
  have "a + (2 ^ 64 - b mod 2 ^ 64) = (a - b) + 2 ^ 64"
    using assms by simp
  then have "u64_sub a b = ((a - b) + 2 ^ 64) mod 2 ^ 64"
    unfolding u64_sub_def by (rule arg_cong)
  also have "\<dots> = (a - b) mod 2 ^ 64"
    by (rule mod_add_self2)
  also have "\<dots> = a - b"
    by (rule mod_less) (use assms in simp)
  finally show ?thesis .
qed

text \<open>
  Comparison of \<open>f32\<close> bit patterns. \<open>f32_key\<close> is the integer that \<open>f32::total_cmp\<close> compares: the
  pattern read as a signed integer, with the magnitude bits of negative numbers flipped.
\<close>

type_synonym f32 = "32 word"

definition f32_key :: "f32 \<Rightarrow> int" where
  "f32_key x = (if sint x < 0 then - (2 ^ 31) - 1 - sint x else sint x)"

definition f32_total_le :: "f32 \<Rightarrow> f32 \<Rightarrow> bool" where
  "f32_total_le a b = (f32_key a \<le> f32_key b)"

text \<open>The IEEE comparison \<open><\<close>: false when an operand is a NaN, and the two zeros are equal.\<close>

definition f32_magnitude :: "f32 \<Rightarrow> nat" where
  "f32_magnitude x = unat x mod 2 ^ 31"

definition f32_is_nan :: "f32 \<Rightarrow> bool" where
  "f32_is_nan x = (f32_magnitude x > 0x7F800000)"

definition f32_signed :: "f32 \<Rightarrow> int" where
  "f32_signed x = (if unat x < 2 ^ 31 then int (f32_magnitude x) else - int (f32_magnitude x))"

definition f32_lt :: "f32 \<Rightarrow> f32 \<Rightarrow> bool" where
  "f32_lt a b = (\<not> f32_is_nan a \<and> \<not> f32_is_nan b \<and> f32_signed a < f32_signed b)"

lemma f32_lt_irrefl [simp]: "\<not> f32_lt a a"
  by (simp add: f32_lt_def)

lemma f32_lt_trans: "f32_lt a b \<Longrightarrow> f32_lt b c \<Longrightarrow> f32_lt a c"
  by (auto simp: f32_lt_def)

lemma f32_total_le_linear: "f32_total_le a b \<or> f32_total_le b a"
  by (auto simp: f32_total_le_def)

lemma f32_total_le_trans: "f32_total_le a b \<Longrightarrow> f32_total_le b c \<Longrightarrow> f32_total_le a c"
  by (simp add: f32_total_le_def)

section \<open>Collections of facts\<close>

named_theorems conserve
  \<comment> \<open>a routine keeps the elements of its input: multisets, concatenations\<close>
named_theorems wf_intros
  \<comment> \<open>an operation keeps a well-formedness invariant\<close>

end
