(* ===== verification/Domain.thy ===== *)
theory Domain
  imports Prelude
begin

text \<open>
  The domain types of \<open>panops-core\<close> that the notes pipeline passes around:
  \<open>segment.rs\<close> (ASR segments and transcripts), \<open>diar.rs\<close> (speaker turns), \<open>vad.rs\<close> (speech
  regions), \<open>notes/ir.rs\<close> (the notes intermediate representation), \<open>notes/input.rs\<close>,
  \<open>notes/error.rs\<close>, \<open>asr.rs\<close>, \<open>llm.rs\<close> and \<open>notes/dialect.rs\<close>. Field names carry the name of
  their struct, because record fields share one name space.
\<close>

section \<open>Segments, transcripts, turns and regions\<close>

record segment =
  seg_start_ms :: u64
  seg_end_ms :: u64
  seg_text :: string
  seg_language :: "string option"
  seg_confidence :: f32
  seg_speaker_id :: "u32 option"

record transcript =
  tr_schema_version :: u32
  tr_model :: string
  tr_audio_path :: string
  tr_audio_duration_ms :: u64
  tr_diarized :: bool
  tr_segments :: "segment list"

record speaker_turn =
  turn_start_ms :: u64
  turn_end_ms :: u64
  turn_speaker_id :: u32

record speech_region =
  region_start_ms :: u64
  region_end_ms :: u64

definition clamp_to :: "speech_region \<Rightarrow> u64 \<Rightarrow> speech_region" where
  "clamp_to r ceiling_ms =
     \<lparr>region_start_ms = min (region_start_ms r) ceiling_ms,
      region_end_ms = min (region_end_ms r) ceiling_ms\<rparr>"

lemma clamp_to_idem [simp]: "clamp_to (clamp_to r c) c = clamp_to r c"
  by (simp add: clamp_to_def)

lemma clamp_to_bounds [simp]:
  "region_start_ms (clamp_to r c) \<le> c" "region_end_ms (clamp_to r c) \<le> c"
  by (simp_all add: clamp_to_def)

text \<open>
  Time well-formedness of ASR output: a segment ends no earlier than it starts, and its times fit
  in a \<open>u64\<close>.
\<close>

definition wf_segment :: "segment \<Rightarrow> bool" where
  "wf_segment s = (seg_start_ms s \<le> seg_end_ms s \<and> seg_end_ms s < 2 ^ 64)"

definition wf_region :: "speech_region \<Rightarrow> bool" where
  "wf_region r = (region_start_ms r < region_end_ms r)"

section \<open>Errors of the ports\<close>

datatype asr_error =
    AsrInvalidAudio string
  | AsrModel string
  | AsrTranscription string
  | AsrIo string
  | AsrAudioNotFound string

datatype diar_error =
    DiarAudioNotFound string
  | DiarInvalidAudio string
  | DiarModel string
  | DiarDiarization string
  | DiarIo string

datatype vad_error =
    VadModel string
  | VadInvalidAudio string
  | VadIo string

datatype llm_error =
    LlmNetwork string
  | LlmInvalidSchema string string
  | LlmEmptyResponse
  | LlmProviderError string
  | LlmCancelled

datatype notes_error =
    EmptyTranscript
  | NotesLlm llm_error
  | LlmUnavailable usize usize string
  | SchemaMismatch string string
  | InvalidInput string

datatype export_error =
    ExportIo string
  | ExportInvalidDest string
  | ExportRender string

section \<open>Notes intermediate representation\<close>

datatype markdown_dialect = NotionEnhanced | Basic

record action_item =
  ai_description :: string
  ai_owner :: "string option"
  ai_due :: "string option"

record screenshot =
  shot_ms :: u64
  shot_path :: string
  shot_caption :: "string option"

record notes_section =
  sec_index :: u32
  sec_title :: string
  sec_time_range_ms :: "u64 \<times> u64"
  sec_narrative_md :: string
  sec_key_points :: "string list"
  sec_action_items :: "action_item list"
  sec_screenshots :: "screenshot list"

record notes_frontmatter =
  fm_title :: string
  fm_date :: string
  fm_started_at :: string
  fm_duration_ms :: u64
  fm_speakers :: "string list"
  fm_languages :: "string list"
  fm_tags :: "string list"
  fm_template :: string
  fm_dialect :: markdown_dialect
  fm_panops_version :: string
  fm_source_audio :: "string option"

record structured_notes =
  sn_schema_version :: u32
  sn_frontmatter :: notes_frontmatter
  sn_sections :: "notes_section list"
  sn_language :: string
  sn_generated_at :: string

record meeting_metadata =
  mm_started_at :: string
  mm_duration_ms :: u64
  mm_source_path :: "string option"
  mm_language_hint :: "string option"

record notes_input =
  ni_transcript :: "segment list"
  ni_screenshots :: "screenshot list"
  ni_metadata :: meeting_metadata

definition transcript_schema_version :: u32 where
  "transcript_schema_version = 2"

definition notes_schema_version :: u32 where
  "notes_schema_version = 1"

end
