(* ===== verification/Rust_Strings.thy ===== *)
theory Rust_Strings
  imports Prelude
begin

text \<open>
  The string routines of the Rust standard library that the program uses, on UTF-8 byte strings:
  decimal formatting and parsing, zero padding, \<open>trim\<close>, \<open>strip_prefix\<close>, \<open>match_indices\<close>,
  \<open>replace\<close> of single bytes and the ASCII character classes.
\<close>

section \<open>Character classes\<close>

definition byte :: "char \<Rightarrow> nat" where
  "byte c = of_char c"

definition is_ascii_digit :: "char \<Rightarrow> bool" where
  "is_ascii_digit c = (48 \<le> byte c \<and> byte c \<le> 57)"

definition is_ascii_upper :: "char \<Rightarrow> bool" where
  "is_ascii_upper c = (65 \<le> byte c \<and> byte c \<le> 90)"

definition is_ascii_lower :: "char \<Rightarrow> bool" where
  "is_ascii_lower c = (97 \<le> byte c \<and> byte c \<le> 122)"

definition is_ascii_alphabetic :: "char \<Rightarrow> bool" where
  "is_ascii_alphabetic c = (is_ascii_upper c \<or> is_ascii_lower c)"

definition is_ascii_alphanumeric :: "char \<Rightarrow> bool" where
  "is_ascii_alphanumeric c = (is_ascii_alphabetic c \<or> is_ascii_digit c)"

definition to_ascii_lower :: "char \<Rightarrow> char" where
  "to_ascii_lower c = (if is_ascii_upper c then char_of (byte c + 32) else c)"

definition newline :: string where
  "newline = [CHR 0x0A]"

section \<open>Decimal numbers\<close>

definition digit_char :: "nat \<Rightarrow> char" where
  "digit_char d = char_of (48 + d)"

definition digit_value :: "char \<Rightarrow> nat" where
  "digit_value c = byte c - 48"

fun dec :: "nat \<Rightarrow> string" where
  "dec n = (if n < 10 then [digit_char n] else dec (n div 10) @ [digit_char (n mod 10)])"

declare dec.simps [simp del]

definition digits_value :: "string \<Rightarrow> nat" where
  "digits_value = foldl (\<lambda>acc c. 10 * acc + digit_value c) 0"

text \<open>\<open>str::parse::<u32>\<close>: an optional plus sign, at least one digit, no overflow.\<close>

definition parse_u32 :: "string \<Rightarrow> u32 option" where
  "parse_u32 s =
     (let ds = (case s of c # cs \<Rightarrow> if c = CHR ''+'' then cs else s | [] \<Rightarrow> [])
      in if ds \<noteq> [] \<and> list_all is_ascii_digit ds \<and> digits_value ds \<le> u32_max
         then Some (digits_value ds) else None)"

definition pad_zeros :: "nat \<Rightarrow> string \<Rightarrow> string" where
  "pad_zeros w s = replicate (w - length s) (CHR ''0'') @ s"

definition pad_spaces :: "nat \<Rightarrow> string \<Rightarrow> string" where
  "pad_spaces w s = replicate (w - length s) (CHR '' '') @ s"

lemma byte_char_of [simp]: "n < 256 \<Longrightarrow> byte (char_of n) = n"
  by (simp add: byte_def)

lemma digit_char_class [simp]: "d < 10 \<Longrightarrow> is_ascii_digit (digit_char d)"
  by (simp add: is_ascii_digit_def digit_char_def)

lemma digit_value_char [simp]: "d < 10 \<Longrightarrow> digit_value (digit_char d) = d"
  by (simp add: digit_value_def digit_char_def)

lemma dec_nonempty [simp]: "dec n \<noteq> []"
  by (subst dec.simps) simp

lemma digits_value_snoc [simp]: "digits_value (s @ [c]) = 10 * digits_value s + digit_value c"
  by (simp add: digits_value_def)

lemma digits_value_Nil [simp]: "digits_value [] = 0"
  by (simp add: digits_value_def)

lemma dec_digits: "list_all is_ascii_digit (dec n)"
proof (induction n rule: dec.induct)
  case (1 n)
  then show ?case by (cases "n < 10") (simp_all add: dec.simps [of n])
qed

lemma digits_value_dec [simp]: "digits_value (dec n) = n"
proof (induction n rule: dec.induct)
  case (1 n)
  then show ?case
    by (cases "n < 10") (simp_all add: dec.simps [of n] digits_value_def)
qed

lemma dec_inj: "dec a = dec b \<longleftrightarrow> a = b"
  using digits_value_dec by metis

lemma plus_not_digit [simp]: "\<not> is_ascii_digit (CHR ''+'')"
  by (simp add: is_ascii_digit_def byte_def)

lemma parse_u32_digits:
  "ds \<noteq> [] \<Longrightarrow> list_all is_ascii_digit ds \<Longrightarrow>
     parse_u32 ds = (if digits_value ds \<le> u32_max then Some (digits_value ds) else None)"
  by (cases ds) (auto simp: parse_u32_def Let_def)

lemma parse_u32_dec [simp]: "n \<le> u32_max \<Longrightarrow> parse_u32 (dec n) = Some n"
  by (simp add: parse_u32_digits dec_digits)

lemma takeWhile_digits:
  "list_all is_ascii_digit ds \<Longrightarrow> \<not> is_ascii_digit c \<Longrightarrow>
     takeWhile is_ascii_digit (ds @ c # r) = ds \<and> dropWhile is_ascii_digit (ds @ c # r) = c # r"
  by (simp add: list_all_iff)

lemma digits_value_zeros: "digits_value (replicate k (CHR ''0'') @ s) = digits_value s"
proof (induction k)
  case (Suc k)
  have "digits_value (CHR ''0'' # t) = digits_value t" for t
    by (simp add: digits_value_def digit_value_def byte_def)
  with Suc show ?case by simp
qed simp

lemma zero_digit: "is_ascii_digit (CHR ''0'')"
  by (simp add: is_ascii_digit_def byte_def)

lemma pad_zeros_digits: "list_all is_ascii_digit s \<Longrightarrow> list_all is_ascii_digit (pad_zeros w s)"
  by (auto simp: pad_zeros_def list_all_iff zero_digit)

lemma pad_zeros_value [simp]: "digits_value (pad_zeros w s) = digits_value s"
  by (simp add: pad_zeros_def digits_value_zeros)

lemma not_digits [simp]:
  "\<not> is_ascii_digit (CHR '':'')" "\<not> is_ascii_digit (CHR ''.'')" "\<not> is_ascii_digit (CHR ''-'')"
  "\<not> is_ascii_digit (CHR '']'')" "\<not> is_ascii_digit (CHR 0x0A)" "\<not> is_ascii_digit (CHR ''_'')"
  by (simp_all add: is_ascii_digit_def byte_def)

section \<open>Prefixes and occurrences\<close>

definition strip_prefix :: "string \<Rightarrow> string \<Rightarrow> string option" where
  "strip_prefix p s = (if prefix p s then Some (drop (length p) s) else None)"

lemma strip_prefix_append [simp]: "strip_prefix p (p @ r) = Some r"
  by (simp add: strip_prefix_def)

lemma strip_prefix_Some: "strip_prefix p s = Some r \<longleftrightarrow> s = p @ r"
  by (auto simp: strip_prefix_def prefix_def)

text \<open>
  \<open>str::match_indices\<close> of a non-empty pattern: the byte offsets of the non-overlapping occurrences,
  scanned from the left.
\<close>

fun match_from :: "string \<Rightarrow> nat \<Rightarrow> string \<Rightarrow> nat list" where
  "match_from pat i [] = []"
| "match_from pat i (c # cs) =
     (if prefix pat (c # cs) then i # match_from pat (i + length pat) (drop (length pat - 1) cs)
      else match_from pat (Suc i) cs)"

definition match_indices :: "string \<Rightarrow> string \<Rightarrow> nat list" where
  "match_indices s pat = match_from pat 0 s"

lemma prefix_no_overlap:
  assumes "p \<notin> set ps" and "prefix (p # ps) s" and "prefix (p # ps) (drop k s)"
  shows "k = 0 \<or> length (p # ps) \<le> k"
proof (rule ccontr)
  assume "\<not> (k = 0 \<or> length (p # ps) \<le> k)"
  then obtain j where k: "k = Suc j" "j < length ps"
    by (cases k) auto
  obtain t where s: "s = (p # ps) @ t"
    using assms(2) by (auto simp: prefix_def)
  have "hd (drop k s) = ps ! j"
    using k s by (simp add: hd_drop_conv_nth nth_append)
  moreover have "hd (drop k s) = p"
    using assms(3) by (auto simp: prefix_def)
  moreover have "ps ! j \<in> set ps"
    using k(2) by simp
  ultimately show False
    using assms(1) by simp
qed

text \<open>A pattern whose first byte does not recur has no overlapping occurrences: all are found.\<close>

lemma set_match_from:
  assumes "p \<notin> set ps"
  shows "set (match_from (p # ps) i s) = {i + k | k. prefix (p # ps) (drop k s)}"
proof (induction "p # ps" i s rule: match_from.induct)
  case (1 i)
  then show ?case by simp
next
  case (2 i c cs)
  show ?case
  proof (cases "prefix (p # ps) (c # cs)")
    case True
    let ?n = "length (p # ps)"
    have "set (match_from (p # ps) i (c # cs)) =
        insert i {i + ?n + k | k. prefix (p # ps) (drop (?n + k) (c # cs))}"
      using 2(1) [OF True] True by (simp add: add.commute)
    also have "\<dots> = {i + k | k. prefix (p # ps) (drop k (c # cs))}" (is "?L = ?R")
    proof
      show "?L \<subseteq> ?R"
        using True by (auto intro: exI [of _ 0] simp del: drop_Suc_Cons)
      show "?R \<subseteq> ?L"
      proof
        fix x assume "x \<in> ?R"
        then obtain k where k: "x = i + k" "prefix (p # ps) (drop k (c # cs))"
          by auto
        then consider "k = 0" | "?n \<le> k"
          using prefix_no_overlap [OF assms True] by blast
        then show "x \<in> ?L"
        proof cases
          case 2
          then show ?thesis
            using k by (auto intro!: exI [of _ "k - ?n"] simp del: drop_Suc_Cons)
        qed (use k in simp)
      qed
    qed
    finally show ?thesis .
  next
    case False
    have "{i + k | k. prefix (p # ps) (drop k (c # cs))} =
        {Suc i + k | k. prefix (p # ps) (drop k cs)}" (is "?L = ?R")
    proof
      show "?L \<subseteq> ?R"
      proof
        fix x assume "x \<in> ?L"
        then obtain k where k: "x = i + k" "prefix (p # ps) (drop k (c # cs))"
          by auto
        with False obtain m where "k = Suc m"
          by (cases k) auto
        with k show "x \<in> ?R"
          by auto
      qed
      have "Suc i + k \<in> ?L" if "prefix (p # ps) (drop k cs)" for k
        using that by (intro CollectI exI [of _ "Suc k"]) simp
      then show "?R \<subseteq> ?L"
        by auto
    qed
    then show ?thesis
      by (simp only: match_from.simps if_not_P [OF False] 2(2) [OF False])
  qed
qed

lemma set_match_indices:
  "p \<notin> set ps \<Longrightarrow> set (match_indices s (p # ps)) = {k. prefix (p # ps) (drop k s)}"
  by (simp add: match_indices_def set_match_from)

section \<open>Trimming\<close>

text \<open>
  \<open>char::is_whitespace\<close> is the Unicode property White\_Space: these are the UTF-8 encodings of its
  25 characters. \<open>trim_start\<close> and \<open>trim_end\<close> strip them one at a time.
\<close>

definition whitespace_encodings :: "string list" where
  "whitespace_encodings =
     [[CHR 0x09], [CHR 0x0A], [CHR 0x0B], [CHR 0x0C], [CHR 0x0D], [CHR 0x20],
      [CHR 0xC2, CHR 0x85], [CHR 0xC2, CHR 0xA0], [CHR 0xE1, CHR 0x9A, CHR 0x80],
      [CHR 0xE2, CHR 0x80, CHR 0x80], [CHR 0xE2, CHR 0x80, CHR 0x81],
      [CHR 0xE2, CHR 0x80, CHR 0x82], [CHR 0xE2, CHR 0x80, CHR 0x83],
      [CHR 0xE2, CHR 0x80, CHR 0x84], [CHR 0xE2, CHR 0x80, CHR 0x85],
      [CHR 0xE2, CHR 0x80, CHR 0x86], [CHR 0xE2, CHR 0x80, CHR 0x87],
      [CHR 0xE2, CHR 0x80, CHR 0x88], [CHR 0xE2, CHR 0x80, CHR 0x89],
      [CHR 0xE2, CHR 0x80, CHR 0x8A], [CHR 0xE2, CHR 0x80, CHR 0xA8],
      [CHR 0xE2, CHR 0x80, CHR 0xA9], [CHR 0xE2, CHR 0x80, CHR 0xAF],
      [CHR 0xE2, CHR 0x81, CHR 0x9F], [CHR 0xE3, CHR 0x80, CHR 0x80]]"

fun strip_one :: "string list \<Rightarrow> string \<Rightarrow> string option" where
  "strip_one [] s = None"
| "strip_one (w # ws) s = (if prefix w s then Some (drop (length w) s) else strip_one ws s)"

lemma strip_one_shorter:
  "strip_one ws s = Some r \<Longrightarrow> [] \<notin> set ws \<Longrightarrow> length r < length s"
  by (induction ws) (auto simp: prefix_def split: if_splits)

lemma strip_one_suffix: "strip_one ws s = Some r \<Longrightarrow> \<exists>w \<in> set ws. s = w @ r"
  by (induction ws) (auto simp: prefix_def split: if_splits)

function strip_all :: "string list \<Rightarrow> string \<Rightarrow> string" where
  "strip_all ws s =
     (if [] \<in> set ws then s
      else case strip_one ws s of None \<Rightarrow> s | Some r \<Rightarrow> strip_all ws r)"
  by pat_completeness auto
termination
  by (relation "measure (\<lambda>(ws, s). length s)") (auto dest: strip_one_shorter)

declare strip_all.simps [simp del]

definition trim_start :: "string \<Rightarrow> string" where
  "trim_start s = strip_all whitespace_encodings s"

definition trim_end :: "string \<Rightarrow> string" where
  "trim_end s = rev (strip_all (map rev whitespace_encodings) (rev s))"

definition trim :: "string \<Rightarrow> string" where
  "trim s = trim_end (trim_start s)"

definition blank :: "string \<Rightarrow> bool" where
  "blank s = (trim s = [])"

lemma strip_all_suffix: "\<exists>p. s = p @ strip_all ws s"
proof (induction ws s rule: strip_all.induct)
  case (1 ws s)
  show ?case
  proof (cases "[] \<in> set ws \<or> strip_one ws s = None")
    case True
    then show ?thesis
      by (intro exI [of _ "[]"]) (auto simp: strip_all.simps [of ws s])
  next
    case False
    then obtain r where r: "[] \<notin> set ws" "strip_one ws s = Some r"
      by auto
    then obtain p where "r = p @ strip_all ws r"
      using 1 by blast
    moreover obtain w where "s = w @ r"
      using strip_one_suffix [OF r(2)] by blast
    moreover have "strip_all ws s = strip_all ws r"
      using r by (simp add: strip_all.simps [of ws s])
    ultimately have "s = (w @ p) @ strip_all ws s"
      by simp
    then show ?thesis
      by blast
  qed
qed

text \<open>Trimming removes a prefix and a suffix only.\<close>

lemma trim_infix: "\<exists>p q. s = p @ trim s @ q"
proof -
  obtain p where p: "s = p @ trim_start s"
    using strip_all_suffix [of s whitespace_encodings] by (auto simp: trim_start_def)
  obtain q where "rev (trim_start s) =
      q @ strip_all (map rev whitespace_encodings) (rev (trim_start s))"
    using strip_all_suffix by blast
  then have "trim_start s = trim s @ rev q"
    unfolding trim_def trim_end_def by (metis rev_append rev_rev_ident)
  with p show ?thesis
    by metis
qed

section \<open>Replacing and joining\<close>

text \<open>\<open>s.replace(['\n', '\r'], " ")\<close> acts on single bytes.\<close>

definition replace_bytes :: "char list \<Rightarrow> string \<Rightarrow> string \<Rightarrow> string" where
  "replace_bytes cs new s = concat (map (\<lambda>c. if c \<in> set cs then new else [c]) s)"

fun join :: "string \<Rightarrow> string list \<Rightarrow> string" where
  "join sep [] = []"
| "join sep [x] = x"
| "join sep (x # y # ys) = x @ sep @ join sep (y # ys)"

text \<open>The label prefix that notes, prompts and transcripts share.\<close>

definition speaker_prefix :: string where
  "speaker_prefix = ''speaker_''"

lemma length_speaker_prefix [simp]: "length speaker_prefix = 8"
  by (simp add: speaker_prefix_def)

lemma speaker_prefix_nonempty [simp]: "speaker_prefix \<noteq> []"
  by (simp add: speaker_prefix_def)

text \<open>The first byte of the prefix does not recur in it, so its occurrences never overlap.\<close>

lemma set_speaker_matches:
  "set (match_indices s speaker_prefix) = {k. prefix speaker_prefix (drop k s)}"
  unfolding speaker_prefix_def by (rule set_match_indices) simp

definition speaker_label :: "u32 option \<Rightarrow> string" where
  "speaker_label i = (case i of Some n \<Rightarrow> speaker_prefix @ dec n | None \<Rightarrow> ''unknown'')"

end
