(* ===== verification/Llm_Port.thy ===== *)
theory Llm_Port
  imports Domain Rust_Strings
begin

text \<open>
  The LLM port, \<open>panops-core/src/llm.rs\<close>: requests, responses and the text of errors. A provider
  is a parameter of the definitions that call it. \<open>json\<close> is \<open>serde_json::Value\<close>; the serializer
  \<open>serde_json::to_string\<close> is third-party code and a parameter \<open>json_text\<close> where it is used.
\<close>

section \<open>JSON values\<close>

text \<open>An object is an association list; \<open>json_get\<close> is \<open>Value::get\<close> with a string key.\<close>

datatype json =
    JNull
  | JBool bool
  | JNumber int
  | JString string
  | JArray "json list"
  | JObject "(string \<times> json) list"

fun json_get :: "string \<Rightarrow> json \<Rightarrow> json option" where
  "json_get k (JObject kvs) = map_of kvs k"
| "json_get k _ = None"

fun as_str :: "json \<Rightarrow> string option" where
  "as_str (JString s) = Some s"
| "as_str _ = None"

fun as_array :: "json \<Rightarrow> json list option" where
  "as_array (JArray xs) = Some xs"
| "as_array _ = None"

fun as_object :: "json \<Rightarrow> (string \<times> json) list option" where
  "as_object (JObject kvs) = Some kvs"
| "as_object _ = None"

text \<open>\<open>v.get(k).and_then(as_str)\<close> and the like, which the callers chain.\<close>

definition get_str :: "string \<Rightarrow> json \<Rightarrow> string option" where
  "get_str k v = Option.bind (json_get k v) as_str"

definition get_array :: "string \<Rightarrow> json \<Rightarrow> json list option" where
  "get_array k v = Option.bind (json_get k v) as_array"

definition unwrap_or :: "'a \<Rightarrow> 'a option \<Rightarrow> 'a" where
  "unwrap_or d x = (case x of None \<Rightarrow> d | Some y \<Rightarrow> y)"

lemma unwrap_or_simps [simp]: "unwrap_or d None = d" "unwrap_or d (Some y) = y"
  by (simp_all add: unwrap_or_def)

definition get_strings :: "string \<Rightarrow> json \<Rightarrow> string list" where
  "get_strings k v = unwrap_or [] (map_option (List.map_filter as_str) (get_array k v))"

section \<open>Requests, responses and errors\<close>

record llm_request =
  req_system :: "string option"
  req_user :: string
  req_schema :: "json option"
  req_temperature :: f32
  req_max_tokens :: u32

datatype llm_response = LlmText string | LlmJson json

type_synonym llm_result = "llm_error + llm_response"

definition llm_error_text :: "llm_error \<Rightarrow> string" where
  "llm_error_text e =
     (case e of
        LlmNetwork m \<Rightarrow> ''network: '' @ m
      | LlmInvalidSchema expected got \<Rightarrow>
          ''invalid schema: expected '' @ expected @ '', got '' @ got
      | LlmEmptyResponse \<Rightarrow> ''empty response''
      | LlmProviderError m \<Rightarrow> ''provider: '' @ m
      | LlmCancelled \<Rightarrow> ''cancelled'')"

lemma llm_error_text_nonempty [simp]: "llm_error_text e \<noteq> []"
  by (cases e) (simp_all add: llm_error_text_def)

text \<open>
  \<open>prompt_fingerprint\<close>: SHA-256 is third-party code; its lower-case hexadecimal digest is the
  parameter \<open>sha256_hex\<close>.
\<close>

definition prompt_fingerprint ::
  "(string \<Rightarrow> string) \<Rightarrow> string option \<Rightarrow> string \<Rightarrow> string" where
  "prompt_fingerprint sha256_hex system user =
     sha256_hex (unwrap_or [] system @ newline @ ''---'' @ newline @ user)"

end
