(* ===== verification/Prompts.thy ===== *)
theory Prompts
  imports Llm_Port
begin

text \<open>
  \<open>panops-core/src/notes/prompts.rs\<close> and the cheat sheets of \<open>notes/dialect.rs\<close>: rendering of
  transcripts, the three prompts, their schemas, the size estimates, and the chunking of a long
  section at segment boundaries.
\<close>

section \<open>Bytes that string literals cannot show\<close>

definition dquote :: string where
  "dquote = [CHR 0x22]"

definition squote :: string where
  "squote = [CHR 0x27]"

definition en_dash :: string where
  "en_dash = [CHR 0xE2, CHR 0x80, CHR 0x93]"

definition em_dash :: string where
  "em_dash = [CHR 0xE2, CHR 0x80, CHR 0x94]"

definition ellipsis :: string where
  "ellipsis = [CHR 0xE2, CHR 0x80, CHR 0xA6]"

definition target_emoji :: string where
  "target_emoji = [CHR 0xF0, CHR 0x9F, CHR 0x8E, CHR 0xAF]"

section \<open>Dialects\<close>

definition cheat_sheet_notion_enhanced :: string where
  "cheat_sheet_notion_enhanced =
     ''You are emitting Notion-flavored markdown. Allowed constructs:'' @ newline @
     ''- CommonMark: headings (#, ##, ###), lists (-, 1.), tables, fenced code blocks, blockquotes, links, images.'' @
     newline @
     ''- <callout icon='' @ dquote @ target_emoji @ dquote @ ''>'' @ ellipsis @
     ''</callout> for highlighted notes.'' @ newline @
     ''- <details><summary>Title</summary>'' @ ellipsis @
     ''</details> for collapsible blocks.'' @ newline @
     ''- <table>'' @ ellipsis @ ''</table> with explicit <tr>/<td> for rich tables.'' @ newline @
     ''- {color='' @ dquote @ ''red'' @ dquote @
     ''} after a paragraph or heading for block colors.'' @ newline @
     ''- Inline mentions: @user, @date.'' @ newline @
     ''NEVER emit raw HTML beyond the listed tags. NEVER nest callouts.'' @ newline"

definition cheat_sheet_basic :: string where
  "cheat_sheet_basic =
     ''You are emitting strict CommonMark. Allowed constructs:'' @ newline @
     ''- Headings (#, ##, ###).'' @ newline @
     ''- Unordered lists (-) and ordered lists (1.).'' @ newline @
     ''- Pipe tables.'' @ newline @
     ''- Fenced code blocks with language tags.'' @ newline @
     ''- Blockquotes (>).'' @ newline @
     ''- Links and image embeds.'' @ newline @
     ''NEVER emit HTML tags, callouts, color attributes, or Notion-specific extensions.'' @
     newline @
     ''This is for Obsidian / GitHub / vanilla CommonMark viewers.'' @ newline"

definition cheat_sheet :: "markdown_dialect \<Rightarrow> string" where
  "cheat_sheet d =
     (case d of NotionEnhanced \<Rightarrow> cheat_sheet_notion_enhanced | Basic \<Rightarrow> cheat_sheet_basic)"

definition dialect_as_str :: "markdown_dialect \<Rightarrow> string" where
  "dialect_as_str d = (case d of NotionEnhanced \<Rightarrow> ''notion-enhanced'' | Basic \<Rightarrow> ''basic'')"

section \<open>Constants and schemas\<close>

definition section_narrative_temperature :: f32 where
  "section_narrative_temperature = 0x3F19999A"

definition frontmatter_temperature :: f32 where
  "frontmatter_temperature = 0x3E99999A"

definition section_narrative_max_tokens :: u32 where
  "section_narrative_max_tokens = 2048"

definition frontmatter_max_tokens :: u32 where
  "frontmatter_max_tokens = 512"

definition section_chunk_threshold_chars :: usize where
  "section_chunk_threshold_chars = 8000"

definition section_chunk_target_chars :: usize where
  "section_chunk_target_chars = 4000"

definition segment_line_overhead :: usize where
  "segment_line_overhead = 20"

definition split_gap_threshold_ms :: u64 where
  "split_gap_threshold_ms = 2000"

record section_summary =
  sum_title :: string
  sum_key_points :: "string list"

definition section_narrative_system :: string where
  "section_narrative_system =
     ''You are an expert meeting-notes writer. You receive a diarized transcript'' @ newline @
     ''section and produce a structured narrative summary. You write in clear,'' @ newline @
     ''neutral prose. You NEVER attribute a quote or statement to a specific speaker'' @
     newline @
     ''unless that segment carries a confirmed speaker_id from diarization. When'' @ newline @
     ''attribution is ambiguous, write in passive voice ('' @ dquote @ ''the team discussed'' @
     dquote @ '', '' @ dquote @ ''a'' @ newline @
     ''concern was raised'' @ dquote @ '', '' @ dquote @ ''it was proposed that'' @ dquote @
     ''). You return a single JSON object'' @ newline @
     ''with the schema you are given.''"

definition frontmatter_system :: string where
  "frontmatter_system =
     ''You are an expert meeting-notes editor. You receive a list of section titles'' @ newline @
     ''and key points and produce a meeting title and tag list. Title is concise'' @ newline @
     ''(<=80 chars), descriptive, neutral. Tags are lowercase kebab-case, max 10,'' @ newline @
     ''factual (no marketing). You return a single JSON object with the schema you'' @ newline @
     ''are given.''"

definition string_schema :: json where
  "string_schema = JObject [(''type'', JString ''string'')]"

definition section_narrative_schema :: json where
  "section_narrative_schema = JObject
     [(''type'', JString ''object''),
      (''required'', JArray [JString ''title'', JString ''narrative_md'', JString ''key_points'',
                             JString ''action_items'']),
      (''properties'', JObject
        [(''title'', string_schema),
         (''narrative_md'', string_schema),
         (''key_points'', JObject [(''type'', JString ''array''), (''items'', string_schema)]),
         (''action_items'', JObject
           [(''type'', JString ''array''),
            (''items'', JObject
              [(''type'', JString ''object''),
               (''required'', JArray [JString ''description'']),
               (''properties'', JObject
                 [(''description'', string_schema),
                  (''owner'', JObject
                    [(''type'', JArray [JString ''string'', JString ''null''])])])])])])]"

definition frontmatter_schema :: json where
  "frontmatter_schema = JObject
     [(''type'', JString ''object''),
      (''required'', JArray [JString ''title'', JString ''tags'']),
      (''properties'', JObject
        [(''title'', string_schema),
         (''tags'', JObject [(''type'', JString ''array''), (''items'', string_schema)])])]"

section \<open>Transcripts\<close>

definition render_line :: "segment \<Rightarrow> string" where
  "render_line seg =
     ''['' @ pad_spaces 4 (dec (seg_start_ms seg div 1000)) @ en_dash @
     pad_spaces 4 (dec (seg_end_ms seg div 1000)) @ ''s] '' @
     speaker_label (seg_speaker_id seg) @ '': '' @ seg_text seg @ newline"

definition render_transcript :: "segment list \<Rightarrow> string" where
  "render_transcript segments = concat (map render_line segments)"

definition estimate_segment_chars :: "segment \<Rightarrow> usize" where
  "estimate_segment_chars s = length (seg_text s) + segment_line_overhead"

definition estimate_transcript_chars :: "segment list \<Rightarrow> usize" where
  "estimate_transcript_chars segments = sum_list (map estimate_segment_chars segments)"

definition estimate_chunk_summary_chars :: "(json \<Rightarrow> string) \<Rightarrow> json \<Rightarrow> usize" where
  "estimate_chunk_summary_chars json_text summary = length (json_text summary)"

section \<open>The prompts\<close>

definition build_section_narrative_prompt ::
  "segment list \<Rightarrow> markdown_dialect \<Rightarrow> string \<Rightarrow> llm_request" where
  "build_section_narrative_prompt segments dialect language =
     (let transcript = render_transcript segments;
          cheat = cheat_sheet dialect;
          user =
     ''Section transcript (diarized; speaker_X is a stable label per voice):'' @ newline @
     newline @
     transcript @ newline @
     ''Markdown dialect for `narrative_md`:'' @ newline @
     cheat @ newline @
     ''CRITICAL: write the ENTIRE output (title, narrative_md, key_points,'' @ newline @
     ''action_items) in '' @ language @ ''. Do NOT translate to English; keep the'' @ newline @
     ''speakers'' @ squote @ '' original language.'' @ newline @
     newline @
     ''Speaker attribution rule (STRICT): never attribute a quote to a speaker_id'' @ newline @
     ''that does not appear in the transcript. When in doubt, use passive voice.'' @ newline @
     newline @
     ''Non-duplication rule (STRICT): `narrative_md`, `key_points`, and `action_items`'' @
     newline @
     ''must NOT restate the same facts in different shapes. They are three'' @ newline @
     ''distinct views of the section:'' @ newline @
     ''- `narrative_md`: connective prose '' @ em_dash @
     '' context, who arrived/left, how the'' @ newline @
     ''conversation moved, transitions between topics, mood/tone where it'' @ newline @
     ''matters. NO bullet lists. NO embedded '' @ dquote @ ''Key points:'' @ dquote @ '' or '' @
     dquote @ ''Action items:'' @ dquote @ newline @
     ''sections. Do NOT restate the bullets in prose form.'' @ newline @
     ''- `key_points`: durable takeaways the reader scans for later '' @ em_dash @ '' facts,'' @
     newline @
     ''numbers, decisions, named outcomes. Punchy and self-contained. Each'' @ newline @
     ''bullet is a fact that does NOT appear (in any paraphrase) in'' @ newline @
     ''`narrative_md`.'' @ newline @
     ''- `action_items`: explicit commitments '' @ em_dash @ '' '' @ dquote @
     ''who will do what by when'' @ dquote @ ''.'' @ newline @
     ''A commitment that is also a key takeaway belongs HERE, not in'' @ newline @
     ''`key_points`. Owner is a speaker_id (or null when unassigned).'' @ newline @
     newline @
     ''Return JSON matching exactly:'' @ newline @
     ''{'' @ newline @
     ''  '' @ dquote @ ''title'' @ dquote @ '': '' @ dquote @
     ''string (descriptive, <80 chars)'' @ dquote @ '','' @ newline @
     ''  '' @ dquote @ ''narrative_md'' @ dquote @ '': '' @ dquote @ ''string (prose only '' @
     em_dash @ '' no bullets '' @ em_dash @
     '' in the dialect above; up to 400 words, scaled to section length)'' @ dquote @ '','' @
     newline @
     ''  '' @ dquote @ ''key_points'' @ dquote @ '': ['' @ dquote @ ''string'' @ dquote @
     '', ...] (0'' @ en_dash @ ''6 short bullets, each a fact NOT in narrative_md),'' @ newline @
     ''  '' @ dquote @ ''action_items'' @ dquote @ '': [{'' @ dquote @ ''description'' @ dquote @
     '': '' @ dquote @ ''string'' @ dquote @ '', '' @ dquote @ ''owner'' @ dquote @ '': '' @
     dquote @ ''speaker_0'' @ dquote @ ''}] or [{'' @ dquote @ ''description'' @ dquote @
     '': '' @ dquote @ ''string'' @ dquote @ '', '' @ dquote @ ''owner'' @ dquote @
     '': null}]'' @ newline @
     ''}''
      in \<lparr>req_system = Some section_narrative_system, req_user = user,
          req_schema = Some section_narrative_schema,
          req_temperature = section_narrative_temperature,
          req_max_tokens = section_narrative_max_tokens\<rparr>)"

definition summary_lines :: "nat \<Rightarrow> section_summary \<Rightarrow> string" where
  "summary_lines i sm =
     ''Section '' @ dec (i + 1) @ '': '' @ sum_title sm @ newline @
     concat (map (\<lambda>kp. ''  - '' @ kp @ newline) (sum_key_points sm))"

definition build_frontmatter_prompt ::
  "section_summary list \<Rightarrow> string \<Rightarrow> u64 \<Rightarrow> llm_request" where
  "build_frontmatter_prompt summaries language duration_ms =
     (let s = concat (map (\<lambda>(i, sm). summary_lines i sm) (enumerate 0 summaries));
          user =
     ''Section summaries:'' @ newline @
     newline @
     s @ newline @
     ''CRITICAL: write the title in '' @ language @ ''. Do NOT translate to English;'' @
     newline @
     ''keep the speakers'' @ squote @ '' original language.'' @ newline @
     ''Meeting duration: '' @ dec duration_ms @ '' ms'' @ newline @
     newline @
     ''Return JSON matching exactly:'' @ newline @
     ''{'' @ newline @
     ''  '' @ dquote @ ''title'' @ dquote @ '': '' @ dquote @
     ''string (<=80 chars, descriptive, in '' @ language @ '')'' @ dquote @ '','' @ newline @
     ''  '' @ dquote @ ''tags'' @ dquote @ '': ['' @ dquote @ ''lowercase-kebab-case'' @ dquote @
     '', ...] (max 10)'' @ newline @
     ''}''
      in \<lparr>req_system = Some frontmatter_system, req_user = user,
          req_schema = Some frontmatter_schema, req_temperature = frontmatter_temperature,
          req_max_tokens = frontmatter_max_tokens\<rparr>)"

definition summary_action_text :: "json \<Rightarrow> string option" where
  "summary_action_text x =
     Option.bind (as_object x) (\<lambda>obj.
     Option.bind (map_of obj ''description'') (\<lambda>d.
     Option.bind (as_str d) (\<lambda>desc.
       let owner = Option.bind (map_of obj ''owner'') as_str
       in Some (''- '' @ desc @ '' (owner: '' @ unwrap_or ''unassigned'' owner @ '')''))))"

definition chunk_summary_lines :: "nat \<Rightarrow> json \<Rightarrow> string" where
  "chunk_summary_lines i summary =
     (let title = unwrap_or ''Untitled chunk'' (get_str ''title'' summary);
          narrative = unwrap_or [] (get_str ''narrative_md'' summary);
          key_points = get_strings ''key_points'' summary;
          action_items = unwrap_or [] (map_option (List.map_filter summary_action_text)
            (get_array ''action_items'' summary))
      in ''Chunk '' @ dec (i + 1) @ '':'' @ newline @
         ''  Title: '' @ title @ newline @
         ''  Narrative: '' @ narrative @ newline @
         concat (map (\<lambda>kp. ''  Key point: '' @ kp @ newline) key_points) @
         concat (map (\<lambda>ai. ''  Action: '' @ ai @ newline) action_items) @
         newline)"

definition build_merge_section_prompt ::
  "json list \<Rightarrow> markdown_dialect \<Rightarrow> string \<Rightarrow> llm_request" where
  "build_merge_section_prompt chunk_summaries dialect language =
     (let summaries_text =
            concat (map (\<lambda>(i, v). chunk_summary_lines i v) (enumerate 0 chunk_summaries));
          cheat = cheat_sheet dialect;
          user =
     ''Sub-chunk summaries (ordered chronologically):'' @ newline @
     newline @
     summaries_text @ newline @
     ''Markdown dialect for `narrative_md`:'' @ newline @
     cheat @ newline @
     ''CRITICAL: write the ENTIRE output (title, narrative_md, key_points,'' @ newline @
     ''action_items) in '' @ language @ ''. Do NOT translate to English; keep the'' @ newline @
     ''speakers'' @ squote @ '' original language.'' @ newline @
     newline @
     ''Merge these sub-chunks into a single unified section summary.'' @ newline @
     ''- Combine narratives into flowing prose (no bullet lists).'' @ newline @
     ''- Deduplicate key_points: keep distinct facts, merge overlapping.'' @ newline @
     ''- Deduplicate action_items: keep distinct commitments.'' @ newline @
     ''- Title should represent the unified theme.'' @ newline @
     newline @
     ''Return JSON matching exactly:'' @ newline @
     ''{'' @ newline @
     ''  '' @ dquote @ ''title'' @ dquote @ '': '' @ dquote @
     ''string (descriptive, <80 chars)'' @ dquote @ '','' @ newline @
     ''  '' @ dquote @ ''narrative_md'' @ dquote @ '': '' @ dquote @
     ''string (prose only, in the dialect above)'' @ dquote @ '','' @ newline @
     ''  '' @ dquote @ ''key_points'' @ dquote @ '': ['' @ dquote @ ''string'' @ dquote @
     '', ...],'' @ newline @
     ''  '' @ dquote @ ''action_items'' @ dquote @ '': [{'' @ dquote @ ''description'' @ dquote @
     '': '' @ dquote @ ''string'' @ dquote @ '', '' @ dquote @ ''owner'' @ dquote @ '': '' @
     dquote @ ''speaker_0'' @ dquote @ ''}] or [{'' @ dquote @ ''description'' @ dquote @
     '': '' @ dquote @ ''string'' @ dquote @ '', '' @ dquote @ ''owner'' @ dquote @
     '': null}]'' @ newline @
     ''}''
      in \<lparr>req_system = Some section_narrative_system, req_user = user,
          req_schema = Some section_narrative_schema,
          req_temperature = section_narrative_temperature,
          req_max_tokens = section_narrative_max_tokens\<rparr>)"

section \<open>Chunking\<close>

text \<open>The loop over the segments, with its \<open>current\<close>, \<open>current_chars\<close> and \<open>chunks\<close>.\<close>

fun chunk_loop ::
  "usize \<Rightarrow> usize \<Rightarrow> segment list list \<Rightarrow> segment list \<Rightarrow> usize \<Rightarrow> segment list
   \<Rightarrow> segment list list" where
  "chunk_loop target_chars max_chars chunks current current_chars [] =
     (if current \<noteq> [] then chunks @ [current] else chunks)"
| "chunk_loop target_chars max_chars chunks current current_chars (seg # rest) =
     (let seg_chars = estimate_segment_chars seg;
          (chunks, current, current_chars) =
            (if max_chars < current_chars + seg_chars \<and> current \<noteq> []
             then (chunks @ [current], [], 0) else (chunks, current, current_chars));
          (chunks, current, current_chars) =
            (if target_chars \<le> current_chars \<and> current \<noteq> [] \<and>
                (split_gap_threshold_ms < seg_start_ms seg - seg_end_ms (last current) \<or>
                 seg_speaker_id seg \<noteq> seg_speaker_id (last current))
             then (chunks @ [current], [], 0) else (chunks, current, current_chars))
      in chunk_loop target_chars max_chars chunks (current @ [seg]) (current_chars + seg_chars)
           rest)"

definition split_segments_for_chunking ::
  "segment list \<Rightarrow> usize \<Rightarrow> usize \<Rightarrow> segment list list" where
  "split_segments_for_chunking segments target_chars max_chars =
     (if segments = [] then []
      else if estimate_transcript_chars segments \<le> max_chars then [segments]
      else chunk_loop target_chars max_chars [] [] 0 segments)"

lemma estimate_transcript_simps [simp]:
  "estimate_transcript_chars [] = 0"
  "estimate_transcript_chars (xs @ ys) =
     estimate_transcript_chars xs + estimate_transcript_chars ys"
  "estimate_transcript_chars (x # xs) =
     estimate_segment_chars x + estimate_transcript_chars xs"
  by (simp_all add: estimate_transcript_chars_def)

definition chunk_fits :: "usize \<Rightarrow> segment list \<Rightarrow> bool" where
  "chunk_fits max_chars c =
     (c \<noteq> [] \<and> (estimate_transcript_chars c \<le> max_chars \<or> length c = 1))"

text \<open>One round of the loop body, with the state after both flushes named.\<close>

lemma chunk_loop_fits:
  assumes "list_all (chunk_fits max_chars) chunks"
    and "current = [] \<or> chunk_fits max_chars current"
    and "current_chars = estimate_transcript_chars current"
  shows "list_all (chunk_fits max_chars)
           (chunk_loop target_chars max_chars chunks current current_chars rest) \<and>
         concat (chunk_loop target_chars max_chars chunks current current_chars rest) =
           concat chunks @ current @ rest"
  using assms
proof (induction target_chars max_chars chunks current current_chars rest
    rule: chunk_loop.induct)
  case (1 target_chars max_chars chunks current current_chars)
  then show ?case by auto
next
  case (2 target_chars max_chars chunks current current_chars seg rest)
  obtain chunks1 current1 chars1 where one:
    "(if max_chars < current_chars + estimate_segment_chars seg \<and> current \<noteq> []
      then (chunks @ [current], [], 0) else (chunks, current, current_chars)) =
     (chunks1, current1, chars1)"
    by (metis prod_cases3)
  obtain chunks2 current2 chars2 where two:
    "(if target_chars \<le> chars1 \<and> current1 \<noteq> [] \<and>
         (split_gap_threshold_ms < seg_start_ms seg - seg_end_ms (last current1) \<or>
          seg_speaker_id seg \<noteq> seg_speaker_id (last current1))
      then (chunks1 @ [current1], [], 0) else (chunks1, current1, chars1)) =
     (chunks2, current2, chars2)"
    by (metis prod_cases3)
  have inv1: "list_all (chunk_fits max_chars) chunks1"
    "chars1 = estimate_transcript_chars current1"
    "current1 = [] \<or> chunk_fits max_chars current1"
    "current1 = [] \<or> chars1 + estimate_segment_chars seg \<le> max_chars"
    "concat chunks1 @ current1 = concat chunks @ current"
    using one 2(2-4) by (auto split: if_splits)
  have inv2: "list_all (chunk_fits max_chars) chunks2"
    "chars2 = estimate_transcript_chars current2"
    "current2 = [] \<or> chars2 + estimate_segment_chars seg \<le> max_chars"
    "concat chunks2 @ current2 = concat chunks @ current"
    using two inv1 by (auto split: if_splits)
  have "chunk_fits max_chars (current2 @ [seg])"
    using inv2 by (auto simp: chunk_fits_def)
  moreover have "chunk_loop target_chars max_chars chunks current current_chars (seg # rest) =
    chunk_loop target_chars max_chars chunks2 (current2 @ [seg])
      (chars2 + estimate_segment_chars seg) rest"
    using one two by (simp add: Let_def)
  moreover have "concat chunks2 @ (current2 @ [seg]) @ rest = concat chunks @ current @ seg # rest"
    using arg_cong [OF inv2(4), of "\<lambda>xs. xs @ seg # rest"] by simp
  ultimately show ?case
    using 2(1) [OF refl one [symmetric] refl refl two [symmetric] refl refl] inv2 by simp
qed

text \<open>Splitting a section for chunking cuts it only between segments: the chunks concatenate to
  the section, none is empty, and each one's estimated size is within the maximum unless it is a
  single segment, which cannot be cut.\<close>

theorem split_segments_for_chunking_sound:
  "concat (split_segments_for_chunking segments target_chars max_chars) = segments \<and>
   list_all (\<lambda>c. c \<noteq> [] \<and> (estimate_transcript_chars c \<le> max_chars \<or> length c = 1))
     (split_segments_for_chunking segments target_chars max_chars)"
  using chunk_loop_fits [of max_chars "[]" "[]" 0 target_chars segments]
  by (simp add: split_segments_for_chunking_def chunk_fits_def [abs_def])

lemma split_segments_concat:
  "concat (split_segments_for_chunking segments target_chars max_chars) = segments"
  "[] \<notin> set (split_segments_for_chunking segments target_chars max_chars)"
  using chunk_loop_fits [of max_chars "[]" "[]" 0 target_chars segments]
  by (auto simp: split_segments_for_chunking_def chunk_fits_def list_all_iff)

end
