(* ===== verification/Verifier.thy ===== *)
theory Verifier
  imports Domain Rust_Strings
begin

text \<open>
  \<open>panops-core/src/notes/verifier.rs\<close>: the check, after the LLM call, that a section cites only
  speakers of the transcript. The scanner works on the occurrences of \<open>speaker_\<close>; \<open>cites\<close> says
  without a scanner what a citation is, and the main theorem is that the verifier rejects exactly
  the citations of absent speakers.
\<close>

section \<open>The code\<close>

datatype verifier_report = ReportOk | DisallowedSpeakers "u32 set"

definition word_char :: "char \<Rightarrow> bool" where
  "word_char c = (is_ascii_alphanumeric c \<or> c = CHR ''_'')"

definition speaker_at :: "string \<Rightarrow> nat \<Rightarrow> u32 option" where
  "speaker_at s start =
     (if 0 < start \<and> word_char (s ! (start - 1)) then None
      else (let rest = drop (start + length speaker_prefix) s;
                digit_end = length (takeWhile is_ascii_digit rest)
            in if digit_end = 0 then None else parse_u32 (take digit_end rest)))"

definition scan_speaker_ids :: "string \<Rightarrow> u32 list" where
  "scan_speaker_ids s = List.map_filter (speaker_at s) (match_indices s speaker_prefix)"

definition parse_speaker_id :: "string \<Rightarrow> u32 option" where
  "parse_speaker_id s =
     (case strip_prefix speaker_prefix (trim s) of
        None \<Rightarrow> None
      | Some rest \<Rightarrow>
          if rest = [] \<or> \<not> list_all is_ascii_digit rest then None else parse_u32 rest)"

fun collect_disallowed :: "u32 set \<Rightarrow> u32 list \<Rightarrow> u32 set \<Rightarrow> u32 set" where
  "collect_disallowed allowed [] acc = acc"
| "collect_disallowed allowed (i # is) acc =
     collect_disallowed allowed is (if i \<in> allowed then acc else insert i acc)"

definition owner_id :: "action_item \<Rightarrow> u32 option" where
  "owner_id item = (case ai_owner item of None \<Rightarrow> None | Some owner \<Rightarrow> parse_speaker_id owner)"

definition verify_section_attribution ::
  "string \<Rightarrow> action_item list \<Rightarrow> u32 set \<Rightarrow> verifier_report" where
  "verify_section_attribution narrative_md action_items allowed_speakers =
     (let disallowed = collect_disallowed allowed_speakers (scan_speaker_ids narrative_md) {};
          disallowed = collect_disallowed allowed_speakers
            (List.map_filter owner_id action_items) disallowed
      in if disallowed = {} then ReportOk else DisallowedSpeakers disallowed)"

section \<open>What a citation is\<close>

definition cites :: "string \<Rightarrow> u32 \<Rightarrow> bool" where
  "cites s i \<longleftrightarrow>
     (\<exists>pre ds post. s = pre @ speaker_prefix @ ds @ post \<and>
        (pre = [] \<or> \<not> word_char (last pre)) \<and>
        ds \<noteq> [] \<and> list_all is_ascii_digit ds \<and> (post = [] \<or> \<not> is_ascii_digit (hd post)) \<and>
        digits_value ds = i \<and> i \<le> u32_max)"

definition owner_cites :: "action_item \<Rightarrow> u32 \<Rightarrow> bool" where
  "owner_cites a i \<longleftrightarrow>
     (\<exists>owner ds. ai_owner a = Some owner \<and> trim owner = speaker_prefix @ ds \<and>
        ds \<noteq> [] \<and> list_all is_ascii_digit ds \<and> digits_value ds = i \<and> i \<le> u32_max)"

lemma set_map_filter: "set (List.map_filter f xs) = {y. \<exists>x \<in> set xs. f x = Some y}"
  by (induction xs) (auto simp: List.map_filter_simps split: option.splits)

lemma takeWhile_digits_split:
  "list_all is_ascii_digit ds \<Longrightarrow> post = [] \<or> \<not> is_ascii_digit (hd post) \<Longrightarrow>
     takeWhile is_ascii_digit (ds @ post) = ds"
  by (induction ds) (auto simp: takeWhile_eq_Nil_iff)

lemma speaker_at_Some:
  assumes "prefix speaker_prefix (drop k s)"
  shows "speaker_at s k = Some i \<longleftrightarrow>
     (k = 0 \<or> \<not> word_char (s ! (k - 1))) \<and>
     (let ds = takeWhile is_ascii_digit (drop (k + 8) s)
      in ds \<noteq> [] \<and> digits_value ds = i \<and> i \<le> u32_max)"
proof -
  let ?ds = "takeWhile is_ascii_digit (drop (k + 8) s)"
  have "list_all is_ascii_digit ?ds"
    using set_takeWhileD by (fastforce simp: list_all_iff)
  then show ?thesis
    by (auto simp: speaker_at_def Let_def takeWhile_eq_take [symmetric] parse_u32_digits
        add.commute)
qed

lemma scan_speaker_ids_cites: "set (scan_speaker_ids s) = {i. cites s i}"
proof (intro set_eqI iffI)
  fix i assume "i \<in> set (scan_speaker_ids s)"
  then obtain k where k: "prefix speaker_prefix (drop k s)" "speaker_at s k = Some i"
    using set_speaker_matches
    by (auto simp: scan_speaker_ids_def set_map_filter)
  let ?rest = "drop (k + 8) s"
  let ?ds = "takeWhile is_ascii_digit ?rest"
  have rest: "drop k s = speaker_prefix @ ?rest"
  proof -
    obtain r where r: "drop k s = speaker_prefix @ r"
      using k(1) by (auto simp: prefix_def)
    then have "drop 8 (drop k s) = r"
      by (simp add: r)
    then have "drop (k + 8) s = r"
      by (simp only: drop_drop add.commute)
    with r show ?thesis
      by simp
  qed
  have "s = take k s @ drop k s"
    by simp
  also have "\<dots> = take k s @ speaker_prefix @ ?ds @ dropWhile is_ascii_digit ?rest"
    by (simp only: rest takeWhile_dropWhile_id)
  finally have s: "s = take k s @ speaker_prefix @ ?ds @ dropWhile is_ascii_digit ?rest" .
  have len: "k < length s"
  proof (rule ccontr)
    assume "\<not> k < length s"
    with rest show False
      by (simp add: speaker_prefix_def)
  qed
  have "last (take k s) = s ! (k - 1)" if "0 < k"
    using that len by (subst last_conv_nth) auto
  then have "take k s = [] \<or> \<not> word_char (last (take k s))"
    using k(2) speaker_at_Some [OF k(1)] len by (cases "k = 0") auto
  moreover have "?ds \<noteq> []" "digits_value ?ds = i" "i \<le> u32_max"
    using k(2) speaker_at_Some [OF k(1)] by (simp_all add: Let_def)
  moreover have "list_all is_ascii_digit ?ds"
    using set_takeWhileD by (fastforce simp: list_all_iff)
  moreover have "dropWhile is_ascii_digit ?rest = [] \<or>
      \<not> is_ascii_digit (hd (dropWhile is_ascii_digit ?rest))"
    using hd_dropWhile by blast
  ultimately show "i \<in> {i. cites s i}"
    unfolding cites_def using s by blast
next
  fix i assume "i \<in> {i. cites s i}"
  then obtain pre ds post where c: "s = pre @ speaker_prefix @ ds @ post"
    "pre = [] \<or> \<not> word_char (last pre)" "ds \<noteq> []" "list_all is_ascii_digit ds"
    "post = [] \<or> \<not> is_ascii_digit (hd post)" "digits_value ds = i" "i \<le> u32_max"
    by (auto simp: cites_def)
  let ?k = "length pre"
  have p: "prefix speaker_prefix (drop ?k s)"
    using c(1) by simp
  have "takeWhile is_ascii_digit (drop (?k + 8) s) = ds"
    using takeWhile_digits_split [OF c(4,5)] c(1) by simp
  moreover have "?k = 0 \<or> \<not> word_char (s ! (?k - 1))"
    using c(1,2) by (cases pre rule: rev_cases) (auto simp: nth_append)
  ultimately have "speaker_at s ?k = Some i"
    using speaker_at_Some [OF p] c by (simp add: Let_def)
  then show "i \<in> set (scan_speaker_ids s)"
    using set_speaker_matches p
    by (auto simp: scan_speaker_ids_def set_map_filter)
qed

lemma owner_id_Some: "owner_id a = Some i \<longleftrightarrow> owner_cites a i"
  by (auto simp: owner_id_def owner_cites_def parse_speaker_id_def parse_u32_digits
      strip_prefix_Some split: option.splits if_splits)

lemma collect_disallowed_eq:
  "collect_disallowed allowed is acc = acc \<union> (set is - allowed)"
  by (induction "is" arbitrary: acc) auto

text \<open>C5: The verifier reports exactly the set of speakers that the narrative or an action item's
  owner cites and that are not in the transcript, and accepts the section when there are none.\<close>

theorem verify_section_attribution_exact:
  "verify_section_attribution narrative items allowed =
     (let bad = {i. cites narrative i \<or> (\<exists>a \<in> set items. owner_cites a i)} - allowed
      in if bad = {} then ReportOk else DisallowedSpeakers bad)"
proof -
  have "set (List.map_filter owner_id items) = {i. \<exists>a \<in> set items. owner_cites a i}"
    by (simp add: set_map_filter owner_id_Some)
  then have "collect_disallowed allowed (List.map_filter owner_id items)
      (collect_disallowed allowed (scan_speaker_ids narrative) {}) =
      {i. cites narrative i \<or> (\<exists>a \<in> set items. owner_cites a i)} - allowed"
    by (auto simp: collect_disallowed_eq scan_speaker_ids_cites)
  then show ?thesis
    by (simp add: verify_section_attribution_def Let_def)
qed

text \<open>A label that the pipeline itself writes is a citation of its speaker, at any word boundary.\<close>

lemma cites_label:
  assumes "pre = [] \<or> \<not> word_char (last pre)" and "post = [] \<or> \<not> is_ascii_digit (hd post)"
    and "i \<le> u32_max"
  shows "cites (pre @ speaker_label (Some i) @ post) i"
  unfolding cites_def speaker_label_def
  using assms dec_digits [of i]
  by (intro exI [of _ pre] exI [of _ "dec i"] exI [of _ post]) simp

lemma verify_ok_cites:
  "verify_section_attribution narrative items allowed = ReportOk \<Longrightarrow>
     cites narrative i \<or> (\<exists>a \<in> set items. owner_cites a i) \<Longrightarrow> i \<in> allowed"
  unfolding verify_section_attribution_def
  by (auto simp: Let_def collect_disallowed_eq scan_speaker_ids_cites set_map_filter owner_id_Some
      split: if_splits)

end
