(* ===== verification/Floats.thy ===== *)
theory Floats
  imports Prelude
begin

text \<open>
  The floating-point arithmetic of the program, bit for bit: IEEE rounding to the nearest value with
  ties to even, on exact quotients of natural numbers. A finite \<open>f32\<close> is a whole number of units of
  \<open>2\<^sup>-\<^sup>1\<^sup>4\<^sup>9\<close>, so sums, products and quotients of two of them are rational numbers of units, and one
  rounding of that rational number gives the result, as the standard prescribes. Every NaN is
  represented by one pattern; no code under src/ reads the payload of a NaN.
\<close>

section \<open>Rounding\<close>

fun bit_length :: "nat \<Rightarrow> nat" where
  "bit_length n = (if n = 0 then 0 else Suc (bit_length (n div 2)))"

declare bit_length.simps [simp del]

text \<open>The whole number nearest to \<open>a / b\<close>, the even one of two.\<close>

definition round_div :: "nat \<Rightarrow> nat \<Rightarrow> nat" where
  "round_div a b =
     (let q = a div b; r = a mod b
      in if 2 * r < b then q else if 2 * r > b then q + 1 else q + q mod 2)"

lemma bit_length_bounds:
  "0 < n \<Longrightarrow> 2 ^ (bit_length n - 1) \<le> n \<and> n < 2 ^ bit_length n \<and> 0 < bit_length n"
proof (induction n rule: bit_length.induct)
  case (1 n)
  show ?case
  proof (cases "n div 2 = 0")
    case True
    with 1(2) have "n = 1" by linarith
    then show ?thesis by (simp add: bit_length.simps)
  next
    case False
    then have IH: "2 ^ (bit_length (n div 2) - 1) \<le> n div 2" "n div 2 < 2 ^ bit_length (n div 2)"
      "0 < bit_length (n div 2)"
      using 1 by auto
    have "2 * 2 ^ (bit_length (n div 2) - 1) = (2 :: nat) ^ bit_length (n div 2)"
      using IH(3) by (metis One_nat_def Suc_pred power_Suc)
    moreover have "2 * 2 ^ (bit_length (n div 2) - 1) \<le> n" and "n < 2 * 2 ^ bit_length (n div 2)"
      using IH(1,2) by linarith+
    ultimately show ?thesis
      using 1(2) by (simp add: bit_length.simps [of n])
  qed
qed

lemma bit_length_0 [simp]: "bit_length 0 = 0"
  by (simp add: bit_length.simps)

lemma less_bit_length: "n < 2 ^ bit_length n"
  using bit_length_bounds [of n] by (cases "n = 0") simp_all

lemma bit_length_le: "n < 2 ^ k \<Longrightarrow> bit_length n \<le> k"
proof (cases "n = 0")
  case False
  assume "n < 2 ^ k"
  with bit_length_bounds [of n] False have "(2 :: nat) ^ (bit_length n - 1) < 2 ^ k"
    by linarith
  then show ?thesis
    by simp
qed simp

lemma bit_length_mono: "m \<le> n \<Longrightarrow> bit_length m \<le> bit_length n"
  using less_bit_length [of n] by (intro bit_length_le) linarith

lemma bit_length_eq: "2 ^ k \<le> n \<Longrightarrow> n < 2 ^ Suc k \<Longrightarrow> bit_length n = Suc k"
proof (rule antisym [OF bit_length_le])
  assume n: "2 ^ k \<le> n"
  then have "(2 :: nat) ^ k < 2 ^ bit_length n"
    using less_bit_length [of n] by linarith
  then show "Suc k \<le> bit_length n"
    by simp
qed

lemma round_div_bounds: "0 < b \<Longrightarrow> a div b \<le> round_div a b \<and> round_div a b \<le> a div b + 1"
proof -
  have "a div b mod 2 < 2"
    by simp
  then have "a div b mod 2 \<le> 1"
    by linarith
  then show ?thesis
    unfolding round_div_def Let_def by (cases "2 * (a mod b) < b"; cases "2 * (a mod b) > b") simp_all
qed

lemma round_div_exact [simp]: "0 < b \<Longrightarrow> round_div (n * b) b = n"
  by (simp add: round_div_def)

text \<open>The nearest whole number grows with the quotient.\<close>

lemma round_div_mono:
  assumes "a * d \<le> c * b" and "0 < b" and "0 < d"
  shows "round_div a b \<le> round_div c d"
proof -
  let ?q = "a div b" and ?r = "a mod b" and ?p = "c div d" and ?s = "c mod d"
  have split: "a = ?q * b + ?r" "c = ?p * d + ?s"
    by simp_all
  have small: "?r < b" "?s < d"
    using assms by simp_all
  have quot: "?q \<le> ?p"
  proof (rule ccontr)
    assume "\<not> ?q \<le> ?p"
    then have "Suc ?p * b \<le> ?q * b"
      by (intro mult_le_mono1) simp
    then have "Suc ?p * b \<le> a"
      using split(1) by linarith
    then have "Suc ?p * b * d \<le> a * d"
      by simp
    also have "\<dots> \<le> c * b"
      by (rule assms)
    finally have "(Suc ?p * d) * b \<le> c * b"
      by (simp only: ac_simps)
    then have "Suc ?p * d \<le> c"
      using assms(2) by simp
    then show False
      using split(2) small(2) by simp
  qed
  show ?thesis
  proof (cases "?q = ?p")
    case False
    with quot have "?q + 1 \<le> ?p"
      by simp
    then show ?thesis
      using round_div_bounds [OF assms(2), of a] round_div_bounds [OF assms(3), of c] by linarith
  next
    case True
    have "?q * b * d + ?r * d \<le> ?p * d * b + ?s * b"
      using assms(1) split by (metis add_mult_distrib)
    with True have rest: "?r * d \<le> ?s * b"
      by (simp add: ac_simps)
    have less: "2 * ?s < d \<Longrightarrow> 2 * ?r < b"
    proof -
      assume "2 * ?s < d"
      then have "2 * ?s * b < d * b"
        using assms(2) by (rule mult_less_mono1)
      with rest have "2 * ?r * d < b * d"
        unfolding mult.assoc mult.commute [of b d] by linarith
      then show ?thesis
        by (simp only: mult_less_cancel2)
    qed
    have greater: "b < 2 * ?r \<Longrightarrow> d < 2 * ?s"
    proof -
      assume "b < 2 * ?r"
      then have "b * d < 2 * ?r * d"
        using assms(3) by (rule mult_less_mono1)
      with rest have "d * b < 2 * ?s * b"
        unfolding mult.assoc mult.commute [of b d] by linarith
      then show ?thesis
        by (simp only: mult_less_cancel2)
    qed
    have "?p mod 2 \<le> 1"
      by (simp add: less_Suc_eq_le [symmetric])
    then show ?thesis
      using less greater True by (auto simp: round_div_def Let_def)
  qed
qed

text \<open>
  A number of \<open>p\<close> significant bits nearest to a natural number, and the whole part of the number of
  53 significant bits nearest to a quotient (when the quotient is less than one, 53 bits after the
  point instead: the whole part is the same).
\<close>

definition round_bits :: "nat \<Rightarrow> nat \<Rightarrow> nat" where
  "round_bits p n = (let s = 2 ^ (bit_length n - p) in round_div n s * s)"

definition f64_quotient_floor :: "nat \<Rightarrow> nat \<Rightarrow> nat" where
  "f64_quotient_floor a b =
     (let l = bit_length (a div b)
      in if 53 \<le> l then round_div a (b * 2 ^ (l - 53)) * 2 ^ (l - 53)
         else round_div (a * 2 ^ (53 - l)) b div 2 ^ (53 - l))"

lemma round_bits_small: "n < 2 ^ p \<Longrightarrow> round_bits p n = n"
proof -
  assume "n < 2 ^ p"
  then have "bit_length n - p = 0"
    using bit_length_le by simp
  then show ?thesis
    using round_div_exact [of 1 n] by (simp add: round_bits_def)
qed

lemma round_div_low: "2 * r < b \<Longrightarrow> round_div (q * b + r) b = q"
  by (simp add: round_div_def)

lemma round_div_high: "r < b \<Longrightarrow> b < 2 * r \<Longrightarrow> round_div (q * b + r) b = q + 1"
  by (simp add: round_div_def)

lemma round_bits_mono:
  assumes "a \<le> b" and "0 < p"
  shows "round_bits p a \<le> round_bits p b"
proof -
  define e where "e = bit_length a - p"
  define g where "g = bit_length b - p"
  have "e \<le> g"
    unfolding e_def g_def using bit_length_mono [OF assms(1)] by (rule diff_le_mono)
  show ?thesis
  proof (cases "e = g")
    case True
    have "round_div a (2 ^ g) \<le> round_div b (2 ^ g)"
      using assms by (intro round_div_mono) simp_all
    then show ?thesis
      using True by (simp add: round_bits_def e_def g_def Let_def)
  next
    case False
    with \<open>e \<le> g\<close> have "e < g"
      by simp
    then have len: "bit_length b - 1 = p - 1 + g" and "0 < bit_length b"
      using assms(2) by (simp_all add: g_def)
    then have "0 < b"
      by (metis bit_length_0 gr0I)
    have "bit_length a \<le> p + e"
      by (simp add: e_def)
    then have "(2 :: nat) ^ bit_length a \<le> 2 ^ (p + e)"
      by (rule power_increasing) simp
    with less_bit_length [of a] have "a < 2 ^ (p + e)"
      by (rule less_le_trans)
    then have "a div 2 ^ e < 2 ^ p"
      by (simp add: power_add less_mult_imp_div_less)
    then have low: "round_div a (2 ^ e) \<le> 2 ^ p"
      using round_div_bounds [of "2 ^ e" a] by simp
    have "2 ^ (p - 1 + g) \<le> b"
      using bit_length_bounds [OF \<open>0 < b\<close>] len by simp
    then have "2 ^ (p - 1 + g) div 2 ^ g \<le> b div 2 ^ g"
      by (rule div_le_mono)
    then have high: "2 ^ (p - 1) \<le> round_div b (2 ^ g)"
      using round_div_bounds [of "2 ^ g" b] by (simp add: power_add)
    have "round_div a (2 ^ e) * 2 ^ e \<le> 2 ^ p * 2 ^ e"
      using low by (rule mult_le_mono1)
    also have "\<dots> \<le> 2 ^ (p - 1) * 2 ^ g"
    proof -
      have "p + e \<le> p - 1 + g"
        using \<open>e < g\<close> assms(2) by simp
      then show ?thesis
        unfolding power_add [symmetric] by (rule power_increasing) simp
    qed
    also have "\<dots> \<le> round_div b (2 ^ g) * 2 ^ g"
      using high by (rule mult_le_mono1)
    finally show ?thesis
      by (simp add: round_bits_def e_def g_def Let_def)
  qed
qed


section \<open>The magnitudes of an \<open>f32\<close>\<close>

text \<open>The value of a finite magnitude, in units of \<open>2\<^sup>-\<^sup>1\<^sup>4\<^sup>9\<close>; and the magnitude nearest to \<open>a / b\<close> units.\<close>

definition magnitude_units :: "nat \<Rightarrow> nat" where
  "magnitude_units m =
     (let e = m div 2 ^ 23; f = m mod 2 ^ 23
      in if e = 0 then f else (2 ^ 23 + f) * 2 ^ (e - 1))"

definition nearest_magnitude :: "nat \<Rightarrow> nat \<Rightarrow> nat" where
  "nearest_magnitude a b =
     (let e = bit_length (a div b) - 24
      in min 0x7F800000 (e * 2 ^ 23 + round_div a (b * 2 ^ e)))"

lemma magnitude_units_0 [simp]: "magnitude_units 0 = 0"
  by (simp add: magnitude_units_def)

lemma magnitude_units_normal:
  assumes "f < 2 ^ 23" and "0 < e"
  shows "magnitude_units (e * 2 ^ 23 + f) = (2 ^ 23 + f) * 2 ^ (e - 1)"
proof -
  have "(e * 2 ^ 23 + f) div 2 ^ 23 = e" and "(e * 2 ^ 23 + f) mod 2 ^ 23 = f"
    using assms by (simp_all add: div_mult_self3)
  then show ?thesis
    using assms unfolding magnitude_units_def Let_def by simp
qed

lemma nearest_bounds:
  fixes a b :: nat
  assumes "0 < b"
  defines "e \<equiv> bit_length (a div b) - 24"
  shows "round_div a (b * 2 ^ e) \<le> 2 ^ 24" and "0 < e \<Longrightarrow> 2 ^ 23 \<le> round_div a (b * 2 ^ e)"
proof -
  let ?x = "a div b"
  have whole: "a div (b * 2 ^ e) = ?x div 2 ^ e"
    by (simp add: div_mult2_eq)
  have pos: "0 < b * 2 ^ e"
    using assms by simp
  have "bit_length ?x \<le> 24 + e"
    by (simp add: e_def)
  then have "(2 :: nat) ^ bit_length ?x \<le> 2 ^ (24 + e)"
    by (rule power_increasing) simp
  with less_bit_length [of ?x] have "?x < 2 ^ (24 + e)"
    by (rule less_le_trans)
  then have "?x div 2 ^ e < 2 ^ 24"
    by (simp add: power_add less_mult_imp_div_less)
  then show "round_div a (b * 2 ^ e) \<le> 2 ^ 24"
    using round_div_bounds [OF pos, of a] whole by simp
  assume "0 < e"
  then have len: "bit_length ?x - 1 = 23 + e" and "0 < bit_length ?x"
    by (simp_all add: e_def)
  then have "0 < ?x"
    by (metis bit_length_0 gr0I)
  then have "2 ^ (23 + e) \<le> ?x"
    using bit_length_bounds [of ?x] len by simp
  then have "2 ^ (23 + e) div 2 ^ e \<le> ?x div 2 ^ e"
    by (rule div_le_mono)
  then show "2 ^ 23 \<le> round_div a (b * 2 ^ e)"
    using round_div_bounds [OF pos, of a] whole by (simp add: power_add)
qed

text \<open>Rounding is monotone.\<close>

lemma nearest_magnitude_mono:
  assumes "a * d \<le> c * b" and "0 < b" and "0 < d"
  shows "nearest_magnitude a b \<le> nearest_magnitude c d"
proof -
  define e where "e = bit_length (a div b) - 24"
  define g where "g = bit_length (c div d) - 24"
  have "a div b * (b * d) \<le> a * d"
    by (metis div_times_less_eq_dividend mult.assoc mult_le_mono1)
  also have "\<dots> \<le> c * b"
    by (rule assms)
  finally have "a div b * d \<le> c"
    using assms(2) by (simp add: mult.assoc [symmetric] mult.commute [of b])
  then have "a div b \<le> c div d"
    using assms(3) by (simp add: less_eq_div_iff_mult_less_eq)
  then have "e \<le> g"
    unfolding e_def g_def by (intro diff_le_mono bit_length_mono)
  then have "e * 2 ^ 23 + round_div a (b * 2 ^ e) \<le> g * 2 ^ 23 + round_div c (d * 2 ^ g)"
  proof (cases "e = g")
    case True
    have "a * (d * 2 ^ g) \<le> c * (b * 2 ^ g)"
      using mult_le_mono1 [OF assms(1), of "2 ^ g"] by (simp only: ac_simps)
    with True show ?thesis
      using round_div_mono [of a "d * 2 ^ g" c "b * 2 ^ g"] assms by simp
  next
    case False
    with \<open>e \<le> g\<close> have "e + 1 \<le> g" and "0 < g"
      by simp_all
    then have "e * 2 ^ 23 + 2 ^ 23 \<le> g * (2 ^ 23 :: nat)"
      by (metis add_mult_distrib mult_1 mult_le_mono1)
    moreover have "round_div a (b * 2 ^ e) \<le> 2 ^ 24" and "2 ^ 23 \<le> round_div c (d * 2 ^ g)"
      using nearest_bounds [OF assms(2), of a] nearest_bounds(2) [OF assms(3), of c] \<open>0 < g\<close>
      unfolding e_def g_def by blast+
    ultimately show ?thesis
      by simp
  qed
  then show ?thesis
    unfolding nearest_magnitude_def Let_def e_def [symmetric] g_def [symmetric] by (rule min.mono [OF le_refl])
qed

lemma nearest_magnitude_le: "nearest_magnitude a b \<le> 0x7F800000"
  by (simp add: nearest_magnitude_def Let_def)

text \<open>A magnitude is the one nearest to its own value.\<close>

lemma nearest_magnitude_exact:
  assumes "m \<le> 0x7F800000" and "0 < b"
  shows "nearest_magnitude (magnitude_units m * b) b = m"
proof -
  let ?e = "m div 2 ^ 23" and ?f = "m mod 2 ^ 23"
  have m: "m = ?e * 2 ^ 23 + ?f"
    by simp
  have f: "?f < 2 ^ 23"
    by simp
  show ?thesis
  proof (cases "?e = 0")
    case True
    then have "m < 2 ^ 23"
      by (simp add: div_eq_0_iff)
    then have "bit_length m - 24 = 0"
      using bit_length_le [of m 23] by simp
    moreover have "magnitude_units m = m"
      using \<open>m < 2 ^ 23\<close> by (simp add: magnitude_units_def)
    ultimately show ?thesis
      using assms by (simp add: nearest_magnitude_def)
  next
    case False
    let ?k = "?e - 1"
    have units: "magnitude_units m = (2 ^ 23 + ?f) * 2 ^ ?k"
      using False by (simp add: magnitude_units_def)
    have "2 ^ (23 + ?k) \<le> (2 ^ 23 + ?f) * 2 ^ ?k"
      by (simp add: power_add)
    moreover have "(2 ^ 23 + ?f) * 2 ^ ?k < 2 ^ Suc (23 + ?k)"
      using f by (simp add: power_add)
    ultimately have "bit_length (magnitude_units m) = Suc (23 + ?k)"
      unfolding units by (rule bit_length_eq)
    then have e: "bit_length (magnitude_units m * b div b) - 24 = ?k"
      using assms by simp
    have "magnitude_units m * b = (2 ^ 23 + ?f) * (b * 2 ^ ?k)"
      unfolding units by (simp only: ac_simps)
    moreover have "round_div ((2 ^ 23 + ?f) * (b * 2 ^ ?k)) (b * 2 ^ ?k) = 2 ^ 23 + ?f"
      by (rule round_div_exact) (use assms in simp)
    ultimately have "round_div (magnitude_units m * b) (b * 2 ^ ?k) = 2 ^ 23 + ?f"
      by (simp only:)
    moreover have "?k * 2 ^ 23 + (2 ^ 23 + ?f) = m"
    proof -
      obtain k where k: "?e = Suc k"
        using False not0_implies_Suc by blast
      have "m = Suc k * 2 ^ 23 + ?f"
        using m unfolding k .
      then show ?thesis
        unfolding k by simp
    qed
    ultimately show ?thesis
      using assms unfolding nearest_magnitude_def Let_def e by simp
  qed
qed

lemma magnitude_units_mono: "m \<le> n \<Longrightarrow> n \<le> 0x7F800000 \<Longrightarrow> magnitude_units m \<le> magnitude_units n"
proof (rule ccontr)
  assume mn: "m \<le> n" "n \<le> 0x7F800000" and "\<not> magnitude_units m \<le> magnitude_units n"
  then have "magnitude_units n \<le> magnitude_units m" and ne: "magnitude_units m \<noteq> magnitude_units n"
    by simp_all
  then have "nearest_magnitude (magnitude_units n * 1) 1 \<le> nearest_magnitude (magnitude_units m * 1) 1"
    by (intro nearest_magnitude_mono) simp_all
  then have "n \<le> m"
    using mn nearest_magnitude_exact [of n 1] nearest_magnitude_exact [of m 1] by simp
  with mn ne show False
    by simp
qed

section \<open>Operations\<close>

definition f32_negative :: "f32 \<Rightarrow> bool" where
  "f32_negative x = (2 ^ 31 \<le> unat x)"

definition f32_is_inf :: "f32 \<Rightarrow> bool" where
  "f32_is_inf x = (f32_magnitude x = 0x7F800000)"

definition f32_is_zero :: "f32 \<Rightarrow> bool" where
  "f32_is_zero x = (f32_magnitude x = 0)"

definition f32_units :: "f32 \<Rightarrow> nat" where
  "f32_units x = magnitude_units (f32_magnitude x)"

definition f32_value :: "f32 \<Rightarrow> int" where
  "f32_value x = (if f32_negative x then - int (f32_units x) else int (f32_units x))"

definition f32_make :: "bool \<Rightarrow> nat \<Rightarrow> f32" where
  "f32_make neg m = word_of_nat (if neg then 2 ^ 31 + m else m)"

definition f32_nan :: f32 where
  "f32_nan = 0x7FC00000"

definition f32_inf :: "bool \<Rightarrow> f32" where
  "f32_inf neg = f32_make neg 0x7F800000"

definition f32_add :: "f32 \<Rightarrow> f32 \<Rightarrow> f32" where
  "f32_add x y =
     (if f32_is_nan x \<or> f32_is_nan y \<or> (f32_is_inf x \<and> f32_is_inf y \<and> f32_negative x \<noteq> f32_negative y)
      then f32_nan
      else if f32_is_inf x then x
      else if f32_is_inf y then y
      else (let v = f32_value x + f32_value y
            in if v = 0 then f32_make (f32_negative x \<and> f32_negative y) 0
               else f32_make (v < 0) (nearest_magnitude (nat \<bar>v\<bar>) 1)))"

definition f32_mul :: "f32 \<Rightarrow> f32 \<Rightarrow> f32" where
  "f32_mul x y =
     (if f32_is_nan x \<or> f32_is_nan y \<or> (f32_is_zero x \<and> f32_is_inf y) \<or> (f32_is_inf x \<and> f32_is_zero y)
      then f32_nan
      else if f32_is_inf x \<or> f32_is_inf y then f32_inf (f32_negative x \<noteq> f32_negative y)
      else f32_make (f32_negative x \<noteq> f32_negative y)
             (nearest_magnitude (f32_units x * f32_units y) (2 ^ 149)))"

definition f32_div :: "f32 \<Rightarrow> f32 \<Rightarrow> f32" where
  "f32_div x y =
     (if f32_is_nan x \<or> f32_is_nan y \<or> (f32_is_zero x \<and> f32_is_zero y) \<or> (f32_is_inf x \<and> f32_is_inf y)
      then f32_nan
      else if f32_is_inf x \<or> f32_is_zero y then f32_inf (f32_negative x \<noteq> f32_negative y)
      else if f32_is_inf y then f32_make (f32_negative x \<noteq> f32_negative y) 0
      else f32_make (f32_negative x \<noteq> f32_negative y)
             (nearest_magnitude (f32_units x * 2 ^ 149) (f32_units y)))"

text \<open>\<open>f32::max\<close>, \<open>n as f32\<close> and the saturating \<open>x as u64\<close>.\<close>

definition f32_max :: "f32 \<Rightarrow> f32 \<Rightarrow> f32" where
  "f32_max x y = (if f32_is_nan x then y else if f32_is_nan y then x else if f32_lt x y then y else x)"

definition f32_of_nat :: "nat \<Rightarrow> f32" where
  "f32_of_nat n = f32_make False (nearest_magnitude (n * 2 ^ 149) 1)"

definition f32_to_u64 :: "f32 \<Rightarrow> u64" where
  "f32_to_u64 x =
     (if f32_is_nan x \<or> f32_negative x then 0 else min (f32_units x div 2 ^ 149) u64_max)"

lemma unat_f32_make:
  "m \<le> 0x7F800000 \<Longrightarrow> unat (f32_make neg m) = (if neg then 2 ^ 31 + m else m)"
  by (simp add: f32_make_def unat_of_nat take_bit_eq_mod)

lemma f32_make_fields:
  assumes "m \<le> 0x7F800000"
  shows "f32_magnitude (f32_make neg m) = m" and "f32_negative (f32_make neg m) = neg"
    and "\<not> f32_is_nan (f32_make neg m)"
  using unat_f32_make [OF assms] assms
  by (auto simp: f32_magnitude_def f32_negative_def f32_is_nan_def)

text \<open>
  Whole numbers below \<open>2 ^ 24\<close> are represented exactly: \<open>whole_magnitude\<close> is the magnitude of one.
\<close>

definition whole_magnitude :: "nat \<Rightarrow> nat" where
  "whole_magnitude n = nearest_magnitude (n * 2 ^ 149) 1"

lemma whole_magnitude_units:
  assumes "n \<le> 2 ^ 24"
  shows "magnitude_units (whole_magnitude n) = n * 2 ^ 149" and "whole_magnitude n \<le> 0x7F000000"
proof -
  have "magnitude_units (whole_magnitude n) = n * 2 ^ 149 \<and> whole_magnitude n \<le> 0x7F000000"
  proof (cases "n = 0 \<or> n = 2 ^ 24")
    case True
    then show ?thesis
    proof
      assume "n = 0"
      then show ?thesis
        by (simp add: whole_magnitude_def nearest_magnitude_def magnitude_units_def round_div_def)
    next
      assume n: "n = 2 ^ 24"
      have "bit_length (2 ^ 173) = Suc 173"
        by (rule bit_length_eq) simp_all
      then have "nearest_magnitude (2 ^ 173) 1 = 151 * 2 ^ 23"
        by (simp add: nearest_magnitude_def round_div_def)
      with n show ?thesis
        by (simp add: whole_magnitude_def magnitude_units_def flip: power_add)
    qed
  next
    case False
    let ?l = "bit_length n"
    have l: "2 ^ (?l - 1) \<le> n" "n < 2 ^ ?l" "0 < ?l" and small: "?l \<le> 24"
      using False assms bit_length_bounds [of n] by (auto intro: bit_length_le)
    define k where "k = ?l - 1"
    have k: "?l = Suc k" "k \<le> 23" "2 ^ k \<le> n" "n < 2 ^ Suc k"
      using l small by (simp_all add: k_def)
    define m where "m = n * 2 ^ (23 - k)"
    have m: "2 ^ 23 \<le> m" "m < 2 ^ 24"
    proof -
      have "2 ^ k * 2 ^ (23 - k) \<le> n * (2 :: nat) ^ (23 - k)"
        using k(3) by (rule mult_le_mono1)
      then show "2 ^ 23 \<le> m"
        using k(2) by (simp add: m_def flip: power_add)
      have "n * (2 :: nat) ^ (23 - k) < 2 ^ Suc k * 2 ^ (23 - k)"
        using k(4) by (intro mult_less_mono1) simp_all
      then show "m < 2 ^ 24"
        using k(2) by (simp add: m_def flip: power_add power_Suc)
    qed
    have units: "n * 2 ^ 149 = m * 2 ^ (126 + k)"
      using k(2) by (simp add: m_def mult.assoc flip: power_add)
    have "bit_length (n * 2 ^ 149) = Suc (k + 149)"
      using k(3,4) by (intro bit_length_eq) (simp_all add: power_add)
    then have e: "bit_length (n * 2 ^ 149 div 1) - 24 = 126 + k"
      by simp
    have "round_div (n * 2 ^ 149) (1 * 2 ^ (126 + k)) = m"
      unfolding units by simp
    then have near: "whole_magnitude n = min 0x7F800000 ((126 + k) * 2 ^ 23 + m)"
      unfolding whole_magnitude_def nearest_magnitude_def Let_def e by simp
    have "(126 + k) * 2 ^ 23 + m = (127 + k) * 2 ^ 23 + (m - 2 ^ 23)"
      using m(1) by (simp add: add_mult_distrib)
    moreover have "(127 + k) * 2 ^ 23 + (m - 2 ^ 23) \<le> 0x7F000000"
      using k(2) m(2) by simp
    ultimately have mag: "whole_magnitude n = (127 + k) * 2 ^ 23 + (m - 2 ^ 23)"
      using near by simp
    moreover have "magnitude_units ((127 + k) * 2 ^ 23 + (m - 2 ^ 23)) = m * 2 ^ (126 + k)"
      using m magnitude_units_normal [of "m - 2 ^ 23" "127 + k"] by simp
    ultimately show ?thesis
      using units k(2) m(2) by simp
  qed
  then show "magnitude_units (whole_magnitude n) = n * 2 ^ 149" and "whole_magnitude n \<le> 0x7F000000"
    by simp_all
qed

lemma whole_magnitude_1: "whole_magnitude 1 = 0x3F800000"
proof -
  have "bit_length (2 ^ 149) = Suc 149"
    by (rule bit_length_eq) simp_all
  then show ?thesis
    by (simp add: whole_magnitude_def nearest_magnitude_def round_div_def)
qed

section \<open>Scaling\<close>

text \<open>Scaling by a positive constant and truncating is monotone.\<close>

definition f32_ordered :: "f32 \<Rightarrow> f32 \<Rightarrow> bool" where
  "f32_ordered x y \<longleftrightarrow> \<not> f32_is_nan x \<and> \<not> f32_is_nan y \<and> f32_signed x \<le> f32_signed y"

definition f32_scale :: "f32 \<Rightarrow> bool" where
  "f32_scale c \<longleftrightarrow> \<not> f32_negative c \<and> 0 < f32_magnitude c \<and> f32_magnitude c < 0x7F800000"

lemma f32_signed_negative: "f32_negative x \<Longrightarrow> f32_signed x = - int (f32_magnitude x)"
  "\<not> f32_negative x \<Longrightarrow> f32_signed x = int (f32_magnitude x)"
  by (simp_all add: f32_negative_def f32_signed_def)

lemma f32_mul_scale:
  assumes "f32_scale c" and "\<not> f32_is_nan x"
  shows "f32_negative (f32_mul x c) = f32_negative x" and "\<not> f32_is_nan (f32_mul x c)"
    and "f32_magnitude (f32_mul x c) =
      (if f32_is_inf x then 0x7F800000 else nearest_magnitude (f32_units x * f32_units c) (2 ^ 149))"
proof -
  have c: "\<not> f32_is_nan c" "\<not> f32_is_inf c" "\<not> f32_is_zero c" "\<not> f32_negative c"
    using assms by (auto simp: f32_scale_def f32_is_nan_def f32_is_inf_def f32_is_zero_def)
  have "f32_mul x c = f32_make (f32_negative x)
      (if f32_is_inf x then 0x7F800000 else nearest_magnitude (f32_units x * f32_units c) (2 ^ 149))"
    using c assms(2) by (simp add: f32_mul_def f32_inf_def)
  then show "f32_negative (f32_mul x c) = f32_negative x" and "\<not> f32_is_nan (f32_mul x c)"
    and "f32_magnitude (f32_mul x c) =
      (if f32_is_inf x then 0x7F800000 else nearest_magnitude (f32_units x * f32_units c) (2 ^ 149))"
    using f32_make_fields [OF nearest_magnitude_le] f32_make_fields [of "0x7F800000"] by simp_all
qed

lemma f32_to_u64_scale_mono:
  assumes "f32_ordered x y" and "f32_scale c"
  shows "f32_to_u64 (f32_mul x c) \<le> f32_to_u64 (f32_mul y c)"
proof (cases "f32_negative x")
  case True
  then show ?thesis
    using f32_mul_scale(1) [OF assms(2), of x] assms(1) by (simp add: f32_to_u64_def f32_ordered_def)
next
  case False
  have nan: "\<not> f32_is_nan x" "\<not> f32_is_nan y"
    using assms(1) by (simp_all add: f32_ordered_def)
  show ?thesis
  proof (cases "f32_negative y")
    case True
    with False assms(1) have "f32_magnitude x = 0"
      using f32_signed_negative by (simp add: f32_ordered_def)
    then have "f32_units (f32_mul x c) = 0"
      using f32_mul_scale(3) [OF assms(2) nan(1)]
      by (simp add: f32_units_def f32_is_inf_def nearest_magnitude_def round_div_def)
    then show ?thesis
      by (simp add: f32_to_u64_def)
  next
    case pos: False
    with False assms(1) have le: "f32_magnitude x \<le> f32_magnitude y"
      using f32_signed_negative by (simp add: f32_ordered_def)
    have "f32_magnitude y \<le> 0x7F800000"
      using nan(2) by (simp add: f32_is_nan_def)
    then have "f32_units x \<le> f32_units y"
      unfolding f32_units_def by (rule magnitude_units_mono [OF le])
    then have "nearest_magnitude (f32_units x * f32_units c) (2 ^ 149)
        \<le> nearest_magnitude (f32_units y * f32_units c) (2 ^ 149)"
      by (intro nearest_magnitude_mono) simp_all
    then have "f32_magnitude (f32_mul x c) \<le> f32_magnitude (f32_mul y c)"
      using f32_mul_scale(3) [OF assms(2) nan(1)] f32_mul_scale(3) [OF assms(2) nan(2)] le
        nearest_magnitude_le nan(2) by (auto simp: f32_is_inf_def f32_is_nan_def)
    moreover have "f32_magnitude (f32_mul y c) \<le> 0x7F800000"
      using f32_mul_scale(2) [OF assms(2) nan(2)] by (simp add: f32_is_nan_def)
    ultimately have "f32_units (f32_mul x c) \<le> f32_units (f32_mul y c)"
      unfolding f32_units_def by (rule magnitude_units_mono)
    then have "f32_units (f32_mul x c) div 2 ^ 149 \<le> f32_units (f32_mul y c) div 2 ^ 149"
      by (rule div_le_mono)
    then show ?thesis
      using f32_mul_scale [OF assms(2)] nan False pos by (simp add: f32_to_u64_def min.coboundedI1)
  qed
qed

section \<open>Sums and means of probabilities\<close>

text \<open>A number between zero and one; a sum of \<open>n\<close> of them stays between zero and \<open>n\<close>.\<close>

definition f32_between :: "nat \<Rightarrow> f32 \<Rightarrow> bool" where
  "f32_between n x = (\<not> f32_negative x \<and> f32_magnitude x \<le> whole_magnitude n)"

lemma f32_between_units:
  "n \<le> 2 ^ 24 \<Longrightarrow> f32_between n x \<Longrightarrow> f32_units x \<le> n * 2 ^ 149 \<and> \<not> f32_is_nan x \<and> \<not> f32_is_inf x"
  using whole_magnitude_units [of n] magnitude_units_mono [of "f32_magnitude x" "whole_magnitude n"]
  by (auto simp: f32_between_def f32_units_def f32_is_nan_def f32_is_inf_def)

lemma f32_add_between:
  assumes "f32_between n x" and "f32_between 1 y" and "n < 2 ^ 24"
  shows "f32_between (Suc n) (f32_add x y)"
proof -
  have x: "f32_units x \<le> n * 2 ^ 149" "\<not> f32_is_nan x" "\<not> f32_is_inf x" "\<not> f32_negative x"
    and y: "f32_units y \<le> 2 ^ 149" "\<not> f32_is_nan y" "\<not> f32_is_inf y" "\<not> f32_negative y"
    using assms f32_between_units [of n x] f32_between_units [of 1 y] by (simp_all add: f32_between_def)
  define u where "u = f32_units x + f32_units y"
  have total_value: "f32_value x + f32_value y = int u"
    using x y by (simp add: f32_value_def u_def)
  have sum: "f32_add x y = (if u = 0 then f32_make False 0 else f32_make False (nearest_magnitude u 1))"
    unfolding f32_add_def total_value using x y by (simp add: Let_def)
  have "nearest_magnitude u 1 \<le> whole_magnitude (Suc n)"
    unfolding whole_magnitude_def u_def using x y by (intro nearest_magnitude_mono) simp_all
  then show ?thesis
    unfolding sum f32_between_def
    using f32_make_fields [of 0 False] f32_make_fields [OF nearest_magnitude_le, of False u 1] by simp
qed

lemma f32_div_between:
  assumes "f32_between n x" and "0 < n" and "n \<le> 2 ^ 24"
  shows "f32_between 1 (f32_div x (f32_of_nat n))"
proof -
  have x: "f32_units x \<le> n * 2 ^ 149" "\<not> f32_is_nan x" "\<not> f32_is_inf x" "\<not> f32_negative x"
    using assms f32_between_units [of n x] by (simp_all add: f32_between_def)
  have "f32_of_nat n = f32_make False (whole_magnitude n)"
    by (simp add: f32_of_nat_def whole_magnitude_def)
  moreover have "whole_magnitude n \<le> 0x7F800000"
    using whole_magnitude_units(2) [OF assms(3)] by simp
  ultimately have fields: "f32_magnitude (f32_of_nat n) = whole_magnitude n" "\<not> f32_negative (f32_of_nat n)"
    "\<not> f32_is_nan (f32_of_nat n)"
    using f32_make_fields by simp_all
  then have n: "f32_units (f32_of_nat n) = n * 2 ^ 149" "\<not> f32_is_inf (f32_of_nat n)"
    using whole_magnitude_units [OF assms(3)] by (simp_all add: f32_units_def f32_is_inf_def)
  then have "\<not> f32_is_zero (f32_of_nat n)"
    using assms(2) by (intro notI) (simp add: f32_is_zero_def f32_units_def)
  then have quot: "f32_div x (f32_of_nat n) =
      f32_make False (nearest_magnitude (f32_units x * 2 ^ 149) (n * 2 ^ 149))"
    using x n fields by (simp add: f32_div_def)
  have "nearest_magnitude (f32_units x * 2 ^ 149) (n * 2 ^ 149) \<le> whole_magnitude 1"
    unfolding whole_magnitude_def using x assms(2) by (intro nearest_magnitude_mono) simp_all
  then show ?thesis
    unfolding quot f32_between_def using f32_make_fields [OF nearest_magnitude_le] by simp
qed

end
