(* ===== verification/Topic_Segmentation.thy ===== *)
theory Topic_Segmentation
  imports Domain Floats
begin

text \<open>
  \<open>panops-core/src/notes/topic_segmentation.rs\<close>: the transcript is cut into sections at silence
  gaps and speaker shifts, and short sections are folded into their predecessor.

  The duration table of \<open>dominant_speaker\<close> is a \<open>HashMap\<close>, whose iteration order the standard
  library leaves open: the parameter \<open>order\<close> is that order, a rearrangement of the entries. The
  share of a speaker is an \<open>f32\<close> quotient; \<open>f32_ratio\<close> computes its bit pattern, rounding both
  conversions and the division to the nearest \<open>f32\<close> with ties to even.
\<close>

section \<open>Single-precision quotients\<close>

text \<open>\<open>n as f32\<close>, as the integer that the result denotes.\<close>

definition f32_of_u64 :: "u64 \<Rightarrow> nat" where
  "f32_of_u64 n = (let s = 2 ^ (bit_length n - 24) in round_div n s * s)"

text \<open>The quotient of two such values, the first not larger than the second, as an \<open>f32\<close>.\<close>

definition f32_ratio :: "nat \<Rightarrow> nat \<Rightarrow> f32" where
  "f32_ratio a b =
     (if a = 0 then 0
      else (let k = bit_length b - bit_length a + 23;
                k = (if a * 2 ^ k < b * 2 ^ 23 then k + 1 else k);
                m = round_div (a * 2 ^ k) b
            in word_of_nat ((150 - k) * 2 ^ 23 + (m - 2 ^ 23))))"

section \<open>The code\<close>

record topic_config =
  topic_gap_ms :: u64
  min_section_ms :: u64
  speaker_shift_threshold :: f32

definition default_topic_config :: topic_config where
  "default_topic_config =
     \<lparr>topic_gap_ms = 8000, min_section_ms = 30000, speaker_shift_threshold = 0x3DCCCCCD\<rparr>"

record raw_section =
  raw_range :: "u64 \<times> u64"
  raw_indices :: "usize list"

definition seg_duration :: "segment \<Rightarrow> u64" where
  "seg_duration s = seg_end_ms s - seg_start_ms s"

fun bump_total :: "u32 \<Rightarrow> u64 \<Rightarrow> (u32 \<times> u64) list \<Rightarrow> (u32 \<times> u64) list" where
  "bump_total i d [] = [(i, d)]"
| "bump_total i d ((j, t) # ts) =
     (if i = j then (j, t + d) # ts else (j, t) # bump_total i d ts)"

fun speaker_totals :: "segment list \<Rightarrow> usize list \<Rightarrow> (u32 \<times> u64) list \<Rightarrow> (u32 \<times> u64) list" where
  "speaker_totals segments [] totals = totals"
| "speaker_totals segments (i # is) totals =
     (let s = segments ! i
      in speaker_totals segments is
           (case seg_speaker_id s of
              None \<Rightarrow> totals
            | Some sid \<Rightarrow> bump_total sid (seg_duration s) totals))"

text \<open>\<open>Iterator::max_by_key\<close> returns the last of the greatest elements.\<close>

fun max_by_total :: "(u32 \<times> u64) list \<Rightarrow> (u32 \<times> u64) option \<Rightarrow> (u32 \<times> u64) option" where
  "max_by_total [] best = best"
| "max_by_total (x # xs) best =
     max_by_total xs (case best of None \<Rightarrow> Some x
                                 | Some b \<Rightarrow> if snd b \<le> snd x then Some x else Some b)"

definition section_dominant_speaker ::
  "((u32 \<times> u64) list \<Rightarrow> (u32 \<times> u64) list) \<Rightarrow> segment list \<Rightarrow> usize list \<Rightarrow> u32 option" where
  "section_dominant_speaker order segments indices =
     map_option fst (max_by_total (order (speaker_totals segments indices [])) None)"

fun share_totals :: "segment list \<Rightarrow> usize list \<Rightarrow> u32 \<Rightarrow> u64 \<times> u64 \<Rightarrow> u64 \<times> u64" where
  "share_totals segments [] who (all_ms, who_ms) = (all_ms, who_ms)"
| "share_totals segments (i # is) who (all_ms, who_ms) =
     (let s = segments ! i
      in share_totals segments is who
           (case seg_speaker_id s of
              None \<Rightarrow> (all_ms, who_ms)
            | Some sid \<Rightarrow> (all_ms + seg_duration s,
                          if sid = who then who_ms + seg_duration s else who_ms)))"

definition speaker_share :: "segment list \<Rightarrow> usize list \<Rightarrow> u32 \<Rightarrow> f32" where
  "speaker_share segments indices who =
     (let (all_ms, who_ms) = share_totals segments indices who (0, 0)
      in if all_ms = 0 then 0 else f32_ratio (f32_of_u64 who_ms) (f32_of_u64 all_ms))"

definition is_speaker_shift_break ::
  "((u32 \<times> u64) list \<Rightarrow> (u32 \<times> u64) list) \<Rightarrow> segment list \<Rightarrow> usize list \<Rightarrow> u32 option
   \<Rightarrow> f32 \<Rightarrow> bool" where
  "is_speaker_shift_break order segments section_indices new_speaker threshold =
     (case new_speaker of
        None \<Rightarrow> False
      | Some new_id \<Rightarrow>
          (case section_dominant_speaker order segments section_indices of
             None \<Rightarrow> False
           | Some dominant \<Rightarrow>
               if dominant = new_id then False
               else f32_lt (speaker_share segments section_indices new_id) threshold))"

fun merge_short_loop :: "u64 \<Rightarrow> raw_section list \<Rightarrow> raw_section list \<Rightarrow> raw_section list" where
  "merge_short_loop min_ms out [] = out"
| "merge_short_loop min_ms out (s # rest) =
     (let len = snd (raw_range s) - fst (raw_range s)
      in if len < min_ms \<and> out \<noteq> []
         then (let prev = last out;
                   prev = \<lparr>raw_range = (fst (raw_range prev), snd (raw_range s)),
                           raw_indices = raw_indices prev @ raw_indices s\<rparr>
               in merge_short_loop min_ms (butlast out @ [prev]) rest)
         else merge_short_loop min_ms (out @ [s]) rest)"

definition merge_short_sections :: "raw_section list \<Rightarrow> u64 \<Rightarrow> raw_section list" where
  "merge_short_sections sections min_ms = merge_short_loop min_ms [] sections"

text \<open>The loop over \<open>segments[1..]\<close>; \<open>i\<close> is the index of the segment at hand.\<close>

fun topic_loop ::
  "((u32 \<times> u64) list \<Rightarrow> (u32 \<times> u64) list) \<Rightarrow> segment list \<Rightarrow> topic_config
   \<Rightarrow> usize \<Rightarrow> raw_section list \<Rightarrow> raw_section \<Rightarrow> segment list \<Rightarrow> raw_section list" where
  "topic_loop order segments cfg i sections current [] = sections @ [current]"
| "topic_loop order segments cfg i sections current (seg # rest) =
     (let prev_end = seg_end_ms (segments ! (i - 1));
          gap = seg_start_ms seg - prev_end;
          speaker_break = is_speaker_shift_break order segments (raw_indices current)
            (seg_speaker_id seg) (speaker_shift_threshold cfg)
      in if topic_gap_ms cfg < gap \<or> speaker_break
         then topic_loop order segments cfg (Suc i) (sections @ [current])
                \<lparr>raw_range = (seg_start_ms seg, seg_end_ms seg), raw_indices = [i]\<rparr> rest
         else topic_loop order segments cfg (Suc i) sections
                \<lparr>raw_range = (fst (raw_range current), seg_end_ms seg),
                 raw_indices = raw_indices current @ [i]\<rparr> rest)"

definition segment_topics ::
  "((u32 \<times> u64) list \<Rightarrow> (u32 \<times> u64) list) \<Rightarrow> segment list \<Rightarrow> topic_config
   \<Rightarrow> raw_section list" where
  "segment_topics order segments cfg =
     (case segments of
        [] \<Rightarrow> []
      | s0 # rest \<Rightarrow>
          merge_short_sections
            (topic_loop order segments cfg 1 []
               \<lparr>raw_range = (seg_start_ms s0, seg_end_ms s0), raw_indices = [0]\<rparr> rest)
            (min_section_ms cfg))"

section \<open>Sections partition the transcript\<close>

text \<open>
  A section is faithful when it holds a run of segment indices and its time range goes from the
  start of its first segment to the end of its last one.
\<close>

definition faithful_section :: "segment list \<Rightarrow> raw_section \<Rightarrow> bool" where
  "faithful_section segments s \<longleftrightarrow>
     raw_indices s \<noteq> [] \<and>
     raw_range s = (seg_start_ms (segments ! hd (raw_indices s)),
                    seg_end_ms (segments ! last (raw_indices s)))"

definition section_run :: "segment list \<Rightarrow> raw_section list \<Rightarrow> usize \<Rightarrow> bool" where
  "section_run segments sections n \<longleftrightarrow>
     concat (map raw_indices sections) = [0..<n] \<and> list_all (faithful_section segments) sections"

lemma section_run_snoc:
  "section_run segments (sections @ [c]) n \<longleftrightarrow>
     concat (map raw_indices sections) @ raw_indices c = [0..<n] \<and>
     list_all (faithful_section segments) sections \<and> faithful_section segments c"
  by (auto simp: section_run_def)

lemma topic_loop_run:
  assumes "section_run segments (sections @ [current]) i" and "rest = drop i segments"
    and "i \<le> length segments"
  shows "section_run segments (topic_loop order segments cfg i sections current rest)
           (length segments)"
  using assms
proof (induction order segments cfg i sections current rest rule: topic_loop.induct)
  case (1 order segments cfg i sections current)
  then show ?case by simp
next
  case (2 order segments cfg i sections current seg rest)
  have "i < length segments"
    using 2(4) by (metis drop_all leI list.distinct(1))
  then have i: "i < length segments" "segments ! i = seg" "rest = drop (Suc i) segments"
  proof -
    have "seg # rest = segments ! i # drop (Suc i) segments"
      using 2(4) by (simp add: Cons_nth_drop_Suc \<open>i < length segments\<close>)
    then show "segments ! i = seg" "rest = drop (Suc i) segments"
      by simp_all
  qed
  let ?break = "topic_gap_ms cfg < seg_start_ms seg - seg_end_ms (segments ! (i - 1)) \<or>
    is_speaker_shift_break order segments (raw_indices current) (seg_speaker_id seg)
      (speaker_shift_threshold cfg)"
  show ?case
  proof (cases ?break)
    case True
    have "section_run segments ((sections @ [current]) @
        [\<lparr>raw_range = (seg_start_ms seg, seg_end_ms seg), raw_indices = [i]\<rparr>]) (Suc i)"
      using 2(3) i by (auto simp: section_run_def faithful_section_def)
    with True 2(1) i show ?thesis by (simp add: Let_def)
  next
    case False
    have "section_run segments (sections @ [\<lparr>raw_range = (fst (raw_range current), seg_end_ms seg),
        raw_indices = raw_indices current @ [i]\<rparr>]) (Suc i)"
      using 2(3) i by (auto simp: section_run_snoc faithful_section_def)
    with False 2(2) [OF refl refl refl] i show ?thesis by simp
  qed
qed

lemma merge_short_loop_run:
  assumes "section_run segments (out @ rest) n"
  shows "section_run segments (merge_short_loop min_ms out rest) n"
  using assms
proof (induction min_ms out rest rule: merge_short_loop.induct)
  case (1 min_ms out)
  then show ?case by simp
next
  case (2 min_ms out s rest)
  show ?case
  proof (cases "snd (raw_range s) - fst (raw_range s) < min_ms \<and> out \<noteq> []")
    case True
    then obtain os p where out: "out = os @ [p]"
      by (metis rev_exhaust)
    have "section_run segments ((os @ [\<lparr>raw_range = (fst (raw_range p), snd (raw_range s)),
        raw_indices = raw_indices p @ raw_indices s\<rparr>]) @ rest) n"
      using 2(3) out by (auto simp: section_run_def faithful_section_def)
    with True 2(1) out show ?thesis by (simp add: Let_def)
  next
    case False
    with 2(2,3) show ?thesis by (auto simp: Let_def)
  qed
qed

lemma segment_topics_run:
  "section_run segments (segment_topics order segments cfg) (length segments)"
proof (cases segments)
  case Nil
  then show ?thesis by (simp add: segment_topics_def section_run_def)
next
  case (Cons s0 rest)
  have "section_run segments ([] @
      [\<lparr>raw_range = (seg_start_ms s0, seg_end_ms s0), raw_indices = [0]\<rparr>]) 1"
    using Cons by (simp add: section_run_def faithful_section_def)
  from topic_loop_run [OF this, of rest] Cons show ?thesis
    by (auto simp: segment_topics_def merge_short_sections_def intro!: merge_short_loop_run)
qed

text \<open>C6: Topic segmentation partitions the transcript: reading the sections in order gives every
  segment index exactly once and in order, no section is empty, and each section's time range runs
  from the start of its first segment to the end of its last one, for every iteration order of the
  hash table and every configuration.\<close>

theorem segment_topics_partition:
  "concat (map raw_indices (segment_topics order segments cfg)) = [0..<length segments] \<and>
   list_all (\<lambda>s. raw_indices s \<noteq> [] \<and>
       raw_range s = (seg_start_ms (segments ! hd (raw_indices s)),
                      seg_end_ms (segments ! last (raw_indices s))))
     (segment_topics order segments cfg)"
  using segment_topics_run [of segments order cfg]
  by (simp add: section_run_def faithful_section_def [abs_def])

section \<open>Time ranges\<close>

text \<open>Runs of indices in increasing order, which is what the partition gives.\<close>

definition run_ordered :: "segment list \<Rightarrow> raw_section list \<Rightarrow> bool" where
  "run_ordered segments sections \<longleftrightarrow>
     sorted (concat (map raw_indices sections)) \<and>
     (\<forall>i \<in> set (concat (map raw_indices sections)). i < length segments) \<and>
     list_all (faithful_section segments) sections"

lemma section_run_ordered:
  "section_run segments sections n \<Longrightarrow> n \<le> length segments \<Longrightarrow> run_ordered segments sections"
  by (auto simp: section_run_def run_ordered_def)

lemma run_ordered_snoc:
  "run_ordered segments (sections @ [c]) \<longleftrightarrow>
     run_ordered segments sections \<and> faithful_section segments c \<and>
     sorted (raw_indices c) \<and> (\<forall>i \<in> set (raw_indices c). i < length segments) \<and>
     (\<forall>s \<in> set sections. \<forall>i \<in> set (raw_indices s). \<forall>j \<in> set (raw_indices c). i \<le> j)"
  by (auto simp: run_ordered_def sorted_append)

lemma faithful_range:
  "faithful_section segments s \<Longrightarrow>
     fst (raw_range s) = seg_start_ms (segments ! hd (raw_indices s)) \<and>
     snd (raw_range s) = seg_end_ms (segments ! last (raw_indices s)) \<and>
     hd (raw_indices s) \<in> set (raw_indices s) \<and> last (raw_indices s) \<in> set (raw_indices s)"
  by (simp add: faithful_section_def)

lemma sorted_hd_last: "sorted xs \<Longrightarrow> xs \<noteq> [] \<Longrightarrow> hd xs \<le> last xs"
  by (cases xs) auto

lemma run_ordered_ends:
  assumes "sorted (map seg_end_ms segments)" and "run_ordered segments sections"
  shows "sorted (map (\<lambda>s. snd (raw_range s)) sections)"
  using assms(2)
proof (induction sections rule: rev_induct)
  case Nil
  then show ?case by simp
next
  case (snoc c sections)
  have "snd (raw_range s) \<le> snd (raw_range c)" if s: "s \<in> set sections" for s
  proof -
    have fs: "faithful_section segments s" "faithful_section segments c"
      using snoc.prems s by (auto simp: run_ordered_snoc run_ordered_def list_all_iff)
    have "last (raw_indices s) \<le> last (raw_indices c)" "last (raw_indices c) < length segments"
      using snoc.prems s faithful_range [OF fs(1)] faithful_range [OF fs(2)]
      by (auto simp: run_ordered_snoc)
    then have "seg_end_ms (segments ! last (raw_indices s))
        \<le> seg_end_ms (segments ! last (raw_indices c))"
      using sorted_nth_mono [OF assms(1)] by fastforce
    then show ?thesis
      using faithful_range [OF fs(1)] faithful_range [OF fs(2)] by simp
  qed
  then show ?case
    using snoc by (auto simp: sorted_append run_ordered_snoc)
qed

text \<open>With ordered starts and well-formed segments no section has a negative length.\<close>

lemma run_ordered_ranges:
  assumes "sorted (map seg_start_ms segments)" and "list_all wf_segment segments"
    and "run_ordered segments sections" and "s \<in> set sections"
  shows "fst (raw_range s) \<le> snd (raw_range s) \<and> snd (raw_range s) < 2 ^ 64"
proof -
  have f: "faithful_section segments s"
    using assms(3,4) by (auto simp: run_ordered_def list_all_iff)
  obtain as bs where "sections = as @ s # bs"
    using assms(4) by (auto simp: in_set_conv_decomp)
  then have "sorted (raw_indices s)"
    using assms(3) by (auto simp: run_ordered_def sorted_append)
  then have le: "hd (raw_indices s) \<le> last (raw_indices s)"
    using f by (auto simp: faithful_section_def intro: sorted_hd_last)
  have len: "last (raw_indices s) < length segments"
    using assms(3,4) faithful_range [OF f] by (auto simp: run_ordered_def)
  have "seg_start_ms (segments ! hd (raw_indices s))
      \<le> seg_start_ms (segments ! last (raw_indices s))"
    using sorted_nth_mono [OF assms(1) le] le len by simp
  moreover have "wf_segment (segments ! last (raw_indices s))"
    using assms(2) len by (simp add: list_all_length)
  ultimately show ?thesis
    using faithful_range [OF f] by (simp add: wf_segment_def)
qed

lemma segment_topics_ranges:
  assumes "sorted (map seg_start_ms segments)" and "list_all wf_segment segments"
    and "s \<in> set (segment_topics order segments cfg)"
  shows "fst (raw_range s) \<le> snd (raw_range s) \<and> snd (raw_range s) < 2 ^ 64"
  using run_ordered_ranges [OF assms(1,2) section_run_ordered [OF segment_topics_run] assms(3)]
  by simp

section \<open>The minimum section length\<close>

lemma merge_short_loop_min:
  assumes "sorted (map (\<lambda>s. snd (raw_range s)) (out @ rest))"
    and "\<forall>s \<in> set (tl out). min_ms \<le> snd (raw_range s) - fst (raw_range s)"
  shows "\<forall>s \<in> set (tl (merge_short_loop min_ms out rest)).
           min_ms \<le> snd (raw_range s) - fst (raw_range s)"
  using assms
proof (induction min_ms out rest rule: merge_short_loop.induct)
  case (1 min_ms out)
  then show ?case by simp
next
  case (2 min_ms out s rest)
  show ?case
  proof (cases "snd (raw_range s) - fst (raw_range s) < min_ms \<and> out \<noteq> []")
    case True
    then obtain os p where out: "out = os @ [p]"
      by (metis rev_exhaust)
    have "snd (raw_range p) \<le> snd (raw_range s)"
      using 2(3) out by (simp add: sorted_append)
    then have "\<forall>q \<in> set (tl (os @ [\<lparr>raw_range = (fst (raw_range p), snd (raw_range s)),
        raw_indices = raw_indices p @ raw_indices s\<rparr>])).
        min_ms \<le> snd (raw_range q) - fst (raw_range q)"
      using 2(4) out by (cases os) auto
    with True 2(1,3) out show ?thesis
      by (simp add: Let_def sorted_append)
  next
    case False
    then have "\<forall>q \<in> set (tl (out @ [s])). min_ms \<le> snd (raw_range q) - fst (raw_range q)"
      using 2(4) by (cases out) auto
    with False 2(2,3) show ?thesis by (auto simp: Let_def)
  qed
qed

text \<open>When segment end times do not decrease, every section after the first lasts at least the
  configured minimum, because folding a short section into its predecessor never shortens it.\<close>

theorem segment_topics_min_length:
  assumes "sorted (map seg_end_ms segments)"
    and "s \<in> set (tl (segment_topics order segments cfg))"
  shows "min_section_ms cfg \<le> snd (raw_range s) - fst (raw_range s)"
proof (cases segments)
  case Nil
  with assms(2) show ?thesis by (simp add: segment_topics_def)
next
  case (Cons s0 rest)
  let ?secs = "topic_loop order segments cfg 1 []
      \<lparr>raw_range = (seg_start_ms s0, seg_end_ms s0), raw_indices = [0]\<rparr> rest"
  have "section_run segments ([] @
      [\<lparr>raw_range = (seg_start_ms s0, seg_end_ms s0), raw_indices = [0]\<rparr>]) 1"
    using Cons by (simp add: section_run_def faithful_section_def)
  from topic_loop_run [OF this, of rest] Cons have "section_run segments ?secs (length segments)"
    by auto
  then have "sorted (map (\<lambda>s. snd (raw_range s)) ?secs)"
    using run_ordered_ends [OF assms(1)] section_run_ordered by blast
  then show ?thesis
    using merge_short_loop_min [of "[]" ?secs "min_section_ms cfg"] assms(2) Cons
    by (simp add: segment_topics_def merge_short_sections_def)
qed

definition example_talk :: "segment list" where
  "example_talk =
     (let seg = (\<lambda>a b i. \<lparr>seg_start_ms = a, seg_end_ms = b, seg_text = ''x'',
                   seg_language = Some ''en'', seg_confidence = 0x3F800000,
                   seg_speaker_id = Some i\<rparr>)
      in [seg 0 30000 0, seg 30500 35500 1, seg 60000 100000 0])"

lemma example_talk_topics:
  "map raw_range (segment_topics (\<lambda>t. t) example_talk default_topic_config) =
     [(0, 35500), (60000, 100000)]"
  by (simp add: example_talk_def default_topic_config_def segment_topics_def
      merge_short_sections_def is_speaker_shift_break_def section_dominant_speaker_def
      speaker_share_def seg_duration_def f32_ratio_def f32_of_u64_def round_div_def
      f32_lt_def f32_signed_def f32_magnitude_def f32_is_nan_def Let_def)

theorem segment_topics_min_length_witness:
  "sorted (map seg_end_ms example_talk) \<and>
   list_all (\<lambda>s. 30000 \<le> snd (raw_range s) - fst (raw_range s))
     (tl (segment_topics (\<lambda>t. t) example_talk default_topic_config)) \<and>
   tl (segment_topics (\<lambda>t. t) example_talk default_topic_config) \<noteq> []"
proof -
  have s: "sorted (map seg_end_ms example_talk)"
    by (simp add: example_talk_def)
  have "tl (segment_topics (\<lambda>t. t) example_talk default_topic_config) \<noteq> []"
    using arg_cong [OF example_talk_topics, of "\<lambda>xs. tl xs"] by (auto simp flip: map_tl)
  then show ?thesis
    using s segment_topics_min_length [OF s, of _ "\<lambda>t. t" default_topic_config]
    by (simp add: default_topic_config_def list_all_iff)
qed

section \<open>Speaker shifts\<close>

lemma no_shift_without_speaker [simp]: "\<not> is_speaker_shift_break order segs is None th"
  by (simp add: is_speaker_shift_break_def)

lemma f32_not_lt_zero:
  assumes "unat x < 2 ^ 31"
  shows "\<not> f32_lt x 0"
  using assms by (simp add: f32_lt_def f32_signed_def f32_magnitude_def)

lemma share_totals_new:
  assumes "\<forall>i \<in> set is. seg_speaker_id (segs ! i) \<noteq> Some who"
  shows "snd (share_totals segs is who acc) = snd acc"
  using assms
  by (induction segs "is" who acc rule: share_totals.induct)
     (auto simp: Let_def split: option.splits)

lemma f32_of_u64_0 [simp]: "f32_of_u64 0 = 0"
  by (simp add: f32_of_u64_def round_div_def Let_def)

lemma speaker_share_new:
  assumes "\<forall>i \<in> set is. seg_speaker_id (segs ! i) \<noteq> Some who"
  shows "speaker_share segs is who = 0"
  using share_totals_new [OF assms, of "(0, 0)"]
  by (auto simp: speaker_share_def f32_ratio_def split: prod.split)

lemma bump_total_keys: "fst ` set (bump_total i d ts) = insert i (fst ` set ts)"
  by (induction i d ts rule: bump_total.induct) auto

lemma speaker_totals_keys:
  "fst ` set (speaker_totals segs is ts) =
     fst ` set ts \<union> {j. \<exists>i \<in> set is. seg_speaker_id (segs ! i) = Some j}"
  by (induction segs "is" ts rule: speaker_totals.induct)
     (auto simp: Let_def bump_total_keys split: option.splits)

lemma max_by_total_in:
  "max_by_total xs best = Some b \<Longrightarrow> b \<in> set xs \<union> set_option best"
  by (induction xs best rule: max_by_total.induct) (auto split: option.splits if_splits)

lemma max_by_total_None: "max_by_total xs best = None \<longleftrightarrow> xs = [] \<and> best = None"
  by (induction xs best rule: max_by_total.induct) (auto split: option.splits)

lemma section_dominant_speaker_in:
  assumes "\<And>t. mset (order t) = mset t" and "section_dominant_speaker order segs is = Some d"
  shows "\<exists>i \<in> set is. seg_speaker_id (segs ! i) = Some d"
proof -
  obtain b where "max_by_total (order (speaker_totals segs is [])) None = Some b" "d = fst b"
    using assms(2) by (auto simp: section_dominant_speaker_def)
  then have "b \<in> set (order (speaker_totals segs is []))" "d = fst b"
    by (auto dest: max_by_total_in)
  then have "d \<in> fst ` set (speaker_totals segs is [])"
    using mset_eq_setD [OF assms(1)] by auto
  then show ?thesis
    by (simp add: speaker_totals_keys)
qed

lemma section_dominant_speaker_None:
  assumes "\<And>t. mset (order t) = mset t"
  shows "section_dominant_speaker order segs is = None \<longleftrightarrow>
           (\<forall>i \<in> set is. seg_speaker_id (segs ! i) = None)"
proof -
  have "order t = [] \<longleftrightarrow> t = []" for t
    using assms [of t] by (metis mset_zero_iff)
  then have "section_dominant_speaker order segs is = None \<longleftrightarrow>
      fst ` set (speaker_totals segs is []) = {}"
    by (simp add: section_dominant_speaker_def max_by_total_None)
  also have "\<dots> \<longleftrightarrow> (\<forall>i \<in> set is. seg_speaker_id (segs ! i) = None)"
    unfolding speaker_totals_keys by (auto, metis not_Some_eq)
  finally show ?thesis .
qed

text \<open>With a positive threshold, a speaker who has not yet spoken in the section in progress
  opens a new one exactly when somebody else has spoken in it, whatever order the hash table
  iterates in.\<close>

theorem new_voice_opens_section:
  assumes "\<forall>i \<in> set is. seg_speaker_id (segs ! i) \<noteq> Some who" and "f32_lt 0 th"
    and "\<And>t. mset (order t) = mset t"
  shows "is_speaker_shift_break order segs is (Some who) th \<longleftrightarrow>
           (\<exists>i \<in> set is. seg_speaker_id (segs ! i) \<noteq> None)"
proof (cases "section_dominant_speaker order segs is")
  case None
  then show ?thesis
    using iffD1 [OF section_dominant_speaker_None [OF assms(3)] None]
    by (simp add: is_speaker_shift_break_def)
next
  case (Some d)
  then have "\<exists>i \<in> set is. seg_speaker_id (segs ! i) = Some d"
    by (rule section_dominant_speaker_in [OF assms(3)])
  moreover from this have "d \<noteq> who"
    using assms(1) by auto
  ultimately show ?thesis
    using Some assms(2) speaker_share_new [OF assms(1)]
    by (auto simp: is_speaker_shift_break_def)
qed

theorem new_voice_opens_section_witness:
  "is_speaker_shift_break rev example_talk [0] (Some 1)
     (speaker_shift_threshold default_topic_config)"
proof -
  have a: "\<forall>i \<in> set [0::nat]. seg_speaker_id (example_talk ! i) \<noteq> Some 1"
    by (simp add: example_talk_def)
  have b: "f32_lt 0 (speaker_shift_threshold default_topic_config)"
    by (simp add: default_topic_config_def f32_lt_def f32_signed_def f32_magnitude_def
        f32_is_nan_def)
  show ?thesis
    using new_voice_opens_section [OF a b, of rev] by (simp add: example_talk_def)
qed

end
