(* ===== verification/Screenshot_Anchoring.thy ===== *)
theory Screenshot_Anchoring
  imports Topic_Segmentation
begin

text \<open>
  \<open>panops-core/src/notes/screenshot_anchoring.rs\<close>: each screenshot goes to the first section whose
  half-open time range holds its timestamp, else to the section with the nearest midpoint. The
  midpoint arithmetic is on \<open>u64\<close> and wraps when a range is reversed; the theorems that need it
  not to wrap say so, and \<open>segment_topics_ranges\<close> gives it for the sections of the pipeline.
\<close>

section \<open>The code\<close>

fun containing_from :: "usize \<Rightarrow> raw_section list \<Rightarrow> u64 \<Rightarrow> usize option" where
  "containing_from i [] ms = None"
| "containing_from i (s # ss) ms =
     (if fst (raw_range s) \<le> ms \<and> ms < snd (raw_range s) then Some i
      else containing_from (Suc i) ss ms)"

definition midpoint :: "raw_section \<Rightarrow> u64" where
  "midpoint s =
     u64_add (fst (raw_range s)) (u64_sub (snd (raw_range s)) (fst (raw_range s)) div 2)"

fun nearest_from :: "usize \<Rightarrow> raw_section list \<Rightarrow> u64 \<Rightarrow> usize \<Rightarrow> u64 \<Rightarrow> usize" where
  "nearest_from i [] ms best best_dist = best"
| "nearest_from i (s # ss) ms best best_dist =
     (let dist = abs_diff (midpoint s) ms
      in if dist < best_dist then nearest_from (Suc i) ss ms i dist
         else nearest_from (Suc i) ss ms best best_dist)"

definition section_for_timestamp :: "raw_section list \<Rightarrow> u64 \<Rightarrow> usize" where
  "section_for_timestamp sections ms =
     (case containing_from 0 sections ms of
        Some i \<Rightarrow> i
      | None \<Rightarrow> nearest_from 0 sections ms 0 u64_max)"

fun anchor_loop ::
  "raw_section list \<Rightarrow> screenshot list list \<Rightarrow> screenshot list \<Rightarrow> screenshot list list" where
  "anchor_loop sections out [] = out"
| "anchor_loop sections out (shot # shots) =
     (let idx = section_for_timestamp sections (shot_ms shot)
      in anchor_loop sections (out[idx := out ! idx @ [shot]]) shots)"

definition anchor_screenshots ::
  "raw_section list \<Rightarrow> screenshot list \<Rightarrow> screenshot list list" where
  "anchor_screenshots sections screenshots =
     (let out = map (\<lambda>_. []) sections
      in if sections = [] then out else anchor_loop sections out screenshots)"

section \<open>Which section\<close>

lemma containing_from_Some:
  "containing_from i ss ms = Some k \<Longrightarrow>
     i \<le> k \<and> k - i < length ss \<and>
     fst (raw_range (ss ! (k - i))) \<le> ms \<and> ms < snd (raw_range (ss ! (k - i))) \<and>
     (\<forall>j < k - i. \<not> (fst (raw_range (ss ! j)) \<le> ms \<and> ms < snd (raw_range (ss ! j))))"
proof (induction i ss ms rule: containing_from.induct)
  case (1 i ms)
  then show ?case by simp
next
  case (2 i s ss ms)
  show ?case
  proof (cases "fst (raw_range s) \<le> ms \<and> ms < snd (raw_range s)")
    case True
    with 2(2) show ?thesis by simp
  next
    case False
    with 2 have IH: "Suc i \<le> k" "k - Suc i < length ss"
      "fst (raw_range (ss ! (k - Suc i))) \<le> ms" "ms < snd (raw_range (ss ! (k - Suc i)))"
      "\<forall>j < k - Suc i. \<not> (fst (raw_range (ss ! j)) \<le> ms \<and> ms < snd (raw_range (ss ! j)))"
      by (auto split: if_splits)
    then have k: "k - i = Suc (k - Suc i)"
      by simp
    have "\<not> (fst (raw_range ((s # ss) ! j)) \<le> ms \<and> ms < snd (raw_range ((s # ss) ! j)))"
      if "j < k - i" for j
      using that False IH(5) k by (cases j) auto
    with IH k show ?thesis by auto
  qed
qed

lemma containing_from_None:
  "containing_from i ss ms = None \<longleftrightarrow>
     (\<forall>s \<in> set ss. \<not> (fst (raw_range s) \<le> ms \<and> ms < snd (raw_range s)))"
  by (induction i ss ms rule: containing_from.induct) auto

text \<open>The nearest-midpoint loop: the result is the old best, or the first index that improves it.\<close>

definition dist_to :: "u64 \<Rightarrow> raw_section \<Rightarrow> u64" where
  "dist_to ms s = abs_diff (midpoint s) ms"

lemma nearest_from_min:
  "(nearest_from i ss ms best d = best \<and> (\<forall>s \<in> set ss. d \<le> dist_to ms s)) \<or>
   (\<exists>k < length ss. nearest_from i ss ms best d = i + k \<and> dist_to ms (ss ! k) < d \<and>
      (\<forall>j < length ss. dist_to ms (ss ! k) \<le> dist_to ms (ss ! j)) \<and>
      (\<forall>j < k. dist_to ms (ss ! k) < dist_to ms (ss ! j)))"
proof (induction i ss ms best d rule: nearest_from.induct)
  case (1 i ms best d)
  then show ?case by simp
next
  case (2 i s ss ms best d)
  let ?D = "dist_to ms"
  show ?case
  proof (cases "?D s < d")
    case True
    let ?r = "nearest_from (Suc i) ss ms i (?D s)"
    have eq: "nearest_from i (s # ss) ms best d = ?r"
      using True by (simp add: dist_to_def)
    have "(?r = i \<and> (\<forall>x \<in> set ss. ?D s \<le> ?D x)) \<or>
      (\<exists>k < length ss. ?r = Suc i + k \<and> ?D (ss ! k) < ?D s \<and>
        (\<forall>j < length ss. ?D (ss ! k) \<le> ?D (ss ! j)) \<and> (\<forall>j < k. ?D (ss ! k) < ?D (ss ! j)))"
      using 2(1) [OF refl] True by (simp add: dist_to_def)
    then show ?thesis
    proof (elim disjE exE conjE)
      assume "?r = i" "\<forall>x \<in> set ss. ?D s \<le> ?D x"
      then show ?thesis
        using True eq by (intro disjI2 exI [of _ 0]) (auto simp: nth_Cons split: nat.split)
    next
      fix k
      assume "k < length ss" "?r = Suc i + k" "?D (ss ! k) < ?D s"
        "\<forall>j < length ss. ?D (ss ! k) \<le> ?D (ss ! j)" "\<forall>j < k. ?D (ss ! k) < ?D (ss ! j)"
      then show ?thesis
        using True eq by (intro disjI2 exI [of _ "Suc k"]) (auto simp: nth_Cons split: nat.split)
    qed
  next
    case False
    let ?r = "nearest_from (Suc i) ss ms best d"
    have eq: "nearest_from i (s # ss) ms best d = ?r"
      using False by (simp add: dist_to_def)
    have "(?r = best \<and> (\<forall>x \<in> set ss. d \<le> ?D x)) \<or>
      (\<exists>k < length ss. ?r = Suc i + k \<and> ?D (ss ! k) < d \<and>
        (\<forall>j < length ss. ?D (ss ! k) \<le> ?D (ss ! j)) \<and> (\<forall>j < k. ?D (ss ! k) < ?D (ss ! j)))"
      using 2(2) [OF refl] False by (simp add: dist_to_def)
    then show ?thesis
    proof (elim disjE exE conjE)
      assume "?r = best" "\<forall>x \<in> set ss. d \<le> ?D x"
      then show ?thesis
        using False eq by simp
    next
      fix k
      assume "k < length ss" "?r = Suc i + k" "?D (ss ! k) < d"
        "\<forall>j < length ss. ?D (ss ! k) \<le> ?D (ss ! j)" "\<forall>j < k. ?D (ss ! k) < ?D (ss ! j)"
      then show ?thesis
        using False eq by (intro disjI2 exI [of _ "Suc k"]) (auto simp: nth_Cons split: nat.split)
    qed
  qed
qed

lemma section_for_timestamp_bound:
  assumes "sections \<noteq> []"
  shows "section_for_timestamp sections ms < length sections"
proof (cases "containing_from 0 sections ms")
  case None
  then show ?thesis
    using nearest_from_min [of 0 sections ms 0 u64_max] assms
    by (auto simp: section_for_timestamp_def)
next
  case (Some k)
  then show ?thesis
    using containing_from_Some [OF Some] by (simp add: section_for_timestamp_def)
qed

text \<open>A timestamp inside some half-open section range is anchored in the first such section;
  any other timestamp is anchored in the section whose midpoint is nearest, the earliest one on a
  tie.\<close>

theorem section_for_timestamp_spec:
  assumes "sections \<noteq> []" and "ms < 2 ^ 64"
    and "\<forall>s \<in> set sections. fst (raw_range s) \<le> snd (raw_range s) \<and> snd (raw_range s) < 2 ^ 64"
  defines "holds \<equiv> (\<lambda>i. fst (raw_range (sections ! i)) \<le> ms \<and> ms < snd (raw_range (sections ! i)))"
    and "mid \<equiv> (\<lambda>i. (fst (raw_range (sections ! i)) + snd (raw_range (sections ! i))) div 2)"
    and "k \<equiv> section_for_timestamp sections ms"
  shows "k < length sections \<and>
    (if \<exists>i < length sections. holds i
     then holds k \<and> (\<forall>i < k. \<not> holds i)
     else (\<forall>i < length sections. abs_diff (mid k) ms \<le> abs_diff (mid i) ms) \<and>
          (\<forall>i < k. abs_diff (mid k) ms < abs_diff (mid i) ms))"
proof (cases "containing_from 0 sections ms")
  case (Some i)
  then have "k = i"
    by (simp add: k_def section_for_timestamp_def)
  then show ?thesis
    using containing_from_Some [OF Some] by (auto simp: holds_def)
next
  case None
  then have none: "\<not> (\<exists>i < length sections. holds i)"
    by (auto simp: containing_from_None holds_def)
  have mid: "midpoint (sections ! i) = mid i" if "i < length sections" for i
  proof -
    have b: "fst (raw_range (sections ! i)) \<le> snd (raw_range (sections ! i))"
      "snd (raw_range (sections ! i)) < 2 ^ 64"
      using assms(3) that by auto
    then show ?thesis
      by (simp add: midpoint_def mid_def u64_add_def)
  qed
  have far: "abs_diff (mid i) ms \<le> u64_max" if "i < length sections" for i
    using assms(2,3) that nth_mem [OF that]
    by (fastforce simp: abs_diff_def u64_max_def mid_def)
  have bound: "k < length sections"
    using section_for_timestamp_bound [OF assms(1)] by (simp add: k_def)
  have k: "k = nearest_from 0 sections ms 0 u64_max"
    using None by (simp add: k_def section_for_timestamp_def)
  have dist: "dist_to ms (sections ! i) = abs_diff (mid i) ms" if "i < length sections" for i
    using mid [OF that] by (simp add: dist_to_def)
  have "(\<forall>i < length sections. abs_diff (mid k) ms \<le> abs_diff (mid i) ms) \<and>
      (\<forall>i < k. abs_diff (mid k) ms < abs_diff (mid i) ms)"
    using nearest_from_min [of 0 sections ms 0 u64_max]
  proof (elim disjE exE conjE)
    assume r: "nearest_from 0 sections ms 0 u64_max = 0"
      "\<forall>s \<in> set sections. u64_max \<le> dist_to ms s"
    then have "u64_max \<le> abs_diff (mid i) ms" if "i < length sections" for i
      using that dist [OF that] by (metis nth_mem)
    then show ?thesis
      using far [OF bound] r(1) k by (auto intro: order_trans)
  next
    fix j
    assume "j < length sections" "nearest_from 0 sections ms 0 u64_max = 0 + j"
      "\<forall>i < length sections. dist_to ms (sections ! j) \<le> dist_to ms (sections ! i)"
      "\<forall>i < j. dist_to ms (sections ! j) < dist_to ms (sections ! i)"
    then show ?thesis
      using k dist by auto
  qed
  with none bound show ?thesis by simp
qed

definition example_sections :: "raw_section list" where
  "example_sections = [\<lparr>raw_range = (0, 30000), raw_indices = []\<rparr>,
                       \<lparr>raw_range = (30000, 60000), raw_indices = []\<rparr>]"

theorem section_for_timestamp_spec_witness:
  "section_for_timestamp example_sections 30000 = 1 \<and>
   section_for_timestamp example_sections 70000 = 1 \<and>
   abs_diff 45000 70000 < abs_diff 15000 (70000 :: u64)"
proof -
  have ne: "example_sections \<noteq> []"
    and ok: "\<forall>s \<in> set example_sections.
      fst (raw_range s) \<le> snd (raw_range s) \<and> snd (raw_range s) < 2 ^ 64"
    by (simp_all add: example_sections_def)
  have v: "section_for_timestamp example_sections 30000 = 1"
    "section_for_timestamp example_sections 70000 = 1"
    by (simp_all add: section_for_timestamp_def example_sections_def midpoint_def abs_diff_def
        u64_max_def)
  have none: "(\<exists>i < length example_sections. fst (raw_range (example_sections ! i)) \<le> 70000 \<and>
      70000 < snd (raw_range (example_sections ! i))) = False"
    by (auto simp: example_sections_def nth_Cons' split: if_splits)
  have "\<forall>i < 1. abs_diff
      ((fst (raw_range (example_sections ! 1)) + snd (raw_range (example_sections ! 1))) div 2) 70000
    < abs_diff
      ((fst (raw_range (example_sections ! i)) + snd (raw_range (example_sections ! i))) div 2)
      (70000 :: u64)"
    using section_for_timestamp_spec [OF ne _ ok, of 70000] unfolding none v if_False by simp
  then have "abs_diff 45000 70000 < abs_diff 15000 (70000 :: u64)"
    by (simp add: example_sections_def)
  with v show ?thesis by simp
qed

section \<open>Anchoring\<close>

lemma anchor_loop_eq:
  assumes "sections \<noteq> []" and "length out = length sections"
  shows "anchor_loop sections out shots =
    map (\<lambda>i. out ! i @ filter (\<lambda>s. section_for_timestamp sections (shot_ms s) = i) shots)
      [0..<length sections]"
  using assms(2)
proof (induction shots arbitrary: out)
  case Nil
  then show ?case
    by (simp add: map_nth flip: Nil)
next
  case (Cons shot shots)
  let ?k = "section_for_timestamp sections (shot_ms shot)"
  have k: "?k < length out"
    using section_for_timestamp_bound [OF assms(1)] Cons.prems by simp
  show ?case
    using Cons.IH [of "out[?k := out ! ?k @ [shot]]"] Cons.prems k
    by (auto simp: Let_def nth_list_update intro!: map_cong)
qed

lemma mset_concat_filters:
  "mset (concat (map (\<lambda>i. filter (\<lambda>s. f s = i) xs) [0..<n])) = mset (filter (\<lambda>s. f s < n) xs)"
  for f :: "'a \<Rightarrow> nat"
proof (induction n)
  case 0
  then show ?case by simp
next
  case (Suc n)
  have "filter_mset (\<lambda>s. f s < Suc n) (mset xs) =
      filter_mset (\<lambda>s. f s < n) (mset xs) + filter_mset (\<lambda>s. f s = n) (mset xs)"
    by (induction xs) auto
  with Suc show ?case by simp
qed

text \<open>The loop from the code's starting point: one empty list for each section.\<close>

lemma anchor_screenshots_eq:
  assumes "sections \<noteq> []"
  shows "anchor_screenshots sections shots =
    map (\<lambda>i. filter (\<lambda>s. section_for_timestamp sections (shot_ms s) = i) shots)
      [0..<length sections]"
  using anchor_loop_eq [OF assms, of "map (\<lambda>_. []) sections" shots] assms
  by (auto simp: anchor_screenshots_def Let_def intro!: map_cong)

lemma anchor_screenshots_mset [conserve]:
  assumes "sections \<noteq> []"
  shows "mset (concat (anchor_screenshots sections shots)) = mset shots"
  unfolding anchor_screenshots_eq [OF assms] mset_concat_filters
  by (simp add: section_for_timestamp_bound [OF assms])

text \<open>Anchoring distributes the screenshots over the sections without losing, duplicating or
  reordering any: section number i receives, in their order, exactly the screenshots whose
  timestamp is assigned to i.\<close>

theorem anchor_screenshots_distributes:
  assumes "sections \<noteq> []"
  shows "anchor_screenshots sections shots =
      map (\<lambda>i. filter (\<lambda>s. section_for_timestamp sections (shot_ms s) = i) shots)
        [0..<length sections] \<and>
    mset (concat (anchor_screenshots sections shots)) = mset shots"
  using anchor_screenshots_eq [OF assms] anchor_screenshots_mset [OF assms] by simp

theorem anchor_screenshots_distributes_witness:
  "let secs = example_sections;
       shot = (\<lambda>t. \<lparr>shot_ms = t, shot_path = ''a.jpg'', shot_caption = None\<rparr>)
   in mset (concat (anchor_screenshots secs [shot 15000, shot 45000, shot 70000])) =
        mset [shot 15000, shot 45000, shot 70000]"
  unfolding Let_def
  by (rule anchor_screenshots_distributes [THEN conjunct2]) (simp add: example_sections_def)

end
