(* ===== verification/Pipeline.thy ===== *)
theory Pipeline
  imports Prompts Verifier Topic_Segmentation Screenshot_Anchoring
begin

text \<open>
  \<open>panops-core/src/notes/pipeline.rs\<close>: \<open>NotesGenerator::generate\<close> and its stages.

  The provider is a parameter \<open>llm\<close>: the answer of the \<open>n\<close>-th call that a section makes (the
  sections run in parallel, so each has its own call numbers) to a request. Every provider, with
  whatever state or randomness, is such a family of answers. The routines that call it return the
  list of the requests they sent beside their result. Parameters too, as code outside the
  repository: \<open>json_text\<close> (the serializer), \<open>date_of\<close> (the calendar date of a timestamp), \<open>now\<close>, and
  the iteration orders of two hash tables.
\<close>

type_synonym llm_answers = "nat \<Rightarrow> llm_request \<Rightarrow> llm_result"

section \<open>Section drafts\<close>

record section_draft =
  draft_title :: string
  draft_narrative_md :: string
  draft_key_points :: "string list"
  draft_action_items :: "action_item list"
  draft_time_range_ms :: "u64 \<times> u64"

definition action_item_of_json :: "json \<Rightarrow> action_item option" where
  "action_item_of_json x =
     Option.bind (as_object x) (\<lambda>obj.
     Option.bind (map_of obj ''description'') (\<lambda>d.
     Option.bind (as_str d) (\<lambda>desc.
       Some \<lparr>ai_description = desc,
             ai_owner = Option.bind (map_of obj ''owner'') as_str,
             ai_due = None\<rparr>)))"

definition draft_from_json :: "u64 \<times> u64 \<Rightarrow> json \<Rightarrow> section_draft" where
  "draft_from_json time_range_ms v =
     \<lparr>draft_title = unwrap_or ''Untitled section'' (get_str ''title'' v),
      draft_narrative_md = unwrap_or [] (get_str ''narrative_md'' v),
      draft_key_points = get_strings ''key_points'' v,
      draft_action_items = unwrap_or [] (map_option (List.map_filter action_item_of_json)
        (get_array ''action_items'' v)),
      draft_time_range_ms = time_range_ms\<rparr>"

definition fallback_line :: "segment \<Rightarrow> string" where
  "fallback_line seg =
     ''**'' @ speaker_label (seg_speaker_id seg) @ '':** '' @ seg_text seg @ newline @ newline"

definition draft_fallback ::
  "u64 \<times> u64 \<Rightarrow> segment list \<Rightarrow> string \<Rightarrow> markdown_dialect \<Rightarrow> section_draft" where
  "draft_fallback time_range_ms segs err dialect =
     (let body = (case dialect of
                    NotionEnhanced \<Rightarrow> ''<!-- panops: llm error: '' @ err @ '' -->'' @ newline @ newline
                  | Basic \<Rightarrow> ''> panops: llm error: '' @ err @ newline @ newline)
      in \<lparr>draft_title = ''Section'',
          draft_narrative_md = body @ concat (map fallback_line segs),
          draft_key_points = [], draft_action_items = [],
          draft_time_range_ms = time_range_ms\<rparr>)"

section \<open>Rendered sizes and the rendered budget\<close>

definition rendered_llm_request_chars :: "(json \<Rightarrow> string) \<Rightarrow> llm_request \<Rightarrow> usize" where
  "rendered_llm_request_chars json_text req =
     (case req_system req of None \<Rightarrow> 0 | Some s \<Rightarrow> length s) + length (req_user req) +
     (case req_schema req of None \<Rightarrow> 0 | Some schema \<Rightarrow> length (json_text schema))"

definition section_prompt_chars ::
  "(json \<Rightarrow> string) \<Rightarrow> markdown_dialect \<Rightarrow> string \<Rightarrow> segment list \<Rightarrow> usize" where
  "section_prompt_chars json_text dialect language segs =
     rendered_llm_request_chars json_text (build_section_narrative_prompt segs dialect language)"

text \<open>The loop of \<open>push_rendered_budget_chunk\<close>; \<open>chars_of\<close> is the rendered size of a chunk's prompt.\<close>

fun budget_loop ::
  "(segment list \<Rightarrow> usize) \<Rightarrow> usize \<Rightarrow> segment list \<Rightarrow> segment list list \<Rightarrow> segment list
   \<Rightarrow> segment list \<times> segment list list" where
  "budget_loop chars_of max_chars current out [] = (current, out)"
| "budget_loop chars_of max_chars current out (seg # rest) =
     (let current = current @ [seg]
      in if max_chars < chars_of current \<and> 1 < length current
         then budget_loop chars_of max_chars [last current] (out @ [butlast current]) rest
         else budget_loop chars_of max_chars current out rest)"

text \<open>
  What the loop keeps, and why the recursion stops: it returns a non-empty chunk that is all of its
  input only when that input fits.
\<close>

lemma budget_loop_concat:
  "budget_loop chars_of max_chars current out rest = (current', out') \<Longrightarrow>
     concat out' @ current' = concat out @ current @ rest"
  by (induction chars_of max_chars current out rest rule: budget_loop.induct)
    (auto simp: Let_def split: if_splits)

lemma budget_loop_length:
  "budget_loop chars_of max_chars current out rest = (current', out') \<Longrightarrow>
     length current' \<le> length current + length rest"
  by (induction chars_of max_chars current out rest rule: budget_loop.induct)
    (auto simp: Let_def split: if_splits)

lemma budget_loop_shrinks:
  assumes "budget_loop chars_of max_chars current out rest = (current', out')"
    and "rest \<noteq> []" and "1 < length (current @ rest)" and "max_chars < chars_of (current @ rest)"
  shows "length current' < length (current @ rest)"
  using assms
proof (induction chars_of max_chars current out rest rule: budget_loop.induct)
  case (1 chars_of max_chars current out)
  then show ?case by simp
next
  case (2 chars_of max_chars current out seg rest)
  show ?case
  proof (cases "max_chars < chars_of (current @ [seg]) \<and> current \<noteq> []")
    case True
    then have "budget_loop chars_of max_chars [seg] (out @ [current]) rest = (current', out')"
      using 2(3) by (simp add: Let_def)
    from budget_loop_length [OF this] True show ?thesis
      by (cases current) simp_all
  next
    case False
    then have "rest \<noteq> []"
      using 2(5,6) by (cases rest) auto
    moreover have "budget_loop chars_of max_chars (current @ [seg]) out rest = (current', out')"
      using 2(3) False by (auto simp: Let_def split: if_splits)
    ultimately show ?thesis
      using False 2(2) [OF refl] 2(5,6) by auto
  qed
qed

function push_rendered_budget_chunk ::
  "(segment list \<Rightarrow> usize) \<Rightarrow> usize \<Rightarrow> segment list \<Rightarrow> segment list list
   \<Rightarrow> segment list list" where
  "push_rendered_budget_chunk chars_of max_chars chunk out =
     (if length chunk \<le> 1 \<or> chars_of chunk \<le> max_chars then out @ [chunk]
      else (let (current, out) = budget_loop chars_of max_chars [] out chunk
            in if current \<noteq> [] then push_rendered_budget_chunk chars_of max_chars current out
               else out))"
  by pat_completeness auto
termination
proof (relation "measure (\<lambda>(chars_of, max_chars, chunk, out). length chunk)", goal_cases)
  case 1
  then show ?case by simp
next
  case (2 chars_of max_chars chunk out p current out')
  have "budget_loop chars_of max_chars [] out chunk = (current, out')"
    using 2(2,3) by simp
  from budget_loop_shrinks [OF this] 2(1) show ?case
    by (cases chunk) auto
qed

declare push_rendered_budget_chunk.simps [simp del]

fun split_chunks_loop ::
  "(segment list \<Rightarrow> usize) \<Rightarrow> usize \<Rightarrow> segment list list \<Rightarrow> segment list list
   \<Rightarrow> segment list list" where
  "split_chunks_loop chars_of max_chars [] out = out"
| "split_chunks_loop chars_of max_chars (chunk # chunks) out =
     split_chunks_loop chars_of max_chars chunks (push_rendered_budget_chunk chars_of max_chars chunk out)"

definition split_chunks_to_rendered_budget ::
  "(json \<Rightarrow> string) \<Rightarrow> segment list list \<Rightarrow> markdown_dialect \<Rightarrow> string \<Rightarrow> usize
   \<Rightarrow> segment list list" where
  "split_chunks_to_rendered_budget json_text chunks dialect language max_chars =
     split_chunks_loop (section_prompt_chars json_text dialect language) max_chars chunks []"

section \<open>Merging chunk summaries\<close>

record merge_error =
  merr_message :: string
  merr_llm_failed :: bool

definition merge_error_llm :: "string \<Rightarrow> merge_error" where
  "merge_error_llm message = \<lparr>merr_message = message, merr_llm_failed = True\<rparr>"

definition merge_error_reduction :: "string \<Rightarrow> merge_error" where
  "merge_error_reduction message = \<lparr>merr_message = message, merr_llm_failed = False\<rparr>"

definition merge_prompt_chars ::
  "(json \<Rightarrow> string) \<Rightarrow> markdown_dialect \<Rightarrow> string \<Rightarrow> json list \<Rightarrow> usize" where
  "merge_prompt_chars json_text dialect language batch =
     rendered_llm_request_chars json_text (build_merge_section_prompt batch dialect language)"

text \<open>The inner \<open>while\<close>: it fills a batch as long as the rendered prompt stays within the threshold.\<close>

fun take_batch :: "(json list \<Rightarrow> usize) \<Rightarrow> json list \<Rightarrow> json list \<Rightarrow> json list \<times> json list" where
  "take_batch chars_of batch [] = (batch, [])"
| "take_batch chars_of batch (x # xs) =
     (if batch \<noteq> [] \<and> section_chunk_threshold_chars < chars_of (batch @ [x]) then (batch, x # xs)
      else take_batch chars_of (batch @ [x]) xs)"

lemma take_batch_append: "take_batch chars_of batch xs = (b, r) \<Longrightarrow> batch @ xs = b @ r"
  by (induction chars_of batch xs rule: take_batch.induct) (auto split: if_splits)

lemma take_batch_longer: "take_batch chars_of batch xs = (b, r) \<Longrightarrow> length batch \<le> length b"
  by (induction chars_of batch xs rule: take_batch.induct) (auto split: if_splits)

lemma take_batch_progress:
  assumes "take_batch chars_of [] (x # xs) = (b, r)"
  shows "b \<noteq> []" and "length r < length (x # xs)" and "length (x # xs) = length b + length r"
proof -
  have "take_batch chars_of [x] xs = (b, r)"
    using assms by simp
  then have "length [x] \<le> length b" and app: "[x] @ xs = b @ r"
    using take_batch_longer take_batch_append by blast+
  then show "b \<noteq> []"
    by auto
  moreover have len: "length (x # xs) = length b + length r"
    using arg_cong [OF app, of length] by simp
  ultimately show "length r < length (x # xs)"
    by (cases b) auto
  from len show "length (x # xs) = length b + length r" .
qed

text \<open>One round over all summaries: the \<open>while index < summaries.len()\<close> loop.\<close>

function merge_round ::
  "(json \<Rightarrow> string) \<Rightarrow> llm_answers \<Rightarrow> markdown_dialect \<Rightarrow> string \<Rightarrow> json list \<Rightarrow> json list
   \<Rightarrow> llm_request list \<Rightarrow> (merge_error + json list) \<times> llm_request list" where
  "merge_round json_text llm dialect language next_round [] sent = (Inr next_round, sent)"
| "merge_round json_text llm dialect language next_round (x # xs) sent =
     (let (batch, rest) = take_batch (merge_prompt_chars json_text dialect language) [] (x # xs)
      in if length batch = 1
         then merge_round json_text llm dialect language (next_round @ batch) rest sent
         else (let merge_req = build_merge_section_prompt batch dialect language;
                   sent' = sent @ [merge_req]
               in case llm (length sent) merge_req of
                    Inr (LlmJson v) \<Rightarrow>
                      merge_round json_text llm dialect language (next_round @ [v]) rest sent'
                  | Inr (LlmText _) \<Rightarrow> (Inl (merge_error_reduction ''LLM unavailable''), sent')
                  | Inl e \<Rightarrow> (Inl (merge_error_llm ''LLM unavailable''), sent')))"
  by pat_completeness auto
termination
  by (relation "measure (\<lambda>(json_text, llm, dialect, language, next_round, rest, sent). length rest)")
    (auto simp del: take_batch.simps dest!: sym [of "(_, _)"] take_batch_progress(2))

declare merge_round.simps(2) [simp del]

text \<open>
  A round never lengthens the list, and when it keeps the length it has changed nothing: every batch
  was a single summary. This is why the outer loop ends.
\<close>

lemma merge_round_shrinks:
  "merge_round json_text llm dialect language next_round rest sent = (Inr next', sent') \<Longrightarrow>
     length next' \<le> length next_round + length rest \<and>
     (length next' = length next_round + length rest \<longrightarrow> next' = next_round @ rest)"
proof (induction json_text llm dialect language next_round rest sent rule: merge_round.induct)
  case (1 json_text llm dialect language next_round sent)
  then show ?case by simp
next
  case (2 json_text llm dialect language next_round x xs sent)
  obtain batch rest where b:
    "take_batch (merge_prompt_chars json_text dialect language) [] (x # xs) = (batch, rest)"
    by fastforce
  have len: "Suc (length xs) = length batch + length rest" "batch \<noteq> []" "x # xs = batch @ rest"
    using take_batch_progress [OF b] take_batch_append [OF b] by simp_all
  show ?case
  proof (cases "length batch = 1")
    case True
    have "merge_round json_text llm dialect language next_round (x # xs) sent =
        merge_round json_text llm dialect language (next_round @ batch) rest sent"
      using b True by (simp add: merge_round.simps(2) del: take_batch.simps)
    with 2(1) [OF b [symmetric] refl True] 2(3) show ?thesis
      by (simp add: len)
  next
    case False
    define req where "req = build_merge_section_prompt batch dialect language"
    obtain v where v: "llm (length sent) req = Inr (LlmJson v)"
      "merge_round json_text llm dialect language (next_round @ [v]) rest (sent @ [req]) =
         (Inr next', sent')"
      using 2(3) b False
      by (auto simp: merge_round.simps(2) Let_def req_def simp del: take_batch.simps
          split: sum.splits llm_response.splits)
    have "length next' \<le> length (next_round @ [v]) + length rest"
      using 2(2) [OF b [symmetric] refl False req_def refl v(1) refl v(2)] by simp
    moreover have "1 < length batch"
      using False len(2) by (cases batch) auto
    ultimately show ?thesis
      using len(1) by simp
  qed
qed

definition summaries_estimate :: "(json \<Rightarrow> string) \<Rightarrow> json list \<Rightarrow> usize" where
  "summaries_estimate json_text summaries =
     sum_list (map (estimate_chunk_summary_chars json_text) summaries)"

function merge_loop ::
  "(json \<Rightarrow> string) \<Rightarrow> llm_answers \<Rightarrow> markdown_dialect \<Rightarrow> string \<Rightarrow> json list
   \<Rightarrow> llm_request list \<Rightarrow> (merge_error + json) \<times> llm_request list" where
  "merge_loop json_text llm dialect language summaries sent =
     (if length summaries \<le> 1 then (Inr (summaries ! 0), sent)
      else (case merge_round json_text llm dialect language [] summaries sent of
              (Inl e, sent) \<Rightarrow> (Inl e, sent)
            | (Inr next_round, sent) \<Rightarrow>
                if length next_round = length summaries \<and>
                   summaries_estimate json_text summaries
                     \<le> summaries_estimate json_text next_round
                then (Inl (merge_error_reduction
                  ''merge LLM call failed: chunk summaries cannot be reduced within context threshold''),
                  sent)
                else merge_loop json_text llm dialect language next_round sent))"
  by pat_completeness auto
termination
proof (relation "measure (\<lambda>(json_text, llm, dialect, language, summaries, sent).
    length summaries)", goal_cases)
  case 1
  then show ?case by simp
next
  case (2 json_text llm dialect language summaries sent r sent' next_round)
  then have r: "merge_round json_text llm dialect language [] summaries sent =
      (Inr next_round, sent')"
    by simp
  have "length next_round \<noteq> length summaries"
  proof
    assume "length next_round = length summaries"
    then have "next_round = summaries"
      using merge_round_shrinks [OF r] by simp
    with 2 show False by simp
  qed
  then show ?case
    using merge_round_shrinks [OF r] by simp
qed

declare merge_loop.simps [simp del]

definition merge_chunk_summaries ::
  "(json \<Rightarrow> string) \<Rightarrow> llm_answers \<Rightarrow> markdown_dialect \<Rightarrow> json list \<Rightarrow> string
   \<Rightarrow> llm_request list \<Rightarrow> (merge_error + json) \<times> llm_request list" where
  "merge_chunk_summaries json_text llm dialect summaries language sent =
     (if summaries = [] then
        (Inl (merge_error_reduction ''merge LLM call failed: no chunk summaries''), sent)
      else if length summaries = 1 then (Inr (summaries ! 0), sent)
      else merge_loop json_text llm dialect language summaries sent)"

section \<open>One section\<close>

type_synonym section_result = "section_draft \<times> string option"

definition verified_draft ::
  "u64 \<times> u64 \<Rightarrow> segment list \<Rightarrow> json \<Rightarrow> u32 set \<Rightarrow> markdown_dialect \<Rightarrow> section_result" where
  "verified_draft time_range_ms segs v allowed_speakers dialect =
     (let draft = draft_from_json time_range_ms v
      in case verify_section_attribution (draft_narrative_md draft) (draft_action_items draft)
                allowed_speakers of
           ReportOk \<Rightarrow> (draft, None)
         | DisallowedSpeakers ids \<Rightarrow>
             (draft_fallback time_range_ms segs ''verifier: disallowed speaker reference'' dialect,
              None))"

definition process_single_section ::
  "llm_answers \<Rightarrow> markdown_dialect \<Rightarrow> u64 \<times> u64 \<Rightarrow> segment list \<Rightarrow> llm_request \<Rightarrow> u32 set
   \<Rightarrow> section_result \<times> llm_request list" where
  "process_single_section llm dialect time_range_ms segs req allowed_speakers =
     ((case llm 0 req of
         Inr (LlmJson v) \<Rightarrow> verified_draft time_range_ms segs v allowed_speakers dialect
       | Inr (LlmText _) \<Rightarrow>
           (draft_fallback time_range_ms segs ''llm returned text, expected json'' dialect, None)
       | Inl e \<Rightarrow>
           (let msg = llm_error_text e
            in (draft_fallback time_range_ms segs msg dialect, Some msg))),
      [req])"

text \<open>The loop that summarises the chunks; on failure it returns the error the section reports.\<close>

fun summarize_chunks ::
  "llm_answers \<Rightarrow> markdown_dialect \<Rightarrow> string \<Rightarrow> segment list list \<Rightarrow> json list
   \<Rightarrow> llm_request list \<Rightarrow> (string option + json list) \<times> llm_request list" where
  "summarize_chunks llm dialect language [] chunk_summaries sent = (Inr chunk_summaries, sent)"
| "summarize_chunks llm dialect language (chunk # chunks) chunk_summaries sent =
     (let req = build_section_narrative_prompt chunk dialect language;
          sent' = sent @ [req]
      in case llm (length sent) req of
           Inr (LlmJson v) \<Rightarrow>
             summarize_chunks llm dialect language chunks (chunk_summaries @ [v]) sent'
         | Inr (LlmText _) \<Rightarrow> (Inl None, sent')
         | Inl e \<Rightarrow> (Inl (Some (llm_error_text e)), sent'))"

definition process_section ::
  "(json \<Rightarrow> string) \<Rightarrow> llm_answers \<Rightarrow> markdown_dialect \<Rightarrow> u64 \<times> u64 \<Rightarrow> segment list \<Rightarrow> string
   \<Rightarrow> u32 set \<Rightarrow> section_result \<times> llm_request list" where
  "process_section json_text llm dialect time_range_ms segs language allowed_speakers =
     (let single_req = build_section_narrative_prompt segs dialect language
      in if rendered_llm_request_chars json_text single_req \<le> section_chunk_threshold_chars
         then process_single_section llm dialect time_range_ms segs single_req allowed_speakers
         else
           (let initial_chunks = split_segments_for_chunking segs section_chunk_target_chars
                  section_chunk_threshold_chars;
                chunks = split_chunks_to_rendered_budget json_text initial_chunks dialect language
                  section_chunk_threshold_chars
            in case summarize_chunks llm dialect language chunks [] [] of
                 (Inl err, sent) \<Rightarrow>
                   ((draft_fallback time_range_ms segs ''LLM unavailable'' dialect, err), sent)
               | (Inr chunk_summaries, sent) \<Rightarrow>
                   (case merge_chunk_summaries json_text llm dialect chunk_summaries language sent of
                      (Inr v, sent) \<Rightarrow>
                        (verified_draft time_range_ms segs v allowed_speakers dialect, sent)
                    | (Inl merge_err, sent) \<Rightarrow>
                        ((draft_fallback time_range_ms segs (merr_message merge_err) dialect,
                          if merr_llm_failed merge_err then Some (merr_message merge_err)
                          else None), sent))))"

section \<open>The whole pipeline\<close>

fun bump_count :: "string \<Rightarrow> (string \<times> usize) list \<Rightarrow> (string \<times> usize) list" where
  "bump_count l [] = [(l, 1)]"
| "bump_count l ((k, c) # kcs) =
     (if l = k then (k, c + 1) # kcs else (k, c) # bump_count l kcs)"

fun language_counts :: "segment list \<Rightarrow> (string \<times> usize) list \<Rightarrow> (string \<times> usize) list" where
  "language_counts [] counts = counts"
| "language_counts (s # segs) counts =
     language_counts segs
       (case seg_language s of None \<Rightarrow> counts | Some l \<Rightarrow> bump_count l counts)"

fun max_by_count :: "(string \<times> usize) list \<Rightarrow> (string \<times> usize) option \<Rightarrow> (string \<times> usize) option"
where
  "max_by_count [] best = best"
| "max_by_count (x # xs) best =
     max_by_count xs (case best of None \<Rightarrow> Some x
                                 | Some b \<Rightarrow> if snd b \<le> snd x then Some x else Some b)"

definition dominant_language ::
  "((string \<times> usize) list \<Rightarrow> (string \<times> usize) list) \<Rightarrow> segment list \<Rightarrow> string" where
  "dominant_language order segments =
     unwrap_or ''en'' (map_option fst (max_by_count (order (language_counts segments [])) None))"

fun unique_languages_loop :: "segment list \<Rightarrow> string set \<Rightarrow> string list \<Rightarrow> string list" where
  "unique_languages_loop [] seen out = out"
| "unique_languages_loop (s # segs) seen out =
     (case seg_language s of
        None \<Rightarrow> unique_languages_loop segs seen out
      | Some l \<Rightarrow> if l \<in> seen then unique_languages_loop segs seen out
                   else unique_languages_loop segs (insert l seen) (out @ [l]))"

definition unique_languages :: "segment list \<Rightarrow> string list" where
  "unique_languages segments =
     (let out = unique_languages_loop segments {} [] in if out = [] then [''en''] else out)"

fun collect_speakers_loop :: "segment list \<Rightarrow> u32 set \<Rightarrow> string list \<Rightarrow> string list" where
  "collect_speakers_loop [] seen out = out"
| "collect_speakers_loop (s # segs) seen out =
     (case seg_speaker_id s of
        None \<Rightarrow> collect_speakers_loop segs seen out
      | Some i \<Rightarrow> if i \<in> seen then collect_speakers_loop segs seen out
                   else collect_speakers_loop segs (insert i seen) (out @ [speaker_prefix @ dec i]))"

definition collect_speakers :: "segment list \<Rightarrow> string list" where
  "collect_speakers segments = collect_speakers_loop segments {} []"

definition extract_frontmatter :: "json \<Rightarrow> string \<times> string list" where
  "extract_frontmatter v =
     (unwrap_or ''Untitled meeting'' (get_str ''title'' v), get_strings ''tags'' v)"

definition frontmatter_of_answer :: "llm_result \<Rightarrow> string \<times> string list" where
  "frontmatter_of_answer answer =
     (case answer of
        Inr (LlmJson v) \<Rightarrow> extract_frontmatter v
      | Inr (LlmText _) \<Rightarrow> (''Untitled meeting'', [])
      | Inl e \<Rightarrow> (''Untitled meeting'', []))"

definition clamp_screenshots :: "u64 \<Rightarrow> screenshot list \<Rightarrow> screenshot list" where
  "clamp_screenshots duration_ms shots =
     (if duration_ms = 0 then shots
      else map (\<lambda>s. s\<lparr>shot_ms := min (shot_ms s) duration_ms\<rparr>) shots)"

definition section_of_draft :: "nat \<Rightarrow> section_draft \<Rightarrow> screenshot list \<Rightarrow> notes_section" where
  "section_of_draft i d shots =
     \<lparr>sec_index = (if i + 1 \<le> u32_max then i + 1 else u32_max),
      sec_title = draft_title d,
      sec_time_range_ms = draft_time_range_ms d,
      sec_narrative_md = draft_narrative_md d,
      sec_key_points = draft_key_points d,
      sec_action_items = draft_action_items d,
      sec_screenshots = shots\<rparr>"

definition cargo_pkg_version :: string where
  "cargo_pkg_version = ''0.1.0''"

text \<open>The environment of a run: what \<open>generate\<close> takes from outside the repository.\<close>

record pipeline_env =
  env_json_text :: "json \<Rightarrow> string"
  env_llm :: "nat \<Rightarrow> llm_answers"
  env_totals_order :: "(u32 \<times> u64) list \<Rightarrow> (u32 \<times> u64) list"
  env_counts_order :: "(string \<times> usize) list \<Rightarrow> (string \<times> usize) list"
  env_date_of :: "string \<Rightarrow> string"
  env_now :: string

definition section_segments :: "segment list \<Rightarrow> raw_section \<Rightarrow> segment list" where
  "section_segments transcript raw = map (\<lambda>i. transcript ! i) (raw_indices raw)"

definition allowed_speakers_of :: "segment list \<Rightarrow> u32 set" where
  "allowed_speakers_of transcript = set (List.map_filter seg_speaker_id transcript)"

definition input_language :: "pipeline_env \<Rightarrow> notes_input \<Rightarrow> string" where
  "input_language env input =
     (case mm_language_hint (ni_metadata input) of
        Some l \<Rightarrow> l
      | None \<Rightarrow> dominant_language (env_counts_order env) (ni_transcript input))"

definition input_sections :: "pipeline_env \<Rightarrow> notes_input \<Rightarrow> raw_section list" where
  "input_sections env input =
     segment_topics (env_totals_order env) (ni_transcript input) default_topic_config"

text \<open>Stage 2: all sections, with the requests each of them sent.\<close>

definition section_results ::
  "pipeline_env \<Rightarrow> markdown_dialect \<Rightarrow> notes_input \<Rightarrow> (section_result \<times> llm_request list) list"
where
  "section_results env dialect input =
     map (\<lambda>(i, raw). process_section (env_json_text env) (env_llm env i) dialect (raw_range raw)
            (section_segments (ni_transcript input) raw) (input_language env input)
            (allowed_speakers_of (ni_transcript input)))
       (enumerate 0 (input_sections env input))"

definition generate ::
  "pipeline_env \<Rightarrow> markdown_dialect \<Rightarrow> notes_input
   \<Rightarrow> (notes_error + structured_notes) \<times> llm_request list" where
  "generate env dialect input =
     (if ni_transcript input = [] then (Inl EmptyTranscript, [])
      else
        (let language = input_language env input;
             raw_sections = input_sections env input;
             results = section_results env dialect input;
             sent = concat (map snd results);
             total_sections = length results;
             llm_errors = List.map_filter (\<lambda>r. snd (fst r)) results
         in if 0 < total_sections \<and> length llm_errors = total_sections
            then (Inl (LlmUnavailable (length llm_errors) total_sections (last llm_errors)), sent)
            else
              (let section_drafts = map (\<lambda>r. fst (fst r)) results;
                   duration_ms = mm_duration_ms (ni_metadata input);
                   shots = clamp_screenshots duration_ms (ni_screenshots input);
                   per_section_screenshots = anchor_screenshots raw_sections shots;
                   summaries = map (\<lambda>d. \<lparr>sum_title = draft_title d,
                                         sum_key_points = draft_key_points d\<rparr>) section_drafts;
                   fm_req = build_frontmatter_prompt summaries language duration_ms;
                   (title, tags) =
                     frontmatter_of_answer (env_llm env (length raw_sections) 0 fm_req)
               in (Inr
                 \<lparr>sn_schema_version = notes_schema_version,
                  sn_frontmatter =
                    \<lparr>fm_title = title,
                     fm_date = env_date_of env (mm_started_at (ni_metadata input)),
                     fm_started_at = mm_started_at (ni_metadata input),
                     fm_duration_ms = duration_ms,
                     fm_speakers = collect_speakers (ni_transcript input),
                     fm_languages = unique_languages (ni_transcript input),
                     fm_tags = tags,
                     fm_template = ''default'',
                     fm_dialect = dialect,
                     fm_panops_version = cargo_pkg_version,
                     fm_source_audio = mm_source_path (ni_metadata input)\<rparr>,
                  sn_sections = map (\<lambda>(i, d, shots). section_of_draft i d shots)
                    (enumerate 0 (zip section_drafts per_section_screenshots)),
                  sn_language = language,
                  sn_generated_at = env_now env\<rparr>,
                  sent @ [fm_req]))))"

end
