(* ===== verification/Pipeline_Correct.thy ===== *)
theory Pipeline_Correct
  imports Pipeline
begin

text \<open>
  Correctness of the notes pipeline: prompts stay within the context budget, the number of LLM calls
  is bounded by the transcript, the run fails exactly when the provider does, and its notes keep the
  sections, the screenshots and the attribution rule.
\<close>

section \<open>Chunks within the rendered budget\<close>

definition chunk_ok :: "(segment list \<Rightarrow> usize) \<Rightarrow> usize \<Rightarrow> segment list \<Rightarrow> bool" where
  "chunk_ok chars_of max_chars c = (c \<noteq> [] \<and> (chars_of c \<le> max_chars \<or> length c = 1))"

lemma budget_loop_ok:
  assumes "budget_loop chars_of max_chars current out rest = (current', out')"
    and "list_all (chunk_ok chars_of max_chars) out"
    and "current = [] \<or> chunk_ok chars_of max_chars current"
  shows "list_all (chunk_ok chars_of max_chars) out' \<and>
         (current' = [] \<or> chunk_ok chars_of max_chars current')"
  using assms
proof (induction chars_of max_chars current out rest rule: budget_loop.induct)
  case (1 chars_of max_chars current out)
  then show ?case by simp
next
  case (2 chars_of max_chars current out seg rest)
  show ?case
  proof (cases "max_chars < chars_of (current @ [seg]) \<and> current \<noteq> []")
    case True
    with 2(1) [OF refl] 2(3-5) show ?thesis
      by (auto simp: Let_def chunk_ok_def)
  next
    case False
    moreover have "budget_loop chars_of max_chars (current @ [seg]) out rest = (current', out')"
      using 2(3) False by (auto simp: Let_def split: if_splits)
    moreover have "chunk_ok chars_of max_chars (current @ [seg])"
      using False by (auto simp: chunk_ok_def)
    ultimately show ?thesis
      using 2(2) [OF refl] 2(4) by auto
  qed
qed

lemma push_rendered_budget_ok:
  assumes "chunk \<noteq> []" and "list_all (chunk_ok chars_of max_chars) out"
  shows "concat (push_rendered_budget_chunk chars_of max_chars chunk out) = concat out @ chunk \<and>
    list_all (chunk_ok chars_of max_chars) (push_rendered_budget_chunk chars_of max_chars chunk out)"
  using assms
proof (induction chars_of max_chars chunk out rule: push_rendered_budget_chunk.induct)
  case (1 chars_of max_chars chunk out)
  show ?case
  proof (cases "length chunk \<le> 1 \<or> chars_of chunk \<le> max_chars")
    case True
    then have "chunk_ok chars_of max_chars chunk"
      using 1(2) by (cases chunk) (auto simp: chunk_ok_def)
    with True 1(3) show ?thesis
      by (simp add: push_rendered_budget_chunk.simps [of chars_of])
  next
    case False
    obtain current out' where b: "budget_loop chars_of max_chars [] out chunk = (current, out')"
      by fastforce
    have ok: "list_all (chunk_ok chars_of max_chars) out'"
      using budget_loop_ok [OF b] 1(3) by simp
    have app: "concat out' @ current = concat out @ chunk"
      using budget_loop_concat [OF b] by simp
    show ?thesis
    proof (cases "current = []")
      case True
      with False b ok app show ?thesis
        by (simp add: push_rendered_budget_chunk.simps [of chars_of])
    next
      case ne: False
      have "push_rendered_budget_chunk chars_of max_chars chunk out =
          push_rendered_budget_chunk chars_of max_chars current out'"
        using False b ne
        by (subst push_rendered_budget_chunk.simps) simp
      then show ?thesis
        using 1(1) [OF False b [symmetric] refl ne] ne ok app by simp
    qed
  qed
qed

lemma split_chunks_loop_ok:
  assumes "[] \<notin> set chunks" and "list_all (chunk_ok chars_of max_chars) out"
  shows "concat (split_chunks_loop chars_of max_chars chunks out) = concat out @ concat chunks \<and>
    list_all (chunk_ok chars_of max_chars) (split_chunks_loop chars_of max_chars chunks out)"
  using assms
proof (induction chars_of max_chars chunks out rule: split_chunks_loop.induct)
  case (1 chars_of max_chars out)
  then show ?case by simp
next
  case (2 chars_of max_chars chunk chunks out)
  then show ?case
    using push_rendered_budget_ok [of chunk chars_of max_chars out] by auto
qed

text \<open>The chunks of a long section, as \<open>process_section\<close> computes them.\<close>

definition section_chunks ::
  "(json \<Rightarrow> string) \<Rightarrow> markdown_dialect \<Rightarrow> string \<Rightarrow> segment list \<Rightarrow> segment list list" where
  "section_chunks json_text dialect language segs =
     split_chunks_to_rendered_budget json_text
       (split_segments_for_chunking segs section_chunk_target_chars section_chunk_threshold_chars)
       dialect language section_chunk_threshold_chars"

lemma section_chunks_ok:
  "concat (section_chunks json_text dialect language segs) = segs"
  "list_all (chunk_ok (section_prompt_chars json_text dialect language)
     section_chunk_threshold_chars) (section_chunks json_text dialect language segs)"
  using split_chunks_loop_ok [of
      "split_segments_for_chunking segs section_chunk_target_chars section_chunk_threshold_chars"
      "section_prompt_chars json_text dialect language" section_chunk_threshold_chars "[]"]
    split_segments_concat
  by (simp_all add: section_chunks_def split_chunks_to_rendered_budget_def)

lemma concat_length_le:
  "list_all (\<lambda>c. c \<noteq> []) cs \<Longrightarrow> length cs \<le> length (concat cs)"
proof (induction cs)
  case (Cons c cs)
  then show ?case by (cases c) auto
qed simp

lemma section_chunks_length: "length (section_chunks json_text dialect language segs) \<le> length segs"
proof -
  have "list_all (\<lambda>c. c \<noteq> []) (section_chunks json_text dialect language segs)"
    using section_chunks_ok(2) by (auto simp: list_all_iff chunk_ok_def)
  from concat_length_le [OF this] show ?thesis
    by (simp add: section_chunks_ok(1))
qed

text \<open>A section whose prompt is too large is cut into chunks that concatenate to the section,
  are non-empty, and whose rendered prompts (system text, user text and schema) stay within the
  threshold, except a chunk of a single segment. The recursion that re-splits the last chunk ends.\<close>

theorem rendered_budget_sound:
  "let chunks = split_chunks_to_rendered_budget json_text
         (split_segments_for_chunking segs section_chunk_target_chars section_chunk_threshold_chars)
         dialect language section_chunk_threshold_chars
   in concat chunks = segs \<and>
      list_all (\<lambda>c. c \<noteq> [] \<and>
        (rendered_llm_request_chars json_text (build_section_narrative_prompt c dialect language)
           \<le> 8000 \<or> length c = 1)) chunks"
  using section_chunks_ok [of json_text dialect language segs]
  unfolding Let_def section_chunks_def chunk_ok_def [abs_def] section_prompt_chars_def
    section_chunk_threshold_chars_def
  by blast

section \<open>The requests that are sent\<close>

definition within_budget ::
  "(json \<Rightarrow> string) \<Rightarrow> markdown_dialect \<Rightarrow> string \<Rightarrow> segment list \<Rightarrow> llm_request \<Rightarrow> bool" where
  "within_budget json_text dialect language segs req \<longleftrightarrow>
     rendered_llm_request_chars json_text req \<le> section_chunk_threshold_chars \<or>
     (\<exists>seg \<in> set segs. req = build_section_narrative_prompt [seg] dialect language)"

lemma summarize_chunks_sent:
  assumes "summarize_chunks llm dialect language chunks summaries sent = (r, sent')"
  shows "(\<exists>k \<le> length chunks. sent' = sent @
            map (\<lambda>c. build_section_narrative_prompt c dialect language) (take k chunks)) \<and>
         (\<forall>vs. r = Inr vs \<longrightarrow> length vs = length summaries + length chunks)"
  using assms
proof (induction llm dialect language chunks summaries sent rule: summarize_chunks.induct)
  case (1 llm dialect language summaries sent)
  then show ?case by auto
next
  case (2 llm dialect language chunk chunks summaries sent)
  let ?req = "build_section_narrative_prompt chunk dialect language"
  show ?case
  proof (cases "\<exists>v. llm (length sent) ?req = Inr (LlmJson v)")
    case True
    then obtain v where v: "llm (length sent) ?req = Inr (LlmJson v)"
      by blast
    from 2(1) [OF refl refl v refl] 2(2) v obtain k where
      "k \<le> length chunks" "sent' = (sent @ [?req]) @
         map (\<lambda>c. build_section_narrative_prompt c dialect language) (take k chunks)"
      "\<forall>vs. r = Inr vs \<longrightarrow> length vs = Suc (length summaries) + length chunks"
      by (auto simp: Let_def)
    then show ?thesis
      by (intro conjI exI [of _ "Suc k"]) auto
  next
    case False
    then have "sent' = sent @ [?req]" "\<not> isl r \<Longrightarrow> False"
      using 2(2) by (auto simp: Let_def split: sum.splits llm_response.splits)
    then show ?thesis
      by (intro conjI exI [of _ 1]) auto
  qed
qed

text \<open>A batch of several summaries is within the threshold, because that is when it is extended.\<close>

lemma take_batch_budget:
  "take_batch chars_of batch xs = (b, r) \<Longrightarrow>
     (1 < length batch \<longrightarrow> chars_of batch \<le> section_chunk_threshold_chars) \<Longrightarrow>
     1 < length b \<Longrightarrow> chars_of b \<le> section_chunk_threshold_chars"
  by (induction chars_of batch xs rule: take_batch.induct) (auto split: if_splits)

lemma merge_round_sent:
  assumes "merge_round json_text llm dialect language next_round rest sent = (r, sent')"
  shows "\<exists>new. sent' = sent @ new \<and>
     list_all (\<lambda>req. rendered_llm_request_chars json_text req \<le> section_chunk_threshold_chars) new \<and>
     (\<forall>vs. r = Inr vs \<longrightarrow> length new + length vs \<le> length next_round + length rest \<and>
        (next_round @ rest \<noteq> [] \<longrightarrow> vs \<noteq> [])) \<and>
     (isl r \<longrightarrow> length new < length next_round + length rest)"
  using assms
proof (induction json_text llm dialect language next_round rest sent rule: merge_round.induct)
  case (1 json_text llm dialect language next_round sent)
  then show ?case by auto
next
  case (2 json_text llm dialect language next_round x xs sent)
  obtain batch rest where b:
    "take_batch (merge_prompt_chars json_text dialect language) [] (x # xs) = (batch, rest)"
    by fastforce
  have len: "Suc (length xs) = length batch + length rest" "batch \<noteq> []"
    using take_batch_progress [OF b] by simp_all
  show ?case
  proof (cases "length batch = 1")
    case True
    have "merge_round json_text llm dialect language next_round (x # xs) sent =
        merge_round json_text llm dialect language (next_round @ batch) rest sent"
      using b True by (simp add: merge_round.simps(2) del: take_batch.simps)
    with 2(1) [OF b [symmetric] refl True] 2(3) True show ?thesis
      using len by auto
  next
    case False
    define req where "req = build_merge_section_prompt batch dialect language"
    have big: "1 < length batch"
      using False len(2) by (cases batch) auto
    have fits: "rendered_llm_request_chars json_text req \<le> section_chunk_threshold_chars"
      using take_batch_budget [OF b] big by (simp add: req_def merge_prompt_chars_def)
    show ?thesis
    proof (cases "\<exists>v. llm (length sent) req = Inr (LlmJson v)")
      case True
      then obtain v where v: "llm (length sent) req = Inr (LlmJson v)"
        by blast
      have "merge_round json_text llm dialect language (next_round @ [v]) rest (sent @ [req]) =
          (r, sent')"
        using 2(3) b False v
        by (simp add: merge_round.simps(2) req_def Let_def del: take_batch.simps)
      from 2(2) [OF b [symmetric] refl False req_def refl v refl this] obtain new where
        new: "sent' = (sent @ [req]) @ new"
          "list_all (\<lambda>q. rendered_llm_request_chars json_text q \<le> section_chunk_threshold_chars) new"
          "\<forall>vs. r = Inr vs \<longrightarrow> length new + length vs \<le> Suc (length next_round) + length rest \<and>
             vs \<noteq> []"
          "isl r \<longrightarrow> length new < Suc (length next_round) + length rest"
        by auto
      show ?thesis
        by (rule exI [of _ "req # new"]) (use new fits big len(1) in auto)
    next
      case bad: False
      then have "sent' = sent @ [req]" "isl r"
        using 2(3) b False
        by (auto simp: merge_round.simps(2) req_def Let_def simp del: take_batch.simps
            split: sum.splits llm_response.splits)
      then show ?thesis
        by (intro exI [of _ "[req]"]) (use fits big len(1) in \<open>auto simp: isl_def\<close>)
    qed
  qed
qed

lemma merge_loop_sent:
  assumes "merge_loop json_text llm dialect language summaries sent = (r, sent')"
    and "summaries \<noteq> []"
  shows "\<exists>new. sent' = sent @ new \<and> length new < length summaries \<and>
     list_all (\<lambda>req. rendered_llm_request_chars json_text req \<le> section_chunk_threshold_chars) new"
  using assms
proof (induction json_text llm dialect language summaries sent rule: merge_loop.induct)
  case (1 json_text llm dialect language summaries sent)
  show ?case
  proof (cases "length summaries \<le> 1")
    case True
    with 1(2,3) show ?thesis
      by (cases summaries) (auto simp: merge_loop.simps [of json_text])
  next
    case False
    obtain q sent1 where q: "merge_round json_text llm dialect language [] summaries sent = (q, sent1)"
      by fastforce
    obtain new where new: "sent1 = sent @ new"
      "list_all (\<lambda>req. rendered_llm_request_chars json_text req \<le> section_chunk_threshold_chars) new"
      "\<forall>vs. q = Inr vs \<longrightarrow> length new + length vs \<le> length summaries \<and> vs \<noteq> []"
      "isl q \<longrightarrow> length new < length summaries"
      using merge_round_sent [OF q] 1(3) by auto
    show ?thesis
    proof (cases q)
      case (Inl e)
      with 1(2) False q new show ?thesis
        by (auto simp: merge_loop.simps [of json_text])
    next
      case (Inr next_round)
      have short: "length new + length next_round \<le> length summaries" "next_round \<noteq> []"
        using new(3) Inr by auto
      then have less: "length new < length summaries"
        by (cases next_round) auto
      show ?thesis
      proof (cases "length next_round = length summaries \<and>
          summaries_estimate json_text summaries \<le> summaries_estimate json_text next_round")
        case True
        with 1(2) False q Inr new less show ?thesis
          by (auto simp: merge_loop.simps [of json_text])
      next
        case again: False
        have "merge_loop json_text llm dialect language next_round sent1 = (r, sent')"
          using 1(2) False q Inr again
          by (subst (asm) merge_loop.simps) (auto split: if_splits)
        from 1(1) [OF False q [symmetric] Inr again this short(2)] obtain new' where
          "sent' = sent1 @ new'" "length new' < length next_round"
          "list_all (\<lambda>req. rendered_llm_request_chars json_text req
             \<le> section_chunk_threshold_chars) new'"
          by blast
        then show ?thesis
          using new short by (intro exI [of _ "new @ new'"]) auto
      qed
    qed
  qed
qed

lemma merge_chunk_summaries_sent:
  assumes "merge_chunk_summaries json_text llm dialect summaries language sent = (r, sent')"
  shows "\<exists>new. sent' = sent @ new \<and> length new \<le> length summaries - 1 \<and>
     list_all (\<lambda>req. rendered_llm_request_chars json_text req \<le> section_chunk_threshold_chars) new"
proof -
  consider "summaries = []" | "length summaries = 1" | "1 < length summaries"
    by (cases summaries) auto
  then show ?thesis
  proof cases
    case 3
    then have "summaries \<noteq> []"
      by auto
    moreover from 3 this have "merge_loop json_text llm dialect language summaries sent = (r, sent')"
      using assms by (simp add: merge_chunk_summaries_def split: if_splits)
    ultimately show ?thesis
      using merge_loop_sent by fastforce
  qed (use assms in \<open>auto simp: merge_chunk_summaries_def split: if_splits\<close>)
qed

lemma section_chunk_requests:
  "\<forall>c \<in> set (section_chunks json_text dialect language segs).
     within_budget json_text dialect language segs
       (build_section_narrative_prompt c dialect language)"
proof
  fix c assume c: "c \<in> set (section_chunks json_text dialect language segs)"
  then have ok: "chunk_ok (section_prompt_chars json_text dialect language)
      section_chunk_threshold_chars c"
    using section_chunks_ok(2) by (auto simp: list_all_iff)
  have "set c \<subseteq> set (concat (section_chunks json_text dialect language segs))"
    using c by auto
  then have sub: "set c \<subseteq> set segs"
    by (simp only: section_chunks_ok(1))
  show "within_budget json_text dialect language segs
      (build_section_narrative_prompt c dialect language)"
  proof (cases "length c = 1")
    case True
    then obtain seg where "c = [seg]"
      by (auto simp: length_Suc_conv)
    with sub show ?thesis
      by (auto simp: within_budget_def)
  next
    case False
    with ok show ?thesis
      by (simp add: chunk_ok_def section_prompt_chars_def within_budget_def)
  qed
qed

lemma process_section_sent:
  assumes "process_section json_text llm dialect rng segs language allowed = (r, sent)"
  shows "list_all (within_budget json_text dialect language segs) sent \<and>
    (segs \<noteq> [] \<longrightarrow> Suc (length sent) \<le> 2 * length segs)"
proof (cases "rendered_llm_request_chars json_text
    (build_section_narrative_prompt segs dialect language) \<le> section_chunk_threshold_chars")
  case True
  then show ?thesis
    using assms
    by (cases segs)
      (auto simp: process_section_def process_single_section_def within_budget_def Let_def)
next
  case False
  let ?chunks = "section_chunks json_text dialect language segs"
  obtain q sent1 where q: "summarize_chunks llm dialect language ?chunks [] [] = (q, sent1)"
    by fastforce
  from summarize_chunks_sent [OF q] obtain k where
    k: "k \<le> length ?chunks"
      "sent1 = map (\<lambda>c. build_section_narrative_prompt c dialect language) (take k ?chunks)"
      "\<forall>vs. q = Inr vs \<longrightarrow> length vs = length ?chunks"
    by auto
  have ok1: "list_all (within_budget json_text dialect language segs) sent1"
    using section_chunk_requests [of json_text dialect language segs] k(2)
    by (auto simp: list_all_iff dest: in_set_takeD)
  have len1: "length sent1 \<le> length segs"
    using k section_chunks_length [of json_text dialect language segs] by simp
  show ?thesis
  proof (cases q)
    case (Inl err)
    then have "sent = sent1"
      using assms False q by (auto simp: process_section_def Let_def section_chunks_def)
    then show ?thesis
      using ok1 len1 by (cases segs) auto
  next
    case (Inr vs)
    obtain m sent2 where m:
      "merge_chunk_summaries json_text llm dialect vs language sent1 = (m, sent2)"
      by fastforce
    have "sent = sent2"
      using assms False q Inr m
      by (auto simp: process_section_def Let_def section_chunks_def split: sum.splits)
    moreover obtain new where new: "sent2 = sent1 @ new" "length new \<le> length vs - 1"
      "list_all (\<lambda>req. rendered_llm_request_chars json_text req \<le> section_chunk_threshold_chars) new"
      using merge_chunk_summaries_sent [OF m] by blast
    moreover have "list_all (within_budget json_text dialect language segs) new"
      using new(3) by (auto simp: list_all_iff within_budget_def)
    moreover have "length vs \<le> length segs"
      using k(3) Inr section_chunks_length by auto
    ultimately show ?thesis
      using ok1 len1 by (cases segs) auto
  qed
qed

section \<open>All requests of a run\<close>

lemma input_sections_run:
  "section_run (ni_transcript input) (input_sections env input) (length (ni_transcript input))"
  by (simp add: input_sections_def segment_topics_run)

lemma section_segments_concat:
  "concat (map (section_segments (ni_transcript input)) (input_sections env input)) =
     ni_transcript input"
proof -
  let ?t = "ni_transcript input"
  have "concat (map (section_segments ?t) (input_sections env input)) =
      map (\<lambda>i. ?t ! i) (concat (map raw_indices (input_sections env input)))"
    by (simp add: section_segments_def [abs_def] map_concat comp_def)
  then show ?thesis
    using input_sections_run [of input env] by (simp add: section_run_def map_nth)
qed

lemma section_segments_nonempty:
  "raw \<in> set (input_sections env input) \<Longrightarrow> section_segments (ni_transcript input) raw \<noteq> []"
  using input_sections_run [of input env]
  by (auto simp: section_run_def list_all_iff faithful_section_def section_segments_def)

lemma section_segments_subset:
  "raw \<in> set (input_sections env input) \<Longrightarrow>
     set (section_segments (ni_transcript input) raw) \<subseteq> set (ni_transcript input)"
  using section_segments_concat [of input env] by (metis UN_upper set_concat set_map image_eqI)

lemma input_sections_nonempty: "ni_transcript input \<noteq> [] \<Longrightarrow> input_sections env input \<noteq> []"
  using section_segments_concat [of input env] by auto

lemma section_results_nth:
  "i < length (input_sections env input) \<Longrightarrow>
     section_results env dialect input ! i =
       process_section (env_json_text env) (env_llm env i) dialect
         (raw_range (input_sections env input ! i))
         (section_segments (ni_transcript input) (input_sections env input ! i))
         (input_language env input) (allowed_speakers_of (ni_transcript input))"
  by (simp add: section_results_def nth_enumerate_eq)

lemma length_section_results [simp]:
  "length (section_results env dialect input) = length (input_sections env input)"
  by (simp add: section_results_def)

text \<open>The summaries that the frontmatter prompt is built from.\<close>

definition section_summaries :: "pipeline_env \<Rightarrow> markdown_dialect \<Rightarrow> notes_input \<Rightarrow> section_summary list"
where
  "section_summaries env dialect input =
     map (\<lambda>r. \<lparr>sum_title = draft_title (fst (fst r)),
               sum_key_points = draft_key_points (fst (fst r))\<rparr>) (section_results env dialect input)"

lemma generate_sent:
  "set (snd (generate env dialect input)) \<subseteq>
     (\<Union>r \<in> set (section_results env dialect input). set (snd r)) \<union>
     {build_frontmatter_prompt (section_summaries env dialect input) (input_language env input)
        (mm_duration_ms (ni_metadata input))}"
  by (auto simp: generate_def Let_def section_summaries_def comp_def split: prod.splits if_splits)

text \<open>C2: Every request of a run stays within the prompt threshold of 8000 bytes, whatever the
  provider answers, except the frontmatter request and the prompt of a section or chunk that is a
  single segment of the transcript.\<close>

theorem generate_requests_within_budget:
  "list_all (\<lambda>req. rendered_llm_request_chars (env_json_text env) req \<le> 8000 \<or>
      (\<exists>seg \<in> set (ni_transcript input).
         req = build_section_narrative_prompt [seg] dialect (input_language env input)) \<or>
      (\<exists>summaries. req = build_frontmatter_prompt summaries (input_language env input)
         (mm_duration_ms (ni_metadata input))))
     (snd (generate env dialect input))"
proof -
  have "within_budget (env_json_text env) dialect (input_language env input) (ni_transcript input) req"
    if r: "r \<in> set (section_results env dialect input)" "req \<in> set (snd r)" for r req
  proof -
    obtain i where i: "i < length (input_sections env input)"
      "r = section_results env dialect input ! i"
      using r(1) by (metis in_set_conv_nth length_section_results)
    let ?raw = "input_sections env input ! i"
    have "within_budget (env_json_text env) dialect (input_language env input)
        (section_segments (ni_transcript input) ?raw) req"
      using process_section_sent [OF prod.collapse [symmetric]] r(2) i
      by (auto simp: section_results_nth list_all_iff)
    moreover have "set (section_segments (ni_transcript input) ?raw) \<subseteq> set (ni_transcript input)"
      by (rule section_segments_subset [of _ env]) (use i in simp)
    ultimately show ?thesis
      by (auto simp: within_budget_def)
  qed
  then have "within_budget (env_json_text env) dialect (input_language env input)
        (ni_transcript input) req \<or>
      (\<exists>summaries. req = build_frontmatter_prompt summaries (input_language env input)
         (mm_duration_ms (ni_metadata input)))"
    if "req \<in> set (snd (generate env dialect input))" for req
    using generate_sent [of env dialect input] that by blast
  then show ?thesis
    unfolding list_all_iff within_budget_def section_chunk_threshold_chars_def by blast
qed

lemma section_requests_bound:
  "length (concat (map snd (section_results env dialect input))) +
     length (input_sections env input) \<le> 2 * length (ni_transcript input)"
proof -
  let ?secs = "input_sections env input"
  let ?t = "ni_transcript input"
  let ?n = "\<lambda>i. length (snd (section_results env dialect input ! i))"
  let ?m = "\<lambda>i. length (section_segments ?t (?secs ! i))"
  have bound: "Suc (?n i) \<le> 2 * ?m i" if "i < length ?secs" for i
    using process_section_sent [OF prod.collapse [symmetric]]
      section_segments_nonempty [of "?secs ! i" env input] that
    by (simp add: section_results_nth)
  have "length (concat (map snd (section_results env dialect input))) + length ?secs =
      (\<Sum>i<length ?secs. Suc (?n i))"
    by (simp add: length_concat sum_list_sum_nth atLeast0LessThan sum_Suc)
  also have "\<dots> \<le> (\<Sum>i<length ?secs. 2 * ?m i)"
    using bound by (intro sum_mono) simp
  also have "\<dots> = 2 * length (concat (map (section_segments ?t) ?secs))"
    by (simp add: length_concat sum_list_sum_nth sum_distrib_left atLeast0LessThan)
  finally show ?thesis
    by (simp only: section_segments_concat)
qed

text \<open>C3: A run makes at most two LLM calls for each segment of the transcript, the chunk, merge and
  frontmatter calls included, whatever the provider answers: the merge rounds end.\<close>

theorem generate_call_bound:
  "length (snd (generate env dialect input)) \<le> 2 * length (ni_transcript input)"
proof (cases "ni_transcript input = []")
  case True
  then show ?thesis by (simp add: generate_def)
next
  case False
  then have "1 \<le> length (input_sections env input)"
    using input_sections_nonempty [OF False, of env] by (cases "input_sections env input") auto
  then show ?thesis
    using section_requests_bound [of env dialect input] False
    by (auto simp: generate_def Let_def split: prod.splits)
qed

section \<open>When a run fails\<close>

lemma length_map_filter:
  "length (List.map_filter f xs) = length xs \<longleftrightarrow> (\<forall>x \<in> set xs. f x \<noteq> None)"
proof (induction xs)
  case Nil
  then show ?case by (simp add: List.map_filter_simps)
next
  case (Cons x xs)
  have "length (List.map_filter f xs) \<le> length xs"
    by (simp add: List.map_filter_def)
  with Cons show ?case
    by (auto simp: List.map_filter_simps split: option.splits)
qed

definition all_sections_failed :: "pipeline_env \<Rightarrow> markdown_dialect \<Rightarrow> notes_input \<Rightarrow> bool" where
  "all_sections_failed env dialect input \<longleftrightarrow>
     (\<forall>r \<in> set (section_results env dialect input). snd (fst r) \<noteq> None)"

lemma generate_outcome:
  "fst (generate env dialect input) =
     (if ni_transcript input = [] then Inl EmptyTranscript
      else if all_sections_failed env dialect input
      then Inl (LlmUnavailable (length (input_sections env input))
        (length (input_sections env input))
        (last (List.map_filter (\<lambda>r. snd (fst r)) (section_results env dialect input))))
      else fst (generate env dialect input)) \<and>
   (isl (fst (generate env dialect input)) \<longleftrightarrow>
      ni_transcript input = [] \<or> all_sections_failed env dialect input)"
proof (cases "ni_transcript input = []")
  case True
  then show ?thesis by (simp add: generate_def)
next
  case False
  then have "0 < length (input_sections env input)"
    using input_sections_nonempty by auto
  with False show ?thesis
    using length_map_filter [of "\<lambda>r. snd (fst r)" "section_results env dialect input"]
    by (auto simp: generate_def Let_def all_sections_failed_def split: prod.splits)
qed

text \<open>A section reports an error only when a call failed, and always when all calls fail.\<close>

lemma summarize_chunks_error:
  "summarize_chunks llm dialect language chunks summaries sent = (Inl (Some msg), sent') \<Longrightarrow>
     \<exists>n req. isl (llm n req)"
  by (induction llm dialect language chunks summaries sent rule: summarize_chunks.induct)
    (auto simp: Let_def isl_def split: sum.splits llm_response.splits)

lemma merge_round_error:
  "merge_round json_text llm dialect language next_round rest sent = (Inl e, sent') \<Longrightarrow>
     merr_llm_failed e \<Longrightarrow> \<exists>n req. isl (llm n req)"
proof (induction json_text llm dialect language next_round rest sent rule: merge_round.induct)
  case (1 json_text llm dialect language next_round sent)
  then show ?case by simp
next
  case (2 json_text llm dialect language next_round x xs sent)
  obtain batch rest where b:
    "take_batch (merge_prompt_chars json_text dialect language) [] (x # xs) = (batch, rest)"
    by fastforce
  define req where "req = build_merge_section_prompt batch dialect language"
  show ?case
  proof (cases "length batch = 1")
    case True
    have "merge_round json_text llm dialect language next_round (x # xs) sent =
        merge_round json_text llm dialect language (next_round @ batch) rest sent"
      using b True by (simp add: merge_round.simps(2) del: take_batch.simps)
    with 2(1) [OF b [symmetric] refl True] 2(3,4) show ?thesis
      by simp
  next
    case False
    have eq: "merge_round json_text llm dialect language next_round (x # xs) sent =
      (case llm (length sent) req of
         Inr (LlmJson v) \<Rightarrow>
           merge_round json_text llm dialect language (next_round @ [v]) rest (sent @ [req])
       | Inr (LlmText _) \<Rightarrow> (Inl (merge_error_reduction ''LLM unavailable''), sent @ [req])
       | Inl e \<Rightarrow> (Inl (merge_error_llm ''LLM unavailable''), sent @ [req]))"
      unfolding req_def using b False
      by (simp add: merge_round.simps(2) Let_def del: take_batch.simps)
    show ?thesis
    proof (cases "\<exists>v. llm (length sent) req = Inr (LlmJson v)")
      case True
      then obtain v where v: "llm (length sent) req = Inr (LlmJson v)"
        by blast
      show ?thesis
        using 2(2) [OF b [symmetric] refl False req_def refl v refl] 2(3,4) eq v by simp
    next
      case bad: False
      then show ?thesis
        using 2(3,4) unfolding eq
        by (auto simp: isl_def merge_error_reduction_def split: sum.splits llm_response.splits)
    qed
  qed
qed

lemma merge_loop_error:
  assumes "merge_loop json_text llm dialect language summaries sent = (Inl e, sent')"
    and "merr_llm_failed e"
  shows "\<exists>n req. isl (llm n req)"
  using assms
proof (induction json_text llm dialect language summaries sent rule: merge_loop.induct)
  case (1 json_text llm dialect language summaries sent)
  have long: "\<not> length summaries \<le> 1"
    using 1(2) by (auto simp: merge_loop.simps [of json_text] split: if_splits)
  obtain q sent1 where q: "merge_round json_text llm dialect language [] summaries sent = (q, sent1)"
    by fastforce
  show ?case
  proof (cases q)
    case (Inl e')
    then show ?thesis
      using 1(2,3) long q merge_round_error by (auto simp: merge_loop.simps [of json_text])
  next
    case (Inr next_round)
    show ?thesis
    proof (cases "length next_round = length summaries \<and>
        summaries_estimate json_text summaries \<le> summaries_estimate json_text next_round")
      case True
      then show ?thesis
        using 1(2,3) long q Inr
        by (auto simp: merge_loop.simps [of json_text] merge_error_reduction_def)
    next
      case False
      have "merge_loop json_text llm dialect language next_round sent1 = (Inl e, sent')"
        using 1(2) long q Inr False by (subst (asm) merge_loop.simps) (auto split: if_splits)
      from 1(1) [OF long q [symmetric] Inr False this 1(3)] show ?thesis .
    qed
  qed
qed

lemma merge_chunk_summaries_error:
  "merge_chunk_summaries json_text llm dialect summaries language sent = (Inl e, sent') \<Longrightarrow>
     merr_llm_failed e \<Longrightarrow> \<exists>n req. isl (llm n req)"
  using merge_loop_error
  by (auto simp: merge_chunk_summaries_def merge_error_reduction_def split: if_splits)

lemma verified_draft_no_error [simp]:
  "snd (verified_draft rng segs v allowed dialect) = None"
  by (simp add: verified_draft_def Let_def split: verifier_report.split)

lemma process_section_error:
  assumes "snd (fst (process_section json_text llm dialect rng segs language allowed)) \<noteq> None"
  shows "\<exists>n req. isl (llm n req)"
proof (cases "rendered_llm_request_chars json_text
    (build_section_narrative_prompt segs dialect language) \<le> section_chunk_threshold_chars")
  case True
  with assms show ?thesis
    by (auto simp: process_section_def process_single_section_def Let_def isl_def
        split: sum.splits llm_response.splits)
next
  case False
  obtain q sent1 where q:
    "summarize_chunks llm dialect language (section_chunks json_text dialect language segs) [] [] =
       (q, sent1)"
    by fastforce
  show ?thesis
  proof (cases q)
    case (Inl err)
    with False assms q have "err \<noteq> None"
      by (simp add: process_section_def Let_def section_chunks_def)
    with Inl q show ?thesis
      using summarize_chunks_error by auto
  next
    case (Inr vs)
    obtain m sent2 where m:
      "merge_chunk_summaries json_text llm dialect vs language sent1 = (m, sent2)"
      by fastforce
    from False assms q Inr m obtain e where "m = Inl e" "merr_llm_failed e"
      by (cases m) (auto simp: process_section_def Let_def section_chunks_def split: if_splits)
    with m show ?thesis
      using merge_chunk_summaries_error by auto
  qed
qed

lemma process_section_down:
  assumes "\<forall>n req. isl (llm n req)" and "segs \<noteq> []"
  shows "snd (fst (process_section json_text llm dialect rng segs language allowed)) \<noteq> None"
proof (cases "rendered_llm_request_chars json_text
    (build_section_narrative_prompt segs dialect language) \<le> section_chunk_threshold_chars")
  case True
  obtain e where "llm 0 (build_section_narrative_prompt segs dialect language) = Inl e"
    using assms(1) by (auto simp: isl_def)
  with True show ?thesis
    by (simp add: process_section_def process_single_section_def Let_def)
next
  case False
  obtain c cs where c: "section_chunks json_text dialect language segs = c # cs"
    using section_chunks_ok(1) [of json_text dialect language segs] assms(2)
    by (cases "section_chunks json_text dialect language segs") auto
  obtain e where "llm 0 (build_section_narrative_prompt c dialect language) = Inl e"
    using assms(1) by (auto simp: isl_def)
  then have "summarize_chunks llm dialect language (c # cs) [] [] =
      (Inl (Some (llm_error_text e)), [build_section_narrative_prompt c dialect language])"
    by (simp add: Let_def)
  with False c show ?thesis
    by (simp add: process_section_def Let_def section_chunks_def)
qed

text \<open>When the provider fails every call, a run on a non-empty transcript does not pretend to
  succeed: it reports that the LLM is unavailable, counting every section as failed.\<close>

theorem generate_provider_down:
  assumes "ni_transcript input \<noteq> []" and "\<forall>i n req. isl (env_llm env i n req)"
  shows "\<exists>n msg. 0 < n \<and> n = length (input_sections env input) \<and>
     fst (generate env dialect input) = Inl (LlmUnavailable n n msg)"
proof -
  have "all_sections_failed env dialect input"
    unfolding all_sections_failed_def
  proof
    fix r assume "r \<in> set (section_results env dialect input)"
    then obtain i where "i < length (input_sections env input)"
      "r = section_results env dialect input ! i"
      by (metis in_set_conv_nth length_section_results)
    then show "snd (fst r) \<noteq> None"
      using process_section_down [of "env_llm env i"] assms(2)
        section_segments_nonempty [of "input_sections env input ! i" env input]
      by (simp add: section_results_nth)
  qed
  then show ?thesis
    using generate_outcome [of env dialect input] assms(1) input_sections_nonempty [OF assms(1), of env]
    by auto
qed

lemma generate_up:
  assumes "ni_transcript input \<noteq> []" and "\<forall>n req. \<not> isl (env_llm env i n req)"
    and "i < length (input_sections env input)"
  shows "\<exists>notes. fst (generate env dialect input) = Inr notes"
proof -
  let ?r = "section_results env dialect input ! i"
  have "snd (fst ?r) = None"
    using process_section_error assms(2,3) by (fastforce simp: section_results_nth)
  moreover have "?r \<in> set (section_results env dialect input)"
    using assms(3) by simp
  ultimately have "\<not> isl (fst (generate env dialect input))"
    using generate_outcome [of env dialect input] assms(1)
    by (auto simp: all_sections_failed_def)
  then show ?thesis
    by (cases "fst (generate env dialect input)") auto
qed

text \<open>A run succeeds as soon as one section reaches the provider without a failed call, however
  unusable its answers are (text instead of JSON, missing fields, foreign speakers), and whatever
  happens to the other sections and to the frontmatter call.\<close>

theorem generate_partial_provider:
  assumes "ni_transcript input \<noteq> []" and "i < length (input_sections env input)"
    and "\<forall>n req. \<not> isl (env_llm env i n req)"
  shows "\<not> isl (fst (generate env dialect input))"
  using generate_up [OF assms(1,3,2), of dialect] by auto

section \<open>What a successful run returns\<close>

lemma generate_Inr:
  assumes "fst (generate env dialect input) = Inr notes"
  shows "sn_sections notes =
    map (\<lambda>(i, d, shots). section_of_draft i d shots)
      (enumerate 0 (zip (map (\<lambda>r. fst (fst r)) (section_results env dialect input))
         (anchor_screenshots (input_sections env input)
           (clamp_screenshots (mm_duration_ms (ni_metadata input)) (ni_screenshots input)))))"
    and "ni_transcript input \<noteq> []"
  using assms by (auto simp: generate_def Let_def split: if_splits prod.splits)

lemma process_section_draft:
  "(\<exists>err. fst (fst (process_section json_text llm dialect rng segs language allowed)) =
        draft_fallback rng segs err dialect) \<or>
   (\<exists>v. fst (fst (process_section json_text llm dialect rng segs language allowed)) =
        draft_from_json rng v \<and>
      verify_section_attribution (draft_narrative_md (draft_from_json rng v))
        (draft_action_items (draft_from_json rng v)) allowed = ReportOk)"
proof -
  have verified: "(\<exists>err. fst (verified_draft rng segs v allowed dialect) =
        draft_fallback rng segs err dialect) \<or>
      (\<exists>v'. fst (verified_draft rng segs v allowed dialect) = draft_from_json rng v' \<and>
        verify_section_attribution (draft_narrative_md (draft_from_json rng v'))
          (draft_action_items (draft_from_json rng v')) allowed = ReportOk)" for v
    by (auto simp: verified_draft_def Let_def split: verifier_report.split)
  show ?thesis
  proof (cases "rendered_llm_request_chars json_text
      (build_section_narrative_prompt segs dialect language) \<le> section_chunk_threshold_chars")
    case True
    then have "process_section json_text llm dialect rng segs language allowed =
        process_single_section llm dialect rng segs
          (build_section_narrative_prompt segs dialect language) allowed"
      by (simp add: process_section_def Let_def)
    then show ?thesis
      using verified
      by (auto simp: process_single_section_def Let_def split: sum.split llm_response.split)
  next
    case False
    obtain q sent1 where q: "summarize_chunks llm dialect language
        (section_chunks json_text dialect language segs) [] [] = (q, sent1)"
      by fastforce
    show ?thesis
    proof (cases q)
      case (Inl err)
      with False q show ?thesis
        by (auto simp: process_section_def Let_def section_chunks_def)
    next
      case (Inr vs)
      obtain m sent2 where m:
        "merge_chunk_summaries json_text llm dialect vs language sent1 = (m, sent2)"
        by fastforce
      show ?thesis
      proof (cases m)
        case (Inl e)
        with False q Inr m show ?thesis
          by (auto simp: process_section_def Let_def section_chunks_def)
      next
        case m': (Inr v)
        with False q Inr m
        have "fst (process_section json_text llm dialect rng segs language allowed) =
            verified_draft rng segs v allowed dialect"
          by (simp add: process_section_def Let_def section_chunks_def)
        with verified show ?thesis
          by simp
      qed
    qed
  qed
qed

lemma process_section_range:
  "draft_time_range_ms (fst (fst (process_section json_text llm dialect rng segs language allowed))) =
     rng"
  using process_section_draft [of json_text llm dialect rng segs language allowed]
  by (auto simp: draft_fallback_def draft_from_json_def Let_def)

lemma anchored_length:
  "length (anchor_screenshots sections shots) = length sections"
proof (cases "sections = []")
  case False
  then show ?thesis by (simp add: anchor_screenshots_eq)
qed (simp add: anchor_screenshots_def)

lemma generate_section_nth:
  assumes "fst (generate env dialect input) = Inr notes" and "i < length (input_sections env input)"
  shows "sn_sections notes ! i = section_of_draft i
      (fst (fst (section_results env dialect input ! i)))
      (anchor_screenshots (input_sections env input)
        (clamp_screenshots (mm_duration_ms (ni_metadata input)) (ni_screenshots input)) ! i)"
  using assms(2) by (simp add: generate_Inr(1) [OF assms(1)] nth_enumerate_eq anchored_length)

lemma generate_section_length:
  "fst (generate env dialect input) = Inr notes \<Longrightarrow>
     length (sn_sections notes) = length (input_sections env input)"
  by (simp add: generate_Inr(1) anchored_length)

text \<open>A concrete run: one segment, a screenshot past the end, and a provider that answers text.\<close>

definition run_segment :: segment where
  "run_segment = \<lparr>seg_start_ms = 0, seg_end_ms = 1000, seg_text = ''hello'',
     seg_language = Some ''en'', seg_confidence = 0, seg_speaker_id = Some 0\<rparr>"

definition run_input :: notes_input where
  "run_input = \<lparr>ni_transcript = [run_segment],
     ni_screenshots = [\<lparr>shot_ms = 5000, shot_path = ''a.png'', shot_caption = None\<rparr>],
     ni_metadata = \<lparr>mm_started_at = ''t'', mm_duration_ms = 1000, mm_source_path = None,
       mm_language_hint = None\<rparr>\<rparr>"

definition run_env :: "llm_result \<Rightarrow> pipeline_env" where
  "run_env answer = \<lparr>env_json_text = (\<lambda>_. []), env_llm = (\<lambda>_ _ _. answer),
     env_totals_order = (\<lambda>xs. xs), env_counts_order = (\<lambda>xs. xs), env_date_of = (\<lambda>t. t),
     env_now = ''t''\<rparr>"

lemma run_sections [simp]:
  "input_sections (run_env answer) run_input =
     [\<lparr>raw_range = (0, 1000), raw_indices = [0]\<rparr>]"
  by (simp add: input_sections_def run_env_def run_input_def run_segment_def
      segment_topics_def merge_short_sections_def default_topic_config_def)

lemma run_transcript [simp]: "ni_transcript run_input = [run_segment]"
  by (simp add: run_input_def)

lemma run_llm [simp]: "env_llm (run_env answer) i n req = answer"
  by (simp add: run_env_def)

lemma run_sections_ok:
  "\<exists>notes. fst (generate (run_env (Inr (LlmText []))) Basic run_input) = Inr notes"
  by (rule generate_up [of _ _ 0]) simp_all

theorem generate_provider_down_witness:
  "\<exists>msg. fst (generate (run_env (Inl LlmCancelled)) Basic run_input) =
     Inl (LlmUnavailable 1 1 msg)"
  using generate_provider_down [of run_input "run_env (Inl LlmCancelled)" Basic] by simp

theorem generate_partial_provider_witness:
  "\<not> isl (fst (generate (run_env (Inr (LlmText []))) Basic run_input))"
  by (rule generate_partial_provider [of _ 0]) simp_all

text \<open>C4: A successful run returns one notes section per topic section, in order, numbered from 1,
  with the topic section's time range, and distributes the screenshots over them without losing or
  duplicating any, their times clamped to the meeting's duration.\<close>

theorem generate_keeps_sections_and_screenshots:
  assumes "fst (generate env dialect input) = Inr notes"
    and "length (input_sections env input) \<le> u32_max"
  shows "map sec_index (sn_sections notes) = [1..<length (input_sections env input) + 1] \<and>
    map sec_time_range_ms (sn_sections notes) = map raw_range (input_sections env input) \<and>
    mset (concat (map sec_screenshots (sn_sections notes))) =
      mset (clamp_screenshots (mm_duration_ms (ni_metadata input)) (ni_screenshots input))"
proof (intro conjI)
  note len = generate_section_length [OF assms(1)] and nth = generate_section_nth [OF assms(1)]
  show "map sec_index (sn_sections notes) = [1..<length (input_sections env input) + 1]"
    using assms(2) by (intro nth_equalityI) (simp_all add: len nth section_of_draft_def del: upt_Suc)
  show "map sec_time_range_ms (sn_sections notes) = map raw_range (input_sections env input)"
    by (intro nth_equalityI)
      (simp_all add: len nth section_of_draft_def section_results_nth process_section_range)
  let ?shots = "anchor_screenshots (input_sections env input)
      (clamp_screenshots (mm_duration_ms (ni_metadata input)) (ni_screenshots input))"
  have "map sec_screenshots (sn_sections notes) = ?shots"
    by (intro nth_equalityI) (simp_all add: len nth section_of_draft_def anchored_length)
  then show "mset (concat (map sec_screenshots (sn_sections notes))) =
      mset (clamp_screenshots (mm_duration_ms (ni_metadata input)) (ni_screenshots input))"
    using anchor_screenshots_mset input_sections_nonempty [OF generate_Inr(2) [OF assms(1)]]
    by simp
qed

theorem generate_keeps_sections_and_screenshots_witness:
  "\<exists>notes. fst (generate (run_env (Inr (LlmText []))) Basic run_input) = Inr notes \<and>
     map sec_time_range_ms (sn_sections notes) = [(0, 1000)] \<and>
     mset (concat (map sec_screenshots (sn_sections notes))) =
       {#\<lparr>shot_ms = 1000, shot_path = ''a.png'', shot_caption = None\<rparr>#}"
proof -
  obtain result where run:
    "fst (generate (run_env (Inr (LlmText []))) Basic run_input) = Inr result"
    using run_sections_ok by blast
  have "clamp_screenshots (mm_duration_ms (ni_metadata run_input))
      (ni_screenshots run_input) =
    [\<lparr>shot_ms = 1000, shot_path = ''a.png'', shot_caption = None\<rparr>]"
    by (simp add: clamp_screenshots_def run_input_def)
  then show ?thesis
    using generate_keeps_sections_and_screenshots [OF run] run by (auto simp: u32_max_def)
qed

text \<open>C1: Attribution safety: in the notes of a successful run, a section either is the verbatim
  transcript fallback, without action items, or its narrative and the owners of its action items
  cite only speakers that the transcript contains.\<close>

theorem generate_attribution_safe:
  assumes "fst (generate env dialect input) = Inr notes" and "i < length (sn_sections notes)"
  defines "sec \<equiv> sn_sections notes ! i"
  shows "(\<exists>err. sec_narrative_md sec = draft_narrative_md (draft_fallback (sec_time_range_ms sec)
        (section_segments (ni_transcript input) (input_sections env input ! i)) err dialect) \<and>
      sec_action_items sec = []) \<or>
    (\<forall>k. cites (sec_narrative_md sec) k \<or> (\<exists>a \<in> set (sec_action_items sec). owner_cites a k) \<longrightarrow>
       (\<exists>seg \<in> set (ni_transcript input). seg_speaker_id seg = Some k))"
proof -
  have i: "i < length (input_sections env input)"
    using assms(2) generate_section_length [OF assms(1)] by simp
  define d where "d = fst (fst (section_results env dialect input ! i))"
  have sec: "sec_narrative_md sec = draft_narrative_md d"
    "sec_action_items sec = draft_action_items d" "sec_time_range_ms sec = draft_time_range_ms d"
    unfolding sec_def generate_section_nth [OF assms(1) i]
    by (simp_all add: section_of_draft_def d_def)
  have allowed: "allowed_speakers_of (ni_transcript input) =
      {k. \<exists>seg \<in> set (ni_transcript input). seg_speaker_id seg = Some k}"
    by (simp add: allowed_speakers_of_def set_map_filter)
  consider err where "d = draft_fallback (raw_range (input_sections env input ! i))
      (section_segments (ni_transcript input) (input_sections env input ! i)) err dialect"
    | "verify_section_attribution (draft_narrative_md d) (draft_action_items d)
        (allowed_speakers_of (ni_transcript input)) = ReportOk"
    using process_section_draft unfolding d_def section_results_nth [OF i] by metis
  then show ?thesis
  proof cases
    case 1
    then show ?thesis
      by (intro disjI1 exI [of _ err]) (simp add: sec draft_fallback_def Let_def)
  next
    case 2
    then show ?thesis
      using verify_ok_cites [OF 2] unfolding sec allowed by blast
  qed
qed

theorem generate_attribution_safe_witness:
  "\<exists>notes err. fst (generate (run_env (Inr (LlmText []))) Basic run_input) = Inr notes \<and>
     (if cites (sec_narrative_md (sn_sections notes ! 0)) 1
      then sec_narrative_md (sn_sections notes ! 0) =
        draft_narrative_md (draft_fallback (sec_time_range_ms (sn_sections notes ! 0))
          [run_segment] err Basic)
      else True)"
proof -
  obtain result where run:
    "fst (generate (run_env (Inr (LlmText []))) Basic run_input) = Inr result"
    using run_sections_ok by blast
  have len: "0 < length (sn_sections result)"
    using generate_section_length [OF run] by simp
  show ?thesis
    using generate_attribution_safe [OF run len] run
    by (auto simp: section_segments_def run_segment_def)
qed

section \<open>Languages and speakers of the frontmatter\<close>

text \<open>The distinct elements of a list in the order in which they first occur.\<close>

definition first_occurrences :: "'a list \<Rightarrow> 'a list" where
  "first_occurrences xs = rev (remdups (rev xs))"

lemma first_occurrences_distinct: "distinct xs \<Longrightarrow> first_occurrences xs = xs"
  by (simp add: first_occurrences_def distinct_remdups_id)

lemma first_occurrences_known:
  assumes "distinct out" "x \<in> set out"
  shows "first_occurrences (out @ x # xs) = first_occurrences (out @ xs)"
proof -
  have "remdups (x # rev out) = rev out"
    using assms by (simp add: distinct_remdups_id)
  then have "remdups (rev xs @ x # rev out) = remdups (rev xs @ rev out)"
    by (metis remdups_append2)
  then show ?thesis
    by (simp add: first_occurrences_def)
qed

lemma unique_languages_loop_eq:
  "distinct out \<Longrightarrow> set out = seen \<Longrightarrow>
     unique_languages_loop segs seen out =
       first_occurrences (out @ List.map_filter seg_language segs)"
  by (induction segs seen out rule: unique_languages_loop.induct)
    (auto simp: first_occurrences_distinct first_occurrences_known List.map_filter_simps
      split: option.splits)

lemma collect_speakers_loop_eq:
  "distinct ids \<Longrightarrow> set ids = seen \<Longrightarrow>
     collect_speakers_loop segs seen (map (\<lambda>i. speaker_prefix @ dec i) ids) =
       map (\<lambda>i. speaker_prefix @ dec i)
         (first_occurrences (ids @ List.map_filter seg_speaker_id segs))"
proof (induction segs arbitrary: seen ids)
  case Nil
  then show ?case by (simp add: List.map_filter_simps first_occurrences_distinct)
next
  case (Cons s segs)
  show ?case
  proof (cases "seg_speaker_id s")
    case None
    with Cons show ?thesis by (simp add: List.map_filter_simps)
  next
    case (Some i)
    show ?thesis
    proof (cases "i \<in> seen")
      case True
      with Cons Some show ?thesis
        by (simp add: List.map_filter_simps first_occurrences_known)
    next
      case False
      with Cons.IH [of "ids @ [i]" "insert i seen"] Cons.prems Some show ?thesis
        by (simp add: List.map_filter_simps)
    qed
  qed
qed

text \<open>The frontmatter lists each detected language once, in the order of its first segment
  (English when there is none), and the label of each speaker once, in the order of its first
  segment.\<close>

theorem frontmatter_lists_first_occurrences:
  "unique_languages segs =
     (let ls = List.map_filter seg_language segs
      in if ls = [] then [''en''] else first_occurrences ls) \<and>
   collect_speakers segs =
     map (\<lambda>i. speaker_label (Some i))
       (first_occurrences (List.map_filter seg_speaker_id segs))"
proof -
  have ne: "first_occurrences xs = [] \<longleftrightarrow> xs = []" for xs :: "string list"
    by (simp add: first_occurrences_def)
  show ?thesis
    using collect_speakers_loop_eq [of "[]" "{}" segs]
    by (simp add: unique_languages_def unique_languages_loop_eq ne Let_def collect_speakers_def
        speaker_label_def)
qed

lemma bump_count_map_of:
  "map_of (bump_count l counts) k =
     (if k = l then Some (unwrap_or 0 (map_of counts l) + 1) else map_of counts k)"
  by (induction l counts rule: bump_count.induct) auto

lemma bump_count_keys: "fst ` set (bump_count l counts) = insert l (fst ` set counts)"
  by (induction l counts rule: bump_count.induct) auto

lemma bump_count_distinct:
  "distinct (map fst counts) \<Longrightarrow> distinct (map fst (bump_count l counts))"
proof (induction l counts rule: bump_count.induct)
  case (2 l k c kcs)
  then show ?case
    using bump_count_keys [of l kcs] by (cases "l = k") auto
qed simp

lemma language_counts_spec:
  "distinct (map fst counts) \<Longrightarrow>
     distinct (map fst (language_counts segs counts)) \<and>
     map_of (language_counts segs counts) l =
       (let n = count_list (List.map_filter seg_language segs) l
        in if n = 0 then map_of counts l else Some (unwrap_or 0 (map_of counts l) + n))"
proof (induction segs counts rule: language_counts.induct)
  case (1 counts)
  then show ?case by (simp add: List.map_filter_simps)
next
  case (2 s segs counts)
  then show ?case
    by (cases "seg_language s")
      (auto simp: List.map_filter_simps bump_count_map_of bump_count_distinct Let_def)
qed

lemma max_by_count_spec:
  "max_by_count xs best = None \<longleftrightarrow> xs = [] \<and> best = None"
  "max_by_count xs best = Some m \<Longrightarrow>
     m \<in> set xs \<union> set_option best \<and> (\<forall>x \<in> set xs \<union> set_option best. snd x \<le> snd m)"
proof (induction xs best arbitrary: m rule: max_by_count.induct)
  case (1 best)
  {
    case 1
    then show ?case by simp
  next
    case 2
    then show ?case by simp
  }
next
  case (2 x xs best)
  {
    case 1
    then show ?case
      using "2.IH"(1) by (simp split: option.splits)
  next
    case 2
    then show ?case
      using "2.IH"(2) [of m] by (fastforce split: option.splits if_splits)
  }
qed

text \<open>The meeting's language, when the caller gives no hint, is a detected language that no other
  language exceeds in number of segments, whatever the iteration order of the hash table, and
  English when no language was detected.\<close>

theorem dominant_language_most_frequent:
  assumes "\<And>xs. mset (order xs) = mset xs"
  shows "let ls = List.map_filter seg_language segs; d = dominant_language order segs
     in if ls = [] then d = ''en''
        else d \<in> set ls \<and> (\<forall>l. count_list ls l \<le> count_list ls d)"
proof -
  let ?ls = "List.map_filter seg_language segs"
  let ?c = "language_counts segs []"
  have c: "distinct (map fst ?c)"
    "map_of ?c l = (if count_list ?ls l = 0 then None else Some (count_list ?ls l))" for l
    using language_counts_spec [of "[]" segs l] by (simp_all add: Let_def)
  have entry: "(l, n) \<in> set (order ?c) \<longleftrightarrow> n = count_list ?ls l \<and> n \<noteq> 0" for l n
  proof -
    have "set (order ?c) = set ?c"
      using assms by (metis set_mset_mset)
    then have "(l, n) \<in> set (order ?c) \<longleftrightarrow> map_of ?c l = Some n"
      using c(1) by simp
    then show ?thesis
      using c(2) [of l] by auto
  qed
  show ?thesis
  proof (cases "max_by_count (order ?c) None")
    case None
    then have empty: "order ?c = []"
      by (simp add: max_by_count_spec)
    have "count_list ?ls l = 0" for l
      using entry [of l "count_list ?ls l"] empty by auto
    then have "?ls = []"
      by (cases ?ls) (auto, metis count_list.simps(2) add_is_0 zero_neq_one)
    with None show ?thesis
      by (simp add: dominant_language_def)
  next
    case (Some m)
    obtain l n where m: "m = (l, n)"
      by fastforce
    have best: "(l, n) \<in> set (order ?c)" "\<forall>x \<in> set (order ?c). snd x \<le> n"
      using max_by_count_spec(2) [OF Some] m by auto
    have "count_list ?ls k \<le> count_list ?ls l" for k
      using best entry [of k "count_list ?ls k"] entry [of l n] by (cases "count_list ?ls k = 0") auto
    moreover have "l \<in> set ?ls"
      using best(1) entry count_notin by fastforce
    ultimately show ?thesis
      using Some m by (auto simp: dominant_language_def)
  qed
qed

theorem dominant_language_most_frequent_witness:
  "let d = dominant_language rev [run_segment] in d \<in> {''en''}"
  using dominant_language_most_frequent [of rev "[run_segment]"]
  by (simp add: List.map_filter_simps run_segment_def Let_def)

end
