(* ===== verification/Merge.thy ===== *)
theory Merge
  imports Domain
begin

text \<open>
  \<open>panops-core/src/merge.rs\<close>: assigning diarization turns to ASR segments by overlap, and merging
  the microphone and system tracks of a capture. The loop over the turns keeps the best
  \<open>(speaker, overlap)\<close> so far; the lemmas characterise what it returns without the loop.
\<close>

section \<open>The code\<close>

fun dominant_step ::
  "u64 \<Rightarrow> u64 \<Rightarrow> (u32 \<times> u64) option \<Rightarrow> speaker_turn \<Rightarrow> (u32 \<times> u64) option" where
  "dominant_step start_ms end_ms best t =
     (let lo = max start_ms (turn_start_ms t);
          hi = min end_ms (turn_end_ms t)
      in if hi \<le> lo then best
         else (let overlap = hi - lo
               in case best of
                    Some (_, b) \<Rightarrow>
                      if overlap \<le> b then best else Some (turn_speaker_id t, overlap)
                  | None \<Rightarrow> Some (turn_speaker_id t, overlap)))"

definition dominant_speaker :: "u64 \<Rightarrow> u64 \<Rightarrow> speaker_turn list \<Rightarrow> u32 option" where
  "dominant_speaker start_ms end_ms turns =
     map_option fst (foldl (dominant_step start_ms end_ms) None turns)"

definition merge_speaker_turns :: "segment list \<Rightarrow> speaker_turn list \<Rightarrow> segment list" where
  "merge_speaker_turns segments turns =
     map (\<lambda>seg. seg\<lparr>seg_speaker_id :=
            dominant_speaker (seg_start_ms seg) (seg_end_ms seg) turns\<rparr>) segments"

text \<open>\<open>checked_add(1).expect(..)\<close> panics on overflow: the result is \<open>None\<close>.\<close>

fun offset_turns :: "speaker_turn list \<Rightarrow> speaker_turn list option" where
  "offset_turns [] = Some []"
| "offset_turns (t # ts) =
     (case u32_checked_add (turn_speaker_id t) 1 of
        None \<Rightarrow> None
      | Some i \<Rightarrow> map_option ((#) (t\<lparr>turn_speaker_id := i\<rparr>)) (offset_turns ts))"

definition merge_two_track ::
  "segment list \<Rightarrow> segment list \<Rightarrow> speaker_turn list \<Rightarrow> segment list option" where
  "merge_two_track mic_segments system_segments system_turns =
     (let mic = map (\<lambda>s. s\<lparr>seg_speaker_id := Some 0\<rparr>) mic_segments
      in case offset_turns system_turns of
           None \<Rightarrow> None
         | Some turns \<Rightarrow>
             (let system = merge_speaker_turns system_segments turns
              in Some (sort_key seg_start_ms (mic @ system))))"

declare dominant_step.simps [simp del]

section \<open>Dominant speaker\<close>

definition overlap_ms :: "u64 \<Rightarrow> u64 \<Rightarrow> speaker_turn \<Rightarrow> u64" where
  "overlap_ms s e t = min e (turn_end_ms t) - max s (turn_start_ms t)"

lemma dominant_step_overlap:
  "dominant_step s e best t =
     (if overlap_ms s e t = 0 then best
      else case best of
             Some (_, b) \<Rightarrow> if overlap_ms s e t \<le> b then best
                            else Some (turn_speaker_id t, overlap_ms s e t)
           | None \<Rightarrow> Some (turn_speaker_id t, overlap_ms s e t))"
  by (simp add: dominant_step.simps overlap_ms_def Let_def split: option.split)

text \<open>A turn wins when it overlaps more than every earlier turn and no less than every later one.\<close>

definition first_best :: "u64 \<Rightarrow> u64 \<Rightarrow> speaker_turn list \<Rightarrow> speaker_turn \<Rightarrow> bool" where
  "first_best s e ts t \<longleftrightarrow>
     (\<exists>xs ys. ts = xs @ t # ys \<and> 0 < overlap_ms s e t \<and>
        (\<forall>x \<in> set xs. overlap_ms s e x < overlap_ms s e t) \<and>
        (\<forall>y \<in> set ys. overlap_ms s e y \<le> overlap_ms s e t))"

lemma first_bestI:
  "\<lbrakk> ts = xs @ t # ys; 0 < overlap_ms s e t;
     \<And>x. x \<in> set xs \<Longrightarrow> overlap_ms s e x < overlap_ms s e t;
     \<And>y. y \<in> set ys \<Longrightarrow> overlap_ms s e y \<le> overlap_ms s e t \<rbrakk>
   \<Longrightarrow> first_best s e ts t"
  unfolding first_best_def by blast

lemma first_best_snoc_keep:
  assumes "first_best s e ts t" and "overlap_ms s e u \<le> overlap_ms s e t"
  shows "first_best s e (ts @ [u]) t"
proof -
  from assms(1) obtain xs ys where "ts = xs @ t # ys" "0 < overlap_ms s e t"
    "\<forall>x \<in> set xs. overlap_ms s e x < overlap_ms s e t"
    "\<forall>y \<in> set ys. overlap_ms s e y \<le> overlap_ms s e t"
    unfolding first_best_def by blast
  then show ?thesis
    using assms(2) by (intro first_bestI [of _ xs _ "ys @ [u]"]) auto
qed

lemma first_best_snoc_new:
  assumes "0 < overlap_ms s e u" and "\<And>x. x \<in> set ts \<Longrightarrow> overlap_ms s e x < overlap_ms s e u"
  shows "first_best s e (ts @ [u]) u"
  using assms by (intro first_bestI [of _ ts _ "[]"]) auto

lemma first_best_max:
  assumes "first_best s e ts t" and "x \<in> set ts"
  shows "overlap_ms s e x \<le> overlap_ms s e t"
  using assms unfolding first_best_def by fastforce

lemma first_best_in: "first_best s e ts t \<Longrightarrow> t \<in> set ts"
  by (auto simp: first_best_def)

lemma first_best_unique:
  assumes "first_best s e ts t" and "first_best s e ts u"
  shows "t = u"
proof -
  obtain xs ys where t: "ts = xs @ t # ys"
    "\<forall>x \<in> set xs. overlap_ms s e x < overlap_ms s e t"
    using assms(1) unfolding first_best_def by blast
  obtain us vs where u: "ts = us @ u # vs"
    "\<forall>x \<in> set us. overlap_ms s e x < overlap_ms s e u"
    using assms(2) unfolding first_best_def by blast
  have eq: "overlap_ms s e t = overlap_ms s e u"
    using first_best_max [OF assms(1) first_best_in [OF assms(2)]]
      first_best_max [OF assms(2) first_best_in [OF assms(1)]] by simp
  have "t \<notin> set us" "u \<notin> set xs"
    using t(2) u(2) eq by auto
  then show ?thesis
    using t(1) u(1) by (auto simp: append_eq_append_conv2 Cons_eq_append_conv append_eq_Cons_conv)
qed

lemma dominant_fold:
  "case foldl (dominant_step s e) None ts of
     None \<Rightarrow> \<forall>t \<in> set ts. overlap_ms s e t = 0
   | Some (i, ov) \<Rightarrow> \<exists>t. first_best s e ts t \<and> i = turn_speaker_id t \<and> ov = overlap_ms s e t"
proof (induction ts rule: rev_induct)
  case Nil
  then show ?case by simp
next
  case (snoc u ts)
  show ?case
  proof (cases "foldl (dominant_step s e) None ts")
    case None
    with snoc.IH have "\<forall>t \<in> set ts. overlap_ms s e t = 0"
      by simp
    with first_best_snoc_new [of s e u ts] None show ?thesis
      by (auto simp: dominant_step_overlap [of s e _ u])
  next
    case (Some b)
    obtain i ov where b: "b = (i, ov)"
      by (cases b)
    with Some snoc.IH obtain t where
      t: "first_best s e ts t" "i = turn_speaker_id t" "ov = overlap_ms s e t"
      by auto
    show ?thesis
    proof (cases "overlap_ms s e u \<le> ov")
      case True
      with Some b t show ?thesis
        by (auto simp: dominant_step_overlap [of s e _ u]
            intro: first_best_snoc_keep)
    next
      case False
      then have "\<And>x. x \<in> set ts \<Longrightarrow> overlap_ms s e x < overlap_ms s e u"
        using first_best_max [OF t(1)] t(3) by fastforce
      with False have "first_best s e (ts @ [u]) u"
        by (intro first_best_snoc_new) auto
      with Some b False show ?thesis
        by (auto simp: dominant_step_overlap [of s e _ u])
    qed
  qed
qed

lemma dominant_speaker_Some:
  assumes "first_best s e ts t"
  shows "dominant_speaker s e ts = Some (turn_speaker_id t)"
proof (cases "foldl (dominant_step s e) None ts")
  case None
  then have "\<forall>x \<in> set ts. overlap_ms s e x = 0"
    using dominant_fold [where s = s and e = e and ts = ts] by simp
  with first_best_in [OF assms] have "overlap_ms s e t = 0"
    by blast
  with assms show ?thesis
    by (simp add: first_best_def)
next
  case (Some b)
  with dominant_fold [where s = s and e = e and ts = ts] obtain u where
    "first_best s e ts u" "fst b = turn_speaker_id u"
    by (auto split: prod.splits)
  with Some first_best_unique [OF assms] show ?thesis
    by (simp add: dominant_speaker_def)
qed

lemma dominant_speaker_SomeD:
  "dominant_speaker s e ts = Some i \<Longrightarrow> \<exists>t. first_best s e ts t \<and> turn_speaker_id t = i"
  using dominant_fold [where s = s and e = e and ts = ts]
  by (auto simp: dominant_speaker_def split: option.splits prod.splits)

lemma dominant_speaker_None:
  "dominant_speaker s e ts = None \<longleftrightarrow> (\<forall>t \<in> set ts. overlap_ms s e t = 0)"
proof
  assume "dominant_speaker s e ts = None"
  then have "foldl (dominant_step s e) None ts = None"
    by (simp add: dominant_speaker_def)
  with dominant_fold [where s = s and e = e and ts = ts] show "\<forall>t \<in> set ts. overlap_ms s e t = 0"
    by simp
next
  assume zero: "\<forall>t \<in> set ts. overlap_ms s e t = 0"
  show "dominant_speaker s e ts = None"
  proof (rule ccontr)
    assume "dominant_speaker s e ts \<noteq> None"
    then obtain i where "dominant_speaker s e ts = Some i"
      by blast
    then obtain t where "first_best s e ts t"
      using dominant_speaker_SomeD by blast
    with zero show False
      by (auto simp: first_best_def)
  qed
qed

text \<open>The overlap loop returns the speaker of the turn that overlaps the segment the most, the
  earliest such turn on a tie, and returns no speaker exactly when no turn overlaps the segment.\<close>

theorem dominant_speaker_characterisation:
  "(dominant_speaker s e ts = Some i \<longleftrightarrow> (\<exists>t. first_best s e ts t \<and> turn_speaker_id t = i)) \<and>
   (dominant_speaker s e ts = None \<longleftrightarrow> \<not> (\<exists>t \<in> set ts. 0 < overlap_ms s e t))"
  using dominant_speaker_Some dominant_speaker_SomeD dominant_speaker_None by fastforce

section \<open>Two tracks\<close>

lemma offset_turns_Some:
  "offset_turns ts = Some us \<Longrightarrow>
     us = map (\<lambda>t. t\<lparr>turn_speaker_id := Suc (turn_speaker_id t)\<rparr>) ts"
  by (induction ts arbitrary: us) (auto simp: u32_checked_add_def split: if_splits)

lemma offset_turns_None:
  "offset_turns ts = None \<longleftrightarrow> (\<exists>t \<in> set ts. u32_max \<le> turn_speaker_id t)"
  by (induction ts) (auto simp: u32_checked_add_def)

lemma overlap_ms_speaker [simp]: "overlap_ms s e (t\<lparr>turn_speaker_id := i\<rparr>) = overlap_ms s e t"
  by (simp add: overlap_ms_def)

lemma first_best_offset:
  "first_best s e ts t \<Longrightarrow>
     first_best s e (map (\<lambda>t. t\<lparr>turn_speaker_id := Suc (turn_speaker_id t)\<rparr>) ts)
       (t\<lparr>turn_speaker_id := Suc (turn_speaker_id t)\<rparr>)"
  unfolding first_best_def
proof (elim exE conjE)
  fix xs ys
  let ?f = "\<lambda>t. t\<lparr>turn_speaker_id := Suc (turn_speaker_id t)\<rparr>"
  assume "ts = xs @ t # ys" "0 < overlap_ms s e t"
    "\<forall>x \<in> set xs. overlap_ms s e x < overlap_ms s e t"
    "\<forall>y \<in> set ys. overlap_ms s e y \<le> overlap_ms s e t"
  then have "map ?f ts = map ?f xs @ ?f t # map ?f ys \<and> 0 < overlap_ms s e (?f t) \<and>
      (\<forall>x \<in> set (map ?f xs). overlap_ms s e x < overlap_ms s e (?f t)) \<and>
      (\<forall>y \<in> set (map ?f ys). overlap_ms s e y \<le> overlap_ms s e (?f t))"
    by simp
  then show "\<exists>us vs. map ?f ts = us @ ?f t # vs \<and> 0 < overlap_ms s e (?f t) \<and>
      (\<forall>x \<in> set us. overlap_ms s e x < overlap_ms s e (?f t)) \<and>
      (\<forall>y \<in> set vs. overlap_ms s e y \<le> overlap_ms s e (?f t))"
    by blast
qed

lemma dominant_speaker_offset:
  "dominant_speaker s e (map (\<lambda>t. t\<lparr>turn_speaker_id := Suc (turn_speaker_id t)\<rparr>) ts) =
     map_option Suc (dominant_speaker s e ts)"
proof (cases "dominant_speaker s e ts")
  case None
  moreover from this have
    "dominant_speaker s e (map (\<lambda>t. t\<lparr>turn_speaker_id := Suc (turn_speaker_id t)\<rparr>) ts) = None"
    by (simp only: dominant_speaker_None) auto
  ultimately show ?thesis
    by simp
next
  case (Some i)
  then obtain t where "first_best s e ts t" "turn_speaker_id t = i"
    using dominant_speaker_SomeD by blast
  with Some show ?thesis
    using dominant_speaker_Some [OF first_best_offset] by auto
qed

lemma merge_two_track_eq:
  assumes "merge_two_track mic sys turns = Some out"
  shows "out = sort_key seg_start_ms
     (map (\<lambda>s. s\<lparr>seg_speaker_id := Some 0\<rparr>) mic @
      map (\<lambda>s. s\<lparr>seg_speaker_id :=
        map_option Suc (dominant_speaker (seg_start_ms s) (seg_end_ms s) turns)\<rparr>) sys)"
  using assms
  by (auto simp: merge_two_track_def merge_speaker_turns_def Let_def dominant_speaker_offset
      dest!: offset_turns_Some split: option.splits)

text \<open>C7: Merging the capture tracks yields a list ordered by start time in which the segments of
  speaker 0 are exactly the microphone segments in their order, and every other segment is a system
  segment labelled with one more than its dominant diarization speaker, so local and remote ids
  never collide and no segment is lost or duplicated.\<close>

theorem merge_two_track_separates_tracks:
  assumes "merge_two_track mic sys turns = Some out"
  shows "sorted (map seg_start_ms out) \<and>
    filter (\<lambda>s. seg_speaker_id s = Some 0) out =
      sort_key seg_start_ms (map (\<lambda>s. s\<lparr>seg_speaker_id := Some 0\<rparr>) mic) \<and>
    filter (\<lambda>s. seg_speaker_id s \<noteq> Some 0) out =
      sort_key seg_start_ms (map (\<lambda>s. s\<lparr>seg_speaker_id :=
        map_option Suc (dominant_speaker (seg_start_ms s) (seg_end_ms s) turns)\<rparr>) sys)"
proof -
  have keep: "filter (\<lambda>s. seg_speaker_id s = Some 0)
      (map (\<lambda>s. s\<lparr>seg_speaker_id := map_option Suc (f s)\<rparr>) sys) = []" for f
    by (auto simp: filter_empty_conv)
  show ?thesis
    unfolding merge_two_track_eq [OF assms] filter_sort filter_append keep
    by (simp add: filter_empty_conv filter_id_conv)
qed

definition example_segment :: "u64 \<Rightarrow> u64 \<Rightarrow> segment" where
  "example_segment a b = \<lparr>seg_start_ms = a, seg_end_ms = b, seg_text = ''hi'',
     seg_language = Some ''en'', seg_confidence = 0x3F800000, seg_speaker_id = None\<rparr>"

theorem merge_two_track_separates_tracks_witness:
  "let mic = [example_segment 500 1500]; sys = [example_segment 0 400, example_segment 2000 2500];
       turns = [\<lparr>turn_start_ms = 0, turn_end_ms = 3000, turn_speaker_id = 0\<rparr>]
   in \<exists>out. merge_two_track mic sys turns = Some out \<and> sorted (map seg_start_ms out) \<and>
        map seg_speaker_id out = [Some 1, Some 0, Some 1]"
proof -
  define turns :: "speaker_turn list" where
    "turns = [\<lparr>turn_start_ms = 0, turn_end_ms = 3000, turn_speaker_id = 0\<rparr>]"
  define out where "out = the (merge_two_track [example_segment 500 1500]
      [example_segment 0 400, example_segment 2000 2500] turns)"
  have out: "merge_two_track [example_segment 500 1500]
      [example_segment 0 400, example_segment 2000 2500] turns = Some out"
    by (simp add: out_def turns_def merge_two_track_def u32_checked_add_def u32_max_def)
  have "map seg_speaker_id out = [Some 1, Some 0, Some 1]"
    by (simp add: out_def turns_def merge_two_track_def merge_speaker_turns_def
        u32_checked_add_def u32_max_def example_segment_def dominant_speaker_def
        dominant_step.simps)
  with out merge_two_track_separates_tracks [OF out] show ?thesis
    by (auto simp: Let_def turns_def)
qed

lemma merge_two_track_panics:
  "merge_two_track mic sys turns = None \<longleftrightarrow> (\<exists>t \<in> set turns. u32_max \<le> turn_speaker_id t)"
  by (simp add: merge_two_track_def Let_def offset_turns_None [symmetric] split: option.split)

lemma merge_speaker_turns_keeps [conserve]:
  "map (\<lambda>s. s\<lparr>seg_speaker_id := None\<rparr>) (merge_speaker_turns segs turns) =
     map (\<lambda>s. s\<lparr>seg_speaker_id := None\<rparr>) segs"
  by (simp add: merge_speaker_turns_def)

lemma merge_two_track_wf [wf_intros]:
  "merge_two_track mic sys turns = Some out \<Longrightarrow> \<forall>s \<in> set mic \<union> set sys. wf_segment s \<Longrightarrow>
     \<forall>s \<in> set out. wf_segment s"
  by (drule merge_two_track_eq) (auto simp: wf_segment_def)

end
