(* ===== verification/Recursive_Asr.thy ===== *)
theory Recursive_Asr
  imports Domain
begin

text \<open>
  \<open>panops-portable/src/recursive_asr.rs\<close>: transcription of a speech region that splits the region
  and transcribes the halves when the confidence is low or the region long; and
  \<open>merge_adjacent_regions\<close> of \<open>panops-portable/src/audio.rs\<close>, which prepares the regions.

  The provider is a parameter: \<open>asr n\<close> is its answer to the \<open>n\<close>-th call. \<open>recurse\<close> returns the list
  of the calls made; \<open>None\<close> is a panic (\<open>clamp\<close> with crossed bounds, or \<open>expect\<close>).
\<close>

section \<open>Merging adjacent regions\<close>

fun merge_regions_loop :: "u64 \<Rightarrow> speech_region list \<Rightarrow> speech_region list \<Rightarrow> speech_region list" where
  "merge_regions_loop gap_ms out [] = out"
| "merge_regions_loop gap_ms out (r # rs) =
     (if out \<noteq> [] \<and> region_start_ms r - region_end_ms (last out) \<le> gap_ms
      then merge_regions_loop gap_ms
             (butlast out @ [(last out)\<lparr>region_end_ms :=
                max (region_end_ms (last out)) (region_end_ms r)\<rparr>]) rs
      else merge_regions_loop gap_ms (out @ [r]) rs)"

definition merge_adjacent_regions :: "speech_region list \<Rightarrow> u64 \<Rightarrow> speech_region list" where
  "merge_adjacent_regions regions gap_ms =
     (if regions = [] then regions
      else merge_regions_loop gap_ms [] (sort_key region_start_ms regions))"

section \<open>The code of the recursion\<close>

type_synonym asr_call = "f32 list \<times> u32 \<times> string option"
type_synonym asr_provider = "nat \<Rightarrow> asr_call \<Rightarrow> asr_error + transcript"

record region_result =
  rr_segments :: "segment list"
  rr_model :: "string option"

definition confidence_threshold :: f32 where
  "confidence_threshold = 0x3F000000"

definition min_region_ms :: u64 where
  "min_region_ms = 10000"

definition max_depth :: u32 where
  "max_depth = 3"

definition max_auto_split_ms :: u64 where
  "max_auto_split_ms = 30000"

definition slice_for_region :: "f32 list \<Rightarrow> u32 \<Rightarrow> speech_region \<Rightarrow> f32 list" where
  "slice_for_region samples sample_rate region =
     (let start_u64 = u64_saturating_mul (region_start_ms region) sample_rate div 1000;
          end_u64 = u64_saturating_mul (region_end_ms region) sample_rate div 1000;
          len = length samples;
          from_ix = min start_u64 len;
          to_ix = max (min end_u64 len) from_ix
      in take (to_ix - from_ix) (drop from_ix samples))"

definition offset_segment :: "u64 \<Rightarrow> u64 \<Rightarrow> segment \<Rightarrow> segment" where
  "offset_segment region_start region_end seg =
     seg\<lparr>seg_start_ms := min (u64_add (seg_start_ms seg) region_start) region_end,
         seg_end_ms := min (u64_add (seg_end_ms seg) region_start) region_end\<rparr>"

text \<open>\<open>min_by\<close> with \<open>total_cmp\<close>: the first segment of least confidence.\<close>

fun least_confident :: "segment list \<Rightarrow> segment option \<Rightarrow> segment option" where
  "least_confident [] best = best"
| "least_confident (s # ss) best =
     least_confident ss
       (case best of
          None \<Rightarrow> Some s
        | Some b \<Rightarrow> if f32_total_le (seg_confidence b) (seg_confidence s) then Some b else Some s)"

definition option_or :: "'a option \<Rightarrow> 'a option \<Rightarrow> 'a option" where
  "option_or x y = (case x of None \<Rightarrow> y | Some v \<Rightarrow> Some v)"

text \<open>Where to split, or \<open>None\<close> inside when neither trigger fires; \<open>None\<close> outside is the panic.\<close>

definition split_point ::
  "bool \<Rightarrow> speech_region \<Rightarrow> segment list \<Rightarrow> u64 option option" where
  "split_point is_fake region raw_segments =
     (case least_confident raw_segments None of
        None \<Rightarrow> None
      | Some worst \<Rightarrow>
          (let duration_ms = region_end_ms region - region_start_ms region;
               confidence_trigger = f32_lt (seg_confidence worst) confidence_threshold;
               duration_trigger = (max_auto_split_ms < duration_ms \<and> \<not> is_fake)
           in if \<not> confidence_trigger \<and> \<not> duration_trigger then Some None
              else
                (let raw_split_abs_ms =
                       (if confidence_trigger
                        then u64_add (seg_start_ms worst) (region_start_ms region)
                        else u64_add (region_start_ms region) (duration_ms div 2));
                     split_min = u64_add (region_start_ms region) min_region_ms;
                     split_max = region_end_ms region - min_region_ms
                 in if split_max < split_min then None
                    else Some (Some (max split_min (min raw_split_abs_ms split_max))))))"

function recurse ::
  "asr_provider \<Rightarrow> bool \<Rightarrow> f32 list \<Rightarrow> u32 \<Rightarrow> speech_region \<Rightarrow> string option \<Rightarrow> u32
   \<Rightarrow> asr_call list \<Rightarrow> ((asr_error + region_result) \<times> asr_call list) option" where
  "recurse asr is_fake samples sample_rate region language_hint depth calls =
     (let chunk = slice_for_region samples sample_rate region;
          call = (chunk, sample_rate, language_hint);
          calls = calls @ [call]
      in case asr (length calls - 1) call of
           Inl e \<Rightarrow> Some (Inl e, calls)
         | Inr answer \<Rightarrow>
             (let raw_segments = tr_segments answer;
                  model = (if raw_segments = [] then None else Some (tr_model answer));
                  offset_segments = map (offset_segment (region_start_ms region)
                    (region_end_ms region)) raw_segments;
                  duration_ms = region_end_ms region - region_start_ms region;
                  leaf = Some (Inr \<lparr>rr_segments = offset_segments, rr_model = model\<rparr>, calls)
              in if language_hint \<noteq> None then leaf
                 else if offset_segments = [] \<or> max_depth \<le> depth \<or> duration_ms < 2 * min_region_ms
                 then leaf
                 else case split_point is_fake region raw_segments of
                   None \<Rightarrow> None
                 | Some None \<Rightarrow> leaf
                 | Some (Some split_abs_ms) \<Rightarrow>
                     (case recurse asr is_fake samples sample_rate
                             \<lparr>region_start_ms = region_start_ms region,
                              region_end_ms = split_abs_ms\<rparr> None (depth + 1) calls of
                        None \<Rightarrow> None
                      | Some (Inl e, calls) \<Rightarrow> Some (Inl e, calls)
                      | Some (Inr left_result, calls) \<Rightarrow>
                          (case recurse asr is_fake samples sample_rate
                                  \<lparr>region_start_ms = split_abs_ms,
                                   region_end_ms = region_end_ms region\<rparr> None (depth + 1) calls of
                             None \<Rightarrow> None
                           | Some (Inl e, calls) \<Rightarrow> Some (Inl e, calls)
                           | Some (Inr right_result, calls) \<Rightarrow>
                               Some (Inr
                                 \<lparr>rr_segments = rr_segments left_result @ rr_segments right_result,
                                  rr_model = option_or (option_or model (rr_model left_result))
                                    (rr_model right_result)\<rparr>, calls)))))"
  by pat_completeness auto
termination
  by (relation "measure (\<lambda>(_, _, _, _, _, _, depth, _). max_depth - depth)")
    (auto simp: max_depth_def)

declare recurse.simps [simp del]

definition transcribe_recursive ::
  "asr_provider \<Rightarrow> bool \<Rightarrow> f32 list \<Rightarrow> u32 \<Rightarrow> speech_region \<Rightarrow> string option
   \<Rightarrow> ((asr_error + region_result) \<times> asr_call list) option" where
  "transcribe_recursive asr is_fake samples sample_rate region language_hint =
     recurse asr is_fake samples sample_rate region language_hint 0 []"

section \<open>Merged regions\<close>

definition apart :: "u64 \<Rightarrow> speech_region \<Rightarrow> speech_region \<Rightarrow> bool" where
  "apart gap_ms a b =
     (region_start_ms a \<le> region_start_ms b \<and> region_end_ms a + gap_ms < region_start_ms b)"

definition inside :: "speech_region \<Rightarrow> speech_region \<Rightarrow> bool" where
  "inside r m = (region_start_ms m \<le> region_start_ms r \<and> region_end_ms r \<le> region_end_ms m)"

lemma inside_refl [simp]: "inside r r"
  by (simp add: inside_def)

lemma inside_trans: "inside a b \<Longrightarrow> inside b c \<Longrightarrow> inside a c"
  by (auto simp: inside_def)

lemma merge_regions_loop_spec:
  assumes "sorted (map region_start_ms (out @ rs))" and "sorted_wrt (apart gap_ms) out"
  shows "sorted_wrt (apart gap_ms) (merge_regions_loop gap_ms out rs) \<and>
    (\<forall>r \<in> set (out @ rs). \<exists>m \<in> set (merge_regions_loop gap_ms out rs). inside r m) \<and>
    region_start_ms ` set (merge_regions_loop gap_ms out rs) \<subseteq> region_start_ms ` set (out @ rs) \<and>
    region_end_ms ` set (merge_regions_loop gap_ms out rs) \<subseteq> region_end_ms ` set (out @ rs)"
  using assms
proof (induction gap_ms out rs rule: merge_regions_loop.induct)
  case (1 gap_ms out)
  then show ?case
    using inside_refl by (simp, blast)
next
  case (2 gap_ms out r rs)
  show ?case
  proof (cases "out \<noteq> [] \<and> region_start_ms r - region_end_ms (last out) \<le> gap_ms")
    case True
    obtain os p where out: "out = os @ [p]"
      using True by (metis rev_exhaust)
    define p' where "p' = p\<lparr>region_end_ms := max (region_end_ms p) (region_end_ms r)\<rparr>"
    have in': "inside p p'" "inside r p'"
      using 2(3) out by (simp_all add: p'_def inside_def sorted_append)
    have s: "sorted (map region_start_ms ((os @ [p']) @ rs))"
      using 2(3) out by (auto simp: sorted_append p'_def)
    have w: "sorted_wrt (apart gap_ms) (os @ [p'])"
      using 2(4) out by (simp add: sorted_wrt_append) (simp add: apart_def p'_def)
    have ends: "region_end_ms p' \<in> {region_end_ms p, region_end_ms r}"
      "region_start_ms p' = region_start_ms p"
      by (auto simp: p'_def max_def)
    let ?m = "merge_regions_loop gap_ms (os @ [p']) rs"
    have eq: "merge_regions_loop gap_ms out (r # rs) = ?m"
      using True out by (simp add: p'_def)
    have ih: "sorted_wrt (apart gap_ms) ?m"
      "\<forall>q \<in> set ((os @ [p']) @ rs). \<exists>m \<in> set ?m. inside q m"
      "region_start_ms ` set ?m \<subseteq> region_start_ms ` set ((os @ [p']) @ rs)"
      "region_end_ms ` set ?m \<subseteq> region_end_ms ` set ((os @ [p']) @ rs)"
      using 2(1) [OF True] s w out by (simp_all add: p'_def)
    have "\<forall>q \<in> set (out @ r # rs). \<exists>m \<in> set ?m. inside q m"
      using ih(2) in' inside_trans out by fastforce
    moreover have "region_start_ms ` set ?m \<subseteq> region_start_ms ` set (out @ r # rs)"
      using ih(3) ends out by auto
    moreover have "region_end_ms ` set ?m \<subseteq> region_end_ms ` set (out @ r # rs)"
      using ih(4) ends out by auto
    ultimately show ?thesis
      using ih(1) unfolding eq by blast
  next
    case False
    have far: "region_end_ms (last out) + gap_ms < region_start_ms r" if "out \<noteq> []"
      using False that by auto
    have "apart gap_ms a r" if a: "a \<in> set out" for a
    proof -
      obtain os p where out: "out = os @ [p]"
        using a by (metis empty_iff list.set(1) rev_exhaust)
      have "a = p \<or> apart gap_ms a p"
        using a 2(4) out by (auto simp: sorted_wrt_append)
      then show ?thesis
        using far 2(3) out a by (auto simp: apart_def sorted_append)
    qed
    then have "sorted_wrt (apart gap_ms) (out @ [r])"
      using 2(4) by (simp add: sorted_wrt_append)
    with 2(2) [OF False] 2(3) show ?thesis
      using False by auto
  qed
qed

text \<open>C15: Merging speech regions gives a normal form: the result is ordered, any two of its regions
  are more than the gap apart, every input region lies inside a result region, no boundary is
  invented, and merging again changes nothing.\<close>

theorem merge_adjacent_regions_normal_form:
  "let ms = merge_adjacent_regions regions gap_ms
   in sorted_wrt (\<lambda>a b. region_start_ms a \<le> region_start_ms b \<and>
        region_end_ms a + gap_ms < region_start_ms b) ms \<and>
      (\<forall>r \<in> set regions. \<exists>m \<in> set ms.
         region_start_ms m \<le> region_start_ms r \<and> region_end_ms r \<le> region_end_ms m) \<and>
      region_start_ms ` set ms \<subseteq> region_start_ms ` set regions \<and>
      region_end_ms ` set ms \<subseteq> region_end_ms ` set regions \<and>
      merge_adjacent_regions ms gap_ms = ms"
proof -
  let ?ms = "merge_adjacent_regions regions gap_ms"
  have fix_loop: "merge_regions_loop gap_ms out rs = out @ rs"
    if "sorted_wrt (apart gap_ms) (out @ rs)" for out rs
    using that
  proof (induction gap_ms out rs rule: merge_regions_loop.induct)
    case (2 gap_ms out r rs)
    have "\<not> (out \<noteq> [] \<and> region_start_ms r - region_end_ms (last out) \<le> gap_ms)"
      using 2(3) by (cases out rule: rev_cases) (auto simp: sorted_wrt_append apart_def)
    with 2(2,3) show ?case by auto
  qed simp
  have spec: "sorted_wrt (apart gap_ms) ?ms" "\<forall>r \<in> set regions. \<exists>m \<in> set ?ms. inside r m"
    "region_start_ms ` set ?ms \<subseteq> region_start_ms ` set regions"
    "region_end_ms ` set ?ms \<subseteq> region_end_ms ` set regions"
    using merge_regions_loop_spec [of "[]" "sort_key region_start_ms regions" gap_ms]
    by (simp_all add: merge_adjacent_regions_def)
  have "sorted (map region_start_ms ?ms)"
    using spec(1) by (auto simp: sorted_wrt_map apart_def elim: sorted_wrt_mono_rel [rotated])
  then have "merge_adjacent_regions ?ms gap_ms = ?ms"
    using fix_loop [of "[]" ?ms] spec(1)
    by (simp add: merge_adjacent_regions_def [of ?ms] sort_key_id_if_sorted)
  with spec show ?thesis
    by (simp add: Let_def apart_def [abs_def] inside_def)
qed

theorem merge_adjacent_regions_normal_form_witness:
  "region_end_ms ` set (merge_adjacent_regions
      [\<lparr>region_start_ms = 500, region_end_ms = 900\<rparr>, \<lparr>region_start_ms = 0, region_end_ms = 450\<rparr>] 100)
     \<subseteq> {450, 900}"
  using merge_adjacent_regions_normal_form
    [of "[\<lparr>region_start_ms = 500, region_end_ms = 900\<rparr>, \<lparr>region_start_ms = 0, region_end_ms = 450\<rparr>]" 100]
  by (auto simp: Let_def)

section \<open>The recursion as a big-step relation\<close>

text \<open>
  One rule for each way a call of \<open>recurse\<close> returns; \<open>c\<close> is the call it makes itself. The
  properties of the recursion are proved by rule induction.
\<close>

definition own_call :: "f32 list \<Rightarrow> u32 \<Rightarrow> string option \<Rightarrow> speech_region \<Rightarrow> asr_call" where
  "own_call samples rate hint region = (slice_for_region samples rate region, rate, hint)"

definition own_result :: "transcript \<Rightarrow> speech_region \<Rightarrow> region_result" where
  "own_result t region =
     \<lparr>rr_segments = map (offset_segment (region_start_ms region) (region_end_ms region))
        (tr_segments t),
      rr_model = (if tr_segments t = [] then None else Some (tr_model t))\<rparr>"

definition left_half :: "speech_region \<Rightarrow> u64 \<Rightarrow> speech_region" where
  "left_half region sp = \<lparr>region_start_ms = region_start_ms region, region_end_ms = sp\<rparr>"

definition right_half :: "speech_region \<Rightarrow> u64 \<Rightarrow> speech_region" where
  "right_half region sp = \<lparr>region_start_ms = sp, region_end_ms = region_end_ms region\<rparr>"

inductive runs ::
  "asr_provider \<Rightarrow> bool \<Rightarrow> f32 list \<Rightarrow> u32 \<Rightarrow> speech_region \<Rightarrow> string option \<Rightarrow> u32 \<Rightarrow> asr_call list
   \<Rightarrow> asr_error + region_result \<Rightarrow> asr_call list \<Rightarrow> bool"
  for asr is_fake samples rate where
  run_error: "asr (length calls) (own_call samples rate hint region) = Inl e \<Longrightarrow>
    runs asr is_fake samples rate region hint depth calls (Inl e)
      (calls @ [own_call samples rate hint region])"
| run_leaf: "asr (length calls) (own_call samples rate hint region) = Inr t \<Longrightarrow>
    runs asr is_fake samples rate region hint depth calls (Inr (own_result t region))
      (calls @ [own_call samples rate hint region])"
| run_left_error:
    "asr (length calls) (own_call samples rate None region) = Inr t \<Longrightarrow> depth < max_depth \<Longrightarrow>
     2 * min_region_ms \<le> region_end_ms region - region_start_ms region \<Longrightarrow>
     split_point is_fake region (tr_segments t) = Some (Some sp) \<Longrightarrow>
     runs asr is_fake samples rate (left_half region sp) None (depth + 1)
       (calls @ [own_call samples rate None region]) (Inl e) calls1 \<Longrightarrow>
     runs asr is_fake samples rate region None depth calls (Inl e) calls1"
| run_right_error:
    "asr (length calls) (own_call samples rate None region) = Inr t \<Longrightarrow> depth < max_depth \<Longrightarrow>
     2 * min_region_ms \<le> region_end_ms region - region_start_ms region \<Longrightarrow>
     split_point is_fake region (tr_segments t) = Some (Some sp) \<Longrightarrow>
     runs asr is_fake samples rate (left_half region sp) None (depth + 1)
       (calls @ [own_call samples rate None region]) (Inr l) calls1 \<Longrightarrow>
     runs asr is_fake samples rate (right_half region sp) None (depth + 1) calls1 (Inl e) calls2 \<Longrightarrow>
     runs asr is_fake samples rate region None depth calls (Inl e) calls2"
| run_split:
    "asr (length calls) (own_call samples rate None region) = Inr t \<Longrightarrow> depth < max_depth \<Longrightarrow>
     2 * min_region_ms \<le> region_end_ms region - region_start_ms region \<Longrightarrow>
     split_point is_fake region (tr_segments t) = Some (Some sp) \<Longrightarrow>
     runs asr is_fake samples rate (left_half region sp) None (depth + 1)
       (calls @ [own_call samples rate None region]) (Inr l) calls1 \<Longrightarrow>
     runs asr is_fake samples rate (right_half region sp) None (depth + 1) calls1 (Inr r) calls2 \<Longrightarrow>
     runs asr is_fake samples rate region None depth calls
       (Inr \<lparr>rr_segments = rr_segments l @ rr_segments r,
             rr_model = option_or (option_or (rr_model (own_result t region)) (rr_model l))
               (rr_model r)\<rparr>) calls2"

lemma split_point_bounds:
  assumes "2 * min_region_ms \<le> region_end_ms region - region_start_ms region"
    and "region_end_ms region < 2 ^ 64"
    and "split_point is_fake region segs = Some (Some sp)"
  shows "region_start_ms region + min_region_ms \<le> sp" "sp + min_region_ms \<le> region_end_ms region"
  using assms
  by (auto simp: split_point_def min_region_ms_def Let_def split: option.splits if_splits)

lemma least_confident_None: "least_confident segs best = None \<longleftrightarrow> segs = [] \<and> best = None"
  by (induction segs best rule: least_confident.induct) (auto split: option.splits)

lemma split_point_no_panic:
  assumes "2 * min_region_ms \<le> region_end_ms region - region_start_ms region"
    and "region_end_ms region < 2 ^ 64" and "segs \<noteq> []"
  shows "split_point is_fake region segs \<noteq> None"
proof -
  obtain worst where w: "least_confident segs None = Some worst"
    using least_confident_None assms(3) by (cases "least_confident segs None") auto
  have "\<not> region_end_ms region - min_region_ms < u64_add (region_start_ms region) min_region_ms"
    using assms(1,2) by (simp add: min_region_ms_def)
  with w show ?thesis
    by (simp add: split_point_def Let_def)
qed

text \<open>The code and the relation agree, and the code never panics.\<close>

lemma recurse_runs:
  assumes "region_end_ms region < 2 ^ 64"
  shows "\<exists>r calls'. recurse asr is_fake samples rate region hint depth calls = Some (r, calls') \<and>
    runs asr is_fake samples rate region hint depth calls r calls'"
  using assms
proof (induction "max_depth - depth" arbitrary: region hint depth calls rule: less_induct)
  case less
  let ?call = "own_call samples rate hint region"
  let ?dur = "region_end_ms region - region_start_ms region"
  show ?case
  proof (cases "asr (length calls) ?call")
    case (Inl e)
    then have "recurse asr is_fake samples rate region hint depth calls =
        Some (Inl e, calls @ [?call])"
      by (subst recurse.simps) (simp add: Let_def own_call_def)
    with run_error [of asr calls samples rate hint region e, OF Inl] show ?thesis
      by blast
  next
    case (Inr t)
    note leaf = run_leaf [of asr calls samples rate hint region t, OF Inr]
    show ?thesis
    proof (cases "hint \<noteq> None \<or> tr_segments t = [] \<or> max_depth \<le> depth \<or> ?dur < 2 * min_region_ms \<or>
        split_point is_fake region (tr_segments t) = Some None")
      case True
      then have "recurse asr is_fake samples rate region hint depth calls =
          Some (Inr (own_result t region), calls @ [?call])"
        using Inr by (subst recurse.simps) (auto simp: Let_def own_call_def own_result_def)
      with leaf show ?thesis by blast
    next
      case False
      then have h: "hint = None" and deep: "depth < max_depth" and long: "2 * min_region_ms \<le> ?dur"
        by auto
      obtain sp where sp: "split_point is_fake region (tr_segments t) = Some (Some sp)"
        using split_point_no_panic [OF long less.prems, of "tr_segments t" is_fake] False
        by (cases "split_point is_fake region (tr_segments t)") auto
      note b = split_point_bounds [OF long less.prems sp]
      have left_end: "region_end_ms (left_half region sp) < 2 ^ 64"
        using b less.prems by (simp add: left_half_def)
      have right_end: "region_end_ms (right_half region sp) < 2 ^ 64"
        using less.prems by (simp add: right_half_def)
      have dec: "max_depth - (depth + 1) < max_depth - depth"
        using deep by simp
      obtain l calls1 where l:
        "recurse asr is_fake samples rate (left_half region sp) None (depth + 1) (calls @ [?call]) =
           Some (l, calls1)"
        "runs asr is_fake samples rate (left_half region sp) None (depth + 1) (calls @ [?call])
           l calls1"
        using less.hyps [OF dec left_end] by blast
      obtain r calls2 where r:
        "recurse asr is_fake samples rate (right_half region sp) None (depth + 1) calls1 =
           Some (r, calls2)"
        "runs asr is_fake samples rate (right_half region sp) None (depth + 1) calls1 r calls2"
        using less.hyps [OF dec right_end] by blast
      have eq: "recurse asr is_fake samples rate region hint depth calls =
        (case l of
           Inl e \<Rightarrow> Some (Inl e, calls1)
         | Inr left_result \<Rightarrow>
             (case r of
                Inl e \<Rightarrow> Some (Inl e, calls2)
              | Inr right_result \<Rightarrow>
                  Some (Inr \<lparr>rr_segments = rr_segments left_result @ rr_segments right_result,
                    rr_model = option_or (option_or (rr_model (own_result t region))
                      (rr_model left_result)) (rr_model right_result)\<rparr>, calls2)))"
        using Inr False h sp l(1) r(1)
        by (subst recurse.simps)
          (simp add: Let_def own_call_def own_result_def left_half_def right_half_def
            split: sum.split)
      note call = Inr [unfolded h] and eq' = eq [unfolded h]
      show ?thesis
      proof (cases l)
        case (Inl e)
        have "runs asr is_fake samples rate region None depth calls (Inl e) calls1"
          by (rule run_left_error [of asr calls samples rate region t depth is_fake sp, OF call deep long sp]) (use l(2) h Inl in simp)
        then show ?thesis
          unfolding h eq' Inl by auto
      next
        case lr: (Inr lres)
        have left: "runs asr is_fake samples rate (left_half region sp) None (depth + 1)
            (calls @ [own_call samples rate None region]) (Inr lres) calls1"
          using l(2) h lr by simp
        show ?thesis
        proof (cases r)
          case (Inl e)
          have "runs asr is_fake samples rate region None depth calls (Inl e) calls2"
            by (rule run_right_error [of asr calls samples rate region t depth is_fake sp, OF call deep long sp left]) (use r(2) Inl in simp)
          then show ?thesis
            unfolding h eq' Inl lr by auto
        next
          case rr: (Inr rres)
          show ?thesis
            unfolding h eq' lr rr
            using run_split [of asr calls samples rate region t depth is_fake sp, OF call deep long sp left] r(2) rr by simp
        qed
      qed
    qed
  qed
qed

section \<open>Properties of a transcription\<close>

lemma one_less_two_power: "depth \<le> max_depth \<Longrightarrow> Suc 0 < 2 * 2 ^ (max_depth - depth)"
  using power_gt1 [of "2 :: nat" "max_depth - depth"] by simp

lemma runs_calls:
  assumes "runs asr is_fake samples rate region hint depth calls r calls'" and "depth \<le> max_depth"
  shows "\<exists>new. calls' = calls @ new \<and> new \<noteq> [] \<and> length new < 2 ^ (Suc max_depth - depth) \<and>
    (hint \<noteq> None \<longrightarrow> length new = 1) \<and>
    list_all (\<lambda>(chunk, sr, h). sr = rate \<and> h = hint) new"
  using assms
proof (induction rule: runs.induct)
  case (run_error calls hint region e depth)
  then show ?case
    using one_less_two_power [of depth] by (auto simp: own_call_def Suc_diff_le)
next
  case (run_leaf calls hint region t depth)
  then show ?case
    using one_less_two_power [of depth] by (auto simp: own_call_def Suc_diff_le)
next
  case (run_left_error calls region t depth sp e calls1)
  then obtain new where "calls1 = (calls @ [own_call samples rate None region]) @ new"
    "length new < 2 ^ (Suc max_depth - (depth + 1))"
    "list_all (\<lambda>(chunk, sr, h). sr = rate \<and> h = None) new"
    by auto
  moreover have "Suc max_depth - depth = Suc (Suc max_depth - (depth + 1))"
    using run_left_error by simp
  ultimately show ?case
    by (auto simp: own_call_def)
next
  case (run_right_error calls region t depth sp l calls1 e calls2)
  then obtain new new' where "calls1 = (calls @ [own_call samples rate None region]) @ new"
    "length new < 2 ^ (Suc max_depth - (depth + 1))"
    "list_all (\<lambda>(chunk, sr, h). sr = rate \<and> h = None) new"
    "calls2 = calls1 @ new'" "length new' < 2 ^ (Suc max_depth - (depth + 1))"
    "list_all (\<lambda>(chunk, sr, h). sr = rate \<and> h = None) new'"
    by auto
  moreover have "Suc max_depth - depth = Suc (Suc max_depth - (depth + 1))"
    using run_right_error by simp
  ultimately show ?case
    by (auto simp: own_call_def)
next
  case (run_split calls region t depth sp l calls1 r calls2)
  then obtain new new' where "calls1 = (calls @ [own_call samples rate None region]) @ new"
    "length new < 2 ^ (Suc max_depth - (depth + 1))"
    "list_all (\<lambda>(chunk, sr, h). sr = rate \<and> h = None) new"
    "calls2 = calls1 @ new'" "length new' < 2 ^ (Suc max_depth - (depth + 1))"
    "list_all (\<lambda>(chunk, sr, h). sr = rate \<and> h = None) new'"
    by auto
  moreover have "Suc max_depth - depth = Suc (Suc max_depth - (depth + 1))"
    using run_split by simp
  ultimately show ?case
    by (auto simp: own_call_def)
qed

text \<open>C13: Transcribing a region never panics and ends after at least one and at most fifteen calls of
  the provider, whatever it answers; every call passes the caller's sample rate and language hint,
  and with a hint there is exactly one call.\<close>

theorem transcribe_recursive_total:
  assumes "region_end_ms region < 2 ^ 64"
  shows "\<exists>r calls. transcribe_recursive asr is_fake samples rate region hint = Some (r, calls) \<and>
    1 \<le> length calls \<and> length calls \<le> 15 \<and> (hint \<noteq> None \<longrightarrow> length calls = 1) \<and>
    list_all (\<lambda>(chunk, sr, h). sr = rate \<and> h = hint) calls"
proof -
  obtain r calls where run:
    "recurse asr is_fake samples rate region hint 0 [] = Some (r, calls)"
    "runs asr is_fake samples rate region hint 0 [] r calls"
    using recurse_runs [OF assms] by blast
  have "calls \<noteq> []" "length calls < 16" "hint \<noteq> None \<longrightarrow> length calls = 1"
    "list_all (\<lambda>(chunk, sr, h). sr = rate \<and> h = hint) calls"
    using runs_calls [OF run(2)] by (auto simp: max_depth_def)
  then show ?thesis
    using run(1) by (cases calls) (auto simp: transcribe_recursive_def)
qed

definition silent_asr :: asr_provider where
  "silent_asr n call = Inr \<lparr>tr_schema_version = 2, tr_model = ''m'', tr_audio_path = [],
     tr_audio_duration_ms = 0, tr_diarized = False, tr_segments = []\<rparr>"

theorem transcribe_recursive_total_witness:
  "\<exists>r calls. transcribe_recursive silent_asr False [] 16000
     \<lparr>region_start_ms = 0, region_end_ms = 60000\<rparr> None = Some (r, calls) \<and> length calls \<le> 15"
  using transcribe_recursive_total [of "\<lparr>region_start_ms = 0, region_end_ms = 60000\<rparr>" silent_asr
      False "[]" 16000 None]
  by auto

lemma runs_errors:
  assumes "runs asr is_fake samples rate region hint depth calls r calls'"
    and "\<forall>k < length calls. \<not> isl (asr k (calls ! k))"
  shows "(case r of
            Inl e \<Rightarrow> (\<forall>k < length calls' - 1. \<not> isl (asr k (calls' ! k))) \<and>
              asr (length calls' - 1) (last calls') = Inl e
          | Inr _ \<Rightarrow> (\<forall>k < length calls'. \<not> isl (asr k (calls' ! k))))"
  using assms
proof (induction rule: runs.induct)
  case (run_left_error calls region t depth sp e calls1)
  then show ?case by (auto simp: nth_append less_Suc_eq)
next
  case (run_right_error calls region t depth sp l calls1 e calls2)
  then show ?case by (auto simp: nth_append less_Suc_eq)
next
  case (run_split calls region t depth sp l calls1 r calls2)
  then show ?case by (auto simp: nth_append less_Suc_eq)
qed (auto simp: nth_append less_Suc_eq)

text \<open>The first failing call ends the transcription with its error: the result is an error exactly
  when the last call made failed, it is that call's error, and every earlier call succeeded.\<close>

theorem transcribe_recursive_errors:
  assumes "region_end_ms region < 2 ^ 64"
  shows "\<exists>r calls. transcribe_recursive asr is_fake samples rate region hint = Some (r, calls) \<and>
    (case r of
       Inl e \<Rightarrow> asr (length calls - 1) (last calls) = Inl e \<and>
         (\<forall>k < length calls - 1. \<not> isl (asr k (calls ! k)))
     | Inr _ \<Rightarrow> (\<forall>k < length calls. \<not> isl (asr k (calls ! k))))"
proof -
  obtain r calls where
    "recurse asr is_fake samples rate region hint 0 [] = Some (r, calls)"
    "runs asr is_fake samples rate region hint 0 [] r calls"
    using recurse_runs [OF assms] by blast
  with runs_errors [of asr is_fake samples rate region hint 0 "[]" r calls] show ?thesis
    by (auto simp: transcribe_recursive_def split: sum.splits)
qed

theorem transcribe_recursive_errors_witness:
  "\<exists>r calls. transcribe_recursive (\<lambda>n call. Inl (AsrModel ''down'')) False [] 16000
     \<lparr>region_start_ms = 0, region_end_ms = 60000\<rparr> None = Some (r, calls) \<and>
     (isl r \<or> calls = [])"
proof -
  obtain r calls where run: "transcribe_recursive (\<lambda>n call. Inl (AsrModel ''down'')) False [] 16000
      \<lparr>region_start_ms = 0, region_end_ms = 60000\<rparr> None = Some (r, calls)"
    and spec: "case r of
       Inl e \<Rightarrow> Inl (AsrModel ''down'') = (Inl e :: asr_error + transcript) \<and>
         (\<forall>k < length calls - 1. \<not> isl (Inl (AsrModel ''down'') :: asr_error + transcript))
     | Inr _ \<Rightarrow> (\<forall>k < length calls. \<not> isl (Inl (AsrModel ''down'') :: asr_error + transcript))"
    using transcribe_recursive_errors [of "\<lparr>region_start_ms = 0, region_end_ms = 60000\<rparr>"
        "\<lambda>n call. Inl (AsrModel ''down'')" False "[]" 16000 None]
    by fastforce
  from spec have "isl r \<or> calls = []"
    by (cases r) auto
  with run show ?thesis
    by blast
qed

section \<open>The leaves tile the region\<close>

fun tiles :: "u64 \<Rightarrow> u64 \<Rightarrow> speech_region list \<Rightarrow> bool" where
  "tiles a b [] = False"
| "tiles a b [r] = (region_start_ms r = a \<and> region_end_ms r = b)"
| "tiles a b (r # q # rs) = (region_start_ms r = a \<and> tiles (region_end_ms r) b (q # rs))"

lemma tiles_append: "tiles a m xs \<Longrightarrow> tiles m b ys \<Longrightarrow> tiles a b (xs @ ys)"
proof (induction a m xs rule: tiles.induct)
  case (2 a m r)
  then show ?case by (cases ys) auto
next
  case (3 a m r q rs)
  then show ?case by simp
qed simp

text \<open>What a leaf contributes: the answer to its call, moved to the leaf's place.\<close>

definition leaf_segments ::
  "asr_provider \<Rightarrow> f32 list \<Rightarrow> u32 \<Rightarrow> string option \<Rightarrow> speech_region \<times> nat \<Rightarrow> segment list" where
  "leaf_segments asr samples rate hint leaf =
     (case asr (snd leaf) (own_call samples rate hint (fst leaf)) of
        Inl e \<Rightarrow> []
      | Inr t \<Rightarrow> map (offset_segment (region_start_ms (fst leaf)) (region_end_ms (fst leaf)))
          (tr_segments t))"

lemma runs_tiles:
  assumes "runs asr is_fake samples rate region hint depth calls r calls'" and "r = Inr res"
    and "region_end_ms region < 2 ^ 64"
  shows "\<exists>leaves. tiles (region_start_ms region) (region_end_ms region) (map fst leaves) \<and>
    rr_segments res = concat (map (leaf_segments asr samples rate hint) leaves) \<and>
    (\<forall>(reg, k) \<in> set leaves. length calls \<le> k \<and> k < length calls' \<and>
       calls' ! k = own_call samples rate hint reg \<and>
       (reg = region \<or> min_region_ms \<le> region_end_ms reg - region_start_ms reg))"
  using assms
proof (induction arbitrary: res rule: runs.induct)
  case (run_leaf calls hint region t depth)
  then show ?case
    by (intro exI [of _ "[(region, length calls)]"])
      (auto simp: leaf_segments_def own_result_def)
next
  case (run_split calls region t depth sp l calls1 r calls2)
  note b = split_point_bounds [OF run_split(3) run_split(10) run_split(4)]
  have ends: "region_end_ms (left_half region sp) < 2 ^ 64" "region_end_ms (right_half region sp) < 2 ^ 64"
    using b run_split(10) by (simp_all add: left_half_def right_half_def)
  obtain ls where ls: "tiles (region_start_ms region) sp (map fst ls)"
    "rr_segments l = concat (map (leaf_segments asr samples rate None) ls)"
    "\<forall>(reg, k) \<in> set ls. length calls < k \<and> k < length calls1 \<and>
       calls1 ! k = own_call samples rate None reg \<and>
       (reg = left_half region sp \<or> min_region_ms \<le> region_end_ms reg - region_start_ms reg)"
    using run_split(7) [OF refl ends(1)] by (auto simp: left_half_def Suc_le_eq)
  obtain rs where rs: "tiles sp (region_end_ms region) (map fst rs)"
    "rr_segments r = concat (map (leaf_segments asr samples rate None) rs)"
    "\<forall>(reg, k) \<in> set rs. length calls1 \<le> k \<and> k < length calls2 \<and>
       calls2 ! k = own_call samples rate None reg \<and>
       (reg = right_half region sp \<or> min_region_ms \<le> region_end_ms reg - region_start_ms reg)"
    using run_split(8) [OF refl ends(2)] by (auto simp: right_half_def)
  have mono: "\<exists>new. calls2 = calls1 @ new" "length calls \<le> length calls1"
    using runs_calls [OF run_split(5)] runs_calls [OF run_split(6)] run_split(2) by auto
  have halves: "min_region_ms \<le> region_end_ms (left_half region sp) - region_start_ms (left_half region sp)"
    "min_region_ms \<le> region_end_ms (right_half region sp) - region_start_ms (right_half region sp)"
    using b by (simp_all add: left_half_def right_half_def)
  have "\<forall>(reg, k) \<in> set (ls @ rs). length calls \<le> k \<and> k < length calls2 \<and>
       calls2 ! k = own_call samples rate None reg \<and>
       (reg = region \<or> min_region_ms \<le> region_end_ms reg - region_start_ms reg)"
    using ls(3) rs(3) mono halves by (fastforce simp: nth_append)
  moreover have "tiles (region_start_ms region) (region_end_ms region) (map fst (ls @ rs))"
    using tiles_append [OF ls(1) rs(1)] by simp
  moreover have "rr_segments res = concat (map (leaf_segments asr samples rate None) (ls @ rs))"
    using run_split(9) ls(2) rs(2) by auto
  ultimately show ?case
    by blast
qed simp_all

text \<open>The samples of adjacent regions are adjacent.\<close>

definition sample_index :: "f32 list \<Rightarrow> u32 \<Rightarrow> u64 \<Rightarrow> nat" where
  "sample_index samples rate t = min (u64_saturating_mul t rate div 1000) (length samples)"

lemma sample_index_mono: "s \<le> t \<Longrightarrow> sample_index samples rate s \<le> sample_index samples rate t"
  unfolding sample_index_def u64_saturating_mul_def
  by (intro min.mono div_le_mono mult_right_mono) simp_all

lemma slice_eq:
  "region_start_ms r \<le> region_end_ms r \<Longrightarrow> slice_for_region samples rate r =
     take (sample_index samples rate (region_end_ms r) - sample_index samples rate (region_start_ms r))
       (drop (sample_index samples rate (region_start_ms r)) samples)"
  using sample_index_mono [of "region_start_ms r" "region_end_ms r" samples rate]
  by (simp add: slice_for_region_def sample_index_def Let_def max_absorb1)

lemma take_drop_join:
  "a \<le> m \<Longrightarrow> m \<le> b \<Longrightarrow> take (m - a) (drop a xs) @ take (b - m) (drop m xs) = take (b - a) (drop a xs)"
  using take_add [of "m - a" "b - m" "drop a xs"] by (simp add: add.commute)

lemma tiles_le: "tiles a b regs \<Longrightarrow> \<forall>r \<in> set regs. region_start_ms r \<le> region_end_ms r \<Longrightarrow> a \<le> b"
  by (induction a b regs rule: tiles.induct) auto

lemma slices_of_tiles:
  assumes "tiles a b regs" and "\<forall>r \<in> set regs. region_start_ms r \<le> region_end_ms r"
  shows "concat (map (slice_for_region samples rate) regs) =
    take (sample_index samples rate b - sample_index samples rate a)
      (drop (sample_index samples rate a) samples)"
  using assms
proof (induction a b regs rule: tiles.induct)
  case (2 a b r)
  then show ?case by (auto simp: slice_eq)
next
  case (3 a b r q rs)
  have "region_end_ms r \<le> b"
    using tiles_le [of "region_end_ms r" b "q # rs"] 3(2,3) by simp
  moreover have "a \<le> region_end_ms r"
    using 3(2,3) by auto
  ultimately show ?case
    using 3 sample_index_mono
    by (simp add: slice_eq take_drop_join)
qed simp

lemma tiles_ends:
  "tiles a b regs \<Longrightarrow> \<forall>r \<in> set regs. region_start_ms r \<le> region_end_ms r \<Longrightarrow>
     \<forall>r \<in> set regs. region_end_ms r \<le> b"
proof (induction a b regs rule: tiles.induct)
  case (3 a b r q rs)
  then show ?case
    using tiles_le [of "region_end_ms r" b "q # rs"] by simp
qed simp_all

text \<open>C14: No audio is lost or transcribed twice: the segments returned are those of calls on a list
  of regions that tile the given region from its start to its end, whose samples concatenate to the
  region's samples; each such call was made, and each tile is the whole region or at least ten
  seconds long.\<close>

theorem transcribe_recursive_tiles:
  assumes "transcribe_recursive asr is_fake samples rate region hint = Some (Inr res, calls)"
    and "region_start_ms region \<le> region_end_ms region" and "region_end_ms region < 2 ^ 64"
  shows "\<exists>leaves. tiles (region_start_ms region) (region_end_ms region) (map fst leaves) \<and>
    concat (map (slice_for_region samples rate) (map fst leaves)) =
      slice_for_region samples rate region \<and>
    rr_segments res = concat (map (leaf_segments asr samples rate hint) leaves) \<and>
    (\<forall>(reg, k) \<in> set leaves. k < length calls \<and> calls ! k = own_call samples rate hint reg \<and>
       (reg = region \<or> 10000 \<le> region_end_ms reg - region_start_ms reg))"
proof -
  have "runs asr is_fake samples rate region hint 0 [] (Inr res) calls"
    using recurse_runs [OF assms(3), of asr is_fake samples rate hint 0 "[]"] assms(1)
    by (auto simp: transcribe_recursive_def)
  from runs_tiles [OF this refl assms(3)] obtain leaves where
    l: "tiles (region_start_ms region) (region_end_ms region) (map fst leaves)"
      "rr_segments res = concat (map (leaf_segments asr samples rate hint) leaves)"
      "\<forall>(reg, k) \<in> set leaves. k < length calls \<and> calls ! k = own_call samples rate hint reg \<and>
         (reg = region \<or> 10000 \<le> region_end_ms reg - region_start_ms reg)"
    by (auto simp: min_region_ms_def)
  have "\<forall>r \<in> set (map fst leaves). region_start_ms r \<le> region_end_ms r"
    using l(3) assms(2) by fastforce
  from slices_of_tiles [OF l(1) this] have
    "concat (map (slice_for_region samples rate) (map fst leaves)) =
       slice_for_region samples rate region"
    by (simp only: slice_eq [OF assms(2)])
  with l show ?thesis
    by blast
qed

section \<open>Times and order\<close>

lemma offset_segment_times:
  assumes "seg_start_ms s \<le> seg_end_ms s" "seg_end_ms s < 2 ^ 63"
    and "a \<le> b" "b < 2 ^ 63"
  shows "a \<le> seg_start_ms (offset_segment a b s)"
    "seg_start_ms (offset_segment a b s) \<le> seg_end_ms (offset_segment a b s)"
    "seg_end_ms (offset_segment a b s) \<le> b"
    "seg_start_ms (offset_segment a b s) = min (seg_start_ms s + a) b"
proof -
  have "u64_add (seg_start_ms s) a = seg_start_ms s + a" "u64_add (seg_end_ms s) a = seg_end_ms s + a"
    using assms by simp_all
  then show "a \<le> seg_start_ms (offset_segment a b s)"
    "seg_start_ms (offset_segment a b s) \<le> seg_end_ms (offset_segment a b s)"
    "seg_end_ms (offset_segment a b s) \<le> b"
    "seg_start_ms (offset_segment a b s) = min (seg_start_ms s + a) b"
    using assms by (auto simp: offset_segment_def)
qed

text \<open>Answers of a provider that keeps its own times in order.\<close>

definition ordered_answers :: "asr_provider \<Rightarrow> bool" where
  "ordered_answers asr \<longleftrightarrow>
     (\<forall>k call t. asr k call = Inr t \<longrightarrow> sorted (map seg_start_ms (tr_segments t)) \<and>
        (\<forall>s \<in> set (tr_segments t). seg_start_ms s \<le> seg_end_ms s \<and> seg_end_ms s < 2 ^ 63))"

definition ordered_within :: "u64 \<Rightarrow> u64 \<Rightarrow> segment list \<Rightarrow> bool" where
  "ordered_within a b segs \<longleftrightarrow> sorted (map seg_start_ms segs) \<and>
     (\<forall>s \<in> set segs. a \<le> seg_start_ms s \<and> seg_start_ms s \<le> seg_end_ms s \<and> seg_end_ms s \<le> b)"

lemma sorted_map_mono: "sorted xs \<Longrightarrow> (\<And>x y. x \<le> y \<Longrightarrow> f x \<le> f y) \<Longrightarrow> sorted (map f xs)"
  by (auto simp: sorted_iff_nth_mono)

lemma leaf_ordered:
  assumes "ordered_answers asr" and "region_start_ms reg \<le> region_end_ms reg"
    and "region_end_ms reg < 2 ^ 63"
  shows "ordered_within (region_start_ms reg) (region_end_ms reg)
    (leaf_segments asr samples rate hint (reg, k))"
proof (cases "asr k (own_call samples rate hint reg)")
  case (Inl e)
  then show ?thesis by (simp add: leaf_segments_def ordered_within_def)
next
  case (Inr t)
  let ?off = "offset_segment (region_start_ms reg) (region_end_ms reg)"
  have ok: "sorted (map seg_start_ms (tr_segments t))"
    "\<forall>s \<in> set (tr_segments t). seg_start_ms s \<le> seg_end_ms s \<and> seg_end_ms s < 2 ^ 63"
    using assms(1) Inr unfolding ordered_answers_def by blast+
  have times: "\<forall>s \<in> set (tr_segments t). region_start_ms reg \<le> seg_start_ms (?off s) \<and>
      seg_start_ms (?off s) \<le> seg_end_ms (?off s) \<and> seg_end_ms (?off s) \<le> region_end_ms reg"
    using offset_segment_times(1-3) [OF _ _ assms(2,3)] ok(2) by blast
  have "map seg_start_ms (map ?off (tr_segments t)) =
      map (\<lambda>x. min (x + region_start_ms reg) (region_end_ms reg)) (map seg_start_ms (tr_segments t))"
    using offset_segment_times(4) [OF _ _ assms(2,3)] ok(2) by simp
  moreover have "sorted (map (\<lambda>x. min (x + region_start_ms reg) (region_end_ms reg))
      (map seg_start_ms (tr_segments t)))"
    using ok(1) by (rule sorted_map_mono) simp
  ultimately have "sorted (map seg_start_ms (map ?off (tr_segments t)))"
    by (simp only:)
  then show ?thesis
    using Inr times by (auto simp: leaf_segments_def ordered_within_def)
qed

lemma ordered_within_append:
  "ordered_within a m xs \<Longrightarrow> ordered_within m b ys \<Longrightarrow> a \<le> m \<Longrightarrow> m \<le> b \<Longrightarrow>
     ordered_within a b (xs @ ys)"
  by (force simp: ordered_within_def sorted_append)

lemma tiles_ordered:
  assumes "tiles a b (map fst leaves)"
    and "\<forall>leaf \<in> set leaves. region_start_ms (fst leaf) \<le> region_end_ms (fst leaf) \<and>
      ordered_within (region_start_ms (fst leaf)) (region_end_ms (fst leaf)) (f leaf)"
  shows "ordered_within a b (concat (map f leaves))"
  using assms
proof (induction leaves arbitrary: a)
  case Nil
  then show ?case by simp
next
  case (Cons leaf leaves)
  show ?case
  proof (cases leaves)
    case Nil
    with Cons.prems show ?thesis by simp
  next
    case (Cons q qs)
    let ?m = "region_end_ms (fst leaf)"
    have t: "region_start_ms (fst leaf) = a" "tiles ?m b (map fst leaves)"
      using Cons.prems(1) Cons by simp_all
    have "?m \<le> b"
      using tiles_le [OF t(2)] Cons.prems(2) by auto
    moreover have "ordered_within ?m b (concat (map f leaves))"
      using Cons.IH [OF t(2)] Cons.prems(2) by simp
    ultimately show ?thesis
      using ordered_within_append [of a ?m "f leaf" b] Cons.prems(2) t(1) by auto
  qed
qed

text \<open>With a provider whose answers are in time order, the segments of a region are in time order
  across all its splits, end no earlier than they start, and lie within the region.\<close>

theorem transcribe_recursive_ordered:
  assumes "transcribe_recursive asr is_fake samples rate region hint = Some (Inr res, calls)"
    and "region_start_ms region \<le> region_end_ms region" and "region_end_ms region < 2 ^ 63"
    and "ordered_answers asr"
  shows "sorted (map seg_start_ms (rr_segments res)) \<and>
    (\<forall>s \<in> set (rr_segments res). region_start_ms region \<le> seg_start_ms s \<and>
       seg_start_ms s \<le> seg_end_ms s \<and> seg_end_ms s \<le> region_end_ms region)"
proof -
  have lt: "region_end_ms region < 2 ^ 64"
    using assms(3) by simp
  have "runs asr is_fake samples rate region hint 0 [] (Inr res) calls"
    using recurse_runs [OF lt, of asr is_fake samples rate hint 0 "[]"] assms(1)
    by (auto simp: transcribe_recursive_def)
  from runs_tiles [OF this refl lt] obtain leaves where
    l: "tiles (region_start_ms region) (region_end_ms region) (map fst leaves)"
      "rr_segments res = concat (map (leaf_segments asr samples rate hint) leaves)"
      "\<forall>leaf \<in> set leaves. fst leaf = region \<or>
         min_region_ms \<le> region_end_ms (fst leaf) - region_start_ms (fst leaf)"
    by fastforce
  have le: "\<forall>r \<in> set (map fst leaves). region_start_ms r \<le> region_end_ms r"
    using l(3) assms(2) by (fastforce simp: min_region_ms_def)
  have "\<forall>r \<in> set (map fst leaves). region_end_ms r \<le> region_end_ms region"
    using tiles_ends [OF l(1) le] by simp
  then have "ordered_within (region_start_ms region) (region_end_ms region) (rr_segments res)"
    unfolding l(2) using le assms(3)
    by (intro tiles_ordered [OF l(1)]) (fastforce intro: leaf_ordered [OF assms(4)])
  then show ?thesis
    by (simp add: ordered_within_def)
qed

text \<open>A run that splits nothing, for the two properties above.\<close>

definition one_segment :: segment where
  "one_segment = \<lparr>seg_start_ms = 100, seg_end_ms = 900, seg_text = ''hi'',
     seg_language = Some ''en'', seg_confidence = 0x3F000000, seg_speaker_id = None\<rparr>"

definition one_asr :: asr_provider where
  "one_asr n call = Inr \<lparr>tr_schema_version = 2, tr_model = ''m'', tr_audio_path = [],
     tr_audio_duration_ms = 0, tr_diarized = False, tr_segments = [one_segment]\<rparr>"

definition one_region :: speech_region where
  "one_region = \<lparr>region_start_ms = 5000, region_end_ms = 5500\<rparr>"

lemma one_run:
  "transcribe_recursive one_asr False [] 16000 one_region None =
     Some (Inr \<lparr>rr_segments = [one_segment\<lparr>seg_start_ms := 5100, seg_end_ms := 5500\<rparr>],
                rr_model = Some ''m''\<rparr>, [([], 16000, None)])"
  by (simp add: transcribe_recursive_def recurse.simps one_asr_def one_region_def one_segment_def
      slice_for_region_def offset_segment_def min_region_ms_def)

theorem transcribe_recursive_tiles_witness:
  "\<exists>leaves. tiles 5000 5500 (map fst leaves) \<and>
     [one_segment\<lparr>seg_start_ms := 5100, seg_end_ms := 5500\<rparr>] =
       concat (map (leaf_segments one_asr [] 16000 None) leaves)"
  using transcribe_recursive_tiles [OF one_run] by (auto simp: one_region_def)

theorem transcribe_recursive_ordered_witness:
  "list_all (\<lambda>s. 5000 \<le> seg_start_ms s \<and> seg_end_ms s \<le> 5500)
     [one_segment\<lparr>seg_start_ms := 5100, seg_end_ms := 5500\<rparr>]"
  using transcribe_recursive_ordered [OF one_run]
  by (simp add: one_region_def ordered_answers_def one_asr_def one_segment_def)

end
