(* ===== verification/Storage_Types.thy ===== *)
theory Storage_Types
  imports Rust_Strings
begin

text \<open>
  The data of \<open>panops-core/src/storage.rs\<close>: drafts, rows, summaries, the listing filter and the
  errors of the \<open>Storage\<close> port. Field names carry a prefix for their struct. An \<open>i64\<close> is an integer.
\<close>

record meeting_draft =
  md_id :: string
  md_title :: string
  md_started_at :: string
  md_language :: string
  md_dir_path :: string

record meeting =
  mt_id :: string
  mt_title :: string
  mt_started_at :: string
  mt_ended_at :: "string option"
  mt_duration_ms :: "u64 option"
  mt_language :: string
  mt_dir_path :: string

record meeting_summary =
  ms_id :: string
  ms_title :: string
  ms_started_at :: string
  ms_ended_at :: "string option"
  ms_duration_ms :: u64
  ms_language :: string
  ms_has_notes :: bool
  ms_space_id :: "string option"
  ms_project_id :: "string option"
  ms_tags :: "string list"

record meeting_list_filter =
  mf_space_id :: "string option"
  mf_project_id :: "string option"
  mf_tag_id :: "string option"
  mf_unsorted :: bool

definition default_filter :: meeting_list_filter where
  "default_filter =
     \<lparr>mf_space_id = None, mf_project_id = None, mf_tag_id = None, mf_unsorted = False\<rparr>"

record space =
  sp_id :: string
  sp_name :: string
  sp_position :: int

record project =
  pj_id :: string
  pj_space_id :: string
  pj_name :: string
  pj_position :: int

record tag =
  tg_id :: string
  tg_name :: string

record note_draft =
  nd_id :: string
  nd_meeting_id :: string
  nd_dialect :: string
  nd_content_md :: string
  nd_primary_path :: string

record meeting_note =
  nt_id :: string
  nt_meeting_id :: string
  nt_dialect :: string
  nt_content_md :: string
  nt_primary_path :: string
  nt_created_at :: string

datatype storage_error =
    StNotFound string string
  | StAlreadyExists string string
  | StUniqueConflict string string string
  | StSchemaMismatch u32 u32
  | StIo string
  | StSql string

text \<open>The error texts; the fields of the first three are id and kind, or kind, field and value.\<close>

definition storage_error_text :: "storage_error \<Rightarrow> string" where
  "storage_error_text e =
     (case e of
        StNotFound i kind \<Rightarrow> kind @ '' not found: '' @ i
      | StAlreadyExists i kind \<Rightarrow> kind @ '' already exists: '' @ i
      | StUniqueConflict kind field v \<Rightarrow> kind @ ''.'' @ field @ '' already in use: '' @ v
      | StSchemaMismatch actual expected \<Rightarrow>
          ''storage schema mismatch: actual '' @ dec actual @ '', expected '' @ dec expected
      | StIo source \<Rightarrow> ''io: '' @ source
      | StSql message \<Rightarrow> ''sql: '' @ message)"

type_synonym 'a storage_result = "storage_error + 'a"

text \<open>How a draft becomes a row, as both adapters build their results.\<close>

definition meeting_of_draft ::
  "meeting_draft \<Rightarrow> string option \<Rightarrow> u64 option \<Rightarrow> meeting" where
  "meeting_of_draft d ended_at duration_ms =
     \<lparr>mt_id = md_id d, mt_title = md_title d, mt_started_at = md_started_at d,
      mt_ended_at = ended_at, mt_duration_ms = duration_ms, mt_language = md_language d,
      mt_dir_path = md_dir_path d\<rparr>"

definition note_of_draft :: "note_draft \<Rightarrow> string \<Rightarrow> meeting_note" where
  "note_of_draft d created_at =
     \<lparr>nt_id = nd_id d, nt_meeting_id = nd_meeting_id d, nt_dialect = nd_dialect d,
      nt_content_md = nd_content_md d, nt_primary_path = nd_primary_path d,
      nt_created_at = created_at\<rparr>"

lemma meeting_of_draft_simps [simp]:
  "mt_id (meeting_of_draft d e n) = md_id d" "mt_dir_path (meeting_of_draft d e n) = md_dir_path d"
  "mt_duration_ms (meeting_of_draft d e n) = n" "mt_ended_at (meeting_of_draft d e n) = e"
  "mt_title (meeting_of_draft d e n) = md_title d"
  by (simp_all add: meeting_of_draft_def)

lemma note_of_draft_simps [simp]:
  "nt_id (note_of_draft d c) = nd_id d" "nt_meeting_id (note_of_draft d c) = nd_meeting_id d"
  "nt_content_md (note_of_draft d c) = nd_content_md d"
  by (simp_all add: note_of_draft_def)

text \<open>The position that both adapters give a new space or project: one past the greatest.\<close>

definition i64_succ :: "int \<Rightarrow> int" where
  "i64_succ v = (if v = 2 ^ 63 - 1 then - (2 ^ 63) else v + 1)"

fun max_position :: "int list \<Rightarrow> int option" where
  "max_position [] = None"
| "max_position (p # ps) =
     (case max_position ps of None \<Rightarrow> Some p | Some q \<Rightarrow> Some (max p q))"

definition position_after :: "int list \<Rightarrow> int" where
  "position_after ps = (case max_position ps of None \<Rightarrow> 0 | Some v \<Rightarrow> i64_succ v)"

definition not_found :: "string \<Rightarrow> string \<Rightarrow> storage_error" where
  "not_found kind i = StNotFound i kind"

section \<open>Calls and replies\<close>

text \<open>
  The methods of the \<open>Storage\<close> trait as data, one constructor each. The methods that read the clock
  take the time as an argument: \<open>ck_rfc3339\<close> is \<open>Utc::now().to_rfc3339()\<close> and \<open>ck_nanos\<close> the
  nanoseconds since the epoch.
\<close>

record clock =
  ck_rfc3339 :: string
  ck_nanos :: nat

datatype storage_call =
    CreateMeeting meeting_draft
  | GetMeeting string
  | ListMeetings
  | ListMeetingsFiltered meeting_list_filter
  | UpdateMeetingEnded string string u64
  | RenameMeeting string string
  | DeleteMeeting string
  | CreateNote clock note_draft
  | ListNotesForMeeting string
  | ReplaceMeetingNote clock string note_draft
  | CreateSpace clock string
  | ListSpaces
  | RenameSpace string string
  | DeleteSpace string
  | CreateProject clock string string
  | ListProjects "string option"
  | RenameProject string string
  | DeleteProject string
  | CreateTag clock string
  | ListTags
  | DeleteTag string
  | TagMeeting string string
  | UntagMeeting string string
  | ListTagsForMeeting string
  | AssignMeeting string "string option" "string option"
  | CreateMeetingWithNote clock meeting_draft note_draft "string option" "u64 option"

datatype storage_reply =
    RErr storage_error
  | RUnit
  | RMeeting meeting
  | RNote meeting_note
  | RMeetingNote meeting meeting_note
  | RSummaries "meeting_summary list"
  | RNotes "meeting_note list"
  | RSpace space
  | RSpaces "space list"
  | RProject project
  | RProjects "project list"
  | RTag tag
  | RTags "tag list"

definition reply :: "('a \<Rightarrow> storage_reply) \<Rightarrow> 'a storage_result \<times> 's \<Rightarrow> storage_reply \<times> 's" where
  "reply f r = (case fst r of Inl e \<Rightarrow> RErr e | Inr x \<Rightarrow> f x, snd r)"

lemma reply_simps [simp]:
  "reply f (Inl e, s) = (RErr e, s)" "reply f (Inr x, s) = (f x, s)"
  by (simp_all add: reply_def)

end
