(* ===== verification/Tables.thy ===== *)
theory Tables
  imports Prelude "HOL-Library.Product_Lexorder"
begin

text \<open>
  Tables of rows with a key, as the SQLite adapter sees them, hash maps as the in-memory adapter
  sees them, and the orderings of their listings. A table is the list of its rows in insertion
  order; a hash map is an association list. The order of entries that a sort key does not decide is
  left open by SQL and by hash maps: the theorems about listings speak of their elements and of the
  sort key only.
\<close>

section \<open>Tables\<close>

definition lookup :: "('r \<Rightarrow> 'k) \<Rightarrow> 'r list \<Rightarrow> 'k \<Rightarrow> 'r option" where
  "lookup key rows k = List.find (\<lambda>r. key r = k) rows"

named_theorems table_simps

lemma lookup_Nil [table_simps]: "lookup key [] k = None"
  by (simp add: lookup_def)

lemma lookup_Cons [table_simps]:
  "lookup key (r # rows) k = (if key r = k then Some r else lookup key rows k)"
  by (simp add: lookup_def)

lemma lookup_SomeD: "lookup key rows k = Some r \<Longrightarrow> r \<in> set rows \<and> key r = k"
  by (induction rows) (auto simp: table_simps split: if_splits)

lemma lookup_None: "lookup key rows k = None \<longleftrightarrow> k \<notin> key ` set rows"
  by (induction rows) (auto simp: table_simps)

lemma lookup_unique:
  "distinct (map key rows) \<Longrightarrow> r \<in> set rows \<Longrightarrow> lookup key rows (key r) = Some r"
  by (induction rows) (auto simp: table_simps)

lemma lookup_eq_Some:
  "distinct (map key rows) \<Longrightarrow> lookup key rows k = Some r \<longleftrightarrow> r \<in> set rows \<and> key r = k"
  using lookup_SomeD lookup_unique by metis

lemma lookup_append [table_simps]:
  "lookup key (xs @ ys) k = (case lookup key xs k of Some r \<Rightarrow> Some r | None \<Rightarrow> lookup key ys k)"
  by (induction xs) (auto simp: table_simps)

lemma lookup_filter [table_simps]:
  "distinct (map key rows) \<Longrightarrow> lookup key (filter P rows) k =
     Option.bind (lookup key rows k) (\<lambda>r. if P r then Some r else None)"
proof (induction rows)
  case (Cons r rows)
  then have "lookup key rows (key r) = None"
    by (simp add: lookup_None)
  with Cons show ?case
    by (auto simp: table_simps)
qed (simp add: table_simps)

lemma lookup_map [table_simps]:
  "(\<And>r. key (g r) = key r) \<Longrightarrow> lookup key (map g rows) k = map_option g (lookup key rows k)"
  by (induction rows) (auto simp: table_simps)

lemma distinct_map_filter: "distinct (map key rows) \<Longrightarrow> distinct (map key (filter P rows))"
  by (induction rows) auto

lemma map_key_map: "(\<And>r. key (g r) = key r) \<Longrightarrow> map key (map g rows) = map key rows"
  by simp

section \<open>Hash maps\<close>

definition hm_insert :: "'k \<Rightarrow> 'v \<Rightarrow> ('k \<times> 'v) list \<Rightarrow> ('k \<times> 'v) list" where
  "hm_insert k v m = filter (\<lambda>(k', _). k' \<noteq> k) m @ [(k, v)]"

definition hm_remove :: "'k \<Rightarrow> ('k \<times> 'v) list \<Rightarrow> ('k \<times> 'v) list" where
  "hm_remove k m = filter (\<lambda>(k', _). k' \<noteq> k) m"

definition hm_retain :: "('k \<Rightarrow> 'v \<Rightarrow> bool) \<Rightarrow> ('k \<times> 'v) list \<Rightarrow> ('k \<times> 'v) list" where
  "hm_retain P m = filter (\<lambda>(k, v). P k v) m"

definition hm_values :: "('k \<times> 'v) list \<Rightarrow> 'v list" where
  "hm_values m = map snd m"

abbreviation hm_contains_key :: "('k \<times> 'v) list \<Rightarrow> 'k \<Rightarrow> bool" where
  "hm_contains_key m k \<equiv> map_of m k \<noteq> None"

definition hm_ok :: "('k \<times> 'v) list \<Rightarrow> bool" where
  "hm_ok m = distinct (map fst m)"

lemma hm_ok_Nil [simp]: "hm_ok []"
  by (simp add: hm_ok_def)

lemma map_of_filter_key: "map_of (filter (\<lambda>(k', _). k' \<noteq> k) m) = (map_of m)(k := None)"
  by (induction m) auto

lemma hm_insert_map_of [table_simps]: "map_of (hm_insert k v m) = (map_of m)(k \<mapsto> v)"
  by (auto simp: hm_insert_def map_of_filter_key map_add_def fun_eq_iff split: option.split)

lemma hm_remove_map_of [table_simps]: "map_of (hm_remove k m) = (map_of m)(k := None)"
  by (simp add: hm_remove_def map_of_filter_key)

lemma hm_ok_filter: "hm_ok m \<Longrightarrow> hm_ok (filter P m)"
  by (simp add: hm_ok_def distinct_map_filter)

lemma hm_ok_insert [simp]: "hm_ok m \<Longrightarrow> hm_ok (hm_insert k v m)"
  using hm_ok_filter [of m "\<lambda>(k', _). k' \<noteq> k"] by (auto simp: hm_insert_def hm_ok_def)

lemma hm_ok_remove [simp]: "hm_ok m \<Longrightarrow> hm_ok (hm_remove k m)"
  by (simp add: hm_remove_def hm_ok_filter)

lemma hm_ok_retain [simp]: "hm_ok m \<Longrightarrow> hm_ok (hm_retain P m)"
  by (simp add: hm_retain_def hm_ok_filter)

lemma hm_retain_map_of [table_simps]:
  "hm_ok m \<Longrightarrow> map_of (hm_retain P m) k =
     Option.bind (map_of m k) (\<lambda>v. if P k v then Some v else None)"
proof (induction m)
  case (Cons e m)
  obtain a b where e: "e = (a, b)"
    by fastforce
  show ?case
  proof (cases "a = k")
    case True
    then have "map_of m k = None"
      using Cons.prems e by (auto simp: hm_ok_def map_of_eq_None_iff)
    then show ?thesis
      using Cons e True by (auto simp: hm_retain_def hm_ok_def)
  next
    case False
    then show ?thesis
      using Cons e by (auto simp: hm_retain_def hm_ok_def)
  qed
qed (simp add: hm_retain_def)

lemma hm_map_values [table_simps]:
  "map_of (map (\<lambda>(k, v). (k, f k v)) m) k = map_option (f k) (map_of m k)"
  by (induction m) auto

lemma hm_values_set: "hm_ok m \<Longrightarrow> set (hm_values m) = {v. \<exists>k. map_of m k = Some v}"
  by (force simp: hm_values_def hm_ok_def image_iff)

section \<open>Orderings\<close>

text \<open>A stable sort in descending order, as \<open>ORDER BY ... DESC\<close> and \<open>sort_by(|a, b| b.cmp(a))\<close>.\<close>

definition sort_desc_by :: "('a \<Rightarrow> 'k :: linorder) \<Rightarrow> 'a list \<Rightarrow> 'a list" where
  "sort_desc_by key xs = rev (sort_key key (rev xs))"

lemma set_sort_desc_by [simp]: "set (sort_desc_by key xs) = set xs"
  by (simp add: sort_desc_by_def)

lemma mset_sort_desc_by [simp]: "mset (sort_desc_by key xs) = mset xs"
  by (simp add: sort_desc_by_def)

lemma sorted_sort_desc_by: "sorted (rev (map key (sort_desc_by key xs)))"
  by (simp add: sort_desc_by_def rev_map)

lemma distinct_sort_desc_by [simp]: "distinct (sort_desc_by key xs) = distinct xs"
  by (simp add: sort_desc_by_def)

lemma sorted_rev_filter: "sorted (rev (map key xs)) \<Longrightarrow> sorted (rev (map key (filter P xs)))"
  by (simp add: rev_map rev_filter sorted_filter flip: filter_map)

lemma distinct_singleton:
  assumes "distinct xs" and "set xs = {x}"
  shows "xs = [x]"
proof (cases xs)
  case (Cons y ys)
  then have "y = x" "x \<notin> set ys" "set ys \<subseteq> {x}"
    using assms by auto
  then have "set ys = {}"
    using subset_singletonD by fastforce
  with Cons \<open>y = x\<close> show ?thesis by simp
qed (use assms in simp)

lemma sort_eq_sorted_list_of_set:
  "distinct xs \<Longrightarrow> sort xs = sorted_list_of_set (set xs)"
  by (simp add: sorted_list_of_set_sort_remdups distinct_remdups_id)

end
