(* ===== verification/Sqlite_Schema.thy ===== *)
theory Sqlite_Schema
  imports Storage_Types Tables
begin

text \<open>
  Opening the registry database (\<open>RusqliteStorage::new\<close> of \<open>panops-portable/src/rusqlite_storage.rs\<close>):
  the DDL of a fresh file, the migration of a version 1 file, and the refusal of other versions. A
  database file is its tables with their columns and rows, its indexes and its \<open>user_version\<close>. SQLite
  commits each statement of \<open>execute_batch\<close> on its own, so a process that dies leaves the file after
  some prefix of the statements: the model counts statements, and \<open>Lost\<close> is death before the next.
\<close>

section \<open>Database files and statements\<close>

type_synonym column = "string \<times> string"

record stored_table =
  tb_columns :: "column list"
  tb_rows :: "string option list list"

record db_file =
  df_version :: u32
  df_tables :: "(string \<times> stored_table) list"
  df_indexes :: "(string \<times> string \<times> string) list"

datatype statement =
    CreateTable string "column list"
  | CreateIndex string string string
  | AddColumn string column
  | SetVersion u32

definition table_columns :: "db_file \<Rightarrow> string \<Rightarrow> string list" where
  "table_columns d t = (case map_of (df_tables d) t of
     None \<Rightarrow> [] | Some tb \<Rightarrow> map fst (tb_columns tb))"

definition column_exists :: "db_file \<Rightarrow> string \<Rightarrow> string \<Rightarrow> bool" where
  "column_exists d t c = (c \<in> set (table_columns d t))"

definition with_column :: "column \<Rightarrow> stored_table \<Rightarrow> stored_table" where
  "with_column c tb = \<lparr>tb_columns = tb_columns tb @ [c], tb_rows = map (\<lambda>r. r @ [None]) (tb_rows tb)\<rparr>"

text \<open>\<open>IF NOT EXISTS\<close> for tables and indexes; \<open>ALTER TABLE ADD COLUMN\<close> fills old rows with null.\<close>

fun exec_statement :: "statement \<Rightarrow> db_file \<Rightarrow> string + db_file" where
  "exec_statement (CreateTable t cs) d =
     (if map_of (df_tables d) t \<noteq> None then Inr d
      else Inr (d\<lparr>df_tables := df_tables d @ [(t, \<lparr>tb_columns = cs, tb_rows = []\<rparr>)]\<rparr>))"
| "exec_statement (CreateIndex i t c) d =
     (if map_of (df_tables d) t = None then Inl (''no such table: '' @ t)
      else if map_of (df_indexes d) i \<noteq> None then Inr d
      else if \<not> column_exists d t c then Inl (''no such column: '' @ c)
      else Inr (d\<lparr>df_indexes := df_indexes d @ [(i, t, c)]\<rparr>))"
| "exec_statement (AddColumn t c) d =
     (if map_of (df_tables d) t = None then Inl (''no such table: '' @ t)
      else if column_exists d t (fst c) then Inl (''duplicate column name: '' @ fst c)
      else Inr (d\<lparr>df_tables := map (\<lambda>(n, tb). (n, if n = t then with_column c tb else tb)) (df_tables d)\<rparr>))"
| "exec_statement (SetVersion v) d = Inr (d\<lparr>df_version := v\<rparr>)"

section \<open>Runs that may be cut off\<close>

datatype 'a outcome = Returned "'a storage_result" | Lost

type_synonym opener = "nat \<times> db_file"

definition execute :: "statement \<Rightarrow> opener \<Rightarrow> unit outcome \<times> opener" where
  "execute st x =
     (case x of (budget, d) \<Rightarrow>
        if budget = 0 then (Lost, x)
        else case exec_statement st d of
               Inl m \<Rightarrow> (Returned (Inl (StSql m)), (budget - 1, d))
             | Inr d' \<Rightarrow> (Returned (Inr ()), (budget - 1, d')))"

fun execute_batch :: "statement list \<Rightarrow> opener \<Rightarrow> unit outcome \<times> opener" where
  "execute_batch [] x = (Returned (Inr ()), x)"
| "execute_batch (st # sts) x =
     (case execute st x of
        (Returned (Inr _), x') \<Rightarrow> execute_batch sts x'
      | r \<Rightarrow> r)"

section \<open>The statements of the source\<close>

definition expected_schema_version :: u32 where
  "expected_schema_version = 2"

definition space_column :: column where
  "space_column = (''space_id'', ''TEXT REFERENCES space(id) ON DELETE SET NULL'')"

definition project_column :: column where
  "project_column = (''project_id'', ''TEXT REFERENCES project(id) ON DELETE SET NULL'')"

definition sql_quote :: "string \<Rightarrow> string" where
  "sql_quote s = [CHR 0x27] @ s @ [CHR 0x27]"

definition v1_meeting_columns :: "column list" where
  "v1_meeting_columns =
     [(''id'', ''TEXT PRIMARY KEY NOT NULL''), (''title'', ''TEXT NOT NULL DEFAULT '' @ sql_quote []),
      (''started_at'', ''TEXT NOT NULL''), (''ended_at'', ''TEXT''), (''duration_ms'', ''INTEGER''),
      (''language'', ''TEXT NOT NULL DEFAULT '' @ sql_quote ''auto''), (''dir_path'', ''TEXT NOT NULL UNIQUE'')]"

definition note_columns :: "column list" where
  "note_columns =
     [(''id'', ''TEXT PRIMARY KEY NOT NULL''),
      (''meeting_id'', ''TEXT NOT NULL REFERENCES meeting(id) ON DELETE CASCADE''),
      (''dialect'', ''TEXT NOT NULL''), (''content_md'', ''TEXT NOT NULL''),
      (''primary_path'', ''TEXT NOT NULL''), (''created_at'', ''TEXT NOT NULL'')]"

definition migrate_v1_to_v2_sql :: "statement list" where
  "migrate_v1_to_v2_sql =
     [CreateTable ''space''
        [(''id'', ''TEXT PRIMARY KEY''), (''name'', ''TEXT NOT NULL''),
         (''position'', ''INTEGER NOT NULL DEFAULT 0''), (''created_at'', ''TEXT NOT NULL'')],
      CreateTable ''project''
        [(''id'', ''TEXT PRIMARY KEY''),
         (''space_id'', ''TEXT NOT NULL REFERENCES space(id) ON DELETE CASCADE''),
         (''name'', ''TEXT NOT NULL''), (''position'', ''INTEGER NOT NULL DEFAULT 0''),
         (''created_at'', ''TEXT NOT NULL'')],
      CreateTable ''tag''
        [(''id'', ''TEXT PRIMARY KEY''), (''name'', ''TEXT NOT NULL UNIQUE''),
         (''created_at'', ''TEXT NOT NULL'')],
      CreateTable ''meeting_tag''
        [(''meeting_id'', ''TEXT NOT NULL REFERENCES meeting(id) ON DELETE CASCADE''),
         (''tag_id'', ''TEXT NOT NULL REFERENCES tag(id) ON DELETE CASCADE'')]]"

definition ddl :: "statement list" where
  "ddl =
     [CreateTable ''meeting'' (v1_meeting_columns @ [space_column, project_column]),
      CreateIndex ''idx_meeting_started_at'' ''meeting'' ''started_at'',
      CreateTable ''note'' note_columns,
      CreateIndex ''idx_note_meeting_id'' ''note'' ''meeting_id''] @ migrate_v1_to_v2_sql"

definition add_missing_column :: "string \<Rightarrow> column \<Rightarrow> opener \<Rightarrow> unit outcome \<times> opener" where
  "add_missing_column t c x =
     (if \<not> column_exists (snd x) t (fst c) then execute (AddColumn t c) x
      else (Returned (Inr ()), x))"

definition migrate_v1_to_v2 :: "opener \<Rightarrow> unit outcome \<times> opener" where
  "migrate_v1_to_v2 x =
     (case execute_batch migrate_v1_to_v2_sql x of
        (Returned (Inr _), x) \<Rightarrow>
          (case add_missing_column ''meeting'' space_column x of
             (Returned (Inr _), x) \<Rightarrow> add_missing_column ''meeting'' project_column x
           | r \<Rightarrow> r)
      | r \<Rightarrow> r)"

definition open_storage :: "opener \<Rightarrow> unit outcome \<times> opener" where
  "open_storage x =
     (let actual = df_version (snd x)
      in if actual = 0 then
           (case execute_batch ddl x of
              (Returned (Inr _), x) \<Rightarrow> execute (SetVersion expected_schema_version) x
            | r \<Rightarrow> r)
         else if actual = 1 then
           (case migrate_v1_to_v2 x of
              (Returned (Inr _), x) \<Rightarrow> execute (SetVersion expected_schema_version) x
            | r \<Rightarrow> r)
         else if actual \<noteq> expected_schema_version then
           (Returned (Inl (StSchemaMismatch actual expected_schema_version)), x)
         else (Returned (Inr ()), x))"

section \<open>Plans\<close>

text \<open>
  What an open does, without the crashes: a list of statements, where an \<open>AddColumn\<close> whose column is
  there is skipped.
\<close>

fun is_done :: "statement \<Rightarrow> db_file \<Rightarrow> bool" where
  "is_done (CreateTable t cs) d = (t \<in> fst ` set (df_tables d))"
| "is_done (CreateIndex i t c) d = (t \<in> fst ` set (df_tables d) \<and> i \<in> fst ` set (df_indexes d))"
| "is_done (AddColumn t c) d = column_exists d t (fst c)"
| "is_done (SetVersion v) d = False"

fun structural :: "statement \<Rightarrow> bool" where
  "structural (SetVersion v) = False"
| "structural st = True"

definition advance :: "statement \<Rightarrow> db_file \<Rightarrow> string + db_file" where
  "advance st d = (if is_done st d then Inr d else exec_statement st d)"

fun advance_all :: "statement list \<Rightarrow> db_file \<Rightarrow> string + db_file" where
  "advance_all [] d = Inr d"
| "advance_all (st # sts) d =
     (case advance st d of Inl m \<Rightarrow> Inl m | Inr d' \<Rightarrow> advance_all sts d')"

definition plan :: "u32 \<Rightarrow> statement list" where
  "plan v = (if v = 0 then ddl
     else migrate_v1_to_v2_sql @
       [AddColumn ''meeting'' space_column, AddColumn ''meeting'' project_column])"

lemma advance_all_append:
  "advance_all (xs @ ys) d =
     (case advance_all xs d of Inl m \<Rightarrow> Inl m | Inr d' \<Rightarrow> advance_all ys d')"
  by (induction xs arbitrary: d) (simp_all split: sum.split)

lemma map_of_add_column:
  "map_of (map (\<lambda>(n, tb). (n, if n = t then with_column c tb else tb)) ts) k =
     map_option (\<lambda>tb. if k = t then with_column c tb else tb) (map_of ts k)"
  by (rule hm_map_values)

lemma map_of_snoc:
  "map_of (xs @ [(k, v)]) j =
     (case map_of xs j of None \<Rightarrow> if j = k then Some v else None | Some w \<Rightarrow> Some w)"
  by (auto simp: map_add_def split: option.split)

definition has_column :: "stored_table \<Rightarrow> string \<Rightarrow> bool" where
  "has_column tb c = (c \<in> set (map fst (tb_columns tb)))"

lemma has_with_column: "has_column (with_column c tb) x = (has_column tb x \<or> x = fst c)"
  by (auto simp: has_column_def with_column_def)

lemma column_exists_iff:
  "column_exists d t c \<longleftrightarrow> (\<exists>tb. map_of (df_tables d) t = Some tb \<and> has_column tb c)"
  by (cases "map_of (df_tables d) t") (simp_all add: column_exists_def table_columns_def has_column_def)

text \<open>The names of tables and indexes, and the columns, after a statement that succeeds.\<close>

lemma keys_with_column:
  "fst ` set (map (\<lambda>(n, tb). (n, if n = t then with_column c tb else tb)) ts) = fst ` set ts"
  by force

lemma advance_tables:
  assumes "advance st d = Inr d'"
  shows "fst ` set (df_tables d') = fst ` set (df_tables d) \<union>
    (case st of CreateTable t cs \<Rightarrow> {t} | _ \<Rightarrow> {})"
proof (cases st)
  case (AddColumn t c)
  then have "df_tables d' = df_tables d \<or>
      df_tables d' = map (\<lambda>(n, tb). (n, if n = t then with_column c tb else tb)) (df_tables d)"
    using assms by (auto simp: advance_def split: if_splits)
  then show ?thesis
    using AddColumn by (elim disjE) (simp_all only: keys_with_column statement.case Un_empty_right)
qed (use assms in \<open>auto simp: advance_def map_of_eq_None_iff split: if_splits\<close>)

lemma advance_indexes:
  assumes "advance st d = Inr d'"
  shows "fst ` set (df_indexes d') = fst ` set (df_indexes d) \<union>
    (case st of CreateIndex i t c \<Rightarrow> {i} | _ \<Rightarrow> {})"
  by (cases st) (use assms in \<open>auto simp: advance_def map_of_eq_None_iff split: if_splits\<close>)

lemma advance_columns:
  assumes "advance st d = Inr d'" and "column_exists d t c"
  shows "column_exists d' t c"
  using assms
  by (cases st)
    (simp_all add: advance_def column_exists_iff map_of_add_column map_of_snoc has_with_column
      del: map_of_append split: if_splits option.splits,
      auto simp: map_of_add_column has_with_column)

lemma advance_is_done:
  assumes "advance st d = Inr d'" and "structural st"
  shows "is_done st d'"
proof (cases st)
  case (CreateIndex i t c)
  then have "t \<in> fst ` set (df_tables d)"
    using assms(1) by (auto simp: advance_def map_of_eq_None_iff split: if_splits)
  then show ?thesis
    using advance_tables [OF assms(1)] advance_indexes [OF assms(1)] CreateIndex by simp
next
  case (AddColumn t c)
  then show ?thesis
    using assms(1)
    by (auto simp: advance_def column_exists_iff map_of_add_column has_with_column split: if_splits)
qed (use assms advance_tables [OF assms(1)] in simp_all)

lemma is_done_stable:
  assumes "advance st' d = Inr d'" and "is_done st d"
  shows "is_done st d'"
  using assms(2) advance_tables [OF assms(1)] advance_indexes [OF assms(1)]
    advance_columns [OF assms(1)]
  by (cases st) simp_all

lemma advance_version: "advance st d = Inr d' \<Longrightarrow> structural st \<Longrightarrow> df_version d' = df_version d"
  by (cases st) (auto simp: advance_def split: if_splits)

lemma advance_all_done_stable: "advance_all sts d = Inr d' \<Longrightarrow> is_done st d \<Longrightarrow> is_done st d'"
  by (induction sts arbitrary: d) (auto split: sum.splits dest: is_done_stable)

lemma advance_all_version:
  "advance_all sts d = Inr d' \<Longrightarrow> list_all structural sts \<Longrightarrow> df_version d' = df_version d"
  by (induction sts arbitrary: d) (fastforce split: sum.splits dest: advance_version)+

lemma advance_all_done: "\<forall>st \<in> set sts. is_done st d \<Longrightarrow> advance_all sts d = Inr d"
  by (induction sts) (simp_all add: advance_def)

lemma advance_all_all_done:
  "advance_all sts d = Inr d' \<Longrightarrow> list_all structural sts \<Longrightarrow> \<forall>st \<in> set sts. is_done st d'"
  by (induction sts arbitrary: d)
    (auto split: sum.splits dest: advance_is_done advance_all_done_stable)

text \<open>Starting a plan again after a part of it was done gives what the whole plan gives.\<close>

lemma advance_all_again:
  assumes "advance_all ps d = Inr d1" and "list_all structural ps"
  shows "advance_all (ps @ qs) d1 = advance_all (ps @ qs) d"
  using assms advance_all_done [OF advance_all_all_done [OF assms]]
  by (simp add: advance_all_append)

section \<open>Cut-off runs\<close>

text \<open>A run of a plan stops after some of its statements, or does them all.\<close>

definition cut_run :: "statement list \<Rightarrow> db_file \<Rightarrow> nat \<Rightarrow> unit outcome \<times> opener \<Rightarrow> bool" where
  "cut_run sts d k r \<longleftrightarrow>
     (\<exists>ps qs d1. sts = ps @ qs \<and> advance_all ps d = Inr d1 \<and> r = (Lost, (0, d1)) \<and> k < length sts) \<or>
     (\<exists>d2 k'. advance_all sts d = Inr d2 \<and> r = (Returned (Inr ()), (k', d2)) \<and> k \<le> k' + length sts)"

lemma cut_run_append:
  assumes "cut_run xs d k r"
    and "\<And>k' d2. advance_all xs d = Inr d2 \<Longrightarrow> cut_run ys d2 k' (g (k', d2))"
  shows "cut_run (xs @ ys) d k (case r of (Returned (Inr _), x) \<Rightarrow> g x | r \<Rightarrow> r)"
  using assms(1) unfolding cut_run_def [of xs d k r]
proof (elim disjE exE conjE)
  fix ps qs d1
  assume "xs = ps @ qs" "advance_all ps d = Inr d1" "r = (Lost, 0, d1)" "k < length xs"
  then show ?thesis
    unfolding cut_run_def by (intro disjI1 exI [of _ ps] exI [of _ "qs @ ys"]) auto
next
  fix d2 k'
  assume r: "advance_all xs d = Inr d2" "r = (Returned (Inr ()), k', d2)" "k \<le> k' + length xs"
  have "cut_run ys d2 k' (g (k', d2))"
    by (rule assms(2) [OF r(1)])
  then show ?thesis
    unfolding cut_run_def [of ys]
  proof (elim disjE exE conjE)
    fix ps qs d1
    assume g: "ys = ps @ qs" "advance_all ps d2 = Inr d1" "g (k', d2) = (Lost, 0, d1)" "k' < length ys"
    then have "advance_all (xs @ ps) d = Inr d1"
      using r(1) by (simp add: advance_all_append)
    with r g show ?thesis
      unfolding cut_run_def by (intro disjI1 exI [of _ "xs @ ps"] exI [of _ qs]) auto
  next
    fix d3 k''
    assume "advance_all ys d2 = Inr d3" "g (k', d2) = (Returned (Inr ()), k'', d3)" "k' \<le> k'' + length ys"
    with r show ?thesis
      unfolding cut_run_def by (intro disjI2) (simp add: advance_all_append)
  qed
qed

lemma execute_cut_run:
  assumes "advance_all [st] d = Inr d2" and "is_done st d \<Longrightarrow> exec_statement st d = Inr d"
  shows "cut_run [st] d k (execute st (k, d))"
proof -
  have e: "exec_statement st d = Inr d2"
    using assms by (auto simp: advance_def split: if_splits sum.splits)
  show ?thesis
  proof (cases "k = 0")
    case True
    then show ?thesis
      unfolding cut_run_def
      by (intro disjI1 exI [of _ "[]"] exI [of _ "[st]"]) (simp add: execute_def)
  next
    case False
    then show ?thesis
      using assms(1) e unfolding cut_run_def by (intro disjI2) (auto simp: execute_def)
  qed
qed

lemma cut_run_Nil: "cut_run [] d k (Returned (Inr ()), (k, d))"
  by (simp add: cut_run_def)

lemma execute_batch_cut_run:
  assumes "advance_all sts d = Inr d2" and "\<And>st d. st \<in> set sts \<Longrightarrow> is_done st d \<Longrightarrow> exec_statement st d = Inr d"
  shows "cut_run sts d k (execute_batch sts (k, d))"
  using assms
proof (induction sts arbitrary: d k)
  case (Cons st sts)
  obtain d1 where d1: "advance st d = Inr d1" "advance_all sts d1 = Inr d2"
    using Cons.prems(1) by (auto split: sum.splits)
  have "cut_run ([st] @ sts) d k
      (case execute st (k, d) of (Returned (Inr _), x) \<Rightarrow> execute_batch sts x | r \<Rightarrow> r)"
  proof (rule cut_run_append)
    show "cut_run [st] d k (execute st (k, d))"
      using d1(1) Cons.prems(2) by (intro execute_cut_run) auto
    show "cut_run sts d3 k' (execute_batch sts (k', d3))" if "advance_all [st] d = Inr d3" for k' d3
      using that d1 Cons.prems(2) by (intro Cons.IH) (auto simp: Cons.prems)
  qed
  then show ?case by simp
qed (simp add: cut_run_Nil)

lemma add_missing_cut_run:
  assumes "advance_all [AddColumn t c] d = Inr d2"
  shows "cut_run [AddColumn t c] d k (add_missing_column t c (k, d))"
proof (cases "column_exists d t (fst c)")
  case True
  then show ?thesis
    unfolding cut_run_def by (intro disjI2) (simp add: add_missing_column_def advance_def)
next
  case False
  then have "cut_run [AddColumn t c] d k (execute (AddColumn t c) (k, d))"
    using assms by (intro execute_cut_run) auto
  with False show ?thesis
    by (simp add: add_missing_column_def)
qed

section \<open>Opening\<close>

lemma plan_structural: "list_all structural (plan v)"
  by (simp add: plan_def ddl_def migrate_v1_to_v2_sql_def)

lemma done_again:
  "st \<in> set ddl \<union> set migrate_v1_to_v2_sql \<Longrightarrow> is_done st d \<Longrightarrow> exec_statement st d = Inr d"
  by (auto simp: ddl_def migrate_v1_to_v2_sql_def map_of_eq_None_iff)

lemma set_version_cut_run:
  "cut_run [SetVersion v] d k (execute (SetVersion v) (k, d))"
  by (rule execute_cut_run) (simp_all add: advance_def)

lemma cut_run_then_version:
  assumes "cut_run sts d k r"
  shows "cut_run (sts @ [SetVersion v]) d k
    (case r of (Returned (Inr _), x) \<Rightarrow> execute (SetVersion v) x | r \<Rightarrow> r)"
  using assms by (rule cut_run_append) (rule set_version_cut_run)

lemma migrate_cut_run:
  assumes "advance_all (plan 1) d = Inr d2"
  shows "cut_run (plan 1) d k (migrate_v1_to_v2 (k, d))"
proof -
  obtain d1 d3 where batch: "advance_all migrate_v1_to_v2_sql d = Inr d1"
    and space: "advance_all [AddColumn ''meeting'' space_column] d1 = Inr d3"
    and project: "advance_all [AddColumn ''meeting'' project_column] d3 = Inr d2"
    using assms by (auto simp: plan_def advance_all_append split: sum.splits)
  have columns: "cut_run ([AddColumn ''meeting'' space_column] @ [AddColumn ''meeting'' project_column]) d1 k'
      (case add_missing_column ''meeting'' space_column (k', d1) of
         (Returned (Inr _), x) \<Rightarrow> add_missing_column ''meeting'' project_column x | r \<Rightarrow> r)" for k'
    by (rule cut_run_append [OF add_missing_cut_run [OF space]])
      (use space project add_missing_cut_run in auto)
  have "cut_run (migrate_v1_to_v2_sql @
      ([AddColumn ''meeting'' space_column] @ [AddColumn ''meeting'' project_column])) d k
      (migrate_v1_to_v2 (k, d))"
    unfolding migrate_v1_to_v2_def
    by (rule cut_run_append [OF execute_batch_cut_run [OF batch]])
      (use batch columns done_again in auto)
  then show ?thesis
    by (simp add: plan_def)
qed

lemma open_cut_run:
  assumes "df_version d = v" and "v \<in> {0, 1}" and "advance_all (plan v) d = Inr d2"
  shows "cut_run (plan v @ [SetVersion expected_schema_version]) d k (open_storage (k, d))"
proof (cases "v = 0")
  case True
  then have "cut_run (plan v) d k (execute_batch ddl (k, d))"
    using assms(3) done_again execute_batch_cut_run [of ddl d d2 k] by (simp add: plan_def)
  from cut_run_then_version [OF this] show ?thesis
    using True assms(1) by (simp add: open_storage_def)
next
  case False
  then have v: "v = 1"
    using assms(2) by simp
  have "cut_run (plan v) d k (migrate_v1_to_v2 (k, d))"
    using migrate_cut_run assms(3) unfolding v .
  from cut_run_then_version [OF this] show ?thesis
    using v assms(1) by (simp add: open_storage_def)
qed

text \<open>The file that opens leave when the process dies, at a budget of statements for each.\<close>

definition interrupted :: "nat list \<Rightarrow> db_file \<Rightarrow> db_file" where
  "interrupted ks d = fold (\<lambda>k d. snd (snd (open_storage (k, d)))) ks d"

text \<open>What is true of the file between opens: the rest of the plan leads to the same file, or it is done.\<close>

definition under_way :: "u32 \<Rightarrow> db_file \<Rightarrow> db_file \<Rightarrow> bool" where
  "under_way v d2 d \<longleftrightarrow>
     (df_version d = v \<and> advance_all (plan v) d = Inr d2) \<or>
     d = d2\<lparr>df_version := expected_schema_version\<rparr>"

lemma plan_then_version:
  "advance_all (plan v) d = Inr d2 \<Longrightarrow>
     advance_all (plan v @ [SetVersion w]) d = Inr (d2\<lparr>df_version := w\<rparr>)"
  by (simp add: advance_all_append advance_def)

lemma open_current: "df_version d = expected_schema_version \<Longrightarrow> open_storage (k, d) = (Returned (Inr ()), (k, d))"
  by (simp add: open_storage_def expected_schema_version_def)

lemma under_way_step:
  assumes "under_way v d2 d" and "v \<in> {0, 1}"
  shows "under_way v d2 (snd (snd (open_storage (k, d))))"
proof (cases "d = d2\<lparr>df_version := expected_schema_version\<rparr>")
  case True
  then show ?thesis
    using open_current [of d k] by (simp add: under_way_def)
next
  case False
  then have d: "df_version d = v" "advance_all (plan v) d = Inr d2"
    using assms(1) by (simp_all add: under_way_def)
  from open_cut_run [OF d(1) assms(2) d(2), of k] show ?thesis
    unfolding cut_run_def
  proof (elim disjE exE conjE)
    fix ps qs d1
    assume cut: "plan v @ [SetVersion expected_schema_version] = ps @ qs"
      "advance_all ps d = Inr d1" "open_storage (k, d) = (Lost, 0, d1)"
    show ?thesis
    proof (cases "qs = []")
      case True
      then have "d1 = d2\<lparr>df_version := expected_schema_version\<rparr>"
        using cut plan_then_version [OF d(2), of expected_schema_version] by simp
      then show ?thesis
        using cut(3) by (simp add: under_way_def)
    next
      case False
      then obtain qs' where p: "plan v = ps @ qs'"
        using cut(1) by (cases qs rule: rev_cases) auto
      then have "list_all structural ps"
        using plan_structural [of v] by simp
      then have "advance_all (plan v) d1 = Inr d2" "df_version d1 = v"
        using advance_all_again [OF cut(2)] advance_all_version [OF cut(2)] d p by simp_all
      then show ?thesis
        using cut(3) by (simp add: under_way_def)
    qed
  next
    fix d3 k'
    assume "advance_all (plan v @ [SetVersion expected_schema_version]) d = Inr d3"
      "open_storage (k, d) = (Returned (Inr ()), k', d3)"
    then show ?thesis
      using plan_then_version [OF d(2), of expected_schema_version] by (simp add: under_way_def)
  qed
qed

lemma interrupted_under_way: "under_way v d2 d \<Longrightarrow> v \<in> {0, 1} \<Longrightarrow> under_way v d2 (interrupted ks d)"
  unfolding interrupted_def by (induction ks arbitrary: d) (simp_all add: under_way_step)

lemma under_way_open:
  assumes "under_way v d2 d" and "v \<in> {0, 1}" and "length (plan v) < n"
  shows "\<exists>m. open_storage (n, d) = (Returned (Inr ()), (m, d2\<lparr>df_version := expected_schema_version\<rparr>))"
proof (cases "d = d2\<lparr>df_version := expected_schema_version\<rparr>")
  case True
  then show ?thesis
    using open_current [of d n] by simp
next
  case False
  then have d: "df_version d = v" "advance_all (plan v) d = Inr d2"
    using assms(1) by (simp_all add: under_way_def)
  from open_cut_run [OF d(1) assms(2) d(2), of n] assms(3) show ?thesis
    using plan_then_version [OF d(2), of expected_schema_version] unfolding cut_run_def by auto
qed

section \<open>Properties\<close>

definition fresh_file :: db_file where
  "fresh_file = \<lparr>df_version = 0, df_tables = [], df_indexes = []\<rparr>"

definition registry_indexes :: "(string \<times> string \<times> string) list" where
  "registry_indexes = [(''idx_meeting_started_at'', ''meeting'', ''started_at''),
     (''idx_note_meeting_id'', ''note'', ''meeting_id'')]"

text \<open>A version 1 file, and a current one, with their meeting and note rows.\<close>

definition v1_file :: "string option list list \<Rightarrow> string option list list \<Rightarrow> db_file" where
  "v1_file meetings nts = \<lparr>df_version = 1,
     df_tables = [(''meeting'', \<lparr>tb_columns = v1_meeting_columns, tb_rows = meetings\<rparr>),
                  (''note'', \<lparr>tb_columns = note_columns, tb_rows = nts\<rparr>)],
     df_indexes = registry_indexes\<rparr>"

definition current_file :: "string option list list \<Rightarrow> string option list list \<Rightarrow> db_file" where
  "current_file meetings nts = \<lparr>df_version = 2,
     df_tables = [(''meeting'', \<lparr>tb_columns = v1_meeting_columns @ [space_column, project_column],
                                  tb_rows = meetings\<rparr>),
                  (''note'', \<lparr>tb_columns = note_columns, tb_rows = nts\<rparr>)] @
       concat (map (\<lambda>st. case st of CreateTable t cs \<Rightarrow> [(t, \<lparr>tb_columns = cs, tb_rows = []\<rparr>)] | _ \<Rightarrow> [])
         migrate_v1_to_v2_sql),
     df_indexes = registry_indexes\<rparr>"

lemmas statement_lists = plan_def ddl_def migrate_v1_to_v2_sql_def

lemma fresh_plan:
  "advance_all (plan 0) fresh_file = Inr ((current_file [] [])\<lparr>df_version := 0\<rparr>)"
  by (simp add: statement_lists fresh_file_def current_file_def registry_indexes_def advance_def
      column_exists_def table_columns_def v1_meeting_columns_def note_columns_def)

lemma v1_plan:
  "advance_all (plan 1) (v1_file ms ns) =
     Inr ((current_file (map (\<lambda>r. r @ [None, None]) ms) ns)\<lparr>df_version := 1\<rparr>)"
  by (simp add: statement_lists v1_file_def current_file_def registry_indexes_def advance_def
      column_exists_def table_columns_def v1_meeting_columns_def note_columns_def space_column_def
      project_column_def with_column_def comp_def)

lemma plan_length: "length (plan v) < 9"
  by (simp add: statement_lists)

text \<open>C12: Opening the registry is safe against crashes and loses nothing: however often the process
  dies during opens, after whatever statement, the next open that is left to run brings a fresh file
  to the current schema, and a version 1 file to the same schema with all its meetings and notes,
  the meetings with two null columns more. A current file is left alone, a newer one is refused
  untouched.\<close>

theorem open_storage_crash_safe:
  assumes "9 \<le> n"
  shows "(\<exists>m. open_storage (n, interrupted ks fresh_file) = (Returned (Inr ()), (m, current_file [] []))) \<and>
    (\<exists>m. open_storage (n, interrupted ks (v1_file ms ns)) =
       (Returned (Inr ()), (m, current_file (map (\<lambda>r. r @ [None, None]) ms) ns))) \<and>
    open_storage (k, current_file ms ns) = (Returned (Inr ()), (k, current_file ms ns)) \<and>
    (\<forall>d. 2 < df_version d \<longrightarrow>
       open_storage (k, d) = (Returned (Inl (StSchemaMismatch (df_version d) 2)), (k, d)))"
proof (intro conjI)
  have n: "length (plan v) < n" for v
    using plan_length [of v] assms by linarith
  have version: "(current_file a b)\<lparr>df_version := w\<rparr>\<lparr>df_version := expected_schema_version\<rparr> =
      current_file a b" for a b w
    by (simp add: current_file_def expected_schema_version_def)
  have "under_way 0 ((current_file [] [])\<lparr>df_version := 0\<rparr>) fresh_file"
    using fresh_plan by (simp add: under_way_def fresh_file_def)
  from under_way_open [OF interrupted_under_way [OF this] _ n] show
    "\<exists>m. open_storage (n, interrupted ks fresh_file) = (Returned (Inr ()), (m, current_file [] []))"
    by (simp only: version insert_iff simp_thms)
  have "under_way 1 ((current_file (map (\<lambda>r. r @ [None, None]) ms) ns)\<lparr>df_version := 1\<rparr>) (v1_file ms ns)"
    using v1_plan by (simp add: under_way_def v1_file_def)
  from under_way_open [OF interrupted_under_way [OF this] _ n] show
    "\<exists>m. open_storage (n, interrupted ks (v1_file ms ns)) =
       (Returned (Inr ()), (m, current_file (map (\<lambda>r. r @ [None, None]) ms) ns))"
    by (simp only: version insert_iff simp_thms)
  show "open_storage (k, current_file ms ns) = (Returned (Inr ()), (k, current_file ms ns))"
    by (rule open_current) (simp add: current_file_def expected_schema_version_def)
  show "\<forall>d. 2 < df_version d \<longrightarrow>
      open_storage (k, d) = (Returned (Inl (StSchemaMismatch (df_version d) 2)), (k, d))"
    by (simp add: open_storage_def expected_schema_version_def)
qed

theorem open_storage_crash_safe_witness:
  "\<exists>m. open_storage (9, interrupted [3, 5] (v1_file [[Some ''m1'']] [])) =
     (Returned (Inr ()), (m, current_file [[Some ''m1'', None, None]] []))"
  using open_storage_crash_safe [of 9 "[3, 5]" "[[Some ''m1'']]" "[]" 0] by simp

end
