(* ===== verification/Memory_Storage.thy ===== *)
theory Memory_Storage
  imports Storage_Types Tables
begin

text \<open>
  \<open>InMemoryStorage\<close> of \<open>panops-core/src/conformance/fakes.rs\<close>: the \<open>Storage\<close> port on hash maps. A
  hash map is an association list whose order is the iteration order; the identifier counters are
  unbounded numbers (the \<open>u64\<close> counters of a test fake cannot be exhausted).
\<close>

record mem =
  mem_meetings :: "(string \<times> meeting) list"
  mem_notes :: "(string \<times> meeting_note) list"
  mem_spaces :: "(string \<times> space) list"
  mem_projects :: "(string \<times> project) list"
  mem_tags :: "(string \<times> tag) list"
  mem_meeting_tags :: "(string \<times> string list) list"
  mem_meeting_spaces :: "(string \<times> string) list"
  mem_meeting_projects :: "(string \<times> string) list"
  mem_next_space_id :: nat
  mem_next_project_id :: nat
  mem_next_tag_id :: nat

definition new_mem :: mem where
  "new_mem = \<lparr>mem_meetings = [], mem_notes = [], mem_spaces = [], mem_projects = [], mem_tags = [],
     mem_meeting_tags = [], mem_meeting_spaces = [], mem_meeting_projects = [],
     mem_next_space_id = 1, mem_next_project_id = 1, mem_next_tag_id = 1\<rparr>"

section \<open>Meetings\<close>

definition mem_create_meeting :: "meeting_draft \<Rightarrow> mem \<Rightarrow> meeting storage_result \<times> mem" where
  "mem_create_meeting d s =
     (if hm_contains_key (mem_meetings s) (md_id d)
      then (Inl (StAlreadyExists (md_id d) ''meeting''), s)
      else if \<exists>m \<in> set (hm_values (mem_meetings s)). mt_dir_path m = md_dir_path d
      then (Inl (StUniqueConflict ''meeting'' ''dir_path'' (md_dir_path d)), s)
      else (let m = meeting_of_draft d None None
            in (Inr m, s\<lparr>mem_meetings := hm_insert (md_id d) m (mem_meetings s)\<rparr>)))"

definition mem_create_meeting_with_note ::
  "clock \<Rightarrow> meeting_draft \<Rightarrow> note_draft \<Rightarrow> string option \<Rightarrow> u64 option \<Rightarrow> mem
   \<Rightarrow> (meeting \<times> meeting_note) storage_result \<times> mem" where
  "mem_create_meeting_with_note now d n ended_at duration_ms s =
     (if hm_contains_key (mem_meetings s) (md_id d)
      then (Inl (StAlreadyExists (md_id d) ''meeting''), s)
      else if \<exists>m \<in> set (hm_values (mem_meetings s)). mt_dir_path m = md_dir_path d
      then (Inl (StUniqueConflict ''meeting'' ''dir_path'' (md_dir_path d)), s)
      else if nd_meeting_id n \<noteq> md_id d
      then (Inl (StSql ''create_meeting_with_note: note.meeting_id must match meeting.id''), s)
      else if hm_contains_key (mem_notes s) (nd_id n)
      then (Inl (StAlreadyExists (nd_id n) ''note''), s)
      else (let m = meeting_of_draft d ended_at duration_ms;
                nt = note_of_draft n (ck_rfc3339 now)
            in (Inr (m, nt), s\<lparr>mem_meetings := hm_insert (md_id d) m (mem_meetings s),
                               mem_notes := hm_insert (nd_id n) nt (mem_notes s)\<rparr>)))"

definition mem_get_meeting :: "string \<Rightarrow> mem \<Rightarrow> meeting storage_result \<times> mem" where
  "mem_get_meeting i s =
     (case map_of (mem_meetings s) i of
        None \<Rightarrow> (Inl (not_found ''meeting'' i), s)
      | Some m \<Rightarrow> (Inr m, s))"

definition mem_keeps :: "meeting_list_filter \<Rightarrow> mem \<Rightarrow> meeting \<Rightarrow> bool" where
  "mem_keeps f s m =
     (if mf_unsorted f \<and> hm_contains_key (mem_meeting_spaces s) (mt_id m) then False
      else if mf_space_id f \<noteq> None \<and> map_of (mem_meeting_spaces s) (mt_id m) \<noteq> mf_space_id f
      then False
      else if mf_project_id f \<noteq> None \<and> map_of (mem_meeting_projects s) (mt_id m) \<noteq> mf_project_id f
      then False
      else case mf_tag_id f of
             None \<Rightarrow> True
           | Some t \<Rightarrow> (case map_of (mem_meeting_tags s) (mt_id m) of
                          None \<Rightarrow> False | Some tags \<Rightarrow> t \<in> set tags))"

definition mem_summary :: "mem \<Rightarrow> meeting \<Rightarrow> meeting_summary" where
  "mem_summary s m =
     \<lparr>ms_id = mt_id m, ms_title = mt_title m, ms_started_at = mt_started_at m,
      ms_ended_at = mt_ended_at m,
      ms_duration_ms = (case mt_duration_ms m of None \<Rightarrow> 0 | Some d \<Rightarrow> d),
      ms_language = mt_language m,
      ms_has_notes = (\<exists>n \<in> set (hm_values (mem_notes s)). nt_meeting_id n = mt_id m),
      ms_space_id = map_of (mem_meeting_spaces s) (mt_id m),
      ms_project_id = map_of (mem_meeting_projects s) (mt_id m),
      ms_tags = (case map_of (mem_meeting_tags s) (mt_id m) of None \<Rightarrow> [] | Some tags \<Rightarrow> tags)\<rparr>"

definition mem_list_meetings_filtered ::
  "meeting_list_filter \<Rightarrow> mem \<Rightarrow> meeting_summary list storage_result \<times> mem" where
  "mem_list_meetings_filtered f s =
     (Inr (sort_desc_by ms_started_at
        (map (mem_summary s) (filter (mem_keeps f s) (hm_values (mem_meetings s))))), s)"

definition mem_list_meetings :: "mem \<Rightarrow> meeting_summary list storage_result \<times> mem" where
  "mem_list_meetings s = mem_list_meetings_filtered default_filter s"

definition mem_modify_meeting ::
  "string \<Rightarrow> (meeting \<Rightarrow> meeting) \<Rightarrow> mem \<Rightarrow> meeting storage_result \<times> mem" where
  "mem_modify_meeting i f s =
     (case map_of (mem_meetings s) i of
        None \<Rightarrow> (Inl (not_found ''meeting'' i), s)
      | Some m \<Rightarrow>
          (Inr (f m),
           s\<lparr>mem_meetings := map (\<lambda>(k, v). (k, if k = i then f m else v)) (mem_meetings s)\<rparr>))"

definition mem_update_meeting_ended ::
  "string \<Rightarrow> string \<Rightarrow> u64 \<Rightarrow> mem \<Rightarrow> meeting storage_result \<times> mem" where
  "mem_update_meeting_ended i ended_at duration_ms s =
     mem_modify_meeting i
       (\<lambda>m. m\<lparr>mt_ended_at := Some ended_at, mt_duration_ms := Some duration_ms\<rparr>) s"

definition mem_rename_meeting :: "string \<Rightarrow> string \<Rightarrow> mem \<Rightarrow> meeting storage_result \<times> mem" where
  "mem_rename_meeting i title s = mem_modify_meeting i (\<lambda>m. m\<lparr>mt_title := title\<rparr>) s"

definition mem_delete_meeting :: "string \<Rightarrow> mem \<Rightarrow> unit storage_result \<times> mem" where
  "mem_delete_meeting i s =
     (if map_of (mem_meetings s) i = None then (Inl (not_found ''meeting'' i), s)
      else (Inr (), s\<lparr>mem_meetings := hm_remove i (mem_meetings s),
                      mem_notes := hm_retain (\<lambda>_ n. nt_meeting_id n \<noteq> i) (mem_notes s),
                      mem_meeting_tags := hm_remove i (mem_meeting_tags s),
                      mem_meeting_spaces := hm_remove i (mem_meeting_spaces s),
                      mem_meeting_projects := hm_remove i (mem_meeting_projects s)\<rparr>))"

section \<open>Notes\<close>

definition mem_create_note :: "clock \<Rightarrow> note_draft \<Rightarrow> mem \<Rightarrow> meeting_note storage_result \<times> mem" where
  "mem_create_note now d s =
     (if \<not> hm_contains_key (mem_meetings s) (nd_meeting_id d)
      then (Inl (not_found ''meeting'' (nd_meeting_id d)), s)
      else if hm_contains_key (mem_notes s) (nd_id d)
      then (Inl (StAlreadyExists (nd_id d) ''note''), s)
      else (let n = note_of_draft d (ck_rfc3339 now)
            in (Inr n, s\<lparr>mem_notes := hm_insert (nd_id d) n (mem_notes s)\<rparr>)))"

definition mem_list_notes_for_meeting :: "string \<Rightarrow> mem \<Rightarrow> meeting_note list storage_result \<times> mem" where
  "mem_list_notes_for_meeting i s =
     (Inr (filter (\<lambda>n. nt_meeting_id n = i) (hm_values (mem_notes s))), s)"

definition mem_replace_meeting_note ::
  "clock \<Rightarrow> string \<Rightarrow> note_draft \<Rightarrow> mem \<Rightarrow> meeting_note storage_result \<times> mem" where
  "mem_replace_meeting_note now i d s =
     (if nd_meeting_id d \<noteq> i
      then (Inl (StSql ''replace_meeting_note: draft.meeting_id must match meeting_id''), s)
      else if \<not> hm_contains_key (mem_meetings s) i then (Inl (not_found ''meeting'' i), s)
      else if \<exists>n. map_of (mem_notes s) (nd_id d) = Some n \<and> nt_meeting_id n \<noteq> i
      then (Inl (StAlreadyExists (nd_id d) ''note''), s)
      else (let n = note_of_draft d (ck_rfc3339 now)
            in (Inr n, s\<lparr>mem_notes := hm_insert (nd_id d) n
                  (hm_retain (\<lambda>_ n. nt_meeting_id n \<noteq> i) (mem_notes s))\<rparr>)))"

section \<open>Spaces and projects\<close>

definition mem_create_space :: "string \<Rightarrow> mem \<Rightarrow> space storage_result \<times> mem" where
  "mem_create_space name s =
     (let i = ''space_'' @ dec (mem_next_space_id s);
          sp = \<lparr>sp_id = i, sp_name = name,
                sp_position = position_after (map sp_position (hm_values (mem_spaces s)))\<rparr>
      in (Inr sp, s\<lparr>mem_next_space_id := mem_next_space_id s + 1,
                    mem_spaces := hm_insert i sp (mem_spaces s)\<rparr>))"

definition mem_list_spaces :: "mem \<Rightarrow> space list storage_result \<times> mem" where
  "mem_list_spaces s =
     (Inr (sort_key (\<lambda>x. (sp_position x, sp_name x)) (hm_values (mem_spaces s))), s)"

definition mem_rename_space :: "string \<Rightarrow> string \<Rightarrow> mem \<Rightarrow> unit storage_result \<times> mem" where
  "mem_rename_space i name s =
     (if map_of (mem_spaces s) i = None then (Inl (not_found ''space'' i), s)
      else (Inr (), s\<lparr>mem_spaces := map (\<lambda>(k, v). (k, if k = i then v\<lparr>sp_name := name\<rparr> else v))
                        (mem_spaces s)\<rparr>))"

text \<open>Both routines collect the keys first and then remove them one by one.\<close>

definition clear_assignments :: "string \<Rightarrow> (string \<times> string) list \<Rightarrow> (string \<times> string) list" where
  "clear_assignments target m =
     fold hm_remove (map fst (filter (\<lambda>(k, v). v = target) m)) m"

definition clear_project_assignments :: "string \<Rightarrow> mem \<Rightarrow> mem" where
  "clear_project_assignments i s =
     s\<lparr>mem_meeting_projects := clear_assignments i (mem_meeting_projects s)\<rparr>"

definition clear_space_assignments :: "string \<Rightarrow> mem \<Rightarrow> mem" where
  "clear_space_assignments i s =
     s\<lparr>mem_meeting_spaces := clear_assignments i (mem_meeting_spaces s)\<rparr>"

definition remove_project :: "string \<Rightarrow> mem \<Rightarrow> mem" where
  "remove_project i s =
     clear_project_assignments i (s\<lparr>mem_projects := hm_remove i (mem_projects s)\<rparr>)"

definition mem_delete_space :: "string \<Rightarrow> mem \<Rightarrow> unit storage_result \<times> mem" where
  "mem_delete_space i s =
     (if map_of (mem_spaces s) i = None then (Inl (not_found ''space'' i), s)
      else (let s = s\<lparr>mem_spaces := hm_remove i (mem_spaces s)\<rparr>;
                project_ids = map pj_id (filter (\<lambda>p. pj_space_id p = i) (hm_values (mem_projects s)));
                s = fold remove_project project_ids s
            in (Inr (), clear_space_assignments i s)))"

definition mem_create_project :: "string \<Rightarrow> string \<Rightarrow> mem \<Rightarrow> project storage_result \<times> mem" where
  "mem_create_project space_id name s =
     (if \<not> hm_contains_key (mem_spaces s) space_id then (Inl (not_found ''space'' space_id), s)
      else (let i = ''project_'' @ dec (mem_next_project_id s);
                p = \<lparr>pj_id = i, pj_space_id = space_id, pj_name = name,
                     pj_position = position_after (map pj_position
                       (filter (\<lambda>p. pj_space_id p = space_id) (hm_values (mem_projects s))))\<rparr>
            in (Inr p, s\<lparr>mem_next_project_id := mem_next_project_id s + 1,
                         mem_projects := hm_insert i p (mem_projects s)\<rparr>)))"

definition mem_list_projects :: "string option \<Rightarrow> mem \<Rightarrow> project list storage_result \<times> mem" where
  "mem_list_projects space_id s =
     (Inr (sort_key (\<lambda>p. (pj_space_id p, pj_position p, pj_name p))
        (filter (\<lambda>p. case space_id of None \<Rightarrow> True | Some i \<Rightarrow> pj_space_id p = i)
          (hm_values (mem_projects s)))), s)"

definition mem_rename_project :: "string \<Rightarrow> string \<Rightarrow> mem \<Rightarrow> unit storage_result \<times> mem" where
  "mem_rename_project i name s =
     (if map_of (mem_projects s) i = None then (Inl (not_found ''project'' i), s)
      else (Inr (), s\<lparr>mem_projects := map (\<lambda>(k, v). (k, if k = i then v\<lparr>pj_name := name\<rparr> else v))
                        (mem_projects s)\<rparr>))"

definition mem_delete_project :: "string \<Rightarrow> mem \<Rightarrow> unit storage_result \<times> mem" where
  "mem_delete_project i s =
     (if map_of (mem_projects s) i = None then (Inl (not_found ''project'' i), s)
      else (Inr (), remove_project i s))"

section \<open>Tags\<close>

definition mem_create_tag :: "string \<Rightarrow> mem \<Rightarrow> tag storage_result \<times> mem" where
  "mem_create_tag name s =
     (case List.find (\<lambda>t. tg_name t = name) (hm_values (mem_tags s)) of
        Some existing \<Rightarrow> (Inr existing, s)
      | None \<Rightarrow>
          (let i = ''tag_'' @ dec (mem_next_tag_id s);
               t = \<lparr>tg_id = i, tg_name = name\<rparr>
           in (Inr t, s\<lparr>mem_next_tag_id := mem_next_tag_id s + 1,
                        mem_tags := hm_insert i t (mem_tags s)\<rparr>)))"

definition mem_list_tags :: "mem \<Rightarrow> tag list storage_result \<times> mem" where
  "mem_list_tags s = (Inr (sort_key (\<lambda>t. (tg_name t, tg_id t)) (hm_values (mem_tags s))), s)"

definition mem_delete_tag :: "string \<Rightarrow> mem \<Rightarrow> unit storage_result \<times> mem" where
  "mem_delete_tag i s =
     (if map_of (mem_tags s) i = None then (Inl (not_found ''tag'' i), s)
      else (Inr (), s\<lparr>mem_tags := hm_remove i (mem_tags s),
                      mem_meeting_tags := map (\<lambda>(m, ts). (m, filter (\<lambda>t. t \<noteq> i) ts))
                        (mem_meeting_tags s)\<rparr>))"

definition ensure_meeting_exists :: "mem \<Rightarrow> string \<Rightarrow> unit storage_result" where
  "ensure_meeting_exists s i =
     (if hm_contains_key (mem_meetings s) i then Inr () else Inl (not_found ''meeting'' i))"

definition ensure_tag_exists :: "mem \<Rightarrow> string \<Rightarrow> unit storage_result" where
  "ensure_tag_exists s i =
     (if hm_contains_key (mem_tags s) i then Inr () else Inl (not_found ''tag'' i))"

definition mem_tag_meeting :: "string \<Rightarrow> string \<Rightarrow> mem \<Rightarrow> unit storage_result \<times> mem" where
  "mem_tag_meeting m t s =
     (case ensure_meeting_exists s m of
        Inl e \<Rightarrow> (Inl e, s)
      | Inr _ \<Rightarrow>
          (case ensure_tag_exists s t of
             Inl e \<Rightarrow> (Inl e, s)
           | Inr _ \<Rightarrow>
               (let tags = (case map_of (mem_meeting_tags s) m of None \<Rightarrow> [] | Some ts \<Rightarrow> ts);
                    tags = (if t \<in> set tags then tags else sort (tags @ [t]))
                in (Inr (), s\<lparr>mem_meeting_tags := hm_insert m tags (mem_meeting_tags s)\<rparr>))))"

definition mem_untag_meeting :: "string \<Rightarrow> string \<Rightarrow> mem \<Rightarrow> unit storage_result \<times> mem" where
  "mem_untag_meeting m t s =
     (case ensure_meeting_exists s m of
        Inl e \<Rightarrow> (Inl e, s)
      | Inr _ \<Rightarrow>
          (case ensure_tag_exists s t of
             Inl e \<Rightarrow> (Inl e, s)
           | Inr _ \<Rightarrow>
               (Inr (), s\<lparr>mem_meeting_tags :=
                  map (\<lambda>(k, ts). (k, if k = m then filter (\<lambda>u. u \<noteq> t) ts else ts))
                    (mem_meeting_tags s)\<rparr>)))"

definition mem_list_tags_for_meeting :: "string \<Rightarrow> mem \<Rightarrow> tag list storage_result \<times> mem" where
  "mem_list_tags_for_meeting i s =
     (case ensure_meeting_exists s i of
        Inl e \<Rightarrow> (Inl e, s)
      | Inr _ \<Rightarrow>
          (let ids = (case map_of (mem_meeting_tags s) i of None \<Rightarrow> [] | Some ts \<Rightarrow> ts)
           in (Inr (sort_key (\<lambda>t. (tg_name t, tg_id t))
                 (List.map_filter (map_of (mem_tags s)) ids)), s)))"

section \<open>Assignment\<close>

definition set_entry :: "string \<Rightarrow> string option \<Rightarrow> (string \<times> string) list \<Rightarrow> (string \<times> string) list"
where
  "set_entry k v m = (case v of Some i \<Rightarrow> hm_insert k i m | None \<Rightarrow> hm_remove k m)"

definition set_assignment :: "string \<Rightarrow> string option \<Rightarrow> string option \<Rightarrow> mem \<Rightarrow> mem" where
  "set_assignment i space_id project_id s =
     s\<lparr>mem_meeting_spaces := set_entry i space_id (mem_meeting_spaces s),
       mem_meeting_projects := set_entry i project_id (mem_meeting_projects s)\<rparr>"

definition mem_assign_meeting ::
  "string \<Rightarrow> string option \<Rightarrow> string option \<Rightarrow> mem \<Rightarrow> unit storage_result \<times> mem" where
  "mem_assign_meeting i space_id project_id s =
     (case ensure_meeting_exists s i of
        Inl e \<Rightarrow> (Inl e, s)
      | Inr _ \<Rightarrow>
          (case project_id of
             Some pid \<Rightarrow>
               (case map_of (mem_projects s) pid of
                  None \<Rightarrow> (Inl (not_found ''project'' pid), s)
                | Some p \<Rightarrow> (Inr (), set_assignment i (Some (pj_space_id p)) (Some (pj_id p)) s))
           | None \<Rightarrow>
               if \<exists>sp. space_id = Some sp \<and> \<not> hm_contains_key (mem_spaces s) sp
               then (Inl (not_found ''space'' (the space_id)), s)
               else (Inr (), set_assignment i space_id None s)))"

section \<open>The trait\<close>

fun mem_exec :: "storage_call \<Rightarrow> mem \<Rightarrow> storage_reply \<times> mem" where
  "mem_exec (CreateMeeting d) s = reply RMeeting (mem_create_meeting d s)"
| "mem_exec (GetMeeting i) s = reply RMeeting (mem_get_meeting i s)"
| "mem_exec ListMeetings s = reply RSummaries (mem_list_meetings s)"
| "mem_exec (ListMeetingsFiltered f) s = reply RSummaries (mem_list_meetings_filtered f s)"
| "mem_exec (UpdateMeetingEnded i e n) s = reply RMeeting (mem_update_meeting_ended i e n s)"
| "mem_exec (RenameMeeting i t) s = reply RMeeting (mem_rename_meeting i t s)"
| "mem_exec (DeleteMeeting i) s = reply (\<lambda>_. RUnit) (mem_delete_meeting i s)"
| "mem_exec (CreateNote now d) s = reply RNote (mem_create_note now d s)"
| "mem_exec (ListNotesForMeeting i) s = reply RNotes (mem_list_notes_for_meeting i s)"
| "mem_exec (ReplaceMeetingNote now i d) s = reply RNote (mem_replace_meeting_note now i d s)"
| "mem_exec (CreateSpace now n) s = reply RSpace (mem_create_space n s)"
| "mem_exec ListSpaces s = reply RSpaces (mem_list_spaces s)"
| "mem_exec (RenameSpace i n) s = reply (\<lambda>_. RUnit) (mem_rename_space i n s)"
| "mem_exec (DeleteSpace i) s = reply (\<lambda>_. RUnit) (mem_delete_space i s)"
| "mem_exec (CreateProject now sp n) s = reply RProject (mem_create_project sp n s)"
| "mem_exec (ListProjects sp) s = reply RProjects (mem_list_projects sp s)"
| "mem_exec (RenameProject i n) s = reply (\<lambda>_. RUnit) (mem_rename_project i n s)"
| "mem_exec (DeleteProject i) s = reply (\<lambda>_. RUnit) (mem_delete_project i s)"
| "mem_exec (CreateTag now n) s = reply RTag (mem_create_tag n s)"
| "mem_exec ListTags s = reply RTags (mem_list_tags s)"
| "mem_exec (DeleteTag i) s = reply (\<lambda>_. RUnit) (mem_delete_tag i s)"
| "mem_exec (TagMeeting m t) s = reply (\<lambda>_. RUnit) (mem_tag_meeting m t s)"
| "mem_exec (UntagMeeting m t) s = reply (\<lambda>_. RUnit) (mem_untag_meeting m t s)"
| "mem_exec (ListTagsForMeeting i) s = reply RTags (mem_list_tags_for_meeting i s)"
| "mem_exec (AssignMeeting i sp p) s = reply (\<lambda>_. RUnit) (mem_assign_meeting i sp p s)"
| "mem_exec (CreateMeetingWithNote now d n e dur) s =
     reply (\<lambda>(m, n). RMeetingNote m n) (mem_create_meeting_with_note now d n e dur s)"

end
