(* ===== verification/Sqlite_Storage.thy ===== *)
theory Sqlite_Storage
  imports Storage_Types Tables
begin

text \<open>
  \<open>panops-portable/src/rusqlite_storage.rs\<close>: the \<open>Storage\<close> port on one SQLite database. A table is
  the list of its rows in insertion order; each SQL statement of the source is a definition over the
  tables, with the constraints and the cascades that its DDL declares. \<open>dir_first\<close> says which of two
  violated uniqueness constraints SQLite reports, which it leaves open. A failing statement leaves
  the database unchanged, and so does a transaction that is not committed. Failures of the database
  file itself (I/O, a poisoned mutex) are not modelled.
\<close>

section \<open>Tables\<close>

record meeting_row =
  mr_id :: string
  mr_title :: string
  mr_started_at :: string
  mr_ended_at :: "string option"
  mr_duration_ms :: "int option"
  mr_language :: string
  mr_dir_path :: string
  mr_space_id :: "string option"
  mr_project_id :: "string option"

record space_row =
  sr_space :: space
  sr_created_at :: string

record project_row =
  pr_project :: project
  pr_created_at :: string

record tag_row =
  gr_tag :: tag
  gr_created_at :: string

record db =
  db_meetings :: "meeting_row list"
  db_notes :: "meeting_note list"
  db_spaces :: "space_row list"
  db_projects :: "project_row list"
  db_tags :: "tag_row list"
  db_meeting_tags :: "(string \<times> string) list"
  db_id_counter :: u64

text \<open>A fresh database: every table of the DDL empty, and the process-wide id counter at 1.\<close>

definition fresh_db :: db where
  "fresh_db = \<lparr>db_meetings = [], db_notes = [], db_spaces = [], db_projects = [], db_tags = [],
     db_meeting_tags = [], db_id_counter = 1\<rparr>"

section \<open>Numbers and identifiers\<close>

definition i64_of_u64 :: "u64 \<Rightarrow> int" where
  "i64_of_u64 v = (if v < 2 ^ 63 then int v else int v - 2 ^ 64)"

definition u64_of_i64_clamped :: "int \<Rightarrow> u64" where
  "u64_of_i64_clamped v = (if v < 0 then 0 else nat v)"

lemma i64_round_trip [simp]: "v < 2 ^ 63 \<Longrightarrow> u64_of_i64_clamped (i64_of_u64 v) = v"
  by (simp add: i64_of_u64_def u64_of_i64_clamped_def)

definition hex_digit :: "nat \<Rightarrow> char" where
  "hex_digit d = (if d < 10 then char_of (48 + d) else char_of (87 + d))"

fun hex :: "nat \<Rightarrow> string" where
  "hex n = (if n < 16 then [hex_digit n] else hex (n div 16) @ [hex_digit (n mod 16)])"

declare hex.simps [simp del]

definition new_id :: "string \<Rightarrow> clock \<Rightarrow> db \<Rightarrow> string \<times> db" where
  "new_id kind now s =
     (let n = db_id_counter s
      in (kind @ ''_'' @ hex (ck_nanos now) @ ''_'' @ hex n,
          s\<lparr>db_id_counter := u64_add n 1\<rparr>))"

definition unique_failed :: "string \<Rightarrow> storage_error" where
  "unique_failed column = StSql (''UNIQUE constraint failed: '' @ column)"

section \<open>Rows\<close>

definition map_meeting_row :: "meeting_row \<Rightarrow> meeting" where
  "map_meeting_row r =
     \<lparr>mt_id = mr_id r, mt_title = mr_title r, mt_started_at = mr_started_at r,
      mt_ended_at = mr_ended_at r,
      mt_duration_ms = map_option u64_of_i64_clamped (mr_duration_ms r),
      mt_language = mr_language r, mt_dir_path = mr_dir_path r\<rparr>"

definition row_of_draft :: "meeting_draft \<Rightarrow> string option \<Rightarrow> u64 option \<Rightarrow> meeting_row" where
  "row_of_draft d ended_at duration_ms =
     \<lparr>mr_id = md_id d, mr_title = md_title d, mr_started_at = md_started_at d,
      mr_ended_at = ended_at, mr_duration_ms = map_option i64_of_u64 duration_ms,
      mr_language = md_language d, mr_dir_path = md_dir_path d,
      mr_space_id = None, mr_project_id = None\<rparr>"

abbreviation space_key :: "space_row \<Rightarrow> string" where
  "space_key r \<equiv> sp_id (sr_space r)"

abbreviation project_key :: "project_row \<Rightarrow> string" where
  "project_key r \<equiv> pj_id (pr_project r)"

abbreviation tag_key :: "tag_row \<Rightarrow> string" where
  "tag_key r \<equiv> tg_id (gr_tag r)"

abbreviation get_row :: "db \<Rightarrow> string \<Rightarrow> meeting_row option" where
  "get_row s \<equiv> lookup mr_id (db_meetings s)"

definition ensure_row_exists :: "('r \<Rightarrow> string) \<Rightarrow> 'r list \<Rightarrow> string \<Rightarrow> string \<Rightarrow> unit storage_result"
where
  "ensure_row_exists key rows kind i =
     (if lookup key rows i \<noteq> None then Inr () else Inl (not_found kind i))"

section \<open>Meetings\<close>

text \<open>\<open>INSERT INTO meeting\<close>: the primary key and the uniqueness of \<open>dir_path\<close>.\<close>

definition insert_meeting :: "bool \<Rightarrow> meeting_row \<Rightarrow> db \<Rightarrow> storage_error + db" where
  "insert_meeting dir_first r s =
     (let id_clash = (get_row s (mr_id r) \<noteq> None);
          dir_clash = (mr_dir_path r \<in> mr_dir_path ` set (db_meetings s));
          id_error = StAlreadyExists (mr_id r) ''meeting'';
          dir_error = StUniqueConflict ''meeting'' ''dir_path'' (mr_dir_path r)
      in if id_clash \<and> dir_clash then Inl (if dir_first then dir_error else id_error)
         else if id_clash then Inl id_error
         else if dir_clash then Inl dir_error
         else Inr (s\<lparr>db_meetings := db_meetings s @ [r]\<rparr>))"

definition create_meeting :: "bool \<Rightarrow> meeting_draft \<Rightarrow> db \<Rightarrow> meeting storage_result \<times> db" where
  "create_meeting dir_first d s =
     (case insert_meeting dir_first (row_of_draft d None None) s of
        Inl e \<Rightarrow> (Inl e, s)
      | Inr s' \<Rightarrow> (Inr (meeting_of_draft d None None), s'))"

definition insert_note :: "meeting_note \<Rightarrow> db \<Rightarrow> storage_error + db" where
  "insert_note n s =
     (if lookup nt_id (db_notes s) (nt_id n) \<noteq> None
      then Inl (StAlreadyExists (nt_id n) ''note'')
      else Inr (s\<lparr>db_notes := db_notes s @ [n]\<rparr>))"

definition create_meeting_with_note ::
  "bool \<Rightarrow> clock \<Rightarrow> meeting_draft \<Rightarrow> note_draft \<Rightarrow> string option \<Rightarrow> u64 option \<Rightarrow> db
   \<Rightarrow> (meeting \<times> meeting_note) storage_result \<times> db" where
  "create_meeting_with_note dir_first now d n ended_at duration_ms s =
     (if nd_meeting_id n \<noteq> md_id d
      then (Inl (StSql ''create_meeting_with_note: note.meeting_id must match meeting.id''), s)
      else case insert_meeting dir_first (row_of_draft d ended_at duration_ms) s of
             Inl e \<Rightarrow> (Inl e, s)
           | Inr tx \<Rightarrow>
               (case insert_note (note_of_draft n (ck_rfc3339 now)) tx of
                  Inl e \<Rightarrow> (Inl e, s)
                | Inr tx \<Rightarrow> (Inr (meeting_of_draft d ended_at duration_ms,
                                   note_of_draft n (ck_rfc3339 now)), tx)))"

definition get_meeting :: "string \<Rightarrow> db \<Rightarrow> meeting storage_result \<times> db" where
  "get_meeting i s =
     (case get_row s i of
        None \<Rightarrow> (Inl (not_found ''meeting'' i), s)
      | Some r \<Rightarrow> (Inr (map_meeting_row r), s))"

definition tag_ids_for_meeting :: "db \<Rightarrow> string \<Rightarrow> string list" where
  "tag_ids_for_meeting s i = sort (map snd (filter (\<lambda>(m, t). m = i) (db_meeting_tags s)))"

definition summary_of_row :: "db \<Rightarrow> meeting_row \<Rightarrow> meeting_summary" where
  "summary_of_row s r =
     \<lparr>ms_id = mr_id r, ms_title = mr_title r, ms_started_at = mr_started_at r,
      ms_ended_at = mr_ended_at r,
      ms_duration_ms = (case mr_duration_ms r of None \<Rightarrow> 0 | Some v \<Rightarrow> nat (max v 0)),
      ms_language = mr_language r,
      ms_has_notes = (\<exists>n \<in> set (db_notes s). nt_meeting_id n = mr_id r),
      ms_space_id = mr_space_id r, ms_project_id = mr_project_id r,
      ms_tags = tag_ids_for_meeting s (mr_id r)\<rparr>"

definition keep_summary :: "meeting_list_filter \<Rightarrow> meeting_summary \<Rightarrow> bool" where
  "keep_summary f m =
     (if mf_unsorted f \<and> ms_space_id m \<noteq> None then False
      else if mf_space_id f \<noteq> None \<and> ms_space_id m \<noteq> mf_space_id f then False
      else if mf_project_id f \<noteq> None \<and> ms_project_id m \<noteq> mf_project_id f then False
      else case mf_tag_id f of None \<Rightarrow> True | Some t \<Rightarrow> t \<in> set (ms_tags m))"

definition list_meetings_filtered ::
  "meeting_list_filter \<Rightarrow> db \<Rightarrow> meeting_summary list storage_result \<times> db" where
  "list_meetings_filtered f s =
     (Inr (filter (keep_summary f)
        (map (summary_of_row s) (sort_desc_by mr_started_at (db_meetings s)))), s)"

definition list_meetings :: "db \<Rightarrow> meeting_summary list storage_result \<times> db" where
  "list_meetings s = list_meetings_filtered default_filter s"

text \<open>\<open>UPDATE meeting SET ... WHERE id = ?\<close>, with the number of rows it changed.\<close>

definition update_meeting :: "string \<Rightarrow> (meeting_row \<Rightarrow> meeting_row) \<Rightarrow> db \<Rightarrow> nat \<times> db" where
  "update_meeting i g s =
     (length (filter (\<lambda>r. mr_id r = i) (db_meetings s)),
      s\<lparr>db_meetings := map (\<lambda>r. if mr_id r = i then g r else r) (db_meetings s)\<rparr>)"

definition update_meeting_ended ::
  "string \<Rightarrow> string \<Rightarrow> u64 \<Rightarrow> db \<Rightarrow> meeting storage_result \<times> db" where
  "update_meeting_ended i ended_at duration_ms s =
     (case update_meeting i (\<lambda>r. r\<lparr>mr_ended_at := Some ended_at,
                                   mr_duration_ms := Some (i64_of_u64 duration_ms)\<rparr>) s of
        (n, s') \<Rightarrow> if n = 0 then (Inl (not_found ''meeting'' i), s') else get_meeting i s')"

definition rename_meeting :: "string \<Rightarrow> string \<Rightarrow> db \<Rightarrow> meeting storage_result \<times> db" where
  "rename_meeting i title s =
     (case update_meeting i (\<lambda>r. r\<lparr>mr_title := title\<rparr>) s of
        (n, s') \<Rightarrow> if n = 0 then (Inl (not_found ''meeting'' i), s') else get_meeting i s')"

text \<open>\<open>DELETE FROM meeting\<close> cascades to notes and to \<open>meeting_tag\<close>.\<close>

definition delete_meeting :: "string \<Rightarrow> db \<Rightarrow> unit storage_result \<times> db" where
  "delete_meeting i s =
     (let n = length (filter (\<lambda>r. mr_id r = i) (db_meetings s));
          s' = (if n = 0 then s
                else s\<lparr>db_meetings := filter (\<lambda>r. mr_id r \<noteq> i) (db_meetings s),
                       db_notes := filter (\<lambda>n. nt_meeting_id n \<noteq> i) (db_notes s),
                       db_meeting_tags := filter (\<lambda>(m, t). m \<noteq> i) (db_meeting_tags s)\<rparr>)
      in if n = 0 then (Inl (not_found ''meeting'' i), s') else (Inr (), s'))"

section \<open>Notes\<close>

definition create_note :: "clock \<Rightarrow> note_draft \<Rightarrow> db \<Rightarrow> meeting_note storage_result \<times> db" where
  "create_note now d s =
     (if get_row s (nd_meeting_id d) = None then (Inl (not_found ''meeting'' (nd_meeting_id d)), s)
      else case insert_note (note_of_draft d (ck_rfc3339 now)) s of
             Inl e \<Rightarrow> (Inl e, s)
           | Inr s' \<Rightarrow> (Inr (note_of_draft d (ck_rfc3339 now)), s'))"

definition list_notes_for_meeting :: "string \<Rightarrow> db \<Rightarrow> meeting_note list storage_result \<times> db" where
  "list_notes_for_meeting i s =
     (Inr (sort_key nt_created_at (filter (\<lambda>n. nt_meeting_id n = i) (db_notes s))), s)"

definition replace_meeting_note ::
  "clock \<Rightarrow> string \<Rightarrow> note_draft \<Rightarrow> db \<Rightarrow> meeting_note storage_result \<times> db" where
  "replace_meeting_note now i d s =
     (if nd_meeting_id d \<noteq> i
      then (Inl (StSql ''replace_meeting_note: draft.meeting_id must match meeting_id''), s)
      else if get_row s i = None then (Inl (not_found ''meeting'' i), s)
      else (let tx = s\<lparr>db_notes := filter (\<lambda>n. nt_meeting_id n \<noteq> i) (db_notes s)\<rparr>
            in case insert_note (note_of_draft d (ck_rfc3339 now)) tx of
                 Inl e \<Rightarrow> (Inl e, s)
               | Inr tx \<Rightarrow> (Inr (note_of_draft d (ck_rfc3339 now)), tx)))"

section \<open>Spaces and projects\<close>

definition create_space :: "clock \<Rightarrow> string \<Rightarrow> db \<Rightarrow> space storage_result \<times> db" where
  "create_space now name s =
     (let (i, s) = new_id ''space'' now s;
          position = position_after (map (\<lambda>r. sp_position (sr_space r)) (db_spaces s));
          sp = \<lparr>sp_id = i, sp_name = name, sp_position = position\<rparr>
      in if lookup space_key (db_spaces s) i \<noteq> None then (Inl (unique_failed ''space.id''), s)
         else (Inr sp, s\<lparr>db_spaces := db_spaces s @
                 [\<lparr>sr_space = sp, sr_created_at = ck_rfc3339 now\<rparr>]\<rparr>))"

definition list_spaces :: "db \<Rightarrow> space list storage_result \<times> db" where
  "list_spaces s =
     (Inr (sort_key (\<lambda>x. (sp_position x, sp_name x)) (map sr_space (db_spaces s))), s)"

definition rename_space :: "string \<Rightarrow> string \<Rightarrow> db \<Rightarrow> unit storage_result \<times> db" where
  "rename_space i name s =
     (let n = length (filter (\<lambda>r. space_key r = i) (db_spaces s));
          s' = s\<lparr>db_spaces := map (\<lambda>r. if space_key r = i
                   then r\<lparr>sr_space := (sr_space r)\<lparr>sp_name := name\<rparr>\<rparr> else r) (db_spaces s)\<rparr>
      in if n = 0 then (Inl (not_found ''space'' i), s') else (Inr (), s'))"

text \<open>
  \<open>DELETE FROM project\<close> sets \<open>meeting.project_id\<close> to null; \<open>DELETE FROM space\<close> cascades to the
  projects of the space and sets \<open>meeting.space_id\<close> to null.
\<close>

definition drop_projects :: "(project_row \<Rightarrow> bool) \<Rightarrow> db \<Rightarrow> db" where
  "drop_projects P s =
     (let gone = map project_key (filter P (db_projects s))
      in s\<lparr>db_projects := filter (\<lambda>r. \<not> P r) (db_projects s),
           db_meetings := map (\<lambda>r. case mr_project_id r of
               None \<Rightarrow> r
             | Some p \<Rightarrow> if p \<in> set gone then r\<lparr>mr_project_id := None\<rparr> else r) (db_meetings s)\<rparr>)"

definition drop_space :: "string \<Rightarrow> db \<Rightarrow> db" where
  "drop_space i s =
     (let s = drop_projects (\<lambda>r. pj_space_id (pr_project r) = i)
                (s\<lparr>db_spaces := filter (\<lambda>r. space_key r \<noteq> i) (db_spaces s)\<rparr>)
      in s\<lparr>db_meetings := map (\<lambda>r. if mr_space_id r = Some i then r\<lparr>mr_space_id := None\<rparr> else r)
             (db_meetings s)\<rparr>)"

definition delete_space :: "string \<Rightarrow> db \<Rightarrow> unit storage_result \<times> db" where
  "delete_space i s =
     (if lookup space_key (db_spaces s) i = None then (Inl (not_found ''space'' i), s)
      else (Inr (), drop_space i s))"

definition create_project :: "clock \<Rightarrow> string \<Rightarrow> string \<Rightarrow> db \<Rightarrow> project storage_result \<times> db" where
  "create_project now space_id name s =
     (case ensure_row_exists space_key (db_spaces s) ''space'' space_id of
        Inl e \<Rightarrow> (Inl e, s)
      | Inr _ \<Rightarrow>
          (let (i, s) = new_id ''project'' now s;
               position = position_after (map (\<lambda>r. pj_position (pr_project r))
                 (filter (\<lambda>r. pj_space_id (pr_project r) = space_id) (db_projects s)));
               pj = \<lparr>pj_id = i, pj_space_id = space_id, pj_name = name, pj_position = position\<rparr>
           in if lookup project_key (db_projects s) i \<noteq> None
              then (Inl (unique_failed ''project.id''), s)
              else (Inr pj, s\<lparr>db_projects := db_projects s @
                      [\<lparr>pr_project = pj, pr_created_at = ck_rfc3339 now\<rparr>]\<rparr>)))"

definition list_projects :: "string option \<Rightarrow> db \<Rightarrow> project list storage_result \<times> db" where
  "list_projects space_id s =
     (case space_id of
        Some i \<Rightarrow>
          (Inr (sort_key (\<lambda>p. (pj_position p, pj_name p))
             (filter (\<lambda>p. pj_space_id p = i) (map pr_project (db_projects s)))), s)
      | None \<Rightarrow>
          (Inr (sort_key (\<lambda>p. (pj_space_id p, pj_position p, pj_name p))
             (map pr_project (db_projects s))), s))"

definition rename_project :: "string \<Rightarrow> string \<Rightarrow> db \<Rightarrow> unit storage_result \<times> db" where
  "rename_project i name s =
     (let n = length (filter (\<lambda>r. project_key r = i) (db_projects s));
          s' = s\<lparr>db_projects := map (\<lambda>r. if project_key r = i
                   then r\<lparr>pr_project := (pr_project r)\<lparr>pj_name := name\<rparr>\<rparr> else r) (db_projects s)\<rparr>
      in if n = 0 then (Inl (not_found ''project'' i), s') else (Inr (), s'))"

definition delete_project :: "string \<Rightarrow> db \<Rightarrow> unit storage_result \<times> db" where
  "delete_project i s =
     (if lookup project_key (db_projects s) i = None then (Inl (not_found ''project'' i), s)
      else (Inr (), drop_projects (\<lambda>r. project_key r = i) s))"

section \<open>Tags\<close>

definition get_tag_by_name :: "db \<Rightarrow> string \<Rightarrow> tag option" where
  "get_tag_by_name s name = List.find (\<lambda>t. tg_name t = name) (map gr_tag (db_tags s))"

definition create_tag :: "clock \<Rightarrow> string \<Rightarrow> db \<Rightarrow> tag storage_result \<times> db" where
  "create_tag now name s =
     (case get_tag_by_name s name of
        Some t \<Rightarrow> (Inr t, s)
      | None \<Rightarrow>
          (let (i, s) = new_id ''tag'' now s;
               t = \<lparr>tg_id = i, tg_name = name\<rparr>
           in if lookup tag_key (db_tags s) i \<noteq> None then (Inl (unique_failed ''tag.id''), s)
              else (Inr t, s\<lparr>db_tags := db_tags s @
                      [\<lparr>gr_tag = t, gr_created_at = ck_rfc3339 now\<rparr>]\<rparr>)))"

definition list_tags :: "db \<Rightarrow> tag list storage_result \<times> db" where
  "list_tags s = (Inr (sort_key (\<lambda>t. (tg_name t, tg_id t)) (map gr_tag (db_tags s))), s)"

definition delete_tag :: "string \<Rightarrow> db \<Rightarrow> unit storage_result \<times> db" where
  "delete_tag i s =
     (if lookup tag_key (db_tags s) i = None then (Inl (not_found ''tag'' i), s)
      else (Inr (), s\<lparr>db_tags := filter (\<lambda>r. tag_key r \<noteq> i) (db_tags s),
                      db_meeting_tags := filter (\<lambda>(m, t). t \<noteq> i) (db_meeting_tags s)\<rparr>))"

definition with_meeting_and_tag ::
  "string \<Rightarrow> string \<Rightarrow> db \<Rightarrow> (db \<Rightarrow> db) \<Rightarrow> unit storage_result \<times> db" where
  "with_meeting_and_tag m t s f =
     (case ensure_row_exists mr_id (db_meetings s) ''meeting'' m of
        Inl e \<Rightarrow> (Inl e, s)
      | Inr _ \<Rightarrow>
          (case ensure_row_exists tag_key (db_tags s) ''tag'' t of
             Inl e \<Rightarrow> (Inl e, s)
           | Inr _ \<Rightarrow> (Inr (), f s)))"

definition tag_meeting :: "string \<Rightarrow> string \<Rightarrow> db \<Rightarrow> unit storage_result \<times> db" where
  "tag_meeting m t s =
     with_meeting_and_tag m t s (\<lambda>s.
       if (m, t) \<in> set (db_meeting_tags s) then s
       else s\<lparr>db_meeting_tags := db_meeting_tags s @ [(m, t)]\<rparr>)"

definition untag_meeting :: "string \<Rightarrow> string \<Rightarrow> db \<Rightarrow> unit storage_result \<times> db" where
  "untag_meeting m t s =
     with_meeting_and_tag m t s (\<lambda>s.
       s\<lparr>db_meeting_tags := filter (\<lambda>l. l \<noteq> (m, t)) (db_meeting_tags s)\<rparr>)"

definition list_tags_for_meeting :: "string \<Rightarrow> db \<Rightarrow> tag list storage_result \<times> db" where
  "list_tags_for_meeting i s =
     (case ensure_row_exists mr_id (db_meetings s) ''meeting'' i of
        Inl e \<Rightarrow> (Inl e, s)
      | Inr _ \<Rightarrow>
          (Inr (sort_key (\<lambda>t. (tg_name t, tg_id t))
             (filter (\<lambda>t. (i, tg_id t) \<in> set (db_meeting_tags s)) (map gr_tag (db_tags s)))), s))"

section \<open>Assignment\<close>

definition set_place :: "string \<Rightarrow> string option \<Rightarrow> string option \<Rightarrow> db \<Rightarrow> db" where
  "set_place i space_id project_id s =
     snd (update_meeting i (\<lambda>r. r\<lparr>mr_space_id := space_id, mr_project_id := project_id\<rparr>) s)"

definition assign_meeting ::
  "string \<Rightarrow> string option \<Rightarrow> string option \<Rightarrow> db \<Rightarrow> unit storage_result \<times> db" where
  "assign_meeting i space_id project_id s =
     (case ensure_row_exists mr_id (db_meetings s) ''meeting'' i of
        Inl e \<Rightarrow> (Inl e, s)
      | Inr _ \<Rightarrow>
          (case project_id of
             Some p \<Rightarrow>
               (case lookup project_key (db_projects s) p of
                  None \<Rightarrow> (Inl (not_found ''project'' p), s)
                | Some r \<Rightarrow> (Inr (), set_place i (Some (pj_space_id (pr_project r))) (Some p) s))
           | None \<Rightarrow>
               (case (case space_id of None \<Rightarrow> Inr ()
                      | Some sp \<Rightarrow> ensure_row_exists space_key (db_spaces s) ''space'' sp) of
                  Inl e \<Rightarrow> (Inl e, s)
                | Inr _ \<Rightarrow> (Inr (), set_place i space_id None s))))"

section \<open>The trait\<close>

fun sqlite_exec :: "bool \<Rightarrow> storage_call \<Rightarrow> db \<Rightarrow> storage_reply \<times> db" where
  "sqlite_exec dir_first (CreateMeeting d) s = reply RMeeting (create_meeting dir_first d s)"
| "sqlite_exec dir_first (GetMeeting i) s = reply RMeeting (get_meeting i s)"
| "sqlite_exec dir_first ListMeetings s = reply RSummaries (list_meetings s)"
| "sqlite_exec dir_first (ListMeetingsFiltered f) s = reply RSummaries (list_meetings_filtered f s)"
| "sqlite_exec dir_first (UpdateMeetingEnded i e n) s = reply RMeeting (update_meeting_ended i e n s)"
| "sqlite_exec dir_first (RenameMeeting i t) s = reply RMeeting (rename_meeting i t s)"
| "sqlite_exec dir_first (DeleteMeeting i) s = reply (\<lambda>_. RUnit) (delete_meeting i s)"
| "sqlite_exec dir_first (CreateNote now d) s = reply RNote (create_note now d s)"
| "sqlite_exec dir_first (ListNotesForMeeting i) s = reply RNotes (list_notes_for_meeting i s)"
| "sqlite_exec dir_first (ReplaceMeetingNote now i d) s = reply RNote (replace_meeting_note now i d s)"
| "sqlite_exec dir_first (CreateSpace now n) s = reply RSpace (create_space now n s)"
| "sqlite_exec dir_first ListSpaces s = reply RSpaces (list_spaces s)"
| "sqlite_exec dir_first (RenameSpace i n) s = reply (\<lambda>_. RUnit) (rename_space i n s)"
| "sqlite_exec dir_first (DeleteSpace i) s = reply (\<lambda>_. RUnit) (delete_space i s)"
| "sqlite_exec dir_first (CreateProject now sp n) s = reply RProject (create_project now sp n s)"
| "sqlite_exec dir_first (ListProjects sp) s = reply RProjects (list_projects sp s)"
| "sqlite_exec dir_first (RenameProject i n) s = reply (\<lambda>_. RUnit) (rename_project i n s)"
| "sqlite_exec dir_first (DeleteProject i) s = reply (\<lambda>_. RUnit) (delete_project i s)"
| "sqlite_exec dir_first (CreateTag now n) s = reply RTag (create_tag now n s)"
| "sqlite_exec dir_first ListTags s = reply RTags (list_tags s)"
| "sqlite_exec dir_first (DeleteTag i) s = reply (\<lambda>_. RUnit) (delete_tag i s)"
| "sqlite_exec dir_first (TagMeeting m t) s = reply (\<lambda>_. RUnit) (tag_meeting m t s)"
| "sqlite_exec dir_first (UntagMeeting m t) s = reply (\<lambda>_. RUnit) (untag_meeting m t s)"
| "sqlite_exec dir_first (ListTagsForMeeting i) s = reply RTags (list_tags_for_meeting i s)"
| "sqlite_exec dir_first (AssignMeeting i sp p) s = reply (\<lambda>_. RUnit) (assign_meeting i sp p s)"
| "sqlite_exec dir_first (CreateMeetingWithNote now d n e dur) s =
     reply (\<lambda>(m, n). RMeetingNote m n) (create_meeting_with_note dir_first now d n e dur s)"

end
