(* ===== verification/Storage_Port.thy ===== *)
theory Storage_Port
  imports Storage_Types Tables
begin

text \<open>
  What the \<open>Storage\<close> port of \<open>panops-core/src/storage.rs\<close> promises, without saying how it is stored.
  A \<open>registry\<close> is the abstract state, finite maps by id; \<open>spec\<close> relates a call, the registry before,
  the reply and the registry after. The locale \<open>storage_port\<close> is the interface: an adapter is a
  step function with an abstraction to the registry that obeys \<open>spec\<close>; the facts its clients use are
  proved in it once, and both adapters interpret it.
\<close>

section \<open>The registry\<close>

record registry =
  rg_meetings :: "string \<rightharpoonup> meeting"
  rg_notes :: "string \<rightharpoonup> meeting_note"
  rg_spaces :: "string \<rightharpoonup> space"
  rg_projects :: "string \<rightharpoonup> project"
  rg_tags :: "string \<rightharpoonup> tag"
  rg_links :: "(string \<times> string) set"
  rg_space_of :: "string \<rightharpoonup> string"
  rg_project_of :: "string \<rightharpoonup> string"

definition empty_registry :: registry where
  "empty_registry = \<lparr>rg_meetings = (\<lambda>_. None), rg_notes = (\<lambda>_. None), rg_spaces = (\<lambda>_. None),
     rg_projects = (\<lambda>_. None), rg_tags = (\<lambda>_. None), rg_links = {}, rg_space_of = (\<lambda>_. None),
     rg_project_of = (\<lambda>_. None)\<rparr>"

text \<open>
  The invariant of the registry: rows carry their keys, directories and tag names are unique, every
  reference points to a row, and a meeting in a project is in the project's space.
\<close>

definition keyed :: "('v \<Rightarrow> string) \<Rightarrow> (string \<rightharpoonup> 'v) \<Rightarrow> bool" where
  "keyed key m = (\<forall>k v. m k = Some v \<longrightarrow> key v = k)"

definition unique_on :: "('v \<Rightarrow> 'a) \<Rightarrow> (string \<rightharpoonup> 'v) \<Rightarrow> bool" where
  "unique_on f m = (\<forall>k k' v v'. m k = Some v \<longrightarrow> m k' = Some v' \<longrightarrow> f v = f v' \<longrightarrow> k = k')"

definition registry_ok :: "registry \<Rightarrow> bool" where
  "registry_ok r \<longleftrightarrow>
     keyed mt_id (rg_meetings r) \<and> keyed nt_id (rg_notes r) \<and> keyed sp_id (rg_spaces r) \<and>
     keyed pj_id (rg_projects r) \<and> keyed tg_id (rg_tags r) \<and>
     unique_on mt_dir_path (rg_meetings r) \<and> unique_on tg_name (rg_tags r) \<and>
     (\<forall>k n. rg_notes r k = Some n \<longrightarrow> rg_meetings r (nt_meeting_id n) \<noteq> None) \<and>
     (\<forall>k p. rg_projects r k = Some p \<longrightarrow> rg_spaces r (pj_space_id p) \<noteq> None) \<and>
     (\<forall>(m, t) \<in> rg_links r. rg_meetings r m \<noteq> None \<and> rg_tags r t \<noteq> None) \<and>
     (\<forall>m s. rg_space_of r m = Some s \<longrightarrow> rg_meetings r m \<noteq> None \<and> rg_spaces r s \<noteq> None) \<and>
     (\<forall>m p. rg_project_of r m = Some p \<longrightarrow> rg_meetings r m \<noteq> None \<and>
        (\<exists>q. rg_projects r p = Some q \<and> rg_space_of r m = Some (pj_space_id q)))"

section \<open>The changes a call can make\<close>

definition keep_only :: "('v \<Rightarrow> bool) \<Rightarrow> (string \<rightharpoonup> 'v) \<Rightarrow> string \<rightharpoonup> 'v" where
  "keep_only P m = (\<lambda>k. Option.bind (m k) (\<lambda>v. if P v then Some v else None))"

lemma keep_only_Some: "keep_only P m k = Some v \<longleftrightarrow> m k = Some v \<and> P v"
  by (cases "m k") (auto simp: keep_only_def)

definition reg_add_meeting :: "meeting \<Rightarrow> registry \<Rightarrow> registry" where
  "reg_add_meeting m r = r\<lparr>rg_meetings := (rg_meetings r)(mt_id m \<mapsto> m)\<rparr>"

definition reg_add_note :: "meeting_note \<Rightarrow> registry \<Rightarrow> registry" where
  "reg_add_note n r = r\<lparr>rg_notes := (rg_notes r)(nt_id n \<mapsto> n)\<rparr>"

definition reg_drop_notes :: "string \<Rightarrow> registry \<Rightarrow> registry" where
  "reg_drop_notes i r = r\<lparr>rg_notes := keep_only (\<lambda>n. nt_meeting_id n \<noteq> i) (rg_notes r)\<rparr>"

definition reg_delete_meeting :: "string \<Rightarrow> registry \<Rightarrow> registry" where
  "reg_delete_meeting i r =
     (reg_drop_notes i r)\<lparr>rg_meetings := (rg_meetings r)(i := None),
        rg_links := {(m, t) \<in> rg_links r. m \<noteq> i},
        rg_space_of := (rg_space_of r)(i := None),
        rg_project_of := (rg_project_of r)(i := None)\<rparr>"

definition reg_delete_projects :: "(project \<Rightarrow> bool) \<Rightarrow> registry \<Rightarrow> registry" where
  "reg_delete_projects P r =
     r\<lparr>rg_projects := keep_only (\<lambda>p. \<not> P p) (rg_projects r),
       rg_project_of := keep_only (\<lambda>i. \<forall>p. rg_projects r i = Some p \<longrightarrow> \<not> P p) (rg_project_of r)\<rparr>"

definition reg_delete_space :: "string \<Rightarrow> registry \<Rightarrow> registry" where
  "reg_delete_space i r =
     (let r = reg_delete_projects (\<lambda>p. pj_space_id p = i) r
      in r\<lparr>rg_spaces := (rg_spaces r)(i := None),
           rg_space_of := keep_only (\<lambda>sp. sp \<noteq> i) (rg_space_of r)\<rparr>)"

definition reg_delete_tag :: "string \<Rightarrow> registry \<Rightarrow> registry" where
  "reg_delete_tag i r =
     r\<lparr>rg_tags := (rg_tags r)(i := None), rg_links := {(m, t) \<in> rg_links r. t \<noteq> i}\<rparr>"

definition reg_place :: "string \<Rightarrow> string option \<Rightarrow> string option \<Rightarrow> registry \<Rightarrow> registry" where
  "reg_place i sp p r =
     r\<lparr>rg_space_of := (rg_space_of r)(i := sp), rg_project_of := (rg_project_of r)(i := p)\<rparr>"

section \<open>Listings\<close>

definition summary_of :: "registry \<Rightarrow> meeting \<Rightarrow> meeting_summary" where
  "summary_of r m =
     \<lparr>ms_id = mt_id m, ms_title = mt_title m, ms_started_at = mt_started_at m,
      ms_ended_at = mt_ended_at m,
      ms_duration_ms = (case mt_duration_ms m of None \<Rightarrow> 0 | Some d \<Rightarrow> d),
      ms_language = mt_language m,
      ms_has_notes = (\<exists>k n. rg_notes r k = Some n \<and> nt_meeting_id n = mt_id m),
      ms_space_id = rg_space_of r (mt_id m), ms_project_id = rg_project_of r (mt_id m),
      ms_tags = sorted_list_of_set {t. (mt_id m, t) \<in> rg_links r}\<rparr>"

definition passes :: "meeting_list_filter \<Rightarrow> registry \<Rightarrow> meeting \<Rightarrow> bool" where
  "passes f r m \<longleftrightarrow>
     (mf_unsorted f \<longrightarrow> rg_space_of r (mt_id m) = None) \<and>
     (mf_space_id f \<noteq> None \<longrightarrow> rg_space_of r (mt_id m) = mf_space_id f) \<and>
     (mf_project_id f \<noteq> None \<longrightarrow> rg_project_of r (mt_id m) = mf_project_id f) \<and>
     (\<forall>t. mf_tag_id f = Some t \<longrightarrow> (mt_id m, t) \<in> rg_links r)"

definition values_of :: "(string \<rightharpoonup> 'v) \<Rightarrow> 'v set" where
  "values_of m = {v. \<exists>k. m k = Some v}"

text \<open>A listing holds each element of a set once, in the order of a key.\<close>

definition lists_set :: "('a \<Rightarrow> 'k :: linorder) \<Rightarrow> 'a set \<Rightarrow> 'a list \<Rightarrow> bool" where
  "lists_set key A xs = (distinct xs \<and> set xs = A \<and> sorted (map key xs))"

lemma registry_eqI:
  fixes r r' :: registry
  assumes "rg_meetings r = rg_meetings r'" "rg_notes r = rg_notes r'" "rg_spaces r = rg_spaces r'"
    "rg_projects r = rg_projects r'" "rg_tags r = rg_tags r'" "rg_links r = rg_links r'"
    "rg_space_of r = rg_space_of r'" "rg_project_of r = rg_project_of r'"
  shows "r = r'"
  using assms by (cases r; cases r') simp

lemma reg_add_meeting_sel [simp]:
  "rg_notes (reg_add_meeting m r) = rg_notes r" "rg_tags (reg_add_meeting m r) = rg_tags r"
  by (simp_all add: reg_add_meeting_def)

lemma lists_set_sort:
  assumes "distinct xs" and "set xs = A"
  shows "lists_set key A (sort_key key xs)"
  using assms by (simp add: lists_set_def)

section \<open>The specification\<close>

text \<open>
  The calls that the port specifies: durations that fit in the \<open>i64\<close> of an \<open>INTEGER\<close> column.
\<close>

fun call_ok :: "storage_call \<Rightarrow> bool" where
  "call_ok (UpdateMeetingEnded i e d) = (d < 2 ^ 63)"
| "call_ok (CreateMeetingWithNote now m n e d) = (\<forall>v. d = Some v \<longrightarrow> v < 2 ^ 63)"
| "call_ok c = True"

definition dir_taken :: "string \<Rightarrow> registry \<Rightarrow> bool" where
  "dir_taken p r = (\<exists>k m. rg_meetings r k = Some m \<and> mt_dir_path m = p)"

text \<open>The errors a meeting insertion may report: one for each constraint it violates.\<close>

definition insert_errors :: "meeting_draft \<Rightarrow> registry \<Rightarrow> storage_error set" where
  "insert_errors d r =
     (if rg_meetings r (md_id d) \<noteq> None then {StAlreadyExists (md_id d) ''meeting''} else {}) \<union>
     (if dir_taken (md_dir_path d) r
      then {StUniqueConflict ''meeting'' ''dir_path'' (md_dir_path d)} else {})"

text \<open>A call that must find its rows, and then does the change, or reports the first one missing.\<close>

definition guarded ::
  "(bool \<times> storage_error) list \<Rightarrow> registry \<Rightarrow> storage_reply \<Rightarrow> registry \<Rightarrow> bool \<Rightarrow> bool" where
  "guarded guards r x r' ok =
     (case List.find (\<lambda>(g, e). \<not> g) guards of
        Some (g, e) \<Rightarrow> x = RErr e \<and> r' = r
      | None \<Rightarrow> ok)"

abbreviation missing :: "string \<Rightarrow> string \<Rightarrow> (string \<rightharpoonup> 'v) \<Rightarrow> bool \<times> storage_error" where
  "missing kind i m \<equiv> (m i \<noteq> None, StNotFound i kind)"

fun spec :: "storage_call \<Rightarrow> registry \<Rightarrow> storage_reply \<Rightarrow> registry \<Rightarrow> bool" where
  "spec (CreateMeeting d) r x r' =
     (let m = meeting_of_draft d None None
      in if insert_errors d r = {} then x = RMeeting m \<and> r' = reg_add_meeting m r
         else (\<exists>e \<in> insert_errors d r. x = RErr e) \<and> r' = r)"
| "spec (CreateMeetingWithNote now d n e dur) r x r' =
     (let m = meeting_of_draft d e dur; nt = note_of_draft n (ck_rfc3339 now);
          errors = insert_errors d r \<union>
            (if rg_notes r (nd_id n) \<noteq> None then {StAlreadyExists (nd_id n) ''note''} else {}) \<union>
            (if nd_meeting_id n \<noteq> md_id d
             then {StSql ''create_meeting_with_note: note.meeting_id must match meeting.id''} else {})
      in if errors = {} then x = RMeetingNote m nt \<and> r' = reg_add_note nt (reg_add_meeting m r)
         else (\<exists>e \<in> errors. x = RErr e) \<and> r' = r)"
| "spec (GetMeeting i) r x r' =
     guarded [missing ''meeting'' i (rg_meetings r)] r x r'
       (x = RMeeting (the (rg_meetings r i)) \<and> r' = r)"
| "spec ListMeetings r x r' =
     (\<exists>xs. x = RSummaries xs \<and> r' = r \<and> sorted (rev (map ms_started_at xs)) \<and> distinct xs \<and>
        set xs = summary_of r ` values_of (rg_meetings r))"
| "spec (ListMeetingsFiltered f) r x r' =
     (\<exists>xs. x = RSummaries xs \<and> r' = r \<and> sorted (rev (map ms_started_at xs)) \<and> distinct xs \<and>
        set xs = summary_of r ` {m \<in> values_of (rg_meetings r). passes f r m})"
| "spec (UpdateMeetingEnded i e d) r x r' =
     guarded [missing ''meeting'' i (rg_meetings r)] r x r'
       (let m = (the (rg_meetings r i))\<lparr>mt_ended_at := Some e, mt_duration_ms := Some d\<rparr>
        in x = RMeeting m \<and> r' = reg_add_meeting m r)"
| "spec (RenameMeeting i t) r x r' =
     guarded [missing ''meeting'' i (rg_meetings r)] r x r'
       (let m = (the (rg_meetings r i))\<lparr>mt_title := t\<rparr>
        in x = RMeeting m \<and> r' = reg_add_meeting m r)"
| "spec (DeleteMeeting i) r x r' =
     guarded [missing ''meeting'' i (rg_meetings r)] r x r'
       (x = RUnit \<and> r' = reg_delete_meeting i r)"
| "spec (CreateNote now d) r x r' =
     guarded [missing ''meeting'' (nd_meeting_id d) (rg_meetings r),
              (rg_notes r (nd_id d) = None, StAlreadyExists (nd_id d) ''note'')] r x r'
       (let n = note_of_draft d (ck_rfc3339 now) in x = RNote n \<and> r' = reg_add_note n r)"
| "spec (ListNotesForMeeting i) r x r' =
     (\<exists>xs. x = RNotes xs \<and> r' = r \<and> distinct xs \<and>
        set xs = {n \<in> values_of (rg_notes r). nt_meeting_id n = i})"
| "spec (ReplaceMeetingNote now i d) r x r' =
     guarded [(nd_meeting_id d = i,
                StSql ''replace_meeting_note: draft.meeting_id must match meeting_id''),
              missing ''meeting'' i (rg_meetings r),
              (rg_notes (reg_drop_notes i r) (nd_id d) = None, StAlreadyExists (nd_id d) ''note'')]
       r x r'
       (let n = note_of_draft d (ck_rfc3339 now)
        in x = RNote n \<and> r' = reg_add_note n (reg_drop_notes i r))"
| "spec (CreateSpace now name) r x r' =
     ((\<exists>m. x = RErr (StSql m) \<and> r' = r) \<or>
      (\<exists>sp. x = RSpace sp \<and> sp_name sp = name \<and> rg_spaces r (sp_id sp) = None \<and>
         r' = r\<lparr>rg_spaces := (rg_spaces r)(sp_id sp \<mapsto> sp)\<rparr>))"
| "spec ListSpaces r x r' =
     (\<exists>xs. x = RSpaces xs \<and> r' = r \<and>
        lists_set (\<lambda>sp. (sp_position sp, sp_name sp)) (values_of (rg_spaces r)) xs)"
| "spec (RenameSpace i name) r x r' =
     guarded [missing ''space'' i (rg_spaces r)] r x r'
       (x = RUnit \<and> r' = r\<lparr>rg_spaces := (rg_spaces r)(i \<mapsto>
          (the (rg_spaces r i))\<lparr>sp_name := name\<rparr>)\<rparr>)"
| "spec (DeleteSpace i) r x r' =
     guarded [missing ''space'' i (rg_spaces r)] r x r' (x = RUnit \<and> r' = reg_delete_space i r)"
| "spec (CreateProject now i name) r x r' =
     guarded [missing ''space'' i (rg_spaces r)] r x r'
       ((\<exists>m. x = RErr (StSql m) \<and> r' = r) \<or>
        (\<exists>p. x = RProject p \<and> pj_name p = name \<and> pj_space_id p = i \<and>
           rg_projects r (pj_id p) = None \<and>
           r' = r\<lparr>rg_projects := (rg_projects r)(pj_id p \<mapsto> p)\<rparr>))"
| "spec (ListProjects s) r x r' =
     (\<exists>xs. x = RProjects xs \<and> r' = r \<and>
        lists_set (\<lambda>p. (pj_space_id p, pj_position p, pj_name p))
          {p \<in> values_of (rg_projects r). \<forall>i. s = Some i \<longrightarrow> pj_space_id p = i} xs)"
| "spec (RenameProject i name) r x r' =
     guarded [missing ''project'' i (rg_projects r)] r x r'
       (x = RUnit \<and> r' = r\<lparr>rg_projects := (rg_projects r)(i \<mapsto>
          (the (rg_projects r i))\<lparr>pj_name := name\<rparr>)\<rparr>)"
| "spec (DeleteProject i) r x r' =
     guarded [missing ''project'' i (rg_projects r)] r x r'
       (x = RUnit \<and> r' = reg_delete_projects (\<lambda>p. pj_id p = i) r)"
| "spec (CreateTag now name) r x r' =
     (if \<exists>t \<in> values_of (rg_tags r). tg_name t = name
      then (\<exists>t \<in> values_of (rg_tags r). tg_name t = name \<and> x = RTag t) \<and> r' = r
      else (\<exists>m. x = RErr (StSql m) \<and> r' = r) \<or>
        (\<exists>t. x = RTag t \<and> tg_name t = name \<and> rg_tags r (tg_id t) = None \<and>
           r' = r\<lparr>rg_tags := (rg_tags r)(tg_id t \<mapsto> t)\<rparr>))"
| "spec ListTags r x r' =
     (\<exists>xs. x = RTags xs \<and> r' = r \<and> lists_set (\<lambda>t. (tg_name t, tg_id t)) (values_of (rg_tags r)) xs)"
| "spec (DeleteTag i) r x r' =
     guarded [missing ''tag'' i (rg_tags r)] r x r' (x = RUnit \<and> r' = reg_delete_tag i r)"
| "spec (TagMeeting m t) r x r' =
     guarded [missing ''meeting'' m (rg_meetings r), missing ''tag'' t (rg_tags r)] r x r'
       (x = RUnit \<and> r' = r\<lparr>rg_links := insert (m, t) (rg_links r)\<rparr>)"
| "spec (UntagMeeting m t) r x r' =
     guarded [missing ''meeting'' m (rg_meetings r), missing ''tag'' t (rg_tags r)] r x r'
       (x = RUnit \<and> r' = r\<lparr>rg_links := rg_links r - {(m, t)}\<rparr>)"
| "spec (ListTagsForMeeting i) r x r' =
     guarded [missing ''meeting'' i (rg_meetings r)] r x r'
       (\<exists>xs. x = RTags xs \<and> r' = r \<and> lists_set (\<lambda>t. (tg_name t, tg_id t))
          {t \<in> values_of (rg_tags r). (i, tg_id t) \<in> rg_links r} xs)"
| "spec (AssignMeeting i sp p) r x r' =
     guarded [missing ''meeting'' i (rg_meetings r)] r x r'
       (case p of
          Some pid \<Rightarrow>
            guarded [missing ''project'' pid (rg_projects r)] r x r'
              (x = RUnit \<and>
               r' = reg_place i (Some (pj_space_id (the (rg_projects r pid)))) (Some pid) r)
        | None \<Rightarrow>
            (case sp of
               Some sid \<Rightarrow> guarded [missing ''space'' sid (rg_spaces r)] r x r'
                 (x = RUnit \<and> r' = reg_place i (Some sid) None r)
             | None \<Rightarrow> x = RUnit \<and> r' = reg_place i None None r))"

section \<open>The specification keeps the invariant\<close>

lemma values_ofI [intro]: "m k = Some v \<Longrightarrow> v \<in> values_of m"
  by (auto simp: values_of_def)

lemma insert_errors_empty:
  "insert_errors d r = {} \<longleftrightarrow> rg_meetings r (md_id d) = None \<and> \<not> dir_taken (md_dir_path d) r"
  by (auto simp: insert_errors_def)

lemma guardedE:
  assumes "guarded gs r x r' ok"
  obtains (failed) g e where "List.find (\<lambda>(g, e). \<not> g) gs = Some (g, e)" "x = RErr e" "r' = r"
  | (passed) "List.find (\<lambda>(g, e). \<not> g) gs = None" "ok"
  using assms by (auto simp: guarded_def split: option.splits prod.splits)

lemma registry_ok_projectD:
  "registry_ok r \<Longrightarrow> rg_project_of r m = Some p \<Longrightarrow>
     \<exists>q. rg_projects r p = Some q \<and> rg_space_of r m = Some (pj_space_id q)"
  by (simp add: registry_ok_def)

lemma registry_ok_meetingD: "registry_ok r \<Longrightarrow> rg_meetings r i = Some m \<Longrightarrow> mt_id m = i"
  by (simp add: registry_ok_def keyed_def)

lemma registry_ok_dirD:
  "registry_ok r \<Longrightarrow> rg_meetings r k = Some v \<Longrightarrow> rg_meetings r k' = Some v' \<Longrightarrow>
     mt_dir_path v = mt_dir_path v' \<Longrightarrow> k = k'"
  unfolding registry_ok_def unique_on_def by blast

lemma keyed_upd [simp]: "keyed key m \<Longrightarrow> keyed key (m(key v \<mapsto> v))"
  by (auto simp: keyed_def)

lemma keyed_upd_at [simp]: "keyed key m \<Longrightarrow> key v = k \<Longrightarrow> keyed key (m(k \<mapsto> v))"
  by (auto simp: keyed_def)

lemma keyed_None [simp]: "keyed key m \<Longrightarrow> keyed key (m(k := None))"
  by (auto simp: keyed_def)

lemma unique_on_None [simp]: "unique_on f m \<Longrightarrow> unique_on f (m(k := None))"
  by (auto simp: unique_on_def)

lemma unique_on_upd:
  "unique_on f m \<Longrightarrow> (\<And>k' v'. m k' = Some v' \<Longrightarrow> f v' = f v \<Longrightarrow> k' = k) \<Longrightarrow> unique_on f (m(k \<mapsto> v))"
  unfolding unique_on_def
proof (intro allI impI)
  fix a b va vb
  assume u: "\<forall>k k' v v'. m k = Some v \<longrightarrow> m k' = Some v' \<longrightarrow> f v = f v' \<longrightarrow> k = k'"
    and new: "\<And>k' v'. m k' = Some v' \<Longrightarrow> f v' = f v \<Longrightarrow> k' = k"
    and a: "(m(k \<mapsto> v)) a = Some va" and b: "(m(k \<mapsto> v)) b = Some vb" and eq: "f va = f vb"
  show "a = b"
  proof -
    consider "a = k" "b = k" | "a = k" "b \<noteq> k" | "a \<noteq> k" "b = k" | "a \<noteq> k" "b \<noteq> k"
      by blast
    then show ?thesis
    proof cases
      case 2
      then have "va = v" and mb: "m b = Some vb"
        using a b by simp_all
      then have "f vb = f v"
        by (simp add: eq [symmetric])
      with new [OF mb] show ?thesis
        using 2 by simp
    next
      case 3
      then have "vb = v" and ma: "m a = Some va"
        using a b by simp_all
      then have "f va = f v"
        by (simp add: eq)
      with new [OF ma] show ?thesis
        using 3 by simp
    next
      case 4
      then have "m a = Some va" "m b = Some vb"
        using a b by simp_all
      with u eq show ?thesis by blast
    qed simp
  qed
qed

lemma reg_ok_add_meeting [wf_intros]:
  assumes "registry_ok r" and "rg_meetings r (mt_id m) = None" and "\<not> dir_taken (mt_dir_path m) r"
  shows "registry_ok (reg_add_meeting m r)"
proof -
  have "unique_on mt_dir_path ((rg_meetings r)(mt_id m \<mapsto> m))"
    using assms by (intro unique_on_upd) (auto simp: registry_ok_def dir_taken_def)
  then show ?thesis
    using assms by (auto simp: registry_ok_def reg_add_meeting_def)
qed

lemma reg_ok_update_meeting [wf_intros]:
  assumes "registry_ok r" and "rg_meetings r (mt_id m) = Some m0" and "mt_dir_path m = mt_dir_path m0"
  shows "registry_ok (reg_add_meeting m r)"
proof -
  have u: "unique_on mt_dir_path (rg_meetings r)"
    using assms(1) by (simp add: registry_ok_def)
  have "unique_on mt_dir_path ((rg_meetings r)(mt_id m \<mapsto> m))"
    using u assms(2,3) by (intro unique_on_upd) (auto simp: unique_on_def)
  then show ?thesis
    using assms by (auto simp: registry_ok_def reg_add_meeting_def)
qed

lemma reg_ok_add_note [wf_intros]:
  "registry_ok r \<Longrightarrow> rg_meetings r (nt_meeting_id n) \<noteq> None \<Longrightarrow> registry_ok (reg_add_note n r)"
  by (auto simp: registry_ok_def reg_add_note_def keyed_def)

lemma reg_ok_drop_notes [wf_intros]: "registry_ok r \<Longrightarrow> registry_ok (reg_drop_notes i r)"
  by (auto simp: registry_ok_def reg_drop_notes_def keyed_def keep_only_Some)

lemma reg_ok_delete_meeting [wf_intros]: "registry_ok r \<Longrightarrow> registry_ok (reg_delete_meeting i r)"
  by (auto simp: registry_ok_def reg_delete_meeting_def reg_drop_notes_def keyed_def unique_on_def
      keep_only_Some)

lemma reg_ok_delete_projects [wf_intros]:
  assumes "registry_ok r"
  shows "registry_ok (reg_delete_projects P r)"
proof -
  have "\<exists>q. rg_projects r p = Some q \<and> \<not> P q \<and> rg_space_of r m = Some (pj_space_id q)"
    if "rg_project_of r m = Some p" "\<forall>q. rg_projects r p = Some q \<longrightarrow> \<not> P q" for m p
    using registry_ok_projectD [OF assms that(1)] that(2) by auto
  with assms show ?thesis
    by (auto simp: registry_ok_def reg_delete_projects_def keyed_def keep_only_Some)
qed

lemma reg_ok_delete_space [wf_intros]:
  assumes "registry_ok r"
  shows "registry_ok (reg_delete_space i r)"
proof -
  let ?r = "reg_delete_projects (\<lambda>p. pj_space_id p = i) r"
  have ok: "registry_ok ?r"
    using assms by (rule reg_ok_delete_projects)
  have away: "pj_space_id p \<noteq> i" if "rg_projects ?r k = Some p" for k p
    using that by (simp add: reg_delete_projects_def keep_only_Some)
  have proj: "\<exists>q. rg_projects ?r p = Some q \<and> rg_space_of ?r m = Some (pj_space_id q) \<and>
      pj_space_id q \<noteq> i" if "rg_project_of ?r m = Some p" for m p
    using registry_ok_projectD [OF ok that] away by blast
  define q where "q = ?r"
  show ?thesis
    using ok away proj unfolding reg_delete_space_def Let_def q_def [symmetric]
    by (auto simp: registry_ok_def keyed_def keep_only_Some)
qed

lemma reg_ok_delete_tag [wf_intros]: "registry_ok r \<Longrightarrow> registry_ok (reg_delete_tag i r)"
  by (auto simp: registry_ok_def reg_delete_tag_def keyed_def unique_on_def)

lemma reg_ok_place [wf_intros]:
  assumes "registry_ok r" and "rg_meetings r i \<noteq> None"
    and "\<forall>s. sp = Some s \<longrightarrow> rg_spaces r s \<noteq> None"
    and "\<forall>k. p = Some k \<longrightarrow> (\<exists>q. rg_projects r k = Some q \<and> sp = Some (pj_space_id q))"
  shows "registry_ok (reg_place i sp p r)"
  using assms by (auto simp: registry_ok_def reg_place_def)

lemma reg_ok_add_space [wf_intros]:
  "registry_ok r \<Longrightarrow> registry_ok (r\<lparr>rg_spaces := (rg_spaces r)(sp_id sp \<mapsto> sp)\<rparr>)"
  by (auto simp: registry_ok_def keyed_def)

lemma reg_ok_rename_space:
  "registry_ok r \<Longrightarrow> rg_spaces r i \<noteq> None \<Longrightarrow>
     registry_ok (r\<lparr>rg_spaces := (rg_spaces r)(i \<mapsto> (the (rg_spaces r i))\<lparr>sp_name := name\<rparr>)\<rparr>)"
  by (auto simp: registry_ok_def keyed_def)

lemma reg_ok_add_project [wf_intros]:
  "registry_ok r \<Longrightarrow> rg_spaces r (pj_space_id p) \<noteq> None \<Longrightarrow> rg_projects r (pj_id p) = None \<Longrightarrow>
     registry_ok (r\<lparr>rg_projects := (rg_projects r)(pj_id p \<mapsto> p)\<rparr>)"
  by (auto simp: registry_ok_def keyed_def) (metis option.distinct(1))

lemma reg_ok_rename_project:
  "registry_ok r \<Longrightarrow> rg_projects r i \<noteq> None \<Longrightarrow>
     registry_ok (r\<lparr>rg_projects := (rg_projects r)(i \<mapsto> (the (rg_projects r i))\<lparr>pj_name := name\<rparr>)\<rparr>)"
  by (fastforce simp: registry_ok_def keyed_def)

lemma reg_ok_add_tag [wf_intros]:
  "registry_ok r \<Longrightarrow> rg_tags r (tg_id t) = None \<Longrightarrow> \<not> (\<exists>u \<in> values_of (rg_tags r). tg_name u = tg_name t)
     \<Longrightarrow> registry_ok (r\<lparr>rg_tags := (rg_tags r)(tg_id t \<mapsto> t)\<rparr>)"
  by (auto simp: registry_ok_def keyed_def unique_on_def values_of_def)

lemma reg_ok_link [wf_intros]:
  "registry_ok r \<Longrightarrow> rg_meetings r m \<noteq> None \<Longrightarrow> rg_tags r t \<noteq> None \<Longrightarrow>
     registry_ok (r\<lparr>rg_links := insert (m, t) (rg_links r)\<rparr>)"
  by (auto simp: registry_ok_def)

lemma reg_ok_unlink [wf_intros]:
  "registry_ok r \<Longrightarrow> registry_ok (r\<lparr>rg_links := rg_links r - {(m, t)}\<rparr>)"
  by (auto simp: registry_ok_def)

lemma spec_keeps_registry_ok:
  assumes "spec c r x r'" and "registry_ok r"
  shows "registry_ok r'"
proof (cases c)
  case (CreateMeeting d)
  then show ?thesis
    using assms
    by (auto simp: Let_def insert_errors_empty intro!: reg_ok_add_meeting split: if_splits)
next
  case (CreateMeetingWithNote now d n e dur)
  show ?thesis
  proof (cases "r' = r")
    case False
    then have e: "insert_errors d r = {}" "nd_meeting_id n = md_id d"
      "r' = reg_add_note (note_of_draft n (ck_rfc3339 now)) (reg_add_meeting (meeting_of_draft d e dur) r)"
      using assms CreateMeetingWithNote by (auto simp: Let_def split: if_splits)
    have "registry_ok (reg_add_meeting (meeting_of_draft d e dur) r)"
      using assms(2) e(1) by (intro reg_ok_add_meeting) (auto simp: insert_errors_empty)
    then show ?thesis
      unfolding e(3) by (rule reg_ok_add_note) (simp add: reg_add_meeting_def e(2))
  qed (use assms in simp)
next
  case (UpdateMeetingEnded i e d)
  with assms show ?thesis
    by (cases "rg_meetings r i")
      (auto simp: Let_def guarded_def dest: registry_ok_meetingD intro!: reg_ok_update_meeting)
next
  case (RenameMeeting i t)
  with assms show ?thesis
    by (cases "rg_meetings r i")
      (auto simp: Let_def guarded_def dest: registry_ok_meetingD intro!: reg_ok_update_meeting)
next
  case (CreateNote now d)
  then show ?thesis
    using assms by (auto simp: Let_def elim!: guardedE intro!: wf_intros split: if_splits)
next
  case (ReplaceMeetingNote now i d)
  then show ?thesis
    using assms
    by (auto simp: Let_def elim!: guardedE intro!: reg_ok_add_note reg_ok_drop_notes
        split: if_splits) (simp add: reg_drop_notes_def)
next
  case (AssignMeeting i sp p)
  then show ?thesis
    using assms
    by (auto elim!: guardedE intro!: reg_ok_place split: option.splits if_splits)
      (auto simp: registry_ok_def)
qed (use assms in \<open>auto elim!: guardedE intro!: wf_intros reg_ok_rename_space
       reg_ok_rename_project split: if_splits\<close>)

section \<open>The interface\<close>

fun run_calls ::
  "(storage_call \<Rightarrow> 's \<Rightarrow> storage_reply \<times> 's) \<Rightarrow> storage_call list \<Rightarrow> 's
   \<Rightarrow> storage_reply list \<times> 's" where
  "run_calls exec [] s = ([], s)"
| "run_calls exec (c # cs) s =
     (case exec c s of (x, s') \<Rightarrow> (case run_calls exec cs s' of (xs, s'') \<Rightarrow> (x # xs, s'')))"

locale storage_port =
  fixes exec :: "storage_call \<Rightarrow> 's \<Rightarrow> storage_reply \<times> 's"
    and ok :: "'s \<Rightarrow> bool"
    and abs_of :: "'s \<Rightarrow> registry"
    and init :: "'s"
  assumes init_ok: "ok init"
    and init_abs: "abs_of init = empty_registry"
    and exec_ok: "ok s \<Longrightarrow> call_ok c \<Longrightarrow> ok (snd (exec c s))"
    and exec_spec: "ok s \<Longrightarrow> call_ok c \<Longrightarrow>
      spec c (abs_of s) (fst (exec c s)) (abs_of (snd (exec c s)))"
begin

lemma run_ok: "ok s \<Longrightarrow> list_all call_ok cs \<Longrightarrow> ok (snd (run_calls exec cs s))"
proof (induction cs arbitrary: s)
  case (Cons c cs)
  then have "ok (snd (exec c s))"
    using exec_ok by simp
  from Cons.IH [OF this] Cons.prems(2) show ?case
    by (simp add: case_prod_beta)
qed simp

lemma run_registry_ok:
  assumes "ok s" and "registry_ok (abs_of s)" and "list_all call_ok cs"
  shows "registry_ok (abs_of (snd (run_calls exec cs s)))"
  using assms
proof (induction cs arbitrary: s)
  case (Cons c cs)
  then have c: "call_ok c"
    by simp
  have "registry_ok (abs_of (snd (exec c s)))"
    by (rule spec_keeps_registry_ok [OF exec_spec [OF Cons.prems(1) c] Cons.prems(2)])
  from Cons.IH [OF exec_ok [OF Cons.prems(1) c] this] Cons.prems(3) show ?case
    by (simp add: case_prod_beta)
qed simp

lemma empty_registry_ok: "registry_ok empty_registry"
  by (simp add: registry_ok_def empty_registry_def keyed_def unique_on_def)

text \<open>Every state that calls can reach satisfies the invariant of the registry.\<close>

lemma reachable_registry_ok:
  "list_all call_ok cs \<Longrightarrow> registry_ok (abs_of (snd (run_calls exec cs init)))"
  using run_registry_ok [OF init_ok] by (simp add: init_abs empty_registry_ok)

text \<open>A call that reports an error changes nothing: the adapters' transactions.\<close>

lemma error_unchanged:
  assumes "ok s" and "call_ok c" and "fst (exec c s) = RErr e"
  shows "abs_of (snd (exec c s)) = abs_of s"
proof -
  have "spec c (abs_of s) (RErr e) (abs_of (snd (exec c s)))"
    using exec_spec [OF assms(1,2)] assms(3) by simp
  then show ?thesis
    by (cases c) (auto simp: Let_def elim!: guardedE split: if_splits option.splits)
qed

lemma create_then_get:
  assumes "ok s" and "fst (exec (CreateMeeting d) s) = RMeeting m"
  shows "fst (exec (GetMeeting (md_id d)) (snd (exec (CreateMeeting d) s))) =
    RMeeting (meeting_of_draft d None None)"
proof -
  let ?s = "snd (exec (CreateMeeting d) s)"
  have "abs_of ?s = reg_add_meeting (meeting_of_draft d None None) (abs_of s)"
    using exec_spec [OF assms(1), of "CreateMeeting d"] assms(2)
    by (auto simp: Let_def split: if_splits)
  moreover have "ok ?s"
    using exec_ok [OF assms(1)] by simp
  ultimately show ?thesis
    using exec_spec [of ?s "GetMeeting (md_id d)"]
    by (auto simp: guarded_def reg_add_meeting_def)
qed

lemma delete_then_get:
  assumes "ok s" and "fst (exec (DeleteMeeting i) s) = RUnit"
  shows "fst (exec (GetMeeting i) (snd (exec (DeleteMeeting i) s))) =
      RErr (StNotFound i ''meeting'') \<and>
    fst (exec (ListNotesForMeeting i) (snd (exec (DeleteMeeting i) s))) = RNotes []"
proof -
  let ?s = "snd (exec (DeleteMeeting i) s)"
  have "abs_of ?s = reg_delete_meeting i (abs_of s)"
    using exec_spec [OF assms(1), of "DeleteMeeting i"] assms(2)
    by (auto elim!: guardedE split: if_splits)
  moreover have "ok ?s"
    using exec_ok [OF assms(1)] by simp
  ultimately show ?thesis
    using exec_spec [of ?s "GetMeeting i"] exec_spec [of ?s "ListNotesForMeeting i"]
    by (auto simp: guarded_def reg_delete_meeting_def reg_drop_notes_def values_of_def keep_only_Some)
qed

text \<open>\<open>replace_meeting_note\<close> leaves the meeting with exactly the new note.\<close>

lemma replace_single_note:
  assumes "ok s" and "fst (exec (ReplaceMeetingNote now i d) s) = RNote n"
  shows "fst (exec (ListNotesForMeeting i) (snd (exec (ReplaceMeetingNote now i d) s))) = RNotes [n]"
proof -
  let ?s = "snd (exec (ReplaceMeetingNote now i d) s)"
  have n: "n = note_of_draft d (ck_rfc3339 now)" "nd_meeting_id d = i"
    "abs_of ?s = reg_add_note n (reg_drop_notes i (abs_of s))"
    using exec_spec [OF assms(1), of "ReplaceMeetingNote now i d"] assms(2)
    by (auto simp: Let_def elim!: guardedE split: if_splits)
  have "ok ?s"
    using exec_ok [OF assms(1)] by simp
  then obtain xs where xs: "fst (exec (ListNotesForMeeting i) ?s) = RNotes xs" "distinct xs"
    "set xs = {m \<in> values_of (rg_notes (abs_of ?s)). nt_meeting_id m = i}"
    using exec_spec [of ?s "ListNotesForMeeting i"] by auto
  have "{m \<in> values_of (rg_notes (abs_of ?s)). nt_meeting_id m = i} = {n}"
    using n by (auto simp: reg_add_note_def reg_drop_notes_def values_of_def keep_only_Some
        split: if_splits)
  with xs have "xs = [n]"
    by (intro distinct_singleton) simp_all
  with xs show ?thesis by simp
qed

end

end
