(* ===== verification/Sqlite_Correct.thy ===== *)
theory Sqlite_Correct
  imports Sqlite_Storage Storage_Port
begin

text \<open>
  The SQLite adapter refines the port: its tables abstract to a registry, every call keeps the key
  and uniqueness constraints and does what the specification says. The interface \<open>storage_port\<close> is
  interpreted on it, and the properties of the adapter rest on that interpretation.
\<close>

section \<open>Abstraction and table invariant\<close>

definition abs_db :: "db \<Rightarrow> registry" where
  "abs_db s =
     \<lparr>rg_meetings = (\<lambda>k. map_option map_meeting_row (get_row s k)),
      rg_notes = lookup nt_id (db_notes s),
      rg_spaces = (\<lambda>k. map_option sr_space (lookup space_key (db_spaces s) k)),
      rg_projects = (\<lambda>k. map_option pr_project (lookup project_key (db_projects s) k)),
      rg_tags = (\<lambda>k. map_option gr_tag (lookup tag_key (db_tags s) k)),
      rg_links = set (db_meeting_tags s),
      rg_space_of = (\<lambda>k. Option.bind (get_row s k) mr_space_id),
      rg_project_of = (\<lambda>k. Option.bind (get_row s k) mr_project_id)\<rparr>"

definition tables_ok :: "db \<Rightarrow> bool" where
  "tables_ok s \<longleftrightarrow>
     distinct (map mr_id (db_meetings s)) \<and> distinct (map nt_id (db_notes s)) \<and>
     distinct (map space_key (db_spaces s)) \<and> distinct (map project_key (db_projects s)) \<and>
     distinct (map tag_key (db_tags s)) \<and> distinct (db_meeting_tags s)"

definition db_ok :: "db \<Rightarrow> bool" where
  "db_ok s = (tables_ok s \<and> registry_ok (abs_db s))"

lemma abs_db_sel [simp]:
  "rg_meetings (abs_db s) = (\<lambda>k. map_option map_meeting_row (get_row s k))"
  "rg_notes (abs_db s) = lookup nt_id (db_notes s)"
  "rg_spaces (abs_db s) = (\<lambda>k. map_option sr_space (lookup space_key (db_spaces s) k))"
  "rg_projects (abs_db s) = (\<lambda>k. map_option pr_project (lookup project_key (db_projects s) k))"
  "rg_tags (abs_db s) = (\<lambda>k. map_option gr_tag (lookup tag_key (db_tags s) k))"
  "rg_links (abs_db s) = set (db_meeting_tags s)"
  "rg_space_of (abs_db s) = (\<lambda>k. Option.bind (get_row s k) mr_space_id)"
  "rg_project_of (abs_db s) = (\<lambda>k. Option.bind (get_row s k) mr_project_id)"
  by (simp_all add: abs_db_def)

lemma map_meeting_row_sel [simp]:
  "mt_id (map_meeting_row r) = mr_id r" "mt_dir_path (map_meeting_row r) = mr_dir_path r"
  "mt_started_at (map_meeting_row r) = mr_started_at r"
  by (simp_all add: map_meeting_row_def)

lemma row_of_draft_sel [simp]:
  "mr_id (row_of_draft d e n) = md_id d" "mr_dir_path (row_of_draft d e n) = md_dir_path d"
  "mr_space_id (row_of_draft d e n) = None" "mr_project_id (row_of_draft d e n) = None"
  by (simp_all add: row_of_draft_def)

lemma map_row_of_draft:
  "(\<forall>v. n = Some v \<longrightarrow> v < 2 ^ 63) \<Longrightarrow>
     map_meeting_row (row_of_draft d e n) = meeting_of_draft d e n"
  by (cases n) (simp_all add: map_meeting_row_def row_of_draft_def meeting_of_draft_def)

lemma note_keys_distinct: "tables_ok s \<Longrightarrow> distinct (map nt_id (db_notes s))"
  by (simp add: tables_ok_def)

lemma note_id_not_in:
  "lookup nt_id (db_notes s) i = None \<longleftrightarrow> i \<notin> nt_id ` set (db_notes s)"
  by (rule lookup_None)

lemma dir_taken_abs:
  assumes "tables_ok s"
  shows "dir_taken p (abs_db s) \<longleftrightarrow> p \<in> mr_dir_path ` set (db_meetings s)"
proof
  assume "dir_taken p (abs_db s)"
  then show "p \<in> mr_dir_path ` set (db_meetings s)"
    by (auto simp: dir_taken_def dest!: lookup_SomeD)
next
  assume "p \<in> mr_dir_path ` set (db_meetings s)"
  then obtain row where "row \<in> set (db_meetings s)" "p = mr_dir_path row"
    by blast
  moreover from this have "get_row s (mr_id row) = Some row"
    using assms by (simp add: tables_ok_def lookup_unique)
  ultimately show "dir_taken p (abs_db s)"
    unfolding dir_taken_def by (intro exI [of _ "mr_id row"]) simp
qed

section \<open>Meetings\<close>

lemma insert_meeting_spec:
  assumes "tables_ok s" and "mr_space_id row = None" and "mr_project_id row = None"
    and "mr_id row = md_id d" and "mr_dir_path row = md_dir_path d"
  shows "(case insert_meeting dir_first row s of
     Inl e \<Rightarrow> e \<in> insert_errors d (abs_db s)
   | Inr s' \<Rightarrow> insert_errors d (abs_db s) = {} \<and> tables_ok s' \<and> db_notes s' = db_notes s \<and>
       abs_db s' = reg_add_meeting (map_meeting_row row) (abs_db s))"
proof -
  have clash: "rg_meetings (abs_db s) (md_id d) = None \<longleftrightarrow> get_row s (md_id d) = None"
    by simp
  have dir: "dir_taken (md_dir_path d) (abs_db s) \<longleftrightarrow>
      md_dir_path d \<in> mr_dir_path ` set (db_meetings s)"
    by (rule dir_taken_abs [OF assms(1)])
  show ?thesis
  proof (cases "get_row s (md_id d) = None \<and> md_dir_path d \<notin> mr_dir_path ` set (db_meetings s)")
    case True
    then have i: "insert_meeting dir_first row s = Inr (s\<lparr>db_meetings := db_meetings s @ [row]\<rparr>)"
      using assms by (simp add: insert_meeting_def)
    have "insert_errors d (abs_db s) = {}"
      using True clash dir by (simp add: insert_errors_empty)
    moreover have "tables_ok (s\<lparr>db_meetings := db_meetings s @ [row]\<rparr>)"
      using assms(1,4) True by (auto simp: tables_ok_def lookup_None)
    moreover have "abs_db (s\<lparr>db_meetings := db_meetings s @ [row]\<rparr>) =
        reg_add_meeting (map_meeting_row row) (abs_db s)"
      using assms True
      by (intro registry_eqI)
        (auto simp: reg_add_meeting_def table_simps fun_eq_iff split: option.splits)
    ultimately show ?thesis
      using i by simp
  next
    case False
    then show ?thesis
      using assms(4,5) clash dir by (auto simp: insert_meeting_def Let_def insert_errors_def)
  qed
qed

lemma sqlite_create_meeting:
  assumes "tables_ok s" and "create_meeting dir_first d s = (x, s')"
  shows "tables_ok s' \<and> spec (CreateMeeting d) (abs_db s) (case x of Inl e \<Rightarrow> RErr e | Inr m \<Rightarrow> RMeeting m)
    (abs_db s')"
  using insert_meeting_spec [OF assms(1), of "row_of_draft d None None" d dir_first] assms
  by (auto simp: create_meeting_def Let_def map_row_of_draft split: sum.splits)

lemma insert_note_spec:
  assumes "tables_ok s"
  shows "(case insert_note n s of
     Inl e \<Rightarrow> rg_notes (abs_db s) (nt_id n) \<noteq> None \<and> e = StAlreadyExists (nt_id n) ''note''
   | Inr s' \<Rightarrow> rg_notes (abs_db s) (nt_id n) = None \<and> tables_ok s' \<and>
       abs_db s' = reg_add_note n (abs_db s))"
proof (cases "lookup nt_id (db_notes s) (nt_id n) = None")
  case True
  have "tables_ok (s\<lparr>db_notes := db_notes s @ [n]\<rparr>)"
    using assms True by (auto simp: tables_ok_def lookup_None)
  moreover have "abs_db (s\<lparr>db_notes := db_notes s @ [n]\<rparr>) = reg_add_note n (abs_db s)"
    using True
    by (intro registry_eqI)
      (auto simp: reg_add_note_def table_simps fun_eq_iff split: option.splits)
  ultimately show ?thesis
    using True by (simp add: insert_note_def)
qed (simp add: insert_note_def)

lemma sqlite_create_meeting_with_note:
  assumes "tables_ok s" and "\<forall>v. dur = Some v \<longrightarrow> v < 2 ^ 63"
    and "create_meeting_with_note dir_first now d n e dur s = (x, s')"
  shows "tables_ok s' \<and> spec (CreateMeetingWithNote now d n e dur) (abs_db s)
    (case x of Inl e \<Rightarrow> RErr e | Inr (m, n) \<Rightarrow> RMeetingNote m n) (abs_db s')"
proof (cases "nd_meeting_id n = md_id d")
  case False
  then show ?thesis
    using assms by (auto simp: create_meeting_with_note_def Let_def)
next
  case True
  note ins = insert_meeting_spec [OF assms(1), of "row_of_draft d e dur" d dir_first]
  show ?thesis
  proof (cases "insert_meeting dir_first (row_of_draft d e dur) s")
    case (Inl err)
    then show ?thesis
      using assms ins True by (auto simp: create_meeting_with_note_def Let_def)
  next
    case (Inr tx)
    let ?n = "note_of_draft n (ck_rfc3339 now)"
    have tx: "insert_errors d (abs_db s) = {}" "tables_ok tx" "db_notes tx = db_notes s"
      "abs_db tx = reg_add_meeting (meeting_of_draft d e dur) (abs_db s)"
      using ins Inr map_row_of_draft [OF assms(2)] by simp_all
    show ?thesis
      using insert_note_spec [OF tx(2), of ?n] assms(1,3) Inr True tx
      by (auto simp: create_meeting_with_note_def Let_def split: sum.splits)
  qed
qed

lemma sqlite_get_meeting:
  "get_meeting i s = (x, s') \<Longrightarrow> s' = s \<and>
     spec (GetMeeting i) (abs_db s) (case x of Inl e \<Rightarrow> RErr e | Inr m \<Rightarrow> RMeeting m) (abs_db s')"
  by (auto simp: get_meeting_def guarded_def not_found_def split: option.splits)

lemma update_count:
  "(length (filter (\<lambda>r. mr_id r = i) (db_meetings s)) = 0) = (get_row s i = None)"
  by (auto simp: lookup_None filter_empty_conv)

text \<open>An update of one row that keeps the key.\<close>

lemma update_meeting_abs:
  assumes "\<And>r. mr_id (g r) = mr_id r" and "tables_ok s"
  shows "tables_ok (snd (update_meeting i g s))"
    and "get_row (snd (update_meeting i g s)) k =
      map_option (\<lambda>r. if k = i then g r else r) (get_row s k)"
    and "fst (update_meeting i g s) = 0 \<longleftrightarrow> get_row s i = None"
proof -
  have key: "mr_id (if mr_id r = i then g r else r) = mr_id r" for r
    using assms(1) by simp
  have "map mr_id (map (\<lambda>r. if mr_id r = i then g r else r) (db_meetings s)) =
      map mr_id (db_meetings s)"
    by (rule map_key_map) (rule key)
  then show "tables_ok (snd (update_meeting i g s))"
    using assms(2) by (simp add: tables_ok_def update_meeting_def del: map_map)
  have "get_row (snd (update_meeting i g s)) k =
      map_option (\<lambda>r. if mr_id r = i then g r else r) (get_row s k)"
    using lookup_map [of mr_id "\<lambda>r. if mr_id r = i then g r else r", OF key]
    by (simp add: update_meeting_def)
  also have "\<dots> = map_option (\<lambda>r. if k = i then g r else r) (get_row s k)"
    by (auto dest: lookup_SomeD intro!: option.map_cong)
  finally show "get_row (snd (update_meeting i g s)) k =
      map_option (\<lambda>r. if k = i then g r else r) (get_row s k)" .
  show "fst (update_meeting i g s) = 0 \<longleftrightarrow> get_row s i = None"
    unfolding update_meeting_def fst_conv by (rule update_count)
qed

lemma update_meeting_other [simp]:
  "db_notes (snd (update_meeting i g s)) = db_notes s"
  "db_spaces (snd (update_meeting i g s)) = db_spaces s"
  "db_projects (snd (update_meeting i g s)) = db_projects s"
  "db_tags (snd (update_meeting i g s)) = db_tags s"
  "db_meeting_tags (snd (update_meeting i g s)) = db_meeting_tags s"
  by (simp_all add: update_meeting_def)

lemma update_row_abs:
  assumes "\<And>r. mr_id (g r) = mr_id r" and "tables_ok s" and "get_row s i = Some row"
    and "\<And>r. mr_space_id (g r) = mr_space_id r" and "\<And>r. mr_project_id (g r) = mr_project_id r"
  shows "abs_db (snd (update_meeting i g s)) = reg_add_meeting (map_meeting_row (g row)) (abs_db s)"
proof -
  have "mr_id row = i"
    using lookup_SomeD [OF assms(3)] by simp
  then show ?thesis
    using assms(1,3-5)
    by (intro registry_eqI)
      (auto simp: reg_add_meeting_def update_meeting_abs(2) [OF assms(1,2)] fun_eq_iff
        map_option_case split: option.splits)
qed

lemma sqlite_update_row:
  assumes "\<And>r. mr_id (g r) = mr_id r" and "tables_ok s"
    and "\<And>r. mr_space_id (g r) = mr_space_id r" and "\<And>r. mr_project_id (g r) = mr_project_id r"
    and "(case update_meeting i g s of
        (n, s') \<Rightarrow> if n = 0 then (Inl (not_found ''meeting'' i), s') else get_meeting i s') = (x, s')"
  shows "tables_ok s' \<and>
    guarded [missing ''meeting'' i (rg_meetings (abs_db s))] (abs_db s)
      (case x of Inl e \<Rightarrow> RErr e | Inr m \<Rightarrow> RMeeting m) (abs_db s')
      (\<exists>row. get_row s i = Some row \<and> x = Inr (map_meeting_row (g row)) \<and>
         abs_db s' = reg_add_meeting (map_meeting_row (g row)) (abs_db s))"
proof (cases "get_row s i")
  case None
  have "map (\<lambda>r. if mr_id r = i then g r else r) (db_meetings s) = db_meetings s"
    using None by (intro map_idI) (auto simp: lookup_None)
  then have "update_meeting i g s = (0, s)"
    using None update_count [of i s] by (simp add: update_meeting_def)
  then show ?thesis
    using assms(2,5) None by (auto simp: guarded_def not_found_def)
next
  case (Some row)
  let ?u = "update_meeting i g s"
  have "fst ?u \<noteq> 0"
    using update_meeting_abs(3) [OF assms(1,2)] Some by simp
  moreover have "get_row (snd ?u) i = Some (g row)"
    using update_meeting_abs(2) [OF assms(1,2)] Some by simp
  ultimately have "x = Inr (map_meeting_row (g row))" "s' = snd ?u"
    using assms(5) by (auto simp: case_prod_beta get_meeting_def)
  then show ?thesis
    using update_row_abs [OF assms(1,2) Some assms(3,4)] update_meeting_abs(1) [OF assms(1,2)] Some
    by (simp add: guarded_def)
qed

lemma sqlite_update_meeting_ended:
  assumes "tables_ok s" and "dur < 2 ^ 63" and "update_meeting_ended i e dur s = (x, s')"
  shows "tables_ok s' \<and> spec (UpdateMeetingEnded i e dur) (abs_db s)
    (case x of Inl e \<Rightarrow> RErr e | Inr m \<Rightarrow> RMeeting m) (abs_db s')"
  using sqlite_update_row [OF _ assms(1) _ _ assms(3) [unfolded update_meeting_ended_def]] assms(2)
  by (auto simp: guarded_def Let_def map_meeting_row_def split: option.splits)

lemma sqlite_rename_meeting:
  assumes "tables_ok s" and "rename_meeting i t s = (x, s')"
  shows "tables_ok s' \<and> spec (RenameMeeting i t) (abs_db s)
    (case x of Inl e \<Rightarrow> RErr e | Inr m \<Rightarrow> RMeeting m) (abs_db s')"
  using sqlite_update_row [OF _ assms(1) _ _ assms(2) [unfolded rename_meeting_def]]
  by (auto simp: guarded_def Let_def map_meeting_row_def split: option.splits)

lemma sqlite_delete_meeting:
  assumes "tables_ok s" and "delete_meeting i s = (x, s')"
  shows "tables_ok s' \<and> spec (DeleteMeeting i) (abs_db s)
    (case x of Inl e \<Rightarrow> RErr e | Inr _ \<Rightarrow> RUnit) (abs_db s')"
proof (cases "get_row s i = None")
  case True
  then show ?thesis
    using assms update_count [of i s]
    by (auto simp: delete_meeting_def guarded_def not_found_def)
next
  case False
  let ?s = "s\<lparr>db_meetings := filter (\<lambda>r. mr_id r \<noteq> i) (db_meetings s),
      db_notes := filter (\<lambda>n. nt_meeting_id n \<noteq> i) (db_notes s),
      db_meeting_tags := filter (\<lambda>(m, t). m \<noteq> i) (db_meeting_tags s)\<rparr>"
  have s': "x = Inr ()" "s' = ?s"
    using assms(2) False update_count [of i s] by (auto simp: delete_meeting_def Let_def)
  have ok: "tables_ok ?s"
    using assms(1) by (simp add: tables_ok_def distinct_map_filter)
  have row: "get_row ?s k = (if k = i then None else get_row s k)" for k
    using assms(1) by (auto simp: table_simps tables_ok_def dest: lookup_SomeD
        split: bind_splits)
  have "abs_db ?s = reg_delete_meeting i (abs_db s)"
    using assms(1) row
    by (intro registry_eqI)
      (auto simp: reg_delete_meeting_def reg_drop_notes_def keep_only_def table_simps tables_ok_def
        fun_eq_iff)
  then show ?thesis
    using ok s' False by (simp add: guarded_def)
qed

section \<open>Notes\<close>

lemma sqlite_create_note:
  assumes "tables_ok s" and "create_note now d s = (x, s')"
  shows "tables_ok s' \<and> spec (CreateNote now d) (abs_db s)
    (case x of Inl e \<Rightarrow> RErr e | Inr n \<Rightarrow> RNote n) (abs_db s')"
  using insert_note_spec [OF assms(1), of "note_of_draft d (ck_rfc3339 now)"] assms
  by (auto simp: create_note_def guarded_def not_found_def Let_def split: if_splits sum.splits)

lemma drop_notes_abs:
  assumes "tables_ok s"
  shows "tables_ok (s\<lparr>db_notes := filter (\<lambda>n. nt_meeting_id n \<noteq> i) (db_notes s)\<rparr>)"
    and "abs_db (s\<lparr>db_notes := filter (\<lambda>n. nt_meeting_id n \<noteq> i) (db_notes s)\<rparr>) =
      reg_drop_notes i (abs_db s)"
proof -
  show "tables_ok (s\<lparr>db_notes := filter (\<lambda>n. nt_meeting_id n \<noteq> i) (db_notes s)\<rparr>)"
    using assms by (simp add: tables_ok_def distinct_map_filter)
  show "abs_db (s\<lparr>db_notes := filter (\<lambda>n. nt_meeting_id n \<noteq> i) (db_notes s)\<rparr>) =
      reg_drop_notes i (abs_db s)"
    using assms
    by (intro registry_eqI)
      (auto simp: reg_drop_notes_def keep_only_def table_simps tables_ok_def fun_eq_iff)
qed

lemma sqlite_replace_meeting_note:
  assumes "tables_ok s" and "replace_meeting_note now i d s = (x, s')"
  shows "tables_ok s' \<and> spec (ReplaceMeetingNote now i d) (abs_db s)
    (case x of Inl e \<Rightarrow> RErr e | Inr n \<Rightarrow> RNote n) (abs_db s')"
proof (cases "nd_meeting_id d = i \<and> get_row s i \<noteq> None")
  case False
  then show ?thesis
    using assms
    by (auto simp: replace_meeting_note_def guarded_def not_found_def split: if_splits)
next
  case True
  define tx where "tx = s\<lparr>db_notes := filter (\<lambda>n. nt_meeting_id n \<noteq> i) (db_notes s)\<rparr>"
  let ?n = "note_of_draft d (ck_rfc3339 now)"
  have tx: "tables_ok tx" "abs_db tx = reg_drop_notes i (abs_db s)"
    unfolding tx_def using drop_notes_abs [OF assms(1)] by simp_all
  have run: "replace_meeting_note now i d s =
      (case insert_note ?n tx of Inl e \<Rightarrow> (Inl e, s) | Inr tx \<Rightarrow> (Inr ?n, tx))"
    using True by (auto simp: replace_meeting_note_def tx_def Let_def)
  show ?thesis
    using insert_note_spec [OF tx(1), of ?n] assms True unfolding run tx(2)
    by (auto simp: guarded_def Let_def split: sum.splits)
qed

lemma sqlite_list_notes:
  assumes "tables_ok s" and "list_notes_for_meeting i s = (x, s')"
  shows "s' = s \<and> spec (ListNotesForMeeting i) (abs_db s)
    (case x of Inl e \<Rightarrow> RErr e | Inr xs \<Rightarrow> RNotes xs) (abs_db s')"
proof -
  have "{n \<in> values_of (rg_notes (abs_db s)). nt_meeting_id n = i} =
      {n \<in> set (db_notes s). nt_meeting_id n = i}"
    using assms(1) by (auto simp: values_of_def tables_ok_def lookup_eq_Some)
  moreover have "distinct (db_notes s)"
    using assms(1) by (auto simp: tables_ok_def distinct_map)
  ultimately show ?thesis
    using assms(2) by (auto simp: list_notes_for_meeting_def)
qed

section \<open>Listings of meetings\<close>

lemma tag_ids_abs:
  assumes "tables_ok s"
  shows "tag_ids_for_meeting s i = sorted_list_of_set {t. (i, t) \<in> set (db_meeting_tags s)}"
proof -
  let ?ts = "map snd (filter (\<lambda>(m, t). m = i) (db_meeting_tags s))"
  have "inj_on snd (set (filter (\<lambda>(m, t). m = i) (db_meeting_tags s)))"
    by (auto intro!: inj_onI)
  then have "distinct ?ts"
    using assms by (simp add: distinct_map tables_ok_def)
  moreover have "set ?ts = {t. (i, t) \<in> set (db_meeting_tags s)}"
    by force
  ultimately show ?thesis
    using sort_eq_sorted_list_of_set [of ?ts] by (simp add: tag_ids_for_meeting_def)
qed

lemma tag_ids_set:
  "set (tag_ids_for_meeting s i) = {t. (i, t) \<in> set (db_meeting_tags s)}"
  by (force simp: tag_ids_for_meeting_def)

lemma summary_abs:
  assumes "tables_ok s" and "row \<in> set (db_meetings s)"
  shows "summary_of_row s row = summary_of (abs_db s) (map_meeting_row row)"
proof -
  have row: "get_row s (mr_id row) = Some row"
    using assms by (simp add: tables_ok_def lookup_unique)
  have "(\<exists>n \<in> set (db_notes s). nt_meeting_id n = mr_id row) =
      (\<exists>k n. lookup nt_id (db_notes s) k = Some n \<and> nt_meeting_id n = mr_id row)"
    using assms(1) by (auto simp: tables_ok_def lookup_eq_Some)
  then show ?thesis
    using row tag_ids_abs [OF assms(1)]
    by (simp add: summary_of_row_def summary_of_def map_meeting_row_def u64_of_i64_clamped_def
        max_def split: option.split)
qed

lemma keep_summary_abs:
  assumes "tables_ok s" and "row \<in> set (db_meetings s)"
  shows "keep_summary f (summary_of_row s row) = passes f (abs_db s) (map_meeting_row row)"
proof -
  have row: "get_row s (mr_id row) = Some row"
    using assms by (simp add: tables_ok_def lookup_unique)
  then show ?thesis
    by (auto simp: keep_summary_def passes_def summary_of_row_def tag_ids_set split: option.splits)
qed

lemma meetings_values:
  "tables_ok s \<Longrightarrow>
     values_of (rg_meetings (abs_db s)) = map_meeting_row ` set (db_meetings s)"
  by (auto simp: values_of_def tables_ok_def lookup_eq_Some)

lemma sqlite_list_filtered:
  assumes "tables_ok s" and "list_meetings_filtered f s = (x, s')"
  shows "s' = s \<and> spec (ListMeetingsFiltered f) (abs_db s)
    (case x of Inl e \<Rightarrow> RErr e | Inr xs \<Rightarrow> RSummaries xs) (abs_db s')"
proof -
  let ?rows = "sort_desc_by mr_started_at (db_meetings s)"
  let ?xs = "filter (keep_summary f) (map (summary_of_row s) ?rows)"
  have x: "x = Inr ?xs" "s' = s"
    using assms(2) by (auto simp: list_meetings_filtered_def)
  have started: "map ms_started_at (map (summary_of_row s) ?rows) = map mr_started_at ?rows"
    by (simp add: summary_of_row_def)
  have "sorted (rev (map ms_started_at (map (summary_of_row s) ?rows)))"
    unfolding started by (rule sorted_sort_desc_by)
  then have "sorted (rev (map ms_started_at ?xs))"
    by (rule sorted_rev_filter)
  moreover have "distinct ?xs"
  proof -
    have "distinct (map ms_id (map (summary_of_row s) (db_meetings s)))"
      using assms(1) by (simp add: tables_ok_def summary_of_row_def comp_def)
    then have "distinct (map (summary_of_row s) (db_meetings s))"
      unfolding distinct_map by simp
    then have "distinct (map (summary_of_row s) ?rows)"
      by (simp add: distinct_map)
    then show ?thesis by simp
  qed
  moreover have "set ?xs = summary_of (abs_db s) `
      {m \<in> values_of (rg_meetings (abs_db s)). passes f (abs_db s) m}"
    unfolding meetings_values [OF assms(1)]
    using summary_abs [OF assms(1)] keep_summary_abs [OF assms(1)]
    by (auto simp: image_iff)
  ultimately show ?thesis
    using x by simp
qed

lemma sqlite_list_meetings:
  assumes "tables_ok s" and "list_meetings s = (x, s')"
  shows "s' = s \<and> spec ListMeetings (abs_db s)
    (case x of Inl e \<Rightarrow> RErr e | Inr xs \<Rightarrow> RSummaries xs) (abs_db s')"
proof -
  have "passes default_filter (abs_db s) m" for m
    by (simp add: passes_def default_filter_def)
  then show ?thesis
    using sqlite_list_filtered [OF assms(1), of default_filter x s'] assms(2)
    by (auto simp: list_meetings_def)
qed

section \<open>Spaces\<close>

lemma new_id_abs [simp]:
  "abs_db (snd (new_id kind now s)) = abs_db s" "tables_ok (snd (new_id kind now s)) = tables_ok s"
  "db_spaces (snd (new_id kind now s)) = db_spaces s"
  "db_projects (snd (new_id kind now s)) = db_projects s"
  "db_tags (snd (new_id kind now s)) = db_tags s"
  by (simp_all add: new_id_def Let_def abs_db_def tables_ok_def)

lemma spaces_values:
  "tables_ok s \<Longrightarrow> values_of (rg_spaces (abs_db s)) = sr_space ` set (db_spaces s)"
  by (auto simp: values_of_def tables_ok_def lookup_eq_Some)

lemma sqlite_create_space:
  assumes "tables_ok s" and "create_space now name s = (x, s')"
  shows "tables_ok s' \<and> spec (CreateSpace now name) (abs_db s)
    (case x of Inl e \<Rightarrow> RErr e | Inr sp \<Rightarrow> RSpace sp) (abs_db s')"
proof -
  obtain i s1 where n: "new_id ''space'' now s = (i, s1)"
    by fastforce
  then have s1: "tables_ok s1" "abs_db s1 = abs_db s"
    using assms(1) new_id_abs [of "''space''" now s] by simp_all
  show ?thesis
  proof (cases "lookup space_key (db_spaces s1) i = None")
    case False
    then show ?thesis
      using assms(2) n s1 by (auto simp: create_space_def unique_failed_def)
  next
    case True
    define sp where "sp = \<lparr>sp_id = i, sp_name = name,
        sp_position = position_after (map (\<lambda>r. sp_position (sr_space r)) (db_spaces s1))\<rparr>"
    define s2 where "s2 = s1\<lparr>db_spaces := db_spaces s1 @
        [\<lparr>sr_space = sp, sr_created_at = ck_rfc3339 now\<rparr>]\<rparr>"
    have x: "x = Inr sp" "s' = s2"
      using assms(2) n True by (auto simp: create_space_def sp_def s2_def Let_def)
    have key: "sp_id sp = i" "sp_name sp = name"
      by (simp_all add: sp_def)
    have "tables_ok s2"
      using s1(1) True key by (auto simp: tables_ok_def s2_def lookup_None)
    moreover have "abs_db s2 = (abs_db s1)\<lparr>rg_spaces := (rg_spaces (abs_db s1))(sp_id sp \<mapsto> sp)\<rparr>"
      using True key
      by (intro registry_eqI) (auto simp: s2_def table_simps fun_eq_iff split: option.splits)
    moreover have "rg_spaces (abs_db s1) (sp_id sp) = None"
      using True key by simp
    ultimately show ?thesis
      using x key s1(2) by auto
  qed
qed

lemma sqlite_list_spaces:
  assumes "tables_ok s" and "list_spaces s = (x, s')"
  shows "s' = s \<and> spec ListSpaces (abs_db s) (case x of Inl e \<Rightarrow> RErr e | Inr xs \<Rightarrow> RSpaces xs) (abs_db s')"
proof -
  have "distinct (map sp_id (map sr_space (db_spaces s)))"
    using assms(1) by (simp add: tables_ok_def comp_def)
  then have "distinct (map sr_space (db_spaces s))"
    unfolding distinct_map by simp
  from lists_set_sort [OF this refl] show ?thesis
    using assms spaces_values [OF assms(1)] by (auto simp: list_spaces_def)
qed

lemma count_zero: "(length (filter (\<lambda>r. key r = i) rows) = 0) = (lookup key rows i = None)"
  by (auto simp: lookup_None filter_empty_conv)

lemma sqlite_rename_space:
  assumes "tables_ok s" and "rename_space i name s = (x, s')"
  shows "tables_ok s' \<and> spec (RenameSpace i name) (abs_db s)
    (case x of Inl e \<Rightarrow> RErr e | Inr _ \<Rightarrow> RUnit) (abs_db s')"
proof -
  let ?g = "\<lambda>r. if space_key r = i then r\<lparr>sr_space := (sr_space r)\<lparr>sp_name := name\<rparr>\<rparr> else r"
  define s2 where "s2 = s\<lparr>db_spaces := map ?g (db_spaces s)\<rparr>"
  have key: "space_key (?g r) = space_key r" for r
    by simp
  have look: "lookup space_key (map ?g (db_spaces s)) k = map_option ?g (lookup space_key (db_spaces s) k)"
    for k
    by (rule lookup_map) (rule key)
  have ok: "tables_ok s2"
    using assms(1) map_key_map [of space_key ?g "db_spaces s", OF key]
    by (simp add: tables_ok_def s2_def del: map_map)
  have run: "x = (if lookup space_key (db_spaces s) i = None then Inl (not_found ''space'' i) else Inr ())"
    "s' = s2"
    using assms(2) count_zero [of space_key i "db_spaces s"]
    by (auto simp: rename_space_def Let_def s2_def split: if_splits)
  show ?thesis
  proof (cases "lookup space_key (db_spaces s) i")
    case None
    have "map ?g (db_spaces s) = db_spaces s"
      using None by (intro map_idI) (auto simp: lookup_None)
    then have "s2 = s"
      by (simp add: s2_def)
    then show ?thesis
      using ok run None by (simp add: guarded_def not_found_def)
  next
    case (Some row)
    have "space_key row = i"
      using lookup_SomeD [OF Some] by simp
    then have "abs_db s2 = (abs_db s)\<lparr>rg_spaces := (rg_spaces (abs_db s))(i \<mapsto>
        (sr_space row)\<lparr>sp_name := name\<rparr>)\<rparr>"
      using Some look
      by (intro registry_eqI)
        (auto simp: s2_def fun_eq_iff option.map_comp comp_def dest!: lookup_SomeD
          split: option.splits intro!: option.map_cong)
    then show ?thesis
      using ok run Some by (simp add: guarded_def)
  qed
qed

section \<open>Projects\<close>

lemma projects_values:
  "tables_ok s \<Longrightarrow> values_of (rg_projects (abs_db s)) = pr_project ` set (db_projects s)"
  by (auto simp: values_of_def tables_ok_def lookup_eq_Some)

lemma sqlite_create_project:
  assumes "tables_ok s" and "create_project now i name s = (x, s')"
  shows "tables_ok s' \<and> spec (CreateProject now i name) (abs_db s)
    (case x of Inl e \<Rightarrow> RErr e | Inr p \<Rightarrow> RProject p) (abs_db s')"
proof (cases "lookup space_key (db_spaces s) i = None")
  case True
  then show ?thesis
    using assms by (auto simp: create_project_def ensure_row_exists_def guarded_def not_found_def)
next
  case space: False
  obtain k s1 where n: "new_id ''project'' now s = (k, s1)"
    by fastforce
  then have s1: "tables_ok s1" "abs_db s1 = abs_db s"
    using assms(1) new_id_abs [of "''project''" now s] by simp_all
  show ?thesis
  proof (cases "lookup project_key (db_projects s1) k = None")
    case False
    then have "create_project now i name s = (Inl (unique_failed ''project.id''), s1)"
      using n space by (simp add: create_project_def ensure_row_exists_def Let_def)
    then show ?thesis
      using s1 space assms(2) by (auto simp: unique_failed_def guarded_def)
  next
    case True
    define p where "p = \<lparr>pj_id = k, pj_space_id = i, pj_name = name,
        pj_position = position_after (map (\<lambda>r. pj_position (pr_project r))
          (filter (\<lambda>r. pj_space_id (pr_project r) = i) (db_projects s1)))\<rparr>"
    define s2 where "s2 = s1\<lparr>db_projects := db_projects s1 @
        [\<lparr>pr_project = p, pr_created_at = ck_rfc3339 now\<rparr>]\<rparr>"
    have "create_project now i name s = (Inr p, s2)"
      using n True space
      by (simp add: create_project_def ensure_row_exists_def p_def s2_def Let_def)
    then have x: "x = Inr p" "s' = s2"
      using assms(2) by simp_all
    have key: "pj_id p = k" "pj_name p = name" "pj_space_id p = i"
      by (simp_all add: p_def)
    have "tables_ok s2"
      using s1(1) True key by (auto simp: tables_ok_def s2_def lookup_None)
    moreover have "abs_db s2 = (abs_db s1)\<lparr>rg_projects := (rg_projects (abs_db s1))(pj_id p \<mapsto> p)\<rparr>"
      using True key
      by (intro registry_eqI) (auto simp: s2_def table_simps fun_eq_iff split: option.splits)
    moreover have "rg_projects (abs_db s1) (pj_id p) = None"
      using True key by simp
    ultimately show ?thesis
      using x key s1(2) space by (auto simp: guarded_def)
  qed
qed

lemma projects_distinct: "tables_ok s \<Longrightarrow> distinct (map pr_project (db_projects s))"
proof -
  assume "tables_ok s"
  then have "distinct (map pj_id (map pr_project (db_projects s)))"
    by (simp add: tables_ok_def comp_def)
  then show ?thesis
    unfolding distinct_map by simp
qed

text \<open>One space's projects all have the same first sort key.\<close>

lemma sort_key_const_prefix:
  assumes "\<And>p. p \<in> set ps \<Longrightarrow> f p = c"
  shows "sorted (map (\<lambda>p. (f p, g p)) ps) \<longleftrightarrow> sorted (map g ps)"
  using assms by (induction ps) auto

lemma sqlite_list_projects:
  assumes "tables_ok s" and "list_projects sp s = (x, s')"
  shows "s' = s \<and> spec (ListProjects sp) (abs_db s)
    (case x of Inl e \<Rightarrow> RErr e | Inr xs \<Rightarrow> RProjects xs) (abs_db s')"
proof (cases sp)
  case None
  from lists_set_sort [OF projects_distinct [OF assms(1)] refl] show ?thesis
    using None assms projects_values [OF assms(1)] by (auto simp: list_projects_def)
next
  case (Some i)
  let ?ps = "filter (\<lambda>p. pj_space_id p = i) (map pr_project (db_projects s))"
  let ?xs = "sort_key (\<lambda>p. (pj_position p, pj_name p)) ?ps"
  have "sorted (map (\<lambda>p. (pj_space_id p, pj_position p, pj_name p)) ?xs)"
    by (subst sort_key_const_prefix [where f = pj_space_id and c = i]) auto
  moreover have "distinct ?ps"
    using projects_distinct [OF assms(1)] by simp
  moreover have "set ?xs = {p \<in> values_of (rg_projects (abs_db s)). pj_space_id p = i}"
    unfolding projects_values [OF assms(1)] by auto
  ultimately have "lists_set (\<lambda>p. (pj_space_id p, pj_position p, pj_name p))
      {p \<in> values_of (rg_projects (abs_db s)). pj_space_id p = i} ?xs"
    by (simp add: lists_set_def)
  then show ?thesis
    using assms(2) Some by (auto simp: list_projects_def)
qed

lemma sqlite_rename_project:
  assumes "tables_ok s" and "rename_project i name s = (x, s')"
  shows "tables_ok s' \<and> spec (RenameProject i name) (abs_db s)
    (case x of Inl e \<Rightarrow> RErr e | Inr _ \<Rightarrow> RUnit) (abs_db s')"
proof -
  let ?g = "\<lambda>r. if project_key r = i then r\<lparr>pr_project := (pr_project r)\<lparr>pj_name := name\<rparr>\<rparr> else r"
  define s2 where "s2 = s\<lparr>db_projects := map ?g (db_projects s)\<rparr>"
  have key: "project_key (?g r) = project_key r" for r
    by simp
  have look: "lookup project_key (map ?g (db_projects s)) k =
      map_option ?g (lookup project_key (db_projects s) k)" for k
    by (rule lookup_map) (rule key)
  have ok: "tables_ok s2"
    using assms(1) map_key_map [of project_key ?g "db_projects s", OF key]
    by (simp add: tables_ok_def s2_def del: map_map)
  have run: "x = (if lookup project_key (db_projects s) i = None
      then Inl (not_found ''project'' i) else Inr ())" "s' = s2"
    using assms(2) count_zero [of project_key i "db_projects s"]
    by (auto simp: rename_project_def Let_def s2_def split: if_splits)
  show ?thesis
  proof (cases "lookup project_key (db_projects s) i")
    case None
    have "map ?g (db_projects s) = db_projects s"
      using None by (intro map_idI) (auto simp: lookup_None)
    then have "s2 = s"
      by (simp add: s2_def)
    then show ?thesis
      using ok run None by (simp add: guarded_def not_found_def)
  next
    case (Some row)
    have "project_key row = i"
      using lookup_SomeD [OF Some] by simp
    then have "abs_db s2 = (abs_db s)\<lparr>rg_projects := (rg_projects (abs_db s))(i \<mapsto>
        (pr_project row)\<lparr>pj_name := name\<rparr>)\<rparr>"
      using Some look
      by (intro registry_eqI)
        (auto simp: s2_def fun_eq_iff option.map_comp comp_def dest!: lookup_SomeD
          split: option.splits intro!: option.map_cong)
    then show ?thesis
      using ok run Some by (simp add: guarded_def)
  qed
qed

text \<open>The cascade of a project deletion, over the rows and over the registry.\<close>

lemma drop_projects_abs:
  assumes "tables_ok s"
  shows "tables_ok (drop_projects (\<lambda>r. P (pr_project r)) s)"
    and "registry_ok (abs_db s) \<Longrightarrow>
      abs_db (drop_projects (\<lambda>r. P (pr_project r)) s) = reg_delete_projects P (abs_db s)"
proof -
  let ?gone = "map project_key (filter (\<lambda>r. P (pr_project r)) (db_projects s))"
  let ?g = "\<lambda>r. case mr_project_id r of
      None \<Rightarrow> r | Some p \<Rightarrow> if p \<in> set ?gone then r\<lparr>mr_project_id := None\<rparr> else r"
  let ?s = "drop_projects (\<lambda>r. P (pr_project r)) s"
  have key: "mr_id (?g r) = mr_id r" and m: "map_meeting_row (?g r) = map_meeting_row r"
    and sp: "mr_space_id (?g r) = mr_space_id r" for r
    by (auto simp: map_meeting_row_def split: option.split)
  have meetings: "db_meetings ?s = map ?g (db_meetings s)"
    by (simp add: drop_projects_def Let_def)
  have look: "get_row ?s k = map_option ?g (get_row s k)" for k
    unfolding meetings by (rule lookup_map) (rule key)
  have "map mr_id (map ?g (db_meetings s)) = map mr_id (db_meetings s)"
    by (rule map_key_map) (rule key)
  then show "tables_ok ?s"
    using assms by (simp add: tables_ok_def drop_projects_def distinct_map_filter Let_def del: map_map)
  have gone: "p \<in> set ?gone \<longleftrightarrow> (\<exists>q. rg_projects (abs_db s) p = Some q \<and> P q)" for p
  proof
    assume "p \<in> set ?gone"
    then obtain row where "row \<in> set (db_projects s)" "P (pr_project row)" "p = project_key row"
      by auto
    moreover from this have "lookup project_key (db_projects s) p = Some row"
      using assms lookup_unique [of project_key "db_projects s" row] by (simp add: tables_ok_def)
    ultimately show "\<exists>q. rg_projects (abs_db s) p = Some q \<and> P q"
      by simp
  next
    assume "\<exists>q. rg_projects (abs_db s) p = Some q \<and> P q"
    then show "p \<in> set ?gone"
      by (auto dest!: lookup_SomeD)
  qed
  have proj: "mr_project_id (?g r) = Option.bind (mr_project_id r)
      (\<lambda>p. if \<forall>q. rg_projects (abs_db s) p = Some q \<longrightarrow> \<not> P q then Some p else None)" for r
  proof (cases "mr_project_id r")
    case (Some p)
    define G where "G = set ?gone"
    have "p \<in> G \<longleftrightarrow> (\<exists>q. rg_projects (abs_db s) p = Some q \<and> P q)"
      using gone unfolding G_def .
    then show ?thesis
      unfolding G_def [symmetric] Some by (auto simp: Some simp del: abs_db_sel)
  qed simp
  assume "registry_ok (abs_db s)"
  show "abs_db ?s = reg_delete_projects P (abs_db s)"
  proof (rule registry_eqI)
    show "rg_meetings (abs_db ?s) = rg_meetings (reg_delete_projects P (abs_db s))"
      using m by (simp add: look reg_delete_projects_def option.map_comp comp_def)
    show "rg_space_of (abs_db ?s) = rg_space_of (reg_delete_projects P (abs_db s))"
      using sp by (auto simp: look reg_delete_projects_def fun_eq_iff split: bind_splits)
    show "rg_project_of (abs_db ?s) = rg_project_of (reg_delete_projects P (abs_db s))"
    proof
      fix k
      show "rg_project_of (abs_db ?s) k = rg_project_of (reg_delete_projects P (abs_db s)) k"
        by (cases "get_row s k")
          (simp_all add: look reg_delete_projects_def keep_only_def proj del: option.case_distrib)
    qed
    show "rg_projects (abs_db ?s) = rg_projects (reg_delete_projects P (abs_db s))"
    proof
      fix k
      show "rg_projects (abs_db ?s) k = rg_projects (reg_delete_projects P (abs_db s)) k"
        using assms
        by (cases "lookup project_key (db_projects s) k")
          (simp_all add: drop_projects_def Let_def reg_delete_projects_def keep_only_def
            lookup_filter tables_ok_def)
    qed
  qed (simp_all add: drop_projects_def reg_delete_projects_def Let_def)
qed

lemma lookup_project_pj_id:
  "lookup project_key (db_projects s) k = Some row \<Longrightarrow> pj_id (pr_project row) = k"
  using lookup_SomeD [of project_key] by fastforce

lemma sqlite_delete_project:
  assumes "db_ok s" and "delete_project i s = (x, s')"
  shows "tables_ok s' \<and> spec (DeleteProject i) (abs_db s)
    (case x of Inl e \<Rightarrow> RErr e | Inr _ \<Rightarrow> RUnit) (abs_db s')"
proof (cases "lookup project_key (db_projects s) i = None")
  case True
  then show ?thesis
    using assms by (auto simp: delete_project_def guarded_def not_found_def db_ok_def)
next
  case False
  then have "x = Inr ()" "s' = drop_projects (\<lambda>r. project_key r = i) s"
    using assms(2) by (auto simp: delete_project_def)
  then show ?thesis
    using drop_projects_abs [of s "\<lambda>p. pj_id p = i"] assms(1) False
    by (simp add: guarded_def db_ok_def)
qed

lemma drop_space_abs:
  assumes "db_ok s"
  shows "tables_ok (drop_space i s) \<and> abs_db (drop_space i s) = reg_delete_space i (abs_db s)"
proof -
  define s1 where "s1 = s\<lparr>db_spaces := filter (\<lambda>r. space_key r \<noteq> i) (db_spaces s)\<rparr>"
  define s2 where "s2 = drop_projects (\<lambda>r. pj_space_id (pr_project r) = i) s"
  define s3 where "s3 = drop_projects (\<lambda>r. pj_space_id (pr_project r) = i) s1"
  let ?g = "\<lambda>r. if mr_space_id r = Some i then r\<lparr>mr_space_id := None\<rparr> else r"
  have ok: "tables_ok s" "registry_ok (abs_db s)"
    using assms by (simp_all add: db_ok_def)
  have s3: "s3 = s2\<lparr>db_spaces := filter (\<lambda>r. space_key r \<noteq> i) (db_spaces s)\<rparr>"
    by (simp add: s3_def s2_def s1_def drop_projects_def Let_def)
  have spaces2: "db_spaces s2 = db_spaces s"
    by (simp add: s2_def drop_projects_def Let_def)
  have s2: "tables_ok s2" "abs_db s2 = reg_delete_projects (\<lambda>p. pj_space_id p = i) (abs_db s)"
    unfolding s2_def using drop_projects_abs [OF ok(1), of "\<lambda>p. pj_space_id p = i"] ok(2)
    by simp_all
  let ?s = "drop_space i s"
  have drop: "?s = s3\<lparr>db_meetings := map ?g (db_meetings s3)\<rparr>"
    by (simp add: drop_space_def s3_def s1_def Let_def)
  have key: "mr_id (?g r) = mr_id r" and m: "map_meeting_row (?g r) = map_meeting_row r"
    and pr: "mr_project_id (?g r) = mr_project_id r"
    and sp: "mr_space_id (?g r) = Option.bind (mr_space_id r) (\<lambda>k. if k \<noteq> i then Some k else None)"
    for r
    by (auto simp: map_meeting_row_def split: bind_splits)
  have look: "get_row ?s k = map_option ?g (get_row s2 k)" for k
  proof -
    have "get_row ?s k = lookup mr_id (map ?g (db_meetings s2)) k"
      by (simp add: drop s3)
    also have "\<dots> = map_option ?g (get_row s2 k)"
      by (rule lookup_map) (rule key)
    finally show ?thesis .
  qed
  have "map mr_id (map ?g (db_meetings s2)) = map mr_id (db_meetings s2)"
    by (rule map_key_map) (rule key)
  then have t: "tables_ok ?s"
    using s2(1) ok(1)
    by (simp add: tables_ok_def drop s3 distinct_map_filter del: map_map)
  have "abs_db ?s = reg_delete_space i (abs_db s)"
  proof (rule registry_eqI)
    show "rg_meetings (abs_db ?s) = rg_meetings (reg_delete_space i (abs_db s))"
      unfolding reg_delete_space_def s2(2) [symmetric] Let_def
      using m by (simp add: look option.map_comp comp_def)
    show "rg_project_of (abs_db ?s) = rg_project_of (reg_delete_space i (abs_db s))"
      unfolding reg_delete_space_def s2(2) [symmetric] Let_def
      using pr by (auto simp: look fun_eq_iff split: bind_splits)
    show "rg_space_of (abs_db ?s) = rg_space_of (reg_delete_space i (abs_db s))"
    proof
      fix k
      show "rg_space_of (abs_db ?s) k = rg_space_of (reg_delete_space i (abs_db s)) k"
        unfolding reg_delete_space_def s2(2) [symmetric] Let_def
        by (cases "get_row s2 k") (simp_all add: look keep_only_def sp)
    qed
    show "rg_spaces (abs_db ?s) = rg_spaces (reg_delete_space i (abs_db s))"
    proof
      fix k
      have "space_key row = k" if "lookup space_key (db_spaces s) k = Some row" for row
        using lookup_SomeD [OF that] by simp
      then show "rg_spaces (abs_db ?s) k = rg_spaces (reg_delete_space i (abs_db s)) k"
        unfolding reg_delete_space_def s2(2) [symmetric] Let_def
        using ok(1)
        by (cases "lookup space_key (db_spaces s) k")
          (auto simp: drop s3 spaces2 lookup_filter tables_ok_def)
    qed
  qed (unfold reg_delete_space_def s2(2) [symmetric] Let_def, simp_all add: drop s3)
  with t show ?thesis ..
qed

lemma sqlite_delete_space:
  assumes "db_ok s" and "delete_space i s = (x, s')"
  shows "tables_ok s' \<and> spec (DeleteSpace i) (abs_db s)
    (case x of Inl e \<Rightarrow> RErr e | Inr _ \<Rightarrow> RUnit) (abs_db s')"
proof (cases "lookup space_key (db_spaces s) i = None")
  case True
  then show ?thesis
    using assms by (auto simp: delete_space_def guarded_def not_found_def db_ok_def)
next
  case False
  then have "x = Inr ()" "s' = drop_space i s"
    using assms(2) by (auto simp: delete_space_def)
  then show ?thesis
    using drop_space_abs [OF assms(1), of i] False by (simp add: guarded_def)
qed

section \<open>Tags\<close>

lemma tags_values:
  "tables_ok s \<Longrightarrow> values_of (rg_tags (abs_db s)) = gr_tag ` set (db_tags s)"
  by (auto simp: values_of_def tables_ok_def lookup_eq_Some)

lemma tags_distinct: "tables_ok s \<Longrightarrow> distinct (map gr_tag (db_tags s))"
proof -
  assume "tables_ok s"
  then have "distinct (map tg_id (map gr_tag (db_tags s)))"
    by (simp add: tables_ok_def comp_def)
  then show ?thesis
    unfolding distinct_map by simp
qed

lemma get_tag_by_name_abs:
  assumes "tables_ok s"
  shows "(case get_tag_by_name s name of
      None \<Rightarrow> \<not> (\<exists>t \<in> values_of (rg_tags (abs_db s)). tg_name t = name)
    | Some t \<Rightarrow> t \<in> values_of (rg_tags (abs_db s)) \<and> tg_name t = name)"
  unfolding tags_values [OF assms] get_tag_by_name_def
  by (auto simp: find_None_iff find_Some_iff split: option.split)

lemma sqlite_create_tag:
  assumes "tables_ok s" and "create_tag now name s = (x, s')"
  shows "tables_ok s' \<and> spec (CreateTag now name) (abs_db s)
    (case x of Inl e \<Rightarrow> RErr e | Inr t \<Rightarrow> RTag t) (abs_db s')"
proof (cases "get_tag_by_name s name")
  case (Some t)
  then have "x = Inr t" "s' = s"
    using assms(2) by (auto simp: create_tag_def)
  then show ?thesis
    using get_tag_by_name_abs [OF assms(1), of name] Some assms(1) by (auto simp del: abs_db_sel)
next
  case None
  have fresh: "\<not> (\<exists>t \<in> values_of (rg_tags (abs_db s)). tg_name t = name)"
    using get_tag_by_name_abs [OF assms(1), of name] None by (simp del: abs_db_sel)
  obtain k s1 where n: "new_id ''tag'' now s = (k, s1)"
    by fastforce
  then have s1: "tables_ok s1" "abs_db s1 = abs_db s"
    using assms(1) new_id_abs [of "''tag''" now s] by simp_all
  show ?thesis
  proof (cases "lookup tag_key (db_tags s1) k = None")
    case False
    then have "create_tag now name s = (Inl (unique_failed ''tag.id''), s1)"
      using n None by (simp add: create_tag_def Let_def)
    then show ?thesis
      using s1 fresh assms(2) by (auto simp: unique_failed_def simp del: abs_db_sel)
  next
    case True
    define t where "t = \<lparr>tg_id = k, tg_name = name\<rparr>"
    define s2 where "s2 = s1\<lparr>db_tags := db_tags s1 @
        [\<lparr>gr_tag = t, gr_created_at = ck_rfc3339 now\<rparr>]\<rparr>"
    have "create_tag now name s = (Inr t, s2)"
      using n True None by (simp add: create_tag_def t_def s2_def Let_def)
    then have x: "x = Inr t" "s' = s2"
      using assms(2) by simp_all
    have key: "tg_id t = k" "tg_name t = name"
      by (simp_all add: t_def)
    have "tables_ok s2"
      using s1(1) True key by (auto simp: tables_ok_def s2_def lookup_None)
    moreover have "abs_db s2 = (abs_db s1)\<lparr>rg_tags := (rg_tags (abs_db s1))(tg_id t \<mapsto> t)\<rparr>"
      using True key
      by (intro registry_eqI) (auto simp: s2_def table_simps fun_eq_iff split: option.splits)
    moreover have "rg_tags (abs_db s1) (tg_id t) = None"
      using True key by simp
    ultimately show ?thesis
      using x key s1(2) fresh by (auto simp del: abs_db_sel)
  qed
qed

lemma sqlite_list_tags:
  assumes "tables_ok s" and "list_tags s = (x, s')"
  shows "s' = s \<and> spec ListTags (abs_db s) (case x of Inl e \<Rightarrow> RErr e | Inr xs \<Rightarrow> RTags xs) (abs_db s')"
  using lists_set_sort [OF tags_distinct [OF assms(1)] refl] assms tags_values [OF assms(1)]
  by (auto simp: list_tags_def)

lemma sqlite_delete_tag:
  assumes "tables_ok s" and "delete_tag i s = (x, s')"
  shows "tables_ok s' \<and> spec (DeleteTag i) (abs_db s)
    (case x of Inl e \<Rightarrow> RErr e | Inr _ \<Rightarrow> RUnit) (abs_db s')"
proof (cases "lookup tag_key (db_tags s) i = None")
  case True
  then show ?thesis
    using assms by (auto simp: delete_tag_def guarded_def not_found_def)
next
  case False
  define s2 where "s2 = s\<lparr>db_tags := filter (\<lambda>r. tag_key r \<noteq> i) (db_tags s),
      db_meeting_tags := filter (\<lambda>(m, t). t \<noteq> i) (db_meeting_tags s)\<rparr>"
  have x: "x = Inr ()" "s' = s2"
    using assms(2) False by (auto simp: delete_tag_def s2_def)
  have "tables_ok s2"
    using assms(1) by (simp add: tables_ok_def s2_def distinct_map_filter)
  moreover have "abs_db s2 = reg_delete_tag i (abs_db s)"
  proof (rule registry_eqI)
    show "rg_tags (abs_db s2) = rg_tags (reg_delete_tag i (abs_db s))"
    proof
      fix k
      have "tag_key row = k" if "lookup tag_key (db_tags s) k = Some row" for row
        using lookup_SomeD [OF that] by simp
      then show "rg_tags (abs_db s2) k = rg_tags (reg_delete_tag i (abs_db s)) k"
        using assms(1)
        by (cases "lookup tag_key (db_tags s) k")
          (auto simp: s2_def reg_delete_tag_def lookup_filter tables_ok_def)
    qed
  qed (auto simp: s2_def reg_delete_tag_def)
  ultimately show ?thesis
    using x False by (simp add: guarded_def)
qed

lemma with_meeting_and_tag_spec:
  assumes "tables_ok s" and "with_meeting_and_tag m t s f = (x, s')"
    and "tables_ok (f s)" and "abs_db (f s) = r"
  shows "tables_ok s' \<and>
    guarded [missing ''meeting'' m (rg_meetings (abs_db s)), missing ''tag'' t (rg_tags (abs_db s))]
      (abs_db s) (case x of Inl e \<Rightarrow> RErr e | Inr _ \<Rightarrow> RUnit) (abs_db s') (x = Inr () \<and> abs_db s' = r)"
  using assms
  by (auto simp: with_meeting_and_tag_def ensure_row_exists_def guarded_def not_found_def
      split: if_splits)

lemma sqlite_tag_meeting:
  assumes "tables_ok s" and "tag_meeting m t s = (x, s')"
  shows "tables_ok s' \<and> spec (TagMeeting m t) (abs_db s)
    (case x of Inl e \<Rightarrow> RErr e | Inr _ \<Rightarrow> RUnit) (abs_db s')"
proof -
  let ?f = "\<lambda>s. if (m, t) \<in> set (db_meeting_tags s) then s
      else s\<lparr>db_meeting_tags := db_meeting_tags s @ [(m, t)]\<rparr>"
  have "tables_ok (?f s)"
    using assms(1) by (simp add: tables_ok_def)
  moreover have "abs_db (?f s) =
      (abs_db s)\<lparr>rg_links := insert (m, t) (rg_links (abs_db s))\<rparr>"
    by (intro registry_eqI) auto
  ultimately show ?thesis
    using with_meeting_and_tag_spec [OF assms(1) assms(2) [unfolded tag_meeting_def]]
    by (auto simp: guarded_def)
qed

lemma sqlite_untag_meeting:
  assumes "tables_ok s" and "untag_meeting m t s = (x, s')"
  shows "tables_ok s' \<and> spec (UntagMeeting m t) (abs_db s)
    (case x of Inl e \<Rightarrow> RErr e | Inr _ \<Rightarrow> RUnit) (abs_db s')"
proof -
  let ?f = "\<lambda>s. s\<lparr>db_meeting_tags := filter (\<lambda>l. l \<noteq> (m, t)) (db_meeting_tags s)\<rparr>"
  have "tables_ok (?f s)"
    using assms(1) by (simp add: tables_ok_def)
  moreover have "abs_db (?f s) = (abs_db s)\<lparr>rg_links := rg_links (abs_db s) - {(m, t)}\<rparr>"
    by (intro registry_eqI) auto
  ultimately show ?thesis
    using with_meeting_and_tag_spec [OF assms(1) assms(2) [unfolded untag_meeting_def]]
    by (auto simp: guarded_def)
qed

lemma sqlite_list_tags_for_meeting:
  assumes "tables_ok s" and "list_tags_for_meeting i s = (x, s')"
  shows "s' = s \<and> spec (ListTagsForMeeting i) (abs_db s)
    (case x of Inl e \<Rightarrow> RErr e | Inr xs \<Rightarrow> RTags xs) (abs_db s')"
proof -
  let ?ts = "filter (\<lambda>t. (i, tg_id t) \<in> set (db_meeting_tags s)) (map gr_tag (db_tags s))"
  have d: "distinct ?ts"
    using tags_distinct [OF assms(1)] by simp
  have "set ?ts = {t \<in> values_of (rg_tags (abs_db s)). (i, tg_id t) \<in> rg_links (abs_db s)}"
    unfolding tags_values [OF assms(1)] by auto
  from lists_set_sort [OF d this] show ?thesis
    using assms(2)
    by (auto simp: list_tags_for_meeting_def ensure_row_exists_def guarded_def not_found_def
        split: if_splits)
qed

section \<open>Assignment\<close>

lemma set_place_abs:
  assumes "tables_ok s" and "get_row s i = Some row"
  shows "tables_ok (set_place i sp p s)" and "abs_db (set_place i sp p s) = reg_place i sp p (abs_db s)"
proof -
  let ?g = "\<lambda>r. r\<lparr>mr_space_id := sp, mr_project_id := p\<rparr>"
  have key: "mr_id (?g r) = mr_id r" and m: "map_meeting_row (?g r) = map_meeting_row r" for r
    by (simp_all add: map_meeting_row_def)
  note u = update_meeting_abs [of ?g, OF key assms(1)]
  show "tables_ok (set_place i sp p s)"
    unfolding set_place_def by (rule u(1))
  have look: "get_row (set_place i sp p s) k = (if k = i then Some (?g row) else get_row s k)" for k
    using u(2) [of i k] assms(2) by (cases "get_row s k") (auto simp: set_place_def)
  show "abs_db (set_place i sp p s) = reg_place i sp p (abs_db s)"
    using assms(2)
    by (intro registry_eqI)
      (auto simp: look m reg_place_def fun_eq_iff, simp_all add: set_place_def)
qed

lemma sqlite_assign_meeting:
  assumes "tables_ok s" and "assign_meeting i sp p s = (x, s')"
  shows "tables_ok s' \<and> spec (AssignMeeting i sp p) (abs_db s)
    (case x of Inl e \<Rightarrow> RErr e | Inr _ \<Rightarrow> RUnit) (abs_db s')"
proof (cases "get_row s i")
  case None
  then show ?thesis
    using assms by (auto simp: assign_meeting_def ensure_row_exists_def guarded_def not_found_def)
next
  case (Some row)
  note place = set_place_abs [OF assms(1) Some]
  show ?thesis
  proof (cases p)
    case p: None
    show ?thesis
    proof (cases sp)
      case None
      then have "x = Inr ()" "s' = set_place i None None s"
        using assms(2) Some p by (auto simp: assign_meeting_def ensure_row_exists_def)
      then show ?thesis
        using place Some p None by (simp add: guarded_def)
    next
      case sp: (Some k)
      show ?thesis
      proof (cases "lookup space_key (db_spaces s) k = None")
        case True
        then have "x = Inl (not_found ''space'' k)" "s' = s"
          using assms(2) Some p sp by (auto simp: assign_meeting_def ensure_row_exists_def)
        then show ?thesis
          using assms(1) Some p sp True by (simp add: guarded_def not_found_def)
      next
        case False
        then have "x = Inr ()" "s' = set_place i (Some k) None s"
          using assms(2) Some p sp by (auto simp: assign_meeting_def ensure_row_exists_def)
        then show ?thesis
          using place Some p sp False by (simp add: guarded_def)
      qed
    qed
  next
    case p: (Some k)
    show ?thesis
    proof (cases "lookup project_key (db_projects s) k")
      case None
      then have "x = Inl (not_found ''project'' k)" "s' = s"
        using assms(2) Some p by (auto simp: assign_meeting_def ensure_row_exists_def)
      then show ?thesis
        using assms(1) Some p None by (simp add: guarded_def not_found_def)
    next
      case pr: (Some r)
      then have "x = Inr ()" "s' = set_place i (Some (pj_space_id (pr_project r))) (Some k) s"
        using assms(2) Some p by (auto simp: assign_meeting_def ensure_row_exists_def)
      then show ?thesis
        using place Some p pr by (simp add: guarded_def)
    qed
  qed
qed

section \<open>The adapter implements the port\<close>

lemma sqlite_exec_spec:
  assumes "db_ok s" and "call_ok c"
  shows "tables_ok (snd (sqlite_exec dir_first c s)) \<and>
    spec c (abs_db s) (fst (sqlite_exec dir_first c s)) (abs_db (snd (sqlite_exec dir_first c s)))"
proof -
  have t: "tables_ok s"
    using assms(1) by (simp add: db_ok_def)
  have reply: "tables_ok (snd (reply f (g s))) \<and> spec c (abs_db s) (fst (reply f (g s))) (abs_db (snd (reply f (g s))))"
    if "\<And>x s'. g s = (x, s') \<Longrightarrow> tables_ok s' \<and>
      spec c (abs_db s) (case x of Inl e \<Rightarrow> RErr e | Inr y \<Rightarrow> f y) (abs_db s')"
    for f :: "'a \<Rightarrow> storage_reply" and g
    using that [OF prod.collapse [symmetric]] by (simp add: reply_def)
  have query: "tables_ok (snd (reply f (g s))) \<and> spec c (abs_db s) (fst (reply f (g s))) (abs_db (snd (reply f (g s))))"
    if "\<And>x s'. g s = (x, s') \<Longrightarrow> s' = s \<and>
      spec c (abs_db s) (case x of Inl e \<Rightarrow> RErr e | Inr y \<Rightarrow> f y) (abs_db s')"
    for f :: "'a \<Rightarrow> storage_reply" and g
    using that [OF prod.collapse [symmetric]] t by (auto simp: reply_def)
  show ?thesis
  proof (cases c)
    case (CreateMeeting d)
    then show ?thesis
      using reply [of "create_meeting dir_first d" RMeeting] sqlite_create_meeting [OF t] by simp
  next
    case (GetMeeting i)
    then show ?thesis
      using query [of "get_meeting i" RMeeting] sqlite_get_meeting by simp
  next
    case ListMeetings
    then show ?thesis
      using query [of list_meetings RSummaries] sqlite_list_meetings [OF t]
      by (simp del: spec.simps)
  next
    case (ListMeetingsFiltered f)
    then show ?thesis
      using query [of "list_meetings_filtered f" RSummaries] sqlite_list_filtered [OF t]
      by (simp del: spec.simps)
  next
    case (UpdateMeetingEnded i e d)
    then show ?thesis
      using reply [of "update_meeting_ended i e d" RMeeting] sqlite_update_meeting_ended [OF t]
        assms(2) by (simp del: spec.simps)
  next
    case (RenameMeeting i n)
    then show ?thesis
      using reply [of "rename_meeting i n" RMeeting] sqlite_rename_meeting [OF t]
      by (simp del: spec.simps)
  next
    case (DeleteMeeting i)
    then show ?thesis
      using reply [of "delete_meeting i" "\<lambda>_. RUnit"] sqlite_delete_meeting [OF t]
      by (simp del: spec.simps)
  next
    case (CreateNote now d)
    then show ?thesis
      using reply [of "create_note now d" RNote] sqlite_create_note [OF t] by (simp del: spec.simps)
  next
    case (ListNotesForMeeting i)
    then show ?thesis
      using query [of "list_notes_for_meeting i" RNotes] sqlite_list_notes [OF t]
      by (simp del: spec.simps)
  next
    case (ReplaceMeetingNote now i d)
    then show ?thesis
      using reply [of "replace_meeting_note now i d" RNote] sqlite_replace_meeting_note [OF t]
      by (simp del: spec.simps)
  next
    case (CreateSpace now n)
    then show ?thesis
      using reply [of "create_space now n" RSpace] sqlite_create_space [OF t]
      by (simp del: spec.simps)
  next
    case ListSpaces
    then show ?thesis
      using query [of list_spaces RSpaces] sqlite_list_spaces [OF t] by (simp del: spec.simps)
  next
    case (RenameSpace i n)
    then show ?thesis
      using reply [of "rename_space i n" "\<lambda>_. RUnit"] sqlite_rename_space [OF t]
      by (simp del: spec.simps)
  next
    case (DeleteSpace i)
    then show ?thesis
      using reply [of "delete_space i" "\<lambda>_. RUnit"] sqlite_delete_space [OF assms(1)]
      by (simp del: spec.simps)
  next
    case (CreateProject now sp n)
    then show ?thesis
      using reply [of "create_project now sp n" RProject] sqlite_create_project [OF t]
      by (simp del: spec.simps)
  next
    case (ListProjects sp)
    then show ?thesis
      using query [of "list_projects sp" RProjects] sqlite_list_projects [OF t]
      by (simp del: spec.simps)
  next
    case (RenameProject i n)
    then show ?thesis
      using reply [of "rename_project i n" "\<lambda>_. RUnit"] sqlite_rename_project [OF t]
      by (simp del: spec.simps)
  next
    case (DeleteProject i)
    then show ?thesis
      using reply [of "delete_project i" "\<lambda>_. RUnit"] sqlite_delete_project [OF assms(1)]
      by (simp del: spec.simps)
  next
    case (CreateTag now n)
    then show ?thesis
      using reply [of "create_tag now n" RTag] sqlite_create_tag [OF t] by (simp del: spec.simps)
  next
    case ListTags
    then show ?thesis
      using query [of list_tags RTags] sqlite_list_tags [OF t] by (simp del: spec.simps)
  next
    case (DeleteTag i)
    then show ?thesis
      using reply [of "delete_tag i" "\<lambda>_. RUnit"] sqlite_delete_tag [OF t] by (simp del: spec.simps)
  next
    case (TagMeeting m k)
    then show ?thesis
      using reply [of "tag_meeting m k" "\<lambda>_. RUnit"] sqlite_tag_meeting [OF t]
      by (simp del: spec.simps)
  next
    case (UntagMeeting m k)
    then show ?thesis
      using reply [of "untag_meeting m k" "\<lambda>_. RUnit"] sqlite_untag_meeting [OF t]
      by (simp del: spec.simps)
  next
    case (ListTagsForMeeting i)
    then show ?thesis
      using query [of "list_tags_for_meeting i" RTags] sqlite_list_tags_for_meeting [OF t]
      by (simp del: spec.simps)
  next
    case (AssignMeeting i sp p)
    then show ?thesis
      using reply [of "assign_meeting i sp p" "\<lambda>_. RUnit"] sqlite_assign_meeting [OF t]
      by (simp del: spec.simps)
  next
    case (CreateMeetingWithNote now d n e dur)
    show ?thesis
      using reply [of "create_meeting_with_note dir_first now d n e dur"
          "\<lambda>(m, n). RMeetingNote m n"] sqlite_create_meeting_with_note [OF t, of dur]
        assms(2) CreateMeetingWithNote
      by (simp del: spec.simps)
  qed
qed

lemma fresh_db_abs: "abs_db fresh_db = empty_registry"
  by (simp add: abs_db_def fresh_db_def empty_registry_def lookup_Nil fun_eq_iff)

lemma fresh_db_ok: "db_ok fresh_db"
  by (simp add: db_ok_def fresh_db_abs) (simp add: tables_ok_def fresh_db_def registry_ok_def
      empty_registry_def keyed_def unique_on_def)

interpretation sqlite: storage_port "sqlite_exec dir_first" db_ok abs_db fresh_db for dir_first
proof
  fix s c
  assume s: "db_ok s" "call_ok c"
  note x = sqlite_exec_spec [OF s, of dir_first]
  show "db_ok (snd (sqlite_exec dir_first c s))"
    using x spec_keeps_registry_ok s(1) by (auto simp: db_ok_def)
  show "spec c (abs_db s) (fst (sqlite_exec dir_first c s)) (abs_db (snd (sqlite_exec dir_first c s)))"
    using x by simp
qed (simp_all add: fresh_db_ok fresh_db_abs)

section \<open>Properties\<close>

definition sample_meeting :: meeting_draft where
  "sample_meeting = \<lparr>md_id = ''m1'', md_title = ''Standup'', md_started_at = ''2026-01-01'',
     md_language = ''en'', md_dir_path = ''/m/1''\<rparr>"

definition sample_clock :: clock where
  "sample_clock = \<lparr>ck_rfc3339 = ''2026-01-02'', ck_nanos = 0\<rparr>"

definition sample_note :: note_draft where
  "sample_note = \<lparr>nd_id = ''n1'', nd_meeting_id = ''m1'', nd_dialect = ''basic'',
     nd_content_md = ''text'', nd_primary_path = ''/m/1/notes.md''\<rparr>"

text \<open>C8: The SQLite adapter refines the storage port: in a consistent database, every call of the
  trait keeps the database consistent, and its reply and its effect on the abstract registry are
  those of the specification, errors and cascades included.\<close>

theorem sqlite_refines_port:
  assumes "db_ok s" and "call_ok c" and "sqlite_exec dir_first c s = (x, s')"
  shows "db_ok s' \<and> spec c (abs_db s) x (abs_db s')"
  using sqlite.exec_ok [OF assms(1,2), of dir_first] sqlite.exec_spec [OF assms(1,2), of dir_first]
    assms(3) by simp

theorem sqlite_refines_port_witness:
  "\<exists>x s'. sqlite_exec False (CreateMeeting sample_meeting) fresh_db = (x, s') \<and>
     abs_db s' = reg_add_meeting (meeting_of_draft sample_meeting None None) empty_registry"
proof -
  obtain x s' where run: "sqlite_exec False (CreateMeeting sample_meeting) fresh_db = (x, s')"
    by fastforce
  have "call_ok (CreateMeeting sample_meeting)"
    by simp
  from sqlite_refines_port [OF fresh_db_ok this run] run show ?thesis
    by (auto simp: fresh_db_abs Let_def insert_errors_def dir_taken_def empty_registry_def)
qed

text \<open>In every database that calls can build, references hold: a note, a tag link and a project
  point to existing rows, ids and directories are unique, and a meeting in a project is in that
  project's space.\<close>

theorem sqlite_reachable_references:
  assumes "list_all call_ok cs" and "s = snd (run_calls (sqlite_exec dir_first) cs fresh_db)"
  shows "distinct (map mr_id (db_meetings s)) \<and> distinct (map mr_dir_path (db_meetings s)) \<and>
    (\<forall>n \<in> set (db_notes s). nt_meeting_id n \<in> mr_id ` set (db_meetings s)) \<and>
    (\<forall>(m, t) \<in> set (db_meeting_tags s).
       m \<in> mr_id ` set (db_meetings s) \<and> t \<in> tag_key ` set (db_tags s)) \<and>
    (\<forall>r \<in> set (db_projects s). pj_space_id (pr_project r) \<in> space_key ` set (db_spaces s)) \<and>
    (\<forall>r \<in> set (db_meetings s). \<forall>p. mr_project_id r = Some p \<longrightarrow>
       (\<exists>q \<in> set (db_projects s). project_key q = p \<and>
          mr_space_id r = Some (pj_space_id (pr_project q))))"
proof -
  have ok: "db_ok s"
    unfolding assms(2) by (rule sqlite.run_ok [OF sqlite.init_ok assms(1)])
  then have t: "tables_ok s" and r: "registry_ok (abs_db s)"
    by (simp_all add: db_ok_def)
  have row: "get_row s (mr_id m) = Some m" if "m \<in> set (db_meetings s)" for m
    using t that by (simp add: tables_ok_def lookup_unique)
  have "inj_on mr_dir_path (set (db_meetings s))"
  proof (rule inj_onI)
    fix a b assume ab: "a \<in> set (db_meetings s)" "b \<in> set (db_meetings s)"
      "mr_dir_path a = mr_dir_path b"
    have "mr_id a = mr_id b"
      by (rule registry_ok_dirD [OF r, of _ "map_meeting_row a" _ "map_meeting_row b"])
        (use row [OF ab(1)] row [OF ab(2)] ab(3) in simp_all)
    then have "Some a = Some b"
      by (simp only: row [OF ab(1), symmetric] row [OF ab(2), symmetric])
    then show "a = b"
      by (simp only: option.inject)
  qed
  moreover have "distinct (db_meetings s)"
    using t by (auto simp: tables_ok_def distinct_map)
  ultimately have dirs: "distinct (map mr_dir_path (db_meetings s))"
    by (simp add: distinct_map)
  have note_refs: "\<forall>n \<in> set (db_notes s). nt_meeting_id n \<in> mr_id ` set (db_meetings s)"
  proof
    fix n assume n: "n \<in> set (db_notes s)"
    then have "rg_notes (abs_db s) (nt_id n) = Some n"
      using t by (simp add: tables_ok_def lookup_unique)
    then have "rg_meetings (abs_db s) (nt_meeting_id n) \<noteq> None"
      using r unfolding registry_ok_def by blast
    then have "get_row s (nt_meeting_id n) \<noteq> None"
      by simp
    then show "nt_meeting_id n \<in> mr_id ` set (db_meetings s)"
      unfolding lookup_None by simp
  qed
  have links: "\<forall>(m, k) \<in> set (db_meeting_tags s).
      m \<in> mr_id ` set (db_meetings s) \<and> k \<in> tag_key ` set (db_tags s)"
  proof clarify
    fix m k assume "(m, k) \<in> set (db_meeting_tags s)"
    then have "get_row s m \<noteq> None" "lookup tag_key (db_tags s) k \<noteq> None"
      using r by (auto simp: registry_ok_def)
    then show "m \<in> mr_id ` set (db_meetings s) \<and> k \<in> tag_key ` set (db_tags s)"
      unfolding lookup_None by simp
  qed
  have projects: "\<forall>q \<in> set (db_projects s).
      pj_space_id (pr_project q) \<in> space_key ` set (db_spaces s)"
  proof
    fix q assume "q \<in> set (db_projects s)"
    then have "lookup project_key (db_projects s) (project_key q) = Some q"
      using t lookup_unique [of project_key "db_projects s" q] by (simp add: tables_ok_def)
    then have "rg_projects (abs_db s) (project_key q) = Some (pr_project q)"
      by simp
    then have "rg_spaces (abs_db s) (pj_space_id (pr_project q)) \<noteq> None"
      using r unfolding registry_ok_def by blast
    then have "lookup space_key (db_spaces s) (pj_space_id (pr_project q)) \<noteq> None"
      by simp
    then show "pj_space_id (pr_project q) \<in> space_key ` set (db_spaces s)"
      unfolding lookup_None by simp
  qed
  have "\<exists>q \<in> set (db_projects s). project_key q = p \<and>
      mr_space_id m = Some (pj_space_id (pr_project q))"
    if m: "m \<in> set (db_meetings s)" "mr_project_id m = Some p" for m p
  proof -
    have "rg_project_of (abs_db s) (mr_id m) = Some p"
      using row [OF m(1)] m(2) by simp
    from registry_ok_projectD [OF r this] obtain q where
      "lookup project_key (db_projects s) p = Some q"
      "mr_space_id m = Some (pj_space_id (pr_project q))"
      using row [OF m(1)] by auto
    then show ?thesis
      using lookup_SomeD [of project_key "db_projects s" p q] by blast
  qed
  then show ?thesis
    using t dirs note_refs links projects by (simp add: tables_ok_def)
qed

theorem sqlite_reachable_references_witness:
  "let s = snd (run_calls (sqlite_exec False)
         [CreateMeetingWithNote sample_clock sample_meeting sample_note None (Some 60000),
          CreateTag sample_clock ''urgent''] fresh_db)
   in nt_meeting_id ` set (db_notes s) \<subseteq> mr_id ` set (db_meetings s)"
proof -
  have "list_all call_ok [CreateMeetingWithNote sample_clock sample_meeting sample_note None (Some 60000),
      CreateTag sample_clock ''urgent'']"
    by simp
  from sqlite_reachable_references [OF this refl, of False] show ?thesis
    unfolding Let_def by blast
qed

text \<open>A storage call that reports an error changes nothing that can be observed: failed
  insertions, rolled back transactions and missing rows leave the registry as it was.\<close>

theorem sqlite_error_unchanged:
  assumes "db_ok s" and "call_ok c" and "sqlite_exec dir_first c s = (RErr e, s')"
  shows "abs_db s' = abs_db s"
  using sqlite.error_unchanged [OF assms(1,2), of dir_first e] assms(3) by simp

theorem sqlite_error_unchanged_witness:
  "abs_db (snd (sqlite_exec False (DeleteMeeting ''m1'') fresh_db)) = abs_db fresh_db"
proof -
  have "sqlite_exec False (DeleteMeeting ''m1'') fresh_db =
      (RErr (not_found ''meeting'' ''m1''), snd (sqlite_exec False (DeleteMeeting ''m1'') fresh_db))"
    by (simp add: delete_meeting_def fresh_db_def)
  moreover have "call_ok (DeleteMeeting ''m1'')"
    by simp
  ultimately show ?thesis
    using sqlite_error_unchanged [OF fresh_db_ok] by blast
qed

text \<open>Deleting a meeting removes it with everything that hangs on it: afterwards the meeting is
  not found, it has no notes, no tag link mentions it, and no other meeting, note or link is lost.\<close>

theorem sqlite_delete_meeting_cascades:
  assumes "db_ok s" and "sqlite_exec dir_first (DeleteMeeting i) s = (RUnit, s')"
  shows "fst (sqlite_exec dir_first (GetMeeting i) s') = RErr (StNotFound i ''meeting'') \<and>
    fst (sqlite_exec dir_first (ListNotesForMeeting i) s') = RNotes [] \<and>
    abs_db s' = reg_delete_meeting i (abs_db s)"
proof -
  have "abs_db s' = reg_delete_meeting i (abs_db s)"
    using sqlite.exec_spec [OF assms(1), of "DeleteMeeting i" dir_first] assms(2)
    by (auto elim!: guardedE split: if_splits)
  then show ?thesis
    using sqlite.delete_then_get [OF assms(1), of dir_first i] assms(2) by simp
qed

definition sample_db :: db where
  "sample_db = snd (sqlite_exec False
     (CreateMeetingWithNote sample_clock sample_meeting sample_note None None) fresh_db)"

lemma sample_db_ok: "db_ok sample_db"
  unfolding sample_db_def by (rule sqlite.exec_ok [OF fresh_db_ok]) simp

lemma sample_db_eq:
  "sample_db = fresh_db\<lparr>db_meetings := [row_of_draft sample_meeting None None],
     db_notes := [note_of_draft sample_note ''2026-01-02'']\<rparr>"
  by (simp add: sample_db_def create_meeting_with_note_def sample_note_def sample_meeting_def
      insert_meeting_def insert_note_def fresh_db_def lookup_Nil sample_clock_def Let_def)

theorem sqlite_delete_meeting_cascades_witness:
  "fst (sqlite_exec False (ListNotesForMeeting ''m1'')
     (snd (sqlite_exec False (DeleteMeeting ''m1'') sample_db))) = RNotes []"
proof -
  have "sqlite_exec False (DeleteMeeting ''m1'') sample_db =
      (RUnit, snd (sqlite_exec False (DeleteMeeting ''m1'') sample_db))"
    by (simp add: delete_meeting_def sample_db_eq sample_meeting_def fresh_db_def Let_def)
  from sqlite_delete_meeting_cascades [OF sample_db_ok this] show ?thesis
    by simp
qed

text \<open>Saving notes replaces, never appends: after replace_meeting_note the meeting has exactly
  the new note, and the meeting row itself is unchanged.\<close>

theorem sqlite_replace_note_single:
  assumes "db_ok s" and "sqlite_exec dir_first (ReplaceMeetingNote now i d) s = (RNote n, s')"
  shows "n = note_of_draft d (ck_rfc3339 now) \<and>
    fst (sqlite_exec dir_first (ListNotesForMeeting i) s') = RNotes [n] \<and>
    rg_meetings (abs_db s') = rg_meetings (abs_db s)"
proof -
  have "n = note_of_draft d (ck_rfc3339 now)"
    "rg_meetings (abs_db s') = rg_meetings (abs_db s)"
    using sqlite.exec_spec [OF assms(1), of "ReplaceMeetingNote now i d" dir_first] assms(2)
    by (auto simp: Let_def reg_add_note_def reg_drop_notes_def simp del: abs_db_sel
        elim!: guardedE split: if_splits)
  then show ?thesis
    using sqlite.replace_single_note [OF assms(1), of dir_first now i d n] assms(2) by simp
qed

theorem sqlite_replace_note_single_witness:
  "fst (sqlite_exec False (ListNotesForMeeting ''m1'')
     (snd (sqlite_exec False (ReplaceMeetingNote sample_clock ''m1'' (sample_note\<lparr>nd_id := ''n2''\<rparr>))
       sample_db))) = RNotes [note_of_draft (sample_note\<lparr>nd_id := ''n2''\<rparr>) ''2026-01-02'']"
proof -
  let ?d = "sample_note\<lparr>nd_id := ''n2''\<rparr>"
  have "sqlite_exec False (ReplaceMeetingNote sample_clock ''m1'' ?d) sample_db =
      (RNote (note_of_draft ?d ''2026-01-02''),
       snd (sqlite_exec False (ReplaceMeetingNote sample_clock ''m1'' ?d) sample_db))"
    by (simp add: replace_meeting_note_def sample_db_eq sample_meeting_def fresh_db_def Let_def
        sample_note_def insert_note_def table_simps sample_clock_def note_of_draft_def)
  from sqlite_replace_note_single [OF sample_db_ok this] show ?thesis
    by simp
qed

end
