(* ===== verification/Storage_Agreement.thy ===== *)
theory Storage_Agreement
  imports Storage_Port
begin

text \<open>
  The specification of the port leaves open which identifier a new space, project or tag gets, which
  of several violated constraints a failing insertion reports, and the order of listings. Up to
  these, it is deterministic; hence any two adapters that implement it agree, which is what the
  shared conformance suites of the repository check by testing.
\<close>

fun no_new_id :: "storage_call \<Rightarrow> bool" where
  "no_new_id (CreateSpace now n) = False"
| "no_new_id (CreateProject now i n) = False"
| "no_new_id (CreateTag now n) = False"
| "no_new_id c = True"

fun inserts_meeting :: "storage_call \<Rightarrow> bool" where
  "inserts_meeting (CreateMeeting d) = True"
| "inserts_meeting (CreateMeetingWithNote now d n e dur) = True"
| "inserts_meeting c = False"

text \<open>Equal replies, up to the order of a listing and the constraint an insertion reports.\<close>

definition same_reply :: "storage_call \<Rightarrow> storage_reply \<Rightarrow> storage_reply \<Rightarrow> bool" where
  "same_reply c x y \<longleftrightarrow>
     (case (x, y) of
        (RErr e, RErr e') \<Rightarrow> e = e' \<or> inserts_meeting c
      | (RSummaries xs, RSummaries ys) \<Rightarrow>
          mset xs = mset ys \<and> map ms_started_at xs = map ms_started_at ys
      | (RNotes xs, RNotes ys) \<Rightarrow> mset xs = mset ys
      | (RSpaces xs, RSpaces ys) \<Rightarrow> mset xs = mset ys
      | (RProjects xs, RProjects ys) \<Rightarrow> mset xs = mset ys
      | (RTags xs, RTags ys) \<Rightarrow> mset xs = mset ys
      | _ \<Rightarrow> x = y)"

lemma same_reply_refl [simp]: "same_reply c x x"
  by (cases x) (simp_all add: same_reply_def)

fun same_replies :: "storage_call list \<Rightarrow> storage_reply list \<Rightarrow> storage_reply list \<Rightarrow> bool" where
  "same_replies [] [] [] = True"
| "same_replies (c # cs) (x # xs) (y # ys) = (same_reply c x y \<and> same_replies cs xs ys)"
| "same_replies _ _ _ = False"

lemma same_set_same_mset: "distinct xs \<Longrightarrow> distinct ys \<Longrightarrow> set xs = set ys \<Longrightarrow> mset xs = mset ys"
  by (simp add: set_eq_iff_mset_eq_distinct)

lemma lists_set_same: "lists_set key A xs \<Longrightarrow> lists_set key' A ys \<Longrightarrow> mset xs = mset ys"
  by (simp add: lists_set_def same_set_same_mset)

lemma sorted_rev_same:
  assumes "sorted (rev (map key xs))" and "sorted (rev (map key ys))" and "mset xs = mset ys"
  shows "map key xs = map key ys"
proof -
  have "mset (rev (map key xs)) = mset (rev (map key ys))"
    using assms(3) by simp
  then have "rev (map key xs) = rev (map key ys)"
    using assms(1,2) properties_for_sort by metis
  then show ?thesis by simp
qed

lemma summaries_same:
  assumes "sorted (rev (map ms_started_at xs))" "distinct xs"
    and "sorted (rev (map ms_started_at ys))" "distinct ys" and "set xs = set ys"
  shows "same_reply c (RSummaries xs) (RSummaries ys)"
  using assms same_set_same_mset [of xs ys] sorted_rev_same [of ms_started_at xs ys]
  by (simp add: same_reply_def)

text \<open>A guarded call: the same guard fails on both sides, or both go on.\<close>

lemma guarded_same:
  assumes "guarded gs r x r1 P" and "guarded gs r y r2 Q"
    and "P \<Longrightarrow> Q \<Longrightarrow> r1 = r2 \<and> same_reply c x y"
  shows "r1 = r2 \<and> same_reply c x y"
  using assms by (auto simp: guarded_def split: option.splits)

lemma spec_deterministic:
  assumes "spec c r x r1" and "spec c r y r2" and "no_new_id c"
  shows "r1 = r2 \<and> same_reply c x y"
proof (cases c)
  case (CreateMeeting d)
  with assms show ?thesis
    by (auto simp: Let_def same_reply_def split: if_splits)
next
  case (CreateMeetingWithNote now d n e dur)
  with assms show ?thesis
    by (auto simp: Let_def same_reply_def split: if_splits)
next
  case ListMeetings
  with assms show ?thesis
    by (auto intro: summaries_same)
next
  case (ListMeetingsFiltered f)
  with assms show ?thesis
    by (auto intro: summaries_same)
next
  case (ListNotesForMeeting i)
  with assms show ?thesis
    by (auto simp: same_reply_def) (rule same_set_same_mset, simp_all)
next
  case ListSpaces
  with assms show ?thesis
    by (auto simp: same_reply_def intro: lists_set_same)
next
  case (ListProjects sp)
  with assms show ?thesis
    by (auto simp: same_reply_def intro: lists_set_same)
next
  case ListTags
  with assms show ?thesis
    by (auto simp: same_reply_def intro: lists_set_same)
next
  case (ListTagsForMeeting i)
  show ?thesis
    using assms(1,2) unfolding ListTagsForMeeting spec.simps
    by (rule guarded_same) (auto simp: same_reply_def intro: lists_set_same)
next
  case (AssignMeeting i sp p)
  show ?thesis
    using assms(1,2) unfolding AssignMeeting spec.simps
    by (rule guarded_same)
      (cases p; cases sp; simp only: option.case; (erule (1) guarded_same)?; force)
qed (use assms in \<open>simp_all only: spec.simps no_new_id.simps Let_def\<close>,
    (erule (1) guarded_same, force)+)

section \<open>Two adapters\<close>

locale storage_ports =
  left: storage_port exec1 ok1 abs1 init1 + right: storage_port exec2 ok2 abs2 init2
  for exec1 :: "storage_call \<Rightarrow> 'a \<Rightarrow> storage_reply \<times> 'a" and ok1 abs1 init1
    and exec2 :: "storage_call \<Rightarrow> 'b \<Rightarrow> storage_reply \<times> 'b" and ok2 abs2 init2
begin

lemma runs_agree:
  assumes "ok1 s" and "ok2 t" and "abs1 s = abs2 t"
    and "list_all call_ok cs" and "list_all no_new_id cs"
    and "run_calls exec1 cs s = (xs, s')" and "run_calls exec2 cs t = (ys, t')"
  shows "abs1 s' = abs2 t' \<and> same_replies cs xs ys"
  using assms
proof (induction cs arbitrary: s t xs ys)
  case (Cons c cs)
  obtain x s1 y t1 where step: "exec1 c s = (x, s1)" "exec2 c t = (y, t1)"
    by fastforce
  have c: "call_ok c" "no_new_id c"
    using Cons.prems(4,5) by simp_all
  have "abs1 s1 = abs2 t1 \<and> same_reply c x y"
    using left.exec_spec [OF Cons.prems(1) c(1)] right.exec_spec [OF Cons.prems(2) c(1)] step
      Cons.prems(3) by (intro spec_deterministic [OF _ _ c(2)]) simp_all
  moreover have "ok1 s1" "ok2 t1"
    using left.exec_ok [OF Cons.prems(1) c(1)] right.exec_ok [OF Cons.prems(2) c(1)] step by simp_all
  moreover obtain xs' ys' where "run_calls exec1 cs s1 = (xs', s')" "xs = x # xs'"
    "run_calls exec2 cs t1 = (ys', t')" "ys = y # ys'"
    using Cons.prems(6,7) step by (auto split: prod.splits)
  ultimately show ?case
    using Cons.IH [of s1 t1 xs' ys'] Cons.prems(4,5) by simp
qed simp

lemma initial_runs_agree:
  assumes "list_all call_ok cs" and "list_all no_new_id cs"
    and "run_calls exec1 cs init1 = (xs, s)" and "run_calls exec2 cs init2 = (ys, t)"
  shows "abs1 s = abs2 t \<and> same_replies cs xs ys"
  using runs_agree [OF left.init_ok right.init_ok _ assms] left.init_abs right.init_abs by simp

end

end
