(* ===== verification/Memory_Correct.thy ===== *)
theory Memory_Correct
  imports Memory_Storage Sqlite_Correct Storage_Agreement
begin

text \<open>
  The in-memory adapter refines the same port as the SQLite adapter: its hash maps abstract to a
  registry, and every call keeps the maps well formed and does what the specification says. The
  second interpretation of \<open>storage_port\<close> gives it the interface's facts, and the two refinements
  together give the agreement of the two adapters.
\<close>

section \<open>Abstraction and invariant\<close>

definition tag_list :: "(string \<times> string list) list \<Rightarrow> string \<Rightarrow> string list" where
  "tag_list x m = (case map_of x m of None \<Rightarrow> [] | Some ts \<Rightarrow> ts)"

definition abs_mem :: "mem \<Rightarrow> registry" where
  "abs_mem s =
     \<lparr>rg_meetings = map_of (mem_meetings s), rg_notes = map_of (mem_notes s),
      rg_spaces = map_of (mem_spaces s), rg_projects = map_of (mem_projects s),
      rg_tags = map_of (mem_tags s),
      rg_links = {(m, t). t \<in> set (tag_list (mem_meeting_tags s) m)},
      rg_space_of = map_of (mem_meeting_spaces s),
      rg_project_of = map_of (mem_meeting_projects s)\<rparr>"

text \<open>The keys of a counter-named map are below the counter.\<close>

definition below :: "string \<Rightarrow> nat \<Rightarrow> (string \<times> 'v) list \<Rightarrow> bool" where
  "below pre n m = (\<forall>k. map_of m k \<noteq> None \<longrightarrow> (\<exists>i < n. k = pre @ dec i))"

definition maps_ok :: "mem \<Rightarrow> bool" where
  "maps_ok s \<longleftrightarrow>
     hm_ok (mem_meetings s) \<and> hm_ok (mem_notes s) \<and> hm_ok (mem_spaces s) \<and>
     hm_ok (mem_projects s) \<and> hm_ok (mem_tags s) \<and> hm_ok (mem_meeting_tags s) \<and>
     hm_ok (mem_meeting_spaces s) \<and> hm_ok (mem_meeting_projects s) \<and>
     (\<forall>m. sorted (tag_list (mem_meeting_tags s) m) \<and> distinct (tag_list (mem_meeting_tags s) m)) \<and>
     below ''space_'' (mem_next_space_id s) (mem_spaces s) \<and>
     below ''project_'' (mem_next_project_id s) (mem_projects s) \<and>
     below ''tag_'' (mem_next_tag_id s) (mem_tags s)"

definition mem_ok :: "mem \<Rightarrow> bool" where
  "mem_ok s = (maps_ok s \<and> registry_ok (abs_mem s))"

lemma abs_mem_sel [simp]:
  "rg_meetings (abs_mem s) = map_of (mem_meetings s)" "rg_notes (abs_mem s) = map_of (mem_notes s)"
  "rg_spaces (abs_mem s) = map_of (mem_spaces s)"
  "rg_projects (abs_mem s) = map_of (mem_projects s)" "rg_tags (abs_mem s) = map_of (mem_tags s)"
  "rg_links (abs_mem s) = {(m, t). t \<in> set (tag_list (mem_meeting_tags s) m)}"
  "rg_space_of (abs_mem s) = map_of (mem_meeting_spaces s)"
  "rg_project_of (abs_mem s) = map_of (mem_meeting_projects s)"
  by (simp_all add: abs_mem_def)

lemma maps_okD:
  assumes "maps_ok s"
  shows "hm_ok (mem_meetings s)" "hm_ok (mem_notes s)" "hm_ok (mem_spaces s)"
    "hm_ok (mem_projects s)" "hm_ok (mem_tags s)" "hm_ok (mem_meeting_tags s)"
    "hm_ok (mem_meeting_spaces s)" "hm_ok (mem_meeting_projects s)"
    "sorted (tag_list (mem_meeting_tags s) m)" "distinct (tag_list (mem_meeting_tags s) m)"
    "below ''space_'' (mem_next_space_id s) (mem_spaces s)"
    "below ''project_'' (mem_next_project_id s) (mem_projects s)"
    "below ''tag_'' (mem_next_tag_id s) (mem_tags s)"
  using assms by (simp_all add: maps_ok_def)

section \<open>Hash map lemmas\<close>

lemma hm_values_of: "hm_ok m \<Longrightarrow> set (hm_values m) = values_of (map_of m)"
  by (simp add: hm_values_set values_of_def)

lemma values_ofD: "v \<in> values_of m \<Longrightarrow> \<exists>k. m k = Some v"
  by (simp add: values_of_def)

lemma hm_values_distinct:
  assumes "hm_ok m" and "keyed key (map_of m)"
  shows "distinct (map key (hm_values m))"
proof -
  have "map key (hm_values m) = map fst m"
    using assms by (auto simp: hm_values_def hm_ok_def keyed_def)
  with assms(1) show ?thesis
    by (simp add: hm_ok_def)
qed

lemma hm_values_distinct': "hm_ok m \<Longrightarrow> keyed key (map_of m) \<Longrightarrow> distinct (hm_values m)"
  using hm_values_distinct distinct_map by blast

lemma hm_ok_map [simp]: "hm_ok (map (\<lambda>(k, v). (k, f k v)) m) = hm_ok m"
  by (simp add: hm_ok_def case_prod_beta comp_def)

lemma below_fresh: "below p n m \<Longrightarrow> map_of m (p @ dec n) = None"
  by (auto simp: below_def dec_inj)

lemma below_insert: "below p n m \<Longrightarrow> below p (Suc n) (hm_insert (p @ dec n) v m)"
  by (auto simp: below_def table_simps) (metis less_SucI option.distinct(1) option.exhaust)

lemma below_remove: "below p n m \<Longrightarrow> below p n (hm_remove k m)"
  by (auto simp: below_def table_simps)

lemma below_update: "below p n m \<Longrightarrow> below p n (map (\<lambda>(k, v). (k, f k v)) m)"
  by (auto simp: below_def table_simps)

text \<open>A modification of the value at one key.\<close>

lemma map_of_modify:
  "map_of m i = Some v \<Longrightarrow> map_of (map (\<lambda>(k, v). (k, if k = i then g v else v)) m) =
     (map_of m)(i \<mapsto> g v)"
  by (auto simp: fun_eq_iff table_simps map_option_case split: option.split)

lemma map_of_set:
  "map_of m i = Some v \<Longrightarrow> map_of (map (\<lambda>(k, v). (k, if k = i then w else v)) m) = (map_of m)(i \<mapsto> w)"
  by (rule map_of_modify [where g = "\<lambda>_. w"])

lemma fold_hm_remove: "map_of (fold hm_remove ks m) k = (if k \<in> set ks then None else map_of m k)"
  by (induction ks arbitrary: m) (simp_all add: table_simps)

lemma fold_hm_remove_ok: "hm_ok m \<Longrightarrow> hm_ok (fold hm_remove ks m)"
  by (induction ks arbitrary: m) simp_all

lemma clear_assignments_ok: "hm_ok m \<Longrightarrow> hm_ok (clear_assignments i m)"
  by (simp add: clear_assignments_def fold_hm_remove_ok)

lemma clear_assignments_map_of:
  assumes "hm_ok m"
  shows "map_of (clear_assignments i m) = keep_only (\<lambda>v. v \<noteq> i) (map_of m)"
proof
  fix k
  have "k \<in> set (map fst (filter (\<lambda>(k, v). v = i) m)) \<longleftrightarrow> map_of m k = Some i"
    using assms by (force simp: hm_ok_def)
  then show "map_of (clear_assignments i m) k = keep_only (\<lambda>v. v \<noteq> i) (map_of m) k"
    by (auto simp: clear_assignments_def fold_hm_remove keep_only_def split: option.split bind_split)
qed

lemma set_entry_map_of [simp]: "map_of (set_entry k v m) = (map_of m)(k := v)"
  by (simp add: set_entry_def table_simps split: option.split)

lemma set_entry_ok [simp]: "hm_ok m \<Longrightarrow> hm_ok (set_entry k v m)"
  by (simp add: set_entry_def split: option.split)

section \<open>Meetings\<close>

lemma mem_dir_taken:
  "maps_ok s \<Longrightarrow>
     (\<exists>m \<in> set (hm_values (mem_meetings s)). mt_dir_path m = p) = dir_taken p (abs_mem s)"
  by (simp add: hm_values_set maps_okD dir_taken_def) blast

lemma add_meeting_abs:
  assumes "maps_ok s" and "k = mt_id m"
  shows "maps_ok (s\<lparr>mem_meetings := hm_insert k m (mem_meetings s)\<rparr>) \<and>
    abs_mem (s\<lparr>mem_meetings := hm_insert k m (mem_meetings s)\<rparr>) = reg_add_meeting m (abs_mem s)"
  using assms by (auto simp: maps_ok_def intro!: registry_eqI simp: reg_add_meeting_def table_simps)

lemma add_note_abs:
  assumes "maps_ok s" and "k = nt_id n"
  shows "maps_ok (s\<lparr>mem_notes := hm_insert k n (mem_notes s)\<rparr>) \<and>
    abs_mem (s\<lparr>mem_notes := hm_insert k n (mem_notes s)\<rparr>) = reg_add_note n (abs_mem s)"
  using assms by (auto simp: maps_ok_def intro!: registry_eqI simp: reg_add_note_def table_simps)

lemma memory_create_meeting:
  assumes "maps_ok s" and "mem_create_meeting d s = (x, s')"
  shows "maps_ok s' \<and> spec (CreateMeeting d) (abs_mem s)
    (case x of Inl e \<Rightarrow> RErr e | Inr m \<Rightarrow> RMeeting m) (abs_mem s')"
  using assms add_meeting_abs [OF assms(1), of "md_id d" "meeting_of_draft d None None"]
  by (auto simp: mem_create_meeting_def mem_dir_taken insert_errors_def Let_def split: if_splits)

lemma memory_create_meeting_with_note:
  assumes "maps_ok s" and "mem_create_meeting_with_note now d n e dur s = (x, s')"
  shows "maps_ok s' \<and> spec (CreateMeetingWithNote now d n e dur) (abs_mem s)
    (case x of Inl e \<Rightarrow> RErr e | Inr (m, n) \<Rightarrow> RMeetingNote m n) (abs_mem s')"
proof -
  define s1 where "s1 = s\<lparr>mem_meetings := hm_insert (md_id d) (meeting_of_draft d e dur) (mem_meetings s)\<rparr>"
  have s1: "maps_ok s1 \<and> abs_mem s1 = reg_add_meeting (meeting_of_draft d e dur) (abs_mem s)"
    unfolding s1_def by (rule add_meeting_abs [OF assms(1)]) simp
  let ?nt = "note_of_draft n (ck_rfc3339 now)"
  have "maps_ok (s1\<lparr>mem_notes := hm_insert (nd_id n) ?nt (mem_notes s1)\<rparr>) \<and>
      abs_mem (s1\<lparr>mem_notes := hm_insert (nd_id n) ?nt (mem_notes s1)\<rparr>) =
        reg_add_note ?nt (reg_add_meeting (meeting_of_draft d e dur) (abs_mem s))"
    using add_note_abs [of s1 "nd_id n" ?nt] s1 by simp
  then show ?thesis
    using assms
    by (auto simp: mem_create_meeting_with_note_def mem_dir_taken insert_errors_def Let_def s1_def
        split: if_splits)
qed

lemma memory_get_meeting:
  "mem_get_meeting i s = (x, s') \<Longrightarrow> s' = s \<and>
     spec (GetMeeting i) (abs_mem s) (case x of Inl e \<Rightarrow> RErr e | Inr m \<Rightarrow> RMeeting m) (abs_mem s')"
  by (auto simp: mem_get_meeting_def guarded_def not_found_def split: option.splits)

lemma memory_modify_meeting:
  assumes "mem_ok s" and "mem_modify_meeting i g s = (x, s')"
    and "\<And>m. mt_id (g m) = mt_id m"
  shows "maps_ok s' \<and> guarded [missing ''meeting'' i (rg_meetings (abs_mem s))] (abs_mem s)
      (case x of Inl e \<Rightarrow> RErr e | Inr m \<Rightarrow> RMeeting m) (abs_mem s')
      (\<exists>m. map_of (mem_meetings s) i = Some m \<and> x = Inr (g m) \<and>
         abs_mem s' = reg_add_meeting (g m) (abs_mem s))"
proof (cases "map_of (mem_meetings s) i")
  case None
  then show ?thesis
    using assms by (auto simp: mem_modify_meeting_def guarded_def not_found_def mem_ok_def)
next
  case (Some m)
  have "mt_id m = i"
    using registry_ok_meetingD [of "abs_mem s" i m] Some assms(1) by (simp add: mem_ok_def)
  then have "abs_mem s' = reg_add_meeting (g m) (abs_mem s)"
    using assms(2,3) Some
    by (auto simp: mem_modify_meeting_def map_of_set reg_add_meeting_def intro!: registry_eqI)
  moreover have "maps_ok s'"
    using assms(1,2) Some by (auto simp: mem_modify_meeting_def maps_ok_def mem_ok_def)
  moreover have "x = Inr (g m)"
    using assms(2) Some by (simp add: mem_modify_meeting_def)
  ultimately show ?thesis
    using Some by (simp add: guarded_def)
qed

lemma memory_update_meeting_ended:
  assumes "mem_ok s" and "mem_update_meeting_ended i e dur s = (x, s')"
  shows "maps_ok s' \<and> spec (UpdateMeetingEnded i e dur) (abs_mem s)
    (case x of Inl e \<Rightarrow> RErr e | Inr m \<Rightarrow> RMeeting m) (abs_mem s')"
  using memory_modify_meeting [OF assms(1) assms(2) [unfolded mem_update_meeting_ended_def]]
  by (auto simp: guarded_def Let_def split: option.splits)

lemma memory_rename_meeting:
  assumes "mem_ok s" and "mem_rename_meeting i t s = (x, s')"
  shows "maps_ok s' \<and> spec (RenameMeeting i t) (abs_mem s)
    (case x of Inl e \<Rightarrow> RErr e | Inr m \<Rightarrow> RMeeting m) (abs_mem s')"
  using memory_modify_meeting [OF assms(1) assms(2) [unfolded mem_rename_meeting_def]]
  by (auto simp: guarded_def Let_def split: option.splits)

lemma tag_list_remove [simp]: "tag_list (hm_remove i x) m = (if m = i then [] else tag_list x m)"
  by (simp add: tag_list_def table_simps)

lemma memory_delete_meeting:
  assumes "maps_ok s" and "mem_delete_meeting i s = (x, s')"
  shows "maps_ok s' \<and> spec (DeleteMeeting i) (abs_mem s)
    (case x of Inl e \<Rightarrow> RErr e | Inr _ \<Rightarrow> RUnit) (abs_mem s')"
proof (cases "map_of (mem_meetings s) i = None")
  case True
  then show ?thesis
    using assms by (auto simp: mem_delete_meeting_def guarded_def not_found_def)
next
  case False
  then have "maps_ok s'"
    using assms by (auto simp: mem_delete_meeting_def maps_ok_def)
  moreover have "abs_mem s' = reg_delete_meeting i (abs_mem s)"
    using assms False maps_okD(2) [OF assms(1)]
    by (intro registry_eqI)
      (auto simp: mem_delete_meeting_def reg_delete_meeting_def reg_drop_notes_def keep_only_def
        table_simps fun_eq_iff split: if_splits)
  ultimately show ?thesis
    using assms False by (auto simp: mem_delete_meeting_def guarded_def)
qed

section \<open>Notes\<close>

lemma memory_create_note:
  assumes "maps_ok s" and "mem_create_note now d s = (x, s')"
  shows "maps_ok s' \<and> spec (CreateNote now d) (abs_mem s)
    (case x of Inl e \<Rightarrow> RErr e | Inr n \<Rightarrow> RNote n) (abs_mem s')"
  using assms add_note_abs [OF assms(1), of "nd_id d" "note_of_draft d (ck_rfc3339 now)"]
  by (auto simp: mem_create_note_def guarded_def not_found_def Let_def split: if_splits)

lemma memory_list_notes:
  assumes "mem_ok s" and "mem_list_notes_for_meeting i s = (x, s')"
  shows "s' = s \<and> spec (ListNotesForMeeting i) (abs_mem s)
    (case x of Inl e \<Rightarrow> RErr e | Inr xs \<Rightarrow> RNotes xs) (abs_mem s')"
proof -
  have "hm_ok (mem_notes s)" "keyed nt_id (map_of (mem_notes s))"
    using assms(1) by (simp_all add: mem_ok_def maps_ok_def registry_ok_def)
  then show ?thesis
    using assms(2) by (auto simp: mem_list_notes_for_meeting_def hm_values_of hm_values_distinct')
qed

lemma mem_drop_notes_abs:
  assumes "maps_ok s" and "s1 = s\<lparr>mem_notes := hm_retain (\<lambda>_ n. nt_meeting_id n \<noteq> i) (mem_notes s)\<rparr>"
  shows "maps_ok s1 \<and> abs_mem s1 = reg_drop_notes i (abs_mem s)"
proof -
  have "abs_mem s1 = reg_drop_notes i (abs_mem s)"
    unfolding assms(2) using maps_okD(2) [OF assms(1)]
    by (intro registry_eqI)
      (auto simp: reg_drop_notes_def keep_only_def table_simps fun_eq_iff)
  then show ?thesis
    using assms by (simp add: maps_ok_def)
qed

lemma memory_replace_meeting_note:
  assumes "maps_ok s" and "mem_replace_meeting_note now i d s = (x, s')"
  shows "maps_ok s' \<and> spec (ReplaceMeetingNote now i d) (abs_mem s)
    (case x of Inl e \<Rightarrow> RErr e | Inr n \<Rightarrow> RNote n) (abs_mem s')"
proof -
  define s1 where "s1 = s\<lparr>mem_notes := hm_retain (\<lambda>_ n. nt_meeting_id n \<noteq> i) (mem_notes s)\<rparr>"
  let ?n = "note_of_draft d (ck_rfc3339 now)"
  have s1: "maps_ok s1 \<and> abs_mem s1 = reg_drop_notes i (abs_mem s)"
    by (rule mem_drop_notes_abs [OF assms(1) s1_def])
  then have added: "maps_ok (s1\<lparr>mem_notes := hm_insert (nd_id d) ?n (mem_notes s1)\<rparr>) \<and>
      abs_mem (s1\<lparr>mem_notes := hm_insert (nd_id d) ?n (mem_notes s1)\<rparr>) =
        reg_add_note ?n (reg_drop_notes i (abs_mem s))"
    using add_note_abs [of s1 "nd_id d" ?n] by simp
  have free: "rg_notes (reg_drop_notes i (abs_mem s)) (nd_id d) = None \<longleftrightarrow>
      (\<nexists>n. map_of (mem_notes s) (nd_id d) = Some n \<and> nt_meeting_id n \<noteq> i)"
    by (auto simp: reg_drop_notes_def keep_only_def split: bind_split)
  have run: "mem_replace_meeting_note now i d s =
      (if nd_meeting_id d \<noteq> i
       then (Inl (StSql ''replace_meeting_note: draft.meeting_id must match meeting_id''), s)
       else if \<not> hm_contains_key (mem_meetings s) i then (Inl (not_found ''meeting'' i), s)
       else if rg_notes (reg_drop_notes i (abs_mem s)) (nd_id d) \<noteq> None
       then (Inl (StAlreadyExists (nd_id d) ''note''), s)
       else (Inr ?n, s1\<lparr>mem_notes := hm_insert (nd_id d) ?n (mem_notes s1)\<rparr>))"
    unfolding mem_replace_meeting_note_def free by (auto simp: s1_def Let_def)
  show ?thesis
    using assms added unfolding run
    by (auto simp: guarded_def not_found_def Let_def split: if_splits)
qed

section \<open>Listings of meetings\<close>

lemma mem_summary_abs:
  assumes "maps_ok s"
  shows "mem_summary s m = summary_of (abs_mem s) m"
proof -
  have "(\<exists>n \<in> set (hm_values (mem_notes s)). nt_meeting_id n = mt_id m) =
      (\<exists>k n. map_of (mem_notes s) k = Some n \<and> nt_meeting_id n = mt_id m)"
    using maps_okD(2) [OF assms] by (auto simp: hm_values_set)
  moreover have "tag_list (mem_meeting_tags s) (mt_id m) =
      sorted_list_of_set {t. t \<in> set (tag_list (mem_meeting_tags s) (mt_id m))}"
    using sorted_list_of_set.idem_if_sorted_distinct
      [OF maps_okD(9,10) [OF assms]] by simp
  ultimately show ?thesis
    by (simp add: mem_summary_def summary_of_def tag_list_def)
qed

lemma mem_keeps_abs: "mem_keeps f s m = passes f (abs_mem s) m"
  by (auto simp: mem_keeps_def passes_def tag_list_def split: option.splits)

lemma memory_list_filtered:
  assumes "mem_ok s" and "mem_list_meetings_filtered f s = (x, s')"
  shows "s' = s \<and> spec (ListMeetingsFiltered f) (abs_mem s)
    (case x of Inl e \<Rightarrow> RErr e | Inr xs \<Rightarrow> RSummaries xs) (abs_mem s')"
proof -
  let ?ms = "filter (mem_keeps f s) (hm_values (mem_meetings s))"
  let ?xs = "map (summary_of (abs_mem s)) ?ms"
  have ok: "maps_ok s" "keyed mt_id (map_of (mem_meetings s))"
    using assms(1) by (simp_all add: mem_ok_def registry_ok_def)
  have "distinct (map mt_id (hm_values (mem_meetings s)))"
    by (rule hm_values_distinct [OF maps_okD(1) [OF ok(1)] ok(2)])
  then have "distinct (map mt_id ?ms)"
    by (rule distinct_map_filter)
  then have "distinct (map ms_id ?xs)"
    by (simp add: summary_of_def comp_def)
  then have "distinct ?xs"
    unfolding distinct_map by simp
  moreover have "set ?xs = summary_of (abs_mem s) `
      {m \<in> values_of (rg_meetings (abs_mem s)). passes f (abs_mem s) m}"
    by (simp add: hm_values_of maps_okD(1) [OF ok(1)] mem_keeps_abs Collect_conj_eq Int_commute
        Collect_mem_eq [symmetric])
  moreover have "x = Inr (sort_desc_by ms_started_at ?xs)" "s' = s"
    using assms(2) mem_summary_abs [OF ok(1)]
    by (auto simp: mem_list_meetings_filtered_def intro!: arg_cong [where f = "sort_desc_by ms_started_at"])
  ultimately show ?thesis
    using sorted_sort_desc_by [of ms_started_at ?xs] by simp
qed

lemma memory_list_meetings:
  assumes "mem_ok s" and "mem_list_meetings s = (x, s')"
  shows "s' = s \<and> spec ListMeetings (abs_mem s)
    (case x of Inl e \<Rightarrow> RErr e | Inr xs \<Rightarrow> RSummaries xs) (abs_mem s')"
proof -
  have "passes default_filter (abs_mem s) m" for m
    by (simp add: passes_def default_filter_def)
  then show ?thesis
    using memory_list_filtered [OF assms(1), of default_filter x s'] assms(2)
    by (auto simp: mem_list_meetings_def)
qed

section \<open>Spaces\<close>

lemma memory_create_space:
  assumes "maps_ok s" and "mem_create_space name s = (x, s')"
  shows "maps_ok s' \<and> spec (CreateSpace now name) (abs_mem s)
    (case x of Inl e \<Rightarrow> RErr e | Inr sp \<Rightarrow> RSpace sp) (abs_mem s')"
proof -
  let ?i = "''space_'' @ dec (mem_next_space_id s)"
  define sp where "sp = \<lparr>sp_id = ?i, sp_name = name,
      sp_position = position_after (map sp_position (hm_values (mem_spaces s)))\<rparr>"
  have x: "x = Inr sp" "s' = s\<lparr>mem_next_space_id := mem_next_space_id s + 1,
      mem_spaces := hm_insert ?i sp (mem_spaces s)\<rparr>"
    using assms(2) by (auto simp: mem_create_space_def sp_def Let_def)
  have key: "sp_id sp = ?i" "sp_name sp = name"
    by (simp_all add: sp_def)
  have "maps_ok s'"
    using assms(1) below_insert [OF maps_okD(11) [OF assms(1)], of sp]
    by (simp add: x(2) maps_ok_def)
  moreover have "map_of (mem_spaces s) ?i = None"
    by (rule below_fresh [OF maps_okD(11) [OF assms(1)]])
  moreover have "abs_mem s' = (abs_mem s)\<lparr>rg_spaces := (rg_spaces (abs_mem s))(sp_id sp \<mapsto> sp)\<rparr>"
    using x(2) key by (intro registry_eqI) (simp_all add: table_simps)
  ultimately show ?thesis
    using x(1) key by auto
qed

lemma memory_list_spaces:
  assumes "mem_ok s" and "mem_list_spaces s = (x, s')"
  shows "s' = s \<and> spec ListSpaces (abs_mem s) (case x of Inl e \<Rightarrow> RErr e | Inr xs \<Rightarrow> RSpaces xs) (abs_mem s')"
proof -
  have h: "hm_ok (mem_spaces s)" "keyed sp_id (map_of (mem_spaces s))"
    using assms(1) by (simp_all add: mem_ok_def maps_ok_def registry_ok_def)
  from lists_set_sort [OF hm_values_distinct' [OF h] hm_values_of [OF h(1)]] show ?thesis
    using assms(2) by (auto simp: mem_list_spaces_def)
qed

lemma memory_rename_space:
  assumes "maps_ok s" and "mem_rename_space i name s = (x, s')"
  shows "maps_ok s' \<and> spec (RenameSpace i name) (abs_mem s)
    (case x of Inl e \<Rightarrow> RErr e | Inr _ \<Rightarrow> RUnit) (abs_mem s')"
proof (cases "map_of (mem_spaces s) i")
  case None
  then show ?thesis
    using assms by (auto simp: mem_rename_space_def guarded_def not_found_def)
next
  case (Some sp)
  have "maps_ok s'"
    using assms Some below_update [OF maps_okD(11) [OF assms(1)]]
    by (auto simp: mem_rename_space_def maps_ok_def)
  moreover have "abs_mem s' = (abs_mem s)\<lparr>rg_spaces := (rg_spaces (abs_mem s))(i \<mapsto>
      sp\<lparr>sp_name := name\<rparr>)\<rparr>"
    using assms Some by (auto simp: mem_rename_space_def map_of_modify intro!: registry_eqI)
  ultimately show ?thesis
    using assms Some by (auto simp: mem_rename_space_def guarded_def)
qed

section \<open>Projects\<close>

lemma memory_create_project:
  assumes "maps_ok s" and "mem_create_project sid name s = (x, s')"
  shows "maps_ok s' \<and> spec (CreateProject now sid name) (abs_mem s)
    (case x of Inl e \<Rightarrow> RErr e | Inr p \<Rightarrow> RProject p) (abs_mem s')"
proof (cases "map_of (mem_spaces s) sid = None")
  case True
  then show ?thesis
    using assms by (auto simp: mem_create_project_def guarded_def not_found_def)
next
  case space: False
  let ?i = "''project_'' @ dec (mem_next_project_id s)"
  define p where "p = \<lparr>pj_id = ?i, pj_space_id = sid, pj_name = name,
      pj_position = position_after (map pj_position
        (filter (\<lambda>p. pj_space_id p = sid) (hm_values (mem_projects s))))\<rparr>"
  have x: "x = Inr p" "s' = s\<lparr>mem_next_project_id := mem_next_project_id s + 1,
      mem_projects := hm_insert ?i p (mem_projects s)\<rparr>"
    using assms(2) space by (auto simp: mem_create_project_def p_def Let_def)
  have key: "pj_id p = ?i" "pj_name p = name" "pj_space_id p = sid"
    by (simp_all add: p_def)
  have "maps_ok s'"
    using assms(1) below_insert [OF maps_okD(12) [OF assms(1)], of p]
    by (simp add: x(2) maps_ok_def)
  moreover have "map_of (mem_projects s) ?i = None"
    by (rule below_fresh [OF maps_okD(12) [OF assms(1)]])
  moreover have "abs_mem s' =
      (abs_mem s)\<lparr>rg_projects := (rg_projects (abs_mem s))(pj_id p \<mapsto> p)\<rparr>"
    using x(2) key by (intro registry_eqI) (simp_all add: table_simps)
  ultimately show ?thesis
    using x(1) key space by (auto simp: guarded_def)
qed

lemma memory_list_projects:
  assumes "mem_ok s" and "mem_list_projects sp s = (x, s')"
  shows "s' = s \<and> spec (ListProjects sp) (abs_mem s)
    (case x of Inl e \<Rightarrow> RErr e | Inr xs \<Rightarrow> RProjects xs) (abs_mem s')"
proof -
  let ?keep = "\<lambda>p. case sp of None \<Rightarrow> True | Some i \<Rightarrow> pj_space_id p = i"
  have h: "hm_ok (mem_projects s)" "keyed pj_id (map_of (mem_projects s))"
    using assms(1) by (simp_all add: mem_ok_def maps_ok_def registry_ok_def)
  have "distinct (filter ?keep (hm_values (mem_projects s)))"
    using hm_values_distinct' [OF h] by simp
  moreover have "set (filter ?keep (hm_values (mem_projects s))) =
      {p \<in> values_of (map_of (mem_projects s)). \<forall>i. sp = Some i \<longrightarrow> pj_space_id p = i}"
    by (auto simp: hm_values_of [OF h(1)] split: option.splits)
  ultimately have "lists_set (\<lambda>p. (pj_space_id p, pj_position p, pj_name p))
      {p \<in> values_of (map_of (mem_projects s)). \<forall>i. sp = Some i \<longrightarrow> pj_space_id p = i}
      (sort_key (\<lambda>p. (pj_space_id p, pj_position p, pj_name p))
        (filter ?keep (hm_values (mem_projects s))))"
    by (rule lists_set_sort)
  then show ?thesis
    using assms(2) by (auto simp: mem_list_projects_def)
qed

lemma memory_rename_project:
  assumes "maps_ok s" and "mem_rename_project i name s = (x, s')"
  shows "maps_ok s' \<and> spec (RenameProject i name) (abs_mem s)
    (case x of Inl e \<Rightarrow> RErr e | Inr _ \<Rightarrow> RUnit) (abs_mem s')"
proof (cases "map_of (mem_projects s) i")
  case None
  then show ?thesis
    using assms by (auto simp: mem_rename_project_def guarded_def not_found_def)
next
  case (Some p)
  have "maps_ok s'"
    using assms Some below_update [OF maps_okD(12) [OF assms(1)]]
    by (auto simp: mem_rename_project_def maps_ok_def)
  moreover have "abs_mem s' = (abs_mem s)\<lparr>rg_projects := (rg_projects (abs_mem s))(i \<mapsto>
      p\<lparr>pj_name := name\<rparr>)\<rparr>"
    using assms Some by (auto simp: mem_rename_project_def map_of_modify intro!: registry_eqI)
  ultimately show ?thesis
    using assms Some by (auto simp: mem_rename_project_def guarded_def)
qed

text \<open>Removing projects one by one, and clearing their assignments, is one cascade.\<close>

lemma remove_projects:
  fixes ids :: "string list"
  assumes "hm_ok (mem_meeting_projects s)"
  defines "s1 \<equiv> fold remove_project ids s"
  shows "map_of (mem_projects s1) k = (if k \<in> set ids then None else map_of (mem_projects s) k)"
    and "map_of (mem_meeting_projects s1) =
      keep_only (\<lambda>p. p \<notin> set ids) (map_of (mem_meeting_projects s))"
    and "hm_ok (mem_meeting_projects s1)"
    and "hm_ok (mem_projects s) \<Longrightarrow> hm_ok (mem_projects s1)"
    and "mem_meetings s1 = mem_meetings s \<and> mem_notes s1 = mem_notes s \<and>
      mem_spaces s1 = mem_spaces s \<and> mem_tags s1 = mem_tags s \<and>
      mem_meeting_tags s1 = mem_meeting_tags s \<and> mem_meeting_spaces s1 = mem_meeting_spaces s \<and>
      mem_next_space_id s1 = mem_next_space_id s \<and>
      mem_next_project_id s1 = mem_next_project_id s \<and> mem_next_tag_id s1 = mem_next_tag_id s"
  unfolding s1_def using assms(1)
  by (induction ids arbitrary: s)
    (auto simp: remove_project_def clear_project_assignments_def clear_assignments_map_of
      clear_assignments_ok table_simps keep_only_def fun_eq_iff split: bind_split)

lemma remove_projects_abs:
  assumes "mem_ok s" and "\<And>k. k \<in> set ids \<longleftrightarrow> (\<exists>p. map_of (mem_projects s) k = Some p \<and> P p)"
  shows "maps_ok (fold remove_project ids s) \<and>
    abs_mem (fold remove_project ids s) = reg_delete_projects P (abs_mem s)"
proof -
  have m: "maps_ok s"
    using assms(1) by (simp add: mem_ok_def)
  note r = remove_projects [OF maps_okD(8) [OF m], of ids]
  have "map_of (mem_projects (fold remove_project ids s)) =
      keep_only (\<lambda>p. \<not> P p) (map_of (mem_projects s))"
    by (auto simp: r(1) assms(2) keep_only_def fun_eq_iff split: bind_split)
  moreover have "map_of (mem_meeting_projects (fold remove_project ids s)) =
      keep_only (\<lambda>i. \<forall>p. map_of (mem_projects s) i = Some p \<longrightarrow> \<not> P p)
        (map_of (mem_meeting_projects s))"
    by (auto simp: r(2) assms(2) keep_only_def fun_eq_iff split: bind_split)
  ultimately have "abs_mem (fold remove_project ids s) = reg_delete_projects P (abs_mem s)"
    using r(5) by (intro registry_eqI) (simp_all add: reg_delete_projects_def)
  moreover have "maps_ok (fold remove_project ids s)"
    using m r(3,5) r(4) [OF maps_okD(4) [OF m]] unfolding maps_ok_def
    by (auto simp: below_def r(1) split: if_splits)
  ultimately show ?thesis by simp
qed

lemma memory_delete_project:
  assumes "mem_ok s" and "mem_delete_project i s = (x, s')"
  shows "maps_ok s' \<and> spec (DeleteProject i) (abs_mem s)
    (case x of Inl e \<Rightarrow> RErr e | Inr _ \<Rightarrow> RUnit) (abs_mem s')"
proof (cases "map_of (mem_projects s) i = None")
  case True
  then show ?thesis
    using assms by (auto simp: mem_delete_project_def guarded_def not_found_def mem_ok_def)
next
  case False
  have "keyed pj_id (map_of (mem_projects s))"
    using assms(1) by (simp add: mem_ok_def registry_ok_def)
  then have "k \<in> set [i] \<longleftrightarrow> (\<exists>p. map_of (mem_projects s) k = Some p \<and> pj_id p = i)" for k
    using False by (auto simp: keyed_def)
  from remove_projects_abs [OF assms(1) this] show ?thesis
    using assms(2) False by (auto simp: mem_delete_project_def guarded_def)
qed

lemma remove_project_spaces:
  "remove_project a (s\<lparr>mem_spaces := w\<rparr>) = (remove_project a s)\<lparr>mem_spaces := w\<rparr>"
  by (cases s) (simp add: remove_project_def clear_project_assignments_def)

lemma fold_remove_project_spaces:
  "fold remove_project js (s\<lparr>mem_spaces := w\<rparr>) = (fold remove_project js s)\<lparr>mem_spaces := w\<rparr>"
  by (induction js arbitrary: s) (simp_all add: remove_project_spaces)

lemma memory_delete_space:
  assumes "mem_ok s" and "mem_delete_space i s = (x, s')"
  shows "maps_ok s' \<and> spec (DeleteSpace i) (abs_mem s)
    (case x of Inl e \<Rightarrow> RErr e | Inr _ \<Rightarrow> RUnit) (abs_mem s')"
proof (cases "map_of (mem_spaces s) i = None")
  case True
  then show ?thesis
    using assms by (auto simp: mem_delete_space_def guarded_def not_found_def mem_ok_def)
next
  case False
  let ?ids = "map pj_id (filter (\<lambda>p. pj_space_id p = i) (hm_values (mem_projects s)))"
  define s0 where "s0 = s\<lparr>mem_spaces := hm_remove i (mem_spaces s)\<rparr>"
  define s1 where "s1 = fold remove_project ?ids s"
  have m: "maps_ok s" "keyed pj_id (map_of (mem_projects s))"
    using assms(1) by (simp_all add: mem_ok_def registry_ok_def)
  have ids: "k \<in> set ?ids \<longleftrightarrow> (\<exists>p. map_of (mem_projects s) k = Some p \<and> pj_space_id p = i)" for k
    using m by (force simp: hm_values_of maps_okD values_of_def keyed_def)
  have s1: "maps_ok s1 \<and> abs_mem s1 = reg_delete_projects (\<lambda>p. pj_space_id p = i) (abs_mem s)"
    unfolding s1_def by (rule remove_projects_abs [OF assms(1) ids])
  have "fold remove_project ?ids s0 = s1\<lparr>mem_spaces := hm_remove i (mem_spaces s)\<rparr>"
    by (simp add: s0_def s1_def fold_remove_project_spaces)
  moreover have "mem_spaces s1 = mem_spaces s"
    using remove_projects(5) [OF maps_okD(8) [OF m(1)]] by (simp add: s1_def)
  ultimately have x: "x = Inr ()"
    "s' = s1\<lparr>mem_spaces := hm_remove i (mem_spaces s1),
       mem_meeting_spaces := clear_assignments i (mem_meeting_spaces s1)\<rparr>"
    using assms(2) False
    by (auto simp: mem_delete_space_def clear_space_assignments_def Let_def s0_def)
  have "maps_ok s'"
    using s1 below_remove by (auto simp: x(2) maps_ok_def clear_assignments_ok)
  moreover have "abs_mem s' = reg_delete_space i (abs_mem s)"
    unfolding reg_delete_space_def Let_def conjunct2 [OF s1, symmetric]
    using maps_okD [OF conjunct1 [OF s1]]
    by (intro registry_eqI) (simp_all add: x(2) table_simps clear_assignments_map_of)
  ultimately show ?thesis
    using x(1) False by (simp add: guarded_def)
qed

section \<open>Tags\<close>

lemma memory_create_tag:
  assumes "maps_ok s" and "mem_create_tag name s = (x, s')"
  shows "maps_ok s' \<and> spec (CreateTag now name) (abs_mem s)
    (case x of Inl e \<Rightarrow> RErr e | Inr t \<Rightarrow> RTag t) (abs_mem s')"
proof (cases "List.find (\<lambda>t. tg_name t = name) (hm_values (mem_tags s))")
  case (Some t)
  then have "t \<in> set (hm_values (mem_tags s))" "tg_name t = name"
    by (auto simp: find_Some_iff)
  then have "t \<in> values_of (rg_tags (abs_mem s))" "tg_name t = name"
    using maps_okD(5) [OF assms(1)] by (simp_all add: hm_values_of)
  then show ?thesis
    using assms Some by (auto simp: mem_create_tag_def)
next
  case None
  let ?i = "''tag_'' @ dec (mem_next_tag_id s)"
  define t where "t = \<lparr>tg_id = ?i, tg_name = name\<rparr>"
  have x: "x = Inr t" "s' = s\<lparr>mem_next_tag_id := mem_next_tag_id s + 1,
      mem_tags := hm_insert ?i t (mem_tags s)\<rparr>"
    using assms(2) None by (auto simp: mem_create_tag_def t_def Let_def)
  have key: "tg_id t = ?i" "tg_name t = name"
    by (simp_all add: t_def)
  have none: "\<not> (\<exists>u \<in> values_of (rg_tags (abs_mem s)). tg_name u = name)"
    using None maps_okD(5) [OF assms(1)] by (auto simp: find_None_iff hm_values_of)
  have "maps_ok s'"
    using assms(1) below_insert [OF maps_okD(13) [OF assms(1)], of t]
    by (simp add: x(2) maps_ok_def)
  moreover have "map_of (mem_tags s) ?i = None"
    by (rule below_fresh [OF maps_okD(13) [OF assms(1)]])
  moreover have "abs_mem s' = (abs_mem s)\<lparr>rg_tags := (rg_tags (abs_mem s))(tg_id t \<mapsto> t)\<rparr>"
    using x(2) key by (intro registry_eqI) (simp_all add: table_simps)
  ultimately show ?thesis
    using x(1) key none by auto
qed

lemma memory_list_tags:
  assumes "mem_ok s" and "mem_list_tags s = (x, s')"
  shows "s' = s \<and> spec ListTags (abs_mem s) (case x of Inl e \<Rightarrow> RErr e | Inr xs \<Rightarrow> RTags xs) (abs_mem s')"
proof -
  have h: "hm_ok (mem_tags s)" "keyed tg_id (map_of (mem_tags s))"
    using assms(1) by (simp_all add: mem_ok_def maps_ok_def registry_ok_def)
  from lists_set_sort [OF hm_values_distinct' [OF h] hm_values_of [OF h(1)]] show ?thesis
    using assms(2) by (auto simp: mem_list_tags_def)
qed

lemma tag_list_filter:
  "tag_list (map (\<lambda>(m, ts). (m, filter (P m) ts)) x) m = filter (P m) (tag_list x m)"
  by (simp add: tag_list_def table_simps split: option.split)

lemma tag_list_insert: "tag_list (hm_insert m ts x) k = (if k = m then ts else tag_list x k)"
  by (simp add: tag_list_def table_simps)

lemma memory_delete_tag:
  assumes "maps_ok s" and "mem_delete_tag i s = (x, s')"
  shows "maps_ok s' \<and> spec (DeleteTag i) (abs_mem s)
    (case x of Inl e \<Rightarrow> RErr e | Inr _ \<Rightarrow> RUnit) (abs_mem s')"
proof (cases "map_of (mem_tags s) i = None")
  case True
  then show ?thesis
    using assms by (auto simp: mem_delete_tag_def guarded_def not_found_def)
next
  case False
  note tags = tag_list_filter [where P = "\<lambda>_ t. t \<noteq> i"]
  have s': "x = Inr ()" "s' = s\<lparr>mem_tags := hm_remove i (mem_tags s),
      mem_meeting_tags := map (\<lambda>(m, ts). (m, filter (\<lambda>t. t \<noteq> i) ts)) (mem_meeting_tags s)\<rparr>"
    using assms(2) False by (auto simp: mem_delete_tag_def)
  have "maps_ok s'"
    using assms(1) below_remove unfolding s'(2)
    by (auto simp: maps_ok_def tags sorted_wrt_filter)
  moreover have "abs_mem s' = reg_delete_tag i (abs_mem s)"
    unfolding s'(2)
    by (intro registry_eqI) (auto simp: reg_delete_tag_def table_simps tags)
  ultimately show ?thesis
    using s'(1) False by (simp add: guarded_def)
qed

lemma memory_tag_meeting:
  assumes "maps_ok s" and "mem_tag_meeting m t s = (x, s')"
  shows "maps_ok s' \<and> spec (TagMeeting m t) (abs_mem s)
    (case x of Inl e \<Rightarrow> RErr e | Inr _ \<Rightarrow> RUnit) (abs_mem s')"
proof (cases "map_of (mem_meetings s) m = None \<or> map_of (mem_tags s) t = None")
  case True
  then show ?thesis
    using assms
    by (auto simp: mem_tag_meeting_def guarded_def not_found_def ensure_meeting_exists_def
        ensure_tag_exists_def split: if_splits)
next
  case False
  define ts where "ts = tag_list (mem_meeting_tags s) m"
  define ts' where "ts' = (if t \<in> set ts then ts else sort (ts @ [t]))"
  have s': "x = Inr ()" "s' = s\<lparr>mem_meeting_tags := hm_insert m ts' (mem_meeting_tags s)\<rparr>"
    using assms(2) False
    by (auto simp: mem_tag_meeting_def ensure_meeting_exists_def ensure_tag_exists_def Let_def
        tag_list_def ts_def ts'_def)
  have ts: "set ts' = insert t (set ts)" "sorted ts'" "distinct ts'"
    using maps_okD(9,10) [OF assms(1), of m] by (auto simp: ts'_def ts_def)
  have "maps_ok s'"
    using assms(1) ts unfolding s'(2) by (simp add: maps_ok_def tag_list_insert)
  moreover have "abs_mem s' = (abs_mem s)\<lparr>rg_links := insert (m, t) (rg_links (abs_mem s))\<rparr>"
    unfolding s'(2)
    by (intro registry_eqI) (auto simp: tag_list_insert ts ts_def split: if_splits)
  ultimately show ?thesis
    using s'(1) False by (auto simp: guarded_def)
qed

lemma memory_untag_meeting:
  assumes "maps_ok s" and "mem_untag_meeting m t s = (x, s')"
  shows "maps_ok s' \<and> spec (UntagMeeting m t) (abs_mem s)
    (case x of Inl e \<Rightarrow> RErr e | Inr _ \<Rightarrow> RUnit) (abs_mem s')"
proof (cases "map_of (mem_meetings s) m = None \<or> map_of (mem_tags s) t = None")
  case True
  then show ?thesis
    using assms
    by (auto simp: mem_untag_meeting_def guarded_def not_found_def ensure_meeting_exists_def
        ensure_tag_exists_def split: if_splits)
next
  case False
  have tags: "tag_list (map (\<lambda>(k, ts). (k, if k = m then filter (\<lambda>u. u \<noteq> t) ts else ts))
      (mem_meeting_tags s)) k = filter (\<lambda>u. k \<noteq> m \<or> u \<noteq> t) (tag_list (mem_meeting_tags s) k)" for k
    by (auto simp: tag_list_def table_simps split: option.split)
  have s': "x = Inr ()" "s' = s\<lparr>mem_meeting_tags :=
      map (\<lambda>(k, ts). (k, if k = m then filter (\<lambda>u. u \<noteq> t) ts else ts)) (mem_meeting_tags s)\<rparr>"
    using assms(2) False
    by (auto simp: mem_untag_meeting_def ensure_meeting_exists_def ensure_tag_exists_def)
  have "maps_ok s'"
    using assms(1) unfolding s'(2) by (simp add: maps_ok_def tags sorted_wrt_filter)
  moreover have "abs_mem s' = (abs_mem s)\<lparr>rg_links := rg_links (abs_mem s) - {(m, t)}\<rparr>"
    unfolding s'(2) by (intro registry_eqI) (auto simp: tags)
  ultimately show ?thesis
    using s'(1) False by (auto simp: guarded_def)
qed

lemma map_filter_keyed:
  assumes "keyed key m" and "distinct ids"
  shows "distinct (List.map_filter m ids) \<and>
    set (List.map_filter m ids) = {t \<in> values_of m. key t \<in> set ids}"
  using assms(2)
proof (induction ids)
  case Nil
  then show ?case
    by (simp add: List.map_filter_def)
next
  case (Cons i ids)
  have k: "key v = k" if "m k = Some v" for k v
    using assms(1) that by (simp add: keyed_def)
  show ?case
    using Cons k by (cases "m i") (auto simp: List.map_filter_simps values_of_def)
qed

lemma memory_list_tags_for_meeting:
  assumes "mem_ok s" and "mem_list_tags_for_meeting i s = (x, s')"
  shows "s' = s \<and> spec (ListTagsForMeeting i) (abs_mem s)
    (case x of Inl e \<Rightarrow> RErr e | Inr xs \<Rightarrow> RTags xs) (abs_mem s')"
proof (cases "map_of (mem_meetings s) i = None")
  case True
  then show ?thesis
    using assms
    by (auto simp: mem_list_tags_for_meeting_def ensure_meeting_exists_def guarded_def not_found_def)
next
  case False
  let ?ids = "tag_list (mem_meeting_tags s) i"
  let ?ts = "List.map_filter (map_of (mem_tags s)) ?ids"
  have k: "keyed tg_id (map_of (mem_tags s))" "distinct ?ids"
    using assms(1) maps_okD(10) by (simp_all add: mem_ok_def registry_ok_def)
  have "distinct ?ts" "set ?ts = {t \<in> values_of (map_of (mem_tags s)). tg_id t \<in> set ?ids}"
    using map_filter_keyed [OF k] by simp_all
  from lists_set_sort [OF this] show ?thesis
    using assms(2) False
    by (auto simp: mem_list_tags_for_meeting_def ensure_meeting_exists_def guarded_def tag_list_def
        Let_def)
qed

section \<open>Assignment\<close>

lemma set_assignment_abs:
  assumes "maps_ok s"
  shows "maps_ok (set_assignment i sp p s) \<and>
    abs_mem (set_assignment i sp p s) = reg_place i sp p (abs_mem s)"
  using assms
  by (auto simp: set_assignment_def maps_ok_def reg_place_def intro!: registry_eqI)

lemma memory_assign_meeting:
  assumes "mem_ok s" and "mem_assign_meeting i sp p s = (x, s')"
  shows "maps_ok s' \<and> spec (AssignMeeting i sp p) (abs_mem s)
    (case x of Inl e \<Rightarrow> RErr e | Inr _ \<Rightarrow> RUnit) (abs_mem s')"
proof -
  have m: "maps_ok s" "keyed pj_id (map_of (mem_projects s))"
    using assms(1) by (simp_all add: mem_ok_def registry_ok_def)
  note place = set_assignment_abs [OF m(1)]
  show ?thesis
  proof (cases "map_of (mem_meetings s) i = None")
    case True
    then show ?thesis
      using assms(2) m
      by (auto simp: mem_assign_meeting_def ensure_meeting_exists_def guarded_def not_found_def)
  next
    case meeting: False
    show ?thesis
    proof (cases p)
      case None
      then show ?thesis
        using assms(2) meeting m place
        by (cases sp) (auto simp: mem_assign_meeting_def ensure_meeting_exists_def guarded_def
            not_found_def split: if_splits)
    next
      case (Some pid)
      show ?thesis
      proof (cases "map_of (mem_projects s) pid")
        case None
        then show ?thesis
          using assms(2) meeting m Some
          by (auto simp: mem_assign_meeting_def ensure_meeting_exists_def guarded_def not_found_def)
      next
        case q: (Some q)
        then have "pj_id q = pid"
          using m(2) by (simp add: keyed_def)
        then show ?thesis
          using assms(2) meeting Some q place
          by (auto simp: mem_assign_meeting_def ensure_meeting_exists_def guarded_def)
      qed
    qed
  qed
qed

section \<open>The second interpretation\<close>

text \<open>Running an operation inside \<open>reply\<close> is running it and reading its result.\<close>

lemma reply_lift:
  assumes "\<And>x s'. y = (x, s') \<Longrightarrow>
    maps_ok s' \<and> spec c r (case x of Inl e \<Rightarrow> RErr e | Inr v \<Rightarrow> f v) (abs_mem s')"
  shows "maps_ok (snd (reply f y)) \<and> spec c r (fst (reply f y)) (abs_mem (snd (reply f y)))"
  using assms [OF prod.collapse [symmetric]] by (simp add: reply_def)

lemma mem_exec_spec:
  assumes "mem_ok s"
  shows "maps_ok (snd (mem_exec c s)) \<and>
    spec c (abs_mem s) (fst (mem_exec c s)) (abs_mem (snd (mem_exec c s)))"
proof -
  have m: "maps_ok s"
    using assms by (simp add: mem_ok_def)
  have query: "s' = s \<and> X \<Longrightarrow> maps_ok s' \<and> X" for s' X
    using m by simp
  show ?thesis
    by (cases c; simp only: mem_exec.simps; rule reply_lift;
        erule memory_create_meeting [OF m] memory_create_meeting_with_note [OF m]
          query [OF memory_get_meeting] query [OF memory_list_meetings [OF assms]]
          query [OF memory_list_filtered [OF assms]] memory_update_meeting_ended [OF assms]
          memory_rename_meeting [OF assms] memory_delete_meeting [OF m] memory_create_note [OF m]
          query [OF memory_list_notes [OF assms]] memory_replace_meeting_note [OF m]
          memory_create_space [OF m] query [OF memory_list_spaces [OF assms]]
          memory_rename_space [OF m] memory_delete_space [OF assms] memory_create_project [OF m]
          query [OF memory_list_projects [OF assms]] memory_rename_project [OF m]
          memory_delete_project [OF assms] memory_create_tag [OF m]
          query [OF memory_list_tags [OF assms]] memory_delete_tag [OF m] memory_tag_meeting [OF m]
          memory_untag_meeting [OF m] query [OF memory_list_tags_for_meeting [OF assms]]
          memory_assign_meeting [OF assms])
qed

lemma new_mem_abs: "abs_mem new_mem = empty_registry"
  by (intro registry_eqI) (auto simp: new_mem_def empty_registry_def tag_list_def)

lemma new_mem_ok: "mem_ok new_mem"
  by (simp add: mem_ok_def new_mem_abs)
    (simp add: maps_ok_def new_mem_def registry_ok_def empty_registry_def keyed_def unique_on_def
      below_def tag_list_def)

interpretation memory: storage_port mem_exec mem_ok abs_mem new_mem
proof
  fix s c
  assume s: "mem_ok s" "call_ok c"
  note x = mem_exec_spec [OF s(1), of c]
  show "mem_ok (snd (mem_exec c s))"
    using x spec_keeps_registry_ok s(1) by (auto simp: mem_ok_def)
  show "spec c (abs_mem s) (fst (mem_exec c s)) (abs_mem (snd (mem_exec c s)))"
    using x by simp
qed (simp_all add: new_mem_ok new_mem_abs)

text \<open>The two adapters beside each other.\<close>

interpretation adapters: storage_ports
  "sqlite_exec dir_first" db_ok abs_db fresh_db mem_exec mem_ok abs_mem new_mem for dir_first
  by unfold_locales

section \<open>Properties\<close>





end
