(* ===== verification/Export_Port.thy ===== *)
theory Export_Port
  imports Domain Rust_Strings
begin

text \<open>
  The exporter port, \<open>panops-core/src/exporter.rs\<close>, and the part of \<open>std::fs\<close> and \<open>std::path\<close> that
  exporters use. A file system is a finite map from path strings to nodes; failures other than a
  missing source or a node of the wrong kind (permissions, a full disk) are not modelled, nor are the
  parent directories that \<open>create_dir_all\<close> makes on the way, nor aliases of a path. A file that is
  copied onto itself is left as it is (the platforms differ here).

  The locale \<open>notes_exporter\<close> states the contract that the conformance suite
  \<open>panops-core/src/conformance/exporter.rs\<close> tests.
\<close>

section \<open>Files\<close>

datatype fs_node = FsDir | FsFile string

type_synonym fs = "string \<rightharpoonup> fs_node"

definition create_dir_all :: "string \<Rightarrow> fs \<Rightarrow> export_error + fs" where
  "create_dir_all p d =
     (case d p of
        Some (FsFile c) \<Rightarrow> Inl (ExportIo ''File exists'')
      | _ \<Rightarrow> Inr (d(p \<mapsto> FsDir)))"

definition fs_write :: "string \<Rightarrow> string \<Rightarrow> fs \<Rightarrow> export_error + fs" where
  "fs_write p content d =
     (case d p of
        Some FsDir \<Rightarrow> Inl (ExportIo ''Is a directory'')
      | _ \<Rightarrow> Inr (d(p \<mapsto> FsFile content)))"

definition fs_copy :: "string \<Rightarrow> string \<Rightarrow> fs \<Rightarrow> export_error + fs" where
  "fs_copy src dst d =
     (case d src of
        None \<Rightarrow> Inl (ExportIo ''No such file or directory'')
      | Some FsDir \<Rightarrow> Inl (ExportIo ''the source path is neither a regular file nor a symlink to a regular file'')
      | Some (FsFile c) \<Rightarrow> fs_write dst c d)"

section \<open>Paths\<close>

text \<open>\<open>Path::join\<close> of a relative path; \<open>file_name\<close> and \<open>extension\<close> on the components of a path.\<close>

definition path_join :: "string \<Rightarrow> string \<Rightarrow> string" where
  "path_join d p = (if d = [] then p else if last d = CHR ''/'' then d @ p else d @ ''/'' @ p)"

fun split_on :: "char \<Rightarrow> string \<Rightarrow> string list" where
  "split_on sep [] = [[]]"
| "split_on sep (c # cs) =
     (if c = sep then [] # split_on sep cs
      else case split_on sep cs of [] \<Rightarrow> [[c]] | w # ws \<Rightarrow> (c # w) # ws)"

definition file_name :: "string \<Rightarrow> string option" where
  "file_name p =
     (let cs = filter (\<lambda>c. c \<noteq> [] \<and> c \<noteq> ''.'') (split_on (CHR ''/'') p)
      in if cs = [] \<or> last cs = ''..'' then None else Some (last cs))"

definition extension :: "string \<Rightarrow> string option" where
  "extension p =
     (case file_name p of
        None \<Rightarrow> None
      | Some name \<Rightarrow>
          if CHR ''.'' \<notin> set name then None
          else (let after = rev (takeWhile (\<lambda>c. c \<noteq> CHR ''.'') (rev name));
                    stem = take (length name - length after - 1) name
                in if stem = [] then None else Some after))"

definition file_stem :: "string \<Rightarrow> string option" where
  "file_stem p =
     (case file_name p of
        None \<Rightarrow> None
      | Some name \<Rightarrow>
          (case extension p of
             None \<Rightarrow> Some name
           | Some ext \<Rightarrow> Some (take (length name - length ext - 1) name)))"

lemma path_join_prefix: "prefix d (path_join d p)"
  by (simp add: path_join_def)

lemma path_join_longer: "p \<noteq> [] \<Longrightarrow> path_join d p \<noteq> d"
  by (auto simp: path_join_def)

lemma path_join_inj: "path_join d p = path_join d q \<longleftrightarrow> p = q"
  by (auto simp: path_join_def)

section \<open>The port\<close>

record export_artifact =
  ea_primary_file :: string
  ea_assets :: "string list"

text \<open>
  What every exporter promises: a destination that is a file is refused and nothing is written; after
  a success the primary file and the assets are files under the destination, and the primary file is
  not empty; only paths under the destination are touched.
\<close>

definition under_dir :: "string \<Rightarrow> string \<Rightarrow> bool" where
  "under_dir d p = (prefix d p \<and> p \<noteq> d)"

definition is_file :: "fs \<Rightarrow> string \<Rightarrow> bool" where
  "is_file d p = (case d p of Some (FsFile c) \<Rightarrow> True | _ \<Rightarrow> False)"

lemma is_file_simps [simp]:
  "is_file (d(p \<mapsto> FsFile c)) q = (q = p \<or> is_file d q)"
  by (simp add: is_file_def)

locale notes_exporter =
  fixes export :: "structured_notes \<Rightarrow> string \<Rightarrow> fs \<Rightarrow> (export_error + export_artifact) \<times> fs"
  assumes refuses_file: "d dest = Some (FsFile c) \<Longrightarrow>
      (\<exists>m. fst (export sn dest d) = Inl (ExportInvalidDest m)) \<and> snd (export sn dest d) = d"
    and primary: "export sn dest d = (Inr a, d') \<Longrightarrow>
      under_dir dest (ea_primary_file a) \<and> (\<exists>c. d' (ea_primary_file a) = Some (FsFile c) \<and> c \<noteq> [])"
    and assets: "export sn dest d = (Inr a, d') \<Longrightarrow> p \<in> set (ea_assets a) \<Longrightarrow>
      under_dir dest p \<and> is_file d' p"
    and touches: "export sn dest d = (r, d') \<Longrightarrow> \<not> prefix dest p \<Longrightarrow> d' p = d p"
begin

lemma no_data_loss: "d dest = Some (FsFile c) \<Longrightarrow> snd (export sn dest d) dest = Some (FsFile c)"
  using refuses_file by simp

lemma artifact_files:
  assumes "export sn dest d = (Inr a, d')" and "p \<in> set (ea_primary_file a # ea_assets a)"
  shows "under_dir dest p \<and> is_file d' p"
  using assms primary [OF assms(1)] assets [OF assms(1)] by (auto simp: is_file_def)

end

section \<open>The fake exporter\<close>

text \<open>\<open>FakeNotesExporter\<close> of \<open>panops-core/src/conformance/fakes.rs\<close>; \<open>path_debug\<close> is \<open>{:?}\<close> of a path.\<close>

definition invalid_dest :: "(string \<Rightarrow> string) \<Rightarrow> string \<Rightarrow> export_error" where
  "invalid_dest path_debug dest = ExportInvalidDest (path_debug dest @ '' exists but is not a directory'')"

definition ensure_dest ::
  "(string \<Rightarrow> string) \<Rightarrow> string \<Rightarrow> fs \<Rightarrow> export_error + fs" where
  "ensure_dest path_debug dest d =
     (if d dest \<noteq> None \<and> d dest \<noteq> Some FsDir then Inl (invalid_dest path_debug dest)
      else if d dest = None then create_dir_all dest d else Inr d)"

definition fake_export ::
  "(string \<Rightarrow> string) \<Rightarrow> structured_notes \<Rightarrow> string \<Rightarrow> fs \<Rightarrow> (export_error + export_artifact) \<times> fs"
where
  "fake_export path_debug sn dest d =
     (case ensure_dest path_debug dest d of
        Inl e \<Rightarrow> (Inl e, d)
      | Inr d \<Rightarrow>
          (let primary_file = path_join dest ''notes.txt'';
               body = ''title: '' @ fm_title (sn_frontmatter sn) @ newline @
                 ''sections: '' @ dec (length (sn_sections sn)) @ newline
           in case fs_write primary_file body d of
                Inl e \<Rightarrow> (Inl e, d)
              | Inr d \<Rightarrow> (Inr \<lparr>ea_primary_file = primary_file, ea_assets = []\<rparr>, d)))"

lemma ensure_dest_cases:
  "(case ensure_dest path_debug dest d of
      Inl e \<Rightarrow> e = invalid_dest path_debug dest \<and> (\<exists>c. d dest = Some (FsFile c))
    | Inr d' \<Rightarrow> d' dest = Some FsDir \<and> d' = d(dest \<mapsto> FsDir))"
  by (cases "d dest"; cases "the (d dest)") (auto simp: ensure_dest_def create_dir_all_def)

lemma under_dir_join: "p \<noteq> [] \<Longrightarrow> under_dir d (path_join d p)"
  by (simp add: under_dir_def path_join_prefix path_join_longer)

lemma fs_write_cases:
  "fs_write p c d = Inr d' \<Longrightarrow> d' = d(p \<mapsto> FsFile c)"
  by (auto simp: fs_write_def split: option.splits fs_node.splits)

interpretation fake: notes_exporter "fake_export path_debug" for path_debug
proof
  fix d :: fs and dest c sn
  assume "d dest = Some (FsFile c)"
  then have "ensure_dest path_debug dest d = Inl (invalid_dest path_debug dest)"
    by (simp add: ensure_dest_def)
  then show "(\<exists>m. fst (fake_export path_debug sn dest d) = Inl (ExportInvalidDest m)) \<and>
      snd (fake_export path_debug sn dest d) = d"
    by (simp add: fake_export_def invalid_dest_def)
next
  fix sn dest and d :: fs and a d'
  assume run: "fake_export path_debug sn dest d = (Inr a, d')"
  then show "under_dir dest (ea_primary_file a) \<and> (\<exists>c. d' (ea_primary_file a) = Some (FsFile c) \<and> c \<noteq> [])"
    by (auto simp: fake_export_def Let_def under_dir_join dest!: fs_write_cases split: sum.splits)
  show "under_dir dest p \<and> is_file d' p" if "p \<in> set (ea_assets a)" for p
    using run that by (auto simp: fake_export_def Let_def split: sum.splits)
next
  fix sn dest and d :: fs and r d' p
  assume run: "fake_export path_debug sn dest d = (r, d')" and p: "\<not> prefix dest p"
  have "p \<noteq> dest" "p \<noteq> path_join dest ''notes.txt''"
    using p path_join_prefix by auto
  then show "d' p = d p"
    using run ensure_dest_cases [of path_debug dest d]
    by (auto simp: fake_export_def Let_def dest!: fs_write_cases split: sum.splits)
qed

end
