(* ===== verification/Raw_Transcript.thy ===== *)
theory Raw_Transcript
  imports Export_Port
begin

text \<open>
  The raw-transcript sidecar, \<open>panops-core/src/notes/raw_transcript.rs\<close>: one line per segment with
  its times, speaker, language and text. The comments promise that the times survive a round trip and
  that a segment stays on one line; both are proved with a reader of the format.
\<close>

section \<open>The renderer\<close>

definition format_ts :: "u64 \<Rightarrow> string" where
  "format_ts ms =
     (let total_s = ms div 1000;
          millis = ms mod 1000;
          m = total_s div 60;
          s = total_s mod 60
      in dec m @ '':'' @ pad_zeros 2 (dec s) @ ''.'' @ pad_zeros 3 (dec millis))"

definition transcript_line :: "segment \<Rightarrow> string" where
  "transcript_line seg =
     (let lang = (case seg_language seg of None \<Rightarrow> ''und'' | Some l \<Rightarrow> l);
          text = replace_bytes [CHR 0x0A, CHR 0x0D] '' '' (seg_text seg)
      in ''['' @ format_ts (seg_start_ms seg) @ ''-'' @ format_ts (seg_end_ms seg) @ ''] '' @
         speaker_label (seg_speaker_id seg) @ '' ('' @ lang @ ''): '' @ trim text @ newline)"

fun render_raw_transcript :: "segment list \<Rightarrow> string" where
  "render_raw_transcript [] = []"
| "render_raw_transcript (seg # segs) = transcript_line seg @ render_raw_transcript segs"

definition write_raw_transcript :: "segment list \<Rightarrow> string \<Rightarrow> fs \<Rightarrow> export_error + fs \<times> string" where
  "write_raw_transcript segs dest d =
     (let path = path_join dest ''transcript.txt''
      in map_sum id (\<lambda>d. (d, path)) (fs_write path (render_raw_transcript segs) d))"

section \<open>Reading it back\<close>

text \<open>The lines of a text that ends each line with a newline, and the times of a line.\<close>

fun split_lines :: "string \<Rightarrow> string list" where
  "split_lines [] = []"
| "split_lines (c # cs) =
     (if [c] = newline then [] # split_lines cs
      else case split_lines cs of [] \<Rightarrow> [[c]] | l # ls \<Rightarrow> (c # l) # ls)"

definition read_ts :: "string \<Rightarrow> u64 option" where
  "read_ts s =
     (let m = takeWhile is_ascii_digit s; r = dropWhile is_ascii_digit s
      in case r of
           [] \<Rightarrow> None
         | c # r \<Rightarrow>
             (let sec = takeWhile is_ascii_digit r; r = dropWhile is_ascii_digit r
              in case r of
                   [] \<Rightarrow> None
                 | d # ml \<Rightarrow>
                     if c = CHR '':'' \<and> d = CHR ''.'' \<and> list_all is_ascii_digit ml
                     then Some ((digits_value m * 60 + digits_value sec) * 1000 + digits_value ml)
                     else None))"

definition read_times :: "string \<Rightarrow> (u64 \<times> u64) option" where
  "read_times l =
     (let a = takeWhile (\<lambda>c. c \<noteq> CHR ''-'') (tl l);
          b = takeWhile (\<lambda>c. c \<noteq> CHR '']'') (drop (length a + 2) l)
      in case (read_ts a, read_ts b) of (Some x, Some y) \<Rightarrow> Some (x, y) | _ \<Rightarrow> None)"

section \<open>Reading times back\<close>

lemma read_format_ts: "read_ts (format_ts ms) = Some ms"
proof -
  let ?m = "dec (ms div 1000 div 60)" and ?s = "pad_zeros 2 (dec (ms div 1000 mod 60))"
    and ?l = "pad_zeros 3 (dec (ms mod 1000))"
  have d: "list_all is_ascii_digit ?m" "list_all is_ascii_digit ?s" "list_all is_ascii_digit ?l"
    by (simp_all add: dec_digits pad_zeros_digits)
  have f: "format_ts ms = ?m @ CHR '':'' # ?s @ CHR ''.'' # ?l"
    by (simp add: format_ts_def Let_def)
  have "(ms div 1000 div 60 * 60 + ms div 1000 mod 60) * 1000 + ms mod 1000 = ms"
    by simp
  then show ?thesis
    unfolding f read_ts_def Let_def
    using takeWhile_digits [OF d(1), of "CHR '':''" "?s @ CHR ''.'' # ?l"]
      takeWhile_digits [OF d(2), of "CHR ''.''" ?l] d(3)
    by simp
qed

lemma format_ts_chars:
  assumes "c \<in> set (format_ts ms)"
  shows "c \<noteq> CHR ''-''" and "c \<noteq> CHR '']''" and "c \<noteq> CHR 0x0A"
proof -
  have "is_ascii_digit c \<or> c = CHR '':'' \<or> c = CHR ''.''"
    using assms dec_digits pad_zeros_digits [OF dec_digits]
    unfolding format_ts_def Let_def list_all_iff by auto
  then show "c \<noteq> CHR ''-''" "c \<noteq> CHR '']''" "c \<noteq> CHR 0x0A"
    by auto
qed

lemma read_line_times:
  "read_times (''['' @ format_ts a @ ''-'' @ format_ts b @ '']'' @ r) = Some (a, b)"
proof -
  have dash: "\<forall>c \<in> set (format_ts a). c \<noteq> CHR ''-''" and bracket: "\<forall>c \<in> set (format_ts b). c \<noteq> CHR '']''"
    using format_ts_chars by blast+
  have "takeWhile (\<lambda>c. c \<noteq> CHR ''-'') (format_ts a @ CHR ''-'' # s) = format_ts a" for s
    using dash by (simp add: takeWhile_append2)
  moreover have "takeWhile (\<lambda>c. c \<noteq> CHR '']'') (format_ts b @ CHR '']'' # s) = format_ts b" for s
    using bracket by (simp add: takeWhile_append2)
  ultimately show ?thesis
    by (simp add: read_times_def read_format_ts Let_def)
qed

section \<open>Lines\<close>

lemma split_lines_line:
  "CHR 0x0A \<notin> set l \<Longrightarrow> split_lines (l @ CHR 0x0A # r) = l # split_lines r"
  by (induction l) (auto simp: newline_def)

lemma replaced_newlines: "CHR 0x0A \<notin> set (replace_bytes [CHR 0x0A, CHR 0x0D] '' '' s)"
  by (auto simp: replace_bytes_def)

lemma set_trim: "set (trim s) \<subseteq> set s"
proof -
  obtain p q where "s = p @ trim s @ q"
    using trim_infix by blast
  then have "set s = set p \<union> set (trim s) \<union> set q"
    by (metis set_append sup_assoc)
  then show ?thesis by blast
qed

lemma dec_no_newline: "CHR 0x0A \<notin> set (dec n)"
  using dec_digits [of n] by (auto simp: list_all_iff)

text \<open>A line without its newline: it has none inside when the language code has none.\<close>

lemma transcript_line_shape:
  assumes "\<forall>l. seg_language seg = Some l \<longrightarrow> CHR 0x0A \<notin> set l"
  obtains body where "transcript_line seg = body @ newline" and "CHR 0x0A \<notin> set body"
    and "read_times body = Some (seg_start_ms seg, seg_end_ms seg)"
proof -
  let ?lang = "case seg_language seg of None \<Rightarrow> ''und'' | Some l \<Rightarrow> l"
  let ?text = "trim (replace_bytes [CHR 0x0A, CHR 0x0D] '' '' (seg_text seg))"
  let ?rest = "'' '' @ speaker_label (seg_speaker_id seg) @ '' ('' @ ?lang @ ''): '' @ ?text"
  let ?body = "''['' @ format_ts (seg_start_ms seg) @ ''-'' @ format_ts (seg_end_ms seg) @ '']'' @ ?rest"
  have "CHR 0x0A \<notin> set ?lang"
    using assms by (auto split: option.split)
  moreover have "CHR 0x0A \<notin> set ?text"
    using set_trim replaced_newlines by blast
  moreover have "CHR 0x0A \<notin> set (speaker_label (seg_speaker_id seg))"
    using dec_no_newline by (auto simp: speaker_label_def speaker_prefix_def split: option.split)
  ultimately have "CHR 0x0A \<notin> set ?body"
    using format_ts_chars(3) by auto
  moreover have "transcript_line seg = ?body @ newline"
    by (simp add: transcript_line_def Let_def)
  ultimately show ?thesis
    using that read_line_times by blast
qed

text \<open>C16: The raw transcript can be read back: it has exactly one line per segment, in order, and the
  start and end of every segment, to the millisecond, are those read from its line.\<close>

theorem raw_transcript_round_trip:
  assumes "\<forall>seg \<in> set segs. \<forall>l. seg_language seg = Some l \<longrightarrow> CHR 0x0A \<notin> set l"
  shows "map read_times (split_lines (render_raw_transcript segs)) =
    map (\<lambda>seg. Some (seg_start_ms seg, seg_end_ms seg)) segs"
  using assms
proof (induction segs)
  case (Cons seg segs)
  obtain body where "transcript_line seg = body @ newline" "CHR 0x0A \<notin> set body"
    "read_times body = Some (seg_start_ms seg, seg_end_ms seg)"
    using transcript_line_shape [of seg] Cons.prems by auto
  then show ?case
    using Cons by (simp add: newline_def split_lines_line)
qed simp

theorem raw_transcript_round_trip_witness:
  "map read_times (split_lines (render_raw_transcript
     [\<lparr>seg_start_ms = 61005, seg_end_ms = 62000, seg_text = ''hi'' @ newline @ ''there'',
       seg_language = Some ''en'', seg_confidence = 0, seg_speaker_id = Some 3\<rparr>])) = [Some (61005, 62000)]"
  by (subst raw_transcript_round_trip) simp_all

end
