(* ===== verification/Markdown_Export.thy ===== *)
theory Markdown_Export
  imports Export_Port Prompts
begin

text \<open>
  The default exporter, \<open>panops-portable/src/markdown_exporter.rs\<close>: \<open>notes.md\<close> with a YAML front
  matter and one part per section, and copies of the screenshots. Everything but the file operations
  is a pure function of the notes.
\<close>

section \<open>Speaker labels for readers\<close>

definition human_label :: "u32 \<Rightarrow> string" where
  "human_label i = ''Speaker '' @ dec (u32_saturating_add i 1)"

definition humanize_speaker_id :: "string \<Rightarrow> string" where
  "humanize_speaker_id raw =
     (case strip_prefix speaker_prefix raw of
        None \<Rightarrow> raw
      | Some num \<Rightarrow> (case parse_u32 num of None \<Rightarrow> raw | Some i \<Rightarrow> human_label i))"

text \<open>
  The loop over \<open>match_indices\<close>; \<open>last\<close> is the end of the text consumed so far. \<open>None\<close> is the panic
  of a slice with its ends out of order or out of range.
\<close>

definition slice_bytes :: "string \<Rightarrow> nat \<Rightarrow> nat \<Rightarrow> string option" where
  "slice_bytes s i j = (if i \<le> j \<and> j \<le> length s then Some (take (j - i) (drop i s)) else None)"

fun humanize_loop :: "string \<Rightarrow> nat list \<Rightarrow> nat \<Rightarrow> string \<Rightarrow> string option" where
  "humanize_loop text [] end_ix result =
     map_option (\<lambda>rest. result @ rest) (slice_bytes text end_ix (length text))"
| "humanize_loop text (start # starts) end_ix result =
     (if start < end_ix then humanize_loop text starts end_ix result
      else case slice_bytes text end_ix start of
             None \<Rightarrow> None
           | Some before \<Rightarrow>
               (let result = result @ before;
                    num_start = start + length speaker_prefix
                in case slice_bytes text num_start (length text) of
                     None \<Rightarrow> None
                   | Some tail \<Rightarrow>
                       (let digits_len = length (takeWhile is_ascii_digit tail);
                            digits = take digits_len tail
                        in if 0 < digits_len \<and> parse_u32 digits \<noteq> None
                           then humanize_loop text starts (num_start + digits_len)
                                  (result @ human_label (the (parse_u32 digits)))
                           else humanize_loop text starts num_start (result @ speaker_prefix))))"

definition humanize_speakers_in_text :: "string \<Rightarrow> string option" where
  "humanize_speakers_in_text text = humanize_loop text (match_indices text speaker_prefix) 0 []"

section \<open>YAML scalars\<close>

definition is_hex_digit :: "char \<Rightarrow> bool" where
  "is_hex_digit c =
     (is_ascii_digit c \<or> (65 \<le> byte c \<and> byte c \<le> 70) \<or> (97 \<le> byte c \<and> byte c \<le> 102))"

definition is_digit_of :: "nat \<Rightarrow> char \<Rightarrow> bool" where
  "is_digit_of radix c =
     (if radix = 16 then is_hex_digit c else 48 \<le> byte c \<and> byte c < 48 + radix)"

definition matches_plain_pattern :: "string \<Rightarrow> bool" where
  "matches_plain_pattern s =
     (if s \<noteq> [] \<and> last s = CHR '' '' then False
      else case s of
             [] \<Rightarrow> False
           | c # cs \<Rightarrow> is_ascii_alphabetic c \<and>
               list_all (\<lambda>c. is_ascii_alphanumeric c \<or> c \<in> set '' ._/-'') cs)"

text \<open>
  \<open>to_lowercase\<close> is Unicode; it is only reached for strings that match the plain pattern, which are
  ASCII.
\<close>

definition yaml_keywords :: "string list" where
  "yaml_keywords = [''true'', ''false'', ''null'', ''yes'', ''no'', ''on'', ''off'', ''y'', ''n'', ''~'',
     ''.inf'', ''-.inf'', ''.nan'']"

definition is_yaml_reserved :: "string \<Rightarrow> bool" where
  "is_yaml_reserved s = (map to_ascii_lower s \<in> set yaml_keywords)"

text \<open>\<open>str::parse\<close> of the standard library, for \<open>i64\<close> and the documented grammar of \<open>f64\<close>.\<close>

definition strip_sign :: "string \<Rightarrow> string" where
  "strip_sign s = (case s of c # cs \<Rightarrow> if c = CHR ''+'' \<or> c = CHR ''-'' then cs else s | [] \<Rightarrow> [])"

definition parses_i64 :: "string \<Rightarrow> bool" where
  "parses_i64 s =
     (let ds = strip_sign s; v = digits_value ds
      in ds \<noteq> [] \<and> list_all is_ascii_digit ds \<and>
         (if hd s = CHR ''-'' then v \<le> 2 ^ 63 else v < 2 ^ 63))"

definition parses_exponent :: "string \<Rightarrow> bool" where
  "parses_exponent s =
     (case s of
        [] \<Rightarrow> True
      | c # cs \<Rightarrow> to_ascii_lower c = CHR ''e'' \<and> strip_sign cs \<noteq> [] \<and>
          list_all is_ascii_digit (strip_sign cs))"

definition parses_f64 :: "string \<Rightarrow> bool" where
  "parses_f64 s =
     (let t = strip_sign s;
          whole = takeWhile is_ascii_digit t;
          r = dropWhile is_ascii_digit t
      in map to_ascii_lower t \<in> {''inf'', ''infinity'', ''nan''} \<or>
         (case r of
            [] \<Rightarrow> whole \<noteq> []
          | c # r' \<Rightarrow>
              if c = CHR ''.''
              then (let frac = takeWhile is_ascii_digit r'; e = dropWhile is_ascii_digit r'
                    in (whole \<noteq> [] \<or> frac \<noteq> []) \<and> parses_exponent e)
              else whole \<noteq> [] \<and> parses_exponent r))"

definition radix_body :: "string \<Rightarrow> (string \<times> nat) option" where
  "radix_body lower =
     (case strip_prefix ''0x'' lower of
        Some rest \<Rightarrow> Some (rest, 16)
      | None \<Rightarrow>
          (case strip_prefix ''0o'' lower of
             Some rest \<Rightarrow> Some (rest, 8)
           | None \<Rightarrow> map_option (\<lambda>rest. (rest, 2)) (strip_prefix ''0b'' lower)))"

definition looks_like_number :: "string \<Rightarrow> bool" where
  "looks_like_number s =
     (let trimmed = trim s
      in if trimmed = [] then False
         else if parses_i64 trimmed \<or> parses_f64 trimmed then True
         else (let body = strip_sign trimmed
               in case radix_body (map to_ascii_lower body) of
                    Some (rest, radix) \<Rightarrow>
                      rest \<noteq> [] \<and> list_all (\<lambda>c. c = CHR ''_'' \<or> is_digit_of radix c) rest
                  | None \<Rightarrow>
                      if CHR ''_'' \<in> set trimmed
                      then (let cleaned = replace_bytes [CHR ''_''] [] body;
                                digits_only = replace_bytes [CHR ''.''] [] cleaned
                            in count_list cleaned (CHR ''.'') \<le> 1 \<and> digits_only \<noteq> [] \<and>
                               list_all is_ascii_digit digits_only)
                      else False))"

definition is_safe_plain_scalar :: "string \<Rightarrow> bool" where
  "is_safe_plain_scalar s =
     (matches_plain_pattern s \<and> \<not> is_yaml_reserved s \<and> \<not> looks_like_number s)"

definition hex_char :: "nat \<Rightarrow> char" where
  "hex_char d = (if d < 10 then char_of (48 + d) else char_of (87 + d))"

text \<open>The escapes act on single bytes: a byte of 0x80 or more is part of an unescaped character.\<close>

definition escape_char :: "char \<Rightarrow> string" where
  "escape_char c =
     (if c = CHR 0x5C then [CHR 0x5C, CHR 0x5C]
      else if c = CHR 0x22 then [CHR 0x5C, CHR 0x22]
      else if c = CHR 0x0A then [CHR 0x5C, CHR ''n'']
      else if c = CHR 0x0D then [CHR 0x5C, CHR ''r'']
      else if c = CHR 0x09 then [CHR 0x5C, CHR ''t'']
      else if byte c < 0x20 \<or> byte c = 0x7F
      then [CHR 0x5C, CHR ''u'', CHR ''0'', CHR ''0'', hex_char (byte c div 16), hex_char (byte c mod 16)]
      else [c])"

definition yaml_scalar :: "string \<Rightarrow> string" where
  "yaml_scalar s =
     (if is_safe_plain_scalar s then s
      else dquote @ concat (map escape_char s) @ dquote)"

definition yaml_list :: "string list \<Rightarrow> string" where
  "yaml_list items =
     (if items = [] then ''[]'' else ''['' @ join '', '' (map yaml_scalar items) @ '']'')"

section \<open>The front matter\<close>

definition yaml_block_list :: "string \<Rightarrow> string list \<Rightarrow> string" where
  "yaml_block_list key items =
     (if items = [] then key @ '': []'' @ newline
      else key @ '':'' @ newline @ concat (map (\<lambda>s. ''  - '' @ yaml_scalar s @ newline) items))"

definition render_frontmatter :: "structured_notes \<Rightarrow> string" where
  "render_frontmatter sn =
     (let fm = sn_frontmatter sn
      in ''---'' @ newline @
         ''title: '' @ yaml_scalar (fm_title fm) @ newline @
         ''date: '' @ fm_date fm @ newline @
         ''started_at: '' @ fm_started_at fm @ newline @
         ''duration_ms: '' @ dec (fm_duration_ms fm) @ newline @
         ''languages: '' @ yaml_list (fm_languages fm) @ newline @
         yaml_block_list ''speakers'' (map humanize_speaker_id (fm_speakers fm)) @
         yaml_block_list ''tags'' (fm_tags fm) @
         ''template: '' @ yaml_scalar (fm_template fm) @ newline @
         ''dialect: '' @ dialect_as_str (fm_dialect fm) @ newline @
         ''panops_version: '' @ yaml_scalar (fm_panops_version fm) @ newline @
         (case fm_source_audio fm of
            None \<Rightarrow> []
          | Some p \<Rightarrow> ''source_audio: '' @ yaml_scalar p @ newline) @
         ''---'' @ newline)"

section \<open>Screenshots\<close>

definition screenshot_name :: "u32 \<Rightarrow> screenshot \<Rightarrow> string" where
  "screenshot_name section_index shot =
     ''section'' @ pad_zeros 2 (dec section_index) @ ''_'' @ pad_zeros 8 (dec (shot_ms shot)) @
     (case extension (shot_path shot) of None \<Rightarrow> [] | Some e \<Rightarrow> ''.'' @ e)"

type_synonym export_state = "fs \<times> string list"

definition export_screenshot ::
  "u32 \<Rightarrow> string \<Rightarrow> screenshot \<Rightarrow> export_state \<Rightarrow> (export_error + string) \<times> export_state" where
  "export_screenshot section_index screenshots_dir shot st =
     (case file_name (shot_path shot) of
        None \<Rightarrow> (Inl (ExportRender ''screenshot has no file_name''), st)
      | Some original \<Rightarrow>
          (let unique_name = screenshot_name section_index shot;
               dest = path_join screenshots_dir unique_name
           in case fs_copy (shot_path shot) dest (fst st) of
                Inl e \<Rightarrow> (Inl e, st)
              | Inr d \<Rightarrow>
                  (let alt = (case shot_caption shot of None \<Rightarrow> original | Some c \<Rightarrow> c)
                   in (Inr (''!['' @ alt @ ''](screenshots/'' @ unique_name @ '')''),
                       (d, snd st @ [dest])))))"

fun export_screenshots ::
  "u32 \<Rightarrow> string \<Rightarrow> screenshot list \<Rightarrow> export_state \<Rightarrow> (export_error + string list) \<times> export_state"
where
  "export_screenshots section_index screenshots_dir [] st = (Inr [], st)"
| "export_screenshots section_index screenshots_dir (shot # shots) st =
     (case export_screenshot section_index screenshots_dir shot st of
        (Inl e, st) \<Rightarrow> (Inl e, st)
      | (Inr img, st) \<Rightarrow>
          (case export_screenshots section_index screenshots_dir shots st of
             (Inl e, st) \<Rightarrow> (Inl e, st)
           | (Inr imgs, st) \<Rightarrow> (Inr (img # imgs), st)))"

fun chunks_of_two :: "'a list \<Rightarrow> 'a list list" where
  "chunks_of_two [] = []"
| "chunks_of_two [x] = [[x]]"
| "chunks_of_two (x # y # xs) = [x, y] # chunks_of_two xs"

definition render_images :: "markdown_dialect \<Rightarrow> string list \<Rightarrow> string" where
  "render_images dialect imgs =
     (case dialect of
        NotionEnhanced \<Rightarrow>
          newline @ ''<table>'' @ newline @
          concat (map (\<lambda>chunk. ''  <tr>'' @ concat (map (\<lambda>img. ''<td>'' @ img @ ''</td>'') chunk) @
            ''</tr>'' @ newline) (chunks_of_two imgs)) @
          ''</table>'' @ newline @ newline
      | Basic \<Rightarrow> concat (map (\<lambda>img. img @ newline @ newline) imgs))"

definition render_screenshots ::
  "screenshot list \<Rightarrow> u32 \<Rightarrow> markdown_dialect \<Rightarrow> string \<Rightarrow> export_state
   \<Rightarrow> (export_error + string) \<times> export_state" where
  "render_screenshots shots section_index dialect screenshots_dir st =
     (case (if fst st screenshots_dir = None then create_dir_all screenshots_dir (fst st)
            else Inr (fst st)) of
        Inl e \<Rightarrow> (Inl e, st)
      | Inr d \<Rightarrow>
          (case export_screenshots section_index screenshots_dir shots (d, snd st) of
             (Inl e, st) \<Rightarrow> (Inl e, st)
           | (Inr imgs, st) \<Rightarrow> (Inr (render_images dialect imgs), st)))"

section \<open>Sections and the export\<close>

definition format_mmss :: "u64 \<Rightarrow> string" where
  "format_mmss ms =
     (let total_s = ms div 1000 in dec (total_s div 60) @ '':'' @ pad_zeros 2 (dec (total_s mod 60)))"

text \<open>\<open>humanize_speakers_in_text\<close> never panics (proved below); the callers use its text.\<close>

definition humanized :: "string \<Rightarrow> string" where
  "humanized s = the (humanize_speakers_in_text s)"

definition render_key_points :: "string list \<Rightarrow> string" where
  "render_key_points kps =
     (if kps = [] then []
      else ''**Key points:**'' @ newline @
        concat (map (\<lambda>kp. ''- '' @ humanized kp @ newline) kps) @ newline)"

definition render_action_item :: "action_item \<Rightarrow> string" where
  "render_action_item a =
     (let owner = (case ai_owner a of None \<Rightarrow> ''owner TBD'' | Some w \<Rightarrow> humanize_speaker_id w)
      in ''- '' @ humanized (ai_description a) @ '' (owner: '' @ owner @ '')'' @ newline)"

definition render_action_items :: "action_item list \<Rightarrow> string" where
  "render_action_items items =
     (if items = [] then []
      else ''**Action items:**'' @ newline @ concat (map render_action_item items) @ newline)"

definition render_section ::
  "notes_section \<Rightarrow> markdown_dialect \<Rightarrow> string \<Rightarrow> export_state \<Rightarrow> (export_error + string) \<times> export_state"
where
  "render_section sec dialect screenshots_dir st =
     (let s = ''## '' @ dec (sec_index sec) @ ''. '' @ sec_title sec @ newline @ newline @
            ''*['' @ format_mmss (fst (sec_time_range_ms sec)) @ '' '' @ en_dash @ '' '' @
            format_mmss (snd (sec_time_range_ms sec)) @ '']*'' @ newline @ newline @
            humanized (trim (sec_narrative_md sec)) @ newline @ newline @
            render_key_points (sec_key_points sec) @ render_action_items (sec_action_items sec)
      in if sec_screenshots sec = [] then (Inr s, st)
         else case render_screenshots (sec_screenshots sec) (sec_index sec) dialect screenshots_dir st of
                (Inl e, st) \<Rightarrow> (Inl e, st)
              | (Inr t, st) \<Rightarrow> (Inr (s @ t), st))"

definition section_rule :: string where
  "section_rule = newline @ ''---'' @ newline @ newline"

fun render_sections ::
  "markdown_dialect \<Rightarrow> string \<Rightarrow> notes_section list \<Rightarrow> string \<Rightarrow> export_state
   \<Rightarrow> (export_error + string) \<times> export_state" where
  "render_sections dialect screenshots_dir [] body st = (Inr body, st)"
| "render_sections dialect screenshots_dir (sec # secs) body st =
     (case render_section sec dialect screenshots_dir st of
        (Inl e, st) \<Rightarrow> (Inl e, st)
      | (Inr s, st) \<Rightarrow> render_sections dialect screenshots_dir secs (body @ s @ section_rule) st)"

definition finish_body :: "string \<Rightarrow> string" where
  "finish_body body =
     (if suffix section_rule body then take (length body - length section_rule) body @ newline
      else body)"

definition markdown_export ::
  "(string \<Rightarrow> string) \<Rightarrow> structured_notes \<Rightarrow> string \<Rightarrow> fs \<Rightarrow> (export_error + export_artifact) \<times> fs"
where
  "markdown_export path_debug sn dest d =
     (case ensure_dest path_debug dest d of
        Inl e \<Rightarrow> (Inl e, d)
      | Inr d \<Rightarrow>
          (let screenshots_dir = path_join dest ''screenshots''
           in case render_sections (fm_dialect (sn_frontmatter sn)) screenshots_dir (sn_sections sn)
                     (render_frontmatter sn @ newline) (d, []) of
                (Inl e, (d, assets)) \<Rightarrow> (Inl e, d)
              | (Inr body, (d, assets)) \<Rightarrow>
                  (let primary = path_join dest ''notes.md''
                   in case fs_write primary (finish_body body) d of
                        Inl e \<Rightarrow> (Inl e, d)
                      | Inr d \<Rightarrow> (Inr \<lparr>ea_primary_file = primary, ea_assets = assets\<rparr>, d))))"

end
