(* ===== verification/Markdown_Text.thy ===== *)
theory Markdown_Text
  imports Markdown_Export
begin

text \<open>
  What the text routines of the exporter guarantee: YAML scalars read back as they were, and speaker
  labels are replaced everywhere, without a panic.
\<close>

section \<open>Reading YAML scalars\<close>

text \<open>
  The part of YAML that reads such scalars: the escapes of a double-quoted scalar, and the plain
  scalars that no YAML schema resolves to a boolean, a null or a number (a number never starts with a
  letter).
\<close>

definition hex_value :: "char \<Rightarrow> nat" where
  "hex_value c = (if is_ascii_digit c then byte c - 48 else if byte c < 97 then byte c - 55 else byte c - 87)"

definition unicode_escape :: "string \<Rightarrow> (char \<times> string) option" where
  "unicode_escape s =
     (case s of
        a # b # c # d # r \<Rightarrow>
          (let n = ((hex_value a * 16 + hex_value b) * 16 + hex_value c) * 16 + hex_value d
           in if list_all is_hex_digit [a, b, c, d] \<and> n < 128 then Some (char_of n, r) else None)
      | _ \<Rightarrow> None)"

lemma unicode_escape_shorter: "unicode_escape s = Some (c, r) \<Longrightarrow> length r < length s"
  by (auto simp: unicode_escape_def Let_def split: list.splits if_splits)

definition read_escape :: "string \<Rightarrow> (char \<times> string) option" where
  "read_escape s =
     (case s of
        [] \<Rightarrow> None
      | e # r \<Rightarrow>
          if e = CHR 0x5C \<or> e = CHR 0x22 then Some (e, r)
          else if e = CHR ''n'' then Some (CHR 0x0A, r)
          else if e = CHR ''r'' then Some (CHR 0x0D, r)
          else if e = CHR ''t'' then Some (CHR 0x09, r)
          else if e = CHR ''u'' then unicode_escape r
          else None)"

lemma read_escape_shorter: "read_escape s = Some (c, r) \<Longrightarrow> length r < length s"
  by (auto simp: read_escape_def dest: unicode_escape_shorter split: list.splits if_splits)

definition yaml_char :: "char \<Rightarrow> bool" where
  "yaml_char c = (0x20 \<le> byte c \<and> byte c \<noteq> 0x7F)"

function read_quoted :: "string \<Rightarrow> string option" where
  "read_quoted [] = Some []"
| "read_quoted (c # cs) =
     (if c = CHR 0x5C
      then (case read_escape cs of
              None \<Rightarrow> None
            | Some (x, r) \<Rightarrow> map_option (\<lambda>t. x # t) (read_quoted r))
      else if c = CHR 0x22 \<or> \<not> yaml_char c then None
      else map_option (\<lambda>t. c # t) (read_quoted cs))"
  by pat_completeness auto
termination
  by (relation "measure length") (auto dest: read_escape_shorter)

definition yaml_plain_string :: "string \<Rightarrow> bool" where
  "yaml_plain_string s =
     (s \<noteq> [] \<and> is_ascii_alphabetic (hd s) \<and> last s \<noteq> CHR '' '' \<and>
      list_all (\<lambda>c. yaml_char c \<and> byte c < 128 \<and>
        c \<notin> set '':#,[]{}&*!|>%@`'' \<and> c \<noteq> CHR 0x22 \<and> c \<noteq> CHR 0x27) s \<and>
      map to_ascii_lower s \<notin>
        {''true'', ''false'', ''null'', ''yes'', ''no'', ''on'', ''off'', ''y'', ''n''})"

definition read_yaml_scalar :: "string \<Rightarrow> string option" where
  "read_yaml_scalar s =
     (if s \<noteq> [] \<and> hd s = CHR 0x22
      then (if 1 < length s \<and> last s = CHR 0x22 then read_quoted (butlast (tl s)) else None)
      else if yaml_plain_string s then Some s else None)"

lemma hex_char_class: "d < 16 \<Longrightarrow> is_hex_digit (hex_char d) \<and> hex_value (hex_char d) = d"
  by (auto simp: hex_char_def is_hex_digit_def hex_value_def is_ascii_digit_def)

lemma byte_less: "byte c < 256"
  by (simp add: byte_def)

lemma char_of_byte [simp]: "char_of (byte c) = c"
  by (simp add: byte_def)

lemma unicode_escape_control:
  assumes "byte c < 128"
  shows "unicode_escape (CHR ''0'' # CHR ''0'' # hex_char (byte c div 16) # hex_char (byte c mod 16) # r) =
    Some (c, r)"
proof -
  have "byte c div 16 < 16" "byte c mod 16 < 16"
    using assms by auto
  note h = hex_char_class [OF this(1)] hex_char_class [OF this(2)]
  have z: "is_hex_digit (CHR ''0'')" "hex_value (CHR ''0'') = 0"
    by (simp_all add: is_hex_digit_def hex_value_def is_ascii_digit_def byte_def)
  have "byte c div 16 * 16 + byte c mod 16 = byte c"
    by simp
  with h z assms show ?thesis
    by (simp add: unicode_escape_def)
qed

lemma read_escape_char: "read_quoted (escape_char c @ r) = map_option (\<lambda>t. c # t) (read_quoted r)"
proof -
  consider "c \<in> {CHR 0x5C, CHR 0x22, CHR 0x0A, CHR 0x0D, CHR 0x09}"
    | "c \<notin> {CHR 0x5C, CHR 0x22, CHR 0x0A, CHR 0x0D, CHR 0x09}" "\<not> yaml_char c"
    | "c \<notin> {CHR 0x5C, CHR 0x22, CHR 0x0A, CHR 0x0D, CHR 0x09}" "yaml_char c"
    by blast
  then show ?thesis
  proof cases
    case 1
    then show ?thesis
      by (auto simp: escape_char_def read_escape_def)
  next
    case 2
    then have "byte c < 128"
      by (auto simp: yaml_char_def)
    with 2 show ?thesis
      using unicode_escape_control [of c r]
      by (auto simp: escape_char_def read_escape_def yaml_char_def)
  next
    case 3
    then have "escape_char c = [c]"
      by (auto simp: escape_char_def yaml_char_def)
    with 3 show ?thesis by simp
  qed
qed

lemma read_escaped: "read_quoted (concat (map escape_char s)) = Some s"
  by (induction s) (simp_all add: read_escape_char)

lemma alnum_plain:
  assumes "is_ascii_alphanumeric c \<or> c \<in> set '' ._/-''"
  shows "yaml_char c \<and> byte c < 128 \<and> c \<notin> set '':#,[]{}&*!|>%@`'' \<and> c \<noteq> CHR 0x22 \<and> c \<noteq> CHR 0x27"
  using assms
  by (auto simp: is_ascii_alphanumeric_def is_ascii_alphabetic_def is_ascii_upper_def
      is_ascii_lower_def is_ascii_digit_def yaml_char_def byte_def)

lemma alphabetic_alnum: "is_ascii_alphabetic c \<Longrightarrow> is_ascii_alphanumeric c"
  by (simp add: is_ascii_alphanumeric_def)

lemma safe_plain: "is_safe_plain_scalar s \<Longrightarrow> yaml_plain_string s"
proof -
  assume safe: "is_safe_plain_scalar s"
  then obtain c cs where s: "s = c # cs" "is_ascii_alphabetic c"
    "list_all (\<lambda>c. is_ascii_alphanumeric c \<or> c \<in> set '' ._/-'') cs" "last s \<noteq> CHR '' ''"
    by (auto simp: is_safe_plain_scalar_def matches_plain_pattern_def split: list.splits if_splits)
  have "list_all (\<lambda>c. yaml_char c \<and> byte c < 128 \<and> c \<notin> set '':#,[]{}&*!|>%@`'' \<and>
      c \<noteq> CHR 0x22 \<and> c \<noteq> CHR 0x27) s"
    using s alnum_plain alphabetic_alnum unfolding list_all_iff by (metis set_ConsD)
  moreover have "map to_ascii_lower s \<notin> {''true'', ''false'', ''null'', ''yes'', ''no'', ''on'', ''off'', ''y'', ''n''}"
    using safe by (auto simp: is_safe_plain_scalar_def is_yaml_reserved_def yaml_keywords_def)
  ultimately show ?thesis
    using s by (simp add: yaml_plain_string_def)
qed

text \<open>C17: Every front matter value survives YAML: whatever bytes a title, tag, speaker or path has, a
  YAML reader gets back exactly that string from its scalar - never a number, a boolean or a null -
  and a scalar never contains a raw line break or another control character.\<close>

theorem yaml_scalar_round_trip:
  "read_yaml_scalar (yaml_scalar s) = Some s \<and> list_all yaml_char (yaml_scalar s)"
proof (cases "is_safe_plain_scalar s")
  case True
  then have p: "yaml_plain_string s"
    by (rule safe_plain)
  then have "hd s \<noteq> CHR 0x22"
    by (cases s) (auto simp: yaml_plain_string_def)
  with True p show ?thesis
    by (auto simp: yaml_scalar_def read_yaml_scalar_def yaml_plain_string_def list_all_iff)
next
  case False
  have "list_all yaml_char (escape_char c)" for c
  proof -
    have "yaml_char (hex_char (byte c div 16))" "yaml_char (hex_char (byte c mod 16))"
      using byte_less [of c] by (auto simp: hex_char_def yaml_char_def)
    then show ?thesis
      by (auto simp: escape_char_def yaml_char_def byte_def)
  qed
  then have "list_all yaml_char (concat (map escape_char s))"
    by (auto simp: list_all_iff)
  then show ?thesis
    using False read_escaped [of s]
    by (simp add: yaml_scalar_def read_yaml_scalar_def dquote_def butlast_append yaml_char_def byte_def)
qed

section \<open>Replacing speaker labels\<close>

text \<open>The replacement by recursion on the text.\<close>

definition label_digits :: "string \<Rightarrow> string" where
  "label_digits s = takeWhile is_ascii_digit (drop 8 s)"

definition readable :: "string \<Rightarrow> bool" where
  "readable ds = (ds \<noteq> [] \<and> parse_u32 ds \<noteq> None)"

function humanize_spec :: "string \<Rightarrow> string" where
  "humanize_spec [] = []"
| "humanize_spec (c # cs) =
     (if prefix speaker_prefix (c # cs)
      then (let ds = label_digits (c # cs)
            in if readable ds
               then human_label (the (parse_u32 ds)) @ humanize_spec (drop (8 + length ds) (c # cs))
               else speaker_prefix @ humanize_spec (drop 8 (c # cs)))
      else c # humanize_spec cs)"
  by pat_completeness auto
termination
  by (relation "measure length") auto

declare humanize_spec.simps(2) [simp del]

lemma humanize_plain: "\<not> prefix speaker_prefix (c # cs) \<Longrightarrow> humanize_spec (c # cs) = c # humanize_spec cs"
  by (simp add: humanize_spec.simps(2))

lemma humanize_label:
  "prefix speaker_prefix s \<Longrightarrow> readable (label_digits s) \<Longrightarrow>
     humanize_spec s = human_label (the (parse_u32 (label_digits s))) @
       humanize_spec (drop (8 + length (label_digits s)) s)"
  by (cases s) (simp_all add: humanize_spec.simps(2) Let_def)

lemma humanize_no_label:
  "prefix speaker_prefix s \<Longrightarrow> \<not> readable (label_digits s) \<Longrightarrow>
     humanize_spec s = speaker_prefix @ humanize_spec (drop 8 s)"
  by (cases s) (simp_all add: humanize_spec.simps(2) Let_def)

text \<open>Occurrences are not found inside digits.\<close>

lemma not_prefix_digit: "is_ascii_digit c \<Longrightarrow> \<not> prefix speaker_prefix (c # cs)"
  by (auto simp: speaker_prefix_def is_ascii_digit_def byte_def)

lemma match_from_digits:
  "list_all is_ascii_digit ds \<Longrightarrow>
     match_from speaker_prefix i (ds @ r) = match_from speaker_prefix (i + length ds) r"
proof (induction ds arbitrary: i)
  case (Cons d ds)
  then have "\<not> prefix speaker_prefix (d # ds @ r)"
    by (intro not_prefix_digit) simp
  with Cons show ?case by simp
qed simp

lemma match_from_hit:
  assumes "prefix speaker_prefix s"
  shows "match_from speaker_prefix i s = i # match_from speaker_prefix (i + 8) (drop 8 s)"
proof (cases s)
  case (Cons c cs)
  with assms show ?thesis
    by (simp add: drop_Cons')
qed (use assms in simp)

lemma match_from_miss:
  "\<not> prefix speaker_prefix (c # cs) \<Longrightarrow>
     match_from speaker_prefix i (c # cs) = match_from speaker_prefix (Suc i) cs"
  by simp

lemma take_drop_Suc:
  assumes "e \<le> i" and "drop i text = c # cs"
  shows "take (Suc i - e) (drop e text) = take (i - e) (drop e text) @ [c]"
proof -
  have "i < length text"
    using assms(2) by (metis drop_all leI list.discI)
  moreover from this have "text ! i = c"
    using assms(2) by (metis Cons_nth_drop_Suc list.inject)
  ultimately show ?thesis
    using assms(1) by (simp add: Suc_diff_le take_Suc_conv_app_nth)
qed

lemma humanize_loop_spec:
  assumes "e \<le> i" and "i \<le> length text"
  shows "humanize_loop text (match_from speaker_prefix i (drop i text)) e result =
    Some (result @ take (i - e) (drop e text) @ humanize_spec (drop i text))"
  using assms
proof (induction "length text - i" arbitrary: i e result rule: less_induct)
  case less
  show ?case
  proof (cases "drop i text")
    case Nil
    then have "i = length text"
      using less.prems by simp
    then show ?thesis
      using less.prems by (simp add: slice_bytes_def)
  next
    case (Cons c cs)
    then have i: "i < length text"
      by (metis drop_all leI list.discI)
    show ?thesis
    proof (cases "prefix speaker_prefix (drop i text)")
      case False
      have tail: "drop (Suc i) text = cs"
        using Cons by (metis drop_Suc list.sel(3) tl_drop)
      have "humanize_loop text (match_from speaker_prefix (Suc i) (drop (Suc i) text)) e result =
          Some (result @ take (Suc i - e) (drop e text) @ humanize_spec (drop (Suc i) text))"
        using i less.prems by (intro less.hyps) auto
      then show ?thesis
        using False take_drop_Suc [OF less.prems(1) Cons] unfolding tail Cons
        by (simp add: match_from_miss humanize_plain del: match_from.simps)
    next
      case True
      let ?n = "i + 8" and ?ds = "label_digits (drop i text)"
      have n: "?n \<le> length text"
        using prefix_length_le [OF True] i by simp
      have ds: "?ds = takeWhile is_ascii_digit (drop ?n text)"
        by (simp add: label_digits_def add.commute)
      have digits: "take (length ?ds) (drop ?n text) = ?ds"
        unfolding ds by (rule takeWhile_eq_take [symmetric])
      have before: "slice_bytes text e i = Some (take (i - e) (drop e text))"
        using less.prems i by (simp add: slice_bytes_def)
      have tail: "slice_bytes text ?n (length text) = Some (drop ?n text)"
        using n by (simp add: slice_bytes_def)
      have step: "humanize_loop text (match_from speaker_prefix i (drop i text)) e result =
          (if readable ?ds
           then humanize_loop text (match_from speaker_prefix ?n (drop ?n text)) (?n + length ?ds)
                  (result @ take (i - e) (drop e text) @ human_label (the (parse_u32 ?ds)))
           else humanize_loop text (match_from speaker_prefix ?n (drop ?n text)) ?n
                  (result @ take (i - e) (drop e text) @ speaker_prefix))"
        using less.prems before tail digits
        by (simp add: match_from_hit [OF True] Let_def readable_def ds [symmetric] add.commute
            del: match_from.simps)
      show ?thesis
      proof (cases "readable ?ds")
        case False
        have "humanize_loop text (match_from speaker_prefix ?n (drop ?n text)) ?n
            (result @ take (i - e) (drop e text) @ speaker_prefix) =
            Some ((result @ take (i - e) (drop e text) @ speaker_prefix) @ take (?n - ?n) (drop ?n text) @
              humanize_spec (drop ?n text))"
          using i n by (intro less.hyps) auto
        then show ?thesis
          using False by (simp add: step humanize_no_label [OF True] add.commute)
      next
        case rd: True
        let ?e = "?n + length ?ds"
        have parts: "drop ?n text = ?ds @ drop ?e text"
          using digits by (metis append_take_drop_id drop_drop add.commute)
        have len: "?e \<le> length text"
          using arg_cong [OF parts, of length] n by simp
        have "list_all is_ascii_digit ?ds"
          unfolding ds list_all_iff by (auto dest: set_takeWhileD)
        from match_from_digits [OF this, of ?n "drop ?e text"]
        have "match_from speaker_prefix ?n (drop ?n text) = match_from speaker_prefix ?e (drop ?e text)"
          unfolding parts [symmetric] .
        moreover have "humanize_loop text (match_from speaker_prefix ?e (drop ?e text)) ?e
            (result @ take (i - e) (drop e text) @ human_label (the (parse_u32 ?ds))) =
            Some ((result @ take (i - e) (drop e text) @ human_label (the (parse_u32 ?ds))) @
              take (?e - ?e) (drop ?e text) @ humanize_spec (drop ?e text))"
          using i len by (intro less.hyps) auto
        ultimately show ?thesis
          using rd by (simp add: step humanize_label [OF True] add.commute add.left_commute)
      qed
    qed
  qed
qed

lemma humanize_total: "humanize_speakers_in_text text = Some (humanize_spec text)"
  using humanize_loop_spec [of 0 0 "text" "[]"] by (simp add: humanize_speakers_in_text_def match_indices_def)

section \<open>No labels are left\<close>

definition speaker_ref :: "string \<Rightarrow> nat \<Rightarrow> bool" where
  "speaker_ref s k =
     (prefix speaker_prefix (drop k s) \<and> readable (label_digits (drop k s)))"

lemma human_label_chars: "CHR ''s'' \<notin> set (human_label i)"
  using dec_digits [of "u32_saturating_add i 1"]
  by (auto simp: human_label_def list_all_iff is_ascii_digit_def byte_def)

lemma prefix_no_s:
  assumes "CHR ''s'' \<notin> set u" and "k < length u"
  shows "\<not> prefix speaker_prefix (drop k (u @ v))"
proof
  assume "prefix speaker_prefix (drop k (u @ v))"
  then have "drop k (u @ v) ! 0 = CHR ''s''"
    by (auto simp: speaker_prefix_def prefix_def)
  then have "u ! k = CHR ''s''"
    using assms(2) by (simp add: nth_append)
  with assms show False
    by (metis nth_mem)
qed

text \<open>Up to the first replacement, the output is the input: a replacement starts with a capital.\<close>

lemma humanize_prefix:
  assumes "CHR ''S'' \<notin> set w" and "prefix w (humanize_spec s)"
  shows "prefix w s"
  using assms
proof (induction s arbitrary: w rule: humanize_spec.induct)
  case (2 c cs)
  consider "\<not> prefix speaker_prefix (c # cs)"
    | "prefix speaker_prefix (c # cs)" "readable (label_digits (c # cs))"
    | "prefix speaker_prefix (c # cs)" "\<not> readable (label_digits (c # cs))"
    by blast
  then show ?case
  proof cases
    case 1
    then show ?thesis
      using 2 by (cases w) (auto simp: humanize_plain)
  next
    case c: 2
    have "w = []"
      using 2(4,5) humanize_label [OF c] by (cases w) (auto simp: human_label_def)
    then show ?thesis by simp
  next
    case c: 3
    obtain t where t: "c # cs = speaker_prefix @ t" "drop 8 (c # cs) = t"
      using c(1) by (auto simp: prefix_def)
    have "prefix w (speaker_prefix @ humanize_spec t)"
      using 2(5) humanize_no_label [OF c] t(2) by simp
    then consider "prefix w speaker_prefix" | w' where "w = speaker_prefix @ w'" "prefix w' (humanize_spec t)"
      by (auto simp: prefix_append)
    then show ?thesis
    proof cases
      case 1
      then show ?thesis
        unfolding t(1) by simp
    next
      case w: 2
      have "prefix w' t"
        using 2(2) [OF c(1) refl c(2)] 2(4) w t(2) by simp
      then show ?thesis
        unfolding t(1) w(1) by simp
    qed
  qed
qed simp

lemma humanize_digits:
  "takeWhile is_ascii_digit (humanize_spec s) = takeWhile is_ascii_digit s"
proof (induction s)
  case (Cons c cs)
  show ?case
  proof (cases "prefix speaker_prefix (c # cs)")
    case True
    then have "c = CHR ''s''"
      by (simp add: speaker_prefix_def)
    then show ?thesis
      using True humanize_label [OF True] humanize_no_label [OF True]
      by (cases "readable (label_digits (c # cs))")
        (simp_all add: human_label_def speaker_prefix_def is_ascii_digit_def byte_def)
  qed (use Cons in \<open>simp add: humanize_plain\<close>)
qed simp

lemma prefix_recurs:
  assumes "0 < k" and "k < 8"
  shows "\<not> prefix speaker_prefix (drop k (speaker_prefix @ v))"
proof -
  have "k \<in> {1, 2, 3, 4, 5, 6, 7}"
    using assms by auto
  then show ?thesis
    by (auto simp: speaker_prefix_def)
qed

lemma humanize_no_refs: "\<not> speaker_ref (humanize_spec s) k"
proof (induction s arbitrary: k rule: humanize_spec.induct)
  case 1
  then show ?case
    by (simp add: speaker_ref_def)
next
  case (2 c cs)
  consider "\<not> prefix speaker_prefix (c # cs)"
    | "prefix speaker_prefix (c # cs)" "readable (label_digits (c # cs))"
    | "prefix speaker_prefix (c # cs)" "\<not> readable (label_digits (c # cs))"
    by blast
  then show ?case
  proof cases
    case 1
    show ?thesis
    proof (cases k)
      case 0
      have "\<not> prefix speaker_prefix (c # humanize_spec cs)"
      proof
        assume p: "prefix speaker_prefix (c # humanize_spec cs)"
        have lower: "CHR ''S'' \<notin> set (tl speaker_prefix)"
          by (simp add: speaker_prefix_def)
        from p have first: "c = CHR ''s''" and rest: "prefix (tl speaker_prefix) (humanize_spec cs)"
          by (simp_all add: speaker_prefix_def)
        have "prefix speaker_prefix (c # cs)"
          using humanize_prefix [OF lower rest] first by (simp add: speaker_prefix_def)
        with 1 show False by simp
      qed
      then show ?thesis
        by (simp only: 0 humanize_plain [OF 1] speaker_ref_def drop_0 simp_thms)
    next
      case (Suc m)
      then show ?thesis
        using 2(3) [OF 1, of m] by (simp only: humanize_plain [OF 1] speaker_ref_def drop_Suc_Cons simp_thms)
    qed
  next
    case c: 2
    let ?u = "human_label (the (parse_u32 (label_digits (c # cs))))"
      and ?v = "humanize_spec (drop (8 + length (label_digits (c # cs))) (c # cs))"
    show ?thesis
    proof (cases "k < length ?u")
      case True
      then show ?thesis
        using prefix_no_s [OF human_label_chars True, of ?v] humanize_label [OF c]
        by (simp add: speaker_ref_def)
    next
      case False
      have "\<not> speaker_ref ?v (k - length ?u)"
        using 2(1) [OF c(1) refl c(2)] .
      then show ?thesis
        using False humanize_label [OF c] by (simp add: speaker_ref_def)
    qed
  next
    case c: 3
    let ?v = "humanize_spec (drop 8 (c # cs))"
    consider "k = 0" | "0 < k" "k < 8" | "8 \<le> k"
      by linarith
    then show ?thesis
    proof cases
      case 1
      have "label_digits (speaker_prefix @ ?v) = label_digits (c # cs)"
        using humanize_digits [of "drop 8 (c # cs)"] by (simp add: label_digits_def)
      then show ?thesis
        using 1 c humanize_no_label [OF c] by (simp add: speaker_ref_def)
    next
      case k: 2
      then show ?thesis
        using prefix_recurs [OF k, of ?v] humanize_no_label [OF c] by (simp add: speaker_ref_def)
    next
      case 3
      have "\<not> speaker_ref ?v (k - 8)"
        using 2(2) [OF c(1) refl c(2)] .
      then show ?thesis
        using 3 humanize_no_label [OF c] by (simp add: speaker_ref_def)
    qed
  qed
qed

text \<open>The replacement of speaker labels in a text never panics on a slice, is the left-to-right
  replacement of every label with a number in range by its reader-facing form, and leaves no such
  label in the text.\<close>

theorem humanize_speakers_sound:
  "humanize_speakers_in_text s = Some (humanize_spec s) \<and> \<not> speaker_ref (humanize_spec s) k"
  using humanize_total humanize_no_refs by blast

end
