(* ===== verification/Markdown_Files.thy ===== *)
theory Markdown_Files
  imports Markdown_Text
begin

text \<open>
  The files of an export: the exporter keeps the contract of the port, copies every screenshot to the
  place that its notes refer to when the names differ, and loses one when two names are equal.
\<close>

section \<open>Copies\<close>

definition shot_dest :: "string \<Rightarrow> u32 \<Rightarrow> screenshot \<Rightarrow> string" where
  "shot_dest dir i shot = path_join dir (screenshot_name i shot)"

definition shot_copies :: "string \<Rightarrow> u32 \<Rightarrow> screenshot list \<Rightarrow> (string \<times> string) list" where
  "shot_copies dir i shots = map (\<lambda>shot. (shot_dest dir i shot, shot_path shot)) shots"

definition section_copies :: "string \<Rightarrow> notes_section list \<Rightarrow> (string \<times> string) list" where
  "section_copies dir secs = concat (map (\<lambda>sec. shot_copies dir (sec_index sec) (sec_screenshots sec)) secs)"

text \<open>Destination and source pairs copied in order.\<close>

fun copy_all :: "(string \<times> string) list \<Rightarrow> fs \<Rightarrow> fs" where
  "copy_all [] d = d"
| "copy_all ((dst, src) # cs) d = copy_all cs (d(dst := d src))"

lemma copy_all_append: "copy_all (xs @ ys) d = copy_all ys (copy_all xs d)"
  by (induction xs arbitrary: d) auto

lemma copy_all_other: "p \<notin> fst ` set cs \<Longrightarrow> copy_all cs d p = d p"
  by (induction cs arbitrary: d) auto

lemma copy_all_distinct:
  assumes "distinct (map fst cs)" and "fst ` set cs \<inter> snd ` set cs = {}" and "(dst, src) \<in> set cs"
  shows "copy_all cs d dst = d src"
  using assms
proof (induction cs arbitrary: d)
  case (Cons c cs)
  obtain a b where c: "c = (a, b)"
    by fastforce
  show ?case
  proof (cases "(dst, src) = (a, b)")
    case True
    then show ?thesis
      using Cons.prems(1) by (simp add: c copy_all_other)
  next
    case False
    then have "(dst, src) \<in> set cs" "src \<noteq> a"
      using Cons.prems by (auto simp: c image_iff)
    moreover have "fst ` set cs \<inter> snd ` set cs = {}"
      using Cons.prems(2) by auto
    ultimately show ?thesis
      using Cons.IH [of "d(a := d b)"] Cons.prems(1) by (simp add: c del: fun_upd_apply)
        (simp add: fun_upd_apply)
  qed
qed simp

lemma fs_copy_Inr: "fs_copy src dst d = Inr d' \<Longrightarrow> d' = d(dst := d src) \<and> is_file d src"
  by (auto simp: fs_copy_def fs_write_def is_file_def split: option.splits fs_node.splits)

lemma screenshot_name_nonempty: "screenshot_name i shot \<noteq> []"
  by (simp add: screenshot_name_def)

lemma shot_dest_under: "under_dir dir (shot_dest dir i shot)"
  by (simp add: shot_dest_def under_dir_join screenshot_name_nonempty)

section \<open>What a rendering does to the files\<close>

text \<open>
  Success: exactly the copies were made, all of files, and the assets are their destinations. Always:
  nothing outside the directory is touched.
\<close>

lemma export_screenshot_run:
  assumes "export_screenshot i dir shot (d, as) = (r, (d', as'))"
  shows "\<not> isl r \<Longrightarrow> as' = as @ [shot_dest dir i shot] \<and> d' = d(shot_dest dir i shot := d (shot_path shot)) \<and>
      is_file d (shot_path shot)"
    and "\<not> prefix dir p \<Longrightarrow> d' p = d p"
proof -
  show "as' = as @ [shot_dest dir i shot] \<and> d' = d(shot_dest dir i shot := d (shot_path shot)) \<and>
      is_file d (shot_path shot)" if "\<not> isl r"
    using assms that
    by (auto simp: export_screenshot_def shot_dest_def Let_def dest!: fs_copy_Inr
        split: option.splits sum.splits)
  assume "\<not> prefix dir p"
  then have "p \<noteq> shot_dest dir i shot"
    using shot_dest_under by (auto simp: under_dir_def)
  then show "d' p = d p"
    using assms
    by (auto simp: export_screenshot_def shot_dest_def Let_def dest!: fs_copy_Inr
        split: option.splits sum.splits)
qed

lemma export_screenshots_run:
  assumes "export_screenshots i dir shots (d, as) = (r, (d', as'))"
  shows "\<not> isl r \<longrightarrow> as' = as @ map fst (shot_copies dir i shots) \<and> d' = copy_all (shot_copies dir i shots) d \<and>
      (\<forall>p. is_file d p \<or> p \<in> fst ` set (shot_copies dir i shots) \<longrightarrow> is_file d' p)"
    and "\<not> prefix dir p \<longrightarrow> d' p = d p"
proof -
  have "(\<not> isl r \<longrightarrow> as' = as @ map fst (shot_copies dir i shots) \<and> d' = copy_all (shot_copies dir i shots) d \<and>
      (\<forall>p. is_file d p \<or> p \<in> fst ` set (shot_copies dir i shots) \<longrightarrow> is_file d' p)) \<and>
    (\<not> prefix dir p \<longrightarrow> d' p = d p)"
    using assms
  proof (induction shots arbitrary: d as r)
    case (Cons shot shots)
    obtain r1 d1 as1 where one: "export_screenshot i dir shot (d, as) = (r1, (d1, as1))"
      by (metis prod.collapse)
    note run = export_screenshot_run [OF one]
    show ?case
    proof (cases r1)
      case (Inl e)
      then show ?thesis
        using Cons.prems one run(2) by auto
    next
      case (Inr img)
      obtain r2 where rest: "export_screenshots i dir shots (d1, as1) = (r2, (d', as'))" "isl r2 = isl r"
        using Cons.prems one Inr by (auto split: prod.splits sum.splits)
      have d1: "as1 = as @ [shot_dest dir i shot]" "d1 = d(shot_dest dir i shot := d (shot_path shot))"
        "is_file d (shot_path shot)"
        using run(1) Inr by simp_all
      then have files: "is_file d1 p" if "is_file d p \<or> p = shot_dest dir i shot" for p
        using that by (auto simp: is_file_def)
      have step: "copy_all (shot_copies dir i (shot # shots)) d = copy_all (shot_copies dir i shots) d1"
        by (simp add: shot_copies_def d1(2))
      have names: "map fst (shot_copies dir i (shot # shots)) = shot_dest dir i shot # map fst (shot_copies dir i shots)"
        by (simp add: shot_copies_def)
      have dests: "fst ` set (shot_copies dir i (shot # shots)) =
          insert (shot_dest dir i shot) (fst ` set (shot_copies dir i shots))"
        by (simp add: shot_copies_def)
      note IH = Cons.IH [OF rest(1), unfolded rest(2) d1(1)]
      have "\<not> prefix dir p \<longrightarrow> d' p = d p"
        using conjunct2 [OF IH] run(2) by simp
      moreover have "is_file d' q" if "\<not> isl r" "is_file d q \<or> q \<in> fst ` set (shot_copies dir i (shot # shots))" for q
        using that conjunct1 [OF IH] files [of q] unfolding dests by blast
      ultimately show ?thesis
        using conjunct1 [OF IH] unfolding step names by simp
    qed
  qed (auto simp: shot_copies_def)
  then show "\<not> isl r \<longrightarrow> as' = as @ map fst (shot_copies dir i shots) \<and> d' = copy_all (shot_copies dir i shots) d \<and>
      (\<forall>p. is_file d p \<or> p \<in> fst ` set (shot_copies dir i shots) \<longrightarrow> is_file d' p)"
    and "\<not> prefix dir p \<longrightarrow> d' p = d p"
    by blast+
qed

text \<open>The directory is made once, if it is needed and not there.\<close>

definition with_dir :: "string \<Rightarrow> bool \<Rightarrow> fs \<Rightarrow> fs" where
  "with_dir dir needed d = (if needed \<and> d dir = None then d(dir \<mapsto> FsDir) else d)"

lemma with_dir_simps [simp]:
  "with_dir dir False d = d" "p \<noteq> dir \<Longrightarrow> with_dir dir b d p = d p"
  "is_file (with_dir dir b d) p = is_file d p"
  by (auto simp: with_dir_def is_file_def)

lemma with_dir_there: "with_dir dir b d dir = None \<longleftrightarrow> d dir = None \<and> \<not> b"
  by (auto simp: with_dir_def)

lemma render_section_run:
  assumes "render_section sec dialect dir (d, as) = (r, (d', as'))"
  defines "cs \<equiv> shot_copies dir (sec_index sec) (sec_screenshots sec)"
  shows "\<not> isl r \<longrightarrow> as' = as @ map fst cs \<and> d' = copy_all cs (with_dir dir (cs \<noteq> []) d) \<and>
      (\<forall>p. is_file d p \<or> p \<in> fst ` set cs \<longrightarrow> is_file d' p)"
    and "\<not> prefix dir p \<longrightarrow> d' p = d p"
proof -
  have dir: "(if d dir = None then create_dir_all dir d else Inr d) = Inr (with_dir dir True d)"
    by (auto simp: create_dir_all_def with_dir_def)
  consider (none) "sec_screenshots sec = []" "d' = d" "as' = as"
    | (some) r2 where "sec_screenshots sec \<noteq> []" "isl r2 = isl r"
      "export_screenshots (sec_index sec) dir (sec_screenshots sec) (with_dir dir True d, as) = (r2, (d', as'))"
    using assms(1) dir
    by (auto simp: render_section_def render_screenshots_def Let_def split: if_splits prod.splits sum.splits)
  then have "(\<not> isl r \<longrightarrow> as' = as @ map fst cs \<and> d' = copy_all cs (with_dir dir (cs \<noteq> []) d) \<and>
      (\<forall>p. is_file d p \<or> p \<in> fst ` set cs \<longrightarrow> is_file d' p)) \<and> (\<not> prefix dir p \<longrightarrow> d' p = d p)"
  proof cases
    case some
    then have "cs \<noteq> []"
      by (simp add: cs_def shot_copies_def)
    then show ?thesis
      using export_screenshots_run [OF some(3)] some(2) by (auto simp: cs_def)
  qed (simp add: cs_def shot_copies_def)
  then show "\<not> isl r \<longrightarrow> as' = as @ map fst cs \<and> d' = copy_all cs (with_dir dir (cs \<noteq> []) d) \<and>
      (\<forall>p. is_file d p \<or> p \<in> fst ` set cs \<longrightarrow> is_file d' p)"
    and "\<not> prefix dir p \<longrightarrow> d' p = d p"
    by blast+
qed

lemma copy_all_with_dir:
  "cs \<noteq> [] \<Longrightarrow> \<forall>(dst, src) \<in> set cs. dst \<noteq> dir \<Longrightarrow>
     with_dir dir b (copy_all cs (with_dir dir True d)) = copy_all cs (with_dir dir True d)"
  using copy_all_other [of dir cs "with_dir dir True d"]
  by (force simp: with_dir_def)

lemma shot_copies_dests: "(dst, src) \<in> set (shot_copies dir i shots) \<Longrightarrow> under_dir dir dst"
  using shot_dest_under by (auto simp: shot_copies_def)

lemma section_copies_dests: "(dst, src) \<in> set (section_copies dir secs) \<Longrightarrow> under_dir dir dst"
  using shot_copies_dests by (auto simp: section_copies_def)

lemma render_sections_run:
  assumes "render_sections dialect dir secs body (d, as) = (r, (d', as'))"
  defines "cs \<equiv> section_copies dir secs"
  shows "\<not> isl r \<longrightarrow> as' = as @ map fst cs \<and> d' = copy_all cs (with_dir dir (cs \<noteq> []) d) \<and>
      (\<forall>p. is_file d p \<or> p \<in> fst ` set cs \<longrightarrow> is_file d' p)"
    and "\<not> prefix dir p \<longrightarrow> d' p = d p"
proof -
  have "(\<not> isl r \<longrightarrow> as' = as @ map fst cs \<and> d' = copy_all cs (with_dir dir (cs \<noteq> []) d) \<and>
      (\<forall>p. is_file d p \<or> p \<in> fst ` set cs \<longrightarrow> is_file d' p)) \<and> (\<not> prefix dir p \<longrightarrow> d' p = d p)"
    using assms(1) unfolding cs_def
  proof (induction secs arbitrary: d as r body)
    case (Cons sec secs)
    obtain r1 d1 as1 where one: "render_section sec dialect dir (d, as) = (r1, (d1, as1))"
      by (metis prod.collapse)
    note run = render_section_run [OF one]
    show ?case
    proof (cases r1)
      case (Inl e)
      then show ?thesis
        using Cons.prems one run(2) by auto
    next
      case (Inr s)
      define xs where "xs = shot_copies dir (sec_index sec) (sec_screenshots sec)"
      define ys where "ys = section_copies dir secs"
      have cs: "section_copies dir (sec # secs) = xs @ ys"
        by (simp add: section_copies_def xs_def ys_def)
      have "render_sections dialect dir secs (body @ s @ section_rule) (d1, as1) = (r, (d', as'))"
        using Cons.prems one Inr by simp
      note IH = Cons.IH [OF this, folded ys_def]
      have d1: "as1 = as @ map fst xs" "d1 = copy_all xs (with_dir dir (xs \<noteq> []) d)"
        "is_file d q \<or> q \<in> fst ` set xs \<Longrightarrow> is_file d1 q" for q
      proof -
        have "\<not> isl r1"
          by (simp add: Inr)
        then show "as1 = as @ map fst xs" "d1 = copy_all xs (with_dir dir (xs \<noteq> []) d)"
          "is_file d q \<or> q \<in> fst ` set xs \<Longrightarrow> is_file d1 q"
          using run(1) [folded xs_def] by blast+
      qed
      have xs_dests: "\<forall>(dst, src) \<in> set xs. dst \<noteq> dir"
        using shot_copies_dests by (fastforce simp: xs_def under_dir_def)
      have "copy_all ys (with_dir dir (ys \<noteq> []) d1) = copy_all (xs @ ys) (with_dir dir (xs @ ys \<noteq> []) d)"
      proof (cases "xs = []")
        case False
        then show ?thesis
          using copy_all_with_dir [OF False xs_dests] by (simp add: d1(2) copy_all_append)
      qed (simp add: d1(2))
      moreover have "is_file d' q" if "\<not> isl r" "is_file d q \<or> q \<in> fst ` set (xs @ ys)" for q
        using that conjunct1 [OF IH] d1(3) [of q] by auto
      ultimately show ?thesis
        using IH run(2) unfolding cs d1(1) by simp
    qed
  qed (simp add: section_copies_def)
  then show "\<not> isl r \<longrightarrow> as' = as @ map fst cs \<and> d' = copy_all cs (with_dir dir (cs \<noteq> []) d) \<and>
      (\<forall>p. is_file d p \<or> p \<in> fst ` set cs \<longrightarrow> is_file d' p)"
    and "\<not> prefix dir p \<longrightarrow> d' p = d p"
    by blast+
qed

section \<open>The contract of the port\<close>

lemma render_sections_body:
  "render_sections dialect dir secs body st = (Inr out, st') \<Longrightarrow> prefix body out"
  by (induction secs arbitrary: body st) (fastforce simp: prefix_def split: prod.splits sum.splits)+

text \<open>What a successful export did, step by step.\<close>

lemma markdown_export_success:
  assumes "markdown_export path_debug sn dest d = (Inr a, d')"
  defines "dir \<equiv> path_join dest ''screenshots''"
  defines "cs \<equiv> section_copies dir (sn_sections sn)"
  obtains body where "a = \<lparr>ea_primary_file = path_join dest ''notes.md'', ea_assets = map fst cs\<rparr>"
    and "d' = (copy_all cs (with_dir dir (cs \<noteq> []) (d(dest \<mapsto> FsDir))))
                (path_join dest ''notes.md'' \<mapsto> FsFile body)"
    and "\<And>p. p \<in> fst ` set cs \<Longrightarrow> is_file d' p" and "body \<noteq> []"
    and "is_file d dest = False"
proof -
  have prep: "ensure_dest path_debug dest d = Inr (d(dest \<mapsto> FsDir))" "is_file d dest = False"
  proof -
    obtain x where x: "ensure_dest path_debug dest d = Inr x"
      using assms(1) by (auto simp: markdown_export_def split: sum.splits)
    then show "ensure_dest path_debug dest d = Inr (d(dest \<mapsto> FsDir))"
      using ensure_dest_cases [of path_debug dest d] by simp
    show "is_file d dest = False"
      using x by (auto simp: is_file_def ensure_dest_def split: option.splits fs_node.splits)
  qed
  obtain r d1 as where rend: "render_sections (fm_dialect (sn_frontmatter sn)) dir (sn_sections sn)
      (render_frontmatter sn @ newline) (d(dest \<mapsto> FsDir), []) = (r, (d1, as))"
    by (metis prod.collapse)
  then obtain body where r: "r = Inr body"
    using assms(1) prep by (cases r) (auto simp: markdown_export_def dir_def)
  have d': "fs_write (path_join dest ''notes.md'') (finish_body body) d1 = Inr d'"
    and a: "a = \<lparr>ea_primary_file = path_join dest ''notes.md'', ea_assets = as\<rparr>"
    using assms(1) prep rend r by (auto simp: markdown_export_def dir_def Let_def split: sum.splits)
  have run: "as = map fst cs" "d1 = copy_all cs (with_dir dir (cs \<noteq> []) (d(dest \<mapsto> FsDir)))"
    "\<And>p. p \<in> fst ` set cs \<Longrightarrow> is_file d1 p"
  proof -
    have "\<not> isl r"
      by (simp add: r)
    then show "as = map fst cs" "d1 = copy_all cs (with_dir dir (cs \<noteq> []) (d(dest \<mapsto> FsDir)))"
      "\<And>p. p \<in> fst ` set cs \<Longrightarrow> is_file d1 p"
      using render_sections_run(1) [OF rend, folded cs_def] by force+
  qed
  have "prefix (render_frontmatter sn @ newline) body"
    using render_sections_body rend r by blast
  then have "finish_body body \<noteq> []"
    by (auto simp: finish_body_def newline_def section_rule_def)
  then show ?thesis
    using that [of "finish_body body"] fs_write_cases [OF d'] run a prep(2) by simp
qed

lemma under_join: "under_dir (path_join dest q) p \<Longrightarrow> under_dir dest p"
  using path_join_prefix [of dest q] prefix_length_le [of "path_join dest q" p]
  by (auto simp: under_dir_def prefix_def path_join_def split: if_splits)

interpretation markdown: notes_exporter "markdown_export path_debug" for path_debug
proof
  fix d :: fs and dest c sn
  assume "d dest = Some (FsFile c)"
  then have "ensure_dest path_debug dest d = Inl (invalid_dest path_debug dest)"
    by (simp add: ensure_dest_def)
  then show "(\<exists>m. fst (markdown_export path_debug sn dest d) = Inl (ExportInvalidDest m)) \<and>
      snd (markdown_export path_debug sn dest d) = d"
    by (simp add: markdown_export_def invalid_dest_def)
next
  fix sn dest and d :: fs and a d'
  assume run: "markdown_export path_debug sn dest d = (Inr a, d')"
  show "under_dir dest (ea_primary_file a) \<and> (\<exists>c. d' (ea_primary_file a) = Some (FsFile c) \<and> c \<noteq> [])"
    by (rule markdown_export_success [OF run]) (simp add: under_dir_join)
  show "under_dir dest p \<and> is_file d' p" if "p \<in> set (ea_assets a)" for p
  proof (rule markdown_export_success [OF run])
    fix body
    assume "a = \<lparr>ea_primary_file = path_join dest ''notes.md'',
        ea_assets = map fst (section_copies (path_join dest ''screenshots'') (sn_sections sn))\<rparr>"
      and files: "\<And>p. p \<in> fst ` set (section_copies (path_join dest ''screenshots'') (sn_sections sn)) \<Longrightarrow> is_file d' p"
    then have p: "p \<in> fst ` set (section_copies (path_join dest ''screenshots'') (sn_sections sn))"
      using that by simp
    then show "under_dir dest p \<and> is_file d' p"
      using files section_copies_dests under_join by fastforce
  qed
next
  fix sn dest and d :: fs and r d' p
  assume run: "markdown_export path_debug sn dest d = (r, d')" and p: "\<not> prefix dest p"
  let ?dir = "path_join dest ''screenshots''"
  have out: "\<not> prefix ?dir p" "p \<noteq> path_join dest ''notes.md''" "p \<noteq> dest"
    using p path_join_prefix [of dest] prefix_order.trans by blast+
  show "d' p = d p"
  proof (cases "ensure_dest path_debug dest d")
    case (Inl e)
    then show ?thesis
      using run by (simp add: markdown_export_def)
  next
    case (Inr d0)
    then have d0: "d0 = d(dest \<mapsto> FsDir)"
      using ensure_dest_cases [of path_debug dest d] by simp
    obtain r1 d1 as where rend: "render_sections (fm_dialect (sn_frontmatter sn)) ?dir (sn_sections sn)
        (render_frontmatter sn @ newline) (d0, []) = (r1, (d1, as))"
      by (metis prod.collapse)
    have "d1 p = d p"
      using render_sections_run(2) [OF rend, of p] out by (simp add: d0)
    then show ?thesis
      using run Inr rend out(2)
      by (auto simp: markdown_export_def Let_def dest!: fs_write_cases split: sum.splits)
  qed
qed

section \<open>Names\<close>

lemma screenshot_name_eq:
  "screenshot_name i a = screenshot_name j b \<longleftrightarrow>
     i = j \<and> shot_ms a = shot_ms b \<and> extension (shot_path a) = extension (shot_path b)"
proof
  let ?d = "\<lambda>w n. pad_zeros w (dec n)"
  let ?e = "\<lambda>s. case extension (shot_path s) of None \<Rightarrow> [] | Some e \<Rightarrow> CHR ''.'' # e"
  have digits: "list_all is_ascii_digit (?d w n)" for w n
    by (simp add: dec_digits pad_zeros_digits)
  have form: "screenshot_name i a = ''section'' @ ?d 2 i @ CHR ''_'' # ?d 8 (shot_ms a) @ ?e a" for i a
    by (auto simp: screenshot_name_def split: option.split)
  have split_name: "takeWhile is_ascii_digit (?d 8 (shot_ms a) @ ?e a) = ?d 8 (shot_ms a)" for a
    using takeWhile_digits [OF digits] digits [of 8 "shot_ms a"]
    by (auto simp: list_all_iff split: option.split)
  assume "screenshot_name i a = screenshot_name j b"
  then have eq: "?d 2 i @ CHR ''_'' # ?d 8 (shot_ms a) @ ?e a = ?d 2 j @ CHR ''_'' # ?d 8 (shot_ms b) @ ?e b"
    by (simp only: form same_append_eq)
  have not: "\<not> is_ascii_digit (CHR ''_'')"
    by simp
  have "?d 2 i = ?d 2 j" and tails: "?d 8 (shot_ms a) @ ?e a = ?d 8 (shot_ms b) @ ?e b"
    using arg_cong [OF eq, of "takeWhile is_ascii_digit"] arg_cong [OF eq, of "dropWhile is_ascii_digit"]
    by (simp_all only: takeWhile_digits [OF digits not] list.inject)
  then have i: "i = j"
    by (metis pad_zeros_value digits_value_dec)
  have ms: "?d 8 (shot_ms a) = ?d 8 (shot_ms b)"
    using arg_cong [OF tails, of "takeWhile is_ascii_digit"] by (simp only: split_name)
  then have e: "?e a = ?e b"
    using tails by simp
  have "shot_ms a = shot_ms b"
    using ms by (metis pad_zeros_value digits_value_dec)
  moreover have "extension (shot_path a) = extension (shot_path b)"
    using e by (auto split: option.splits)
  ultimately show "i = j \<and> shot_ms a = shot_ms b \<and> extension (shot_path a) = extension (shot_path b)"
    using i by simp
qed (simp add: screenshot_name_def)

text \<open>The key of each copy, in the order of the copies.\<close>

definition shot_keys :: "notes_section list \<Rightarrow> (u32 \<times> u64 \<times> string option) list" where
  "shot_keys secs = concat (map (\<lambda>sec. map (\<lambda>shot. (sec_index sec, shot_ms shot, extension (shot_path shot)))
     (sec_screenshots sec)) secs)"

lemma section_copies_names:
  "map fst (section_copies dir secs) = map (path_join dir)
     (concat (map (\<lambda>sec. map (screenshot_name (sec_index sec)) (sec_screenshots sec)) secs))"
  by (simp add: section_copies_def shot_copies_def shot_dest_def map_concat comp_def)

lemma distinct_copies:
  assumes "distinct (shot_keys secs)"
  shows "distinct (map fst (section_copies dir secs))"
proof -
  define tagged where "tagged = concat (map (\<lambda>sec. map (Pair (sec_index sec)) (sec_screenshots sec)) secs)"
  have "shot_keys secs = map (\<lambda>(i, shot). (i, shot_ms shot, extension (shot_path shot))) tagged"
    by (simp add: shot_keys_def tagged_def map_concat comp_def)
  moreover have "map fst (section_copies dir secs) = map (\<lambda>(i, shot). path_join dir (screenshot_name i shot)) tagged"
    by (simp add: section_copies_names tagged_def map_concat comp_def)
  ultimately show ?thesis
    using assms by (simp add: distinct_map inj_on_def path_join_inj screenshot_name_eq split_beta)
qed

section \<open>The links of the notes\<close>

text \<open>What the notes say where a screenshot belongs: the link is relative to the directory of the notes.\<close>

definition shot_link :: "u32 \<Rightarrow> screenshot \<Rightarrow> string" where
  "shot_link i shot = ''](screenshots/'' @ screenshot_name i shot @ '')''"

lemma sublist_right: "sublist x y \<Longrightarrow> sublist x (y @ b)"
  and sublist_left: "sublist x y \<Longrightarrow> sublist x (a @ y)"
  by (meson sublist_append_rightI sublist_append_leftI sublist_order.order.trans)+

lemma sublist_concat: "x \<in> set xs \<Longrightarrow> sublist x (concat xs)"
  by (induction xs) (auto simp: sublist_append)

lemma render_images_links:
  assumes "img \<in> set imgs"
  shows "sublist img (render_images dialect imgs)"
proof (cases dialect)
  case Basic
  have "sublist (img @ newline @ newline) (render_images dialect imgs)"
    using assms by (auto simp: render_images_def Basic intro!: sublist_concat)
  then show ?thesis
    by (metis sublist_appendI append_Nil sublist_order.order.trans)
next
  case NotionEnhanced
  let ?tr = "\<lambda>chunk. ''  <tr>'' @ concat (map (\<lambda>img. ''<td>'' @ img @ ''</td>'') chunk) @ ''</tr>'' @ newline"
  have "\<exists>chunk \<in> set (chunks_of_two imgs). img \<in> set chunk"
    using assms by (induction imgs rule: chunks_of_two.induct) auto
  then obtain chunk where chunk: "chunk \<in> set (chunks_of_two imgs)" "img \<in> set chunk"
    by blast
  have "sublist (''<td>'' @ img @ ''</td>'') (concat (map (\<lambda>img. ''<td>'' @ img @ ''</td>'') chunk))"
    using chunk(2) by (intro sublist_concat) auto
  moreover have "sublist img (''<td>'' @ img @ ''</td>'')"
    by (rule sublist_appendI)
  ultimately have "sublist img (concat (map (\<lambda>img. ''<td>'' @ img @ ''</td>'') chunk))"
    using sublist_order.order.trans by blast
  then have "sublist img (?tr chunk)"
    by (rule sublist_left [OF sublist_right])
  moreover have "sublist (?tr chunk) (concat (map ?tr (chunks_of_two imgs)))"
    using chunk(1) by (intro sublist_concat) auto
  ultimately have "sublist img (concat (map ?tr (chunks_of_two imgs)))"
    using sublist_order.order.trans by blast
  then show ?thesis
    unfolding render_images_def NotionEnhanced
    by (simp only: markdown_dialect.case) (rule sublist_left [OF sublist_left [OF sublist_left [OF sublist_right]]])
qed

definition shot_image :: "u32 \<Rightarrow> screenshot \<Rightarrow> string" where
  "shot_image i shot =
     ''!['' @ (case shot_caption shot of None \<Rightarrow> the (file_name (shot_path shot)) | Some c \<Rightarrow> c) @
     shot_link i shot"

lemma export_screenshots_images:
  "export_screenshots i dir shots st = (Inr imgs, st') \<Longrightarrow> imgs = map (shot_image i) shots"
  by (induction shots arbitrary: st imgs)
    (auto simp: export_screenshot_def shot_image_def shot_link_def Let_def
      split: option.splits prod.splits sum.splits)

lemma shot_link_image: "sublist (shot_link i shot) (shot_image i shot)"
  unfolding shot_image_def by (metis sublist_append_leftI append_assoc)

lemma render_section_links:
  assumes "render_section sec dialect dir st = (Inr out, st')" and "shot \<in> set (sec_screenshots sec)"
  shows "sublist (shot_link (sec_index sec) shot) out"
proof -
  let ?imgs = "map (shot_image (sec_index sec)) (sec_screenshots sec)"
  have "suffix (render_images dialect ?imgs) out"
    using assms
    by (auto simp: render_section_def render_screenshots_def Let_def suffix_def
        dest!: export_screenshots_images split: if_splits prod.splits sum.splits)
  moreover have "sublist (shot_image (sec_index sec) shot) (render_images dialect ?imgs)"
    using assms(2) by (intro render_images_links) simp
  ultimately show ?thesis
    using shot_link_image sublist_order.order.trans suffix_imp_sublist by blast
qed

lemma render_sections_parts:
  assumes "render_sections dialect dir secs body st = (Inr out, st')"
  shows "\<exists>parts. out = body @ concat (map (\<lambda>s. s @ section_rule) parts) \<and>
      list_all2 (\<lambda>sec s. \<forall>shot \<in> set (sec_screenshots sec). sublist (shot_link (sec_index sec) shot) s) secs parts"
  using assms
proof (induction secs arbitrary: body st)
  case (Cons sec secs)
  then obtain s st1 where s: "render_section sec dialect dir st = (Inr s, st1)"
    "render_sections dialect dir secs (body @ s @ section_rule) st1 = (Inr out, st')"
    by (auto split: prod.splits sum.splits)
  obtain parts where "out = (body @ s @ section_rule) @ concat (map (\<lambda>s. s @ section_rule) parts)"
    "list_all2 (\<lambda>sec s. \<forall>shot \<in> set (sec_screenshots sec). sublist (shot_link (sec_index sec) shot) s) secs parts"
    using Cons.IH [OF s(2)] by blast
  then show ?case
    using render_section_links [OF s(1)] by (intro exI [of _ "s # parts"]) simp
qed simp

lemma finish_body_parts:
  assumes "s \<in> set parts"
  shows "sublist s (finish_body (body @ concat (map (\<lambda>s. s @ section_rule) parts)))"
proof -
  obtain front z where parts: "parts = front @ [z]"
    using assms by (cases parts rule: rev_cases) auto
  let ?front = "concat (map (\<lambda>s. s @ section_rule) front)"
  have out: "body @ concat (map (\<lambda>s. s @ section_rule) parts) = (body @ ?front @ z) @ section_rule"
    by (simp add: parts)
  have eq: "finish_body (body @ concat (map (\<lambda>s. s @ section_rule) parts)) = (body @ ?front @ z) @ newline"
    unfolding out finish_body_def by (simp add: suffix_def)
  have "sublist s (?front @ z)"
  proof (cases "s = z")
    case False
    then have "sublist (s @ section_rule) ?front"
      using assms parts by (intro sublist_concat) auto
    then have "sublist s ?front"
      using sublist_order.order.trans [OF sublist_append_rightI] by blast
    then show ?thesis
      by (rule sublist_right)
  qed simp
  then show ?thesis
    unfolding eq by (rule sublist_right [OF sublist_left])
qed

text \<open>Each link of a screenshot is in the text of the notes.\<close>

lemma export_links:
  assumes "markdown_export path_debug sn dest d = (Inr a, d')"
    and "sec \<in> set (sn_sections sn)" and "shot \<in> set (sec_screenshots sec)"
  obtains body where "d' (path_join dest ''notes.md'') = Some (FsFile body)"
    and "sublist (shot_link (sec_index sec) shot) body"
proof -
  obtain d0 out d1 as where run: "ensure_dest path_debug dest d = Inr d0"
    "render_sections (fm_dialect (sn_frontmatter sn)) (path_join dest ''screenshots'') (sn_sections sn)
      (render_frontmatter sn @ newline) (d0, []) = (Inr out, (d1, as))"
    "fs_write (path_join dest ''notes.md'') (finish_body out) d1 = Inr d'"
    using assms(1) by (auto simp: markdown_export_def Let_def split: sum.splits prod.splits)
  obtain parts where parts: "out = (render_frontmatter sn @ newline) @ concat (map (\<lambda>s. s @ section_rule) parts)"
    "list_all2 (\<lambda>sec s. \<forall>shot \<in> set (sec_screenshots sec). sublist (shot_link (sec_index sec) shot) s)
      (sn_sections sn) parts"
    using render_sections_parts [OF run(2)] by blast
  obtain k where k: "k < length (sn_sections sn)" "sn_sections sn ! k = sec"
    using assms(2) by (auto simp: in_set_conv_nth)
  then have s: "parts ! k \<in> set parts" "sublist (shot_link (sec_index sec) shot) (parts ! k)"
    using list_all2_nthD [OF parts(2) k(1)] list_all2_lengthD [OF parts(2)] assms(3) by auto
  have "sublist (shot_link (sec_index sec) shot) (finish_body out)"
    unfolding parts(1) using s(2) finish_body_parts [OF s(1)] by (rule sublist_order.order.trans)
  then show ?thesis
    using that fs_write_cases [OF run(3)] by simp
qed

section \<open>Properties\<close>

lemma copies_done:
  assumes "markdown_export path_debug sn dest d = (Inr a, d')"
    and "distinct (shot_keys (sn_sections sn))"
    and "list_all (\<lambda>sec. list_all (\<lambda>shot. \<not> prefix dest (shot_path shot)) (sec_screenshots sec)) (sn_sections sn)"
    and "(dst, src) \<in> set (section_copies (path_join dest ''screenshots'') (sn_sections sn))"
  shows "is_file d src \<and> d' dst = d src"
proof -
  let ?dir = "path_join dest ''screenshots''"
  define cs where "cs = section_copies ?dir (sn_sections sn)"
  have in_cs: "(dst, src) \<in> set cs"
    using assms(4) by (simp add: cs_def)
  have sources: "\<not> prefix dest src'" if "src' \<in> snd ` set cs" for src'
    using that assms(3) by (auto simp: cs_def section_copies_def shot_copies_def list_all_iff)
  have dests: "under_dir ?dir dst'" if "dst' \<in> fst ` set cs" for dst'
    using that section_copies_dests by (auto simp: cs_def)
  have "False" if "x \<in> fst ` set cs" and "x \<in> snd ` set cs" for x
    using under_join [OF dests [OF that(1)]] sources [OF that(2)] by (simp add: under_dir_def)
  then have apart: "fst ` set cs \<inter> snd ` set cs = {}"
    by blast
  have src: "src \<noteq> dest" "src \<noteq> ?dir"
  proof -
    have "src \<in> snd ` set cs"
      using in_cs by (rule image_eqI [rotated]) simp
    then show "src \<noteq> dest" "src \<noteq> ?dir"
      using sources [of src] path_join_prefix [of dest "''screenshots''"] by auto
  qed
  have "dst \<noteq> path_join dest ''notes.md''"
  proof -
    have "dst \<in> fst ` set cs"
      using in_cs by (rule image_eqI [rotated]) simp
    then have "prefix ?dir dst"
      using dests [of dst] by (simp add: under_dir_def)
    then show ?thesis
      by (auto simp: prefix_def path_join_def split: if_splits)
  qed
  show ?thesis
    using assms(1)
  proof (rule markdown_export_success)
    fix body
    assume d': "d' = (copy_all (section_copies ?dir (sn_sections sn))
        (with_dir ?dir (section_copies ?dir (sn_sections sn) \<noteq> []) (d(dest \<mapsto> FsDir))))
        (path_join dest ''notes.md'' \<mapsto> FsFile body)"
      and files: "\<And>p. p \<in> fst ` set (section_copies ?dir (sn_sections sn)) \<Longrightarrow> is_file d' p"
    have "d' dst = (with_dir ?dir (cs \<noteq> []) (d(dest \<mapsto> FsDir))) src"
      using copy_all_distinct [OF distinct_copies [OF assms(2), of ?dir, folded cs_def] apart in_cs]
        \<open>dst \<noteq> path_join dest ''notes.md''\<close> by (simp add: d' cs_def)
    then have "d' dst = d src"
      using src by simp
    moreover have "dst \<in> fst ` set cs"
      using in_cs by (rule image_eqI [rotated]) simp
    then have "is_file d' dst"
      using files unfolding cs_def by blast
    ultimately show ?thesis
      by (simp add: is_file_def)
  qed
qed

text \<open>A successful Markdown export whose screenshots differ in section, timestamp or file extension and
  come from outside the destination copies every one of them: the artifact lists the copies in the order
  of the notes, each holds the content of its source, and the notes link to it.\<close>

theorem markdown_export_copies_screenshots:
  assumes "markdown_export path_debug sn dest d = (Inr a, d')"
    and "distinct (shot_keys (sn_sections sn))"
    and "list_all (\<lambda>sec. list_all (\<lambda>shot. \<not> prefix dest (shot_path shot)) (sec_screenshots sec)) (sn_sections sn)"
  shows "ea_assets a = concat (map (\<lambda>sec. map (\<lambda>shot. path_join (path_join dest ''screenshots'')
            (screenshot_name (sec_index sec) shot)) (sec_screenshots sec)) (sn_sections sn)) \<and>
      (\<forall>sec \<in> set (sn_sections sn). \<forall>shot \<in> set (sec_screenshots sec).
        is_file d (shot_path shot) \<and>
        d' (path_join (path_join dest ''screenshots'') (screenshot_name (sec_index sec) shot)) = d (shot_path shot) \<and>
        (\<exists>body. d' (ea_primary_file a) = Some (FsFile body) \<and>
          sublist (''](screenshots/'' @ screenshot_name (sec_index sec) shot @ '')'') body))"
proof (intro conjI ballI)
  let ?dir = "path_join dest ''screenshots''"
  have a: "a = \<lparr>ea_primary_file = path_join dest ''notes.md'',
      ea_assets = map fst (section_copies ?dir (sn_sections sn))\<rparr>"
    using assms(1) by (rule markdown_export_success)
  then show "ea_assets a = concat (map (\<lambda>sec. map (\<lambda>shot. path_join ?dir (screenshot_name (sec_index sec) shot))
      (sec_screenshots sec)) (sn_sections sn))"
    by (simp add: section_copies_names map_concat comp_def)
  fix sec shot
  assume at: "sec \<in> set (sn_sections sn)" "shot \<in> set (sec_screenshots sec)"
  then have "(path_join ?dir (screenshot_name (sec_index sec) shot), shot_path shot)
      \<in> set (section_copies ?dir (sn_sections sn))"
    by (force simp: section_copies_def shot_copies_def shot_dest_def)
  then show "is_file d (shot_path shot)"
    and "d' (path_join ?dir (screenshot_name (sec_index sec) shot)) = d (shot_path shot)"
    using copies_done [OF assms] by blast+
  show "\<exists>body. d' (ea_primary_file a) = Some (FsFile body) \<and>
      sublist (''](screenshots/'' @ screenshot_name (sec_index sec) shot @ '')'') body"
    using export_links [OF assms(1) at] by (auto simp: a shot_link_def)
qed

definition demo_section :: "u32 \<Rightarrow> screenshot list \<Rightarrow> notes_section" where
  "demo_section i shots =
     \<lparr>sec_index = i, sec_title = ''T'', sec_time_range_ms = (0, 5000), sec_narrative_md = ''n'',
      sec_key_points = [], sec_action_items = [], sec_screenshots = shots\<rparr>"

definition demo_shot :: "u64 \<Rightarrow> string \<Rightarrow> screenshot" where
  "demo_shot ms p = \<lparr>shot_ms = ms, shot_path = p, shot_caption = None\<rparr>"

definition demo_notes :: "notes_section list \<Rightarrow> structured_notes" where
  "demo_notes secs =
     \<lparr>sn_schema_version = 1,
      sn_frontmatter = \<lparr>fm_title = ''T'', fm_date = ''d'', fm_started_at = ''s'', fm_duration_ms = 9,
        fm_speakers = [], fm_languages = [], fm_tags = [], fm_template = ''t'', fm_dialect = Basic,
        fm_panops_version = ''1'', fm_source_audio = None\<rparr>,
      sn_sections = secs, sn_language = ''en'', sn_generated_at = ''g''\<rparr>"

definition demo_fs :: fs where
  "demo_fs = [''/s/a.png'' \<mapsto> FsFile ''one'', ''/s/b.png'' \<mapsto> FsFile ''two'']"

definition demo_apart :: structured_notes where
  "demo_apart = demo_notes [demo_section 1 [demo_shot 7 ''/s/a.png''], demo_section 2 [demo_shot 7 ''/s/b.png'']]"

definition demo_same :: structured_notes where
  "demo_same = demo_notes [demo_section 1 [demo_shot 7 ''/s/a.png'', demo_shot 7 ''/s/b.png'']]"

lemma demo_runs:
  "isl (fst (markdown_export (\<lambda>p. p) demo_apart ''/n'' demo_fs)) = False"
  "isl (fst (markdown_export (\<lambda>p. p) demo_same ''/n'' demo_fs)) = False"
  by code_simp+

lemma not_isl_run:
  "isl (fst x) = False \<Longrightarrow> \<exists>a d'. x = (Inr a, d')"
  by (cases x; cases "fst x") auto

theorem markdown_export_copies_screenshots_witness:
  "\<exists>a d'. markdown_export (\<lambda>p. p) demo_apart ''/n'' demo_fs = (Inr a, d') \<and>
     ea_assets a = [''/n/screenshots/section01_00000007.png'', ''/n/screenshots/section02_00000007.png''] \<and>
     d' ''/n/screenshots/section02_00000007.png'' = Some (FsFile ''two'')"
proof -
  obtain a d' where run: "markdown_export (\<lambda>p. p) demo_apart ''/n'' demo_fs = (Inr a, d')"
    using not_isl_run [OF demo_runs(1)] by blast
  have "distinct (shot_keys (sn_sections demo_apart))"
    and "list_all (\<lambda>sec. list_all (\<lambda>shot. \<not> prefix ''/n'' (shot_path shot)) (sec_screenshots sec))
      (sn_sections demo_apart)"
    by (simp_all add: demo_apart_def demo_notes_def demo_section_def demo_shot_def shot_keys_def)
  note res = markdown_export_copies_screenshots [OF run this]
  have names: "path_join (path_join ''/n'' ''screenshots'') (screenshot_name 1 (demo_shot 7 ''/s/a.png'')) =
      ''/n/screenshots/section01_00000007.png''"
    "path_join (path_join ''/n'' ''screenshots'') (screenshot_name 2 (demo_shot 7 ''/s/b.png'')) =
      ''/n/screenshots/section02_00000007.png''"
    by code_simp+
  have secs: "sn_sections demo_apart = [demo_section 1 [demo_shot 7 ''/s/a.png''], demo_section 2 [demo_shot 7 ''/s/b.png'']]"
    "sec_screenshots (demo_section i shots) = shots" "sec_index (demo_section i shots) = i"
    "shot_path (demo_shot ms p) = p" for i shots ms p
    by (simp_all add: demo_apart_def demo_notes_def demo_section_def demo_shot_def)
  have "demo_fs ''/s/b.png'' = Some (FsFile ''two'')"
    by (simp add: demo_fs_def)
  then show ?thesis
    using run res by (simp add: secs names del: One_nat_def)
qed

text \<open>Whatever its outcome, a Markdown export touches nothing outside its destination, and a
  destination that is a file is refused and left as it is.\<close>

theorem markdown_export_contained:
  assumes "\<not> prefix dest p"
  shows "snd (markdown_export path_debug sn dest d) p = d p \<and>
    (is_file d dest \<longrightarrow> snd (markdown_export path_debug sn dest d) = d \<and>
      (\<exists>m. fst (markdown_export path_debug sn dest d) = Inl (ExportInvalidDest m)))"
  using markdown.touches [of path_debug sn dest d _ _ p] markdown.refuses_file [of d dest _ path_debug sn] assms
  by (cases "markdown_export path_debug sn dest d")
    (auto simp: is_file_def split: option.splits fs_node.splits)

theorem markdown_export_contained_witness:
  "isl (fst (markdown_export (\<lambda>p. p) demo_apart ''/s/a.png'' demo_fs)) \<and>
     snd (markdown_export (\<lambda>p. p) demo_apart ''/s/a.png'' demo_fs) ''/s/b.png'' = Some (FsFile ''two'')"
  using markdown_export_contained [of "''/s/a.png''" "''/s/b.png''" "\<lambda>p. p" demo_apart demo_fs]
  by (auto simp: demo_fs_def is_file_def)

text \<open>Two screenshots of a section with the same timestamp and file extension get one file: the second
  copy overwrites the first, so the first picture is lost although the export succeeds.\<close>

theorem same_time_screenshots_overwrite:
  assumes "markdown_export path_debug sn dest d = (Inr a, d')"
    and "sn_sections sn = [sec]" and "sec_screenshots sec = [s1, s2]"
    and "shot_ms s1 = shot_ms s2" and "extension (shot_path s1) = extension (shot_path s2)"
    and "\<not> prefix dest (shot_path s2)"
  shows "\<exists>p. ea_assets a = [p, p] \<and> d' p = d (shot_path s2)"
proof -
  let ?dir = "path_join dest ''screenshots''"
  let ?x = "path_join ?dir (screenshot_name (sec_index sec) s1)"
  have same: "screenshot_name (sec_index sec) s2 = screenshot_name (sec_index sec) s1"
    using assms(4,5) by (simp add: screenshot_name_eq)
  have cs: "section_copies ?dir (sn_sections sn) = [(?x, shot_path s1), (?x, shot_path s2)]"
    by (simp add: section_copies_def shot_copies_def shot_dest_def assms(2,3) same)
  have "prefix dest ?dir" "prefix ?dir ?x"
    by (simp_all add: path_join_prefix)
  then have apart: "shot_path s2 \<noteq> dest" "shot_path s2 \<noteq> ?dir" "shot_path s2 \<noteq> ?x"
    using assms(6) by (auto dest: prefix_order.trans)
  have "?x \<noteq> path_join dest ''notes.md''"
    by (auto simp: path_join_def split: if_splits)
  with assms(1) show ?thesis
    by (elim markdown_export_success) (simp add: cs apart)
qed

theorem same_time_screenshots_overwrite_witness:
  "\<exists>a d' p. markdown_export (\<lambda>p. p) demo_same ''/n'' demo_fs = (Inr a, d') \<and>
     ea_assets a = [p, p] \<and> d' p = Some (FsFile ''two'')"
proof -
  obtain a d' where run: "markdown_export (\<lambda>p. p) demo_same ''/n'' demo_fs = (Inr a, d')"
    using not_isl_run [OF demo_runs(2)] by blast
  have "extension ''/s/a.png'' = extension ''/s/b.png''"
    by code_simp
  then have "\<exists>p. ea_assets a = [p, p] \<and> d' p = demo_fs (shot_path (demo_shot 7 ''/s/b.png''))"
    by (intro same_time_screenshots_overwrite
        [OF run, of "demo_section 1 [demo_shot 7 ''/s/a.png'', demo_shot 7 ''/s/b.png'']" "demo_shot 7 ''/s/a.png''"])
      (simp_all add: demo_same_def demo_notes_def demo_section_def demo_shot_def)
  then show ?thesis
    using run by (simp add: demo_shot_def demo_fs_def)
qed

end
