(* ===== verification/Wer.thy ===== *)
theory Wer
  imports Rust_Strings Topic_Segmentation
begin

text \<open>
  The word error rate, \<open>panops-core/src/wer.rs\<close>: the Levenshtein distance of two token lists, computed
  in a table, divided by the length of the reference. The table is shown to hold the least number of
  insertions, deletions and replacements of single words.
\<close>

section \<open>Tokens\<close>

text \<open>The characters of a string: a byte and the continuation bytes after it.\<close>

definition continuation :: "char \<Rightarrow> bool" where
  "continuation c = (128 \<le> byte c \<and> byte c < 192)"

function utf8_chars :: "string \<Rightarrow> string list" where
  "utf8_chars [] = []"
| "utf8_chars (c # cs) = (c # takeWhile continuation cs) # utf8_chars (dropWhile continuation cs)"
  by pat_completeness auto
termination
  by (relation "measure length") (auto simp: le_imp_less_Suc length_dropWhile_le)

fun split_whitespace :: "string list \<Rightarrow> string list \<Rightarrow> string list list" where
  "split_whitespace word [] = (if word = [] then [] else [word])"
| "split_whitespace word (c # cs) =
     (if c \<in> set whitespace_encodings
      then (if word = [] then split_whitespace [] cs else word # split_whitespace [] cs)
      else split_whitespace (word @ [c]) cs)"

text \<open>
  The Unicode tables of the standard library are parameters: \<open>char::is_alphanumeric\<close> on a character
  and \<open>str::to_lowercase\<close>.
\<close>

definition tokenize :: "(string \<Rightarrow> bool) \<Rightarrow> (string \<Rightarrow> string) \<Rightarrow> string \<Rightarrow> string list" where
  "tokenize is_alphanumeric to_lowercase s =
     filter (\<lambda>w. w \<noteq> [])
       (map (\<lambda>w. to_lowercase (concat (filter is_alphanumeric w))) (split_whitespace [] (utf8_chars s)))"

section \<open>The table\<close>

type_synonym table = "usize list list"

definition set_cell :: "table \<Rightarrow> usize \<Rightarrow> usize \<Rightarrow> usize \<Rightarrow> table" where
  "set_cell dp i j v = dp[i := (dp ! i)[j := v]]"

definition first_column :: "table \<Rightarrow> table" where
  "first_column dp = fold (\<lambda>i dp. set_cell dp i 0 i) [0..<length dp] dp"

definition first_row :: "table \<Rightarrow> table" where
  "first_row dp = fold (\<lambda>j dp. set_cell dp 0 j j) [0..<length (dp ! 0)] dp"

definition fill_cell :: "string list \<Rightarrow> string list \<Rightarrow> usize \<Rightarrow> usize \<Rightarrow> table \<Rightarrow> table" where
  "fill_cell a b i j dp =
     (let cost = (if a ! (i - 1) \<noteq> b ! (j - 1) then 1 else 0)
      in set_cell dp i j
           (min (min (dp ! (i - 1) ! j + 1) (dp ! i ! (j - 1) + 1)) (dp ! (i - 1) ! (j - 1) + cost)))"

definition fill_row :: "string list \<Rightarrow> string list \<Rightarrow> usize \<Rightarrow> table \<Rightarrow> table" where
  "fill_row a b i dp = fold (fill_cell a b i) [1..<Suc (length b)] dp"

definition levenshtein :: "string list \<Rightarrow> string list \<Rightarrow> usize" where
  "levenshtein a b =
     (let dp = replicate (length a + 1) (replicate (length b + 1) 0);
          dp = first_row (first_column dp);
          dp = fold (fill_row a b) [1..<Suc (length a)] dp
      in dp ! length a ! length b)"

section \<open>The rate\<close>

text \<open>
  The quotient of two \<open>f32\<close> integers as a bit pattern, to the nearest with ties to even. Both are
  scaled to the same number of binary digits, so that the quotient is between a half and two.
\<close>

definition f32_quotient :: "nat \<Rightarrow> nat \<Rightarrow> f32" where
  "f32_quotient a b =
     (if a = 0 then 0
      else (let x = a * 2 ^ bit_length b;
                y = b * 2 ^ bit_length a;
                (e, m) = (if y \<le> x then (127 + bit_length a - bit_length b, round_div (x * 2 ^ 23) y)
                          else (126 + bit_length a - bit_length b, round_div (x * 2 ^ 24) y))
            in word_of_nat (e * 2 ^ 23 + (m - 2 ^ 23))))"

definition wer :: "(string \<Rightarrow> bool) \<Rightarrow> (string \<Rightarrow> string) \<Rightarrow> string \<Rightarrow> string \<Rightarrow> f32" where
  "wer is_alphanumeric to_lowercase reference hypothesis =
     (let r = tokenize is_alphanumeric to_lowercase reference;
          h = tokenize is_alphanumeric to_lowercase hypothesis
      in if r = [] then (if h = [] then 0 else 0x3F800000)
         else (let dist = levenshtein r h
               in f32_quotient (f32_of_u64 dist) (f32_of_u64 (length r))))"

section \<open>The distance\<close>

fun lev :: "'a list \<Rightarrow> 'a list \<Rightarrow> nat" where
  "lev [] ys = length ys"
| "lev xs [] = length xs"
| "lev (x # xs) (y # ys) =
     min (min (lev xs (y # ys) + 1) (lev (x # xs) ys + 1)) (lev xs ys + (if x \<noteq> y then 1 else 0))"

text \<open>\<open>edits n xs ys\<close>: \<open>n\<close> edits, none twice at a place, make \<open>ys\<close> of \<open>xs\<close>.\<close>

inductive edits :: "nat \<Rightarrow> 'a list \<Rightarrow> 'a list \<Rightarrow> bool" where
  nothing: "edits 0 [] []"
| keep: "edits n xs ys \<Longrightarrow> edits n (x # xs) (x # ys)"
| replace: "edits n xs ys \<Longrightarrow> edits (Suc n) (x # xs) (y # ys)"
| delete: "edits n xs ys \<Longrightarrow> edits (Suc n) (x # xs) ys"
| insert: "edits n xs ys \<Longrightarrow> edits (Suc n) xs (y # ys)"

inductive_cases edits_ConsE: "edits n (x # xs) zs"

lemma lev_Nil2 [simp]: "lev xs [] = length xs"
  by (cases xs) auto

lemma lev_delete: "lev (x # xs) ys \<le> Suc (lev xs ys)"
  by (cases ys) auto

lemma lev_insert: "lev xs (y # ys) \<le> Suc (lev xs ys)"
  by (cases xs) auto

lemma edits_lev: "edits n xs ys \<Longrightarrow> lev xs ys \<le> n"
proof (induction rule: edits.induct)
  case (delete n xs ys x)
  then show ?case using lev_delete [of x xs ys] by simp
next
  case (insert n xs ys y)
  then show ?case using lev_insert [of xs y ys] by simp
qed auto

lemma edits_Nil: "edits (length ys) [] ys"
  by (induction ys) (auto intro: edits.intros)

lemma edits_Nil2: "edits (length xs) xs []"
  by (induction xs) (auto intro: edits.intros)

lemma lev_edits: "edits (lev xs ys) xs ys"
proof (induction xs ys rule: lev.induct)
  case (3 x xs y ys)
  have "lev (x # xs) (y # ys) = Suc (lev xs (y # ys)) \<or> lev (x # xs) (y # ys) = Suc (lev (x # xs) ys) \<or>
      x \<noteq> y \<and> lev (x # xs) (y # ys) = Suc (lev xs ys) \<or> x = y \<and> lev (x # xs) (y # ys) = lev xs ys"
    by (simp add: min_def)
  then consider "lev (x # xs) (y # ys) = Suc (lev xs (y # ys))" | "lev (x # xs) (y # ys) = Suc (lev (x # xs) ys)"
    | "x \<noteq> y" "lev (x # xs) (y # ys) = Suc (lev xs ys)" | "x = y" "lev (x # xs) (y # ys) = lev xs ys"
    by blast
  then show ?case
    using 3 by cases (auto intro: edits.intros simp del: lev.simps)
qed (use edits_Nil edits_Nil2 in \<open>auto simp del: list.size\<close>)

lemma edits_same: "edits 0 xs xs"
  by (induction xs) (auto intro: edits.intros)

lemma edits_append: "edits m xs ys \<Longrightarrow> edits n us vs \<Longrightarrow> edits (m + n) (xs @ us) (ys @ vs)"
  by (induction rule: edits.induct) (auto intro: edits.intros)

lemma edits_rev: "edits n xs ys \<Longrightarrow> edits n (rev xs) (rev ys)"
proof (induction rule: edits.induct)
  case (keep n xs ys x)
  then show ?case
    using edits_append [of n "rev xs" "rev ys" 0 "[x]" "[x]"] edits_same [of "[x]"] by simp
next
  case (replace n xs ys x y)
  moreover have "edits 1 [x] [y]"
    using edits.replace [OF edits.nothing] by simp
  ultimately show ?case
    using edits_append [of n "rev xs" "rev ys" 1 "[x]" "[y]"] by simp
next
  case (delete n xs ys x)
  moreover have "edits 1 [x] []"
    using edits_Nil2 [of "[x]"] by simp
  ultimately show ?case
    using edits_append [of n "rev xs" "rev ys" 1 "[x]" "[]"] by simp
next
  case (insert n xs ys y)
  moreover have "edits 1 [] [y]"
    using edits_Nil [of "[y]"] by simp
  ultimately show ?case
    using edits_append [of n "rev xs" "rev ys" 1 "[]" "[y]"] by simp
qed (auto intro: edits.intros)

lemma lev_rev: "lev (rev xs) (rev ys) = lev xs ys"
proof (rule antisym)
  show "lev (rev xs) (rev ys) \<le> lev xs ys"
    by (intro edits_lev edits_rev lev_edits)
  show "lev xs ys \<le> lev (rev xs) (rev ys)"
    using edits_lev [OF edits_rev [OF lev_edits [of "rev xs" "rev ys"]]] by simp
qed

text \<open>What a script does to the first word: it is kept, or replaced by at most one word, after insertions.\<close>

lemma edits_first:
  assumes "edits n (y # ys) zs"
  obtains new out rest c k where "zs = new @ out @ rest" and "n = length new + c + k" and "edits k ys rest"
    and "c = 0 \<and> out = [y] \<or> c = 1 \<and> length out \<le> 1"
proof -
  have "\<exists>new out rest c k. zs = new @ out @ rest \<and> n = length new + c + k \<and> edits k ys rest \<and>
      (c = 0 \<and> out = [y] \<or> c = 1 \<and> length out \<le> 1)"
    using assms
  proof (induction n "y # ys" zs rule: edits.induct)
    case (keep n zs)
    then show ?case
      by (intro exI [of _ "[]"] exI [of _ "[y]"] exI [of _ zs] exI [of _ "0 :: nat"] exI [of _ n]) auto
  next
    case (replace n zs z)
    then show ?case
      by (intro exI [of _ "[]"] exI [of _ "[z]"] exI [of _ zs] exI [of _ "1 :: nat"] exI [of _ n]) auto
  next
    case (delete n zs)
    then show ?case
      by (intro exI [of _ "[]"] exI [of _ "[]"] exI [of _ zs] exI [of _ "1 :: nat"] exI [of _ n]) auto
  next
    case (insert n zs z)
    then obtain new out rest c k where "zs = new @ out @ rest" "n = length new + c + k" "edits k ys rest"
      "c = 0 \<and> out = [y] \<or> c = 1 \<and> length out \<le> 1"
      by blast
    then show ?case
      by (intro exI [of _ "z # new"] exI [of _ out] exI [of _ rest] exI [of _ c] exI [of _ k]) auto
  qed
  then show ?thesis
    using that by blast
qed

lemma edits_word: "length out \<le> 1 \<Longrightarrow> edits 1 [x] out"
  using edits.replace [OF edits.nothing, of x] edits_Nil2 [of "[x]"] by (cases out) auto

lemma edits_splice:
  "edits c xs out \<Longrightarrow> edits k us rest \<Longrightarrow> edits (length new + c + k) (xs @ us) (new @ out @ rest)"
  using edits_append [OF edits_append [OF edits_Nil [of new]]] by fastforce

lemma edits_trans: "edits m xs ys \<Longrightarrow> edits n ys zs \<Longrightarrow> \<exists>k \<le> m + n. edits k xs zs"
proof (induction arbitrary: n zs rule: edits.induct)
  case (keep m xs ys x)
  obtain new out rest c k where zs: "zs = new @ out @ rest" "n = length new + c + k" "edits k ys rest"
    "c = 0 \<and> out = [x] \<or> c = 1 \<and> length out \<le> 1"
    using edits_first [OF keep.prems] by blast
  obtain k' where k': "k' \<le> m + k" "edits k' xs rest"
    using keep.IH [OF zs(3)] by blast
  have "edits c [x] out"
    using zs(4) edits_same [of "[x]"] edits_word [of out x] by auto
  from edits_splice [OF this k'(2), of new] show ?case
    using zs(1,2) k'(1) by (intro exI [of _ "length new + c + k'"]) simp
next
  case (replace m xs ys x y)
  obtain new out rest c k where zs: "zs = new @ out @ rest" "n = length new + c + k" "edits k ys rest"
    "c = 0 \<and> out = [y] \<or> c = 1 \<and> length out \<le> 1"
    using edits_first [OF replace.prems] by blast
  obtain k' where k': "k' \<le> m + k" "edits k' xs rest"
    using replace.IH [OF zs(3)] by blast
  have "edits 1 [x] out"
    using zs(4) by (intro edits_word) auto
  from edits_splice [OF this k'(2), of new] show ?case
    using zs(1,2) k'(1) by (intro exI [of _ "length new + 1 + k'"]) simp
next
  case (delete m xs ys x)
  then obtain k where "k \<le> m + n" "edits k xs zs"
    by blast
  then show ?case
    using edits.delete [of k xs zs x] by (intro exI [of _ "Suc k"]) simp
next
  case (insert m xs ys y)
  obtain new out rest c k where zs: "zs = new @ out @ rest" "n = length new + c + k" "edits k ys rest"
    "c = 0 \<and> out = [y] \<or> c = 1 \<and> length out \<le> 1"
    using edits_first [OF insert.prems] by blast
  obtain k' where k': "k' \<le> m + k" "edits k' xs rest"
    using insert.IH [OF zs(3)] by blast
  from edits_splice [OF edits_Nil [of out] k'(2), of new] show ?case
    using zs k'(1) by (intro exI [of _ "length new + length out + k'"]) auto
qed (auto)

text \<open>The reference: a single edit replaces at most one word by at most one word.\<close>

definition one_edit :: "'a list \<Rightarrow> 'a list \<Rightarrow> bool" where
  "one_edit xs ys = (\<exists>u x y v. xs = u @ x @ v \<and> ys = u @ y @ v \<and> length x \<le> 1 \<and> length y \<le> 1)"

lemma one_edit_Cons: "one_edit xs ys \<Longrightarrow> one_edit (z # xs) (z # ys)"
  unfolding one_edit_def by (metis append_Cons)

lemma one_edit_power_Cons: "(one_edit ^^ n) xs ys \<Longrightarrow> (one_edit ^^ n) (z # xs) (z # ys)"
  by (induction n arbitrary: ys) (auto intro: one_edit_Cons)

lemma one_edit_edits: "one_edit xs ys \<Longrightarrow> \<exists>k \<le> 1. edits k xs ys"
proof -
  assume "one_edit xs ys"
  then obtain u x y v where e: "xs = u @ x @ v" "ys = u @ y @ v" "length x \<le> 1" "length y \<le> 1"
    unfolding one_edit_def by blast
  have "\<exists>k \<le> 1. edits k x y"
    using e(3,4) edits_word [of y "hd x"] edits_Nil [of y] by (cases x) force+
  then obtain k where k: "k \<le> 1" "edits k x y"
    by blast
  have "edits (0 + (k + 0)) xs ys"
    unfolding e(1,2) by (intro edits_append edits_same k(2))
  with k(1) show ?thesis by auto
qed

lemma power_edits: "(one_edit ^^ n) xs ys \<Longrightarrow> \<exists>k \<le> n. edits k xs ys"
proof (induction n arbitrary: ys)
  case 0
  then show ?case using edits_same by auto
next
  case (Suc n)
  then obtain zs where zs: "(one_edit ^^ n) xs zs" "one_edit zs ys"
    by auto
  obtain k where k: "k \<le> n" "edits k xs zs"
    using Suc.IH [OF zs(1)] by blast
  obtain l where l: "l \<le> 1" "edits l zs ys"
    using one_edit_edits [OF zs(2)] by blast
  obtain j where "j \<le> k + l" "edits j xs ys"
    using edits_trans [OF k(2) l(2)] by blast
  then show ?case
    using k(1) l(1) by (intro exI [of _ j]) simp
qed

lemma edits_power: "edits n xs ys \<Longrightarrow> (one_edit ^^ n) xs ys"
proof (induction rule: edits.induct)
  case nothing
  show ?case by simp
next
  case (replace n xs ys x y)
  have "one_edit (x # xs) (y # xs)"
    unfolding one_edit_def by (rule exI [of _ "[]"], rule exI [of _ "[x]"], rule exI [of _ "[y]"], rule exI [of _ xs]) simp
  then show ?case
    using one_edit_power_Cons [OF replace.IH] by (intro relpowp_Suc_I2)
next
  case (delete n xs ys x)
  have "one_edit (x # xs) xs"
    unfolding one_edit_def by (rule exI [of _ "[]"], rule exI [of _ "[x]"], rule exI [of _ "[]"], rule exI [of _ xs]) simp
  then show ?case
    using delete.IH by (intro relpowp_Suc_I2)
next
  case (insert n xs ys y)
  have "one_edit ys (y # ys)"
    unfolding one_edit_def by (rule exI [of _ "[]"], rule exI [of _ "[]"], rule exI [of _ "[y]"], rule exI [of _ ys]) simp
  then show ?case
    using insert.IH by (intro relpowp_Suc_I)
qed (rule one_edit_power_Cons)

lemma lev_least: "lev xs ys = (LEAST n. (one_edit ^^ n) xs ys)"
proof (rule Least_equality [symmetric])
  show "(one_edit ^^ lev xs ys) xs ys"
    by (rule edits_power [OF lev_edits])
  show "lev xs ys \<le> n" if "(one_edit ^^ n) xs ys" for n
    using power_edits [OF that] edits_lev le_trans by blast
qed

section \<open>The table holds the distances\<close>

definition cell :: "string list \<Rightarrow> string list \<Rightarrow> nat \<Rightarrow> nat \<Rightarrow> nat" where
  "cell a b i j = lev (rev (take i a)) (rev (take j b))"

lemma cell_0 [simp]: "i \<le> length a \<Longrightarrow> cell a b i 0 = i" "j \<le> length b \<Longrightarrow> cell a b 0 j = j"
  by (simp_all add: cell_def)

lemma cell_Suc:
  "i < length a \<Longrightarrow> j < length b \<Longrightarrow> cell a b (Suc i) (Suc j) =
     min (min (cell a b i (Suc j) + 1) (cell a b (Suc i) j + 1))
       (cell a b i j + (if a ! i \<noteq> b ! j then 1 else 0))"
  by (simp add: cell_def take_Suc_conv_app_nth)

text \<open>A table of the right shape whose cells in \<open>Q\<close> are right.\<close>

definition right_on ::
  "string list \<Rightarrow> string list \<Rightarrow> (nat \<Rightarrow> nat \<Rightarrow> bool) \<Rightarrow> table \<Rightarrow> bool" where
  "right_on a b Q dp =
     (length dp = Suc (length a) \<and> (\<forall>i \<le> length a. length (dp ! i) = Suc (length b)) \<and>
      (\<forall>i \<le> length a. \<forall>j \<le> length b. Q i j \<longrightarrow> dp ! i ! j = cell a b i j))"

lemma right_on_set_cell:
  assumes "right_on a b Q dp" and "i \<le> length a" and "j \<le> length b" and "v = cell a b i j"
    and "\<And>i' j'. Q' i' j' \<Longrightarrow> Q i' j' \<or> i' = i \<and> j' = j"
  shows "right_on a b Q' (set_cell dp i j v)"
proof -
  have "set_cell dp i j v ! i' ! j' = (if i' = i \<and> j' = j then v else dp ! i' ! j')"
    if "i' \<le> length a" "j' \<le> length b" for i' j'
    using that assms(1-3) by (simp add: right_on_def set_cell_def nth_list_update)
  moreover have "length (set_cell dp i j v ! i') = Suc (length b)" if "i' \<le> length a" for i'
    using that assms(1,2) by (auto simp: right_on_def set_cell_def nth_list_update)
  ultimately show ?thesis
    using assms unfolding right_on_def by (simp add: set_cell_def) blast
qed

lemma right_on_mono: "right_on a b Q dp \<Longrightarrow> (\<And>i j. Q' i j \<Longrightarrow> Q i j) \<Longrightarrow> right_on a b Q' dp"
  by (auto simp: right_on_def)

lemma fold_upt_induct:
  assumes "k \<le> n" and "P k s" and "\<And>i s. k \<le> i \<Longrightarrow> i < n \<Longrightarrow> P i s \<Longrightarrow> P (Suc i) (f i s)"
  shows "P n (fold f [k..<n] s)"
  using assms by (induction n) (auto simp: le_Suc_eq)

lemma first_column_right:
  assumes "right_on a b (\<lambda>_ _. False) dp"
  shows "right_on a b (\<lambda>i j. j = 0) (first_column dp)"
proof -
  have "right_on a b (\<lambda>i j. j = 0 \<and> i < Suc (length a)) (fold (\<lambda>i dp. set_cell dp i 0 i) [0..<Suc (length a)] dp)"
    by (rule fold_upt_induct [where P = "\<lambda>k. right_on a b (\<lambda>i j. j = 0 \<and> i < k)"])
      (use assms in \<open>auto intro: right_on_mono right_on_set_cell simp: less_Suc_eq\<close>)
  moreover have "length dp = Suc (length a)"
    using assms by (simp add: right_on_def)
  ultimately show ?thesis
    unfolding first_column_def by (auto simp: right_on_def)
qed

lemma first_row_right:
  assumes "right_on a b (\<lambda>i j. j = 0) dp"
  shows "right_on a b (\<lambda>i j. i = 0 \<or> j = 0) (first_row dp)"
proof -
  have "right_on a b (\<lambda>i j. j = 0 \<or> i = 0 \<and> j < Suc (length b)) (fold (\<lambda>j dp. set_cell dp 0 j j) [0..<Suc (length b)] dp)"
    by (rule fold_upt_induct [where P = "\<lambda>k. right_on a b (\<lambda>i j. j = 0 \<or> i = 0 \<and> j < k)"])
      (use assms in \<open>auto intro: right_on_mono right_on_set_cell simp: less_Suc_eq\<close>)
  moreover have "length (dp ! 0) = Suc (length b)"
    using assms by (simp add: right_on_def)
  ultimately show ?thesis
    unfolding first_row_def by (auto simp: right_on_def)
qed

lemma fill_cell_right:
  assumes "right_on a b (\<lambda>i j. i = 0 \<or> j = 0 \<or> i < r \<or> i = r \<and> j < c) dp"
    and "0 < r" "r \<le> length a" "0 < c" "c \<le> length b"
  shows "right_on a b (\<lambda>i j. i = 0 \<or> j = 0 \<or> i < r \<or> i = r \<and> j < Suc c) (fill_cell a b r c dp)"
proof -
  obtain r' c' where rc: "r = Suc r'" "c = Suc c'"
    using assms(2,4) by (metis gr0_implies_Suc)
  have "dp ! r' ! c = cell a b r' c" "dp ! r ! c' = cell a b r c'" "dp ! r' ! c' = cell a b r' c'"
    using assms by (auto simp: right_on_def rc)
  then have "fill_cell a b r c dp = set_cell dp r c (cell a b r c)"
    using assms(3,5) by (simp add: fill_cell_def Let_def rc cell_Suc)
  then show ?thesis
    using assms(1,3,5) by (auto intro!: right_on_set_cell [of a b _ dp])
qed

lemma fill_row_right:
  assumes "right_on a b (\<lambda>i j. i = 0 \<or> j = 0 \<or> i < r) dp" and "0 < r" "r \<le> length a"
  shows "right_on a b (\<lambda>i j. i = 0 \<or> j = 0 \<or> i < Suc r) (fill_row a b r dp)"
proof -
  have "right_on a b (\<lambda>i j. i = 0 \<or> j = 0 \<or> i < r \<or> i = r \<and> j < Suc (length b)) (fill_row a b r dp)"
    unfolding fill_row_def
    by (rule fold_upt_induct [where P = "\<lambda>c. right_on a b (\<lambda>i j. i = 0 \<or> j = 0 \<or> i < r \<or> i = r \<and> j < c)"])
      (use assms fill_cell_right in \<open>auto elim: right_on_mono\<close>)
  then show ?thesis
    by (simp add: right_on_def less_Suc_eq_le) (metis le_eq_less_or_eq)
qed

lemma levenshtein_lev: "levenshtein a b = lev a b"
proof -
  define zeros :: table where "zeros = replicate (length a + 1) (replicate (length b + 1) 0)"
  have "right_on a b (\<lambda>_ _. False) zeros"
    by (simp add: right_on_def zeros_def del: replicate_Suc)
  then have start: "right_on a b (\<lambda>i j. i = 0 \<or> j = 0 \<or> i < 1) (first_row (first_column zeros))"
    by (intro right_on_mono [OF first_row_right [OF first_column_right]]) auto
  have "right_on a b (\<lambda>i j. i = 0 \<or> j = 0 \<or> i < Suc (length a))
      (fold (fill_row a b) [1..<Suc (length a)] (first_row (first_column zeros)))"
    by (rule fold_upt_induct [where P = "\<lambda>r. right_on a b (\<lambda>i j. i = 0 \<or> j = 0 \<or> i < r)"])
      (use start fill_row_right in auto)
  then have "levenshtein a b = cell a b (length a) (length b)"
    unfolding levenshtein_def zeros_def [symmetric] Let_def by (simp add: right_on_def del: upt_Suc)
  then show ?thesis
    by (simp add: cell_def lev_rev)
qed

text \<open>The table-filling routine computes the edit distance: the number of insertions, deletions and
  replacements of single words that turn the reference into the hypothesis, and no smaller number of
  them does.\<close>

theorem levenshtein_least_edits:
  "(one_edit ^^ levenshtein a b) a b \<and> levenshtein a b = (LEAST n. (one_edit ^^ n) a b)"
  unfolding levenshtein_lev using edits_power [OF lev_edits] lev_least by blast

section \<open>The rate is zero exactly for equal token lists\<close>

lemma f32_of_u64_pos: "0 < n \<Longrightarrow> 0 < f32_of_u64 n"
proof -
  assume n: "0 < n"
  let ?s = "2 ^ (bit_length n - 24) :: nat"
  have "?s \<le> 2 ^ (bit_length n - 1)"
    by simp
  then have "?s \<le> n"
    using bit_length_bounds [OF n] by linarith
  then have "0 < n div ?s"
    by (simp add: div_greater_zero_iff)
  then have "0 < round_div n ?s"
    using round_div_bounds [of ?s n] by simp
  then show ?thesis
    by (simp add: f32_of_u64_def Let_def)
qed

lemma f32_of_u64_less: "n < 2 ^ 63 \<Longrightarrow> f32_of_u64 n < 2 ^ 64"
proof -
  assume n: "n < 2 ^ 63"
  let ?s = "2 ^ (bit_length n - 24) :: nat"
  have "round_div n ?s * ?s \<le> (n div ?s + 1) * ?s"
    using round_div_bounds [of ?s n] by (intro mult_le_mono1) simp
  also have "\<dots> = n div ?s * ?s + ?s"
    by simp
  also have "\<dots> \<le> n + ?s"
    using times_div_less_eq_dividend [of ?s n] by (simp add: mult.commute)
  also have "\<dots> < 2 ^ 64"
  proof -
    have "?s \<le> 2 ^ 62"
      using bit_length_le [OF n] by (intro power_increasing) auto
    then show ?thesis
      using n by simp
  qed
  finally show ?thesis
    by (simp add: f32_of_u64_def Let_def)
qed

lemma scaled_bounds:
  assumes "0 < a" and "0 < b"
  defines "x \<equiv> a * 2 ^ bit_length b" and "y \<equiv> b * 2 ^ bit_length a"
  shows "x < 2 * y" and "y < 2 * x" and "0 < y"
proof -
  have half: "n < 2 ^ bit_length n" "2 ^ bit_length n \<le> 2 * n" if "0 < n" for n
  proof -
    have "(2 :: nat) ^ bit_length n = 2 * 2 ^ (bit_length n - 1)"
      using bit_length_bounds [OF that] by (metis One_nat_def Suc_pred power_Suc)
    then show "n < 2 ^ bit_length n" "2 ^ bit_length n \<le> 2 * n"
      using bit_length_bounds [OF that] by simp_all
  qed
  have "x < 2 ^ bit_length a * 2 ^ bit_length b" "2 ^ bit_length a * 2 ^ bit_length b \<le> 2 * y"
    using half(1) [OF assms(1)] half(2) [OF assms(2)] by (simp_all add: x_def y_def mult.commute mult.left_commute)
  then show "x < 2 * y" by linarith
  have "y < 2 ^ bit_length a * 2 ^ bit_length b" "2 ^ bit_length a * 2 ^ bit_length b \<le> 2 * x"
    using half(1) [OF assms(2)] half(2) [OF assms(1)] by (simp_all add: x_def y_def mult.commute mult.left_commute)
  then show "y < 2 * x" by linarith
  show "0 < y"
    using assms(2) by (simp add: y_def)
qed

lemma f32_quotient_nonzero:
  assumes "0 < a" "a < 2 ^ 64" "0 < b" "b < 2 ^ 64"
  shows "f32_quotient a b \<noteq> 0"
proof -
  define x y where "x = a * 2 ^ bit_length b" and "y = b * 2 ^ bit_length a"
  have xy: "x < 2 * y" "y < 2 * x" "0 < y"
    unfolding x_def y_def by (rule scaled_bounds [OF assms(1,3)])+
  have bl: "bit_length a \<le> 64" "bit_length b \<le> 64"
    using assms bit_length_le by blast+
  obtain e m where q: "f32_quotient a b = word_of_nat (e * 2 ^ 23 + (m - 2 ^ 23))"
    and e: "1 \<le> e" "e \<le> 200" and m: "m \<le> 2 ^ 24 + 1"
  proof (cases "y \<le> x")
    case True
    have "x * 2 ^ 23 div y \<le> 2 ^ 24"
      using xy(1,3) by (intro less_imp_le less_mult_imp_div_less) simp
    then have "round_div (x * 2 ^ 23) y \<le> 2 ^ 24 + 1"
      using round_div_bounds [OF xy(3), of "x * 2 ^ 23"] by linarith
    then show ?thesis
      using that [of "127 + bit_length a - bit_length b" "round_div (x * 2 ^ 23) y"] assms(1) bl True
      by (simp add: f32_quotient_def x_def y_def Let_def)
  next
    case False
    have "x * 2 ^ 24 div y \<le> 2 ^ 24"
      using xy(3) False by (intro less_imp_le less_mult_imp_div_less) simp
    then have "round_div (x * 2 ^ 24) y \<le> 2 ^ 24 + 1"
      using round_div_bounds [OF xy(3), of "x * 2 ^ 24"] by linarith
    then show ?thesis
      using that [of "126 + bit_length a - bit_length b" "round_div (x * 2 ^ 24) y"] assms(1) bl False
      by (simp add: f32_quotient_def x_def y_def Let_def)
  qed
  have "e * 2 ^ 23 + (m - 2 ^ 23) < 2 ^ 32" "0 < e * 2 ^ 23 + (m - 2 ^ 23)"
    using e m by auto
  then have "unat (f32_quotient a b) = e * 2 ^ 23 + (m - 2 ^ 23)"
    unfolding q by (simp only: unat_of_nat) (simp add: take_bit_nat_eq_self)
  then show ?thesis
    using \<open>0 < e * 2 ^ 23 + (m - 2 ^ 23)\<close> by auto
qed

lemma lev_bound: "lev xs ys \<le> max (length xs) (length ys)"
  by (induction xs ys rule: lev.induct) auto

lemma lev_zero: "lev xs ys = 0 \<longleftrightarrow> xs = ys"
  by (induction xs ys rule: lev.induct) auto

text \<open>The word error rate is 0.0 exactly when the reference and the hypothesis have the same words
  after normalization; an empty reference against anything else counts as 1.0. Lists are shorter than
  2^63, the limit of Rust's allocations.\<close>

theorem wer_zero_iff_same_words:
  assumes "length (tokenize alnum lower r) < 2 ^ 63" and "length (tokenize alnum lower h) < 2 ^ 63"
  shows "(wer alnum lower r h = 0 \<longleftrightarrow> tokenize alnum lower r = tokenize alnum lower h) \<and>
    (tokenize alnum lower r = [] \<and> tokenize alnum lower h \<noteq> [] \<longrightarrow> wer alnum lower r h = 0x3F800000)"
proof -
  let ?r = "tokenize alnum lower r" and ?h = "tokenize alnum lower h"
  have "f32_quotient (f32_of_u64 (lev ?r ?h)) (f32_of_u64 (length ?r)) \<noteq> 0" if "?r \<noteq> []" "?r \<noteq> ?h"
    using that assms lev_bound [of ?r ?h]
    by (intro f32_quotient_nonzero f32_of_u64_pos f32_of_u64_less) (auto simp: lev_zero gr0_conv_Suc [symmetric] intro!: gr0I)
  moreover have "f32_quotient (f32_of_u64 (lev ?r ?r)) (f32_of_u64 (length ?r)) = 0"
    by (simp add: lev_zero [THEN iffD2] f32_quotient_def f32_of_u64_0)
  ultimately show ?thesis
    by (auto simp: wer_def Let_def levenshtein_lev)
qed

theorem wer_zero_iff_same_words_witness:
  "wer (\<lambda>c. is_ascii_alphanumeric (hd c)) (map to_ascii_lower) ''The fox.'' ''the FOX'' = 0 \<and>
   wer (\<lambda>c. is_ascii_alphanumeric (hd c)) (map to_ascii_lower) ''The fox.'' ''the dog'' \<noteq> 0"
proof -
  let ?tok = "tokenize (\<lambda>c. is_ascii_alphanumeric (hd c)) (map to_ascii_lower)"
  have "?tok ''The fox.'' = [''the'', ''fox'']" "?tok ''the FOX'' = [''the'', ''fox'']"
    "?tok ''the dog'' = [''the'', ''dog'']"
    by code_simp+
  then show ?thesis
    using wer_zero_iff_same_words [of "\<lambda>c. is_ascii_alphanumeric (hd c)" "map to_ascii_lower" "''The fox.''" "''the FOX''"]
      wer_zero_iff_same_words [of "\<lambda>c. is_ascii_alphanumeric (hd c)" "map to_ascii_lower" "''The fox.''" "''the dog''"]
    by simp
qed

end
