(* ===== verification/Meeting_Store_Port.thy ===== *)
theory Meeting_Store_Port
  imports Rust_Strings "HOL-Library.Multiset"
begin

text \<open>
  The per-meeting content port, \<open>panops-core/src/meeting_store.rs\<close>: segments, screenshots and speakers
  of one meeting. A row is its draft with an identifier. The promises that the trait's comments and
  its conformance suite make are two interfaces: a table of contents that can be created and listed,
  and the table of speakers, whose rows can also be found and relabelled.
\<close>

section \<open>Drafts, rows, errors\<close>

record segment_draft =
  sgd_meeting_id :: string
  sgd_start_ms :: u64
  sgd_end_ms :: u64
  sgd_text :: string
  sgd_language :: "string option"
  sgd_confidence :: "f32 option"
  sgd_speaker_id :: "int option"
  sgd_source :: string

record segment_row =
  sgr_id :: int
  sgr_draft :: segment_draft

record screenshot_draft =
  shd_meeting_id :: string
  shd_timestamp_ms :: u64
  shd_path :: string
  shd_feature_print :: "string option"
  shd_caption :: "string option"

record screenshot_row =
  shr_id :: int
  shr_draft :: screenshot_draft

record speaker_draft =
  spd_meeting_id :: string
  spd_label :: string
  spd_embedding :: "string option"

record speaker_row =
  spr_id :: int
  spr_draft :: speaker_draft

datatype meeting_store_error =
    MsMeetingNotFound string
  | MsSegmentNotFound int
  | MsScreenshotNotFound int
  | MsSpeakerNotFound int
  | MsIo string
  | MsSql string

definition dec_i64 :: "int \<Rightarrow> string" where
  "dec_i64 v = (if v < 0 then ''-'' @ dec (nat (- v)) else dec (nat v))"

fun meeting_store_error_text :: "meeting_store_error \<Rightarrow> string" where
  "meeting_store_error_text (MsMeetingNotFound m) = ''meeting not found: '' @ m"
| "meeting_store_error_text (MsSegmentNotFound i) = ''segment not found: '' @ dec_i64 i"
| "meeting_store_error_text (MsScreenshotNotFound i) = ''screenshot not found: '' @ dec_i64 i"
| "meeting_store_error_text (MsSpeakerNotFound i) = ''speaker not found: '' @ dec_i64 i"
| "meeting_store_error_text (MsIo e) = ''io error: '' @ e"
| "meeting_store_error_text (MsSql m) = ''sql error: '' @ m"

type_synonym 'a store_result = "meeting_store_error + 'a"

definition with_label :: "string \<Rightarrow> speaker_row \<Rightarrow> speaker_row" where
  "with_label l r = r\<lparr>spr_draft := (spr_draft r)\<lparr>spd_label := l\<rparr>\<rparr>"

lemma with_label_sel [simp]:
  "spr_id (with_label l r) = spr_id r" "spd_label (spr_draft (with_label l r)) = l"
  "spd_meeting_id (spr_draft (with_label l r)) = spd_meeting_id (spr_draft r)"
  by (simp_all add: with_label_def)

section \<open>Contents that are created and listed\<close>

text \<open>
  \<open>storable d\<close>: the adapter can keep the draft as it is. \<open>room s\<close>: how many rows the identifiers
  suffice for. \<open>key\<close>: what a listing is sorted by.
\<close>

fun create_all :: "('d \<Rightarrow> 's \<Rightarrow> 'r store_result \<times> 's) \<Rightarrow> 'd list \<Rightarrow> 's \<Rightarrow> 's" where
  "create_all create [] s = s"
| "create_all create (d # ds) s = create_all create ds (snd (create d s))"

locale content_table =
  fixes create :: "'d \<Rightarrow> 's \<Rightarrow> 'r store_result \<times> 's"
    and listing :: "string \<Rightarrow> 's \<Rightarrow> 'r list store_result"
    and content :: "'r \<Rightarrow> 'd"
    and row_id :: "'r \<Rightarrow> int"
    and owner :: "'d \<Rightarrow> string"
    and key :: "'d \<Rightarrow> nat"
    and storable :: "'d \<Rightarrow> bool"
    and room :: "'s \<Rightarrow> nat"
    and inv :: "'s \<Rightarrow> bool"
  assumes lists: "inv s \<Longrightarrow> \<exists>rows. listing m s = Inr rows \<and> sorted (map (key \<circ> content) rows) \<and>
      (\<forall>r \<in> set rows. owner (content r) = m)"
    and creates: "inv s \<Longrightarrow> storable d \<Longrightarrow> 0 < room s \<Longrightarrow>
      \<exists>r s'. create d s = (Inr r, s') \<and> inv s' \<and> Suc (room s') = room s \<and> content r = d \<and>
        (\<forall>m. row_id r \<notin> row_id ` set (projr (listing m s))) \<and>
        (\<forall>m. mset (projr (listing m s')) = mset (projr (listing m s)) + (if owner d = m then {#r#} else {#}))"
begin

lemma create_all_lists:
  assumes "inv s" and "list_all storable ds" and "length ds \<le> room s"
  shows "inv (create_all create ds s) \<and> room (create_all create ds s) + length ds = room s \<and>
    mset (map content (projr (listing m (create_all create ds s)))) =
      mset (map content (projr (listing m s))) + mset (filter (\<lambda>d. owner d = m) ds)"
  using assms
proof (induction ds arbitrary: s)
  case (Cons d ds)
  then obtain r s' where r: "create d s = (Inr r, s')" "inv s'" "Suc (room s') = room s" "content r = d"
    "mset (projr (listing m s')) = mset (projr (listing m s)) + (if owner d = m then {#r#} else {#})"
    using creates [of s d] by auto
  have "length ds \<le> room s'"
    using Cons.prems(3) r(3) by simp
  then show ?case
    using Cons.IH [OF r(2)] Cons.prems(2) r(1,3,4,5) by (auto simp: mset_map)
qed simp

text \<open>The rows of a meeting after a number of creations, in the order of the listing.\<close>

lemma read_back:
  assumes "inv s" and "projr (listing m s) = []" and "list_all storable ds" and "length ds \<le> room s"
  shows "\<exists>rows. listing m (create_all create ds s) = Inr rows \<and> sorted (map (key \<circ> content) rows) \<and>
    mset (map content rows) = mset (filter (\<lambda>d. owner d = m) ds)"
proof -
  have "inv (create_all create ds s)"
    using create_all_lists [OF assms(1,3,4)] by blast
  then obtain rows where "listing m (create_all create ds s) = Inr rows" "sorted (map (key \<circ> content) rows)"
    using lists by blast
  then show ?thesis
    using create_all_lists [OF assms(1,3,4), of m] assms(2) by (intro exI [of _ rows]) simp
qed

end

section \<open>Speakers\<close>

locale speaker_table = content_table create listing spr_draft spr_id spd_meeting_id "\<lambda>_. 0" storable room inv
  for create :: "speaker_draft \<Rightarrow> 's \<Rightarrow> speaker_row store_result \<times> 's"
    and listing :: "string \<Rightarrow> 's \<Rightarrow> speaker_row list store_result"
    and storable :: "speaker_draft \<Rightarrow> bool" and room :: "'s \<Rightarrow> nat" and inv :: "'s \<Rightarrow> bool" +
  fixes get :: "int \<Rightarrow> 's \<Rightarrow> speaker_row store_result"
    and relabel :: "int \<Rightarrow> string \<Rightarrow> 's \<Rightarrow> speaker_row store_result \<times> 's"
  assumes finds: "inv s \<Longrightarrow> get i s = Inr r \<longleftrightarrow>
      spr_id r = i \<and> r \<in> set (projr (listing (spd_meeting_id (spr_draft r)) s))"
    and not_found: "inv s \<Longrightarrow> get i s = Inl e \<Longrightarrow> e = MsSpeakerNotFound i"
    and relabels: "inv s \<Longrightarrow> get i s = Inr r \<Longrightarrow>
      \<exists>s'. relabel i l s = (Inr (with_label l r), s') \<and> inv s' \<and> room s' = room s \<and>
        get i s' = Inr (with_label l r) \<and> (\<forall>j. j \<noteq> i \<longrightarrow> get j s' = get j s)"
    and relabels_none: "inv s \<Longrightarrow> get i s = Inl e \<Longrightarrow> relabel i l s = (Inl e, s)"
begin

text \<open>A speaker that was created is found until it is relabelled; the last label stays.\<close>

lemma created_found:
  assumes "inv s" and "storable d" and "0 < room s"
  shows "\<exists>r s'. create d s = (Inr r, s') \<and> inv s' \<and> spr_draft r = d \<and> get (spr_id r) s' = Inr r"
proof -
  obtain r s' where r: "create d s = (Inr r, s')" "inv s'" "spr_draft r = d"
    "mset (projr (listing (spd_meeting_id d) s')) = mset (projr (listing (spd_meeting_id d) s)) + {#r#}"
    using creates [OF assms] by force
  have "r \<in> set (projr (listing (spd_meeting_id d) s'))"
    unfolding set_mset_mset [symmetric] r(4) by simp
  then show ?thesis
    using r finds [OF r(2), of "spr_id r" r] by auto
qed

lemma last_label:
  assumes "inv s" and "get i s = Inr r"
  shows "\<exists>s1 s2. relabel i a s = (Inr (with_label a r), s1) \<and> relabel i b s1 = (Inr (with_label b r), s2) \<and>
    inv s2 \<and> get i s2 = Inr (with_label b r) \<and> (\<forall>j. j \<noteq> i \<longrightarrow> get j s2 = get j s)"
proof -
  obtain s1 where s1: "relabel i a s = (Inr (with_label a r), s1)" "inv s1"
    "get i s1 = Inr (with_label a r)" "\<forall>j. j \<noteq> i \<longrightarrow> get j s1 = get j s"
    using relabels [OF assms] by blast
  have "with_label b (with_label a r) = with_label b r"
    by (simp add: with_label_def)
  then show ?thesis
    using relabels [OF s1(2,3), of b] s1 by auto
qed

end

end
