(* ===== verification/Meeting_Stores.thy ===== *)
theory Meeting_Stores
  imports Meeting_Store_Port Sqlite_Storage Sqlite_Schema
begin

text \<open>
  The two adapters of the per-meeting port: \<open>panops-portable/src/rusqlite_meeting_store.rs\<close> on a
  SQLite file, and \<open>InMemoryMeetingStore\<close> of \<open>panops-core/src/conformance/fakes.rs\<close> on hash maps.
  Rows of a table are in the order of their identifiers; the order of rows that a sort key does not
  decide is left open, so the theorems speak of multisets. Poisoned locks are not modelled.
\<close>

section \<open>SQLite: rows as they are stored\<close>

text \<open>
  Times are stored as \<open>i64\<close>. A NaN is bound as null, and SQLite stores minus zero as zero.
\<close>

definition stored_confidence :: "f32 option \<Rightarrow> f32 option" where
  "stored_confidence c =
     (case c of None \<Rightarrow> None
      | Some x \<Rightarrow> if f32_is_nan x then None else if x = 0x80000000 then Some 0 else Some x)"

record segment_columns =
  sgc_id :: int
  sgc_meeting_id :: string
  sgc_start_ms :: int
  sgc_end_ms :: int
  sgc_text :: string
  sgc_language :: "string option"
  sgc_confidence :: "f32 option"
  sgc_speaker_id :: "int option"
  sgc_source :: string

record screenshot_columns =
  shc_id :: int
  shc_meeting_id :: string
  shc_timestamp_ms :: int
  shc_path :: string
  shc_feature_print :: "string option"
  shc_caption :: "string option"

text \<open>The tables, and the largest identifier that each has ever used (\<open>AUTOINCREMENT\<close>).\<close>

record meeting_db =
  mb_segments :: "segment_columns list"
  mb_screenshots :: "screenshot_columns list"
  mb_speakers :: "speaker_row list"
  mb_segment_seq :: int
  mb_screenshot_seq :: int
  mb_speaker_seq :: int

definition fresh_meeting_db :: meeting_db where
  "fresh_meeting_db = \<lparr>mb_segments = [], mb_screenshots = [], mb_speakers = [],
     mb_segment_seq = 0, mb_screenshot_seq = 0, mb_speaker_seq = 0\<rparr>"

definition i64_max :: int where
  "i64_max = 2 ^ 63 - 1"

text \<open>The next identifier; a table that has used the largest one is full.\<close>

definition autoincrement :: "int \<Rightarrow> int store_result" where
  "autoincrement seq = (if seq = i64_max then Inl (MsSql ''database or disk is full'') else Inr (seq + 1))"

text \<open>
  Opening: the DDL on a fresh file, refusal of another version. The statements are those of
  \<open>Sqlite_Schema\<close>, with the crashes between them; \<open>None\<close> is a crash.
\<close>

definition expected_meeting_version :: u32 where
  "expected_meeting_version = 1"

definition meeting_ddl :: "statement list" where
  "meeting_ddl =
     [CreateTable ''segment''
        [(''id'', ''INTEGER PRIMARY KEY AUTOINCREMENT''), (''meeting_id'', ''TEXT NOT NULL''),
         (''start_ms'', ''INTEGER NOT NULL''), (''end_ms'', ''INTEGER NOT NULL''), (''text'', ''TEXT NOT NULL''),
         (''language'', ''TEXT''), (''confidence'', ''REAL''), (''speaker_id'', ''INTEGER''),
         (''source'', ''TEXT NOT NULL'')],
      CreateIndex ''idx_segment_meeting_id'' ''segment'' ''meeting_id'',
      CreateIndex ''idx_segment_start_ms'' ''segment'' ''start_ms'',
      CreateTable ''screenshot''
        [(''id'', ''INTEGER PRIMARY KEY AUTOINCREMENT''), (''meeting_id'', ''TEXT NOT NULL''),
         (''timestamp_ms'', ''INTEGER NOT NULL''), (''path'', ''TEXT NOT NULL''),
         (''feature_print'', ''BLOB''), (''caption'', ''TEXT'')],
      CreateIndex ''idx_screenshot_meeting_id'' ''screenshot'' ''meeting_id'',
      CreateIndex ''idx_screenshot_timestamp_ms'' ''screenshot'' ''timestamp_ms'',
      CreateTable ''speaker''
        [(''id'', ''INTEGER PRIMARY KEY AUTOINCREMENT''), (''meeting_id'', ''TEXT NOT NULL''),
         (''label'', ''TEXT NOT NULL''), (''embedding'', ''BLOB'')],
      CreateIndex ''idx_speaker_meeting_id'' ''speaker'' ''meeting_id'']"

definition sql_outcome :: "unit outcome \<Rightarrow> unit store_result option" where
  "sql_outcome r = (case r of Lost \<Rightarrow> None | Returned (Inr _) \<Rightarrow> Some (Inr ())
     | Returned (Inl e) \<Rightarrow> Some (Inl (MsSql (storage_error_text e))))"

definition open_meeting_store :: "opener \<Rightarrow> unit store_result option \<times> opener" where
  "open_meeting_store x =
     (let actual = df_version (snd x)
      in if actual = 0 then
           (case execute_batch meeting_ddl x of
              (Returned (Inr _), x) \<Rightarrow> apfst sql_outcome (execute (SetVersion expected_meeting_version) x)
            | (r, x) \<Rightarrow> (sql_outcome r, x))
         else if actual \<noteq> expected_meeting_version then
           (Some (Inl (MsSql (''meeting.db schema mismatch: expected '' @ dec expected_meeting_version @
              '', got '' @ dec actual))), x)
         else (Some (Inr ()), x))"

section \<open>SQLite: segments\<close>

definition create_segment :: "segment_draft \<Rightarrow> meeting_db \<Rightarrow> segment_row store_result \<times> meeting_db" where
  "create_segment d s =
     (case autoincrement (mb_segment_seq s) of
        Inl e \<Rightarrow> (Inl e, s)
      | Inr i \<Rightarrow>
          (Inr \<lparr>sgr_id = i, sgr_draft = d\<rparr>,
           s\<lparr>mb_segment_seq := i,
             mb_segments := mb_segments s @
               [\<lparr>sgc_id = i, sgc_meeting_id = sgd_meeting_id d, sgc_start_ms = i64_of_u64 (sgd_start_ms d),
                 sgc_end_ms = i64_of_u64 (sgd_end_ms d), sgc_text = sgd_text d,
                 sgc_language = sgd_language d, sgc_confidence = stored_confidence (sgd_confidence d),
                 sgc_speaker_id = sgd_speaker_id d, sgc_source = sgd_source d\<rparr>]\<rparr>))"

definition read_segment :: "segment_columns \<Rightarrow> segment_row" where
  "read_segment c =
     \<lparr>sgr_id = sgc_id c,
      sgr_draft = \<lparr>sgd_meeting_id = sgc_meeting_id c,
        sgd_start_ms = u64_of_i64_clamped (sgc_start_ms c), sgd_end_ms = u64_of_i64_clamped (sgc_end_ms c),
        sgd_text = sgc_text c, sgd_language = sgc_language c, sgd_confidence = sgc_confidence c,
        sgd_speaker_id = sgc_speaker_id c, sgd_source = sgc_source c\<rparr>\<rparr>"

definition list_segments :: "string \<Rightarrow> meeting_db \<Rightarrow> segment_row list store_result" where
  "list_segments m s =
     Inr (map read_segment (sort_key sgc_start_ms (filter (\<lambda>c. sgc_meeting_id c = m) (mb_segments s))))"

section \<open>SQLite: screenshots\<close>

definition create_screenshot ::
  "screenshot_draft \<Rightarrow> meeting_db \<Rightarrow> screenshot_row store_result \<times> meeting_db" where
  "create_screenshot d s =
     (case autoincrement (mb_screenshot_seq s) of
        Inl e \<Rightarrow> (Inl e, s)
      | Inr i \<Rightarrow>
          (Inr \<lparr>shr_id = i, shr_draft = d\<rparr>,
           s\<lparr>mb_screenshot_seq := i,
             mb_screenshots := mb_screenshots s @
               [\<lparr>shc_id = i, shc_meeting_id = shd_meeting_id d,
                 shc_timestamp_ms = i64_of_u64 (shd_timestamp_ms d), shc_path = shd_path d,
                 shc_feature_print = shd_feature_print d, shc_caption = shd_caption d\<rparr>]\<rparr>))"

definition read_screenshot :: "screenshot_columns \<Rightarrow> screenshot_row" where
  "read_screenshot c =
     \<lparr>shr_id = shc_id c,
      shr_draft = \<lparr>shd_meeting_id = shc_meeting_id c,
        shd_timestamp_ms = u64_of_i64_clamped (shc_timestamp_ms c), shd_path = shc_path c,
        shd_feature_print = shc_feature_print c, shd_caption = shc_caption c\<rparr>\<rparr>"

definition list_screenshots :: "string \<Rightarrow> meeting_db \<Rightarrow> screenshot_row list store_result" where
  "list_screenshots m s =
     Inr (map read_screenshot
       (sort_key shc_timestamp_ms (filter (\<lambda>c. shc_meeting_id c = m) (mb_screenshots s))))"

section \<open>SQLite: speakers\<close>

definition create_speaker :: "speaker_draft \<Rightarrow> meeting_db \<Rightarrow> speaker_row store_result \<times> meeting_db" where
  "create_speaker d s =
     (case autoincrement (mb_speaker_seq s) of
        Inl e \<Rightarrow> (Inl e, s)
      | Inr i \<Rightarrow>
          (let r = \<lparr>spr_id = i, spr_draft = d\<rparr>
           in (Inr r, s\<lparr>mb_speaker_seq := i, mb_speakers := mb_speakers s @ [r]\<rparr>)))"

definition list_speakers :: "string \<Rightarrow> meeting_db \<Rightarrow> speaker_row list store_result" where
  "list_speakers m s = Inr (filter (\<lambda>r. spd_meeting_id (spr_draft r) = m) (mb_speakers s))"

definition get_speaker :: "int \<Rightarrow> meeting_db \<Rightarrow> speaker_row store_result" where
  "get_speaker i s =
     (case lookup spr_id (mb_speakers s) i of
        None \<Rightarrow> Inl (MsSpeakerNotFound i)
      | Some r \<Rightarrow> Inr r)"

definition update_speaker_label ::
  "int \<Rightarrow> string \<Rightarrow> meeting_db \<Rightarrow> speaker_row store_result \<times> meeting_db" where
  "update_speaker_label i l s =
     (let n = length (filter (\<lambda>r. spr_id r = i) (mb_speakers s));
          s' = s\<lparr>mb_speakers := map (\<lambda>r. if spr_id r = i then with_label l r else r) (mb_speakers s)\<rparr>
      in if n = 0 then (Inl (MsSpeakerNotFound i), s') else (get_speaker i s', s'))"

section \<open>In memory\<close>

record meeting_mem =
  mm_segments :: "(int \<times> segment_row) list"
  mm_screenshots :: "(int \<times> screenshot_row) list"
  mm_speakers :: "(int \<times> speaker_row) list"
  mm_next_id :: int

definition new_meeting_mem :: meeting_mem where
  "new_meeting_mem = \<lparr>mm_segments = [], mm_screenshots = [], mm_speakers = [], mm_next_id = 1\<rparr>"

definition next_id :: "meeting_mem \<Rightarrow> int \<times> meeting_mem" where
  "next_id s = (mm_next_id s, s\<lparr>mm_next_id := i64_succ (mm_next_id s)\<rparr>)"

definition mm_create_segment :: "segment_draft \<Rightarrow> meeting_mem \<Rightarrow> segment_row store_result \<times> meeting_mem" where
  "mm_create_segment d s =
     (let (i, s) = next_id s; row = \<lparr>sgr_id = i, sgr_draft = d\<rparr>
      in (Inr row, s\<lparr>mm_segments := hm_insert i row (mm_segments s)\<rparr>))"

definition mm_list_segments :: "string \<Rightarrow> meeting_mem \<Rightarrow> segment_row list store_result" where
  "mm_list_segments m s =
     Inr (sort_key (\<lambda>r. sgd_start_ms (sgr_draft r))
       (filter (\<lambda>r. sgd_meeting_id (sgr_draft r) = m) (hm_values (mm_segments s))))"

definition mm_create_screenshot ::
  "screenshot_draft \<Rightarrow> meeting_mem \<Rightarrow> screenshot_row store_result \<times> meeting_mem" where
  "mm_create_screenshot d s =
     (let (i, s) = next_id s; row = \<lparr>shr_id = i, shr_draft = d\<rparr>
      in (Inr row, s\<lparr>mm_screenshots := hm_insert i row (mm_screenshots s)\<rparr>))"

definition mm_list_screenshots :: "string \<Rightarrow> meeting_mem \<Rightarrow> screenshot_row list store_result" where
  "mm_list_screenshots m s =
     Inr (sort_key (\<lambda>r. shd_timestamp_ms (shr_draft r))
       (filter (\<lambda>r. shd_meeting_id (shr_draft r) = m) (hm_values (mm_screenshots s))))"

definition mm_create_speaker :: "speaker_draft \<Rightarrow> meeting_mem \<Rightarrow> speaker_row store_result \<times> meeting_mem" where
  "mm_create_speaker d s =
     (let (i, s) = next_id s; row = \<lparr>spr_id = i, spr_draft = d\<rparr>
      in (Inr row, s\<lparr>mm_speakers := hm_insert i row (mm_speakers s)\<rparr>))"

definition mm_list_speakers :: "string \<Rightarrow> meeting_mem \<Rightarrow> speaker_row list store_result" where
  "mm_list_speakers m s =
     Inr (filter (\<lambda>r. spd_meeting_id (spr_draft r) = m) (hm_values (mm_speakers s)))"

definition mm_get_speaker :: "int \<Rightarrow> meeting_mem \<Rightarrow> speaker_row store_result" where
  "mm_get_speaker i s =
     (case map_of (mm_speakers s) i of None \<Rightarrow> Inl (MsSpeakerNotFound i) | Some r \<Rightarrow> Inr r)"

definition mm_update_speaker_label ::
  "int \<Rightarrow> string \<Rightarrow> meeting_mem \<Rightarrow> speaker_row store_result \<times> meeting_mem" where
  "mm_update_speaker_label i l s =
     (case map_of (mm_speakers s) i of
        None \<Rightarrow> (Inl (MsSpeakerNotFound i), s)
      | Some r \<Rightarrow> (let r = with_label l r
                   in (Inr r, s\<lparr>mm_speakers := hm_insert i r (mm_speakers s)\<rparr>)))"

section \<open>The SQLite adapter keeps the interface\<close>

definition table_inv :: "('r \<Rightarrow> int) \<Rightarrow> 'r list \<Rightarrow> int \<Rightarrow> bool" where
  "table_inv key rows seq \<longleftrightarrow>
     distinct (map key rows) \<and> (\<forall>r \<in> set rows. key r \<le> seq) \<and> 0 \<le> seq \<and> seq \<le> i64_max"

definition meeting_db_ok :: "meeting_db \<Rightarrow> bool" where
  "meeting_db_ok s \<longleftrightarrow> table_inv sgc_id (mb_segments s) (mb_segment_seq s) \<and>
     table_inv shc_id (mb_screenshots s) (mb_screenshot_seq s) \<and>
     table_inv spr_id (mb_speakers s) (mb_speaker_seq s)"

definition storable_segment :: "segment_draft \<Rightarrow> bool" where
  "storable_segment d \<longleftrightarrow> sgd_start_ms d < 2 ^ 63 \<and> sgd_end_ms d < 2 ^ 63 \<and>
     stored_confidence (sgd_confidence d) = sgd_confidence d"

definition storable_screenshot :: "screenshot_draft \<Rightarrow> bool" where
  "storable_screenshot d \<longleftrightarrow> shd_timestamp_ms d < 2 ^ 63"

definition ids_left :: "int \<Rightarrow> nat" where
  "ids_left seq = nat (i64_max - seq)"

lemma table_inv_append:
  "table_inv key rows seq \<Longrightarrow> 0 < ids_left seq \<Longrightarrow> key r = seq + 1 \<Longrightarrow> table_inv key (rows @ [r]) (seq + 1)"
  by (force simp: table_inv_def ids_left_def)

lemma autoincrement_left [simp]: "0 < ids_left seq \<Longrightarrow> autoincrement seq = Inr (seq + 1)"
  by (auto simp: autoincrement_def ids_left_def)

lemma ids_left_Suc: "0 < ids_left seq \<Longrightarrow> Suc (ids_left (seq + 1)) = ids_left seq"
  by (simp add: ids_left_def)

lemma table_inv_fresh: "table_inv key rows seq \<Longrightarrow> seq + 1 \<notin> key ` set rows"
  by (force simp: table_inv_def)

lemma clamp_mono: "a \<le> b \<Longrightarrow> u64_of_i64_clamped a \<le> u64_of_i64_clamped b"
  by (auto simp: u64_of_i64_clamped_def)

lemma sorted_clamped: "sorted (map (\<lambda>c. u64_of_i64_clamped (f c)) (sort_key f rows))"
proof -
  have "sorted_wrt (\<lambda>a b. f a \<le> f b) (sort_key f rows)"
    using sorted_sort_key [of f rows] by (simp only: sorted_map)
  then have "sorted_wrt (\<lambda>a b. u64_of_i64_clamped (f a) \<le> u64_of_i64_clamped (f b)) (sort_key f rows)"
    by (rule sorted_wrt_mono_rel [rotated]) (rule clamp_mono)
  then show ?thesis
    by (simp only: sorted_map)
qed

interpretation sqlite_segments: content_table create_segment list_segments sgr_draft sgr_id
  sgd_meeting_id sgd_start_ms storable_segment "\<lambda>s. ids_left (mb_segment_seq s)" meeting_db_ok
proof
  fix s m
  assume "meeting_db_ok s"
  show "\<exists>rows. list_segments m s = Inr rows \<and> sorted (map (sgd_start_ms \<circ> sgr_draft) rows) \<and>
      (\<forall>r \<in> set rows. sgd_meeting_id (sgr_draft r) = m)"
    using sorted_clamped [of sgc_start_ms] by (simp add: list_segments_def read_segment_def comp_def)
next
  fix s d
  assume s: "meeting_db_ok s" and d: "storable_segment d" and room: "0 < ids_left (mb_segment_seq s)"
  let ?i = "mb_segment_seq s + 1"
  let ?c = "\<lparr>sgc_id = ?i, sgc_meeting_id = sgd_meeting_id d, sgc_start_ms = i64_of_u64 (sgd_start_ms d),
      sgc_end_ms = i64_of_u64 (sgd_end_ms d), sgc_text = sgd_text d, sgc_language = sgd_language d,
      sgc_confidence = stored_confidence (sgd_confidence d), sgc_speaker_id = sgd_speaker_id d,
      sgc_source = sgd_source d\<rparr>"
  have read: "read_segment ?c = \<lparr>sgr_id = ?i, sgr_draft = d\<rparr>"
    using d by (simp add: read_segment_def storable_segment_def)
  have ok: "meeting_db_ok (s\<lparr>mb_segment_seq := ?i, mb_segments := mb_segments s @ [?c]\<rparr>)"
    using s table_inv_append [OF _ room, of sgc_id "mb_segments s" ?c] by (simp add: meeting_db_ok_def)
  have fresh: "?i \<notin> sgr_id ` set (projr (list_segments m s))" for m
    using s table_inv_fresh [of sgc_id "mb_segments s"]
    by (force simp: meeting_db_ok_def list_segments_def read_segment_def)
  show "\<exists>r s'. create_segment d s = (Inr r, s') \<and> meeting_db_ok s' \<and>
      Suc (ids_left (mb_segment_seq s')) = ids_left (mb_segment_seq s) \<and> sgr_draft r = d \<and>
      (\<forall>m. sgr_id r \<notin> sgr_id ` set (projr (list_segments m s))) \<and>
      (\<forall>m. mset (projr (list_segments m s')) =
        mset (projr (list_segments m s)) + (if sgd_meeting_id d = m then {#r#} else {#}))"
    using ok fresh room read by (simp add: create_segment_def list_segments_def ids_left_Suc mset_map)
qed

interpretation sqlite_screenshots: content_table create_screenshot list_screenshots shr_draft shr_id
  shd_meeting_id shd_timestamp_ms storable_screenshot "\<lambda>s. ids_left (mb_screenshot_seq s)" meeting_db_ok
proof
  fix s m
  assume "meeting_db_ok s"
  show "\<exists>rows. list_screenshots m s = Inr rows \<and> sorted (map (shd_timestamp_ms \<circ> shr_draft) rows) \<and>
      (\<forall>r \<in> set rows. shd_meeting_id (shr_draft r) = m)"
    using sorted_clamped [of shc_timestamp_ms] by (simp add: list_screenshots_def read_screenshot_def comp_def)
next
  fix s d
  assume s: "meeting_db_ok s" and d: "storable_screenshot d" and room: "0 < ids_left (mb_screenshot_seq s)"
  let ?i = "mb_screenshot_seq s + 1"
  let ?c = "\<lparr>shc_id = ?i, shc_meeting_id = shd_meeting_id d,
      shc_timestamp_ms = i64_of_u64 (shd_timestamp_ms d), shc_path = shd_path d,
      shc_feature_print = shd_feature_print d, shc_caption = shd_caption d\<rparr>"
  have read: "read_screenshot ?c = \<lparr>shr_id = ?i, shr_draft = d\<rparr>"
    using d by (simp add: read_screenshot_def storable_screenshot_def)
  have ok: "meeting_db_ok (s\<lparr>mb_screenshot_seq := ?i, mb_screenshots := mb_screenshots s @ [?c]\<rparr>)"
    using s table_inv_append [OF _ room, of shc_id "mb_screenshots s" ?c] by (simp add: meeting_db_ok_def)
  have fresh: "?i \<notin> shr_id ` set (projr (list_screenshots m s))" for m
    using s table_inv_fresh [of shc_id "mb_screenshots s"]
    by (force simp: meeting_db_ok_def list_screenshots_def read_screenshot_def)
  show "\<exists>r s'. create_screenshot d s = (Inr r, s') \<and> meeting_db_ok s' \<and>
      Suc (ids_left (mb_screenshot_seq s')) = ids_left (mb_screenshot_seq s) \<and> shr_draft r = d \<and>
      (\<forall>m. shr_id r \<notin> shr_id ` set (projr (list_screenshots m s))) \<and>
      (\<forall>m. mset (projr (list_screenshots m s')) =
        mset (projr (list_screenshots m s)) + (if shd_meeting_id d = m then {#r#} else {#}))"
    using ok fresh room read by (simp add: create_screenshot_def list_screenshots_def ids_left_Suc mset_map)
qed

lemma relabelled_lookup:
  "lookup spr_id (map (\<lambda>r. if spr_id r = i then with_label l r else r) rows) j =
     map_option (\<lambda>r. if spr_id r = i then with_label l r else r) (lookup spr_id rows j)"
  by (rule lookup_map) simp

lemma get_speaker_eq:
  assumes "meeting_db_ok s"
  shows "get_speaker i s = Inr r \<longleftrightarrow> r \<in> set (mb_speakers s) \<and> spr_id r = i"
proof -
  have "distinct (map spr_id (mb_speakers s))"
    using assms by (simp add: meeting_db_ok_def table_inv_def)
  then show ?thesis
    using lookup_eq_Some [of spr_id "mb_speakers s" i r] by (auto simp: get_speaker_def split: option.splits)
qed

interpretation sqlite_speakers: speaker_table create_speaker list_speakers "\<lambda>_. True"
  "\<lambda>s. ids_left (mb_speaker_seq s)" meeting_db_ok get_speaker update_speaker_label
proof
  fix s m
  assume "meeting_db_ok s"
  show "\<exists>rows. list_speakers m s = Inr rows \<and> sorted (map ((\<lambda>_. 0 :: nat) \<circ> spr_draft) rows) \<and>
      (\<forall>r \<in> set rows. spd_meeting_id (spr_draft r) = m)"
    by (simp add: list_speakers_def comp_def map_replicate_const)
next
  fix s d
  assume s: "meeting_db_ok s" and room: "0 < ids_left (mb_speaker_seq s)"
  let ?i = "mb_speaker_seq s + 1"
  let ?r = "\<lparr>spr_id = ?i, spr_draft = d\<rparr>"
  have ok: "meeting_db_ok (s\<lparr>mb_speaker_seq := ?i, mb_speakers := mb_speakers s @ [?r]\<rparr>)"
    using s table_inv_append [OF _ room, of spr_id "mb_speakers s" ?r] by (simp add: meeting_db_ok_def)
  have fresh: "?i \<notin> spr_id ` set (projr (list_speakers m s))" for m
    using s table_inv_fresh [of spr_id "mb_speakers s"] by (force simp: meeting_db_ok_def list_speakers_def)
  show "\<exists>r s'. create_speaker d s = (Inr r, s') \<and> meeting_db_ok s' \<and>
      Suc (ids_left (mb_speaker_seq s')) = ids_left (mb_speaker_seq s) \<and> spr_draft r = d \<and>
      (\<forall>m. spr_id r \<notin> spr_id ` set (projr (list_speakers m s))) \<and>
      (\<forall>m. mset (projr (list_speakers m s')) =
        mset (projr (list_speakers m s)) + (if spd_meeting_id d = m then {#r#} else {#}))"
    using ok fresh room by (simp add: create_speaker_def list_speakers_def ids_left_Suc Let_def)
next
  fix s i and r :: speaker_row
  assume "meeting_db_ok s"
  then show "get_speaker i s = Inr r \<longleftrightarrow>
      spr_id r = i \<and> r \<in> set (projr (list_speakers (spd_meeting_id (spr_draft r)) s))"
    by (auto simp: get_speaker_eq list_speakers_def)
next
  fix s i e
  assume "meeting_db_ok s" and "get_speaker i s = Inl e"
  then show "e = MsSpeakerNotFound i"
    by (auto simp: get_speaker_def split: option.splits)
next
  fix s i r l
  assume s: "meeting_db_ok s" and r: "get_speaker i s = Inr r"
  let ?s = "s\<lparr>mb_speakers := map (\<lambda>r. if spr_id r = i then with_label l r else r) (mb_speakers s)\<rparr>"
  have ids: "map spr_id (map (\<lambda>r. if spr_id r = i then with_label l r else r) (mb_speakers s)) =
      map spr_id (mb_speakers s)"
    by simp
  have look: "lookup spr_id (mb_speakers s) i = Some r" "spr_id r = i" "r \<in> set (mb_speakers s)"
    using r get_speaker_eq [OF s, of i r] by (auto simp: get_speaker_def split: option.splits)
  have "meeting_db_ok ?s"
    using s unfolding meeting_db_ok_def table_inv_def by (auto simp: ids simp del: map_map)
  moreover have "get_speaker i ?s = Inr (with_label l r)"
    using look by (simp add: get_speaker_def relabelled_lookup)
  moreover have "get_speaker j ?s = get_speaker j s" if "j \<noteq> i" for j
    using that lookup_SomeD [of spr_id "mb_speakers s" j]
    by (auto simp: get_speaker_def relabelled_lookup split: option.split)
  moreover have "update_speaker_label i l s = (get_speaker i ?s, ?s)"
    using look(2,3) by (auto simp: update_speaker_label_def Let_def filter_empty_conv)
  ultimately show "\<exists>s'. update_speaker_label i l s = (Inr (with_label l r), s') \<and> meeting_db_ok s' \<and>
      ids_left (mb_speaker_seq s') = ids_left (mb_speaker_seq s) \<and>
      get_speaker i s' = Inr (with_label l r) \<and> (\<forall>j. j \<noteq> i \<longrightarrow> get_speaker j s' = get_speaker j s)"
    by simp
next
  fix s i e l
  assume "meeting_db_ok s" and e: "get_speaker i s = Inl e"
  then have none: "\<forall>r \<in> set (mb_speakers s). spr_id r \<noteq> i" "e = MsSpeakerNotFound i"
    by (auto simp: get_speaker_def lookup_None split: option.splits)
  then have "map (\<lambda>r. if spr_id r = i then with_label l r else r) (mb_speakers s) = mb_speakers s"
    by (intro map_idI) auto
  then show "update_speaker_label i l s = (Inl e, s)"
    using none by (simp add: update_speaker_label_def Let_def filter_False)
qed

section \<open>The in-memory adapter keeps the interface\<close>

definition map_inv :: "('r \<Rightarrow> int) \<Rightarrow> (int \<times> 'r) list \<Rightarrow> int \<Rightarrow> bool" where
  "map_inv key m next \<longleftrightarrow> hm_ok m \<and> (\<forall>(k, r) \<in> set m. key r = k \<and> k < next)"

definition meeting_mem_ok :: "meeting_mem \<Rightarrow> bool" where
  "meeting_mem_ok s \<longleftrightarrow> map_inv sgr_id (mm_segments s) (mm_next_id s) \<and>
     map_inv shr_id (mm_screenshots s) (mm_next_id s) \<and>
     map_inv spr_id (mm_speakers s) (mm_next_id s)"

lemma map_inv_insert:
  assumes "map_inv key m n" and "key r = n"
  shows "hm_insert n r m = m @ [(n, r)]" and "map_inv key (m @ [(n, r)]) (n + 1)"
proof -
  have "n \<notin> fst ` set m"
    using assms(1) by (force simp: map_inv_def)
  then show "hm_insert n r m = m @ [(n, r)]"
    by (force simp: hm_insert_def filter_id_conv)
  show "map_inv key (m @ [(n, r)]) (n + 1)"
    using assms \<open>n \<notin> fst ` set m\<close> by (fastforce simp: map_inv_def hm_ok_def)
qed

lemma map_inv_later: "map_inv key m n \<Longrightarrow> map_inv key m (n + 1)"
  by (force simp: map_inv_def)

lemma map_inv_fresh: "map_inv key m n \<Longrightarrow> n \<notin> key ` set (hm_values m)"
  by (force simp: map_inv_def hm_values_def)

lemma map_inv_values: "map_inv key m n \<Longrightarrow> map_of m k = Some r \<longleftrightarrow> r \<in> set (hm_values m) \<and> key r = k"
  by (force simp: map_inv_def hm_values_def hm_ok_def map_of_eq_Some_iff)

lemma next_id_left: "0 < ids_left (mm_next_id s) \<Longrightarrow> next_id s = (mm_next_id s, s\<lparr>mm_next_id := mm_next_id s + 1\<rparr>)"
  by (auto simp: next_id_def i64_succ_def ids_left_def i64_max_def)

interpretation memory_segments: content_table mm_create_segment mm_list_segments sgr_draft sgr_id
  sgd_meeting_id sgd_start_ms "\<lambda>_. True" "\<lambda>s. ids_left (mm_next_id s)" meeting_mem_ok
proof
  fix s m
  show "\<exists>rows. mm_list_segments m s = Inr rows \<and> sorted (map (sgd_start_ms \<circ> sgr_draft) rows) \<and>
      (\<forall>r \<in> set rows. sgd_meeting_id (sgr_draft r) = m)"
    using sorted_sort_key [of "\<lambda>r. sgd_start_ms (sgr_draft r)"] by (simp add: mm_list_segments_def comp_def)
next
  fix s d
  assume s: "meeting_mem_ok s" and room: "0 < ids_left (mm_next_id s)"
  let ?r = "\<lparr>sgr_id = mm_next_id s, sgr_draft = d\<rparr>"
  note ins = map_inv_insert [of sgr_id "mm_segments s" "mm_next_id s" ?r]
  show "\<exists>r s'. mm_create_segment d s = (Inr r, s') \<and> meeting_mem_ok s' \<and>
      Suc (ids_left (mm_next_id s')) = ids_left (mm_next_id s) \<and> sgr_draft r = d \<and>
      (\<forall>m. sgr_id r \<notin> sgr_id ` set (projr (mm_list_segments m s))) \<and>
      (\<forall>m. mset (projr (mm_list_segments m s')) =
        mset (projr (mm_list_segments m s)) + (if sgd_meeting_id d = m then {#r#} else {#}))"
    using s room ins map_inv_fresh [of sgr_id "mm_segments s" "mm_next_id s"]
    by (auto simp: mm_create_segment_def mm_list_segments_def next_id_left meeting_mem_ok_def Let_def
        ids_left_Suc hm_values_def map_inv_later)
qed

interpretation memory_screenshots: content_table mm_create_screenshot mm_list_screenshots shr_draft shr_id
  shd_meeting_id shd_timestamp_ms "\<lambda>_. True" "\<lambda>s. ids_left (mm_next_id s)" meeting_mem_ok
proof
  fix s m
  show "\<exists>rows. mm_list_screenshots m s = Inr rows \<and> sorted (map (shd_timestamp_ms \<circ> shr_draft) rows) \<and>
      (\<forall>r \<in> set rows. shd_meeting_id (shr_draft r) = m)"
    using sorted_sort_key [of "\<lambda>r. shd_timestamp_ms (shr_draft r)"]
    by (simp add: mm_list_screenshots_def comp_def)
next
  fix s d
  assume s: "meeting_mem_ok s" and room: "0 < ids_left (mm_next_id s)"
  let ?r = "\<lparr>shr_id = mm_next_id s, shr_draft = d\<rparr>"
  note ins = map_inv_insert [of shr_id "mm_screenshots s" "mm_next_id s" ?r]
  show "\<exists>r s'. mm_create_screenshot d s = (Inr r, s') \<and> meeting_mem_ok s' \<and>
      Suc (ids_left (mm_next_id s')) = ids_left (mm_next_id s) \<and> shr_draft r = d \<and>
      (\<forall>m. shr_id r \<notin> shr_id ` set (projr (mm_list_screenshots m s))) \<and>
      (\<forall>m. mset (projr (mm_list_screenshots m s')) =
        mset (projr (mm_list_screenshots m s)) + (if shd_meeting_id d = m then {#r#} else {#}))"
    using s room ins map_inv_fresh [of shr_id "mm_screenshots s" "mm_next_id s"]
    by (auto simp: mm_create_screenshot_def mm_list_screenshots_def next_id_left meeting_mem_ok_def Let_def
        ids_left_Suc hm_values_def map_inv_later)
qed

lemma map_inv_replace:
  assumes "map_inv key m n" and "map_of m i = Some r" and "key r' = key r"
  shows "map_inv key (hm_insert i r' m) n"
proof -
  have "key r = i" "i < n"
    using assms(1,2) map_of_SomeD [OF assms(2)] by (auto simp: map_inv_def)
  moreover have "set (hm_insert i r' m) \<subseteq> insert (i, r') (set m)"
    by (auto simp: hm_insert_def)
  ultimately show ?thesis
    using assms(1,3) by (auto simp: map_inv_def)
qed

interpretation memory_speakers: speaker_table mm_create_speaker mm_list_speakers "\<lambda>_. True"
  "\<lambda>s. ids_left (mm_next_id s)" meeting_mem_ok mm_get_speaker mm_update_speaker_label
proof
  fix s m
  show "\<exists>rows. mm_list_speakers m s = Inr rows \<and> sorted (map ((\<lambda>_. 0 :: nat) \<circ> spr_draft) rows) \<and>
      (\<forall>r \<in> set rows. spd_meeting_id (spr_draft r) = m)"
    by (simp add: mm_list_speakers_def comp_def map_replicate_const)
next
  fix s d
  assume s: "meeting_mem_ok s" and room: "0 < ids_left (mm_next_id s)"
  let ?r = "\<lparr>spr_id = mm_next_id s, spr_draft = d\<rparr>"
  note ins = map_inv_insert [of spr_id "mm_speakers s" "mm_next_id s" ?r]
  show "\<exists>r s'. mm_create_speaker d s = (Inr r, s') \<and> meeting_mem_ok s' \<and>
      Suc (ids_left (mm_next_id s')) = ids_left (mm_next_id s) \<and> spr_draft r = d \<and>
      (\<forall>m. spr_id r \<notin> spr_id ` set (projr (mm_list_speakers m s))) \<and>
      (\<forall>m. mset (projr (mm_list_speakers m s')) =
        mset (projr (mm_list_speakers m s)) + (if spd_meeting_id d = m then {#r#} else {#}))"
    using s room ins map_inv_fresh [of spr_id "mm_speakers s" "mm_next_id s"]
    by (auto simp: mm_create_speaker_def mm_list_speakers_def next_id_left meeting_mem_ok_def Let_def
        ids_left_Suc hm_values_def map_inv_later)
next
  fix s i and r :: speaker_row
  assume "meeting_mem_ok s"
  then show "mm_get_speaker i s = Inr r \<longleftrightarrow>
      spr_id r = i \<and> r \<in> set (projr (mm_list_speakers (spd_meeting_id (spr_draft r)) s))"
    using map_inv_values [of spr_id "mm_speakers s" "mm_next_id s" i r]
    by (auto simp: mm_get_speaker_def mm_list_speakers_def meeting_mem_ok_def split: option.splits)
next
  fix s i e
  assume "meeting_mem_ok s" and "mm_get_speaker i s = Inl e"
  then show "e = MsSpeakerNotFound i"
    by (auto simp: mm_get_speaker_def split: option.splits)
next
  fix s i r l
  assume "meeting_mem_ok s" and "mm_get_speaker i s = Inr r"
  then show "\<exists>s'. mm_update_speaker_label i l s = (Inr (with_label l r), s') \<and> meeting_mem_ok s' \<and>
      ids_left (mm_next_id s') = ids_left (mm_next_id s) \<and>
      mm_get_speaker i s' = Inr (with_label l r) \<and> (\<forall>j. j \<noteq> i \<longrightarrow> mm_get_speaker j s' = mm_get_speaker j s)"
    by (auto simp: mm_update_speaker_label_def mm_get_speaker_def meeting_mem_ok_def Let_def
        hm_insert_map_of map_inv_replace split: option.splits)
next
  fix s i e l
  assume "meeting_mem_ok s" and "mm_get_speaker i s = Inl e"
  then show "mm_update_speaker_label i l s = (Inl e, s)"
    by (auto simp: mm_update_speaker_label_def mm_get_speaker_def split: option.splits)
qed

section \<open>Properties\<close>

lemma fresh_stores_ok: "meeting_db_ok fresh_meeting_db" "meeting_mem_ok new_meeting_mem"
  by (simp_all add: meeting_db_ok_def fresh_meeting_db_def table_inv_def i64_max_def meeting_mem_ok_def
      new_meeting_mem_def map_inv_def)

text \<open>What a meeting is given it gives back: after segments of any meetings were created in a fresh
  store, the listing of a meeting has exactly its segments, sorted by start, and both adapters agree on
  it. For the SQLite adapter the times fit an i64 and the confidence is neither a NaN nor minus
  zero.\<close>

theorem meeting_stores_agree:
  assumes "list_all storable_segment ds" and "length ds < 2 ^ 63 - 1"
  shows "\<exists>rows rows'. list_segments m (create_all create_segment ds fresh_meeting_db) = Inr rows \<and>
    mm_list_segments m (create_all mm_create_segment ds new_meeting_mem) = Inr rows' \<and>
    sorted (map (sgd_start_ms \<circ> sgr_draft) rows) \<and> sorted (map (sgd_start_ms \<circ> sgr_draft) rows') \<and>
    mset (map sgr_draft rows) = mset (filter (\<lambda>d. sgd_meeting_id d = m) ds) \<and>
    mset (map sgr_draft rows') = mset (filter (\<lambda>d. sgd_meeting_id d = m) ds)"
proof -
  have empty: "projr (list_segments m fresh_meeting_db) = []" "projr (mm_list_segments m new_meeting_mem) = []"
    by (simp_all add: list_segments_def mm_list_segments_def fresh_meeting_db_def new_meeting_mem_def hm_values_def)
  have left: "length ds \<le> ids_left (mb_segment_seq fresh_meeting_db)" "length ds \<le> ids_left (mm_next_id new_meeting_mem)"
    using assms(2) by (simp_all add: ids_left_def i64_max_def fresh_meeting_db_def new_meeting_mem_def)
  show ?thesis
    using sqlite_segments.read_back [OF fresh_stores_ok(1) empty(1) assms(1) left(1)]
      memory_segments.read_back [OF fresh_stores_ok(2) empty(2) _ left(2)]
    by (auto simp: list_all_iff)
qed

definition demo_segment_draft :: "string \<Rightarrow> u64 \<Rightarrow> segment_draft" where
  "demo_segment_draft m ms = \<lparr>sgd_meeting_id = m, sgd_start_ms = ms, sgd_end_ms = ms + 5, sgd_text = ''hi'',
     sgd_language = None, sgd_confidence = Some 0x3F000000, sgd_speaker_id = None, sgd_source = ''live''\<rparr>"

theorem meeting_stores_agree_witness:
  "\<exists>rows. list_segments ''m'' (create_all create_segment
      [demo_segment_draft ''m'' 9, demo_segment_draft ''x'' 1, demo_segment_draft ''m'' 2] fresh_meeting_db) = Inr rows \<and>
    mset (map sgr_draft rows) = {#demo_segment_draft ''m'' 2, demo_segment_draft ''m'' 9#}"
  using meeting_stores_agree
    [of "[demo_segment_draft ''m'' 9, demo_segment_draft ''x'' 1, demo_segment_draft ''m'' 2]" "''m''"]
  by (auto simp: storable_segment_def demo_segment_draft_def stored_confidence_def f32_is_nan_def
      f32_magnitude_def add_mset_commute)

text \<open>A speaker of a meeting can be found from its creation on; relabelling keeps the last label and
  leaves every other speaker alone, in both adapters.\<close>

theorem speaker_labels_kept:
  assumes "meeting_db_ok s" and "0 < ids_left (mb_speaker_seq s)"
    and "meeting_mem_ok t" and "0 < ids_left (mm_next_id t)"
  shows "(\<exists>r s1 s2 s3. create_speaker d s = (Inr r, s1) \<and> spr_draft r = d \<and>
      update_speaker_label (spr_id r) a s1 = (Inr (with_label a r), s2) \<and>
      update_speaker_label (spr_id r) b s2 = (Inr (with_label b r), s3) \<and> meeting_db_ok s3 \<and>
      get_speaker (spr_id r) s3 = Inr (with_label b r) \<and>
      (\<forall>j. j \<noteq> spr_id r \<longrightarrow> get_speaker j s3 = get_speaker j s1)) \<and>
    (\<exists>r t1 t2 t3. mm_create_speaker d t = (Inr r, t1) \<and> spr_draft r = d \<and>
      mm_update_speaker_label (spr_id r) a t1 = (Inr (with_label a r), t2) \<and>
      mm_update_speaker_label (spr_id r) b t2 = (Inr (with_label b r), t3) \<and> meeting_mem_ok t3 \<and>
      mm_get_speaker (spr_id r) t3 = Inr (with_label b r) \<and>
      (\<forall>j. j \<noteq> spr_id r \<longrightarrow> mm_get_speaker j t3 = mm_get_speaker j t1))"
proof
  obtain r s1 where s1: "create_speaker d s = (Inr r, s1)" "meeting_db_ok s1" "spr_draft r = d"
    "get_speaker (spr_id r) s1 = Inr r"
    using sqlite_speakers.created_found [OF assms(1) TrueI assms(2)] by blast
  then show "\<exists>r s1 s2 s3. create_speaker d s = (Inr r, s1) \<and> spr_draft r = d \<and>
      update_speaker_label (spr_id r) a s1 = (Inr (with_label a r), s2) \<and>
      update_speaker_label (spr_id r) b s2 = (Inr (with_label b r), s3) \<and> meeting_db_ok s3 \<and>
      get_speaker (spr_id r) s3 = Inr (with_label b r) \<and>
      (\<forall>j. j \<noteq> spr_id r \<longrightarrow> get_speaker j s3 = get_speaker j s1)"
    using sqlite_speakers.last_label [OF s1(2,4)] by blast
  obtain r t1 where t1: "mm_create_speaker d t = (Inr r, t1)" "meeting_mem_ok t1" "spr_draft r = d"
    "mm_get_speaker (spr_id r) t1 = Inr r"
    using memory_speakers.created_found [OF assms(3) TrueI assms(4)] by blast
  then show "\<exists>r t1 t2 t3. mm_create_speaker d t = (Inr r, t1) \<and> spr_draft r = d \<and>
      mm_update_speaker_label (spr_id r) a t1 = (Inr (with_label a r), t2) \<and>
      mm_update_speaker_label (spr_id r) b t2 = (Inr (with_label b r), t3) \<and> meeting_mem_ok t3 \<and>
      mm_get_speaker (spr_id r) t3 = Inr (with_label b r) \<and>
      (\<forall>j. j \<noteq> spr_id r \<longrightarrow> mm_get_speaker j t3 = mm_get_speaker j t1)"
    using memory_speakers.last_label [OF t1(2,4)] by blast
qed

definition demo_speaker :: speaker_draft where
  "demo_speaker = \<lparr>spd_meeting_id = ''m'', spd_label = ''Speaker 1'', spd_embedding = None\<rparr>"

theorem speaker_labels_kept_witness:
  "\<exists>r s1 s2 s3. create_speaker demo_speaker fresh_meeting_db = (Inr r, s1) \<and>
     update_speaker_label (spr_id r) ''Ann'' s1 = (Inr (with_label ''Ann'' r), s2) \<and>
     update_speaker_label (spr_id r) ''Eve'' s2 = (Inr (with_label ''Eve'' r), s3) \<and>
     get_speaker (spr_id r) s3 = Inr (with_label ''Eve'' r)"
proof -
  have "0 < ids_left (mb_speaker_seq fresh_meeting_db)" "0 < ids_left (mm_next_id new_meeting_mem)"
    by (simp_all add: ids_left_def i64_max_def fresh_meeting_db_def new_meeting_mem_def)
  from speaker_labels_kept [OF fresh_stores_ok(1) this(1) fresh_stores_ok(2) this(2)]
  show ?thesis
    by blast
qed

end
