(* ===== verification/Capture_Port.thy ===== *)
theory Capture_Port
  imports Export_Port Prompts
begin

text \<open>
  The capture port, \<open>panops-core/src/capture.rs\<close>, its fake \<open>FakeCapture\<close> in
  \<open>panops-core/src/conformance/fakes.rs\<close> and the placeholder of
  \<open>panops-engine/src/capture_resolver.rs\<close>. The locale \<open>capture_port\<close> states what the conformance suite
  \<open>panops-core/src/conformance/capture.rs\<close> tests: a session that was started can be stopped once, and
  the tracks that come back are those that were asked for.
\<close>

section \<open>Configurations, sessions, results\<close>

datatype audio_sources = SystemOnly | MicOnly | SystemAndMic

datatype capture_target =
    CtDisplay u32
  | CtWindow u32
  | CtApp string
  | CtRegion u32 u32 u32 u32 u32

definition default_capture_target :: capture_target where
  "default_capture_target = CtDisplay 0"

record capture_config =
  cc_audio_sources :: audio_sources
  cc_record_video :: bool
  cc_screenshot_interval_ms :: u64
  cc_screenshot_threshold :: f32
  cc_capture_target :: capture_target
  cc_width :: "u32 option"
  cc_height :: "u32 option"

definition default_capture_config :: capture_config where
  "default_capture_config = \<lparr>cc_audio_sources = SystemAndMic, cc_record_video = False,
     cc_screenshot_interval_ms = 500, cc_screenshot_threshold = 0x3E19999A,
     cc_capture_target = CtDisplay 0, cc_width = None, cc_height = None\<rparr>"

record capture_session =
  cs_meeting_id :: string
  cs_started_at_ms :: u64
  cs_capture_target :: capture_target
  cs_record_video :: bool
  cs_screenshot_interval_ms :: u64
  cs_screenshot_threshold :: f32

record capture_result =
  cr_system_audio_path :: "string option"
  cr_mic_audio_path :: "string option"
  cr_screenshot_paths :: "string list"
  cr_duration_ms :: u64

datatype capture_error =
    PermissionDenied string
  | CaptureFailed string
  | CaptureIo string
  | CaptureSidecar string
  | SessionNotFound string
  | InvalidConfig string

fun capture_error_text :: "capture_error \<Rightarrow> string" where
  "capture_error_text (PermissionDenied m) = ''permission denied: '' @ m"
| "capture_error_text (CaptureFailed m) = ''capture failed: '' @ m"
| "capture_error_text (CaptureIo m) = ''io error: '' @ m"
| "capture_error_text (CaptureSidecar m) = ''sidecar error: '' @ m"
| "capture_error_text (SessionNotFound m) = ''session not found: '' @ m"
| "capture_error_text (InvalidConfig m) = ''invalid config: '' @ m"

type_synonym 'a capture_outcome = "capture_error + 'a"

definition wants_system :: "audio_sources \<Rightarrow> bool" where
  "wants_system a = (a \<noteq> MicOnly)"

definition wants_mic :: "audio_sources \<Rightarrow> bool" where
  "wants_mic a = (a \<noteq> SystemOnly)"

section \<open>The port\<close>

text \<open>
  \<open>active s m\<close>: the configuration and the directory of the session of meeting \<open>m\<close>. A clock reading is
  an argument of each call.
\<close>

locale capture_port =
  fixes start_capture :: "u64 \<Rightarrow> string \<Rightarrow> string \<Rightarrow> capture_config \<Rightarrow> 's \<Rightarrow> fs
        \<Rightarrow> capture_session capture_outcome \<times> 's \<times> fs"
    and stop_capture :: "u64 \<Rightarrow> capture_session \<Rightarrow> 's \<Rightarrow> fs \<Rightarrow> capture_result capture_outcome \<times> 's \<times> fs"
    and active :: "'s \<Rightarrow> string \<Rightarrow> (audio_sources \<times> string) option"
  assumes starts: "start_capture now m dir cfg s d = (Inr sess, s', d') \<Longrightarrow>
      cs_meeting_id sess = m \<and> cs_capture_target sess = cc_capture_target cfg \<and>
      cs_record_video sess = cc_record_video cfg \<and>
      cs_screenshot_interval_ms sess = cc_screenshot_interval_ms cfg \<and>
      cs_screenshot_threshold sess = cc_screenshot_threshold cfg \<and> d' = d \<and>
      active s' = (active s)(m \<mapsto> (cc_audio_sources cfg, dir))"
    and start_fails: "start_capture now m dir cfg s d = (Inl e, s', d') \<Longrightarrow> s' = s \<and> d' = d"
    and stops: "stop_capture now sess s d = (Inr r, s', d') \<Longrightarrow>
      active s' = (active s)(cs_meeting_id sess := None) \<and>
      (\<exists>a dir. active s (cs_meeting_id sess) = Some (a, dir) \<and>
        (cr_system_audio_path r \<noteq> None \<longleftrightarrow> wants_system a) \<and>
        (cr_mic_audio_path r \<noteq> None \<longleftrightarrow> wants_mic a) \<and> 0 < cr_duration_ms r \<and>
        (\<forall>p \<in> set_option (cr_system_audio_path r) \<union> set_option (cr_mic_audio_path r) \<union>
            set (cr_screenshot_paths r). under_dir dir p \<and> is_file d' p))"
    and stop_fails: "stop_capture now sess s d = (Inl e, s', d') \<Longrightarrow>
      active s' = active s \<or> active s' = (active s)(cs_meeting_id sess := None)"
    and stop_unknown: "active s (cs_meeting_id sess) = None \<Longrightarrow>
      (\<exists>e. stop_capture now sess s d = (Inl e, s, d))"
begin

lemma stop_twice_fails:
  assumes "stop_capture now sess s d = (Inr r, s', d')"
  shows "\<exists>e. stop_capture now' sess s' d' = (Inl e, s', d')"
  using stops [OF assms] by (intro stop_unknown) simp

text \<open>What a recording brings back: a track for each source, at least one of them.\<close>

lemma recording_tracks:
  assumes "start_capture now m dir cfg s d = (Inr sess, s1, d1)"
    and "stop_capture now' sess s1 d1 = (Inr r, s2, d2)"
  shows "(cr_system_audio_path r \<noteq> None \<longleftrightarrow> wants_system (cc_audio_sources cfg)) \<and>
    (cr_mic_audio_path r \<noteq> None \<longleftrightarrow> wants_mic (cc_audio_sources cfg)) \<and>
    (cr_system_audio_path r \<noteq> None \<or> cr_mic_audio_path r \<noteq> None) \<and> active s2 = (active s)(m := None) \<and>
    (\<forall>p. cr_system_audio_path r = Some p \<or> cr_mic_audio_path r = Some p \<longrightarrow> under_dir dir p \<and> is_file d2 p)"
proof -
  have m: "cs_meeting_id sess = m" "active s1 = (active s)(m \<mapsto> (cc_audio_sources cfg, dir))"
    using starts [OF assms(1)] by simp_all
  have some: "wants_system a \<or> wants_mic a" for a
    by (cases a) (simp_all add: wants_system_def wants_mic_def)
  from stops [OF assms(2)] some [of "cc_audio_sources cfg"] show ?thesis
    by (auto simp: m)
qed

end

section \<open>The fake\<close>

record fake_session =
  fk_meeting_dir :: string
  fk_started_at_ms :: u64
  fk_audio_sources :: audio_sources
  fk_record_video :: bool
  fk_capture_target :: capture_target

type_synonym fake_capture = "string \<rightharpoonup> fake_session"

definition fake_start_capture ::
  "u64 \<Rightarrow> string \<Rightarrow> string \<Rightarrow> capture_config \<Rightarrow> fake_capture \<Rightarrow> fs
   \<Rightarrow> capture_session capture_outcome \<times> fake_capture \<times> fs" where
  "fake_start_capture now meeting_id meeting_dir config s d =
     (Inr \<lparr>cs_meeting_id = meeting_id, cs_started_at_ms = now,
           cs_capture_target = cc_capture_target config, cs_record_video = cc_record_video config,
           cs_screenshot_interval_ms = cc_screenshot_interval_ms config,
           cs_screenshot_threshold = cc_screenshot_threshold config\<rparr>,
      s(meeting_id \<mapsto> \<lparr>fk_meeting_dir = meeting_dir, fk_started_at_ms = now,
           fk_audio_sources = cc_audio_sources config, fk_record_video = cc_record_video config,
           fk_capture_target = cc_capture_target config\<rparr>),
      d)"

text \<open>
  The bytes of a sine WAV and of a file that cannot be created come from libraries: \<open>wav\<close> gives the
  file for a duration. A write error leaves what was written before.
\<close>

definition capture_write :: "string \<Rightarrow> string \<Rightarrow> fs \<Rightarrow> capture_error + fs" where
  "capture_write p content d = (case fs_write p content d of Inl _ \<Rightarrow> Inl (CaptureIo p) | Inr d \<Rightarrow> Inr d)"

definition write_sine_wav :: "(u64 \<Rightarrow> string) \<Rightarrow> string \<Rightarrow> u64 \<Rightarrow> fs \<Rightarrow> capture_error + fs" where
  "write_sine_wav wav p duration_ms d =
     (case fs_write p (wav duration_ms) d of Inl _ \<Rightarrow> Inl (CaptureFailed p) | Inr d \<Rightarrow> Inr d)"

definition fake_jpeg :: string where
  "fake_jpeg = map char_of [0xFF, 0xD8, 0xFF, 0xE0, 0x00, 0x10, 0x4A, 0x46, 0x49, 0x46, 0x00, 0x01, 0x01,
     0x00, 0x00, 0x01, 0x00, 0x01, 0x00, 0x00, 0xFF, 0xD9 :: nat]"

definition fake_mov :: string where
  "fake_mov = map char_of [0, 0, 0, 0x14 :: nat] @ ''ftypqt  '' @ map char_of [0, 0, 0, 0 :: nat] @ ''qt  '' @
     map char_of [0, 0, 0, 8 :: nat] @ ''mdat''"

fun write_screenshots :: "string \<Rightarrow> nat list \<Rightarrow> fs \<Rightarrow> (capture_error + string list) \<times> fs" where
  "write_screenshots dir [] d = (Inr [], d)"
| "write_screenshots dir (i # js) d =
     (let p = path_join dir (pad_zeros 3 (dec i) @ ''.jpg'')
      in case capture_write p fake_jpeg d of
           Inl e \<Rightarrow> (Inl e, d)
         | Inr d \<Rightarrow> (case write_screenshots dir js d of
                       (Inl e, d) \<Rightarrow> (Inl e, d)
                     | (Inr ps, d) \<Rightarrow> (Inr (p # ps), d)))"

definition track ::
  "(u64 \<Rightarrow> string) \<Rightarrow> bool \<Rightarrow> string \<Rightarrow> u64 \<Rightarrow> fs \<Rightarrow> (capture_error + string option) \<times> fs" where
  "track wav want p duration_ms d =
     (if want then (case write_sine_wav wav p duration_ms d of
                      Inl e \<Rightarrow> (Inl e, d) | Inr d \<Rightarrow> (Inr (Some p), d))
      else (Inr None, d))"

definition fake_stop_capture ::
  "(u64 \<Rightarrow> string) \<Rightarrow> (capture_target \<Rightarrow> string) \<Rightarrow> u64 \<Rightarrow> capture_session \<Rightarrow> fake_capture \<Rightarrow> fs
   \<Rightarrow> capture_result capture_outcome \<times> fake_capture \<times> fs" where
  "fake_stop_capture wav target_debug now session s d =
     (case s (cs_meeting_id session) of
        None \<Rightarrow> (Inl (SessionNotFound (cs_meeting_id session)), s, d)
      | Some fk \<Rightarrow>
          (let s = s(cs_meeting_id session := None)
           in if cs_capture_target session \<noteq> fk_capture_target fk
              then (Inl (InvalidConfig (''session capture target '' @ target_debug (cs_capture_target session) @
                      '' did not match started target '' @ target_debug (fk_capture_target fk))), s, d)
              else
                (let duration_ms = max (now - fk_started_at_ms fk) 1000;
                     want_system = (fk_audio_sources fk \<noteq> MicOnly);
                     want_mic = (fk_audio_sources fk \<noteq> SystemOnly)
                 in case track wav want_system (path_join (fk_meeting_dir fk) ''system.wav'') duration_ms d of
                      (Inl e, d) \<Rightarrow> (Inl e, s, d)
                    | (Inr system, d) \<Rightarrow>
                        (case track wav want_mic (path_join (fk_meeting_dir fk) ''mic.wav'') duration_ms d of
                           (Inl e, d) \<Rightarrow> (Inl e, s, d)
                         | (Inr mic, d) \<Rightarrow>
                             (let dir = path_join (fk_meeting_dir fk) ''screenshots''
                              in case create_dir_all dir d of
                                   Inl _ \<Rightarrow> (Inl (CaptureIo dir), s, d)
                                 | Inr d \<Rightarrow>
                                     (case write_screenshots dir (if fk_record_video fk then [] else [1, 2, 3]) d of
                                        (Inl e, d) \<Rightarrow> (Inl e, s, d)
                                      | (Inr shots, d) \<Rightarrow>
                                          (let result = \<lparr>cr_system_audio_path = system, cr_mic_audio_path = mic,
                                                 cr_screenshot_paths = shots, cr_duration_ms = duration_ms\<rparr>;
                                               mov = path_join (fk_meeting_dir fk) ''recording.mov''
                                           in if fk_record_video fk
                                              then (case capture_write mov fake_mov d of
                                                      Inl e \<Rightarrow> (Inl e, s, d) | Inr d \<Rightarrow> (Inr result, s, d))
                                              else (Inr result, s, d))))))))"

text \<open>Writes keep the files that are there.\<close>

lemma capture_write_files:
  assumes "capture_write p c d = Inr d'"
  shows "is_file d' q \<longleftrightarrow> q = p \<or> is_file d q"
proof -
  have "d' = d(p \<mapsto> FsFile c)"
    using assms by (auto simp: capture_write_def dest!: fs_write_cases split: sum.splits)
  then show ?thesis by simp
qed

lemma track_files:
  assumes "track wav want p ms d = (Inr t, d')"
  shows "t = (if want then Some p else None)" and "is_file d q \<Longrightarrow> is_file d' q"
    and "t = Some q \<Longrightarrow> is_file d' q"
  using assms
  by (auto simp: track_def write_sine_wav_def dest!: fs_write_cases split: if_splits sum.splits)

lemma create_dir_all_files: "create_dir_all p d = Inr d' \<Longrightarrow> is_file d q \<Longrightarrow> is_file d' q"
  by (cases "q = p") (auto simp: create_dir_all_def is_file_def split: option.splits fs_node.splits)

lemma write_screenshots_files:
  assumes "write_screenshots dir js d = (Inr ps, d')"
  shows "is_file d q \<Longrightarrow> is_file d' q" and "q \<in> set ps \<Longrightarrow> under_dir dir q \<and> is_file d' q"
proof -
  have "(is_file d q \<longrightarrow> is_file d' q) \<and> (\<forall>q \<in> set ps. under_dir dir q \<and> is_file d' q)"
    using assms
  proof (induction js arbitrary: d ps)
    case (Cons i js)
    let ?p = "path_join dir (pad_zeros 3 (dec i) @ ''.jpg'')"
    obtain d1 ps1 where w: "capture_write ?p fake_jpeg d = Inr d1" "write_screenshots dir js d1 = (Inr ps1, d')"
      "ps = ?p # ps1"
      using Cons.prems by (auto simp: Let_def split: sum.splits prod.splits)
    have "under_dir dir ?p"
      by (rule under_dir_join) simp
    moreover have "is_file d1 ?p" "is_file d q \<Longrightarrow> is_file d1 q"
      using capture_write_files [OF w(1)] by simp_all
    moreover have "is_file d' ?p"
    proof -
      have "is_file d2 ?p" if "write_screenshots dir js d1 = (Inr ps1, d2)" "is_file d1 ?p" for d2
        using that
      proof (induction js arbitrary: d1 ps1)
        case (Cons k js)
        then show ?case
          using capture_write_files by (fastforce simp: Let_def split: sum.splits prod.splits)
      qed simp
      then show ?thesis
        using w(2) calculation(2) by blast
    qed
    ultimately show ?case
      using Cons.IH [OF w(2)] w(3) by auto
  qed simp
  then show "is_file d q \<Longrightarrow> is_file d' q" and "q \<in> set ps \<Longrightarrow> under_dir dir q \<and> is_file d' q"
    by blast+
qed

lemma under_under: "under_dir (path_join dir q) p \<Longrightarrow> under_dir dir p"
  using path_join_prefix [of dir q] prefix_length_le [of "path_join dir q" p]
  by (auto simp: under_dir_def prefix_def path_join_def split: if_splits)

text \<open>A successful stop of the fake, step by step.\<close>

lemma fake_stop_success:
  assumes "fake_stop_capture wav dbg now sess s d = (Inr r, s', d')"
  obtains fk d1 d2 d3 d4 where "s (cs_meeting_id sess) = Some fk" and "s' = s(cs_meeting_id sess := None)"
    and "cr_duration_ms r = max (now - fk_started_at_ms fk) 1000"
    and "track wav (fk_audio_sources fk \<noteq> MicOnly) (path_join (fk_meeting_dir fk) ''system.wav'')
      (cr_duration_ms r) d = (Inr (cr_system_audio_path r), d1)"
    and "track wav (fk_audio_sources fk \<noteq> SystemOnly) (path_join (fk_meeting_dir fk) ''mic.wav'')
      (cr_duration_ms r) d1 = (Inr (cr_mic_audio_path r), d2)"
    and "create_dir_all (path_join (fk_meeting_dir fk) ''screenshots'') d2 = Inr d3"
    and "write_screenshots (path_join (fk_meeting_dir fk) ''screenshots'')
      (if fk_record_video fk then [] else [1, 2, 3]) d3 = (Inr (cr_screenshot_paths r), d4)"
    and "\<And>q. is_file d4 q \<Longrightarrow> is_file d' q"
proof -
  obtain fk where fk: "s (cs_meeting_id sess) = Some fk"
    using assms by (auto simp: fake_stop_capture_def split: option.splits)
  let ?dir = "path_join (fk_meeting_dir fk) ''screenshots''"
  have target: "cs_capture_target sess = fk_capture_target fk"
    using assms fk by (auto simp: fake_stop_capture_def Let_def split: if_splits)
  let ?ms = "max (now - fk_started_at_ms fk) 1000"
  obtain sys d1 where sys: "track wav (fk_audio_sources fk \<noteq> MicOnly) (path_join (fk_meeting_dir fk) ''system.wav'') ?ms d =
      (Inr sys, d1)"
    using assms fk target by (auto simp: fake_stop_capture_def Let_def split: sum.splits prod.splits)
  obtain mic d2 where mic: "track wav (fk_audio_sources fk \<noteq> SystemOnly) (path_join (fk_meeting_dir fk) ''mic.wav'') ?ms d1 =
      (Inr mic, d2)"
    using assms fk target sys by (auto simp: fake_stop_capture_def Let_def split: sum.splits prod.splits)
  obtain d3 where dir: "create_dir_all ?dir d2 = Inr d3"
    using assms fk target sys mic by (auto simp: fake_stop_capture_def Let_def split: sum.splits)
  define js where "js = (if fk_record_video fk then [] else [1, 2, 3 :: nat])"
  obtain shots d4 where shots: "write_screenshots ?dir js d3 = (Inr shots, d4)"
    using assms fk target sys mic dir
    by (auto simp: fake_stop_capture_def Let_def js_def [symmetric] split: sum.splits prod.splits)
  have rest: "s' = s(cs_meeting_id sess := None)"
    "r = \<lparr>cr_system_audio_path = sys, cr_mic_audio_path = mic, cr_screenshot_paths = shots, cr_duration_ms = ?ms\<rparr>"
    "is_file d4 q \<Longrightarrow> is_file d' q" for q
    using assms fk target sys mic dir shots
    by (auto simp: fake_stop_capture_def Let_def js_def [symmetric] capture_write_files split: sum.splits if_splits)
  show ?thesis
    using fk rest sys mic dir shots by (intro that [of fk d1 d2 d3 d4]) (simp_all add: js_def)
qed

text \<open>A stop that fails may have forgotten the session, and no other.\<close>

lemma fake_stop_failure:
  "fake_stop_capture wav dbg now sess s d = (Inl e, s', d') \<Longrightarrow> s' = s \<or> s' = s(cs_meeting_id sess := None)"
  by (auto simp: fake_stop_capture_def Let_def split: option.splits if_splits sum.splits prod.splits)

text \<open>Any WAV encoder and any debug format will do.\<close>

interpretation fake_capture: capture_port fake_start_capture "fake_stop_capture wav dbg"
  "\<lambda>s m. map_option (\<lambda>fk. (fk_audio_sources fk, fk_meeting_dir fk)) (s m)" for wav dbg
proof
  fix now sess and s :: fake_capture and d :: fs and r s' d'
  assume run: "fake_stop_capture wav dbg now sess s d = (Inr r, s', d')"
  let ?active = "\<lambda>s m. map_option (\<lambda>fk. (fk_audio_sources fk, fk_meeting_dir fk)) (s m)"
  show "?active s' = (?active s)(cs_meeting_id sess := None) \<and>
      (\<exists>a dir. ?active s (cs_meeting_id sess) = Some (a, dir) \<and>
        (cr_system_audio_path r \<noteq> None \<longleftrightarrow> wants_system a) \<and>
        (cr_mic_audio_path r \<noteq> None \<longleftrightarrow> wants_mic a) \<and> 0 < cr_duration_ms r \<and>
        (\<forall>p \<in> set_option (cr_system_audio_path r) \<union> set_option (cr_mic_audio_path r) \<union>
            set (cr_screenshot_paths r). under_dir dir p \<and> is_file d' p))"
    using run
  proof (rule fake_stop_success)
    fix fk d1 d2 d3 d4
    assume fk: "s (cs_meeting_id sess) = Some fk" and s': "s' = s(cs_meeting_id sess := None)"
      and ms: "cr_duration_ms r = max (now - fk_started_at_ms fk) 1000"
      and sys: "track wav (fk_audio_sources fk \<noteq> MicOnly) (path_join (fk_meeting_dir fk) ''system.wav'')
        (cr_duration_ms r) d = (Inr (cr_system_audio_path r), d1)"
      and mic: "track wav (fk_audio_sources fk \<noteq> SystemOnly) (path_join (fk_meeting_dir fk) ''mic.wav'')
        (cr_duration_ms r) d1 = (Inr (cr_mic_audio_path r), d2)"
      and dir: "create_dir_all (path_join (fk_meeting_dir fk) ''screenshots'') d2 = Inr d3"
      and shots: "write_screenshots (path_join (fk_meeting_dir fk) ''screenshots'')
        (if fk_record_video fk then [] else [1, 2, 3]) d3 = (Inr (cr_screenshot_paths r), d4)"
      and last: "\<And>q. is_file d4 q \<Longrightarrow> is_file d' q"
    have keep: "is_file d2 q \<Longrightarrow> is_file d' q" for q
      using last write_screenshots_files(1) [OF shots] create_dir_all_files [OF dir] by blast
    have "is_file d' p \<and> under_dir (fk_meeting_dir fk) p" if "cr_system_audio_path r = Some p" for p
      using that track_files [OF sys] track_files(2) [OF mic] keep
      by (auto simp: under_dir_join split: if_splits)
    moreover have "is_file d' p \<and> under_dir (fk_meeting_dir fk) p" if "cr_mic_audio_path r = Some p" for p
      using that track_files [OF mic] keep by (auto simp: under_dir_join split: if_splits)
    moreover have "is_file d' p \<and> under_dir (fk_meeting_dir fk) p" if "p \<in> set (cr_screenshot_paths r)" for p
      using write_screenshots_files(2) [OF shots that] last under_under by blast
    ultimately show ?thesis
      using fk track_files(1) [OF sys] track_files(1) [OF mic] ms
      by (auto simp: s' wants_system_def wants_mic_def)
  qed
next
  fix now and sess :: capture_session and s :: fake_capture and d :: fs
  assume "map_option (\<lambda>fk. (fk_audio_sources fk, fk_meeting_dir fk)) (s (cs_meeting_id sess)) = None"
  then show "\<exists>e. fake_stop_capture wav dbg now sess s d = (Inl e, s, d)"
    by (simp add: fake_stop_capture_def)
next
  fix now sess and s :: fake_capture and d :: fs and e s' d'
  assume "fake_stop_capture wav dbg now sess s d = (Inl e, s', d')"
  then have "s' = s \<or> s' = s(cs_meeting_id sess := None)"
    by (rule fake_stop_failure)
  then show "(\<lambda>m. map_option (\<lambda>fk. (fk_audio_sources fk, fk_meeting_dir fk)) (s' m)) =
        (\<lambda>m. map_option (\<lambda>fk. (fk_audio_sources fk, fk_meeting_dir fk)) (s m)) \<or>
      (\<lambda>m. map_option (\<lambda>fk. (fk_audio_sources fk, fk_meeting_dir fk)) (s' m)) =
        (\<lambda>m. map_option (\<lambda>fk. (fk_audio_sources fk, fk_meeting_dir fk)) (s m))(cs_meeting_id sess := None)"
    by (auto simp: fun_eq_iff)
qed (auto simp: fake_start_capture_def)

section \<open>The placeholder\<close>

definition no_capture_message :: string where
  "no_capture_message = ''live capture not available '' @ em_dash @ '' PANOPS_CAPTURE_SIDECAR_BIN not set''"

definition no_start_capture ::
  "u64 \<Rightarrow> string \<Rightarrow> string \<Rightarrow> capture_config \<Rightarrow> 's \<Rightarrow> fs \<Rightarrow> capture_session capture_outcome \<times> 's \<times> fs" where
  "no_start_capture now meeting_id meeting_dir config s d = (Inl (CaptureFailed no_capture_message), s, d)"

definition no_stop_capture ::
  "u64 \<Rightarrow> capture_session \<Rightarrow> 's \<Rightarrow> fs \<Rightarrow> capture_result capture_outcome \<times> 's \<times> fs" where
  "no_stop_capture now session s d = (Inl (CaptureFailed no_capture_message), s, d)"

interpretation no_capture: capture_port no_start_capture no_stop_capture "\<lambda>_ _. None"
  by unfold_locales (simp_all add: no_start_capture_def no_stop_capture_def)

end
