(* ===== verification/Protocol.thy ===== *)
theory Protocol
  imports Domain Llm_Port Storage_Types Meeting_Store_Port Capture_Port
begin

text \<open>
  The wire protocol, \<open>panops-protocol\<close>: the error type with the conversions of \<open>error.rs\<close> from the
  domain errors, and the parameters, results and events of \<open>methods.rs\<close>. The wire structs \<open>Meeting\<close>,
  \<open>MeetingSummary\<close>, \<open>Space\<close>, \<open>Project\<close>, \<open>Tag\<close>, the listing parameters, the capture target and the
  audio sources have the fields of their domain structs, and their conversions copy them; both sides
  are one record here. Serialization is left to serde and is not modelled.
\<close>

section \<open>Errors\<close>

datatype ipc_error =
    IpcInputNotFound string
  | IpcInvalidInput string
  | IpcProviderUnavailable string
  | IpcInternal string
  | IpcCancelled
  | IpcUnknown

fun ipc_error_text :: "ipc_error \<Rightarrow> string" where
  "ipc_error_text (IpcInputNotFound p) = ''input not found: '' @ p"
| "ipc_error_text (IpcInvalidInput m) = ''invalid input: '' @ m"
| "ipc_error_text (IpcProviderUnavailable m) = ''provider unavailable: '' @ m"
| "ipc_error_text (IpcInternal m) = ''internal: '' @ m"
| "ipc_error_text IpcCancelled = ''cancelled''"
| "ipc_error_text IpcUnknown = ''unknown error kind (forward-compat fallback)''"

fun ipc_of_asr :: "asr_error \<Rightarrow> ipc_error" where
  "ipc_of_asr (AsrAudioNotFound p) = IpcInputNotFound p"
| "ipc_of_asr (AsrInvalidAudio m) = IpcInvalidInput m"
| "ipc_of_asr (AsrModel m) = IpcInternal m"
| "ipc_of_asr (AsrTranscription m) = IpcInternal m"
| "ipc_of_asr (AsrIo m) = IpcInternal m"

fun ipc_of_diar :: "diar_error \<Rightarrow> ipc_error" where
  "ipc_of_diar (DiarAudioNotFound p) = IpcInputNotFound p"
| "ipc_of_diar (DiarInvalidAudio m) = IpcInvalidInput m"
| "ipc_of_diar (DiarModel m) = IpcInternal m"
| "ipc_of_diar (DiarDiarization m) = IpcInternal m"
| "ipc_of_diar (DiarIo m) = IpcInternal m"

fun ipc_of_llm :: "llm_error \<Rightarrow> ipc_error" where
  "ipc_of_llm (LlmNetwork m) = IpcProviderUnavailable m"
| "ipc_of_llm (LlmProviderError m) = IpcProviderUnavailable m"
| "ipc_of_llm (LlmInvalidSchema expected got) =
     IpcInternal (''schema mismatch: expected '' @ expected @ '', got '' @ got)"
| "ipc_of_llm LlmEmptyResponse = IpcProviderUnavailable ''empty LLM response''"
| "ipc_of_llm LlmCancelled = IpcCancelled"

fun ipc_of_notes :: "notes_error \<Rightarrow> ipc_error" where
  "ipc_of_notes EmptyTranscript = IpcInvalidInput ''empty transcript''"
| "ipc_of_notes (NotesLlm e) = ipc_of_llm e"
| "ipc_of_notes (LlmUnavailable failed total_calls last_error) =
     IpcProviderUnavailable (''notes LLM unavailable: all '' @ dec failed @ '' of '' @ dec total_calls @
       '' section generation calls failed ('' @ last_error @ '')'')"
| "ipc_of_notes (SchemaMismatch stage detail) =
     IpcInternal (''schema mismatch in stage '' @ stage @ '': '' @ detail)"
| "ipc_of_notes (InvalidInput m) = IpcInvalidInput m"

fun ipc_of_export :: "export_error \<Rightarrow> ipc_error" where
  "ipc_of_export (ExportInvalidDest _) = IpcInvalidInput ''invalid export destination''"
| "ipc_of_export (ExportIo _) = IpcInternal ''export failed''"
| "ipc_of_export (ExportRender _) = IpcInternal ''export failed''"

fun ipc_of_storage :: "storage_error \<Rightarrow> ipc_error" where
  "ipc_of_storage (StNotFound i kind) = IpcInputNotFound (kind @ ''/'' @ i)"
| "ipc_of_storage (StAlreadyExists i kind) = IpcInvalidInput (kind @ '' already exists'')"
| "ipc_of_storage (StUniqueConflict kind field v) =
     IpcInvalidInput (kind @ ''.'' @ field @ '' already in use'')"
| "ipc_of_storage (StSchemaMismatch actual expected) = IpcInternal ''storage schema mismatch''"
| "ipc_of_storage (StIo m) = IpcInternal ''storage io error''"
| "ipc_of_storage (StSql m) = IpcInternal ''storage error''"

fun ipc_of_vad :: "vad_error \<Rightarrow> ipc_error" where
  "ipc_of_vad (VadInvalidAudio m) = IpcInvalidInput m"
| "ipc_of_vad (VadModel _) = IpcInternal ''vad model error''"
| "ipc_of_vad (VadIo _) = IpcInternal ''vad io error''"

fun ipc_of_capture :: "capture_error \<Rightarrow> ipc_error" where
  "ipc_of_capture (PermissionDenied m) = IpcInvalidInput (''permission denied: '' @ m)"
| "ipc_of_capture (CaptureFailed m) = IpcInternal m"
| "ipc_of_capture (CaptureIo _) = IpcInternal ''capture io error''"
| "ipc_of_capture (CaptureSidecar m) = IpcInternal m"
| "ipc_of_capture (SessionNotFound i) = IpcInputNotFound (''session/'' @ i)"
| "ipc_of_capture (InvalidConfig m) = IpcInvalidInput m"

fun ipc_of_meeting_store :: "meeting_store_error \<Rightarrow> ipc_error" where
  "ipc_of_meeting_store (MsMeetingNotFound i) = IpcInputNotFound (''meeting/'' @ i)"
| "ipc_of_meeting_store (MsSegmentNotFound i) = IpcInputNotFound (''segment/'' @ dec_i64 i)"
| "ipc_of_meeting_store (MsScreenshotNotFound i) = IpcInputNotFound (''screenshot/'' @ dec_i64 i)"
| "ipc_of_meeting_store (MsSpeakerNotFound i) = IpcInputNotFound (''speaker/'' @ dec_i64 i)"
| "ipc_of_meeting_store (MsIo _) = IpcInternal ''meeting store io error''"
| "ipc_of_meeting_store (MsSql _) = IpcInternal ''meeting store error''"

section \<open>Parameters, results, events\<close>

record llm_info =
  li_provider :: string
  li_model :: string
  li_local :: bool

definition local_ollama :: llm_info where
  "local_ollama = \<lparr>li_provider = ''ollama'', li_model = ''gemma3:4b'', li_local = True\<rparr>"

definition apple_foundation :: llm_info where
  "apple_foundation = \<lparr>li_provider = ''apple-foundation'', li_model = ''on-device'', li_local = True\<rparr>"

record notes_generate_params =
  ng_audio :: string
  ng_dialect :: "markdown_dialect option"
  ng_llm_provider :: "string option"
  ng_llm_model :: "string option"
  ng_no_diarize :: "bool option"
  ng_language :: "string option"
  ng_meeting_id :: "string option"

record notes_generate_result =
  nr_primary_file :: string
  nr_assets :: "string list"
  nr_meeting_id :: string
  nr_transcript_txt_path :: "string option"

record job_progress =
  jp_stage :: string
  jp_current :: "u32 option"
  jp_total :: "u32 option"
  jp_message :: "string option"

datatype ipc_event =
    JobDone string notes_generate_result
  | JobError string ipc_error
  | JobProgress string job_progress
  | UnknownEvent json

record meeting_config =
  mc_title :: "string option"
  mc_language :: "string option"

record recording_start_params =
  rs_meeting_id :: string
  rs_audio_sources :: audio_sources
  rs_record_video :: bool
  rs_auto_generate_notes :: bool
  rs_screenshot_interval_ms :: u64
  rs_screenshot_threshold :: f32
  rs_capture_target :: capture_target
  rs_width :: "u32 option"
  rs_height :: "u32 option"

definition capture_config_of :: "recording_start_params \<Rightarrow> capture_config" where
  "capture_config_of p = \<lparr>cc_audio_sources = rs_audio_sources p, cc_record_video = rs_record_video p,
     cc_screenshot_interval_ms = rs_screenshot_interval_ms p,
     cc_screenshot_threshold = rs_screenshot_threshold p, cc_capture_target = rs_capture_target p,
     cc_width = rs_width p, cc_height = rs_height p\<rparr>"

record recording_stopped =
  rd_system_audio_path :: "string option"
  rd_mic_audio_path :: "string option"
  rd_screenshot_paths :: "string list"
  rd_duration_ms :: u64
  rd_notes_job_id :: "string option"

record delete_video_result =
  dv_deleted :: bool
  dv_freed_bytes :: u64

end
