(* ===== verification/Engine_Paths.thy ===== *)
theory Engine_Paths
  imports Export_Port Protocol
begin

text \<open>
  The path checks of \<open>panops-engine/src/server/handlers.rs\<close>: \<open>reject_path_like_meeting_id\<close> and
  \<open>validate_meeting_dir\<close>, over the components of \<open>std::path\<close> on Unix. Canonicalization is a parameter.
\<close>

section \<open>Components\<close>

datatype path_component = RootDir | CurDir | ParentDir | NormalName string

definition piece :: "string \<Rightarrow> path_component" where
  "piece s = (if s = ''..'' then ParentDir else NormalName s)"

text \<open>Empty pieces and dots are skipped, but a relative path may begin with a dot.\<close>

definition components :: "string \<Rightarrow> path_component list" where
  "components p =
     (let pieces = split_on (CHR ''/'') p
      in (if prefix ''/'' p then [RootDir] else if hd pieces = ''.'' then [CurDir] else []) @
         map piece (filter (\<lambda>s. s \<noteq> [] \<and> s \<noteq> ''.'') pieces))"

definition path_starts_with :: "string \<Rightarrow> string \<Rightarrow> bool" where
  "path_starts_with p base = prefix (components base) (components p)"

section \<open>The checks\<close>

definition reject_path_like_meeting_id :: "string \<Rightarrow> ipc_error + unit" where
  "reject_path_like_meeting_id i =
     (case components i of
        [NormalName _] \<Rightarrow>
          if CHR ''/'' \<notin> set i \<and> CHR 0x5C \<notin> set i then Inr ()
          else Inl (IpcInvalidInput ''meeting_id must be a single path-safe component'')
      | _ \<Rightarrow> Inl (IpcInvalidInput ''meeting_id must be a single path-safe component''))"

definition meetings_root :: "string \<Rightarrow> string" where
  "meetings_root data_dir = path_join data_dir ''meetings''"

type_synonym canonicalizer = "fs \<Rightarrow> string \<Rightarrow> string option"

definition validate_meeting_dir :: "canonicalizer \<Rightarrow> string \<Rightarrow> string \<Rightarrow> fs \<Rightarrow> ipc_error + string" where
  "validate_meeting_dir canonicalize data_dir dir_path d =
     (let allowed_root = meetings_root data_dir
      in if \<not> path_starts_with dir_path allowed_root
         then Inl (IpcInternal ''registry path invalid'')
         else if d dir_path \<noteq> None then
           (case canonicalize d dir_path of
              None \<Rightarrow> Inl (IpcInternal ''registry path invalid'')
            | Some canonical_dir \<Rightarrow>
                (let canonical_root = (case canonicalize d allowed_root of None \<Rightarrow> allowed_root | Some r \<Rightarrow> r)
                 in if \<not> path_starts_with canonical_dir canonical_root
                    then Inl (IpcInternal ''registry path invalid'')
                    else Inr dir_path))
         else Inr dir_path)"

lemma validate_returns: "validate_meeting_dir canon data_dir p d = Inr q \<Longrightarrow>
    q = p \<and> path_starts_with p (meetings_root data_dir)"
  by (auto simp: validate_meeting_dir_def Let_def split: if_splits option.splits)

section \<open>Splitting and joining\<close>

lemma split_on_nonempty: "split_on sep s \<noteq> []"
  by (induction sep s rule: split_on.induct) (auto split: list.splits)

lemma split_on_none: "sep \<notin> set s \<Longrightarrow> split_on sep s = [s]"
  by (induction sep s rule: split_on.induct) auto

lemma split_on_append: "split_on sep (s @ sep # t) = split_on sep s @ split_on sep t"
proof (induction sep s rule: split_on.induct)
  case (2 sep c cs)
  then show ?case
    using split_on_nonempty [of sep cs] by (auto split: list.splits)
qed simp

definition names_of :: "string \<Rightarrow> path_component list" where
  "names_of p = map piece (filter (\<lambda>s. s \<noteq> [] \<and> s \<noteq> ''.'') (split_on (CHR ''/'') p))"

lemma names_of_append: "names_of (p @ CHR ''/'' # q) = names_of p @ names_of q"
  by (simp add: names_of_def split_on_append)

lemma names_of_trailing: "names_of (p @ ''/'') = names_of p"
  using names_of_append [of p "[]"] by (simp add: names_of_def)

lemma names_of_join: "d \<noteq> [] \<Longrightarrow> names_of (path_join d q) = names_of d @ names_of q"
proof (cases "last d = CHR ''/''")
  case True
  assume "d \<noteq> []"
  with True obtain e where d: "d = e @ ''/''"
    by (metis append_butlast_last_id)
  have "names_of (path_join d q) = names_of e @ names_of q"
    using names_of_append [of e q] by (simp add: path_join_def d)
  then show ?thesis
    by (simp add: d names_of_trailing)
next
  case False
  assume "d \<noteq> []"
  with False show ?thesis
    using names_of_append [of d q] by (simp add: path_join_def)
qed

text \<open>Absolute paths, as the data directory is.\<close>

lemma components_absolute: "prefix ''/'' p \<Longrightarrow> components p = RootDir # names_of p"
  by (simp add: components_def names_of_def Let_def)

lemma absolute_join: "prefix ''/'' d \<Longrightarrow> prefix ''/'' (path_join d q)"
  by (auto simp: prefix_def path_join_def)

lemma components_join:
  "prefix ''/'' d \<Longrightarrow> components (path_join d q) = components d @ names_of q"
  using components_absolute absolute_join names_of_join by (auto simp: prefix_def)

section \<open>What a path means\<close>

text \<open>The directory a path leads to when there are no symbolic links, as a list of names.\<close>

fun walk :: "path_component list \<Rightarrow> string list \<Rightarrow> string list" where
  "walk [] at = at"
| "walk (RootDir # cs) at = walk cs []"
| "walk (CurDir # cs) at = walk cs at"
| "walk (ParentDir # cs) at = walk cs (butlast at)"
| "walk (NormalName n # cs) at = walk cs (at @ [n])"

definition leads_to :: "string \<Rightarrow> string list" where
  "leads_to p = walk (components p) []"

lemma walk_append: "walk (cs @ ds) at = walk ds (walk cs at)"
  by (induction cs at rule: walk.induct) auto

lemma walk_no_parent:
  "ParentDir \<notin> set cs \<Longrightarrow> RootDir \<notin> set cs \<Longrightarrow> prefix at (walk cs at)"
  by (induction cs at rule: walk.induct) (auto simp: prefix_def)

lemma names_no_root: "RootDir \<notin> set (names_of p)"
  by (auto simp: names_of_def piece_def)

lemma components_no_root: "RootDir \<notin> set (tl (components p))"
proof -
  have "components p = (if prefix ''/'' p then [RootDir]
      else if hd (split_on (CHR ''/'') p) = ''.'' then [CurDir] else []) @ names_of p"
    by (simp add: components_def names_of_def Let_def)
  then show ?thesis
    using names_no_root [of p] by (cases "names_of p") (auto split: if_splits)
qed

lemma starts_with_leads:
  assumes "prefix ''/'' root" and "path_starts_with p root" and "ParentDir \<notin> set (components p)"
  shows "prefix (leads_to root) (leads_to p)"
proof -
  obtain rest where rest: "components p = components root @ rest"
    using assms(2) by (auto simp: path_starts_with_def prefix_def)
  have "tl (components p) = names_of root @ rest"
    using components_absolute [OF assms(1)] rest by simp
  then have "RootDir \<notin> set rest"
    using components_no_root [of p] by simp
  moreover have "ParentDir \<notin> set rest"
    using assms(3) rest by simp
  ultimately show ?thesis
    using walk_no_parent unfolding leads_to_def rest walk_append by blast
qed

section \<open>Properties\<close>

text \<open>A directory that passes the check and has no parent components is in the directory of the meetings.\<close>

lemma validated_inside:
  assumes "prefix ''/'' data_dir" and "validate_meeting_dir canon data_dir p d = Inr q"
    and "ParentDir \<notin> set (components p)"
  shows "q = p \<and> prefix (leads_to (meetings_root data_dir)) (leads_to p)"
  using assms validate_returns [OF assms(2)] starts_with_leads absolute_join
  by (auto simp: meetings_root_def)

text \<open>C20: The check of registry paths does not keep them under the data directory: a path that climbs out
  of the directory of the meetings by parent components passes it as long as it does not exist, and
  with it the directory of the meetings itself.\<close>

theorem validate_meeting_dir_escape:
  assumes "prefix ''/'' data_dir" and "CHR ''/'' \<notin> set x" and "x \<notin> {[], ''.'', ''..''}"
    and "d (path_join (meetings_root data_dir) (''../../'' @ x)) = None"
  shows "validate_meeting_dir canon data_dir (path_join (meetings_root data_dir) (''../../'' @ x)) d =
      Inr (path_join (meetings_root data_dir) (''../../'' @ x)) \<and>
    leads_to (path_join (meetings_root data_dir) (''../../'' @ x)) = butlast (leads_to data_dir) @ [x] \<and>
    (d (meetings_root data_dir) = None \<or> canon d (meetings_root data_dir) \<noteq> None \<longrightarrow>
      validate_meeting_dir canon data_dir (meetings_root data_dir) d = Inr (meetings_root data_dir))"
proof -
  have root: "prefix ''/'' (meetings_root data_dir)"
    using absolute_join [OF assms(1)] by (simp add: meetings_root_def)
  have names: "names_of (''../../'' @ x) = [ParentDir, ParentDir, NormalName x]"
    using assms(2,3) by (simp add: names_of_def piece_def split_on_none)
  have meetings: "names_of ''meetings'' = [NormalName ''meetings'']"
    by (simp add: names_of_def piece_def)
  have "components (meetings_root data_dir) = components data_dir @ [NormalName ''meetings'']"
    using components_join [OF assms(1)] by (simp add: meetings_root_def meetings)
  then have "leads_to (path_join (meetings_root data_dir) (''../../'' @ x)) = butlast (leads_to data_dir) @ [x]"
    using components_join [OF root] by (simp add: leads_to_def names [simplified] walk_append)
  moreover have "path_starts_with (path_join (meetings_root data_dir) (''../../'' @ x)) (meetings_root data_dir)"
    using components_join [OF root] by (simp add: path_starts_with_def)
  ultimately show ?thesis
    using assms(4) by (auto simp: validate_meeting_dir_def path_starts_with_def Let_def)
qed

theorem validate_meeting_dir_escape_witness:
  "validate_meeting_dir (\<lambda>_ _. None) ''/home/u/panops''
      (path_join (meetings_root ''/home/u/panops'') ''../../secrets'') (\<lambda>_. None) =
    Inr (path_join (meetings_root ''/home/u/panops'') ''../../secrets'') \<and>
   leads_to (path_join (meetings_root ''/home/u/panops'') ''../../secrets'') = [''home'', ''u'', ''secrets'']"
proof -
  have "butlast (leads_to ''/home/u/panops'') = [''home'', ''u'']"
    by code_simp
  then show ?thesis
    using validate_meeting_dir_escape [of "''/home/u/panops''" "''secrets''" "\<lambda>_. None" "\<lambda>_ _. None"] by simp
qed

text \<open>An accepted identifier is one name below the directory it is joined to.\<close>

lemma accepted_id_single:
  assumes "reject_path_like_meeting_id i = Inr ()" and "prefix ''/'' dir"
  shows "components (path_join dir i) = components dir @ [NormalName i] \<and> i \<noteq> ''..''"
proof -
  obtain n where n: "components i = [NormalName n]" "CHR ''/'' \<notin> set i"
    using assms(1) by (auto simp: reject_path_like_meeting_id_def split: list.splits path_component.splits if_splits)
  then have "split_on (CHR ''/'') i = [i]" "\<not> prefix ''/'' i"
    by (auto simp: split_on_none prefix_def)
  then have "names_of i = [NormalName i]" "i \<noteq> ''..''"
    using n(1) by (auto simp: components_def names_of_def piece_def Let_def split: if_splits)
  then show ?thesis
    using components_join [OF assms(2)] by simp
qed

end
