(* ===== verification/Engine.thy ===== *)
theory Engine
  imports Engine_Paths Storage_Port
begin

text \<open>
  The request handlers of the engine server, \<open>panops-engine/src/server/handlers.rs\<close>, over the storage
  port, the capture port and the file system. A handler is a function of the environment, the time and
  the state of the engine; what runs on tokio's blocking pool runs here when the handler runs. A notes
  job that was accepted is put on a list (\<open>Notes_Jobs\<close> says what becomes of it). Log lines and the
  mapping of errors to JSON-RPC objects are left out, as are poisoned locks and panics of the pool.
\<close>

section \<open>File operations of the handlers\<close>

definition below_dir :: "string \<Rightarrow> string \<Rightarrow> bool" where
  "below_dir p q = (q = p \<or> prefix (path_join p []) q)"

definition remove_dir_all :: "string \<Rightarrow> fs \<Rightarrow> fs option" where
  "remove_dir_all p d =
     (if d p = Some FsDir then Some (\<lambda>q. if below_dir p q then None else d q) else None)"

definition rename_file :: "string \<Rightarrow> string \<Rightarrow> fs \<Rightarrow> fs option" where
  "rename_file src dst d =
     (case d src of
        Some (FsFile c) \<Rightarrow> if d dst = Some FsDir then None else Some (d(src := None, dst \<mapsto> FsFile c))
      | _ \<Rightarrow> None)"

section \<open>State and environment\<close>

text \<open>
  \<open>en_uuids\<close> counts the identifiers drawn so far. \<open>Ready\<close>, \<open>Failed\<close> and \<open>WarmingUp\<close> are the three
  states of the lock that holds the heavy adapters.
\<close>

datatype heavy_state = WarmingUp | Failed string | Ready

record ('s, 'c) engine =
  en_storage :: 's
  en_fs :: fs
  en_capture :: 'c
  en_sessions :: "string \<rightharpoonup> capture_session"
  en_auto_notes :: "string \<rightharpoonup> bool"
  en_uuids :: nat
  en_jobs :: "(string \<times> notes_generate_params) list"
  en_heavy :: heavy_state

record extract_plan =
  xp_sidecar_binary :: string
  xp_mov_path :: string
  xp_screenshots_dir :: string
  xp_interval_ms :: u64
  xp_threshold :: f32

text \<open>
  The environment: the adapters, the directory of the data, \<open>std::fs::canonicalize\<close>, UUIDs (simple and
  hyphenated forms), chrono's reader of RFC 3339 times in milliseconds, the sidecar that extracts
  screenshots and where it is.
\<close>

record ('s, 'c) engine_env =
  ev_exec :: "storage_call \<Rightarrow> 's \<Rightarrow> storage_reply \<times> 's"
  ev_start_capture :: "u64 \<Rightarrow> string \<Rightarrow> string \<Rightarrow> capture_config \<Rightarrow> 'c \<Rightarrow> fs
    \<Rightarrow> capture_session capture_outcome \<times> 'c \<times> fs"
  ev_stop_capture :: "u64 \<Rightarrow> capture_session \<Rightarrow> 'c \<Rightarrow> fs \<Rightarrow> capture_result capture_outcome \<times> 'c \<times> fs"
  ev_data_dir :: string
  ev_canonicalize :: canonicalizer
  ev_uuid_simple :: "nat \<Rightarrow> string"
  ev_uuid_hyphenated :: "nat \<Rightarrow> string"
  ev_parse_rfc3339 :: "string \<Rightarrow> int option"
  ev_extract :: "extract_plan \<Rightarrow> fs \<Rightarrow> (string + string list) \<times> fs"
  ev_sidecar_binary :: "string option"
  ev_llm_info :: llm_info

text \<open>The time of a request: as text, in milliseconds, and as the storage adapters read it.\<close>

record request_time =
  rt_rfc3339 :: string
  rt_ms :: u64
  rt_clock :: clock

type_synonym 'a ipc_result = "ipc_error + 'a"

definition and_then ::
  "'a ipc_result \<times> 't \<Rightarrow> ('a \<Rightarrow> 't \<Rightarrow> 'b ipc_result \<times> 't) \<Rightarrow> 'b ipc_result \<times> 't" where
  "and_then x f = (case x of (Inl e, s) \<Rightarrow> (Inl e, s) | (Inr a, s) \<Rightarrow> f a s)"

text \<open>
  A call of the storage port. The trait fixes the type of the result, so the last case of the readers
  below does not occur.
\<close>

definition ask ::
  "('s, 'c) engine_env \<Rightarrow> storage_call \<Rightarrow> (storage_reply \<Rightarrow> 'a ipc_result) \<Rightarrow> ('s, 'c) engine
   \<Rightarrow> 'a ipc_result \<times> ('s, 'c) engine" where
  "ask ev c read en =
     (case ev_exec ev c (en_storage en) of
        (RErr e, st) \<Rightarrow> (Inl (ipc_of_storage e), en\<lparr>en_storage := st\<rparr>)
      | (r, st) \<Rightarrow> (read r, en\<lparr>en_storage := st\<rparr>))"

fun as_unit :: "storage_reply \<Rightarrow> unit ipc_result" where
  "as_unit RUnit = Inr ()" | "as_unit (RNote n) = Inr ()" | "as_unit r = Inl IpcUnknown"

fun as_meeting :: "storage_reply \<Rightarrow> meeting ipc_result" where
  "as_meeting (RMeeting m) = Inr m" | "as_meeting r = Inl IpcUnknown"

fun as_summaries :: "storage_reply \<Rightarrow> meeting_summary list ipc_result" where
  "as_summaries (RSummaries xs) = Inr xs" | "as_summaries r = Inl IpcUnknown"

fun as_space :: "storage_reply \<Rightarrow> space ipc_result" where
  "as_space (RSpace s) = Inr s" | "as_space r = Inl IpcUnknown"

fun as_spaces :: "storage_reply \<Rightarrow> space list ipc_result" where
  "as_spaces (RSpaces xs) = Inr xs" | "as_spaces r = Inl IpcUnknown"

fun as_project :: "storage_reply \<Rightarrow> project ipc_result" where
  "as_project (RProject p) = Inr p" | "as_project r = Inl IpcUnknown"

fun as_projects :: "storage_reply \<Rightarrow> project list ipc_result" where
  "as_projects (RProjects xs) = Inr xs" | "as_projects r = Inl IpcUnknown"

fun as_tag :: "storage_reply \<Rightarrow> tag ipc_result" where
  "as_tag (RTag t) = Inr t" | "as_tag r = Inl IpcUnknown"

fun as_tags :: "storage_reply \<Rightarrow> tag list ipc_result" where
  "as_tags (RTags xs) = Inr xs" | "as_tags r = Inl IpcUnknown"

definition fresh_id :: "('s, 'c) engine_env \<Rightarrow> ('s, 'c) engine \<Rightarrow> string \<times> ('s, 'c) engine" where
  "fresh_id ev en = (ev_uuid_simple ev (en_uuids en), en\<lparr>en_uuids := Suc (en_uuids en)\<rparr>)"

definition fresh_uuid :: "('s, 'c) engine_env \<Rightarrow> ('s, 'c) engine \<Rightarrow> string \<times> ('s, 'c) engine" where
  "fresh_uuid ev en = (ev_uuid_hyphenated ev (en_uuids en), en\<lparr>en_uuids := Suc (en_uuids en)\<rparr>)"

definition checked_dir :: "('s, 'c) engine_env \<Rightarrow> string \<Rightarrow> ('s, 'c) engine \<Rightarrow> string ipc_result \<times> ('s, 'c) engine"
where
  "checked_dir ev dir_path en =
     (validate_meeting_dir (ev_canonicalize ev) (ev_data_dir ev) dir_path (en_fs en), en)"

section \<open>Meetings\<close>

definition create_meeting_dir_and_row ::
  "('s, 'c) engine_env \<Rightarrow> request_time \<Rightarrow> string \<Rightarrow> string \<Rightarrow> ('s, 'c) engine
   \<Rightarrow> (string \<times> string) ipc_result \<times> ('s, 'c) engine" where
  "create_meeting_dir_and_row ev now title language en =
     (let (i, en) = fresh_id ev en;
          dir = path_join (path_join (ev_data_dir ev) ''meetings'') i;
          shots = path_join dir ''screenshots''
      in case create_dir_all dir (en_fs en) of
           Inl _ \<Rightarrow> (Inl (IpcInternal ''create meeting dir failed''), en)
         | Inr d \<Rightarrow>
             (let en = en\<lparr>en_fs := d\<rparr>
              in case create_dir_all shots d of
                   Inl _ \<Rightarrow> (Inl (IpcInternal ''create meeting dir failed''), en)
                 | Inr d \<Rightarrow>
                     (let en = en\<lparr>en_fs := d\<rparr>;
                          draft = \<lparr>md_id = i, md_title = title, md_started_at = rt_rfc3339 now,
                            md_language = language, md_dir_path = dir\<rparr>
                      in case ask ev (CreateMeeting draft) as_meeting en of
                           (Inl e, en) \<Rightarrow>
                             (Inl e, (case remove_dir_all dir (en_fs en) of
                                        None \<Rightarrow> en | Some d \<Rightarrow> en\<lparr>en_fs := d\<rparr>))
                         | (Inr _, en) \<Rightarrow> (Inr (i, dir), en))))"

definition meeting_start ::
  "('s, 'c) engine_env \<Rightarrow> request_time \<Rightarrow> meeting_config \<Rightarrow> ('s, 'c) engine \<Rightarrow> string ipc_result \<times> ('s, 'c) engine"
where
  "meeting_start ev now cfg en =
     and_then
       (create_meeting_dir_and_row ev now (case mc_title cfg of None \<Rightarrow> [] | Some t \<Rightarrow> t)
          (case mc_language cfg of None \<Rightarrow> ''auto'' | Some l \<Rightarrow> l) en)
       (\<lambda>(i, dir) en. (Inr i, en))"

definition meeting_stop ::
  "('s, 'c) engine_env \<Rightarrow> request_time \<Rightarrow> string \<Rightarrow> ('s, 'c) engine \<Rightarrow> meeting ipc_result \<times> ('s, 'c) engine"
where
  "meeting_stop ev now i en =
     and_then (ask ev (GetMeeting i) as_meeting en) (\<lambda>m en.
       case ev_parse_rfc3339 ev (mt_started_at m) of
         None \<Rightarrow> (Inl (IpcInternal ''internal time-parse error''), en)
       | Some started \<Rightarrow>
           (case ev_parse_rfc3339 ev (rt_rfc3339 now) of
              None \<Rightarrow> (Inl (IpcInternal ''internal time-format error''), en)
            | Some ended \<Rightarrow>
                ask ev (UpdateMeetingEnded i (rt_rfc3339 now) (nat (max (ended - started) 0))) as_meeting en))"

definition meeting_delete ::
  "('s, 'c) engine_env \<Rightarrow> string \<Rightarrow> ('s, 'c) engine \<Rightarrow> unit ipc_result \<times> ('s, 'c) engine" where
  "meeting_delete ev i en =
     and_then (ask ev (GetMeeting i) as_meeting en) (\<lambda>m en.
       and_then (checked_dir ev (mt_dir_path m) en) (\<lambda>safe_dir en.
         and_then (ask ev (DeleteMeeting i) as_unit en) (\<lambda>_ en.
           (Inr (), (case remove_dir_all safe_dir (en_fs en) of
                       None \<Rightarrow> en | Some d \<Rightarrow> en\<lparr>en_fs := d\<rparr>)))))"

definition meeting_delete_video ::
  "('s, 'c) engine_env \<Rightarrow> string \<Rightarrow> ('s, 'c) engine \<Rightarrow> delete_video_result ipc_result \<times> ('s, 'c) engine" where
  "meeting_delete_video ev i en =
     and_then (reject_path_like_meeting_id i, en) (\<lambda>_ en.
       and_then (ask ev (GetMeeting i) as_meeting en) (\<lambda>m en.
         and_then (checked_dir ev (mt_dir_path m) en) (\<lambda>meeting_dir en.
           let video_path = path_join meeting_dir ''recording.mov''
           in case en_fs en video_path of
                None \<Rightarrow> (Inr \<lparr>dv_deleted = False, dv_freed_bytes = 0\<rparr>, en)
              | Some FsDir \<Rightarrow> (Inl (IpcInternal ''delete video failed''), en)
              | Some (FsFile c) \<Rightarrow>
                  (Inr \<lparr>dv_deleted = True, dv_freed_bytes = length c\<rparr>,
                   en\<lparr>en_fs := (en_fs en)(video_path := None)\<rparr>))))"

definition partial_name :: "string \<Rightarrow> string" where
  "partial_name u = ''notes.md.'' @ u @ ''.partial''"

definition notes_save ::
  "('s, 'c) engine_env \<Rightarrow> request_time \<Rightarrow> string \<Rightarrow> string \<Rightarrow> ('s, 'c) engine \<Rightarrow> unit ipc_result \<times> ('s, 'c) engine"
where
  "notes_save ev now i markdown en =
     and_then (ask ev (GetMeeting i) as_meeting en) (\<lambda>m en.
       and_then (checked_dir ev (mt_dir_path m) en) (\<lambda>meeting_dir en.
         let notes_path = path_join meeting_dir ''notes.md'';
             (u, en) = fresh_uuid ev en;
             partial = path_join meeting_dir (partial_name u)
         in case fs_write partial markdown (en_fs en) of
              Inl _ \<Rightarrow> (Inl (IpcInternal ''write notes.md failed''), en)
            | Inr d \<Rightarrow>
                (case rename_file partial notes_path d of
                   None \<Rightarrow> (Inl (IpcInternal ''save notes.md failed''), en\<lparr>en_fs := d\<rparr>)
                 | Some d \<Rightarrow>
                     (let (n, en) = fresh_id ev (en\<lparr>en_fs := d\<rparr>)
                      in ask ev (ReplaceMeetingNote (rt_clock now) i
                           \<lparr>nd_id = n, nd_meeting_id = i, nd_dialect = ''basic'', nd_content_md = markdown,
                            nd_primary_path = notes_path\<rparr>) as_unit en))))"

section \<open>Recordings\<close>

definition resolve_extract_plan ::
  "('s, 'c) engine_env \<Rightarrow> string \<Rightarrow> capture_session \<Rightarrow> ('s, 'c) engine
   \<Rightarrow> (string + extract_plan) \<times> ('s, 'c) engine" where
  "resolve_extract_plan ev i session en =
     (case ev_exec ev (GetMeeting i) (en_storage en) of
        (RMeeting m, st) \<Rightarrow>
          (let en = en\<lparr>en_storage := st\<rparr>
           in case fst (checked_dir ev (mt_dir_path m) en) of
                Inl e \<Rightarrow> (Inl (''meeting dir validation failed: '' @ ipc_error_text e), en)
              | Inr meeting_dir \<Rightarrow>
                  (let mov_path = path_join meeting_dir ''recording.mov''
                   in if en_fs en mov_path = None
                      then (Inl (''recording.mov missing at '' @ mov_path @ '' '' @ em_dash @
                              '' video writer did not produce output''), en)
                      else case ev_sidecar_binary ev of
                             None \<Rightarrow> (Inl (''panops-capture-mac sidecar binary not resolvable '' @
                                ''(PANOPS_CAPTURE_SIDECAR_BIN unset and no packaged sibling)''), en)
                           | Some sidecar \<Rightarrow>
                               (Inr \<lparr>xp_sidecar_binary = sidecar, xp_mov_path = mov_path,
                                     xp_screenshots_dir = path_join meeting_dir ''screenshots'',
                                     xp_interval_ms = cs_screenshot_interval_ms session,
                                     xp_threshold = cs_screenshot_threshold session\<rparr>, en)))
      | (RErr e, st) \<Rightarrow> (Inl (''storage lookup failed: '' @ storage_error_text e), en\<lparr>en_storage := st\<rparr>)
      | (_, st) \<Rightarrow> (Inl [], en\<lparr>en_storage := st\<rparr>))"

definition extract_screenshots_post_recording ::
  "('s, 'c) engine_env \<Rightarrow> string \<Rightarrow> capture_session \<Rightarrow> ('s, 'c) engine
   \<Rightarrow> (string + string list) \<times> ('s, 'c) engine" where
  "extract_screenshots_post_recording ev i session en =
     (case resolve_extract_plan ev i session en of
        (Inl m, en) \<Rightarrow> (Inl m, en)
      | (Inr xp, en) \<Rightarrow>
          (case ev_extract ev xp (en_fs en) of (r, d) \<Rightarrow> (r, en\<lparr>en_fs := d\<rparr>)))"

definition recording_start ::
  "('s, 'c) engine_env \<Rightarrow> request_time \<Rightarrow> recording_start_params \<Rightarrow> ('s, 'c) engine
   \<Rightarrow> string ipc_result \<times> ('s, 'c) engine" where
  "recording_start ev now params en =
     (let i = rs_meeting_id params
      in and_then (ask ev (GetMeeting i) as_meeting en) (\<lambda>m en.
           and_then (checked_dir ev (mt_dir_path m) en) (\<lambda>meeting_dir en.
             case ev_start_capture ev (rt_ms now) i meeting_dir (capture_config_of params)
                    (en_capture en) (en_fs en) of
               (Inl e, c, d) \<Rightarrow> (Inl (ipc_of_capture e), en\<lparr>en_capture := c, en_fs := d\<rparr>)
             | (Inr session, c, d) \<Rightarrow>
                 (Inr i, en\<lparr>en_capture := c, en_fs := d,
                            en_sessions := (en_sessions en)(i \<mapsto> session),
                            en_auto_notes := (en_auto_notes en)(i \<mapsto> rs_auto_generate_notes params)\<rparr>))))"

definition enqueue_notes_job ::
  "('s, 'c) engine_env \<Rightarrow> notes_generate_params \<Rightarrow> ('s, 'c) engine \<Rightarrow> string \<times> ('s, 'c) engine" where
  "enqueue_notes_job ev params en =
     (let (job_id, en) = fresh_uuid ev en in (job_id, en\<lparr>en_jobs := en_jobs en @ [(job_id, params)]\<rparr>))"

definition auto_notes_compute_available ::
  "('s, 'c) engine_env \<Rightarrow> ('s, 'c) engine \<Rightarrow> string + unit" where
  "auto_notes_compute_available ev en =
     (if trim (li_provider (ev_llm_info ev)) = [] then Inl ''resolved LLM provider is empty''
      else case en_heavy en of
             Ready \<Rightarrow> Inr ()
           | Failed m \<Rightarrow> Inl (''heavy adapter init failed: '' @ m)
           | WarmingUp \<Rightarrow> Inl ''engine AI adapters are still warming up'')"

definition maybe_enqueue_auto_notes ::
  "('s, 'c) engine_env \<Rightarrow> string \<Rightarrow> recording_stopped \<Rightarrow> ('s, 'c) engine
   \<Rightarrow> string option \<times> ('s, 'c) engine" where
  "maybe_enqueue_auto_notes ev i stopped en =
     (case auto_notes_compute_available ev en of
        Inl _ \<Rightarrow> (None, en)
      | Inr _ \<Rightarrow>
          (case (case rd_system_audio_path stopped of Some p \<Rightarrow> Some p | None \<Rightarrow> rd_mic_audio_path stopped) of
             None \<Rightarrow> (None, en)
           | Some audio \<Rightarrow>
               (let (r, en) = ask ev (GetMeeting i) as_meeting en;
                    language = (case r of
                        Inr m \<Rightarrow> if trim (mt_language m) = [] \<or> mt_language m = ''auto'' then None
                                else Some (mt_language m)
                      | Inl _ \<Rightarrow> None);
                    (job_id, en) = enqueue_notes_job ev
                      \<lparr>ng_audio = audio, ng_dialect = None, ng_llm_provider = None, ng_llm_model = None,
                       ng_no_diarize = None, ng_language = language, ng_meeting_id = Some i\<rparr> en
                in (Some job_id, en))))"

definition recording_stop ::
  "('s, 'c) engine_env \<Rightarrow> request_time \<Rightarrow> string \<Rightarrow> ('s, 'c) engine
   \<Rightarrow> recording_stopped ipc_result \<times> ('s, 'c) engine" where
  "recording_stop ev now i en =
     (let auto = (case en_auto_notes en i of None \<Rightarrow> False | Some b \<Rightarrow> b);
          en = en\<lparr>en_auto_notes := (en_auto_notes en)(i := None)\<rparr>
      in case en_sessions en i of
           None \<Rightarrow> (Inl (IpcInputNotFound (''session/'' @ i)), en)
         | Some session \<Rightarrow>
             (let en = en\<lparr>en_sessions := (en_sessions en)(i := None)\<rparr>
              in case ev_stop_capture ev (rt_ms now) session (en_capture en) (en_fs en) of
                   (Inl e, c, d) \<Rightarrow> (Inl (ipc_of_capture e), en\<lparr>en_capture := c, en_fs := d\<rparr>)
                 | (Inr result, c, d) \<Rightarrow>
                     (let en = en\<lparr>en_capture := c, en_fs := d\<rparr>;
                          (shots, en) =
                            (if cs_record_video session
                             then (case extract_screenshots_post_recording ev i session en of
                                     (Inr paths, en) \<Rightarrow> (paths, en)
                                   | (Inl _, en) \<Rightarrow> ([], en))
                             else (cr_screenshot_paths result, en));
                          stopped = \<lparr>rd_system_audio_path = cr_system_audio_path result,
                            rd_mic_audio_path = cr_mic_audio_path result, rd_screenshot_paths = shots,
                            rd_duration_ms = cr_duration_ms result, rd_notes_job_id = None\<rparr>
                      in if auto
                         then (let (job, en) = maybe_enqueue_auto_notes ev i stopped en
                               in (Inr (stopped\<lparr>rd_notes_job_id := job\<rparr>), en))
                         else (Inr stopped, en))))"

section \<open>Requests\<close>

datatype ipc_request =
    NotesGenerate notes_generate_params
  | NotesSave string string
  | MeetingList "meeting_list_filter option"
  | ServerInfo
  | MeetingStart meeting_config
  | MeetingStop string
  | MeetingGet string
  | MeetingRename string string
  | MeetingDelete string
  | MeetingAssign string "string option" "string option"
  | MeetingDeleteVideo string
  | SpaceCreate string
  | SpaceList
  | SpaceRename string string
  | SpaceDelete string
  | ProjectCreate string string
  | ProjectList "string option"
  | ProjectRename string string
  | ProjectDelete string
  | TagCreate string
  | TagList
  | TagDelete string
  | TagAssign string string
  | TagUnassign string string
  | RecordingStart recording_start_params
  | RecordingStop string

datatype ipc_reply =
    Accepted string
  | Done
  | Meetings "meeting_summary list"
  | Info llm_info
  | OneMeeting meeting
  | VideoDeleted delete_video_result
  | OneSpace space
  | Spaces "space list"
  | OneProject project
  | Projects "project list"
  | OneTag tag
  | Tags "tag list"
  | Stopped recording_stopped

definition answer :: "('a \<Rightarrow> ipc_reply) \<Rightarrow> 'a ipc_result \<times> 't \<Rightarrow> ipc_reply ipc_result \<times> 't" where
  "answer f r = (map_sum id f (fst r), snd r)"

fun handle ::
  "('s, 'c) engine_env \<Rightarrow> request_time \<Rightarrow> ipc_request \<Rightarrow> ('s, 'c) engine
   \<Rightarrow> ipc_reply ipc_result \<times> ('s, 'c) engine" where
  "handle ev now (NotesGenerate p) en = (case enqueue_notes_job ev p en of (j, en) \<Rightarrow> (Inr (Accepted j), en))"
| "handle ev now (NotesSave i t) en = answer (\<lambda>_. Done) (notes_save ev now i t en)"
| "handle ev now (MeetingList None) en = answer Meetings (ask ev ListMeetings as_summaries en)"
| "handle ev now (MeetingList (Some f)) en = answer Meetings (ask ev (ListMeetingsFiltered f) as_summaries en)"
| "handle ev now ServerInfo en = (Inr (Info (ev_llm_info ev)), en)"
| "handle ev now (MeetingStart c) en = answer Accepted (meeting_start ev now c en)"
| "handle ev now (MeetingStop i) en = answer OneMeeting (meeting_stop ev now i en)"
| "handle ev now (MeetingGet i) en = answer OneMeeting (ask ev (GetMeeting i) as_meeting en)"
| "handle ev now (MeetingRename i t) en = answer OneMeeting (ask ev (RenameMeeting i t) as_meeting en)"
| "handle ev now (MeetingDelete i) en = answer (\<lambda>_. Done) (meeting_delete ev i en)"
| "handle ev now (MeetingAssign i sp p) en = answer (\<lambda>_. Done) (ask ev (AssignMeeting i sp p) as_unit en)"
| "handle ev now (MeetingDeleteVideo i) en = answer VideoDeleted (meeting_delete_video ev i en)"
| "handle ev now (SpaceCreate n) en = answer OneSpace (ask ev (CreateSpace (rt_clock now) n) as_space en)"
| "handle ev now SpaceList en = answer Spaces (ask ev ListSpaces as_spaces en)"
| "handle ev now (SpaceRename i n) en = answer (\<lambda>_. Done) (ask ev (RenameSpace i n) as_unit en)"
| "handle ev now (SpaceDelete i) en = answer (\<lambda>_. Done) (ask ev (DeleteSpace i) as_unit en)"
| "handle ev now (ProjectCreate i n) en =
     answer OneProject (ask ev (CreateProject (rt_clock now) i n) as_project en)"
| "handle ev now (ProjectList i) en = answer Projects (ask ev (ListProjects i) as_projects en)"
| "handle ev now (ProjectRename i n) en = answer (\<lambda>_. Done) (ask ev (RenameProject i n) as_unit en)"
| "handle ev now (ProjectDelete i) en = answer (\<lambda>_. Done) (ask ev (DeleteProject i) as_unit en)"
| "handle ev now (TagCreate n) en = answer OneTag (ask ev (CreateTag (rt_clock now) n) as_tag en)"
| "handle ev now TagList en = answer Tags (ask ev ListTags as_tags en)"
| "handle ev now (TagDelete i) en = answer (\<lambda>_. Done) (ask ev (DeleteTag i) as_unit en)"
| "handle ev now (TagAssign m t) en = answer (\<lambda>_. Done) (ask ev (TagMeeting m t) as_unit en)"
| "handle ev now (TagUnassign m t) en = answer (\<lambda>_. Done) (ask ev (UntagMeeting m t) as_unit en)"
| "handle ev now (RecordingStart p) en = answer Accepted (recording_start ev now p en)"
| "handle ev now (RecordingStop i) en = answer Stopped (recording_stop ev now i en)"

end
