(* ===== verification/Notes_Jobs.thy ===== *)
theory Notes_Jobs
  imports Protocol
begin

text \<open>
  The life of a notes job, \<open>enqueue_notes_job\<close> of \<open>panops-engine/src/server/handlers.rs\<close> with the
  semaphore of \<open>panops-engine/src/server/mod.rs\<close>. A job is a task of its own, so the steps of different
  jobs interleave freely: each is a transition of the queue. The engine never closes the semaphore.
\<close>

section \<open>Jobs and their events\<close>

definition max_concurrent_notes_jobs :: usize where
  "max_concurrent_notes_jobs = 2"

text \<open>
  A task waits for a permit; runs the pipeline; after sending its last event it still holds the permit
  until the closure returns. When the pipeline panics, the unwinding gives the permit back first and
  the task that awaits it sends the event.
\<close>

datatype job_phase = Waiting | Running | Sent | Unwound | Finished

text \<open>The outcome of a pipeline: a panic is \<open>None\<close>.\<close>

fun final_event :: "string \<Rightarrow> (ipc_error + notes_generate_result) option \<Rightarrow> ipc_event" where
  "final_event job (Some (Inr result)) = JobDone job result"
| "final_event job (Some (Inl e)) = JobError job e"
| "final_event job None = JobError job (IpcInternal ''pipeline panicked'')"

fun event_job :: "ipc_event \<Rightarrow> string option" where
  "event_job (JobDone job r) = Some job"
| "event_job (JobError job e) = Some job"
| "event_job (JobProgress job p) = Some job"
| "event_job (UnknownEvent v) = None"

fun is_final :: "ipc_event \<Rightarrow> bool" where
  "is_final (JobDone job r) = True"
| "is_final (JobError job e) = True"
| "is_final (JobProgress job p) = False"
| "is_final (UnknownEvent v) = False"

lemma final_event_simps [simp]:
  "is_final (final_event job x)" "event_job (final_event job x) = Some job"
  by (cases "(job, x)" rule: final_event.cases; simp)+

record job_queue =
  jq_permits :: nat
  jq_jobs :: "string \<rightharpoonup> job_phase"
  jq_events :: "ipc_event list"

definition empty_queue :: job_queue where
  "empty_queue = \<lparr>jq_permits = max_concurrent_notes_jobs, jq_jobs = (\<lambda>_. None), jq_events = []\<rparr>"

definition move :: "string \<Rightarrow> job_phase \<Rightarrow> job_queue \<Rightarrow> job_queue" where
  "move job ph q = q\<lparr>jq_jobs := (jq_jobs q)(job \<mapsto> ph)\<rparr>"

definition send :: "ipc_event \<Rightarrow> job_queue \<Rightarrow> job_queue" where
  "send e q = q\<lparr>jq_events := jq_events q @ [e]\<rparr>"

definition take_permit :: "job_queue \<Rightarrow> job_queue" where
  "take_permit q = q\<lparr>jq_permits := jq_permits q - 1\<rparr>"

definition return_permit :: "job_queue \<Rightarrow> job_queue" where
  "return_permit q = q\<lparr>jq_permits := jq_permits q + 1\<rparr>"

section \<open>Steps\<close>

text \<open>\<open>accept\<close>: the identifier of a job is a new UUID.\<close>

inductive job_step :: "job_queue \<Rightarrow> job_queue \<Rightarrow> bool" where
  accept: "jq_jobs q job = None \<Longrightarrow> job_step q (move job Waiting q)"
| start: "jq_jobs q job = Some Waiting \<Longrightarrow> 0 < jq_permits q \<Longrightarrow> job_step q (take_permit (move job Running q))"
| progress: "jq_jobs q job = Some Running \<Longrightarrow> job_step q (send (JobProgress job p) q)"
| complete: "jq_jobs q job = Some Running \<Longrightarrow> outcome \<noteq> None \<Longrightarrow>
    job_step q (send (final_event job outcome) (move job Sent q))"
| release: "jq_jobs q job = Some Sent \<Longrightarrow> job_step q (return_permit (move job Finished q))"
| panics: "jq_jobs q job = Some Running \<Longrightarrow> job_step q (return_permit (move job Unwound q))"
| report: "jq_jobs q job = Some Unwound \<Longrightarrow>
    job_step q (send (final_event job None) (move job Finished q))"


section \<open>The invariant\<close>

definition in_phase :: "job_phase set \<Rightarrow> job_queue \<Rightarrow> string set" where
  "in_phase phs q = {job. \<exists>ph \<in> phs. jq_jobs q job = Some ph}"

definition finals :: "string \<Rightarrow> job_queue \<Rightarrow> nat" where
  "finals job q = length (filter (\<lambda>e. is_final e \<and> event_job e = Some job) (jq_events q))"

definition reported :: "job_phase option \<Rightarrow> nat" where
  "reported ph = (if ph = Some Sent \<or> ph = Some Finished then 1 else 0)"

definition queue_ok :: "job_queue \<Rightarrow> bool" where
  "queue_ok q \<longleftrightarrow>
     finite (dom (jq_jobs q)) \<and>
     jq_permits q + card (in_phase {Running, Sent} q) = max_concurrent_notes_jobs \<and>
     (\<forall>job. finals job q = reported (jq_jobs q job)) \<and>
     (\<forall>e \<in> set (jq_events q). \<forall>job. event_job e = Some job \<longrightarrow>
        jq_jobs q job \<noteq> None \<and> jq_jobs q job \<noteq> Some Waiting)"

lemma in_phase_move:
  "in_phase phs (move job ph q) = (if ph \<in> phs then insert job (in_phase phs q) else in_phase phs q - {job})"
  by (auto simp: in_phase_def move_def)

lemma queue_ops [simp]:
  "jq_jobs (move job ph q) = (jq_jobs q)(job \<mapsto> ph)" "jq_permits (move job ph q) = jq_permits q"
  "jq_events (move job ph q) = jq_events q"
  "jq_jobs (send e q) = jq_jobs q" "jq_permits (send e q) = jq_permits q"
  "jq_events (send e q) = jq_events q @ [e]"
  "jq_jobs (take_permit q) = jq_jobs q" "jq_permits (take_permit q) = jq_permits q - 1"
  "jq_events (take_permit q) = jq_events q"
  "jq_jobs (return_permit q) = jq_jobs q" "jq_permits (return_permit q) = jq_permits q + 1"
  "jq_events (return_permit q) = jq_events q"
  "in_phase phs (send e q) = in_phase phs q" "in_phase phs (take_permit q) = in_phase phs q"
  "in_phase phs (return_permit q) = in_phase phs q"
  by (simp_all add: move_def send_def take_permit_def return_permit_def in_phase_def)

lemma finals_ops [simp]:
  "finals job (move j ph q) = finals job q" "finals job (take_permit q) = finals job q"
  "finals job (return_permit q) = finals job q"
  "finals job (send e q) = finals job q + (if is_final e \<and> event_job e = Some job then 1 else 0)"
  by (simp_all add: finals_def)

lemma finite_in_phase: "finite (dom (jq_jobs q)) \<Longrightarrow> finite (in_phase phs q)"
  by (rule finite_subset [of _ "dom (jq_jobs q)"]) (auto simp: in_phase_def)

lemma in_phase_iff: "jq_jobs q job = Some ph \<Longrightarrow> job \<in> in_phase phs q \<longleftrightarrow> ph \<in> phs"
  by (auto simp: in_phase_def)

lemma empty_queue_ok: "queue_ok empty_queue"
  by (simp add: queue_ok_def empty_queue_def in_phase_def finals_def reported_def)

lemma step_keeps_ok:
  assumes "job_step q q'" and "queue_ok q"
  shows "queue_ok q'"
proof -
  have fin: "finite (in_phase {Running, Sent} q)"
    using assms(2) by (simp add: queue_ok_def finite_in_phase)
  from assms(1) show ?thesis
  proof (cases rule: job_step.cases)
    case (accept job)
    then have "job \<notin> in_phase {Running, Sent} q"
      by (simp add: in_phase_def)
    with accept assms(2) show ?thesis
      by (auto simp: queue_ok_def in_phase_move reported_def)
  next
    case (start job)
    then have "job \<notin> in_phase {Running, Sent} q"
      by (simp add: in_phase_iff)
    with start fin assms(2) show ?thesis
      by (auto simp: queue_ok_def in_phase_move reported_def)
  next
    case (progress job p)
    with assms(2) show ?thesis
      by (auto simp: queue_ok_def)
  next
    case (complete job outcome)
    then have "insert job (in_phase {Running, Sent} q) = in_phase {Running, Sent} q"
      by (simp add: in_phase_iff insert_absorb)
    with complete assms(2) show ?thesis
      by (auto simp: queue_ok_def in_phase_move reported_def)
  next
    case (release job)
    then have "job \<in> in_phase {Running, Sent} q"
      by (simp add: in_phase_iff)
    with release fin assms(2) card_Suc_Diff1 [OF fin this] show ?thesis
      by (auto simp: queue_ok_def in_phase_move reported_def)
  next
    case (panics job)
    then have "job \<in> in_phase {Running, Sent} q"
      by (simp add: in_phase_iff)
    with panics fin assms(2) card_Suc_Diff1 [OF fin this] show ?thesis
      by (auto simp: queue_ok_def in_phase_move reported_def)
  next
    case (report job)
    then have "job \<notin> in_phase {Running, Sent} q"
      by (simp add: in_phase_iff)
    with report assms(2) show ?thesis
      by (auto simp: queue_ok_def in_phase_move reported_def)
  qed
qed

lemma reachable_ok: "job_step\<^sup>*\<^sup>* empty_queue q \<Longrightarrow> queue_ok q"
  by (induction rule: rtranclp_induct) (simp_all add: empty_queue_ok step_keeps_ok)

section \<open>Properties\<close>

text \<open>C24: However the jobs interleave, at most two run their pipeline at a time, every job has at most one
  final event, and it has one exactly when it is over or only has to give its permit back.\<close>

theorem notes_jobs_bounded:
  assumes "job_step\<^sup>*\<^sup>* empty_queue q"
  shows "card (in_phase {Running, Sent} q) \<le> 2 \<and>
    finals job q = (if jq_jobs q job = Some Sent \<or> jq_jobs q job = Some Finished then 1 else 0)"
  using reachable_ok [OF assms] by (simp add: queue_ok_def reported_def max_concurrent_notes_jobs_def)

theorem notes_jobs_bounded_witness:
  "finals ''j'' (send (JobError ''j'' IpcCancelled)
     (move ''j'' Sent (take_permit (move ''j'' Running (move ''j'' Waiting empty_queue))))) = 1"
proof -
  let ?q1 = "move ''j'' Waiting empty_queue"
  let ?q2 = "take_permit (move ''j'' Running ?q1)"
  have "job_step empty_queue ?q1"
    by (rule accept) (simp add: empty_queue_def)
  moreover have "job_step ?q1 ?q2"
    by (rule start) (simp_all add: empty_queue_def max_concurrent_notes_jobs_def)
  moreover have "job_step ?q2 (send (final_event ''j'' (Some (Inl IpcCancelled))) (move ''j'' Sent ?q2))"
    by (rule complete) simp_all
  ultimately have "job_step\<^sup>*\<^sup>* empty_queue (send (final_event ''j'' (Some (Inl IpcCancelled))) (move ''j'' Sent ?q2))"
    by (meson converse_rtranclp_into_rtranclp rtranclp.rtrancl_refl)
  from notes_jobs_bounded [OF this, of "''j''"] show ?thesis
    by simp
qed

section \<open>Every job ends\<close>

text \<open>The steps of the jobs that were accepted, their progress reports aside, are bounded.\<close>

fun steps_left :: "job_phase option \<Rightarrow> nat" where
  "steps_left None = 0"
| "steps_left (Some Waiting) = 3"
| "steps_left (Some Running) = 2"
| "steps_left (Some Sent) = 1"
| "steps_left (Some Unwound) = 1"
| "steps_left (Some Finished) = 0"

definition work_left :: "job_queue \<Rightarrow> nat" where
  "work_left q = (\<Sum>job \<in> dom (jq_jobs q). steps_left (jq_jobs q job))"

lemma work_left_ops [simp]:
  "work_left (send e q) = work_left q" "work_left (take_permit q) = work_left q"
  "work_left (return_permit q) = work_left q"
  by (simp_all add: work_left_def)

lemma work_left_move:
  assumes "finite (dom (jq_jobs q))" and "jq_jobs q job = Some ph"
  shows "work_left (move job ph' q) + steps_left (Some ph) = work_left q + steps_left (Some ph')"
proof -
  let ?D = "dom (jq_jobs q)"
  have job: "job \<in> ?D" and dom: "dom (jq_jobs (move job ph' q)) = ?D"
    using assms(2) by auto
  have "work_left q = steps_left (Some ph) + (\<Sum>j \<in> ?D - {job}. steps_left (jq_jobs q j))"
    unfolding work_left_def using sum.remove [OF assms(1) job, of "\<lambda>j. steps_left (jq_jobs q j)"] assms(2) by simp
  moreover have "work_left (move job ph' q) =
      steps_left (Some ph') + (\<Sum>j \<in> ?D - {job}. steps_left (jq_jobs (move job ph' q) j))"
    unfolding work_left_def dom
    using sum.remove [OF assms(1) job, of "\<lambda>j. steps_left (jq_jobs (move job ph' q) j)"] by simp
  moreover have "(\<Sum>j \<in> ?D - {job}. steps_left (jq_jobs (move job ph' q) j)) =
      (\<Sum>j \<in> ?D - {job}. steps_left (jq_jobs q j))"
    by (rule sum.cong) simp_all
  ultimately show ?thesis by simp
qed

lemma no_work:
  assumes "finite (dom (jq_jobs q))"
  shows "work_left q = 0 \<longleftrightarrow> (\<forall>job ph. jq_jobs q job = Some ph \<longrightarrow> ph = Finished)"
proof -
  have "steps_left (Some ph) = 0 \<longleftrightarrow> ph = Finished" for ph
    by (cases ph) simp_all
  with assms show ?thesis
    unfolding work_left_def by (auto simp: dom_def sum_eq_0_iff)
qed

lemma step_effect:
  assumes "job_step q q'" and "finite (dom (jq_jobs q))"
  shows "(\<exists>job. jq_jobs q job = None \<and> q' = move job Waiting q) \<or>
    (\<exists>job p. q' = send (JobProgress job p) q) \<or>
    dom (jq_jobs q') = dom (jq_jobs q) \<and> work_left q' < work_left q"
  using assms(1)
proof (cases rule: job_step.cases)
  case (start job)
  then show ?thesis
    using work_left_move [OF assms(2), of job Waiting Running] by (auto simp: dom_def)
next
  case (complete job outcome)
  then show ?thesis
    using work_left_move [OF assms(2), of job Running Sent] by (auto simp: dom_def)
next
  case (release job)
  then show ?thesis
    using work_left_move [OF assms(2), of job Sent Finished] by (auto simp: dom_def)
next
  case (panics job)
  then show ?thesis
    using work_left_move [OF assms(2), of job Running Unwound] by (auto simp: dom_def)
next
  case (report job)
  then show ?thesis
    using work_left_move [OF assms(2), of job Unwound Finished] by (auto simp: dom_def)
qed blast+

text \<open>A job that holds a permit, or has lost its pipeline, can go on; so can a waiting one when none does.\<close>

lemma step_possible:
  assumes "queue_ok q" and "jq_jobs q job = Some ph" and "ph \<noteq> Finished"
  shows "\<exists>q'. job_step q q' \<and> work_left q' < work_left q"
proof -
  have fin: "finite (dom (jq_jobs q))"
    using assms(1) by (simp add: queue_ok_def)
  have busy: ?thesis if "jq_jobs q j = Some k" "k \<in> {Running, Sent, Unwound}" for j k
  proof -
    have "\<exists>q'. job_step q q' \<and> dom (jq_jobs q') = dom (jq_jobs q) \<and> work_left q' < work_left q"
    proof (cases k)
      case Running
      have "job_step q (send (final_event j (Some (Inl IpcCancelled))) (move j Sent q))"
        using that Running by (intro complete) simp_all
      then show ?thesis
        using that Running work_left_move [OF fin, of j Running Sent]
        by (intro exI conjI) (assumption, auto simp: dom_def)
    next
      case Sent
      have "job_step q (return_permit (move j Finished q))"
        using that Sent by (intro release) simp_all
      then show ?thesis
        using that Sent work_left_move [OF fin, of j Sent Finished]
        by (intro exI conjI) (assumption, auto simp: dom_def)
    next
      case Unwound
      have "job_step q (send (final_event j None) (move j Finished q))"
        using that Unwound by (intro report) simp_all
      then show ?thesis
        using that Unwound work_left_move [OF fin, of j Unwound Finished]
        by (intro exI conjI) (assumption, auto simp: dom_def)
    qed (use that(2) in auto)
    then show ?thesis by blast
  qed
  show ?thesis
  proof (cases "ph = Waiting")
    case True
    show ?thesis
    proof (cases "jq_permits q = 0")
      case True
      then have "card (in_phase {Running, Sent} q) \<noteq> 0"
        using assms(1) by (simp add: queue_ok_def max_concurrent_notes_jobs_def)
      then obtain j where "j \<in> in_phase {Running, Sent} q"
        by (metis card.empty equals0I)
      then show ?thesis
        using busy by (auto simp: in_phase_def)
    next
      case False
      have "job_step q (take_permit (move job Running q))"
        using assms(2) \<open>ph = Waiting\<close> False by (intro start) simp_all
      then show ?thesis
        using assms(2) \<open>ph = Waiting\<close> work_left_move [OF fin, of job Waiting Running]
        by (intro exI conjI) (assumption, simp)
    qed
  next
    case False
    then show ?thesis
      using busy [OF assms(2)] assms(3) by (cases ph) simp_all
  qed
qed

text \<open>C25: No accepted job is left behind. Every step takes a new job, reports progress, or lowers the number
  of steps that the accepted jobs have left, at most three for each; as long as a job is not over, such
  a step is possible; and when none is left, every accepted job has exactly one final event.\<close>

theorem notes_jobs_complete:
  assumes "job_step\<^sup>*\<^sup>* empty_queue q"
  shows "(\<forall>q'. job_step q q' \<longrightarrow>
      (\<exists>job. jq_jobs q job = None \<and> q' = move job Waiting q) \<or>
      (\<exists>job p. q' = send (JobProgress job p) q) \<or> work_left q' < work_left q) \<and>
    work_left q \<le> 3 * card (dom (jq_jobs q)) \<and>
    (0 < work_left q \<longrightarrow> (\<exists>q'. job_step q q' \<and> work_left q' < work_left q)) \<and>
    (work_left q = 0 \<longrightarrow> (\<forall>job. jq_jobs q job \<noteq> None \<longrightarrow> finals job q = 1))"
proof -
  have ok: "queue_ok q"
    by (rule reachable_ok [OF assms])
  then have fin: "finite (dom (jq_jobs q))"
    by (simp add: queue_ok_def)
  have "steps_left x \<le> 3" for x
    by (cases x rule: steps_left.cases) simp_all
  then have "work_left q \<le> 3 * card (dom (jq_jobs q))"
    unfolding work_left_def using sum_bounded_above [of "dom (jq_jobs q)" "\<lambda>j. steps_left (jq_jobs q j)" 3]
    by (simp add: mult.commute)
  moreover have "\<exists>q'. job_step q q' \<and> work_left q' < work_left q" if "0 < work_left q"
  proof -
    from that obtain job ph where "jq_jobs q job = Some ph" "ph \<noteq> Finished"
      using no_work [OF fin] by auto
    then show ?thesis
      using step_possible [OF ok] by blast
  qed
  moreover have "finals job q = 1" if "work_left q = 0" "jq_jobs q job \<noteq> None" for job
    using that ok no_work [OF fin] by (auto simp: queue_ok_def reported_def)
  moreover note step_effect [OF _ fin]
  ultimately show ?thesis by blast
qed

theorem notes_jobs_complete_witness:
  "\<exists>q'. job_step (move ''j'' Waiting empty_queue) q' \<and> work_left q' < work_left (move ''j'' Waiting empty_queue)"
proof -
  have "job_step\<^sup>*\<^sup>* empty_queue (move ''j'' Waiting empty_queue)"
    by (rule r_into_rtranclp, rule accept) (simp add: empty_queue_def)
  moreover have "0 < work_left (move ''j'' Waiting empty_queue)"
    by (simp add: work_left_def empty_queue_def)
  ultimately show ?thesis
    using notes_jobs_complete by blast
qed

end
