(* ===== verification/Notes_Run.thy ===== *)
theory Notes_Run
  imports Engine Notes_Jobs Pipeline Merge Recursive_Asr Raw_Transcript
begin

text \<open>
  What a notes job does: \<open>run_notes_pipeline\<close> of \<open>panops-engine/src/server/handlers.rs\<close> with the
  transcription of one or two tracks, and \<open>collect_screenshots\<close> of \<open>screenshots.rs\<close>. The adapters are
  fields of an environment. A panic is \<open>None\<close>; the events of the job are collected in order. Sample
  counts are below \<open>2 ^ 54\<close>, so their products with 1000 do not overflow.
\<close>

section \<open>Environment\<close>

text \<open>
  \<open>nv_asr path i\<close> answers the calls for region \<open>i\<close> of a track; \<open>nv_read_dir\<close> lists the paths of the
  entries of a directory in some order. \<open>nv_transcript_json\<close> and \<open>nv_notes_json\<close> are serde's pretty
  printer, which may fail.
\<close>

record ('s, 'c) notes_env =
  nv_engine :: "('s, 'c) engine_env"
  nv_load_audio :: "fs \<Rightarrow> string \<Rightarrow> asr_error + f32 list \<times> u32"
  nv_detect_speech :: "f32 list \<Rightarrow> u32 \<Rightarrow> vad_error + speech_region list"
  nv_asr :: "string \<Rightarrow> nat \<Rightarrow> asr_provider"
  nv_asr_is_fake :: bool
  nv_diarize :: "fs \<Rightarrow> string \<Rightarrow> diar_error + speaker_turn list"
  nv_read_dir :: "fs \<Rightarrow> string \<Rightarrow> string list"
  nv_pipeline :: pipeline_env
  nv_export :: "structured_notes \<Rightarrow> string \<Rightarrow> fs \<Rightarrow> (export_error + export_artifact) \<times> fs"
  nv_transcript_json :: "transcript \<Rightarrow> string option"
  nv_notes_json :: "structured_notes \<Rightarrow> string option"

type_synonym 'a job_outcome = "(ipc_error + 'a) option"

definition job_then ::
  "'a job_outcome \<times> 't \<Rightarrow> ('a \<Rightarrow> 't \<Rightarrow> 'b job_outcome \<times> 't) \<Rightarrow> 'b job_outcome \<times> 't" where
  "job_then x f = (case x of (None, t) \<Rightarrow> (None, t) | (Some (Inl e), t) \<Rightarrow> (Some (Inl e), t) | (Some (Inr a), t) \<Rightarrow> f a t)"

definition job_progress_event ::
  "string \<Rightarrow> string \<Rightarrow> u32 option \<Rightarrow> u32 option \<Rightarrow> string option \<Rightarrow> ipc_event" where
  "job_progress_event job stage current tot message =
     JobProgress job \<lparr>jp_stage = stage, jp_current = current, jp_total = tot, jp_message = message\<rparr>"

section \<open>Transcription\<close>

definition total_audio_ms :: "f32 list \<Rightarrow> u32 \<Rightarrow> u64 option" where
  "total_audio_ms samples sample_rate =
     (if sample_rate = 0 then None else Some (length samples * 1000 div sample_rate))"

text \<open>The loop over the merged regions: \<open>i\<close> is the index of the first one left, of \<open>n\<close>.\<close>

fun transcribe_regions ::
  "('s, 'c) notes_env \<Rightarrow> string \<Rightarrow> string option \<Rightarrow> string \<Rightarrow> f32 list \<Rightarrow> u32 \<Rightarrow> string option \<Rightarrow> u64 \<Rightarrow> nat \<Rightarrow> nat
   \<Rightarrow> speech_region list \<Rightarrow> segment list \<Rightarrow> string option \<Rightarrow> ipc_event list
   \<Rightarrow> (segment list \<times> string option) job_outcome \<times> ipc_event list" where
  "transcribe_regions nv job message path samples sample_rate language total_ms n i [] segments model evs =
     (Some (Inr (segments, model)), evs)"
| "transcribe_regions nv job message path samples sample_rate language total_ms n i (r # rs) segments model evs =
     (let clamped = clamp_to r total_ms
      in if region_end_ms clamped \<le> region_start_ms clamped
         then transcribe_regions nv job message path samples sample_rate language total_ms n (Suc i) rs segments model evs
         else
           (let evs = evs @ [job_progress_event job ''transcribing'' (Some (Suc i mod 2 ^ 32)) (Some (n mod 2 ^ 32)) message]
            in case transcribe_recursive (nv_asr nv path i) (nv_asr_is_fake nv) samples sample_rate clamped language of
                 None \<Rightarrow> (None, evs)
               | Some (Inl e, calls) \<Rightarrow> (Some (Inl (ipc_of_asr e)), evs)
               | Some (Inr result, calls) \<Rightarrow>
                   transcribe_regions nv job message path samples sample_rate language total_ms n (Suc i) rs
                     (segments @ rr_segments result) (option_or model (rr_model result)) evs))"

definition transcribe_track_labeled ::
  "('s, 'c) notes_env \<Rightarrow> string \<Rightarrow> string option \<Rightarrow> string \<Rightarrow> f32 list \<Rightarrow> u32 \<Rightarrow> string option \<Rightarrow> ipc_event list
   \<Rightarrow> (segment list \<times> string option) job_outcome \<times> ipc_event list" where
  "transcribe_track_labeled nv job message path samples sample_rate language evs =
     (case nv_detect_speech nv samples sample_rate of
        Inl e \<Rightarrow> (Some (Inl (ipc_of_vad e)), evs)
      | Inr regions \<Rightarrow>
          (let merged = merge_adjacent_regions regions 5000
           in case total_audio_ms samples sample_rate of
                None \<Rightarrow> (None, evs)
              | Some total_ms \<Rightarrow>
                  transcribe_regions nv job message path samples sample_rate language total_ms (length merged) 0
                    merged [] None evs))"

definition transcribe_track ::
  "('s, 'c) notes_env \<Rightarrow> string \<Rightarrow> string \<Rightarrow> f32 list \<Rightarrow> u32 \<Rightarrow> string option \<Rightarrow> ipc_event list
   \<Rightarrow> (segment list \<times> string option) job_outcome \<times> ipc_event list" where
  "transcribe_track nv job path samples sample_rate language evs =
     transcribe_track_labeled nv job None path samples sample_rate language evs"

text \<open>One of the two capture tracks: its segments, the model and its duration.\<close>

definition capture_track ::
  "('s, 'c) notes_env \<Rightarrow> string \<Rightarrow> string \<Rightarrow> string option \<Rightarrow> string option \<Rightarrow> fs \<Rightarrow> ipc_event list
   \<Rightarrow> (segment list \<times> string option \<times> u64) job_outcome \<times> ipc_event list" where
  "capture_track nv job label wav language d evs =
     (case wav of
        None \<Rightarrow> (Some (Inr ([], None, 0)), evs)
      | Some path \<Rightarrow>
          (case nv_load_audio nv d path of
             Inl e \<Rightarrow> (Some (Inl (ipc_of_asr e)), evs)
           | Inr (samples, sr) \<Rightarrow>
               (case total_audio_ms samples sr of
                  None \<Rightarrow> (None, evs)
                | Some ms \<Rightarrow>
                    job_then (transcribe_track_labeled nv job (Some label) path samples sr language evs)
                      (\<lambda>(segs, m) evs. (Some (Inr (segs, m, ms)), evs)))))"

definition diarized_turns ::
  "('s, 'c) notes_env \<Rightarrow> string \<Rightarrow> string \<Rightarrow> bool \<Rightarrow> fs \<Rightarrow> ipc_event list
   \<Rightarrow> speaker_turn list job_outcome \<times> ipc_event list" where
  "diarized_turns nv job path no_diarize d evs =
     (if no_diarize then (Some (Inr []), evs)
      else (Some (map_sum ipc_of_diar id (nv_diarize nv d path)),
            evs @ [job_progress_event job ''diarizing'' None None None]))"

definition transcribe_two_track ::
  "('s, 'c) notes_env \<Rightarrow> string \<Rightarrow> string option \<Rightarrow> string option \<Rightarrow> string option \<Rightarrow> bool \<Rightarrow> fs \<Rightarrow> ipc_event list
   \<Rightarrow> transcript job_outcome \<times> ipc_event list" where
  "transcribe_two_track nv job system_wav mic_wav language no_diarize d evs =
     (if system_wav = None \<and> mic_wav = None
      then (Some (Inl (IpcInvalidInput ''two-track transcription requires at least one track'')), evs)
      else
        job_then (capture_track nv job ''mic track'' mic_wav language d evs) (\<lambda>(mic_segments, mic_model, mic_ms) evs.
        job_then (capture_track nv job ''system track'' system_wav language d evs) (\<lambda>(system_segments, system_model, system_ms) evs.
        job_then (case system_wav of None \<Rightarrow> (Some (Inr []), evs) | Some path \<Rightarrow> diarized_turns nv job path no_diarize d evs)
          (\<lambda>system_turns evs.
             case merge_two_track mic_segments system_segments system_turns of
               None \<Rightarrow> (None, evs)
             | Some segments \<Rightarrow>
                 (Some (Inr \<lparr>tr_schema_version = transcript_schema_version,
                     tr_model = (case option_or mic_model system_model of None \<Rightarrow> ''vad-multilingual'' | Some m \<Rightarrow> m),
                     tr_audio_path = (case option_or system_wav mic_wav of None \<Rightarrow> [] | Some p \<Rightarrow> p),
                     tr_audio_duration_ms = max mic_ms system_ms, tr_diarized = (\<not> no_diarize),
                     tr_segments = segments\<rparr>), evs)))))"

definition transcribe_file ::
  "('s, 'c) notes_env \<Rightarrow> string \<Rightarrow> string \<Rightarrow> string option \<Rightarrow> bool \<Rightarrow> fs \<Rightarrow> ipc_event list
   \<Rightarrow> transcript job_outcome \<times> ipc_event list" where
  "transcribe_file nv job audio_path language no_diarize d evs =
     (case nv_load_audio nv d audio_path of
        Inl e \<Rightarrow> (Some (Inl (ipc_of_asr e)), evs)
      | Inr (samples, sample_rate) \<Rightarrow>
          (case total_audio_ms samples sample_rate of
             None \<Rightarrow> (None, evs)
           | Some ms \<Rightarrow>
               job_then (transcribe_track nv job audio_path samples sample_rate language evs) (\<lambda>(segments, model) evs.
               job_then (diarized_turns nv job audio_path no_diarize d evs) (\<lambda>turns evs.
                 (Some (Inr \<lparr>tr_schema_version = transcript_schema_version,
                     tr_model = (case model of None \<Rightarrow> ''vad-multilingual'' | Some m \<Rightarrow> m),
                     tr_audio_path = audio_path, tr_audio_duration_ms = ms, tr_diarized = (\<not> no_diarize),
                     tr_segments = (if no_diarize then segments else merge_speaker_turns segments turns)\<rparr>), evs)))))"

section \<open>Screenshots\<close>

text \<open>\<open>read_dir\<close> lists the paths of the entries of a directory.\<close>

definition screenshots_in ::
  "(fs \<Rightarrow> string \<Rightarrow> string list) \<Rightarrow> string \<Rightarrow> u64 \<Rightarrow> fs \<Rightarrow> screenshot list" where
  "screenshots_in read_dir dir duration_ms d =
     (if d dir \<noteq> Some FsDir then []
      else
        (let files = sort (filter (is_file d) (read_dir d dir))
         in if files = [] then []
            else
              (let step = duration_ms div length files
               in map (\<lambda>(i, path). \<lparr>shot_ms = i * step, shot_path = path, shot_caption = None\<rparr>)
                    (enumerate 0 files))))"

definition collect_screenshots ::
  "('s, 'c) notes_env \<Rightarrow> string \<Rightarrow> u64 \<Rightarrow> fs \<Rightarrow> screenshot list" where
  "collect_screenshots nv = screenshots_in (nv_read_dir nv)"

section \<open>The job\<close>

definition write_structured_notes_json ::
  "('s, 'c) notes_env \<Rightarrow> structured_notes \<Rightarrow> string \<Rightarrow> fs \<Rightarrow> string option \<times> fs" where
  "write_structured_notes_json nv sn out_dir d =
     (case nv_notes_json nv sn of
        None \<Rightarrow> (None, d)
      | Some json \<Rightarrow>
          (let notes_json_path = path_join out_dir ''notes.json'';
               partial = path_join out_dir ''notes.json.partial''
           in case fs_write partial json d of
                Inl _ \<Rightarrow> (None, d)
              | Inr d \<Rightarrow>
                  (case rename_file partial notes_json_path d of
                     None \<Rightarrow> (None, d)
                   | Some d \<Rightarrow> (Some notes_json_path, d))))"

text \<open>The meeting of the job: the given one, or one that is made for the audio file.\<close>

definition job_meeting ::
  "('s, 'c) notes_env \<Rightarrow> request_time \<Rightarrow> notes_generate_params \<Rightarrow> string \<Rightarrow> ('s, 'c) engine
   \<Rightarrow> (string \<times> string) ipc_result \<times> ('s, 'c) engine" where
  "job_meeting nv now params audio_path en =
     (let ev = nv_engine nv
      in case ng_meeting_id params of
           Some i \<Rightarrow>
             and_then (ask ev (GetMeeting i) as_meeting en) (\<lambda>m en.
               and_then (checked_dir ev (mt_dir_path m) en) (\<lambda>safe_dir en. (Inr (i, safe_dir), en)))
         | None \<Rightarrow>
             create_meeting_dir_and_row ev now
               (case file_stem audio_path of None \<Rightarrow> ''untitled'' | Some s \<Rightarrow> s)
               (case ng_language params of None \<Rightarrow> ''auto'' | Some l \<Rightarrow> l) en)"

text \<open>A meeting that was captured has its tracks in its directory; they go before the given file.\<close>

definition transcribe_meeting ::
  "('s, 'c) notes_env \<Rightarrow> string \<Rightarrow> notes_generate_params \<Rightarrow> string \<Rightarrow> string \<Rightarrow> fs \<Rightarrow> ipc_event list
   \<Rightarrow> transcript job_outcome \<times> ipc_event list" where
  "transcribe_meeting nv job params audio_path out_dir d evs =
     (let existing = (\<lambda>name. let p = path_join out_dir name in if d p = None then None else Some p);
          system_wav = existing ''system.wav'';
          mic_wav = existing ''mic.wav'';
          no_diarize = (ng_no_diarize params = Some True)
      in if system_wav \<noteq> None \<or> mic_wav \<noteq> None
         then transcribe_two_track nv job system_wav mic_wav (ng_language params) no_diarize d evs
         else transcribe_file nv job audio_path (ng_language params) no_diarize d evs)"

text \<open>The first half: the checks, the meeting and the transcript.\<close>

definition job_transcript ::
  "('s, 'c) notes_env \<Rightarrow> request_time \<Rightarrow> string \<Rightarrow> notes_generate_params \<Rightarrow> ('s, 'c) engine
   \<Rightarrow> (string \<times> string \<times> transcript) job_outcome \<times> ('s, 'c) engine \<times> ipc_event list" where
  "job_transcript nv now job params en =
     (case en_heavy en of
        Failed m \<Rightarrow> (Some (Inl (IpcInternal (''adapter init failed: '' @ m))), en, [])
      | WarmingUp \<Rightarrow> (Some (Inl (IpcProviderUnavailable ''engine warming up; retry shortly'')), en, [])
      | Ready \<Rightarrow>
          if trim (ng_audio params) = []
          then (Some (Inl (IpcInvalidInput ''audio path is empty'')), en, [])
          else
            (case ev_canonicalize (nv_engine nv) (en_fs en) (ng_audio params) of
               None \<Rightarrow> (Some (Inl (IpcInputNotFound (ng_audio params))), en, [])
             | Some audio_path \<Rightarrow>
                 (let evs = [job_progress_event job ''loading'' None None None]
                  in case job_meeting nv now params audio_path en of
                       (Inl e, en) \<Rightarrow> (Some (Inl e), en, evs)
                     | (Inr (i, out_dir), en) \<Rightarrow>
                         (case transcribe_meeting nv job params audio_path out_dir (en_fs en) evs of
                            (outcome, evs) \<Rightarrow>
                              (map_option (map_sum id (\<lambda>t. (i, out_dir, t))) outcome, en, evs)))))"

text \<open>The transcript is put on disk before the notes are generated, as JSON and as text.\<close>

definition write_transcript ::
  "('s, 'c) notes_env \<Rightarrow> transcript \<Rightarrow> string \<Rightarrow> fs \<Rightarrow> string option \<times> fs" where
  "write_transcript nv t out_dir d =
     (let d = (case nv_transcript_json nv t of
                 None \<Rightarrow> d
               | Some json \<Rightarrow>
                   (case fs_write (path_join out_dir ''transcript.json'') json d of Inl _ \<Rightarrow> d | Inr d \<Rightarrow> d))
      in case write_raw_transcript (tr_segments t) out_dir d of
           Inl _ \<Rightarrow> (None, d)
         | Inr (d, p) \<Rightarrow> (Some p, d))"

definition job_input ::
  "('s, 'c) notes_env \<Rightarrow> notes_generate_params \<Rightarrow> string \<Rightarrow> transcript \<Rightarrow> string \<Rightarrow> fs \<Rightarrow> notes_input" where
  "job_input nv params started_at t out_dir d =
     \<lparr>ni_transcript = tr_segments t,
      ni_screenshots = collect_screenshots nv (path_join out_dir ''screenshots'') (tr_audio_duration_ms t) d,
      ni_metadata = \<lparr>mm_started_at = started_at, mm_duration_ms = tr_audio_duration_ms t,
        mm_source_path = Some (tr_audio_path t), mm_language_hint = ng_language params\<rparr>\<rparr>"

definition job_dialect :: "notes_generate_params \<Rightarrow> markdown_dialect" where
  "job_dialect params = (case ng_dialect params of Some Basic \<Rightarrow> Basic | _ \<Rightarrow> NotionEnhanced)"

text \<open>The second half: notes, export, sidecar and row. Only generation and export can fail.\<close>

definition job_notes ::
  "('s, 'c) notes_env \<Rightarrow> request_time \<Rightarrow> string \<Rightarrow> notes_generate_params \<Rightarrow> string \<Rightarrow> string \<Rightarrow> transcript
   \<Rightarrow> string option \<Rightarrow> ('s, 'c) engine \<Rightarrow> ipc_event list
   \<Rightarrow> notes_generate_result job_outcome \<times> ('s, 'c) engine \<times> ipc_event list" where
  "job_notes nv now job params i out_dir t txt_path en evs =
     (let dialect = job_dialect params;
          input = job_input nv params (rt_rfc3339 now) t out_dir (en_fs en);
          evs = evs @ [job_progress_event job ''generating_notes'' None None None]
      in case fst (generate (nv_pipeline nv) dialect input) of
           Inl e \<Rightarrow> (Some (Inl (ipc_of_notes e)), en, evs)
         | Inr sn \<Rightarrow>
             (let evs = evs @ [job_progress_event job ''exporting'' None None None]
              in case nv_export nv sn out_dir (en_fs en) of
                   (Inl e, d) \<Rightarrow> (Some (Inl (ipc_of_export e)), en\<lparr>en_fs := d\<rparr>, evs)
                 | (Inr artifact, d) \<Rightarrow>
                     (let d = snd (write_structured_notes_json nv sn out_dir d);
                          content = (case d (ea_primary_file artifact) of Some (FsFile c) \<Rightarrow> c | _ \<Rightarrow> []);
                          (n, en) = fresh_id (nv_engine nv) (en\<lparr>en_fs := d\<rparr>);
                          (r, en) = ask (nv_engine nv) (CreateNote (rt_clock now)
                            \<lparr>nd_id = n, nd_meeting_id = i, nd_dialect = dialect_as_str dialect,
                             nd_content_md = content, nd_primary_path = ea_primary_file artifact\<rparr>) as_unit en
                      in (Some (Inr \<lparr>nr_primary_file = ea_primary_file artifact, nr_assets = ea_assets artifact,
                                     nr_meeting_id = i, nr_transcript_txt_path = txt_path\<rparr>), en, evs))))"

definition run_notes_pipeline ::
  "('s, 'c) notes_env \<Rightarrow> request_time \<Rightarrow> string \<Rightarrow> notes_generate_params \<Rightarrow> ('s, 'c) engine
   \<Rightarrow> notes_generate_result job_outcome \<times> ('s, 'c) engine \<times> ipc_event list" where
  "run_notes_pipeline nv now job params en =
     job_then (job_transcript nv now job params en) (\<lambda>(i, out_dir, t) (en, evs).
       case (if en_fs en out_dir \<noteq> None then Inr (en_fs en) else create_dir_all out_dir (en_fs en)) of
         Inl _ \<Rightarrow> (Some (Inl (IpcInternal ''failed to prepare output directory'')), en, evs)
       | Inr d \<Rightarrow>
           (case write_transcript nv t out_dir d of
              (txt_path, d) \<Rightarrow> job_notes nv now job params i out_dir t txt_path (en\<lparr>en_fs := d\<rparr>) evs))"

text \<open>What the task of the job sends in the end.\<close>

definition notes_job ::
  "('s, 'c) notes_env \<Rightarrow> request_time \<Rightarrow> string \<Rightarrow> notes_generate_params \<Rightarrow> ('s, 'c) engine
   \<Rightarrow> ('s, 'c) engine \<times> ipc_event list" where
  "notes_job nv now job params en =
     (case run_notes_pipeline nv now job params en of
        (outcome, en, evs) \<Rightarrow> (en, evs @ [final_event job outcome]))"

end
