(* ===== verification/Engine_Correct.thy ===== *)
theory Engine_Correct
  imports Engine Sqlite_Correct Memory_Correct
begin

text \<open>
  The engine server as a client of its ports. The locale \<open>engine_server\<close> puts the storage port and the
  capture port together; in it every request keeps the invariant of the engine: the registry is
  consistent, every meeting has the directory that was made for it, and the recordings the engine
  remembers are active in the capture adapter. The SQLite adapter with the fake capture is an
  \<open>engine_server\<close>, and the properties are stated for it.
\<close>

section \<open>The invariant\<close>

definition dir_of :: "string \<Rightarrow> string \<Rightarrow> string" where
  "dir_of data_dir i = path_join (meetings_root data_dir) i"

definition one_name :: "string \<Rightarrow> bool" where
  "one_name i = (i \<notin> {[], ''.'', ''..''} \<and> CHR ''/'' \<notin> set i)"

definition dirs_managed :: "string \<Rightarrow> (string \<rightharpoonup> meeting) \<Rightarrow> bool" where
  "dirs_managed data_dir ms =
     (\<forall>i m. ms i = Some m \<longrightarrow> mt_dir_path m = dir_of data_dir i \<and> one_name i)"

definition sessions_tracked :: "('c \<Rightarrow> string \<Rightarrow> 'a option) \<Rightarrow> ('s, 'c) engine \<Rightarrow> bool" where
  "sessions_tracked active en =
     (dom (en_sessions en) = dom (en_auto_notes en) \<and>
      (\<forall>m sess. en_sessions en m = Some sess \<longrightarrow>
         cs_meeting_id sess = m \<and> active (en_capture en) m \<noteq> None))"

definition engine_inv ::
  "('s \<Rightarrow> bool) \<Rightarrow> ('s \<Rightarrow> registry) \<Rightarrow> ('c \<Rightarrow> string \<Rightarrow> 'a option) \<Rightarrow> string \<Rightarrow> ('s, 'c) engine \<Rightarrow> bool" where
  "engine_inv ok abs_of active data_dir en =
     (ok (en_storage en) \<and> registry_ok (abs_of (en_storage en)) \<and>
      dirs_managed data_dir (rg_meetings (abs_of (en_storage en))) \<and> sessions_tracked active en)"

text \<open>
  What the libraries of the environment do: chrono's times fit in 63 bits of milliseconds with room
  for a difference, and a UUID is a name.
\<close>

definition env_ok ::
  "(storage_call \<Rightarrow> 's \<Rightarrow> storage_reply \<times> 's)
   \<Rightarrow> (u64 \<Rightarrow> string \<Rightarrow> string \<Rightarrow> capture_config \<Rightarrow> 'c \<Rightarrow> fs \<Rightarrow> capture_session capture_outcome \<times> 'c \<times> fs)
   \<Rightarrow> (u64 \<Rightarrow> capture_session \<Rightarrow> 'c \<Rightarrow> fs \<Rightarrow> capture_result capture_outcome \<times> 'c \<times> fs)
   \<Rightarrow> ('s, 'c) engine_env \<Rightarrow> bool" where
  "env_ok exec start stop ev =
     (ev_exec ev = exec \<and> ev_start_capture ev = start \<and> ev_stop_capture ev = stop \<and>
      (\<forall>t x. ev_parse_rfc3339 ev t = Some x \<longrightarrow> \<bar>x\<bar> < 2 ^ 62) \<and> (\<forall>n. one_name (ev_uuid_simple ev n)))"

primrec run_requests ::
  "('s, 'c) engine_env \<Rightarrow> (request_time \<times> ipc_request) list \<Rightarrow> ('s, 'c) engine \<Rightarrow> ('s, 'c) engine" where
  "run_requests ev [] en = en"
| "run_requests ev (x # xs) en = run_requests ev xs (snd (handle ev (fst x) (snd x) en))"

definition new_engine :: "'s \<Rightarrow> 'c \<Rightarrow> fs \<Rightarrow> heavy_state \<Rightarrow> ('s, 'c) engine" where
  "new_engine st c d heavy =
     \<lparr>en_storage = st, en_fs = d, en_capture = c, en_sessions = (\<lambda>_. None), en_auto_notes = (\<lambda>_. None),
      en_uuids = 0, en_jobs = [], en_heavy = heavy\<rparr>"

section \<open>Storage calls of the engine\<close>

text \<open>The engine creates meetings only with the directory it made.\<close>

definition managed_call :: "string \<Rightarrow> storage_call \<Rightarrow> bool" where
  "managed_call data_dir c =
     (case c of
        CreateMeeting d \<Rightarrow> md_dir_path d = dir_of data_dir (md_id d) \<and> one_name (md_id d)
      | CreateMeetingWithNote now d n e dur \<Rightarrow> False
      | _ \<Rightarrow> True)"

lemma managed_call_simps [simp]:
  "managed_call data_dir (CreateMeeting d) =
     (md_dir_path d = dir_of data_dir (md_id d) \<and> one_name (md_id d))"
  "managed_call data_dir (GetMeeting i)" "managed_call data_dir ListMeetings"
  "managed_call data_dir (ListMeetingsFiltered f)" "managed_call data_dir (UpdateMeetingEnded i e ms)"
  "managed_call data_dir (RenameMeeting i t)" "managed_call data_dir (DeleteMeeting i)"
  "managed_call data_dir (CreateNote now n)" "managed_call data_dir (ListNotesForMeeting i)"
  "managed_call data_dir (ReplaceMeetingNote now i n)" "managed_call data_dir (CreateSpace now t)"
  "managed_call data_dir ListSpaces" "managed_call data_dir (RenameSpace i t)"
  "managed_call data_dir (DeleteSpace i)" "managed_call data_dir (CreateProject now i t)"
  "managed_call data_dir (ListProjects p)" "managed_call data_dir (RenameProject i t)"
  "managed_call data_dir (DeleteProject i)" "managed_call data_dir (CreateTag now t)"
  "managed_call data_dir ListTags" "managed_call data_dir (DeleteTag i)"
  "managed_call data_dir (TagMeeting i t)" "managed_call data_dir (UntagMeeting i t)"
  "managed_call data_dir (AssignMeeting i sp p)"
  by (simp_all add: managed_call_def)

lemma dirs_managed_upd:
  "dirs_managed data_dir ms \<Longrightarrow> mt_dir_path m = dir_of data_dir i \<Longrightarrow> one_name i \<Longrightarrow>
    dirs_managed data_dir (ms(i \<mapsto> m))"
  by (simp add: dirs_managed_def)

lemma dirs_managed_drop: "dirs_managed data_dir ms \<Longrightarrow> dirs_managed data_dir (ms(i := None))"
  by (simp add: dirs_managed_def)

lemma dirs_managedD: "dirs_managed data_dir ms \<Longrightarrow> ms i = Some m \<Longrightarrow> mt_dir_path m = dir_of data_dir i \<and> one_name i"
  by (simp add: dirs_managed_def)

lemma meetings_after [simp]:
  "rg_meetings (reg_add_note n r) = rg_meetings r"
  "rg_meetings (reg_drop_notes i r) = rg_meetings r"
  "rg_meetings (reg_delete_projects P r) = rg_meetings r"
  "rg_meetings (reg_delete_space i r) = rg_meetings r"
  "rg_meetings (reg_delete_tag i r) = rg_meetings r"
  "rg_meetings (reg_place i sp p r) = rg_meetings r"
  "rg_meetings (reg_delete_meeting i r) = (rg_meetings r)(i := None)"
  "rg_meetings (reg_add_meeting m r) = (rg_meetings r)(mt_id m \<mapsto> m)"
  by (simp_all add: reg_add_note_def reg_drop_notes_def reg_delete_projects_def reg_delete_space_def
      reg_delete_tag_def reg_place_def reg_delete_meeting_def reg_add_meeting_def Let_def)

lemma spec_update_managed:
  assumes "guarded [missing ''meeting'' i (rg_meetings r)] r x r'
      (x = RMeeting (f (the (rg_meetings r i))) \<and> r' = reg_add_meeting (f (the (rg_meetings r i))) r)"
    and "registry_ok r" and "dirs_managed data_dir (rg_meetings r)"
    and "\<And>m. mt_id (f m) = mt_id m" and "\<And>m. mt_dir_path (f m) = mt_dir_path m"
  shows "dirs_managed data_dir (rg_meetings r')"
proof (cases "rg_meetings r i")
  case (Some m)
  then have "mt_id m = i" and "mt_dir_path m = dir_of data_dir i" and "one_name i"
    using registry_ok_meetingD [OF assms(2)] dirs_managedD [OF assms(3)] by blast+
  with Some assms show ?thesis
    by (auto simp: guarded_def intro!: dirs_managed_upd)
qed (use assms in \<open>simp add: guarded_def\<close>)

lemma spec_keeps_managed:
  assumes "spec c r x r'" and "registry_ok r" and "dirs_managed data_dir (rg_meetings r)"
    and "managed_call data_dir c"
  shows "dirs_managed data_dir (rg_meetings r')"
proof (cases c)
  case (CreateMeeting d)
  then have "r' = r \<or> r' = reg_add_meeting (meeting_of_draft d None None) r"
    using assms(1) by (auto simp: Let_def split: if_splits)
  with assms(3,4) CreateMeeting show ?thesis
    by (auto simp: managed_call_def meeting_of_draft_def intro!: dirs_managed_upd)
next
  case (UpdateMeetingEnded i e d)
  with assms(1) spec_update_managed [OF _ assms(2,3), of i x r'
      "\<lambda>m. m\<lparr>mt_ended_at := Some e, mt_duration_ms := Some d\<rparr>"] show ?thesis
    by (simp add: Let_def)
next
  case (RenameMeeting i t)
  with assms(1) spec_update_managed [OF _ assms(2,3), of i x r' "\<lambda>m. m\<lparr>mt_title := t\<rparr>"] show ?thesis
    by (simp add: Let_def)
next
  case (DeleteMeeting i)
  then have "r' = r \<or> r' = reg_delete_meeting i r"
    using assms(1) by (auto elim!: guardedE split: if_splits)
  with assms(3) show ?thesis
    by (auto intro: dirs_managed_drop)
next
  case (CreateMeetingWithNote now d n e dur)
  with assms(4) show ?thesis
    by (simp add: managed_call_def)
next
  case (AssignMeeting i sp p)
  then have "rg_meetings r' = rg_meetings r"
    using assms(1) by (auto elim!: guardedE split: option.splits if_splits)
  with assms(3) show ?thesis by simp
next
  case (CreateTag now n)
  then have "rg_meetings r' = rg_meetings r"
    using assms(1) by (auto split: if_splits)
  with assms(3) show ?thesis by simp
qed (use assms(1,3) in \<open>auto elim!: guardedE simp: Let_def split: if_splits\<close>)

lemma ask_state: "snd (ask ev c rd en) = en\<lparr>en_storage := snd (ev_exec ev c (en_storage en))\<rparr>"
  by (auto simp: ask_def split: prod.splits storage_reply.splits)

lemma ask_reply:
  "fst (ask ev c rd en) = (case fst (ev_exec ev c (en_storage en)) of
      RErr e \<Rightarrow> Inl (ipc_of_storage e) | r \<Rightarrow> rd r)"
  by (auto simp: ask_def split: prod.splits storage_reply.splits)

lemma checked_dir_state [simp]: "snd (checked_dir ev p en) = en"
  by (simp add: checked_dir_def)

lemma answer_state [simp]: "snd (answer f r) = snd r"
  by (simp add: answer_def)

lemma and_then_keeps:
  assumes "P (snd x)" and "\<And>a s. x = (Inr a, s) \<Longrightarrow> P s \<Longrightarrow> P (snd (f a s))"
  shows "P (snd (and_then x f))"
  using assms by (auto simp: and_then_def split: prod.splits sum.splits)

lemma sessions_tracked_frame [simp]:
  "sessions_tracked active (en\<lparr>en_storage := st\<rparr>) = sessions_tracked active en"
  "sessions_tracked active (en\<lparr>en_fs := d\<rparr>) = sessions_tracked active en"
  "sessions_tracked active (en\<lparr>en_uuids := n\<rparr>) = sessions_tracked active en"
  "sessions_tracked active (en\<lparr>en_jobs := js\<rparr>) = sessions_tracked active en"
  by (simp_all add: sessions_tracked_def)

lemma engine_inv_frame [simp]:
  "engine_inv ok abs_of active data_dir (en\<lparr>en_fs := d\<rparr>) = engine_inv ok abs_of active data_dir en"
  "engine_inv ok abs_of active data_dir (en\<lparr>en_uuids := n\<rparr>) = engine_inv ok abs_of active data_dir en"
  "engine_inv ok abs_of active data_dir (en\<lparr>en_jobs := js\<rparr>) = engine_inv ok abs_of active data_dir en"
  by (simp_all add: engine_inv_def)

section \<open>The interface\<close>

locale engine_server =
  store: storage_port exec ok abs_of init + cap: capture_port start_capture stop_capture active
  for exec :: "storage_call \<Rightarrow> 's \<Rightarrow> storage_reply \<times> 's" and ok abs_of init
    and start_capture :: "u64 \<Rightarrow> string \<Rightarrow> string \<Rightarrow> capture_config \<Rightarrow> 'c \<Rightarrow> fs
        \<Rightarrow> capture_session capture_outcome \<times> 'c \<times> fs"
    and stop_capture active
begin

lemma inv_ask:
  assumes "ev_exec ev = exec" and "engine_inv ok abs_of active data_dir en" and "call_ok c"
    and "managed_call data_dir c"
  shows "engine_inv ok abs_of active data_dir (snd (ask ev c rd en))"
proof -
  have ok: "ok (en_storage en)" and reg: "registry_ok (abs_of (en_storage en))"
    using assms(2) by (simp_all add: engine_inv_def)
  note spec = store.exec_spec [OF ok assms(3)]
  show ?thesis
    using assms store.exec_ok [OF ok assms(3)] spec_keeps_registry_ok [OF spec reg]
      spec_keeps_managed [OF spec reg _ assms(4)]
    by (simp add: ask_state engine_inv_def)
qed

lemma inv_ask_eq:
  "ask ev c rd en = (r, en') \<Longrightarrow> ev_exec ev = exec \<Longrightarrow> engine_inv ok abs_of active data_dir en \<Longrightarrow> call_ok c \<Longrightarrow>
    managed_call data_dir c \<Longrightarrow> engine_inv ok abs_of active data_dir en'"
  using inv_ask [of ev data_dir en c rd] by simp

lemmas inv_and_then = and_then_keeps [where P = "engine_inv ok abs_of active data_dir" for data_dir]

lemma inv_start:
  assumes "env_ok exec start_capture stop_capture ev" and "ev_data_dir ev = data_dir"
    and "engine_inv ok abs_of active data_dir en"
  shows "engine_inv ok abs_of active data_dir (snd (create_meeting_dir_and_row ev now title language en))"
proof -
  have ev: "ev_exec ev = exec" "one_name (ev_uuid_simple ev n)" for n
    using assms(1) by (simp_all add: env_ok_def)
  show ?thesis
    using assms(3) ev unfolding assms(2) [symmetric]
    by (auto simp: create_meeting_dir_and_row_def fresh_id_def Let_def dir_of_def meetings_root_def
        dest!: inv_ask_eq [where data_dir = "ev_data_dir ev"] split: sum.splits option.splits prod.splits)
qed

lemma inv_meeting_stop:
  assumes "env_ok exec start_capture stop_capture ev" and "engine_inv ok abs_of active data_dir en"
  shows "engine_inv ok abs_of active data_dir (snd (meeting_stop ev now i en))"
proof -
  have ev: "ev_exec ev = exec"
    using assms(1) by (simp add: env_ok_def)
  have small: "nat (max (b - a) 0) < 2 ^ 63"
    if "ev_parse_rfc3339 ev t = Some a" "ev_parse_rfc3339 ev u = Some b" for a b t u
  proof -
    have "\<bar>a\<bar> < 2 ^ 62" and "\<bar>b\<bar> < 2 ^ 62"
      using assms(1) that unfolding env_ok_def by blast+
    then show ?thesis by auto
  qed
  show ?thesis
    unfolding meeting_stop_def
  proof (rule inv_and_then)
    show "engine_inv ok abs_of active data_dir (snd (ask ev (GetMeeting i) as_meeting en))"
      by (rule inv_ask [OF ev assms(2)]) simp_all
    fix m s
    assume s: "engine_inv ok abs_of active data_dir s"
    have "engine_inv ok abs_of active data_dir (snd (ask ev (UpdateMeetingEnded i e (nat (max (b - a) 0))) as_meeting s))"
      if "ev_parse_rfc3339 ev t = Some a" "ev_parse_rfc3339 ev u = Some b" for a b t u e
      using inv_ask [OF ev s, of "UpdateMeetingEnded i e (nat (max (b - a) 0))"] small [OF that]
      by simp
    then show "engine_inv ok abs_of active data_dir (snd (case ev_parse_rfc3339 ev (mt_started_at m) of
         None \<Rightarrow> (Inl (IpcInternal ''internal time-parse error''), s)
       | Some started \<Rightarrow>
           (case ev_parse_rfc3339 ev (rt_rfc3339 now) of
              None \<Rightarrow> (Inl (IpcInternal ''internal time-format error''), s)
            | Some ended \<Rightarrow>
                ask ev (UpdateMeetingEnded i (rt_rfc3339 now) (nat (max (ended - started) 0))) as_meeting s)))"
      using s by (auto split: option.splits)
  qed
qed

lemma inv_meeting_delete:
  assumes "ev_exec ev = exec" and "engine_inv ok abs_of active data_dir en"
  shows "engine_inv ok abs_of active data_dir (snd (meeting_delete ev i en))"
  unfolding meeting_delete_def
  using assms
  by (intro inv_and_then inv_ask) (auto simp: split: option.splits)

lemma inv_delete_video:
  assumes "ev_exec ev = exec" and "engine_inv ok abs_of active data_dir en"
  shows "engine_inv ok abs_of active data_dir (snd (meeting_delete_video ev i en))"
  unfolding meeting_delete_video_def Let_def
  using assms
  by (intro inv_and_then inv_ask) (auto simp: split: option.splits fs_node.splits)

lemma inv_notes_save:
  assumes "ev_exec ev = exec" and "engine_inv ok abs_of active data_dir en"
  shows "engine_inv ok abs_of active data_dir (snd (notes_save ev now i markdown en))"
  unfolding notes_save_def Let_def
  using assms
  by (intro inv_and_then inv_ask)
    (auto simp: fresh_id_def fresh_uuid_def split: option.splits sum.splits
      intro!: inv_ask)

lemma inv_recording_start:
  assumes "env_ok exec start_capture stop_capture ev" and "engine_inv ok abs_of active data_dir en"
  shows "engine_inv ok abs_of active data_dir (snd (recording_start ev now params en))"
proof -
  have ev: "ev_exec ev = exec" "ev_start_capture ev = start_capture"
    using assms(1) by (simp_all add: env_ok_def)
  have started: "engine_inv ok abs_of active data_dir (e\<lparr>en_capture := c, en_fs := d,
      en_sessions := (en_sessions e)(i \<mapsto> sess), en_auto_notes := (en_auto_notes e)(i \<mapsto> b)\<rparr>)"
    if "start_capture t i dir cfg (en_capture e) (en_fs e) = (Inr sess, c, d)"
      and "engine_inv ok abs_of active data_dir e" for t i dir cfg e sess c d b
    using cap.starts [OF that(1)] that(2) by (auto simp: engine_inv_def sessions_tracked_def)
  have refused: "engine_inv ok abs_of active data_dir (e\<lparr>en_capture := c\<rparr>)"
    if "start_capture t i dir cfg (en_capture e) (en_fs e) = (Inl x, c, d)"
      and "engine_inv ok abs_of active data_dir e" for t i dir cfg e x c d
    using cap.start_fails [OF that(1)] that(2) by simp
  show ?thesis
    unfolding recording_start_def Let_def
    using ev assms(2)
    by (intro inv_and_then inv_ask) (auto intro: started refused split: prod.splits sum.splits)
qed

lemma inv_enqueue:
  "engine_inv ok abs_of active data_dir en \<Longrightarrow>
    engine_inv ok abs_of active data_dir (snd (enqueue_notes_job ev params en))"
  by (simp add: enqueue_notes_job_def fresh_uuid_def Let_def)

lemma inv_auto_notes:
  assumes "ev_exec ev = exec" and "engine_inv ok abs_of active data_dir en"
  shows "engine_inv ok abs_of active data_dir (snd (maybe_enqueue_auto_notes ev i stopped en))"
  using inv_ask [OF assms, of "GetMeeting i" as_meeting] assms(2)
  by (auto simp: maybe_enqueue_auto_notes_def Let_def case_prod_beta split: sum.splits option.splits
      intro!: inv_enqueue)

lemma inv_extract:
  assumes "ev_exec ev = exec" and "engine_inv ok abs_of active data_dir en"
  shows "engine_inv ok abs_of active data_dir (snd (extract_screenshots_post_recording ev i sess en))"
  using inv_ask [OF assms, of "GetMeeting i" as_meeting]
  by (auto simp: extract_screenshots_post_recording_def resolve_extract_plan_def Let_def ask_state
      split: prod.splits sum.splits storage_reply.splits option.splits if_splits)

lemma inv_recording_stop:
  assumes "env_ok exec start_capture stop_capture ev" and inv: "engine_inv ok abs_of active data_dir en"
  shows "engine_inv ok abs_of active data_dir (snd (recording_stop ev now i en))"
proof -
  have ev: "ev_exec ev = exec" "ev_stop_capture ev = stop_capture"
    using assms(1) by (simp_all add: env_ok_def)
  show ?thesis
  proof (cases "en_sessions en i")
    case None
    then have "en_auto_notes en i = None"
      using inv by (auto simp: engine_inv_def sessions_tracked_def)
    then have "(en_auto_notes en)(i := None) = en_auto_notes en"
      by (simp add: fun_upd_idem)
    with None inv show ?thesis
      by (simp add: recording_stop_def)
  next
    case (Some sess)
    obtain x c d where stop: "stop_capture (rt_ms now) sess (en_capture en) (en_fs en) = (x, c, d)"
      by (metis prod_cases3)
    have "cs_meeting_id sess = i"
      using inv Some by (auto simp: engine_inv_def sessions_tracked_def)
    then have "active c = active (en_capture en) \<or> active c = (active (en_capture en))(i := None)"
      using cap.stops cap.stop_fails stop by (cases x) (metis (no_types, lifting))+
    then have rest: "engine_inv ok abs_of active data_dir (en\<lparr>en_auto_notes := (en_auto_notes en)(i := None),
        en_sessions := (en_sessions en)(i := None), en_capture := c, en_fs := d\<rparr>)"
      using inv by (auto simp: engine_inv_def sessions_tracked_def)
    show ?thesis
      using Some stop rest inv_extract [OF ev(1) rest, of i sess]
      by (auto simp: recording_stop_def Let_def ev(2) case_prod_beta split: sum.splits
          intro!: inv_auto_notes [OF ev(1)])
  qed
qed

lemma handle_keeps:
  assumes "env_ok exec start_capture stop_capture ev" and "ev_data_dir ev = data_dir"
    and "engine_inv ok abs_of active data_dir en"
  shows "engine_inv ok abs_of active data_dir (snd (handle ev now q en))"
proof -
  have ev: "ev_exec ev = exec"
    using assms(1) by (simp add: env_ok_def)
  note calls = inv_ask [OF ev assms(3)]
  show ?thesis
  proof (cases q)
    case (MeetingList f)
    then show ?thesis
      by (cases f) (simp_all add: calls)
  next
    case (MeetingStart c)
    then show ?thesis
      using inv_start [OF assms]
      by (auto simp: meeting_start_def and_then_def split: prod.splits sum.splits) (metis snd_conv)+
  next
    case (NotesGenerate p)
    then show ?thesis
      using inv_enqueue [OF assms(3), of ev p] by (simp add: case_prod_beta)
  qed (simp_all add: calls assms inv_meeting_stop inv_meeting_delete inv_delete_video inv_notes_save
      inv_recording_start inv_recording_stop ev)
qed

lemma requests_keep:
  assumes "env_ok exec start_capture stop_capture ev" and "ev_data_dir ev = data_dir"
    and "engine_inv ok abs_of active data_dir en"
  shows "engine_inv ok abs_of active data_dir (run_requests ev qs en)"
  using assms(3) by (induction qs arbitrary: en) (simp_all add: handle_keeps [OF assms(1,2)])

lemma new_engine_inv: "engine_inv ok abs_of active data_dir (new_engine init c d heavy)"
  using store.empty_registry_ok
  by (auto simp: engine_inv_def new_engine_def store.init_ok store.init_abs dirs_managed_def
      sessions_tracked_def) (simp_all add: empty_registry_def)

end

text \<open>The server with the SQLite adapter and the fake capture.\<close>

abbreviation fake_active :: "fake_capture \<Rightarrow> string \<Rightarrow> (audio_sources \<times> string) option" where
  "fake_active c m \<equiv> map_option (\<lambda>fk. (fk_audio_sources fk, fk_meeting_dir fk)) (c m)"

interpretation sqlite_engine: engine_server "sqlite_exec dir_first" db_ok abs_db fresh_db
  fake_start_capture "fake_stop_capture wav dbg" fake_active for dir_first wav dbg
  by unfold_locales

text \<open>The server with the in-memory adapter and no capture.\<close>

interpretation memory_engine: engine_server mem_exec mem_ok abs_mem new_mem
  no_start_capture no_stop_capture "\<lambda>_ _. None"
  by unfold_locales

end
