(* ===== verification/Engine_Properties.thy ===== *)
theory Engine_Properties
  imports Engine_Correct
begin

text \<open>
  The properties of the request handlers: what starting and deleting a meeting, saving notes and
  recording do to the registry and to the files, on success and on every error.
\<close>

section \<open>A concrete environment\<close>

definition sample_env :: "(db, fake_capture) engine_env" where
  "sample_env =
     \<lparr>ev_exec = sqlite_exec False, ev_start_capture = fake_start_capture,
      ev_stop_capture = fake_stop_capture (\<lambda>_. ''RIFF'') (\<lambda>_. ''display''), ev_data_dir = ''/data'',
      ev_canonicalize = (\<lambda>_ p. Some p), ev_uuid_simple = (\<lambda>n. replicate (Suc n) (CHR ''a'')),
      ev_uuid_hyphenated = (\<lambda>n. ''job-'' @ replicate (Suc n) (CHR ''a'')), ev_parse_rfc3339 = (\<lambda>_. Some 0),
      ev_extract = (\<lambda>_ d. (Inr [], d)), ev_sidecar_binary = None, ev_llm_info = local_ollama\<rparr>"

definition sample_time :: request_time where
  "sample_time = \<lparr>rt_rfc3339 = ''2026-01-02'', rt_ms = 0, rt_clock = sample_clock\<rparr>"

abbreviation sqlite_env :: "bool \<Rightarrow> (u64 \<Rightarrow> string) \<Rightarrow> (capture_target \<Rightarrow> string) \<Rightarrow> (db, fake_capture) engine_env \<Rightarrow> bool"
where
  "sqlite_env dir_first wav dbg \<equiv>
     env_ok (sqlite_exec dir_first) fake_start_capture (fake_stop_capture wav dbg)"

abbreviation sqlite_engine_inv :: "string \<Rightarrow> (db, fake_capture) engine \<Rightarrow> bool" where
  "sqlite_engine_inv \<equiv> engine_inv db_ok abs_db fake_active"

lemma sample_env_ok: "sqlite_env False (\<lambda>_. ''RIFF'') (\<lambda>_. ''display'') sample_env"
  by (simp add: env_ok_def sample_env_def one_name_def)

lemma sample_env_sel [simp]:
  "ev_exec sample_env = sqlite_exec False" "ev_data_dir sample_env = ''/data''"
  "ev_uuid_simple sample_env = (\<lambda>n. replicate (Suc n) (CHR ''a''))"
  "ev_canonicalize sample_env = (\<lambda>_ p. Some p)"
  by (simp_all add: sample_env_def)

section \<open>The invariant\<close>

text \<open>Whatever requests the server answers, in any order and with any outcome, the database stays
  consistent, every meeting of the registry keeps the directory that was made for it, and every
  recording that the server remembers is active in the capture adapter and has its note flag.\<close>

theorem engine_requests_keep_state:
  assumes "sqlite_env dir_first wav dbg ev"
  shows "sqlite_engine_inv (ev_data_dir ev) (run_requests ev qs (new_engine fresh_db c d heavy))"
  by (rule sqlite_engine.requests_keep [OF assms refl sqlite_engine.new_engine_inv])

theorem engine_requests_keep_state_witness:
  "sqlite_engine_inv ''/data'' (run_requests sample_env
     [(sample_time, MeetingStart \<lparr>mc_title = None, mc_language = None\<rparr>), (sample_time, MeetingDelete ''a'')]
     (new_engine fresh_db (\<lambda>_. None) (\<lambda>_. None) Ready))"
  using engine_requests_keep_state [OF sample_env_ok] unfolding sample_env_sel(2) .

section \<open>Starting a meeting\<close>

lemma create_dir_all_some: "d p = None \<or> d p = Some FsDir \<Longrightarrow> create_dir_all p d = Inr (d(p \<mapsto> FsDir))"
  by (auto simp: create_dir_all_def)

lemma below_dir_self: "below_dir p p"
  by (simp add: below_dir_def)

lemma below_dir_join: "p \<noteq> [] \<Longrightarrow> below_dir p (path_join p q)"
  by (auto simp: below_dir_def path_join_def)

lemma path_join_nonempty: "q \<noteq> [] \<Longrightarrow> path_join p q \<noteq> []"
  by (simp add: path_join_def)

lemma remove_fresh:
  assumes "\<And>p. below_dir dir p \<Longrightarrow> d p = None" and "dir \<noteq> []"
  shows "remove_dir_all dir (d(dir \<mapsto> FsDir, path_join dir q \<mapsto> FsDir)) = Some d"
proof -
  have "(if below_dir dir p then None else (d(dir \<mapsto> FsDir, path_join dir q \<mapsto> FsDir)) p) = d p" for p
    using assms(1) [of p] below_dir_self [of dir] below_dir_join [OF assms(2), of q] by auto
  then show ?thesis
    by (simp add: remove_dir_all_def fun_eq_iff)
qed

definition started_draft ::
  "('s, 'c) engine_env \<Rightarrow> request_time \<Rightarrow> meeting_config \<Rightarrow> ('s, 'c) engine \<Rightarrow> meeting_draft" where
  "started_draft ev now cfg en =
     \<lparr>md_id = ev_uuid_simple ev (en_uuids en), md_title = (case mc_title cfg of None \<Rightarrow> [] | Some t \<Rightarrow> t),
      md_started_at = rt_rfc3339 now, md_language = (case mc_language cfg of None \<Rightarrow> ''auto'' | Some l \<Rightarrow> l),
      md_dir_path = dir_of (ev_data_dir ev) (ev_uuid_simple ev (en_uuids en))\<rparr>"

context engine_server
begin

lemma reply_spec:
  "ok s \<Longrightarrow> call_ok c \<Longrightarrow> exec c s = (x, s') \<Longrightarrow> spec c (abs_of s) x (abs_of s')"
  using store.exec_spec [of s c] by simp

lemma start_outcome:
  assumes "env_ok exec start_capture stop_capture ev" and "ok (en_storage en)"
    and "meeting_start ev now cfg en = (r, en')"
    and "dr = started_draft ev now cfg en" and "dir = md_dir_path dr"
    and "\<And>p. below_dir dir p \<Longrightarrow> en_fs en p = None"
  shows "if insert_errors dr (abs_of (en_storage en)) = {}
    then r = Inr (md_id dr) \<and>
      abs_of (en_storage en') = reg_add_meeting (meeting_of_draft dr None None) (abs_of (en_storage en)) \<and>
      en_fs en' = (en_fs en)(dir \<mapsto> FsDir, path_join dir ''screenshots'' \<mapsto> FsDir)
    else (\<exists>e \<in> insert_errors dr (abs_of (en_storage en)). r = Inl (ipc_of_storage e)) \<and>
      abs_of (en_storage en') = abs_of (en_storage en) \<and> en_fs en' = en_fs en"
proof -
  let ?shots = "path_join dir ''screenshots''"
  let ?d = "(en_fs en)(dir \<mapsto> FsDir, ?shots \<mapsto> FsDir)"
  obtain x st where run: "exec (CreateMeeting dr) (en_storage en) = (x, st)"
    by fastforce
  have ev: "ev_exec ev = exec" "one_name (ev_uuid_simple ev (en_uuids en))"
    using assms(1) by (simp_all add: env_ok_def)
  have dir: "path_join (path_join (ev_data_dir ev) ''meetings'') (ev_uuid_simple ev (en_uuids en)) = dir"
    by (simp add: assms(4,5) started_draft_def dir_of_def meetings_root_def)
  have ne: "dir \<noteq> []"
    using ev(2) unfolding dir [symmetric] by (intro path_join_nonempty) (simp add: one_name_def)
  have "en_fs en dir = None" "en_fs en ?shots = None"
    using assms(6) below_dir_self below_dir_join [OF ne] by blast+
  moreover have "?shots \<noteq> dir"
    by (rule path_join_longer) simp
  ultimately have dirs: "create_dir_all dir (en_fs en) = Inr ((en_fs en)(dir \<mapsto> FsDir))"
    "create_dir_all ?shots ((en_fs en)(dir \<mapsto> FsDir)) = Inr ?d"
    by (simp_all add: create_dir_all_some)
  have dr: "\<lparr>md_id = ev_uuid_simple ev (en_uuids en), md_title = (case mc_title cfg of None \<Rightarrow> [] | Some t \<Rightarrow> t),
      md_started_at = rt_rfc3339 now, md_language = (case mc_language cfg of None \<Rightarrow> ''auto'' | Some l \<Rightarrow> l),
      md_dir_path = dir\<rparr> = dr"
    by (simp add: assms(4,5) started_draft_def)
  have new_id: "ev_uuid_simple ev (en_uuids en) = md_id dr"
    by (simp add: assms(4) started_draft_def)
  have start: "meeting_start ev now cfg en = (case x of
      RErr e \<Rightarrow> (Inl (ipc_of_storage e), en\<lparr>en_uuids := Suc (en_uuids en), en_fs := en_fs en, en_storage := st\<rparr>)
    | RMeeting m \<Rightarrow> (Inr (md_id dr), en\<lparr>en_uuids := Suc (en_uuids en), en_fs := ?d, en_storage := st\<rparr>)
    | _ \<Rightarrow> (Inl IpcUnknown, en\<lparr>en_uuids := Suc (en_uuids en), en_fs := en_fs en, en_storage := st\<rparr>))"
    by (cases x) (simp_all add: new_id meeting_start_def create_meeting_dir_and_row_def fresh_id_def Let_def
        dir [unfolded new_id] dirs dr [unfolded new_id] ask_def ev(1) run and_then_def remove_fresh [OF assms(6) ne])
  from reply_spec [OF assms(2) _ run] show ?thesis
    using assms(3) unfolding start by (auto simp: Let_def split: if_splits)
qed

end



definition sample_engine :: "(db, fake_capture) engine" where
  "sample_engine = new_engine fresh_db (\<lambda>_. None) (\<lambda>_. None) Ready"

lemma sample_engine_sel [simp]:
  "en_storage sample_engine = fresh_db" "en_fs sample_engine = (\<lambda>_. None)" "en_uuids sample_engine = 0"
  by (simp_all add: sample_engine_def new_engine_def)

lemma sample_engine_inv: "sqlite_engine_inv ''/data'' sample_engine"
  unfolding sample_engine_def by (rule sqlite_engine.new_engine_inv)

definition untitled :: meeting_config where
  "untitled = \<lparr>mc_title = None, mc_language = None\<rparr>"

lemma dir_of_sample: "dir_of ''/data'' ''a'' = ''/data/meetings/a''"
  by code_simp


section \<open>Deleting a meeting\<close>

lemma path_join_form: "\<exists>base. \<forall>q. path_join p q = base @ q"
  by (cases "p = []"; cases "last p = CHR ''/''") (auto simp: path_join_def)

lemma one_name_last: "one_name k \<Longrightarrow> last k \<noteq> CHR ''/''"
  by (metis empty_iff insert_iff last_in_set one_name_def)

lemma one_name_cut:
  assumes "one_name i" and "one_name j" and "prefix (i @ ''/'') u" and "prefix (j @ ''/'') u"
  shows "i = j"
proof -
  have "takeWhile (\<lambda>c. c \<noteq> CHR ''/'') u = k" if "one_name k" "prefix (k @ ''/'') u" for k
    using that by (auto simp: prefix_def one_name_def takeWhile_append1 takeWhile_tail)
  with assms show ?thesis by blast
qed

text \<open>The directories of two meetings have no path in common.\<close>

lemma dirs_disjoint:
  assumes "one_name i" and "one_name j" and "below_dir (dir_of data_dir i) p"
    and "below_dir (dir_of data_dir j) p"
  shows "i = j"
proof -
  obtain base where base: "\<And>q. path_join (meetings_root data_dir) q = base @ q"
    using path_join_form by blast
  have below: "below_dir (dir_of data_dir k) p \<longleftrightarrow> p = base @ k \<or> prefix (base @ k @ ''/'') p" if "one_name k" for k
  proof -
    have "path_join (base @ k) [] = base @ k @ ''/''"
      using one_name_last [OF that] that by (auto simp: path_join_def one_name_def)
    then show ?thesis
      by (simp add: below_dir_def dir_of_def base)
  qed
  obtain q where q: "p = base @ q" "q = i \<or> prefix (i @ ''/'') q"
    using below [OF assms(1)] assms(3) by (auto simp: prefix_def)
  then have "q = j \<or> prefix (j @ ''/'') q"
    using below [OF assms(2)] assms(4) by simp
  moreover have "prefix (k @ ''/'') (q @ ''/'')" if "q = k \<or> prefix (k @ ''/'') q" for k
    using that by (auto intro: prefix_order.trans)
  ultimately have "prefix (i @ ''/'') (q @ ''/'')" "prefix (j @ ''/'') (q @ ''/'')"
    using q(2) by blast+
  then show ?thesis
    by (rule one_name_cut [OF assms(1,2)])
qed


context engine_server
begin

text \<open>Looking a meeting up.\<close>

lemma get_meeting:
  assumes "ev_exec ev = exec" and "ok (en_storage en)"
  obtains (found) m st where "ask ev (GetMeeting i) as_meeting en = (Inr m, en\<lparr>en_storage := st\<rparr>)"
      "rg_meetings (abs_of (en_storage en)) i = Some m" "ok st" "abs_of st = abs_of (en_storage en)"
      "exec (GetMeeting i) (en_storage en) = (RMeeting m, st)"
  | (absent) st where
      "ask ev (GetMeeting i) as_meeting en = (Inl (ipc_of_storage (StNotFound i ''meeting'')), en\<lparr>en_storage := st\<rparr>)"
      "rg_meetings (abs_of (en_storage en)) i = None" "ok st" "abs_of st = abs_of (en_storage en)"
      "exec (GetMeeting i) (en_storage en) = (RErr (StNotFound i ''meeting''), st)"
proof -
  obtain x st where run: "exec (GetMeeting i) (en_storage en) = (x, st)"
    by fastforce
  have "ok st"
    using store.exec_ok [OF assms(2), of "GetMeeting i"] run by simp
  moreover have "spec (GetMeeting i) (abs_of (en_storage en)) x (abs_of st)"
    by (rule reply_spec [OF assms(2) _ run]) simp
  ultimately show ?thesis
    using run assms(1) that
    by (cases "rg_meetings (abs_of (en_storage en)) i") (auto simp: guarded_def ask_def)
qed

lemma remove_dir_all_effect:
  "remove_dir_all dir d = Some d' \<Longrightarrow> d' = (\<lambda>p. if below_dir dir p then None else d p)"
  by (simp add: remove_dir_all_def split: if_splits)

lemma delete_outcome:
  assumes "ev_exec ev = exec" and inv: "engine_inv ok abs_of active data_dir en"
    and run: "meeting_delete ev i en = (r, en')"
  shows "(case r of
      Inl e \<Rightarrow> abs_of (en_storage en') = abs_of (en_storage en) \<and> en_fs en' = en_fs en
    | Inr _ \<Rightarrow> rg_meetings (abs_of (en_storage en)) i \<noteq> None \<and> abs_of (en_storage en') = reg_delete_meeting i (abs_of (en_storage en)) \<and>
        (en_fs en (dir_of data_dir i) = Some FsDir \<longrightarrow> (\<forall>p. below_dir (dir_of data_dir i) p \<longrightarrow> en_fs en' p = None))) \<and>
    (\<forall>p. \<not> below_dir (dir_of data_dir i) p \<longrightarrow> en_fs en' p = en_fs en p)"
proof -
  have ok: "ok (en_storage en)"
    using inv by (simp add: engine_inv_def)
  from assms(1) ok show ?thesis
  proof (cases rule: get_meeting [of ev en i])
    case (absent st)
    with run show ?thesis
      by (auto simp: meeting_delete_def and_then_def)
  next
    case (found m st)
    have dir: "mt_dir_path m = dir_of data_dir i"
      using inv dirs_managedD found(2) by (auto simp: engine_inv_def)
    let ?en = "en\<lparr>en_storage := st\<rparr>"
    show ?thesis
    proof (cases "fst (checked_dir ev (mt_dir_path m) ?en)")
      case (Inl e)
      then have "checked_dir ev (mt_dir_path m) ?en = (Inl e, ?en)"
        by (simp add: checked_dir_def)
      with run found show ?thesis
        by (auto simp: meeting_delete_def and_then_def)
    next
      case (Inr safe)
      then have safe: "checked_dir ev (mt_dir_path m) ?en = (Inr (dir_of data_dir i), ?en)"
        using validate_returns by (fastforce simp: checked_dir_def dir)
      obtain x st' where del: "exec (DeleteMeeting i) st = (x, st')"
        by fastforce
      have "spec (DeleteMeeting i) (abs_of st) x (abs_of st')"
        by (rule reply_spec [OF found(3) _ del]) simp
      then have "x = RUnit" "abs_of st' = reg_delete_meeting i (abs_of st)"
        using found(2,4) by (auto simp: guarded_def)
      then show ?thesis
        using run found safe del assms(1)
        by (auto simp: meeting_delete_def and_then_def ask_def remove_dir_all_def split: if_splits)
    qed
  qed
qed

end

text \<open>C19: Deleting a meeting touches nothing but that meeting. A request that fails changes nothing. One
  that succeeds removes the row with everything that hangs on it and the directory of the meeting with
  all that is below it; every path outside that directory, and so every path of another meeting, is as
  it was.\<close>

theorem meeting_delete_isolated:
  assumes "sqlite_env dir_first wav dbg ev" and "sqlite_engine_inv (ev_data_dir ev) en"
    and "meeting_delete ev i en = (r, en')" and "dir = dir_of (ev_data_dir ev) i"
  shows "(case r of
      Inl e \<Rightarrow> abs_db (en_storage en') = abs_db (en_storage en) \<and> en_fs en' = en_fs en
    | Inr _ \<Rightarrow> rg_meetings (abs_db (en_storage en)) i \<noteq> None \<and>
        abs_db (en_storage en') = reg_delete_meeting i (abs_db (en_storage en)) \<and>
        (en_fs en dir = Some FsDir \<longrightarrow> (\<forall>p. below_dir dir p \<longrightarrow> en_fs en' p = None))) \<and>
    (\<forall>p. \<not> below_dir dir p \<longrightarrow> en_fs en' p = en_fs en p) \<and>
    (\<forall>j m p. j \<noteq> i \<and> rg_meetings (abs_db (en_storage en)) j = Some m \<and> below_dir (mt_dir_path m) p \<longrightarrow>
      en_fs en' p = en_fs en p)"
proof -
  have exec: "ev_exec ev = sqlite_exec dir_first"
    using assms(1) by (simp add: env_ok_def)
  note out = sqlite_engine.delete_outcome [OF exec assms(2,3), folded assms(4)]
  have managed: "dirs_managed (ev_data_dir ev) (rg_meetings (abs_db (en_storage en)))"
    using assms(2) by (simp add: engine_inv_def)
  have "en_fs en' p = en_fs en p"
    if "j \<noteq> i" "rg_meetings (abs_db (en_storage en)) j = Some m" "below_dir (mt_dir_path m) p" for j m p
  proof (cases "rg_meetings (abs_db (en_storage en)) i")
    case None
    then show ?thesis
      using out by (auto split: sum.splits)
  next
    case (Some n)
    then have "\<not> below_dir dir p"
      using dirs_managedD [OF managed Some] dirs_managedD [OF managed that(2)] that(1,3) assms(4) dirs_disjoint
      by metis
    with out show ?thesis by blast
  qed
  with out show ?thesis by blast
qed


definition started_engine :: "(db, fake_capture) engine" where
  "started_engine = snd (meeting_start sample_env sample_time untitled sample_engine)"

lemma started_engine_inv: "sqlite_engine_inv ''/data'' started_engine"
proof -
  have "sqlite_engine_inv ''/data'' (snd (handle sample_env sample_time (MeetingStart untitled) sample_engine))"
    by (rule sqlite_engine.handle_keeps [OF sample_env_ok _ sample_engine_inv]) simp
  then show ?thesis
    by (simp add: started_engine_def)
qed

theorem meeting_delete_isolated_witness:
  "en_fs (snd (meeting_delete sample_env ''b'' started_engine)) ''/data/meetings/a'' =
     en_fs started_engine ''/data/meetings/a''"
proof -
  obtain r en' where run: "meeting_delete sample_env ''b'' started_engine = (r, en')"
    by fastforce
  have "sqlite_engine_inv (ev_data_dir sample_env) started_engine"
    using started_engine_inv by simp
  from meeting_delete_isolated [OF sample_env_ok this run refl] have
    "\<not> below_dir (dir_of (ev_data_dir sample_env) ''b'') p \<Longrightarrow> en_fs en' p = en_fs started_engine p" for p
    by blast
  moreover have "\<not> below_dir (dir_of ''/data'' ''b'') ''/data/meetings/a''"
    by code_simp
  ultimately show ?thesis
    by (simp add: run)
qed


section \<open>Saving notes\<close>

definition notes_file :: "string \<Rightarrow> string \<Rightarrow> string" where
  "notes_file data_dir i = path_join (dir_of data_dir i) ''notes.md''"

definition partial_file :: "('s, 'c) engine_env \<Rightarrow> string \<Rightarrow> ('s, 'c) engine \<Rightarrow> string" where
  "partial_file ev i en =
     path_join (dir_of (ev_data_dir ev) i) (partial_name (ev_uuid_hyphenated ev (en_uuids en)))"

definition saved_note ::
  "('s, 'c) engine_env \<Rightarrow> request_time \<Rightarrow> string \<Rightarrow> string \<Rightarrow> ('s, 'c) engine \<Rightarrow> note_draft" where
  "saved_note ev now i markdown en =
     \<lparr>nd_id = ev_uuid_simple ev (Suc (en_uuids en)), nd_meeting_id = i, nd_dialect = ''basic'',
      nd_content_md = markdown, nd_primary_path = notes_file (ev_data_dir ev) i\<rparr>"

lemma partial_file_neq: "partial_file ev i en \<noteq> notes_file (ev_data_dir ev) i"
  by (simp add: partial_file_def partial_name_def notes_file_def path_join_inj)

context engine_server
begin

lemma notes_save_outcome:
  assumes "ev_exec ev = exec" and inv: "engine_inv ok abs_of active (ev_data_dir ev) en"
    and run: "notes_save ev now i markdown en = (r, en')"
  shows "(case r of
      Inl e \<Rightarrow> abs_of (en_storage en') = abs_of (en_storage en) \<and>
        (rg_meetings (abs_of (en_storage en)) i = None \<longrightarrow> en_fs en' = en_fs en)
    | Inr _ \<Rightarrow>
        en_fs en' = (en_fs en)(partial_file ev i en := None, notes_file (ev_data_dir ev) i \<mapsto> FsFile markdown) \<and>
        fst (exec (ListNotesForMeeting i) (en_storage en')) =
          RNotes [note_of_draft (saved_note ev now i markdown en) (ck_rfc3339 (rt_clock now))]) \<and>
    (\<forall>p. p \<noteq> partial_file ev i en \<and> p \<noteq> notes_file (ev_data_dir ev) i \<longrightarrow> en_fs en' p = en_fs en p)"
proof -
  have ok: "ok (en_storage en)"
    using inv by (simp add: engine_inv_def)
  from assms(1) ok show ?thesis
  proof (cases rule: get_meeting [of ev en i])
    case (absent st)
    with run show ?thesis
      by (auto simp: notes_save_def and_then_def)
  next
    case (found m st)
    let ?dir = "dir_of (ev_data_dir ev) i"
    let ?n = "saved_note ev now i markdown en"
    have dir: "mt_dir_path m = ?dir"
      using inv dirs_managedD found(2) by (auto simp: engine_inv_def)
    obtain x st' where rep: "exec (ReplaceMeetingNote (rt_clock now) i ?n) st = (x, st')"
      by fastforce
    have spec: "spec (ReplaceMeetingNote (rt_clock now) i ?n) (abs_of st) x (abs_of st')"
      by (rule reply_spec [OF found(3) _ rep]) simp
    have x: "(\<exists>e. x = RErr e) \<and> abs_of st' = abs_of st \<or> (\<exists>n. x = RNote n \<and>
        n = note_of_draft ?n (ck_rfc3339 (rt_clock now)))"
      using spec by (auto simp: Let_def elim!: guardedE split: if_splits)
    have single: "fst (exec (ListNotesForMeeting i) st') = RNotes [n]" if "x = RNote n" for n
      using store.replace_single_note [OF found(3), of "rt_clock now" i ?n n] that rep by simp
    show ?thesis
    proof (cases "fst (checked_dir ev ?dir (en\<lparr>en_storage := st\<rparr>))")
      case (Inl e)
      then have "checked_dir ev ?dir (en\<lparr>en_storage := st\<rparr>) = (Inl e, en\<lparr>en_storage := st\<rparr>)"
        by (simp add: checked_dir_def)
      with run found dir show ?thesis
        by (auto simp: notes_save_def and_then_def)
    next
      case (Inr safe)
      then have safe: "checked_dir ev ?dir (en\<lparr>en_storage := st\<rparr>) = (Inr ?dir, en\<lparr>en_storage := st\<rparr>)"
        using validate_returns by (fastforce simp: checked_dir_def)
      let ?P = "partial_file ev i en" and ?N = "notes_file (ev_data_dir ev) i"
      have saved: "notes_save ev now i markdown en =
          (case fs_write ?P markdown (en_fs en) of
             Inl _ \<Rightarrow> (Inl (IpcInternal ''write notes.md failed''), en\<lparr>en_storage := st, en_uuids := Suc (en_uuids en)\<rparr>)
           | Inr d \<Rightarrow> (case rename_file ?P ?N d of
               None \<Rightarrow> (Inl (IpcInternal ''save notes.md failed''),
                 en\<lparr>en_storage := st, en_uuids := Suc (en_uuids en), en_fs := d\<rparr>)
             | Some d \<Rightarrow> ask ev (ReplaceMeetingNote (rt_clock now) i ?n) as_unit
                 (en\<lparr>en_storage := st, en_fs := d, en_uuids := Suc (Suc (en_uuids en))\<rparr>)))"
        by (simp add: notes_save_def and_then_def found dir safe fresh_uuid_def fresh_id_def
            partial_file_def notes_file_def Let_def saved_note_def split: sum.splits option.splits)
      have asked: "ask ev (ReplaceMeetingNote (rt_clock now) i ?n) as_unit e =
          ((case x of RErr f \<Rightarrow> Inl (ipc_of_storage f) | r \<Rightarrow> as_unit r), e\<lparr>en_storage := st'\<rparr>)"
        if "en_storage e = st" for e :: "('s, 'c) engine"
        using rep assms(1) that by (simp add: ask_def split: storage_reply.splits)
      show ?thesis
      proof (cases "en_fs en ?P = Some FsDir \<or> en_fs en ?N = Some FsDir")
        case True
        then show ?thesis
          using run found(2,4) partial_file_neq [of ev i en] unfolding saved
          by (auto simp: fs_write_def rename_file_def split: option.splits fs_node.splits)
      next
        case False
        then have moved: "fs_write ?P markdown (en_fs en) = Inr ((en_fs en)(?P \<mapsto> FsFile markdown))"
          "rename_file ?P ?N ((en_fs en)(?P \<mapsto> FsFile markdown)) = Some ((en_fs en)(?P := None, ?N \<mapsto> FsFile markdown))"
          using partial_file_neq [of ev i en]
          by (auto simp: fs_write_def rename_file_def split: option.splits fs_node.splits)
        show ?thesis
          using run x single found(2,4) unfolding saved by (auto simp: moved asked)
      qed
    qed
  qed
qed

end

text \<open>Saving edited notes replaces both copies of them. When the request succeeds, the file notes.md of the
  meeting holds exactly the given text, the temporary file is gone, no other file has changed, and the
  meeting has a single note, with that text. When it fails, the registry is as it was, and no file but
  notes.md and the temporary one has changed.\<close>

theorem notes_save_single:
  assumes "sqlite_env dir_first wav dbg ev" and "sqlite_engine_inv (ev_data_dir ev) en"
    and "notes_save ev now i markdown en = (r, en')"
  shows "(case r of
      Inl e \<Rightarrow> abs_db (en_storage en') = abs_db (en_storage en) \<and>
        (rg_meetings (abs_db (en_storage en)) i = None \<longrightarrow> en_fs en' = en_fs en)
    | Inr _ \<Rightarrow>
        en_fs en' = (en_fs en)(partial_file ev i en := None, notes_file (ev_data_dir ev) i \<mapsto> FsFile markdown) \<and>
        fst (sqlite_exec dir_first (ListNotesForMeeting i) (en_storage en')) =
          RNotes [note_of_draft (saved_note ev now i markdown en) (ck_rfc3339 (rt_clock now))]) \<and>
    (\<forall>p. p \<noteq> partial_file ev i en \<and> p \<noteq> notes_file (ev_data_dir ev) i \<longrightarrow> en_fs en' p = en_fs en p)"
proof -
  have "ev_exec ev = sqlite_exec dir_first"
    using assms(1) by (simp add: env_ok_def)
  from sqlite_engine.notes_save_outcome [OF this assms(2,3)] show ?thesis .
qed

theorem notes_save_single_witness:
  "en_fs (snd (notes_save sample_env sample_time ''zz'' ''# Hi'' started_engine)) ''/data/meetings/a'' =
     en_fs started_engine ''/data/meetings/a''"
proof -
  obtain r en' where run: "notes_save sample_env sample_time ''zz'' ''# Hi'' started_engine = (r, en')"
    by fastforce
  have "sqlite_engine_inv (ev_data_dir sample_env) started_engine"
    using started_engine_inv by simp
  note saved = notes_save_single [OF sample_env_ok this run, THEN conjunct2, rule_format]
  have "''/data/meetings/a'' \<noteq> path_join (dir_of ''/data'' ''zz'') q" for q
  proof -
    have "dir_of ''/data'' ''zz'' = ''/data/meetings/zz''"
      by code_simp
    then show ?thesis
      by (simp add: path_join_def)
  qed
  then show ?thesis
    using saved [of "''/data/meetings/a''"] by (simp add: run partial_file_def notes_file_def)
qed

section \<open>Recording\<close>

definition notes_available :: "('s, 'c) engine_env \<Rightarrow> ('s, 'c) engine \<Rightarrow> bool" where
  "notes_available ev en \<longleftrightarrow> trim (li_provider (ev_llm_info ev)) \<noteq> [] \<and> en_heavy en = Ready"

definition main_track :: "recording_stopped \<Rightarrow> string option" where
  "main_track stopped =
     (case rd_system_audio_path stopped of Some p \<Rightarrow> Some p | None \<Rightarrow> rd_mic_audio_path stopped)"

lemma auto_available: "auto_notes_compute_available ev en = Inr u \<longleftrightarrow>
    trim (li_provider (ev_llm_info ev)) \<noteq> [] \<and> en_heavy en = Ready"
  by (auto simp: auto_notes_compute_available_def split: heavy_state.splits)

text \<open>Stopping forgets the session and the flag first, so a second stop finds nothing, however the first went.\<close>

text \<open>A recording is stopped once. Whether the first stop succeeds or the capture adapter fails, a second
  one reports that there is no such session and changes nothing.\<close>

theorem recording_stopped_once:
  "case recording_stop ev now i en of (r, en1) \<Rightarrow>
     en_sessions en1 = (en_sessions en)(i := None) \<and> en_auto_notes en1 = (en_auto_notes en)(i := None) \<and>
     recording_stop ev now' i en1 = (Inl (IpcInputNotFound (''session/'' @ i)), en1)"
proof -
  obtain r en1 where run: "recording_stop ev now i en = (r, en1)"
    by fastforce
  have kept: "en_sessions (snd (extract_screenshots_post_recording ev i sess e)) = en_sessions e \<and>
      en_auto_notes (snd (extract_screenshots_post_recording ev i sess e)) = en_auto_notes e" for sess e
    by (auto simp: extract_screenshots_post_recording_def resolve_extract_plan_def Let_def
        split: prod.splits sum.splits storage_reply.splits option.splits if_splits)
  have queued: "en_sessions (snd (maybe_enqueue_auto_notes ev i st e)) = en_sessions e \<and>
      en_auto_notes (snd (maybe_enqueue_auto_notes ev i st e)) = en_auto_notes e" for st e
    by (auto simp: maybe_enqueue_auto_notes_def enqueue_notes_job_def fresh_uuid_def ask_state Let_def case_prod_beta
        split: sum.splits option.splits)
  have "en_sessions en1 = (en_sessions en)(i := None) \<and> en_auto_notes en1 = (en_auto_notes en)(i := None)"
  proof (cases "en_sessions en i")
    case None
    with run show ?thesis
      by (auto simp: recording_stop_def fun_upd_idem)
  next
    case (Some sess)
    have "en_sessions (snd (recording_stop ev now i en)) = (en_sessions en)(i := None) \<and>
        en_auto_notes (snd (recording_stop ev now i en)) = (en_auto_notes en)(i := None)"
      using Some by (simp add: recording_stop_def Let_def case_prod_beta kept queued split: sum.splits)
    with run show ?thesis by simp
  qed
  moreover have "recording_stop ev now' i e = (Inl (IpcInputNotFound (''session/'' @ i)), e)"
    if "en_sessions e i = None" "(en_auto_notes e)(i := None) = en_auto_notes e" for e :: "('a, 'b) engine"
    using that by (cases e) (simp add: recording_stop_def)
  ultimately show ?thesis
    by (simp add: run)
qed

context engine_server
begin

lemma recording_start_outcome:
  assumes "env_ok exec start_capture stop_capture ev" and "engine_inv ok abs_of active (ev_data_dir ev) en"
    and run: "recording_start ev now p en = (Inr i, en1)"
  obtains sess where "i = rs_meeting_id p" and "en_sessions en1 = (en_sessions en)(i \<mapsto> sess)"
    and "en_auto_notes en1 = (en_auto_notes en)(i \<mapsto> rs_auto_generate_notes p)"
    and "active (en_capture en1) = (active (en_capture en))(i \<mapsto> (rs_audio_sources p, dir_of (ev_data_dir ev) i))"
    and "cs_meeting_id sess = i" and "cs_record_video sess = rs_record_video p"
    and "ok (en_storage en1)" and "abs_of (en_storage en1) = abs_of (en_storage en)"
    and "en_fs en1 = en_fs en" and "en_jobs en1 = en_jobs en" and "en_heavy en1 = en_heavy en"
proof -
  let ?i = "rs_meeting_id p"
  have ev: "ev_exec ev = exec" "ev_start_capture ev = start_capture" and ok: "ok (en_storage en)"
    using assms(1,2) by (simp_all add: env_ok_def engine_inv_def)
  from ev(1) ok show ?thesis
  proof (cases rule: get_meeting [of ev en ?i])
    case (absent st)
    with run show ?thesis
      by (simp add: recording_start_def and_then_def)
  next
    case (found m st)
    have dir: "mt_dir_path m = dir_of (ev_data_dir ev) ?i"
      using assms(2) dirs_managedD found(2) by (auto simp: engine_inv_def)
    have safe: "checked_dir ev (mt_dir_path m) (en\<lparr>en_storage := st\<rparr>) =
        (Inr (dir_of (ev_data_dir ev) ?i), en\<lparr>en_storage := st\<rparr>)"
    proof (cases "fst (checked_dir ev (mt_dir_path m) (en\<lparr>en_storage := st\<rparr>))")
      case (Inl e)
      then have "checked_dir ev (mt_dir_path m) (en\<lparr>en_storage := st\<rparr>) = (Inl e, en\<lparr>en_storage := st\<rparr>)"
        by (simp add: checked_dir_def)
      with run found show ?thesis
        by (simp add: recording_start_def and_then_def)
    next
      case (Inr q)
      then show ?thesis
        using validate_returns by (fastforce simp: checked_dir_def dir)
    qed
    obtain x c d where start: "start_capture (rt_ms now) ?i (dir_of (ev_data_dir ev) ?i) (capture_config_of p)
        (en_capture en) (en_fs en) = (x, c, d)"
      by (metis prod_cases3)
    show ?thesis
    proof (cases x)
      case (Inl e)
      with run found safe start ev(2) show ?thesis
        by (simp add: recording_start_def and_then_def)
    next
      case (Inr sess)
      with run found safe start ev(2) have "i = ?i" and en1: "en1 = en\<lparr>en_storage := st, en_capture := c, en_fs := d,
          en_sessions := (en_sessions en)(?i \<mapsto> sess),
          en_auto_notes := (en_auto_notes en)(?i \<mapsto> rs_auto_generate_notes p)\<rparr>"
        by (auto simp: recording_start_def and_then_def Let_def)
      with cap.starts [OF start [unfolded Inr]] found show ?thesis
        by (intro that [of sess]) (simp_all add: capture_config_of_def)
    qed
  qed
qed

text \<open>What follows a recording leaves the registry and the files as they are.\<close>

lemma extract_outcome:
  assumes "ev_exec ev = exec" and "ok (en_storage en)"
    and "extract_screenshots_post_recording ev i sess en = (r, en')"
    and "\<And>xp d p. is_file d p \<Longrightarrow> is_file (snd (ev_extract ev xp d)) p"
  shows "ok (en_storage en') \<and> abs_of (en_storage en') = abs_of (en_storage en) \<and>
    en_sessions en' = en_sessions en \<and> en_jobs en' = en_jobs en \<and> en_heavy en' = en_heavy en \<and>
    (\<forall>p. is_file (en_fs en) p \<longrightarrow> is_file (en_fs en') p)"
  using assms(1,2)
proof (cases rule: get_meeting [of ev en i])
  case (absent st)
  then show ?thesis
    using assms(1,3) by (auto simp: extract_screenshots_post_recording_def resolve_extract_plan_def)
next
  case (found m st)
  define y where "y = fst (resolve_extract_plan ev i sess en)"
  have plan: "resolve_extract_plan ev i sess en = (y, en\<lparr>en_storage := st\<rparr>)"
    using found(5) assms(1) by (simp add: y_def resolve_extract_plan_def Let_def split: sum.splits option.splits)
  show ?thesis
  proof (cases y)
    case (Inl e)
    with assms(3) plan found show ?thesis
      by (auto simp: extract_screenshots_post_recording_def)
  next
    case (Inr xp)
    obtain z d where "ev_extract ev xp (en_fs en) = (z, d)"
      by fastforce
    with assms(3) plan found Inr assms(4) [of "en_fs en" _ xp] show ?thesis
      by (auto simp: extract_screenshots_post_recording_def)
  qed
qed

lemma auto_notes_outcome:
  assumes "ev_exec ev = exec" and "ok (en_storage en)" and "maybe_enqueue_auto_notes ev i stopped en = (job, en')"
    and "rd_system_audio_path stopped \<noteq> None \<or> rd_mic_audio_path stopped \<noteq> None"
  shows "abs_of (en_storage en') = abs_of (en_storage en) \<and> en_sessions en' = en_sessions en \<and>
    en_fs en' = en_fs en \<and>
    (case job of
       None \<Rightarrow> en_jobs en' = en_jobs en \<and> \<not> notes_available ev en
     | Some j \<Rightarrow> notes_available ev en \<and> (\<exists>ps. en_jobs en' = en_jobs en @ [(j, ps)] \<and> ng_meeting_id ps = Some i \<and>
         Some (ng_audio ps) = main_track stopped))"
proof (cases "notes_available ev en")
  case False
  then show ?thesis
    using assms(3) auto_available [of ev en]
    by (auto simp: maybe_enqueue_auto_notes_def notes_available_def split: sum.splits)
next
  case True
  then have inr: "auto_notes_compute_available ev en = Inr ()"
    using auto_available by (auto simp: notes_available_def)
  obtain audio where audio: "main_track stopped = Some audio"
    using assms(4) by (cases "rd_system_audio_path stopped") (auto simp: main_track_def)
  from assms(1,2) show ?thesis
  proof (cases rule: get_meeting [of ev en i])
    case (found m st)
    with assms(3) inr audio True show ?thesis
      by (auto simp: maybe_enqueue_auto_notes_def main_track_def Let_def enqueue_notes_job_def fresh_uuid_def
          split: option.splits)
  next
    case (absent st)
    with assms(3) inr audio True show ?thesis
      by (auto simp: maybe_enqueue_auto_notes_def main_track_def Let_def enqueue_notes_job_def fresh_uuid_def
          split: option.splits)
  qed
qed

lemma recording_round_outcome:
  assumes env: "env_ok exec start_capture stop_capture ev" and inv: "engine_inv ok abs_of active (ev_data_dir ev) en"
    and start: "recording_start ev now p en = (Inr i, en1)"
    and stop: "recording_stop ev now' i en1 = (Inr stopped, en2)"
    and keeps: "\<And>xp d q. is_file d q \<Longrightarrow> is_file (snd (ev_extract ev xp d)) q"
  shows "i = rs_meeting_id p \<and>
    (rd_system_audio_path stopped \<noteq> None \<longleftrightarrow> wants_system (rs_audio_sources p)) \<and>
    (rd_mic_audio_path stopped \<noteq> None \<longleftrightarrow> wants_mic (rs_audio_sources p)) \<and>
    (\<forall>q. rd_system_audio_path stopped = Some q \<or> rd_mic_audio_path stopped = Some q \<longrightarrow>
      under_dir (dir_of (ev_data_dir ev) i) q \<and> is_file (en_fs en2) q) \<and>
    abs_of (en_storage en2) = abs_of (en_storage en) \<and> en_sessions en2 = (en_sessions en)(i := None) \<and>
    (case rd_notes_job_id stopped of
       None \<Rightarrow> en_jobs en2 = en_jobs en \<and> \<not> (rs_auto_generate_notes p \<and> notes_available ev en)
     | Some j \<Rightarrow> rs_auto_generate_notes p \<and> notes_available ev en \<and>
         (\<exists>ps. en_jobs en2 = en_jobs en @ [(j, ps)] \<and> ng_meeting_id ps = Some i \<and>
           Some (ng_audio ps) = main_track stopped))"
  using env inv start
proof (rule recording_start_outcome)
  fix sess
  assume i: "i = rs_meeting_id p" and sessions: "en_sessions en1 = (en_sessions en)(i \<mapsto> sess)"
    and flag: "en_auto_notes en1 = (en_auto_notes en)(i \<mapsto> rs_auto_generate_notes p)"
    and act: "active (en_capture en1) = (active (en_capture en))(i \<mapsto> (rs_audio_sources p, dir_of (ev_data_dir ev) i))"
    and sess: "cs_meeting_id sess = i" and store: "ok (en_storage en1)" "abs_of (en_storage en1) = abs_of (en_storage en)"
    and rest: "en_jobs en1 = en_jobs en" "en_heavy en1 = en_heavy en"
  have ev: "ev_exec ev = exec" "ev_stop_capture ev = stop_capture"
    using env by (simp_all add: env_ok_def)
  let ?e = "en1\<lparr>en_auto_notes := (en_auto_notes en1)(i := None), en_sessions := (en_sessions en1)(i := None)\<rparr>"
  obtain r c d where cap: "stop_capture (rt_ms now') sess (en_capture en1) (en_fs en1) = (Inr r, c, d)"
    using stop sessions by (auto simp: recording_stop_def Let_def ev(2) split: sum.splits prod.splits)
  let ?e1 = "?e\<lparr>en_capture := c, en_fs := d\<rparr>"
  obtain shots e2 where shots: "(if cs_record_video sess then (case extract_screenshots_post_recording ev i sess ?e1 of
         (Inr paths, en) \<Rightarrow> (paths, en) | (Inl _, en) \<Rightarrow> ([], en)) else (cr_screenshot_paths r, ?e1)) = (shots, e2)"
    by fastforce
  have e2: "ok (en_storage e2) \<and> abs_of (en_storage e2) = abs_of (en_storage en) \<and>
      en_sessions e2 = (en_sessions en)(i := None) \<and> en_jobs e2 = en_jobs en \<and> en_heavy e2 = en_heavy en \<and>
      (\<forall>q. is_file d q \<longrightarrow> is_file (en_fs e2) q)"
  proof (cases "cs_record_video sess")
    case True
    obtain y e3 where y: "extract_screenshots_post_recording ev i sess ?e1 = (y, e3)"
      by fastforce
    with shots True have "e2 = e3"
      by (cases y) simp_all
    with extract_outcome [OF ev(1) _ y keeps] store rest sessions show ?thesis
      by simp
  next
    case False
    with shots have "e2 = ?e1" by simp
    with store rest sessions show ?thesis by simp
  qed
  let ?s = "\<lparr>rd_system_audio_path = cr_system_audio_path r, rd_mic_audio_path = cr_mic_audio_path r,
      rd_screenshot_paths = shots, rd_duration_ms = cr_duration_ms r, rd_notes_job_id = None\<rparr>"
  have stopped: "recording_stop ev now' i en1 =
      (if rs_auto_generate_notes p
       then (case maybe_enqueue_auto_notes ev i ?s e2 of (job, en) \<Rightarrow> (Inr (?s\<lparr>rd_notes_job_id := job\<rparr>), en))
       else (Inr ?s, e2))"
  proof -
    have "en_sessions en1 i = Some sess" "en_auto_notes en1 i = Some (rs_auto_generate_notes p)"
      by (simp_all add: sessions flag)
    then show ?thesis
      by (simp add: recording_stop_def Let_def ev(2) cap shots)
  qed
  obtain a dir where tracks: "active (en_capture en1) (cs_meeting_id sess) = Some (a, dir)"
    "cr_system_audio_path r \<noteq> None \<longleftrightarrow> wants_system a" "cr_mic_audio_path r \<noteq> None \<longleftrightarrow> wants_mic a"
    "\<forall>q \<in> set_option (cr_system_audio_path r) \<union> set_option (cr_mic_audio_path r) \<union>
       set (cr_screenshot_paths r). under_dir dir q \<and> is_file d q"
    using cap.stops [OF cap] by blast
  then have at: "a = rs_audio_sources p" "dir = dir_of (ev_data_dir ev) i"
    by (simp_all add: act sess)
  have some: "cr_system_audio_path r \<noteq> None \<or> cr_mic_audio_path r \<noteq> None"
    using tracks(2,3) by (cases a) (simp_all add: wants_system_def wants_mic_def)
  have avail: "notes_available ev e2 = notes_available ev en"
    using e2 by (simp add: notes_available_def)
  obtain job e3 where job: "maybe_enqueue_auto_notes ev i ?s e2 = (job, e3)"
    by fastforce
  show ?thesis
  proof (cases "rs_auto_generate_notes p")
    case True
    with stop stopped job have st: "stopped = ?s\<lparr>rd_notes_job_id := job\<rparr>" "en2 = e3"
      by simp_all
    then have "rd_system_audio_path stopped = cr_system_audio_path r"
      "rd_mic_audio_path stopped = cr_mic_audio_path r" "rd_notes_job_id stopped = job"
      "main_track stopped = main_track ?s"
      by (simp_all add: main_track_def split: option.splits)
    with auto_notes_outcome [OF ev(1) _ job] e2 some tracks(2-4) at i avail True st(2) show ?thesis
      by (cases job) auto
  next
    case False
    with stop stopped have "stopped = ?s" "en2 = e2"
      by simp_all
    with e2 tracks(2-4) at i False show ?thesis
      by auto
  qed
qed

end

text \<open>A recording that is started and stopped brings back a track for each source that was asked for
  and no other, as files in the directory of the meeting, and leaves the registry and the other
  recordings alone. One notes job is queued, for the system track or else the microphone track, exactly
  when the recording asked for notes, a language model is configured and the adapters are ready.\<close>

theorem recording_round:
  assumes "sqlite_env dir_first wav dbg ev" and "sqlite_engine_inv (ev_data_dir ev) en"
    and "recording_start ev now p en = (Inr i, en1)" and "recording_stop ev now' i en1 = (Inr stopped, en2)"
    and "\<And>xp d q. is_file d q \<Longrightarrow> is_file (snd (ev_extract ev xp d)) q"
  shows "i = rs_meeting_id p \<and>
    (rd_system_audio_path stopped \<noteq> None \<longleftrightarrow> wants_system (rs_audio_sources p)) \<and>
    (rd_mic_audio_path stopped \<noteq> None \<longleftrightarrow> wants_mic (rs_audio_sources p)) \<and>
    (\<forall>q. rd_system_audio_path stopped = Some q \<or> rd_mic_audio_path stopped = Some q \<longrightarrow>
      under_dir (dir_of (ev_data_dir ev) i) q \<and> is_file (en_fs en2) q) \<and>
    abs_db (en_storage en2) = abs_db (en_storage en) \<and> en_sessions en2 = (en_sessions en)(i := None) \<and>
    (case rd_notes_job_id stopped of
       None \<Rightarrow> en_jobs en2 = en_jobs en \<and> \<not> (rs_auto_generate_notes p \<and> notes_available ev en)
     | Some j \<Rightarrow> rs_auto_generate_notes p \<and> notes_available ev en \<and>
         (\<exists>ps. en_jobs en2 = en_jobs en @ [(j, ps)] \<and> ng_meeting_id ps = Some i \<and>
           Some (ng_audio ps) = main_track stopped))"
  by (rule sqlite_engine.recording_round_outcome [OF assms])

definition mic_recording :: recording_start_params where
  "mic_recording = \<lparr>rs_meeting_id = ''a'', rs_audio_sources = MicOnly, rs_record_video = False,
     rs_auto_generate_notes = True, rs_screenshot_interval_ms = 500, rs_screenshot_threshold = 0,
     rs_capture_target = default_capture_target, rs_width = None, rs_height = None\<rparr>"

definition recording_engine :: "(db, fake_capture) engine" where
  "recording_engine = snd (recording_start sample_env sample_time mic_recording started_engine)"

lemma recording_runs:
  "fst (recording_start sample_env sample_time mic_recording started_engine) = Inr ''a''"
  "map_sum id (\<lambda>s. rd_mic_audio_path s) (fst (recording_stop sample_env sample_time ''a'' recording_engine)) =
    Inr (Some ''/data/meetings/a/mic.wav'')"
  "en_jobs started_engine = []" "notes_available sample_env started_engine"
  by code_simp+

theorem recording_round_witness:
  "\<exists>stopped en2. recording_stop sample_env sample_time ''a'' recording_engine = (Inr stopped, en2) \<and>
     rd_system_audio_path stopped = None \<and> length (en_jobs en2) = 1"
proof -
  obtain r en2 where stop: "recording_stop sample_env sample_time ''a'' recording_engine = (r, en2)"
    by fastforce
  with recording_runs(2) obtain stopped where r: "r = Inr stopped"
    by (cases r) auto
  have start: "recording_start sample_env sample_time mic_recording started_engine = (Inr ''a'', recording_engine)"
    using recording_runs(1) by (simp add: recording_engine_def prod_eq_iff)
  have "sqlite_engine_inv (ev_data_dir sample_env) started_engine"
    using started_engine_inv by simp
  moreover have "\<And>xp d q. is_file d q \<Longrightarrow> is_file (snd (ev_extract sample_env xp d)) q"
    by (simp add: sample_env_def)
  ultimately have "(rd_system_audio_path stopped \<noteq> None \<longleftrightarrow> wants_system (rs_audio_sources mic_recording)) \<and>
    (case rd_notes_job_id stopped of
       None \<Rightarrow> en_jobs en2 = en_jobs started_engine \<and>
         \<not> (rs_auto_generate_notes mic_recording \<and> notes_available sample_env started_engine)
     | Some j \<Rightarrow> rs_auto_generate_notes mic_recording \<and> notes_available sample_env started_engine \<and>
         (\<exists>ps. en_jobs en2 = en_jobs started_engine @ [(j, ps)] \<and> ng_meeting_id ps = Some ''a'' \<and>
           Some (ng_audio ps) = main_track stopped))"
    using recording_round [OF sample_env_ok _ start stop [unfolded r]] by blast
  then show ?thesis
    using recording_runs(3,4)
    by (auto simp: stop r mic_recording_def wants_system_def split: option.splits)
qed

end
