(* ===== verification/Notes_Correct.thy ===== *)
theory Notes_Correct
  imports Notes_Run Engine_Properties Markdown_Files
begin

text \<open>
  What a notes job guarantees. The locale \<open>notes_server\<close> adds an exporter to the ports of the engine; in
  it a job keeps the invariant of the engine, stays inside the directory of its meeting, and leaves the
  transcript on disk when the notes cannot be generated.
\<close>

section \<open>Files of a job\<close>

definition fs_within :: "string \<Rightarrow> fs \<Rightarrow> fs \<Rightarrow> bool" where
  "fs_within dir d d' = (\<forall>p. \<not> prefix dir p \<longrightarrow> d' p = d p)"

lemma fs_within_refl [simp]: "fs_within dir d d"
  by (simp add: fs_within_def)

lemma fs_within_trans: "fs_within dir d d' \<Longrightarrow> fs_within dir d' d'' \<Longrightarrow> fs_within dir d d''"
  by (simp add: fs_within_def)

lemma fs_within_upd: "prefix dir p \<Longrightarrow> fs_within dir d (d(p := x))"
  by (auto simp: fs_within_def)

lemma fs_within_write: "fs_write p c d = Inr d' \<Longrightarrow> prefix dir p \<Longrightarrow> fs_within dir d d'"
  by (auto dest!: fs_write_cases intro: fs_within_upd)

lemma fs_within_rename: "rename_file p q d = Some d' \<Longrightarrow> prefix dir p \<Longrightarrow> prefix dir q \<Longrightarrow> fs_within dir d d'"
  by (auto simp: rename_file_def fs_within_def split: option.splits fs_node.splits if_splits)

lemma write_transcript_within: "fs_within out_dir d (snd (write_transcript nv t out_dir d))"
proof -
  have raw: "fs_within out_dir e (snd (case write_raw_transcript segs out_dir e of
      Inl _ \<Rightarrow> (None, e) | Inr (d, p) \<Rightarrow> (Some p, d)))" for segs e
    by (cases "fs_write (path_join out_dir ''transcript.txt'') (render_raw_transcript segs) e")
      (auto simp: write_raw_transcript_def Let_def path_join_prefix intro: fs_within_write)
  show ?thesis
    unfolding write_transcript_def Let_def
    by (rule fs_within_trans [OF _ raw])
      (auto split: option.splits sum.splits intro: fs_within_write path_join_prefix)
qed

lemma write_notes_json_within: "fs_within out_dir d (snd (write_structured_notes_json nv sn out_dir d))"
  by (auto simp: write_structured_notes_json_def Let_def split: option.splits sum.splits
      intro: fs_within_write fs_within_trans fs_within_rename path_join_prefix)

text \<open>The sidecar does not touch other files.\<close>

lemma write_notes_json_keeps:
  assumes "p \<noteq> path_join out_dir ''notes.json.partial''" and "is_file d p"
  shows "is_file (snd (write_structured_notes_json nv sn out_dir d)) p"
  using assms
  by (auto simp: write_structured_notes_json_def Let_def fs_write_def rename_file_def is_file_def
      split: option.splits sum.splits fs_node.splits if_splits)

section \<open>A job keeps the invariant\<close>

text \<open>The engine with its files and its registry as they were; one more note, with the text of its file.\<close>

definition same_outside :: "('s \<Rightarrow> bool) \<Rightarrow> ('s \<Rightarrow> registry) \<Rightarrow> ('s, 'c) engine \<Rightarrow> ('s, 'c) engine \<Rightarrow> bool" where
  "same_outside ok abs_of en en' \<longleftrightarrow> en_fs en' = en_fs en \<and> ok (en_storage en') \<and>
     abs_of (en_storage en') = abs_of (en_storage en)"

definition note_added :: "string \<Rightarrow> fs \<Rightarrow> registry \<Rightarrow> registry \<Rightarrow> bool" where
  "note_added i d r r' \<longleftrightarrow> (\<exists>n. nt_meeting_id n = i \<and> rg_notes r (nt_id n) = None \<and> r' = reg_add_note n r \<and>
     d (nt_primary_path n) = Some (FsFile (nt_content_md n)))"

datatype engine_action = Answer request_time ipc_request | RunJob request_time string notes_generate_params

fun act :: "('s, 'c) notes_env \<Rightarrow> engine_action \<Rightarrow> ('s, 'c) engine \<Rightarrow> ('s, 'c) engine" where
  "act nv (Answer now q) en = snd (handle (nv_engine nv) now q en)"
| "act nv (RunJob now job params) en = fst (notes_job nv now job params en)"

primrec run_actions :: "('s, 'c) notes_env \<Rightarrow> engine_action list \<Rightarrow> ('s, 'c) engine \<Rightarrow> ('s, 'c) engine" where
  "run_actions nv [] en = en"
| "run_actions nv (a # as) en = run_actions nv as (act nv a en)"

lemma job_then_state:
  assumes "P (snd x)" and "\<And>a t. x = (Some (Inr a), t) \<Longrightarrow> P t \<Longrightarrow> P (snd (f a t))"
  shows "P (snd (job_then x f))"
  using assms by (auto simp: job_then_def split: prod.splits option.splits sum.splits)

lemma mapped_outcome: "map_option (map_sum id f) x = Some (Inr y) \<Longrightarrow> \<exists>z. y = f z"
  by (cases x; cases "the x") auto

locale notes_server =
  engine_server exec ok abs_of init start_capture stop_capture active + exporter: notes_exporter export
  for exec :: "storage_call \<Rightarrow> 's \<Rightarrow> storage_reply \<times> 's" and ok abs_of init
    and start_capture :: "u64 \<Rightarrow> string \<Rightarrow> string \<Rightarrow> capture_config \<Rightarrow> 'c \<Rightarrow> fs
        \<Rightarrow> capture_session capture_outcome \<times> 'c \<times> fs"
    and stop_capture active export +
  assumes primary_name: "export sn dest d = (Inr a, d') \<Longrightarrow> ea_primary_file a \<noteq> path_join dest ''notes.json.partial''"
begin

text \<open>Preparing the job: the meeting that was named, or a new one.\<close>

lemma inv_job_meeting:
  assumes "env_ok exec start_capture stop_capture (nv_engine nv)"
    and "engine_inv ok abs_of active (ev_data_dir (nv_engine nv)) en"
  shows "engine_inv ok abs_of active (ev_data_dir (nv_engine nv)) (snd (job_meeting nv now params audio en))"
proof -
  have ev: "ev_exec (nv_engine nv) = exec"
    using assms(1) by (simp add: env_ok_def)
  show ?thesis
  proof (cases "ng_meeting_id params")
    case None
    then show ?thesis
      using inv_start [OF assms(1) refl assms(2)] by (simp add: job_meeting_def Let_def)
  next
    case (Some i)
    then show ?thesis
      using assms(2) by (simp add: job_meeting_def Let_def)
        (intro inv_and_then inv_ask [OF ev]; simp)
  qed
qed

lemma job_transcript_state:
  "fst (snd (job_transcript nv now job params en)) = en \<or>
   (\<exists>audio. fst (snd (job_transcript nv now job params en)) = snd (job_meeting nv now params audio en))"
proof (cases "en_heavy en = Ready \<and> trim (ng_audio params) \<noteq> []")
  case True
  show ?thesis
  proof (cases "ev_canonicalize (nv_engine nv) (en_fs en) (ng_audio params)")
    case (Some a)
    obtain r e where meeting: "job_meeting nv now params a en = (r, e)"
      by fastforce
    have "fst (snd (job_transcript nv now job params en)) = e"
      using True Some meeting by (cases r) (auto simp: job_transcript_def Let_def case_prod_beta)
    then show ?thesis
      using meeting by (metis snd_conv)
  qed (use True in \<open>simp add: job_transcript_def\<close>)
next
  case False
  then show ?thesis
    by (cases "en_heavy en") (auto simp: job_transcript_def)
qed

lemma inv_job_transcript:
  assumes "env_ok exec start_capture stop_capture (nv_engine nv)"
    and "engine_inv ok abs_of active (ev_data_dir (nv_engine nv)) en"
  shows "engine_inv ok abs_of active (ev_data_dir (nv_engine nv)) (fst (snd (job_transcript nv now job params en)))"
  using job_transcript_state [of nv now job params en] inv_job_meeting [OF assms] assms(2) by auto

lemma inv_job_notes:
  assumes "ev_exec (nv_engine nv) = exec" and "engine_inv ok abs_of active data_dir en"
  shows "engine_inv ok abs_of active data_dir (fst (snd (job_notes nv now job params i out_dir t p en evs)))"
proof -
  have "engine_inv ok abs_of active data_dir (snd (ask (nv_engine nv) (CreateNote c n) as_unit
      (en\<lparr>en_fs := d, en_uuids := k\<rparr>)))" for c n d k
    by (rule inv_ask [OF assms(1)]) (simp_all add: assms(2))
  then show ?thesis
    using assms(2)
    by (auto simp: job_notes_def Let_def fresh_id_def case_prod_beta split: sum.splits)
qed

lemma inv_run_notes:
  assumes "env_ok exec start_capture stop_capture (nv_engine nv)"
    and "engine_inv ok abs_of active (ev_data_dir (nv_engine nv)) en"
  shows "engine_inv ok abs_of active (ev_data_dir (nv_engine nv)) (fst (snd (run_notes_pipeline nv now job params en)))"
  unfolding run_notes_pipeline_def
proof (rule job_then_state [where P = "\<lambda>t. engine_inv ok abs_of active (ev_data_dir (nv_engine nv)) (fst t)"])
  show "engine_inv ok abs_of active (ev_data_dir (nv_engine nv)) (fst (snd (job_transcript nv now job params en)))"
    by (rule inv_job_transcript [OF assms])
  have "ev_exec (nv_engine nv) = exec"
    using assms(1) by (simp add: env_ok_def)
  note later = inv_job_notes [OF this]
  fix a :: "string \<times> string \<times> transcript" and t :: "('s, 'c) engine \<times> ipc_event list"
  assume "engine_inv ok abs_of active (ev_data_dir (nv_engine nv)) (fst t)"
  then show "engine_inv ok abs_of active (ev_data_dir (nv_engine nv))
      (fst (snd ((case a of (i, out_dir, tr) \<Rightarrow> \<lambda>(en, evs).
         case (if en_fs en out_dir \<noteq> None then Inr (en_fs en) else create_dir_all out_dir (en_fs en)) of
           Inl _ \<Rightarrow> (Some (Inl (IpcInternal ''failed to prepare output directory'')), en, evs)
         | Inr d \<Rightarrow>
             (case write_transcript nv tr out_dir d of
                (txt_path, d) \<Rightarrow> job_notes nv now job params i out_dir tr txt_path (en\<lparr>en_fs := d\<rparr>) evs)) t)))"
    by (auto simp: case_prod_beta later split: sum.splits)
qed

text \<open>A job for a meeting that exists: until the transcript is there nothing has changed.\<close>

lemma job_meeting_given:
  assumes "ev_exec (nv_engine nv) = exec" and "engine_inv ok abs_of active (ev_data_dir (nv_engine nv)) en"
    and "ng_meeting_id params = Some i" and "job_meeting nv now params audio en = (r, en')"
  shows "same_outside ok abs_of en en' \<and> (\<forall>j dir. r = Inr (j, dir) \<longrightarrow> j = i \<and> dir = dir_of (ev_data_dir (nv_engine nv)) i \<and>
    rg_meetings (abs_of (en_storage en)) i \<noteq> None)"
proof -
  have ok: "ok (en_storage en)"
    using assms(2) by (simp add: engine_inv_def)
  from assms(1) ok show ?thesis
  proof (cases rule: get_meeting [of "nv_engine nv" en i])
    case (absent st)
    with assms(3,4) show ?thesis
      by (auto simp: job_meeting_def Let_def and_then_def same_outside_def)
  next
    case (found m st)
    have dir: "mt_dir_path m = dir_of (ev_data_dir (nv_engine nv)) i"
      using assms(2) dirs_managedD found(2) by (auto simp: engine_inv_def)
    show ?thesis
      using assms(3,4) found dir validate_returns
      by (fastforce simp: job_meeting_def Let_def and_then_def same_outside_def checked_dir_def split: sum.splits)
  qed
qed

lemma job_transcript_given:
  assumes "ev_exec (nv_engine nv) = exec" and "engine_inv ok abs_of active (ev_data_dir (nv_engine nv)) en"
    and "ng_meeting_id params = Some i" and "job_transcript nv now job params en = (r, en', evs)"
  shows "same_outside ok abs_of en en' \<and> (\<forall>j dir t. r = Some (Inr (j, dir, t)) \<longrightarrow>
    j = i \<and> dir = dir_of (ev_data_dir (nv_engine nv)) i \<and> rg_meetings (abs_of (en_storage en)) i \<noteq> None)"
proof (cases "en_heavy en = Ready \<and> trim (ng_audio params) \<noteq> []")
  case False
  then show ?thesis
    using assms(2,4) by (cases "en_heavy en") (auto simp: job_transcript_def same_outside_def engine_inv_def)
next
  case True
  show ?thesis
  proof (cases "ev_canonicalize (nv_engine nv) (en_fs en) (ng_audio params)")
    case None
    then show ?thesis
      using assms(2,4) True by (auto simp: job_transcript_def same_outside_def engine_inv_def)
  next
    case (Some a)
    obtain x e where meeting: "job_meeting nv now params a en = (x, e)"
      by fastforce
    note given = job_meeting_given [OF assms(1-3) meeting]
    show ?thesis
    proof (cases x)
      case (Inl f)
      with assms(4) True Some meeting given show ?thesis
        by (auto simp: job_transcript_def Let_def)
    next
      case (Inr p)
      obtain j dir where p: "p = (j, dir)"
        by fastforce
      with assms(4) True Some meeting Inr have "en' = e"
        and r: "r = map_option (map_sum id (\<lambda>t. (j, dir, t)))
          (fst (transcribe_meeting nv job params a dir (en_fs e) [job_progress_event job ''loading'' None None None]))"
        by (auto simp: job_transcript_def Let_def case_prod_beta)
      moreover have "k = j \<and> dir' = dir" if "r = Some (Inr (k, dir', t))" for k dir' t
        using mapped_outcome [OF that [unfolded r]] by simp
      ultimately show ?thesis
        using given Inr p by blast
    qed
  qed
qed

text \<open>The second half writes below the directory only, and adds at most the row of the new note.\<close>

lemma job_notes_outcome:
  assumes ev: "ev_exec (nv_engine nv) = exec" and exp: "nv_export nv = export" and ok: "ok (en_storage en)"
    and run: "job_notes nv now job params i dir t txt en evs = (r, en', evs')"
  shows "fs_within dir (en_fs en) (en_fs en') \<and>
    (abs_of (en_storage en') = abs_of (en_storage en) \<or>
      note_added i (en_fs en') (abs_of (en_storage en)) (abs_of (en_storage en'))) \<and>
    (\<forall>res. r = Some (Inr res) \<longrightarrow> nr_meeting_id res = i \<and> under_dir dir (nr_primary_file res) \<and>
      is_file (en_fs en') (nr_primary_file res)) \<and> r \<noteq> None"
proof (cases "fst (generate (nv_pipeline nv) (job_dialect params)
    (job_input nv params (rt_rfc3339 now) t dir (en_fs en)))")
  case (Inl e)
  with run show ?thesis
    by (auto simp: job_notes_def)
next
  case (Inr sn)
  obtain x d where export: "export sn dir (en_fs en) = (x, d)"
    by fastforce
  then have within: "fs_within dir (en_fs en) d"
    using exporter.touches by (auto simp: fs_within_def)
  show ?thesis
  proof (cases x)
    case (Inl e)
    with run Inr export exp within show ?thesis
      by (auto simp: job_notes_def Let_def)
  next
    case (Inr a)
    let ?d = "snd (write_structured_notes_json nv sn dir d)"
    let ?e = "en\<lparr>en_fs := ?d, en_uuids := Suc (en_uuids en)\<rparr>"
    let ?c = "case ?d (ea_primary_file a) of Some (FsFile c) \<Rightarrow> c | _ \<Rightarrow> []"
    let ?n = "\<lparr>nd_id = ev_uuid_simple (nv_engine nv) (en_uuids en), nd_meeting_id = i,
      nd_dialect = dialect_as_str (job_dialect params), nd_content_md = ?c, nd_primary_path = ea_primary_file a\<rparr>"
    note primary = exporter.primary [OF export [unfolded Inr]]
    have "is_file d (ea_primary_file a)"
      using primary by (auto simp: is_file_def)
    then have primary_file: "is_file ?d (ea_primary_file a)"
      by (rule write_notes_json_keeps [OF primary_name [OF export [unfolded Inr]]])
    obtain y st where asked: "exec (CreateNote (rt_clock now) ?n) (en_storage en) = (y, st)"
      by fastforce
    have ended: "r = Some (Inr \<lparr>nr_primary_file = ea_primary_file a, nr_assets = ea_assets a, nr_meeting_id = i,
        nr_transcript_txt_path = txt\<rparr>)" "en' = ?e\<lparr>en_storage := st\<rparr>"
      using run \<open>fst (generate _ _ _) = Inr sn\<close> export exp Inr asked ev
      by (auto simp: job_notes_def Let_def fresh_id_def case_prod_beta ask_state)
    let ?note = "note_of_draft ?n (ck_rfc3339 (rt_clock now))"
    have "spec (CreateNote (rt_clock now) ?n) (abs_of (en_storage en)) y (abs_of st)"
      by (rule reply_spec [OF ok _ asked]) simp
    then have "abs_of st = abs_of (en_storage en) \<or>
        rg_notes (abs_of (en_storage en)) (nt_id ?note) = None \<and> abs_of st = reg_add_note ?note (abs_of (en_storage en))"
      by (auto simp: Let_def elim!: guardedE split: if_splits)
    moreover have "?d (nt_primary_path ?note) = Some (FsFile (nt_content_md ?note))"
      using primary_file by (auto simp: is_file_def note_of_draft_def split: option.splits fs_node.splits)
    moreover have "nt_meeting_id ?note = i"
      by simp
    ultimately have "abs_of st = abs_of (en_storage en) \<or> note_added i ?d (abs_of (en_storage en)) (abs_of st)"
      unfolding note_added_def by blast
    then show ?thesis
      using ended primary_file primary fs_within_trans [OF within write_notes_json_within] by auto
  qed
qed

lemma run_notes_outcome:
  assumes env: "env_ok exec start_capture stop_capture (nv_engine nv)" and exp: "nv_export nv = export"
    and inv: "engine_inv ok abs_of active (ev_data_dir (nv_engine nv)) en" and given: "ng_meeting_id params = Some i"
    and run: "run_notes_pipeline nv now job params en = (r, en', evs)"
    and dir: "dir = dir_of (ev_data_dir (nv_engine nv)) i"
  shows "fs_within dir (en_fs en) (en_fs en') \<and>
    (abs_of (en_storage en') = abs_of (en_storage en) \<or>
      note_added i (en_fs en') (abs_of (en_storage en)) (abs_of (en_storage en'))) \<and>
    (\<forall>res. r = Some (Inr res) \<longrightarrow> nr_meeting_id res = i \<and> under_dir dir (nr_primary_file res) \<and>
      is_file (en_fs en') (nr_primary_file res))"
proof -
  have ev: "ev_exec (nv_engine nv) = exec"
    using env by (simp add: env_ok_def)
  obtain x en1 evs1 where first: "job_transcript nv now job params en = (x, en1, evs1)"
    by (metis prod_cases3)
  note half = job_transcript_given [OF ev inv given first, folded dir]
  consider (ended) "r = None \<or> (\<exists>e. r = Some (Inl e))" "en' = en1" | (transcript) t where "x = Some (Inr (i, dir, t))"
  proof (cases x)
    case None
    with run first that(1) show ?thesis
      by (simp add: run_notes_pipeline_def job_then_def)
  next
    case (Some y)
    with run first half that show ?thesis
      by (cases y) (auto simp: run_notes_pipeline_def job_then_def)
  qed
  then show ?thesis
  proof cases
    case ended
    with half show ?thesis
      by (auto simp: same_outside_def)
  next
    case (transcript t)
    show ?thesis
    proof (cases "if en_fs en1 dir \<noteq> None then Inr (en_fs en1) else create_dir_all dir (en_fs en1)")
      case (Inl e)
      then show ?thesis
        by (auto simp: create_dir_all_def split: if_splits)
    next
      case (Inr d)
      obtain tp d1 where written: "write_transcript nv t dir d = (tp, d1)"
        by fastforce
      have "fs_within dir (en_fs en) d"
      proof -
        have "d = en_fs en1 \<or> d = (en_fs en1)(dir \<mapsto> FsDir)"
          using Inr by (auto simp: create_dir_all_def split: if_splits)
        then show ?thesis
          using half by (auto simp: same_outside_def intro: fs_within_upd)
      qed
      moreover have "fs_within dir d d1"
        using write_transcript_within [of dir d nv t] written by simp
      ultimately have within: "fs_within dir (en_fs en) d1"
        by (rule fs_within_trans)
      have second: "job_notes nv now job params i dir t tp (en1\<lparr>en_fs := d1\<rparr>) evs1 = (r, en', evs)"
        using run first transcript Inr written by (simp add: run_notes_pipeline_def job_then_def)
      from job_notes_outcome [OF ev exp _ second] half within show ?thesis
        by (auto simp: same_outside_def intro: fs_within_trans)
    qed
  qed
qed

text \<open>Requests and notes jobs in any order.\<close>

lemma actions_keep:
  assumes "env_ok exec start_capture stop_capture (nv_engine nv)"
    and "engine_inv ok abs_of active (ev_data_dir (nv_engine nv)) en"
  shows "engine_inv ok abs_of active (ev_data_dir (nv_engine nv)) (run_actions nv as en)"
  using assms(2)
proof (induction "as" arbitrary: en)
  case (Cons a as)
  have "engine_inv ok abs_of active (ev_data_dir (nv_engine nv)) (act nv a en)"
    using handle_keeps [OF assms(1) refl Cons.prems] inv_run_notes [OF assms(1) Cons.prems]
    by (cases a) (simp_all add: notes_job_def case_prod_beta)
  from Cons.IH [OF this] show ?case
    by simp
qed simp

end

lemma markdown_primary_name:
  "markdown_export path_debug sn dest d = (Inr a, d') \<Longrightarrow> ea_primary_file a = path_join dest ''notes.md''"
  by (auto simp: markdown_export_def Let_def split: sum.splits prod.splits)

interpretation sqlite_notes: notes_server "sqlite_exec dir_first" db_ok abs_db fresh_db
  fake_start_capture "fake_stop_capture wav dbg" fake_active "markdown_export path_debug"
  for dir_first wav dbg path_debug
proof
  fix sn dest d a d'
  assume "markdown_export path_debug sn dest d = (Inr a, d')"
  then show "ea_primary_file a \<noteq> path_join dest ''notes.json.partial''"
    by (simp add: markdown_primary_name path_join_inj)
qed

section \<open>The events of a job\<close>

definition progress_only :: "string \<Rightarrow> ipc_event list \<Rightarrow> bool" where
  "progress_only job evs = list_all (\<lambda>e. \<exists>p. e = JobProgress job p) evs"

lemma progress_only_simps [simp]:
  "progress_only job []"
  "progress_only job (xs @ ys) \<longleftrightarrow> progress_only job xs \<and> progress_only job ys"
  "progress_only job (job_progress_event job stage cur tot msg # xs) \<longleftrightarrow> progress_only job xs"
  by (simp_all add: progress_only_def job_progress_event_def)

lemma job_then_progress:
  assumes "progress_only job (snd x)" and "\<And>a t. progress_only job t \<Longrightarrow> progress_only job (snd (f a t))"
  shows "progress_only job (snd (job_then x f))"
  using assms by (auto simp: job_then_def split: prod.splits option.splits sum.splits)

lemma regions_progress:
  "progress_only job evs \<Longrightarrow>
    progress_only job (snd (transcribe_regions nv job msg path samples sr lang total_ms n i rs segs model evs))"
  by (induction nv job msg path samples sr lang total_ms n i rs segs model evs rule: transcribe_regions.induct)
    (auto simp: Let_def split: option.splits sum.splits prod.splits)

lemma track_progress:
  "progress_only job evs \<Longrightarrow> progress_only job (snd (transcribe_track_labeled nv job msg path samples sr lang evs))"
  by (auto simp: transcribe_track_labeled_def Let_def intro: regions_progress split: sum.splits option.splits)

lemma capture_track_progress:
  "progress_only job evs \<Longrightarrow> progress_only job (snd (capture_track nv job label wav lang d evs))"
  by (auto simp: capture_track_def case_prod_beta split: sum.splits option.splits
      intro!: job_then_progress track_progress)

lemma diarized_progress:
  "progress_only job evs \<Longrightarrow> progress_only job (snd (diarized_turns nv job path no_diarize d evs))"
  by (simp add: diarized_turns_def)

lemma two_track_progress:
  "progress_only job evs \<Longrightarrow> progress_only job (snd (transcribe_two_track nv job system mic lang no_diarize d evs))"
  by (auto simp: transcribe_two_track_def case_prod_beta split: option.splits
      intro!: job_then_progress capture_track_progress diarized_progress)

lemma file_progress:
  "progress_only job evs \<Longrightarrow> progress_only job (snd (transcribe_file nv job path lang no_diarize d evs))"
  by (auto simp: transcribe_file_def transcribe_track_def case_prod_beta split: sum.splits option.splits
      intro!: job_then_progress track_progress diarized_progress)

lemma transcript_progress: "progress_only job (snd (snd (job_transcript nv now job params en)))"
  by (auto simp: job_transcript_def transcribe_meeting_def Let_def case_prod_beta
      intro!: two_track_progress file_progress split: heavy_state.splits option.splits sum.splits)

lemma notes_progress:
  "progress_only job evs \<Longrightarrow> progress_only job (snd (snd (job_notes nv now job params i dir t p en evs)))"
  by (auto simp: job_notes_def Let_def case_prod_beta split: sum.splits)

lemma run_progress: "progress_only job (snd (snd (run_notes_pipeline nv now job params en)))"
proof -
  obtain x e evs where first: "job_transcript nv now job params en = (x, e, evs)"
    by (metis prod_cases3)
  then have "progress_only job evs"
    using transcript_progress [of job nv now params en] by simp
  then show ?thesis
    using notes_progress
    by (auto simp: run_notes_pipeline_def first job_then_def case_prod_beta split: option.splits sum.splits)
qed

text \<open>A run of the queue for the events of a job.\<close>

lemma queue_progress:
  "progress_only job evs \<Longrightarrow> jq_jobs q job = Some Running \<Longrightarrow>
    job_step\<^sup>*\<^sup>* q (q\<lparr>jq_events := jq_events q @ evs\<rparr>)"
proof (induction evs arbitrary: q)
  case (Cons e evs)
  obtain p where e: "e = JobProgress job p"
    using Cons.prems(1) by (auto simp: progress_only_def)
  have "job_step q (send e q)"
    unfolding e by (rule progress [OF Cons.prems(2)])
  moreover have "job_step\<^sup>*\<^sup>* (send e q) ((send e q)\<lparr>jq_events := jq_events (send e q) @ evs\<rparr>)"
    using Cons.prems by (intro Cons.IH) (simp_all add: progress_only_def)
  ultimately show ?case
    by (simp add: send_def)
qed simp

lemma queue_end:
  assumes "jq_jobs q job = Some Running"
  shows "job_step\<^sup>*\<^sup>* q (return_permit (move job Finished (send (final_event job outcome) q)))"
proof (cases outcome)
  case None
  have "job_step q (return_permit (move job Unwound q))"
    by (rule panics [OF assms])
  moreover have "job_step (return_permit (move job Unwound q))
      (send (final_event job None) (move job Finished (return_permit (move job Unwound q))))"
    by (rule report) simp
  moreover have "send (final_event job None) (move job Finished (return_permit (move job Unwound q))) =
      return_permit (move job Finished (send (final_event job outcome) q))"
    by (cases q) (simp add: None return_permit_def move_def send_def)
  ultimately show ?thesis
    by (metis converse_rtranclp_into_rtranclp r_into_rtranclp)
next
  case (Some x)
  have "job_step q (send (final_event job outcome) (move job Sent q))"
    by (rule complete [OF assms]) (simp add: Some)
  moreover have "job_step (send (final_event job outcome) (move job Sent q))
      (return_permit (move job Finished (send (final_event job outcome) (move job Sent q))))"
    by (rule release) simp
  moreover have "return_permit (move job Finished (send (final_event job outcome) (move job Sent q))) =
      return_permit (move job Finished (send (final_event job outcome) q))"
    by (cases q) (simp add: return_permit_def move_def send_def)
  ultimately show ?thesis
    by (metis converse_rtranclp_into_rtranclp r_into_rtranclp)
qed

section \<open>A concrete job\<close>

text \<open>A silent recording of one second, for the meeting of \<open>started_engine\<close>.\<close>

definition silent_notes :: "(db, fake_capture) notes_env" where
  "silent_notes =
     \<lparr>nv_engine = sample_env, nv_load_audio = (\<lambda>_ _. Inr (replicate 16 0, 16)), nv_detect_speech = (\<lambda>_ _. Inr []),
      nv_asr = (\<lambda>_ _ _ _. Inl (AsrModel [])), nv_asr_is_fake = True, nv_diarize = (\<lambda>_ _. Inr []),
      nv_read_dir = (\<lambda>_ _. []),
      nv_pipeline = \<lparr>env_json_text = (\<lambda>_. []), env_llm = (\<lambda>_ _ _. Inl LlmEmptyResponse), env_totals_order = id,
        env_counts_order = id, env_date_of = id, env_now = []\<rparr>,
      nv_export = markdown_export id, nv_transcript_json = (\<lambda>_. Some ''{}''), nv_notes_json = (\<lambda>_. Some ''{}'')\<rparr>"

definition silent_params :: notes_generate_params where
  "silent_params = \<lparr>ng_audio = ''/in.wav'', ng_dialect = None, ng_llm_provider = None, ng_llm_model = None,
     ng_no_diarize = Some True, ng_language = None, ng_meeting_id = Some ''a''\<rparr>"

definition silent_transcript :: transcript where
  "silent_transcript = \<lparr>tr_schema_version = 2, tr_model = ''vad-multilingual'', tr_audio_path = ''/in.wav'',
     tr_audio_duration_ms = 1000, tr_diarized = False, tr_segments = []\<rparr>"

lemma silent_env_ok: "sqlite_env False (\<lambda>_. ''RIFF'') (\<lambda>_. ''display'') (nv_engine silent_notes)"
  using sample_env_ok by (simp add: silent_notes_def)

lemma silent_sel [simp]:
  "nv_engine silent_notes = sample_env" "nv_export silent_notes = markdown_export id"
  "nv_transcript_json silent_notes = (\<lambda>_. Some ''{}'')"
  by (simp_all add: silent_notes_def)

lemma started_facts:
  "en_heavy started_engine = Ready"
  "map (en_fs started_engine) [''/data/meetings/a'', ''/data/meetings/a/system.wav'', ''/data/meetings/a/mic.wav'',
     ''/data/meetings/a/transcript.json'', ''/data/meetings/a/transcript.txt''] = [Some FsDir, None, None, None, None]"
  "fst (job_meeting silent_notes sample_time silent_params ''/in.wav'' started_engine) = Inr (''a'', ''/data/meetings/a'')"
  by code_simp+

lemma silent_transcribe:
  assumes "d ''/data/meetings/a/system.wav'' = None" and "d ''/data/meetings/a/mic.wav'' = None"
  shows "transcribe_meeting silent_notes job silent_params ''/in.wav'' ''/data/meetings/a'' d evs =
    (Some (Inr silent_transcript), evs)"
  using assms
  by (simp add: transcribe_meeting_def path_join_def transcribe_file_def transcribe_track_def transcribe_track_labeled_def
      silent_notes_def silent_params_def silent_transcript_def total_audio_ms_def job_then_def diarized_turns_def
      merge_adjacent_regions_def transcript_schema_version_def)

lemma silent_run:
  "\<exists>en evs. job_transcript silent_notes sample_time ''j'' silent_params started_engine =
    (Some (Inr (''a'', ''/data/meetings/a'', silent_transcript)), en, evs) \<and> en_fs en = en_fs started_engine"
proof -
  obtain e where meeting: "job_meeting silent_notes sample_time silent_params ''/in.wav'' started_engine =
      (Inr (''a'', ''/data/meetings/a''), e)"
    using started_facts(3) by (metis prod.collapse)
  have "en_fs e = en_fs started_engine"
    using sqlite_notes.job_meeting_given [OF _ _ _ meeting, of False "''a''"] started_engine_inv
    by (simp add: silent_params_def same_outside_def)
  moreover have "ev_canonicalize sample_env d (ng_audio silent_params) = Some ''/in.wav''" "trim (ng_audio silent_params) \<noteq> []" for d
    by (simp add: silent_params_def, simp add: silent_params_def, code_simp)
  ultimately show ?thesis
    using started_facts(1,2) meeting by (simp add: job_transcript_def Let_def silent_transcribe)
qed

section \<open>Properties\<close>

text \<open>C21: Whatever requests the server answers and whatever notes jobs it runs, in any order and with any
  outcome, the database stays consistent, every meeting of the registry keeps the directory that was
  made for it, and every recording that the server remembers is active in the capture adapter and has
  its note flag.\<close>

theorem engine_actions_keep_state:
  assumes "sqlite_env dir_first wav dbg (nv_engine nv)"
  shows "sqlite_engine_inv (ev_data_dir (nv_engine nv)) (run_actions nv as (new_engine fresh_db c d heavy))"
  by (rule sqlite_notes.actions_keep [OF assms sqlite_engine.new_engine_inv])

theorem engine_actions_keep_state_witness:
  "sqlite_engine_inv ''/data'' (run_actions silent_notes
     [Answer sample_time (MeetingStart untitled), RunJob sample_time ''j'' silent_params]
     (new_engine fresh_db (\<lambda>_. None) (\<lambda>_. None) Ready))"
  using engine_actions_keep_state [OF silent_env_ok] unfolding silent_sel(1) sample_env_sel(2) .



text \<open>C23: A failure of the language model does not lose the transcript. Once there is a transcript and the
  generation of the notes fails, the job reports that failure, and the transcript is on disk in full, as
  JSON and as text; nothing else has changed.\<close>

theorem transcript_survives:
  assumes "job_transcript nv now job params en = (Some (Inr (i, dir, t)), en1, evs1)"
    and "nv_transcript_json nv t = Some json"
    and "en_fs en1 dir = Some FsDir" and "en_fs en1 (path_join dir ''transcript.json'') \<noteq> Some FsDir"
    and "en_fs en1 (path_join dir ''transcript.txt'') \<noteq> Some FsDir"
    and "\<And>input. ni_transcript input = tr_segments t \<Longrightarrow>
      fst (generate (nv_pipeline nv) (job_dialect params) input) = Inl e"
  shows "\<exists>evs. run_notes_pipeline nv now job params en = (Some (Inl (ipc_of_notes e)),
    en1\<lparr>en_fs := (en_fs en1)(path_join dir ''transcript.json'' \<mapsto> FsFile json,
      path_join dir ''transcript.txt'' \<mapsto> FsFile (render_raw_transcript (tr_segments t)))\<rparr>, evs)"
proof -
  let ?j = "path_join dir ''transcript.json''" and ?x = "path_join dir ''transcript.txt''"
  have "?j \<noteq> ?x"
    by (simp add: path_join_inj)
  then have "write_transcript nv t dir (en_fs en1) =
      (Some ?x, (en_fs en1)(?j \<mapsto> FsFile json, ?x \<mapsto> FsFile (render_raw_transcript (tr_segments t))))"
    using assms(2,4,5)
    by (simp add: write_transcript_def write_raw_transcript_def fs_write_def Let_def
        split: option.splits fs_node.splits)
  then show ?thesis
    using assms(1,3,6) by (simp add: run_notes_pipeline_def job_then_def job_notes_def job_input_def Let_def)
qed

theorem transcript_survives_witness:
  "fst (run_notes_pipeline silent_notes sample_time ''j'' silent_params started_engine) =
     Some (Inl (IpcInvalidInput ''empty transcript'')) \<and>
   en_fs (fst (snd (run_notes_pipeline silent_notes sample_time ''j'' silent_params started_engine)))
     ''/data/meetings/a/transcript.json'' = Some (FsFile ''{}'')"
proof -
  obtain en1 evs where run: "job_transcript silent_notes sample_time ''j'' silent_params started_engine =
      (Some (Inr (''a'', ''/data/meetings/a'', silent_transcript)), en1, evs)" and d: "en_fs en1 = en_fs started_engine"
    using silent_run by blast
  have paths: "path_join ''/data/meetings/a'' ''transcript.json'' = ''/data/meetings/a/transcript.json''"
    "path_join ''/data/meetings/a'' ''transcript.txt'' = ''/data/meetings/a/transcript.txt''"
    by (simp_all add: path_join_def)
  have json: "nv_transcript_json silent_notes silent_transcript = Some ''{}''"
    by simp
  have "fst (generate (nv_pipeline silent_notes) (job_dialect silent_params) input) = Inl EmptyTranscript"
    if "ni_transcript input = tr_segments silent_transcript" for input
    using that by (simp add: generate_def silent_transcript_def)
  note lost = transcript_survives [OF run json _ _ _ this, unfolded paths]
  have "\<exists>evs. run_notes_pipeline silent_notes sample_time ''j'' silent_params started_engine =
      (Some (Inl (ipc_of_notes EmptyTranscript)), en1\<lparr>en_fs := (en_fs en1)(''/data/meetings/a/transcript.json'' \<mapsto> FsFile ''{}'',
        ''/data/meetings/a/transcript.txt'' \<mapsto> FsFile (render_raw_transcript (tr_segments silent_transcript)))\<rparr>, evs)"
    by (rule lost) (use started_facts(2) d in simp_all)
  then show ?thesis by auto
qed

text \<open>C26: A notes job is a run of the job queue. From a queue with a permit in which the job waits, the
  steps of the queue lead to one in which it is finished, the permit is back, and the events that were
  sent are those of the job: reports of progress, then one final event.\<close>

theorem notes_job_runs_in_queue:
  assumes "jq_jobs q job = Some Waiting" and "0 < jq_permits q"
    and "notes_job nv now job params en = (en', evs)"
  shows "job_step\<^sup>*\<^sup>* q (q\<lparr>jq_jobs := (jq_jobs q)(job \<mapsto> Finished), jq_events := jq_events q @ evs\<rparr>) \<and>
    progress_only job (butlast evs) \<and> is_final (last evs) \<and> event_job (last evs) = Some job"
proof -
  obtain r e ps where run: "run_notes_pipeline nv now job params en = (r, e, ps)"
    by (metis prod_cases3)
  with assms(3) have evs: "evs = ps @ [final_event job r]"
    by (simp add: notes_job_def)
  have ps: "progress_only job ps"
    using run_progress [of job nv now params en] run by simp
  let ?q1 = "take_permit (move job Running q)"
  let ?q2 = "?q1\<lparr>jq_events := jq_events ?q1 @ ps\<rparr>"
  have "job_step q ?q1"
    by (rule start [OF assms(1,2)])
  also have "job_step\<^sup>*\<^sup>* ?q1 ?q2"
    by (rule queue_progress [OF ps]) simp
  also have "job_step\<^sup>*\<^sup>* ?q2 (return_permit (move job Finished (send (final_event job r) ?q2)))"
    by (rule queue_end) simp
  also have "return_permit (move job Finished (send (final_event job r) ?q2)) =
      q\<lparr>jq_jobs := (jq_jobs q)(job \<mapsto> Finished), jq_events := jq_events q @ evs\<rparr>"
    using assms(2) by (simp add: return_permit_def move_def send_def take_permit_def evs)
  finally show ?thesis
    using ps by (simp add: evs)
qed

theorem notes_job_runs_in_queue_witness:
  "\<exists>evs. job_step\<^sup>*\<^sup>* (move ''j'' Waiting empty_queue)
     (empty_queue\<lparr>jq_jobs := [''j'' \<mapsto> Finished], jq_events := evs\<rparr>)"
proof -
  obtain en' evs where "notes_job silent_notes sample_time ''j'' silent_params started_engine = (en', evs)"
    by fastforce
  from notes_job_runs_in_queue [OF _ _ this, of "move ''j'' Waiting empty_queue"] show ?thesis
    by (auto simp: move_def empty_queue_def max_concurrent_notes_jobs_def)
qed

end
