(* ===== verification/Model_Files.thy ===== *)
theory Model_Files
  imports Domain Rust_Strings Export_Port
begin

text \<open>
  The files and the network as \<open>panops-portable/src/model.rs\<close> sees them. A disk is a finite map from
  path strings to nodes; a file has its bytes and the time of its last change. Every call that may
  fail for a reason outside the program asks the schedule \<open>me_fault\<close>, which may be any: the theorems
  hold for every sequence of failures. A failing write may leave part of its bytes in the file. The
  clock, the answers of the network, SHA-256, the serializer of markers and the unpacking of archives
  are parameters. One process uses the disk. A path does not end in \<open>/.\<close> and has no aliases.
\<close>

section \<open>Results and state\<close>

datatype disk_node = DiskDir | DiskFile string int

type_synonym disk_files = "string \<rightharpoonup> disk_node"

record disk =
  dk_nodes :: disk_files
  dk_ops :: nat
  dk_requests :: "string list"

record verification_marker =
  vm_sha256 :: string
  vm_size :: u64
  vm_mtime_secs :: u64
  vm_mtime_nanos :: u32

text \<open>
  An HTTP response: its status, the length it announces, its body, how many bytes the \<open>n\<close>-th read
  offers and which read fails.
\<close>

record http_response =
  hr_status :: nat
  hr_length :: "u64 option"
  hr_body :: string
  hr_offer :: "nat \<Rightarrow> usize"
  hr_error :: "nat \<Rightarrow> string option"

record model_env =
  me_fault :: "nat \<Rightarrow> (string \<times> usize) option"
  me_clock :: "nat \<Rightarrow> int"
  me_dir_metadata :: "string \<Rightarrow> u64 \<times> int"
  me_client :: "string option"
  me_get :: "nat \<Rightarrow> string \<Rightarrow> string + http_response"
  me_var :: "string \<Rightarrow> string option"
  me_project_dir :: "string option"
  me_sha256 :: "string \<Rightarrow> string"
  me_encode :: "verification_marker \<Rightarrow> string"
  me_decode :: "string \<Rightarrow> verification_marker option"
  me_untar :: "string \<Rightarrow> string \<Rightarrow> disk_files \<Rightarrow> string option \<times> disk_files"
  me_path_debug :: "string \<Rightarrow> string"
  me_status_text :: "nat \<Rightarrow> string"

definition try_then :: "('e + 'a) \<times> 's \<Rightarrow> ('a \<Rightarrow> 's \<Rightarrow> ('e + 'b) \<times> 's) \<Rightarrow> ('e + 'b) \<times> 's" where
  "try_then x f = (case x of (Inl e, s) \<Rightarrow> (Inl e, s) | (Inr a, s) \<Rightarrow> f a s)"

definition map_err :: "('d \<Rightarrow> 'e) \<Rightarrow> ('d + 'a) \<times> 's \<Rightarrow> ('e + 'a) \<times> 's" where
  "map_err g x = (case x of (Inl e, s) \<Rightarrow> (Inl (g e), s) | (Inr a, s) \<Rightarrow> (Inr a, s))"

lemma try_then_simps [simp]:
  "try_then (Inl e, s) f = (Inl e, s)"
  "try_then (Inr a, s) f = f a s"
  by (simp_all add: try_then_def)

lemma map_err_simps [simp]:
  "map_err g (Inl e, s) = (Inl (g e), s)"
  "map_err g (Inr a, s) = (Inr a, s)"
  by (simp_all add: map_err_def)

lemma map_err_Inr: "map_err g x = (Inr a, s) \<longleftrightarrow> x = (Inr a, s)"
  by (auto simp: map_err_def split: prod.splits sum.splits)

lemma try_then_Inr:
  "try_then x f = (Inr b, t) \<longleftrightarrow> (\<exists>a s. x = (Inr a, s) \<and> f a s = (Inr b, t))"
  by (auto simp: try_then_def split: prod.splits sum.splits)

section \<open>Operations on files\<close>

definition tick :: "disk \<Rightarrow> disk" where
  "tick w = w\<lparr>dk_ops := Suc (dk_ops w)\<rparr>"

definition disk_op ::
  "model_env \<Rightarrow> (int \<Rightarrow> disk_files \<Rightarrow> string + 'a \<times> disk_files) \<Rightarrow> disk \<Rightarrow> (string + 'a) \<times> disk" where
  "disk_op me f w =
     (case me_fault me (dk_ops w) of
        Some (m, n) \<Rightarrow> (Inl m, tick w)
      | None \<Rightarrow>
          (case f (me_clock me (dk_ops w)) (dk_nodes w) of
             Inl m \<Rightarrow> (Inl m, tick w)
           | Inr (a, d) \<Rightarrow> (Inr a, (tick w)\<lparr>dk_nodes := d\<rparr>)))"

definition metadata :: "model_env \<Rightarrow> string \<Rightarrow> disk \<Rightarrow> (string + (u64 \<times> int)) \<times> disk" where
  "metadata me p =
     disk_op me (\<lambda>now d. case d p of
         None \<Rightarrow> Inl ''No such file or directory''
       | Some DiskDir \<Rightarrow> Inr (me_dir_metadata me p, d)
       | Some (DiskFile b t) \<Rightarrow> Inr ((length b, t), d))"

definition path_exists :: "model_env \<Rightarrow> string \<Rightarrow> disk \<Rightarrow> bool \<times> disk" where
  "path_exists me p w = (case metadata me p w of (Inl e, w) \<Rightarrow> (False, w) | (Inr m, w) \<Rightarrow> (True, w))"

definition open_file :: "model_env \<Rightarrow> string \<Rightarrow> disk \<Rightarrow> (string + unit) \<times> disk" where
  "open_file me p =
     disk_op me (\<lambda>now d. if d p = None then Inl ''No such file or directory'' else Inr ((), d))"

definition read_bytes :: "model_env \<Rightarrow> string \<Rightarrow> disk \<Rightarrow> (string + string) \<times> disk" where
  "read_bytes me p =
     disk_op me (\<lambda>now d. case d p of
         None \<Rightarrow> Inl ''No such file or directory''
       | Some DiskDir \<Rightarrow> Inl ''Is a directory''
       | Some (DiskFile b t) \<Rightarrow> Inr (b, d))"

definition make_dirs :: "model_env \<Rightarrow> string \<Rightarrow> disk \<Rightarrow> (string + unit) \<times> disk" where
  "make_dirs me p =
     disk_op me (\<lambda>now d. case d p of
         Some (DiskFile b t) \<Rightarrow> Inl ''File exists''
       | _ \<Rightarrow> Inr ((), d(p \<mapsto> DiskDir)))"

definition create_file :: "model_env \<Rightarrow> string \<Rightarrow> disk \<Rightarrow> (string + unit) \<times> disk" where
  "create_file me p =
     disk_op me (\<lambda>now d. if d p = Some DiskDir then Inl ''Is a directory''
       else Inr ((), d(p \<mapsto> DiskFile [] now)))"

definition remove_file :: "model_env \<Rightarrow> string \<Rightarrow> disk \<Rightarrow> (string + unit) \<times> disk" where
  "remove_file me p =
     disk_op me (\<lambda>now d. case d p of
         None \<Rightarrow> Inl ''No such file or directory''
       | Some DiskDir \<Rightarrow> Inl ''Is a directory''
       | Some (DiskFile b t) \<Rightarrow> Inr ((), d(p := None)))"

definition move_file :: "model_env \<Rightarrow> string \<Rightarrow> string \<Rightarrow> disk \<Rightarrow> (string + unit) \<times> disk" where
  "move_file me p q =
     disk_op me (\<lambda>now d. if d p = None then Inl ''No such file or directory''
       else if d q = Some DiskDir \<and> d p \<noteq> Some DiskDir then Inl ''Is a directory''
       else Inr ((), (d(p := None))(q := d p)))"

text \<open>\<open>write_all\<close> on an open file: a failure may leave a first part of the bytes in it.\<close>

definition append_bytes :: "string \<Rightarrow> string \<Rightarrow> int \<Rightarrow> disk_files \<Rightarrow> disk_files" where
  "append_bytes p b now d =
     (case d p of Some (DiskFile a t) \<Rightarrow> d(p \<mapsto> DiskFile (a @ b) now) | _ \<Rightarrow> d)"

definition write_all :: "model_env \<Rightarrow> string \<Rightarrow> string \<Rightarrow> disk \<Rightarrow> (string + unit) \<times> disk" where
  "write_all me p b w =
     (let put = (\<lambda>b. (tick w)\<lparr>dk_nodes := append_bytes p b (me_clock me (dk_ops w)) (dk_nodes w)\<rparr>)
      in case me_fault me (dk_ops w) of
           Some (m, n) \<Rightarrow> (Inl m, put (take n b))
         | None \<Rightarrow> (Inr (), put b))"

definition write_file :: "model_env \<Rightarrow> string \<Rightarrow> string \<Rightarrow> disk \<Rightarrow> (string + unit) \<times> disk" where
  "write_file me p b w = try_then (create_file me p w) (\<lambda>u. write_all me p b)"

definition sync_all :: "model_env \<Rightarrow> disk \<Rightarrow> (string + unit) \<times> disk" where
  "sync_all me = disk_op me (\<lambda>now d. Inr ((), d))"

section \<open>Paths\<close>

text \<open>\<open>Path::parent\<close> and \<open>Path::with_extension\<close>.\<close>

definition parent_path :: "string \<Rightarrow> string option" where
  "parent_path p =
     (let r = dropWhile (\<lambda>c. c = CHR ''/'') (rev p);
          d = rev (dropWhile (\<lambda>c. c = CHR ''/'') (dropWhile (\<lambda>c. c \<noteq> CHR ''/'') r))
      in if r = [] then None
         else if d = [] \<and> hd p = CHR ''/'' then Some ''/'' else Some d)"

definition name_stem :: "string \<Rightarrow> string" where
  "name_stem name =
     (let stem = rev (drop 1 (dropWhile (\<lambda>c. c \<noteq> CHR ''.'') (rev name)))
      in if stem = [] then name else stem)"

definition with_extension :: "string \<Rightarrow> string \<Rightarrow> string" where
  "with_extension p e =
     (case file_name p of
        None \<Rightarrow> p
      | Some name \<Rightarrow>
          (let r = dropWhile (\<lambda>c. c = CHR ''/'') (rev p);
               d = rev (dropWhile (\<lambda>c. c \<noteq> CHR ''/'') r)
           in d @ name_stem name @ (if e = [] then [] else ''.'' @ e)))"

definition partial_path :: "string \<Rightarrow> string" where
  "partial_path dest = with_extension dest ''partial''"

definition marker_path :: "string \<Rightarrow> string" where
  "marker_path p = p @ ''.verified''"

lemma marker_path_neq [simp]: "marker_path p \<noteq> p" "p \<noteq> marker_path p"
  by (simp_all add: marker_path_def)

lemma partial_neq_marker: "partial_path p \<noteq> marker_path p"
proof (cases "file_name p")
  case None
  then show ?thesis by (simp add: partial_path_def with_extension_def)
next
  case (Some name)
  have "\<exists>q. partial_path p = q @ ''l''"
    by (simp add: partial_path_def with_extension_def Some Let_def)
  moreover have "q @ ''l'' \<noteq> r @ ''.verified''" for q r :: string
  proof
    assume "q @ ''l'' = r @ ''.verified''"
    then have "last (q @ ''l'') = last (r @ ''.verified'')" by (rule arg_cong)
    then show False by simp
  qed
  ultimately show ?thesis by (auto simp: marker_path_def)
qed

end
