(* ===== verification/Model_Download.thy ===== *)
theory Model_Download
  imports Model_Files
begin

text \<open>
  \<open>panops-portable/src/model.rs\<close>: the registered models, the download with its size limits, the
  checksum with its cache of verified files, and the three functions that provide the models. The
  log lines are left out.
\<close>

section \<open>The registered models\<close>

record model_info =
  mi_name :: string
  mi_url :: string
  mi_sha256 :: string
  mi_approx_size_mb :: u32

definition models :: "model_info list" where
  "models =
     [\<lparr>mi_name = ''ggml-tiny-q5_1'',
        mi_url = ''https://huggingface.co/ggerganov/whisper.cpp/resolve/main/ggml-tiny-q5_1.bin'',
        mi_sha256 = ''818710568da3ca15689e31a743197b520007872ff9576237bda97bd1b469c3d7'',
        mi_approx_size_mb = 31\<rparr>,
      \<lparr>mi_name = ''ggml-base-q5_1'',
        mi_url = ''https://huggingface.co/ggerganov/whisper.cpp/resolve/main/ggml-base-q5_1.bin'',
        mi_sha256 = ''422f1ae452ade6f30a004d7e5c6a43195e4433bc370bf23fac9cc591f01a8898'',
        mi_approx_size_mb = 57\<rparr>,
      \<lparr>mi_name = ''ggml-large-v3-turbo-q5_0'',
        mi_url = ''https://huggingface.co/ggerganov/whisper.cpp/resolve/main/ggml-large-v3-turbo-q5_0.bin'',
        mi_sha256 = ''394221709cd5ad1f40c46e6031ca61bce88931e6e088c188294c6d5a55ffa7e2'',
        mi_approx_size_mb = 547\<rparr>]"

definition diar_models :: "model_info list" where
  "diar_models =
     [\<lparr>mi_name = ''sherpa-onnx-pyannote-segmentation-3-0'',
        mi_url = ''https://github.com/k2-fsa/sherpa-onnx/releases/download/speaker-segmentation-models/sherpa-onnx-pyannote-segmentation-3-0.tar.bz2'',
        mi_sha256 = ''24615ee884c897d9d2ba09bb4d30da6bb1b15e685065962db5b02e76e4996488'',
        mi_approx_size_mb = 7\<rparr>,
      \<lparr>mi_name = ''3dspeaker_speech_eres2net_base_sv_zh-cn_3dspeaker_16k'',
        mi_url = ''https://github.com/k2-fsa/sherpa-onnx/releases/download/speaker-recongition-models/3dspeaker_speech_eres2net_base_sv_zh-cn_3dspeaker_16k.onnx'',
        mi_sha256 = ''1a331345f04805badbb495c775a6ddffcdd1a732567d5ec8b3d5749e3c7a5e4b'',
        mi_approx_size_mb = 38\<rparr>]"

definition vad_model :: model_info where
  "vad_model =
     \<lparr>mi_name = ''ggml-silero-v6.2.0'',
       mi_url = ''https://huggingface.co/ggml-org/whisper-vad/resolve/main/ggml-silero-v6.2.0.bin'',
       mi_sha256 = ''2aa269b785eeb53a82983a20501ddf7c1d9c48e33ab63a41391ac6c9f7fb6987'',
       mi_approx_size_mb = 1\<rparr>"

definition vad_models :: "model_info list" where
  "vad_models = [vad_model]"

definition default_model_name :: string where
  "default_model_name = ''ggml-large-v3-turbo-q5_0''"

definition default_vad_model_name :: string where
  "default_vad_model_name = ''ggml-silero-v6.2.0''"

definition mirror_url_from_upstream :: "string \<Rightarrow> string" where
  "mirror_url_from_upstream url =
     ''https://github.com/vfmatzkin/panops/releases/download/models-v1/'' @ last (split_on (CHR ''/'') url)"

definition lookup_model :: "string \<Rightarrow> asr_error + model_info" where
  "lookup_model name =
     (case List.find (\<lambda>m. mi_name m = name) (models @ diar_models @ vad_models) of
        Some m \<Rightarrow> Inr m
      | None \<Rightarrow> Inl (AsrModel (''no registered model named '' @ name)))"

section \<open>Where the models are\<close>

definition data_dir :: "model_env \<Rightarrow> asr_error + string" where
  "data_dir me =
     (case me_project_dir me of
        None \<Rightarrow> Inl (AsrModel ''could not resolve project dirs'')
      | Some d \<Rightarrow> Inr (path_join d ''models''))"

definition var_or_data_path :: "model_env \<Rightarrow> string \<Rightarrow> (string \<Rightarrow> string) \<Rightarrow> asr_error + string" where
  "var_or_data_path me var f =
     (case me_var me var of Some p \<Rightarrow> Inr p | None \<Rightarrow> map_sum id f (data_dir me))"

definition default_model_path :: "model_env \<Rightarrow> asr_error + string" where
  "default_model_path me =
     var_or_data_path me ''PANOPS_MODEL'' (\<lambda>d. path_join d (default_model_name @ ''.bin''))"

definition default_diar_seg_path :: "model_env \<Rightarrow> asr_error + string" where
  "default_diar_seg_path me =
     var_or_data_path me ''PANOPS_DIAR_SEG''
       (\<lambda>d. path_join (path_join d ''sherpa-onnx-pyannote-segmentation-3-0'') ''model.onnx'')"

definition default_diar_emb_path :: "model_env \<Rightarrow> asr_error + string" where
  "default_diar_emb_path me =
     var_or_data_path me ''PANOPS_DIAR_EMB''
       (\<lambda>d. path_join d ''3dspeaker_speech_eres2net_base_sv_zh-cn_3dspeaker_16k.onnx'')"

definition default_vad_model_path :: "model_env \<Rightarrow> asr_error + string" where
  "default_vad_model_path me =
     var_or_data_path me ''PANOPS_VAD_MODEL'' (\<lambda>d. path_join d (default_vad_model_name @ ''.bin''))"

section \<open>The checksum and the cache of verified files\<close>

text \<open>A time is a number of nanoseconds since the epoch; a time before it counts as the epoch.\<close>

definition mtime_parts :: "int \<Rightarrow> u64 \<times> u32" where
  "mtime_parts t = (if t < 0 then (0, 0) else (nat t div 10 ^ 9, nat t mod 10 ^ 9))"

definition read_verification_marker ::
  "model_env \<Rightarrow> string \<Rightarrow> disk \<Rightarrow> verification_marker option \<times> disk" where
  "read_verification_marker me p w =
     (case try_then (open_file me p w) (\<lambda>u. read_bytes me p) of
        (Inl e, w) \<Rightarrow> (None, w)
      | (Inr b, w) \<Rightarrow> (me_decode me b, w))"

definition marker_of :: "string \<Rightarrow> u64 \<Rightarrow> int \<Rightarrow> verification_marker" where
  "marker_of sha size_bytes mtime =
     \<lparr>vm_sha256 = sha, vm_size = size_bytes, vm_mtime_secs = fst (mtime_parts mtime),
       vm_mtime_nanos = snd (mtime_parts mtime)\<rparr>"

definition write_verification_marker ::
  "model_env \<Rightarrow> string \<Rightarrow> string \<Rightarrow> u64 \<Rightarrow> int \<Rightarrow> disk \<Rightarrow> disk" where
  "write_verification_marker me p sha size_bytes mtime w =
     snd (write_file me p (me_encode me (marker_of sha size_bytes mtime)) w)"

definition mark_verified :: "model_env \<Rightarrow> string \<Rightarrow> string \<Rightarrow> disk \<Rightarrow> disk" where
  "mark_verified me p sha w =
     (case metadata me p w of
        (Inl e, w) \<Rightarrow> w
      | (Inr (size_bytes, mtime), w) \<Rightarrow>
          write_verification_marker me (marker_path p) sha size_bytes mtime w)"

definition verification_cache_valid :: "model_env \<Rightarrow> string \<Rightarrow> string \<Rightarrow> disk \<Rightarrow> bool \<times> disk" where
  "verification_cache_valid me p expected w =
     (case read_verification_marker me (marker_path p) w of
        (None, w) \<Rightarrow> (False, w)
      | (Some m, w) \<Rightarrow>
          if vm_sha256 m \<noteq> expected then (False, w)
          else (case metadata me p w of
                  (Inl e, w) \<Rightarrow> (False, w)
                | (Inr (size_bytes, mtime), w) \<Rightarrow>
                    (vm_size m = size_bytes \<and> vm_mtime_secs m = fst (mtime_parts mtime) \<and>
                     vm_mtime_nanos m = snd (mtime_parts mtime), w)))"

definition verify_sha256 :: "model_env \<Rightarrow> string \<Rightarrow> string \<Rightarrow> disk \<Rightarrow> (asr_error + unit) \<times> disk" where
  "verify_sha256 me p expected w =
     try_then (map_err (\<lambda>e. AsrModel (''open '' @ me_path_debug me p @ '': '' @ e)) (open_file me p w)) (\<lambda>u w.
     try_then (map_err (\<lambda>e. AsrModel (''read '' @ me_path_debug me p @ '': '' @ e)) (read_bytes me p w)) (\<lambda>b w.
       let actual = me_sha256 me b
       in if actual \<noteq> expected
          then (Inl (AsrModel (''checksum mismatch at '' @ me_path_debug me p @ '': expected '' @ expected @
                  '', got '' @ actual)), w)
          else (Inr (), w)))"

section \<open>The download\<close>

definition download_size_grace :: u64 where
  "download_size_grace = 1024 * 1024"

definition max_model_download_bytes :: u64 where
  "max_model_download_bytes = 6 * 1024 * 1024 * 1024"

definition u64_saturating_add :: "u64 \<Rightarrow> u64 \<Rightarrow> u64" where
  "u64_saturating_add a b = min (a + b) u64_max"

definition download_size_limit :: "u64 option \<Rightarrow> u64" where
  "download_size_limit t =
     (case t of
        Some t \<Rightarrow> min (u64_saturating_add t download_size_grace) max_model_download_bytes
      | None \<Rightarrow> max_model_download_bytes)"

definition eta_secs :: "u64 \<Rightarrow> u64 \<Rightarrow> u64 \<Rightarrow> u64 option" where
  "eta_secs bytes_done bytes_total bytes_per_sec =
     (if bytes_done \<ge> bytes_total then Some 0
      else if bytes_total = 0 \<or> bytes_per_sec = 0 then None
      else let remaining = bytes_total - bytes_done
           in Some (remaining div bytes_per_sec + (if remaining mod bytes_per_sec \<noteq> 0 then 1 else 0)))"

definition format_duration_secs :: "u64 \<Rightarrow> string" where
  "format_duration_secs seconds =
     (let minutes = seconds div 60; seconds = seconds mod 60
      in if minutes = 0 then dec seconds @ ''s'' else dec minutes @ ''m '' @ dec seconds @ ''s'')"

text \<open>The buffer of a read, and what the \<open>k\<close>-th read of a body gives: nothing only at its end.\<close>

definition read_buffer :: usize where
  "read_buffer = 64 * 1024"

definition read_chunk :: "http_response \<Rightarrow> nat \<Rightarrow> string \<Rightarrow> string" where
  "read_chunk hr k body = take (min read_buffer (Suc (hr_offer hr k))) body"

lemma read_chunk_empty [simp]: "read_chunk hr k body = [] \<longleftrightarrow> body = []"
  by (auto simp: read_chunk_def read_buffer_def)

lemma read_chunk_length: "length (read_chunk hr k body) \<le> read_buffer"
  by (simp add: read_chunk_def)

definition too_large :: "u64 \<Rightarrow> u64 \<Rightarrow> asr_error" where
  "too_large written limit = AsrModel (''download exceeded size limit ('' @ dec written @ '' > '' @
     dec limit @ '' bytes); aborting'')"

function download_loop ::
  "model_env \<Rightarrow> string \<Rightarrow> http_response \<Rightarrow> nat \<Rightarrow> string \<Rightarrow> u64 \<Rightarrow> disk \<Rightarrow> (asr_error + u64) \<times> disk" where
  "download_loop me tmp hr k body written w =
     (case hr_error hr k of
        Some e \<Rightarrow> (Inl (AsrModel (''download read: '' @ e)), w)
      | None \<Rightarrow>
          if read_chunk hr k body = [] then (Inr written, w)
          else
            try_then (map_err (\<lambda>e. AsrModel (''write '' @ me_path_debug me tmp @ '': '' @ e))
                (write_all me tmp (read_chunk hr k body) w)) (\<lambda>u w.
              if u64_add written (length (read_chunk hr k body)) > download_size_limit (hr_length hr)
              then (Inl (too_large (u64_add written (length (read_chunk hr k body)))
                      (download_size_limit (hr_length hr))), snd (remove_file me tmp w))
              else download_loop me tmp hr (Suc k) (drop (length (read_chunk hr k body)) body)
                     (u64_add written (length (read_chunk hr k body))) w))"
  by pat_completeness auto

termination
  by (relation "measure (\<lambda>(me, tmp, hr, k, body, written, w). length body)") auto

declare download_loop.simps [simp del]

definition announced_too_large :: "u64 \<Rightarrow> asr_error" where
  "announced_too_large n = AsrModel (''server Content-Length '' @ dec n @ '' exceeds max '' @
     dec max_model_download_bytes @ '' bytes; aborting'')"

definition receive ::
  "model_env \<Rightarrow> string \<Rightarrow> http_response \<Rightarrow> disk \<Rightarrow> (asr_error + u64) \<times> disk" where
  "receive me dest hr w =
     (let tmp = partial_path dest in
      try_then (map_err (\<lambda>e. AsrModel (''create '' @ me_path_debug me tmp @ '': '' @ e))
        (create_file me tmp w)) (\<lambda>u w.
      try_then (download_loop me tmp hr 0 (hr_body hr) 0 w) (\<lambda>written w.
      try_then (map_err (\<lambda>e. AsrModel (''fsync '' @ me_path_debug me tmp @ '': '' @ e)) (sync_all me w)) (\<lambda>u w.
      try_then (map_err (\<lambda>e. AsrModel (''rename '' @ me_path_debug me tmp @ '' -> '' @ me_path_debug me dest @ '': '' @ e))
        (move_file me tmp dest w)) (\<lambda>u w.
      (Inr written, w))))))"

definition make_parent :: "model_env \<Rightarrow> string \<Rightarrow> disk \<Rightarrow> (asr_error + unit) \<times> disk" where
  "make_parent me p w =
     (case parent_path p of
        None \<Rightarrow> (Inr (), w)
      | Some d \<Rightarrow> map_err AsrIo (if d = [] then (Inr (), w) else make_dirs me d w))"

definition download :: "model_env \<Rightarrow> string \<Rightarrow> string \<Rightarrow> disk \<Rightarrow> (asr_error + u64) \<times> disk" where
  "download me url dest w =
     try_then (make_parent me dest w) (\<lambda>u w.
       let reply = me_get me (length (dk_requests w)) url;
           w = w\<lparr>dk_requests := dk_requests w @ [url]\<rparr>
       in case reply of
            Inl e \<Rightarrow> (Inl (AsrModel (''download failed: '' @ e)), w)
          | Inr hr \<Rightarrow>
              if \<not> (200 \<le> hr_status hr \<and> hr_status hr < 300)
              then (Inl (AsrModel (''download HTTP '' @ me_status_text me (hr_status hr))), w)
              else (case hr_length hr of
                      Some n \<Rightarrow> if n > max_model_download_bytes then (Inl (announced_too_large n), w)
                                else receive me dest hr w
                    | None \<Rightarrow> receive me dest hr w))"

definition download_with_fallback ::
  "model_env \<Rightarrow> string \<Rightarrow> string \<Rightarrow> disk \<Rightarrow> (asr_error + u64) \<times> disk" where
  "download_with_fallback me url dest w =
     (case download me (mirror_url_from_upstream url) dest w of
        (Inr n, w) \<Rightarrow> (Inr n, w)
      | (Inl e, w) \<Rightarrow> download me url dest w)"

definition http_client :: "model_env \<Rightarrow> asr_error + unit" where
  "http_client me =
     (case me_client me of
        None \<Rightarrow> Inr ()
      | Some e \<Rightarrow> Inl (AsrModel (''http client: '' @ e)))"

section \<open>Providing a model\<close>

text \<open>The common body of \<open>ensure_model\<close> and \<open>ensure_vad_model\<close>; \<open>var\<close> is the override they honour.\<close>

definition ensure_file ::
  "model_env \<Rightarrow> string \<Rightarrow> model_info \<Rightarrow> string \<Rightarrow> disk \<Rightarrow> (asr_error + string) \<times> disk" where
  "ensure_file me var info dest w =
     (case path_exists me dest w of
        (True, w) \<Rightarrow>
          if me_var me var = None \<and> me_var me ''PANOPS_SKIP_MODEL_CHECKSUM'' = None
          then (case verification_cache_valid me dest (mi_sha256 info) w of
                  (True, w) \<Rightarrow> (Inr dest, w)
                | (False, w) \<Rightarrow>
                    try_then (verify_sha256 me dest (mi_sha256 info) w) (\<lambda>u w.
                      (Inr dest, mark_verified me dest (mi_sha256 info) w)))
          else (Inr dest, w)
      | (False, w) \<Rightarrow>
          try_then (http_client me, w) (\<lambda>u w.
          try_then (download_with_fallback me (mi_url info) dest w) (\<lambda>n w.
            (case verify_sha256 me dest (mi_sha256 info) w of
               (Inl e, w) \<Rightarrow> (Inl e, snd (remove_file me dest w))
             | (Inr u, w) \<Rightarrow> (Inr dest, mark_verified me dest (mi_sha256 info) w)))))"

definition ensure_model :: "model_env \<Rightarrow> string \<Rightarrow> string \<Rightarrow> disk \<Rightarrow> (asr_error + string) \<times> disk" where
  "ensure_model me name dest w =
     try_then (lookup_model name, w) (\<lambda>info. ensure_file me ''PANOPS_MODEL'' info dest)"

definition ensure_vad_model :: "model_env \<Rightarrow> string \<Rightarrow> disk \<Rightarrow> (asr_error + string) \<times> disk" where
  "ensure_vad_model me dest = ensure_file me ''PANOPS_VAD_MODEL'' vad_model dest"

text \<open>A file that was there or was just fetched is checked unless the cache vouches for it; a file
  that was just fetched is dropped when the check fails.\<close>

definition check_fetched ::
  "model_env \<Rightarrow> model_info \<Rightarrow> string \<Rightarrow> bool \<Rightarrow> disk \<Rightarrow> (asr_error + unit) \<times> disk" where
  "check_fetched me info p existed w =
     (case verification_cache_valid me p (mi_sha256 info) w of
        (True, w) \<Rightarrow> (Inr (), w)
      | (False, w) \<Rightarrow>
          (case verify_sha256 me p (mi_sha256 info) w of
             (Inl e, w) \<Rightarrow> (Inl e, if existed then w else snd (remove_file me p w))
           | (Inr u, w) \<Rightarrow> (Inr (), mark_verified me p (mi_sha256 info) w)))"

definition fetch_embedding ::
  "model_env \<Rightarrow> model_info \<Rightarrow> string \<Rightarrow> disk \<Rightarrow> (asr_error + bool) \<times> disk" where
  "fetch_embedding me info emb w =
     (case path_exists me emb w of
        (True, w) \<Rightarrow> (Inr True, w)
      | (False, w) \<Rightarrow>
          try_then (make_parent me emb w) (\<lambda>u w.
          try_then (http_client me, w) (\<lambda>u w.
          try_then (download_with_fallback me (mi_url info) emb w) (\<lambda>n w. (Inr False, w)))))"

definition unpack :: "model_env \<Rightarrow> string \<Rightarrow> string \<Rightarrow> disk \<Rightarrow> (asr_error + unit) \<times> disk" where
  "unpack me tar dir w =
     try_then (map_err (\<lambda>e. AsrModel (''open '' @ me_path_debug me tar @ '': '' @ e)) (open_file me tar w)) (\<lambda>u w.
     try_then (map_err (\<lambda>e. AsrModel (''untar '' @ me_path_debug me tar @ '': '' @ e)) (read_bytes me tar w)) (\<lambda>b w.
       (case me_untar me dir b (dk_nodes w) of
          (Some e, d) \<Rightarrow> (Inl (AsrModel (''untar '' @ me_path_debug me tar @ '': '' @ e)), w\<lparr>dk_nodes := d\<rparr>)
        | (None, d) \<Rightarrow> (Inr (), w\<lparr>dk_nodes := d\<rparr>))))"

definition fetch_segmentation :: "model_env \<Rightarrow> string \<Rightarrow> disk \<Rightarrow> (asr_error + unit) \<times> disk" where
  "fetch_segmentation me seg w =
     try_then (lookup_model ''sherpa-onnx-pyannote-segmentation-3-0'', w) (\<lambda>info w.
     try_then (data_dir me, w) (\<lambda>dir w.
     try_then (map_err AsrIo (make_dirs me dir w)) (\<lambda>u w.
       let tar = path_join dir ''sherpa-onnx-pyannote-segmentation-3-0.tar.bz2'' in
       (case path_exists me tar w of (existed, w) \<Rightarrow>
          try_then (if existed then (Inr 0, w)
                    else try_then (http_client me, w) (\<lambda>u. download_with_fallback me (mi_url info) tar)) (\<lambda>n w.
          try_then (if me_var me ''PANOPS_SKIP_MODEL_CHECKSUM'' = None
                    then check_fetched me info tar existed w else (Inr (), w)) (\<lambda>u w.
          try_then (unpack me tar dir w) (\<lambda>u w.
            (case path_exists me seg w of
               (True, w) \<Rightarrow> (Inr (), w)
             | (False, w) \<Rightarrow>
                 (Inl (AsrModel (''expected '' @ me_path_debug me seg @
                    '' after extracting tarball; archive layout changed?'')), w)))))))))"

definition diar_seg_missing :: "model_env \<Rightarrow> string \<Rightarrow> asr_error" where
  "diar_seg_missing me seg =
     AsrModel (''PANOPS_DIAR_SEG points to '' @ me_path_debug me seg @
       '' but the file does not exist; pre-extract the segmentation tarball there or unset the env var to use the default data dir'')"

definition ensure_diar_models :: "model_env \<Rightarrow> disk \<Rightarrow> (asr_error + string \<times> string) \<times> disk" where
  "ensure_diar_models me w =
     try_then (default_diar_seg_path me, w) (\<lambda>seg w.
     try_then (default_diar_emb_path me, w) (\<lambda>emb w.
     try_then (lookup_model ''3dspeaker_speech_eres2net_base_sv_zh-cn_3dspeaker_16k'', w) (\<lambda>info w.
     try_then (fetch_embedding me info emb w) (\<lambda>existed w.
     try_then (if me_var me ''PANOPS_SKIP_MODEL_CHECKSUM'' = None \<and> (\<not> existed \<or> me_var me ''PANOPS_DIAR_EMB'' = None)
               then check_fetched me info emb existed w else (Inr (), w)) (\<lambda>u w.
       (case path_exists me seg w of
          (True, w) \<Rightarrow> (Inr (seg, emb), w)
        | (False, w) \<Rightarrow>
            if me_var me ''PANOPS_DIAR_SEG'' \<noteq> None then (Inl (diar_seg_missing me seg), w)
            else try_then (fetch_segmentation me seg w) (\<lambda>u w. (Inr (seg, emb), w))))))))"

end
