(* ===== verification/Model_Correct.thy ===== *)
theory Model_Correct
  imports Model_Download
begin

text \<open>
  What providing a model guarantees, for every schedule of failures, every answer of the network and
  every content of the disk: which files a run may change, how much it may write, in which order the
  sources are asked, and that a file is handed out only when its checksum was right.
\<close>

section \<open>Operations that only look\<close>

definition looked :: "disk \<Rightarrow> disk \<Rightarrow> bool" where
  "looked w w' = (dk_nodes w' = dk_nodes w \<and> dk_requests w' = dk_requests w)"

lemma looked_refl [simp]: "looked w w"
  by (simp add: looked_def)

lemma looked_trans: "looked u v \<Longrightarrow> looked v w \<Longrightarrow> looked u w"
  by (simp add: looked_def)

lemma looked_tick [simp]: "looked w (tick w)" "dk_nodes (tick w) = dk_nodes w" "dk_requests (tick w) = dk_requests w"
  by (simp_all add: looked_def tick_def)

lemma looked_nodes: "looked w w' \<Longrightarrow> dk_nodes w' = dk_nodes w"
  and looked_requests: "looked w w' \<Longrightarrow> dk_requests w' = dk_requests w"
  by (simp_all add: looked_def)

lemma disk_op_Inl: "disk_op me f w = (Inl e, w') \<Longrightarrow> looked w w'"
  by (auto simp: disk_op_def split: option.splits sum.splits)

lemma disk_op_Inr:
  "disk_op me f w = (Inr a, w') \<Longrightarrow>
     f (me_clock me (dk_ops w)) (dk_nodes w) = Inr (a, dk_nodes w') \<and> dk_requests w' = dk_requests w"
  by (auto simp: disk_op_def split: option.splits sum.splits)

lemma disk_op_looks:
  assumes run: "disk_op me f w = (r, w')" and quiet: "\<And>now d a d'. f now d = Inr (a, d') \<Longrightarrow> d' = d"
  shows "looked w w'"
proof (cases r)
  case (Inl e)
  then show ?thesis using run by (simp add: disk_op_Inl)
next
  case (Inr a)
  with run have run: "disk_op me f w = (Inr a, w')" by simp
  show ?thesis using disk_op_Inr [OF run] quiet by (auto simp: looked_def)
qed

lemma metadata_looks: "metadata me p w = (r, w') \<Longrightarrow> looked w w'"
  unfolding metadata_def by (erule disk_op_looks) (auto split: option.splits disk_node.splits)

lemma open_file_looks: "open_file me p w = (r, w') \<Longrightarrow> looked w w'"
  unfolding open_file_def by (erule disk_op_looks) (auto split: if_splits)

lemma read_bytes_looks: "read_bytes me p w = (r, w') \<Longrightarrow> looked w w'"
  unfolding read_bytes_def by (erule disk_op_looks) (auto split: option.splits disk_node.splits)

lemma sync_all_looks: "sync_all me w = (r, w') \<Longrightarrow> looked w w'"
  unfolding sync_all_def by (erule disk_op_looks) auto

lemmas simple_looks = metadata_looks open_file_looks read_bytes_looks sync_all_looks

lemma path_exists_looks: "path_exists me p w = (b, w') \<Longrightarrow> looked w w'"
  by (auto simp: path_exists_def split: prod.splits sum.splits dest: metadata_looks)

lemma try_then_looks:
  assumes "try_then x f = (r, w')"
    and "\<And>r' v. x = (r', v) \<Longrightarrow> looked w v"
    and "\<And>a v v' r'. f a v = (r', v') \<Longrightarrow> looked v v'"
  shows "looked w w'"
  using assms by (cases x) (auto simp: try_then_def split: sum.splits intro: looked_trans)

lemma map_err_looks: "map_err g x = (r, w') \<Longrightarrow> (\<And>r' v. x = (r', v) \<Longrightarrow> looked w v) \<Longrightarrow> looked w w'"
  by (cases x) (auto simp: map_err_def split: sum.splits)

lemma read_verification_marker_looks: "read_verification_marker me p w = (r, w') \<Longrightarrow> looked w w'"
  unfolding read_verification_marker_def
  by (auto split: prod.splits sum.splits elim!: try_then_looks dest: simple_looks)

lemma verification_cache_valid_looks: "verification_cache_valid me p e w = (r, w') \<Longrightarrow> looked w w'"
  unfolding verification_cache_valid_def
  by (auto split: prod.splits sum.splits option.splits if_splits
      dest!: read_verification_marker_looks metadata_looks intro: looked_trans)

lemma verify_sha256_looks:
  assumes "verify_sha256 me p e w = (r, w')"
  shows "looked w w'"
  using assms unfolding verify_sha256_def Let_def
  by (auto elim!: try_then_looks map_err_looks dest: simple_looks split: if_splits)

section \<open>What a check says\<close>

definition has_hash :: "model_env \<Rightarrow> string \<Rightarrow> string \<Rightarrow> disk \<Rightarrow> bool" where
  "has_hash me p h w = (\<exists>b t. dk_nodes w p = Some (DiskFile b t) \<and> me_sha256 me b = h)"

lemma looked_has_hash: "looked w w' \<Longrightarrow> has_hash me p h w' = has_hash me p h w"
  by (simp add: has_hash_def looked_def)

lemma read_bytes_Inr: "read_bytes me p w = (Inr b, w') \<Longrightarrow> \<exists>t. dk_nodes w p = Some (DiskFile b t)"
  unfolding read_bytes_def by (auto dest!: disk_op_Inr split: option.splits disk_node.splits)

lemma verify_sha256_Inr:
  assumes "verify_sha256 me p h w = (Inr u, w')"
  shows "has_hash me p h w"
proof -
  obtain v b v' where opened: "open_file me p w = (Inr (), v)"
    and content: "read_bytes me p v = (Inr b, v')" and hash: "me_sha256 me b = h"
    using assms unfolding verify_sha256_def Let_def
    by (auto simp: try_then_Inr map_err_Inr split: if_splits)
  have "dk_nodes v = dk_nodes w" using opened by (rule looked_nodes [OF open_file_looks])
  then show ?thesis using read_bytes_Inr [OF content] hash by (auto simp: has_hash_def)
qed

text \<open>What \<open>metadata\<close> would report, and what the marker next to a file says.\<close>

definition stat_of :: "model_env \<Rightarrow> string \<Rightarrow> disk \<Rightarrow> (u64 \<times> int) option" where
  "stat_of me p w =
     (case dk_nodes w p of
        None \<Rightarrow> None
      | Some DiskDir \<Rightarrow> Some (me_dir_metadata me p)
      | Some (DiskFile b t) \<Rightarrow> Some (length b, t))"

definition marker_at :: "model_env \<Rightarrow> string \<Rightarrow> disk \<Rightarrow> verification_marker option" where
  "marker_at me p w =
     (case dk_nodes w (marker_path p) of Some (DiskFile b t) \<Rightarrow> me_decode me b | _ \<Rightarrow> None)"

definition vouched :: "model_env \<Rightarrow> string \<Rightarrow> string \<Rightarrow> disk \<Rightarrow> bool" where
  "vouched me p h w =
     (\<exists>n t. stat_of me p w = Some (n, t) \<and> marker_at me p w = Some (marker_of h n t))"

lemma metadata_Inr: "metadata me p w = (Inr m, w') \<Longrightarrow> stat_of me p w = Some m"
  unfolding metadata_def stat_of_def by (auto dest!: disk_op_Inr split: option.splits disk_node.splits)

lemma read_verification_marker_Some:
  assumes "read_verification_marker me (marker_path p) w = (Some m, w')"
  shows "marker_at me p w = Some m"
proof -
  obtain v b where opened: "open_file me (marker_path p) w = (Inr (), v)"
    and content: "read_bytes me (marker_path p) v = (Inr b, w')" and decoded: "me_decode me b = Some m"
    using assms unfolding read_verification_marker_def
    by (auto simp: try_then_def split: prod.splits sum.splits)
  have "dk_nodes v = dk_nodes w" using opened by (rule looked_nodes [OF open_file_looks])
  then show ?thesis using read_bytes_Inr [OF content] decoded by (auto simp: marker_at_def)
qed

lemma verification_cache_valid_True:
  assumes "verification_cache_valid me p h w = (True, w')"
  shows "vouched me p h w"
proof -
  obtain m v n t where marker: "read_verification_marker me (marker_path p) w = (Some m, v)"
    and stat: "metadata me p v = (Inr (n, t), w')" and same: "m = marker_of h n t"
    using assms unfolding verification_cache_valid_def
    by (auto simp: marker_of_def split: prod.splits option.splits sum.splits if_splits)
  have "dk_nodes v = dk_nodes w" using marker by (rule looked_nodes [OF read_verification_marker_looks])
  then have "stat_of me p w = Some (n, t)" using metadata_Inr [OF stat] by (simp add: stat_of_def)
  then show ?thesis
    using read_verification_marker_Some [OF marker] same by (auto simp: vouched_def)
qed

section \<open>Operations that write\<close>

definition only :: "string set \<Rightarrow> disk \<Rightarrow> disk \<Rightarrow> bool" where
  "only S w w' = (\<forall>p. p \<notin> S \<longrightarrow> dk_nodes w' p = dk_nodes w p)"

lemma only_refl [simp]: "only S w w"
  by (simp add: only_def)

lemma only_trans: "only S u v \<Longrightarrow> only S v w \<Longrightarrow> only S u w"
  by (simp add: only_def)

lemma only_mono: "only S u v \<Longrightarrow> S \<subseteq> T \<Longrightarrow> only T u v"
  by (auto simp: only_def)

lemma looked_only: "looked w w' \<Longrightarrow> only S w w'"
  by (simp add: only_def looked_def)

lemma only_at: "only S w w' \<Longrightarrow> p \<notin> S \<Longrightarrow> dk_nodes w' p = dk_nodes w p"
  by (simp add: only_def)

lemma make_dirs_cases:
  assumes "make_dirs me p w = (r, w')"
  shows "looked w w' \<or> dk_nodes w' = (dk_nodes w)(p \<mapsto> DiskDir) \<and> dk_requests w' = dk_requests w"
proof (cases r)
  case (Inl e)
  then show ?thesis using assms unfolding make_dirs_def by (blast dest: disk_op_Inl)
next
  case (Inr u)
  then show ?thesis
    using assms unfolding make_dirs_def by (auto dest!: disk_op_Inr split: option.splits disk_node.splits)
qed

lemma create_file_Inr:
  "create_file me p w = (Inr u, w') \<Longrightarrow>
     (\<exists>t. dk_nodes w' = (dk_nodes w)(p \<mapsto> DiskFile [] t)) \<and> dk_requests w' = dk_requests w"
  unfolding create_file_def by (drule disk_op_Inr) (metis Inr_inject Pair_inject sum.distinct(1))

lemma create_file_Inl: "create_file me p w = (Inl e, w') \<Longrightarrow> looked w w'"
  unfolding create_file_def by (rule disk_op_Inl)

lemma remove_file_Inr:
  "remove_file me p w = (Inr u, w') \<Longrightarrow>
     dk_nodes w' = (dk_nodes w)(p := None) \<and> dk_requests w' = dk_requests w"
  unfolding remove_file_def by (auto dest!: disk_op_Inr split: option.splits disk_node.splits)

lemma remove_file_Inl: "remove_file me p w = (Inl e, w') \<Longrightarrow> looked w w'"
  unfolding remove_file_def by (rule disk_op_Inl)

lemma remove_file_cases:
  "looked w (snd (remove_file me p w)) \<or>
     dk_nodes (snd (remove_file me p w)) = (dk_nodes w)(p := None) \<and>
     dk_requests (snd (remove_file me p w)) = dk_requests w"
  by (cases "remove_file me p w"; cases "fst (remove_file me p w)")
    (auto dest: remove_file_Inr remove_file_Inl)

lemma move_file_Inr:
  "move_file me p q w = (Inr u, w') \<Longrightarrow> p \<noteq> q \<Longrightarrow>
     dk_nodes w' = (dk_nodes w)(p := None, q := dk_nodes w p) \<and> dk_requests w' = dk_requests w"
  unfolding move_file_def by (auto dest!: disk_op_Inr split: if_splits)

lemma move_file_Inl: "move_file me p q w = (Inl e, w') \<Longrightarrow> looked w w'"
  unfolding move_file_def by (rule disk_op_Inl)

lemma write_all_file:
  assumes "write_all me p b w = (r, w')" and "dk_nodes w p = Some (DiskFile a t)"
  shows "only {p} w w' \<and> dk_requests w' = dk_requests w \<and>
    (\<exists>t n. dk_nodes w' p = Some (DiskFile (a @ take n b) t) \<and> (r = Inr () \<longrightarrow> take n b = b))"
proof (cases "me_fault me (dk_ops w)")
  case None
  then show ?thesis
    using assms
    by (auto simp: write_all_def append_bytes_def only_def tick_def intro!: exI [of _ "length b"])
next
  case (Some f)
  then show ?thesis
    using assms by (cases f) (auto simp: write_all_def append_bytes_def only_def tick_def)
qed

lemma write_all_only: "write_all me p b w = (r, w') \<Longrightarrow> only {p} w w' \<and> dk_requests w' = dk_requests w"
  by (auto simp: write_all_def Let_def append_bytes_def only_def tick_def
      split: option.splits disk_node.splits)

lemma write_file_cases:
  assumes "write_file me p b w = (r, w')"
  shows "only {p} w w' \<and> dk_requests w' = dk_requests w \<and>
    (dk_nodes w' p = dk_nodes w p \<or> (\<exists>t n. dk_nodes w' p = Some (DiskFile (take n b) t)))"
proof (cases "create_file me p w")
  case (Pair c v)
  show ?thesis
  proof (cases c)
    case (Inl e)
    then have "looked w w'" using assms Pair create_file_Inl by (auto simp: write_file_def)
    then show ?thesis by (auto simp: looked_def only_def)
  next
    case (Inr u)
    then obtain t where v: "dk_nodes v = (dk_nodes w)(p \<mapsto> DiskFile [] t)" "dk_requests v = dk_requests w"
      using Pair create_file_Inr by blast
    have "write_all me p b v = (r, w')" using assms Pair Inr by (simp add: write_file_def)
    from write_all_file [OF this, of "[]" t] v show ?thesis by (auto simp: only_def)
  qed
qed

section \<open>The size of a download\<close>

lemma download_size_limit_max: "download_size_limit t \<le> max_model_download_bytes"
  by (simp add: download_size_limit_def split: option.splits)

lemma max_model_download_bytes_small: "max_model_download_bytes + read_buffer < 2 ^ 64"
  by (simp add: max_model_download_bytes_def read_buffer_def)

definition file_length :: "string \<Rightarrow> disk \<Rightarrow> nat" where
  "file_length p w = (case dk_nodes w p of Some (DiskFile b t) \<Rightarrow> length b | _ \<Rightarrow> 0)"

lemma download_loop_spec:
  assumes "download_loop me tmp hr k body written w = (r, w')"
    and "dk_nodes w tmp = Some (DiskFile a t)" and "length a = written"
    and "written \<le> download_size_limit (hr_length hr)"
  shows "only {tmp} w w' \<and> dk_requests w' = dk_requests w \<and>
    file_length tmp w' \<le> download_size_limit (hr_length hr) + read_buffer \<and>
    (\<forall>n. r = Inr n \<longrightarrow> n \<le> download_size_limit (hr_length hr) \<and> n = length (a @ body) \<and>
      (\<exists>t. dk_nodes w' tmp = Some (DiskFile (a @ body) t)))"
  using assms
proof (induction me tmp hr k body written w arbitrary: a t rule: download_loop.induct)
  case (1 me tmp hr k body written w)
  let ?chunk = "read_chunk hr k body" and ?limit = "download_size_limit (hr_length hr)"
  show ?case
  proof (cases "hr_error hr k = None \<and> body \<noteq> []")
    case False
    then show ?thesis
      using "1.prems" by (auto simp: download_loop.simps [of me tmp hr k] file_length_def split: option.splits)
  next
    case True
    obtain x v where wrote: "write_all me tmp ?chunk w = (x, v)" by fastforce
    from write_all_file [OF wrote "1.prems"(2)] obtain t' n
      where v: "only {tmp} w v" "dk_requests v = dk_requests w"
        "dk_nodes v tmp = Some (DiskFile (a @ take n ?chunk) t')" "x = Inr () \<longrightarrow> take n ?chunk = ?chunk"
      by blast
    have room: "written + length ?chunk \<le> ?limit + read_buffer"
      using "1.prems"(4) read_chunk_length [of hr k body] by simp
    then have exact: "u64_add written (length ?chunk) = written + length ?chunk"
      using download_size_limit_max [of "hr_length hr"] max_model_download_bytes_small by (intro u64_add_exact) linarith
    have len_v: "file_length tmp v \<le> ?limit + read_buffer"
      using v(3) "1.prems"(3) room by (simp add: file_length_def)
    show ?thesis
    proof (cases x)
      case (Inl e)
      then show ?thesis
        using "1.prems"(1) True wrote v len_v by (auto simp: download_loop.simps [of me tmp hr k])
    next
      case (Inr u)
      then have whole: "dk_nodes v tmp = Some (DiskFile (a @ ?chunk) t')" using v by simp
      show ?thesis
      proof (cases "written + length ?chunk > ?limit")
        case over: True
        then have "\<not> (\<exists>n. r = Inr n)" and w': "w' = snd (remove_file me tmp v)"
          using "1.prems"(1) True wrote Inr exact by (auto simp: download_loop.simps [of me tmp hr k])
        then show ?thesis
          using remove_file_cases [where w = v and me = me and p = tmp] v len_v
          by (auto simp: looked_def only_def file_length_def)
      next
        case under: False
        have rest: "download_loop me tmp hr (Suc k) (drop (length ?chunk) body) (written + length ?chunk) v = (r, w')"
          using "1.prems"(1) True wrote Inr exact under by (simp add: download_loop.simps [of me tmp hr k])
        have joined: "(a @ ?chunk) @ drop (length ?chunk) body = a @ body"
          by (auto simp: read_chunk_def min_def)
        have "only {tmp} v w' \<and> dk_requests w' = dk_requests v \<and> file_length tmp w' \<le> ?limit + read_buffer \<and>
          (\<forall>n. r = Inr n \<longrightarrow> n \<le> ?limit \<and> n = length (a @ body) \<and>
            (\<exists>t. dk_nodes w' tmp = Some (DiskFile (a @ body) t)))"
          using "1.IH" [of v "a @ ?chunk" t'] True exact under rest whole "1.prems"(3)
          unfolding joined by simp
        then show ?thesis using v by (auto intro: only_trans)
      qed
    qed
  qed
qed

section \<open>What a download leaves\<close>

definition no_slashes :: "string \<Rightarrow> string" where
  "no_slashes p = dropWhile (\<lambda>c. c = CHR ''/'') p"

definition no_name :: "string \<Rightarrow> string" where
  "no_name p = dropWhile (\<lambda>c. c \<noteq> CHR ''/'') p"

definition dir_part :: "string \<Rightarrow> string" where
  "dir_part p = rev (no_name (no_slashes (rev p)))"

lemma no_slashes_length: "length (no_slashes p) \<le> length p"
  unfolding no_slashes_def by (rule length_dropWhile_le)

lemma parent_path_bound:
  assumes "parent_path p = Some q"
  shows "no_slashes (rev p) \<noteq> [] \<and> (q = ''/'' \<and> p \<noteq> ''/'' \<or> length q \<le> length (dir_part p))"
proof -
  have nonempty: "no_slashes (rev p) \<noteq> []"
    and q: "q = ''/'' \<or> q = rev (no_slashes (no_name (no_slashes (rev p))))"
    using assms unfolding parent_path_def Let_def no_slashes_def [symmetric] no_name_def [symmetric]
    by (simp_all split: if_splits)
  have "p \<noteq> ''/''" using nonempty by (auto simp: no_slashes_def)
  then show ?thesis using nonempty q no_slashes_length by (auto simp: dir_part_def)
qed

lemma no_name_shorter: "p \<noteq> [] \<Longrightarrow> hd p \<noteq> CHR ''/'' \<Longrightarrow> length (no_name p) < length p"
  unfolding no_name_def by (cases p) (simp_all add: less_Suc_eq_le length_dropWhile_le)

lemma hd_no_slashes: "no_slashes p \<noteq> [] \<Longrightarrow> hd (no_slashes p) \<noteq> CHR ''/''"
  unfolding no_slashes_def by (drule hd_dropWhile)

lemma dir_part_shorter:
  assumes "parent_path p = Some q"
  shows "length (dir_part p) < length p"
proof -
  have "no_slashes (rev p) \<noteq> []" using parent_path_bound [OF assms] by simp
  then have "length (no_name (no_slashes (rev p))) < length (no_slashes (rev p))"
    by (intro no_name_shorter hd_no_slashes)
  then show ?thesis using no_slashes_length [of "rev p"] by (simp add: dir_part_def)
qed

lemma parent_path_neq:
  assumes "parent_path p = Some q"
  shows "q \<noteq> p" "q \<noteq> partial_path p" "q \<noteq> marker_path p"
proof -
  note bound = parent_path_bound [OF assms] and shorter = dir_part_shorter [OF assms]
  show "q \<noteq> p" using bound shorter by auto
  then show "q \<noteq> partial_path p"
  proof (cases "file_name p")
    case None
    then show ?thesis using \<open>q \<noteq> p\<close> by (simp add: partial_path_def with_extension_def)
  next
    case (Some name)
    then have "length (partial_path p) \<ge> length (dir_part p) + 8"
      by (simp add: partial_path_def with_extension_def dir_part_def no_slashes_def no_name_def Let_def)
    then show ?thesis using bound by auto
  qed
  have "length (marker_path p) = length p + 9" by (simp add: marker_path_def)
  then show "q \<noteq> marker_path p" using bound shorter by auto
qed

text \<open>The paths a download may change, and what it may leave there.\<close>

definition download_paths :: "string \<Rightarrow> string set" where
  "download_paths p = {p, partial_path p} \<union> set_option (parent_path p)"

definition left_by :: "string \<Rightarrow> disk \<Rightarrow> asr_error + u64 \<Rightarrow> disk \<Rightarrow> bool" where
  "left_by p w r w' =
     (only (download_paths p) w w' \<and>
      (case r of
         Inr n \<Rightarrow> n \<le> max_model_download_bytes \<and> file_length p w' = n \<and>
           (\<exists>b t. dk_nodes w' p = Some (DiskFile b t)) \<and> dk_nodes w' (partial_path p) = None
       | Inl e \<Rightarrow> dk_nodes w' p = dk_nodes w p \<and>
           (dk_nodes w' (partial_path p) = dk_nodes w (partial_path p) \<or>
            file_length (partial_path p) w' \<le> max_model_download_bytes + read_buffer)))"

lemma left_by_looked: "looked w w' \<Longrightarrow> left_by p w (Inl e) w'"
  by (simp add: left_by_def looked_def only_def)

lemma left_by_trans:
  assumes "left_by p u (Inl e) v" and "left_by p v r w"
  shows "left_by p u r w"
  using assms by (cases r) (auto simp: left_by_def file_length_def intro: only_trans)

lemma receive_spec:
  assumes run: "receive me p hr w = (r, w')" and apart: "partial_path p \<noteq> p"
  shows "left_by p w r w' \<and> dk_requests w' = dk_requests w \<and>
    (\<forall>n. r = Inr n \<longrightarrow> n \<le> download_size_limit (hr_length hr) \<and> (\<exists>t. dk_nodes w' p = Some (DiskFile (hr_body hr) t)))"
proof -
  let ?tmp = "partial_path p" and ?limit = "download_size_limit (hr_length hr)"
  note limit = download_size_limit_max [of "hr_length hr"]
  obtain c v where made: "create_file me ?tmp w = (c, v)" by fastforce
  show ?thesis
  proof (cases c)
    case (Inl e)
    then have "looked w w' \<and> (\<exists>e. r = Inl e)"
      using run made create_file_Inl by (auto simp: receive_def Let_def)
    then show ?thesis using left_by_looked looked_requests by blast
  next
    case (Inr u)
    then obtain t where v: "dk_nodes v = (dk_nodes w)(?tmp \<mapsto> DiskFile [] t)" "dk_requests v = dk_requests w"
      using made create_file_Inr by blast
    obtain d x where loop: "download_loop me ?tmp hr 0 (hr_body hr) 0 v = (d, x)" by fastforce
    have x: "only {?tmp} w x" "dk_requests x = dk_requests w"
      "file_length ?tmp x \<le> max_model_download_bytes + read_buffer"
      "\<And>n. d = Inr n \<Longrightarrow> n \<le> ?limit \<and> n = length (hr_body hr) \<and> (\<exists>t. dk_nodes x ?tmp = Some (DiskFile (hr_body hr) t))"
      using download_loop_spec [OF loop, of "[]" t] v limit by (auto simp: only_def)
    have failed: "left_by p w (Inl e) y" if "looked x y" for e y
      using that x apart by (auto simp: left_by_def looked_def only_def download_paths_def file_length_def)
    show ?thesis
    proof (cases d)
      case d: (Inl e)
      then have "r = Inl e \<and> w' = x" using run made Inr loop by (simp add: receive_def Let_def)
      then show ?thesis using failed [of x] x by simp
    next
      case d: (Inr n)
      obtain s y where sync: "sync_all me x = (s, y)" by fastforce
      then have y: "looked x y" by (rule sync_all_looks)
      show ?thesis
      proof (cases s)
        case (Inl e)
        then have "(\<exists>e. r = Inl e) \<and> w' = y" using run made Inr loop d sync \<open>c = Inr u\<close> by (auto simp: receive_def Let_def)
        then show ?thesis using failed [OF y] x looked_requests [OF y] by auto
      next
        case synced: (Inr u')
        obtain m z where move: "move_file me ?tmp p y = (m, z)" by fastforce
        show ?thesis
        proof (cases m)
          case (Inl e)
          then have z: "looked y z" using move move_file_Inl by blast
          have "(\<exists>e. r = Inl e) \<and> w' = z"
            using run made \<open>c = Inr u\<close> loop d sync synced move Inl by (auto simp: receive_def Let_def)
          then show ?thesis
            using failed [OF looked_trans [OF y z]] x looked_requests [OF y] looked_requests [OF z] by auto
        next
          case moved: (Inr u'')
          have r: "r = Inr n" "w' = z"
            using run made \<open>c = Inr u\<close> loop d sync synced move moved by (auto simp: receive_def Let_def)
          have z: "dk_nodes z = (dk_nodes x)(?tmp := None, p := dk_nodes x ?tmp)" "dk_requests z = dk_requests w"
            using move_file_Inr [OF move [unfolded moved] apart] y x(2) by (auto simp: looked_def)
          obtain t where body: "dk_nodes x ?tmp = Some (DiskFile (hr_body hr) t)" "n \<le> ?limit" "n = length (hr_body hr)"
            using x(4) [OF d] by blast
          have "left_by p w (Inr n) z"
            using z(1) x(1) body limit apart
            by (auto simp: left_by_def only_def download_paths_def file_length_def)
          then show ?thesis using r z body by simp
        qed
      qed
    qed
  qed
qed

lemma make_parent_spec:
  assumes "make_parent me p w = (r, w')"
  shows "left_by p w (Inl e) w' \<and> dk_requests w' = dk_requests w"
proof (cases "parent_path p")
  case None
  then show ?thesis using assms by (auto simp: make_parent_def intro: left_by_looked)
next
  case (Some d)
  note neq = parent_path_neq [OF Some]
  show ?thesis
  proof (cases "d = []")
    case True
    then show ?thesis using assms Some by (auto simp: make_parent_def intro: left_by_looked)
  next
    case False
    then obtain r' where "make_dirs me d w = (r', w')"
      using assms Some by (auto simp: make_parent_def map_err_def split: prod.splits sum.splits)
    from make_dirs_cases [OF this] show ?thesis
    proof
      assume "looked w w'"
      then show ?thesis by (simp add: left_by_looked looked_requests)
    next
      assume "dk_nodes w' = (dk_nodes w)(d \<mapsto> DiskDir) \<and> dk_requests w' = dk_requests w"
      then show ?thesis using neq Some by (auto simp: left_by_def only_def download_paths_def)
    qed
  qed
qed

text \<open>The file at \<open>p\<close> is the body of an accepted answer to the last of the requests.\<close>

definition fetched :: "model_env \<Rightarrow> string \<Rightarrow> u64 \<Rightarrow> disk \<Rightarrow> bool" where
  "fetched me p n w =
     (\<exists>hr t. dk_requests w \<noteq> [] \<and>
        me_get me (length (dk_requests w) - 1) (last (dk_requests w)) = Inr hr \<and>
        200 \<le> hr_status hr \<and> hr_status hr < 300 \<and>
        dk_nodes w p = Some (DiskFile (hr_body hr) t) \<and> n = length (hr_body hr) \<and>
        n \<le> download_size_limit (hr_length hr))"

lemma download_spec:
  assumes run: "download me url p w = (r, w')" and apart: "partial_path p \<noteq> p"
  shows "left_by p w r w' \<and> dk_requests w' \<in> {dk_requests w, dk_requests w @ [url]} \<and>
    (\<forall>n. r = Inr n \<longrightarrow> dk_requests w' = dk_requests w @ [url] \<and> fetched me p n w')"
proof -
  obtain c v where made: "make_parent me p w = (c, v)" by fastforce
  have v: "left_by p w (Inl e) v" "dk_requests v = dk_requests w" for e
    using make_parent_spec [OF made] by auto
  show ?thesis
  proof (cases c)
    case (Inl e)
    then have "r = Inl e \<and> w' = v" using run made by (simp add: download_def)
    then show ?thesis using v by simp
  next
    case (Inr u)
    define x where "x = v\<lparr>dk_requests := dk_requests w @ [url]\<rparr>"
    have x: "left_by p w (Inl e) x" "dk_requests x = dk_requests w @ [url]" for e
      using v by (simp_all add: x_def left_by_def only_def file_length_def)
    have quit: ?thesis if "r = Inl e" "w' = x" for e
      using that x by simp
    show ?thesis
    proof (cases "me_get me (length (dk_requests w)) url")
      case (Inl e)
      then show ?thesis using run made \<open>c = Inr u\<close> v quit by (auto simp: download_def x_def [symmetric])
    next
      case (Inr hr)
      show ?thesis
      proof (cases "200 \<le> hr_status hr \<and> hr_status hr < 300 \<and>
          (\<forall>n. hr_length hr = Some n \<longrightarrow> n \<le> max_model_download_bytes)")
        case False
        then have "(\<exists>e. r = Inl e) \<and> w' = x"
          using run made \<open>c = Inr u\<close> Inr v
          by (auto simp: download_def x_def [symmetric] not_le split: if_splits option.splits)
        then show ?thesis using quit by blast
      next
        case True
        then have received: "receive me p hr x = (r, w')"
          using run made \<open>c = Inr u\<close> Inr v
          by (auto simp: download_def x_def [symmetric] not_le not_less split: if_splits option.splits)
        note spec = receive_spec [OF received apart]
        have "fetched me p n w'" if "r = Inr n" for n
          using spec that Inr True x by (auto simp: fetched_def left_by_def file_length_def)
        then show ?thesis using spec x left_by_trans [OF x(1)] by auto
      qed
    qed
  qed
qed

lemma download_with_fallback_spec:
  assumes run: "download_with_fallback me url p w = (r, w')" and apart: "partial_path p \<noteq> p"
  shows "left_by p w r w' \<and>
    (\<exists>rs. dk_requests w' = dk_requests w @ rs \<and>
       rs \<in> {[], [mirror_url_from_upstream url], [url], [mirror_url_from_upstream url, url]} \<and>
       (\<forall>n. r = Inr n \<longrightarrow> rs \<noteq> [] \<and> fetched me p n w'))"
proof -
  let ?m = "mirror_url_from_upstream url"
  obtain c v where first: "download me ?m p w = (c, v)" by fastforce
  note v = download_spec [OF first apart]
  show ?thesis
  proof (cases c)
    case (Inr n)
    then have "r = Inr n" "w' = v" using run first by (simp_all add: download_with_fallback_def)
    then show ?thesis using v Inr by auto
  next
    case (Inl e)
    then have second: "download me url p v = (r, w')" using run first by (simp add: download_with_fallback_def)
    note w' = download_spec [OF second apart]
    have "left_by p w r w'" using v w' Inl left_by_trans by blast
    then show ?thesis using v w' by auto
  qed
qed

section \<open>Providing a file\<close>

lemma marker_not_downloaded: "marker_path p \<notin> download_paths p"
  using parent_path_neq(3) [of p] partial_neq_marker [of p] marker_path_neq [of p]
  by (cases "parent_path p") (auto simp: download_paths_def)

definition model_paths :: "string \<Rightarrow> string set" where
  "model_paths p = insert (marker_path p) (download_paths p)"

lemma mark_verified_spec:
  "only {marker_path p} w (mark_verified me p h w) \<and> dk_requests (mark_verified me p h w) = dk_requests w"
proof -
  obtain m v where stat: "metadata me p w = (m, v)" by fastforce
  then have v: "looked w v" by (rule metadata_looks)
  show ?thesis
  proof (cases m)
    case (Inl e)
    then show ?thesis using stat v by (simp add: mark_verified_def looked_only looked_requests)
  next
    case (Inr nt)
    obtain n t where nt: "nt = (n, t)" by fastforce
    obtain r x where written: "write_file me (marker_path p) (me_encode me (marker_of h n t)) v = (r, x)" by fastforce
    then have "mark_verified me p h w = x"
      using stat Inr nt by (simp add: mark_verified_def write_verification_marker_def)
    then show ?thesis
      using write_file_cases [OF written] v by (auto simp: looked_def only_def)
  qed
qed

lemma mark_verified_has_hash: "has_hash me p h' (mark_verified me p h w) = has_hash me p h' w"
  using mark_verified_spec [of p w me h] by (simp add: has_hash_def only_def)

lemma remove_file_snd:
  "only {p} w (snd (remove_file me p w)) \<and> dk_requests (snd (remove_file me p w)) = dk_requests w"
  using remove_file_cases [of w me p] by (auto simp: looked_def only_def)

definition sound_at :: "model_env \<Rightarrow> string \<Rightarrow> string \<Rightarrow> disk \<Rightarrow> bool" where
  "sound_at me p h w = (vouched me p h w \<longrightarrow> has_hash me p h w)"

text \<open>A run either finds the file, or fetches it: the two halves of \<open>ensure_file\<close>.\<close>

lemma ensure_found:
  assumes run: "ensure_file me var info p w = (r, w')" and found: "path_exists me p w = (True, v)"
  shows "only {marker_path p} w w' \<and> dk_requests w' = dk_requests w \<and> (\<forall>q. r = Inr q \<longrightarrow> q = p) \<and>
    (me_var me var = None \<longrightarrow> me_var me ''PANOPS_SKIP_MODEL_CHECKSUM'' = None \<longrightarrow>
      sound_at me p (mi_sha256 info) w \<longrightarrow> r = Inr p \<longrightarrow> has_hash me p (mi_sha256 info) w')"
proof (cases "me_var me var = None \<and> me_var me ''PANOPS_SKIP_MODEL_CHECKSUM'' = None")
  case False
  then have "r = Inr p" "w' = v" using run found by (auto simp: ensure_file_def)
  then show ?thesis using False path_exists_looks [OF found] looked_only looked_requests by auto
next
  case True
  let ?h = "mi_sha256 info"
  obtain c x where cached: "verification_cache_valid me p ?h v = (c, x)" by fastforce
  have v: "looked w v" and x: "looked w x"
    using path_exists_looks [OF found] verification_cache_valid_looks [OF cached] looked_trans by blast+
  show ?thesis
  proof (cases c)
    case c: True
    then have r: "r = Inr p" "w' = x" using run found True cached by (simp_all add: ensure_file_def)
    have "vouched me p ?h w"
      using verification_cache_valid_True [of me p ?h v x] cached c v
      by (simp add: vouched_def stat_of_def marker_at_def looked_def)
    then show ?thesis
      using r x looked_has_hash [OF x] by (auto simp: sound_at_def looked_only looked_requests)
  next
    case c: False
    obtain d y where checked: "verify_sha256 me p ?h x = (d, y)" by fastforce
    then have y: "looked w y" using x verify_sha256_looks looked_trans by blast
    show ?thesis
    proof (cases d)
      case (Inl e)
      then have "r = Inl e" "w' = y" using run found True cached c checked by (simp_all add: ensure_file_def)
      then show ?thesis using y by (simp add: looked_only looked_requests)
    next
      case (Inr u)
      then have r: "r = Inr p" "w' = mark_verified me p ?h y"
        using run found True cached c checked by (simp_all add: ensure_file_def)
      have "has_hash me p ?h x" using verify_sha256_Inr checked Inr by blast
      then have "has_hash me p ?h w'"
        using r looked_has_hash [OF x] looked_has_hash [OF y] mark_verified_has_hash by auto
      then show ?thesis
        using r y mark_verified_spec [of p y me ?h] by (auto simp: looked_def only_def)
    qed
  qed
qed

lemma ensure_missing:
  assumes run: "ensure_file me var info p w = (r, w')" and missing: "path_exists me p w = (False, v)"
    and apart: "partial_path p \<noteq> p"
  shows "only (model_paths p) w w' \<and>
    (\<exists>rs. dk_requests w' = dk_requests w @ rs \<and>
       rs \<in> {[], [mirror_url_from_upstream (mi_url info)], [mi_url info],
              [mirror_url_from_upstream (mi_url info), mi_url info]} \<and>
       (\<forall>q. r = Inr q \<longrightarrow> rs \<noteq> [] \<and> q = p \<and> has_hash me p (mi_sha256 info) w' \<and>
          (\<exists>n. fetched me p n w')))"
proof -
  let ?h = "mi_sha256 info"
  have v: "looked w v" using path_exists_looks [OF missing] .
  show ?thesis
  proof (cases "http_client me")
    case (Inl e)
    then have "r = Inl e" "w' = v" using run missing by (simp_all add: ensure_file_def)
    then show ?thesis using v by (simp add: looked_only looked_requests)
  next
    case client: (Inr u)
    obtain c x where got: "download_with_fallback me (mi_url info) p v = (c, x)" by fastforce
    from download_with_fallback_spec [OF got apart] v obtain rs
      where x: "left_by p v c x" and rs: "dk_requests x = dk_requests w @ rs"
        "rs \<in> {[], [mirror_url_from_upstream (mi_url info)], [mi_url info],
              [mirror_url_from_upstream (mi_url info), mi_url info]}"
        and ok: "\<And>n. c = Inr n \<Longrightarrow> rs \<noteq> [] \<and> fetched me p n x"
      by (auto simp: looked_def)
    have wx: "only (model_paths p) w x"
      using x v by (cases c) (auto simp: left_by_def only_def looked_def model_paths_def)
    show ?thesis
    proof (cases c)
      case (Inl e)
      then have "r = Inl e" "w' = x" using run missing client got by (simp_all add: ensure_file_def)
      then show ?thesis using rs wx by auto
    next
      case c: (Inr n)
      obtain d y where checked: "verify_sha256 me p ?h x = (d, y)" by fastforce
      then have y: "looked x y" by (rule verify_sha256_looks)
      show ?thesis
      proof (cases d)
        case (Inl e)
        then have r: "r = Inl e" "w' = snd (remove_file me p y)"
          using run missing client got c checked by (simp_all add: ensure_file_def)
        have "only (model_paths p) w w'"
          using wx y remove_file_snd [of p y me] unfolding r
          by (auto simp: only_def looked_def model_paths_def download_paths_def)
        then show ?thesis using r rs remove_file_snd [of p y me] looked_requests [OF y] by auto
      next
        case (Inr u')
        then have r: "r = Inr p" "w' = mark_verified me p ?h y"
          using run missing client got c checked by (simp_all add: ensure_file_def)
        have "has_hash me p ?h x" using verify_sha256_Inr checked Inr by blast
        then have "has_hash me p ?h w'"
          using r looked_has_hash [OF y] mark_verified_has_hash by auto
        moreover have "only (model_paths p) w w'" "dk_requests w' = dk_requests x" "dk_nodes w' p = dk_nodes x p"
          using wx y mark_verified_spec [of p y me ?h] unfolding r
          by (auto simp: only_def looked_def model_paths_def)
        moreover have "fetched me p n w'" using ok [OF c] calculation by (simp add: fetched_def)
        ultimately show ?thesis using r rs ok [OF c] by auto
      qed
    qed
  qed
qed

section \<open>When no file operation fails\<close>

definition no_faults :: "model_env \<Rightarrow> bool" where
  "no_faults me = (me_fault me = (\<lambda>k. None))"

lemma disk_op_ok: "no_faults me \<Longrightarrow> disk_op me f w =
    (case f (me_clock me (dk_ops w)) (dk_nodes w) of
       Inl m \<Rightarrow> (Inl m, tick w) | Inr (a, d) \<Rightarrow> (Inr a, (tick w)\<lparr>dk_nodes := d\<rparr>))"
  by (simp add: disk_op_def no_faults_def)

lemma same_nodes: "w\<lparr>dk_nodes := dk_nodes w\<rparr> = w"
  by simp

lemma metadata_ok:
  "no_faults me \<Longrightarrow> metadata me p w =
     (case stat_of me p w of None \<Rightarrow> (Inl ''No such file or directory'', tick w) | Some m \<Rightarrow> (Inr m, tick w))"
  by (auto simp: metadata_def disk_op_ok stat_of_def tick_def split: option.splits disk_node.splits)

lemma read_marker_ok:
  assumes "no_faults me" and "marker_at me p w = Some m"
  shows "read_verification_marker me (marker_path p) w = (Some m, tick (tick w))"
proof -
  obtain b t where b: "dk_nodes w (marker_path p) = Some (DiskFile b t)" "me_decode me b = Some m"
    using assms(2) by (auto simp: marker_at_def split: option.splits disk_node.splits)
  then show ?thesis
    by (simp add: read_verification_marker_def open_file_def read_bytes_def disk_op_ok [OF assms(1)] tick_def)
qed

lemma vouched_valid:
  assumes "no_faults me" and "vouched me p h w"
  shows "verification_cache_valid me p h w = (True, tick (tick (tick w)))"
proof -
  obtain n t where "stat_of me p w = Some (n, t)" "marker_at me p w = Some (marker_of h n t)"
    using assms(2) by (auto simp: vouched_def)
  moreover from this have "stat_of me p (tick (tick w)) = Some (n, t)" by (simp add: stat_of_def)
  ultimately show ?thesis
    by (simp add: verification_cache_valid_def read_marker_ok [OF assms(1)] metadata_ok [OF assms(1)] marker_of_def)
qed

lemma vouched_reuses:
  assumes "no_faults me" and "vouched me p (mi_sha256 info) w"
  shows "\<exists>w'. ensure_file me var info p w = (Inr p, w') \<and> looked w w'"
proof -
  obtain m where m: "stat_of me p w = Some m" using assms(2) by (auto simp: vouched_def)
  have found: "path_exists me p w = (True, tick w)"
    by (simp add: path_exists_def metadata_ok [OF assms(1)] m)
  have "vouched me p (mi_sha256 info) (tick w)"
    using assms(2) by (simp add: vouched_def stat_of_def marker_at_def)
  from vouched_valid [OF assms(1) this] show ?thesis
    by (auto simp: ensure_file_def found looked_def)
qed

lemma mark_verified_vouches:
  assumes "no_faults me" and codec: "\<And>m. me_decode me (me_encode me m) = Some m"
    and "has_hash me p h' w" and "dk_nodes w (marker_path p) \<noteq> Some DiskDir"
  shows "vouched me p h (mark_verified me p h w)"
proof -
  obtain b t where content: "dk_nodes w p = Some (DiskFile b t)" using assms(3) by (auto simp: has_hash_def)
  then have "stat_of me p w = Some (length b, t)" by (simp add: stat_of_def)
  then show ?thesis
    using assms(1,4) content codec
    by (simp add: mark_verified_def metadata_ok write_verification_marker_def write_file_def create_file_def
        disk_op_ok write_all_def no_faults_def append_bytes_def vouched_def stat_of_def marker_at_def)
qed

lemma ensure_failed_missing:
  assumes ok: "no_faults me" and none: "dk_nodes w p = None" and apart: "partial_path p \<noteq> p"
    and run: "ensure_file me var info p w = (Inl e, w')"
  shows "dk_nodes w' p = None"
proof -
  let ?h = "mi_sha256 info"
  have missing: "path_exists me p w = (False, tick w)"
    using none by (simp add: path_exists_def metadata_ok [OF ok] stat_of_def)
  show ?thesis
  proof (cases "http_client me")
    case (Inl e)
    then show ?thesis using run missing none by (auto simp: ensure_file_def)
  next
    case client: (Inr u)
    obtain c x where got: "download_with_fallback me (mi_url info) p (tick w) = (c, x)" by fastforce
    note x = download_with_fallback_spec [OF got apart]
    show ?thesis
    proof (cases c)
      case (Inl e)
      then show ?thesis using run missing client got x none by (auto simp: ensure_file_def left_by_def)
    next
      case c: (Inr n)
      obtain d y where checked: "verify_sha256 me p ?h x = (d, y)" by fastforce
      then have y: "looked x y" by (rule verify_sha256_looks)
      obtain b t where "dk_nodes y p = Some (DiskFile b t)"
        using x c y by (auto simp: left_by_def looked_def)
      then have "dk_nodes (snd (remove_file me p y)) p = None"
        by (simp add: remove_file_def disk_op_ok [OF ok])
      then show ?thesis
        using run missing client got c checked by (auto simp: ensure_file_def split: sum.splits)
    qed
  qed
qed

lemma ensure_vouches:
  assumes run: "ensure_file me var info p w = (Inr q, w')"
    and on: "me_var me var = None" "me_var me ''PANOPS_SKIP_MODEL_CHECKSUM'' = None"
    and apart: "partial_path p \<noteq> p" and sound: "sound_at me p (mi_sha256 info) w"
    and ok: "no_faults me" and codec: "\<And>m. me_decode me (me_encode me m) = Some m"
    and no_dir: "dk_nodes w (marker_path p) \<noteq> Some DiskDir"
  shows "vouched me p (mi_sha256 info) w'"
proof -
  let ?h = "mi_sha256 info"
  have marked: "vouched me p ?h (mark_verified me p ?h y)"
    if "verify_sha256 me p ?h x = (Inr u, y)" "only (download_paths p) w x" for x y u
  proof -
    have y: "looked x y" by (rule verify_sha256_looks [OF that(1)])
    have "has_hash me p ?h y" using verify_sha256_Inr [OF that(1)] looked_has_hash [OF y] by simp
    moreover have "dk_nodes y (marker_path p) \<noteq> Some DiskDir"
      using y that(2) no_dir marker_not_downloaded by (auto simp: looked_def only_def)
    ultimately show ?thesis by (rule mark_verified_vouches [OF ok codec])
  qed
  obtain b v where there: "path_exists me p w = (b, v)" by fastforce
  then have v: "looked w v" by (rule path_exists_looks)
  show ?thesis
  proof (cases b)
    case b: True
    obtain c x where cached: "verification_cache_valid me p ?h v = (c, x)" by fastforce
    have x: "looked w x" using v verification_cache_valid_looks [OF cached] looked_trans by blast
    show ?thesis
    proof (cases c)
      case True
      then have "w' = x" and "vouched me p ?h v"
        using run there b on cached verification_cache_valid_True [of me p ?h v x] by (auto simp: ensure_file_def)
      then show ?thesis
        using v x by (simp add: vouched_def stat_of_def marker_at_def looked_def)
    next
      case False
      then show ?thesis
        using run there b on cached marked [of x] looked_only [OF x]
        by (auto simp: ensure_file_def try_then_Inr)
    qed
  next
    case b: False
    obtain n x where got: "download_with_fallback me (mi_url info) p v = (Inr n, x)"
      using run there b by (auto simp: ensure_file_def try_then_Inr)
    have "only (download_paths p) w x"
      using download_with_fallback_spec [OF got apart] v by (auto simp: left_by_def only_def looked_def)
    then show ?thesis
      using run there b got marked [of x]
      by (auto simp: ensure_file_def try_then_Inr split: prod.splits sum.splits)
  qed
qed

section \<open>A server that delivers\<close>

definition good_answer :: "http_response \<Rightarrow> bool" where
  "good_answer hr =
     (200 \<le> hr_status hr \<and> hr_status hr < 300 \<and> hr_error hr = (\<lambda>k. None) \<and>
      length (hr_body hr) \<le> download_size_limit (hr_length hr) \<and>
      (case hr_length hr of None \<Rightarrow> True | Some n \<Rightarrow> n \<le> max_model_download_bytes))"

lemma download_loop_ok:
  assumes "no_faults me" and "hr_error hr = (\<lambda>k. None)"
    and "written + length body \<le> download_size_limit (hr_length hr)"
  shows "\<exists>w'. download_loop me tmp hr k body written w = (Inr (written + length body), w')"
  using assms
proof (induction me tmp hr k body written w rule: download_loop.induct)
  case (1 me tmp hr k body written w)
  let ?chunk = "read_chunk hr k body" and ?limit = "download_size_limit (hr_length hr)"
  show ?case
  proof (cases "body = []")
    case True
    then show ?thesis using "1.prems" by (simp add: download_loop.simps [of me tmp hr k])
  next
    case False
    obtain v where wrote: "write_all me tmp ?chunk w = (Inr (), v)"
      using "1.prems"(1) by (simp add: write_all_def no_faults_def)
    have short: "length ?chunk \<le> length body" by (simp add: read_chunk_def)
    have exact: "u64_add written (length ?chunk) = written + length ?chunk"
      using "1.prems"(3) short download_size_limit_max [of "hr_length hr"] max_model_download_bytes_small
      by (intro u64_add_exact) linarith
    have under: "\<not> ?limit < written + length ?chunk" using "1.prems"(3) short by linarith
    have rest: "written + length ?chunk + length (drop (length ?chunk) body) = written + length body"
      using short by simp
    have "\<exists>w'. download_loop me tmp hr (Suc k) (drop (length ?chunk) body) (written + length ?chunk) v =
        (Inr (written + length body), w')"
      using "1.IH" [where xa = v] False under "1.prems" unfolding exact rest by simp
    then show ?thesis
      using wrote exact under "1.prems" False by (simp add: download_loop.simps [of me tmp hr k])
  qed
qed

lemma receive_ok:
  assumes ok: "no_faults me" and good: "good_answer hr" and apart: "partial_path p \<noteq> p"
    and room: "dk_nodes w p \<noteq> Some DiskDir" "dk_nodes w (partial_path p) \<noteq> Some DiskDir"
  shows "\<exists>n w'. receive me p hr w = (Inr n, w')"
proof -
  let ?tmp = "partial_path p"
  obtain v where made: "create_file me ?tmp w = (Inr (), v)"
    and v: "dk_nodes v = (dk_nodes w)(?tmp \<mapsto> DiskFile [] (me_clock me (dk_ops w)))"
    using room by (simp add: create_file_def disk_op_ok [OF ok])
  obtain n x where loop: "download_loop me ?tmp hr 0 (hr_body hr) 0 v = (Inr n, x)"
    using download_loop_ok [OF ok, of hr 0 "hr_body hr" ?tmp 0 v] good by (auto simp: good_answer_def)
  obtain t where x: "only {?tmp} v x" "dk_nodes x ?tmp = Some (DiskFile (hr_body hr) t)"
    using download_loop_spec [OF loop, of "[]"] v by auto
  have dest: "dk_nodes x p \<noteq> Some DiskDir" using x(1) v room apart by (auto simp: only_def)
  obtain y where sync: "sync_all me x = (Inr (), y)" "dk_nodes y = dk_nodes x"
    by (simp add: sync_all_def disk_op_ok [OF ok])
  obtain z where "move_file me ?tmp p y = (Inr (), z)"
    using x(2) dest sync(2) by (simp add: move_file_def disk_op_ok [OF ok])
  then show ?thesis using made loop sync by (simp add: receive_def Let_def)
qed

text \<open>The estimate that is logged: the first second at which the rest has arrived at the current rate.\<close>

lemma eta_secs_least:
  assumes "eta_secs d n r = Some s"
  shows "n \<le> d + s * r \<and> (\<forall>k < s. d + k * r < n)"
proof (cases "n \<le> d")
  case True
  then show ?thesis using assms by (simp add: eta_secs_def)
next
  case False
  then have r: "0 < r" and s: "s = (n - d) div r + (if (n - d) mod r \<noteq> 0 then 1 else 0)"
    using assms by (auto simp: eta_secs_def Let_def split: if_splits)
  have exact: "(n - d) div r * r + (n - d) mod r = n - d" by simp
  have "n - d \<le> s * r"
    using exact dividend_less_div_times [OF r, of "n - d"] by (auto simp: s)
  moreover have "k * r < n - d" if "k < s" for k
  proof (cases "(n - d) mod r = 0")
    case True
    then have "Suc k * r \<le> (n - d) div r * r" using that s by (intro mult_le_mono1) simp
    then show ?thesis using exact True r by simp
  next
    case False
    then have "k * r \<le> (n - d) div r * r" using that s by (intro mult_le_mono1) simp
    then show ?thesis using exact False by linarith
  qed
  ultimately show ?thesis using False by fastforce
qed

text \<open>Where a download can put its file.\<close>

definition writable :: "string \<Rightarrow> disk \<Rightarrow> bool" where
  "writable p w =
     (dk_nodes w p \<noteq> Some DiskDir \<and> dk_nodes w (partial_path p) \<noteq> Some DiskDir \<and>
      (case parent_path p of None \<Rightarrow> True
       | Some d \<Rightarrow> (case dk_nodes w d of Some (DiskFile b t) \<Rightarrow> False | _ \<Rightarrow> True)))"

lemma writable_nodes: "dk_nodes v = dk_nodes w \<Longrightarrow> writable p v = writable p w"
  unfolding writable_def by (rule conj_cong | simp only:)+

lemma make_parent_ok:
  assumes ok: "no_faults me" and writable: "writable p w"
  shows "\<exists>v. make_parent me p w = (Inr (), v) \<and> writable p v \<and> dk_requests v = dk_requests w"
proof (cases "parent_path p")
  case None
  then show ?thesis using writable by (simp add: make_parent_def)
next
  case (Some d)
  note neq = parent_path_neq [OF Some]
  show ?thesis
  proof (cases "d = []")
    case True
    then show ?thesis using writable Some by (simp add: make_parent_def)
  next
    case False
    then obtain v where "make_dirs me d w = (Inr (), v)" and
      v: "dk_nodes v = (dk_nodes w)(d \<mapsto> DiskDir)" "dk_requests v = dk_requests w"
      using writable Some
      by (auto simp: make_dirs_def disk_op_ok [OF ok] writable_def split: option.splits disk_node.splits)
    then show ?thesis using writable Some neq False by (auto simp: make_parent_def writable_def)
  qed
qed

lemma download_ok:
  assumes "no_faults me" and "partial_path p \<noteq> p" and "writable p w"
    and "me_get me (length (dk_requests w)) url = Inr hr" and "good_answer hr"
  shows "\<exists>n w'. download me url p w = (Inr n, w')"
proof -
  obtain v where v: "make_parent me p w = (Inr (), v)" "writable p v" "dk_requests v = dk_requests w"
    using make_parent_ok assms(1,3) by blast
  let ?x = "v\<lparr>dk_requests := dk_requests w @ [url]\<rparr>"
  obtain n w' where "receive me p hr ?x = (Inr n, w')"
    using receive_ok [OF assms(1,5,2), of ?x] v(2) by (auto simp: writable_def)
  then show ?thesis
    using v assms(4,5) by (auto simp: download_def good_answer_def split: option.splits)
qed

lemma download_failed_writable:
  assumes "download me url p w = (Inl e, w')" and "me_get me (length (dk_requests w)) url = Inl e'"
    and "no_faults me" and "writable p w"
  shows "writable p w' \<and> dk_requests w' = dk_requests w @ [url]"
proof -
  obtain v where v: "make_parent me p w = (Inr (), v)" "writable p v" "dk_requests v = dk_requests w"
    using make_parent_ok assms(3,4) by blast
  moreover from this have "w' = v\<lparr>dk_requests := dk_requests w @ [url]\<rparr>"
    using assms(1,2) by (simp add: download_def)
  ultimately show ?thesis using writable_nodes [of w' v p] by simp
qed

text \<open>The answer of the server to the \<open>k\<close>-th request for a file with the hash \<open>h\<close>.\<close>

definition serves :: "model_env \<Rightarrow> string \<Rightarrow> string \<Rightarrow> nat \<Rightarrow> bool" where
  "serves me h url k =
     (case me_get me k url of Inl e \<Rightarrow> False | Inr hr \<Rightarrow> good_answer hr \<and> me_sha256 me (hr_body hr) = h)"

lemma download_with_fallback_ok:
  assumes ok: "no_faults me" and apart: "partial_path p \<noteq> p" and w: "writable p w"
    and mirror: "case me_get me (length (dk_requests w)) (mirror_url_from_upstream url) of
        Inl e \<Rightarrow> serves me h url (Suc (length (dk_requests w)))
      | Inr hr \<Rightarrow> serves me h (mirror_url_from_upstream url) (length (dk_requests w))"
  shows "\<exists>n w'. download_with_fallback me url p w = (Inr n, w') \<and> has_hash me p h w'"
proof -
  let ?k = "length (dk_requests w)" and ?m = "mirror_url_from_upstream url"
  obtain c v where first: "download me ?m p w = (c, v)" by fastforce
  note spec = download_spec [OF first apart]
  show ?thesis
  proof (cases "me_get me ?k ?m")
    case (Inr hr)
    then have good: "good_answer hr" "me_sha256 me (hr_body hr) = h"
      using mirror by (simp_all add: serves_def)
    then obtain n where c: "c = Inr n" using download_ok [OF ok apart w Inr] first by auto
    have "has_hash me p h v" using spec c Inr good by (auto simp: fetched_def has_hash_def)
    then show ?thesis using first c by (simp add: download_with_fallback_def)
  next
    case (Inl e)
    obtain e' where c: "c = Inl e'"
      using spec Inl by (cases c) (auto simp: fetched_def)
    have v: "writable p v" "dk_requests v = dk_requests w @ [?m]"
      using download_failed_writable [OF first [unfolded c] Inl ok w] by auto
    obtain hr where hr: "me_get me (length (dk_requests v)) url = Inr hr" "good_answer hr" "me_sha256 me (hr_body hr) = h"
      using mirror Inl v(2) by (auto simp: serves_def split: sum.splits)
    obtain n w' where second: "download me url p v = (Inr n, w')"
      using download_ok [OF ok apart v(1) hr(1,2)] by blast
    have "has_hash me p h w'"
      using download_spec [OF second apart] hr by (auto simp: fetched_def has_hash_def)
    then show ?thesis using first c second by (simp add: download_with_fallback_def)
  qed
qed

lemma ensure_delivers:
  assumes ok: "no_faults me" and apart: "partial_path p \<noteq> p" and w: "writable p w"
    and none: "dk_nodes w p = None" and client: "me_client me = None"
    and server: "case me_get me (length (dk_requests w)) (mirror_url_from_upstream (mi_url info)) of
        Inl e \<Rightarrow> serves me (mi_sha256 info) (mi_url info) (Suc (length (dk_requests w)))
      | Inr hr \<Rightarrow> serves me (mi_sha256 info) (mirror_url_from_upstream (mi_url info)) (length (dk_requests w))"
  shows "\<exists>w'. ensure_file me var info p w = (Inr p, w') \<and> has_hash me p (mi_sha256 info) w'"
proof -
  let ?h = "mi_sha256 info"
  have missing: "path_exists me p w = (False, tick w)"
    using none by (simp add: path_exists_def metadata_ok [OF ok] stat_of_def)
  have "writable p (tick w)" using w writable_nodes [of "tick w" w p] by simp
  then obtain n x where x: "download_with_fallback me (mi_url info) p (tick w) = (Inr n, x)" "has_hash me p ?h x"
    using download_with_fallback_ok [OF ok apart, where w = "tick w" and url = "mi_url info" and h = ?h]
      server looked_requests [OF looked_tick(1) [of w]] by (auto split: sum.splits)
  have "\<exists>y. verify_sha256 me p ?h x = (Inr (), y) \<and> looked x y"
    using x(2)
    by (auto simp: has_hash_def verify_sha256_def open_file_def read_bytes_def disk_op_ok [OF ok] looked_def tick_def)
  then show ?thesis
    using missing x client looked_has_hash mark_verified_has_hash
    by (fastforce simp: ensure_file_def http_client_def)
qed

end
