(* ===== verification/Model_Properties.thy ===== *)
theory Model_Properties
  imports Model_Correct
begin

text \<open>
  The properties of model provision, and the environment on which they are shown to hold: a server
  that answers every request with the same two bytes, a checksum that accepts them and nothing else,
  and a codec for markers.
\<close>

section \<open>A sample environment\<close>

definition sample_encode :: "verification_marker \<Rightarrow> string" where
  "sample_encode m = dec (vm_size m) @ '';'' @ dec (vm_mtime_secs m) @ '';'' @ dec (vm_mtime_nanos m) @ '';'' @ vm_sha256 m"

definition sample_field :: "string \<Rightarrow> (nat \<times> string) option" where
  "sample_field s =
     (let n = takeWhile is_ascii_digit s
      in if n = [] \<or> n = s then None else Some (digits_value n, drop (Suc (length n)) s))"

definition sample_decode :: "string \<Rightarrow> verification_marker option" where
  "sample_decode s =
     (case sample_field s of None \<Rightarrow> None | Some (a, s) \<Rightarrow>
     (case sample_field s of None \<Rightarrow> None | Some (b, s) \<Rightarrow>
     (case sample_field s of None \<Rightarrow> None | Some (c, s) \<Rightarrow>
       Some \<lparr>vm_sha256 = s, vm_size = a, vm_mtime_secs = b, vm_mtime_nanos = c\<rparr>)))"

lemma sample_field_dec: "sample_field (dec n @ CHR '';'' # s) = Some (n, s)"
proof -
  have "takeWhile is_ascii_digit (dec n @ CHR '';'' # s) = dec n"
    using dec_digits [of n]
    by (simp add: takeWhile_append list_all_iff is_ascii_digit_def byte_def)
  then show ?thesis by (simp add: sample_field_def Let_def)
qed

lemma sample_codec: "sample_decode (sample_encode m) = Some m"
  by (simp add: sample_decode_def sample_encode_def sample_field_dec)

definition sample_reply :: http_response where
  "sample_reply = \<lparr>hr_status = 200, hr_length = Some 2, hr_body = ''ok'', hr_offer = (\<lambda>k. 0), hr_error = (\<lambda>k. None)\<rparr>"

definition sample_me :: "(nat \<Rightarrow> string \<Rightarrow> string + http_response) \<Rightarrow> (string \<Rightarrow> string) \<Rightarrow> (string \<Rightarrow> string option) \<Rightarrow> model_env" where
  "sample_me get sha var =
     \<lparr>me_fault = (\<lambda>k. None), me_clock = int, me_dir_metadata = (\<lambda>p. (0, 0)), me_client = None,
      me_get = get, me_var = var, me_project_dir = Some ''/home'', me_sha256 = sha,
      me_encode = sample_encode, me_decode = sample_decode,
      me_untar = (\<lambda>dir b d. (None, d(''/home/models/sherpa-onnx-pyannote-segmentation-3-0/model.onnx'' \<mapsto> DiskFile b 0))),
      me_path_debug = (\<lambda>p. p), me_status_text = dec\<rparr>"

definition vad_sha :: "string \<Rightarrow> string" where
  "vad_sha b = (if b = ''ok'' then mi_sha256 vad_model else ''0'')"

definition bare_disk :: disk where
  "bare_disk = \<lparr>dk_nodes = (\<lambda>p. None), dk_ops = 0, dk_requests = []\<rparr>"

definition good_me :: model_env where
  "good_me = sample_me (\<lambda>k url. Inr sample_reply) vad_sha (\<lambda>v. None)"

definition cut_me :: model_env where
  "cut_me = sample_me (\<lambda>k url. if k = 0 then Inl ''refused'' else Inr sample_reply) vad_sha (\<lambda>v. None)"

definition bad_me :: model_env where
  "bad_me = sample_me (\<lambda>k url. Inr (sample_reply\<lparr>hr_body := ''no''\<rparr>)) vad_sha (\<lambda>v. None)"

lemma sample_paths:
  "partial_path ''/m/v.bin'' = ''/m/v.partial''" "parent_path ''/m/v.bin'' = Some ''/m''"
  by code_simp+

lemma sample_lookup: "lookup_model ''ggml-silero-v6.2.0'' = Inr vad_model"
  by code_simp

lemma sample_bare: "dk_nodes bare_disk p = None" "dk_requests bare_disk = []" "writable ''/m/v.bin'' bare_disk"
  "marker_at me p bare_disk = None"
  by (simp_all add: bare_disk_def writable_def sample_paths marker_at_def)

lemma sample_good: "good_answer sample_reply"
  by (simp add: good_answer_def sample_reply_def download_size_limit_def u64_saturating_add_def
      u64_max_def download_size_grace_def max_model_download_bytes_def)

lemma sample_faults: "no_faults (sample_me get sha var)"
  by (simp add: no_faults_def sample_me_def)

lemma sample_serves:
  "get k url = Inr sample_reply \<Longrightarrow> serves (sample_me get vad_sha var) (mi_sha256 vad_model) url k"
  using sample_good by (simp add: serves_def sample_me_def vad_sha_def) (simp add: sample_reply_def)

section \<open>Availability\<close>

text \<open>A missing model is provided: when no file operation fails, the place is writable, and the
  mirror - or, when the mirror does not answer, the upstream server - serves a body of a permitted
  length with the registered checksum, then the call succeeds and the file is there.\<close>

theorem model_available:
  assumes "lookup_model name = Inr info" and "no_faults me" and "partial_path p \<noteq> p"
    and "writable p w" and "dk_nodes w p = None" and "me_client me = None"
    and "case me_get me (length (dk_requests w)) (mirror_url_from_upstream (mi_url info)) of
        Inl e \<Rightarrow> serves me (mi_sha256 info) (mi_url info) (Suc (length (dk_requests w)))
      | Inr hr \<Rightarrow> serves me (mi_sha256 info) (mirror_url_from_upstream (mi_url info)) (length (dk_requests w))"
  shows "\<exists>w'. ensure_model me name p w = (Inr p, w') \<and> has_hash me p (mi_sha256 info) w'"
  using ensure_delivers [OF assms(2-6), of info "''PANOPS_MODEL''"] assms(1,7)
  by (simp add: ensure_model_def)

lemma cut_serves:
  "me_get cut_me (length (dk_requests bare_disk)) url = Inl ''refused''"
  "serves cut_me (mi_sha256 vad_model) url (Suc (length (dk_requests bare_disk)))"
  by (simp_all add: cut_me_def sample_bare sample_serves) (simp add: sample_me_def)

lemma model_available_witness:
  "\<exists>w'. ensure_model cut_me ''ggml-silero-v6.2.0'' ''/m/v.bin'' bare_disk = (Inr ''/m/v.bin'', w') \<and>
     has_hash cut_me ''/m/v.bin'' (mi_sha256 vad_model) w'"
proof (rule model_available)
  show "no_faults cut_me" by (simp add: cut_me_def sample_faults)
  show "me_client cut_me = None" by (simp add: cut_me_def sample_me_def)
qed (simp_all add: cut_serves sample_lookup sample_paths sample_bare(1,3))

section \<open>Integrity\<close>

text \<open>C27: A model that is handed out has the registered checksum, whatever fails on the way and
  whatever the servers answer, unless the operator turned the check off - provided a marker that
  vouches for the file on disk tells the truth, which every successful run establishes again.\<close>

theorem model_verified:
  assumes "ensure_model me name p w = (Inr q, w')" and "lookup_model name = Inr info"
    and "me_var me ''PANOPS_MODEL'' = None" and "me_var me ''PANOPS_SKIP_MODEL_CHECKSUM'' = None"
    and "partial_path p \<noteq> p" and "sound_at me p (mi_sha256 info) w"
  shows "q = p \<and> has_hash me p (mi_sha256 info) w' \<and> sound_at me p (mi_sha256 info) w' \<and>
    only (model_paths p) w w'"
proof -
  have run: "ensure_file me ''PANOPS_MODEL'' info p w = (Inr q, w')"
    using assms(1,2) by (simp add: ensure_model_def)
  obtain b v where there: "path_exists me p w = (b, v)" by fastforce
  show ?thesis
  proof (cases b)
    case True
    then show ?thesis
      using ensure_found [of me "''PANOPS_MODEL''" info p w "Inr q" w' v] run there assms
      by (auto simp: sound_at_def model_paths_def elim: only_mono)
  next
    case False
    then show ?thesis
      using ensure_missing [of me "''PANOPS_MODEL''" info p w "Inr q" w' v] run there assms(5)
      by (auto simp: sound_at_def)
  qed
qed

lemma good_run:
  "\<exists>w'. ensure_model good_me ''ggml-silero-v6.2.0'' ''/m/v.bin'' bare_disk = (Inr ''/m/v.bin'', w')"
proof -
  have "me_get good_me k url = Inr sample_reply" "serves good_me (mi_sha256 vad_model) url k" for k url
    by (simp_all add: good_me_def sample_serves) (simp add: sample_me_def)
  moreover have "me_client good_me = None" by (simp add: good_me_def sample_me_def)
  ultimately show ?thesis
    using ensure_delivers [of good_me "''/m/v.bin''" bare_disk vad_model "''PANOPS_MODEL''"]
      sample_faults sample_paths(1) sample_bare(1,3)
    by (auto simp: ensure_model_def sample_lookup good_me_def)
qed

lemma model_verified_witness:
  "\<exists>w'. ensure_model good_me ''ggml-silero-v6.2.0'' ''/m/v.bin'' bare_disk = (Inr ''/m/v.bin'', w') \<and>
     has_hash good_me ''/m/v.bin'' (mi_sha256 vad_model) w'"
proof -
  obtain w' where run: "ensure_model good_me ''ggml-silero-v6.2.0'' ''/m/v.bin'' bare_disk = (Inr ''/m/v.bin'', w')"
    using good_run by blast
  have "me_var good_me v = None" for v by (simp add: good_me_def sample_me_def)
  moreover have "sound_at good_me ''/m/v.bin'' h bare_disk" for h
    by (simp add: sound_at_def vouched_def sample_bare)
  ultimately show ?thesis
    using model_verified [OF run sample_lookup] run by (simp add: sample_paths)
qed

text \<open>A model that was missing is either provided with the registered checksum or still missing:
  when no file operation fails, a refused download, an oversized body or a wrong checksum leaves
  nothing in its place, also when the check of present files is turned off.\<close>

theorem model_right_or_missing:
  assumes "lookup_model name = Inr info" and "no_faults me" and "partial_path p \<noteq> p" and "dk_nodes w p = None"
  shows "case ensure_model me name p w of
      (Inr q, w') \<Rightarrow> q = p \<and> has_hash me p (mi_sha256 info) w' \<and> dk_requests w' \<noteq> dk_requests w
    | (Inl e, w') \<Rightarrow> dk_nodes w' p = None"
proof -
  obtain r w' where run: "ensure_file me ''PANOPS_MODEL'' info p w = (r, w')" by fastforce
  have missing: "path_exists me p w = (False, tick w)"
    using assms(4) by (simp add: path_exists_def metadata_ok [OF assms(2)] stat_of_def)
  show ?thesis
  proof (cases r)
    case (Inl e)
    then show ?thesis
      using ensure_failed_missing [OF assms(2,4,3)] run assms(1) by (auto simp: ensure_model_def)
  next
    case (Inr q)
    then show ?thesis
      using ensure_missing [OF run missing assms(3)] run assms(1) by (auto simp: ensure_model_def)
  qed
qed

lemma model_right_or_missing_witness:
  "\<exists>e w'. ensure_model bad_me ''ggml-silero-v6.2.0'' ''/m/v.bin'' bare_disk = (Inl e, w') \<and>
     dk_nodes w' ''/m/v.bin'' = None"
proof -
  obtain r w' where run: "ensure_file bad_me ''PANOPS_MODEL'' vad_model ''/m/v.bin'' bare_disk = (r, w')" by fastforce
  have ok: "no_faults bad_me" by (simp add: bad_me_def sample_faults)
  have missing: "path_exists bad_me ''/m/v.bin'' bare_disk = (False, tick bare_disk)"
    by (simp add: path_exists_def metadata_ok [OF ok] stat_of_def sample_bare)
  have "me_get bad_me k url = Inr hr \<Longrightarrow> me_sha256 bad_me (hr_body hr) \<noteq> mi_sha256 vad_model" for k url hr
    by (simp add: bad_me_def sample_me_def) (auto simp: vad_sha_def vad_model_def)
  then have "\<not> (fetched bad_me p n w' \<and> has_hash bad_me p (mi_sha256 vad_model) w')" for p n
    unfolding fetched_def has_hash_def by fastforce
  then have "r \<noteq> Inr q" for q
    using ensure_missing [OF run missing] sample_paths(1) by auto
  then obtain e where "r = Inl e" by (cases r) auto
  then show ?thesis
    using model_right_or_missing [OF sample_lookup ok, of "''/m/v.bin''" bare_disk] run
    by (simp add: sample_paths sample_bare ensure_model_def sample_lookup)
qed

section \<open>Bounds\<close>

text \<open>A download writes no more than the hard ceiling: whatever length the server announces and
  whatever it sends, the partial file never exceeds six GiB by more than one buffer, a finished file
  has at most that ceiling and at most the announced length plus the grace, and a failure leaves the
  file that was at the destination.\<close>

theorem download_bounded:
  assumes "download me url p w = (r, w')" and "partial_path p \<noteq> p"
  shows "only (download_paths p) w w' \<and>
    (case r of
       Inr n \<Rightarrow> n \<le> 6 * 2 ^ 30 \<and> file_length p w' = n \<and> dk_nodes w' (partial_path p) = None \<and>
         (\<exists>hr. me_get me (length (dk_requests w)) url = Inr hr \<and>
            (\<exists>t. dk_nodes w' p = Some (DiskFile (hr_body hr) t)) \<and>
            n \<le> (case hr_length hr of None \<Rightarrow> 6 * 2 ^ 30 | Some t \<Rightarrow> t + 2 ^ 20))
     | Inl e \<Rightarrow> dk_nodes w' p = dk_nodes w p \<and>
         (dk_nodes w' (partial_path p) = dk_nodes w (partial_path p) \<or>
          file_length (partial_path p) w' \<le> 6 * 2 ^ 30 + 2 ^ 16))"
proof -
  note spec = download_spec [OF assms]
  have max: "max_model_download_bytes = 6 * 2 ^ 30" "read_buffer = 2 ^ 16"
    by (simp_all add: max_model_download_bytes_def read_buffer_def)
  show ?thesis
  proof (cases r)
    case (Inl e)
    then show ?thesis using spec by (simp add: left_by_def max)
  next
    case (Inr n)
    then obtain hr where "me_get me (length (dk_requests w)) url = Inr hr"
      "\<exists>t. dk_nodes w' p = Some (DiskFile (hr_body hr) t)" "n \<le> download_size_limit (hr_length hr)"
      using spec by (auto simp: fetched_def)
    moreover have "download_size_limit t \<le> (case t of None \<Rightarrow> 6 * 2 ^ 30 | Some t \<Rightarrow> t + 2 ^ 20)" for t
      by (simp add: download_size_limit_def max u64_saturating_add_def download_size_grace_def min.coboundedI1 split: option.splits)
    ultimately show ?thesis
      using spec Inr by (fastforce simp: left_by_def max intro: le_trans)
  qed
qed

lemma download_bounded_witness:
  "\<exists>n w'. download good_me ''https://host/v.bin'' ''/m/v.bin'' bare_disk = (Inr n, w') \<and> n \<le> 6 * 2 ^ 30 \<and>
     dk_nodes w' ''/m/v.partial'' = None"
proof -
  have "me_get good_me (length (dk_requests bare_disk)) url = Inr sample_reply" for url
    by (simp add: good_me_def sample_me_def)
  then obtain n w' where run: "download good_me ''https://host/v.bin'' ''/m/v.bin'' bare_disk = (Inr n, w')"
    using download_ok [OF _ _ _ _ sample_good, of good_me "''/m/v.bin''" bare_disk "''https://host/v.bin''"]
      sample_faults sample_paths(1) sample_bare(3)
    by (auto simp: good_me_def)
  then show ?thesis using download_bounded [OF run] by (simp add: sample_paths)
qed

section \<open>The cache of verified files\<close>

text \<open>A verified model is not read again: after a successful run a further one succeeds at once,
  changes nothing, sends no request and does not depend on the checksum function.\<close>

theorem model_reused:
  assumes "ensure_model me name p w = (Inr q, w')" and "lookup_model name = Inr info"
    and "me_var me ''PANOPS_MODEL'' = None" and "me_var me ''PANOPS_SKIP_MODEL_CHECKSUM'' = None"
    and "partial_path p \<noteq> p" and "sound_at me p (mi_sha256 info) w" and "no_faults me"
    and "\<And>m. me_decode me (me_encode me m) = Some m" and "dk_nodes w (marker_path p) \<noteq> Some DiskDir"
  shows "\<exists>w''. ensure_model (me\<lparr>me_sha256 := h\<rparr>) name p w' = (Inr p, w'') \<and>
    dk_nodes w'' = dk_nodes w' \<and> dk_requests w'' = dk_requests w'"
proof -
  have run: "ensure_file me ''PANOPS_MODEL'' info p w = (Inr q, w')"
    using assms(1,2) by (simp add: ensure_model_def)
  have "vouched me p (mi_sha256 info) w'" by (rule ensure_vouches [OF run assms(3-9)])
  then have "vouched (me\<lparr>me_sha256 := h\<rparr>) p (mi_sha256 info) w'"
    by (simp add: vouched_def stat_of_def marker_at_def cong: option.case_cong disk_node.case_cong)
  moreover have "no_faults (me\<lparr>me_sha256 := h\<rparr>)" using assms(7) by (simp add: no_faults_def)
  ultimately show ?thesis
    using vouched_reuses assms(2) by (fastforce simp: ensure_model_def looked_def)
qed

lemma model_reused_witness:
  "\<exists>w' w''. ensure_model good_me ''ggml-silero-v6.2.0'' ''/m/v.bin'' bare_disk = (Inr ''/m/v.bin'', w') \<and>
     ensure_model (good_me\<lparr>me_sha256 := (\<lambda>b. ''0'')\<rparr>) ''ggml-silero-v6.2.0'' ''/m/v.bin'' w' = (Inr ''/m/v.bin'', w'') \<and>
     dk_nodes w'' = dk_nodes w'"
proof -
  obtain w' where run: "ensure_model good_me ''ggml-silero-v6.2.0'' ''/m/v.bin'' bare_disk = (Inr ''/m/v.bin'', w')"
    using good_run by blast
  have env: "me_var good_me v = None" "me_decode good_me (me_encode good_me m) = Some m" "no_faults good_me" for v m
    by (simp_all add: good_me_def sample_faults) (simp_all add: sample_me_def sample_codec)
  have "sound_at good_me ''/m/v.bin'' h bare_disk" for h
    by (simp add: sound_at_def vouched_def sample_bare)
  then show ?thesis
    using model_reused [OF run sample_lookup env(1,1) _ _ env(3,2)] run
    by (auto simp: sample_paths sample_bare)
qed

section \<open>The models of the diarizer\<close>

lemma split_path_append: "split_on c (a @ c # b) = split_on c a @ split_on c b"
proof (induction a)
  case (Cons x a)
  have "split_on c xs \<noteq> []" for xs by (cases xs) (auto split: list.splits)
  with Cons show ?case by (auto split: list.splits)
qed simp

lemma split_path_single: "c \<notin> set a \<Longrightarrow> split_on c a = [a]"
  by (induction a) auto

lemma file_name_join:
  assumes "CHR ''/'' \<notin> set n" and "n \<noteq> []" "n \<noteq> ''.''" "n \<noteq> ''..''"
  shows "file_name (d @ CHR ''/'' # n) = Some n"
  using assms by (simp add: file_name_def split_path_append split_path_single)

lemma no_slashes_id: "no_slashes (c # s) = c # s" if "c \<noteq> CHR ''/''"
  using that by (simp add: no_slashes_def)

lemma no_name_join: "CHR ''/'' \<notin> set n \<Longrightarrow> no_name (n @ CHR ''/'' # d) = CHR ''/'' # d"
  unfolding no_name_def by (induction n) auto

lemma dir_part_join:
  assumes "CHR ''/'' \<notin> set n" and "n \<noteq> []"
  shows "dir_part (d @ CHR ''/'' # n) = d @ ''/''"
proof -
  obtain c s where n: "rev n = c # s" using assms(2) by (cases "rev n") auto
  have c: "c \<noteq> CHR ''/''" and s: "CHR ''/'' \<notin> set (rev n)"
    using assms(1) n by (metis list.set_intros(1) set_rev) (use assms(1) in simp)
  have "no_slashes (rev (d @ CHR ''/'' # n)) = rev n @ CHR ''/'' # rev d"
    using no_slashes_id [OF c] by (simp add: n)
  then show ?thesis using no_name_join [OF s] by (simp add: dir_part_def)
qed

lemma partial_path_join:
  assumes "CHR ''/'' \<notin> set n" and "n \<noteq> []" "n \<noteq> ''.''" "n \<noteq> ''..''"
  shows "partial_path (d @ CHR ''/'' # n) = d @ CHR ''/'' # name_stem n @ ''.partial''"
  using dir_part_join [OF assms(1,2), of d]
  by (simp add: partial_path_def with_extension_def file_name_join [OF assms] dir_part_def no_slashes_def
      no_name_def Let_def)

definition emb_name :: string where
  "emb_name = ''3dspeaker_speech_eres2net_base_sv_zh-cn_3dspeaker_16k.onnx''"

definition tar_name :: string where
  "tar_name = ''sherpa-onnx-pyannote-segmentation-3-0.tar.bz2''"

lemma names:
  "CHR ''/'' \<notin> set emb_name" "emb_name \<noteq> []" "emb_name \<noteq> ''.''" "emb_name \<noteq> ''..''"
  "name_stem emb_name = ''3dspeaker_speech_eres2net_base_sv_zh-cn_3dspeaker_16k''"
  "CHR ''/'' \<notin> set tar_name" "tar_name \<noteq> []" "tar_name \<noteq> ''.''" "tar_name \<noteq> ''..''"
  "name_stem tar_name = ''sherpa-onnx-pyannote-segmentation-3-0.tar''"
  by (simp_all add: emb_name_def tar_name_def name_stem_def)

lemma data_dir_join: "data_dir me = Inr dir \<Longrightarrow> path_join dir n = dir @ CHR ''/'' # n"
  by (auto simp: data_dir_def path_join_def split: option.splits if_splits)

lemma emb_path:
  assumes "default_diar_emb_path me = Inr emb" and "me_var me ''PANOPS_DIAR_EMB'' = None"
  obtains dir where "data_dir me = Inr dir" "emb = dir @ CHR ''/'' # emb_name"
  using assms data_dir_join [of me]
  by (auto simp: default_diar_emb_path_def var_or_data_path_def emb_name_def map_sum_def split: sum.splits)

lemma emb_apart:
  assumes "default_diar_emb_path me = Inr emb" and "me_var me ''PANOPS_DIAR_EMB'' = None"
  shows "partial_path emb \<noteq> emb"
proof -
  obtain dir where "emb = dir @ CHR ''/'' # emb_name" using emb_path [OF assms] by blast
  then show ?thesis by (simp add: partial_path_join [OF names(1-4)] names(5)) (simp add: emb_name_def)
qed

lemma looked_sound_at: "looked w w' \<Longrightarrow> sound_at me p h w' = sound_at me p h w"
  by (simp add: sound_at_def vouched_def stat_of_def marker_at_def has_hash_def looked_def)

text \<open>The archive of the segmentation model touches no path of the embedding model.\<close>

lemma tar_avoids_emb: "dir @ CHR ''/'' # emb_name \<notin> insert dir (model_paths (dir @ CHR ''/'' # tar_name))"
proof -
  let ?emb = "dir @ CHR ''/'' # emb_name" and ?tar = "dir @ CHR ''/'' # tar_name"
  have "parent_path ?tar \<noteq> Some ?emb"
  proof
    assume "parent_path ?tar = Some ?emb"
    from parent_path_bound [OF this] show False
      by (simp add: dir_part_join [OF names(6,7)]) (simp add: emb_name_def)
  qed
  moreover have "?emb \<noteq> partial_path ?tar"
    unfolding partial_path_join [OF names(6-9)] names(10) by (simp add: emb_name_def)
  moreover have "?emb \<noteq> marker_path ?tar" "?emb \<noteq> ?tar" "?emb \<noteq> dir"
    by (simp_all add: marker_path_def emb_name_def tar_name_def)
  ultimately show ?thesis by (auto simp: model_paths_def download_paths_def)
qed

lemma check_fetched_spec:
  assumes run: "check_fetched me info p existed w = (r, w')"
  shows "only {p, marker_path p} w w' \<and> dk_requests w' = dk_requests w \<and>
    (r = Inr () \<longrightarrow> sound_at me p (mi_sha256 info) w \<longrightarrow> has_hash me p (mi_sha256 info) w')"
proof -
  let ?h = "mi_sha256 info"
  obtain c x where cached: "verification_cache_valid me p ?h w = (c, x)" by fastforce
  then have x: "looked w x" by (rule verification_cache_valid_looks)
  show ?thesis
  proof (cases c)
    case True
    then have "r = Inr ()" "w' = x" "vouched me p ?h w"
      using run cached verification_cache_valid_True [of me p ?h w x] by (auto simp: check_fetched_def)
    then show ?thesis
      using x looked_has_hash [OF x] by (auto simp: sound_at_def looked_only looked_requests)
  next
    case False
    obtain d y where checked: "verify_sha256 me p ?h x = (d, y)" by fastforce
    then have y: "looked w y" using x verify_sha256_looks looked_trans by blast
    show ?thesis
    proof (cases d)
      case (Inl e)
      then have "r = Inl e" "w' = y \<or> w' = snd (remove_file me p y)"
        using run cached False checked by (auto simp: check_fetched_def)
      then show ?thesis
        using y remove_file_snd [of p y me] by (auto simp: looked_def only_def)
    next
      case (Inr u)
      then have w': "w' = mark_verified me p ?h y" using run cached False checked by (simp add: check_fetched_def)
      have "has_hash me p ?h x" using verify_sha256_Inr checked Inr by blast
      then have "has_hash me p ?h w'"
        using looked_has_hash [OF x] looked_has_hash [OF y] mark_verified_has_hash w' by auto
      then show ?thesis
        using y mark_verified_spec [of p y me ?h] w' by (auto simp: looked_def only_def)
    qed
  qed
qed

lemma case_pair_eq: "(case x of (a, w) \<Rightarrow> f a w) = y \<longleftrightarrow> (\<exists>a w. x = (a, w) \<and> f a w = y)"
  by (cases x) auto

lemma case_option_err_eq:
  "(case x of Some e \<Rightarrow> (Inl (g e), v) | None \<Rightarrow> (Inr b, v)) = (Inr a, w) \<longleftrightarrow> x = None \<and> a = b \<and> v = w"
  by (cases x) auto

lemma unpack_spec:
  assumes "unpack me tar dir w = (Inr u, w')" and "\<And>b d. snd (me_untar me dir b d) p = d p"
  shows "dk_nodes w' p = dk_nodes w p"
proof -
  obtain v b x where "open_file me tar w = (Inr (), v)" "read_bytes me tar v = (Inr b, x)"
    and w': "dk_nodes w' = snd (me_untar me dir b (dk_nodes x))"
    using assms(1) unfolding unpack_def try_then_Inr map_err_Inr case_pair_eq case_option_err_eq by fastforce
  then have "dk_nodes x = dk_nodes w" using simple_looks looked_nodes by metis
  then show ?thesis using w' assms(2) by simp
qed

lemma path_exists_True: "path_exists me p w = (True, v) \<Longrightarrow> dk_nodes v p \<noteq> None"
  using path_exists_looks [of me p w True v]
  by (cases "dk_nodes w p")
    (auto simp: path_exists_def looked_def stat_of_def split: prod.splits sum.splits dest!: metadata_Inr)

lemma fetch_segmentation_spec:
  assumes run: "fetch_segmentation me seg w = (Inr u, w')" and dir: "data_dir me = Inr dir"
    and emb: "emb = dir @ CHR ''/'' # emb_name"
    and untar: "\<And>b d. snd (me_untar me dir b d) emb = d emb"
  shows "dk_nodes w' emb = dk_nodes w emb \<and> dk_nodes w' seg \<noteq> None"
proof -
  let ?tar = "dir @ CHR ''/'' # tar_name"
  have tar: "path_join dir ''sherpa-onnx-pyannote-segmentation-3-0.tar.bz2'' = ?tar"
    using data_dir_join [OF dir] by (simp add: tar_name_def)
  have avoid: "emb \<notin> insert dir (model_paths ?tar)" unfolding emb by (rule tar_avoids_emb)
  have apart: "partial_path ?tar \<noteq> ?tar"
    unfolding partial_path_join [OF names(6-9)] names(10) by (simp add: tar_name_def)
  obtain info v1 existed v2 n v3 v4 v5
    where "make_dirs me dir w = (Inr (), v1)" and there: "path_exists me ?tar v1 = (existed, v2)"
      and got: "(if existed then (Inr 0, v2) else try_then (http_client me, v2)
        (\<lambda>u. download_with_fallback me (mi_url info) ?tar)) = (Inr n, v3)"
      and checked: "(if me_var me ''PANOPS_SKIP_MODEL_CHECKSUM'' = None
        then check_fetched me info ?tar existed v3 else (Inr (), v3)) = (Inr (), v4)"
      and unpacked: "unpack me ?tar dir v4 = (Inr (), v5)" and ends: "path_exists me seg v5 = (True, w')"
    using run dir unfolding fetch_segmentation_def try_then_Inr map_err_Inr Let_def case_pair_eq
    by (auto simp: tar cong: if_cong split: bool.splits)
  have "dk_nodes v1 emb = dk_nodes w emb"
    using make_dirs_cases [OF \<open>make_dirs me dir w = (Inr (), v1)\<close>] avoid by (auto simp: looked_def)
  moreover have "dk_nodes v2 emb = dk_nodes v1 emb" using looked_nodes [OF path_exists_looks [OF there]] by simp
  moreover have "dk_nodes v3 emb = dk_nodes v2 emb"
  proof (cases existed)
    case False
    then have "download_with_fallback me (mi_url info) ?tar v2 = (Inr n, v3)"
      using got by (auto simp: try_then_Inr)
    from download_with_fallback_spec [OF this apart] show ?thesis
      using avoid by (auto simp: left_by_def only_def model_paths_def)
  qed (use got in simp)
  moreover have "dk_nodes v4 emb = dk_nodes v3 emb"
  proof (cases "me_var me ''PANOPS_SKIP_MODEL_CHECKSUM'' = None")
    case True
    then have "check_fetched me info ?tar existed v3 = (Inr (), v4)" using checked by simp
    from check_fetched_spec [OF this] show ?thesis
      using avoid by (auto simp: only_def model_paths_def download_paths_def)
  qed (use checked in auto)
  moreover have "dk_nodes v5 emb = dk_nodes v4 emb" by (rule unpack_spec [OF unpacked untar])
  moreover have "dk_nodes w' = dk_nodes v5" by (rule looked_nodes [OF path_exists_looks [OF ends]])
  ultimately show ?thesis using path_exists_True [OF ends] by simp
qed

text \<open>The diarizer gets an embedding model with the registered checksum and a segmentation model
  that is there, when checks are on and the embedding model is at its default place - provided that a
  marker for it is either absent, or true and next to a file that can be inspected. (A marker left by
  a file that is gone is not covered: the fetched file is compared with it before its checksum is.)\<close>

theorem diar_models_verified:
  assumes run: "ensure_diar_models me w = (Inr (seg, emb), w')"
    and on: "me_var me ''PANOPS_SKIP_MODEL_CHECKSUM'' = None" "me_var me ''PANOPS_DIAR_EMB'' = None"
    and info: "lookup_model ''3dspeaker_speech_eres2net_base_sv_zh-cn_3dspeaker_16k'' = Inr info"
    and marker: "marker_at me emb w = None \<or>
        dk_nodes w emb \<noteq> None \<and> me_fault me (dk_ops w) = None \<and> sound_at me emb (mi_sha256 info) w"
    and untar: "\<And>dir b d. snd (me_untar me dir b d) emb = d emb"
  shows "default_diar_emb_path me = Inr emb \<and> default_diar_seg_path me = Inr seg \<and>
    has_hash me emb (mi_sha256 info) w' \<and> dk_nodes w' seg \<noteq> None"
proof -
  let ?h = "mi_sha256 info"
  obtain existed v1 v2 s v3
    where paths: "default_diar_seg_path me = Inr seg" "default_diar_emb_path me = Inr emb"
      and got: "fetch_embedding me info emb w = (Inr existed, v1)"
      and checked: "check_fetched me info emb existed v1 = (Inr (), v2)"
      and there: "path_exists me seg v2 = (s, v3)"
      and ends: "s \<and> w' = v3 \<or> \<not> s \<and> (\<exists>u. fetch_segmentation me seg v3 = (Inr u, w'))"
    using run on info unfolding ensure_diar_models_def try_then_Inr case_pair_eq
    by (auto simp: try_then_Inr split: bool.splits if_splits)
  obtain dir where dir: "data_dir me = Inr dir" "emb = dir @ CHR ''/'' # emb_name"
    using emb_path [OF paths(2) on(2)] .
  note apart = emb_apart [OF paths(2) on(2)]
  obtain b v0 where first: "path_exists me emb w = (b, v0)" by fastforce
  have "sound_at me emb ?h v1"
  proof (cases b)
    case True
    then have "v1 = v0" using got first by (simp add: fetch_embedding_def)
    moreover have "sound_at me emb ?h w" using marker by (auto simp: sound_at_def vouched_def)
    ultimately show ?thesis using looked_sound_at [OF path_exists_looks [OF first]] by simp
  next
    case False
    then have "marker_at me emb w = None"
      using marker first
      by (auto simp: path_exists_def metadata_def disk_op_def split: option.splits disk_node.splits)
    moreover obtain v n x where "make_parent me emb v0 = (Inr (), v)"
      "download_with_fallback me (mi_url info) emb v = (Inr n, v1)"
      using got first False by (auto simp: fetch_embedding_def try_then_Inr split: sum.splits)
    then have "only (download_paths emb) v0 v" "only (download_paths emb) v v1"
      using make_parent_spec [of me emb v0 "Inr ()" v] download_with_fallback_spec [OF _ apart, of me "mi_url info" v "Inr n" v1]
      by (simp_all add: left_by_def)
    then have "only (download_paths emb) w v1"
      using looked_only [OF path_exists_looks [OF first]] only_trans by blast
    then have "dk_nodes v1 (marker_path emb) = dk_nodes w (marker_path emb)"
      using marker_not_downloaded by (simp add: only_def)
    ultimately have "marker_at me emb v1 = None" by (simp add: marker_at_def)
    then show ?thesis by (simp add: sound_at_def vouched_def)
  qed
  then have "has_hash me emb ?h v2" using check_fetched_spec [OF checked] by simp
  moreover have "dk_nodes v3 = dk_nodes v2" by (rule looked_nodes [OF path_exists_looks [OF there]])
  moreover have "dk_nodes w' emb = dk_nodes v3 emb \<and> dk_nodes w' seg \<noteq> None"
  proof (cases s)
    case True
    then show ?thesis using ends there path_exists_True [of me seg v2 v3] by simp
  next
    case False
    then obtain u where "fetch_segmentation me seg v3 = (Inr u, w')" using ends by blast
    then show ?thesis by (rule fetch_segmentation_spec [OF _ dir untar])
  qed
  ultimately show ?thesis using paths by (simp add: has_hash_def)
qed

text \<open>A run on a disk that has both models: the first is checked, nothing is fetched.\<close>

definition home_disk :: disk where
  "home_disk = bare_disk\<lparr>dk_nodes :=
     [''/home/models/3dspeaker_speech_eres2net_base_sv_zh-cn_3dspeaker_16k.onnx'' \<mapsto> DiskFile ''ok'' 7,
      ''/home/models/sherpa-onnx-pyannote-segmentation-3-0/model.onnx'' \<mapsto> DiskFile ''x'' 8]\<rparr>"

definition emb_sha :: "string \<Rightarrow> string" where
  "emb_sha b = (if b = ''ok'' then ''1a331345f04805badbb495c775a6ddffcdd1a732567d5ec8b3d5749e3c7a5e4b'' else ''0'')"

definition home_me :: "(string \<Rightarrow> string option) \<Rightarrow> model_env" where
  "home_me = sample_me (\<lambda>k url. Inr (sample_reply\<lparr>hr_body := ''no''\<rparr>)) emb_sha"

lemma diar_lookup:
  "lookup_model ''3dspeaker_speech_eres2net_base_sv_zh-cn_3dspeaker_16k'' = Inr (diar_models ! 1)"
  by code_simp

lemma home_env:
  "no_faults (home_me var)" "me_var (home_me var) = var" "me_client (home_me var) = None"
  "me_get (home_me var) k url = Inr (sample_reply\<lparr>hr_body := ''no''\<rparr>)"
  "me_sha256 (home_me var) = emb_sha" "me_fault (home_me var) = (\<lambda>k. None)"
  by (simp_all add: home_me_def sample_faults) (simp_all add: sample_me_def)

lemma home_paths:
  "var ''PANOPS_DIAR_SEG'' = None \<Longrightarrow> default_diar_seg_path (home_me var) =
     Inr ''/home/models/sherpa-onnx-pyannote-segmentation-3-0/model.onnx''"
  "var ''PANOPS_DIAR_EMB'' = None \<Longrightarrow> default_diar_emb_path (home_me var) =
     Inr ''/home/models/3dspeaker_speech_eres2net_base_sv_zh-cn_3dspeaker_16k.onnx''"
  by (simp_all add: default_diar_seg_path_def default_diar_emb_path_def var_or_data_path_def home_env
      data_dir_def) (simp_all add: home_me_def sample_me_def path_join_def)

lemma check_present:
  assumes ok: "no_faults me" and right: "has_hash me p (mi_sha256 info) w"
  shows "\<exists>w'. check_fetched me info p existed w = (Inr (), w') \<and> only {p, marker_path p} w w'"
proof -
  let ?h = "mi_sha256 info"
  obtain c x where cached: "verification_cache_valid me p ?h w = (c, x)" by fastforce
  have "has_hash me p ?h x"
    using right looked_has_hash [OF verification_cache_valid_looks [OF cached]] by simp
  then have "\<exists>y. verify_sha256 me p ?h x = (Inr (), y)"
    by (auto simp: has_hash_def verify_sha256_def open_file_def read_bytes_def disk_op_ok [OF ok] tick_def)
  then obtain w' where run: "check_fetched me info p existed w = (Inr (), w')"
    using cached by (cases c) (auto simp: check_fetched_def)
  then show ?thesis using check_fetched_spec [OF run] by blast
qed

lemma home_run:
  "\<exists>w'. ensure_diar_models (home_me (\<lambda>v. None)) home_disk =
     (Inr (''/home/models/sherpa-onnx-pyannote-segmentation-3-0/model.onnx'',
           ''/home/models/3dspeaker_speech_eres2net_base_sv_zh-cn_3dspeaker_16k.onnx''), w')"
proof -
  let ?me = "home_me (\<lambda>v. None)" and ?info = "diar_models ! 1"
  let ?emb = "''/home/models/3dspeaker_speech_eres2net_base_sv_zh-cn_3dspeaker_16k.onnx''"
  let ?seg = "''/home/models/sherpa-onnx-pyannote-segmentation-3-0/model.onnx''"
  note ok = home_env(1) [of "\<lambda>v. None"]
  have "dk_nodes home_disk ?emb = Some (DiskFile ''ok'' 7)" by (simp add: home_disk_def)
  then have there: "path_exists ?me ?emb home_disk = (True, tick home_disk)"
    and right: "has_hash ?me ?emb (mi_sha256 ?info) (tick home_disk)"
    by (simp_all add: path_exists_def metadata_ok [OF ok] stat_of_def has_hash_def home_env emb_sha_def diar_models_def)
  obtain x where x: "check_fetched ?me ?info ?emb True (tick home_disk) = (Inr (), x)"
    "only {?emb, marker_path ?emb} (tick home_disk) x"
    using check_present [OF ok right] by blast
  have "dk_nodes x ?seg = Some (DiskFile ''x'' 8)"
    using x(2) by (simp add: only_def marker_path_def home_disk_def)
  then have "path_exists ?me ?seg x = (True, tick x)"
    by (simp add: path_exists_def metadata_ok [OF ok] stat_of_def)
  then show ?thesis
    using there x(1) by (simp add: ensure_diar_models_def home_paths diar_lookup fetch_embedding_def home_env)
qed

lemma diar_models_verified_witness:
  "\<exists>w'. ensure_diar_models (home_me (\<lambda>v. None)) home_disk =
     (Inr (''/home/models/sherpa-onnx-pyannote-segmentation-3-0/model.onnx'',
           ''/home/models/3dspeaker_speech_eres2net_base_sv_zh-cn_3dspeaker_16k.onnx''), w') \<and>
     has_hash (home_me (\<lambda>v. None)) ''/home/models/3dspeaker_speech_eres2net_base_sv_zh-cn_3dspeaker_16k.onnx''
       (mi_sha256 (diar_models ! 1)) w'"
proof -
  obtain w' where run: "ensure_diar_models (home_me (\<lambda>v. None)) home_disk =
     (Inr (''/home/models/sherpa-onnx-pyannote-segmentation-3-0/model.onnx'',
           ''/home/models/3dspeaker_speech_eres2net_base_sv_zh-cn_3dspeaker_16k.onnx''), w')"
    using home_run by blast
  have "marker_at me ''/home/models/3dspeaker_speech_eres2net_base_sv_zh-cn_3dspeaker_16k.onnx'' home_disk = None" for me
    by (simp add: marker_at_def marker_path_def home_disk_def bare_disk_def)
  moreover have "snd (me_untar (home_me (\<lambda>v. None)) dir b d)
      ''/home/models/3dspeaker_speech_eres2net_base_sv_zh-cn_3dspeaker_16k.onnx'' =
      d ''/home/models/3dspeaker_speech_eres2net_base_sv_zh-cn_3dspeaker_16k.onnx''" for dir b d
    by (simp add: home_me_def sample_me_def)
  ultimately show ?thesis
    using diar_models_verified [OF run _ _ diar_lookup] run by (simp add: home_env)
qed

text \<open>The comment of the function for the diarizer promises that what was just downloaded is always verified.
  With PANOPS_SKIP_MODEL_CHECKSUM set it is not, unlike in the other two: a fetched file with a
  wrong checksum is handed out.\<close>

theorem diar_skip_accepts_fetched:
  "\<exists>w w' seg emb. dk_nodes w emb = None \<and>
     ensure_diar_models (home_me [''PANOPS_SKIP_MODEL_CHECKSUM'' \<mapsto> ''1'']) w = (Inr (seg, emb), w') \<and>
     \<not> has_hash (home_me [''PANOPS_SKIP_MODEL_CHECKSUM'' \<mapsto> ''1'']) emb (mi_sha256 (diar_models ! 1)) w'"
proof -
  let ?var = "[''PANOPS_SKIP_MODEL_CHECKSUM'' \<mapsto> ''1'']"
  let ?me = "home_me ?var" and ?info = "diar_models ! 1"
  let ?emb = "''/home/models/3dspeaker_speech_eres2net_base_sv_zh-cn_3dspeaker_16k.onnx''"
  let ?seg = "''/home/models/sherpa-onnx-pyannote-segmentation-3-0/model.onnx''"
  let ?w = "home_disk\<lparr>dk_nodes := [?seg \<mapsto> DiskFile ''x'' 8]\<rparr>"
  note ok = home_env(1) [of ?var]
  have paths: "partial_path ?emb = ''/home/models/3dspeaker_speech_eres2net_base_sv_zh-cn_3dspeaker_16k.partial''"
    "parent_path ?emb = Some ''/home/models''"
    by code_simp+
  have missing: "path_exists ?me ?emb ?w = (False, tick ?w)"
    by (simp add: path_exists_def metadata_ok [OF ok] stat_of_def)
  have "writable ?emb (tick ?w)" by (simp add: writable_def paths)
  then obtain v where v: "make_parent ?me ?emb (tick ?w) = (Inr (), v)" "writable ?emb v"
    using make_parent_ok [OF ok] by blast
  have "good_answer (sample_reply\<lparr>hr_body := ''no''\<rparr>)"
    using sample_good by (simp add: good_answer_def sample_reply_def)
  then have "serves ?me ''0'' url k" for url k by (simp add: serves_def home_env emb_sha_def)
  then obtain n x where x: "download_with_fallback ?me (mi_url ?info) ?emb v = (Inr n, x)" "has_hash ?me ?emb ''0'' x"
    using download_with_fallback_ok [OF ok _ v(2), where url = "mi_url ?info" and h = "''0''"]
    by (auto simp: paths home_env)
  have apart: "partial_path ?emb \<noteq> ?emb" by (simp add: paths)
  have "left_by ?emb (tick ?w) (Inr n) x"
    using left_by_trans make_parent_spec [OF v(1), THEN conjunct1]
      download_with_fallback_spec [OF x(1) apart, THEN conjunct1] .
  then have "dk_nodes x ?seg = Some (DiskFile ''x'' 8)"
    by (simp add: left_by_def only_def download_paths_def paths)
  then have seg: "path_exists ?me ?seg x = (True, tick x)"
    by (simp add: path_exists_def metadata_ok [OF ok] stat_of_def)
  have "ensure_diar_models ?me ?w = (Inr (?seg, ?emb), tick x)"
    using missing v(1) x(1) seg
    by (simp add: ensure_diar_models_def home_paths diar_lookup fetch_embedding_def home_env http_client_def)
  moreover have "\<not> has_hash ?me ?emb (mi_sha256 ?info) (tick x)"
    using x(2) by (auto simp: has_hash_def diar_models_def)
  moreover have "dk_nodes ?w ?emb = None" by simp
  ultimately show ?thesis by blast
qed

end
