(* ===== verification/Sidecar.thy ===== *)
theory Sidecar
  imports Llm_Port Capture_Port Model_Files
begin

text \<open>
  The client that the three macOS adapters of \<open>panops-mac\<close> share: a child process, spawned when it is
  first needed, that answers one line of JSON-RPC with one line. The operating system is a record of
  functions on a state \<open>'w\<close>, the process one of type \<open>'p\<close>; a read that never returns is \<open>None\<close>, and so is
  then the call. Printing and parsing of JSON text is a parameter. The mutexes are left out (each
  adapter is used by one thread at a time while they are held), as is a response written as an array.
\<close>

section \<open>The operating system\<close>

record ('p, 'w) sidecar_os =
  so_spawn :: "'w \<Rightarrow> (string + 'p) \<times> 'w"
  so_write :: "'p \<Rightarrow> string \<Rightarrow> 'w \<Rightarrow> (string + unit) \<times> 'p \<times> 'w"
  so_read :: "'p \<Rightarrow> 'w \<Rightarrow> ((string + string) \<times> 'p \<times> 'w) option"
  so_kill :: "'p \<Rightarrow> 'w \<Rightarrow> 'w"

record rpc_codec =
  rp_print :: "json \<Rightarrow> string"
  rp_parse :: "string \<Rightarrow> string + json"
  rp_utf8_error :: "string \<Rightarrow> string"
  rp_shape_error :: "string \<Rightarrow> string"

text \<open>A connection is the process and what \<open>BufReader\<close> has read ahead; \<open>None\<close> in the slot means that
  the next call spawns.\<close>

record 'p conn =
  cn_process :: 'p
  cn_buffer :: string

record 'p rpc_client =
  rc_slot :: "'p conn option"
  rc_next_id :: u64

definition new_rpc_client :: "'p rpc_client" where
  "new_rpc_client = \<lparr>rc_slot = None, rc_next_id = 1\<rparr>"

text \<open>How an adapter reports: a failed spawn, a failure of the exchange, an error of the sidecar.\<close>

record 'e rpc_errors =
  rx_spawn :: "string \<Rightarrow> 'e"
  rx_io :: "string \<Rightarrow> 'e"
  rx_code :: "int \<Rightarrow> 'e"

section \<open>Reading a line\<close>

definition max_response_bytes :: u64 where
  "max_response_bytes = 16 * 1024 * 1024"

definition newline_char :: char where
  "newline_char = CHR 0x0A"

definition line_in :: "string \<Rightarrow> string option" where
  "line_in s =
     (if newline_char \<in> set s then Some (takeWhile (\<lambda>c. c \<noteq> newline_char) s @ [newline_char]) else None)"

definition fill_buf ::
  "('p, 'w) sidecar_os \<Rightarrow> 'p conn \<Rightarrow> 'w \<Rightarrow> ((string + string) \<times> 'p conn \<times> 'w) option" where
  "fill_buf os c w =
     (if cn_buffer c \<noteq> [] then Some (Inr (cn_buffer c), c, w)
      else map_option (\<lambda>(r, p, w). (r, \<lparr>cn_process = p, cn_buffer = (case r of Inl e \<Rightarrow> [] | Inr b \<Rightarrow> b)\<rparr>, w))
             (so_read os (cn_process c) w))"

definition consume :: "nat \<Rightarrow> 'p conn \<Rightarrow> 'p conn" where
  "consume n c = c\<lparr>cn_buffer := drop n (cn_buffer c)\<rparr>"

text \<open>\<open>take(limit).read_until(b'\n', &mut buf)\<close>.\<close>

function read_until ::
  "('p, 'w) sidecar_os \<Rightarrow> nat \<Rightarrow> string \<Rightarrow> 'p conn \<Rightarrow> 'w \<Rightarrow> ((string + string) \<times> 'p conn \<times> 'w) option" where
  "read_until os limit buf c w =
     (if limit = 0 then Some (Inr buf, c, w)
      else Option.bind (fill_buf os c w) (\<lambda>(r, c, w).
        case r of
          Inl e \<Rightarrow> Some (Inl e, c, w)
        | Inr available \<Rightarrow>
            if available = [] then Some (Inr buf, c, w)
            else (case line_in (take limit available) of
                    Some line \<Rightarrow> Some (Inr (buf @ line), consume (length line) c, w)
                  | None \<Rightarrow>
                      read_until os (limit - length (take limit available)) (buf @ take limit available)
                        (consume (length (take limit available)) c) w)))"
  by pat_completeness auto

termination
  by (relation "measure (\<lambda>(os, limit, buf, c, w). limit)") (auto simp: min_def)

declare read_until.simps [simp del]

section \<open>Valid UTF-8\<close>

text \<open>\<open>str::from_utf8\<close>: the well-formed byte sequences of the Unicode standard.\<close>

definition byte_in :: "nat \<Rightarrow> nat \<Rightarrow> char \<Rightarrow> bool" where
  "byte_in a b c = (a \<le> byte c \<and> byte c \<le> b)"

fun valid_utf8 :: "string \<Rightarrow> bool" where
  "valid_utf8 [] = True"
| "valid_utf8 (a # s) =
     (if byte a < 0x80 then valid_utf8 s
      else if byte_in 0xC2 0xDF a
      then (case s of b # s \<Rightarrow> byte_in 0x80 0xBF b \<and> valid_utf8 s | _ \<Rightarrow> False)
      else if byte_in 0xE0 0xEF a
      then (case s of b # c # s \<Rightarrow>
              byte_in (if byte a = 0xE0 then 0xA0 else 0x80) (if byte a = 0xED then 0x9F else 0xBF) b \<and>
              byte_in 0x80 0xBF c \<and> valid_utf8 s
            | _ \<Rightarrow> False)
      else if byte_in 0xF0 0xF4 a
      then (case s of b # c # d # s \<Rightarrow>
              byte_in (if byte a = 0xF0 then 0x90 else 0x80) (if byte a = 0xF4 then 0x8F else 0xBF) b \<and>
              byte_in 0x80 0xBF c \<and> byte_in 0x80 0xBF d \<and> valid_utf8 s
            | _ \<Rightarrow> False)
      else False)"

section \<open>Responses\<close>

record rpc_error =
  re_code :: int
  re_message :: string

record 'r rpc_response =
  rr_id :: "u64 option"
  rr_result :: "'r option"
  rr_error :: "rpc_error option"

text \<open>A field of type \<open>Option\<close>: absent or null is none.\<close>

definition optional :: "string \<Rightarrow> (json \<Rightarrow> 'a option) \<Rightarrow> json \<Rightarrow> 'a option option" where
  "optional k read j =
     (case json_get k j of
        None \<Rightarrow> Some None
      | Some v \<Rightarrow> if v = JNull then Some None else map_option Some (read v))"

definition as_int :: "int \<Rightarrow> int \<Rightarrow> json \<Rightarrow> int option" where
  "as_int lo hi j = (case j of JNumber n \<Rightarrow> if lo \<le> n \<and> n \<le> hi then Some n else None | _ \<Rightarrow> None)"

definition as_u64 :: "json \<Rightarrow> u64 option" where
  "as_u64 j = map_option nat (as_int 0 (int u64_max) j)"

definition as_bool :: "json \<Rightarrow> bool option" where
  "as_bool j = (case j of JBool b \<Rightarrow> Some b | _ \<Rightarrow> None)"

definition is_object :: "json \<Rightarrow> bool" where
  "is_object j = (as_object j \<noteq> None)"

definition rpc_error_of_json :: "json \<Rightarrow> rpc_error option" where
  "rpc_error_of_json j =
     Option.bind (Option.bind (json_get ''code'' j) (as_int (- (2 ^ 31)) (2 ^ 31 - 1))) (\<lambda>code.
     Option.bind (get_str ''message'' j) (\<lambda>message.
       Some \<lparr>re_code = code, re_message = message\<rparr>))"

definition rpc_of_json :: "(json \<Rightarrow> 'r option) \<Rightarrow> json \<Rightarrow> 'r rpc_response option" where
  "rpc_of_json read j =
     (if is_object j \<and> get_str ''jsonrpc'' j = Some ''2.0''
      then Option.bind (optional ''id'' as_u64 j) (\<lambda>i.
           Option.bind (optional ''result'' read j) (\<lambda>r.
           Option.bind (optional ''error'' rpc_error_of_json j) (\<lambda>e.
             Some \<lparr>rr_id = i, rr_result = r, rr_error = e\<rparr>)))
      else None)"

text \<open>
  What a client makes of the bytes it read, with \<open>True\<close> when it keeps the process: the line is
  complete, or the response belongs to the request.
\<close>

definition code_detail :: "rpc_error option \<Rightarrow> string" where
  "code_detail e =
     (case e of None \<Rightarrow> []
      | Some e \<Rightarrow> '' (sidecar code '' @ (if re_code e < 0 then ''-'' else []) @ dec (nat \<bar>re_code e\<bar>) @ '')'')"

definition judge_response :: "'e rpc_errors \<Rightarrow> u64 \<Rightarrow> 'r rpc_response \<Rightarrow> bool \<times> ('e + 'r)" where
  "judge_response ex i resp =
     (case rr_id resp of
        Some j \<Rightarrow>
          if j = i
          then (True, case rr_error resp of
                        Some e \<Rightarrow> Inl (rx_code ex (re_code e))
                      | None \<Rightarrow> (case rr_result resp of
                                   Some r \<Rightarrow> Inr r
                                 | None \<Rightarrow> Inl (rx_io ex ''response missing result'')))
          else (False, Inl (rx_io ex (''JSON-RPC id mismatch: expected '' @ dec i @ '', got '' @ dec j)))
      | None \<Rightarrow> (False, Inl (rx_io ex (''sidecar returned null id'' @ code_detail (rr_error resp)))))"

definition unfinished_line :: "string \<Rightarrow> string" where
  "unfinished_line buf =
     (if length buf \<ge> max_response_bytes
      then ''sidecar response exceeded '' @ dec max_response_bytes @ '' bytes without newline''
      else ''sidecar response truncated at '' @ dec (length buf) @ '' bytes (EOF mid-line)'')"

definition judge_line ::
  "rpc_codec \<Rightarrow> 'e rpc_errors \<Rightarrow> (json \<Rightarrow> 'r option) \<Rightarrow> u64 \<Rightarrow> string \<Rightarrow> bool \<times> ('e + 'r)" where
  "judge_line cx ex read i buf =
     (if buf = [] then (False, Inl (rx_io ex ''sidecar exited before responding''))
      else if last buf \<noteq> newline_char then (False, Inl (rx_io ex (unfinished_line buf)))
      else if \<not> valid_utf8 buf then (True, Inl (rx_io ex (''response not utf-8: '' @ rp_utf8_error cx buf)))
      else (case rp_parse cx (trim_end buf) of
              Inl e \<Rightarrow> (False, Inl (rx_io ex (''decode: '' @ e)))
            | Inr j \<Rightarrow>
                (case rpc_of_json read j of
                   None \<Rightarrow> (False, Inl (rx_io ex (''decode: '' @ rp_shape_error cx buf)))
                 | Some resp \<Rightarrow> judge_response ex i resp)))"

section \<open>A call\<close>

datatype read_failure = ReadTimedOut string | ReadFailed string

fun read_failure_text :: "read_failure \<Rightarrow> string" where
  "read_failure_text (ReadTimedOut m) = m"
| "read_failure_text (ReadFailed e) = ''stdio read: '' @ e"

definition ensure_spawned ::
  "('p, 'w) sidecar_os \<Rightarrow> 'e rpc_errors \<Rightarrow> 'p rpc_client \<Rightarrow> 'w \<Rightarrow> ('e + 'p conn) \<times> 'w" where
  "ensure_spawned os ex cl w =
     (case rc_slot cl of
        Some c \<Rightarrow> (Inr c, w)
      | None \<Rightarrow>
          (case so_spawn os w of
             (Inl e, w) \<Rightarrow> (Inl (rx_spawn ex e), w)
           | (Inr p, w) \<Rightarrow> (Inr \<lparr>cn_process = p, cn_buffer = []\<rparr>, w)))"

definition send_line :: "('p, 'w) sidecar_os \<Rightarrow> string \<Rightarrow> 'p \<Rightarrow> 'w \<Rightarrow> (string + unit) \<times> 'p \<times> 'w" where
  "send_line os body p w =
     (case so_write os p body w of
        (Inl e, p, w) \<Rightarrow> (Inl e, p, w)
      | (Inr u, p, w) \<Rightarrow> so_write os p [newline_char] w)"

definition request_json :: "u64 \<Rightarrow> string \<Rightarrow> json \<Rightarrow> json" where
  "request_json i method params =
     JObject [(''jsonrpc'', JString ''2.0''), (''id'', JNumber (int i)), (''method'', JString method), (''params'', params)]"

text \<open>\<open>rd\<close> reads a line; the wire and the process are dropped on every failure that may have lost the
  framing.\<close>

definition rpc_call ::
  "('p, 'w) sidecar_os \<Rightarrow> rpc_codec \<Rightarrow> 'e rpc_errors \<Rightarrow>
   ('p conn \<Rightarrow> 'w \<Rightarrow> ((read_failure + string) \<times> 'p conn \<times> 'w) option) \<Rightarrow>
   (json \<Rightarrow> 'r option) \<Rightarrow> string \<Rightarrow> json \<Rightarrow> 'p rpc_client \<Rightarrow> 'w \<Rightarrow> (('e + 'r) \<times> 'p rpc_client \<times> 'w) option" where
  "rpc_call os cx ex rd read method params cl w =
     (case ensure_spawned os ex cl w of
        (Inl e, w) \<Rightarrow> Some (Inl e, cl, w)
      | (Inr c, w) \<Rightarrow>
          (let i = rc_next_id cl;
               gone = \<lparr>rc_slot = None, rc_next_id = u64_add i 1\<rparr>
           in case send_line os (rp_print cx (request_json i method params)) (cn_process c) w of
                (Inl e, p, w) \<Rightarrow> Some (Inl (rx_io ex (''stdio write: '' @ e)), gone, so_kill os p w)
              | (Inr u, p, w) \<Rightarrow>
                  map_option (\<lambda>(r, c, w).
                    (case r of
                       Inl f \<Rightarrow> (Inl (rx_io ex (read_failure_text f)), gone, so_kill os (cn_process c) w)
                     | Inr buf \<Rightarrow>
                         (case judge_line cx ex read i buf of
                            (True, v) \<Rightarrow> (v, gone\<lparr>rc_slot := Some c\<rparr>, w)
                          | (False, v) \<Rightarrow> (v, gone, so_kill os (cn_process c) w))))
                    (rd (c\<lparr>cn_process := p\<rparr>) w)))"

definition read_line_blocking ::
  "('p, 'w) sidecar_os \<Rightarrow> 'p conn \<Rightarrow> 'w \<Rightarrow> ((read_failure + string) \<times> 'p conn \<times> 'w) option" where
  "read_line_blocking os c w =
     map_option (\<lambda>(r, c, w). (case r of Inl e \<Rightarrow> Inl (ReadFailed e) | Inr b \<Rightarrow> Inr b, c, w))
       (read_until os max_response_bytes [] c w)"

end
