(* ===== verification/Language_Sidecars.thy ===== *)
theory Language_Sidecars
  imports Sidecar Protocol
begin

text \<open>
  The other two sidecar clients of \<open>panops-mac\<close>: \<open>whisperkit_asr.rs\<close>, which transcribes, and
  \<open>foundation_llm.rs\<close>, which completes prompts and reads its answers with a deadline, so that a wedged
  process cannot keep the server from starting.
\<close>

section \<open>WhisperKit\<close>

definition asr_rpc_errors :: "asr_error rpc_errors" where
  "asr_rpc_errors =
     \<lparr>rx_spawn = (\<lambda>e. AsrModel (''sidecar spawn: '' @ e)), rx_io = AsrTranscription,
       rx_code = (\<lambda>c. AsrTranscription (''sidecar error (code '' @ (if c < 0 then ''-'' else []) @ dec (nat \<bar>c\<bar>) @ '')''))\<rparr>"

definition transcribe_params :: "string \<Rightarrow> u32 \<Rightarrow> string option \<Rightarrow> json" where
  "transcribe_params wav_path sample_rate hint =
     JObject [(''audio'', JString wav_path), (''sample_rate'', JNumber (int sample_rate)),
       (''language_hint'', case hint of None \<Rightarrow> JNull | Some h \<Rightarrow> JString h)]"

text \<open>\<open>temp_wav\<close> writes the samples to a temporary file and \<open>read\<close> reads a transcript.\<close>

definition whisperkit_transcribe ::
  "('p, 'w) sidecar_os \<Rightarrow> rpc_codec \<Rightarrow> (json \<Rightarrow> transcript option) \<Rightarrow>
   (f32 list \<Rightarrow> u32 \<Rightarrow> 'w \<Rightarrow> (asr_error + string) \<times> 'w) \<Rightarrow> (string \<Rightarrow> 'w \<Rightarrow> 'w) \<Rightarrow>
   f32 list \<Rightarrow> u32 \<Rightarrow> string option \<Rightarrow> 'p rpc_client \<Rightarrow> 'w \<Rightarrow> ((asr_error + transcript) \<times> 'p rpc_client \<times> 'w) option" where
  "whisperkit_transcribe os cx read temp_wav drop_wav samples sample_rate hint cl w =
     (case temp_wav samples sample_rate w of
        (Inl e, w) \<Rightarrow> Some (Inl e, cl, w)
      | (Inr path, w) \<Rightarrow>
          map_option (\<lambda>(r, cl, w). (r, cl, drop_wav path w))
            (rpc_call os cx asr_rpc_errors (read_line_blocking os) read ''asr.transcribe''
               (JArray [transcribe_params path sample_rate hint]) cl w))"

section \<open>Reading with a deadline\<close>

datatype fill_event = Filled string | WouldBlock | Interrupted | FillFailed string

datatype poll_event = PollReady | PollInvalid | PollTimedOut | PollInterrupted | PollFailed string

record ('p, 'w) nonblocking =
  nb_setup :: "'p \<Rightarrow> 'w \<Rightarrow> bool \<times> 'w"
  nb_now :: "'w \<Rightarrow> nat \<times> 'w"
  nb_try_read :: "'p \<Rightarrow> 'w \<Rightarrow> fill_event \<times> 'p \<times> 'w"
  nb_poll :: "'p \<Rightarrow> nat \<Rightarrow> 'w \<Rightarrow> poll_event \<times> 'w"

definition probe_response_timeout :: nat where
  "probe_response_timeout = 5"

definition complete_response_timeout :: nat where
  "complete_response_timeout = 120"

definition response_timeout :: "string \<Rightarrow> nat" where
  "response_timeout method =
     (if method = ''probe'' \<or> method = ''llm.probe'' then probe_response_timeout else complete_response_timeout)"

text \<open>Times are in nanoseconds. \<open>poll\<close> is repeated with the same timeout when a signal interrupts it.\<close>

definition timed_out :: read_failure where
  "timed_out = ReadTimedOut ''sidecar response timed out''"

partial_function (option) poll_loop ::
  "('p, 'w) nonblocking \<Rightarrow> 'p \<Rightarrow> nat \<Rightarrow> 'w \<Rightarrow> ((read_failure + unit) \<times> 'w) option" where
  "poll_loop nb p ms w =
     (case nb_poll nb p ms w of (ev, w) \<Rightarrow>
       (case ev of
          PollReady \<Rightarrow> Some (Inr (), w)
        | PollInvalid \<Rightarrow> Some (Inl (ReadFailed ''sidecar stdout descriptor invalid''), w)
        | PollTimedOut \<Rightarrow> Some (Inl timed_out, w)
        | PollInterrupted \<Rightarrow> poll_loop nb p ms w
        | PollFailed e \<Rightarrow> Some (Inl (ReadFailed e), w)))"

definition wait_readable ::
  "('p, 'w) nonblocking \<Rightarrow> 'p \<Rightarrow> nat \<Rightarrow> 'w \<Rightarrow> ((read_failure + unit) \<times> 'w) option" where
  "wait_readable nb p deadline w =
     (case nb_now nb w of (now, w) \<Rightarrow>
        if now \<ge> deadline then Some (Inl timed_out, w)
        else poll_loop nb p (min ((deadline - now) div 10 ^ 6) (2 ^ 31 - 1)) w)"

definition fill_nonblocking ::
  "('p, 'w) nonblocking \<Rightarrow> 'p conn \<Rightarrow> 'w \<Rightarrow> fill_event \<times> 'p conn \<times> 'w" where
  "fill_nonblocking nb c w =
     (if cn_buffer c \<noteq> [] then (Filled (cn_buffer c), c, w)
      else (case nb_try_read nb (cn_process c) w of
              (Filled b, p, w) \<Rightarrow> (Filled b, \<lparr>cn_process = p, cn_buffer = b\<rparr>, w)
            | (ev, p, w) \<Rightarrow> (ev, \<lparr>cn_process = p, cn_buffer = []\<rparr>, w)))"

definition next_part :: "string \<Rightarrow> string" where
  "next_part available = (case line_in available of Some line \<Rightarrow> line | None \<Rightarrow> available)"

partial_function (option) read_response_line ::
  "('p, 'w) nonblocking \<Rightarrow> nat \<Rightarrow> string \<Rightarrow> 'p conn \<Rightarrow> 'w \<Rightarrow> ((read_failure + string) \<times> 'p conn \<times> 'w) option" where
  "read_response_line nb deadline buf c w =
     (case fill_nonblocking nb c w of (ev, c, w) \<Rightarrow>
       (case ev of
          Filled available \<Rightarrow>
            if available = [] then Some (Inr buf, c, w)
            else if max_response_bytes \<le> length (buf @ next_part available) \<or>
                    last (buf @ next_part available) = newline_char
            then Some (Inr (buf @ next_part available), consume (length (next_part available)) c, w)
            else read_response_line nb deadline (buf @ next_part available)
                   (consume (length (next_part available)) c) w
        | WouldBlock \<Rightarrow>
            Option.bind (wait_readable nb (cn_process c) deadline w) (\<lambda>(r, w).
              case r of
                Inl f \<Rightarrow> Some (Inl f, c, w)
              | Inr u \<Rightarrow> read_response_line nb deadline buf c w)
        | Interrupted \<Rightarrow> read_response_line nb deadline buf c w
        | FillFailed e \<Rightarrow> Some (Inl (ReadFailed e), c, w)))"

definition read_line_deadline ::
  "('p, 'w) nonblocking \<Rightarrow> string \<Rightarrow> 'p conn \<Rightarrow> 'w \<Rightarrow> ((read_failure + string) \<times> 'p conn \<times> 'w) option" where
  "read_line_deadline nb method c w =
     (case nb_now nb w of (now, w) \<Rightarrow>
        map_option (\<lambda>(r, c, w).
          (case r of
             Inl (ReadTimedOut m) \<Rightarrow>
               Inl (ReadTimedOut (''sidecar response timed out after '' @ dec (response_timeout method) @ ''s''))
           | _ \<Rightarrow> r, c, w))
          (read_response_line nb (now + response_timeout method * 10 ^ 9) [] c w))"

section \<open>FoundationModels\<close>

text \<open>
  A code reported by the sidecar becomes a schema error, an empty response or a provider error. The
  pipe of a new process is made non-blocking.
\<close>

definition foundation_code :: "int \<Rightarrow> llm_error" where
  "foundation_code c =
     (let text = ''sidecar error (code '' @ (if c < 0 then ''-'' else []) @ dec (nat \<bar>c\<bar>) @ '')''
      in if c = -32001 \<or> c = -32602
         then LlmInvalidSchema ''valid JSON Schema convertible to FoundationModels'' text
         else if c = -32002 then LlmEmptyResponse
         else LlmProviderError text)"

definition foundation_errors :: "llm_error rpc_errors" where
  "foundation_errors =
     \<lparr>rx_spawn = LlmProviderError, rx_io = LlmProviderError, rx_code = foundation_code\<rparr>"

definition spawn_nonblocking :: "('p, 'w) sidecar_os \<Rightarrow> ('p, 'w) nonblocking \<Rightarrow> 'w \<Rightarrow> (string + 'p) \<times> 'w" where
  "spawn_nonblocking os nb w =
     (case so_spawn os w of
        (Inl e, w) \<Rightarrow> (Inl ''sidecar spawn failed'', w)
      | (Inr p, w) \<Rightarrow>
          (case nb_setup nb p w of (ok, w) \<Rightarrow> (if ok then Inr p else Inl ''sidecar setup failed'', w)))"

definition foundation_call ::
  "('p, 'w) sidecar_os \<Rightarrow> ('p, 'w) nonblocking \<Rightarrow> rpc_codec \<Rightarrow> (json \<Rightarrow> 'r option) \<Rightarrow> string \<Rightarrow> json \<Rightarrow> 'p rpc_client \<Rightarrow> 'w \<Rightarrow>
   ((llm_error + 'r) \<times> 'p rpc_client \<times> 'w) option" where
  "foundation_call os nb cx read method =
     rpc_call (os\<lparr>so_spawn := spawn_nonblocking os nb\<rparr>) cx foundation_errors (read_line_deadline nb method) read method"

record probe_result =
  pr_available :: bool
  pr_reason :: "string option"

definition probe_of_json :: "json \<Rightarrow> probe_result option" where
  "probe_of_json j =
     Option.bind (Option.bind (json_get ''available'' j) as_bool) (\<lambda>a.
     Option.bind (optional ''reason'' as_str j) (\<lambda>r. Some \<lparr>pr_available = a, pr_reason = r\<rparr>))"

definition foundation_probe ::
  "('p, 'w) sidecar_os \<Rightarrow> ('p, 'w) nonblocking \<Rightarrow> rpc_codec \<Rightarrow> 'p rpc_client \<Rightarrow> 'w \<Rightarrow>
   ((llm_error + probe_result) \<times> 'p rpc_client \<times> 'w) option" where
  "foundation_probe os nb cx = foundation_call os nb cx probe_of_json ''probe'' (JObject [])"

definition complete_params :: "(f32 \<Rightarrow> json) \<Rightarrow> llm_request \<Rightarrow> json" where
  "complete_params f32_json req =
     JObject
       ((case req_system req of None \<Rightarrow> [] | Some s \<Rightarrow> [(''system'', JString s)]) @
        [(''user'', JString (req_user req))] @
        (case req_schema req of None \<Rightarrow> [] | Some v \<Rightarrow> [(''schema'', v)]) @
        [(''temperature'', f32_json (req_temperature req)), (''max_tokens'', JNumber (int (req_max_tokens req)))])"

definition complete_of_json :: "json \<Rightarrow> (json option \<times> string option) option" where
  "complete_of_json j =
     (if \<not> is_object j then None else
      Option.bind (optional ''text'' as_str j) (\<lambda>t.
      Option.bind (optional ''json'' Some j) (\<lambda>v. Some (v, t))))"

fun completion :: "json option \<times> string option \<Rightarrow> llm_result" where
  "completion (Some v, t) = Inr (LlmJson v)"
| "completion (None, Some s) = (if s \<noteq> [] then Inr (LlmText s) else Inl LlmEmptyResponse)"
| "completion (None, None) = Inl LlmEmptyResponse"

definition foundation_complete ::
  "('p, 'w) sidecar_os \<Rightarrow> ('p, 'w) nonblocking \<Rightarrow> rpc_codec \<Rightarrow> (f32 \<Rightarrow> json) \<Rightarrow> llm_request \<Rightarrow> 'p rpc_client \<Rightarrow> 'w \<Rightarrow>
   (llm_result \<times> 'p rpc_client \<times> 'w) option" where
  "foundation_complete os nb cx f32_json req cl w =
     map_option (\<lambda>(r, cl, w). (case r of Inl e \<Rightarrow> Inl e | Inr x \<Rightarrow> completion x, cl, w))
       (foundation_call os nb cx complete_of_json ''complete'' (complete_params f32_json req) cl w)"

section \<open>Choosing a provider\<close>

text \<open>
  \<open>sidecar_binary.rs\<close> and the resolvers of \<open>panops-engine\<close>. \<open>canonical\<close> is \<open>fs::canonicalize\<close> and
  \<open>meta\<close> says of a path whether it is a regular file, and its permission bits.
\<close>

record exec_env =
  xe_canonical :: "string \<Rightarrow> string option"
  xe_meta :: "string \<Rightarrow> (bool \<times> nat) option"
  xe_current_exe :: "string option"
  xe_macos :: bool

definition any_execute_bit :: "nat \<Rightarrow> bool" where
  "any_execute_bit mode = (odd mode \<or> odd (mode div 8) \<or> odd (mode div 64))"

definition executable_file :: "exec_env \<Rightarrow> string \<Rightarrow> string option" where
  "executable_file xe p =
     Option.bind (xe_canonical xe p) (\<lambda>p.
     Option.bind (xe_meta xe p) (\<lambda>(is_file, mode).
       if \<not> is_file then None else if \<not> any_execute_bit mode then None else Some p))"

definition sibling_in_dir :: "exec_env \<Rightarrow> string \<Rightarrow> string \<Rightarrow> string option" where
  "sibling_in_dir xe dir name = executable_file xe (path_join dir name)"

definition sibling_of_engine :: "exec_env \<Rightarrow> string \<Rightarrow> string option" where
  "sibling_of_engine xe name =
     Option.bind (Option.bind (xe_current_exe xe) (xe_canonical xe)) (\<lambda>exe.
     Option.bind (parent_path exe) (\<lambda>dir. sibling_in_dir xe dir name))"

definition or_else :: "'a option \<Rightarrow> 'a option \<Rightarrow> 'a option" where
  "or_else x y = (case x of None \<Rightarrow> y | Some a \<Rightarrow> Some a)"

definition resolve_sidecar :: "exec_env \<Rightarrow> string option \<Rightarrow> string \<Rightarrow> string option" where
  "resolve_sidecar xe var name =
     (if xe_macos xe then or_else (Option.bind var (executable_file xe)) (sibling_of_engine xe name) else None)"

datatype llm_choice = Foundation string | Genai string

text \<open>\<open>os_of\<close> is the operating system for a given binary; the probe may never return.\<close>

definition pick_llm ::
  "exec_env \<Rightarrow> (string \<Rightarrow> ('p, 'w) sidecar_os) \<Rightarrow> ('p, 'w) nonblocking \<Rightarrow> rpc_codec \<Rightarrow> string option \<Rightarrow> 'w \<Rightarrow>
   (llm_choice \<times> llm_info \<times> 'w) option" where
  "pick_llm xe os_of nb cx sidecar w =
     (case resolve_sidecar xe sidecar ''panops-llm-mac'' of
        None \<Rightarrow> Some (Genai ''gemma3:4b'', local_ollama, w)
      | Some bin \<Rightarrow>
          map_option (\<lambda>(r, cl, w).
            (case r of
               Inr probe \<Rightarrow> if pr_available probe then (Foundation bin, apple_foundation, w)
                           else (Genai ''gemma3:4b'', local_ollama, w)
             | Inl e \<Rightarrow> (Genai ''gemma3:4b'', local_ollama, w)))
            (foundation_probe (os_of bin) nb cx new_rpc_client w))"

definition foundation_llm_explicit :: "exec_env \<Rightarrow> string option \<Rightarrow> string + string" where
  "foundation_llm_explicit xe sidecar =
     (case sidecar of
        None \<Rightarrow> Inl (''--llm-provider foundation requires PANOPS_LLM_SIDECAR_BIN to point at an '' @
                     ''executable panops-llm-mac sidecar; it is not set'')
      | Some raw \<Rightarrow>
          (case executable_file xe raw of
             None \<Rightarrow> Inl (''--llm-provider foundation: PANOPS_LLM_SIDECAR_BIN ('' @ raw @ '') is not an executable file'')
           | Some bin \<Rightarrow> Inr bin))"

datatype asr_choice = WhisperKit string | WhisperRs string

text \<open>\<open>load\<close> loads a whisper.cpp model.\<close>

definition pick_asr :: "exec_env \<Rightarrow> string option \<Rightarrow> (string \<Rightarrow> asr_error option) \<Rightarrow> string \<Rightarrow> asr_error + asr_choice" where
  "pick_asr xe var load model_path =
     (case resolve_sidecar xe var ''panops-asr-mac'' of
        Some bin \<Rightarrow> Inr (WhisperKit bin)
      | None \<Rightarrow> (case load model_path of Some e \<Rightarrow> Inl e | None \<Rightarrow> Inr (WhisperRs model_path)))"

datatype capture_choice = ScreenCaptureKit string | FakeCapture | NoCapture

definition pick_capture :: "exec_env \<Rightarrow> string option \<Rightarrow> string option \<Rightarrow> capture_choice" where
  "pick_capture xe var test_var =
     (case resolve_sidecar xe var ''panops-capture-mac'' of
        Some bin \<Rightarrow> ScreenCaptureKit bin
      | None \<Rightarrow> if test_var = Some ''1'' then FakeCapture else NoCapture)"

end
