(* ===== verification/Capture_Sidecar.thy ===== *)
theory Capture_Sidecar
  imports Sidecar
begin

text \<open>
  \<open>panops-mac/src/screencapturekit_capture.rs\<close>, the capture adapter that drives a sidecar process, and
  \<open>panops-mac/src/bin/fake_capture_sidecar.rs\<close>, the process that the conformance suite runs it
  against.
\<close>

section \<open>The adapter\<close>

definition map_sidecar_error :: "int \<Rightarrow> capture_error" where
  "map_sidecar_error code =
     (if code = -32001 then PermissionDenied ''screen recording''
      else if code = -32002 then PermissionDenied ''microphone''
      else if code = -32004 then SessionNotFound ''sidecar reported unknown session''
      else CaptureSidecar (''sidecar error (code '' @ (if code < 0 then ''-'' else []) @ dec (nat \<bar>code\<bar>) @ '')''))"

definition capture_rpc_errors :: "capture_error rpc_errors" where
  "capture_rpc_errors =
     \<lparr>rx_spawn = (\<lambda>e. CaptureSidecar (''sidecar spawn: '' @ e)), rx_io = CaptureSidecar,
       rx_code = map_sidecar_error\<rparr>"

definition track_paths :: "string \<Rightarrow> audio_sources \<Rightarrow> string option \<times> string option" where
  "track_paths dir sources =
     (if wants_system sources then Some (path_join dir ''system.wav'') else None,
      if wants_mic sources then Some (path_join dir ''mic.wav'') else None)"

fun audio_sources_str :: "audio_sources \<Rightarrow> string" where
  "audio_sources_str SystemOnly = ''system_only''"
| "audio_sources_str MicOnly = ''mic_only''"
| "audio_sources_str SystemAndMic = ''system_and_mic''"

definition json_nat :: "nat \<Rightarrow> json" where
  "json_nat n = JNumber (int n)"

definition json_opt :: "('a \<Rightarrow> json) \<Rightarrow> 'a option \<Rightarrow> json" where
  "json_opt f x = (case x of None \<Rightarrow> JNull | Some v \<Rightarrow> f v)"

fun capture_target_json :: "capture_target \<Rightarrow> json" where
  "capture_target_json (CtDisplay d) = JObject [(''kind'', JString ''display''), (''display_id'', json_nat d)]"
| "capture_target_json (CtWindow i) = JObject [(''kind'', JString ''window''), (''window_id'', json_nat i)]"
| "capture_target_json (CtApp b) = JObject [(''kind'', JString ''app''), (''bundle_id'', JString b)]"
| "capture_target_json (CtRegion d x y w h) =
     JObject [(''kind'', JString ''region''), (''display_id'', json_nat d), (''x'', json_nat x),
       (''y'', json_nat y), (''w'', json_nat w), (''h'', json_nat h)]"

text \<open>\<open>f32_json\<close> is the JSON number of an \<open>f32\<close>.\<close>

definition capture_start_params :: "(f32 \<Rightarrow> json) \<Rightarrow> string \<Rightarrow> string \<Rightarrow> capture_config \<Rightarrow> json" where
  "capture_start_params f32_json m dir cfg =
     JObject
       ([(''meeting_id'', JString m),
         (''system_audio_path'', json_opt JString (fst (track_paths dir (cc_audio_sources cfg)))),
         (''mic_audio_path'', json_opt JString (snd (track_paths dir (cc_audio_sources cfg)))),
         (''screenshots_dir'', JString (path_join dir ''screenshots'')),
         (''audio_sources'', JString (audio_sources_str (cc_audio_sources cfg))),
         (''record_video'', JBool (cc_record_video cfg)),
         (''video_path'', JString (path_join dir ''recording.mov'')),
         (''screenshot_interval_ms'', json_nat (cc_screenshot_interval_ms cfg)),
         (''screenshot_threshold'', f32_json (cc_screenshot_threshold cfg)),
         (''capture_target'', capture_target_json (cc_capture_target cfg))] @
        (case cc_width cfg of None \<Rightarrow> [] | Some w \<Rightarrow> [(''width'', json_nat w)]) @
        (case cc_height cfg of None \<Rightarrow> [] | Some h \<Rightarrow> [(''height'', json_nat h)]))"

definition capture_stop_params :: "string \<Rightarrow> json" where
  "capture_stop_params m = JObject [(''meeting_id'', JString m)]"

definition started_of_json :: "json \<Rightarrow> u64 option" where
  "started_of_json j = Option.bind (json_get ''started_at_ms'' j) as_u64"

text \<open>A field with \<open>#[serde(default)]\<close>; a null is not a default.\<close>

definition defaulted :: "string \<Rightarrow> (json \<Rightarrow> 'a option) \<Rightarrow> 'a \<Rightarrow> json \<Rightarrow> 'a option" where
  "defaulted k read d j = (case json_get k j of None \<Rightarrow> Some d | Some v \<Rightarrow> read v)"

fun all_strings :: "json list \<Rightarrow> string list option" where
  "all_strings [] = Some []"
| "all_strings (j # js) =
     (case as_str j of None \<Rightarrow> None | Some s \<Rightarrow> map_option (Cons s) (all_strings js))"

definition stop_result_of_json :: "json \<Rightarrow> capture_result option" where
  "stop_result_of_json j =
     (if \<not> is_object j then None else
      Option.bind (optional ''system_audio_path'' as_str j) (\<lambda>sys.
      Option.bind (optional ''mic_audio_path'' as_str j) (\<lambda>mic.
      Option.bind (defaulted ''screenshot_paths'' (\<lambda>v. Option.bind (as_array v) all_strings) [] j) (\<lambda>shots.
      Option.bind (defaulted ''duration_ms'' as_u64 0 j) (\<lambda>ms.
        Some \<lparr>cr_system_audio_path = sys, cr_mic_audio_path = mic, cr_screenshot_paths = shots,
               cr_duration_ms = ms\<rparr>)))))"

record 'p sck_capture =
  sc_client :: "'p rpc_client"
  sc_sessions :: "string set"

definition new_sck_capture :: "'p sck_capture" where
  "new_sck_capture = \<lparr>sc_client = new_rpc_client, sc_sessions = {}\<rparr>"

definition capture_call ::
  "('p, 'w) sidecar_os \<Rightarrow> rpc_codec \<Rightarrow> (json \<Rightarrow> 'r option) \<Rightarrow> string \<Rightarrow> json \<Rightarrow> 'p rpc_client \<Rightarrow> 'w \<Rightarrow>
   ((capture_error + 'r) \<times> 'p rpc_client \<times> 'w) option" where
  "capture_call os cx read method params =
     rpc_call os cx capture_rpc_errors (read_line_blocking os) read method (JArray [params])"

definition sck_start_capture ::
  "('p, 'w) sidecar_os \<Rightarrow> rpc_codec \<Rightarrow> (f32 \<Rightarrow> json) \<Rightarrow> string \<Rightarrow> string \<Rightarrow> capture_config \<Rightarrow> 'p sck_capture \<Rightarrow> 'w \<Rightarrow>
   (capture_session capture_outcome \<times> 'p sck_capture \<times> 'w) option" where
  "sck_start_capture os cx f32_json m dir cfg sc w =
     map_option (\<lambda>(r, cl, w).
       (case r of
          Inl e \<Rightarrow> (Inl e, sc\<lparr>sc_client := cl\<rparr>, w)
        | Inr ms \<Rightarrow>
            (Inr \<lparr>cs_meeting_id = m, cs_started_at_ms = ms, cs_capture_target = cc_capture_target cfg,
                   cs_record_video = cc_record_video cfg,
                   cs_screenshot_interval_ms = cc_screenshot_interval_ms cfg,
                   cs_screenshot_threshold = cc_screenshot_threshold cfg\<rparr>,
             \<lparr>sc_client = cl, sc_sessions = insert m (sc_sessions sc)\<rparr>, w)))
       (capture_call os cx started_of_json ''capture.start'' (capture_start_params f32_json m dir cfg) (sc_client sc) w)"

definition sck_stop_capture ::
  "('p, 'w) sidecar_os \<Rightarrow> rpc_codec \<Rightarrow> capture_session \<Rightarrow> 'p sck_capture \<Rightarrow> 'w \<Rightarrow>
   (capture_result capture_outcome \<times> 'p sck_capture \<times> 'w) option" where
  "sck_stop_capture os cx sess sc w =
     (if cs_meeting_id sess \<notin> sc_sessions sc
      then Some (Inl (SessionNotFound (cs_meeting_id sess)), sc, w)
      else map_option (\<lambda>(r, cl, w).
             (case r of
                Inl e \<Rightarrow> (Inl e, sc\<lparr>sc_client := cl\<rparr>, w)
              | Inr res \<Rightarrow> (Inr res, \<lparr>sc_client = cl, sc_sessions = sc_sessions sc - {cs_meeting_id sess}\<rparr>, w)))
             (capture_call os cx stop_result_of_json ''capture.stop'' (capture_stop_params (cs_meeting_id sess))
               (sc_client sc) w))"

section \<open>Screenshots from a recording\<close>

text \<open>
  \<open>run\<close> is the sidecar in its one-shot mode: a failed spawn, or the status it exits with, what it
  prints and the files it leaves. \<open>float_text\<close> prints an \<open>f32\<close>.
\<close>

datatype one_shot = SpawnFailed string | Exited "string option" string

definition extract_arguments :: "(f32 \<Rightarrow> string) \<Rightarrow> string \<Rightarrow> string \<Rightarrow> u64 \<Rightarrow> f32 \<Rightarrow> string list" where
  "extract_arguments float_text mov out_dir interval threshold =
     [''--extract-screenshots'', mov, out_dir, ''--interval-ms'', dec interval, ''--threshold'', float_text threshold]"

fun extracted_paths :: "json list \<Rightarrow> string list option" where
  "extracted_paths [] = Some []"
| "extracted_paths (j # js) =
     Option.bind (Option.bind (json_get ''timestamp_ms'' j) as_u64) (\<lambda>t.
     Option.bind (get_str ''path'' j) (\<lambda>p. map_option (Cons p) (extracted_paths js)))"

definition extract_screenshots_from_video ::
  "(string list \<Rightarrow> fs \<Rightarrow> one_shot \<times> fs) \<Rightarrow> rpc_codec \<Rightarrow> (f32 \<Rightarrow> string) \<Rightarrow> string \<Rightarrow> string \<Rightarrow> u64 \<Rightarrow> f32 \<Rightarrow> fs \<Rightarrow>
   string list capture_outcome \<times> fs" where
  "extract_screenshots_from_video run cx float_text mov out_dir interval threshold d =
     (case create_dir_all out_dir d of
        Inl e \<Rightarrow> (Inl (CaptureIo (case e of ExportIo m \<Rightarrow> m | _ \<Rightarrow> [])), d)
      | Inr d \<Rightarrow>
          (case run (extract_arguments float_text mov out_dir interval threshold) d of
             (SpawnFailed e, d) \<Rightarrow> (Inl (CaptureSidecar (''extract-screenshots spawn: '' @ e)), d)
           | (Exited (Some status) out, d) \<Rightarrow>
               (Inl (CaptureSidecar (''extract-screenshots exited with status '' @ status)), d)
           | (Exited None out, d) \<Rightarrow>
               (case rp_parse cx out of
                  Inl e \<Rightarrow> (Inl (CaptureSidecar (''extract-screenshots decode: '' @ e)), d)
                | Inr j \<Rightarrow>
                    (case Option.bind (as_array j) extracted_paths of
                       None \<Rightarrow> (Inl (CaptureSidecar (''extract-screenshots decode: '' @ rp_shape_error cx out)), d)
                     | Some ps \<Rightarrow> (Inr ps, d)))))"

section \<open>The fake sidecar\<close>

text \<open>
  A process is alive or has exited, has the bytes of an unfinished input line and the bytes it printed.
  It handles a line when its newline arrives. A panic ends it.
\<close>

record fake_sidecar =
  fk_mode :: string
  fk_alive :: bool
  fk_active :: "json \<times> json \<times> json"
  fk_input :: string
  fk_output :: string

definition no_active :: "json \<times> json \<times> json" where
  "no_active = (JNull, JNull, JNull)"

definition new_fake_sidecar :: "string \<Rightarrow> fake_sidecar" where
  "new_fake_sidecar mode =
     \<lparr>fk_mode = mode, fk_alive = True, fk_active = no_active, fk_input = [], fk_output = []\<rparr>"

text \<open>Indexing a value: null when the key or the element is absent.\<close>

definition at_key :: "json \<Rightarrow> string \<Rightarrow> json" where
  "at_key j k = unwrap_or JNull (json_get k j)"

definition first_element :: "json \<Rightarrow> json" where
  "first_element j = (case as_array j of Some (x # xs) \<Rightarrow> x | _ \<Rightarrow> JNull)"

text \<open>\<open>wav\<close> and \<open>mov\<close> are the bytes of the silent track and of the video stub; a write that fails is a
  panic, \<open>None\<close>.\<close>

definition write_track :: "string \<Rightarrow> json \<Rightarrow> fs \<Rightarrow> (json \<times> fs) option" where
  "write_track wav p d =
     (case as_str p of
        None \<Rightarrow> Some (JNull, d)
      | Some path \<Rightarrow> (case fs_write path wav d of Inl e \<Rightarrow> None | Inr d \<Rightarrow> Some (JString path, d)))"

definition write_video :: "string \<Rightarrow> json \<Rightarrow> fs \<Rightarrow> fs option" where
  "write_video mov p d =
     (case as_str p of
        None \<Rightarrow> Some d
      | Some path \<Rightarrow> (case fs_write path mov d of Inl e \<Rightarrow> None | Inr d \<Rightarrow> Some d))"

definition stub_mov :: string where
  "stub_mov = [CHR 0x00, CHR 0x00, CHR 0x00, CHR 0x14] @ ''ftypqt  '' @
     [CHR 0x00, CHR 0x00, CHR 0x00, CHR 0x00] @ ''qt  '' @ [CHR 0x00, CHR 0x00, CHR 0x00, CHR 0x08] @ ''mdat''"

definition send_reply :: "rpc_codec \<Rightarrow> json \<Rightarrow> fake_sidecar \<Rightarrow> fake_sidecar" where
  "send_reply cx j p = p\<lparr>fk_output := fk_output p @ rp_print cx j @ [newline_char]\<rparr>"

definition start_reply :: "json \<Rightarrow> json" where
  "start_reply i = JObject [(''jsonrpc'', JString ''2.0''), (''id'', i),
     (''result'', JObject [(''started_at_ms'', json_nat 1700000000000)])]"

definition unknown_reply :: "json \<Rightarrow> json" where
  "unknown_reply i = JObject [(''jsonrpc'', JString ''2.0''), (''id'', i),
     (''error'', JObject [(''code'', JNumber (-32004)), (''message'', JString ''session not found'')])]"

definition stop_reply :: "json \<Rightarrow> json \<Rightarrow> json \<Rightarrow> json" where
  "stop_reply i sys mic = JObject [(''jsonrpc'', JString ''2.0''), (''id'', i),
     (''result'', JObject [(''system_audio_path'', sys), (''mic_audio_path'', mic),
        (''screenshot_paths'', JArray []), (''duration_ms'', json_nat 1000)])]"

definition fake_start :: "rpc_codec \<Rightarrow> json \<Rightarrow> json \<Rightarrow> fake_sidecar \<Rightarrow> fs \<Rightarrow> fake_sidecar \<times> fs" where
  "fake_start cx i params p d =
     (if fk_mode p = ''drop_pipe'' then (p\<lparr>fk_alive := False\<rparr>, d)
      else
        (send_reply cx (start_reply i)
           (p\<lparr>fk_active := (at_key params ''system_audio_path'', at_key params ''mic_audio_path'',
                 if as_bool (at_key params ''record_video'') = Some True then at_key params ''video_path'' else JNull)\<rparr>),
         d))"

definition fake_stop :: "rpc_codec \<Rightarrow> string \<Rightarrow> json \<Rightarrow> fake_sidecar \<Rightarrow> fs \<Rightarrow> fake_sidecar \<times> fs" where
  "fake_stop cx wav i p d =
     (if fk_mode p = ''unknown_session''
      then (send_reply cx (unknown_reply i) p, d)
      else
        (case fk_active p of (sys, mic, video) \<Rightarrow>
           (let q = p\<lparr>fk_active := no_active\<rparr> in
            case write_video stub_mov video d of
              None \<Rightarrow> (q\<lparr>fk_alive := False\<rparr>, d)
            | Some d \<Rightarrow>
                (case write_track wav sys d of
                   None \<Rightarrow> (q\<lparr>fk_alive := False\<rparr>, d)
                 | Some (s, d) \<Rightarrow>
                     (case write_track wav mic d of
                        None \<Rightarrow> (q\<lparr>fk_alive := False\<rparr>, d)
                      | Some (m, d) \<Rightarrow>
                          (send_reply cx (stop_reply i s m) q, d))))))"

definition fake_line :: "rpc_codec \<Rightarrow> string \<Rightarrow> string \<Rightarrow> fake_sidecar \<Rightarrow> fs \<Rightarrow> fake_sidecar \<times> fs" where
  "fake_line cx wav line p d =
     (if \<not> valid_utf8 line then (p\<lparr>fk_alive := False\<rparr>, d)
      else if trim line = [] then (p, d)
      else (case rp_parse cx (if last line = CHR 0x0D then butlast line else line) of
              Inl e \<Rightarrow> (p, d)
            | Inr req \<Rightarrow>
                (let i = at_key req ''id'';
                     method = unwrap_or [] (as_str (at_key req ''method''));
                     params = first_element (at_key req ''params'')
                 in if method = ''capture.start'' then fake_start cx i params p d
                    else if method = ''capture.stop'' then fake_stop cx wav i p d
                    else (p, d))))"

fun fake_bytes :: "rpc_codec \<Rightarrow> string \<Rightarrow> string \<Rightarrow> fake_sidecar \<Rightarrow> fs \<Rightarrow> fake_sidecar \<times> fs" where
  "fake_bytes cx wav [] p d = (p, d)"
| "fake_bytes cx wav (c # cs) p d =
     (if \<not> fk_alive p then (p, d)
      else if c = newline_char
      then (case fake_line cx wav (fk_input p) (p\<lparr>fk_input := []\<rparr>) d of (p, d) \<Rightarrow> fake_bytes cx wav cs p d)
      else fake_bytes cx wav cs (p\<lparr>fk_input := fk_input p @ [c]\<rparr>) d)"

text \<open>The operating system with this program: a write to a process that has exited breaks the pipe; a
  read takes what was printed, sees the end after the exit, and waits for ever otherwise.\<close>

definition fake_os :: "rpc_codec \<Rightarrow> string \<Rightarrow> string \<Rightarrow> (fake_sidecar, fs) sidecar_os" where
  "fake_os cx wav mode =
     \<lparr>so_spawn = (\<lambda>d. (Inr (new_fake_sidecar mode), d)),
       so_write = (\<lambda>p b d. if fk_alive p
          then (case fake_bytes cx wav b p d of (p, d) \<Rightarrow> (Inr (), p, d))
          else (Inl ''Broken pipe'', p, d)),
       so_read = (\<lambda>p d. if fk_output p \<noteq> [] then Some (Inr (fk_output p), p\<lparr>fk_output := []\<rparr>, d)
          else if fk_alive p then None else Some (Inr [], p, d)),
       so_kill = (\<lambda>p d. d)\<rparr>"

end
