(* ===== verification/Sidecar_Correct.thy ===== *)
theory Sidecar_Correct
  imports Capture_Sidecar
begin

text \<open>
  What the client of a sidecar guarantees for every process: a result belongs to the request it is
  returned for, a line is bounded, a connection whose framing may be lost is not used again. With the
  fake sidecar as the process, a recording brings back the tracks that were asked for.
\<close>

section \<open>Lines\<close>

lemma line_in_Some:
  assumes "line_in s = Some l"
  shows "prefix l s" and "\<exists>t. l = t @ [newline_char] \<and> newline_char \<notin> set t"
proof -
  let ?t = "takeWhile (\<lambda>c. c \<noteq> newline_char) s"
  have l: "l = ?t @ [newline_char]" and s: "newline_char \<in> set s"
    using assms by (simp_all add: line_in_def split: if_splits)
  have "s = ?t @ dropWhile (\<lambda>c. c \<noteq> newline_char) s" by simp
  moreover have "dropWhile (\<lambda>c. c \<noteq> newline_char) s \<noteq> []" using s by (auto simp: dropWhile_eq_Nil_conv)
  moreover from this have "hd (dropWhile (\<lambda>c. c \<noteq> newline_char) s) = newline_char"
    using hd_dropWhile by blast
  ultimately show "prefix l s"
    unfolding l prefix_def by (metis append_Cons append_Nil append_assoc list.collapse)
  have "newline_char \<notin> set ?t" by (auto dest: set_takeWhileD)
  then show "\<exists>t. l = t @ [newline_char] \<and> newline_char \<notin> set t" using l by blast
qed

lemma line_in_complete: "newline_char \<notin> set t \<Longrightarrow> line_in (t @ newline_char # s) = Some (t @ [newline_char])"
  by (simp add: line_in_def takeWhile_append)

lemma line_in_none: "line_in s = None \<longleftrightarrow> newline_char \<notin> set s"
  by (simp add: line_in_def)

text \<open>At most the limit is read, and a newline can only be the last byte.\<close>

lemma read_until_bounded:
  assumes "read_until os limit buf c w = Some (Inr b, c', w')" and "newline_char \<notin> set buf"
  shows "length b \<le> length buf + limit \<and> newline_char \<notin> set (butlast b)"
  using assms
proof (induction os limit buf c w rule: read_until.induct)
  case (1 os limit buf c w)
  show ?case
  proof (cases "limit = 0")
    case True
    then show ?thesis using "1.prems" by (auto simp: read_until.simps [of os 0] dest: in_set_butlastD)
  next
    case False
    obtain r c1 w1 where fill: "fill_buf os c w = Some (r, c1, w1)"
      using "1.prems"(1) False by (auto simp: read_until.simps [of os limit] split: bind_splits)
    obtain a where r: "r = Inr a"
      using "1.prems"(1) False fill by (cases r) (auto simp: read_until.simps [of os limit])
    show ?thesis
    proof (cases "a = []")
      case True
      then show ?thesis
        using "1.prems" False fill r by (auto simp: read_until.simps [of os limit] dest: in_set_butlastD)
    next
      case a: False
      show ?thesis
      proof (cases "line_in (take limit a)")
        case (Some l)
        then have b: "b = buf @ l"
          using "1.prems"(1) False fill r a by (simp add: read_until.simps [of os limit])
        have "length l \<le> limit" using prefix_length_le [OF line_in_Some(1) [OF Some]] by simp
        moreover obtain t where "l = t @ [newline_char]" "newline_char \<notin> set t"
          using line_in_Some(2) [OF Some] by blast
        ultimately show ?thesis using b "1.prems"(2) by (simp add: butlast_append)
      next
        case None
        have rest: "read_until os (limit - length (take limit a)) (buf @ take limit a)
            (consume (length (take limit a)) c1) w1 = Some (Inr b, c', w')"
          using "1.prems"(1) False fill r a None by (simp add: read_until.simps [of os limit])
        have "newline_char \<notin> set (buf @ take limit a)" using None "1.prems"(2) by (simp add: line_in_none)
        from "1.IH" [OF False, of "(r, c1, w1)" r "(c1, w1)" c1 w1 a] rest this show ?thesis
          using fill r a None by auto
      qed
    qed
  qed
qed

section \<open>A call and its answer\<close>

text \<open>The answer to the request \<open>i\<close>, as the wire carries it.\<close>

definition answered :: "rpc_codec \<Rightarrow> (json \<Rightarrow> 'r option) \<Rightarrow> u64 \<Rightarrow> string \<Rightarrow> 'r \<Rightarrow> bool" where
  "answered cx read i line r =
     (\<exists>j resp. last line = newline_char \<and> valid_utf8 line \<and> rp_parse cx (trim_end line) = Inr j \<and>
        get_str ''jsonrpc'' j = Some ''2.0'' \<and> rpc_of_json read j = Some resp \<and>
        rr_id resp = Some i \<and> rr_error resp = None \<and> rr_result resp = Some r)"

lemma judge_line_Inr:
  assumes "judge_line cx ex read i line = (k, Inr r)"
  shows "k \<and> line \<noteq> [] \<and> answered cx read i line r"
proof -
  have line: "line \<noteq> []" "last line = newline_char" "valid_utf8 line"
    using assms by (simp_all add: judge_line_def split: if_splits)
  then obtain j resp where j: "rp_parse cx (trim_end line) = Inr j" "rpc_of_json read j = Some resp"
    and judged: "judge_response ex i resp = (k, Inr r)"
    using assms by (auto simp: judge_line_def split: sum.splits option.splits)
  have "get_str ''jsonrpc'' j = Some ''2.0''" using j(2) by (simp add: rpc_of_json_def split: if_splits)
  moreover have "k \<and> rr_id resp = Some i \<and> rr_error resp = None \<and> rr_result resp = Some r"
    using judged by (auto simp: judge_response_def split: option.splits if_splits)
  ultimately show ?thesis using line j unfolding answered_def by blast
qed

lemma judge_line_dropped:
  assumes "judge_line cx ex read i line = (False, v)"
  shows "\<exists>e. v = Inl (rx_io ex e)"
  using assms
  by (auto simp: judge_line_def judge_response_def split: if_splits sum.splits option.splits)

lemma judge_line_kept:
  assumes "judge_line cx ex read i line = (True, v)"
  shows "line \<noteq> [] \<and> last line = newline_char"
  using assms by (auto simp: judge_line_def split: if_splits)

lemma rpc_call_cases:
  assumes "rpc_call os cx ex rd read method params cl w = Some (v, cl', w')"
  shows "(rc_slot cl = None \<and> cl' = cl \<and> (\<exists>e. v = Inl (rx_spawn ex e))) \<or>
    rc_next_id cl' = u64_add (rc_next_id cl) 1 \<and>
    (rc_slot cl' = None \<and> (\<exists>e. v = Inl (rx_io ex e)) \<or>
     (\<exists>c w0 c' line. rd c w0 = Some (Inr line, c', w') \<and> rc_slot cl' = Some c' \<and>
        judge_line cx ex read (rc_next_id cl) line = (True, v)))"
proof (cases "ensure_spawned os ex cl w")
  case (Pair r w1)
  show ?thesis
  proof (cases r)
    case (Inl e)
    then show ?thesis
      using assms Pair
      by (auto simp: rpc_call_def ensure_spawned_def split: option.splits sum.splits prod.splits)
  next
    case (Inr c)
    obtain x p w2 where sent:
      "send_line os (rp_print cx (request_json (rc_next_id cl) method params)) (cn_process c) w1 = (x, p, w2)"
      by (metis prod_cases3)
    show ?thesis
    proof (cases x)
      case (Inl e)
      then show ?thesis using assms Pair Inr sent by (auto simp: rpc_call_def Let_def)
    next
      case x: (Inr u)
      obtain y c' w3 where got: "rd (c\<lparr>cn_process := p\<rparr>) w2 = Some (y, c', w3)"
        using assms Pair Inr sent x by (auto simp: rpc_call_def Let_def)
      show ?thesis
      proof (cases y)
        case (Inl f)
        then show ?thesis using assms Pair Inr sent x got by (auto simp: rpc_call_def Let_def)
      next
        case y: (Inr line)
        obtain k v' where judged: "judge_line cx ex read (rc_next_id cl) line = (k, v')" by fastforce
        show ?thesis
        proof (cases k)
          case True
          then have "v = v'" "w' = w3" "rc_slot cl' = Some c'" "rc_next_id cl' = u64_add (rc_next_id cl) 1"
            using assms Pair Inr sent x got y judged by (auto simp: rpc_call_def Let_def)
          moreover from this have "rd (c\<lparr>cn_process := p\<rparr>) w2 = Some (Inr line, c', w')"
            "judge_line cx ex read (rc_next_id cl) line = (True, v)"
            using got y judged True by simp_all
          ultimately show ?thesis by blast
        next
          case False
          then have "\<exists>e. v' = Inl (rx_io ex e)" using judged by (simp add: judge_line_dropped)
          then show ?thesis
            using assms Pair Inr sent x got y judged False by (auto simp: rpc_call_def Let_def)
        qed
      qed
    qed
  qed
qed


section \<open>The fake sidecar in the loop\<close>

text \<open>What the theorem needs of the JSON library for one message: it prints as one trimmed line of
  valid UTF-8 below the bound, and parses back.\<close>

definition speaks :: "rpc_codec \<Rightarrow> json \<Rightarrow> bool" where
  "speaks cx j =
     (rp_parse cx (rp_print cx j) = Inr j \<and> newline_char \<notin> set (rp_print cx j) \<and> valid_utf8 (rp_print cx j) \<and>
      trim_end (rp_print cx j @ [newline_char]) = rp_print cx j \<and> trim (rp_print cx j) \<noteq> [] \<and>
      last (rp_print cx j) \<noteq> CHR 0x0D \<and> length (rp_print cx j) < max_response_bytes)"

lemma newline_byte [simp]: "byte newline_char = 10"
  by (simp add: byte_def newline_char_def)

lemma valid_utf8_snoc: "valid_utf8 s \<Longrightarrow> byte c < 0x80 \<Longrightarrow> valid_utf8 (s @ [c])"
proof (induction s rule: valid_utf8.induct)
  case 1
  then show ?case by simp
next
  case (2 a s)
  show ?case
  proof (cases "byte a < 0x80")
    case True
    then show ?thesis using 2 by simp
  next
    case a: False
    then obtain b t where s: "s = b # t" using "2.prems"(1) by (cases s) (auto split: if_splits)
    show ?thesis
    proof (cases "byte_in 0xC2 0xDF a")
      case True
      then show ?thesis using 2 a s by simp
    next
      case b: False
      then obtain e u where t: "t = e # u"
        using "2.prems"(1) a s by (cases t) (auto split: if_splits)
      show ?thesis
      proof (cases "byte_in 0xE0 0xEF a")
        case True
        then show ?thesis using 2 a b s t by simp
      next
        case e: False
        then obtain f v where u: "u = f # v"
          using "2.prems"(1) a b s t by (cases u) (auto split: if_splits)
        then show ?thesis using 2 a b e s t by (simp split: if_splits)
      qed
    qed
  qed
qed

text \<open>A fake sidecar that waits for the next line, with the paths of its session; a client that has it,
  or that has none yet.\<close>

definition waiting :: "string \<Rightarrow> json \<times> json \<times> json \<Rightarrow> fake_sidecar" where
  "waiting mode act = \<lparr>fk_mode = mode, fk_alive = True, fk_active = act, fk_input = [], fk_output = []\<rparr>"

definition idle :: "string \<Rightarrow> json \<times> json \<times> json \<Rightarrow> fake_sidecar rpc_client \<Rightarrow> bool" where
  "idle mode act cl =
     (case rc_slot cl of
        None \<Rightarrow> act = no_active
      | Some c \<Rightarrow> c = \<lparr>cn_process = waiting mode act, cn_buffer = []\<rparr>)"

lemma fake_bytes_plain:
  "fk_alive p \<Longrightarrow> newline_char \<notin> set s \<Longrightarrow> fake_bytes cx wav s p d = (p\<lparr>fk_input := fk_input p @ s\<rparr>, d)"
  by (induction s arbitrary: p) auto

lemma read_until_one:
  assumes "so_read os (cn_process c) w = Some (Inr (s @ [newline_char]), p, w')" and "cn_buffer c = []"
    and "newline_char \<notin> set s" and "length s < limit"
  shows "read_until os limit [] c w = Some (Inr (s @ [newline_char]), \<lparr>cn_process = p, cn_buffer = []\<rparr>, w')"
proof -
  have "take limit (s @ [newline_char]) = s @ [newline_char]" using assms(4) by simp
  then show ?thesis
    using assms(1,2,4) line_in_complete [OF assms(3), of "[]"]
    by (simp add: read_until.simps [of os limit] fill_buf_def consume_def)
qed

lemma fake_read_line:
  assumes "newline_char \<notin> set s" and "length s < max_response_bytes"
    and "fk_output p = s @ [newline_char]"
  shows "read_line_blocking (fake_os cx wav mode) \<lparr>cn_process = p, cn_buffer = []\<rparr> d =
    Some (Inr (s @ [newline_char]), \<lparr>cn_process = p\<lparr>fk_output := []\<rparr>, cn_buffer = []\<rparr>, d)"
proof -
  have "so_read (fake_os cx wav mode) p d = Some (Inr (s @ [newline_char]), p\<lparr>fk_output := []\<rparr>, d)"
    using assms(3) by (simp add: fake_os_def)
  then show ?thesis
    using read_until_one [of "fake_os cx wav mode" "\<lparr>cn_process = p, cn_buffer = []\<rparr>"] assms(1,2)
    by (simp add: read_line_blocking_def)
qed

text \<open>An exchange with the fake: the request line reaches it whole, and what it prints is one line.\<close>

lemma fake_exchange:
  fixes cl :: "fake_sidecar rpc_client" and cx :: rpc_codec
  defines "request \<equiv> (\<lambda>method params. rp_print cx (request_json (rc_next_id cl) method params))"
  assumes idle: "idle mode act cl"
    and req: "newline_char \<notin> set (request method params)"
    and handled: "fake_line cx wav (request method params) (waiting mode act) d =
        ((waiting mode act')\<lparr>fk_output := rp_print cx ans @ [newline_char]\<rparr>, d')"
    and ans: "speaks cx ans"
    and judged: "judge_line cx ex read (rc_next_id cl) (rp_print cx ans @ [newline_char]) = (True, v)"
  shows "rpc_call (fake_os cx wav mode) cx ex (read_line_blocking (fake_os cx wav mode)) read method params cl d =
      Some (v, \<lparr>rc_slot = Some \<lparr>cn_process = waiting mode act', cn_buffer = []\<rparr>,
                rc_next_id = u64_add (rc_next_id cl) 1\<rparr>, d')"
proof -
  let ?os = "fake_os cx wav mode"
  let ?q = "(waiting mode act')\<lparr>fk_output := rp_print cx ans @ [newline_char]\<rparr>"
  have spawned: "ensure_spawned ?os ex cl d = (Inr \<lparr>cn_process = waiting mode act, cn_buffer = []\<rparr>, d)"
    using idle
    by (auto simp: idle_def ensure_spawned_def fake_os_def new_fake_sidecar_def waiting_def split: option.splits)
  have alive: "fk_alive (waiting mode act)" "fk_input (waiting mode act) = []"
    "(waiting mode act)\<lparr>fk_input := []\<rparr> = waiting mode act"
    by (simp_all add: waiting_def)
  have "so_write ?os (waiting mode act) (request method params) d =
      (Inr (), (waiting mode act)\<lparr>fk_input := request method params\<rparr>, d)"
    using fake_bytes_plain [OF alive(1) req] alive by (simp add: fake_os_def)
  moreover have "so_write ?os ((waiting mode act)\<lparr>fk_input := request method params\<rparr>) [newline_char] d = (Inr (), ?q, d')"
    using handled by (simp add: fake_os_def alive)
  ultimately have sent: "send_line ?os (request method params) (waiting mode act) d = (Inr (), ?q, d')"
    by (simp add: send_line_def)
  have "read_line_blocking ?os \<lparr>cn_process = ?q, cn_buffer = []\<rparr> d' =
      Some (Inr (rp_print cx ans @ [newline_char]), \<lparr>cn_process = ?q\<lparr>fk_output := []\<rparr>, cn_buffer = []\<rparr>, d')"
    using ans by (intro fake_read_line) (simp_all add: speaks_def)
  moreover have "?q\<lparr>fk_output := []\<rparr> = waiting mode act'" by (simp add: waiting_def)
  ultimately have got: "read_line_blocking ?os \<lparr>cn_process = ?q, cn_buffer = []\<rparr> d' =
      Some (Inr (rp_print cx ans @ [newline_char]), \<lparr>cn_process = waiting mode act', cn_buffer = []\<rparr>, d')"
    by simp
  show ?thesis
    using spawned sent [unfolded request_def] got judged by (simp add: rpc_call_def Let_def)
qed

lemma judge_line_speaks:
  assumes "speaks cx j" and "rpc_of_json read j = Some resp"
  shows "judge_line cx ex read i (rp_print cx j @ [newline_char]) = judge_response ex i resp"
  using assms valid_utf8_snoc [of "rp_print cx j" newline_char]
  by (simp add: judge_line_def speaks_def)

lemma fake_line_speaks:
  assumes "speaks cx (request_json i method (JArray [params]))"
  shows "fake_line cx wav (rp_print cx (request_json i method (JArray [params]))) p d =
    (if method = ''capture.start'' then fake_start cx (json_nat i) params p d
     else if method = ''capture.stop'' then fake_stop cx wav (json_nat i) p d else (p, d))"
  using assms
  by (auto simp: fake_line_def speaks_def request_json_def at_key_def first_element_def json_nat_def Let_def)

lemma as_u64_nat [simp]: "n \<le> u64_max \<Longrightarrow> as_u64 (json_nat n) = Some n"
  by (simp add: as_u64_def as_int_def json_nat_def)

lemma start_reply_read:
  "i \<le> u64_max \<Longrightarrow> rpc_of_json started_of_json (start_reply (json_nat i)) =
     Some \<lparr>rr_id = Some i, rr_result = Some 1700000000000, rr_error = None\<rparr>"
  by (simp add: rpc_of_json_def start_reply_def is_object_def get_str_def optional_def started_of_json_def u64_max_def)
    (simp add: json_nat_def)

lemma stop_reply_read:
  "i \<le> u64_max \<Longrightarrow> rpc_of_json stop_result_of_json (stop_reply (json_nat i) (json_opt JString s) (json_opt JString m)) =
     Some \<lparr>rr_id = Some i,
       rr_result = Some \<lparr>cr_system_audio_path = s, cr_mic_audio_path = m, cr_screenshot_paths = [], cr_duration_ms = 1000\<rparr>,
       rr_error = None\<rparr>"
  by (cases s; cases m)
    (simp_all add: rpc_of_json_def stop_reply_def is_object_def get_str_def optional_def stop_result_of_json_def
      defaulted_def json_opt_def u64_max_def, simp_all add: json_nat_def)

text \<open>The files of a session, and what the fake makes of its start parameters.\<close>

definition session_files :: "string \<Rightarrow> capture_config \<Rightarrow> string list" where
  "session_files dir cfg =
     (if cc_record_video cfg then [path_join dir ''recording.mov''] else []) @
     (if wants_system (cc_audio_sources cfg) then [path_join dir ''system.wav''] else []) @
     (if wants_mic (cc_audio_sources cfg) then [path_join dir ''mic.wav''] else [])"

definition session_paths :: "string \<Rightarrow> capture_config \<Rightarrow> json \<times> json \<times> json" where
  "session_paths dir cfg =
     (json_opt JString (fst (track_paths dir (cc_audio_sources cfg))),
      json_opt JString (snd (track_paths dir (cc_audio_sources cfg))),
      if cc_record_video cfg then JString (path_join dir ''recording.mov'') else JNull)"

definition session_writes :: "string \<Rightarrow> string \<Rightarrow> capture_config \<Rightarrow> fs \<Rightarrow> fs" where
  "session_writes wav dir cfg d p =
     (if p \<notin> set (session_files dir cfg) then d p
      else Some (FsFile (if p = path_join dir ''recording.mov'' then stub_mov else wav)))"

lemma fake_start_params:
  "mode \<noteq> ''drop_pipe'' \<Longrightarrow>
   fake_start cx i (capture_start_params f32_json m dir cfg) (waiting mode act) d =
     ((waiting mode (session_paths dir cfg))\<lparr>fk_output := rp_print cx (start_reply i) @ [newline_char]\<rparr>, d)"
  by (simp add: fake_start_def waiting_def send_reply_def capture_start_params_def at_key_def session_paths_def as_bool_def)

lemma start_call_fake:
  assumes mode: "mode \<noteq> ''drop_pipe''" and idle: "idle mode act cl" and small: "rc_next_id cl \<le> u64_max"
    and req: "speaks cx (request_json (rc_next_id cl) ''capture.start'' (JArray [capture_start_params f32_json m dir cfg]))"
    and ans: "speaks cx (start_reply (json_nat (rc_next_id cl)))"
  shows "capture_call (fake_os cx wav mode) cx started_of_json ''capture.start'' (capture_start_params f32_json m dir cfg) cl d =
    Some (Inr 1700000000000,
      \<lparr>rc_slot = Some \<lparr>cn_process = waiting mode (session_paths dir cfg), cn_buffer = []\<rparr>,
        rc_next_id = u64_add (rc_next_id cl) 1\<rparr>, d)"
proof -
  let ?i = "rc_next_id cl"
  have "judge_line cx capture_rpc_errors started_of_json ?i (rp_print cx (start_reply (json_nat ?i)) @ [newline_char]) =
      (True, Inr 1700000000000)"
    by (simp add: judge_line_speaks [OF ans start_reply_read [OF small]] judge_response_def)
  note call = fake_exchange [OF idle _ _ ans this]
  have "newline_char \<notin> set (rp_print cx (request_json ?i ''capture.start'' (JArray [capture_start_params f32_json m dir cfg])))"
    using req by (simp add: speaks_def)
  from call [OF this] fake_line_speaks [OF req] fake_start_params [OF mode] show ?thesis
    by (simp add: capture_call_def)
qed

lemma sck_start_fake:
  assumes "mode \<noteq> ''drop_pipe''" and "idle mode act (sc_client sc)"
    and "rc_next_id (sc_client sc) \<le> u64_max"
    and "speaks cx (request_json (rc_next_id (sc_client sc)) ''capture.start''
      (JArray [capture_start_params f32_json m dir cfg]))"
    and "speaks cx (start_reply (json_nat (rc_next_id (sc_client sc))))"
  shows "\<exists>sess sc'. sck_start_capture (fake_os cx wav mode) cx f32_json m dir cfg sc d = Some (Inr sess, sc', d) \<and>
    cs_meeting_id sess = m \<and> idle mode (session_paths dir cfg) (sc_client sc') \<and>
    rc_next_id (sc_client sc') = u64_add (rc_next_id (sc_client sc)) 1 \<and> sc_sessions sc' = insert m (sc_sessions sc)"
  using start_call_fake [OF assms] by (simp add: sck_start_capture_def idle_def)

lemma track_names [simp]:
  "path_join dir ''system.wav'' \<noteq> path_join dir ''mic.wav''" "path_join dir ''mic.wav'' \<noteq> path_join dir ''system.wav''"
  "path_join dir ''recording.mov'' \<noteq> path_join dir ''mic.wav''" "path_join dir ''mic.wav'' \<noteq> path_join dir ''recording.mov''"
  "path_join dir ''recording.mov'' \<noteq> path_join dir ''system.wav''" "path_join dir ''system.wav'' \<noteq> path_join dir ''recording.mov''"
  by (simp_all add: path_join_inj)

lemma fake_stop_session:
  assumes mode: "mode \<noteq> ''unknown_session''"
    and room: "\<And>p. p \<in> set (session_files dir cfg) \<Longrightarrow> d p \<noteq> Some FsDir"
  shows "fake_stop cx wav i (waiting mode (session_paths dir cfg)) d =
     ((waiting mode no_active)\<lparr>fk_output := rp_print cx (stop_reply i (fst (session_paths dir cfg))
        (fst (snd (session_paths dir cfg)))) @ [newline_char]\<rparr>, session_writes wav dir cfg d)"
proof -
  have writes: "session_writes wav dir cfg d =
    (let d = (if cc_record_video cfg then d(path_join dir ''recording.mov'' \<mapsto> FsFile stub_mov) else d);
         d = (if wants_system (cc_audio_sources cfg) then d(path_join dir ''system.wav'' \<mapsto> FsFile wav) else d)
     in if wants_mic (cc_audio_sources cfg) then d(path_join dir ''mic.wav'' \<mapsto> FsFile wav) else d)"
    by (auto simp: session_writes_def session_files_def Let_def fun_eq_iff)
  have free: "cc_record_video cfg \<Longrightarrow> d (path_join dir ''recording.mov'') \<noteq> Some FsDir"
    "wants_system (cc_audio_sources cfg) \<Longrightarrow> d (path_join dir ''system.wav'') \<noteq> Some FsDir"
    "wants_mic (cc_audio_sources cfg) \<Longrightarrow> d (path_join dir ''mic.wav'') \<noteq> Some FsDir"
    using room by (simp_all add: session_files_def)
  have written: "q p \<noteq> Some FsDir \<Longrightarrow> fs_write p b q = Inr (q(p \<mapsto> FsFile b))" for q :: fs and p b
    by (auto simp: fs_write_def split: option.splits fs_node.splits)
  show ?thesis
    unfolding writes
    by (cases "cc_record_video cfg"; cases "wants_system (cc_audio_sources cfg)"; cases "wants_mic (cc_audio_sources cfg)")
      (use mode in \<open>simp_all add: fake_stop_def waiting_def session_paths_def track_paths_def json_opt_def no_active_def
        write_video_def write_track_def written free send_reply_def Let_def\<close>)
qed

lemma sck_stop_fake:
  assumes mode: "mode \<noteq> ''unknown_session''" and idle: "idle mode (session_paths dir cfg) (sc_client sc)"
    and known: "cs_meeting_id sess \<in> sc_sessions sc" and small: "rc_next_id (sc_client sc) \<le> u64_max"
    and room: "\<And>p. p \<in> set (session_files dir cfg) \<Longrightarrow> d p \<noteq> Some FsDir"
    and req: "speaks cx (request_json (rc_next_id (sc_client sc)) ''capture.stop''
      (JArray [capture_stop_params (cs_meeting_id sess)]))"
    and ans: "speaks cx (stop_reply (json_nat (rc_next_id (sc_client sc)))
      (fst (session_paths dir cfg)) (fst (snd (session_paths dir cfg))))"
  shows "\<exists>sc'. sck_stop_capture (fake_os cx wav mode) cx sess sc d =
      Some (Inr \<lparr>cr_system_audio_path = fst (track_paths dir (cc_audio_sources cfg)),
                 cr_mic_audio_path = snd (track_paths dir (cc_audio_sources cfg)),
                 cr_screenshot_paths = [], cr_duration_ms = 1000\<rparr>, sc', session_writes wav dir cfg d) \<and>
    idle mode no_active (sc_client sc') \<and> sc_sessions sc' = sc_sessions sc - {cs_meeting_id sess}"
proof -
  let ?i = "rc_next_id (sc_client sc)" and ?t = "track_paths dir (cc_audio_sources cfg)"
  have ans': "speaks cx (stop_reply (json_nat ?i) (json_opt JString (fst ?t)) (json_opt JString (snd ?t)))"
    using ans by (simp add: session_paths_def)
  have "judge_line cx capture_rpc_errors stop_result_of_json ?i
      (rp_print cx (stop_reply (json_nat ?i) (fst (session_paths dir cfg)) (fst (snd (session_paths dir cfg)))) @ [newline_char]) =
      (True, Inr \<lparr>cr_system_audio_path = fst ?t, cr_mic_audio_path = snd ?t, cr_screenshot_paths = [], cr_duration_ms = 1000\<rparr>)"
    using judge_line_speaks [OF ans' stop_reply_read [OF small], where ex = capture_rpc_errors and i = ?i]
    by (simp add: judge_response_def session_paths_def)
  note call = fake_exchange [OF idle _ _ ans this]
  have "newline_char \<notin> set (rp_print cx (request_json ?i ''capture.stop'' (JArray [capture_stop_params (cs_meeting_id sess)])))"
    using req by (simp add: speaks_def)
  from call [OF this] fake_line_speaks [OF req] fake_stop_session [OF mode room] known show ?thesis
    by (simp add: sck_stop_capture_def capture_call_def idle_def)
qed

definition start_request :: "(f32 \<Rightarrow> json) \<Rightarrow> u64 \<Rightarrow> string \<Rightarrow> string \<Rightarrow> capture_config \<Rightarrow> json" where
  "start_request f32_json i m dir cfg =
     request_json i ''capture.start'' (JArray [capture_start_params f32_json m dir cfg])"

definition stop_request :: "u64 \<Rightarrow> string \<Rightarrow> json" where
  "stop_request i m = request_json i ''capture.stop'' (JArray [capture_stop_params m])"

text \<open>A recording with the adapter and the fake sidecar brings back what was asked for: a started
  capture can be stopped, exactly the requested tracks come back, they and the video are files with
  the right bytes, nothing else on disk changes, and the client is ready for the next session.\<close>

theorem sck_records_requested:
  assumes "mode \<noteq> ''drop_pipe''" and "mode \<noteq> ''unknown_session''" and "idle mode act (sc_client sc)"
    and "rc_next_id (sc_client sc) = i" and "i < u64_max"
    and "\<And>p. p \<in> set (session_files dir cfg) \<Longrightarrow> d p \<noteq> Some FsDir"
    and "speaks cx (start_request f32_json i m dir cfg)" and "speaks cx (start_reply (json_nat i))"
    and "speaks cx (stop_request (Suc i) m)"
    and "speaks cx (stop_reply (json_nat (Suc i)) (fst (session_paths dir cfg)) (fst (snd (session_paths dir cfg))))"
  shows "\<exists>sess sc1 sc2 r.
    sck_start_capture (fake_os cx wav mode) cx f32_json m dir cfg sc d = Some (Inr sess, sc1, d) \<and>
    m \<in> sc_sessions sc1 \<and>
    sck_stop_capture (fake_os cx wav mode) cx sess sc1 d = Some (Inr r, sc2, session_writes wav dir cfg d) \<and>
    (cr_system_audio_path r \<noteq> None \<longleftrightarrow> wants_system (cc_audio_sources cfg)) \<and>
    (cr_mic_audio_path r \<noteq> None \<longleftrightarrow> wants_mic (cc_audio_sources cfg)) \<and>
    (cr_system_audio_path r, cr_mic_audio_path r) = track_paths dir (cc_audio_sources cfg) \<and>
    sc_sessions sc2 = sc_sessions sc - {m} \<and> idle mode no_active (sc_client sc2)"
proof -
  obtain sess sc1 where start: "sck_start_capture (fake_os cx wav mode) cx f32_json m dir cfg sc d = Some (Inr sess, sc1, d)"
    and sess: "cs_meeting_id sess = m" and sc1: "idle mode (session_paths dir cfg) (sc_client sc1)"
      "rc_next_id (sc_client sc1) = u64_add i 1" "sc_sessions sc1 = insert m (sc_sessions sc)"
    using sck_start_fake [OF assms(1,3), of cx f32_json m dir cfg wav d] assms(4,5,7,8) by (auto simp: start_request_def)
  have next_id: "rc_next_id (sc_client sc1) = Suc i"
    using sc1(2) assms(5) u64_add_exact [of i 1] by (simp add: u64_max_def)
  have "Suc i \<le> u64_max" using assms(5) by simp
  then obtain sc2 where "sck_stop_capture (fake_os cx wav mode) cx sess sc1 d =
      Some (Inr \<lparr>cr_system_audio_path = fst (track_paths dir (cc_audio_sources cfg)),
                 cr_mic_audio_path = snd (track_paths dir (cc_audio_sources cfg)),
                 cr_screenshot_paths = [], cr_duration_ms = 1000\<rparr>, sc2, session_writes wav dir cfg d)"
    "idle mode no_active (sc_client sc2)" "sc_sessions sc2 = sc_sessions sc1 - {m}"
    using sck_stop_fake [OF assms(2) sc1(1), of sess d cx wav] sess sc1(3) next_id assms(6,9,10)
    by (auto simp: stop_request_def)
  then show ?thesis
    using start sc1(3) by (auto simp: track_paths_def)
qed

text \<open>A codec for the four messages of one session.\<close>

definition tape_print :: "json \<Rightarrow> string" where
  "tape_print j =
     (if json_get ''method'' j = Some (JString ''capture.start'') then ''a''
      else if json_get ''method'' j = Some (JString ''capture.stop'') then ''b''
      else if json_get ''result'' j = Some (JObject [(''started_at_ms'', json_nat 1700000000000)]) then ''c''
      else ''d'')"

definition tape_config :: capture_config where
  "tape_config = default_capture_config\<lparr>cc_audio_sources := MicOnly\<rparr>"

definition tape_parse :: "string \<Rightarrow> string + json" where
  "tape_parse s =
     (if s = ''a'' then Inr (start_request (\<lambda>x. JNull) 1 ''m'' ''/r'' tape_config)
      else if s = ''b'' then Inr (stop_request 2 ''m'')
      else if s = ''c'' then Inr (start_reply (json_nat 1))
      else Inr (stop_reply (json_nat 2) JNull (JString ''/r/mic.wav'')))"

definition tape_codec :: rpc_codec where
  "tape_codec = \<lparr>rp_print = tape_print, rp_parse = tape_parse, rp_utf8_error = (\<lambda>s. []), rp_shape_error = (\<lambda>s. [])\<rparr>"

lemma tape_letters:
  "trim_end [CHR ''a'', CHR 0x0A] = ''a''" "trim_end [CHR ''b'', CHR 0x0A] = ''b''"
  "trim_end [CHR ''c'', CHR 0x0A] = ''c''" "trim_end [CHR ''d'', CHR 0x0A] = ''d''"
  "trim ''a'' = ''a''" "trim ''b'' = ''b''" "trim ''c'' = ''c''" "trim ''d'' = ''d''"
  "valid_utf8 ''a''" "valid_utf8 ''b''" "valid_utf8 ''c''" "valid_utf8 ''d''"
  by code_simp+

lemma tape_speaks:
  "speaks tape_codec (start_request (\<lambda>x. JNull) 1 ''m'' ''/r'' tape_config)"
  "speaks tape_codec (stop_request 2 ''m'')"
  "speaks tape_codec (start_reply (json_nat 1))"
  "speaks tape_codec (stop_reply (json_nat 2) JNull (JString ''/r/mic.wav''))"
  by (simp_all add: speaks_def tape_codec_def tape_print_def tape_parse_def tape_letters max_response_bytes_def byte_def
      newline_char_def start_request_def stop_request_def request_json_def start_reply_def stop_reply_def)

lemma sck_records_requested_witness:
  "\<exists>sess sc1 sc2 r.
    sck_start_capture (fake_os tape_codec ''wav'' []) tape_codec (\<lambda>x. JNull) ''m'' ''/r'' tape_config new_sck_capture Map.empty
      = Some (Inr sess, sc1, Map.empty) \<and>
    sck_stop_capture (fake_os tape_codec ''wav'' []) tape_codec sess sc1 Map.empty
      = Some (Inr r, sc2, session_writes ''wav'' ''/r'' tape_config Map.empty) \<and>
    cr_system_audio_path r = None \<and> cr_mic_audio_path r = Some ''/r/mic.wav''"
proof -
  have paths: "session_paths ''/r'' tape_config = (JNull, JString ''/r/mic.wav'', JNull)"
    "track_paths ''/r'' (cc_audio_sources tape_config) = (None, Some ''/r/mic.wav'')"
    by code_simp+
  have "idle [] no_active (sc_client new_sck_capture)" "rc_next_id (sc_client new_sck_capture) = 1"
    by (simp_all add: idle_def new_sck_capture_def new_rpc_client_def)
  from sck_records_requested [OF _ _ this, of "''/r''" tape_config Map.empty tape_codec "\<lambda>x. JNull" "''m''" "''wav''"]
  obtain sess sc1 sc2 r where
    "sck_start_capture (fake_os tape_codec ''wav'' []) tape_codec (\<lambda>x. JNull) ''m'' ''/r'' tape_config new_sck_capture Map.empty
      = Some (Inr sess, sc1, Map.empty)"
    "sck_stop_capture (fake_os tape_codec ''wav'' []) tape_codec sess sc1 Map.empty
      = Some (Inr r, sc2, session_writes ''wav'' ''/r'' tape_config Map.empty)"
    "(cr_system_audio_path r, cr_mic_audio_path r) = track_paths ''/r'' (cc_audio_sources tape_config)"
    using tape_speaks [unfolded numeral_2_eq_2] by (auto simp: paths u64_max_def)
  then show ?thesis by (auto simp: paths)
qed


end
