(* ===== verification/Language_Correct.thy ===== *)
theory Language_Correct
  imports Language_Sidecars Sidecar_Correct
begin

text \<open>
  The call with a deadline always returns, whatever the sidecar does, so the choice of the language
  model at startup returns too and falls back when the sidecar is wedged.
\<close>

text \<open>Time passes at every reading of the clock, and a system call is interrupted only by a pending
  signal, of which there are finitely many.\<close>

definition time_passes :: "('p, 'w) nonblocking \<Rightarrow> ('w \<Rightarrow> nat) \<Rightarrow> ('w \<Rightarrow> nat) \<Rightarrow> bool" where
  "time_passes nb clock signals =
     ((\<forall>w now w'. nb_now nb w = (now, w') \<longrightarrow> now = clock w' \<and> clock w < clock w' \<and> signals w' \<le> signals w) \<and>
      (\<forall>p w ev p' w'. nb_try_read nb p w = (ev, p', w') \<longrightarrow>
         clock w \<le> clock w' \<and> signals w' + (if ev = Interrupted then 1 else 0) \<le> signals w) \<and>
      (\<forall>p ms w ev w'. nb_poll nb p ms w = (ev, w') \<longrightarrow>
         clock w \<le> clock w' \<and> signals w' + (if ev = PollInterrupted then 1 else 0) \<le> signals w))"

lemma now_passes:
  "time_passes nb clock signals \<Longrightarrow> nb_now nb w = (now, w') \<Longrightarrow> now = clock w' \<and> clock w < clock w' \<and> signals w' \<le> signals w"
  unfolding time_passes_def by blast

lemma try_read_passes:
  "time_passes nb clock signals \<Longrightarrow> nb_try_read nb p w = (ev, p', w') \<Longrightarrow>
     clock w \<le> clock w' \<and> signals w' + (if ev = Interrupted then 1 else 0) \<le> signals w"
  unfolding time_passes_def by blast

lemma poll_passes:
  "time_passes nb clock signals \<Longrightarrow> nb_poll nb p ms w = (ev, w') \<Longrightarrow>
     clock w \<le> clock w' \<and> signals w' + (if ev = PollInterrupted then 1 else 0) \<le> signals w"
  unfolding time_passes_def by blast

lemma poll_loop_returns:
  assumes "time_passes nb clock signals"
  shows "\<exists>r w'. poll_loop nb p ms w = Some (r, w') \<and> clock w \<le> clock w' \<and> signals w' \<le> signals w"
proof (induction "signals w" arbitrary: w rule: less_induct)
  case less
  obtain ev w1 where poll: "nb_poll nb p ms w = (ev, w1)" by fastforce
  then have w1: "clock w \<le> clock w1" "signals w1 + (if ev = PollInterrupted then 1 else 0) \<le> signals w"
    using poll_passes [OF assms] by auto
  show ?case
  proof (cases "ev = PollInterrupted")
    case True
    then obtain r w' where "poll_loop nb p ms w1 = Some (r, w')" "clock w1 \<le> clock w'" "signals w' \<le> signals w1"
      using less [of w1] w1 by auto
    then show ?thesis using poll True w1 by (auto simp: poll_loop.simps [of nb p ms w])
  next
    case False
    then show ?thesis using poll w1 by (cases ev) (auto simp: poll_loop.simps [of nb p ms w])
  qed
qed

lemma wait_readable_returns:
  assumes passes: "time_passes nb clock signals"
  shows "\<exists>r w'. wait_readable nb p deadline w = Some (r, w') \<and> signals w' \<le> signals w \<and>
    (r = Inr () \<longrightarrow> clock w < deadline \<and> clock w < clock w')"
proof -
  obtain now w1 where now: "nb_now nb w = (now, w1)" by fastforce
  then have w1: "now = clock w1" "clock w < clock w1" "signals w1 \<le> signals w"
    using now_passes [OF passes] by auto
  show ?thesis
  proof (cases "deadline \<le> now")
    case True
    then show ?thesis using now w1 by (simp add: wait_readable_def timed_out_def)
  next
    case False
    then show ?thesis
      using poll_loop_returns [OF passes, of p "min ((deadline - now) div 10 ^ 6) (2 ^ 31 - 1)" w1] now w1
      by (fastforce simp: wait_readable_def)
  qed
qed

lemma fill_nonblocking_steps:
  assumes "time_passes nb clock signals" and "fill_nonblocking nb c w = (ev, c', w')"
  shows "clock w \<le> clock w' \<and> signals w' + (if ev = Interrupted then 1 else 0) \<le> signals w"
proof (cases "cn_buffer c = []")
  case True
  obtain ev1 p1 w1 where read: "nb_try_read nb (cn_process c) w = (ev1, p1, w1)" by (metis prod_cases3)
  then have "clock w \<le> clock w1 \<and> signals w1 + (if ev1 = Interrupted then 1 else 0) \<le> signals w"
    by (rule try_read_passes [OF assms(1)])
  moreover have "ev = ev1 \<and> w' = w1"
    using assms(2) True read by (cases ev1) (auto simp: fill_nonblocking_def)
  ultimately show ?thesis by simp
next
  case False
  then show ?thesis using assms(2) by (auto simp: fill_nonblocking_def)
qed

lemma next_part_nonempty: "a \<noteq> [] \<Longrightarrow> next_part a \<noteq> []"
  by (auto simp: next_part_def line_in_def)

lemma read_response_line_returns:
  assumes passes: "time_passes nb clock signals"
  shows "\<exists>x. read_response_line nb deadline buf c w = Some x"
proof (induction "(buf, c, w)" arbitrary: buf c w
    rule: wf_induct_rule [OF wf_inv_image [where f = "\<lambda>(buf, c, w).
      (signals w, max_response_bytes - length buf, deadline - clock w)",
      OF wf_lex_prod [OF wf_less_than wf_lex_prod [OF wf_less_than wf_less_than]]]])
  case (1 buf c w)
  obtain ev c1 w1 where fill: "fill_nonblocking nb c w = (ev, c1, w1)" by (metis prod_cases3)
  note step = fill_nonblocking_steps [OF passes fill]
  show ?case
  proof (cases ev)
    case (Filled a)
    show ?thesis
    proof (cases "a = [] \<or> max_response_bytes \<le> length (buf @ next_part a) \<or> last (buf @ next_part a) = newline_char")
      case True
      then show ?thesis using fill Filled by (auto simp: read_response_line.simps [of nb deadline buf c w])
    next
      case False
      then have "0 < length (next_part a)" "length buf < max_response_bytes"
        using next_part_nonempty [of a] by auto
      then have "max_response_bytes - (length buf + length (next_part a)) < max_response_bytes - length buf"
        by linarith
      then have "\<exists>x. read_response_line nb deadline (buf @ next_part a) (consume (length (next_part a)) c1) w1 = Some x"
        using step by (intro 1) auto
      then show ?thesis using fill Filled False by (auto simp: read_response_line.simps [of nb deadline buf c w])
    qed
  next
    case WouldBlock
    obtain r w2 where waited: "wait_readable nb (cn_process c1) deadline w1 = Some (r, w2)" "signals w2 \<le> signals w1"
      "r = Inr () \<longrightarrow> clock w1 < deadline \<and> clock w1 < clock w2"
      using wait_readable_returns [OF passes] by blast
    show ?thesis
    proof (cases r)
      case (Inl f)
      then show ?thesis using fill WouldBlock waited by (simp add: read_response_line.simps [of nb deadline buf c w])
    next
      case (Inr u)
      then have "\<exists>x. read_response_line nb deadline buf c1 w2 = Some x"
        using step waited by (intro 1) auto
      then show ?thesis using fill WouldBlock waited Inr by (simp add: read_response_line.simps [of nb deadline buf c w])
    qed
  next
    case Interrupted
    then have "\<exists>x. read_response_line nb deadline buf c1 w1 = Some x"
      using step by (intro 1) auto
    then show ?thesis using fill Interrupted by (simp add: read_response_line.simps [of nb deadline buf c w])
  next
    case (FillFailed e)
    then show ?thesis using fill by (simp add: read_response_line.simps [of nb deadline buf c w])
  qed
qed

lemma rpc_call_returns:
  assumes "\<And>c w. rd c w \<noteq> None"
  shows "rpc_call os cx ex rd read method params cl w \<noteq> None"
  by (simp add: rpc_call_def Let_def assms del: not_None_eq split: prod.split sum.split)

lemma foundation_call_returns:
  assumes "time_passes nb clock signals"
  shows "foundation_call os nb cx read method params cl w \<noteq> None"
proof -
  have "read_line_deadline nb method c w \<noteq> None" for c w
  proof -
    have "read_response_line nb deadline buf c w \<noteq> None" for deadline buf w
      using read_response_line_returns [OF assms] by (metis option.distinct(1))
    then show ?thesis by (simp add: read_line_deadline_def del: not_None_eq split: prod.split)
  qed
  then show ?thesis unfolding foundation_call_def by (rule rpc_call_returns)
qed

text \<open>C29: Choosing the language model at startup always returns, whatever the sidecar does: the
  on-device model is chosen exactly when an executable sidecar is found and answers the probe, within
  the deadline and with the id of the probe, that it is available; otherwise the local server is.\<close>

theorem pick_llm_returns:
  assumes "time_passes nb clock signals"
  shows "\<exists>choice info w'. pick_llm xe os_of nb cx sidecar w = Some (choice, info, w') \<and>
    (if (\<exists>bin r cl. resolve_sidecar xe sidecar ''panops-llm-mac'' = Some bin \<and>
           foundation_probe (os_of bin) nb cx new_rpc_client w = Some (Inr r, cl, w') \<and> pr_available r)
     then info = apple_foundation \<and> (\<exists>bin. choice = Foundation bin \<and> resolve_sidecar xe sidecar ''panops-llm-mac'' = Some bin)
     else info = local_ollama \<and> choice = Genai ''gemma3:4b'')"
proof (cases "resolve_sidecar xe sidecar ''panops-llm-mac''")
  case None
  then show ?thesis by (simp add: pick_llm_def)
next
  case (Some bin)
  have "foundation_probe (os_of bin) nb cx new_rpc_client w \<noteq> None"
    unfolding foundation_probe_def by (rule foundation_call_returns [OF assms])
  then obtain r cl w' where "foundation_probe (os_of bin) nb cx new_rpc_client w = Some (r, cl, w')" by auto
  then show ?thesis using Some by (cases r) (auto simp: pick_llm_def)
qed

text \<open>A sidecar that starts, takes its request and never answers; the state is the time.\<close>

definition wedged_os :: "(unit, nat) sidecar_os" where
  "wedged_os = \<lparr>so_spawn = (\<lambda>w. (Inr (), w)), so_write = (\<lambda>p b w. (Inr (), p, w)), so_read = (\<lambda>p w. None),
     so_kill = (\<lambda>p w. w)\<rparr>"

definition wedged_nb :: "(unit, nat) nonblocking" where
  "wedged_nb = \<lparr>nb_setup = (\<lambda>p w. (True, w)), nb_now = (\<lambda>w. (Suc w, Suc w)),
     nb_try_read = (\<lambda>p w. (WouldBlock, p, w)), nb_poll = (\<lambda>p ms w. (PollTimedOut, w + ms * 10 ^ 6))\<rparr>"

definition any_exec :: exec_env where
  "any_exec = \<lparr>xe_canonical = Some, xe_meta = (\<lambda>p. Some (True, 493)), xe_current_exe = None, xe_macos = True\<rparr>"

lemma wedged_simps:
  "nb_setup wedged_nb p w = (True, w)" "nb_now wedged_nb w = (Suc w, Suc w)"
  "nb_try_read wedged_nb p w = (WouldBlock, p, w)" "nb_poll wedged_nb p ms w = (PollTimedOut, w + ms * 10 ^ 6)"
  "so_spawn wedged_os w = (Inr (), w)" "so_write wedged_os p b w = (Inr (), p, w)" "so_kill wedged_os p w = w"
  by (simp_all add: wedged_nb_def wedged_os_def)

lemma wedged_passes: "time_passes wedged_nb (\<lambda>w. w) (\<lambda>w. 0)"
  by (simp add: time_passes_def wedged_simps)

lemma wedged_wait: "\<exists>w'. wait_readable wedged_nb p deadline w = Some (Inl timed_out, w')"
  by (simp add: wait_readable_def wedged_simps poll_loop.simps [of wedged_nb])

lemma wedged_read:
  assumes "cn_buffer c = []"
  shows "\<exists>c' w'. read_response_line wedged_nb deadline [] c w = Some (Inl timed_out, c', w')"
  using wedged_wait [of "cn_process c" deadline w] assms
  by (auto simp: read_response_line.simps [of wedged_nb] fill_nonblocking_def wedged_simps)

lemma wedged_probe:
  "\<exists>cl w'. foundation_probe wedged_os wedged_nb cx new_rpc_client w =
     Some (Inl (LlmProviderError ''sidecar response timed out after 5s''), cl, w')"
proof -
  have "\<exists>c' w'. read_line_deadline wedged_nb ''probe'' c w =
      Some (Inl (ReadTimedOut ''sidecar response timed out after 5s''), c', w')" if c: "cn_buffer c = []" for c w
  proof -
    have five: "dec (response_timeout ''probe'') = ''5''" by code_simp
    obtain c' w' where "read_response_line wedged_nb (Suc w + response_timeout ''probe'' * 10 ^ 9) [] c (Suc w) =
        Some (Inl timed_out, c', w')"
      using wedged_read [OF c] by blast
    then show ?thesis by (simp add: read_line_deadline_def wedged_simps five timed_out_def)
  qed
  from this [of "\<lparr>cn_process = (), cn_buffer = []\<rparr>" w] show ?thesis
    by (auto simp: foundation_probe_def foundation_call_def rpc_call_def ensure_spawned_def new_rpc_client_def
        spawn_nonblocking_def send_line_def wedged_simps Let_def foundation_errors_def)
qed

lemma pick_llm_returns_witness:
  "\<exists>w'. pick_llm any_exec (\<lambda>bin. wedged_os) wedged_nb tape_codec (Some ''/bin/s'') 0 =
     Some (Genai ''gemma3:4b'', local_ollama, w')"
proof -
  have "foundation_probe wedged_os wedged_nb tape_codec new_rpc_client 0 \<noteq> Some (Inr r, cl, w')" for r cl w'
    using wedged_probe [of tape_codec 0] by auto
  then show ?thesis
    using pick_llm_returns [OF wedged_passes, of any_exec "\<lambda>bin. wedged_os" tape_codec "Some ''/bin/s''" 0]
    by (auto split: if_splits)
qed

end
