(* ===== verification/Audio.thy ===== *)
theory Audio
  imports Export_Port Sidecar
begin

text \<open>
  Loading of audio, \<open>panops-portable/src/audio.rs\<close>: a 16 kHz 16-bit WAV is read as it is, anything
  else is converted by macOS \<open>afconvert\<close> into a temporary WAV that the guard \<open>Wav16kPath\<close> removes when
  it is dropped. The WAV reader (\<open>hound\<close>), the sample conversions (\<open>whisper_rs\<close>) and the effect of
  \<open>afconvert\<close> are fields of an environment; the number beside the file system is the static counter \<open>SEQ\<close>. Panics of the
  libraries are not modelled.
\<close>

section \<open>Environment\<close>

record wav_spec =
  ws_channels :: nat
  ws_sample_rate :: u32
  ws_bits_per_sample :: nat
  ws_int_format :: bool

text \<open>
  The run of \<open>afconvert\<close>: it could not be started, or it ended, successfully or not, having written
  the given bytes to its output path, or nothing.
\<close>

datatype afconvert_run = SpawnFailed | Exited bool "string option"

record audio_env =
  au_wav_spec :: "string \<Rightarrow> string + wav_spec"
  au_wav_samples :: "string \<Rightarrow> string + 16 word list"
  au_integer_to_float :: "16 word list \<Rightarrow> string + f32 list"
  au_stereo_to_mono :: "f32 list \<Rightarrow> string + f32 list"
  au_macos :: bool
  au_temp_dir :: string
  au_process_id :: u32
  au_afconvert :: "fs \<Rightarrow> string \<Rightarrow> afconvert_run"

text \<open>\<open>WavReader::open\<close>: the specification in the header of a file and its bytes.\<close>

definition wav_open :: "audio_env \<Rightarrow> fs \<Rightarrow> string \<Rightarrow> string + (wav_spec \<times> string)" where
  "wav_open au d path =
     (case d path of
        None \<Rightarrow> Inl ''No such file or directory''
      | Some FsDir \<Rightarrow> Inl ''Is a directory''
      | Some (FsFile c) \<Rightarrow> map_sum id (\<lambda>spec. (spec, c)) (au_wav_spec au c))"

section \<open>Reading a WAV\<close>

definition load_wav_mono16k :: "audio_env \<Rightarrow> fs \<Rightarrow> string \<Rightarrow> asr_error + (f32 list \<times> u32)" where
  "load_wav_mono16k au d path =
     (if d path = None then Inl (AsrAudioNotFound path)
      else case wav_open au d path of
        Inl m \<Rightarrow> Inl (AsrInvalidAudio m)
      | Inr (spec, c) \<Rightarrow>
          if \<not> ws_int_format spec
          then Inl (AsrInvalidAudio ''unsupported sample format Float (expected 16-bit PCM)'')
          else if ws_bits_per_sample spec \<noteq> 16
          then Inl (AsrInvalidAudio
                 (''unsupported bits per sample '' @ dec (ws_bits_per_sample spec) @ '' (expected 16)''))
          else if ws_sample_rate spec \<noteq> 16000
          then Inl (AsrInvalidAudio (''expected 16 kHz, got '' @ dec (ws_sample_rate spec) @ '' Hz''))
          else case au_wav_samples au c of
            Inl m \<Rightarrow> Inl (AsrInvalidAudio m)
          | Inr samples \<Rightarrow>
              (case au_integer_to_float au samples of
                 Inl m \<Rightarrow> Inl (AsrInvalidAudio m)
               | Inr audio \<Rightarrow>
                   if ws_channels spec = 2
                   then (case au_stereo_to_mono au audio of
                           Inl m \<Rightarrow> Inl (AsrInvalidAudio m)
                         | Inr mixed \<Rightarrow> Inr (mixed, 16000))
                   else if ws_channels spec = 1 then Inr (audio, 16000)
                   else Inl (AsrInvalidAudio
                          (''expected 1 or 2 channels, got '' @ dec (ws_channels spec)))))"

section \<open>Conversion\<close>

definition is_wav :: "string \<Rightarrow> bool" where
  "is_wav path =
     (case extension path of
        None \<Rightarrow> False
      | Some e \<Rightarrow> valid_utf8 e \<and> map to_ascii_lower e = ''wav'')"

definition transcode_path :: "audio_env \<Rightarrow> u64 \<Rightarrow> string" where
  "transcode_path au n =
     path_join (au_temp_dir au)
       (''panops-transcode-'' @ dec (au_process_id au) @ ''-'' @ dec n @ ''.wav'')"

definition fs_put :: "string \<Rightarrow> string option \<Rightarrow> fs \<Rightarrow> fs" where
  "fs_put p c d =
     (case c of Some b \<Rightarrow> if d p = Some FsDir then d else d(p \<mapsto> FsFile b) | None \<Rightarrow> d)"

definition fs_remove_file :: "string \<Rightarrow> fs \<Rightarrow> fs" where
  "fs_remove_file p d = (if is_file d p then d(p := None) else d)"

definition transcode_to_wav16k ::
  "audio_env \<Rightarrow> string \<Rightarrow> fs \<times> u64 \<Rightarrow> (asr_error + string) \<times> fs \<times> u64" where
  "transcode_to_wav16k au path s =
     (case s of (d, n) \<Rightarrow>
        if au_macos au
        then (let tmp = transcode_path au n; n = u64_add n 1
              in case au_afconvert au d path of
                   Exited True out \<Rightarrow> (Inr tmp, fs_put tmp out d, n)
                 | Exited False out \<Rightarrow>
                     (Inl (AsrInvalidAudio ''could not decode audio (unsupported or corrupt media file)''),
                      fs_remove_file tmp (fs_put tmp out d), n)
                 | SpawnFailed \<Rightarrow>
                     (Inl (AsrInvalidAudio ''audio decoder (afconvert) unavailable''), d, n))
        else (Inl (AsrInvalidAudio
                ''unsupported audio format: only 16 kHz WAV is supported on this platform''), d, n))"

datatype wav16k_path = Borrowed string | Temp string

definition wav16k_file :: "wav16k_path \<Rightarrow> string" where
  "wav16k_file w = (case w of Borrowed p \<Rightarrow> p | Temp p \<Rightarrow> p)"

definition drop_wav16k :: "wav16k_path \<Rightarrow> fs \<Rightarrow> fs" where
  "drop_wav16k w d = (case w of Borrowed p \<Rightarrow> d | Temp p \<Rightarrow> fs_remove_file p d)"

definition ready_spec :: "wav_spec \<Rightarrow> bool" where
  "ready_spec spec =
     (ws_sample_rate spec = 16000 \<and> ws_bits_per_sample spec = 16 \<and> ws_int_format spec \<and>
      (ws_channels spec = 1 \<or> ws_channels spec = 2))"

definition ensure_wav16k ::
  "audio_env \<Rightarrow> string \<Rightarrow> fs \<times> u64 \<Rightarrow> (asr_error + wav16k_path) \<times> fs \<times> u64" where
  "ensure_wav16k au path s =
     (if fst s path = None then (Inl (AsrAudioNotFound path), s)
      else if is_wav path \<and>
              (case wav_open au (fst s) path of Inr (spec, c) \<Rightarrow> ready_spec spec | Inl m \<Rightarrow> False)
      then (Inr (Borrowed path), s)
      else (case transcode_to_wav16k au path s of (r, s) \<Rightarrow> (map_sum id Temp r, s)))"

definition load_audio_mono16k ::
  "audio_env \<Rightarrow> string \<Rightarrow> fs \<times> u64 \<Rightarrow> (asr_error + (f32 list \<times> u32)) \<times> fs \<times> u64" where
  "load_audio_mono16k au path s =
     (case ensure_wav16k au path s of
        (Inl e, s) \<Rightarrow> (Inl e, s)
      | (Inr wav, (d, n)) \<Rightarrow> (load_wav_mono16k au d (wav16k_file wav), drop_wav16k wav d, n))"

section \<open>Temporary files\<close>

text \<open>Whatever the outcome, a temporary path that was free before the conversion is free after it.\<close>

lemma put_remove [simp]: "d p = None \<Longrightarrow> fs_remove_file p (fs_put p c d) = d"
  by (auto simp: fs_put_def fs_remove_file_def is_file_def fun_eq_iff split: option.splits)

lemma ensure_wav16k_drops:
  assumes "d (transcode_path au n) = None"
    and "ensure_wav16k au path (d, n) = (r, d', n')"
  shows "case r of Inl e \<Rightarrow> d' = d | Inr w \<Rightarrow> drop_wav16k w d' = d"
  using assms
  by (auto simp: ensure_wav16k_def transcode_to_wav16k_def drop_wav16k_def Let_def
      split: if_splits afconvert_run.splits bool.splits)

lemma load_wav_rate: "load_wav_mono16k au d p = Inr (samples, rate) \<Longrightarrow> rate = 16000"
  by (auto simp: load_wav_mono16k_def split: if_splits sum.splits)

lemma load_wav_ready:
  assumes "load_wav_mono16k au d p = Inr x"
  shows "d p \<noteq> None" and "\<exists>spec c. wav_open au d p = Inr (spec, c) \<and> ready_spec spec"
proof -
  show "d p \<noteq> None"
    using assms by (intro notI) (simp add: load_wav_mono16k_def)
  show "\<exists>spec c. wav_open au d p = Inr (spec, c) \<and> ready_spec spec"
    using assms by (auto simp: load_wav_mono16k_def ready_spec_def split: if_splits sum.splits)
qed


definition clip_env :: audio_env where
  "clip_env =
     \<lparr>au_wav_spec = (\<lambda>b. if b = ''RIFF''
        then Inr \<lparr>ws_channels = 1, ws_sample_rate = 16000, ws_bits_per_sample = 16, ws_int_format = True\<rparr>
        else Inl ''no RIFF tag found''),
      au_wav_samples = (\<lambda>b. Inr [0, 1, 2]), au_integer_to_float = (\<lambda>xs. Inr (map (\<lambda>x. 0) xs)),
      au_stereo_to_mono = Inr, au_macos = True, au_temp_dir = ''/tmp'', au_process_id = 7,
      au_afconvert = (\<lambda>d p. Exited True (Some ''RIFF''))\<rparr>"


text \<open>A file named as a WAV that the WAV reader accepts as it is is not converted: loading it is
  reading it, and no temporary name is used up.\<close>

theorem ready_wav_not_converted:
  assumes "is_wav path" and "load_wav_mono16k au d path = Inr x"
  shows "load_audio_mono16k au path (d, n) = (Inr x, d, n)"
  using assms load_wav_ready [OF assms(2)]
  by (auto simp: load_audio_mono16k_def ensure_wav16k_def wav16k_file_def drop_wav16k_def)

theorem ready_wav_not_converted_witness:
  "load_audio_mono16k clip_env ''/clip.WAV'' ([''/clip.WAV'' \<mapsto> FsFile ''RIFF''], 4) =
     (Inr ([0, 0, 0], 16000), [''/clip.WAV'' \<mapsto> FsFile ''RIFF''], 4)"
proof (rule ready_wav_not_converted)
  show "is_wav ''/clip.WAV''"
    by code_simp
  show "load_wav_mono16k clip_env [''/clip.WAV'' \<mapsto> FsFile ''RIFF''] ''/clip.WAV'' = Inr ([0, 0, 0], 16000)"
    by (simp add: load_wav_mono16k_def wav_open_def clip_env_def)
qed

end
