(* ===== verification/Error_Text.thy ===== *)
theory Error_Text
  imports Llm_Port Rust_Strings
begin

text \<open>
  The messages of the port errors (\<open>Display\<close>, derived with \<open>thiserror\<close>): \<open>asr.rs\<close>, \<open>diar.rs\<close>,
  \<open>vad.rs\<close>, \<open>exporter.rs\<close> and \<open>notes/error.rs\<close> of \<open>panops-core\<close>.
\<close>

fun asr_error_text :: "asr_error \<Rightarrow> string" where
  "asr_error_text (AsrInvalidAudio m) = ''invalid audio: '' @ m"
| "asr_error_text (AsrModel m) = ''model error: '' @ m"
| "asr_error_text (AsrTranscription m) = ''transcription failed: '' @ m"
| "asr_error_text (AsrIo m) = ''io error: '' @ m"
| "asr_error_text (AsrAudioNotFound p) = ''audio file not found: '' @ p"

fun diar_error_text :: "diar_error \<Rightarrow> string" where
  "diar_error_text (DiarAudioNotFound p) = ''audio file not found: '' @ p"
| "diar_error_text (DiarInvalidAudio m) = ''invalid audio: '' @ m"
| "diar_error_text (DiarModel m) = ''model error: '' @ m"
| "diar_error_text (DiarDiarization m) = ''diarization failed: '' @ m"
| "diar_error_text (DiarIo m) = ''io error: '' @ m"

fun vad_error_text :: "vad_error \<Rightarrow> string" where
  "vad_error_text (VadModel m) = ''vad model: '' @ m"
| "vad_error_text (VadInvalidAudio m) = ''invalid audio: '' @ m"
| "vad_error_text (VadIo m) = ''io error: '' @ m"

fun export_error_text :: "export_error \<Rightarrow> string" where
  "export_error_text (ExportIo m) = ''io: '' @ m"
| "export_error_text (ExportInvalidDest m) = ''invalid destination: '' @ m"
| "export_error_text (ExportRender m) = ''render: '' @ m"

fun notes_error_text :: "notes_error \<Rightarrow> string" where
  "notes_error_text EmptyTranscript = ''empty transcript''"
| "notes_error_text (NotesLlm e) = ''llm: '' @ llm_error_text e"
| "notes_error_text (LlmUnavailable failed total_calls last_error) =
     ''notes LLM unavailable: all '' @ dec failed @ '' of '' @ dec total_calls @
     '' section generation calls failed ('' @ last_error @ '')''"
| "notes_error_text (SchemaMismatch stage detail) = ''schema mismatch in stage '' @ stage @ '': '' @ detail"
| "notes_error_text (InvalidInput m) = ''invalid input: '' @ m"

end
