(* ===== verification/Diarizer.thy ===== *)
theory Diarizer
  imports Audio Floats Error_Text
begin

text \<open>
  The speaker diarizer, \<open>panops-portable/src/sherpa_diarizer.rs\<close>: the turns that the sherpa library
  finds, with spurious tiny speakers folded into their neighbours and overlaps clamped away. The
  library (its audio reader, the start of a pipeline from two model files, its computation) and the
  \<open>{:?}\<close> of a path are fields of an environment.
\<close>

section \<open>Folding small speakers\<close>

definition turn_duration :: "speaker_turn \<Rightarrow> u64" where
  "turn_duration t = turn_end_ms t - turn_start_ms t"

text \<open>The entry of one speaker in the map \<open>totals\<close>, and \<open>total_all\<close>.\<close>

definition speaker_total :: "speaker_turn list \<Rightarrow> u32 \<Rightarrow> u64" where
  "speaker_total turns spk =
     fold (\<lambda>t n. if turn_speaker_id t = spk then u64_add n (turn_duration t) else n) turns 0"

definition all_total :: "speaker_turn list \<Rightarrow> u64" where
  "all_total turns = fold (\<lambda>t n. u64_add n (turn_duration t)) turns 0"

text \<open>
  \<open>(n as f64) < total as f64 * 0.05\<close>: both conversions and the product are rounded to 53 significant
  bits; the \<open>f64\<close> nearest to 0.05 is \<open>3602879701896397 / 2 ^ 56\<close>.
\<close>

definition minor_speaker_max_share :: nat where
  "minor_speaker_max_share = 3602879701896397"

definition below_share :: "u64 \<Rightarrow> u64 \<Rightarrow> bool" where
  "below_share n all =
     (round_bits 53 n * 2 ^ 56 < round_bits 53 (round_bits 53 all * minor_speaker_max_share))"

definition is_minor :: "speaker_turn list \<Rightarrow> u32 \<Rightarrow> bool" where
  "is_minor turns spk = below_share (speaker_total turns spk) (all_total turns)"

text \<open>The loop that relabels: \<open>seen\<close> holds the turns before the current one, the last one first.\<close>

fun relabel_turns :: "(u32 \<Rightarrow> bool) \<Rightarrow> speaker_turn list \<Rightarrow> speaker_turn list \<Rightarrow> speaker_turn list" where
  "relabel_turns minor seen [] = rev seen"
| "relabel_turns minor seen (t # ts) =
     (if \<not> minor (turn_speaker_id t) then relabel_turns minor (t # seen) ts
      else case (case find (\<lambda>u. \<not> minor (turn_speaker_id u)) seen of
                   Some u \<Rightarrow> Some u
                 | None \<Rightarrow> find (\<lambda>u. \<not> minor (turn_speaker_id u)) ts) of
             Some u \<Rightarrow> relabel_turns minor (t\<lparr>turn_speaker_id := turn_speaker_id u\<rparr> # seen) ts
           | None \<Rightarrow> relabel_turns minor (t # seen) ts)"

fun merge_turns :: "speaker_turn list \<Rightarrow> speaker_turn list \<Rightarrow> speaker_turn list" where
  "merge_turns merged [] = merged"
| "merge_turns merged (t # ts) =
     (if merged \<noteq> [] \<and> turn_speaker_id (last merged) = turn_speaker_id t
      then merge_turns (butlast merged @
             [(last merged)\<lparr>turn_end_ms := max (turn_end_ms (last merged)) (turn_end_ms t)\<rparr>]) ts
      else merge_turns (merged @ [t]) ts)"

fun renumber_turns :: "(u32 \<rightharpoonup> u32) \<Rightarrow> u32 \<Rightarrow> speaker_turn list \<Rightarrow> speaker_turn list" where
  "renumber_turns remap fresh [] = []"
| "renumber_turns remap fresh (t # ts) =
     (case remap (turn_speaker_id t) of
        Some v \<Rightarrow> t\<lparr>turn_speaker_id := v\<rparr> # renumber_turns remap fresh ts
      | None \<Rightarrow> t\<lparr>turn_speaker_id := fresh\<rparr> #
          renumber_turns (remap(turn_speaker_id t \<mapsto> fresh)) ((fresh + 1) mod 2 ^ 32) ts)"

definition collapse_minor_speakers :: "speaker_turn list \<Rightarrow> speaker_turn list" where
  "collapse_minor_speakers turns =
     (if turns = [] then turns
      else if all_total turns = 0 then turns
      else let minor = is_minor turns
           in if \<not> list_ex (\<lambda>t. minor (turn_speaker_id t)) turns \<or>
                 \<not> list_ex (\<lambda>t. \<not> minor (turn_speaker_id t)) turns
              then turns
              else renumber_turns Map.empty 0 (merge_turns [] (relabel_turns minor [] turns)))"

section \<open>The adapter\<close>

record sherpa_segment =
  ss_start :: f32
  ss_end :: f32
  ss_speaker :: "32 word"

record sherpa_env =
  sh_audio :: audio_env
  sh_path_debug :: "string \<Rightarrow> string"
  sh_read_audio :: "fs \<Rightarrow> string \<Rightarrow> string + (f32 list \<times> u32)"
  sh_start :: "string \<Rightarrow> string \<Rightarrow> string + (f32 list \<Rightarrow> string + sherpa_segment list)"

text \<open>\<open>1000.0\<close> is the pattern \<open>0x447A0000\<close>; \<open>as u32\<close> keeps the bits of the \<open>i32\<close>.\<close>

definition turn_of_sherpa :: "sherpa_segment \<Rightarrow> speaker_turn" where
  "turn_of_sherpa s =
     \<lparr>turn_start_ms = f32_to_u64 (f32_mul (ss_start s) 0x447A0000),
      turn_end_ms = f32_to_u64 (f32_mul (ss_end s) 0x447A0000),
      turn_speaker_id = unat (ss_speaker s)\<rparr>"

text \<open>The final loop, from the second turn on; \<open>prev_end\<close> is the clamped end of the turn before.\<close>

fun clamp_after :: "u64 \<Rightarrow> speaker_turn list \<Rightarrow> speaker_turn list" where
  "clamp_after prev_end [] = []"
| "clamp_after prev_end (t # ts) =
     (let start = (if turn_start_ms t < prev_end then prev_end else turn_start_ms t);
          stop = (if turn_end_ms t < start then start else turn_end_ms t)
      in t\<lparr>turn_start_ms := start, turn_end_ms := stop\<rparr> # clamp_after stop ts)"

definition clamp_turns :: "speaker_turn list \<Rightarrow> speaker_turn list" where
  "clamp_turns turns = (case turns of [] \<Rightarrow> [] | t # ts \<Rightarrow> t # clamp_after (turn_end_ms t) ts)"

definition new_sherpa_diarizer ::
  "sherpa_env \<Rightarrow> fs \<Rightarrow> string \<Rightarrow> string \<Rightarrow> diar_error + (string \<times> string)" where
  "new_sherpa_diarizer sh d seg_path emb_path =
     (if \<not> is_file d seg_path
      then Inl (DiarModel (''segmentation model not found: '' @ sh_path_debug sh seg_path))
      else if \<not> is_file d emb_path
      then Inl (DiarModel (''embedding model not found: '' @ sh_path_debug sh emb_path))
      else Inr (seg_path, emb_path))"

definition diarize_wav :: "sherpa_env \<Rightarrow> string \<times> string \<Rightarrow> fs \<Rightarrow> string \<Rightarrow> diar_error + speaker_turn list" where
  "diarize_wav sh models d path =
     (if \<not> valid_utf8 path then Inl (DiarInvalidAudio ''non-UTF-8 audio path'')
      else case sh_read_audio sh d path of
        Inl m \<Rightarrow> Inl (DiarInvalidAudio (''read audio: '' @ m))
      | Inr (samples, sample_rate) \<Rightarrow>
          if sample_rate \<noteq> 16000
          then Inl (DiarInvalidAudio (''expected 16 kHz, got '' @ dec sample_rate @ '' Hz''))
          else if \<not> valid_utf8 (fst models) then Inl (DiarModel ''non-UTF-8 seg path'')
          else if \<not> valid_utf8 (snd models) then Inl (DiarModel ''non-UTF-8 emb path'')
          else (case sh_start sh (fst models) (snd models) of
            Inl m \<Rightarrow> Inl (DiarModel (''init Diarize: '' @ m))
          | Inr compute \<Rightarrow>
              (case compute samples of
                 Inl m \<Rightarrow> Inl (DiarDiarization (''compute: '' @ m))
               | Inr segments \<Rightarrow>
                   Inr (clamp_turns (collapse_minor_speakers
                          (sort_key turn_start_ms (map turn_of_sherpa segments)))))))"

definition sherpa_diarize ::
  "sherpa_env \<Rightarrow> string \<times> string \<Rightarrow> string \<Rightarrow> fs \<times> u64 \<Rightarrow> (diar_error + speaker_turn list) \<times> fs \<times> u64" where
  "sherpa_diarize sh models audio_path s =
     (if \<not> is_file (fst s) audio_path then (Inl (DiarAudioNotFound audio_path), s)
      else case ensure_wav16k (sh_audio sh) audio_path s of
        (Inl (AsrAudioNotFound p), s) \<Rightarrow> (Inl (DiarAudioNotFound p), s)
      | (Inl e, s) \<Rightarrow> (Inl (DiarInvalidAudio (asr_error_text e)), s)
      | (Inr wav, (d, n)) \<Rightarrow> (diarize_wav sh models d (wav16k_file wav), drop_wav16k wav d, n))"

end
