(* ===== verification/Diarizer_Correct.thy ===== *)
theory Diarizer_Correct
  imports Diarizer
begin

text \<open>
  Correctness of the diarizer: the share of a speaker is compared exactly, folding keeps every turn
  inside a turn of its speaker and numbers the speakers in order of appearance, and the turns that are
  returned are ordered and do not overlap.
\<close>

section \<open>The share of a speaker\<close>

lemma round_bits_share: "n < 2 ^ 53 \<Longrightarrow> round_bits 53 (n * (2 ^ 56 + 4)) = n * 2 ^ 56"
proof (cases "n = 0")
  case False
  assume n: "n < 2 ^ 53"
  define k where "k = bit_length n - 1"
  have k: "2 ^ k \<le> n" "n < 2 ^ Suc k" "Suc k \<le> 53"
    using bit_length_bounds [of n] bit_length_le [OF n] False by (auto simp: k_def)
  let ?x = "n * (2 ^ 56 + 4)"
  have x: "?x = n * 2 ^ 56 + 4 * n"
    by (simp add: algebra_simps)
  have "2 ^ k * 2 ^ 56 \<le> n * (2 :: nat) ^ 56"
    using k(1) by (rule mult_le_mono1)
  then have low: "2 ^ (k + 56) \<le> ?x"
    unfolding x power_add by linarith
  have "(n + 1) * (2 :: nat) ^ 56 \<le> 2 ^ Suc k * 2 ^ 56"
    using k(2) by (intro mult_le_mono1) simp
  then have "n * 2 ^ 56 + 2 ^ 56 \<le> (2 :: nat) ^ Suc (k + 56)"
    by (simp add: power_add algebra_simps)
  moreover have "4 * n < 2 ^ 56"
    using n by simp
  ultimately have high: "?x < 2 ^ Suc (k + 56)"
    unfolding x by linarith
  have len: "bit_length ?x - 53 = k + 4"
    using bit_length_eq [OF low high] by simp
  define q where "q = n * 2 ^ (52 - k)"
  have whole: "n * 2 ^ 56 = q * 2 ^ (k + 4)"
    using k(3) by (simp add: q_def mult.assoc flip: power_add)
  have "2 * (4 * n) < 2 ^ (k + 4)"
    using k(2) by (simp add: power_add)
  then have "round_div ?x (2 ^ (k + 4)) = q"
    unfolding x whole by (rule round_div_low)
  then have "round_bits 53 ?x = q * 2 ^ (k + 4)"
    unfolding round_bits_def len Let_def by (simp only:)
  with whole show ?thesis
    by (simp only:)
qed (simp add: round_bits_def round_div_def)

lemma round_bits_over:
  assumes "n < 2 ^ 49"
  shows "n * 2 ^ 56 < round_bits 53 (n * 2 ^ 56 + minor_speaker_max_share)"
proof -
  let ?x = "n * 2 ^ 56 + minor_speaker_max_share"
  have "?x < 2 ^ 105"
    using assms by (simp add: minor_speaker_max_share_def)
  then have "bit_length ?x \<le> 105"
    by (rule bit_length_le)
  define e where "e = bit_length ?x - 53"
  have e: "e \<le> 52"
    using \<open>bit_length ?x \<le> 105\<close> by (simp add: e_def)
  define q where "q = n * 2 ^ (56 - e)"
  have n: "n * 2 ^ 56 = q * 2 ^ e"
    using e by (simp add: q_def mult.assoc flip: power_add)
  have "(2 :: nat) ^ e \<le> 2 ^ 52"
    using e by (rule power_increasing) simp
  then have half: "2 ^ e < 2 * minor_speaker_max_share"
    by (simp add: minor_speaker_max_share_def)
  have "q < round_div ?x (2 ^ e)"
  proof (cases "minor_speaker_max_share < 2 ^ e")
    case True
    then show ?thesis
      using half round_div_high [of minor_speaker_max_share "2 ^ e" q] unfolding n by simp
  next
    case False
    then have "(q + 1) * 2 ^ e \<le> ?x"
      unfolding n by simp
    then have "q + 1 \<le> ?x div 2 ^ e"
      by (simp add: less_eq_div_iff_mult_less_eq)
    then show ?thesis
      using round_div_bounds [of "2 ^ e" ?x] by simp
  qed
  then have "q * 2 ^ e < round_div ?x (2 ^ e) * 2 ^ e"
    by (rule mult_less_mono1) simp
  then show ?thesis
    unfolding n [symmetric] by (simp only: round_bits_def e_def [symmetric] Let_def)
qed

text \<open>Although three numbers are rounded on the way, the comparison is exact.\<close>

lemma below_share_exact:
  assumes "all < 2 ^ 53" and n: "n < 2 ^ 53"
  shows "below_share n all \<longleftrightarrow> 20 * n < all"
proof -
  have twenty: "minor_speaker_max_share * 20 = 2 ^ 56 + 4"
    by (simp add: minor_speaker_max_share_def)
  have shares: "below_share n all \<longleftrightarrow> n * 2 ^ 56 < round_bits 53 (all * minor_speaker_max_share)"
    using assms n by (simp add: below_share_def round_bits_small)
  show ?thesis
  proof (cases "20 * n < all")
    case True
    then have "(20 * n + 1) * minor_speaker_max_share \<le> all * minor_speaker_max_share"
      by (intro mult_le_mono1) simp
    moreover have "(20 * n + 1) * minor_speaker_max_share = n * (minor_speaker_max_share * 20) + minor_speaker_max_share"
      by (simp add: algebra_simps)
    moreover have "n * (minor_speaker_max_share * 20) = n * 2 ^ 56 + n * 4"
      unfolding twenty by (simp add: algebra_simps)
    ultimately have "n * 2 ^ 56 + minor_speaker_max_share \<le> all * minor_speaker_max_share"
      by linarith
    then have "round_bits 53 (n * 2 ^ 56 + minor_speaker_max_share) \<le> round_bits 53 (all * minor_speaker_max_share)"
      by (rule round_bits_mono) simp
    moreover have "n < 2 ^ 49"
      using True assms by simp
    ultimately show ?thesis
      using True round_bits_over [of n] shares by linarith
  next
    case False
    then have "all * minor_speaker_max_share \<le> n * 20 * minor_speaker_max_share"
      by (intro mult_le_mono1) simp
    also have "\<dots> = n * (2 ^ 56 + 4)"
      unfolding twenty [symmetric] by (simp only: ac_simps)
    finally have "round_bits 53 (all * minor_speaker_max_share) \<le> n * 2 ^ 56"
      using round_bits_mono [of "all * minor_speaker_max_share" "n * (2 ^ 56 + 4)" 53]
        round_bits_share [OF n] by simp
    with False show ?thesis
      by (simp only: shares) simp
  qed
qed

lemma fold_u64_add:
  assumes "a + (\<Sum>t \<leftarrow> filter P ts. f t) < 2 ^ 64"
  shows "fold (\<lambda>t n. if P t then u64_add n (f t) else n) ts a = a + (\<Sum>t \<leftarrow> filter P ts. f t)"
  using assms by (induction ts arbitrary: a) (auto simp: add.assoc split: if_splits)

definition total_speech :: "speaker_turn list \<Rightarrow> nat" where
  "total_speech turns = (\<Sum>t \<leftarrow> turns. turn_duration t)"

definition speech_of :: "u32 \<Rightarrow> speaker_turn list \<Rightarrow> nat" where
  "speech_of spk turns = total_speech (filter (\<lambda>t. turn_speaker_id t = spk) turns)"

lemma speech_of_le: "speech_of spk turns \<le> total_speech turns"
  by (induction turns) (simp_all add: speech_of_def total_speech_def)

text \<open>As long as less than \<open>2 ^ 53\<close> milliseconds are spoken, a speaker counts as minor exactly
  when it speaks less than a twentieth of the time, although the code compares rounded
  floating-point numbers with the product of a rounded 0.05.\<close>

theorem minor_speaker_exact:
  assumes "total_speech turns < 2 ^ 53"
  shows "is_minor turns spk \<longleftrightarrow> 20 * speech_of spk turns < total_speech turns"
proof -
  have "speaker_total turns spk = speech_of spk turns"
    using assms speech_of_le [of spk turns] fold_u64_add [of 0 turn_duration "\<lambda>t. turn_speaker_id t = spk" turns]
    by (simp add: speaker_total_def speech_of_def total_speech_def)
  moreover have "all_total turns = total_speech turns"
    using assms fold_u64_add [of 0 turn_duration "\<lambda>t. True" turns]
    by (simp add: all_total_def total_speech_def)
  ultimately show ?thesis
    using below_share_exact [OF assms] assms speech_of_le [of spk turns] by (simp add: is_minor_def)
qed

definition sample_turns :: "speaker_turn list" where
  "sample_turns =
     [\<lparr>turn_start_ms = 0, turn_end_ms = 1000, turn_speaker_id = 4\<rparr>,
      \<lparr>turn_start_ms = 1000, turn_end_ms = 1099, turn_speaker_id = 9\<rparr>,
      \<lparr>turn_start_ms = 1200, turn_end_ms = 2082, turn_speaker_id = 2\<rparr>]"

theorem minor_speaker_exact_witness:
  "is_minor sample_turns 9 \<and> \<not> is_minor sample_turns 2"
proof -
  have "total_speech sample_turns < 2 ^ 53"
    by (simp add: sample_turns_def total_speech_def turn_duration_def)
  from minor_speaker_exact [OF this, of 9] minor_speaker_exact [OF this, of 2] show ?thesis
    by (simp add: sample_turns_def total_speech_def speech_of_def turn_duration_def)
qed

section \<open>Relabelling\<close>

text \<open>A turn keeps its times, and its speaker when that is a major one; afterwards all are major.\<close>

definition relabelled :: "(u32 \<Rightarrow> bool) \<Rightarrow> speaker_turn \<Rightarrow> speaker_turn \<Rightarrow> bool" where
  "relabelled minor t u \<longleftrightarrow>
     turn_start_ms u = turn_start_ms t \<and> turn_end_ms u = turn_end_ms t \<and> \<not> minor (turn_speaker_id u) \<and>
     (\<not> minor (turn_speaker_id t) \<longrightarrow> turn_speaker_id u = turn_speaker_id t)"

definition turn_ids :: "speaker_turn list \<Rightarrow> u32 set" where
  "turn_ids ts = turn_speaker_id ` set ts"

lemma turn_ids_simps [simp]:
  "turn_ids [] = {}" "turn_ids (t # ts) = insert (turn_speaker_id t) (turn_ids ts)"
  "turn_ids (ts @ us) = turn_ids ts \<union> turn_ids us"
  by (auto simp: turn_ids_def)

lemma relabel_turns_relabelled:
  assumes "\<exists>u \<in> set (seen @ ts). \<not> minor (turn_speaker_id u)"
  shows "\<exists>us. relabel_turns minor seen ts = rev seen @ us \<and> list_all2 (relabelled minor) ts us \<and>
    turn_ids us \<subseteq> turn_ids (seen @ ts)"
  using assms
proof (induction minor seen ts rule: relabel_turns.induct)
  case (1 minor seen)
  then show ?case by simp
next
  case (2 minor seen t ts)
  let ?major = "\<lambda>u. \<not> minor (turn_speaker_id u)"
  let ?find = "case find ?major seen of Some u \<Rightarrow> Some u | None \<Rightarrow> find ?major ts"
  show ?case
  proof (cases "minor (turn_speaker_id t)")
    case False
    then obtain us where us: "relabel_turns minor (t # seen) ts = rev (t # seen) @ us"
      "list_all2 (relabelled minor) ts us" "turn_ids us \<subseteq> turn_ids ((t # seen) @ ts)"
      using "2.IH"(1) by auto
    with False show ?thesis
      by (intro exI [of _ "t # us"]) (auto simp: relabelled_def [of minor t])
  next
    case True
    have "?find \<noteq> None"
    proof (cases "find ?major seen")
      case None
      with True 2(4) have "\<exists>u \<in> set ts. ?major u"
        by (auto simp: find_None_iff)
      then have "find ?major ts \<noteq> None"
        by (auto simp: find_None_iff simp del: not_None_eq)
      with None show ?thesis
        by (simp del: not_None_eq)
    qed simp
    then obtain u where u: "?find = Some u"
      by blast
    then have "u \<in> set (seen @ ts)" and major: "?major u"
      by (auto simp: find_Some_iff split: option.splits)
    let ?t = "t\<lparr>turn_speaker_id := turn_speaker_id u\<rparr>"
    obtain us where us: "relabel_turns minor (?t # seen) ts = rev (?t # seen) @ us"
      "list_all2 (relabelled minor) ts us" "turn_ids us \<subseteq> turn_ids ((?t # seen) @ ts)"
      using "2.IH"(3) [OF _ u] True major by auto
    have "turn_speaker_id u \<in> turn_ids (seen @ ts)"
      using \<open>u \<in> set (seen @ ts)\<close> unfolding turn_ids_def by blast
    with True u us major show ?thesis
      by (intro exI [of _ "?t # us"]) (auto simp: relabelled_def [of minor t])
  qed
qed

lemma relabel_all:
  assumes "\<exists>u \<in> set ts. \<not> minor (turn_speaker_id u)"
  shows "list_all2 (relabelled minor) ts (relabel_turns minor [] ts)"
    and "turn_ids (relabel_turns minor [] ts) = {i \<in> turn_ids ts. \<not> minor i}"
proof -
  obtain us where us: "relabel_turns minor [] ts = us" "list_all2 (relabelled minor) ts us"
    "turn_ids us \<subseteq> turn_ids ts"
    using relabel_turns_relabelled [of "[]" ts minor] assms by auto
  then show "list_all2 (relabelled minor) ts (relabel_turns minor [] ts)"
    by simp
  have "{i \<in> turn_ids ts. \<not> minor i} \<subseteq> turn_ids us" and "\<forall>u \<in> set us. \<not> minor (turn_speaker_id u)"
    using us(2) by (induction rule: list_all2_induct) (auto simp: relabelled_def)
  then show "turn_ids (relabel_turns minor [] ts) = {i \<in> turn_ids ts. \<not> minor i}"
    using us by (auto simp: turn_ids_def)
qed

section \<open>Merging\<close>

text \<open>A turn lies inside another one of the same speaker.\<close>

definition inside_turn :: "speaker_turn \<Rightarrow> speaker_turn \<Rightarrow> bool" where
  "inside_turn t u \<longleftrightarrow>
     turn_start_ms u \<le> turn_start_ms t \<and> turn_end_ms t \<le> turn_end_ms u \<and>
     turn_speaker_id u = turn_speaker_id t"

definition starts_sorted :: "speaker_turn list \<Rightarrow> bool" where
  "starts_sorted ts = sorted (map turn_start_ms ts)"

lemma merge_turns_merged:
  assumes "starts_sorted (out @ ts)" and "distinct_adj (map turn_speaker_id out)"
    and "list_all (\<lambda>t. turn_start_ms t \<le> turn_end_ms t) (out @ ts)"
  defines "us \<equiv> merge_turns out ts"
  shows "starts_sorted us" and "distinct_adj (map turn_speaker_id us)"
    and "list_all (\<lambda>t. turn_start_ms t \<le> turn_end_ms t) us"
    and "turn_ids us = turn_ids (out @ ts)"
    and "\<forall>t \<in> set (out @ ts). \<exists>u \<in> set us. inside_turn t u"
proof -
  have "starts_sorted us \<and> distinct_adj (map turn_speaker_id us) \<and>
    list_all (\<lambda>t. turn_start_ms t \<le> turn_end_ms t) us \<and> turn_ids us = turn_ids (out @ ts) \<and>
    (\<forall>t \<in> set (out @ ts). \<exists>u \<in> set us. inside_turn t u)"
    using assms(1-3) unfolding us_def
  proof (induction out ts rule: merge_turns.induct)
    case (1 out)
    then show ?case by (auto simp: inside_turn_def)
  next
    case (2 out t ts)
    show ?case
    proof (cases "out \<noteq> [] \<and> turn_speaker_id (last out) = turn_speaker_id t")
      case True
      then obtain ms m where out: "out = ms @ [m]" and same: "turn_speaker_id m = turn_speaker_id t"
        by (metis append_butlast_last_id)
      let ?m = "m\<lparr>turn_end_ms := max (turn_end_ms m) (turn_end_ms t)\<rparr>"
      let ?us = "merge_turns (ms @ [?m]) ts"
      have step: "merge_turns out (t # ts) = ?us"
        using out same by simp
      have order: "turn_start_ms m \<le> turn_start_ms t"
        using "2.prems"(1) out by (auto simp: starts_sorted_def sorted_append)
      have "starts_sorted ((ms @ [?m]) @ ts)" and "distinct_adj (map turn_speaker_id (ms @ [?m]))"
        and "list_all (\<lambda>t. turn_start_ms t \<le> turn_end_ms t) ((ms @ [?m]) @ ts)"
        using "2.prems" out by (auto simp: starts_sorted_def sorted_append max_def)
      with "2.IH"(1) True out have IH: "starts_sorted ?us" "distinct_adj (map turn_speaker_id ?us)"
        "list_all (\<lambda>t. turn_start_ms t \<le> turn_end_ms t) ?us"
        "turn_ids ?us = turn_ids ((ms @ [?m]) @ ts)"
        "\<forall>t \<in> set ((ms @ [?m]) @ ts). \<exists>u \<in> set ?us. inside_turn t u"
        by auto
      from IH(5) obtain u where u: "u \<in> set ?us" "inside_turn ?m u"
        by auto
      then have "inside_turn m u" and "inside_turn t u"
        using order same by (auto simp: inside_turn_def)
      with IH u step out same show ?thesis
        by auto
    next
      case False
      have "distinct_adj (map turn_speaker_id (out @ [t]))"
        using "2.prems"(2) False by (auto simp: distinct_adj_append_iff last_map)
      then show ?thesis
        using "2.IH"(2) [OF False] "2.prems" False by auto
    qed
  qed
  then show "starts_sorted us" and "distinct_adj (map turn_speaker_id us)"
    and "list_all (\<lambda>t. turn_start_ms t \<le> turn_end_ms t) us"
    and "turn_ids us = turn_ids (out @ ts)"
    and "\<forall>t \<in> set (out @ ts). \<exists>u \<in> set us. inside_turn t u"
    by blast+
qed

section \<open>Numbering\<close>

text \<open>Each speaker is one of the first \<open>n\<close> or the next one: numbers in order of first appearance.\<close>

fun numbered_from :: "nat \<Rightarrow> u32 list \<Rightarrow> bool" where
  "numbered_from n [] = True"
| "numbered_from n (i # is') = (if i < n then numbered_from n is' else i = n \<and> numbered_from (Suc n) is')"

lemma renumber_turns_numbered:
  assumes "inj_on (the \<circ> remap) (dom remap)" and "(the \<circ> remap) ` dom remap = {..<n}"
    and "n + card (turn_ids ts - dom remap) \<le> 2 ^ 32"
  shows "\<exists>f. (\<forall>i \<in> dom remap. f i = the (remap i)) \<and> inj_on f (dom remap \<union> turn_ids ts) \<and>
    renumber_turns remap (n mod 2 ^ 32) ts = map (\<lambda>t. t\<lparr>turn_speaker_id := f (turn_speaker_id t)\<rparr>) ts \<and>
    f ` (dom remap \<union> turn_ids ts) = {..<n + card (turn_ids ts - dom remap)} \<and>
    numbered_from n (map (\<lambda>t. f (turn_speaker_id t)) ts)"
  using assms
proof (induction ts arbitrary: remap n)
  case Nil
  then show ?case by (intro exI [of _ "the \<circ> remap"]) simp
next
  case (Cons t ts)
  let ?i = "turn_speaker_id t"
  show ?case
  proof (cases "remap ?i")
    case (Some v)
    then have i: "?i \<in> dom remap" "the (remap ?i) = v"
      by auto
    then have ids: "turn_ids (t # ts) - dom remap = turn_ids ts - dom remap"
      "dom remap \<union> turn_ids (t # ts) = dom remap \<union> turn_ids ts"
      by auto
    have "v < n"
      using Cons.prems(2) i by force
    moreover obtain f where "\<forall>i \<in> dom remap. f i = the (remap i)" "inj_on f (dom remap \<union> turn_ids ts)"
      "renumber_turns remap (n mod 2 ^ 32) ts = map (\<lambda>t. t\<lparr>turn_speaker_id := f (turn_speaker_id t)\<rparr>) ts"
      "f ` (dom remap \<union> turn_ids ts) = {..<n + card (turn_ids ts - dom remap)}"
      "numbered_from n (map (\<lambda>t. f (turn_speaker_id t)) ts)"
      using Cons.IH [OF Cons.prems(1,2)] Cons.prems(3) unfolding ids by auto
    ultimately show ?thesis
      using Some i unfolding ids by (intro exI [of _ f]) auto
  next
    case None
    then have i: "?i \<notin> dom remap"
      by auto
    let ?remap = "remap(?i \<mapsto> n)"
    have dom: "dom ?remap = insert ?i (dom remap)"
      by auto
    have new: "turn_ids (t # ts) - dom remap = insert ?i (turn_ids ts - dom ?remap)"
      using i by auto
    have finite: "finite (turn_ids us)" for us
      by (simp add: turn_ids_def)
    have card: "n + card (turn_ids (t # ts) - dom remap) = Suc n + card (turn_ids ts - dom ?remap)"
      unfolding new by (subst card_insert_disjoint) (auto simp: finite)
    then have small: "n < 2 ^ 32"
      using Cons.prems(3) by simp
    have agree: "the (?remap j) = the (remap j)" if "j \<in> dom remap" for j
      using that i by auto
    have image: "(the \<circ> ?remap) ` dom remap = {..<n}"
      using Cons.prems(2) agree by (simp cong: image_cong)
    have inj: "inj_on (the \<circ> ?remap) (dom ?remap)"
    proof -
      have "inj_on (the \<circ> ?remap) (dom remap)"
        using Cons.prems(1) agree by (simp cong: inj_on_cong)
      moreover have "(the \<circ> ?remap) ?i \<notin> (the \<circ> ?remap) ` (dom remap - {?i})"
      proof -
        have "dom remap - {?i} = dom remap" and "(the \<circ> ?remap) ?i = n"
          using i by auto
        then show ?thesis
          unfolding image by (simp only: image) simp
      qed
      ultimately show ?thesis
        unfolding dom inj_on_insert by blast
    qed
    have "(the \<circ> ?remap) ` dom ?remap = {..<Suc n}"
      unfolding dom image_insert image by auto
    moreover have "Suc n + card (turn_ids ts - dom ?remap) \<le> 2 ^ 32"
      using Cons.prems(3) unfolding card .
    ultimately obtain f where f: "\<forall>i \<in> dom ?remap. f i = the (?remap i)" "inj_on f (dom ?remap \<union> turn_ids ts)"
      "renumber_turns ?remap (Suc n mod 2 ^ 32) ts = map (\<lambda>t. t\<lparr>turn_speaker_id := f (turn_speaker_id t)\<rparr>) ts"
      "f ` (dom ?remap \<union> turn_ids ts) = {..<Suc n + card (turn_ids ts - dom ?remap)}"
      "numbered_from (Suc n) (map (\<lambda>t. f (turn_speaker_id t)) ts)"
      using Cons.IH [OF inj] by blast
    have "f ?i = n" and "\<forall>j \<in> dom remap. f j = the (remap j)"
      using f(1) agree by auto
    moreover have "dom ?remap \<union> turn_ids ts = dom remap \<union> turn_ids (t # ts)"
      by auto
    ultimately show ?thesis
      using f None small unfolding card by (intro exI [of _ f]) (simp del: fun_upd_apply dom_fun_upd)
  qed
qed

section \<open>Folding\<close>

definition collapses :: "speaker_turn list \<Rightarrow> bool" where
  "collapses turns \<longleftrightarrow> all_total turns \<noteq> 0 \<and>
     (\<exists>i \<in> turn_ids turns. is_minor turns i) \<and> (\<exists>i \<in> turn_ids turns. \<not> is_minor turns i)"

definition major_speakers :: "speaker_turn list \<Rightarrow> u32 set" where
  "major_speakers turns = {i \<in> turn_ids turns. \<not> is_minor turns i}"

definition wf_turn :: "speaker_turn \<Rightarrow> bool" where
  "wf_turn t \<longleftrightarrow> turn_start_ms t \<le> turn_end_ms t \<and> turn_speaker_id t < 2 ^ 32"

text \<open>Relabelling and merging together, before the numbers are given.\<close>

definition folded_turns :: "speaker_turn list \<Rightarrow> speaker_turn list" where
  "folded_turns turns = merge_turns [] (relabel_turns (is_minor turns) [] turns)"

lemma collapse_eq:
  "collapse_minor_speakers turns =
     (if collapses turns then renumber_turns Map.empty 0 (folded_turns turns) else turns)"
  by (auto simp: collapse_minor_speakers_def collapses_def folded_turns_def turn_ids_def list_ex_iff Let_def)

lemma relabelled_list:
  assumes "list_all2 (relabelled minor) ts us"
  shows "map turn_start_ms us = map turn_start_ms ts" and "map turn_end_ms us = map turn_end_ms ts"
    and "list_all (\<lambda>t. turn_start_ms t \<le> turn_end_ms t) us = list_all (\<lambda>t. turn_start_ms t \<le> turn_end_ms t) ts"
    and "t \<in> set ts \<Longrightarrow> \<exists>u \<in> set us. relabelled minor t u"
  using assms by (induction rule: list_all2_induct) (auto simp: relabelled_def)

lemma folded_turns_sound:
  assumes "starts_sorted turns" and "\<forall>t \<in> set turns. wf_turn t" and "collapses turns"
  defines "us \<equiv> folded_turns turns"
  shows "starts_sorted us" and "distinct_adj (map turn_speaker_id us)"
    and "list_all (\<lambda>t. turn_start_ms t \<le> turn_end_ms t) us"
    and "turn_ids us = major_speakers turns"
    and "\<forall>t \<in> set turns. \<exists>u \<in> set us. turn_start_ms u \<le> turn_start_ms t \<and> turn_end_ms t \<le> turn_end_ms u \<and>
      (\<not> is_minor turns (turn_speaker_id t) \<longrightarrow> turn_speaker_id u = turn_speaker_id t)"
proof -
  have major: "\<exists>u \<in> set turns. \<not> is_minor turns (turn_speaker_id u)"
    using assms(3) by (auto simp: collapses_def turn_ids_def)
  let ?rs = "relabel_turns (is_minor turns) [] turns"
  note rel = relabel_all [OF major]
  have "starts_sorted ?rs"
    using assms(1) relabelled_list(1) [OF rel(1)] by (simp add: starts_sorted_def)
  moreover have "list_all (\<lambda>t. turn_start_ms t \<le> turn_end_ms t) ?rs"
    using assms(2) relabelled_list(3) [OF rel(1)] by (auto simp: list_all_iff wf_turn_def)
  ultimately have merged: "starts_sorted us" "distinct_adj (map turn_speaker_id us)"
    "list_all (\<lambda>t. turn_start_ms t \<le> turn_end_ms t) us" "turn_ids us = turn_ids ?rs"
    "\<forall>t \<in> set ?rs. \<exists>u \<in> set us. inside_turn t u"
    using merge_turns_merged [of "[]" ?rs] unfolding us_def folded_turns_def by simp_all
  then show "starts_sorted us" and "distinct_adj (map turn_speaker_id us)"
    and "list_all (\<lambda>t. turn_start_ms t \<le> turn_end_ms t) us"
    by simp_all
  show "turn_ids us = major_speakers turns"
    using merged(4) rel(2) by (simp add: major_speakers_def)
  show "\<forall>t \<in> set turns. \<exists>u \<in> set us. turn_start_ms u \<le> turn_start_ms t \<and> turn_end_ms t \<le> turn_end_ms u \<and>
      (\<not> is_minor turns (turn_speaker_id t) \<longrightarrow> turn_speaker_id u = turn_speaker_id t)"
  proof
    fix t
    assume "t \<in> set turns"
    then obtain r where r: "r \<in> set ?rs" "relabelled (is_minor turns) t r"
      using relabelled_list(4) [OF rel(1)] by blast
    then obtain u where "u \<in> set us" "inside_turn r u"
      using merged(5) by blast
    with r show "\<exists>u \<in> set us. turn_start_ms u \<le> turn_start_ms t \<and> turn_end_ms t \<le> turn_end_ms u \<and>
      (\<not> is_minor turns (turn_speaker_id t) \<longrightarrow> turn_speaker_id u = turn_speaker_id t)"
      by (intro bexI [of _ u]) (auto simp: relabelled_def inside_turn_def)
  qed
qed

text \<open>The numbers are given by a function that is injective on the major speakers.\<close>

lemma collapse_renumbers:
  assumes "starts_sorted turns" and "\<forall>t \<in> set turns. wf_turn t" and "collapses turns"
  shows "\<exists>f. inj_on f (major_speakers turns) \<and> f ` major_speakers turns = {..<card (major_speakers turns)} \<and>
    numbered_from 0 (map (\<lambda>t. f (turn_speaker_id t)) (folded_turns turns)) \<and>
    collapse_minor_speakers turns =
      map (\<lambda>t. t\<lparr>turn_speaker_id := f (turn_speaker_id t)\<rparr>) (folded_turns turns)"
proof -
  have "turn_ids turns \<subseteq> {..<2 ^ 32}"
    using assms(2) by (auto simp: turn_ids_def wf_turn_def)
  then have "major_speakers turns \<subseteq> {..<2 ^ 32}"
    by (auto simp: major_speakers_def)
  from card_mono [OF _ this] have "card (major_speakers turns) \<le> 2 ^ 32"
    by simp
  then have "\<exists>f. inj_on f (turn_ids (folded_turns turns)) \<and>
    renumber_turns Map.empty 0 (folded_turns turns) =
      map (\<lambda>t. t\<lparr>turn_speaker_id := f (turn_speaker_id t)\<rparr>) (folded_turns turns) \<and>
    f ` turn_ids (folded_turns turns) = {..<card (turn_ids (folded_turns turns))} \<and>
    numbered_from 0 (map (\<lambda>t. f (turn_speaker_id t)) (folded_turns turns))"
    using renumber_turns_numbered [of Map.empty 0 "folded_turns turns"] folded_turns_sound(4) [OF assms]
    by simp
  then show ?thesis
    using assms(3) folded_turns_sound(4) [OF assms] by (auto simp: collapse_eq)
qed

text \<open>C33: Folding small speakers away keeps every turn: it lies inside a turn of the result, which
  belongs to the same person when that person is a major speaker, under a numbering that keeps
  persons apart. The speakers of the result are exactly as many as there are major speakers, numbered
  from zero in order of appearance, two neighbouring turns have different speakers, and the turns
  stay sorted.\<close>

theorem collapse_keeps_turns:
  assumes "starts_sorted turns" and "\<forall>t \<in> set turns. wf_turn t" and "collapses turns"
  shows "starts_sorted (collapse_minor_speakers turns) \<and>
    distinct_adj (map turn_speaker_id (collapse_minor_speakers turns)) \<and>
    numbered_from 0 (map turn_speaker_id (collapse_minor_speakers turns)) \<and>
    turn_ids (collapse_minor_speakers turns) = {..<card (major_speakers turns)} \<and>
    (\<exists>f. inj_on f (major_speakers turns) \<and>
      (\<forall>t \<in> set turns. \<exists>u \<in> set (collapse_minor_speakers turns).
         turn_start_ms u \<le> turn_start_ms t \<and> turn_end_ms t \<le> turn_end_ms u \<and>
         (\<not> is_minor turns (turn_speaker_id t) \<longrightarrow> turn_speaker_id u = f (turn_speaker_id t))))"
proof -
  obtain f where f: "inj_on f (major_speakers turns)" "f ` major_speakers turns = {..<card (major_speakers turns)}"
    "numbered_from 0 (map (\<lambda>t. f (turn_speaker_id t)) (folded_turns turns))"
    "collapse_minor_speakers turns =
      map (\<lambda>t. t\<lparr>turn_speaker_id := f (turn_speaker_id t)\<rparr>) (folded_turns turns)"
    using collapse_renumbers [OF assms] by blast
  note sound = folded_turns_sound [OF assms]
  have ids: "map turn_speaker_id (collapse_minor_speakers turns) = map f (map turn_speaker_id (folded_turns turns))"
    unfolding f(4) by simp
  have "starts_sorted (collapse_minor_speakers turns)"
    using sound(1) unfolding f(4) by (simp add: starts_sorted_def comp_def)
  moreover have "distinct_adj (map turn_speaker_id (collapse_minor_speakers turns))"
    unfolding ids by (rule distinct_adj_mapI [OF sound(2)]) (use sound(4) f(1) in \<open>simp add: turn_ids_def\<close>)
  moreover have "numbered_from 0 (map turn_speaker_id (collapse_minor_speakers turns))"
    unfolding ids using f(3) by (simp add: comp_def)
  moreover have "turn_ids (collapse_minor_speakers turns) = f ` turn_ids (folded_turns turns)"
    unfolding f(4) by (simp add: turn_ids_def image_image)
  moreover have "\<forall>t \<in> set turns. \<exists>u \<in> set (collapse_minor_speakers turns).
       turn_start_ms u \<le> turn_start_ms t \<and> turn_end_ms t \<le> turn_end_ms u \<and>
       (\<not> is_minor turns (turn_speaker_id t) \<longrightarrow> turn_speaker_id u = f (turn_speaker_id t))"
    using sound(5) unfolding f(4) by fastforce
  ultimately show ?thesis
    using f(1,2) sound(4) by auto
qed

theorem collapse_keeps_turns_witness:
  "turn_ids (collapse_minor_speakers sample_turns) = {..<2}"
proof -
  have small: "total_speech sample_turns < 2 ^ 53"
    by (simp add: sample_turns_def total_speech_def turn_duration_def)
  have minor: "is_minor sample_turns i \<longleftrightarrow> 20 * speech_of i sample_turns < 1981" for i
  proof -
    have "total_speech sample_turns = 1981"
      by (simp add: sample_turns_def total_speech_def turn_duration_def)
    moreover have "speaker_total sample_turns i = speech_of i sample_turns"
      by (simp add: sample_turns_def speaker_total_def speech_of_def total_speech_def turn_duration_def)
    moreover have "all_total sample_turns = 1981"
      by (simp add: sample_turns_def all_total_def turn_duration_def)
    ultimately show ?thesis
      using below_share_exact [of 1981] speech_of_le [of i sample_turns] by (simp add: is_minor_def)
  qed
  have "starts_sorted sample_turns" and "\<forall>t \<in> set sample_turns. wf_turn t"
    by (simp_all add: sample_turns_def starts_sorted_def wf_turn_def)
  moreover have majors: "major_speakers sample_turns = {2, 4}"
    unfolding major_speakers_def minor
    by (auto simp: sample_turns_def speech_of_def total_speech_def turn_duration_def)
  moreover have "collapses sample_turns"
    unfolding collapses_def minor
    by (simp add: sample_turns_def speech_of_def total_speech_def turn_duration_def all_total_def)
  ultimately show ?thesis
    using collapse_keeps_turns [of sample_turns] by (simp del: atLeastLessThan_iff)
qed

section \<open>The turns of the adapter\<close>

lemma relabel_turns_empty: "relabel_turns minor seen ts = [] \<longleftrightarrow> seen = [] \<and> ts = []"
  by (induction minor seen ts rule: relabel_turns.induct) (auto split: option.splits)

lemma merge_turns_empty: "merge_turns out ts = [] \<longleftrightarrow> out = [] \<and> ts = []"
  by (induction out ts rule: merge_turns.induct) auto

lemma renumber_turns_empty: "renumber_turns remap fresh ts = [] \<longleftrightarrow> ts = []"
  by (cases ts) (auto split: option.splits)

lemma turns_empty: "clamp_turns ts = [] \<longleftrightarrow> ts = []" "collapse_minor_speakers ts = [] \<longleftrightarrow> ts = []"
  by (auto simp: clamp_turns_def collapse_eq folded_turns_def relabel_turns_empty merge_turns_empty
      renumber_turns_empty split: list.splits)

text \<open>What every diarizer promises: turns in order that do not overlap.\<close>

definition ordered_turns :: "speaker_turn list \<Rightarrow> bool" where
  "ordered_turns ts \<longleftrightarrow>
     sorted_wrt (\<lambda>t u. turn_end_ms t \<le> turn_start_ms u) ts \<and>
     list_all (\<lambda>t. turn_start_ms t \<le> turn_end_ms t) ts"

lemma clamp_after_ordered:
  "ordered_turns (clamp_after p ts) \<and> list_all (\<lambda>t. p \<le> turn_start_ms t) (clamp_after p ts)"
proof (induction p ts rule: clamp_after.induct)
  case (2 p t ts)
  define start where "start = (if turn_start_ms t < p then p else turn_start_ms t)"
  define stop where "stop = (if turn_end_ms t < start then start else turn_end_ms t)"
  have IH: "ordered_turns (clamp_after stop ts)" "list_all (\<lambda>t. stop \<le> turn_start_ms t) (clamp_after stop ts)"
    using 2 [OF start_def stop_def] by simp_all
  have le: "start \<le> stop" "p \<le> start"
    by (simp_all add: start_def stop_def)
  have "list_all (\<lambda>t. p \<le> turn_start_ms t) (clamp_after stop ts)"
    by (rule list.pred_mono_strong [OF IH(2)]) (use le in linarith)
  moreover have "clamp_after p (t # ts) = t\<lparr>turn_start_ms := start, turn_end_ms := stop\<rparr> # clamp_after stop ts"
    by (simp add: start_def stop_def Let_def)
  ultimately show ?case
    using IH le by (simp add: ordered_turns_def list_all_iff)
qed (simp add: ordered_turns_def)

lemma clamp_turns_ordered:
  assumes "list_all (\<lambda>t. turn_start_ms t \<le> turn_end_ms t) ts"
  shows "ordered_turns (clamp_turns ts)"
proof (cases ts)
  case Nil
  then show ?thesis by (simp add: clamp_turns_def ordered_turns_def)
next
  case (Cons t us)
  then show ?thesis
    using assms clamp_after_ordered [of "turn_end_ms t" us]
    by (auto simp: clamp_turns_def ordered_turns_def list_all_iff)
qed

lemma collapse_forward:
  assumes "starts_sorted turns" and "\<forall>t \<in> set turns. wf_turn t"
  shows "list_all (\<lambda>t. turn_start_ms t \<le> turn_end_ms t) (collapse_minor_speakers turns)"
proof (cases "collapses turns")
  case True
  then obtain f where "collapse_minor_speakers turns =
      map (\<lambda>t. t\<lparr>turn_speaker_id := f (turn_speaker_id t)\<rparr>) (folded_turns turns)"
    using collapse_renumbers [OF assms] by blast
  then show ?thesis
    using folded_turns_sound(3) [OF assms True] by (simp add: list_all_iff)
next
  case False
  then show ?thesis
    using assms(2) by (simp add: collapse_eq list_all_iff wf_turn_def)
qed

text \<open>What is relied on of the library: it finds segments that end no earlier than they start.\<close>

definition forward_segments :: "sherpa_env \<Rightarrow> string \<times> string \<Rightarrow> bool" where
  "forward_segments sh models \<longleftrightarrow>
     (\<forall>compute samples segs. sh_start sh (fst models) (snd models) = Inr compute \<longrightarrow>
        compute samples = Inr segs \<longrightarrow> (\<forall>s \<in> set segs. f32_ordered (ss_start s) (ss_end s)))"

lemma thousand_scale: "f32_scale 0x447A0000"
  by (simp add: f32_scale_def f32_negative_def f32_magnitude_def)

lemma turn_of_sherpa_wf: "f32_ordered (ss_start s) (ss_end s) \<Longrightarrow> wf_turn (turn_of_sherpa s)"
  using f32_to_u64_scale_mono [OF _ thousand_scale] unsigned_less [of "ss_speaker s", where 'a = nat]
  by (simp add: wf_turn_def turn_of_sherpa_def)

lemma diarize_wav_ordered:
  assumes "forward_segments sh models" and "diarize_wav sh models d path = Inr turns"
  shows "ordered_turns turns"
proof -
  obtain compute samples segs where lib: "sh_start sh (fst models) (snd models) = Inr compute"
    "compute samples = Inr segs"
    and turns: "turns = clamp_turns (collapse_minor_speakers (sort_key turn_start_ms (map turn_of_sherpa segs)))"
    using assms(2) unfolding diarize_wav_def by (auto split: if_splits sum.splits)
  let ?ts = "sort_key turn_start_ms (map turn_of_sherpa segs)"
  have "\<forall>s \<in> set segs. f32_ordered (ss_start s) (ss_end s)"
    using assms(1) lib unfolding forward_segments_def by blast
  then have "\<forall>t \<in> set ?ts. wf_turn t"
    using turn_of_sherpa_wf by auto
  moreover have "starts_sorted ?ts"
    by (simp add: starts_sorted_def)
  ultimately show ?thesis
    unfolding turns by (intro clamp_turns_ordered collapse_forward)
qed

text \<open>C32: The turns that the diarizer returns are in the order of their starts, none overlaps another
  one and none ends before it starts; and no temporary file is left, also when the run fails. This
  holds for every input of a library whose segments are well-formed, since the clamping loop repairs
  the overlaps.\<close>

theorem diarize_ordered:
  assumes "forward_segments sh models" and "d (transcode_path (sh_audio sh) n) = None"
    and "sherpa_diarize sh models path (d, n) = (r, d', n')"
  shows "d' = d \<and> (case r of Inr turns \<Rightarrow> ordered_turns turns | Inl e \<Rightarrow> True)"
proof -
  obtain w e1 n1 where ensured: "ensure_wav16k (sh_audio sh) path (d, n) = (w, e1, n1)"
    by (metis prod_cases3)
  show ?thesis
    using assms(3) ensure_wav16k_drops [OF assms(2) ensured] ensured
      diarize_wav_ordered [OF assms(1)]
    by (auto simp: sherpa_diarize_def split: if_splits sum.splits asr_error.splits)
qed

definition talk_env :: sherpa_env where
  "talk_env =
     \<lparr>sh_audio = clip_env, sh_path_debug = id, sh_read_audio = (\<lambda>d p. Inr ([], 16000)),
      sh_start = (\<lambda>seg emb. Inr (\<lambda>samples. Inr
        [\<lparr>ss_start = 0x3F800000, ss_end = 0x40400000, ss_speaker = 1\<rparr>,
         \<lparr>ss_start = 0, ss_end = 0x40000000, ss_speaker = 0\<rparr>]))\<rparr>"

theorem diarize_ordered_witness:
  "\<exists>turns. sherpa_diarize talk_env (''/s'', ''/e'') ''/clip.mov'' ([''/clip.mov'' \<mapsto> FsFile ''moov''], 0) =
     (Inr turns, [''/clip.mov'' \<mapsto> FsFile ''moov''], 1) \<and> ordered_turns turns \<and> turns \<noteq> []"
proof -
  let ?d = "[''/clip.mov'' \<mapsto> FsFile ''moov''] :: fs" and ?models = "(''/s'', ''/e'')"
  obtain r d' n' where run: "sherpa_diarize talk_env ?models ''/clip.mov'' (?d, 0) = (r, d', n')"
    by (metis prod_cases3)
  have lib: "forward_segments talk_env ?models"
    by (simp add: forward_segments_def talk_env_def f32_ordered_def f32_is_nan_def f32_magnitude_def f32_signed_def)
  have path: "transcode_path clip_env 0 = ''/tmp/panops-transcode-7-0.wav''"
    by code_simp
  then have "?d (transcode_path (sh_audio talk_env) 0) = None"
    by (simp add: talk_env_def)
  from diarize_ordered [OF lib this run]
  have "d' = ?d" and ordered: "\<And>turns. r = Inr turns \<Longrightarrow> ordered_turns turns"
    by auto
  have mov: "\<not> is_wav ''/clip.mov''" and utf: "valid_utf8 ''/tmp/panops-transcode-7-0.wav''"
    "valid_utf8 ''/s''" "valid_utf8 ''/e''"
    by code_simp+
  obtain segs where segs: "sh_start talk_env s e = Inr (\<lambda>samples. Inr segs)" "segs \<noteq> []" for s e
    by (simp add: talk_env_def)
  let ?turns = "clamp_turns (collapse_minor_speakers (sort_key turn_start_ms (map turn_of_sherpa segs)))"
  have clip: "au_macos clip_env" "au_afconvert clip_env d p = Exited True (Some ''RIFF'')" for d p
    by (simp_all add: clip_env_def)
  have talk: "sh_audio talk_env = clip_env" "sh_read_audio talk_env d p = Inr ([], 16000)" for d p
    by (simp_all add: talk_env_def)
  have "r = Inr ?turns \<and> n' = 1"
    using run unfolding sherpa_diarize_def ensure_wav16k_def transcode_to_wav16k_def
    by (simp add: mov clip talk path utf is_file_def wav16k_file_def u64_add_def diarize_wav_def
        segs(1) Let_def del: valid_utf8.simps)
  moreover have "?turns \<noteq> []"
    using segs(2) unfolding turns_empty by (simp flip: set_empty)
  ultimately show ?thesis
    using run \<open>d' = ?d\<close> ordered by auto
qed

end
