(* ===== verification/Speech_Adapters.thy ===== *)
theory Speech_Adapters
  imports Recursive_Asr Audio Floats Error_Text
begin

text \<open>
  The adapters that listen: \<open>WhisperVad\<close> (\<open>panops-portable/src/whisper_vad.rs\<close>), \<open>WhisperRsAsr\<close>
  (\<open>whisper_adapter.rs\<close>), and their fakes of \<open>panops-core/src/conformance/fakes.rs\<close>. The whisper
  library is a field of an environment: it opens models, finds voiced segments and decodes audio.
  Sample counts are below \<open>2 ^ 54\<close> and frames below \<open>2 ^ 50\<close> milliseconds, so their products do not
  overflow.
\<close>

definition wrong_rate :: "u32 \<Rightarrow> string" where
  "wrong_rate sample_rate = ''expected 16 kHz, got '' @ dec sample_rate @ '' Hz''"

section \<open>The voice detector\<close>

text \<open>A voiced segment has its times in hundredths of a second; \<open>10.0\<close> is the pattern \<open>0x41200000\<close>.\<close>

record vad_env =
  ve_path_debug :: "string \<Rightarrow> string"
  ve_open :: "string \<Rightarrow> string + unit"
  ve_segments :: "f32 list \<Rightarrow> string + (f32 \<times> f32) list"
  ve_poisoned :: "string option"

definition new_whisper_vad :: "vad_env \<Rightarrow> fs \<Rightarrow> string \<Rightarrow> vad_error + unit" where
  "new_whisper_vad ve d model_path =
     (if \<not> is_file d model_path
      then Inl (VadModel (''expected vad model path to be a file: '' @ ve_path_debug ve model_path))
      else if \<not> valid_utf8 model_path then Inl (VadModel ''non-UTF-8 vad model path'')
      else map_sum VadModel id (ve_open ve model_path))"

definition region_of_voiced :: "f32 \<times> f32 \<Rightarrow> speech_region" where
  "region_of_voiced s =
     \<lparr>region_start_ms = f32_to_u64 (f32_max (f32_mul (fst s) 0x41200000) 0),
      region_end_ms = f32_to_u64 (f32_max (f32_mul (snd s) 0x41200000) 0)\<rparr>"

definition whisper_detect_speech :: "vad_env \<Rightarrow> f32 list \<Rightarrow> u32 \<Rightarrow> vad_error + speech_region list" where
  "whisper_detect_speech ve samples sample_rate =
     (if sample_rate \<noteq> 16000 then Inl (VadInvalidAudio (wrong_rate sample_rate))
      else case ve_poisoned ve of
        Some e \<Rightarrow> Inl (VadModel (''vad mutex poisoned: '' @ e))
      | None \<Rightarrow>
          (case ve_segments ve samples of
             Inl e \<Rightarrow> Inl (VadModel e)
           | Inr segments \<Rightarrow>
               Inr (sort_key region_start_ms
                      (filter (\<lambda>r. region_start_ms r < region_end_ms r) (map region_of_voiced segments)))))"

text \<open>\<open>KnownRegionsFake\<close>: a frame is speech when its loudest sample reaches the threshold.\<close>

definition f32_abs :: "f32 \<Rightarrow> f32" where
  "f32_abs x = word_of_nat (f32_magnitude x)"

definition f32_ge :: "f32 \<Rightarrow> f32 \<Rightarrow> bool" where
  "f32_ge x y = (\<not> f32_is_nan x \<and> \<not> f32_is_nan y \<and> f32_signed y \<le> f32_signed x)"

record known_regions =
  kr_frame_ms :: u64
  kr_threshold :: f32

definition default_known_regions :: known_regions where
  "default_known_regions = \<lparr>kr_frame_ms = 100, kr_threshold = 0x3A83126F\<rparr>"

function chunks :: "nat \<Rightarrow> 'a list \<Rightarrow> 'a list list" where
  "chunks n xs = (if xs = [] \<or> n = 0 then [] else take n xs # chunks n (drop n xs))"
  by pat_completeness auto
termination
  by (relation "measure (\<lambda>(n, xs). length xs)") auto

declare chunks.simps [simp del]

definition peak_of :: "f32 list \<Rightarrow> f32" where
  "peak_of frame = fold (\<lambda>s m. f32_max m (f32_abs s)) frame 0"

fun known_frames ::
  "known_regions \<Rightarrow> nat \<Rightarrow> f32 list list \<Rightarrow> u64 option \<Rightarrow> speech_region list \<Rightarrow> speech_region list \<times> u64 option"
where
  "known_frames kr i [] current regions = (regions, current)"
| "known_frames kr i (frame # frames) current regions =
     (let frame_start_ms = i * kr_frame_ms kr
      in if f32_ge (peak_of frame) (kr_threshold kr)
         then known_frames kr (i + 1) frames
                (case current of None \<Rightarrow> Some frame_start_ms | Some s \<Rightarrow> Some s) regions
         else case current of
                Some start \<Rightarrow> known_frames kr (i + 1) frames None
                    (regions @ [\<lparr>region_start_ms = start, region_end_ms = frame_start_ms\<rparr>])
              | None \<Rightarrow> known_frames kr (i + 1) frames None regions)"

definition known_detect_speech ::
  "known_regions \<Rightarrow> f32 list \<Rightarrow> u32 \<Rightarrow> vad_error + speech_region list" where
  "known_detect_speech kr samples sample_rate =
     (if sample_rate \<noteq> 16000 then Inl (VadInvalidAudio (wrong_rate sample_rate))
      else let frame_size_samples = sample_rate * kr_frame_ms kr div 1000
           in if frame_size_samples = 0
              then Inl (VadInvalidAudio ''frame_ms produces zero samples per frame'')
              else case known_frames kr 0 (chunks frame_size_samples samples) None [] of
                     (regions, None) \<Rightarrow> Inr regions
                   | (regions, Some start) \<Rightarrow>
                       Inr (regions @ [\<lparr>region_start_ms = start,
                              region_end_ms = length samples * 1000 div sample_rate\<rparr>]))"

section \<open>The recogniser\<close>

text \<open>
  What a decoding returns: the language it detected and its segments, with their text (which may not
  be readable), their times in hundredths of a second and the probabilities of their tokens.
\<close>

record whisper_segment =
  wg_text :: "string + string"
  wg_start :: int
  wg_end :: int
  wg_n_tokens :: int
  wg_token :: "nat \<Rightarrow> f32 option"

record whisper_run =
  wr_lang_id :: int
  wr_n_segments :: int
  wr_segment :: "nat \<Rightarrow> whisper_segment option"

record whisper_env =
  we_path_debug :: "string \<Rightarrow> string"
  we_open :: "string \<Rightarrow> string + unit"
  we_create_state :: "string + unit"
  we_full :: "nat \<Rightarrow> f32 list \<Rightarrow> string option \<Rightarrow> string + whisper_run"
  we_lang_str :: "int \<Rightarrow> string option"
  we_parallelism :: "nat option"

definition new_whisper_asr :: "whisper_env \<Rightarrow> fs \<Rightarrow> string \<Rightarrow> asr_error + string" where
  "new_whisper_asr we d model_path =
     (if \<not> is_file d model_path
      then Inl (AsrModel (''expected model path to be a file: '' @ we_path_debug we model_path))
      else if \<not> valid_utf8 model_path then Inl (AsrModel ''non-UTF-8 model path'')
      else map_sum AsrModel (\<lambda>u. model_path) (we_open we model_path))"

definition whisper_model_name :: "string \<Rightarrow> string" where
  "whisper_model_name model_path =
     (case file_stem model_path of
        None \<Rightarrow> ''unknown''
      | Some s \<Rightarrow> if valid_utf8 s then s else ''unknown'')"

definition mean_probability :: "whisper_segment \<Rightarrow> f32" where
  "mean_probability g =
     (let n = nat (wg_n_tokens g);
          prob_sum = fold (\<lambda>j s. case wg_token g j of None \<Rightarrow> s | Some p \<Rightarrow> f32_add s p) [0..<n] 0
      in if 0 < wg_n_tokens g then f32_div prob_sum (f32_of_nat n) else 0)"

definition hundredths_to_ms :: "int \<Rightarrow> u64 \<Rightarrow> u64" where
  "hundredths_to_ms t duration_ms = min (nat (max t 0) * 10 mod 2 ^ 64) duration_ms"

fun whisper_segments ::
  "whisper_run \<Rightarrow> u64 \<Rightarrow> string option \<Rightarrow> nat list \<Rightarrow> asr_error + segment list" where
  "whisper_segments wr duration_ms lang [] = Inr []"
| "whisper_segments wr duration_ms lang (i # is') =
     (case wr_segment wr i of
        None \<Rightarrow> Inl (AsrTranscription (''segment '' @ dec i @ '' missing''))
      | Some g \<Rightarrow>
          (case wg_text g of
             Inl e \<Rightarrow> Inl (AsrTranscription e)
           | Inr body \<Rightarrow>
               map_sum id ((#)
                 \<lparr>seg_start_ms = hundredths_to_ms (wg_start g) duration_ms,
                  seg_end_ms = hundredths_to_ms (wg_end g) duration_ms,
                  seg_text = trim body, seg_language = lang, seg_confidence = mean_probability g,
                  seg_speaker_id = None\<rparr>) (whisper_segments wr duration_ms lang is')))"

definition whisper_duration_ms :: "nat \<Rightarrow> u64" where
  "whisper_duration_ms n = min (f64_quotient_floor (round_bits 53 (round_bits 53 n * 1000)) 16000) u64_max"

definition whisper_transcribe ::
  "whisper_env \<Rightarrow> string \<Rightarrow> f32 list \<Rightarrow> u32 \<Rightarrow> string option \<Rightarrow> asr_error + transcript" where
  "whisper_transcribe we model_path samples sample_rate language_hint =
     (if sample_rate \<noteq> 16000 then Inl (AsrInvalidAudio (wrong_rate sample_rate))
      else let audio_duration_ms = whisper_duration_ms (length samples);
               n_threads = min (case we_parallelism we of None \<Rightarrow> 1 | Some n \<Rightarrow> n) 8
           in case we_create_state we of
             Inl e \<Rightarrow> Inl (AsrTranscription e)
           | Inr u \<Rightarrow>
               (case we_full we n_threads samples language_hint of
                  Inl e \<Rightarrow> Inl (AsrTranscription e)
                | Inr wr \<Rightarrow>
                    (let detected_lang = (case language_hint of
                           Some hint \<Rightarrow> Some hint | None \<Rightarrow> we_lang_str we (wr_lang_id wr))
                     in map_sum id (\<lambda>segments.
                          \<lparr>tr_schema_version = transcript_schema_version,
                           tr_model = whisper_model_name model_path, tr_audio_path = [],
                           tr_audio_duration_ms = audio_duration_ms, tr_diarized = False,
                           tr_segments = segments\<rparr>)
                          (whisper_segments wr audio_duration_ms detected_lang
                             [0..<nat (wr_n_segments wr)]))))"

section \<open>Fakes of the recogniser\<close>

text \<open>\<open>TranscriptFileFake\<close> and its sidecar file; \<open>1.0\<close> is the pattern \<open>0x3F800000\<close>.\<close>

definition fake_transcript :: "string \<Rightarrow> string \<Rightarrow> string option \<Rightarrow> transcript" where
  "fake_transcript audio_path body language =
     \<lparr>tr_schema_version = transcript_schema_version, tr_model = ''transcript-file-fake'',
      tr_audio_path = audio_path, tr_audio_duration_ms = 0, tr_diarized = False,
      tr_segments = [\<lparr>seg_start_ms = 0, seg_end_ms = 0, seg_text = body, seg_language = language,
        seg_confidence = 0x3F800000, seg_speaker_id = None\<rparr>]\<rparr>"

definition transcript_fake_transcribe ::
  "transcript \<Rightarrow> f32 list \<Rightarrow> u32 \<Rightarrow> string option \<Rightarrow> asr_error + transcript" where
  "transcript_fake_transcribe canned samples sample_rate language_hint =
     (if sample_rate \<noteq> 16000 then Inl (AsrInvalidAudio (wrong_rate sample_rate))
      else let audio_duration_ms = length samples * 1000 div sample_rate
           in Inr (canned\<lparr>tr_audio_duration_ms := audio_duration_ms,
                tr_segments := (case tr_segments canned of
                    [] \<Rightarrow> []
                  | seg # segs \<Rightarrow> seg\<lparr>seg_start_ms := 0, seg_end_ms := audio_duration_ms\<rparr> # segs)\<rparr>))"

definition infer_language :: "string \<Rightarrow> string option" where
  "infer_language audio_path =
     (case file_stem audio_path of
        None \<Rightarrow> None
      | Some stem \<Rightarrow>
          if \<not> valid_utf8 stem then None
          else if prefix ''en_'' stem \<or> prefix ''multi_speaker_'' stem then Some ''en''
          else if prefix ''es_'' stem then Some ''es''
          else if prefix ''mixed_'' stem then Some ''en''
          else None)"

text \<open>A sidecar that cannot be read is a panic.\<close>

definition read_canned_sidecar :: "fs \<Rightarrow> string \<Rightarrow> transcript option" where
  "read_canned_sidecar d audio_path =
     (case d (with_extension audio_path ''transcript.txt'') of
        Some (FsFile c) \<Rightarrow>
          if valid_utf8 c
          then Some (fake_transcript audio_path (trim c) (infer_language audio_path))
          else None
      | _ \<Rightarrow> None)"

text \<open>\<open>LowConfidenceAsr\<close>: the \<open>n\<close>-th call gets the \<open>n\<close>-th answer, later calls the last one.\<close>

definition low_confidence_asr :: "transcript list \<Rightarrow> nat option \<Rightarrow> asr_provider" where
  "low_confidence_asr responses error_after idx call =
     (if (case error_after of Some n \<Rightarrow> n \<le> idx | None \<Rightarrow> False)
      then Inl (AsrTranscription (''LowConfidenceAsr injected error at call '' @ dec idx))
      else Inr (responses ! min idx (length responses - 1)))"

section \<open>Fake of the diarizer\<close>

text \<open>\<open>KnownTurnsFake\<close>; the parser of the turns is a parameter.\<close>

definition known_turns_diarize ::
  "(string \<Rightarrow> string + speaker_turn list) \<Rightarrow> (string \<Rightarrow> string) \<Rightarrow> fs \<Rightarrow> string \<Rightarrow> diar_error + speaker_turn list"
where
  "known_turns_diarize parse path_debug d audio_path =
     (if d audio_path = None then Inl (DiarAudioNotFound audio_path)
      else let turns_path = with_extension audio_path ''turns.json''
           in case (case d turns_path of
                      None \<Rightarrow> Inl ''No such file or directory''
                    | Some FsDir \<Rightarrow> Inl ''Is a directory''
                    | Some (FsFile c) \<Rightarrow>
                        if valid_utf8 c then Inr c else Inl ''stream did not contain valid UTF-8'') of
             Inl e \<Rightarrow> Inl (DiarInvalidAudio (''read sidecar '' @ path_debug turns_path @ '': '' @ e))
           | Inr body \<Rightarrow>
               map_sum (\<lambda>e. DiarDiarization (''parse '' @ path_debug turns_path @ '': '' @ e)) id (parse body))"

end
