(* ===== verification/Speech_Correct.thy ===== *)
theory Speech_Correct
  imports Speech_Adapters
begin

text \<open>
  Correctness of the adapters that listen: the contract of a voice detector as a locale, with the real
  and the fake detector as its instances; the recogniser returns well-formed transcripts; its
  floating-point duration is the one that the pipeline computes with whole numbers.
\<close>

section \<open>Voice detectors\<close>

definition forward_region :: "speech_region \<Rightarrow> bool" where
  "forward_region r \<longleftrightarrow> region_start_ms r \<le> region_end_ms r"

lemma merge_regions_loop_forward:
  "list_all forward_region (out @ rs) \<Longrightarrow> list_all forward_region (merge_regions_loop gap_ms out rs)"
proof (induction gap_ms out rs rule: merge_regions_loop.induct)
  case (2 gap_ms out r rs)
  show ?case
  proof (cases "out \<noteq> [] \<and> region_start_ms r - region_end_ms (last out) \<le> gap_ms")
    case True
    then obtain os p where out: "out = os @ [p]"
      by (metis rev_exhaust)
    with 2(1) [OF True] 2(3) True show ?thesis
      by (simp add: forward_region_def max.coboundedI1)
  next
    case False
    with 2(2) [OF False] 2(3) show ?thesis
      by auto
  qed
qed simp

locale voice_detector =
  fixes detect :: "f32 list \<Rightarrow> u32 \<Rightarrow> vad_error + speech_region list"
  assumes rate: "detect samples sample_rate = Inr regions \<Longrightarrow> sample_rate = 16000"
    and in_order: "detect samples sample_rate = Inr regions \<Longrightarrow> sorted (map region_start_ms regions)"
    and forward: "detect samples sample_rate = Inr regions \<Longrightarrow> list_all forward_region regions"
begin

lemma merged_regions:
  assumes "detect samples sample_rate = Inr regions"
  shows "sorted_wrt (apart gap_ms) (merge_adjacent_regions regions gap_ms)"
    and "list_all forward_region (merge_adjacent_regions regions gap_ms)"
    and "r \<in> set regions \<Longrightarrow> \<exists>m \<in> set (merge_adjacent_regions regions gap_ms). inside r m"
proof -
  have "sort_key region_start_ms regions = regions"
    using in_order [OF assms] by (rule sort_key_id_if_sorted)
  then have eq: "merge_adjacent_regions regions gap_ms = merge_regions_loop gap_ms [] regions"
    by (simp add: merge_adjacent_regions_def)
  show "sorted_wrt (apart gap_ms) (merge_adjacent_regions regions gap_ms)"
    and "r \<in> set regions \<Longrightarrow> \<exists>m \<in> set (merge_adjacent_regions regions gap_ms). inside r m"
    using merge_regions_loop_spec [of "[]" regions gap_ms] in_order [OF assms] unfolding eq by simp_all
  show "list_all forward_region (merge_adjacent_regions regions gap_ms)"
    using merge_regions_loop_forward [of "[]" regions gap_ms] forward [OF assms] unfolding eq by simp
qed

end

interpretation whisper_vad: voice_detector "whisper_detect_speech ve" for ve
proof
  fix samples sample_rate regions
  assume "whisper_detect_speech ve samples sample_rate = Inr regions"
  then obtain segs where "sample_rate = 16000" and regions: "regions = sort_key region_start_ms
      (filter (\<lambda>r. region_start_ms r < region_end_ms r) (map region_of_voiced segs))"
    by (auto simp: whisper_detect_speech_def split: if_splits option.splits sum.splits)
  then show "sample_rate = 16000" and "sorted (map region_start_ms regions)"
    and "list_all forward_region regions"
    by (auto simp: list_all_iff forward_region_def)
qed

text \<open>The frames of the fake: regions end before the frame \<open>i\<close> begins, and so does an open one start.\<close>

definition frames_inv :: "known_regions \<Rightarrow> nat \<Rightarrow> u64 option \<Rightarrow> speech_region list \<Rightarrow> bool" where
  "frames_inv kr i current regions \<longleftrightarrow>
     sorted (map region_start_ms regions) \<and> list_all forward_region regions \<and>
     (case current of
        None \<Rightarrow> list_all (\<lambda>r. region_end_ms r \<le> i * kr_frame_ms kr) regions
      | Some s \<Rightarrow> list_all (\<lambda>r. region_end_ms r \<le> s) regions \<and> 0 < i \<and> s \<le> (i - 1) * kr_frame_ms kr)"

lemma known_frames_inv:
  assumes "frames_inv kr i current regions" and "known_frames kr i frames current regions = (rs, c)"
  shows "frames_inv kr (i + length frames) c rs"
  using assms
proof (induction kr i frames current regions rule: known_frames.induct)
  case (1 kr i current regions)
  then show ?case by simp
next
  case (2 kr i frame frames current regions)
  let ?start = "i * kr_frame_ms kr"
  have le: "s \<le> ?start" if "s \<le> (i - 1) * kr_frame_ms kr" for s
    by (rule le_trans [OF that]) (rule mult_le_mono1, simp)
  have forward: "region_start_ms r \<le> region_end_ms r" if "list_all forward_region regions" "r \<in> set regions" for r
    using that by (auto simp: list_all_iff forward_region_def)
  show ?case
  proof (cases "f32_ge (peak_of frame) (kr_threshold kr)")
    case True
    let ?current = "case current of None \<Rightarrow> Some ?start | Some s \<Rightarrow> Some s"
    have "frames_inv kr (i + 1) ?current regions"
      using 2(4) le by (auto simp: frames_inv_def list_all_iff split: option.splits)
    with 2(1) [OF refl True] 2(5) True show ?thesis
      by (simp add: Let_def)
  next
    case False
    show ?thesis
    proof (cases current)
      case None
      have "frames_inv kr (i + 1) None regions"
        using 2(4) None by (auto simp: frames_inv_def list_all_iff intro: trans_le_add1 order.trans)
      with 2(2) [OF refl False None] 2(5) False None show ?thesis
        by (simp add: Let_def)
    next
      case (Some s)
      have "frames_inv kr (i + 1) None (regions @ [\<lparr>region_start_ms = s, region_end_ms = ?start\<rparr>])"
        using 2(4) Some le forward
        by (fastforce simp: frames_inv_def list_all_iff sorted_append forward_region_def intro: order.trans)
      with 2(3) [OF refl False Some] 2(5) False Some show ?thesis
        by (simp add: Let_def)
    qed
  qed
qed

lemma length_chunks: "0 < n \<Longrightarrow> xs \<noteq> [] \<Longrightarrow> (length (chunks n xs) - 1) * n < length xs"
proof (induction n xs rule: chunks.induct)
  case (1 n xs)
  show ?case
  proof (cases "drop n xs = []")
    case True
    then show ?thesis
      using 1 by (simp add: chunks.simps [of n xs] chunks.simps [of n "[]"])
  next
    case False
    have "(length (chunks n (drop n xs)) - 1) * n < length xs - n"
      using 1 False by simp
    moreover have "length (chunks n (drop n xs)) \<noteq> 0"
      using False 1(2) by (simp add: chunks.simps [of n "drop n xs"])
    ultimately show ?thesis
      using 1(2,3) by (cases "length (chunks n (drop n xs))") (simp_all add: chunks.simps [of n xs])
  qed
qed

interpretation known_vad: voice_detector "known_detect_speech kr" for kr
proof
  fix samples sample_rate regions
  assume found: "known_detect_speech kr samples sample_rate = Inr regions"
  then show rate: "sample_rate = 16000"
    by (simp add: known_detect_speech_def split: if_splits)
  let ?frames = "chunks (16 * kr_frame_ms kr) samples"
  obtain rs c where run: "known_frames kr 0 ?frames None [] = (rs, c)"
    by fastforce
  have size: "0 < kr_frame_ms kr" and regions: "regions = (case c of None \<Rightarrow> rs
      | Some s \<Rightarrow> rs @ [\<lparr>region_start_ms = s, region_end_ms = length samples * 1000 div 16000\<rparr>])"
    using found run unfolding known_detect_speech_def rate
    by (auto simp: Let_def split: if_splits option.splits)
  have inv: "frames_inv kr (length ?frames) c rs"
    using known_frames_inv [OF _ run] by (simp add: frames_inv_def)
  have "sorted (map region_start_ms regions) \<and> list_all forward_region regions"
  proof (cases c)
    case None
    then show ?thesis
      using inv regions by (simp add: frames_inv_def)
  next
    case (Some s)
    then have s: "s \<le> (length ?frames - 1) * kr_frame_ms kr" "0 < length ?frames"
      using inv by (simp_all add: frames_inv_def)
    then have "samples \<noteq> []"
      by (auto simp: chunks.simps)
    then have "(length ?frames - 1) * (16 * kr_frame_ms kr) < length samples"
      using length_chunks [of "16 * kr_frame_ms kr" samples] size by simp
    then have "16 * s < length samples"
      using s(1) by simp
    then have "s \<le> length samples * 1000 div 16000"
      by simp
    moreover have "region_start_ms r \<le> s" if "r \<in> set rs" for r
      using inv Some that by (fastforce simp: frames_inv_def list_all_iff forward_region_def)
    ultimately show ?thesis
      using inv Some regions by (auto simp: frames_inv_def sorted_append forward_region_def)
  qed
  then show "sorted (map region_start_ms regions)" and "list_all forward_region regions"
    by simp_all
qed

text \<open>What the voice detector finds can be transcribed region by region: after merging, the
  regions run forward, any two are more than the gap apart, and every voiced stretch that was found
  lies inside one of them.\<close>

theorem voiced_regions_merge:
  assumes "whisper_detect_speech ve samples sample_rate = Inr regions"
  shows "sorted_wrt (\<lambda>a b. region_start_ms a \<le> region_start_ms b \<and>
        region_end_ms a + gap_ms < region_start_ms b) (merge_adjacent_regions regions gap_ms) \<and>
    list_all (\<lambda>r. region_start_ms r \<le> region_end_ms r) (merge_adjacent_regions regions gap_ms) \<and>
    (\<forall>r \<in> set regions. \<exists>m \<in> set (merge_adjacent_regions regions gap_ms).
       region_start_ms m \<le> region_start_ms r \<and> region_end_ms r \<le> region_end_ms m)"
  using whisper_vad.merged_regions [OF assms, where gap_ms = gap_ms]
  by (simp add: apart_def [abs_def] inside_def forward_region_def [abs_def])

definition sample_vad :: vad_env where
  "sample_vad =
     \<lparr>ve_path_debug = id, ve_open = (\<lambda>p. Inr ()),
      ve_segments = (\<lambda>samples. Inr [(0x42C80000, 0x43480000), (0, 0x42480000)]), ve_poisoned = None\<rparr>"

theorem voiced_regions_merge_witness:
  "\<exists>regions. whisper_detect_speech sample_vad [] 16000 = Inr regions \<and>
     list_all (\<lambda>r. region_start_ms r \<le> region_end_ms r) (merge_adjacent_regions regions 5000)"
proof -
  obtain regions where "whisper_detect_speech sample_vad [] 16000 = Inr regions"
    by (simp add: whisper_detect_speech_def sample_vad_def)
  with voiced_regions_merge [OF this, of 5000] show ?thesis
    by blast
qed

section \<open>The duration of the audio\<close>

text \<open>The recogniser computes the duration of its audio in floating point, the pipeline with whole
  numbers; below \<open>2 ^ 43\<close> samples (a thousand years and more) the two agree to the millisecond.\<close>

theorem whisper_duration_exact:
  assumes "n < 2 ^ 43"
  shows "whisper_duration_ms n = n * 1000 div 16000"
proof -
  let ?l = "bit_length (n * 1000 div 16000)"
  have "n * 1000 div 16000 = n div 16"
    by simp
  then have "n * 1000 div 16000 < 2 ^ 39"
    using assms by simp
  then have l: "?l \<le> 39"
    by (rule bit_length_le)
  have ints: "round_bits 53 (round_bits 53 n * 1000) = n * 1000"
    using assms by (simp add: round_bits_small)
  define k where "k = 53 - ?l - 4"
  have k: "53 - ?l = k + 4"
    using l by (simp add: k_def)
  have whole: "n * 1000 * 2 ^ (k + 4) = n * 2 ^ k * 16000"
    by (simp add: power_add)
  have "round_div (n * 1000 * 2 ^ (53 - ?l)) 16000 = n * 2 ^ k"
    unfolding k whole by (rule round_div_exact) simp
  then have "f64_quotient_floor (n * 1000) 16000 = n * 2 ^ k div 2 ^ (k + 4)"
    using l unfolding f64_quotient_floor_def Let_def k by simp
  also have "\<dots> = n div 16"
    by (simp add: power_add)
  finally have "whisper_duration_ms n = min (n div 16) u64_max"
    by (simp add: whisper_duration_ms_def ints)
  moreover have "n div 16 \<le> u64_max"
    using assms by (simp add: u64_max_def)
  ultimately show ?thesis
    by simp
qed

theorem whisper_duration_exact_witness: "whisper_duration_ms 480007 = 30000"
  using whisper_duration_exact [of 480007] by simp

section \<open>Well-formed transcripts\<close>

lemma whole_magnitude_mono: "m \<le> n \<Longrightarrow> whole_magnitude m \<le> whole_magnitude n"
  unfolding whole_magnitude_def by (rule nearest_magnitude_mono) simp_all

lemma f32_between_mono: "f32_between m x \<Longrightarrow> m \<le> n \<Longrightarrow> f32_between n x"
  using whole_magnitude_mono [of m n] by (auto simp: f32_between_def)

lemma zero_between: "f32_between n 0"
  by (simp add: f32_between_def f32_negative_def f32_magnitude_def)

definition probable_tokens :: "whisper_segment \<Rightarrow> bool" where
  "probable_tokens g \<longleftrightarrow>
     wg_n_tokens g \<le> 2 ^ 24 \<and> (\<forall>j p. wg_token g j = Some p \<longrightarrow> f32_between 1 p)"

lemma token_sum_between:
  assumes "probable_tokens g" and "n \<le> 2 ^ 24"
  shows "f32_between n (fold (\<lambda>j s. case wg_token g j of None \<Rightarrow> s | Some p \<Rightarrow> f32_add s p) [0..<n] 0)"
  using assms(2)
proof (induction n)
  case 0
  then show ?case by (simp add: zero_between)
next
  case (Suc n)
  then have IH: "f32_between n (fold (\<lambda>j s. case wg_token g j of None \<Rightarrow> s | Some p \<Rightarrow> f32_add s p) [0..<n] 0)"
    by simp
  show ?case
  proof (cases "wg_token g n")
    case None
    then show ?thesis
      using f32_between_mono [OF IH, of "Suc n"] by simp
  next
    case (Some p)
    then have "f32_between 1 p"
      using assms(1) by (simp add: probable_tokens_def)
    then show ?thesis
      using f32_add_between [OF IH] Suc.prems Some by simp
  qed
qed

lemma mean_probability_between:
  assumes "probable_tokens g"
  shows "f32_between 1 (mean_probability g)"
proof (cases "0 < wg_n_tokens g")
  case True
  then have "0 < nat (wg_n_tokens g)" and "nat (wg_n_tokens g) \<le> 2 ^ 24"
    using assms by (simp_all add: probable_tokens_def nat_le_iff)
  then show ?thesis
    using True f32_div_between token_sum_between [OF assms] by (simp add: mean_probability_def Let_def)
qed (simp add: mean_probability_def zero_between)

text \<open>
  What is relied on of the library: segments that end no earlier than they start, within half the
  range of an \<open>i64\<close>, and token probabilities between zero and one.
\<close>

definition sound_run :: "whisper_run \<Rightarrow> bool" where
  "sound_run wr \<longleftrightarrow> (\<forall>i g. wr_segment wr i = Some g \<longrightarrow>
     wg_start g \<le> wg_end g \<and> wg_end g * 10 < 2 ^ 64 \<and> probable_tokens g)"

definition wf_transcript :: "transcript \<Rightarrow> bool" where
  "wf_transcript t \<longleftrightarrow>
     tr_schema_version t = transcript_schema_version \<and> tr_audio_duration_ms t \<le> u64_max \<and>
     (\<forall>s \<in> set (tr_segments t). wf_segment s \<and> seg_end_ms s \<le> tr_audio_duration_ms t \<and>
        f32_between 1 (seg_confidence s))"

lemma hundredths_mono:
  assumes "a \<le> b" and "b * 10 < 2 ^ 64"
  shows "hundredths_to_ms a ms \<le> hundredths_to_ms b ms"
proof -
  have "nat (max a 0) \<le> nat (max b 0)" and "nat (max b 0) * 10 < 2 ^ 64"
    using assms by auto
  then show ?thesis
    by (simp add: hundredths_to_ms_def min.coboundedI1)
qed

lemma whisper_segments_wf:
  assumes "sound_run wr" and "ms \<le> u64_max" and "whisper_segments wr ms lang js = Inr segs"
  shows "length segs = length js \<and> (\<forall>s \<in> set segs. wf_segment s \<and> seg_end_ms s \<le> ms \<and>
    f32_between 1 (seg_confidence s) \<and> seg_language s = lang \<and> seg_speaker_id s = None)"
  using assms(3)
proof (induction js arbitrary: segs)
  case Nil
  then show ?case by simp
next
  case (Cons i js)
  then obtain g body rest where g: "wr_segment wr i = Some g" "wg_text g = Inr body"
    and rest: "whisper_segments wr ms lang js = Inr rest"
    and segs: "segs = \<lparr>seg_start_ms = hundredths_to_ms (wg_start g) ms,
        seg_end_ms = hundredths_to_ms (wg_end g) ms, seg_text = trim body, seg_language = lang,
        seg_confidence = mean_probability g, seg_speaker_id = None\<rparr> # rest"
    by (cases "whisper_segments wr ms lang js") (auto split: option.splits sum.splits)
  have "wg_start g \<le> wg_end g" "wg_end g * 10 < 2 ^ 64" and "probable_tokens g"
    using assms(1) g(1) by (auto simp: sound_run_def)
  then have "hundredths_to_ms (wg_start g) ms \<le> hundredths_to_ms (wg_end g) ms"
    by (intro hundredths_mono)
  moreover have "f32_between 1 (mean_probability g)"
    using \<open>probable_tokens g\<close> by (rule mean_probability_between)
  moreover have "hundredths_to_ms (wg_end g) ms \<le> ms"
    by (simp add: hundredths_to_ms_def)
  ultimately show ?case
    using Cons.IH [OF rest] assms(2) unfolding segs by (simp add: wf_segment_def u64_max_def)
qed

text \<open>C34: A transcript of the recogniser is well-formed: each segment ends no earlier than it starts
  and no later than the audio, its confidence (a sum of floating-point numbers divided by their count)
  lies between zero and one, its language is the hint when one was given, and no speaker is set;
  and there are as many segments as the library reported.\<close>

theorem whisper_transcript_wf:
  assumes "\<And>n wr. we_full we n samples hint = Inr wr \<Longrightarrow> sound_run wr"
    and "whisper_transcribe we model samples sample_rate hint = Inr t"
  shows "wf_transcript t \<and> \<not> tr_diarized t \<and> sample_rate = 16000 \<and>
    (\<forall>s \<in> set (tr_segments t). seg_speaker_id s = None \<and> (hint \<noteq> None \<longrightarrow> seg_language s = hint)) \<and>
    (\<exists>n wr. we_full we n samples hint = Inr wr \<and> n \<le> 8 \<and> length (tr_segments t) = nat (wr_n_segments wr))"
proof -
  let ?ms = "whisper_duration_ms (length samples)"
  obtain n wr segs where full: "we_full we n samples hint = Inr wr" "n \<le> 8" "sample_rate = 16000"
    and segs: "whisper_segments wr ?ms (case hint of Some h \<Rightarrow> Some h | None \<Rightarrow> we_lang_str we (wr_lang_id wr))
      [0..<nat (wr_n_segments wr)] = Inr segs"
    and t: "t = \<lparr>tr_schema_version = transcript_schema_version, tr_model = whisper_model_name model,
      tr_audio_path = [], tr_audio_duration_ms = ?ms, tr_diarized = False, tr_segments = segs\<rparr>"
    using assms(2) unfolding whisper_transcribe_def
    by (auto simp: Let_def map_sum_def split: if_splits sum.splits)
  have ms: "?ms \<le> u64_max"
    by (simp add: whisper_duration_ms_def)
  from whisper_segments_wf [OF assms(1) [OF full(1)] ms segs] full t ms show ?thesis
    by (auto simp: wf_transcript_def)
qed

definition sample_whisper :: whisper_env where
  "sample_whisper =
     \<lparr>we_path_debug = id, we_open = (\<lambda>p. Inr ()), we_create_state = Inr (),
      we_full = (\<lambda>n samples hint. Inr
        \<lparr>wr_lang_id = 0, wr_n_segments = 1,
         wr_segment = (\<lambda>i. Some \<lparr>wg_text = Inr '' hi '', wg_start = 0, wg_end = 100, wg_n_tokens = 2,
           wg_token = (\<lambda>j. Some 0x3F000000)\<rparr>)\<rparr>),
      we_lang_str = (\<lambda>i. Some ''en''), we_parallelism = None\<rparr>"

theorem whisper_transcript_wf_witness:
  "\<exists>t. whisper_transcribe sample_whisper ''/m.bin'' (replicate 16000 0) 16000 None = Inr t \<and>
     wf_transcript t \<and> length (tr_segments t) = 1"
proof -
  have half: "f32_between 1 0x3F000000"
    using whole_magnitude_1 by (simp add: f32_between_def f32_negative_def f32_magnitude_def)
  have lib: "sound_run wr" if "we_full sample_whisper n samples None = Inr wr" for n samples wr
    using that half by (auto simp: sample_whisper_def sound_run_def probable_tokens_def)
  obtain t where "whisper_transcribe sample_whisper ''/m.bin'' (replicate 16000 0) 16000 None = Inr t"
    by (simp add: whisper_transcribe_def sample_whisper_def Let_def)
  moreover from whisper_transcript_wf [OF lib this] have "wf_transcript t \<and> length (tr_segments t) = 1"
    by (auto simp: sample_whisper_def)
  ultimately show ?thesis
    by blast
qed

end
