(* ===== verification/Engine_Socket.thy ===== *)
theory Engine_Socket
  imports Model_Files
begin

unbundle bit_operations_syntax

text \<open>
  The socket of the engine, \<open>panops-engine/src/server/socket.rs\<close>: the default path, the start-up that
  probes for a live engine, removes a stale file and binds a private socket, and what a run of the
  server does with the socket in \<open>server/mod.rs\<close>. \<open>bind_with_lifecycle\<close> is the code as one call;
  \<open>bind_step\<close> makes one system call at a time, so that several engines can be interleaved.

  The answers of \<open>connect\<close>, with the time-out of 250 ms, are a field of the environment; what is relied
  on is \<open>honest_connect\<close>. A system call on a path fails with the message in \<open>so_fault\<close>, if any. Symbolic links
  are not modelled. \<open>uw_history\<close> lists the states of the directory tree so far, for the statements
  about what is visible while a start-up runs; nothing reads it.
\<close>

section \<open>The world\<close>

type_synonym file_mode = "16 word"

text \<open>A socket file names the listener that was bound to it.\<close>

datatype unix_kind = UxDir | UxRegular | UxSocket nat

record unix_node =
  ux_kind :: unix_kind
  ux_mode :: file_mode

type_synonym unix_tree = "string \<rightharpoonup> unix_node"

record unix_world =
  uw_nodes :: unix_tree
  uw_umask :: file_mode
  uw_listening :: "nat set"
  uw_next_listener :: nat
  uw_history :: "unix_tree list"

datatype connect_outcome = Connected | ConnectionRefused | NotASocket | ConnectError | ProbeTimeout

datatype socket_call = CreateParent | UnlinkCall | BindCall | ChmodCall

record sock_env =
  so_connect :: "unix_world \<Rightarrow> string \<Rightarrow> connect_outcome"
  so_fault :: "socket_call \<Rightarrow> string \<Rightarrow> string option"
  so_base_mode :: file_mode
  so_path_debug :: "string \<Rightarrow> string"

definition put_nodes :: "unix_tree \<Rightarrow> unix_world \<Rightarrow> unix_world" where
  "put_nodes t w = w\<lparr>uw_nodes := t, uw_history := uw_history w @ [t]\<rparr>"

definition live_listener :: "unix_world \<Rightarrow> string \<Rightarrow> nat \<Rightarrow> bool" where
  "live_listener w p l \<longleftrightarrow>
     (case uw_nodes w p of
        Some n \<Rightarrow> ux_kind n = UxSocket l \<and> l \<in> uw_listening w
      | None \<Rightarrow> False)"

text \<open>
  \<open>connect\<close> on a socket that somebody listens on neither reports a refused connection nor that the
  path is no socket (it may still fail or take too long).
\<close>

definition honest_connect :: "sock_env \<Rightarrow> bool" where
  "honest_connect so \<longleftrightarrow>
     (\<forall>w p l. live_listener w p l \<longrightarrow> so_connect so w p \<notin> {ConnectionRefused, NotASocket})"

section \<open>System calls\<close>

definition unlink_file :: "sock_env \<Rightarrow> string \<Rightarrow> unix_world \<Rightarrow> (string + unit) \<times> unix_world" where
  "unlink_file so p w =
     (case so_fault so UnlinkCall p of
        Some m \<Rightarrow> (Inl m, w)
      | None \<Rightarrow>
          (case uw_nodes w p of
             None \<Rightarrow> (Inl ''No such file or directory'', w)
           | Some n \<Rightarrow>
               if ux_kind n = UxDir then (Inl ''Is a directory'', w)
               else (Inr (), put_nodes ((uw_nodes w)(p := None)) w)))"

definition set_permissions ::
  "sock_env \<Rightarrow> string \<Rightarrow> file_mode \<Rightarrow> unix_world \<Rightarrow> (string + unit) \<times> unix_world" where
  "set_permissions so p mode w =
     (case so_fault so ChmodCall p of
        Some m \<Rightarrow> (Inl m, w)
      | None \<Rightarrow>
          (case uw_nodes w p of
             None \<Rightarrow> (Inl ''No such file or directory'', w)
           | Some n \<Rightarrow> (Inr (), put_nodes ((uw_nodes w)(p \<mapsto> n\<lparr>ux_mode := mode\<rparr>)) w)))"

text \<open>\<open>UnixListener::bind\<close>: the new socket file has the permissions that the umask leaves.\<close>

definition bind_listener :: "sock_env \<Rightarrow> string \<Rightarrow> unix_world \<Rightarrow> (string + nat) \<times> unix_world" where
  "bind_listener so p w =
     (case so_fault so BindCall p of
        Some m \<Rightarrow> (Inl m, w)
      | None \<Rightarrow>
          if uw_nodes w p \<noteq> None then (Inl ''Address already in use'', w)
          else (let l = uw_next_listener w
                in (Inr l, (put_nodes ((uw_nodes w)(p \<mapsto>
                      \<lparr>ux_kind = UxSocket l, ux_mode = so_base_mode so AND NOT (uw_umask w)\<rparr>)) w)
                    \<lparr>uw_listening := insert l (uw_listening w), uw_next_listener := Suc l\<rparr>)))"

definition with_strict_umask :: "(unix_world \<Rightarrow> 'a \<times> unix_world) \<Rightarrow> unix_world \<Rightarrow> 'a \<times> unix_world" where
  "with_strict_umask f w =
     (let prev = uw_umask w; (r, w) = f (w\<lparr>uw_umask := 0x3F\<rparr>) in (r, w\<lparr>uw_umask := prev\<rparr>))"

definition close_listener :: "nat \<Rightarrow> unix_world \<Rightarrow> unix_world" where
  "close_listener l w = w\<lparr>uw_listening := uw_listening w - {l}\<rparr>"

section \<open>The code\<close>

text \<open>\<open>var\<close> is the value of \<open>HOME\<close>.\<close>

definition default_socket_path :: "string option \<Rightarrow> string + string" where
  "default_socket_path var =
     (case var of
        None \<Rightarrow> Inl ''HOME not set''
      | Some home \<Rightarrow>
          if home = [] then Inl ''HOME is empty''
          else if \<not> prefix ''/'' home then Inl (''HOME is not an absolute path: '' @ home)
          else Inr (path_join home ''Library/Application Support/panops/engine.sock''))"

datatype bind_error = EngineAlreadyRunning string | BindFailed string

definition bind_error_text :: "bind_error \<Rightarrow> string" where
  "bind_error_text e =
     (case e of EngineAlreadyRunning p \<Rightarrow> ''engine already running at '' @ p | BindFailed m \<Rightarrow> m)"

text \<open>The directory of the socket is made, and closed to others if that can be done.\<close>

definition prepare_parent :: "sock_env \<Rightarrow> string \<Rightarrow> unix_world \<Rightarrow> (bind_error + unit) \<times> unix_world" where
  "prepare_parent so path w =
     (case parent_path path of
        None \<Rightarrow> (Inr (), w)
      | Some parent \<Rightarrow>
          if uw_nodes w parent \<noteq> None \<or> parent = [] then (Inr (), w)
          else (case so_fault so CreateParent parent of
            Some m \<Rightarrow> (Inl (BindFailed (''create parent '' @ so_path_debug so parent @ '': '' @ m)), w)
          | None \<Rightarrow>
              (let w = put_nodes ((uw_nodes w)(parent \<mapsto>
                         \<lparr>ux_kind = UxDir, ux_mode = 0x1FF AND NOT (uw_umask w)\<rparr>)) w
               in (Inr (), snd (set_permissions so parent 0x1C0 w)))))"

definition unlink_stale :: "sock_env \<Rightarrow> string \<Rightarrow> unix_world \<Rightarrow> (bind_error + unit) \<times> unix_world" where
  "unlink_stale so path w =
     (case unlink_file so path w of
        (Inl m, w) \<Rightarrow> (Inl (BindFailed (''unlink stale '' @ so_path_debug so path @ '': '' @ m)), w)
      | (Inr u, w) \<Rightarrow> (Inr (), w))"

definition clear_stale :: "sock_env \<Rightarrow> string \<Rightarrow> unix_world \<Rightarrow> (bind_error + unit) \<times> unix_world" where
  "clear_stale so path w =
     (if uw_nodes w path = None then (Inr (), w)
      else case so_connect so w path of
        Connected \<Rightarrow> (Inl (EngineAlreadyRunning path), w)
      | ConnectionRefused \<Rightarrow> unlink_stale so path w
      | NotASocket \<Rightarrow> unlink_stale so path w
      | _ \<Rightarrow> (Inl (EngineAlreadyRunning path), w))"

definition bind_strict :: "sock_env \<Rightarrow> string \<Rightarrow> unix_world \<Rightarrow> (bind_error + nat) \<times> unix_world" where
  "bind_strict so path w =
     (case with_strict_umask (bind_listener so path) w of
        (Inl m, w) \<Rightarrow> (Inl (BindFailed (''bind '' @ so_path_debug so path @ '': '' @ m)), w)
      | (Inr l, w) \<Rightarrow> (Inr l, w))"

definition tighten :: "sock_env \<Rightarrow> string \<Rightarrow> nat \<Rightarrow> unix_world \<Rightarrow> (bind_error + nat) \<times> unix_world" where
  "tighten so path l w =
     (case set_permissions so path 0x180 w of
        (Inl m, w) \<Rightarrow>
          (Inl (BindFailed (''chmod '' @ so_path_debug so path @ '': '' @ m)),
           snd (unlink_file so path (close_listener l w)))
      | (Inr u, w) \<Rightarrow> (Inr l, w))"

definition bind_with_lifecycle :: "sock_env \<Rightarrow> string \<Rightarrow> unix_world \<Rightarrow> (bind_error + nat) \<times> unix_world" where
  "bind_with_lifecycle so path w =
     try_then (prepare_parent so path w) (\<lambda>u w.
     try_then (clear_stale so path w) (\<lambda>u w.
     try_then (bind_strict so path w) (\<lambda>l w. tighten so path l w)))"

text \<open>What \<open>run_serve_in_process\<close> makes of the errors, and what it does when it is told to stop.\<close>

definition serve_error :: "bind_error \<Rightarrow> nat \<times> string" where
  "serve_error e =
     (case e of EngineAlreadyRunning p \<Rightarrow> (1, ''engine already running at '' @ p) | BindFailed m \<Rightarrow> (3, m))"

definition shut_down :: "sock_env \<Rightarrow> string \<Rightarrow> nat \<Rightarrow> unix_world \<Rightarrow> unix_world" where
  "shut_down so path l w = close_listener l (snd (unlink_file so path w))"

section \<open>One system call at a time\<close>

datatype phase =
    CheckParent
  | CheckPath
  | Probing
  | Unlinking
  | Binding
  | Tightening nat
  | Over "bind_error + nat"

definition after :: "(bind_error + 'a) \<times> unix_world \<Rightarrow> ('a \<Rightarrow> phase) \<Rightarrow> phase \<times> unix_world" where
  "after x next_phase = (case x of (Inl e, w) \<Rightarrow> (Over (Inl e), w) | (Inr a, w) \<Rightarrow> (next_phase a, w))"

fun bind_step :: "sock_env \<Rightarrow> string \<Rightarrow> phase \<Rightarrow> unix_world \<Rightarrow> phase \<times> unix_world" where
  "bind_step so path CheckParent w = after (prepare_parent so path w) (\<lambda>u. CheckPath)"
| "bind_step so path CheckPath w = (if uw_nodes w path = None then Binding else Probing, w)"
| "bind_step so path Probing w =
     (case so_connect so w path of
        Connected \<Rightarrow> Over (Inl (EngineAlreadyRunning path))
      | ConnectionRefused \<Rightarrow> Unlinking
      | NotASocket \<Rightarrow> Unlinking
      | _ \<Rightarrow> Over (Inl (EngineAlreadyRunning path)), w)"
| "bind_step so path Unlinking w = after (unlink_stale so path w) (\<lambda>u. Binding)"
| "bind_step so path Binding w = after (bind_strict so path w) Tightening"
| "bind_step so path (Tightening l) w = after (tighten so path l w) (\<lambda>l. Over (Inr l))"
| "bind_step so path (Over r) w = (Over r, w)"

text \<open>The steps, one after the other, are the call.\<close>

fun run_steps :: "nat \<Rightarrow> sock_env \<Rightarrow> string \<Rightarrow> phase \<times> unix_world \<Rightarrow> phase \<times> unix_world" where
  "run_steps 0 so path x = x"
| "run_steps (Suc n) so path x = run_steps n so path (bind_step so path (fst x) (snd x))"

lemma run_steps_over [simp]: "run_steps n so path (Over r, w) = (Over r, w)"
  by (induction n) simp_all

lemma after_simps [simp]:
  "after (Inl e, w) k = (Over (Inl e), w)" "after (Inr a, w) k = (k a, w)"
  by (simp_all add: after_def)

text \<open>The start-up taken one system call at a time, without interference, is the start-up as the
  code writes it: six steps end it, with the same result and the same world.\<close>

theorem bind_steps_refine:
  "run_steps 6 so path (CheckParent, w) =
     (Over (fst (bind_with_lifecycle so path w)), snd (bind_with_lifecycle so path w))"
proof -
  have six: "(6 :: nat) = Suc (Suc (Suc (Suc (Suc (Suc 0)))))"
    by simp
  show ?thesis
    unfolding six bind_with_lifecycle_def clear_stale_def
    by (simp add: after_def split: sum.split prod.split connect_outcome.split)
qed

end
