(* ===== verification/Socket_Engines.thy ===== *)
theory Socket_Engines
  imports Socket_Correct
begin

text \<open>
  Several engines on one path, interleaved by system call: a step relation on the world and the phase
  of each engine. An engine is launched, goes through the phases of \<open>bind_step\<close>, serves, and ends by
  a shutdown, which removes the path, or by a crash, which only closes its listener. When start-ups do
  not overlap at most one engine serves at a time; when they do, a second engine can take the
  socket of one that serves.
\<close>

section \<open>The step relation\<close>

record socket_system =
  sy_world :: unix_world
  sy_engines :: "nat \<rightharpoonup> phase"

fun phase_over :: "phase \<Rightarrow> bool" where
  "phase_over (Over r) = True"
| "phase_over _ = False"

fun close_phase :: "phase \<Rightarrow> unix_world \<Rightarrow> unix_world" where
  "close_phase (Tightening l) w = close_listener l w"
| "close_phase (Over (Inr l)) w = close_listener l w"
| "close_phase _ w = w"

inductive engine_move :: "sock_env \<Rightarrow> string \<Rightarrow> socket_system \<Rightarrow> socket_system \<Rightarrow> bool"
  for so :: sock_env and path :: string where
  launch: "sy_engines s e = None \<Longrightarrow>
     engine_move so path s (s\<lparr>sy_engines := (sy_engines s)(e \<mapsto> CheckParent)\<rparr>)"
| advance_phase: "sy_engines s e = Some ph \<Longrightarrow> \<not> phase_over ph \<Longrightarrow>
     bind_step so path ph (sy_world s) = (ph', w') \<Longrightarrow>
     engine_move so path s \<lparr>sy_world = w', sy_engines = (sy_engines s)(e \<mapsto> ph')\<rparr>"
| stop: "sy_engines s e = Some (Over (Inr l)) \<Longrightarrow>
     engine_move so path s
       \<lparr>sy_world = shut_down so path l (sy_world s), sy_engines = (sy_engines s)(e := None)\<rparr>"
| crash: "sy_engines s e = Some ph \<Longrightarrow>
     engine_move so path s
       \<lparr>sy_world = close_phase ph (sy_world s), sy_engines = (sy_engines s)(e := None)\<rparr>"

definition starting :: "socket_system \<Rightarrow> nat \<Rightarrow> bool" where
  "starting s e \<longleftrightarrow> (\<exists>ph. sy_engines s e = Some ph \<and> \<not> phase_over ph)"

definition serving :: "socket_system \<Rightarrow> nat \<Rightarrow> nat \<Rightarrow> bool" where
  "serving s e l \<longleftrightarrow> sy_engines s e = Some (Over (Inr l))"

text \<open>Moves after which at most one engine is starting up.\<close>

definition serial_move :: "sock_env \<Rightarrow> string \<Rightarrow> socket_system \<Rightarrow> socket_system \<Rightarrow> bool" where
  "serial_move so path s s' \<longleftrightarrow>
     engine_move so path s s' \<and> (\<forall>e e'. starting s' e \<longrightarrow> starting s' e' \<longrightarrow> e = e')"

definition quiet_system :: "unix_world \<Rightarrow> socket_system" where
  "quiet_system w = \<lparr>sy_world = w, sy_engines = Map.empty\<rparr>"

section \<open>Start-ups that do not overlap\<close>

text \<open>The listener that an engine holds.\<close>

definition holds :: "socket_system \<Rightarrow> nat \<Rightarrow> nat \<Rightarrow> bool" where
  "holds s e l \<longleftrightarrow> sy_engines s e = Some (Tightening l) \<or> serving s e l"

text \<open>
  A listener that is held is the one the path leads to, so it has only one holder; while an engine is
  about to touch the path, none serves.
\<close>

definition socket_inv :: "string \<Rightarrow> socket_system \<Rightarrow> bool" where
  "socket_inv path s \<longleftrightarrow>
     (\<forall>e l. holds s e l \<longrightarrow> live_listener (sy_world s) path l) \<and>
     (\<forall>e e' l. holds s e l \<longrightarrow> holds s e' l \<longrightarrow> e = e') \<and>
     (\<forall>e. sy_engines s e \<in> {Some Unlinking, Some Binding} \<longrightarrow> (\<forall>e' l. \<not> holds s e' l)) \<and>
     uw_listening (sy_world s) \<subseteq> {..<uw_next_listener (sy_world s)}"

lemma live_unique: "live_listener w p l \<Longrightarrow> live_listener w p l' \<Longrightarrow> l = l'"
  by (auto simp: live_listener_def split: option.splits)

lemma holds_simps:
  "holds \<lparr>sy_world = w, sy_engines = es\<rparr> e l \<longleftrightarrow> es e = Some (Tightening l) \<or> es e = Some (Over (Inr l))"
  "holds (s\<lparr>sy_engines := es\<rparr>) e l \<longleftrightarrow> es e = Some (Tightening l) \<or> es e = Some (Over (Inr l))"
  by (simp_all add: holds_def serving_def)

lemma socket_inv_unique:
  "socket_inv path s \<Longrightarrow> holds s e l \<Longrightarrow> holds s e' l' \<Longrightarrow> e = e' \<and> l = l'"
  unfolding socket_inv_def using live_unique by metis

definition serial_state :: "socket_system \<Rightarrow> bool" where
  "serial_state s \<longleftrightarrow> (\<forall>e e'. starting s e \<longrightarrow> starting s e' \<longrightarrow> e = e')"

text \<open>Two shapes of a state that satisfies the invariant: nobody holds a listener, or one engine does.\<close>

definition ids_bound :: "unix_world \<Rightarrow> bool" where
  "ids_bound w \<longleftrightarrow> uw_listening w \<subseteq> {..<uw_next_listener w}"

lemma inv_nobody:
  "(\<And>e l. \<not> holds s e l) \<Longrightarrow> ids_bound (sy_world s) \<Longrightarrow> socket_inv path s"
  by (simp add: socket_inv_def ids_bound_def)

lemma inv_holder:
  assumes "\<And>e' l'. holds s e' l' \<Longrightarrow> e' = e \<and> l' = l" and "live_listener (sy_world s) path l"
    and "\<And>e'. sy_engines s e' \<notin> {Some Unlinking, Some Binding}" and "ids_bound (sy_world s)"
  shows "socket_inv path s"
  unfolding socket_inv_def using assms(2,4) assms(1,3) unfolding ids_bound_def by blast

text \<open>Any two states in which the same listeners are held and are still live.\<close>

lemma inv_transfer:
  assumes "socket_inv path s" and "\<And>e l. holds s' e l \<Longrightarrow> holds s e l"
    and "\<And>e l. holds s' e l \<Longrightarrow> live_listener (sy_world s') path l"
    and "\<And>e. sy_engines s' e \<in> {Some Unlinking, Some Binding} \<Longrightarrow> \<forall>e' l. \<not> holds s' e' l"
    and "ids_bound (sy_world s')"
  shows "socket_inv path s'"
  unfolding socket_inv_def
  using assms(3,4,5) socket_inv_unique [OF assms(1)] assms(2) unfolding ids_bound_def by metis

lemma unlink_fields:
  "uw_listening (snd (unlink_file so p w)) = uw_listening w"
  "uw_next_listener (snd (unlink_file so p w)) = uw_next_listener w"
  by (simp_all add: unlink_file_def split: option.split)

lemma unlink_stale_fields:
  "unlink_stale so p w = (r, w') \<Longrightarrow> uw_listening w' = uw_listening w \<and> uw_next_listener w' = uw_next_listener w"
  using unlink_fields [of so p w]
  by (cases "unlink_file so p w") (auto simp: unlink_stale_def split: sum.splits)

lemma bind_strict_cases:
  assumes "bind_strict so path w = (r, w')" and "ids_bound w"
  shows "ids_bound w' \<and> (\<forall>l. r = Inr l \<longrightarrow> live_listener w' path l)"
  using assms
  by (auto simp: bind_strict_def with_strict_umask_def bind_listener_def Let_def live_listener_def
      ids_bound_def split: option.splits if_splits)

lemma tighten_cases:
  assumes "tighten so path l w = (r, w')" and "ids_bound w"
  shows "ids_bound w' \<and> (\<forall>k. r = Inr k \<longrightarrow> k = l \<and> (live_listener w path l \<longrightarrow> live_listener w' path l))"
proof (cases "set_permissions so path 0x180 w")
  case (Pair x v)
  then show ?thesis
    using assms set_permissions_cases [OF Pair]
    by (auto simp: tighten_def ids_bound_def close_listener_def live_listener_def unlink_fields split: sum.splits)
qed

text \<open>A step of a start-up, when nobody else is starting up.\<close>

lemma advance_inv:
  assumes inv: "socket_inv path s" and serial: "serial_state s" and honest: "honest_connect so"
    and e: "sy_engines s e = Some ph" "\<not> phase_over ph"
    and step: "bind_step so path ph (sy_world s) = (ph', w')"
  shows "socket_inv path \<lparr>sy_world = w', sy_engines = (sy_engines s)(e \<mapsto> ph')\<rparr>" (is "socket_inv path ?s")
proof -
  let ?w = "sy_world s"
  have bound: "ids_bound ?w" and live: "\<And>e' l. holds s e' l \<Longrightarrow> live_listener ?w path l"
    and busy: "\<And>e'. sy_engines s e' \<in> {Some Unlinking, Some Binding} \<Longrightarrow> \<forall>e'' l. \<not> holds s e'' l"
    using inv unfolding socket_inv_def ids_bound_def by blast+
  have calm: "sy_engines s e' \<notin> {Some Unlinking, Some Binding}" if "e' \<noteq> e" for e'
    using serial e that by (auto simp: serial_state_def starting_def)
  have others: "holds ?s e' l \<longleftrightarrow> holds s e' l" if "e' \<noteq> e" for e' l
    using that by (simp add: holds_def serving_def)
  have here: "holds ?s e l \<longleftrightarrow> ph' = Tightening l \<or> ph' = Over (Inr l)" for l
    by (simp add: holds_def serving_def)
  have was: "holds s e l \<longleftrightarrow> ph = Tightening l" for l
    using e by (auto simp: holds_def serving_def)
  show ?thesis
  proof (cases ph)
    case CheckParent
    obtain r where prep: "prepare_parent so path ?w = (r, w')" and ph': "ph' \<in> {CheckPath} \<union> range (\<lambda>x. Over (Inl x))"
      using step CheckParent by (auto simp: after_def split: prod.splits sum.splits)
    have same: "holds ?s e' l \<Longrightarrow> holds s e' l" for e' l
      using others here ph' by (cases "e' = e") auto
    have "live_listener w' path l" if "holds ?s e' l" for e' l
      using live_prepare [OF prep live [OF same [OF that]]] .
    moreover have "sy_engines ?s e' \<notin> {Some Unlinking, Some Binding}" for e'
      using calm [of e'] ph' by auto
    moreover have "ids_bound w'"
      using prepare_parent_keeps(2,3) [OF prep] bound by (simp add: ids_bound_def)
    ultimately show ?thesis
      using same by (intro inv_transfer [OF inv, of ?s]) simp_all
  next
    case CheckPath
    then have w': "w' = ?w" and ph': "ph' = (if uw_nodes ?w path = None then Binding else Probing)"
      using step by auto
    have same: "holds ?s e' l \<Longrightarrow> holds s e' l" for e' l
      using others here ph' by (cases "e' = e") (auto split: if_splits)
    have "\<not> holds s e' l" if "uw_nodes ?w path = None" for e' l
      using live [of e' l] that by (auto simp: live_listener_def)
    then have "\<forall>e'' l. \<not> holds ?s e'' l" if "sy_engines ?s e' \<in> {Some Unlinking, Some Binding}" for e'
      using same calm [of e'] that ph' by (auto split: if_splits)
    moreover have "live_listener w' path l" if "holds ?s e' l" for e' l
      using live [OF same [OF that]] w' by simp
    ultimately show ?thesis
      using same bound w' by (intro inv_transfer [OF inv, of ?s]) simp_all
  next
    case Probing
    then have w': "w' = ?w" and ph': "ph' = Unlinking \<and> so_connect so ?w path \<in> {ConnectionRefused, NotASocket} \<or>
        ph' = Over (Inl (EngineAlreadyRunning path))"
      using step by (auto split: connect_outcome.splits)
    have same: "holds ?s e' l \<Longrightarrow> holds s e' l" for e' l
      using others here ph' by (cases "e' = e") auto
    have "\<not> holds s e' l" if "so_connect so ?w path \<in> {ConnectionRefused, NotASocket}" for e' l
      using live honest that unfolding honest_connect_def by blast
    then have "\<forall>e'' l. \<not> holds ?s e'' l" if "sy_engines ?s e' \<in> {Some Unlinking, Some Binding}" for e'
      using same calm [of e'] that ph' by (auto split: if_splits)
    moreover have "live_listener w' path l" if "holds ?s e' l" for e' l
      using live [OF same [OF that]] w' by simp
    ultimately show ?thesis
      using same bound w' by (intro inv_transfer [OF inv, of ?s]) simp_all
  next
    case Unlinking
    then have none: "\<not> holds s e' l" for e' l
      using busy [of e] e by simp
    obtain r where "unlink_stale so path ?w = (r, w')" and ph': "ph' \<in> {Binding} \<union> range (\<lambda>x. Over (Inl x))"
      using step Unlinking by (auto simp: after_def split: prod.splits sum.splits)
    then have "ids_bound w'"
      using unlink_stale_fields bound by (metis ids_bound_def)
    moreover have "\<not> holds ?s e' l" for e' l
      using none others here ph' by (cases "e' = e") auto
    ultimately show ?thesis
      by (intro inv_nobody) auto
  next
    case Binding
    then have none: "\<not> holds s e' l" for e' l
      using busy [of e] e by simp
    obtain r where run: "bind_strict so path ?w = (r, w')"
      and ph': "ph' = (case r of Inl x \<Rightarrow> Over (Inl x) | Inr l \<Rightarrow> Tightening l)"
      using step Binding by (auto simp: after_def split: prod.splits sum.splits)
    note bs = bind_strict_cases [OF run bound]
    show ?thesis
    proof (cases r)
      case (Inl x)
      then have "\<not> holds ?s e' l" for e' l
        using none others here ph' by (cases "e' = e") auto
      then show ?thesis
        using bs by (intro inv_nobody) auto
    next
      case (Inr l)
      then have "holds ?s e' l' \<Longrightarrow> e' = e \<and> l' = l" for e' l'
        using none others here ph' by (cases "e' = e") auto
      then show ?thesis
        using bs Inr ph' calm by (intro inv_holder [of _ e l]) auto
    qed
  next
    case (Tightening l)
    then have mine: "holds s e l"
      using was by simp
    then have none: "\<not> holds s e' l'" if "e' \<noteq> e" for e' l'
      using socket_inv_unique [OF inv] that by blast
    obtain r where run: "tighten so path l ?w = (r, w')"
      and ph': "ph' = (case r of Inl x \<Rightarrow> Over (Inl x) | Inr k \<Rightarrow> Over (Inr k))"
      using step Tightening by (auto simp: after_def split: prod.splits sum.splits)
    note tc = tighten_cases [OF run bound]
    show ?thesis
    proof (cases r)
      case (Inl x)
      then have "\<not> holds ?s e' l" for e' l
        using none others here ph' by (cases "e' = e") auto
      then show ?thesis
        using tc by (intro inv_nobody) auto
    next
      case (Inr k)
      then have "holds ?s e' l' \<Longrightarrow> e' = e \<and> l' = l" for e' l'
        using none others here ph' tc by (cases "e' = e") auto
      then show ?thesis
        using tc Inr ph' calm live [OF mine] by (intro inv_holder [of _ e l]) auto
    qed
  next
    case (Over r)
    then show ?thesis using e by simp
  qed
qed

lemma live_close: "live_listener w p l \<Longrightarrow> k \<noteq> l \<Longrightarrow> live_listener (close_listener k w) p l"
  by (auto simp: live_listener_def close_listener_def split: option.splits)

lemma ids_bound_close: "ids_bound w \<Longrightarrow> ids_bound (close_listener l w)"
  by (auto simp: ids_bound_def close_listener_def)

lemma close_phase_cases:
  "close_phase ph w = w \<or> (\<exists>l. (ph = Tightening l \<or> ph = Over (Inr l)) \<and> close_phase ph w = close_listener l w)"
  by (induction ph w rule: close_phase.induct) auto

lemma holds_removed:
  "holds \<lparr>sy_world = w, sy_engines = (sy_engines s)(e := None)\<rparr> e' l \<longleftrightarrow> e' \<noteq> e \<and> holds s e' l"
  by (auto simp: holds_def serving_def)

lemma move_inv:
  assumes "engine_move so path s s'" and inv: "socket_inv path s" and serial: "serial_state s"
    and honest: "honest_connect so"
  shows "socket_inv path s'"
  using assms(1)
proof cases
  case (launch e)
  then have same: "holds s' e' l \<Longrightarrow> holds s e' l" for e' l
    by (cases "e' = e") (simp_all add: holds_def serving_def)
  have "\<forall>e'' l. \<not> holds s' e'' l" if "sy_engines s' e' \<in> {Some Unlinking, Some Binding}" for e'
  proof -
    have "sy_engines s e' \<in> {Some Unlinking, Some Binding}"
      using that unfolding launch(1) by (auto split: if_splits)
    then show ?thesis
      using inv same unfolding socket_inv_def by blast
  qed
  moreover have "live_listener (sy_world s') path l" if "holds s' e' l" for e' l
    using inv same [OF that] unfolding socket_inv_def launch(1) by simp
  moreover have "ids_bound (sy_world s')"
    using inv unfolding launch(1) by (simp add: socket_inv_def ids_bound_def)
  ultimately show ?thesis
    using same by (intro inv_transfer [OF inv]) blast+
next
  case (advance_phase e ph ph' w')
  then show ?thesis
    using advance_inv [OF inv serial honest] by simp
next
  case (stop e l)
  then have "holds s e l"
    by (simp add: holds_def serving_def)
  then have "\<not> holds s' e' k" for e' k
    using socket_inv_unique [OF inv] unfolding stop(1) holds_removed by blast
  moreover have "ids_bound (sy_world s')"
    using inv unfolding stop(1) by (auto simp: socket_inv_def ids_bound_def shut_down_def close_listener_def unlink_fields)
  ultimately show ?thesis
    by (rule inv_nobody)
next
  case (crash e ph)
  have live: "live_listener (sy_world s') path l" if held: "holds s' e' l" for e' l
  proof -
    have e': "e' \<noteq> e" "holds s e' l"
      using held unfolding crash(1) holds_removed by blast+
    then have "live_listener (sy_world s) path l"
      using inv unfolding socket_inv_def by blast
    moreover have "k \<noteq> l" if "ph = Tightening k \<or> ph = Over (Inr k)" for k
      using socket_inv_unique [OF inv e'(2), of e k] that crash(2) e'(1) by (auto simp: holds_def serving_def)
    ultimately show ?thesis
      using close_phase_cases [of ph "sy_world s"] live_close unfolding crash(1) by auto
  qed
  moreover have "ids_bound (sy_world s')"
  proof -
    have "ids_bound (sy_world s)"
      using inv by (simp add: socket_inv_def ids_bound_def)
    then show ?thesis
      using close_phase_cases [of ph "sy_world s"] ids_bound_close unfolding crash(1) by auto
  qed
  moreover have "\<forall>e'' l. \<not> holds s' e'' l" if "sy_engines s' e' \<in> {Some Unlinking, Some Binding}" for e'
  proof -
    have "sy_engines s e' \<in> {Some Unlinking, Some Binding}"
      using that unfolding crash(1) by (auto split: if_splits)
    then show ?thesis
      using inv unfolding socket_inv_def crash(1) holds_removed by blast
  qed
  ultimately show ?thesis
    using crash(1) holds_removed by (intro inv_transfer [OF inv]) blast+
qed

lemma serial_reachable:
  assumes "(serial_move so path)\<^sup>*\<^sup>* (quiet_system w) s" and "honest_connect so" and "ids_bound w"
  shows "socket_inv path s \<and> serial_state s"
  using assms(1)
proof (induction rule: rtranclp_induct)
  case base
  have "socket_inv path (quiet_system w)"
    using assms(3) by (intro inv_nobody) (simp_all add: quiet_system_def holds_simps)
  then show ?case
    by (simp add: serial_state_def starting_def quiet_system_def)
next
  case (step s s')
  then show ?case
    using move_inv [OF _ _ _ assms(2)] unfolding serial_move_def serial_state_def by blast
qed

text \<open>C30: When start-ups do not overlap, whatever the engines do otherwise (serve, shut down or crash
  at any time, leave stale files behind), at most one engine serves, and a client that connects to the
  path reaches it.\<close>

theorem engines_exclusive:
  assumes "(serial_move so path)\<^sup>*\<^sup>* (quiet_system w) s" and "honest_connect so"
    and "uw_listening w \<subseteq> {..<uw_next_listener w}" and "serving s e l"
  shows "live_listener (sy_world s) path l \<and> (\<forall>e' l'. serving s e' l' \<longrightarrow> e' = e)"
proof -
  have inv: "socket_inv path s"
    using serial_reachable [OF assms(1,2)] assms(3) by (simp add: ids_bound_def)
  have "holds s e l"
    using assms(4) by (simp add: holds_def)
  moreover have "serving s e' l' \<Longrightarrow> holds s e' l'" for e' l'
    by (simp add: holds_def)
  ultimately show ?thesis
    using inv socket_inv_unique [OF inv] unfolding socket_inv_def by blast
qed

section \<open>Runs\<close>

text \<open>A list of moves, and the state they lead to; \<open>True\<close> launches the engine, \<open>False\<close> advances it.\<close>

fun run_engines :: "sock_env \<Rightarrow> string \<Rightarrow> (nat \<times> bool) list \<Rightarrow> socket_system \<Rightarrow> socket_system option" where
  "run_engines so path [] s = Some s"
| "run_engines so path ((e, fresh) # ms) s =
     (case sy_engines s e of
        None \<Rightarrow> if fresh
                then run_engines so path ms (s\<lparr>sy_engines := (sy_engines s)(e \<mapsto> CheckParent)\<rparr>) else None
      | Some ph \<Rightarrow>
          if fresh \<or> phase_over ph then None
          else (case bind_step so path ph (sy_world s) of (ph', w') \<Rightarrow>
                  run_engines so path ms \<lparr>sy_world = w', sy_engines = (sy_engines s)(e \<mapsto> ph')\<rparr>))"

lemma run_engines_Cons:
  assumes "run_engines so path (m # ms) s = Some s'"
  obtains t where "engine_move so path s t" and "run_engines so path ms t = Some s'"
    and "\<And>e. e \<noteq> fst m \<Longrightarrow> sy_engines t e = sy_engines s e"
proof -
  obtain e fresh where m: "m = (e, fresh)"
    by fastforce
  show ?thesis
  proof (cases "sy_engines s e")
    case None
    with assms m show ?thesis
      by (intro that [OF engine_move.launch [OF None]]) (auto split: if_splits)
  next
    case (Some ph)
    obtain ph' w' where step: "bind_step so path ph (sy_world s) = (ph', w')"
      by fastforce
    have "\<not> phase_over ph"
      using assms m Some by (auto split: if_splits)
    from that [OF engine_move.advance_phase [OF Some this step]] show ?thesis
      using assms m Some step by (auto split: if_splits)
  qed
qed

lemma run_engines_moves: "run_engines so path ms s = Some s' \<Longrightarrow> (engine_move so path)\<^sup>*\<^sup>* s s'"
proof (induction ms arbitrary: s)
  case (Cons m ms)
  then show ?case
    by (metis run_engines_Cons converse_rtranclp_into_rtranclp)
qed simp

lemma run_engines_serial:
  assumes "run_engines so path ms s = Some s'" and "list_all (\<lambda>m. fst m = e) ms"
    and "\<And>e'. e' \<noteq> e \<Longrightarrow> \<not> starting s e'"
  shows "(serial_move so path)\<^sup>*\<^sup>* s s'"
  using assms
proof (induction ms arbitrary: s)
  case (Cons m ms)
  obtain t where t: "engine_move so path s t" "run_engines so path ms t = Some s'"
    "\<And>e'. e' \<noteq> fst m \<Longrightarrow> sy_engines t e' = sy_engines s e'"
    using run_engines_Cons [OF Cons.prems(1)] by blast
  then have calm: "\<not> starting t e'" if "e' \<noteq> e" for e'
    using Cons.prems(2,3) that by (simp add: starting_def)
  then have "serial_move so path s t"
    using t(1) unfolding serial_move_def by metis
  moreover have "(serial_move so path)\<^sup>*\<^sup>* t s'"
    using Cons.IH [OF t(2)] Cons.prems(2) calm by simp
  ultimately show ?case
    by (rule converse_rtranclp_into_rtranclp)
qed simp

definition launch_and_bind :: "nat \<Rightarrow> (nat \<times> bool) list" where
  "launch_and_bind e = [(e, True), (e, False), (e, False), (e, False), (e, False), (e, False), (e, False)]"

text \<open>Two engines look at the same stale file before either has removed it.\<close>

definition overlapping_start :: "(nat \<times> bool) list" where
  "overlapping_start =
     [(1, True), (1, False), (1, False), (1, False), (2, True), (2, False), (2, False), (2, False),
      (1, False), (1, False), (1, False), (2, False), (2, False), (2, False)]"

lemma sock_parent: "parent_path ''/e.sock'' = Some ''/''"
  by (simp add: parent_path_def)

lemmas run_defs = prepare_parent_def sock_parent unlink_stale_def unlink_file_def bind_strict_def
  with_strict_umask_def bind_listener_def tighten_def set_permissions_def plain_env_def
  plain_connect_def one_engine_def put_nodes_def quiet_system_def

theorem engines_exclusive_witness:
  "\<exists>s. (serial_move plain_env ''/e.sock'')\<^sup>*\<^sup>* (quiet_system (one_engine {})) s \<and> serving s 1 1 \<and>
     live_listener (sy_world s) ''/e.sock'' 1"
proof -
  let ?s0 = "quiet_system (one_engine {})"
  obtain s where s: "run_engines plain_env ''/e.sock'' (launch_and_bind 1) ?s0 = Some s" "serving s 1 1"
    by (simp add: launch_and_bind_def run_defs serving_def)
  have "list_all (\<lambda>m. fst m = 1) (launch_and_bind 1)"
    by (simp add: launch_and_bind_def)
  then have "(serial_move plain_env ''/e.sock'')\<^sup>*\<^sup>* ?s0 s"
    using run_engines_serial [OF s(1)] by (simp add: starting_def quiet_system_def)
  moreover have "uw_listening (one_engine {}) \<subseteq> {..<uw_next_listener (one_engine {})}"
    by (simp add: one_engine_def)
  ultimately show ?thesis
    using engines_exclusive [OF _ plain_honest] s(2) by blast
qed

text \<open>C31: When two start-ups overlap, the second engine can take the socket of the first: there is a
  run in which both look at the same stale file, the first removes it, binds and serves, and then the
  second removes the socket of the first, binds and serves. Both engines run, both listen, and only
  the second one can be reached. No call fails on the way.\<close>

theorem overlapping_start_steals:
  "\<exists>s. (engine_move plain_env ''/e.sock'')\<^sup>*\<^sup>* (quiet_system (one_engine {})) s \<and>
     serving s 1 1 \<and> serving s 2 2 \<and> 1 \<in> uw_listening (sy_world s) \<and>
     \<not> live_listener (sy_world s) ''/e.sock'' 1 \<and> live_listener (sy_world s) ''/e.sock'' 2"
proof -
  have "\<exists>s. run_engines plain_env ''/e.sock'' overlapping_start (quiet_system (one_engine {})) = Some s \<and>
     serving s 1 1 \<and> serving s 2 2 \<and> 1 \<in> uw_listening (sy_world s) \<and>
     \<not> live_listener (sy_world s) ''/e.sock'' 1 \<and> live_listener (sy_world s) ''/e.sock'' 2"
    by (simp add: overlapping_start_def run_defs serving_def live_listener_def)
  then show ?thesis
    using run_engines_moves by blast
qed

end
