(* ===== verification/Llm_Adapters.thy ===== *)
theory Llm_Adapters
  imports Llm_Port Sidecar Wer
begin

text \<open>
  The adapter for hosted and local language models, \<open>panops-portable/src/genai_llm.rs\<close>, and the two
  fakes of the port in \<open>panops-core/src/conformance/fakes.rs\<close>. The chat client (\<open>genai\<close>), the parser
  of JSON texts and the environment variables are fields of an environment.
\<close>

section \<open>The adapter\<close>

text \<open>
  \<open>gn_chat model system user temperature max_tokens\<close> is the text of the first choice, \<open>None\<close> when
  there is none; \<open>gn_runtime\<close> is the error of creating the shared runtime, if any.
\<close>

record genai_env =
  gn_var :: "string \<Rightarrow> string option"
  gn_runtime :: "string option"
  gn_chat :: "string \<Rightarrow> string option \<Rightarrow> string \<Rightarrow> f32 \<Rightarrow> u32 \<Rightarrow> string + string option"
  gn_parse :: "string \<Rightarrow> string + json"

definition new_genai :: "genai_env \<Rightarrow> string \<Rightarrow> llm_error + string" where
  "new_genai gn model =
     (case gn_runtime gn of
        Some e \<Rightarrow> Inl (LlmProviderError (''create CLI runtime: '' @ e))
      | None \<Rightarrow> Inr model)"

definition genai_auto :: "genai_env \<Rightarrow> llm_error + string" where
  "genai_auto gn =
     (if gn_var gn ''ANTHROPIC_API_KEY'' \<noteq> None then new_genai gn ''claude-haiku-4-5-20251001''
      else if gn_var gn ''OPENAI_API_KEY'' \<noteq> None then new_genai gn ''gpt-4o-mini''
      else if gn_var gn ''OLLAMA_HOST'' \<noteq> None then new_genai gn ''gemma3:4b''
      else Inl (LlmProviderError
             ''no provider configured; set OLLAMA_HOST, ANTHROPIC_API_KEY, or OPENAI_API_KEY''))"

definition strip_suffix :: "string \<Rightarrow> string \<Rightarrow> string option" where
  "strip_suffix s p = (if suffix p s then Some (take (length s - length p) s) else None)"

definition strip_markdown_fences :: "string \<Rightarrow> string" where
  "strip_markdown_fences s =
     (let s = trim s
      in case (case strip_prefix ''```json'' s of Some r \<Rightarrow> Some r | None \<Rightarrow> strip_prefix ''```'' s) of
           None \<Rightarrow> s
         | Some inner \<Rightarrow>
             (let trimmed = trim inner
              in trim (case strip_suffix trimmed ''```'' of Some r \<Rightarrow> r | None \<Rightarrow> trimmed)))"

definition is_char_boundary :: "string \<Rightarrow> nat \<Rightarrow> bool" where
  "is_char_boundary s i = (i = 0 \<or> i = length s \<or> i < length s \<and> \<not> continuation (s ! i))"

fun floor_boundary :: "string \<Rightarrow> nat \<Rightarrow> nat" where
  "floor_boundary s 0 = 0"
| "floor_boundary s (Suc i) = (if is_char_boundary s (Suc i) then Suc i else floor_boundary s i)"

definition preview_for_error :: "string \<Rightarrow> string" where
  "preview_for_error s =
     (if length s \<le> 200 then s
      else let e = floor_boundary s 200
           in take e s @ [CHR 0xE2, CHR 0x80, CHR 0xA6] @ ''[+'' @ dec (length s - e) @ '' bytes]'')"

definition genai_complete :: "genai_env \<Rightarrow> string \<Rightarrow> llm_request \<Rightarrow> llm_result" where
  "genai_complete gn model req =
     (case gn_chat gn model (req_system req) (req_user req) (req_temperature req) (req_max_tokens req) of
        Inl e \<Rightarrow> Inl (LlmProviderError e)
      | Inr None \<Rightarrow> Inl LlmEmptyResponse
      | Inr (Some body) \<Rightarrow>
          if req_schema req \<noteq> None
          then (let json_text = strip_markdown_fences body
                in case gn_parse gn json_text of
                     Inr v \<Rightarrow> Inr (LlmJson v)
                   | Inl e \<Rightarrow> Inl (LlmInvalidSchema ''json object''
                       (''text ('' @ e @ ''); preview: '' @ preview_for_error json_text)))
          else Inr (LlmText body))"

section \<open>Fakes\<close>

text \<open>\<open>MockLlm\<close>: answers by fingerprint; an unknown prompt is a panic. \<open>FailingLlm\<close> ignores its prompt.\<close>

type_synonym mock_llm = "string \<rightharpoonup> string + llm_response"

definition with_response_for ::
  "(string \<Rightarrow> string) \<Rightarrow> string option \<Rightarrow> string \<Rightarrow> llm_response \<Rightarrow> mock_llm \<Rightarrow> mock_llm" where
  "with_response_for sha system user response m = m(prompt_fingerprint sha system user \<mapsto> Inr response)"

definition with_error_for ::
  "(string \<Rightarrow> string) \<Rightarrow> string option \<Rightarrow> string \<Rightarrow> string \<Rightarrow> mock_llm \<Rightarrow> mock_llm" where
  "with_error_for sha system user message m = m(prompt_fingerprint sha system user \<mapsto> Inl message)"

definition mock_complete :: "(string \<Rightarrow> string) \<Rightarrow> mock_llm \<Rightarrow> llm_request \<Rightarrow> llm_result option" where
  "mock_complete sha m req =
     map_option (map_sum LlmProviderError id) (m (prompt_fingerprint sha (req_system req) (req_user req)))"

datatype fail_mode = FailProvider string | FailEmpty

definition failing_complete :: "fail_mode \<Rightarrow> llm_request \<Rightarrow> llm_result" where
  "failing_complete mode req =
     (case mode of FailProvider message \<Rightarrow> Inl (LlmProviderError message) | FailEmpty \<Rightarrow> Inl LlmEmptyResponse)"

section \<open>Characters\<close>

text \<open>The bytes of one character in a valid string.\<close>

definition one_char :: "string \<Rightarrow> bool" where
  "one_char w \<longleftrightarrow> w \<noteq> [] \<and> length w \<le> 4 \<and> list_all continuation (tl w) \<and>
     (\<forall>t. valid_utf8 (w @ t) \<longleftrightarrow> valid_utf8 t)"

lemma byte_in_continuation: "byte_in a b c \<Longrightarrow> 0x80 \<le> a \<Longrightarrow> b \<le> 0xBF \<Longrightarrow> continuation c"
  by (simp add: byte_in_def continuation_def)

lemma valid_utf8_split:
  assumes "valid_utf8 s" and "s \<noteq> []"
  shows "\<exists>w t. s = w @ t \<and> one_char w \<and> valid_utf8 t"
proof -
  obtain a r where s: "s = a # r"
    using assms(2) by (cases s) auto
  consider "byte a < 0x80" | "\<not> byte a < 0x80" "byte_in 0xC2 0xDF a"
    | "\<not> byte a < 0x80" "\<not> byte_in 0xC2 0xDF a" "byte_in 0xE0 0xEF a"
    | "\<not> byte a < 0x80" "\<not> byte_in 0xC2 0xDF a" "\<not> byte_in 0xE0 0xEF a" "byte_in 0xF0 0xF4 a"
    using assms(1) s by (auto split: if_splits)
  then show ?thesis
  proof cases
    case 1
    then show ?thesis
      using assms(1) s by (intro exI [of _ "[a]"] exI [of _ r]) (simp add: one_char_def)
  next
    case 2
    then obtain b t where "r = b # t" "byte_in 0x80 0xBF b" "valid_utf8 t"
      using assms(1) s by (auto split: list.splits)
    with 2 s show ?thesis
      by (intro exI [of _ "[a, b]"] exI [of _ t]) (auto simp: one_char_def intro: byte_in_continuation)
  next
    case 3
    then obtain b c t where "r = b # c # t" and bs: "byte_in (if byte a = 0xE0 then 0xA0 else 0x80)
        (if byte a = 0xED then 0x9F else 0xBF) b" "byte_in 0x80 0xBF c" "valid_utf8 t"
      using assms(1) s by (auto split: list.splits)
    moreover have "continuation b" "continuation c"
      using bs by (auto intro: byte_in_continuation split: if_splits)
    ultimately show ?thesis
      using 3 s by (intro exI [of _ "[a, b, c]"] exI [of _ t]) (simp add: one_char_def)
  next
    case 4
    then obtain b c d t where "r = b # c # d # t" and bs: "byte_in (if byte a = 0xF0 then 0x90 else 0x80)
        (if byte a = 0xF4 then 0x8F else 0xBF) b" "byte_in 0x80 0xBF c" "byte_in 0x80 0xBF d" "valid_utf8 t"
      using assms(1) s by (auto split: list.splits)
    moreover have "continuation b" "continuation c" "continuation d"
      using bs by (auto intro: byte_in_continuation split: if_splits)
    ultimately show ?thesis
      using 4 s by (intro exI [of _ "[a, b, c, d]"] exI [of _ t]) (simp add: one_char_def)
  qed
qed

lemma valid_utf8_hd: "valid_utf8 s \<Longrightarrow> s \<noteq> [] \<Longrightarrow> \<not> continuation (s ! 0)"
  by (cases s) (auto simp: continuation_def byte_in_def split: if_splits)

lemma boundary_shift:
  assumes "one_char w" and "length w \<le> i" and "valid_utf8 t"
  shows "is_char_boundary (w @ t) i \<longleftrightarrow> is_char_boundary t (i - length w)"
  using assms valid_utf8_hd [OF assms(3)]
  by (cases "i = length w") (auto simp: is_char_boundary_def nth_append one_char_def)

text \<open>A cut at a boundary leaves a valid string, and there is a boundary among any four positions.\<close>

lemma boundary_cut:
  assumes "valid_utf8 s" and "n \<le> length s"
  shows "(is_char_boundary s n \<longrightarrow> valid_utf8 (take n s)) \<and> (\<exists>m. m \<le> n \<and> n \<le> m + 3 \<and> is_char_boundary s m)"
  using assms
proof (induction "length s" arbitrary: s n rule: less_induct)
  case less
  show ?case
  proof (cases "s = []")
    case True
    then show ?thesis
      using less.prems by (simp add: is_char_boundary_def)
  next
    case False
    then obtain w t where s: "s = w @ t" and w: "one_char w" and t: "valid_utf8 t"
      using valid_utf8_split [OF less.prems(1)] by blast
    have w4: "w \<noteq> []" "length w \<le> 4" "list_all continuation (tl w)"
      and more: "\<And>u. valid_utf8 (w @ u) \<longleftrightarrow> valid_utf8 u"
      using w by (simp_all add: one_char_def)
    show ?thesis
    proof (cases "length w \<le> n")
      case True
      have "length t < length s" and "n - length w \<le> length t"
        using s w4 less.prems(2) by simp_all
      from less.hyps [OF this(1) t this(2)] obtain m where
        IH: "is_char_boundary t (n - length w) \<longrightarrow> valid_utf8 (take (n - length w) t)"
        "m \<le> n - length w" "n - length w \<le> m + 3" "is_char_boundary t m"
        by blast
      have "is_char_boundary s (m + length w)"
        using boundary_shift [OF w _ t, of "m + length w"] IH(4) s by simp
      moreover have "is_char_boundary s n \<longrightarrow> valid_utf8 (take n s)"
        using IH(1) boundary_shift [OF w True t] more s True by simp
      ultimately show ?thesis
        using IH(2,3) True by (intro conjI exI [of _ "m + length w"]) auto
    next
      case False
      have "\<not> is_char_boundary s n" if "0 < n"
      proof -
        obtain a v where v: "w = a # v"
          using w4(1) by (cases w) auto
        obtain k where k: "n = Suc k"
          using \<open>0 < n\<close> by (cases n) auto
        then have "k < length v"
          using False v by simp
        then have "continuation (s ! n)"
          using w4(3) unfolding s v k by (simp add: nth_append list_all_length)
        then show ?thesis
          using False that s by (simp add: is_char_boundary_def)
      qed
      then show ?thesis
        using False w4(2) by (cases "n = 0") (auto simp: is_char_boundary_def intro!: exI [of _ 0])
    qed
  qed
qed

lemma floor_boundary_greatest:
  "is_char_boundary s (floor_boundary s n) \<and> floor_boundary s n \<le> n \<and>
   (\<forall>m \<le> n. is_char_boundary s m \<longrightarrow> m \<le> floor_boundary s n)"
proof (induction s n rule: floor_boundary.induct)
  case (1 s)
  then show ?case by (simp add: is_char_boundary_def)
next
  case (2 s i)
  then show ?case by (auto simp: le_Suc_eq)
qed

text \<open>The preview of an answer in an error message never cuts a character: a short answer is shown
  whole, a long one up to a cut between 197 and 200 bytes that leaves a valid string, followed by the
  exact number of bytes that were left out.\<close>

theorem preview_cuts_at_characters:
  assumes "valid_utf8 s"
  shows "(length s \<le> 200 \<longrightarrow> preview_for_error s = s) \<and>
    (200 < length s \<longrightarrow>
       (\<exists>n. 197 \<le> n \<and> n \<le> 200 \<and> valid_utf8 (take n s) \<and>
          preview_for_error s = take n s @ [CHR 0xE2, CHR 0x80, CHR 0xA6] @ ''[+'' @ dec (length s - n) @ '' bytes]''))"
proof (cases "length s \<le> 200")
  case False
  let ?n = "floor_boundary s 200"
  have n: "is_char_boundary s ?n" "?n \<le> 200" "\<And>m. m \<le> 200 \<Longrightarrow> is_char_boundary s m \<Longrightarrow> m \<le> ?n"
    using floor_boundary_greatest by blast+
  obtain m where "m \<le> 200" "200 \<le> m + 3" "is_char_boundary s m"
    using boundary_cut [OF assms, of 200] False by auto
  then have "197 \<le> ?n"
    using n(3) by fastforce
  moreover have "valid_utf8 (take ?n s)"
    using boundary_cut [OF assms, of ?n] n(1,2) False by simp
  ultimately show ?thesis
    using False n(2) by (auto simp: preview_for_error_def Let_def)
qed (simp add: preview_for_error_def)

theorem preview_cuts_at_characters_witness: "preview_for_error ''here you are'' = ''here you are''"
proof -
  have "valid_utf8 ''here you are''"
    by code_simp
  from preview_cuts_at_characters [OF this] show ?thesis
    by simp
qed

section \<open>Fenced answers\<close>

definition fence_open :: string where
  "fence_open = ''```json'' @ newline"

definition fence_close :: string where
  "fence_close = newline @ ''```''"

lemma strip_one_None: "strip_one ws s = None \<longleftrightarrow> (\<forall>w \<in> set ws. \<not> prefix w s)"
  by (induction ws) auto

lemma strip_one_append: "strip_one ws s = Some r \<Longrightarrow> (\<And>w. w \<in> set ws \<Longrightarrow> prefix w (s @ t) \<Longrightarrow> prefix w s) \<Longrightarrow>
  strip_one ws (s @ t) = Some (r @ t)"
  by (induction ws) (auto simp: prefix_length_le split: if_splits)

text \<open>A white-space character has no newline in it, unless it is the newline.\<close>

lemma whitespace_newline: "w \<in> set whitespace_encodings \<Longrightarrow> newline_char \<in> set w \<Longrightarrow> w = newline"
  by (auto simp: whitespace_encodings_def newline_char_def newline_def)

lemma whitespace_fence: "w \<in> set whitespace_encodings \<Longrightarrow> hd w \<noteq> CHR ''`'' \<and> last w \<noteq> CHR ''`'' \<and> w \<noteq> []"
  by (auto simp: whitespace_encodings_def)

lemma prefix_before_newline:
  assumes "w \<in> set whitespace_encodings" and "prefix w (s @ newline_char # t)" and "s \<noteq> []"
  shows "prefix w s"
proof (rule ccontr)
  assume "\<not> prefix w s"
  then obtain u where "w = s @ newline_char # u"
    using assms(2) by (auto simp: prefix_append prefix_Cons)
  with whitespace_newline [OF assms(1)] assms(3) show False
    by (cases s) (auto simp: newline_def newline_char_def)
qed

lemma whitespace_nonempty: "[] \<notin> set whitespace_encodings" "[] \<notin> set (map rev whitespace_encodings)"
  using whitespace_fence by auto

lemma strip_whitespace:
  "strip_all whitespace_encodings s =
     (case strip_one whitespace_encodings s of None \<Rightarrow> s | Some r \<Rightarrow> strip_all whitespace_encodings r)"
  "strip_all (map rev whitespace_encodings) s =
     (case strip_one (map rev whitespace_encodings) s of
        None \<Rightarrow> s | Some r \<Rightarrow> strip_all (map rev whitespace_encodings) r)"
  using whitespace_nonempty by (simp_all add: strip_all.simps [of whitespace_encodings s]
      strip_all.simps [of "map rev whitespace_encodings" s])

lemma trim_start_keeps: "strip_one whitespace_encodings s = None \<Longrightarrow> trim_start s = s"
  by (simp add: trim_start_def strip_whitespace(1) [of s])

lemma trim_start_newline_Cons: "trim_start (newline_char # s) = trim_start s"
  by (simp add: trim_start_def strip_whitespace(1) [of "newline_char # s"])
    (simp add: whitespace_encodings_def newline_char_def)

lemma trim_start_Nil: "trim_start [] = []"
  by (rule trim_start_keeps) (use whitespace_nonempty in \<open>auto simp: strip_one_None\<close>)

lemma trim_start_fence: "trim_start (CHR ''`'' # s) = CHR ''`'' # s"
proof (rule trim_start_keeps)
  show "strip_one whitespace_encodings (CHR ''`'' # s) = None"
    using whitespace_fence by (fastforce simp: strip_one_None prefix_Cons)
qed

lemma trim_start_before_newline:
  "trim_start (j @ newline_char # y) =
     (if trim_start j = [] then trim_start y else trim_start j @ newline_char # y)"
proof (induction "length j" arbitrary: j rule: less_induct)
  case less
  show ?case
  proof (cases "strip_one whitespace_encodings j")
    case (Some r)
    then have "j \<noteq> []" and shorter: "length r < length j"
      using strip_one_shorter [OF Some whitespace_nonempty(1)] by auto
    have "strip_one whitespace_encodings (j @ newline_char # y) = Some (r @ newline_char # y)"
      by (rule strip_one_append [OF Some]) (rule prefix_before_newline [OF _ _ \<open>j \<noteq> []\<close>])
    then have "trim_start (j @ newline_char # y) = trim_start (r @ newline_char # y)"
      and "trim_start j = trim_start r"
      using Some by (simp_all add: trim_start_def strip_whitespace(1) [of "j @ newline_char # y"]
          strip_whitespace(1) [of j])
    then show ?thesis
      using less [OF shorter] by simp
  next
    case None
    show ?thesis
    proof (cases "j = []")
      case True
      then show ?thesis
        by (simp add: trim_start_newline_Cons trim_start_Nil)
    next
      case False
      then have "strip_one whitespace_encodings (j @ newline_char # y) = None"
        using None prefix_before_newline [OF _ _ False] by (auto simp: strip_one_None)
      then show ?thesis
        using trim_start_keeps [OF None] trim_start_keeps False by simp
    qed
  qed
qed

lemma trim_start_idem: "trim_start (trim_start s) = trim_start s"
proof (induction "length s" arbitrary: s rule: less_induct)
  case less
  show ?case
  proof (cases "strip_one whitespace_encodings s")
    case None
    then show ?thesis by (simp add: trim_start_keeps)
  next
    case (Some r)
    then show ?thesis
      using less [OF strip_one_shorter [OF Some whitespace_nonempty(1)]]
      by (simp add: trim_start_def strip_whitespace(1) [of s])
  qed
qed

lemma trim_end_newline: "trim_end (s @ [newline_char]) = trim_end s"
  by (simp add: trim_end_def strip_whitespace(2) [of "newline_char # rev s"])
    (simp add: whitespace_encodings_def newline_char_def)

lemma trim_end_fence: "trim_end (s @ [CHR ''`'']) = s @ [CHR ''`'']"
proof -
  have "strip_one (map rev whitespace_encodings) (CHR ''`'' # rev s) = None"
    using whitespace_fence by (fastforce simp: strip_one_None prefix_Cons rev_eq_Cons_iff)
  then show ?thesis
    by (simp add: trim_end_def strip_whitespace(2) [of "CHR ''`'' # rev s"])
qed

text \<open>An answer that a model puts between code fences is read as if it had not: whatever is
  between the opening and the closing fence, also when it holds fences itself, comes out with only
  the white space around it removed.\<close>

theorem fences_are_stripped:
  "strip_markdown_fences (fence_open @ j @ fence_close) = trim j"
proof -
  let ?fence = "''```''"
  have close: "fence_close = newline_char # ?fence" and fence3: "?fence = ''``'' @ [CHR ''`'']"
    by (simp_all add: fence_close_def newline_def newline_char_def)
  have all: "trim (fence_open @ j @ fence_close) = fence_open @ j @ fence_close"
  proof -
    have "fence_open @ j @ fence_close = CHR ''`'' # (''``json'' @ newline @ j @ fence_close)"
      by (simp add: fence_open_def)
    then have "trim_start (fence_open @ j @ fence_close) = fence_open @ j @ fence_close"
      by (metis trim_start_fence)
    moreover have "trim_end (fence_open @ j @ fence_close) = fence_open @ j @ fence_close"
      using trim_end_fence [of "fence_open @ j @ newline_char # ''``''"] unfolding close by simp
    ultimately show ?thesis
      by (simp add: trim_def)
  qed
  have inner: "strip_prefix ''```json'' (fence_open @ j @ fence_close) = Some (newline_char # j @ fence_close)"
    by (simp add: strip_prefix_def fence_open_def newline_def newline_char_def)
  let ?t = "trim_start j"
  have trimmed: "trim (newline_char # j @ fence_close) = (if ?t = [] then ?fence else ?t @ fence_close)"
  proof -
    have "trim_start (newline_char # j @ fence_close) = (if ?t = [] then ?fence else ?t @ fence_close)"
      using trim_start_before_newline [of j ?fence] trim_start_fence [of "''``''"]
      by (simp add: trim_start_newline_Cons close)
    moreover have "trim_end ?fence = ?fence" and "trim_end (?t @ fence_close) = ?t @ fence_close"
      using trim_end_fence [of "''``''"] trim_end_fence [of "?t @ newline_char # ''``''"]
      by (simp_all add: close)
    ultimately show ?thesis
      by (simp add: trim_def)
  qed
  have "strip_suffix (trim (newline_char # j @ fence_close)) ?fence = Some (if ?t = [] then [] else ?t @ [newline_char])"
    unfolding trimmed by (auto simp: strip_suffix_def close suffix_def)
  moreover have "trim (if ?t = [] then [] else ?t @ [newline_char]) = trim j"
  proof (cases "?t = []")
    case True
    then show ?thesis
      by (simp add: trim_def trim_start_Nil)
  next
    case False
    then have "trim_start (?t @ [newline_char]) = ?t @ [newline_char]"
      using trim_start_before_newline [of ?t "[]"] by (simp add: trim_start_idem)
    with False show ?thesis
      by (simp add: trim_def trim_end_newline)
  qed
  ultimately show ?thesis
    unfolding strip_markdown_fences_def Let_def all inner by simp
qed

text \<open>The port: a request with a schema is answered with JSON, one without with text.\<close>

lemma genai_answers_as_asked:
  "genai_complete gn model req = Inr a \<Longrightarrow> (\<exists>v. a = LlmJson v) \<longleftrightarrow> req_schema req \<noteq> None"
  by (auto simp: genai_complete_def Let_def split: sum.splits option.splits if_splits)

lemma mock_answers:
  "mock_complete sha (with_response_for sha system user r m) req = Some (Inr r)"
  if "req_system req = system" "req_user req = user"
  using that by (simp add: mock_complete_def with_response_for_def)

end
