(* ===== verification/Cli.thy ===== *)
theory Cli
  imports Notes_Run Markdown_Export Model_Download Speech_Adapters Diarizer Llm_Adapters Language_Sidecars
    Engine_Socket
begin

text \<open>
  The command-line program, \<open>panops-engine/src/main.rs\<close>, and the start of the server that shares its
  adapters (\<open>init_heavy_adapters\<close> and the first lines of \<open>run_serve\<close> in \<open>server/mod.rs\<close>). Everything the
  two commands call is modelled: the models and their download, the loading of audio, voice detection,
  recognition, diarization, generation, export and registration.

  An outcome is \<open>None\<close> for a panic, otherwise the exit status with a message, or a value. The state has the
  user's files, the counter of temporary files, the disk with the models (a path belongs to one of the
  two) and the registry. The answers of the WhisperKit and FoundationModels processes, the opening of the
  registry file, the clock, the directory listing and the conversion of paths to text are fields of the
  environment. The parser of the command line and the log are left out.
\<close>

section \<open>State and environment\<close>

record 's cli =
  cl_fs :: fs
  cl_temps :: u64
  cl_disk :: disk
  cl_store :: 's

text \<open>
  \<open>ce_genai_at i k\<close> is the chat client at the \<open>k\<close>-th call for section \<open>i\<close>; \<open>ce_end_time\<close> adds a duration to a time;
  \<open>ce_uuid\<close> numbers the identifiers that are drawn.
\<close>

record 's cli_env =
  ce_var :: "string \<Rightarrow> string option"
  ce_models :: model_env
  ce_exec_env :: exec_env
  ce_sherpa :: sherpa_env
  ce_whisper :: whisper_env
  ce_vad :: vad_env
  ce_whisperkit :: "string \<Rightarrow> nat \<Rightarrow> asr_provider"
  ce_genai :: genai_env
  ce_genai_at :: "nat \<Rightarrow> nat \<Rightarrow> genai_env"
  ce_foundation :: "string \<Rightarrow> nat \<Rightarrow> llm_answers"
  ce_pipeline :: pipeline_env
  ce_json :: "transcript \<Rightarrow> string + string"
  ce_read_dir :: "fs \<Rightarrow> string \<Rightarrow> string list"
  ce_canonicalize :: canonicalizer
  ce_lossy :: "string \<Rightarrow> string"
  ce_path_debug :: "string \<Rightarrow> string"
  ce_str_debug :: "string \<Rightarrow> string"
  ce_now :: string
  ce_clock :: clock
  ce_end_time :: "string \<Rightarrow> u64 \<Rightarrow> string option"
  ce_uuid :: "nat \<Rightarrow> string"
  ce_open_registry :: "string \<Rightarrow> 's \<Rightarrow> string + 's"
  ce_exec :: "storage_call \<Rightarrow> 's \<Rightarrow> storage_reply \<times> 's"

type_synonym 'a cli_outcome = "((nat \<times> string) + 'a) option"

definition cli_then ::
  "'a cli_outcome \<times> 't \<Rightarrow> ('a \<Rightarrow> 't \<Rightarrow> 'b cli_outcome \<times> 't) \<Rightarrow> 'b cli_outcome \<times> 't" where
  "cli_then x f = (case x of (None, t) \<Rightarrow> (None, t) | (Some (Inl e), t) \<Rightarrow> (Some (Inl e), t) | (Some (Inr a), t) \<Rightarrow> f a t)"

text \<open>A result whose error ends the program with status \<open>n\<close>: a value, an operation on the models' disk,
  one on the user's files.\<close>

definition checked :: "nat \<Rightarrow> ('e \<Rightarrow> string) \<Rightarrow> 'e + 'a \<Rightarrow> 't \<Rightarrow> 'a cli_outcome \<times> 't" where
  "checked n msg r s = (Some (map_sum (\<lambda>e. (n, msg e)) id r), s)"

definition on_disk :: "(disk \<Rightarrow> (asr_error + 'a) \<times> disk) \<Rightarrow> 's cli \<Rightarrow> 'a cli_outcome \<times> 's cli" where
  "on_disk f s = (case f (cl_disk s) of (r, w) \<Rightarrow> checked 3 asr_error_text r (s\<lparr>cl_disk := w\<rparr>))"

definition on_files :: "(string \<Rightarrow> string) \<Rightarrow> (fs \<Rightarrow> export_error + fs) \<Rightarrow> 's cli \<Rightarrow> unit cli_outcome \<times> 's cli" where
  "on_files msg f s =
     (case f (cl_fs s) of
        Inl e \<Rightarrow> (Some (Inl (3, msg (case e of ExportIo m \<Rightarrow> m | _ \<Rightarrow> []))), s)
      | Inr d \<Rightarrow> (Some (Inr ()), s\<lparr>cl_fs := d\<rparr>))"

text \<open>The models' disk as plain files.\<close>

definition disk_view :: "'s cli \<Rightarrow> fs" where
  "disk_view s p =
     map_option (\<lambda>n. case n of DiskDir \<Rightarrow> FsDir | DiskFile b t \<Rightarrow> FsFile b) (dk_nodes (cl_disk s) p)"

section \<open>Transcription\<close>

text \<open>\<open>asr i\<close> answers the calls for the \<open>i\<close>-th region.\<close>

fun stitch_regions ::
  "(nat \<Rightarrow> asr_provider) \<Rightarrow> bool \<Rightarrow> f32 list \<Rightarrow> u32 \<Rightarrow> string option \<Rightarrow> u64 \<Rightarrow> nat \<Rightarrow> speech_region list
   \<Rightarrow> segment list \<Rightarrow> string option \<Rightarrow> (segment list \<times> string option) cli_outcome" where
  "stitch_regions asr is_fake samples sample_rate language total_ms i [] stitched model =
     Some (Inr (stitched, model))"
| "stitch_regions asr is_fake samples sample_rate language total_ms i (r # rs) stitched model =
     (let clamped = clamp_to r total_ms
      in if region_end_ms clamped \<le> region_start_ms clamped
         then stitch_regions asr is_fake samples sample_rate language total_ms (Suc i) rs stitched model
         else case transcribe_recursive (asr i) is_fake samples sample_rate clamped language of
           None \<Rightarrow> None
         | Some (Inl e, calls) \<Rightarrow> Some (Inl (2, ''transcription failed''))
         | Some (Inr result, calls) \<Rightarrow>
             stitch_regions asr is_fake samples sample_rate language total_ms (Suc i) rs
               (stitched @ rr_segments result) (option_or model (rr_model result)))"

definition stitched_transcript ::
  "string \<Rightarrow> (nat \<Rightarrow> asr_provider) \<Rightarrow> bool \<Rightarrow> (f32 list \<Rightarrow> u32 \<Rightarrow> vad_error + speech_region list)
   \<Rightarrow> string option \<Rightarrow> f32 list \<Rightarrow> u32 \<Rightarrow> transcript cli_outcome" where
  "stitched_transcript audio asr is_fake vad language samples sample_rate =
     (case vad samples sample_rate of
        Inl e \<Rightarrow> Some (Inl (2, ''vad failed''))
      | Inr regions \<Rightarrow>
          (case total_audio_ms samples sample_rate of
             None \<Rightarrow> None
           | Some total_ms \<Rightarrow>
               map_option (map_sum id (\<lambda>(segments, model).
                   \<lparr>tr_schema_version = transcript_schema_version,
                    tr_model = (case model of None \<Rightarrow> ''vad-multilingual'' | Some m \<Rightarrow> m),
                    tr_audio_path = audio, tr_audio_duration_ms = total_ms, tr_diarized = False,
                    tr_segments = segments\<rparr>))
                 (stitch_regions asr is_fake samples sample_rate language total_ms 0
                    (merge_adjacent_regions regions 5000) [] None)))"

definition transcribe_with_vad ::
  "'s cli_env \<Rightarrow> string \<Rightarrow> (nat \<Rightarrow> asr_provider) \<Rightarrow> bool \<Rightarrow> (f32 list \<Rightarrow> u32 \<Rightarrow> vad_error + speech_region list)
   \<Rightarrow> string option \<Rightarrow> 's cli \<Rightarrow> transcript cli_outcome \<times> 's cli" where
  "transcribe_with_vad ce audio asr is_fake vad language s =
     (case load_audio_mono16k (sh_audio (ce_sherpa ce)) audio (cl_fs s, cl_temps s) of
        (r, d, n) \<Rightarrow>
          (case r of
             Inl e \<Rightarrow> Some (Inl (2, ''audio decode failed''))
           | Inr (samples, sample_rate) \<Rightarrow>
               stitched_transcript audio asr is_fake vad language samples sample_rate,
           s\<lparr>cl_fs := d, cl_temps := n\<rparr>))"

text \<open>The recogniser that was picked, and the fake that reads a file beside the audio.\<close>

definition asr_of :: "'s cli_env \<Rightarrow> asr_choice \<Rightarrow> nat \<Rightarrow> asr_provider" where
  "asr_of ce c i =
     (case c of
        WhisperKit bin \<Rightarrow> ce_whisperkit ce bin i
      | WhisperRs model_path \<Rightarrow>
          (\<lambda>k (chunk, rate, hint). whisper_transcribe (ce_whisper ce) model_path chunk rate hint))"

definition canned_asr :: "transcript \<Rightarrow> nat \<Rightarrow> asr_provider" where
  "canned_asr canned i k call =
     (case call of (chunk, rate, hint) \<Rightarrow> transcript_fake_transcribe canned chunk rate hint)"

definition engine_asr :: "'s cli_env \<Rightarrow> fs \<Rightarrow> string \<Rightarrow> asr_error + asr_choice" where
  "engine_asr ce d model_path =
     pick_asr (ce_exec_env ce) (ce_var ce ''PANOPS_ASR_SIDECAR_BIN'')
       (\<lambda>p. case new_whisper_asr (ce_whisper ce) d p of Inl e \<Rightarrow> Some e | Inr m \<Rightarrow> None) model_path"

definition transcribe ::
  "'s cli_env \<Rightarrow> string \<Rightarrow> string option \<Rightarrow> string option \<Rightarrow> 's cli \<Rightarrow> transcript cli_outcome \<times> 's cli" where
  "transcribe ce audio model language s =
     (let me = ce_models ce
      in if cl_fs s audio = None
         then (Some (Inl (1, ''audio file not found: '' @ ce_path_debug ce audio)), s)
         else if ce_var ce ''PANOPS_FAKE_ASR'' = Some ''1''
         then (case read_canned_sidecar (cl_fs s) audio of
                 None \<Rightarrow> (None, s)
               | Some canned \<Rightarrow>
                   transcribe_with_vad ce audio (canned_asr canned) True (known_detect_speech default_known_regions)
                     language s)
         else
           cli_then (checked 3 asr_error_text (case model of Some p \<Rightarrow> Inr p | None \<Rightarrow> default_model_path me) s) (\<lambda>p s.
           cli_then (on_disk (ensure_model me default_model_name p) s) (\<lambda>p s.
           cli_then (checked 3 asr_error_text (engine_asr ce (disk_view s) p) s) (\<lambda>asr s.
           cli_then (checked 3 asr_error_text (default_vad_model_path me) s) (\<lambda>v s.
           cli_then (on_disk (ensure_vad_model me v) s) (\<lambda>v s.
           cli_then (checked 3 vad_error_text (new_whisper_vad (ce_vad ce) (disk_view s) v) s) (\<lambda>u s.
             transcribe_with_vad ce audio (asr_of ce asr) False (whisper_detect_speech (ce_vad ce)) language s)))))))"

definition diarize :: "'s cli_env \<Rightarrow> string \<Rightarrow> 's cli \<Rightarrow> speaker_turn list cli_outcome \<times> 's cli" where
  "diarize ce audio s =
     cli_then (on_disk (ensure_diar_models (ce_models ce)) s) (\<lambda>(seg, emb) s.
     cli_then (checked 3 diar_error_text (new_sherpa_diarizer (ce_sherpa ce) (disk_view s) seg emb) s) (\<lambda>models s.
       case sherpa_diarize (ce_sherpa ce) models audio (cl_fs s, cl_temps s) of
         (r, d, n) \<Rightarrow> checked 2 diar_error_text r (s\<lparr>cl_fs := d, cl_temps := n\<rparr>)))"

definition with_turns :: "speaker_turn list \<Rightarrow> transcript \<Rightarrow> transcript" where
  "with_turns turns t =
     t\<lparr>tr_segments := merge_speaker_turns (tr_segments t) turns, tr_diarized := True\<rparr>"

definition spoken_transcript ::
  "'s cli_env \<Rightarrow> string \<Rightarrow> string option \<Rightarrow> string option \<Rightarrow> bool \<Rightarrow> 's cli \<Rightarrow> transcript cli_outcome \<times> 's cli" where
  "spoken_transcript ce audio model language no_diarize s =
     cli_then (transcribe ce audio model language s) (\<lambda>t s.
       if no_diarize then (Some (Inr t), s)
       else cli_then (diarize ce audio s) (\<lambda>turns s. (Some (Inr (with_turns turns t)), s)))"

text \<open>The default command: its value is the text that it prints.\<close>

definition run_default ::
  "'s cli_env \<Rightarrow> string option \<Rightarrow> string option \<Rightarrow> string option \<Rightarrow> bool \<Rightarrow> 's cli \<Rightarrow> string cli_outcome \<times> 's cli" where
  "run_default ce audio model language no_diarize s =
     (case audio of
        None \<Rightarrow> (Some (Inl (1, ''audio path required'')), s)
      | Some audio \<Rightarrow>
          cli_then (spoken_transcript ce audio model language no_diarize s) (\<lambda>t s.
            checked 2 (\<lambda>e. ''serialize: '' @ e) (map_sum id (\<lambda>json. json @ newline) (ce_json ce t)) s))"

section \<open>Notes\<close>

datatype dialect_arg = NotionEnhancedArg | BasicArg

fun dialect_of :: "dialect_arg \<Rightarrow> markdown_dialect" where
  "dialect_of NotionEnhancedArg = NotionEnhanced"
| "dialect_of BasicArg = Basic"

record notes_args =
  na_audio :: string
  na_screenshots :: "string option"
  na_out :: "string option"
  na_dialect :: dialect_arg
  na_no_diarize :: bool
  na_llm_provider :: string
  na_llm_model :: "string option"
  na_model :: "string option"
  na_language :: "string option"

definition notes_out_dir :: "'s cli_env \<Rightarrow> notes_args \<Rightarrow> string" where
  "notes_out_dir ce args =
     (case na_out args of
        Some p \<Rightarrow> p
      | None \<Rightarrow>
          ''./'' @ (case file_stem (na_audio args) of Some stem \<Rightarrow> ce_lossy ce stem | None \<Rightarrow> ''notes'') @ ''-notes'')"

text \<open>The language model: the answers to the \<open>k\<close>-th call for section \<open>i\<close>.\<close>

definition genai_answers :: "'s cli_env \<Rightarrow> string \<Rightarrow> nat \<Rightarrow> llm_answers" where
  "genai_answers ce model i k req = genai_complete (ce_genai_at ce i k) model req"

definition build_foundation_llm :: "'s cli_env \<Rightarrow> (nat \<times> string) + (nat \<Rightarrow> llm_answers)" where
  "build_foundation_llm ce =
     (if xe_macos (ce_exec_env ce)
      then map_sum (Pair 1) (ce_foundation ce)
             (foundation_llm_explicit (ce_exec_env ce) (ce_var ce ''PANOPS_LLM_SIDECAR_BIN''))
      else Inl (1, ''--llm-provider foundation requires macOS (Apple FoundationModels). Use '' @ dquote @
             ''auto'' @ dquote @ '' or '' @ dquote @ ''ollama'' @ dquote @ '' on this platform.''))"

definition unknown_provider :: "string \<Rightarrow> string" where
  "unknown_provider other =
     ''--llm-provider '' @ other @ '' not supported. Use '' @ dquote @ ''auto'' @ dquote @
     '' (detects from ANTHROPIC_API_KEY / OPENAI_API_KEY / OLLAMA_HOST), '' @ dquote @ ''ollama'' @ dquote @
     '' (defaults to model gemma3:4b on http://localhost:11434), or '' @ dquote @ ''foundation'' @ dquote @
     '' (on-device Apple FoundationModels via the PANOPS_LLM_SIDECAR_BIN sidecar, macOS only).''"

definition notes_llm :: "'s cli_env \<Rightarrow> notes_args \<Rightarrow> (nat \<times> string) + (nat \<Rightarrow> llm_answers)" where
  "notes_llm ce args =
     (let adapter = map_sum (\<lambda>e. (3, llm_error_text e)) (genai_answers ce)
      in if na_llm_provider args = ''auto''
         then adapter (case na_llm_model args of Some m \<Rightarrow> new_genai (ce_genai ce) m | None \<Rightarrow> genai_auto (ce_genai ce))
         else if na_llm_provider args = ''ollama''
         then adapter (new_genai (ce_genai ce) (case na_llm_model args of Some m \<Rightarrow> m | None \<Rightarrow> ''gemma3:4b''))
         else if na_llm_provider args = ''foundation'' then build_foundation_llm ce
         else Inl (1, unknown_provider (ce_str_debug ce (na_llm_provider args))))"

definition notes_screenshots ::
  "'s cli_env \<Rightarrow> notes_args \<Rightarrow> u64 \<Rightarrow> fs \<Rightarrow> (nat \<times> string) + screenshot list" where
  "notes_screenshots ce args duration_ms d =
     (case na_screenshots args of
        None \<Rightarrow> Inr []
      | Some dir \<Rightarrow>
          if d dir \<noteq> Some FsDir then Inl (1, ''--screenshots is not a directory: '' @ ce_path_debug ce dir)
          else Inr (screenshots_in (ce_read_dir ce) dir duration_ms d))"

definition llm_hint :: "string \<Rightarrow> string" where
  "llm_hint provider =
     (if provider = ''foundation''
      then ''FoundationModels: enable Apple Intelligence in System Settings, or use --llm-provider ollama''
      else if provider = ''ollama''
      then ''Ollama: ensure `ollama serve` is running and the model is pulled, or use --llm-provider auto''
      else ''check the LLM provider is reachable, or use --llm-provider ollama'')"

definition generation_failure :: "string \<Rightarrow> notes_error \<Rightarrow> string" where
  "generation_failure provider e =
     (case e of
        LlmUnavailable failed total_calls last_error \<Rightarrow> ''notes LLM unavailable ('' @ llm_hint provider @ '')''
      | _ \<Rightarrow> notes_error_text e)"

record register_input =
  ri_title :: string
  ri_started_at :: string
  ri_duration_ms :: u64
  ri_language :: string
  ri_dir_path :: string
  ri_dialect :: string
  ri_primary_path :: string

definition read_to_string :: "fs \<Rightarrow> string \<Rightarrow> string + string" where
  "read_to_string d p =
     (case d p of
        None \<Rightarrow> Inl ''No such file or directory''
      | Some FsDir \<Rightarrow> Inl ''Is a directory''
      | Some (FsFile c) \<Rightarrow> if valid_utf8 c then Inr c else Inl ''stream did not contain valid UTF-8'')"

definition register_call :: "'s cli_env \<Rightarrow> register_input \<Rightarrow> string \<Rightarrow> storage_call" where
  "register_call ce ri content =
     (let meeting_id = ce_uuid ce 0;
          ended_at = ce_end_time ce (ri_started_at ri) (ri_duration_ms ri)
      in CreateMeetingWithNote (ce_clock ce)
           \<lparr>md_id = meeting_id, md_title = ri_title ri, md_started_at = ri_started_at ri,
            md_language = ri_language ri, md_dir_path = ri_dir_path ri\<rparr>
           \<lparr>nd_id = ce_uuid ce 1, nd_meeting_id = meeting_id, nd_dialect = ri_dialect ri,
            nd_content_md = content, nd_primary_path = ri_primary_path ri\<rparr>
           ended_at (Some (ri_duration_ms ri)))"

definition register_meeting_in_registry ::
  "'s cli_env \<Rightarrow> register_input \<Rightarrow> 's cli \<Rightarrow> unit cli_outcome \<times> 's cli" where
  "register_meeting_in_registry ce ri s =
     cli_then (checked 3 (\<lambda>e. ''read notes file '' @ ri_primary_path ri @ '': '' @ e)
                (read_to_string (cl_fs s) (ri_primary_path ri)) s) (\<lambda>content s.
       case ce_exec ce (register_call ce ri content) (cl_store s) of
         (RErr e, st) \<Rightarrow>
           (Some (Inl (3, ''register meeting+note: '' @ storage_error_text e)), s\<lparr>cl_store := st\<rparr>)
       | (_, st) \<Rightarrow> (Some (Inr ()), s\<lparr>cl_store := st\<rparr>))"

definition open_registry :: "'s cli_env \<Rightarrow> string \<Rightarrow> 's cli \<Rightarrow> unit cli_outcome \<times> 's cli" where
  "open_registry ce root s =
     cli_then (on_files (\<lambda>e. ''create data dir: '' @ e) (create_dir_all root) s) (\<lambda>u s.
       case ce_open_registry ce (path_join root ''panops.db'') (cl_store s) of
         Inl e \<Rightarrow> (Some (Inl (3, ''open registry: '' @ e)), s)
       | Inr st \<Rightarrow> (Some (Inr ()), s\<lparr>cl_store := st\<rparr>))"

definition canonical_dir :: "'s cli_env \<Rightarrow> fs \<Rightarrow> string \<Rightarrow> string" where
  "canonical_dir ce d out_dir =
     ce_lossy ce (case ce_canonicalize ce d out_dir of Some p \<Rightarrow> p | None \<Rightarrow> out_dir)"

definition registered :: "'s cli_env \<Rightarrow> notes_args \<Rightarrow> string \<Rightarrow> transcript \<Rightarrow> string \<Rightarrow> fs \<Rightarrow> register_input" where
  "registered ce args out_dir t primary_file d =
     \<lparr>ri_title = (case file_stem (na_audio args) of
          Some stem \<Rightarrow> if valid_utf8 stem then stem else ''untitled'' | None \<Rightarrow> ''untitled''),
      ri_started_at = ce_now ce, ri_duration_ms = tr_audio_duration_ms t,
      ri_language = (case na_language args of Some l \<Rightarrow> l | None \<Rightarrow> ''auto''),
      ri_dir_path = canonical_dir ce d out_dir,
      ri_dialect = dialect_as_str (dialect_of (na_dialect args)),
      ri_primary_path = ce_lossy ce primary_file\<rparr>"

text \<open>The transcript goes to disk first: \<open>run_notes\<close> up to the choice of the language model.\<close>

definition save_transcript ::
  "'s cli_env \<Rightarrow> notes_args \<Rightarrow> transcript \<Rightarrow> 's cli \<Rightarrow> string cli_outcome \<times> 's cli" where
  "save_transcript ce args t s =
     (let out_dir = notes_out_dir ce args
      in cli_then (checked 3 (\<lambda>e. ''serialize transcript: '' @ e) (ce_json ce t) s) (\<lambda>json s.
         cli_then (on_files id (\<lambda>d. if d out_dir \<noteq> None then Inr d else create_dir_all out_dir d) s) (\<lambda>u s.
         cli_then (on_files (\<lambda>e. ''write transcript.json: '' @ e)
                     (fs_write (path_join out_dir ''transcript.json'') json) s) (\<lambda>u s.
           (Some (Inr out_dir),
            case write_raw_transcript (tr_segments t) out_dir (cl_fs s) of
              Inl e \<Rightarrow> s | Inr (d, p) \<Rightarrow> s\<lparr>cl_fs := d\<rparr>)))))"

definition generate_notes ::
  "'s cli_env \<Rightarrow> notes_args \<Rightarrow> transcript \<Rightarrow> 's cli \<Rightarrow> structured_notes cli_outcome \<times> 's cli" where
  "generate_notes ce args t s =
     cli_then (Some (notes_llm ce args), s) (\<lambda>llm s.
     cli_then (Some (notes_screenshots ce args (tr_audio_duration_ms t) (cl_fs s)), s) (\<lambda>shots s.
       checked 2 (generation_failure (na_llm_provider args))
         (fst (generate ((ce_pipeline ce)\<lparr>env_llm := llm\<rparr>) (dialect_of (na_dialect args))
            \<lparr>ni_transcript = tr_segments t, ni_screenshots = shots,
             ni_metadata = \<lparr>mm_started_at = ce_now ce, mm_duration_ms = tr_audio_duration_ms t,
               mm_source_path = Some (na_audio args), mm_language_hint = na_language args\<rparr>\<rparr>)) s))"

definition export_notes ::
  "'s cli_env \<Rightarrow> string \<Rightarrow> structured_notes \<Rightarrow> 's cli \<Rightarrow> export_artifact cli_outcome \<times> 's cli" where
  "export_notes ce out_dir sn s =
     (case markdown_export (ce_path_debug ce) sn out_dir (cl_fs s) of
        (r, d) \<Rightarrow> checked 2 export_error_text r (s\<lparr>cl_fs := d\<rparr>))"

definition run_notes :: "'s cli_env \<Rightarrow> notes_args \<Rightarrow> string \<Rightarrow> 's cli \<Rightarrow> unit cli_outcome \<times> 's cli" where
  "run_notes ce args root s =
     cli_then (spoken_transcript ce (na_audio args) (na_model args) (na_language args) (na_no_diarize args) s) (\<lambda>t s.
     cli_then (save_transcript ce args t s) (\<lambda>out_dir s.
     cli_then (generate_notes ce args t s) (\<lambda>sn s.
     cli_then (export_notes ce out_dir sn s) (\<lambda>art s.
       let ri = registered ce args out_dir t (ea_primary_file art) (cl_fs s)
       in cli_then (open_registry ce root s) (\<lambda>u s. register_meeting_in_registry ce ri s)))))"

section \<open>The program\<close>

text \<open>\<open>var\<close> is the value of \<open>HOME\<close>.\<close>

definition default_data_dir :: "string option \<Rightarrow> string" where
  "default_data_dir var =
     (case var of
        Some home \<Rightarrow>
          if prefix ''/'' home then path_join home ''Library/Application Support/panops'' else ''/tmp/panops''
      | None \<Rightarrow> ''/tmp/panops'')"

datatype command =
    DefaultCommand "string option" "string option" "string option" bool
  | NotesCommand notes_args

text \<open>The exit status, what is printed and what is reported.\<close>

definition exit_of :: "(nat \<times> string) + string \<Rightarrow> nat \<times> string \<times> string" where
  "exit_of r = (case r of Inr out \<Rightarrow> (0, out, []) | Inl (code, msg) \<Rightarrow> (code, [], ''error: '' @ msg @ newline))"

definition main_program ::
  "'s cli_env \<Rightarrow> string option \<Rightarrow> command \<Rightarrow> 's cli \<Rightarrow> (nat \<times> string \<times> string) option \<times> 's cli" where
  "main_program ce root cmd s =
     (let dir = (case root of Some p \<Rightarrow> p | None \<Rightarrow> default_data_dir (ce_var ce ''HOME''));
          (r, s) = (case cmd of
             DefaultCommand audio model language no_diarize \<Rightarrow> run_default ce audio model language no_diarize s
           | NotesCommand args \<Rightarrow> (case run_notes ce args dir s of (r, s) \<Rightarrow> (map_option (map_sum id (\<lambda>u. [])) r, s)))
      in (map_option exit_of r, s))"

section \<open>The start of the server\<close>

text \<open>The checks before the server listens: its socket path and its registry.\<close>

definition serve_setup ::
  "'s cli_env \<Rightarrow> string option \<Rightarrow> string \<Rightarrow> 's cli \<Rightarrow> string cli_outcome \<times> 's cli" where
  "serve_setup ce socket root s =
     cli_then (checked 3 id (case socket of Some p \<Rightarrow> Inr p | None \<Rightarrow> default_socket_path (ce_var ce ''HOME'')) s) (\<lambda>path s.
     cli_then (on_files (\<lambda>e. ''create data dir '' @ ce_path_debug ce root @ '': '' @ e) (create_dir_all root) s) (\<lambda>u s.
       let storage_path = path_join root ''panops.db''
       in case ce_open_registry ce storage_path (cl_store s) of
            Inl e \<Rightarrow> (Some (Inl (3, ''open storage at '' @ ce_path_debug ce storage_path @ '': '' @ e)), s)
          | Inr st \<Rightarrow> (Some (Inr path), s\<lparr>cl_store := st\<rparr>)))"

text \<open>The heavy adapters: the recogniser, the models of the diarizer and the model of the voice detector.\<close>

definition ensured :: "(disk \<Rightarrow> (asr_error + 'a) \<times> disk) \<Rightarrow> 's cli \<Rightarrow> (string + 'a) \<times> 's cli" where
  "ensured f s = (case f (cl_disk s) of (r, w) \<Rightarrow> map_err asr_error_text (r, s\<lparr>cl_disk := w\<rparr>))"

definition init_heavy_adapters ::
  "'s cli_env \<Rightarrow> 's cli \<Rightarrow> (string + asr_choice \<times> (string \<times> string) \<times> string) \<times> 's cli" where
  "init_heavy_adapters ce s =
     (let me = ce_models ce
      in try_then (map_err asr_error_text (default_model_path me, s)) (\<lambda>p s.
         try_then (ensured (ensure_model me default_model_name p) s) (\<lambda>p s.
         try_then (map_err asr_error_text (engine_asr ce (disk_view s) p, s)) (\<lambda>asr s.
         try_then (ensured (ensure_diar_models me) s) (\<lambda>(seg, emb) s.
         try_then (map_err diar_error_text (new_sherpa_diarizer (ce_sherpa ce) (disk_view s) seg emb, s)) (\<lambda>diar s.
         try_then (map_err asr_error_text (default_vad_model_path me, s)) (\<lambda>v s.
         try_then (ensured (ensure_vad_model me v) s) (\<lambda>v s.
         try_then (map_err vad_error_text (new_whisper_vad (ce_vad ce) (disk_view s) v, s)) (\<lambda>u s.
           (Inr (asr, diar, v), s))))))))))"

end
