(* ===== verification/Cli_Correct.thy ===== *)
theory Cli_Correct
  imports Cli Pipeline_Correct Sqlite_Correct Memory_Correct Markdown_Files Notes_Correct
begin

text \<open>
  What the command-line program guarantees: it transcribes like the server, it keeps the transcript
  whatever happens later, it registers a meeting with its notes or nothing, it does not panic, and the
  default command leaves the files alone.
\<close>

section \<open>Sequences of steps\<close>

lemma cli_then_simps [simp]:
  "cli_then (None, s) f = (None, s)"
  "cli_then (Some (Inl e), s) f = (Some (Inl e), s)"
  "cli_then (Some (Inr a), s) f = f a s"
  by (simp_all add: cli_then_def)

lemma cli_then_Inr:
  "cli_then x f = (Some (Inr b), t) \<longleftrightarrow> (\<exists>a s. x = (Some (Inr a), s) \<and> f a s = (Some (Inr b), t))"
  by (auto simp: cli_then_def split: prod.splits option.splits sum.splits)

lemma cli_then_stops:
  assumes "(r, s') = cli_then x f" and "\<And>a. fst x \<noteq> Some (Inr a)"
  shows "r \<noteq> Some (Inr b) \<and> s' = snd x"
proof (cases x)
  case (Pair q s)
  then show ?thesis
    using assms by (cases q; cases "the q") auto
qed

text \<open>What holds after a step and is kept by the rest holds at the end.\<close>

lemma cli_then_keeps:
  assumes "P (snd x)" and "\<And>a s. x = (Some (Inr a), s) \<Longrightarrow> P s \<Longrightarrow> P (snd (f a s))"
  shows "P (snd (cli_then x f))"
proof (cases x)
  case (Pair r s)
  show ?thesis
    using assms Pair by (cases r; cases "the r") (auto simp: cli_then_def)
qed

text \<open>An outcome that is no panic and whose exit status is one of the documented ones.\<close>

fun proper :: "'a cli_outcome \<Rightarrow> bool" where
  "proper None = False"
| "proper (Some (Inl (code, msg))) = (code \<in> {1, 2, 3})"
| "proper (Some (Inr a)) = True"

lemma proper_then:
  assumes "proper (fst x)" and "\<And>a s. x = (Some (Inr a), s) \<Longrightarrow> proper (fst (f a s))"
  shows "proper (fst (cli_then x f))"
proof (cases x)
  case (Pair r s)
  show ?thesis
    using assms Pair by (cases r; cases "the r") (auto simp: cli_then_def)
qed

lemma proper_checked [simp]: "n \<in> {1, 2, 3} \<Longrightarrow> proper (fst (checked n msg r s))"
  by (cases r) (auto simp: checked_def)

lemma checked_state [simp]: "snd (checked n msg r s) = s"
  by (simp add: checked_def)

lemma checked_Inr [simp]: "checked n msg r s = (Some (Inr a), t) \<longleftrightarrow> r = Inr a \<and> t = s"
  by (cases r) (auto simp: checked_def)

lemma proper_on_disk [simp]: "proper (fst (on_disk f s))"
  by (simp add: on_disk_def split: prod.splits)

lemma proper_on_files [simp]: "proper (fst (on_files msg f s))"
  by (simp add: on_files_def split: sum.splits)

lemma on_disk_state [simp]:
  "cl_fs (snd (on_disk f s)) = cl_fs s" "cl_temps (snd (on_disk f s)) = cl_temps s"
  "cl_store (snd (on_disk f s)) = cl_store s"
  by (simp_all add: on_disk_def split: prod.splits)

lemma on_files_Inr: "f (cl_fs s) = Inr d \<Longrightarrow> on_files msg f s = (Some (Inr ()), s\<lparr>cl_fs := d\<rparr>)"
  by (simp add: on_files_def)

lemma on_files_state [simp]:
  "cl_temps (snd (on_files msg f s)) = cl_temps s" "cl_store (snd (on_files msg f s)) = cl_store s"
  by (simp_all add: on_files_def split: sum.splits)

section \<open>The program and the server transcribe alike\<close>

lemma stitch_as_server:
  "map_option (map_sum (\<lambda>_. ()) id)
     (stitch_regions (nv_asr nv path) (nv_asr_is_fake nv) samples rate language total_ms i rs segments model) =
   map_option (map_sum (\<lambda>_. ()) id)
     (fst (transcribe_regions nv job message path samples rate language total_ms n i rs segments model evs))"
  by (induction rs arbitrary: i segments model evs) (auto simp: Let_def split: option.splits prod.splits sum.splits)

text \<open>C38: The command line and the notes job of the server make the same transcript. Given the same
  samples, the same answers of the voice detector, the recogniser and the diarizer, both panic, both
  fail, or both return the same transcript: segments, speakers, model, duration and all, although the
  code is written twice.\<close>

theorem cli_transcribes_like_server:
  assumes "nv_load_audio nv d audio = Inr (samples, rate)" and "nv_diarize nv d audio = Inr turns"
    and "0 < rate"
  shows "map_option (map_sum (\<lambda>_. ()) (if no_diarize then id else with_turns turns))
      (stitched_transcript audio (nv_asr nv audio) (nv_asr_is_fake nv) (nv_detect_speech nv) language samples rate) =
    map_option (map_sum (\<lambda>_. ()) id) (fst (transcribe_file nv job audio language no_diarize d evs))"
proof (cases "nv_detect_speech nv samples rate")
  case (Inl e)
  then show ?thesis
    using assms(1,3) by (simp add: stitched_transcript_def transcribe_file_def transcribe_track_def
        transcribe_track_labeled_def job_then_def total_audio_ms_def)
next
  case (Inr regions)
  let ?ms = "length samples * 1000 div rate" and ?rs = "merge_adjacent_regions regions 5000"
  let ?mine = "stitch_regions (nv_asr nv audio) (nv_asr_is_fake nv) samples rate language ?ms 0 ?rs [] None"
  obtain r evs' where theirs: "transcribe_regions nv job None audio samples rate language ?ms (length ?rs) 0 ?rs
      [] None evs = (r, evs')"
    by (metis prod.collapse)
  have same: "map_option (map_sum (\<lambda>_. ()) id) ?mine = map_option (map_sum (\<lambda>_. ()) id) r"
    using stitch_as_server [of nv audio samples rate language ?ms 0 ?rs "[]" None job None "length ?rs" evs]
    by (simp add: theirs)
  define made where "made = (\<lambda>(segments, model). \<lparr>tr_schema_version = transcript_schema_version,
      tr_model = (case model of None \<Rightarrow> ''vad-multilingual'' | Some m \<Rightarrow> m), tr_audio_path = audio,
      tr_audio_duration_ms = ?ms, tr_diarized = False, tr_segments = segments\<rparr>)"
  let ?final = "if no_diarize then id else with_turns turns"
  have mine: "stitched_transcript audio (nv_asr nv audio) (nv_asr_is_fake nv) (nv_detect_speech nv) language samples rate =
      map_option (map_sum id made) ?mine"
    using assms(3) Inr by (simp add: stitched_transcript_def total_audio_ms_def made_def)
  have "fst (transcribe_file nv job audio language no_diarize d evs) = map_option (map_sum id (\<lambda>x. ?final (made x))) r"
  proof (cases "\<exists>segments model. r = Some (Inr (segments, model))")
    case True
    then show ?thesis
      using assms Inr theirs
      by (auto simp: transcribe_file_def transcribe_track_def transcribe_track_labeled_def job_then_def
          total_audio_ms_def diarized_turns_def with_turns_def made_def)
  next
    case False
    then consider "r = None" | e where "r = Some (Inl e)"
      by (metis old.prod.exhaust option.exhaust sum.exhaust)
    then show ?thesis
      using assms Inr theirs
      by cases (simp_all add: transcribe_file_def transcribe_track_def transcribe_track_labeled_def job_then_def
          total_audio_ms_def)
  qed
  then show ?thesis
    using arg_cong [OF same, of "map_option (map_sum id (\<lambda>x. ?final (made x)))"] unfolding mine
    by (simp add: option.map_comp sum.map_comp comp_def)
qed


section \<open>Files\<close>

text \<open>An export writes the notes and the screenshots and nothing else.\<close>

lemma export_keeps:
  assumes "p \<noteq> dest" and "p \<noteq> path_join dest ''notes.md''" and "\<not> prefix (path_join dest ''screenshots'') p"
  shows "snd (markdown_export path_debug sn dest d) p = d p"
proof (cases "ensure_dest path_debug dest d")
  case (Inr d0)
  obtain r d1 as where rend: "render_sections (fm_dialect (sn_frontmatter sn)) (path_join dest ''screenshots'')
      (sn_sections sn) (render_frontmatter sn @ newline) (d0, []) = (r, (d1, as))"
    by (metis prod.collapse)
  have "d1 p = d0 p"
    using render_sections_run(2) [OF rend] assms(3) by blast
  moreover have "d0 p = d p"
    using ensure_dest_cases [of path_debug dest d] Inr assms(1) by simp
  ultimately show ?thesis
    using assms(2) Inr rend by (auto simp: markdown_export_def Let_def dest!: fs_write_cases split: sum.splits)
qed (simp add: markdown_export_def)

lemma create_dir_keeps: "create_dir_all q d = Inr d' \<Longrightarrow> d p = Some (FsFile c) \<Longrightarrow> d' p = Some (FsFile c)"
  by (auto simp: create_dir_all_def split: option.splits fs_node.splits)

lemma generate_notes_state [simp]: "snd (generate_notes ce args t s) = s"
  by (cases "notes_llm ce args"; cases "notes_screenshots ce args (tr_audio_duration_ms t) (cl_fs s)")
    (simp_all add: generate_notes_def)

lemma export_notes_state [simp]:
  "cl_temps (snd (export_notes ce out sn s)) = cl_temps s" "cl_store (snd (export_notes ce out sn s)) = cl_store s"
  "cl_fs (snd (export_notes ce out sn s)) = snd (markdown_export (ce_path_debug ce) sn out (cl_fs s))"
  by (simp_all add: export_notes_def split: prod.splits)

lemma register_state [simp]: "cl_fs (snd (register_meeting_in_registry ce ri s)) = cl_fs s"
  by (cases "read_to_string (cl_fs s) (ri_primary_path ri)")
    (auto simp: register_meeting_in_registry_def checked_def split: prod.splits storage_reply.splits)

lemma open_registry_keeps:
  "cl_fs s p = Some (FsFile c) \<Longrightarrow> cl_fs (snd (open_registry ce root s)) p = Some (FsFile c)"
  by (auto simp: open_registry_def on_files_def intro: create_dir_keeps split: sum.splits)

text \<open>The steps after the transcript was saved: they keep what is neither notes nor screenshots.\<close>

definition after_transcript ::
  "'s cli_env \<Rightarrow> notes_args \<Rightarrow> string \<Rightarrow> transcript \<Rightarrow> string \<Rightarrow> 's cli \<Rightarrow> unit cli_outcome \<times> 's cli" where
  "after_transcript ce args root t out_dir s =
     cli_then (generate_notes ce args t s) (\<lambda>sn s.
     cli_then (export_notes ce out_dir sn s) (\<lambda>art s.
       let ri = registered ce args out_dir t (ea_primary_file art) (cl_fs s)
       in cli_then (open_registry ce root s) (\<lambda>u s. register_meeting_in_registry ce ri s)))"

lemma run_notes_after:
  "run_notes ce args root s =
     cli_then (spoken_transcript ce (na_audio args) (na_model args) (na_language args) (na_no_diarize args) s) (\<lambda>t s.
     cli_then (save_transcript ce args t s) (\<lambda>out_dir s. after_transcript ce args root t out_dir s))"
  by (simp add: run_notes_def after_transcript_def)

lemma after_transcript_keeps:
  assumes "cl_fs s p = Some (FsFile c)"
    and "p \<noteq> out" and "p \<noteq> path_join out ''notes.md''" and "\<not> prefix (path_join out ''screenshots'') p"
  shows "cl_fs (snd (after_transcript ce args root t out s)) p = Some (FsFile c)"
  unfolding after_transcript_def Let_def
  by (intro cli_then_keeps [where P = "\<lambda>s. cl_fs s p = Some (FsFile c)"])
    (simp_all add: assms export_keeps [OF assms(2-4)] open_registry_keeps)

lemma write_raw_transcript_cases:
  "write_raw_transcript segs out d = Inr (d', p) \<Longrightarrow>
     d' = d(path_join out ''transcript.txt'' \<mapsto> FsFile (render_raw_transcript segs))"
  by (cases "fs_write (path_join out ''transcript.txt'') (render_raw_transcript segs) d")
    (auto simp: write_raw_transcript_def Let_def dest: fs_write_cases)

lemma save_transcript_files:
  assumes "ce_json ce t = Inr json" and "out = notes_out_dir ce args"
    and "\<not> is_file (cl_fs s) out" and "cl_fs s (path_join out ''transcript.json'') \<noteq> Some FsDir"
  obtains s2 where "save_transcript ce args t s = (Some (Inr out), s2)"
    and "cl_fs s2 (path_join out ''transcript.json'') = Some (FsFile json)"
    and "cl_fs s (path_join out ''transcript.txt'') \<noteq> Some FsDir \<Longrightarrow>
      cl_fs s2 (path_join out ''transcript.txt'') = Some (FsFile (render_raw_transcript (tr_segments t)))"
proof -
  let ?j = "path_join out ''transcript.json''" and ?x = "path_join out ''transcript.txt''"
  have ne: "?j \<noteq> out" "?x \<noteq> out" "?j \<noteq> ?x"
    using path_join_longer [of "''transcript.json''" out] path_join_longer [of "''transcript.txt''" out]
    by (auto simp: path_join_inj)
  define d1 where "d1 = (cl_fs s)(out \<mapsto> FsDir)"
  define d2 where "d2 = d1(?j \<mapsto> FsFile json)"
  have prep: "(if cl_fs s out \<noteq> None then Inr (cl_fs s) else create_dir_all out (cl_fs s)) = Inr d1"
    using assms(3) by (cases "cl_fs s out"; cases "the (cl_fs s out)")
      (auto simp: d1_def is_file_def create_dir_all_def fun_upd_idem)
  have json: "fs_write ?j json d1 = Inr d2"
    using assms(4) ne by (auto simp: fs_write_def d1_def d2_def split: option.splits fs_node.splits)
  define s2 where "s2 = (case write_raw_transcript (tr_segments t) out d2 of
      Inl e \<Rightarrow> s\<lparr>cl_fs := d2\<rparr> | Inr (d, p) \<Rightarrow> s\<lparr>cl_fs := d\<rparr>)"
  show ?thesis
  proof
    show "save_transcript ce args t s = (Some (Inr out), s2)"
      unfolding save_transcript_def Let_def assms(2) [symmetric] assms(1)
      using prep json by (simp add: checked_def on_files_Inr s2_def split: sum.splits)
    show "cl_fs s2 ?j = Some (FsFile json)"
      using ne by (auto simp: s2_def d2_def dest!: write_raw_transcript_cases split: sum.splits)
    show "cl_fs s2 ?x = Some (FsFile (render_raw_transcript (tr_segments t)))" if "cl_fs s ?x \<noteq> Some FsDir"
      using that ne by (auto simp: s2_def d2_def d1_def write_raw_transcript_def Let_def fs_write_def
          split: option.splits fs_node.splits)
  qed
qed



section \<open>The registry\<close>

text \<open>Nothing before the registration touches the registry.\<close>

lemma transcribe_with_vad_store [simp]:
  "cl_store (snd (transcribe_with_vad ce audio asr is_fake vad language s)) = cl_store s"
  by (simp add: transcribe_with_vad_def split: prod.splits)

lemma transcribe_store [simp]: "cl_store (snd (transcribe ce audio model language s)) = cl_store s"
  unfolding transcribe_def Let_def
  by (simp split: option.splits) (intro conjI impI allI cli_then_keeps [where P = "\<lambda>u. cl_store u = cl_store s"]; simp)

lemma diarize_store [simp]: "cl_store (snd (diarize ce audio s)) = cl_store s"
  unfolding diarize_def
  by (intro cli_then_keeps [where P = "\<lambda>u. cl_store u = cl_store s"])
    (auto intro!: cli_then_keeps [where P = "\<lambda>u. cl_store u = cl_store s"] split: prod.splits)

lemma spoken_store [simp]:
  "cl_store (snd (spoken_transcript ce audio model language no_diarize s)) = cl_store s"
  unfolding spoken_transcript_def
  by (intro cli_then_keeps [where P = "\<lambda>u. cl_store u = cl_store s"])
    (auto intro!: cli_then_keeps [where P = "\<lambda>u. cl_store u = cl_store s"])

lemma save_transcript_store [simp]: "cl_store (snd (save_transcript ce args t s)) = cl_store s"
  unfolding save_transcript_def Let_def
  by (intro cli_then_keeps [where P = "\<lambda>u. cl_store u = cl_store s"]) (auto split: sum.splits)

text \<open>The rows that a registration is meant to make.\<close>

definition registered_meeting :: "'s cli_env \<Rightarrow> register_input \<Rightarrow> meeting" where
  "registered_meeting ce ri =
     meeting_of_draft \<lparr>md_id = ce_uuid ce 0, md_title = ri_title ri, md_started_at = ri_started_at ri,
       md_language = ri_language ri, md_dir_path = ri_dir_path ri\<rparr>
       (ce_end_time ce (ri_started_at ri) (ri_duration_ms ri)) (Some (ri_duration_ms ri))"

definition registered_note :: "'s cli_env \<Rightarrow> register_input \<Rightarrow> string \<Rightarrow> meeting_note" where
  "registered_note ce ri content =
     note_of_draft \<lparr>nd_id = ce_uuid ce 1, nd_meeting_id = ce_uuid ce 0, nd_dialect = ri_dialect ri,
       nd_content_md = content, nd_primary_path = ri_primary_path ri\<rparr> (ck_rfc3339 (ce_clock ce))"

text \<open>The steps up to the export do not reach the registry, and what they hand on is known.\<close>

lemma run_notes_steps:
  assumes "run_notes ce args root s = (r, s')"
  shows "(r \<noteq> Some (Inr ()) \<and> cl_store s' = cl_store s) \<or>
    (\<exists>t s1 s4. spoken_transcript ce (na_audio args) (na_model args) (na_language args) (na_no_diarize args) s =
        (Some (Inr t), s1) \<and> cl_store s4 = cl_store s \<and>
      cli_then (open_registry ce root s4) (\<lambda>u. register_meeting_in_registry ce (registered ce args
        (notes_out_dir ce args) t (path_join (notes_out_dir ce args) ''notes.md'') (cl_fs s4))) = (r, s'))"
    (is "?early \<or> ?late")
proof -
  let ?out = "notes_out_dir ce args"
  obtain x1 s1 where spoken: "spoken_transcript ce (na_audio args) (na_model args) (na_language args)
      (na_no_diarize args) s = (x1, s1)"
    by (metis prod.collapse)
  then have k1: "cl_store s1 = cl_store s"
    using spoken_store [of ce "na_audio args" "na_model args" "na_language args" "na_no_diarize args" s] by simp
  show ?thesis
  proof (cases "\<exists>t. x1 = Some (Inr t)")
    case True
    then obtain t where t: "x1 = Some (Inr t)"
      by blast
    obtain x2 s2 where saved: "save_transcript ce args t s1 = (x2, s2)"
      by (metis prod.collapse)
    then have k2: "cl_store s2 = cl_store s"
      using save_transcript_store [of ce args t s1] k1 by simp
    have run: "(r, s') = cli_then (x2, s2) (\<lambda>out s. after_transcript ce args root t out s)"
      using assms spoken t saved by (simp add: run_notes_after)
    show ?thesis
    proof (cases "\<exists>q. x2 = Some (Inr q)")
      case True
      then have "x2 = Some (Inr ?out)"
        using saved by (auto simp: save_transcript_def Let_def cli_then_Inr)
      with run have after_run: "(r, s') = after_transcript ce args root t ?out s2"
        by simp
      show ?thesis
      proof (cases "\<exists>sn. fst (generate_notes ce args t s2) = Some (Inr sn)")
        case True
        then obtain sn where sn: "generate_notes ce args t s2 = (Some (Inr sn), s2)"
          by (metis generate_notes_state prod.collapse)
        obtain x4 s4 where exported: "export_notes ce ?out sn s2 = (x4, s4)"
          by (metis prod.collapse)
        then have k4: "cl_store s4 = cl_store s"
          using export_notes_state(2) [of ce ?out sn s2] k2 by simp
        note rest = after_run [unfolded after_transcript_def sn cli_then_simps exported]
        show ?thesis
        proof (cases "\<exists>art. x4 = Some (Inr art)")
          case True
          then obtain art where art: "x4 = Some (Inr art)"
            by blast
          then have "ea_primary_file art = path_join ?out ''notes.md''"
            using exported by (auto simp: export_notes_def elim!: markdown_export_success split: prod.splits)
          then have ?late
            using rest art spoken t k4 by (intro exI [of _ t] exI [of _ s1] exI [of _ s4]) (simp add: Let_def)
          then show ?thesis ..
        qed (use cli_then_stops [OF rest] k4 in auto)
      next
        case False
        then show ?thesis
          using cli_then_stops [OF after_run [unfolded after_transcript_def]] k2 by auto
      qed
    qed (use cli_then_stops [OF run] k2 in auto)
  next
    case False
    then have "fst (x1, s1) \<noteq> Some (Inr t)" for t
      by simp
    then show ?thesis
      using cli_then_stops [OF assms [unfolded run_notes_def spoken, symmetric]] k1 by auto
  qed
qed

text \<open>The durations that the registry can hold, and an environment whose registry is an SQLite file:
  opening a consistent database gives the same one.\<close>

definition bounded_audio :: "'s cli_env \<Rightarrow> notes_args \<Rightarrow> 's cli \<Rightarrow> bool" where
  "bounded_audio ce args s \<longleftrightarrow>
     (\<forall>t s1. spoken_transcript ce (na_audio args) (na_model args) (na_language args) (na_no_diarize args) s =
        (Some (Inr t), s1) \<longrightarrow> tr_audio_duration_ms t < 2 ^ 63)"

definition sqlite_cli :: "db cli_env \<Rightarrow> bool" where
  "sqlite_cli ce \<longleftrightarrow>
     (\<exists>dir_first. ce_exec ce = sqlite_exec dir_first) \<and>
     (\<forall>p st st'. db_ok st \<longrightarrow> ce_open_registry ce p st = Inr st' \<longrightarrow> db_ok st' \<and> abs_db st' = abs_db st)"

context storage_port
begin

lemma register_outcome:
  assumes "ce_exec ce = exec" and "ok (cl_store s)" and "ri_duration_ms ri < 2 ^ 63"
    and "register_meeting_in_registry ce ri s = (r, s')"
  shows "ok (cl_store s') \<and> ((r \<noteq> Some (Inr ()) \<and> abs_of (cl_store s') = abs_of (cl_store s)) \<or>
    (\<exists>content. r = Some (Inr ()) \<and> cl_fs s (ri_primary_path ri) = Some (FsFile content) \<and>
       \<not> dir_taken (ri_dir_path ri) (abs_of (cl_store s)) \<and>
       abs_of (cl_store s') =
         reg_add_note (registered_note ce ri content) (reg_add_meeting (registered_meeting ce ri) (abs_of (cl_store s)))))"
proof (cases "read_to_string (cl_fs s) (ri_primary_path ri)")
  case (Inl e)
  then show ?thesis
    using assms(2,4) by (auto simp: register_meeting_in_registry_def checked_def)
next
  case (Inr content)
  have contents: "cl_fs s (ri_primary_path ri) = Some (FsFile content)"
    using Inr by (auto simp: read_to_string_def split: option.splits fs_node.splits if_splits)
  let ?c = "register_call ce ri content"
  have "call_ok ?c"
    using assms(3) by (simp add: register_call_def Let_def)
  from exec_spec [OF assms(2) this] have made: "spec ?c (abs_of (cl_store s)) (fst (exec ?c (cl_store s)))
      (abs_of (snd (exec ?c (cl_store s))))" .
  obtain x st where call: "exec ?c (cl_store s) = (x, st)"
    by (metis prod.collapse)
  have st: "ok st"
    using exec_ok [OF assms(2) \<open>call_ok ?c\<close>] call by simp
  show ?thesis
  proof (cases "\<exists>e. x = RErr e")
    case True
    then have "abs_of st = abs_of (cl_store s)"
      using error_unchanged [OF assms(2) \<open>call_ok ?c\<close>] call by auto
    then show ?thesis
      using True Inr call assms(1,4) st by (auto simp: register_meeting_in_registry_def checked_def)
  next
    case False
    then have run: "r = Some (Inr ())" "s' = s\<lparr>cl_store := st\<rparr>"
      using Inr call assms(1,4) by (auto simp: register_meeting_in_registry_def checked_def split: storage_reply.splits)
    have "insert_errors \<lparr>md_id = ce_uuid ce 0, md_title = ri_title ri, md_started_at = ri_started_at ri,
        md_language = ri_language ri, md_dir_path = ri_dir_path ri\<rparr> (abs_of (cl_store s)) = {}"
      and "abs_of st = reg_add_note (registered_note ce ri content)
        (reg_add_meeting (registered_meeting ce ri) (abs_of (cl_store s)))"
      using made False call
      by (auto simp: register_call_def registered_note_def registered_meeting_def Let_def split: if_splits)
    then show ?thesis
      using run contents st by (auto simp: insert_errors_def split: if_splits)
  qed
qed

text \<open>What a run of the whole command leaves in the registry.\<close>

lemma run_notes_registry:
  assumes "ce_exec ce = exec" and "ok (cl_store s)"
    and "\<And>p st. ce_open_registry ce p (cl_store s) = Inr st \<Longrightarrow> ok st \<and> abs_of st = abs_of (cl_store s)"
    and "bounded_audio ce args s" and "run_notes ce args root s = (r, s')"
  shows "ok (cl_store s') \<and> ((r \<noteq> Some (Inr ()) \<and> abs_of (cl_store s') = abs_of (cl_store s)) \<or>
     (\<exists>t s1 d ri content. r = Some (Inr ()) \<and>
        spoken_transcript ce (na_audio args) (na_model args) (na_language args) (na_no_diarize args) s =
          (Some (Inr t), s1) \<and>
        ri = registered ce args (notes_out_dir ce args) t (path_join (notes_out_dir ce args) ''notes.md'') d \<and>
        cl_fs s' (ri_primary_path ri) = Some (FsFile content) \<and>
        \<not> dir_taken (ri_dir_path ri) (abs_of (cl_store s)) \<and>
        abs_of (cl_store s') = reg_add_note (registered_note ce ri content)
          (reg_add_meeting (registered_meeting ce ri) (abs_of (cl_store s)))))"
  using run_notes_steps [OF assms(5)]
proof (elim disjE conjE exE)
  fix t and s1 s4 :: "'s cli"
  define ri where "ri = registered ce args (notes_out_dir ce args) t (path_join (notes_out_dir ce args) ''notes.md'') (cl_fs s4)"
  assume spoken: "spoken_transcript ce (na_audio args) (na_model args) (na_language args) (na_no_diarize args) s =
      (Some (Inr t), s1)" and k4: "cl_store s4 = cl_store s"
    and "cli_then (open_registry ce root s4) (\<lambda>u. register_meeting_in_registry ce (registered ce args
        (notes_out_dir ce args) t (path_join (notes_out_dir ce args) ''notes.md'') (cl_fs s4))) = (r, s')"
  then have run: "(r, s') = cli_then (open_registry ce root s4) (\<lambda>u. register_meeting_in_registry ce ri)"
    by (simp add: ri_def)
  obtain x5 s5 where opened: "open_registry ce root s4 = (x5, s5)"
    by (metis prod.collapse)
  show ?thesis
  proof (cases "x5 = Some (Inr ())")
    case True
    have st: "ok (cl_store s5) \<and> abs_of (cl_store s5) = abs_of (cl_store s)"
      using opened True k4 assms(3) by (auto simp: open_registry_def on_files_def split: sum.splits)
    have reg: "register_meeting_in_registry ce ri s5 = (r, s')"
      using run True opened by simp
    have "ri_duration_ms ri < 2 ^ 63"
      using assms(4) spoken by (auto simp: ri_def registered_def bounded_audio_def)
    from register_outcome [OF assms(1) conjunct1 [OF st] this reg] show ?thesis
    proof (elim disjE conjE exE)
      fix content
      assume "r = Some (Inr ())" "cl_fs s5 (ri_primary_path ri) = Some (FsFile content)" "ok (cl_store s')"
        "\<not> dir_taken (ri_dir_path ri) (abs_of (cl_store s5))"
        "abs_of (cl_store s') = reg_add_note (registered_note ce ri content)
           (reg_add_meeting (registered_meeting ce ri) (abs_of (cl_store s5)))"
      moreover have "cl_fs s' = cl_fs s5"
        using register_state [of ce ri s5] reg by simp
      ultimately show ?thesis
        using spoken st ri_def by auto
    qed (use st in simp)
  next
    case False
    then have "r \<noteq> Some (Inr ())" "cl_store s' = cl_store s"
      using run opened k4
      by (auto simp: cli_then_def open_registry_def on_files_def split: option.splits sum.splits)
    then show ?thesis
      using assms(2) by simp
  qed
qed (use assms(2) in simp)

end

text \<open>C36: The command registers a meeting with its notes, or nothing. After a success the registry has
  one meeting more, finished, with the duration of the transcript, and one note of it, whose text is
  the notes file as it is on disk at the end; the directory was not registered before. After a failure
  the registry is the old one: no meeting is ever left without its note.\<close>

theorem cli_registers_all_or_nothing:
  assumes "sqlite_cli ce" and "db_ok (cl_store s)" and "bounded_audio ce args s"
    and "run_notes ce args root s = (r, s')"
  shows "db_ok (cl_store s') \<and> ((r \<noteq> Some (Inr ()) \<and> abs_db (cl_store s') = abs_db (cl_store s)) \<or>
     (\<exists>t s1 d ri content. r = Some (Inr ()) \<and>
        spoken_transcript ce (na_audio args) (na_model args) (na_language args) (na_no_diarize args) s =
          (Some (Inr t), s1) \<and>
        ri = registered ce args (notes_out_dir ce args) t (path_join (notes_out_dir ce args) ''notes.md'') d \<and>
        cl_fs s' (ri_primary_path ri) = Some (FsFile content) \<and>
        \<not> dir_taken (ri_dir_path ri) (abs_db (cl_store s)) \<and>
        abs_db (cl_store s') = reg_add_note (registered_note ce ri content)
          (reg_add_meeting (registered_meeting ce ri) (abs_db (cl_store s)))))"
proof -
  obtain dir_first where exec: "ce_exec ce = sqlite_exec dir_first"
    using assms(1) by (auto simp: sqlite_cli_def)
  have "db_ok st \<and> abs_db st = abs_db (cl_store s)" if "ce_open_registry ce p (cl_store s) = Inr st" for p st
    using assms(1,2) that by (auto simp: sqlite_cli_def)
  from sqlite.run_notes_registry [OF exec assms(2) this assms(3,4)] show ?thesis .
qed


section \<open>Exit status\<close>

lemma transcribe_recursive_answers:
  assumes "region_end_ms region < 2 ^ 64"
  obtains r calls where "transcribe_recursive asr is_fake samples rate region hint = Some (r, calls)"
  using recurse_runs [OF assms, of asr is_fake samples rate hint 0 "[]"] that
  by (auto simp: transcribe_recursive_def)

lemma stitch_proper:
  "list_all (\<lambda>r. region_end_ms r < 2 ^ 64) rs \<Longrightarrow>
     proper (stitch_regions asr is_fake samples rate language total_ms i rs segments model)"
proof (induction rs arbitrary: i segments model)
  case (Cons r rs)
  have "region_end_ms (clamp_to r total_ms) < 2 ^ 64"
    using Cons.prems by (simp add: clamp_to_def min.strict_coboundedI1)
  then obtain a calls where "transcribe_recursive (asr i) is_fake samples rate (clamp_to r total_ms) language = Some (a, calls)"
    using transcribe_recursive_answers by blast
  then show ?case
    using Cons by (cases a) (simp_all add: Let_def)
qed simp

lemma proper_map [simp]: "proper (map_option (map_sum id f) r) = proper r"
  by (cases r; cases "the r") auto

lemma merged_ends:
  "region_end_ms ` set (merge_adjacent_regions regions gap_ms) \<subseteq> region_end_ms ` set regions"
  using merge_regions_loop_spec [of "[]" "sort_key region_start_ms regions" gap_ms]
  by (auto simp: merge_adjacent_regions_def)

lemma f32_to_u64_less: "f32_to_u64 x < 2 ^ 64"
  by (simp add: f32_to_u64_def u64_max_def min.strict_coboundedI2)

lemma whisper_regions_bounded:
  assumes "whisper_detect_speech ve samples rate = Inr regions"
  shows "list_all (\<lambda>r. region_end_ms r < 2 ^ 64) regions"
proof -
  obtain segments where "regions = sort_key region_start_ms
      (filter (\<lambda>r. region_start_ms r < region_end_ms r) (map region_of_voiced segments))"
    using assms by (auto simp: whisper_detect_speech_def split: if_splits option.splits sum.splits)
  then show ?thesis
    using f32_to_u64_less by (auto simp: list_all_iff region_of_voiced_def simp del: power_numeral)
qed

lemma load_audio_rate: "load_audio_mono16k au p x = (Inr (samples, rate), y) \<Longrightarrow> rate = 16000"
  by (auto simp: load_audio_mono16k_def dest: load_wav_rate split: prod.splits sum.splits)

lemma transcribe_with_whisper_proper:
  "proper (fst (transcribe_with_vad ce audio asr is_fake (whisper_detect_speech ve) language s))"
proof -
  obtain r d n where load: "load_audio_mono16k (sh_audio (ce_sherpa ce)) audio (cl_fs s, cl_temps s) = (r, d, n)"
    by (metis prod_cases3)
  show ?thesis
  proof (cases r)
    case (Inr x)
    then obtain samples where x: "x = (samples, 16000)"
      using load load_audio_rate by (cases x) blast
    have "proper (stitched_transcript audio asr is_fake (whisper_detect_speech ve) language samples 16000)"
    proof (cases "whisper_detect_speech ve samples 16000")
      case (Inr regions)
      have "list_all (\<lambda>r. region_end_ms r < 2 ^ 64) (merge_adjacent_regions regions 5000)"
        using merged_ends [of regions 5000] whisper_regions_bounded [OF Inr] by (fastforce simp: list_all_iff)
      then show ?thesis
        using Inr by (simp add: stitched_transcript_def total_audio_ms_def stitch_proper)
    qed (simp add: stitched_transcript_def)
    then show ?thesis
      using load unfolding Inr x by (simp add: transcribe_with_vad_def)
  qed (use load in \<open>simp add: transcribe_with_vad_def\<close>)
qed

lemma spoken_proper:
  assumes "ce_var ce ''PANOPS_FAKE_ASR'' \<noteq> Some ''1''"
  shows "proper (fst (spoken_transcript ce audio model language no_diarize s))"
proof -
  have "proper (fst (transcribe ce audio model language s))"
    using assms unfolding transcribe_def Let_def
    by (auto intro!: proper_then transcribe_with_whisper_proper)
  then show ?thesis
    unfolding spoken_transcript_def diarize_def
    by (auto intro!: proper_then split: prod.splits)
qed

lemma notes_llm_proper: "proper (Some (notes_llm ce args))"
  by (auto simp: notes_llm_def build_foundation_llm_def Let_def map_sum_def split: option.splits sum.splits)

lemma after_transcript_proper: "proper (fst (after_transcript ce args root t out s))"
proof -
  have "proper (fst (generate_notes ce args t s))"
    unfolding generate_notes_def
    by (intro proper_then) (auto simp: notes_llm_proper notes_screenshots_def split: option.splits)
  moreover have "proper (fst (export_notes ce out sn s))" for sn s
    by (simp add: export_notes_def split: prod.splits)
  moreover have "proper (fst (open_registry ce root s))" for s
    unfolding open_registry_def by (intro proper_then) (auto split: sum.splits)
  moreover have "proper (fst (register_meeting_in_registry ce ri s))" for ri s
    unfolding register_meeting_in_registry_def by (intro proper_then) (auto split: prod.splits storage_reply.splits)
  ultimately show ?thesis
    unfolding after_transcript_def Let_def by (intro proper_then)
qed

lemma run_notes_proper:
  assumes "ce_var ce ''PANOPS_FAKE_ASR'' \<noteq> Some ''1''"
  shows "proper (fst (run_notes ce args root s))"
  unfolding run_notes_after save_transcript_def Let_def
  by (auto intro!: proper_then spoken_proper [OF assms] after_transcript_proper)


section \<open>The default command\<close>

lemma load_audio_leaves:
  assumes "\<And>k. d (transcode_path au k) = None" and "load_audio_mono16k au path (d, n) = (r, d', n')"
  shows "d' = d"
proof -
  obtain w e1 n1 where ensured: "ensure_wav16k au path (d, n) = (w, e1, n1)"
    by (metis prod_cases3)
  then show ?thesis
    using ensure_wav16k_drops [OF assms(1) ensured] assms(2) by (auto simp: load_audio_mono16k_def split: sum.splits)
qed

lemma transcribe_with_vad_leaves:
  assumes "\<And>k. cl_fs s (transcode_path (sh_audio (ce_sherpa ce)) k) = None"
  shows "cl_fs (snd (transcribe_with_vad ce audio asr is_fake vad language s)) = cl_fs s"
proof -
  obtain r d n where load: "load_audio_mono16k (sh_audio (ce_sherpa ce)) audio (cl_fs s, cl_temps s) = (r, d, n)"
    by (metis prod_cases3)
  have "d = cl_fs s"
    by (rule load_audio_leaves [OF _ load]) (rule assms)
  then show ?thesis
    using load by (simp add: transcribe_with_vad_def)
qed

lemma sherpa_leaves:
  assumes "\<And>k. d (transcode_path (sh_audio sh) k) = None" and "sherpa_diarize sh ms path (d, n) = (r, d', n')"
  shows "d' = d"
proof -
  obtain w e1 n1 where ensured: "ensure_wav16k (sh_audio sh) path (d, n) = (w, e1, n1)"
    by (metis prod_cases3)
  then show ?thesis
    using ensure_wav16k_drops [OF assms(1) ensured] assms(2)
    by (auto simp: sherpa_diarize_def split: if_splits sum.splits asr_error.splits)
qed

lemma spoken_leaves:
  fixes s :: "'a cli"
  assumes "\<And>k. cl_fs s (transcode_path (sh_audio (ce_sherpa ce)) k) = None"
  shows "cl_fs (snd (spoken_transcript ce audio model language no_diarize s)) = cl_fs s"
proof -
  let ?P = "\<lambda>u. cl_fs u = cl_fs s"
  have with_vad: "?P (snd (transcribe_with_vad ce audio asr is_fake vad language u))" if "?P u" for asr is_fake vad u
    using transcribe_with_vad_leaves [of u ce] assms that by simp
  have step: "?P (snd (on_disk f u))" if "?P u" for f u
    using that by simp
  have first: "?P (snd (transcribe ce audio model language s))"
    unfolding transcribe_def Let_def
    by (simp split: option.splits)
      (intro conjI impI allI cli_then_keeps [where P = ?P] with_vad step; simp)
  have speak: "?P (snd (case sherpa_diarize (ce_sherpa ce) ms audio (cl_fs u, cl_temps u) of
      (r, d, n) \<Rightarrow> checked 2 diar_error_text r (u\<lparr>cl_fs := d, cl_temps := n\<rparr>)))" if "?P u" for ms and u :: "'a cli"
  proof -
    obtain r d n where run: "sherpa_diarize (ce_sherpa ce) ms audio (cl_fs u, cl_temps u) = (r, d, n)"
      by (metis prod_cases3)
    have "d = cl_fs u"
      by (rule sherpa_leaves [OF _ run]) (simp add: that assms)
    then show ?thesis
      using run that by simp
  qed
  have second: "?P (snd (diarize ce audio u))" if "?P u" for u
    unfolding diarize_def
  proof (intro cli_then_keeps [where P = ?P] step that)
    fix paths :: "string \<times> string" and v :: "'a cli"
    assume v: "?P v"
    obtain seg emb where paths: "paths = (seg, emb)"
      by (metis prod.collapse)
    show "?P (snd ((\<lambda>(seg, emb) s.
        cli_then (checked 3 diar_error_text (new_sherpa_diarizer (ce_sherpa ce) (disk_view s) seg emb) s) (\<lambda>ms s.
          case sherpa_diarize (ce_sherpa ce) ms audio (cl_fs s, cl_temps s) of
            (r, d, n) \<Rightarrow> checked 2 diar_error_text r (s\<lparr>cl_fs := d, cl_temps := n\<rparr>))) paths v))"
      unfolding paths prod.case by (intro cli_then_keeps [where P = ?P] speak) (simp_all add: v)
  qed
  have "?P (snd (cli_then (diarize ce audio u) (\<lambda>turns s. (Some (Inr (with_turns turns t)), s))))" if "?P u" for t u
    by (rule cli_then_keeps [where P = ?P]) (simp_all add: second that)
  then show ?thesis
    unfolding spoken_transcript_def by (intro cli_then_keeps [where P = ?P] first) simp
qed

text \<open>The default command, which prints a transcript, leaves the user's files and the registry as
  they were, whether it succeeds or fails: its temporary files are gone at the end.\<close>

theorem default_command_leaves_files:
  assumes "\<And>k. cl_fs s (transcode_path (sh_audio (ce_sherpa ce)) k) = None"
    and "main_program ce dir (DefaultCommand audio model language no_diarize) s = (r, s')"
  shows "cl_fs s' = cl_fs s \<and> cl_store s' = cl_store s"
proof -
  have "cl_fs (snd (run_default ce audio model language no_diarize s)) = cl_fs s \<and>
      cl_store (snd (run_default ce audio model language no_diarize s)) = cl_store s"
    unfolding run_default_def
    by (auto intro!: cli_then_keeps [where P = "\<lambda>u. cl_fs u = cl_fs s \<and> cl_store u = cl_store s"]
        spoken_leaves assms(1) split: option.splits)
  then show ?thesis
    using assms(2) by (auto simp: main_program_def Let_def split: prod.splits)
qed

end
