(* ===== verification/Cli_Examples.thy ===== *)
theory Cli_Examples
  imports Cli_Correct "HOL-Library.Code_Target_Nat"
begin

text \<open>
  A run of the command line on concrete input, evaluated: a recording of one millisecond that the fake
  recogniser hears as \<open>hello\<close>, a language model that answers, and an empty registry. The theorems of
  \<open>Cli_Correct\<close> apply to it.
\<close>

section \<open>The environment\<close>

definition demo_genai :: genai_env where
  "demo_genai = \<lparr>gn_var = (\<lambda>v. None), gn_runtime = None, gn_chat = (\<lambda>m system user t n. Inr (Some ''{}'')),
     gn_parse = (\<lambda>t. Inr (JObject [(''title'', JString ''Talk''), (''narrative_md'', JString ''Hi'')]))\<rparr>"

definition loud_audio :: audio_env where
  "loud_audio =
     \<lparr>au_wav_spec = (\<lambda>b. Inr \<lparr>ws_channels = 1, ws_sample_rate = 16000,
            ws_bits_per_sample = 16, ws_int_format = True\<rparr>),
          au_wav_samples = (\<lambda>b. Inr (replicate 16 0x7FFF)), au_integer_to_float = (\<lambda>xs. Inr (map (\<lambda>x. 0x3F800000) xs)),
          au_stereo_to_mono = Inr, au_macos = False, au_temp_dir = ''/tmp'', au_process_id = 7,
          au_afconvert = (\<lambda>d p. SpawnFailed)\<rparr>"

definition demo_cli :: "(string \<Rightarrow> string option) \<Rightarrow> db cli_env" where
  "demo_cli var =
     \<lparr>ce_var = var,
      ce_models = \<lparr>me_fault = (\<lambda>n. Some (''offline'', 0)), me_clock = (\<lambda>n. 0), me_dir_metadata = (\<lambda>p. (0, 0)),
        me_client = Some ''offline'', me_get = (\<lambda>n url. Inl ''offline''), me_var = (\<lambda>v. None),
        me_project_dir = None, me_sha256 = id, me_encode = (\<lambda>m. []), me_decode = (\<lambda>c. None),
        me_untar = (\<lambda>t p d. (None, d)), me_path_debug = id, me_status_text = (\<lambda>n. [])\<rparr>,
      ce_exec_env = \<lparr>xe_canonical = (\<lambda>p. None), xe_meta = (\<lambda>p. None), xe_current_exe = None, xe_macos = False\<rparr>,
      ce_sherpa = \<lparr>sh_audio = loud_audio,
        sh_path_debug = id, sh_read_audio = (\<lambda>d p. Inl ''unreadable''), sh_start = (\<lambda>seg emb. Inl ''no model'')\<rparr>,
      ce_whisper = \<lparr>we_path_debug = id, we_open = (\<lambda>p. Inr ()), we_create_state = Inl ''no state'',
        we_full = (\<lambda>n samples hint. Inl ''no model''), we_lang_str = (\<lambda>i. None), we_parallelism = None\<rparr>,
      ce_vad = \<lparr>ve_path_debug = id, ve_open = (\<lambda>p. Inr ()), ve_segments = (\<lambda>samples. Inr []), ve_poisoned = None\<rparr>,
      ce_whisperkit = (\<lambda>bin i k call. Inl (AsrModel [])),
      ce_genai = demo_genai,
      ce_genai_at = (\<lambda>i k. demo_genai),
      ce_foundation = (\<lambda>bin i k req. Inl LlmCancelled),
      ce_pipeline = \<lparr>env_json_text = (\<lambda>_. []), env_llm = (\<lambda>_ _ _. Inl LlmCancelled), env_totals_order = id,
        env_counts_order = id, env_date_of = id, env_now = ''2026-01-01''\<rparr>,
      ce_json = (\<lambda>t. Inr ''{}''), ce_read_dir = (\<lambda>d p. []), ce_canonicalize = (\<lambda>d p. Some p), ce_lossy = id,
      ce_path_debug = id, ce_str_debug = id, ce_now = ''2026-01-01T10:00:00Z'',
      ce_clock = \<lparr>ck_rfc3339 = ''2026-01-01T10:00:00Z'', ck_nanos = 0\<rparr>, ce_end_time = (\<lambda>t n. Some t),
      ce_uuid = (\<lambda>n. if n = 0 then ''m0'' else ''n0''), ce_open_registry = (\<lambda>p st. Inr st), ce_exec = sqlite_exec False\<rparr>"

definition fake_var :: "string \<Rightarrow> string option" where
  "fake_var v = (if v = ''PANOPS_FAKE_ASR'' then Some ''1'' else None)"

definition demo_args :: notes_args where
  "demo_args = \<lparr>na_audio = ''/talk.wav'', na_screenshots = None, na_out = Some ''/out'', na_dialect = BasicArg,
     na_no_diarize = True, na_llm_provider = ''auto'', na_llm_model = Some ''m'', na_model = None, na_language = None\<rparr>"

definition demo_state :: "db cli" where
  "demo_state = \<lparr>cl_fs = [''/talk.wav'' \<mapsto> FsFile ''RIFF'', ''/talk.transcript.txt'' \<mapsto> FsFile ''hello''], cl_temps = 0,
     cl_disk = \<lparr>dk_nodes = (\<lambda>p. None), dk_ops = 0, dk_requests = []\<rparr>, cl_store = fresh_db\<rparr>"

definition talk :: transcript where
  "talk = \<lparr>tr_schema_version = 2, tr_model = ''transcript-file-fake'', tr_audio_path = ''/talk.wav'',
     tr_audio_duration_ms = 1, tr_diarized = False,
     tr_segments = [\<lparr>seg_start_ms = 0, seg_end_ms = 1, seg_text = ''hello'', seg_language = None,
       seg_confidence = 0x3F800000, seg_speaker_id = None\<rparr>]\<rparr>"


definition demo_notes :: structured_notes where
  "demo_notes = \<lparr>sn_schema_version = 1,
     sn_frontmatter = \<lparr>fm_title = ''Talk'', fm_date = ''2026-01-01T10:00:00Z'', fm_started_at = ''2026-01-01T10:00:00Z'',
       fm_duration_ms = 1, fm_speakers = [], fm_languages = [''en''], fm_tags = [], fm_template = ''default'',
       fm_dialect = Basic, fm_panops_version = ''0.1.0'', fm_source_audio = Some ''/talk.wav''\<rparr>,
     sn_sections = [\<lparr>sec_index = 1, sec_title = ''Talk'', sec_time_range_ms = (0, 1), sec_narrative_md = ''Hi'',
       sec_key_points = [], sec_action_items = [], sec_screenshots = []\<rparr>],
     sn_language = ''en'', sn_generated_at = ''2026-01-01''\<rparr>"

lemma demo_env_sel:
  "ce_var (demo_cli var) = var" "sh_audio (ce_sherpa (demo_cli var)) = loud_audio"
  "ce_exec (demo_cli var) = sqlite_exec False" "ce_open_registry (demo_cli var) = (\<lambda>p. Inr)"
  "ce_json (demo_cli var) = (\<lambda>t. Inr ''{}'')" "ce_genai (demo_cli var) = demo_genai"
  "ce_lossy (demo_cli var) = id" "ce_canonicalize (demo_cli var) = (\<lambda>d. Some)"
  by (simp_all only: demo_cli_def cli_env.select_convs sherpa_env.select_convs)

lemma demo_sqlite: "sqlite_cli (demo_cli var)"
  by (auto simp: sqlite_cli_def demo_env_sel)

section \<open>The transcript\<close>

lemma demo_names:
  "with_extension ''/talk.wav'' ''transcript.txt'' = ''/talk.transcript.txt''" "infer_language ''/talk.wav'' = None"
  "is_wav ''/talk.wav''" "valid_utf8 ''hello''" "trim ''hello'' = ''hello''"
  by code_simp+

lemma demo_files:
  "cl_fs demo_state ''/talk.wav'' = Some (FsFile ''RIFF'')"
  "cl_fs demo_state ''/talk.transcript.txt'' = Some (FsFile ''hello'')"
  by (simp_all add: demo_state_def)

lemma fold_peak: "f32_max x x = x \<Longrightarrow> f32_abs x = x \<Longrightarrow> fold (\<lambda>s m. f32_max m (f32_abs s)) (replicate n x) x = x"
  by (induction n) simp_all
lemma one_loud: "f32_abs 0x3F800000 = 0x3F800000" "f32_max 0x3F800000 0x3F800000 = 0x3F800000" "f32_max 0 0x3F800000 = 0x3F800000"
  "f32_ge 0x3F800000 0x3A83126F"
  by (simp_all add: f32_abs_def f32_max_def f32_ge_def f32_magnitude_def f32_is_nan_def f32_signed_def f32_lt_def f32_negative_def)
lemma demo_speech: "known_detect_speech default_known_regions (replicate 16 0x3F800000) 16000 =
  Inr [\<lparr>region_start_ms = 0, region_end_ms = 1\<rparr>]"
proof -
  have "chunks 1600 (replicate 16 (0x3F800000 :: f32)) = [replicate 16 0x3F800000]"
    by (subst chunks.simps) (simp add: chunks.simps)
  moreover have "peak_of (replicate 16 0x3F800000) = 0x3F800000"
  proof -
    have "replicate 16 (0x3F800000 :: f32) = 0x3F800000 # replicate 15 0x3F800000"
      using replicate_Suc [of 15 "0x3F800000 :: f32"] by simp
    then show ?thesis
      using fold_peak [of "0x3F800000" 15] by (simp only: peak_of_def one_loud list.simps fold.simps comp_def id_def)
  qed
  ultimately show ?thesis
    by (simp add: known_detect_speech_def default_known_regions_def one_loud)
qed
lemma demo_region:
  "transcribe_recursive (canned_asr (fake_transcript ''/talk.wav'' ''hello'' None) 0) True (replicate 16 0x3F800000) 16000
     \<lparr>region_start_ms = 0, region_end_ms = 1\<rparr> None =
   Some (Inr \<lparr>rr_segments = tr_segments talk, rr_model = Some ''transcript-file-fake''\<rparr>,
     [(replicate 16 0x3F800000, 16000, None)])"
  unfolding transcribe_recursive_def
  by (subst recurse.simps) (simp add: slice_for_region_def u64_saturating_mul_def u64_max_def canned_asr_def
    transcript_fake_transcribe_def fake_transcript_def split_point_def f32_lt_def talk_def Let_def min_region_ms_def max_depth_def
    confidence_threshold_def f32_is_nan_def f32_signed_def f32_magnitude_def offset_segment_def u64_add_def option_or_def transcript_schema_version_def)

lemma demo_stitched:
  "stitched_transcript ''/talk.wav'' (canned_asr (fake_transcript ''/talk.wav'' ''hello'' None)) True
     (known_detect_speech default_known_regions) None (replicate 16 0x3F800000) 16000 = Some (Inr talk)"
  using demo_region demo_speech
  by (simp add: stitched_transcript_def total_audio_ms_def merge_adjacent_regions_def clamp_to_def
      option_or_def talk_def transcript_schema_version_def Let_def)

lemma demo_canned:
  "read_canned_sidecar (cl_fs demo_state) ''/talk.wav'' = Some (fake_transcript ''/talk.wav'' ''hello'' None)"
  unfolding read_canned_sidecar_def demo_names demo_files
  by (simp only: option.case fs_node.case demo_names if_True)

lemma demo_loaded:
  "load_audio_mono16k loud_audio ''/talk.wav'' (cl_fs demo_state, n) = (Inr (replicate 16 0x3F800000, 16000), cl_fs demo_state, n)"
proof -
  have header: "wav_open loud_audio (cl_fs demo_state) ''/talk.wav'' =
      Inr (\<lparr>ws_channels = 1, ws_sample_rate = 16000, ws_bits_per_sample = 16, ws_int_format = True\<rparr>, ''RIFF'')"
    by (simp add: wav_open_def demo_files loud_audio_def)
  then have "load_wav_mono16k loud_audio (cl_fs demo_state) ''/talk.wav'' = Inr (replicate 16 0x3F800000, 16000)"
    by (simp add: load_wav_mono16k_def demo_files loud_audio_def)
  then show ?thesis
    using header demo_names(3) demo_files(1)
    by (simp add: load_audio_mono16k_def ensure_wav16k_def ready_spec_def wav16k_file_def drop_wav16k_def)
qed

lemma demo_spoken:
  assumes "ce_var ce = fake_var" and "sh_audio (ce_sherpa ce) = loud_audio" and "cl_fs s = cl_fs demo_state"
  shows "spoken_transcript ce ''/talk.wav'' None None True s = (Some (Inr talk), s)"
proof -
  have "ce_var ce ''PANOPS_FAKE_ASR'' = Some ''1''"
    using assms(1) by (simp add: fake_var_def)
  then show ?thesis
    using demo_canned demo_loaded [of "cl_temps s"] demo_stitched demo_files assms(2,3)
    by (cases s) (simp add: spoken_transcript_def transcribe_def Let_def transcribe_with_vad_def)
qed

lemma demo_args_sel:
  "na_audio demo_args = ''/talk.wav''" "na_model demo_args = None" "na_language demo_args = None"
  "na_no_diarize demo_args" "notes_out_dir ce demo_args = ''/out''" "na_screenshots demo_args = None"
  "na_llm_provider demo_args = ''auto''" "na_llm_model demo_args = Some ''m''" "na_dialect demo_args = BasicArg"
  by (simp_all add: demo_args_def notes_out_dir_def)

lemma demo_bounded:
  assumes "ce_var ce = fake_var" and "sh_audio (ce_sherpa ce) = loud_audio" and "cl_fs s = cl_fs demo_state"
  shows "bounded_audio ce demo_args s"
  using demo_spoken [OF assms] by (simp add: bounded_audio_def demo_args_sel talk_def)

section \<open>The notes\<close>

lemma demo_generate:
  "fst (generate ((ce_pipeline (demo_cli fake_var))\<lparr>env_llm := genai_answers (demo_cli fake_var) ''m''\<rparr>) Basic
     \<lparr>ni_transcript = tr_segments talk, ni_screenshots = [],
      ni_metadata = \<lparr>mm_started_at = ce_now (demo_cli fake_var), mm_duration_ms = tr_audio_duration_ms talk,
        mm_source_path = Some ''/talk.wav'', mm_language_hint = None\<rparr>\<rparr>) = Inr demo_notes"
  by code_simp

lemma demo_generated: "generate_notes (demo_cli fake_var) demo_args talk s = (Some (Inr demo_notes), s)"
proof -
  have "notes_llm (demo_cli fake_var) demo_args = Inr (genai_answers (demo_cli fake_var) ''m'')"
    by (simp add: notes_llm_def demo_args_sel new_genai_def demo_env_sel demo_genai_def)
  then show ?thesis
    using demo_generate by (simp add: generate_notes_def notes_screenshots_def demo_args_sel checked_def)
qed

lemma demo_rest:
  "fst (cli_then (save_transcript (demo_cli fake_var) demo_args talk demo_state) (\<lambda>out_dir s.
     cli_then (export_notes (demo_cli fake_var) out_dir demo_notes s) (\<lambda>art s.
       let ri = registered (demo_cli fake_var) demo_args out_dir talk (ea_primary_file art) (cl_fs s)
       in cli_then (open_registry (demo_cli fake_var) ''/data'' s) (\<lambda>u s.
            register_meeting_in_registry (demo_cli fake_var) ri s)))) = Some (Inr ())"
  by code_simp

lemma demo_run: "fst (run_notes (demo_cli fake_var) demo_args ''/data'' demo_state) = Some (Inr ())"
  using demo_rest demo_spoken [OF demo_env_sel(1,2) refl]
  by (simp add: run_notes_def demo_generated demo_args_sel)

section \<open>The theorems\<close>

definition one_turn :: "speaker_turn list" where
  "one_turn = [\<lparr>turn_start_ms = 0, turn_end_ms = 1, turn_speaker_id = 3\<rparr>]"

definition demo_server :: "(db, fake_capture) notes_env" where
  "demo_server = silent_notes\<lparr>nv_load_audio := (\<lambda>d p. Inr (replicate 16 0x3F800000, 16000)),
     nv_detect_speech := known_detect_speech default_known_regions,
     nv_asr := (\<lambda>p. canned_asr (fake_transcript ''/talk.wav'' ''hello'' None)), nv_asr_is_fake := True,
     nv_diarize := (\<lambda>d p. Inr one_turn)\<rparr>"

theorem cli_transcribes_like_server_witness:
  "map_option (map_sum (\<lambda>_. ()) id) (fst (transcribe_file demo_server ''j'' ''/talk.wav'' None False (\<lambda>p. None) [])) =
     Some (Inr (with_turns one_turn talk))"
proof -
  have "nv_load_audio demo_server d p = Inr (replicate 16 0x3F800000, 16000)"
    "nv_diarize demo_server d p = Inr one_turn" for d p
    by (simp_all add: demo_server_def)
  from cli_transcribes_like_server [OF this, where language = None and no_diarize = False and job = "''j''"
      and d = "\<lambda>p. None" and audio = "''/talk.wav''" and evs = "[]"]
  show ?thesis
    using demo_stitched by (simp add: demo_server_def)
qed


theorem cli_registers_all_or_nothing_witness:
  "\<exists>ri content. cl_fs (snd (run_notes (demo_cli fake_var) demo_args ''/data'' demo_state)) (ri_primary_path ri) =
       Some (FsFile content) \<and>
     abs_db (cl_store (snd (run_notes (demo_cli fake_var) demo_args ''/data'' demo_state))) =
       reg_add_note (registered_note (demo_cli fake_var) ri content)
         (reg_add_meeting (registered_meeting (demo_cli fake_var) ri) empty_registry)"
proof -
  obtain s' where run: "run_notes (demo_cli fake_var) demo_args ''/data'' demo_state = (Some (Inr ()), s')"
    using demo_run by (metis prod.collapse)
  have "cl_store demo_state = fresh_db"
    by (simp add: demo_state_def)
  then show ?thesis
    using cli_registers_all_or_nothing [OF demo_sqlite _ demo_bounded [OF demo_env_sel(1,2) refl] run] run
    by (auto simp: fresh_db_ok fresh_db_abs)
qed



theorem default_command_leaves_files_witness:
  "cl_fs (snd (main_program (demo_cli fake_var) None (DefaultCommand (Some ''/talk.wav'') None None True) demo_state)) =
     cl_fs demo_state"
proof -
  have "cl_fs demo_state (transcode_path (sh_audio (ce_sherpa (demo_cli fake_var))) k) = None" for k
    by (simp add: demo_env_sel demo_state_def transcode_path_def path_join_def loud_audio_def)
  from default_command_leaves_files [OF this] show ?thesis
    by (metis prod.collapse)
qed

end
