(* ===== verification/Storage_Suite.thy ===== *)
theory Storage_Suite
  imports Storage_Port "HOL-Library.Monad_Syntax"
begin

text \<open>
  The conformance suite of the storage port, \<open>panops-core/src/conformance/storage.rs\<close>: the twenty
  scenarios in the order of \<open>run_suite\<close>, each a sequence of calls to an adapter with the checks
  between them. A failed \<open>expect\<close>, \<open>assert\<close> or \<open>panic\<close> is \<open>None\<close>; a scenario that passes returns the
  adapter's state. The adapter is a parameter \<open>ask\<close>, a step function that is given the reading of the
  clock; \<open>timed\<close> makes one from the step functions of \<open>Storage_Types\<close> and a sequence of readings.
\<close>

section \<open>Calls and checks\<close>

type_synonym 't asks = "(clock \<Rightarrow> storage_call) \<Rightarrow> 't \<Rightarrow> storage_reply \<times> 't"

definition timed ::
  "(storage_call \<Rightarrow> 's \<Rightarrow> storage_reply \<times> 's) \<Rightarrow> (nat \<Rightarrow> clock) \<Rightarrow> ('s \<times> nat) asks" where
  "timed exec clk c t =
     (case exec (c (clk (snd t))) (fst t) of (x, s) \<Rightarrow> (x, (s, Suc (snd t))))"

fun expect_unit :: "storage_reply \<times> 't \<Rightarrow> 't option" where
  "expect_unit (RUnit, t) = Some t"
| "expect_unit (_, t) = None"

fun expect_meeting :: "storage_reply \<times> 't \<Rightarrow> (meeting \<times> 't) option" where
  "expect_meeting (RMeeting m, t) = Some (m, t)"
| "expect_meeting (_, t) = None"

fun expect_note :: "storage_reply \<times> 't \<Rightarrow> (meeting_note \<times> 't) option" where
  "expect_note (RNote n, t) = Some (n, t)"
| "expect_note (_, t) = None"

fun expect_meeting_note :: "storage_reply \<times> 't \<Rightarrow> (meeting \<times> meeting_note \<times> 't) option" where
  "expect_meeting_note (RMeetingNote m n, t) = Some (m, n, t)"
| "expect_meeting_note (_, t) = None"

fun expect_summaries :: "storage_reply \<times> 't \<Rightarrow> (meeting_summary list \<times> 't) option" where
  "expect_summaries (RSummaries xs, t) = Some (xs, t)"
| "expect_summaries (_, t) = None"

fun expect_notes :: "storage_reply \<times> 't \<Rightarrow> (meeting_note list \<times> 't) option" where
  "expect_notes (RNotes xs, t) = Some (xs, t)"
| "expect_notes (_, t) = None"

fun expect_space :: "storage_reply \<times> 't \<Rightarrow> (space \<times> 't) option" where
  "expect_space (RSpace sp, t) = Some (sp, t)"
| "expect_space (_, t) = None"

fun expect_spaces :: "storage_reply \<times> 't \<Rightarrow> (space list \<times> 't) option" where
  "expect_spaces (RSpaces xs, t) = Some (xs, t)"
| "expect_spaces (_, t) = None"

fun expect_project :: "storage_reply \<times> 't \<Rightarrow> (project \<times> 't) option" where
  "expect_project (RProject p, t) = Some (p, t)"
| "expect_project (_, t) = None"

fun expect_projects :: "storage_reply \<times> 't \<Rightarrow> (project list \<times> 't) option" where
  "expect_projects (RProjects xs, t) = Some (xs, t)"
| "expect_projects (_, t) = None"

fun expect_tag :: "storage_reply \<times> 't \<Rightarrow> (tag \<times> 't) option" where
  "expect_tag (RTag x, t) = Some (x, t)"
| "expect_tag (_, t) = None"

fun expect_tags :: "storage_reply \<times> 't \<Rightarrow> (tag list \<times> 't) option" where
  "expect_tags (RTags xs, t) = Some (xs, t)"
| "expect_tags (_, t) = None"

fun expect_err :: "storage_reply \<times> 't \<Rightarrow> (storage_error \<times> 't) option" where
  "expect_err (RErr e, t) = Some (e, t)"
| "expect_err (_, t) = None"

definition assert_that :: "bool \<Rightarrow> unit option" where
  "assert_that b = (if b then Some () else None)"

fun is_not_found :: "string \<Rightarrow> storage_error \<Rightarrow> bool" where
  "is_not_found kind (StNotFound i k) = (k = kind)"
| "is_not_found kind _ = False"

fun not_found_any :: "storage_error \<Rightarrow> bool" where
  "not_found_any (StNotFound i k) = True"
| "not_found_any _ = False"

fun exists_already :: "string \<Rightarrow> storage_error \<Rightarrow> bool" where
  "exists_already kind (StAlreadyExists i k) = (k = kind)"
| "exists_already kind _ = False"

definition suite_draft :: "string \<Rightarrow> string \<Rightarrow> string \<Rightarrow> meeting_draft" where
  "suite_draft i title started_at =
     meeting_draft.make i title started_at ''auto'' (''/tmp/'' @ i)"

definition suite_summary :: "'t asks \<Rightarrow> string \<Rightarrow> 't \<Rightarrow> (meeting_summary \<times> 't) option" where
  "suite_summary ask i t = do {
     (rows, t) \<leftarrow> expect_summaries (ask (\<lambda>_. ListMeetings) t);
     row \<leftarrow> List.find (\<lambda>m. ms_id m = i) rows;
     Some (row, t)
   }"

definition has_row :: "string \<Rightarrow> meeting_summary list \<Rightarrow> bool" where
  "has_row i rows = list_ex (\<lambda>m. ms_id m = i) rows"

definition contains :: "string list \<Rightarrow> string \<Rightarrow> bool" where
  "contains xs i = (i \<in> set xs)"

section \<open>Meetings\<close>

definition create_get_round_trip :: "'t asks \<Rightarrow> 't \<Rightarrow> 't option" where
  "create_get_round_trip ask t = do {
     (m, t) \<leftarrow> expect_meeting (ask (\<lambda>_. CreateMeeting
       (suite_draft ''m_round_trip'' ''Round Trip'' ''2026-05-05T10:00:00+00:00'')) t);
     assert_that (mt_id m = ''m_round_trip'');
     assert_that (mt_title m = ''Round Trip'');
     assert_that (mt_ended_at m = None);
     assert_that (mt_duration_ms m = None);
     (again, t) \<leftarrow> expect_meeting (ask (\<lambda>_. GetMeeting ''m_round_trip'') t);
     assert_that (again = m);
     Some t
   }"

definition create_duplicate_id_is_already_exists :: "'t asks \<Rightarrow> 't \<Rightarrow> 't option" where
  "create_duplicate_id_is_already_exists ask t = do {
     (m, t) \<leftarrow> expect_meeting (ask (\<lambda>_. CreateMeeting (meeting_draft.make ''m_dup'' ''Dup''
       ''2026-05-05T10:00:00+00:00'' ''auto'' ''/tmp/m_dup_first'')) t);
     (err, t) \<leftarrow> expect_err (ask (\<lambda>_. CreateMeeting (meeting_draft.make ''m_dup'' ''Dup again''
       ''2026-05-05T10:00:00+00:00'' ''auto'' ''/tmp/m_dup_second'')) t);
     assert_that (err = StAlreadyExists ''m_dup'' ''meeting'');
     Some t
   }"

definition create_duplicate_dir_path_is_unique_conflict :: "'t asks \<Rightarrow> 't \<Rightarrow> 't option" where
  "create_duplicate_dir_path_is_unique_conflict ask t = do {
     (m, t) \<leftarrow> expect_meeting (ask (\<lambda>_. CreateMeeting (meeting_draft.make ''m_dir_a'' ''A''
       ''2026-05-05T10:00:00+00:00'' ''auto'' ''/tmp/share_this_dir_dup'')) t);
     (err, t) \<leftarrow> expect_err (ask (\<lambda>_. CreateMeeting (meeting_draft.make ''m_dir_b'' ''B''
       ''2026-05-05T10:00:00+00:00'' ''auto'' ''/tmp/share_this_dir_dup'')) t);
     assert_that (err = StUniqueConflict ''meeting'' ''dir_path'' ''/tmp/share_this_dir_dup'');
     Some t
   }"

definition get_unknown_id_is_not_found :: "'t asks \<Rightarrow> 't \<Rightarrow> 't option" where
  "get_unknown_id_is_not_found ask t = do {
     (err, t) \<leftarrow> expect_err (ask (\<lambda>_. GetMeeting ''does-not-exist'') t);
     assert_that (err = StNotFound ''does-not-exist'' ''meeting'');
     Some t
   }"

definition list_returns_started_at_desc :: "'t asks \<Rightarrow> 't \<Rightarrow> 't option" where
  "list_returns_started_at_desc ask t = do {
     let t = snd (ask (\<lambda>_. CreateMeeting (suite_draft ''a'' ''A'' ''2026-05-01T10:00:00+00:00'')) t);
     let t = snd (ask (\<lambda>_. CreateMeeting (meeting_draft.make ''b'' ''B''
       ''2026-05-03T10:00:00+00:00'' ''es'' ''/tmp/b'')) t);
     let t = snd (ask (\<lambda>_. CreateMeeting (suite_draft ''c'' ''C'' ''2026-05-02T10:00:00+00:00'')) t);
     (updated, t) \<leftarrow> expect_meeting (ask (\<lambda>_. UpdateMeetingEnded ''b''
       ''2026-05-03T10:30:00+00:00'' 1800000) t);
     (n, t) \<leftarrow> expect_note (ask (\<lambda>now. CreateNote now (note_draft.make ''n_list_b'' ''b'' ''basic''
       ''# listed'' ''/tmp/b/notes.md'')) t);
     (rows, t) \<leftarrow> expect_summaries (ask (\<lambda>_. ListMeetings) t);
     let our = filter (contains [''a'', ''b'', ''c'']) (map ms_id rows);
     assert_that (our = [''b'', ''c'', ''a'']);
     b \<leftarrow> List.find (\<lambda>r. ms_id r = ''b'') rows;
     assert_that (ms_title b = ''B'');
     assert_that (ms_started_at b = ''2026-05-03T10:00:00+00:00'');
     assert_that (ms_ended_at b = Some ''2026-05-03T10:30:00+00:00'');
     assert_that (ms_duration_ms b = 1800000);
     assert_that (ms_language b = ''es'');
     assert_that (ms_has_notes b);
     a \<leftarrow> List.find (\<lambda>r. ms_id r = ''a'') rows;
     assert_that (ms_ended_at a = None);
     assert_that (ms_duration_ms a = 0);
     assert_that (ms_language a = ''auto'');
     assert_that (\<not> ms_has_notes a);
     Some t
   }"

definition update_meeting_ended_writes_duration :: "'t asks \<Rightarrow> 't \<Rightarrow> 't option" where
  "update_meeting_ended_writes_duration ask t = do {
     (m, t) \<leftarrow> expect_meeting (ask (\<lambda>_. CreateMeeting
       (suite_draft ''m_end'' ''End'' ''2026-05-05T10:00:00+00:00'')) t);
     (updated, t) \<leftarrow> expect_meeting (ask (\<lambda>_. UpdateMeetingEnded ''m_end''
       ''2026-05-05T11:00:00+00:00'' 3600000) t);
     assert_that (mt_ended_at updated = Some ''2026-05-05T11:00:00+00:00'');
     assert_that (mt_duration_ms updated = Some 3600000);
     (round_trip, t) \<leftarrow> expect_meeting (ask (\<lambda>_. GetMeeting ''m_end'') t);
     assert_that (mt_ended_at round_trip = Some ''2026-05-05T11:00:00+00:00'');
     assert_that (mt_duration_ms round_trip = Some 3600000);
     Some t
   }"

definition rename_meeting_persists_title :: "'t asks \<Rightarrow> 't \<Rightarrow> 't option" where
  "rename_meeting_persists_title ask t = do {
     (m, t) \<leftarrow> expect_meeting (ask (\<lambda>_. CreateMeeting
       (suite_draft ''m_rename'' ''Before'' ''2026-05-05T10:00:00+00:00'')) t);
     (updated, t) \<leftarrow> expect_meeting (ask (\<lambda>_. RenameMeeting ''m_rename'' ''After'') t);
     assert_that (mt_title updated = ''After'');
     assert_that (mt_id updated = ''m_rename'');
     assert_that (mt_language updated = ''auto'');
     (round_trip, t) \<leftarrow> expect_meeting (ask (\<lambda>_. GetMeeting ''m_rename'') t);
     assert_that (mt_title round_trip = ''After'');
     (err, t) \<leftarrow> expect_err (ask (\<lambda>_. RenameMeeting ''does-not-exist'' ''X'') t);
     assert_that (is_not_found ''meeting'' err);
     Some t
   }"

definition delete_meeting_cascades_to_notes :: "'t asks \<Rightarrow> 't \<Rightarrow> 't option" where
  "delete_meeting_cascades_to_notes ask t = do {
     (m, t) \<leftarrow> expect_meeting (ask (\<lambda>_. CreateMeeting
       (suite_draft ''m_del'' ''Del'' ''2026-05-05T10:00:00+00:00'')) t);
     (n, t) \<leftarrow> expect_note (ask (\<lambda>now. CreateNote now (note_draft.make ''n_del'' ''m_del'' ''basic''
       ''# hi'' ''/tmp/notes.md'')) t);
     t \<leftarrow> expect_unit (ask (\<lambda>_. DeleteMeeting ''m_del'') t);
     (err, t) \<leftarrow> expect_err (ask (\<lambda>_. GetMeeting ''m_del'') t);
     assert_that (not_found_any err);
     (notes, t) \<leftarrow> expect_notes (ask (\<lambda>_. ListNotesForMeeting ''m_del'') t);
     assert_that (notes = []);
     Some t
   }"

section \<open>Notes\<close>

definition create_and_list_notes_for_meeting :: "'t asks \<Rightarrow> 't \<Rightarrow> 't option" where
  "create_and_list_notes_for_meeting ask t = do {
     (m, t) \<leftarrow> expect_meeting (ask (\<lambda>_. CreateMeeting
       (suite_draft ''m_notes'' ''Notes'' ''2026-05-05T10:00:00+00:00'')) t);
     (n, t) \<leftarrow> expect_note (ask (\<lambda>now. CreateNote now (note_draft.make ''n_one'' ''m_notes''
       ''notion-enhanced'' ''# notes'' ''/tmp/m_notes/notes.md'')) t);
     assert_that (nt_id n = ''n_one'');
     assert_that (nt_created_at n \<noteq> []);
     (rows, t) \<leftarrow> expect_notes (ask (\<lambda>_. ListNotesForMeeting ''m_notes'') t);
     assert_that (length rows = 1);
     assert_that (nt_id (rows ! 0) = ''n_one'');
     Some t
   }"

definition replace_meeting_note_replaces_existing :: "'t asks \<Rightarrow> 't \<Rightarrow> 't option" where
  "replace_meeting_note_replaces_existing ask t = do {
     (m, t) \<leftarrow> expect_meeting (ask (\<lambda>_. CreateMeeting
       (suite_draft ''m_replace_note'' ''Replace Note'' ''2026-05-05T10:00:00+00:00'')) t);
     (original, t) \<leftarrow> expect_note (ask (\<lambda>now. CreateNote now (note_draft.make ''n_original''
       ''m_replace_note'' ''notion-enhanced'' ''# original'' ''/tmp/m_replace_note/notes.md'')) t);
     (replaced, t) \<leftarrow> expect_note (ask (\<lambda>now. ReplaceMeetingNote now ''m_replace_note''
       (note_draft.make ''n_replaced'' ''m_replace_note'' ''basic'' ''# edited by user''
         ''/tmp/m_replace_note/notes.md'')) t);
     assert_that (nt_id replaced = ''n_replaced'');
     assert_that (nt_content_md replaced = ''# edited by user'');
     assert_that (nt_dialect replaced = ''basic'');
     assert_that (nt_created_at replaced \<noteq> []);
     assert_that (nt_created_at replaced \<ge> nt_created_at original);
     (rows, t) \<leftarrow> expect_notes (ask (\<lambda>_. ListNotesForMeeting ''m_replace_note'') t);
     assert_that (length rows = 1);
     assert_that (nt_id (rows ! 0) = ''n_replaced'');
     assert_that (nt_content_md (rows ! 0) = ''# edited by user'');
     t \<leftarrow> expect_unit (ask (\<lambda>_. DeleteMeeting ''m_replace_note'') t);
     (m2, t) \<leftarrow> expect_meeting (ask (\<lambda>_. CreateMeeting
       (suite_draft ''m_replace_note_fresh'' ''Fresh'' ''2026-05-05T11:00:00+00:00'')) t);
     (fresh, t) \<leftarrow> expect_note (ask (\<lambda>now. ReplaceMeetingNote now ''m_replace_note_fresh''
       (note_draft.make ''n_fresh'' ''m_replace_note_fresh'' ''basic'' ''# fresh''
         ''/tmp/m_fresh/notes.md'')) t);
     assert_that (nt_content_md fresh = ''# fresh'');
     (rows, t) \<leftarrow> expect_notes (ask (\<lambda>_. ListNotesForMeeting ''m_replace_note_fresh'') t);
     assert_that (length rows = 1);
     Some t
   }"

definition replace_meeting_note_unknown_meeting_is_not_found :: "'t asks \<Rightarrow> 't \<Rightarrow> 't option" where
  "replace_meeting_note_unknown_meeting_is_not_found ask t = do {
     (err, t) \<leftarrow> expect_err (ask (\<lambda>now. ReplaceMeetingNote now ''does-not-exist''
       (note_draft.make ''n_orphan'' ''does-not-exist'' ''basic'' ''x'' ''/tmp/x.md'')) t);
     assert_that (is_not_found ''meeting'' err);
     Some t
   }"

definition create_meeting_with_note_atomic_happy_path :: "'t asks \<Rightarrow> 't \<Rightarrow> 't option" where
  "create_meeting_with_note_atomic_happy_path ask t = do {
     (m, n, t) \<leftarrow> expect_meeting_note (ask (\<lambda>now. CreateMeetingWithNote now
       (meeting_draft.make ''m_atomic_ok'' ''Atomic OK'' ''2026-05-05T10:00:00+00:00'' ''auto''
         ''/tmp/m_atomic_ok'')
       (note_draft.make ''n_atomic_ok'' ''m_atomic_ok'' ''basic'' ''# atomic''
         ''/tmp/m_atomic_ok/notes.md'')
       (Some ''2026-05-05T10:30:00+00:00'') (Some 1800000)) t);
     assert_that (mt_id m = ''m_atomic_ok'');
     assert_that (mt_ended_at m = Some ''2026-05-05T10:30:00+00:00'');
     assert_that (mt_duration_ms m = Some 1800000);
     assert_that (nt_id n = ''n_atomic_ok'');
     assert_that (nt_meeting_id n = ''m_atomic_ok'');
     (notes, t) \<leftarrow> expect_notes (ask (\<lambda>_. ListNotesForMeeting ''m_atomic_ok'') t);
     assert_that (length notes = 1);
     Some t
   }"

definition create_meeting_with_note_rolls_back_on_note_collision :: "'t asks \<Rightarrow> 't \<Rightarrow> 't option" where
  "create_meeting_with_note_rolls_back_on_note_collision ask t = do {
     (pre, t) \<leftarrow> expect_meeting (ask (\<lambda>_. CreateMeeting (meeting_draft.make ''m_atomic_pre'' ''Pre''
       ''2026-05-05T10:00:00+00:00'' ''auto'' ''/tmp/m_atomic_pre'')) t);
     (n, t) \<leftarrow> expect_note (ask (\<lambda>now. CreateNote now (note_draft.make ''n_atomic_pre''
       ''m_atomic_pre'' ''basic'' ''pre'' ''/tmp/pre'')) t);
     (err, t) \<leftarrow> expect_err (ask (\<lambda>now. CreateMeetingWithNote now
       (meeting_draft.make ''m_atomic_rollback'' ''Rollback'' ''2026-05-05T10:00:00+00:00'' ''auto''
         ''/tmp/m_atomic_rollback'')
       (note_draft.make ''n_atomic_pre'' ''m_atomic_rollback'' ''basic'' ''should not commit''
         ''/tmp/m_atomic_rollback/notes.md'')
       None None) t);
     assert_that (exists_already ''note'' err);
     (look, t) \<leftarrow> expect_err (ask (\<lambda>_. GetMeeting ''m_atomic_rollback'') t);
     assert_that (not_found_any look);
     Some t
   }"

section \<open>Spaces, projects and tags\<close>

definition spaces_create_list_rename_delete :: "'t asks \<Rightarrow> 't \<Rightarrow> 't option" where
  "spaces_create_list_rename_delete ask t = do {
     (sp, t) \<leftarrow> expect_space (ask (\<lambda>now. CreateSpace now ''Work'') t);
     assert_that (sp_name sp = ''Work'');
     assert_that (sp_position sp \<ge> 0);
     t \<leftarrow> expect_unit (ask (\<lambda>_. RenameSpace (sp_id sp) ''Deep Work'') t);
     (spaces, t) \<leftarrow> expect_spaces (ask (\<lambda>_. ListSpaces) t);
     assert_that (list_ex (\<lambda>s. sp_id s = sp_id sp \<and> sp_name s = ''Deep Work'') spaces);
     t \<leftarrow> expect_unit (ask (\<lambda>_. DeleteSpace (sp_id sp)) t);
     (spaces, t) \<leftarrow> expect_spaces (ask (\<lambda>_. ListSpaces) t);
     assert_that (\<not> list_ex (\<lambda>s. sp_id s = sp_id sp) spaces);
     (err, t) \<leftarrow> expect_err (ask (\<lambda>_. RenameSpace (sp_id sp) ''Missing'') t);
     assert_that (is_not_found ''space'' err);
     Some t
   }"

definition projects_create_list_rename_delete :: "'t asks \<Rightarrow> 't \<Rightarrow> 't option" where
  "projects_create_list_rename_delete ask t = do {
     (space_a, t) \<leftarrow> expect_space (ask (\<lambda>now. CreateSpace now ''Projects A'') t);
     (space_b, t) \<leftarrow> expect_space (ask (\<lambda>now. CreateSpace now ''Projects B'') t);
     (project, t) \<leftarrow> expect_project (ask (\<lambda>now. CreateProject now (sp_id space_a) ''Launch'') t);
     (other, t) \<leftarrow> expect_project (ask (\<lambda>now. CreateProject now (sp_id space_b) ''Other'') t);
     assert_that (pj_space_id project = sp_id space_a);
     t \<leftarrow> expect_unit (ask (\<lambda>_. RenameProject (pj_id project) ''Renamed Launch'') t);
     (filtered, t) \<leftarrow> expect_projects (ask (\<lambda>_. ListProjects (Some (sp_id space_a))) t);
     assert_that (length filtered = 1);
     assert_that (pj_id (filtered ! 0) = pj_id project);
     assert_that (pj_name (filtered ! 0) = ''Renamed Launch'');
     (all, t) \<leftarrow> expect_projects (ask (\<lambda>_. ListProjects None) t);
     assert_that (list_ex (\<lambda>p. pj_id p = pj_id other) all);
     t \<leftarrow> expect_unit (ask (\<lambda>_. DeleteProject (pj_id project)) t);
     (filtered, t) \<leftarrow> expect_projects (ask (\<lambda>_. ListProjects (Some (sp_id space_a))) t);
     assert_that (filtered = []);
     (err, t) \<leftarrow> expect_err (ask (\<lambda>now. CreateProject now ''missing-space'' ''Nope'') t);
     assert_that (is_not_found ''space'' err);
     Some t
   }"

definition tags_create_list_delete_and_idempotent_name :: "'t asks \<Rightarrow> 't \<Rightarrow> 't option" where
  "tags_create_list_delete_and_idempotent_name ask t = do {
     (tag, t) \<leftarrow> expect_tag (ask (\<lambda>now. CreateTag now ''urgent'') t);
     (same, t) \<leftarrow> expect_tag (ask (\<lambda>now. CreateTag now ''urgent'') t);
     assert_that (tag = same);
     (tags, t) \<leftarrow> expect_tags (ask (\<lambda>_. ListTags) t);
     assert_that (list_ex (\<lambda>u. tg_id u = tg_id tag \<and> tg_name u = ''urgent'') tags);
     t \<leftarrow> expect_unit (ask (\<lambda>_. DeleteTag (tg_id tag)) t);
     (tags, t) \<leftarrow> expect_tags (ask (\<lambda>_. ListTags) t);
     assert_that (\<not> list_ex (\<lambda>u. tg_id u = tg_id tag) tags);
     Some t
   }"

definition tag_meeting_untag_and_list_tags_for_meeting :: "'t asks \<Rightarrow> 't \<Rightarrow> 't option" where
  "tag_meeting_untag_and_list_tags_for_meeting ask t = do {
     (m, t) \<leftarrow> expect_meeting (ask (\<lambda>_. CreateMeeting
       (suite_draft ''m_tagging'' ''Tagging'' ''2026-05-09T10:00:00+00:00'')) t);
     (tag, t) \<leftarrow> expect_tag (ask (\<lambda>now. CreateTag now ''customer'') t);
     t \<leftarrow> expect_unit (ask (\<lambda>_. TagMeeting ''m_tagging'' (tg_id tag)) t);
     t \<leftarrow> expect_unit (ask (\<lambda>_. TagMeeting ''m_tagging'' (tg_id tag)) t);
     (tags, t) \<leftarrow> expect_tags (ask (\<lambda>_. ListTagsForMeeting ''m_tagging'') t);
     assert_that (tags = [tag]);
     (summary, t) \<leftarrow> suite_summary ask ''m_tagging'' t;
     assert_that (ms_tags summary = [tg_id tag]);
     t \<leftarrow> expect_unit (ask (\<lambda>_. UntagMeeting ''m_tagging'' (tg_id tag)) t);
     (tags, t) \<leftarrow> expect_tags (ask (\<lambda>_. ListTagsForMeeting ''m_tagging'') t);
     assert_that (tags = []);
     (err, t) \<leftarrow> expect_err (ask (\<lambda>_. TagMeeting ''missing-meeting'' (tg_id tag)) t);
     assert_that (is_not_found ''meeting'' err);
     Some t
   }"

definition assign_meeting_handles_space_and_project_sets_space :: "'t asks \<Rightarrow> 't \<Rightarrow> 't option" where
  "assign_meeting_handles_space_and_project_sets_space ask t = do {
     (m, t) \<leftarrow> expect_meeting (ask (\<lambda>_. CreateMeeting
       (suite_draft ''m_assign'' ''Assign'' ''2026-05-10T10:00:00+00:00'')) t);
     (sp, t) \<leftarrow> expect_space (ask (\<lambda>now. CreateSpace now ''Assignments'') t);
     (project, t) \<leftarrow> expect_project (ask (\<lambda>now. CreateProject now (sp_id sp) ''Nested'') t);
     t \<leftarrow> expect_unit (ask (\<lambda>_. AssignMeeting ''m_assign'' (Some (sp_id sp)) None) t);
     (space_summary, t) \<leftarrow> suite_summary ask ''m_assign'' t;
     assert_that (ms_space_id space_summary = Some (sp_id sp));
     assert_that (ms_project_id space_summary = None);
     t \<leftarrow> expect_unit (ask (\<lambda>_. AssignMeeting ''m_assign'' None (Some (pj_id project))) t);
     (project_summary, t) \<leftarrow> suite_summary ask ''m_assign'' t;
     assert_that (ms_space_id project_summary = Some (sp_id sp));
     assert_that (ms_project_id project_summary = Some (pj_id project));
     t \<leftarrow> expect_unit (ask (\<lambda>_. AssignMeeting ''m_assign'' None None) t);
     (cleared_summary, t) \<leftarrow> suite_summary ask ''m_assign'' t;
     assert_that (ms_space_id cleared_summary = None);
     assert_that (ms_project_id cleared_summary = None);
     Some t
   }"

definition list_meetings_supports_org_filters :: "'t asks \<Rightarrow> 't \<Rightarrow> 't option" where
  "list_meetings_supports_org_filters ask t = do {
     (m1, t) \<leftarrow> expect_meeting (ask (\<lambda>_. CreateMeeting
       (suite_draft ''m_filter_inbox'' ''Inbox'' ''2026-05-11T10:00:00+00:00'')) t);
     (m2, t) \<leftarrow> expect_meeting (ask (\<lambda>_. CreateMeeting
       (suite_draft ''m_filter_space'' ''Space'' ''2026-05-12T10:00:00+00:00'')) t);
     (m3, t) \<leftarrow> expect_meeting (ask (\<lambda>_. CreateMeeting
       (suite_draft ''m_filter_project'' ''Project'' ''2026-05-13T10:00:00+00:00'')) t);
     (sp, t) \<leftarrow> expect_space (ask (\<lambda>now. CreateSpace now ''Filter Space'') t);
     (project, t) \<leftarrow> expect_project (ask (\<lambda>now. CreateProject now (sp_id sp) ''Filter Project'') t);
     (tag, t) \<leftarrow> expect_tag (ask (\<lambda>now. CreateTag now ''filter-tag'') t);
     t \<leftarrow> expect_unit (ask (\<lambda>_. AssignMeeting ''m_filter_space'' (Some (sp_id sp)) None) t);
     t \<leftarrow> expect_unit (ask (\<lambda>_. AssignMeeting ''m_filter_project'' None (Some (pj_id project))) t);
     t \<leftarrow> expect_unit (ask (\<lambda>_. TagMeeting ''m_filter_project'' (tg_id tag)) t);
     (inbox_rows, t) \<leftarrow> expect_summaries (ask (\<lambda>_. ListMeetingsFiltered
       (default_filter\<lparr>mf_unsorted := True\<rparr>)) t);
     assert_that (has_row ''m_filter_inbox'' inbox_rows);
     assert_that (\<not> list_ex (\<lambda>m. ms_id m = ''m_filter_space'' \<or> ms_id m = ''m_filter_project'')
       inbox_rows);
     (space_rows, t) \<leftarrow> expect_summaries (ask (\<lambda>_. ListMeetingsFiltered
       (default_filter\<lparr>mf_space_id := Some (sp_id sp)\<rparr>)) t);
     assert_that (has_row ''m_filter_space'' space_rows);
     assert_that (has_row ''m_filter_project'' space_rows);
     assert_that (\<not> has_row ''m_filter_inbox'' space_rows);
     (project_rows, t) \<leftarrow> expect_summaries (ask (\<lambda>_. ListMeetingsFiltered
       (default_filter\<lparr>mf_project_id := Some (pj_id project)\<rparr>)) t);
     assert_that (filter (contains [''m_filter_project'', ''m_filter_space'', ''m_filter_inbox''])
       (map ms_id project_rows) = [''m_filter_project'']);
     (tag_rows, t) \<leftarrow> expect_summaries (ask (\<lambda>_. ListMeetingsFiltered
       (default_filter\<lparr>mf_tag_id := Some (tg_id tag)\<rparr>)) t);
     assert_that (filter (contains [''m_filter_project'', ''m_filter_space'', ''m_filter_inbox''])
       (map ms_id tag_rows) = [''m_filter_project'']);
     Some t
   }"

definition deleting_org_rows_preserves_meetings_and_clears_refs :: "'t asks \<Rightarrow> 't \<Rightarrow> 't option" where
  "deleting_org_rows_preserves_meetings_and_clears_refs ask t = do {
     (m1, t) \<leftarrow> expect_meeting (ask (\<lambda>_. CreateMeeting
       (suite_draft ''m_delete_project_ref'' ''Project Ref'' ''2026-05-14T10:00:00+00:00'')) t);
     (m2, t) \<leftarrow> expect_meeting (ask (\<lambda>_. CreateMeeting
       (suite_draft ''m_delete_space_ref'' ''Space Ref'' ''2026-05-15T10:00:00+00:00'')) t);
     (project_space, t) \<leftarrow> expect_space (ask (\<lambda>now. CreateSpace now ''Delete Project Space'') t);
     (project, t) \<leftarrow> expect_project
       (ask (\<lambda>now. CreateProject now (sp_id project_space) ''Delete Me'') t);
     t \<leftarrow> expect_unit (ask (\<lambda>_. AssignMeeting ''m_delete_project_ref'' None (Some (pj_id project))) t);
     t \<leftarrow> expect_unit (ask (\<lambda>_. DeleteProject (pj_id project)) t);
     (project_summary, t) \<leftarrow> suite_summary ask ''m_delete_project_ref'' t;
     assert_that (ms_space_id project_summary = Some (sp_id project_space));
     assert_that (ms_project_id project_summary = None);
     (sp, t) \<leftarrow> expect_space (ask (\<lambda>now. CreateSpace now ''Delete Space'') t);
     (project, t) \<leftarrow> expect_project
       (ask (\<lambda>now. CreateProject now (sp_id sp) ''Deleted With Space'') t);
     t \<leftarrow> expect_unit (ask (\<lambda>_. AssignMeeting ''m_delete_space_ref'' None (Some (pj_id project))) t);
     t \<leftarrow> expect_unit (ask (\<lambda>_. DeleteSpace (sp_id sp)) t);
     (space_summary, t) \<leftarrow> suite_summary ask ''m_delete_space_ref'' t;
     assert_that (ms_space_id space_summary = None);
     assert_that (ms_project_id space_summary = None);
     (g1, t) \<leftarrow> expect_meeting (ask (\<lambda>_. GetMeeting ''m_delete_project_ref'') t);
     (g2, t) \<leftarrow> expect_meeting (ask (\<lambda>_. GetMeeting ''m_delete_space_ref'') t);
     Some t
   }"

section \<open>The suite\<close>

definition run_storage_suite :: "'t asks \<Rightarrow> 't \<Rightarrow> 't option" where
  "run_storage_suite ask t = do {
     t \<leftarrow> create_get_round_trip ask t;
     t \<leftarrow> create_duplicate_id_is_already_exists ask t;
     t \<leftarrow> create_duplicate_dir_path_is_unique_conflict ask t;
     t \<leftarrow> get_unknown_id_is_not_found ask t;
     t \<leftarrow> list_returns_started_at_desc ask t;
     t \<leftarrow> update_meeting_ended_writes_duration ask t;
     t \<leftarrow> rename_meeting_persists_title ask t;
     t \<leftarrow> delete_meeting_cascades_to_notes ask t;
     t \<leftarrow> create_and_list_notes_for_meeting ask t;
     t \<leftarrow> replace_meeting_note_replaces_existing ask t;
     t \<leftarrow> replace_meeting_note_unknown_meeting_is_not_found ask t;
     t \<leftarrow> create_meeting_with_note_atomic_happy_path ask t;
     t \<leftarrow> create_meeting_with_note_rolls_back_on_note_collision ask t;
     t \<leftarrow> spaces_create_list_rename_delete ask t;
     t \<leftarrow> projects_create_list_rename_delete ask t;
     t \<leftarrow> tags_create_list_delete_and_idempotent_name ask t;
     t \<leftarrow> tag_meeting_untag_and_list_tags_for_meeting ask t;
     t \<leftarrow> assign_meeting_handles_space_and_project_sets_space ask t;
     t \<leftarrow> list_meetings_supports_org_filters ask t;
     deleting_org_rows_preserves_meetings_and_clears_refs ask t
   }"

end
