(* ===== verification/Suite_Rules.thy ===== *)
theory Suite_Rules
  imports Storage_Suite Storage_Agreement
begin

text \<open>
  How the conformance suite of the storage port is verified: \<open>succeeds\<close> is the weakest precondition of
  a scenario, the locale \<open>naming_port\<close> adds to the storage port what the suite relies on beyond its
  specification (an identifier for a new space, project or tag can always be found, positions are not
  negative), and each method has one rule in it, from the registry before to the registry after.
\<close>

section \<open>Running to the end\<close>

definition succeeds :: "'a option \<Rightarrow> ('a \<Rightarrow> bool) \<Rightarrow> bool" where
  "succeeds x Q = (case x of None \<Rightarrow> False | Some y \<Rightarrow> Q y)"

lemma succeeds_simps [simp]:
  "succeeds (Some y) Q = Q y"
  "succeeds (Option.bind x f) Q = succeeds x (\<lambda>y. succeeds (f y) Q)"
  "succeeds (assert_that b) R = (b \<and> R ())"
  by (simp_all add: succeeds_def assert_that_def split: option.split bind_split)

lemma succeeds_mono: "succeeds x Q \<Longrightarrow> (\<And>y. Q y \<Longrightarrow> R y) \<Longrightarrow> succeeds x R"
  by (cases x) (simp_all add: succeeds_def)

lemma succeeds_Some: "succeeds x Q \<Longrightarrow> \<exists>y. x = Some y \<and> Q y"
  by (cases x) (simp_all add: succeeds_def)

section \<open>What a registry has in use\<close>

datatype taken = MeetingId string | DirPath string | NoteId string | TagName string

definition used :: "registry \<Rightarrow> taken set" where
  "used r = MeetingId ` dom (rg_meetings r) \<union> DirPath ` {p. dir_taken p r} \<union>
     NoteId ` dom (rg_notes r) \<union> TagName ` tg_name ` values_of (rg_tags r)"

lemma used_iff [simp]:
  "MeetingId i \<in> used r \<longleftrightarrow> rg_meetings r i \<noteq> None"
  "DirPath p \<in> used r \<longleftrightarrow> dir_taken p r"
  "NoteId i \<in> used r \<longleftrightarrow> rg_notes r i \<noteq> None"
  "TagName n \<in> used r \<longleftrightarrow> (\<exists>t \<in> values_of (rg_tags r). tg_name t = n)"
  by (auto simp: used_def)

definition within :: "taken set \<Rightarrow> registry \<Rightarrow> bool" where
  "within U r = (used r \<subseteq> U)"

lemma within_iff:
  "within U r \<longleftrightarrow> (\<forall>i. rg_meetings r i \<noteq> None \<longrightarrow> MeetingId i \<in> U) \<and>
     (\<forall>k m. rg_meetings r k = Some m \<longrightarrow> DirPath (mt_dir_path m) \<in> U) \<and>
     (\<forall>i. rg_notes r i \<noteq> None \<longrightarrow> NoteId i \<in> U) \<and>
     (\<forall>k t. rg_tags r k = Some t \<longrightarrow> TagName (tg_name t) \<in> U)"
proof -
  have "used r \<subseteq> U \<longleftrightarrow> (\<forall>x \<in> dom (rg_meetings r). MeetingId x \<in> U) \<and>
      (\<forall>p \<in> {p. dir_taken p r}. DirPath p \<in> U) \<and> (\<forall>x \<in> dom (rg_notes r). NoteId x \<in> U) \<and>
      (\<forall>t \<in> values_of (rg_tags r). TagName (tg_name t) \<in> U)"
    unfolding used_def image_image by (simp only: Un_subset_iff image_subset_iff conj_assoc)
  moreover have "(\<forall>p \<in> {p. dir_taken p r}. DirPath p \<in> U) \<longleftrightarrow>
      (\<forall>k m. rg_meetings r k = Some m \<longrightarrow> DirPath (mt_dir_path m) \<in> U)"
    unfolding dir_taken_def by blast
  moreover have "(\<forall>t \<in> values_of (rg_tags r). TagName (tg_name t) \<in> U) \<longleftrightarrow>
      (\<forall>k t. rg_tags r k = Some t \<longrightarrow> TagName (tg_name t) \<in> U)"
    unfolding values_of_def by blast
  ultimately show ?thesis
    unfolding within_def by (simp only: dom_def mem_Collect_eq Ball_Collect [symmetric]) (simp add: Ball_def)
qed

lemma within_refl: "within (used r \<union> V) r"
  by (simp add: within_def)

lemma within_changes [simp]:
  "within U r \<Longrightarrow> MeetingId (mt_id m) \<in> U \<Longrightarrow> DirPath (mt_dir_path m) \<in> U \<Longrightarrow>
     within U (reg_add_meeting m r)"
  "within U r \<Longrightarrow> NoteId (nt_id n) \<in> U \<Longrightarrow> within U (reg_add_note n r)"
  "within U r \<Longrightarrow> within U (reg_drop_notes i r)"
  "within U r \<Longrightarrow> within U (reg_delete_meeting i r)"
  "within U r \<Longrightarrow> within U (reg_delete_projects P r)"
  "within U r \<Longrightarrow> within U (reg_delete_space i r)"
  "within U r \<Longrightarrow> within U (reg_delete_tag i r)"
  "within U r \<Longrightarrow> within U (reg_place i sp p r)"
  "within U r \<Longrightarrow> within U (r\<lparr>rg_spaces := sps\<rparr>)"
  "within U r \<Longrightarrow> within U (r\<lparr>rg_projects := pjs\<rparr>)"
  "within U r \<Longrightarrow> within U (r\<lparr>rg_links := ls\<rparr>)"
  "within U r \<Longrightarrow> TagName (tg_name t) \<in> U \<Longrightarrow> tm = rg_tags r \<Longrightarrow>
     within U (r\<lparr>rg_tags := tm(i \<mapsto> t)\<rparr>)"
  by (auto simp: within_iff reg_add_meeting_def reg_add_note_def reg_drop_notes_def
      reg_delete_meeting_def reg_delete_projects_def reg_delete_space_def reg_delete_tag_def
      reg_place_def keep_only_Some Let_def)

section \<open>The registry after a change\<close>

lemma add_meeting_sel [simp]:
  "rg_meetings (reg_add_meeting m r) = (rg_meetings r)(mt_id m \<mapsto> m)"
  "rg_spaces (reg_add_meeting m r) = rg_spaces r" "rg_projects (reg_add_meeting m r) = rg_projects r"
  "rg_links (reg_add_meeting m r) = rg_links r"
  "rg_space_of (reg_add_meeting m r) = rg_space_of r"
  "rg_project_of (reg_add_meeting m r) = rg_project_of r"
  by (simp_all add: reg_add_meeting_def)

lemma add_note_sel [simp]:
  "rg_notes (reg_add_note n r) = (rg_notes r)(nt_id n \<mapsto> n)"
  "rg_meetings (reg_add_note n r) = rg_meetings r" "rg_spaces (reg_add_note n r) = rg_spaces r"
  "rg_projects (reg_add_note n r) = rg_projects r" "rg_tags (reg_add_note n r) = rg_tags r"
  "rg_links (reg_add_note n r) = rg_links r" "rg_space_of (reg_add_note n r) = rg_space_of r"
  "rg_project_of (reg_add_note n r) = rg_project_of r"
  by (simp_all add: reg_add_note_def)

lemma drop_notes_sel [simp]:
  "rg_meetings (reg_drop_notes i r) = rg_meetings r" "rg_tags (reg_drop_notes i r) = rg_tags r"
  "rg_space_of (reg_drop_notes i r) = rg_space_of r"
  by (simp_all add: reg_drop_notes_def)

lemma delete_meeting_sel [simp]:
  "rg_meetings (reg_delete_meeting i r) = (rg_meetings r)(i := None)"
  "rg_notes (reg_delete_meeting i r) = rg_notes (reg_drop_notes i r)"
  "rg_tags (reg_delete_meeting i r) = rg_tags r"
  by (simp_all add: reg_delete_meeting_def reg_drop_notes_def)

lemma place_sel [simp]:
  "rg_meetings (reg_place i sp p r) = rg_meetings r" "rg_notes (reg_place i sp p r) = rg_notes r"
  "rg_spaces (reg_place i sp p r) = rg_spaces r" "rg_projects (reg_place i sp p r) = rg_projects r"
  "rg_tags (reg_place i sp p r) = rg_tags r" "rg_links (reg_place i sp p r) = rg_links r"
  "rg_space_of (reg_place i sp p r) = (rg_space_of r)(i := sp)"
  "rg_project_of (reg_place i sp p r) = (rg_project_of r)(i := p)"
  by (simp_all add: reg_place_def)

lemma delete_projects_sel [simp]:
  "rg_meetings (reg_delete_projects P r) = rg_meetings r"
  "rg_spaces (reg_delete_projects P r) = rg_spaces r"
  "rg_projects (reg_delete_projects P r) = keep_only (\<lambda>p. \<not> P p) (rg_projects r)"
  "rg_tags (reg_delete_projects P r) = rg_tags r"
  "rg_space_of (reg_delete_projects P r) = rg_space_of r"
  "rg_project_of (reg_delete_projects P r) =
     keep_only (\<lambda>i. \<forall>p. rg_projects r i = Some p \<longrightarrow> \<not> P p) (rg_project_of r)"
  by (simp_all add: reg_delete_projects_def)

lemma delete_space_sel [simp]:
  "rg_meetings (reg_delete_space i r) = rg_meetings r"
  "rg_spaces (reg_delete_space i r) = (rg_spaces r)(i := None)"
  "rg_tags (reg_delete_space i r) = rg_tags r"
  "rg_space_of (reg_delete_space i r) = keep_only (\<lambda>sp. sp \<noteq> i) (rg_space_of r)"
  "rg_project_of (reg_delete_space i r) =
     rg_project_of (reg_delete_projects (\<lambda>p. pj_space_id p = i) r)"
  by (simp_all add: reg_delete_space_def Let_def)

lemma delete_tag_sel [simp]:
  "rg_tags (reg_delete_tag i r) = (rg_tags r)(i := None)"
  by (simp add: reg_delete_tag_def)

lemma dir_taken_changes [simp]:
  "rg_meetings r (mt_id m) = None \<Longrightarrow>
     dir_taken p (reg_add_meeting m r) \<longleftrightarrow> p = mt_dir_path m \<or> dir_taken p r"
  "dir_taken p (reg_add_note n r) = dir_taken p r"
  "dir_taken p (reg_drop_notes i r) = dir_taken p r"
  unfolding dir_taken_def by (auto; metis option.distinct(1))+

lemma dir_taken_deleted [simp]: "\<not> dir_taken p r \<Longrightarrow> \<not> dir_taken p (reg_delete_meeting i r)"
  by (auto simp: dir_taken_def)

lemma keep_only_None [simp]: "m k = None \<Longrightarrow> keep_only P m k = None"
  by (simp add: keep_only_def)

lemma keep_only_at [simp]: "m k = Some v \<Longrightarrow> keep_only P m k = (if P v then Some v else None)"
  by (simp add: keep_only_def)

text \<open>The notes of a meeting.\<close>

definition notes_of :: "registry \<Rightarrow> string \<Rightarrow> meeting_note set" where
  "notes_of r i = {n \<in> values_of (rg_notes r). nt_meeting_id n = i}"

lemma registry_ok_noteD: "registry_ok r \<Longrightarrow> rg_notes r k = Some n \<Longrightarrow> rg_meetings r (nt_meeting_id n) \<noteq> None"
  unfolding registry_ok_def by blast

lemma notes_of_fresh: "registry_ok r \<Longrightarrow> rg_meetings r i = None \<Longrightarrow> notes_of r i = {}"
  by (auto simp: notes_of_def values_of_def dest: registry_ok_noteD)

lemma notes_of_changes [simp]:
  "notes_of (reg_add_meeting m r) i = notes_of r i"
  "rg_notes r (nt_id n) = None \<Longrightarrow> notes_of (reg_add_note n r) i =
     (if nt_meeting_id n = i then insert n (notes_of r i) else notes_of r i)"
  "notes_of (reg_drop_notes j r) i = (if i = j then {} else notes_of r i)"
  "notes_of (reg_delete_meeting j r) i = (if i = j then {} else notes_of r i)"
  unfolding notes_of_def values_of_def
  by (auto simp: reg_drop_notes_def keep_only_Some; metis option.distinct(1))+

lemma drop_notes_None [simp]: "rg_notes r i = None \<Longrightarrow> rg_notes (reg_drop_notes j r) i = None"
  by (simp add: reg_drop_notes_def keep_only_def)

lemma drop_notes_own [simp]:
  "nt_meeting_id n = j \<Longrightarrow> rg_notes (reg_drop_notes j (reg_add_note n r)) (nt_id n) = None"
  by (simp add: reg_drop_notes_def keep_only_def)

section \<open>Listings\<close>

text \<open>What a listing of meetings holds, in the form the checks of the suite ask for.\<close>

definition listing :: "registry \<Rightarrow> (meeting \<Rightarrow> bool) \<Rightarrow> meeting_summary list \<Rightarrow> bool" where
  "listing r P xs \<longleftrightarrow> registry_ok r \<and> sorted (rev (map ms_started_at xs)) \<and> distinct xs \<and>
     set xs = summary_of r ` {m \<in> values_of (rg_meetings r). P m}"

lemma summary_of_sel [simp]:
  "ms_id (summary_of r m) = mt_id m" "ms_title (summary_of r m) = mt_title m"
  "ms_started_at (summary_of r m) = mt_started_at m" "ms_ended_at (summary_of r m) = mt_ended_at m"
  "ms_duration_ms (summary_of r m) = (case mt_duration_ms m of None \<Rightarrow> 0 | Some d \<Rightarrow> d)"
  "ms_language (summary_of r m) = mt_language m"
  "ms_has_notes (summary_of r m) = (notes_of r (mt_id m) \<noteq> {})"
  "ms_space_id (summary_of r m) = rg_space_of r (mt_id m)"
  "ms_project_id (summary_of r m) = rg_project_of r (mt_id m)"
  "ms_tags (summary_of r m) = sorted_list_of_set {t. (mt_id m, t) \<in> rg_links r}"
  by (auto simp: summary_of_def notes_of_def values_of_def)

lemma listing_at:
  assumes "listing r P xs"
  shows "x \<in> set xs \<and> ms_id x = i \<longleftrightarrow>
    (\<exists>m. rg_meetings r i = Some m \<and> P m \<and> x = summary_of r m)"
proof -
  have ok: "registry_ok r" and xs: "set xs = summary_of r ` {m \<in> values_of (rg_meetings r). P m}"
    using assms unfolding listing_def by blast+
  have key: "mt_id m = k" if "rg_meetings r k = Some m" for k m
    using registry_ok_meetingD [OF ok that] .
  have "x \<in> set xs \<longleftrightarrow> (\<exists>k m. rg_meetings r k = Some m \<and> P m \<and> x = summary_of r m)"
    unfolding xs values_of_def by blast
  also have "\<dots> \<and> ms_id x = i \<longleftrightarrow> (\<exists>m. rg_meetings r i = Some m \<and> P m \<and> x = summary_of r m)"
    using key summary_of_sel(1) by metis
  finally show ?thesis .
qed

lemma listing_ids:
  assumes "listing r P xs"
  shows "i \<in> ms_id ` set xs \<longleftrightarrow> rg_meetings r i \<noteq> None \<and> P (the (rg_meetings r i))"
proof -
  have "i \<in> ms_id ` set xs \<longleftrightarrow> (\<exists>x. x \<in> set xs \<and> ms_id x = i)"
    by blast
  also have "\<dots> \<longleftrightarrow> (\<exists>m. rg_meetings r i = Some m \<and> P m)"
    unfolding listing_at [OF assms] by blast
  also have "\<dots> \<longleftrightarrow> rg_meetings r i \<noteq> None \<and> P (the (rg_meetings r i))"
    by (cases "rg_meetings r i") simp_all
  finally show ?thesis .
qed

lemma listing_has [simp]:
  assumes "listing r P xs"
  shows "list_ex (\<lambda>m. ms_id m = i) xs \<longleftrightarrow> rg_meetings r i \<noteq> None \<and> P (the (rg_meetings r i))"
  using listing_ids [OF assms, of i] by (auto simp: list_ex_iff)

lemma list_ex_or [simp]: "list_ex (\<lambda>x. P x \<or> R x) xs \<longleftrightarrow> list_ex P xs \<or> list_ex R xs"
  by (auto simp: list_ex_iff)

lemma listing_find [simp]:
  assumes "listing r P xs" and "rg_meetings r i \<noteq> None" and "P (the (rg_meetings r i))"
  shows "List.find (\<lambda>m. ms_id m = i) xs = Some (summary_of r (the (rg_meetings r i)))"
proof -
  have "\<exists>x \<in> set xs. ms_id x = i"
    using listing_ids [OF assms(1), of i] assms(2,3) by (auto simp: image_iff)
  then obtain x where x: "List.find (\<lambda>m. ms_id m = i) xs = Some x"
    by (cases "List.find (\<lambda>m. ms_id m = i) xs") (auto simp: find_None_iff)
  then have "x \<in> set xs \<and> ms_id x = i"
    by (auto simp: find_Some_iff)
  with x show ?thesis
    unfolding listing_at [OF assms(1)] by auto
qed

lemma listing_distinct_ids:
  assumes "listing r P xs"
  shows "distinct (map ms_id xs)"
proof -
  have "inj_on ms_id (set xs)"
  proof (rule inj_onI)
    fix x y
    assume "x \<in> set xs" "y \<in> set xs" "ms_id x = ms_id y"
    then show "x = y"
      using listing_at [OF assms, of x "ms_id x"] listing_at [OF assms, of y "ms_id x"] by auto
  qed
  with assms show ?thesis
    by (simp add: listing_def distinct_map)
qed

lemma listing_only [simp]:
  assumes "listing r P xs"
    and "filter (\<lambda>i. rg_meetings r i \<noteq> None \<and> P (the (rg_meetings r i))) ys = [p]"
  shows "filter (contains ys) (map ms_id xs) = [p]"
proof -
  have "set (filter (contains ys) (map ms_id xs)) =
      set (filter (\<lambda>i. rg_meetings r i \<noteq> None \<and> P (the (rg_meetings r i))) ys)"
    using listing_ids [OF assms(1)] by (auto simp: contains_def)
  then have "set (filter (contains ys) (map ms_id xs)) = {p}"
    by (simp only: assms(2) list.set)
  then show ?thesis
    using listing_distinct_ids [OF assms(1)] by (intro distinct_singleton) simp_all
qed

lemma same_order:
  fixes f :: "'a \<Rightarrow> 'b :: linorder"
  assumes "distinct xs" "distinct ys" "set xs = set ys" "inj_on f (set ys)"
    and "sorted (rev (map f xs))" "sorted (rev (map f ys))"
  shows "xs = ys"
proof -
  have d: "distinct (rev (map f xs))" "distinct (rev (map f ys))"
    using assms(1-4) by (simp_all add: distinct_map)
  have "rev (map f xs) = rev (map f ys)"
    by (rule sorted_distinct_set_unique [OF assms(5) d(1) assms(6) d(2)]) (simp add: assms(3))
  then show ?thesis
    using assms(3,4) by (simp add: inj_on_map_eq_map)
qed

lemma listing_order:
  fixes r :: registry
  defines "f \<equiv> \<lambda>i. mt_started_at (the (rg_meetings r i))"
  assumes "listing r P xs" and "distinct ys"
    and "list_all (\<lambda>i. rg_meetings r i \<noteq> None \<and> P (the (rg_meetings r i))) ys"
    and "distinct (map f ys)" and "sorted (rev (map f ys))" and "set zs = set ys"
  shows "filter (contains zs) (map ms_id xs) = ys"
proof (rule same_order [of _ _ f])
  have in_ys: "contains zs = (\<lambda>i. i \<in> set ys)"
    by (simp add: contains_def fun_eq_iff assms(7))
  show "set (filter (contains zs) (map ms_id xs)) = set ys"
    unfolding in_ys using assms(4) listing_ids [OF assms(2)] by (auto simp: list_all_iff)
  have "ms_started_at x = f (ms_id x)" if "x \<in> set xs" for x
    using that listing_at [OF assms(2), of x "ms_id x"] by (force simp: f_def)
  then have eq: "map f (map ms_id xs) = map ms_started_at xs"
    by simp
  have "sorted (rev (map f (map ms_id xs)))"
    unfolding eq using assms(2) by (simp add: listing_def)
  then have "sorted_wrt (\<lambda>x y. f y \<le> f x) (map ms_id xs)"
    by (simp add: sorted_wrt_rev sorted_map rev_map sorted_wrt_map)
  then show "sorted (rev (map f (filter (contains zs) (map ms_id xs))))"
    by (simp add: sorted_wrt_rev rev_map sorted_wrt_map sorted_wrt_filter del: filter_map)
qed (use assms(3,5,6) listing_distinct_ids [OF assms(2)] in \<open>simp_all add: distinct_map\<close>)

section \<open>Rows of the other tables\<close>

definition rows :: "('v \<Rightarrow> string) \<Rightarrow> (string \<rightharpoonup> 'v) \<Rightarrow> 'v list \<Rightarrow> bool" where
  "rows key m xs = (keyed key m \<and> set xs = values_of m)"

lemma rows_at:
  assumes "rows key m xs"
  shows "list_ex (\<lambda>x. key x = i \<and> P x) xs \<longleftrightarrow> (\<exists>x. m i = Some x \<and> P x)"
  using assms unfolding rows_def list_ex_iff keyed_def values_of_def by fastforce

lemma rows_has [simp]:
  "rows sp_id m1 xs \<Longrightarrow> list_ex (\<lambda>x. sp_id x = i \<and> P x) xs \<longleftrightarrow> (\<exists>x. m1 i = Some x \<and> P x)"
  "rows sp_id m1 xs \<Longrightarrow> list_ex (\<lambda>x. sp_id x = i) xs \<longleftrightarrow> m1 i \<noteq> None"
  "rows pj_id m2 ys \<Longrightarrow> list_ex (\<lambda>x. pj_id x = i) ys \<longleftrightarrow> m2 i \<noteq> None"
  "rows tg_id m3 zs \<Longrightarrow> list_ex (\<lambda>x. tg_id x = i \<and> R x) zs \<longleftrightarrow> (\<exists>x. m3 i = Some x \<and> R x)"
  "rows tg_id m3 zs \<Longrightarrow> list_ex (\<lambda>x. tg_id x = i) zs \<longleftrightarrow> m3 i \<noteq> None"
  using rows_at [of sp_id m1 xs i P] rows_at [of sp_id m1 xs i "\<lambda>_. True"]
    rows_at [of pj_id m2 ys i "\<lambda>_. True"] rows_at [of tg_id m3 zs i R]
    rows_at [of tg_id m3 zs i "\<lambda>_. True"]
  by simp_all

lemma if_None_iff [simp]:
  "(if j = k then Some v else x) = None \<longleftrightarrow> j \<noteq> k \<and> k \<noteq> j \<and> x = None"
  by auto

lemma values_of_upd [simp]: "m k = None \<Longrightarrow> values_of (m(k \<mapsto> v)) = insert v (values_of m)"
  by (auto simp: values_of_def split: if_splits) (metis option.distinct(1))

text \<open>The projects of a space.\<close>

definition projects_in :: "(string \<rightharpoonup> project) \<Rightarrow> string \<Rightarrow> project set" where
  "projects_in m a = {p \<in> values_of m. pj_space_id p = a}"

definition kept :: "('v \<Rightarrow> bool) \<Rightarrow> 'v set \<Rightarrow> 'v set" where
  "kept P A = {x \<in> A. P x}"

lemma kept_simps [simp]:
  "kept P {} = {}" "kept P (insert x A) = (if P x then insert x (kept P A) else kept P A)"
  by (auto simp: kept_def)

lemma kept_none [simp]: "\<forall>x \<in> A. \<not> P x \<Longrightarrow> kept P A = {}"
  by (auto simp: kept_def)

lemma projects_in_simps [simp]:
  "projects_in (m(k \<mapsto> p)) a =
     (if pj_space_id p = a then insert p (projects_in (m(k := None)) a)
      else projects_in (m(k := None)) a)"
  "projects_in ((m(j \<mapsto> p))(k := None)) a =
     (if j = k then projects_in (m(k := None)) a else projects_in ((m(k := None))(j \<mapsto> p)) a)"
  "m k = None \<Longrightarrow> projects_in (m(k := None)) a = projects_in m a"
  "projects_in (keep_only P m) a = kept P (projects_in m a)"
  by (auto simp: projects_in_def values_of_def keep_only_Some kept_def fun_upd_idem fun_upd_twist
      split: if_splits)

lemma registry_ok_spaceD: "registry_ok r \<Longrightarrow> rg_projects r k = Some p \<Longrightarrow> rg_spaces r (pj_space_id p) \<noteq> None"
  unfolding registry_ok_def by blast

lemma projects_fresh: "registry_ok r \<Longrightarrow> rg_spaces r a = None \<Longrightarrow> projects_in (rg_projects r) a = {}"
  by (auto simp: projects_in_def values_of_def dest: registry_ok_spaceD)

end
