(* ===== verification/Suite_Port.thy ===== *)
theory Suite_Port
  imports Suite_Rules
begin

text \<open>
  The locale \<open>naming_port\<close> and in it one rule for each method of the trait as the suite calls it:
  from the registry before, the reply the suite expects and the registry after. \<open>ready n\<close> are the
  states of an adapter in which \<open>n\<close> more identifiers can be found.
\<close>

definition holds ::
  "(nat \<Rightarrow> 's \<Rightarrow> bool) \<Rightarrow> ('s \<Rightarrow> registry) \<Rightarrow> nat \<Rightarrow> registry \<Rightarrow> 's \<times> nat \<Rightarrow> bool" where
  "holds ready abs_of n r t = (ready n (fst t) \<and> abs_of (fst t) = r)"

locale naming_port = storage_port +
  fixes ready :: "nat \<Rightarrow> 's \<Rightarrow> bool"
  assumes ready_init: "ready 64 init"
    and ready_ok: "ready n s \<Longrightarrow> ok s"
    and ready_registry: "ready n s \<Longrightarrow> registry_ok (abs_of s)"
    and ready_step: "ready n s \<Longrightarrow> call_ok c \<Longrightarrow> no_new_id c \<Longrightarrow> ready n (snd (exec c s))"
    and ready_mint: "ready (Suc n) s \<Longrightarrow> \<not> no_new_id c \<Longrightarrow> ready n (snd (exec c s))"
    and mints: "ready (Suc n) s \<Longrightarrow> \<not> no_new_id c \<Longrightarrow> fst (exec c s) \<noteq> RErr (StSql m)"
    and positions: "ready n s \<Longrightarrow> rg_spaces (abs_of s) i = Some sp \<Longrightarrow> 0 \<le> sp_position sp"
    and space_names: "ready n s \<Longrightarrow> rg_spaces (abs_of s) i \<noteq> None \<Longrightarrow> \<exists>x. i = ''space_'' @ x"
begin

lemma holds_registry_ok: "holds ready abs_of n r t \<Longrightarrow> registry_ok r"
  using ready_registry by (auto simp: holds_def)

text \<open>A call, and a call that asks for a new identifier.\<close>

lemma step:
  assumes "holds ready abs_of n r t" and "call_ok (c (clk (snd t)))" and "no_new_id (c (clk (snd t)))"
    and "\<And>x r' t'. spec (c (clk (snd t))) r x r' \<Longrightarrow> holds ready abs_of n r' t' \<Longrightarrow>
      snd t' = Suc (snd t) \<Longrightarrow> succeeds (E (x, t')) Q"
  shows "succeeds (E (timed exec clk c t)) Q"
proof -
  let ?c = "c (clk (snd t))"
  obtain x s where x: "exec ?c (fst t) = (x, s)"
    by fastforce
  have r: "ready n (fst t)" "abs_of (fst t) = r"
    using assms(1) by (simp_all add: holds_def)
  have "spec ?c r x (abs_of s)"
    using exec_spec [OF ready_ok [OF r(1)] assms(2)] x r(2) by simp
  moreover have "ready n s"
    using ready_step [OF r(1) assms(2,3)] x by simp
  ultimately show ?thesis
    using assms(4) [of x "abs_of s" "(s, Suc (snd t))"] x by (simp add: timed_def holds_def)
qed

lemma mint:
  assumes "holds ready abs_of (Suc n) r t" and "\<not> no_new_id (c (clk (snd t)))"
    and "\<And>x r' t'. spec (c (clk (snd t))) r x r' \<Longrightarrow> (\<And>m. x \<noteq> RErr (StSql m)) \<Longrightarrow>
      holds ready abs_of n r' t' \<Longrightarrow> succeeds (E (x, t')) Q"
  shows "succeeds (E (timed exec clk c t)) Q"
proof -
  let ?c = "c (clk (snd t))"
  obtain x s where x: "exec ?c (fst t) = (x, s)"
    by fastforce
  have r: "ready (Suc n) (fst t)" "abs_of (fst t) = r"
    using assms(1) by (simp_all add: holds_def)
  have "call_ok ?c"
    using assms(2) by (cases ?c) simp_all
  then have "spec ?c r x (abs_of s)"
    using exec_spec [OF ready_ok [OF r(1)]] x r(2) by fastforce
  moreover have "ready n s"
    using ready_mint [OF r(1) assms(2)] x by simp
  ultimately show ?thesis
    using assms(3) [of x "abs_of s" "(s, Suc (snd t))"] mints [OF r(1) assms(2)] x
    by (simp add: timed_def holds_def)
qed

section \<open>Meetings and notes\<close>

lemma create_meeting:
  assumes "holds ready abs_of n r t" and "rg_meetings r (md_id d) = None \<and> \<not> dir_taken (md_dir_path d) r"
    and "\<And>t'. holds ready abs_of n (reg_add_meeting (meeting_of_draft d None None) r) t' \<Longrightarrow>
      Q (meeting_of_draft d None None, t')"
  shows "succeeds (expect_meeting (timed exec clk (\<lambda>_. CreateMeeting d) t)) Q"
  by (rule step [OF assms(1)]) (use assms(2,3) in \<open>auto simp: insert_errors_empty Let_def\<close>)

lemma create_meeting_again:
  assumes "holds ready abs_of n r t" and "insert_errors d r = {e}"
    and "\<And>t'. holds ready abs_of n r t' \<Longrightarrow> Q (e, t')"
  shows "succeeds (expect_err (timed exec clk (\<lambda>_. CreateMeeting d) t)) Q"
  by (rule step [OF assms(1)]) (use assms(2,3) in \<open>auto simp: Let_def\<close>)

lemma create_meeting_silent:
  assumes "holds ready abs_of n r t" and "rg_meetings r (md_id d) = None \<and> \<not> dir_taken (md_dir_path d) r"
    and "\<And>t'. holds ready abs_of n (reg_add_meeting (meeting_of_draft d None None) r) t' \<Longrightarrow>
      succeeds (F t') Q"
  shows "succeeds (F (snd (timed exec clk (\<lambda>_. CreateMeeting d) t))) Q"
  by (rule step [OF assms(1)]) (use assms(2,3) in \<open>auto simp: insert_errors_empty Let_def\<close>)

lemma get_stored_meeting:
  assumes "holds ready abs_of n r t" and "rg_meetings r i = Some m"
    and "\<And>t'. holds ready abs_of n r t' \<Longrightarrow> Q (m, t')"
  shows "succeeds (expect_meeting (timed exec clk (\<lambda>_. GetMeeting i) t)) Q"
  by (rule step [OF assms(1)]) (use assms(2,3) in \<open>auto simp: guarded_def\<close>)

lemma get_missing:
  assumes "holds ready abs_of n r t" and "rg_meetings r i = None"
    and "\<And>t'. holds ready abs_of n r t' \<Longrightarrow> Q (StNotFound i ''meeting'', t')"
  shows "succeeds (expect_err (timed exec clk (\<lambda>_. GetMeeting i) t)) Q"
  by (rule step [OF assms(1)]) (use assms(2,3) in \<open>auto simp: guarded_def\<close>)

lemma update_meeting_ended:
  assumes "holds ready abs_of n r t" and "rg_meetings r i \<noteq> None \<and> d < 2 ^ 63"
    and "\<And>m t'. m = (the (rg_meetings r i))\<lparr>mt_ended_at := Some e, mt_duration_ms := Some d\<rparr> \<Longrightarrow>
      holds ready abs_of n (reg_add_meeting m r) t' \<Longrightarrow> Q (m, t')"
  shows "succeeds (expect_meeting (timed exec clk (\<lambda>_. UpdateMeetingEnded i e d) t)) Q"
  by (rule step [OF assms(1)]) (use assms(2,3) in \<open>auto simp: guarded_def Let_def\<close>)

lemma rename_meeting:
  assumes "holds ready abs_of n r t" and "rg_meetings r i \<noteq> None"
    and "\<And>m t'. m = (the (rg_meetings r i))\<lparr>mt_title := x\<rparr> \<Longrightarrow>
      holds ready abs_of n (reg_add_meeting m r) t' \<Longrightarrow> Q (m, t')"
  shows "succeeds (expect_meeting (timed exec clk (\<lambda>_. RenameMeeting i x) t)) Q"
  by (rule step [OF assms(1)]) (use assms(2,3) in \<open>auto simp: guarded_def Let_def\<close>)

lemma rename_missing:
  assumes "holds ready abs_of n r t" and "rg_meetings r i = None"
    and "\<And>t'. holds ready abs_of n r t' \<Longrightarrow> Q (StNotFound i ''meeting'', t')"
  shows "succeeds (expect_err (timed exec clk (\<lambda>_. RenameMeeting i x) t)) Q"
  by (rule step [OF assms(1)]) (use assms(2,3) in \<open>auto simp: guarded_def\<close>)

lemma delete_meeting:
  assumes "holds ready abs_of n r t" and "rg_meetings r i \<noteq> None"
    and "\<And>t'. holds ready abs_of n (reg_delete_meeting i r) t' \<Longrightarrow> Q t'"
  shows "succeeds (expect_unit (timed exec clk (\<lambda>_. DeleteMeeting i) t)) Q"
  by (rule step [OF assms(1)]) (use assms(2,3) in \<open>auto simp: guarded_def\<close>)

lemma create_note:
  assumes "holds ready abs_of n r t"
    and "rg_meetings r (nd_meeting_id d) \<noteq> None \<and> rg_notes r (nd_id d) = None"
    and "\<And>nt t'. nt = note_of_draft d (ck_rfc3339 (clk (snd t))) \<Longrightarrow>
      holds ready abs_of n (reg_add_note nt r) t' \<Longrightarrow> snd t' = Suc (snd t) \<Longrightarrow> Q (nt, t')"
  shows "succeeds (expect_note (timed exec clk (\<lambda>now. CreateNote now d) t)) Q"
  by (rule step [OF assms(1)]) (use assms(2,3) in \<open>auto simp: guarded_def Let_def\<close>)

lemma replace_meeting_note:
  assumes "holds ready abs_of n r t"
    and "nd_meeting_id d = i \<and> rg_meetings r i \<noteq> None \<and>
      rg_notes (reg_drop_notes i r) (nd_id d) = None"
    and "\<And>nt t'. nt = note_of_draft d (ck_rfc3339 (clk (snd t))) \<Longrightarrow>
      holds ready abs_of n (reg_add_note nt (reg_drop_notes i r)) t' \<Longrightarrow> Q (nt, t')"
  shows "succeeds (expect_note (timed exec clk (\<lambda>now. ReplaceMeetingNote now i d) t)) Q"
  by (rule step [OF assms(1)]) (use assms(2,3) in \<open>auto simp: guarded_def Let_def\<close>)

lemma replace_missing:
  assumes "holds ready abs_of n r t" and "nd_meeting_id d = i \<and> rg_meetings r i = None"
    and "\<And>t'. holds ready abs_of n r t' \<Longrightarrow> Q (StNotFound i ''meeting'', t')"
  shows "succeeds (expect_err (timed exec clk (\<lambda>now. ReplaceMeetingNote now i d) t)) Q"
  by (rule step [OF assms(1)]) (use assms(2,3) in \<open>auto simp: guarded_def Let_def\<close>)

lemma list_notes:
  assumes "holds ready abs_of n r t" and "notes_of r i = set ns \<and> length ns \<le> 1"
    and "\<And>t'. holds ready abs_of n r t' \<Longrightarrow> Q (ns, t')"
  shows "succeeds (expect_notes (timed exec clk (\<lambda>_. ListNotesForMeeting i) t)) Q"
proof (rule step [OF assms(1)])
  fix x r' t'
  assume "spec (ListNotesForMeeting i) r x r'" and t': "holds ready abs_of n r' t'"
  then obtain xs where xs: "x = RNotes xs" "r' = r" "distinct xs" "set xs = notes_of r i"
    unfolding notes_of_def by auto
  then have "xs = ns"
    using assms(2) by (cases ns) (auto intro: distinct_singleton)
  with xs assms(3) t' show "succeeds (expect_notes (x, t')) Q"
    by simp
qed simp_all

lemma list_no_notes:
  assumes "holds ready abs_of n r t" and "notes_of r i = {}"
    and "\<And>t'. holds ready abs_of n r t' \<Longrightarrow> Q ([], t')"
  shows "succeeds (expect_notes (timed exec clk (\<lambda>_. ListNotesForMeeting i) t)) Q"
  by (rule list_notes [OF assms(1), where ns = "[]"]) (use assms(2,3) in auto)

lemma list_one_note:
  assumes "holds ready abs_of n r t" and "notes_of r i = {nt}"
    and "\<And>t'. holds ready abs_of n r t' \<Longrightarrow> Q ([nt], t')"
  shows "succeeds (expect_notes (timed exec clk (\<lambda>_. ListNotesForMeeting i) t)) Q"
  by (rule list_notes [OF assms(1), where ns = "[nt]"]) (use assms(2,3) in auto)

lemma create_with_note:
  assumes "holds ready abs_of n r t"
    and "rg_meetings r (md_id d) = None \<and> \<not> dir_taken (md_dir_path d) r \<and> rg_notes r (nd_id nd) = None \<and>
      nd_meeting_id nd = md_id d \<and> dur < 2 ^ 63"
    and "\<And>m nt t'. m = meeting_of_draft d e (Some dur) \<Longrightarrow>
      nt = note_of_draft nd (ck_rfc3339 (clk (snd t))) \<Longrightarrow>
      holds ready abs_of n (reg_add_note nt (reg_add_meeting m r)) t' \<Longrightarrow> Q (m, nt, t')"
  shows "succeeds (expect_meeting_note
    (timed exec clk (\<lambda>now. CreateMeetingWithNote now d nd e (Some dur)) t)) Q"
  by (rule step [OF assms(1)]) (use assms(2,3) in \<open>auto simp: insert_errors_def Let_def\<close>)

lemma create_with_note_collides:
  assumes "holds ready abs_of n r t"
    and "rg_meetings r (md_id d) = None \<and> \<not> dir_taken (md_dir_path d) r \<and> rg_notes r (nd_id nd) \<noteq> None \<and>
      nd_meeting_id nd = md_id d"
    and "\<And>t'. holds ready abs_of n r t' \<Longrightarrow> Q (StAlreadyExists (nd_id nd) ''note'', t')"
  shows "succeeds (expect_err
    (timed exec clk (\<lambda>now. CreateMeetingWithNote now d nd None None) t)) Q"
  by (rule step [OF assms(1)]) (use assms(2,3) in \<open>auto simp: insert_errors_def Let_def\<close>)

lemma list_filtered:
  assumes "holds ready abs_of n r t"
    and "\<And>xs t'. holds ready abs_of n r t' \<Longrightarrow> listing r (passes f r) xs \<Longrightarrow> Q (xs, t')"
  shows "succeeds (expect_summaries (timed exec clk (\<lambda>_. ListMeetingsFiltered f) t)) Q"
  by (rule step [OF assms(1)]) (use assms(2) holds_registry_ok [OF assms(1)] in \<open>auto simp: listing_def\<close>)

lemma list_all:
  assumes "holds ready abs_of n r t"
    and "\<And>xs t'. holds ready abs_of n r t' \<Longrightarrow> listing r (\<lambda>_. True) xs \<Longrightarrow> Q (xs, t')"
  shows "succeeds (expect_summaries (timed exec clk (\<lambda>_. ListMeetings) t)) Q"
  by (rule step [OF assms(1)]) (use assms(2) holds_registry_ok [OF assms(1)] in \<open>auto simp: listing_def\<close>)

lemma summary:
  assumes "holds ready abs_of n r t" and "rg_meetings r i = Some m"
    and "\<And>t'. holds ready abs_of n r t' \<Longrightarrow> Q (summary_of r m, t')"
  shows "succeeds (suite_summary (timed exec clk) i t) Q"
  unfolding suite_summary_def succeeds_simps
  by (rule list_all [OF assms(1)]) (use assms(2,3) in simp)

section \<open>Spaces\<close>

lemma create_space:
  assumes "holds ready abs_of (Suc n) r t"
    and "\<And>sp t'. holds ready abs_of n (r\<lparr>rg_spaces := (rg_spaces r)(sp_id sp \<mapsto> sp)\<rparr>) t' \<Longrightarrow>
      sp_name sp = name \<Longrightarrow> rg_spaces r (sp_id sp) = None \<Longrightarrow> 0 \<le> sp_position sp \<Longrightarrow> Q (sp, t')"
  shows "succeeds (expect_space (timed exec clk (\<lambda>now. CreateSpace now name) t)) Q"
proof (rule mint [OF assms(1)])
  fix x r' t'
  assume "spec (CreateSpace (clk (snd t)) name) r x r'" and no: "\<And>m. x \<noteq> RErr (StSql m)"
    and t': "holds ready abs_of n r' t'"
  then obtain sp where sp: "x = RSpace sp" "sp_name sp = name" "rg_spaces r (sp_id sp) = None"
    "r' = r\<lparr>rg_spaces := (rg_spaces r)(sp_id sp \<mapsto> sp)\<rparr>"
    by auto
  have "0 \<le> sp_position sp"
    using positions [of n "fst t'" "sp_id sp" sp] t' sp(4) by (simp add: holds_def)
  with sp assms(2) t' show "succeeds (expect_space (x, t')) Q"
    by simp
qed simp

lemma rename_space:
  assumes "holds ready abs_of n r t" and "rg_spaces r i = Some sp"
    and "\<And>t'. holds ready abs_of n (r\<lparr>rg_spaces := (rg_spaces r)(i \<mapsto> sp\<lparr>sp_name := x\<rparr>)\<rparr>) t' \<Longrightarrow> Q t'"
  shows "succeeds (expect_unit (timed exec clk (\<lambda>_. RenameSpace i x) t)) Q"
  by (rule step [OF assms(1)]) (use assms(2,3) in \<open>auto simp: guarded_def\<close>)

lemma rename_space_missing:
  assumes "holds ready abs_of n r t" and "rg_spaces r i = None"
    and "\<And>t'. holds ready abs_of n r t' \<Longrightarrow> Q (StNotFound i ''space'', t')"
  shows "succeeds (expect_err (timed exec clk (\<lambda>_. RenameSpace i x) t)) Q"
  by (rule step [OF assms(1)]) (use assms(2,3) in \<open>auto simp: guarded_def\<close>)

lemma delete_space:
  assumes "holds ready abs_of n r t" and "rg_spaces r i \<noteq> None"
    and "\<And>t'. holds ready abs_of n (reg_delete_space i r) t' \<Longrightarrow> Q t'"
  shows "succeeds (expect_unit (timed exec clk (\<lambda>_. DeleteSpace i) t)) Q"
  by (rule step [OF assms(1)]) (use assms(2,3) in \<open>auto simp: guarded_def\<close>)

lemma list_spaces:
  assumes "holds ready abs_of n r t"
    and "\<And>xs t'. holds ready abs_of n r t' \<Longrightarrow> rows sp_id (rg_spaces r) xs \<Longrightarrow> Q (xs, t')"
  shows "succeeds (expect_spaces (timed exec clk (\<lambda>_. ListSpaces) t)) Q"
  by (rule step [OF assms(1)])
    (use assms(2) holds_registry_ok [OF assms(1)] in \<open>auto simp: lists_set_def registry_ok_def rows_def\<close>)

section \<open>Projects\<close>

lemma create_project:
  assumes "holds ready abs_of (Suc n) r t" and "rg_spaces r i \<noteq> None"
    and "\<And>p t'. holds ready abs_of n (r\<lparr>rg_projects := (rg_projects r)(pj_id p \<mapsto> p)\<rparr>) t' \<Longrightarrow>
      pj_name p = name \<Longrightarrow> pj_space_id p = i \<Longrightarrow> rg_projects r (pj_id p) = None \<Longrightarrow> Q (p, t')"
  shows "succeeds (expect_project (timed exec clk (\<lambda>now. CreateProject now i name) t)) Q"
proof (rule mint [OF assms(1)])
  fix x r' t'
  assume "spec (CreateProject (clk (snd t)) i name) r x r'" and no: "\<And>m. x \<noteq> RErr (StSql m)"
    and t': "holds ready abs_of n r' t'"
  then obtain p where p: "x = RProject p" "pj_name p = name" "pj_space_id p = i"
    "rg_projects r (pj_id p) = None" "r' = r\<lparr>rg_projects := (rg_projects r)(pj_id p \<mapsto> p)\<rparr>"
    using assms(2) by (auto simp: guarded_def)
  with assms(3) t' show "succeeds (expect_project (x, t')) Q"
    by simp
qed simp

lemma create_project_missing:
  assumes "holds ready abs_of (Suc n) r t" and "\<And>x. i \<noteq> ''space_'' @ x"
    and "\<And>t'. holds ready abs_of n r t' \<Longrightarrow> Q (StNotFound i ''space'', t')"
  shows "succeeds (expect_err (timed exec clk (\<lambda>now. CreateProject now i name) t)) Q"
proof -
  have none: "rg_spaces r i = None"
    using space_names [of "Suc n" "fst t" i] assms(1,2) unfolding holds_def by blast
  show ?thesis
    by (rule mint [OF assms(1)]) (use assms(3) none in \<open>auto simp: guarded_def\<close>)
qed

lemma rename_project:
  assumes "holds ready abs_of n r t" and "rg_projects r i = Some p"
    and "\<And>t'. holds ready abs_of n (r\<lparr>rg_projects := (rg_projects r)(i \<mapsto> p\<lparr>pj_name := x\<rparr>)\<rparr>) t' \<Longrightarrow> Q t'"
  shows "succeeds (expect_unit (timed exec clk (\<lambda>_. RenameProject i x) t)) Q"
  by (rule step [OF assms(1)]) (use assms(2,3) in \<open>auto simp: guarded_def\<close>)

lemma delete_project:
  assumes "holds ready abs_of n r t" and "rg_projects r i \<noteq> None"
    and "\<And>t'. holds ready abs_of n (reg_delete_projects (\<lambda>p. pj_id p = i) r) t' \<Longrightarrow> Q t'"
  shows "succeeds (expect_unit (timed exec clk (\<lambda>_. DeleteProject i) t)) Q"
  by (rule step [OF assms(1)]) (use assms(2,3) in \<open>auto simp: guarded_def\<close>)

lemma list_all_projects:
  assumes "holds ready abs_of n r t"
    and "\<And>xs t'. holds ready abs_of n r t' \<Longrightarrow> rows pj_id (rg_projects r) xs \<Longrightarrow> Q (xs, t')"
  shows "succeeds (expect_projects (timed exec clk (\<lambda>_. ListProjects None) t)) Q"
  by (rule step [OF assms(1)])
    (use assms(2) holds_registry_ok [OF assms(1)] in
      \<open>auto simp: lists_set_def registry_ok_def rows_def\<close>)

lemma list_projects:
  assumes "holds ready abs_of n r t" and "projects_in (rg_projects r) a = set ps \<and> length ps \<le> 1"
    and "\<And>t'. holds ready abs_of n r t' \<Longrightarrow> Q (ps, t')"
  shows "succeeds (expect_projects (timed exec clk (\<lambda>_. ListProjects (Some a)) t)) Q"
proof (rule step [OF assms(1)])
  fix x r' t'
  assume "spec (ListProjects (Some a)) r x r'" and t': "holds ready abs_of n r' t'"
  then obtain xs where xs: "x = RProjects xs" "r' = r" "distinct xs"
    "set xs = projects_in (rg_projects r) a"
    unfolding projects_in_def by (auto simp: lists_set_def)
  then have "xs = ps"
    using assms(2) by (cases ps) (auto intro: distinct_singleton)
  with xs assms(3) t' show "succeeds (expect_projects (x, t')) Q"
    by simp
qed simp_all

lemma list_no_projects:
  assumes "holds ready abs_of n r t" and "projects_in (rg_projects r) a = {}"
    and "\<And>t'. holds ready abs_of n r t' \<Longrightarrow> Q ([], t')"
  shows "succeeds (expect_projects (timed exec clk (\<lambda>_. ListProjects (Some a)) t)) Q"
  by (rule list_projects [OF assms(1), where ps = "[]"]) (use assms(2,3) in auto)

lemma list_one_project:
  assumes "holds ready abs_of n r t" and "projects_in (rg_projects r) a = {p}"
    and "\<And>t'. holds ready abs_of n r t' \<Longrightarrow> Q ([p], t')"
  shows "succeeds (expect_projects (timed exec clk (\<lambda>_. ListProjects (Some a)) t)) Q"
  by (rule list_projects [OF assms(1), where ps = "[p]"]) (use assms(2,3) in auto)

section \<open>Tags\<close>

lemma create_tag:
  assumes "holds ready abs_of (Suc n) r t" and "\<not> (\<exists>u \<in> values_of (rg_tags r). tg_name u = name)"
    and "\<And>u t'. holds ready abs_of n (r\<lparr>rg_tags := (rg_tags r)(tg_id u \<mapsto> u)\<rparr>) t' \<Longrightarrow>
      tg_name u = name \<Longrightarrow> rg_tags r (tg_id u) = None \<Longrightarrow> Q (u, t')"
  shows "succeeds (expect_tag (timed exec clk (\<lambda>now. CreateTag now name) t)) Q"
  by (rule mint [OF assms(1)]) (use assms(2,3) in \<open>auto split: if_splits\<close>)

lemma create_tag_again:
  assumes "holds ready abs_of (Suc n) r t" and "kept (\<lambda>u. tg_name u = name) (values_of (rg_tags r)) = {u}"
    and "\<And>t'. holds ready abs_of n r t' \<Longrightarrow> Q (u, t')"
  shows "succeeds (expect_tag (timed exec clk (\<lambda>now. CreateTag now name) t)) Q"
proof (rule mint [OF assms(1)])
  have only: "v = u" if "v \<in> values_of (rg_tags r)" "tg_name v = name" for v
    using assms(2) that unfolding kept_def by blast
  have ex: "\<exists>v \<in> values_of (rg_tags r). tg_name v = name"
    using assms(2) unfolding kept_def by blast
  fix x r' t'
  assume x: "spec (CreateTag (clk (snd t)) name) r x r'" and t': "holds ready abs_of n r' t'"
  from x have "(\<exists>v \<in> values_of (rg_tags r). tg_name v = name \<and> x = RTag v) \<and> r' = r"
    unfolding spec.simps if_P [OF ex] .
  then have "x = RTag u \<and> r' = r"
    using only by blast
  with assms(3) t' show "succeeds (expect_tag (x, t')) Q"
    by simp
qed simp

lemma delete_tag:
  assumes "holds ready abs_of n r t" and "rg_tags r i \<noteq> None"
    and "\<And>t'. holds ready abs_of n (reg_delete_tag i r) t' \<Longrightarrow> Q t'"
  shows "succeeds (expect_unit (timed exec clk (\<lambda>_. DeleteTag i) t)) Q"
  by (rule step [OF assms(1)]) (use assms(2,3) in \<open>auto simp: guarded_def\<close>)

lemma list_tags:
  assumes "holds ready abs_of n r t"
    and "\<And>xs t'. holds ready abs_of n r t' \<Longrightarrow> rows tg_id (rg_tags r) xs \<Longrightarrow> Q (xs, t')"
  shows "succeeds (expect_tags (timed exec clk (\<lambda>_. ListTags) t)) Q"
  by (rule step [OF assms(1)])
    (use assms(2) holds_registry_ok [OF assms(1)] in \<open>auto simp: lists_set_def registry_ok_def rows_def\<close>)

lemma tag_meeting:
  assumes "holds ready abs_of n r t" and "rg_meetings r m \<noteq> None \<and> rg_tags r u \<noteq> None"
    and "\<And>t'. holds ready abs_of n (r\<lparr>rg_links := insert (m, u) (rg_links r)\<rparr>) t' \<Longrightarrow> Q t'"
  shows "succeeds (expect_unit (timed exec clk (\<lambda>_. TagMeeting m u) t)) Q"
  by (rule step [OF assms(1)]) (use assms(2,3) in \<open>auto simp: guarded_def\<close>)

lemma tag_missing:
  assumes "holds ready abs_of n r t" and "rg_meetings r m = None"
    and "\<And>t'. holds ready abs_of n r t' \<Longrightarrow> Q (StNotFound m ''meeting'', t')"
  shows "succeeds (expect_err (timed exec clk (\<lambda>_. TagMeeting m u) t)) Q"
  by (rule step [OF assms(1)]) (use assms(2,3) in \<open>auto simp: guarded_def\<close>)

lemma untag_meeting:
  assumes "holds ready abs_of n r t" and "rg_meetings r m \<noteq> None \<and> rg_tags r u \<noteq> None"
    and "\<And>t'. holds ready abs_of n (r\<lparr>rg_links := rg_links r - {(m, u)}\<rparr>) t' \<Longrightarrow> Q t'"
  shows "succeeds (expect_unit (timed exec clk (\<lambda>_. UntagMeeting m u) t)) Q"
  by (rule step [OF assms(1)]) (use assms(2,3) in \<open>auto simp: guarded_def\<close>)

lemma tags_of_meeting:
  assumes "holds ready abs_of n r t"
    and "rg_meetings r i \<noteq> None \<and>
      kept (\<lambda>u. (i, tg_id u) \<in> rg_links r) (values_of (rg_tags r)) = set us \<and> length us \<le> 1"
    and "\<And>t'. holds ready abs_of n r t' \<Longrightarrow> Q (us, t')"
  shows "succeeds (expect_tags (timed exec clk (\<lambda>_. ListTagsForMeeting i) t)) Q"
proof (rule step [OF assms(1)])
  fix x r' t'
  assume "spec (ListTagsForMeeting i) r x r'" and t': "holds ready abs_of n r' t'"
  then obtain xs where xs: "x = RTags xs" "r' = r" "distinct xs" "set xs = set us"
    using assms(2) by (auto simp: guarded_def lists_set_def kept_def)
  then have "xs = us"
    using assms(2) by (cases us) (auto intro: distinct_singleton)
  with xs assms(3) t' show "succeeds (expect_tags (x, t')) Q"
    by simp
qed simp_all

lemma no_tags_of_meeting:
  assumes "holds ready abs_of n r t"
    and "rg_meetings r i \<noteq> None \<and>
      kept (\<lambda>u. (i, tg_id u) \<in> rg_links r) (values_of (rg_tags r)) = {}"
    and "\<And>t'. holds ready abs_of n r t' \<Longrightarrow> Q ([], t')"
  shows "succeeds (expect_tags (timed exec clk (\<lambda>_. ListTagsForMeeting i) t)) Q"
  by (rule tags_of_meeting [OF assms(1), where us = "[]"]) (use assms(2,3) in auto)

lemma one_tag_of_meeting:
  assumes "holds ready abs_of n r t"
    and "rg_meetings r i \<noteq> None \<and>
      kept (\<lambda>u. (i, tg_id u) \<in> rg_links r) (values_of (rg_tags r)) = {u}"
    and "\<And>t'. holds ready abs_of n r t' \<Longrightarrow> Q ([u], t')"
  shows "succeeds (expect_tags (timed exec clk (\<lambda>_. ListTagsForMeeting i) t)) Q"
  by (rule tags_of_meeting [OF assms(1), where us = "[u]"]) (use assms(2,3) in auto)

section \<open>Assignment\<close>

lemma assign_space:
  assumes "holds ready abs_of n r t" and "rg_meetings r i \<noteq> None \<and> rg_spaces r sp \<noteq> None"
    and "\<And>t'. holds ready abs_of n (reg_place i (Some sp) None r) t' \<Longrightarrow> Q t'"
  shows "succeeds (expect_unit (timed exec clk (\<lambda>_. AssignMeeting i (Some sp) None) t)) Q"
  by (rule step [OF assms(1)]) (use assms(2,3) in \<open>auto simp: guarded_def\<close>)

lemma assign_project:
  assumes "holds ready abs_of n r t" and "rg_meetings r i \<noteq> None \<and> rg_projects r p = Some q"
    and "\<And>t'. holds ready abs_of n (reg_place i (Some (pj_space_id q)) (Some p) r) t' \<Longrightarrow> Q t'"
  shows "succeeds (expect_unit (timed exec clk (\<lambda>_. AssignMeeting i None (Some p)) t)) Q"
  by (rule step [OF assms(1)]) (use assms(2,3) in \<open>auto simp: guarded_def\<close>)

lemma assign_nothing:
  assumes "holds ready abs_of n r t" and "rg_meetings r i \<noteq> None"
    and "\<And>t'. holds ready abs_of n (reg_place i None None r) t' \<Longrightarrow> Q t'"
  shows "succeeds (expect_unit (timed exec clk (\<lambda>_. AssignMeeting i None None) t)) Q"
  by (rule step [OF assms(1)]) (use assms(2,3) in \<open>auto simp: guarded_def\<close>)

end

end
