(* ===== verification/Suite_Scenarios.thy ===== *)
theory Suite_Scenarios
  imports Suite_Port
begin

lemma suite_draft_sel [simp]:
  "md_id (suite_draft i x at) = i" "md_dir_path (suite_draft i x at) = ''/tmp/'' @ i"
  "md_title (suite_draft i x at) = x" "md_started_at (suite_draft i x at) = at"
  "md_language (suite_draft i x at) = ''auto''"
  by (simp_all add: suite_draft_def meeting_draft.defs)

lemma draft_make_sel [simp]:
  "md_id (meeting_draft.make i x at lang dir) = i"
  "md_dir_path (meeting_draft.make i x at lang dir) = dir"
  "md_title (meeting_draft.make i x at lang dir) = x"
  "md_started_at (meeting_draft.make i x at lang dir) = at"
  "md_language (meeting_draft.make i x at lang dir) = lang"
  "nd_id (note_draft.make i j dl c p) = i" "nd_meeting_id (note_draft.make i j dl c p) = j"
  "nd_content_md (note_draft.make i j dl c p) = c" "nd_dialect (note_draft.make i j dl c p) = dl"
  by (simp_all add: meeting_draft.defs note_draft.defs)

lemma meeting_of_draft_more [simp]:
  "mt_started_at (meeting_of_draft d e n) = md_started_at d"
  "mt_language (meeting_of_draft d e n) = md_language d"
  by (simp_all add: meeting_of_draft_def)

lemma note_of_draft_more [simp]:
  "nt_dialect (note_of_draft d c) = nd_dialect d" "nt_created_at (note_of_draft d c) = c"
  by (simp_all add: note_of_draft_def)

text \<open>
  A scenario that asks for \<open>k\<close> identifiers and uses the names \<open>V\<close> passes from every registry in which
  these names are free, and uses no others. Two identifiers are never used at all.
\<close>

definition absent :: "taken set" where
  "absent = {MeetingId ''does-not-exist'', MeetingId ''missing-meeting''}"

definition passes_with ::
  "(nat \<Rightarrow> 's \<Rightarrow> bool) \<Rightarrow> ('s \<Rightarrow> registry) \<Rightarrow> nat \<Rightarrow> taken set \<Rightarrow>
   ('s \<times> nat \<Rightarrow> ('s \<times> nat) option) \<Rightarrow> bool" where
  "passes_with ready abs_of k V f \<longleftrightarrow>
     (\<forall>n r t U. holds ready abs_of (k + n) r t \<longrightarrow> within U r \<longrightarrow> U \<inter> (V \<union> absent) = {} \<longrightarrow>
        succeeds (f t) (\<lambda>t'. \<exists>r'. holds ready abs_of n r' t' \<and> within (U \<union> V) r'))"

lemma links_fresh: "registry_ok r \<Longrightarrow> rg_meetings r i = None \<Longrightarrow> (i, u) \<notin> rg_links r"
  by (auto simp: registry_ok_def)

lemma unplaced_fresh:
  "registry_ok r \<Longrightarrow> rg_meetings r i = None \<Longrightarrow> rg_space_of r i = None \<and> rg_project_of r i = None"
  unfolding registry_ok_def by (metis option.exhaust)

lemma tag_key_fresh:
  "registry_ok r \<Longrightarrow> rg_tags r i = None \<Longrightarrow> u \<in> values_of (rg_tags r) \<Longrightarrow> tg_id u \<noteq> i"
  by (auto simp: registry_ok_def keyed_def values_of_def)

context naming_port
begin

lemma passesI:
  assumes "\<And>n r t U. holds ready abs_of (k + n) r t \<Longrightarrow> \<forall>v \<in> V. v \<notin> used r \<and> v \<in> U \<Longrightarrow>
      within U r \<Longrightarrow> rg_meetings r ''does-not-exist'' = None \<Longrightarrow>
      rg_meetings r ''missing-meeting'' = None \<Longrightarrow>
      (\<And>i. rg_meetings r i = None \<Longrightarrow> notes_of r i = {} \<and> (\<forall>u. (i, u) \<notin> rg_links r) \<and>
        rg_space_of r i = None \<and> rg_project_of r i = None) \<Longrightarrow>
      (\<And>a. rg_spaces r a = None \<Longrightarrow> projects_in (rg_projects r) a = {}) \<Longrightarrow>
      (\<And>i m. rg_tags r i = None \<Longrightarrow> rg_meetings r m = None \<Longrightarrow>
        kept (\<lambda>u. tg_id u = i \<or> (m, tg_id u) \<in> rg_links r) (values_of (rg_tags r)) = {}) \<Longrightarrow>
      succeeds (f t) (\<lambda>t'. \<exists>r'. holds ready abs_of n r' t' \<and> within U r')"
  shows "passes_with ready abs_of k V f"
  unfolding passes_with_def
proof (intro allI impI)
  fix n r t U
  assume h: "holds ready abs_of (k + n) r t" and w: "within U r" and d: "U \<inter> (V \<union> absent) = {}"
  have out: "v \<notin> used r" if "v \<in> V \<union> absent" for v
    using that w d by (auto simp: within_def)
  have "rg_meetings r ''does-not-exist'' = None" "rg_meetings r ''missing-meeting'' = None"
    using out [of "MeetingId ''does-not-exist''"] out [of "MeetingId ''missing-meeting''"]
    by (simp_all add: absent_def)
  moreover have "within (U \<union> V) r"
    using w by (auto simp: within_def)
  moreover have "notes_of r i = {} \<and> (\<forall>u. (i, u) \<notin> rg_links r) \<and>
      rg_space_of r i = None \<and> rg_project_of r i = None" if "rg_meetings r i = None" for i
    using that notes_of_fresh [OF holds_registry_ok [OF h]] links_fresh [OF holds_registry_ok [OF h]]
      unplaced_fresh [OF holds_registry_ok [OF h]] by blast
  moreover have "projects_in (rg_projects r) a = {}" if "rg_spaces r a = None" for a
    using that projects_fresh [OF holds_registry_ok [OF h]] by blast
  moreover have "kept (\<lambda>u. tg_id u = i \<or> (m, tg_id u) \<in> rg_links r) (values_of (rg_tags r)) = {}"
    if "rg_tags r i = None" "rg_meetings r m = None" for i m
    using that links_fresh [OF holds_registry_ok [OF h]] tag_key_fresh [OF holds_registry_ok [OF h]]
    by (intro kept_none) blast
  ultimately show "succeeds (f t) (\<lambda>t'. \<exists>r'. holds ready abs_of n r' t' \<and> within (U \<union> V) r')"
    using assms [OF h, of "U \<union> V"] out by blast
qed

text \<open>The rules with a condition on the registry, and those without one.\<close>

lemmas guarded_rules = create_meeting create_meeting_again create_meeting_silent get_stored_meeting get_missing
  update_meeting_ended rename_meeting rename_missing delete_meeting create_note
  replace_meeting_note replace_missing list_no_notes list_one_note create_with_note
  create_with_note_collides summary rename_space rename_space_missing delete_space create_project
  create_project_missing rename_project
  delete_project list_no_projects list_one_project create_tag create_tag_again delete_tag
  tag_meeting tag_missing untag_meeting no_tags_of_meeting one_tag_of_meeting assign_space assign_project
  assign_nothing

lemmas free_rules = list_filtered list_all create_space list_spaces list_all_projects list_tags

text \<open>
  Each scenario runs by the rules of its calls, one after the other; the conditions and the checks
  are evaluated on the registry that the calls before have built.
\<close>

lemmas meeting_scenarios = create_get_round_trip_def
  create_duplicate_id_is_already_exists_def
  create_duplicate_dir_path_is_unique_conflict_def
  get_unknown_id_is_not_found_def
  update_meeting_ended_writes_duration_def
  rename_meeting_persists_title_def
  delete_meeting_cascades_to_notes_def
  replace_meeting_note_unknown_meeting_is_not_found_def
  create_meeting_with_note_atomic_happy_path_def
  create_meeting_with_note_rolls_back_on_note_collision_def

lemma meeting_scenarios_pass:
  "passes_with ready abs_of 0 {MeetingId ''m_round_trip'', DirPath ''/tmp/m_round_trip''}
    (create_get_round_trip (timed exec clk))"
  "passes_with ready abs_of 0 {MeetingId ''m_dup'', DirPath ''/tmp/m_dup_first'',
      DirPath ''/tmp/m_dup_second''}
    (create_duplicate_id_is_already_exists (timed exec clk))"
  "passes_with ready abs_of 0 {MeetingId ''m_dir_a'', MeetingId ''m_dir_b'',
      DirPath ''/tmp/share_this_dir_dup''}
    (create_duplicate_dir_path_is_unique_conflict (timed exec clk))"
  "passes_with ready abs_of 0 {}
    (get_unknown_id_is_not_found (timed exec clk))"
  by (rule passesI, simp add: meeting_scenarios,
      ((erule guarded_rules, (simp add: insert_errors_def; fail) | erule free_rules),
      (simp add: insert_errors_def)?)+,
      rule exI, rule conjI, assumption, simp)+

lemma meeting_change_scenarios_pass:
  "passes_with ready abs_of 0 {MeetingId ''m_end'', DirPath ''/tmp/m_end''}
    (update_meeting_ended_writes_duration (timed exec clk))"
  "passes_with ready abs_of 0 {MeetingId ''m_rename'', DirPath ''/tmp/m_rename''}
    (rename_meeting_persists_title (timed exec clk))"
  "passes_with ready abs_of 0 {MeetingId ''m_del'', DirPath ''/tmp/m_del'', NoteId ''n_del''}
    (delete_meeting_cascades_to_notes (timed exec clk))"
  "passes_with ready abs_of 0 {}
    (replace_meeting_note_unknown_meeting_is_not_found (timed exec clk))"
  "passes_with ready abs_of 0 {MeetingId ''m_atomic_ok'', DirPath ''/tmp/m_atomic_ok'',
      NoteId ''n_atomic_ok''}
    (create_meeting_with_note_atomic_happy_path (timed exec clk))"
  "passes_with ready abs_of 0 {MeetingId ''m_atomic_pre'', DirPath ''/tmp/m_atomic_pre'',
      MeetingId ''m_atomic_rollback'', DirPath ''/tmp/m_atomic_rollback'', NoteId ''n_atomic_pre''}
    (create_meeting_with_note_rolls_back_on_note_collision (timed exec clk))"
  by (rule passesI, simp add: meeting_scenarios,
      ((erule guarded_rules, (simp add: insert_errors_def; fail) | erule free_rules),
      (simp add: insert_errors_def)?)+,
      rule exI, rule conjI, assumption, simp)+

end

end
