(* ===== verification/Suite_Org.thy ===== *)
theory Suite_Org
  imports Suite_Scenarios
begin

text \<open>
  The remaining scenarios of the conformance suite: those that read the clock, those on spaces,
  projects and tags, and the listings; and the suite as a whole: in the locale \<open>naming_port\<close>, every
  adapter passes it.
\<close>

context naming_port
begin

section \<open>Scenarios that read the clock\<close>

text \<open>The texts of the clock are not empty and do not go back.\<close>

lemma note_scenarios_pass:
  assumes "\<And>i. ck_rfc3339 (clk i) \<noteq> []" and "\<And>i. ck_rfc3339 (clk i) \<le> ck_rfc3339 (clk (Suc i))"
  shows "passes_with ready abs_of 0
      {MeetingId ''m_notes'', DirPath ''/tmp/m_notes'', NoteId ''n_one''}
      (create_and_list_notes_for_meeting (timed exec clk))"
    and "passes_with ready abs_of 0
      {MeetingId ''m_replace_note'', DirPath ''/tmp/m_replace_note'',
       MeetingId ''m_replace_note_fresh'', DirPath ''/tmp/m_replace_note_fresh'',
       NoteId ''n_original'', NoteId ''n_replaced'', NoteId ''n_fresh''}
      (replace_meeting_note_replaces_existing (timed exec clk))"
  by (rule passesI, simp add: create_and_list_notes_for_meeting_def
      replace_meeting_note_replaces_existing_def,
      ((erule guarded_rules, (simp; fail) | erule free_rules), (simp add: assms)?)+,
      rule exI, rule conjI, assumption, simp)+

section \<open>Listings of meetings\<close>

lemma order_scenario_passes:
  "passes_with ready abs_of 0
    {MeetingId ''a'', MeetingId ''b'', MeetingId ''c'', DirPath ''/tmp/a'', DirPath ''/tmp/b'',
     DirPath ''/tmp/c'', NoteId ''n_list_b''}
    (list_returns_started_at_desc (timed exec clk))"
  by (rule passesI, simp add: list_returns_started_at_desc_def,
      ((erule guarded_rules, (simp; fail) | erule free_rules), (simp)?)+,
      rule conjI, rule listing_order, assumption, simp, simp, simp, simp, force,
      rule exI, rule conjI, assumption, simp)

lemma filter_scenario_passes:
  "passes_with ready abs_of (Suc (Suc (Suc 0)))
    {MeetingId ''m_filter_inbox'', MeetingId ''m_filter_space'', MeetingId ''m_filter_project'',
     DirPath ''/tmp/m_filter_inbox'', DirPath ''/tmp/m_filter_space'',
     DirPath ''/tmp/m_filter_project'', TagName ''filter-tag''}
    (list_meetings_supports_org_filters (timed exec clk))"
  by (rule passesI, simp add: list_meetings_supports_org_filters_def has_row_def,
      ((erule guarded_rules, (simp; fail) | erule free_rules),
       (simp add: passes_def default_filter_def)?)+,
      rule exI, rule conjI, assumption, simp)

section \<open>Spaces, projects and tags\<close>

lemmas org_scenarios = spaces_create_list_rename_delete_def projects_create_list_rename_delete_def
  tags_create_list_delete_and_idempotent_name_def tag_meeting_untag_and_list_tags_for_meeting_def
  assign_meeting_handles_space_and_project_sets_space_def
  deleting_org_rows_preserves_meetings_and_clears_refs_def

lemma org_scenarios_pass:
  "passes_with ready abs_of (Suc 0) {} (spaces_create_list_rename_delete (timed exec clk))"
  "passes_with ready abs_of (Suc (Suc (Suc (Suc (Suc 0))))) {}
    (projects_create_list_rename_delete (timed exec clk))"
  "passes_with ready abs_of (Suc (Suc 0)) {TagName ''urgent''}
    (tags_create_list_delete_and_idempotent_name (timed exec clk))"
  "passes_with ready abs_of (Suc 0)
    {MeetingId ''m_tagging'', DirPath ''/tmp/m_tagging'', TagName ''customer''}
    (tag_meeting_untag_and_list_tags_for_meeting (timed exec clk))"
  by (rule passesI, simp add: org_scenarios,
      ((erule guarded_rules, (simp; fail) | erule free_rules), (simp)?)+,
      rule exI, rule conjI, assumption, simp)+

lemma placement_scenarios_pass:
  "passes_with ready abs_of (Suc (Suc 0)) {MeetingId ''m_assign'', DirPath ''/tmp/m_assign''}
    (assign_meeting_handles_space_and_project_sets_space (timed exec clk))"
  "passes_with ready abs_of (Suc (Suc (Suc (Suc 0))))
    {MeetingId ''m_delete_project_ref'', MeetingId ''m_delete_space_ref'',
     DirPath ''/tmp/m_delete_project_ref'', DirPath ''/tmp/m_delete_space_ref''}
    (deleting_org_rows_preserves_meetings_and_clears_refs (timed exec clk))"
  by (rule passesI, simp add: org_scenarios,
      ((erule guarded_rules, (simp; fail) | erule free_rules), (simp)?)+,
      rule exI, rule conjI, assumption, simp)+

end

section \<open>The whole suite\<close>

lemma passes_with_seq:
  assumes "passes_with ready abs_of k V f" and "passes_with ready abs_of l W g"
    and "V \<inter> (W \<union> absent) = {}"
  shows "passes_with ready abs_of (k + l) (V \<union> W) (\<lambda>t. Option.bind (f t) g)"
  unfolding passes_with_def
proof (intro allI impI)
  fix n r t U
  assume h: "holds ready abs_of (k + l + n) r t" "within U r" "U \<inter> (V \<union> W \<union> absent) = {}"
  have "succeeds (f t) (\<lambda>t'. \<exists>r'. holds ready abs_of (l + n) r' t' \<and> within (U \<union> V) r')"
    using assms(1) h unfolding passes_with_def add.assoc by blast
  then have "succeeds (f t) (\<lambda>t1. succeeds (g t1)
      (\<lambda>t'. \<exists>r'. holds ready abs_of n r' t' \<and> within (U \<union> V \<union> W) r'))"
  proof (rule succeeds_mono)
    fix t1
    assume "\<exists>r'. holds ready abs_of (l + n) r' t1 \<and> within (U \<union> V) r'"
    moreover have "(U \<union> V) \<inter> (W \<union> absent) = {}"
      using h(3) assms(3) by blast
    ultimately show "succeeds (g t1)
        (\<lambda>t'. \<exists>r'. holds ready abs_of n r' t' \<and> within (U \<union> V \<union> W) r')"
      using assms(2) unfolding passes_with_def by blast
  qed
  then show "succeeds (Option.bind (f t) g)
      (\<lambda>t'. \<exists>r'. holds ready abs_of n r' t' \<and> within (U \<union> (V \<union> W)) r')"
    by (simp add: Un_assoc)
qed

context naming_port
begin

lemma suite_passes:
  assumes "\<And>i. ck_rfc3339 (clk i) \<noteq> []" and "\<And>i. ck_rfc3339 (clk i) \<le> ck_rfc3339 (clk (Suc i))"
  shows "\<exists>t. run_storage_suite (timed exec clk) (init, 0) = Some t"
proof -
  note scenarios = meeting_scenarios_pass meeting_change_scenarios_pass order_scenario_passes
    note_scenarios_pass [of clk, OF assms] org_scenarios_pass placement_scenarios_pass
    filter_scenario_passes
  have "\<exists>k V. passes_with ready abs_of k V (run_storage_suite (timed exec clk)) \<and> k \<le> 64"
    unfolding run_storage_suite_def
    by (rule exI, rule exI, rule conjI, (rule passes_with_seq, rule scenarios)+, rule scenarios,
        (simp add: absent_def)+)
  then obtain k V where p: "passes_with ready abs_of k V (run_storage_suite (timed exec clk))"
    and k: "k \<le> 64"
    by blast
  have "holds ready abs_of (k + (64 - k)) empty_registry (init, 0)"
    using ready_init init_abs k by (simp add: holds_def)
  moreover have "within {} empty_registry"
    by (simp add: within_iff empty_registry_def)
  ultimately have "succeeds (run_storage_suite (timed exec clk) (init, 0))
      (\<lambda>t'. \<exists>r'. holds ready abs_of (64 - k) r' t' \<and> within ({} \<union> V) r')"
    using p unfolding passes_with_def by blast
  then show ?thesis
    using succeeds_Some by blast
qed

end

end
