(* ===== verification/Suite_Adapters.thy ===== *)
theory Suite_Adapters
  imports Suite_Org Memory_Correct
begin

text \<open>
  Both adapters are instances of \<open>naming_port\<close>: the identifiers of the SQLite adapter end with a
  counter that has not been used before, those of the in-memory adapter with the counter of their
  table, and the position of a new space is one past the greatest. Hence both pass the suite.
\<close>

section \<open>Positions\<close>

definition positions_ok :: "nat \<Rightarrow> registry \<Rightarrow> bool" where
  "positions_ok n r \<longleftrightarrow> int n < 2 ^ 62 \<and>
     (\<forall>i sp. rg_spaces r i = Some sp \<longrightarrow> 0 \<le> sp_position sp \<and> sp_position sp + int n < 2 ^ 62)"

lemma positions_ok_step:
  assumes "spec c r x r'" and "no_new_id c" and "positions_ok n r"
  shows "positions_ok n r'"
proof -
  have "\<exists>sq. rg_spaces r i = Some sq \<and> sp_position sp = sp_position sq"
    if "rg_spaces r' i = Some sp" for i sp
    using assms(1,2) that
    by (cases c) (auto simp: Let_def reg_add_meeting_def reg_add_note_def reg_drop_notes_def
        reg_delete_meeting_def reg_delete_projects_def reg_delete_space_def reg_delete_tag_def
        reg_place_def elim!: guardedE split: if_splits option.splits)
  with assms(3) show ?thesis
    unfolding positions_ok_def by metis
qed

lemma positions_ok_less: "positions_ok (Suc n) r \<Longrightarrow> positions_ok n r"
  by (force simp: positions_ok_def)

lemma positions_ok_spaces: "rg_spaces r' = rg_spaces r \<Longrightarrow> positions_ok n r' = positions_ok n r"
  by (simp add: positions_ok_def)

lemma max_position_in: "max_position ps = Some p \<Longrightarrow> p \<in> set ps"
  by (induction ps arbitrary: p) (auto simp: max_def split: option.splits if_splits)

lemma positions_ok_add:
  assumes "positions_ok (Suc n) r" and "set ps = sp_position ` values_of (rg_spaces r)"
    and "rg_spaces r' = (rg_spaces r)(sp_id sp \<mapsto> sp)" and "sp_position sp = position_after ps"
  shows "positions_ok n r'"
proof -
  have old: "0 \<le> p \<and> p + int n + 1 < 2 ^ 62" if "p \<in> set ps" for p
    using assms(1,2) that by (auto simp: positions_ok_def values_of_def)
  have "0 \<le> position_after ps \<and> position_after ps + int n < 2 ^ 62"
  proof (cases "max_position ps")
    case None
    with assms(1) show ?thesis
      by (simp add: position_after_def positions_ok_def)
  next
    case (Some p)
    with old [OF max_position_in [OF Some]] show ?thesis
      by (auto simp: position_after_def i64_succ_def)
  qed
  with positions_ok_less [OF assms(1)] show ?thesis
    using assms(3,4) by (auto simp: positions_ok_def)
qed

section \<open>The in-memory adapter\<close>

definition mem_ready :: "nat \<Rightarrow> mem \<Rightarrow> bool" where
  "mem_ready n s = (mem_ok s \<and> positions_ok n (abs_mem s))"

lemma mem_ready_step:
  "mem_ready n s \<Longrightarrow> call_ok c \<Longrightarrow> no_new_id c \<Longrightarrow> mem_ready n (snd (mem_exec c s))"
  using memory.exec_ok [of s c] memory.exec_spec [of s c] positions_ok_step
  by (auto simp: mem_ready_def)

lemma mem_ready_mint:
  assumes "mem_ready (Suc n) s" and "\<not> no_new_id c"
  shows "mem_ready n (snd (mem_exec c s)) \<and> fst (mem_exec c s) \<noteq> RErr (StSql m)"
proof -
  have ok: "mem_ok s" and p: "positions_ok (Suc n) (abs_mem s)"
    using assms(1) by (simp_all add: mem_ready_def)
  have c: "call_ok c"
    using assms(2) by (cases c) simp_all
  have ok': "mem_ok (snd (mem_exec c s))"
    using memory.exec_ok [OF ok c] .
  have hm: "set (hm_values (mem_spaces s)) = values_of (rg_spaces (abs_mem s))"
    using ok by (simp add: mem_ok_def maps_ok_def hm_values_of)
  show ?thesis
  proof (cases c)
    case (CreateSpace now name)
    have "positions_ok n (abs_mem (snd (mem_create_space name s)))"
      by (rule positions_ok_add [OF p, of "map sp_position (hm_values (mem_spaces s))"
            _ "case mem_create_space name s of (Inr sp, _) \<Rightarrow> sp"])
        (simp_all add: hm mem_create_space_def Let_def table_simps)
    then show ?thesis
      using ok' CreateSpace by (simp add: mem_ready_def mem_create_space_def Let_def)
  next
    case (CreateProject now i name)
    have "rg_spaces (abs_mem (snd (mem_exec c s))) = rg_spaces (abs_mem s)"
      by (simp add: CreateProject mem_create_project_def Let_def)
    with ok' CreateProject positions_ok_less [OF p] show ?thesis
      by (simp add: mem_ready_def positions_ok_def mem_create_project_def Let_def not_found_def)
  next
    case (CreateTag now name)
    have "rg_spaces (abs_mem (snd (mem_exec c s))) = rg_spaces (abs_mem s)"
      by (simp add: CreateTag mem_create_tag_def Let_def split: option.split)
    with ok' CreateTag positions_ok_less [OF p] show ?thesis
      by (simp add: mem_ready_def positions_ok_def mem_create_tag_def Let_def split: option.split)
  qed (use assms(2) in simp_all)
qed

interpretation memory_names: naming_port mem_exec mem_ok abs_mem new_mem mem_ready
proof
  show "mem_ready 64 new_mem"
    by (simp add: mem_ready_def new_mem_ok new_mem_abs positions_ok_def empty_registry_def)
  fix n s c m
  show "mem_ready n s \<Longrightarrow> mem_ok s"
    by (simp add: mem_ready_def)
  show "mem_ready n s \<Longrightarrow> registry_ok (abs_mem s)"
    by (simp add: mem_ready_def mem_ok_def)
  show "mem_ready n s \<Longrightarrow> call_ok c \<Longrightarrow> no_new_id c \<Longrightarrow> mem_ready n (snd (mem_exec c s))"
    by (rule mem_ready_step)
  show "mem_ready (Suc n) s \<Longrightarrow> \<not> no_new_id c \<Longrightarrow> mem_ready n (snd (mem_exec c s))"
    using mem_ready_mint by blast
  show "mem_ready (Suc n) s \<Longrightarrow> \<not> no_new_id c \<Longrightarrow> fst (mem_exec c s) \<noteq> RErr (StSql m)"
    using mem_ready_mint by blast
  show "mem_ready n s \<Longrightarrow> rg_spaces (abs_mem s) i = Some sp \<Longrightarrow> 0 \<le> sp_position sp" for i sp
    by (auto simp: mem_ready_def positions_ok_def)
  show "mem_ready n s \<Longrightarrow> rg_spaces (abs_mem s) i \<noteq> None \<Longrightarrow> \<exists>x. i = ''space_'' @ x" for i
    by (auto simp: mem_ready_def mem_ok_def maps_ok_def below_def)
qed

section \<open>The SQLite adapter\<close>

text \<open>Identifiers with different counters are different.\<close>

lemma hex_digit_inj: "a < 16 \<Longrightarrow> b < 16 \<Longrightarrow> hex_digit a = hex_digit b \<longleftrightarrow> a = b"
  by (auto simp: hex_digit_def of_char_of simp flip: char_of_eq_iff split: if_splits)

lemma hex_not_Nil [simp]: "hex n \<noteq> []" "[] \<noteq> hex n"
  by (simp_all add: hex.simps [of n])

lemma hex_inj: "hex a = hex b \<Longrightarrow> a = b"
proof (induction a arbitrary: b rule: hex.induct)
  case (1 a)
  show ?case
  proof (cases "a < 16 \<or> b < 16")
    case True
    with 1(2) show ?thesis
      by (auto simp: hex.simps [of a] hex.simps [of b] hex_digit_inj split: if_splits)
  next
    case False
    then have "hex (a div 16) = hex (b div 16)" "a mod 16 = b mod 16"
      using 1(2) by (simp_all add: hex.simps [of a] hex.simps [of b] hex_digit_inj)
    with 1(1) False show ?thesis
      by (metis div_mult_mod_eq)
  qed
qed

lemma hex_no_underscore: "CHR ''_'' \<notin> set (hex n)"
proof (induction n rule: hex.induct)
  case (1 n)
  have digit: "hex_digit d \<noteq> CHR ''_''" if "d < 16" for d
    using that by (auto simp: hex_digit_def char_of_eq_iff take_bit_nat_eq_self)
  with 1 digit [symmetric] show ?case
    by (auto simp: hex.simps [of n])
qed

lemma suffix_unique:
  assumes "xs @ u # ys = xs' @ u # ys'" and "u \<notin> set ys" and "u \<notin> set ys'"
  shows "ys = ys'"
proof -
  have "takeWhile (\<lambda>v. v \<noteq> u) (rev (xs @ u # ys)) = rev ys" if "u \<notin> set ys" for xs ys
    using that by (simp, subst takeWhile_append2) auto
  with assms show ?thesis
    by (metis rev_rev_ident)
qed

definition counted :: "string \<Rightarrow> nat \<Rightarrow> string \<Rightarrow> bool" where
  "counted kind n i = (\<exists>t j. j < n \<and> i = kind @ ''_'' @ hex t @ ''_'' @ hex j)"

lemma counted_fresh: "\<not> counted kind n (kind @ ''_'' @ hex t @ ''_'' @ hex n)"
proof
  assume "counted kind n (kind @ ''_'' @ hex t @ ''_'' @ hex n)"
  then obtain t' j where j: "j < n"
    and eq: "kind @ ''_'' @ hex t @ ''_'' @ hex n = kind @ ''_'' @ hex t' @ ''_'' @ hex j"
    unfolding counted_def by blast
  have "hex n = hex j"
    by (rule suffix_unique [of "kind @ ''_'' @ hex t" "CHR ''_''" _ "kind @ ''_'' @ hex t'"])
      (use eq hex_no_underscore in simp_all)
  then show False
    using hex_inj j by blast
qed

lemma counted_Suc: "counted kind n i \<Longrightarrow> counted kind (Suc n) i"
  by (auto simp: counted_def less_Suc_eq)

definition names_ok :: "nat \<Rightarrow> registry \<Rightarrow> bool" where
  "names_ok n r \<longleftrightarrow>
     (\<forall>i. rg_spaces r i \<noteq> None \<longrightarrow> counted ''space'' n i) \<and>
     (\<forall>i. rg_projects r i \<noteq> None \<longrightarrow> counted ''project'' n i) \<and>
     (\<forall>i. rg_tags r i \<noteq> None \<longrightarrow> counted ''tag'' n i)"

lemma names_ok_step:
  assumes "spec c r x r'" and "no_new_id c" and "names_ok n r"
  shows "names_ok n r'"
proof -
  have "(rg_spaces r' i \<noteq> None \<longrightarrow> rg_spaces r i \<noteq> None) \<and>
      (rg_projects r' i \<noteq> None \<longrightarrow> rg_projects r i \<noteq> None) \<and>
      (rg_tags r' i \<noteq> None \<longrightarrow> rg_tags r i \<noteq> None)" for i
    using assms(1,2)
    by (cases c) (auto simp: Let_def reg_add_meeting_def reg_add_note_def reg_drop_notes_def
        reg_delete_meeting_def reg_delete_projects_def reg_delete_space_def reg_delete_tag_def
        reg_place_def keep_only_Some elim!: guardedE split: if_splits option.splits)
  with assms(3) show ?thesis
    unfolding names_ok_def by blast
qed

lemma names_ok_Suc: "names_ok n r \<Longrightarrow> names_ok (Suc n) r"
  using counted_Suc by (auto simp: names_ok_def)

lemma insert_counter:
  "insert_meeting d row s = Inr s' \<Longrightarrow> db_id_counter s' = db_id_counter s"
  "insert_note n s = Inr s' \<Longrightarrow> db_id_counter s' = db_id_counter s"
  by (auto simp: insert_meeting_def insert_note_def Let_def split: if_splits)

lemma sqlite_counter_step:
  "no_new_id c \<Longrightarrow> db_id_counter (snd (sqlite_exec d c s)) = db_id_counter s"
  by (cases c) (auto simp: reply_def create_meeting_def get_meeting_def list_meetings_def
      list_meetings_filtered_def update_meeting_ended_def rename_meeting_def delete_meeting_def
      create_note_def list_notes_for_meeting_def replace_meeting_note_def list_spaces_def
      rename_space_def delete_space_def drop_space_def drop_projects_def list_projects_def
      rename_project_def delete_project_def list_tags_def delete_tag_def tag_meeting_def
      untag_meeting_def with_meeting_and_tag_def list_tags_for_meeting_def assign_meeting_def
      set_place_def update_meeting_def create_meeting_with_note_def Let_def case_prod_beta
      dest!: insert_counter split: sum.split option.split)

definition sqlite_ready :: "nat \<Rightarrow> db \<Rightarrow> bool" where
  "sqlite_ready n s \<longleftrightarrow> db_ok s \<and> positions_ok n (abs_db s) \<and>
     names_ok (db_id_counter s) (abs_db s) \<and> db_id_counter s + n < 2 ^ 63"

lemma sqlite_ready_step:
  "sqlite_ready n s \<Longrightarrow> call_ok c \<Longrightarrow> no_new_id c \<Longrightarrow> sqlite_ready n (snd (sqlite_exec d c s))"
  using sqlite.exec_ok [of s c d] sqlite.exec_spec [of s c d] positions_ok_step names_ok_step
  by (auto simp: sqlite_ready_def sqlite_counter_step)

text \<open>
  A call for a new identifier: the counter goes up, or nothing changes; a row that is added carries
  the old counter, so that no row has its identifier.
\<close>

lemma new_id_simps:
  assumes "db_id_counter s + 1 < 2 ^ 63"
  shows "new_id kind now s = (kind @ ''_'' @ hex (ck_nanos now) @ ''_'' @ hex (db_id_counter s),
    s\<lparr>db_id_counter := Suc (db_id_counter s)\<rparr>)"
proof -
  have "u64_add (db_id_counter s) 1 = db_id_counter s + 1"
    using assms by (intro u64_add_exact) simp
  then show ?thesis
    by (simp add: new_id_def Let_def)
qed

lemma counted_new: "counted kind (Suc n) (kind @ ''_'' @ hex t @ ''_'' @ hex n)"
  unfolding counted_def by blast

lemma counter_abs [simp]: "abs_db (s\<lparr>db_id_counter := n\<rparr>) = abs_db s"
  by (simp add: abs_db_def)

lemma names_ok_add:
  "names_ok n r \<Longrightarrow> counted ''space'' n i \<Longrightarrow> names_ok n (r\<lparr>rg_spaces := (rg_spaces r)(i \<mapsto> sp)\<rparr>)"
  "names_ok n r \<Longrightarrow> counted ''project'' n i \<Longrightarrow> names_ok n (r\<lparr>rg_projects := (rg_projects r)(i \<mapsto> q)\<rparr>)"
  "names_ok n r \<Longrightarrow> counted ''tag'' n i \<Longrightarrow> names_ok n (r\<lparr>rg_tags := (rg_tags r)(i \<mapsto> u)\<rparr>)"
  by (auto simp: names_ok_def)

lemma sqlite_readyI:
  "db_ok s \<Longrightarrow> positions_ok n (abs_db s) \<Longrightarrow> names_ok k (abs_db s) \<Longrightarrow> db_id_counter s = k \<Longrightarrow>
     k + n < 2 ^ 63 \<Longrightarrow> sqlite_ready n s"
  by (simp add: sqlite_ready_def)

lemma sqlite_ready_mint:
  assumes "sqlite_ready (Suc n) s" and "\<not> no_new_id c"
  shows "sqlite_ready n (snd (sqlite_exec d c s)) \<and> fst (sqlite_exec d c s) \<noteq> RErr (StSql m)"
proof -
  let ?k = "db_id_counter s"
  have ok: "db_ok s" and p: "positions_ok (Suc n) (abs_db s)" and names: "names_ok ?k (abs_db s)"
    and k: "?k + 1 + n < 2 ^ 63"
    using assms(1) by (simp_all add: sqlite_ready_def)
  have t: "tables_ok s"
    using ok by (simp add: db_ok_def)
  have c: "call_ok c"
    using assms(2) by (cases c) simp_all
  have ok': "db_ok (snd (sqlite_exec d c s))"
    using sqlite.exec_ok [OF ok c] .
  note sp = sqlite.exec_spec [OF ok c, of d]
  have new: "new_id kind now s = (kind @ ''_'' @ hex (ck_nanos now) @ ''_'' @ hex ?k,
      s\<lparr>db_id_counter := Suc ?k\<rparr>)" for kind now
    using k by (intro new_id_simps) simp
  have same: ?thesis if "snd (sqlite_exec d c s) = s" "fst (sqlite_exec d c s) \<noteq> RErr (StSql m)"
    using that ok p names k positions_ok_less [OF p] by (simp add: sqlite_ready_def)
  show ?thesis
  proof (cases c)
    case (CreateSpace now name)
    let ?i = "''space_'' @ hex (ck_nanos now) @ ''_'' @ hex ?k"
    have i: "rg_spaces (abs_db s) ?i = None"
      using names counted_fresh [of "''space''" ?k "ck_nanos now"] by (auto simp: names_ok_def simp del: abs_db_sel)
    then have l: "lookup space_key (db_spaces s) ?i = None"
      by simp
    let ?sp = "\<lparr>sp_id = ?i, sp_name = name,
      sp_position = position_after (map (\<lambda>r. sp_position (sr_space r)) (db_spaces s))\<rparr>"
    have run: "sqlite_exec d c s = (RSpace ?sp, s\<lparr>db_id_counter := Suc ?k,
        db_spaces := db_spaces s @ [\<lparr>sr_space = ?sp, sr_created_at = ck_rfc3339 now\<rparr>]\<rparr>)"
      using l new [of "''space''" now] by (simp add: CreateSpace create_space_def Let_def)
    then have r': "abs_db (snd (sqlite_exec d c s)) = (abs_db s)\<lparr>rg_spaces := (rg_spaces (abs_db s))(?i \<mapsto> ?sp)\<rparr>"
      using sp CreateSpace by (auto simp del: abs_db_sel)
    have "positions_ok n (abs_db (snd (sqlite_exec d c s)))"
      by (rule positions_ok_add [OF p, of "map (\<lambda>r. sp_position (sr_space r)) (db_spaces s)" _ ?sp])
        (simp_all add: r' spaces_values [OF t] image_image del: abs_db_sel)
    then have "sqlite_ready n (snd (sqlite_exec d c s))"
    proof (rule sqlite_readyI [OF ok'])
      show "names_ok (Suc ?k) (abs_db (snd (sqlite_exec d c s)))"
        unfolding r' using counted_new [of "''space''" ?k "ck_nanos now"]
        by (intro names_ok_add names_ok_Suc [OF names]) simp
    qed (use run k in simp_all)
    with run show ?thesis by simp
  next
    case (CreateProject now i name)
    let ?i = "''project_'' @ hex (ck_nanos now) @ ''_'' @ hex ?k"
    have "rg_projects (abs_db s) ?i = None"
      using names counted_fresh [of "''project''" ?k "ck_nanos now"]
      by (auto simp: names_ok_def simp del: abs_db_sel)
    then have l: "lookup project_key (db_projects s) ?i = None"
      by simp
    show ?thesis
    proof (cases "lookup space_key (db_spaces s) i")
      case None
      then show ?thesis
        by (intro same) (simp_all add: CreateProject create_project_def ensure_row_exists_def not_found_def)
    next
      case (Some row)
      then obtain pj where run: "sqlite_exec d c s = (RProject pj, s\<lparr>db_id_counter := Suc ?k,
          db_projects := db_projects s @ [\<lparr>pr_project = pj, pr_created_at = ck_rfc3339 now\<rparr>]\<rparr>)"
        and pj: "pj_id pj = ?i"
        using l new [of "''project''" now]
        by (simp add: CreateProject create_project_def ensure_row_exists_def Let_def)
      have r': "abs_db (snd (sqlite_exec d c s)) =
          (abs_db s)\<lparr>rg_projects := (rg_projects (abs_db s))(?i \<mapsto> pj)\<rparr>"
        using sp CreateProject run pj by (auto simp: guarded_def split: if_splits simp del: abs_db_sel)
      have "sqlite_ready n (snd (sqlite_exec d c s))"
      proof (rule sqlite_readyI [OF ok'])
        show "positions_ok n (abs_db (snd (sqlite_exec d c s)))"
          unfolding r' using positions_ok_less [OF p] by (simp add: positions_ok_def)
        show "names_ok (Suc ?k) (abs_db (snd (sqlite_exec d c s)))"
          unfolding r' using counted_new [of "''project''" ?k "ck_nanos now"]
          by (intro names_ok_add names_ok_Suc [OF names]) simp
      qed (use run k in simp_all)
      with run show ?thesis by simp
    qed
  next
    case (CreateTag now name)
    let ?i = "''tag_'' @ hex (ck_nanos now) @ ''_'' @ hex ?k"
    have "rg_tags (abs_db s) ?i = None"
      using names counted_fresh [of "''tag''" ?k "ck_nanos now"]
      by (auto simp: names_ok_def simp del: abs_db_sel)
    then have l: "lookup tag_key (db_tags s) ?i = None"
      by simp
    show ?thesis
    proof (cases "get_tag_by_name s name")
      case (Some u)
      then show ?thesis
        by (intro same) (simp_all add: CreateTag create_tag_def)
    next
      case None
      then have run: "sqlite_exec d c s = (RTag \<lparr>tg_id = ?i, tg_name = name\<rparr>,
          s\<lparr>db_id_counter := Suc ?k, db_tags := db_tags s @
            [\<lparr>gr_tag = \<lparr>tg_id = ?i, tg_name = name\<rparr>, gr_created_at = ck_rfc3339 now\<rparr>]\<rparr>)"
        using l new [of "''tag''" now] by (simp add: CreateTag create_tag_def Let_def)
      have fresh: "\<not> (\<exists>t \<in> values_of (rg_tags (abs_db s)). tg_name t = name)"
        using get_tag_by_name_abs [OF t, of name] None by (simp del: abs_db_sel)
      have r': "abs_db (snd (sqlite_exec d c s)) =
          (abs_db s)\<lparr>rg_tags := (rg_tags (abs_db s))(?i \<mapsto> \<lparr>tg_id = ?i, tg_name = name\<rparr>)\<rparr>"
        using sp CreateTag run fresh by (auto split: if_splits simp del: abs_db_sel)
      have "sqlite_ready n (snd (sqlite_exec d c s))"
      proof (rule sqlite_readyI [OF ok'])
        show "positions_ok n (abs_db (snd (sqlite_exec d c s)))"
          unfolding r' using positions_ok_less [OF p] by (simp add: positions_ok_def)
        show "names_ok (Suc ?k) (abs_db (snd (sqlite_exec d c s)))"
          unfolding r' using counted_new [of "''tag''" ?k "ck_nanos now"]
          by (intro names_ok_add names_ok_Suc [OF names]) simp
      qed (use run k in simp_all)
      with run show ?thesis by simp
    qed
  qed (use assms(2) in simp_all)
qed

interpretation sqlite_names: naming_port "sqlite_exec dir_first" db_ok abs_db fresh_db sqlite_ready
  for dir_first
proof
  show "sqlite_ready 64 fresh_db"
    by (simp add: sqlite_ready_def fresh_db_ok fresh_db_abs del: abs_db_sel)
      (simp add: positions_ok_def names_ok_def empty_registry_def fresh_db_def)
  fix n s c m
  show "sqlite_ready n s \<Longrightarrow> db_ok s"
    by (simp add: sqlite_ready_def)
  show "sqlite_ready n s \<Longrightarrow> registry_ok (abs_db s)"
    by (simp add: sqlite_ready_def db_ok_def)
  show "sqlite_ready n s \<Longrightarrow> call_ok c \<Longrightarrow> no_new_id c \<Longrightarrow>
      sqlite_ready n (snd (sqlite_exec dir_first c s))"
    by (rule sqlite_ready_step)
  show "sqlite_ready (Suc n) s \<Longrightarrow> \<not> no_new_id c \<Longrightarrow> sqlite_ready n (snd (sqlite_exec dir_first c s))"
    using sqlite_ready_mint by blast
  show "sqlite_ready (Suc n) s \<Longrightarrow> \<not> no_new_id c \<Longrightarrow> fst (sqlite_exec dir_first c s) \<noteq> RErr (StSql m)"
    using sqlite_ready_mint by blast
  show "sqlite_ready n s \<Longrightarrow> rg_spaces (abs_db s) i = Some sp \<Longrightarrow> 0 \<le> sp_position sp" for i sp
    by (auto simp: sqlite_ready_def positions_ok_def simp del: abs_db_sel)
  show "sqlite_ready n s \<Longrightarrow> rg_spaces (abs_db s) i \<noteq> None \<Longrightarrow> \<exists>x. i = ''space_'' @ x" for i
    by (auto simp: sqlite_ready_def names_ok_def counted_def simp del: abs_db_sel)
qed

section \<open>The property\<close>

text \<open>C11: The conformance suite of the repository follows from the specification of the storage port:
  both adapters, started empty, pass all its scenarios in their order, for every sequence of clock
  readings whose texts are not empty and do not go back.\<close>

theorem storage_suite_passes:
  assumes "\<And>i. ck_rfc3339 (clk i) \<noteq> []" and "\<And>i. ck_rfc3339 (clk i) \<le> ck_rfc3339 (clk (Suc i))"
  shows "(\<exists>t. run_storage_suite (timed (sqlite_exec dir_first) clk) (fresh_db, 0) = Some t) \<and>
    (\<exists>t. run_storage_suite (timed mem_exec clk) (new_mem, 0) = Some t)"
  using sqlite_names.suite_passes [where clk = clk, OF assms]
    memory_names.suite_passes [where clk = clk, OF assms] by blast

theorem storage_suite_passes_witness:
  "\<exists>t. run_storage_suite (timed (sqlite_exec True) (\<lambda>i. \<lparr>ck_rfc3339 = ''2026-01-02'', ck_nanos = i\<rparr>))
    (fresh_db, 0) = Some t"
  using storage_suite_passes [of "\<lambda>i. \<lparr>ck_rfc3339 = ''2026-01-02'', ck_nanos = i\<rparr>" True] by simp

end
