(* ===== verification/Port_Suites.thy ===== *)
theory Port_Suites
  imports Meeting_Stores Storage_Suite Llm_Adapters "HOL-Library.Code_Target_Nat"
begin

text \<open>
  Two more conformance suites of \<open>panops-core/src/conformance\<close>. That of the per-meeting store,
  \<open>meeting_store.rs\<close>: the six scenarios of \<open>run_suite\<close> over the eight methods of the trait, which are
  the fields of a record; both adapters pass it on a fresh store, and the run is evaluated. That of
  the language models, \<open>llm.rs\<close>: the two round trips and the error contract, with the fakes that pass
  them. As in \<open>Storage_Suite\<close>, a failed check is \<open>None\<close>.
\<close>

section \<open>The methods of the trait\<close>

record 's meeting_store =
  st_create_segment :: "segment_draft \<Rightarrow> 's \<Rightarrow> segment_row store_result \<times> 's"
  st_list_segments :: "string \<Rightarrow> 's \<Rightarrow> segment_row list store_result"
  st_create_screenshot :: "screenshot_draft \<Rightarrow> 's \<Rightarrow> screenshot_row store_result \<times> 's"
  st_list_screenshots :: "string \<Rightarrow> 's \<Rightarrow> screenshot_row list store_result"
  st_create_speaker :: "speaker_draft \<Rightarrow> 's \<Rightarrow> speaker_row store_result \<times> 's"
  st_list_speakers :: "string \<Rightarrow> 's \<Rightarrow> speaker_row list store_result"
  st_get_speaker :: "int \<Rightarrow> 's \<Rightarrow> speaker_row store_result"
  st_update_speaker_label :: "int \<Rightarrow> string \<Rightarrow> 's \<Rightarrow> speaker_row store_result \<times> 's"

definition rusqlite_meeting_store :: "meeting_db meeting_store" where
  "rusqlite_meeting_store =
     \<lparr>st_create_segment = create_segment, st_list_segments = list_segments,
      st_create_screenshot = create_screenshot, st_list_screenshots = list_screenshots,
      st_create_speaker = create_speaker, st_list_speakers = list_speakers,
      st_get_speaker = get_speaker, st_update_speaker_label = update_speaker_label\<rparr>"

definition in_memory_meeting_store :: "meeting_mem meeting_store" where
  "in_memory_meeting_store =
     \<lparr>st_create_segment = mm_create_segment, st_list_segments = mm_list_segments,
      st_create_screenshot = mm_create_screenshot, st_list_screenshots = mm_list_screenshots,
      st_create_speaker = mm_create_speaker, st_list_speakers = mm_list_speakers,
      st_get_speaker = mm_get_speaker, st_update_speaker_label = mm_update_speaker_label\<rparr>"

text \<open>\<open>expect\<close> on the result of a method that changes the store, and of one that reads it.\<close>

definition expect_row :: "'a store_result \<times> 's \<Rightarrow> ('a \<times> 's) option" where
  "expect_row r = (case fst r of Inl e \<Rightarrow> None | Inr x \<Rightarrow> Some (x, snd r))"

definition expect_read :: "'a store_result \<Rightarrow> 'a option" where
  "expect_read r = (case r of Inl e \<Rightarrow> None | Inr x \<Rightarrow> Some x)"

definition expect_store_err :: "'a store_result \<Rightarrow> meeting_store_error option" where
  "expect_store_err r = (case r of Inl e \<Rightarrow> Some e | Inr x \<Rightarrow> None)"

section \<open>The scenarios\<close>

text \<open>The confidences 0.9 and 0.8 are given by their bit patterns.\<close>

definition create_and_list_segments :: "'s meeting_store \<Rightarrow> 's \<Rightarrow> 's option" where
  "create_and_list_segments a s = do {
     (s1, s) \<leftarrow> expect_row (st_create_segment a
       \<lparr>sgd_meeting_id = ''test_meeting_001'', sgd_start_ms = 0, sgd_end_ms = 1000,
        sgd_text = ''hello world'', sgd_language = Some ''en'', sgd_confidence = Some 0x3F666666,
        sgd_speaker_id = None, sgd_source = ''post_pass''\<rparr> s);
     assert_that (sgr_id s1 > 0);
     assert_that (sgd_meeting_id (sgr_draft s1) = ''test_meeting_001'');
     assert_that (sgd_text (sgr_draft s1) = ''hello world'');
     (s2, s) \<leftarrow> expect_row (st_create_segment a
       \<lparr>sgd_meeting_id = ''test_meeting_001'', sgd_start_ms = 2000, sgd_end_ms = 3000,
        sgd_text = ''goodbye'', sgd_language = Some ''en'', sgd_confidence = Some 0x3F4CCCCD,
        sgd_speaker_id = None, sgd_source = ''post_pass''\<rparr> s);
     segments \<leftarrow> expect_read (st_list_segments a ''test_meeting_001'' s);
     assert_that (length segments = 2);
     assert_that (sgr_id (segments ! 0) = sgr_id s1);
     assert_that (sgr_id (segments ! 1) = sgr_id s2);
     Some s
   }"

definition create_and_list_screenshots :: "'s meeting_store \<Rightarrow> 's \<Rightarrow> 's option" where
  "create_and_list_screenshots a s = do {
     (sc1, s) \<leftarrow> expect_row (st_create_screenshot a
       \<lparr>shd_meeting_id = ''test_meeting_screenshots'', shd_timestamp_ms = 5000,
        shd_path = ''/tmp/screenshots/001.jpg'', shd_feature_print = None, shd_caption = None\<rparr> s);
     assert_that (shr_id sc1 > 0);
     assert_that (shd_meeting_id (shr_draft sc1) = ''test_meeting_screenshots'');
     (sc2, s) \<leftarrow> expect_row (st_create_screenshot a
       \<lparr>shd_meeting_id = ''test_meeting_screenshots'', shd_timestamp_ms = 10000,
        shd_path = ''/tmp/screenshots/002.jpg'', shd_feature_print = None, shd_caption = None\<rparr> s);
     screenshots \<leftarrow> expect_read (st_list_screenshots a ''test_meeting_screenshots'' s);
     assert_that (length screenshots = 2);
     assert_that (shr_id (screenshots ! 0) = shr_id sc1);
     assert_that (shr_id (screenshots ! 1) = shr_id sc2);
     Some s
   }"

definition test_speaker :: "string \<Rightarrow> string \<Rightarrow> speaker_draft" where
  "test_speaker m l = \<lparr>spd_meeting_id = m, spd_label = l, spd_embedding = None\<rparr>"

definition create_and_list_speakers :: "'s meeting_store \<Rightarrow> 's \<Rightarrow> 's option" where
  "create_and_list_speakers a s = do {
     (sp1, s) \<leftarrow> expect_row (st_create_speaker a (test_speaker ''test_meeting_speakers'' ''Speaker A'') s);
     assert_that (spr_id sp1 > 0);
     assert_that (spd_meeting_id (spr_draft sp1) = ''test_meeting_speakers'');
     assert_that (spd_label (spr_draft sp1) = ''Speaker A'');
     (sp2, s) \<leftarrow> expect_row (st_create_speaker a (test_speaker ''test_meeting_speakers'' ''Speaker B'') s);
     speakers \<leftarrow> expect_read (st_list_speakers a ''test_meeting_speakers'' s);
     assert_that (length speakers = 2);
     let ids = map spr_id speakers;
     assert_that (spr_id sp1 \<in> set ids);
     assert_that (spr_id sp2 \<in> set ids);
     Some s
   }"

definition get_speaker_scenario :: "'s meeting_store \<Rightarrow> 's \<Rightarrow> 's option" where
  "get_speaker_scenario a s = do {
     (sp, s) \<leftarrow> expect_row (st_create_speaker a (test_speaker ''test_meeting_get_speaker'' ''Speaker X'') s);
     fetched \<leftarrow> expect_read (st_get_speaker a (spr_id sp) s);
     assert_that (spr_id fetched = spr_id sp);
     assert_that (spd_label (spr_draft fetched) = ''Speaker X'');
     Some s
   }"

definition update_speaker_label_scenario :: "'s meeting_store \<Rightarrow> 's \<Rightarrow> 's option" where
  "update_speaker_label_scenario a s = do {
     (sp, s) \<leftarrow> expect_row
       (st_create_speaker a (test_speaker ''test_meeting_update_speaker'' ''Original Label'') s);
     (updated, s) \<leftarrow> expect_row (st_update_speaker_label a (spr_id sp) ''New Label'' s);
     assert_that (spr_id updated = spr_id sp);
     assert_that (spd_label (spr_draft updated) = ''New Label'');
     fetched \<leftarrow> expect_read (st_get_speaker a (spr_id sp) s);
     assert_that (spd_label (spr_draft fetched) = ''New Label'');
     Some s
   }"

definition get_nonexistent_speaker :: "'s meeting_store \<Rightarrow> 's \<Rightarrow> 's option" where
  "get_nonexistent_speaker a s = do {
     err \<leftarrow> expect_store_err (st_get_speaker a 999999 s);
     assert_that (err = MsSpeakerNotFound 999999);
     Some s
   }"

definition run_meeting_store_suite :: "'s meeting_store \<Rightarrow> 's \<Rightarrow> 's option" where
  "run_meeting_store_suite a s = do {
     s \<leftarrow> create_and_list_segments a s;
     s \<leftarrow> create_and_list_screenshots a s;
     s \<leftarrow> create_and_list_speakers a s;
     s \<leftarrow> get_speaker_scenario a s;
     s \<leftarrow> update_speaker_label_scenario a s;
     get_nonexistent_speaker a s
   }"

section \<open>Both adapters pass\<close>

lemma sqlite_store_passes: "run_meeting_store_suite rusqlite_meeting_store fresh_meeting_db \<noteq> None"
  by code_simp

lemma memory_store_passes: "run_meeting_store_suite in_memory_meeting_store new_meeting_mem \<noteq> None"
  by code_simp

lemma meeting_store_suite_passes:
  "run_meeting_store_suite rusqlite_meeting_store fresh_meeting_db \<noteq> None \<and>
   run_meeting_store_suite in_memory_meeting_store new_meeting_mem \<noteq> None"
  using sqlite_store_passes memory_store_passes by blast

section \<open>Language models\<close>

text \<open>A provider answers a request, or panics (\<open>None\<close>).\<close>

type_synonym provider = "llm_request \<Rightarrow> llm_result option"

definition text_response_round_trip :: "provider \<Rightarrow> unit option" where
  "text_response_round_trip complete = do {
     r \<leftarrow> complete \<lparr>req_system = None, req_user = ''say hi'', req_schema = None,
       req_temperature = 0x3E4CCCCD, req_max_tokens = 16\<rparr>;
     (case r of
        Inr (LlmText s) \<Rightarrow> assert_that (s \<noteq> [])
      | _ \<Rightarrow> None)
   }"

definition json_response_round_trip :: "provider \<Rightarrow> unit option" where
  "json_response_round_trip complete = do {
     r \<leftarrow> complete \<lparr>req_system = None, req_user = ''json please'',
       req_schema = Some (JObject [(''type'', JString ''object'')]),
       req_temperature = 0, req_max_tokens = 64\<rparr>;
     (case r of
        Inr (LlmJson v) \<Rightarrow> assert_that (as_object v \<noteq> None)
      | _ \<Rightarrow> None)
   }"

definition run_llm_suite :: "provider \<Rightarrow> unit option" where
  "run_llm_suite complete = do {
     text_response_round_trip complete;
     json_response_round_trip complete
   }"

definition error_probe_user :: string where
  "error_probe_user = ''conformance: force backend failure''"

definition error_probe_request :: llm_request where
  "error_probe_request = \<lparr>req_system = None, req_user = error_probe_user, req_schema = None,
     req_temperature = 0, req_max_tokens = 16\<rparr>"

definition run_error_suite :: "provider \<Rightarrow> unit option" where
  "run_error_suite failing =
     (case failing error_probe_request of
        None \<Rightarrow> None
      | Some (Inr _) \<Rightarrow> None
      | Some (Inl _) \<Rightarrow> Some ())"

definition assert_empty_response :: "provider \<Rightarrow> unit option" where
  "assert_empty_response empty_provider = do {
     r \<leftarrow> empty_provider error_probe_request;
     assert_that (r = Inl LlmEmptyResponse)
   }"

text \<open>
  The scripted fake passes the round trips when it is scripted with a text that is not empty and an
  object, and the hash tells the two prompts apart; scripted with an error it passes the error suite,
  as the failing fake always does.
\<close>

lemma mock_passes_llm_suite:
  assumes "prompt_fingerprint sha None ''say hi'' \<noteq> prompt_fingerprint sha None ''json please''"
    and "s \<noteq> []"
  shows "run_llm_suite (mock_complete sha
    (with_response_for sha None ''json please'' (LlmJson (JObject kvs))
      (with_response_for sha None ''say hi'' (LlmText s) m))) = Some ()"
  using assms
  by (simp add: run_llm_suite_def text_response_round_trip_def json_response_round_trip_def
      mock_complete_def with_response_for_def assert_that_def)

lemma fakes_pass_error_suite:
  "run_error_suite (mock_complete sha (with_error_for sha None error_probe_user e m)) = Some ()"
  "run_error_suite (\<lambda>req. Some (failing_complete mode req)) = Some ()"
  "assert_empty_response (\<lambda>req. Some (failing_complete FailEmpty req)) = Some ()"
  by (simp_all add: run_error_suite_def assert_empty_response_def error_probe_request_def
      mock_complete_def with_error_for_def failing_complete_def assert_that_def
      split: fail_mode.split)

end
