(* ===== verification/Spec2Isabelle.thy ===== *)
theory Spec2Isabelle
  imports Pipeline_Correct Merge Recursive_Asr Sqlite_Schema Memory_Correct
    Raw_Transcript Markdown_Files Wer Meeting_Stores Notes_Correct
    Model_Properties Language_Correct Diarizer_Correct Speech_Correct Socket_Engines Llm_Adapters
    Cli_Examples Suite_Adapters Port_Suites
begin

text \<open>
  A model of the Rust code of panops, a local meeting-notes engine, and its correctness.

  \<^bold>\<open>The program.\<close> A recording is made by a capture sidecar; its audio is cut into speech regions and
  transcribed; speaker turns are merged into the transcript; the notes pipeline cuts the transcript
  into topic sections, asks a language model for each, checks the answers and builds structured notes;
  an exporter writes them as Markdown; a registry keeps meetings, notes, spaces, projects and tags. A
  server offers all this on a socket and runs notes jobs from a queue; a command-line program runs it
  once. Ports are Rust traits; the adapters behind them are modelled, what they call (SQLite, whisper,
  sherpa, chat clients, operating-system processes) is a parameter.

  \<^bold>\<open>Theories and code.\<close> Paths are under \<open>src/crates\<close>.
  \<^item> \<open>Prelude\<close>, \<open>Rust_Strings\<close>, \<open>Floats\<close>: machine integers, byte strings and the routines of the Rust
    library on them, rounding and single-precision arithmetic on bit patterns.
  \<^item> \<open>Domain\<close>, \<open>Error_Text\<close>: the data types of \<open>panops-core\<close> (\<open>segment.rs\<close>, \<open>diar.rs\<close>, \<open>vad.rs\<close>,
    \<open>notes/ir.rs\<close>, ...) and the texts of its errors.
  \<^item> \<open>Audio\<close>: \<open>panops-portable/src/audio.rs\<close>. \<open>Speech_Adapters\<close>: \<open>whisper_vad.rs\<close>, \<open>whisper_adapter.rs\<close>
    and their fakes; \<open>Speech_Correct\<close> has the contract of a voice detector as a locale and what a
    transcript satisfies. \<open>Diarizer\<close>, \<open>Diarizer_Correct\<close>: \<open>sherpa_diarizer.rs\<close>. \<open>Merge\<close>:
    \<open>panops-core/src/merge.rs\<close>. \<open>Recursive_Asr\<close>: \<open>recursive_asr.rs\<close> and the merging of regions; every
    provider call is in the result, so that the theorems can speak of them. \<open>Wer\<close>: \<open>wer.rs\<close>.
  \<^item> \<open>Verifier\<close>, \<open>Topic_Segmentation\<close>, \<open>Screenshot_Anchoring\<close>, \<open>Llm_Port\<close>, \<open>Prompts\<close>: the stages of
    \<open>panops-core/src/notes\<close>; \<open>Pipeline\<close> composes them as \<open>notes/pipeline.rs\<close> does, and
    \<open>Pipeline_Correct\<close> has what a run guarantees: attribution, prompt budgets, number of calls,
    sections and screenshots kept, behaviour when the provider fails. \<open>Llm_Adapters\<close>: \<open>genai_llm.rs\<close>
    and the fakes of the language model.
  \<^item> \<open>Export_Port\<close>, \<open>Markdown_Text\<close>, \<open>Markdown_Export\<close>, \<open>Markdown_Files\<close>: \<open>exporter.rs\<close> with its contract
    as a locale, and \<open>markdown_exporter.rs\<close>: front matter, quoting, copies of screenshots.
    \<open>Raw_Transcript\<close>: \<open>notes/raw_transcript.rs\<close>.
  \<^item> \<open>Storage_Types\<close>, \<open>Tables\<close>: the data of \<open>panops-core/src/storage.rs\<close>, tables and hash maps.
    \<open>Storage_Port\<close> is the abstract specification of the \<open>Storage\<close> trait - a registry of finite maps
    and a relation for each call - and the interface \<open>storage_port\<close>. \<open>Sqlite_Storage\<close> and
    \<open>Memory_Storage\<close> are the two adapters (\<open>rusqlite_storage.rs\<close>, \<open>conformance/fakes.rs\<close>),
    \<open>Sqlite_Correct\<close> and \<open>Memory_Correct\<close> their refinement proofs, \<open>Storage_Agreement\<close> what follows for
    any two adapters. \<open>Sqlite_Schema\<close> is the opening and migration of the database file.
    \<open>Meeting_Store_Port\<close>, \<open>Meeting_Stores\<close>: the same for the per-meeting store.
  \<^item> \<open>Storage_Suite\<close>: the conformance suite of the storage port (\<open>conformance/storage.rs\<close>) as a program
    over any adapter. \<open>Suite_Rules\<close>, \<open>Suite_Port\<close>, \<open>Suite_Scenarios\<close>, \<open>Suite_Org\<close> derive each scenario
    from the specification of the port, one weakest-precondition rule for each method, and
    \<open>Suite_Adapters\<close> interprets this on both adapters. \<open>Port_Suites\<close>: the suites of the per-meeting
    store and of the language models.
  \<^item> \<open>Capture_Port\<close>: \<open>capture.rs\<close>, the fake and the placeholder. \<open>Sidecar\<close>: the client of
    newline-delimited JSON-RPC that the adapters of \<open>panops-mac\<close> share; \<open>Capture_Sidecar\<close> and
    \<open>Language_Sidecars\<close> are those adapters and the resolvers that choose among them,
    \<open>Sidecar_Correct\<close> and \<open>Language_Correct\<close> pair answers with requests, show which tracks a recording
    brings back and that a wedged sidecar does not block the choice of a model.
  \<^item> \<open>Protocol\<close>: \<open>panops-protocol\<close>. \<open>Engine_Paths\<close>, \<open>Engine\<close>: the handlers of
    \<open>panops-engine/src/server/handlers.rs\<close> over the storage port, the capture port and the files;
    \<open>Engine_Correct\<close> and \<open>Engine_Properties\<close> what they keep. \<open>Notes_Jobs\<close> is the queue of notes jobs,
    \<open>Notes_Run\<close> a whole job, \<open>Notes_Correct\<close> what a job guarantees. \<open>Engine_Socket\<close>: \<open>server/socket.rs\<close>,
    as one call and one system call at a time; \<open>Socket_Correct\<close> and \<open>Socket_Engines\<close> show what a
    start-up and several interleaved engines do.
  \<^item> \<open>Model_Files\<close>, \<open>Model_Download\<close>: \<open>model.rs\<close> over a disk whose operations may fail at any time;
    \<open>Model_Correct\<close> and \<open>Model_Properties\<close>: what is handed out is verified, whatever fails.
  \<^item> \<open>Cli\<close>, \<open>Cli_Correct\<close>: \<open>panops-engine/src/main.rs\<close>, the two commands from the models to the registry,
    and the start of the server; \<open>Cli_Examples\<close> evaluates a run.

  \<^bold>\<open>Interfaces.\<close> The locales are \<open>storage_port\<close> and its extensions for two adapters, the engine server,
  the notes jobs and the conformance suite (interpreted on SQLite and on the fake), \<open>notes_exporter\<close> (Markdown and fake),
  \<open>capture_port\<close> (fake and placeholder), \<open>content_table\<close> and \<open>speaker_table\<close> (both per-meeting stores)
  and \<open>voice_detector\<close> (whisper and fake).

  \<^bold>\<open>Conventions.\<close> \<open>u32\<close>, \<open>u64\<close>, \<open>usize\<close> are natural numbers with the wrap-around, saturation or panic of
  the code written out; a string is the list of its UTF-8 bytes; \<open>Result<T, E>\<close> is a sum, a panic or
  a call that never returns \<open>None\<close>; an \<open>f32\<close> is its bit pattern. Structs are records with a prefix for
  each struct.

  \<^bold>\<open>Files.\<close> Most code sees the files as a map from path strings to directories and contents, on which an
  operation fails only for what is in the way. The model download sees them with times of change and a
  schedule of failures, the socket with permissions, the umask and listeners. Paths have no aliases
  and there are no symbolic links, except for what \<open>canonicalize\<close>, a parameter, says.

  \<^bold>\<open>Parameters.\<close> A language model is a function from the number of the call and the request to an
  answer, so it may answer the same request differently; the speech model likewise. The iteration
  order of a hash table is a parameter wherever it can matter. The clock, UUIDs, the serializer and
  parser of JSON texts, SHA-256 and the answers of the network are parameters. Which of two violated
  uniqueness constraints SQLite reports is one too.

  \<^bold>\<open>Bounds.\<close> Recursions follow the code's own measures (segments left, summaries left, recursion
  depth). A registry open has a budget of statements after which the process dies; nine are enough
  for every open. The storage suite asks for at most 64 new identifiers. The reads of a download follow the bytes that are left. A read from a process that
  blocks for ever is \<open>None\<close>; where the code has a deadline, returning is a theorem.

  \<^bold>\<open>Not modelled.\<close> The JSON-RPC server and its runtime (connections, subscriptions, the broadcast channel
  of events, signals), the derived serializers and the field-by-field copies between wire and domain
  structs, the conformance suites that need fixture files (exporter, capture, voice), logging, the
  parser of the command line, the poisoning of locks in most places, and the Swift applications. The libraries for audio, speech, chat, HTTP, archives and SQLite are parameters.
\<close>

end
